(* ===== verification/Prelude.thy ===== *)
theory Prelude
  imports Main "HOL-Library.Word"
begin

text \<open>
  Shared vocabulary of the development: the Rust integer types as machine words with their
  checked, saturating and wrapping operations, slice access, the option combinators the sources
  use, and the lemmas that move word goals to natural numbers.  Lengths and offsets (\<open>usize\<close>)
  are natural numbers; where the source uses checked arithmetic on them the bound is written out.
  Signed quantities (\<open>i32\<close>) are integers with their saturation written out.
\<close>

section \<open>Types\<close>

type_synonym u8 = "8 word"
type_synonym u16 = "16 word"
type_synonym u32 = "32 word"
type_synonym u64 = "64 word"
type_synonym u128 = "128 word"

text \<open>Rust text as the list of its Unicode scalar values.\<close>

type_synonym rust_str = "nat list"

named_theorems unat_rust \<open>the natural-number reading of the Rust word operations\<close>

section \<open>Rust integer operations\<close>

definition checked_add :: "'a::len word \<Rightarrow> 'a word \<Rightarrow> 'a word option" where
  "checked_add a b = (if unat a + unat b < 2 ^ LENGTH('a) then Some (a + b) else None)"

definition saturating_add :: "'a::len word \<Rightarrow> 'a word \<Rightarrow> 'a word" where
  "saturating_add a b = (if unat a + unat b < 2 ^ LENGTH('a) then a + b else - 1)"

definition saturating_sub :: "'a::len word \<Rightarrow> 'a word \<Rightarrow> 'a word" where
  "saturating_sub a b = (if b \<le> a then a - b else 0)"

definition checked_sub :: "'a::len word \<Rightarrow> 'a word \<Rightarrow> 'a word option" where
  "checked_sub a b = (if b \<le> a then Some (a - b) else None)"

definition saturating_mul :: "'a::len word \<Rightarrow> 'a word \<Rightarrow> 'a word" where
  "saturating_mul a b = (if unat a * unat b < 2 ^ LENGTH('a) then a * b else - 1)"

definition checked_mul :: "'a::len word \<Rightarrow> 'a word \<Rightarrow> 'a word option" where
  "checked_mul a b = (if unat a * unat b < 2 ^ LENGTH('a) then Some (a * b) else None)"

definition i32_max :: int where
  "i32_max = 2147483647"

definition i32_min :: int where
  "i32_min = - 2147483648"

definition i32_clamp :: "int \<Rightarrow> int" where
  "i32_clamp x = (if x < i32_min then i32_min else if i32_max < x then i32_max else x)"

definition i32_saturating_sub :: "int \<Rightarrow> int \<Rightarrow> int" where
  "i32_saturating_sub a b = i32_clamp (a - b)"

section \<open>Slices and options\<close>

definition slice_get :: "'a list \<Rightarrow> nat \<Rightarrow> 'a option" where
  "slice_get xs i = (if i < length xs then Some (xs ! i) else None)"

definition slice_range :: "'a list \<Rightarrow> nat \<Rightarrow> nat \<Rightarrow> 'a list option" where
  "slice_range xs i j = (if i \<le> j \<and> j \<le> length xs then Some (take (j - i) (drop i xs)) else None)"

definition starts_with :: "'a list \<Rightarrow> 'a list \<Rightarrow> bool" where
  "starts_with xs p \<longleftrightarrow> take (length p) xs = p"

definition is_some :: "'a option \<Rightarrow> bool" where
  "is_some opt = (case opt of None \<Rightarrow> False | Some _ \<Rightarrow> True)"

definition is_some_and :: "'a option \<Rightarrow> ('a \<Rightarrow> bool) \<Rightarrow> bool" where
  "is_some_and opt P = (case opt of None \<Rightarrow> False | Some x \<Rightarrow> P x)"

definition is_none_or :: "'a option \<Rightarrow> ('a \<Rightarrow> bool) \<Rightarrow> bool" where
  "is_none_or opt P = (case opt of None \<Rightarrow> True | Some x \<Rightarrow> P x)"

definition opt_filter :: "('a \<Rightarrow> bool) \<Rightarrow> 'a option \<Rightarrow> 'a option" where
  "opt_filter P opt = (case opt of None \<Rightarrow> None | Some x \<Rightarrow> if P x then Some x else None)"

definition unwrap_or :: "'a option \<Rightarrow> 'a \<Rightarrow> 'a" where
  "unwrap_or opt d = (case opt of None \<Rightarrow> d | Some x \<Rightarrow> x)"

definition u16_from_be_bytes :: "u8 \<Rightarrow> u8 \<Rightarrow> u16" where
  "u16_from_be_bytes b0 b1 = ucast b0 * 256 + ucast b1"

definition u16_to_be_bytes :: "u16 \<Rightarrow> u8 list" where
  "u16_to_be_bytes w = [ucast (drop_bit 8 w), ucast w]"

definition u32_from_be_bytes :: "u8 \<Rightarrow> u8 \<Rightarrow> u8 \<Rightarrow> u8 \<Rightarrow> u32" where
  "u32_from_be_bytes b0 b1 b2 b3 =
     ucast b0 * 16777216 + ucast b1 * 65536 + ucast b2 * 256 + ucast b3"

definition u32_to_be_bytes :: "u32 \<Rightarrow> u8 list" where
  "u32_to_be_bytes w = [ucast (drop_bit 24 w), ucast (drop_bit 16 w), ucast (drop_bit 8 w), ucast w]"

section \<open>Text\<close>

text \<open>\<open>char::is_whitespace\<close>: the code points with the Unicode property White\_Space.\<close>

definition is_whitespace :: "nat \<Rightarrow> bool" where
  "is_whitespace c \<longleftrightarrow>
     9 \<le> c \<and> c \<le> 13 \<or> c = 32 \<or> c = 133 \<or> c = 160 \<or> c = 5760 \<or> 8192 \<le> c \<and> c \<le> 8202
     \<or> c = 8232 \<or> c = 8233 \<or> c = 8239 \<or> c = 8287 \<or> c = 12288"

definition str_trim :: "rust_str \<Rightarrow> rust_str" where
  "str_trim t = rev (dropWhile is_whitespace (rev (dropWhile is_whitespace t)))"

text \<open>The bytes a text takes in UTF-8.\<close>

definition utf8_len :: "rust_str \<Rightarrow> nat" where
  "utf8_len t = sum_list (map (\<lambda>c. if c < 128 then 1 else if c < 2048 then 2 else if c < 65536 then 3 else 4) t)"

text \<open>Literals of the program, splitting at a separator, and decimal digits.\<close>

definition text_of :: "string \<Rightarrow> rust_str" where
  "text_of s = map of_char s"

definition split_once :: "'a \<Rightarrow> 'a list \<Rightarrow> ('a list \<times> 'a list) option" where
  "split_once c s =
     (let key = takeWhile (\<lambda>x. x \<noteq> c) s
      in if length key < length s then Some (key, drop (Suc (length key)) s) else None)"

definition is_ascii_digit :: "nat \<Rightarrow> bool" where
  "is_ascii_digit c \<longleftrightarrow> 48 \<le> c \<and> c \<le> 57"

definition digits_value :: "rust_str \<Rightarrow> nat" where
  "digits_value ds = foldl (\<lambda>acc c. acc * 10 + (c - 48)) 0 ds"

lemma text_of_inj: "text_of a = text_of b \<longleftrightarrow> a = b"
  by (simp add: text_of_def inj_map_eq_map inj_of_char)

section \<open>Lemmas on words\<close>

lemma unat_bound: "unat (a :: 'a::len word) < 2 ^ LENGTH('a)"
  by (rule unsigned_less)

lemma unat_max_word_u64 [simp]: "unat (- 1 :: u64) = 18446744073709551615"
  by (simp add: unsigned_minus_1_eq_mask mask_eq_exp_minus_1)

lemma unat_less_2p64: "unat (a :: u64) < 18446744073709551616"
  using unat_bound [of a] by simp

lemma add_overflows_iff:
  "a + b < a \<longleftrightarrow> 2 ^ LENGTH('a) \<le> unat a + unat b" for a b :: "'a::len word"
proof (cases "unat a + unat b < 2 ^ LENGTH('a)")
  case True
  then show ?thesis
    by (simp add: word_less_nat_alt unat_word_ariths)
next
  case False
  then have le: "2 ^ LENGTH('a) \<le> unat a + unat b"
    by simp
  have "unat (a + b) = (unat a + unat b - 2 ^ LENGTH('a)) mod 2 ^ LENGTH('a)"
    unfolding unat_word_ariths(1) by (rule le_mod_geq [OF le])
  also have "\<dots> = unat a + unat b - 2 ^ LENGTH('a)"
    using unat_bound [of a] unat_bound [of b] by (intro mod_less) linarith
  finally have "unat (a + b) < unat a"
    using le unat_bound [of b] by linarith
  then show ?thesis
    using le by (simp add: word_less_nat_alt)
qed

text \<open>Equations that evaluate at the width of the word, without computing its bound.\<close>

lemma checked_add_code [code]: "checked_add a b = (if a + b < a then None else Some (a + b))"
  by (simp add: checked_add_def add_overflows_iff not_le)

lemma saturating_add_code [code]: "saturating_add a b = (if a + b < a then - 1 else a + b)"
  by (simp add: saturating_add_def add_overflows_iff not_le)

lemma unat_saturating_add [unat_rust]:
  "unat (saturating_add (a :: u64) b) = min (unat a + unat b) 18446744073709551615"
  by (auto simp: saturating_add_def unat_word_ariths)

lemma unat_saturating_mul [unat_rust]:
  "unat (saturating_mul (a :: u64) b) = min (unat a * unat b) 18446744073709551615"
  by (auto simp: saturating_mul_def unat_word_ariths)

lemma unat_min [unat_rust]: "unat (min a b) = min (unat a) (unat b)"
  by (simp add: min_def word_le_nat_alt)

lemma unat_saturating_add_u8 [unat_rust]:
  "unat (saturating_add (a :: u8) b) = min (unat a + unat b) 255"
  by (auto simp: saturating_add_def unat_word_ariths unsigned_minus_1_eq_mask mask_eq_exp_minus_1)

lemma unat_saturating_sub [unat_rust]: "unat (saturating_sub a b) = unat a - unat b"
  by (auto simp: saturating_sub_def unat_sub word_le_nat_alt)

lemma unat_sub_le [unat_rust]: "b \<le> a \<Longrightarrow> unat (a - b) = unat a - unat b"
  by (rule unat_sub)

lemma checked_add_SomeD:
  "checked_add a b = Some c \<Longrightarrow> unat c = unat a + unat b"
  by (auto simp: checked_add_def unat_word_ariths split: if_splits)

lemma checked_add_None_iff:
  "checked_add (a :: 'a::len word) b = None \<longleftrightarrow> 2 ^ LENGTH('a) \<le> unat a + unat b"
  by (auto simp: checked_add_def)

lemma checked_add_Some_iff:
  "checked_add (a :: 'a::len word) b = Some c \<longleftrightarrow> unat c = unat a + unat b"
proof
  assume "unat c = unat a + unat b"
  moreover from this have "unat a + unat b < 2 ^ LENGTH('a)"
    using unat_bound [of c] by simp
  moreover from this have "unat (a + b) = unat a + unat b"
    by (simp add: unat_word_ariths)
  ultimately show "checked_add a b = Some c"
    by (simp add: checked_add_def word_unat_eq_iff)
qed (rule checked_add_SomeD)

lemma checked_sub_SomeD: "checked_sub a b = Some c \<Longrightarrow> unat c = unat a - unat b \<and> unat b \<le> unat a"
  by (auto simp: checked_sub_def unat_sub word_le_nat_alt split: if_splits)

lemma unat_add_one_less:
  "unat a < 2 ^ LENGTH('a) - 1 \<Longrightarrow> unat (a + 1 :: 'a::len word) = Suc (unat a)"
  using unat_bound [of a] by (simp add: unat_word_ariths)

lemma i32_saturating_sub_in_range:
  "i32_min \<le> a - b \<Longrightarrow> a - b \<le> i32_max \<Longrightarrow> i32_saturating_sub a b = a - b"
  by (simp add: i32_saturating_sub_def i32_clamp_def)

lemma i32_clamp_bounds: "i32_min \<le> i32_clamp x \<and> i32_clamp x \<le> i32_max"
  by (simp add: i32_clamp_def i32_min_def i32_max_def)

lemma i32_saturating_sub_ge:
  "d \<le> i32_saturating_sub a b \<Longrightarrow> 0 < d \<Longrightarrow> d \<le> a - b"
  by (auto simp: i32_saturating_sub_def i32_clamp_def i32_min_def i32_max_def split: if_splits)

section \<open>Lemmas on options and slices\<close>

lemma is_some_simps [simp]: "is_some None = False" "is_some (Some x) = True"
  by (simp_all add: is_some_def)

lemma is_some_iff: "is_some opt \<longleftrightarrow> opt \<noteq> None"
  by (cases opt) simp_all

lemma is_some_and_simps [simp]: "is_some_and None P = False" "is_some_and (Some x) P = P x"
  by (simp_all add: is_some_and_def)

lemma is_none_or_simps [simp]: "is_none_or None P = True" "is_none_or (Some x) P = P x"
  by (simp_all add: is_none_or_def)

lemma opt_filter_simps [simp]:
  "opt_filter P None = None" "opt_filter P (Some x) = (if P x then Some x else None)"
  by (simp_all add: opt_filter_def)

lemma opt_filter_Some_iff: "opt_filter P opt = Some x \<longleftrightarrow> opt = Some x \<and> P x"
  by (cases opt) auto

lemma unwrap_or_simps [simp]: "unwrap_or None d = d" "unwrap_or (Some x) d = x"
  by (simp_all add: unwrap_or_def)

lemma is_some_and_iff: "is_some_and opt P \<longleftrightarrow> (\<exists>x. opt = Some x \<and> P x)"
  by (cases opt) simp_all

lemma slice_get_Some_iff: "slice_get xs i = Some x \<longleftrightarrow> i < length xs \<and> xs ! i = x"
  by (auto simp: slice_get_def)

lemma slice_get_None_iff: "slice_get xs i = None \<longleftrightarrow> length xs \<le> i"
  by (auto simp: slice_get_def)

lemma slice_range_Some_iff:
  "slice_range xs i j = Some ys \<longleftrightarrow> i \<le> j \<and> j \<le> length xs \<and> ys = take (j - i) (drop i xs)"
  by (auto simp: slice_range_def)

lemma str_trim_Nil_iff: "str_trim t = [] \<longleftrightarrow> (\<forall>c \<in> set t. is_whitespace c)"
proof
  assume "str_trim t = []"
  then have "\<forall>c \<in> set (dropWhile is_whitespace t). is_whitespace c"
    by (simp add: str_trim_def)
  then have "dropWhile is_whitespace t = []"
    by (metis hd_dropWhile hd_in_set)
  then show "\<forall>c \<in> set t. is_whitespace c"
    by simp
qed (auto simp: str_trim_def dest: set_dropWhileD)

lemma starts_with_append [simp]: "starts_with (p @ xs) p"
  by (simp add: starts_with_def)

lemma starts_withE:
  assumes "starts_with xs p"
  obtains ys where "xs = p @ ys"
  using assms that [of "drop (length p) xs"] append_take_drop_id [of "length p" xs]
  by (simp add: starts_with_def)

lemma starts_with_iff: "starts_with xs p \<longleftrightarrow> (\<exists>ys. xs = p @ ys)"
  by (metis starts_withE starts_with_append)

lemma unat_u16_from_be_bytes: "unat (u16_from_be_bytes b0 b1) = unat b0 * 256 + unat b1"
proof -
  have "unat b0 * 256 + unat b1 < 65536"
    using unat_bound [of b0] unat_bound [of b1] by simp
  then show ?thesis
    by (simp add: u16_from_be_bytes_def unat_word_ariths unsigned_ucast_eq take_bit_eq_mod)
qed

lemma u16_be_roundtrip:
  "u16_from_be_bytes (ucast (drop_bit 8 w)) (ucast w) = w"
proof -
  have "unat w div 256 < 256"
    using unat_bound [of w] by simp
  then have "unat (ucast (drop_bit 8 w) :: u8) = unat w div 256"
    by (simp add: unsigned_ucast_eq take_bit_eq_mod drop_bit_eq_div unat_div)
  moreover have "unat (ucast w :: u8) = unat w mod 256"
    by (simp add: unsigned_ucast_eq take_bit_eq_mod)
  ultimately have "unat (u16_from_be_bytes (ucast (drop_bit 8 w)) (ucast w)) = unat w"
    by (simp add: unat_u16_from_be_bytes)
  then show ?thesis
    unfolding word_unat_eq_iff .
qed

lemma unat_u32_from_be_bytes:
  "unat (u32_from_be_bytes b0 b1 b2 b3) =
     unat b0 * 16777216 + unat b1 * 65536 + unat b2 * 256 + unat b3"
proof -
  have "unat b0 * 16777216 + unat b1 * 65536 + unat b2 * 256 + unat b3 < 4294967296"
    using unat_bound [of b0] unat_bound [of b1] unat_bound [of b2] unat_bound [of b3]
    by simp
  then show ?thesis
    by (simp add: u32_from_be_bytes_def unat_word_ariths unsigned_ucast_eq take_bit_eq_mod)
qed

lemma bytes_of_nat:
  assumes "n < (4294967296 :: nat)"
  shows "n div 2 ^ 24 mod 256 * 16777216 + n div 2 ^ 16 mod 256 * 65536 + n div 2 ^ 8 mod 256 * 256 + n mod 256 = n"
proof -
  define a where "a = n div 256"
  define b where "b = a div 256"
  define c where "c = b div 256"
  have "n = a * 256 + n mod 256" "a = b * 256 + a mod 256" "b = c * 256 + b mod 256"
    unfolding a_def b_def c_def by (rule div_mult_mod_eq [symmetric])+
  moreover have "c < 256"
    using assms by (simp add: a_def b_def c_def flip: div_mult2_eq)
  moreover have "n div 2 ^ 8 = a" "n div 2 ^ 16 = b" "n div 2 ^ 24 = c"
    by (simp_all add: a_def b_def c_def flip: div_mult2_eq)
  ultimately show ?thesis
    by simp
qed

lemma u32_be_roundtrip:
  "u32_from_be_bytes (ucast (drop_bit 24 w)) (ucast (drop_bit 16 w)) (ucast (drop_bit 8 w)) (ucast w) = w"
proof -
  have c: "unat (ucast (v :: u32) :: u8) = unat v mod 256" for v
    by (simp add: unsigned_ucast_eq take_bit_eq_mod)
  have n: "unat (ucast (drop_bit k w) :: u8) = unat w div 2 ^ k mod 256" for k
    unfolding c unat_drop_bit_eq unfolding drop_bit_eq_div ..
  have "unat w < 4294967296"
    using unat_bound [of w] by simp
  from bytes_of_nat [OF this] show ?thesis
    unfolding word_unat_eq_iff unat_u32_from_be_bytes n unfolding c .
qed

end
