(* ===== verification/Interfaces.thy ===== *)
theory Interfaces
  imports Prelude "HOL-Library.Sublist" "HOL-Library.Multiset"
begin

text \<open>
  The contracts shared by several components, each a locale with the laws its providers prove:
  a reducer with an invariant, an issuer of identities that are never reused, a ledger of work that is opened and settled, and a byte-stream
  reassembler that only ever reports contiguous pieces of its input.  Every locale is interpreted
  on the model of the component that provides it, in that component's theory.
\<close>

section \<open>Frames embedded in a stream\<close>

text \<open>
  \<open>embedded ws rest xs\<close>: the frames \<open>ws\<close> occur in \<open>xs\<close> one after the other, without
  overlapping and in this order, and what follows the last of them ends with \<open>rest\<close>.
\<close>

primrec embedded :: "'a list list \<Rightarrow> 'a list \<Rightarrow> 'a list \<Rightarrow> bool" where
  "embedded [] rest xs = suffix rest xs"
| "embedded (w # ws) rest xs = (\<exists>gap ys. xs = gap @ w @ ys \<and> embedded ws rest ys)"

lemma embedded_prefix: "embedded ws rest xs \<Longrightarrow> embedded ws rest (gap @ xs)"
  by (cases ws) (auto simp: suffix_def, metis append.assoc)

lemma embedded_join:
  "embedded ws rest xs \<Longrightarrow> embedded ws' rest' (rest @ ys) \<Longrightarrow> embedded (ws @ ws') rest' (xs @ ys)"
proof (induction ws arbitrary: xs)
  case Nil
  then show ?case
    using embedded_prefix by (auto simp: suffix_def)
next
  case (Cons w ws)
  then obtain gap zs where "xs = gap @ w @ zs" and "embedded ws rest zs"
    by auto
  then show ?case
    using Cons.IH [of zs] Cons.prems(2) by (simp, metis)
qed

text \<open>Identities handed out by a run, oldest first, starting above \<open>n\<close>.\<close>

fun issued_above :: "nat \<Rightarrow> nat list \<Rightarrow> bool" where
  "issued_above n [] = True"
| "issued_above n (i # is) = (n < i \<and> issued_above i is)"

section \<open>Reducers\<close>

locale reducer =
  fixes step :: "'s \<Rightarrow> 'i \<Rightarrow> 's"
    and init :: "'s"
    and inv :: "'s \<Rightarrow> bool"
  assumes inv_init: "inv init"
    and inv_step: "inv s \<Longrightarrow> inv (step s i)"
begin

lemma inv_foldl: "inv s \<Longrightarrow> inv (foldl step s is)"
  by (induction "is" arbitrary: s) (simp_all add: inv_step)

lemma inv_run: "inv (foldl step init is)"
  by (rule inv_foldl [OF inv_init])

end

section \<open>Issuers of identities\<close>

text \<open>
  A state machine whose steps may hand out an identity.  \<open>counter\<close> is the watermark of the
  identities handed out so far, \<open>active\<close> the one that still admits a callback.
\<close>

locale identity_source =
  fixes step :: "'s \<Rightarrow> 'i \<Rightarrow> u64 option \<times> 's"
    and counter :: "'s \<Rightarrow> u64"
    and active :: "'s \<Rightarrow> u64 option"
  assumes issue: "step s i = (Some n, s') \<Longrightarrow>
      unat n = Suc (unat (counter s)) \<and> counter s' = n \<and> active s' = Some n"
    and keep: "step s i = (None, s') \<Longrightarrow>
      counter s' = counter s \<and> (active s' = None \<or> active s' = active s)"
begin

primrec issued :: "'s \<Rightarrow> 'i list \<Rightarrow> nat list" where
  "issued s [] = []"
| "issued s (i # is) =
     (case step s i of
        (None, s') \<Rightarrow> issued s' is
      | (Some n, s') \<Rightarrow> unat n # issued s' is)"

lemma issued_fresh: "issued_above (unat (counter s)) (issued s is)"
proof (induction "is" arbitrary: s)
  case (Cons i "is")
  obtain r s' where st: "step s i = (r, s')"
    by fastforce
  show ?case
    using st Cons.IH [of s'] issue [of s i _ s'] keep [of s i s'] by (cases r) auto
qed simp

text \<open>An identity that is not active and not above the watermark stays inactive for ever.\<close>

lemma retired_step:
  assumes "unat n \<le> unat (counter s)" and "active s \<noteq> Some n"
  shows "unat n \<le> unat (counter (snd (step s i))) \<and> active (snd (step s i)) \<noteq> Some n"
proof -
  obtain r s' where st: "step s i = (r, s')"
    by fastforce
  show ?thesis
    using st assms issue [of s i _ s'] keep [of s i s'] by (cases r) auto
qed

lemma retired_for_ever:
  assumes "unat n \<le> unat (counter s)" and "active s \<noteq> Some n"
  shows "active (foldl (\<lambda>s i. snd (step s i)) s is) \<noteq> Some n"
  using assms
proof (induction "is" arbitrary: s)
  case (Cons i "is")
  then show ?case
    using retired_step [of n s i] by simp
qed simp

end

text \<open>
  An issuer whose identities admit one callback each: accepting the callback of an identity is
  possible only while it is active, and retires it.
\<close>

locale one_shot_source = identity_source step counter active
  for step :: "'s \<Rightarrow> 'i \<Rightarrow> u64 option \<times> 's"
    and counter :: "'s \<Rightarrow> u64"
    and active :: "'s \<Rightarrow> u64 option" +
  fixes accepts :: "'s \<Rightarrow> 'i \<Rightarrow> u64 \<Rightarrow> bool"
  assumes accepted: "accepts s i n \<Longrightarrow> active s = Some n \<and> active (snd (step s i)) = None"
begin

definition bounded :: "'s \<Rightarrow> bool" where
  "bounded s \<longleftrightarrow> is_none_or (active s) (\<lambda>n. unat n \<le> unat (counter s))"

primrec accept_count :: "u64 \<Rightarrow> 's \<Rightarrow> 'i list \<Rightarrow> nat" where
  "accept_count n s [] = 0"
| "accept_count n s (i # is) = (if accepts s i n then 1 else 0) + accept_count n (snd (step s i)) is"

lemma bounded_step: "bounded s \<Longrightarrow> bounded (snd (step s i))"
proof -
  assume "bounded s"
  obtain r s' where st: "step s i = (r, s')"
    by fastforce
  show ?thesis
    using \<open>bounded s\<close> st issue [of s i _ s'] keep [of s i s'] by (cases r) (auto simp: bounded_def)
qed

lemma accept_count_bound:
  "bounded s \<Longrightarrow> accept_count n s is \<le> (if active s = Some n \<or> unat (counter s) < unat n then 1 else 0)"
proof (induction "is" arbitrary: s)
  case (Cons i "is")
  obtain r s' where st: "step s i = (r, s')"
    by fastforce
  have IH: "accept_count n s' is \<le> (if active s' = Some n \<or> unat (counter s') < unat n then 1 else 0)"
    using Cons.IH [OF bounded_step [OF Cons.prems, of i]] st by simp
  show ?case
  proof (cases "accepts s i n")
    case True
    then have "active s = Some n" "active s' = None"
      using accepted [OF True] st by auto
    moreover from this have "r = None"
      using issue [of s i _ s'] st by (cases r) auto
    moreover have "unat n \<le> unat (counter s)"
      using Cons.prems \<open>active s = Some n\<close> by (simp add: bounded_def)
    ultimately show ?thesis
      using IH True st keep [of s i s'] by auto
  next
    case False
    then show ?thesis
      using IH st retired_step [of n s i] by (cases "active s = Some n \<or> unat (counter s) < unat n") (auto split: if_splits)
  qed
qed simp

lemma accepted_once: "bounded s \<Longrightarrow> accept_count n s is \<le> 1"
  using accept_count_bound [of s n "is"] by (simp split: if_splits)

end

lemma issued_above_bound: "issued_above n is \<Longrightarrow> i \<in> set is \<Longrightarrow> n < i"
  by (induction n "is" rule: issued_above.induct) auto

lemma issued_above_distinct: "issued_above n is \<Longrightarrow> distinct is"
proof (induction n "is" rule: issued_above.induct)
  case (2 n i "is")
  then show ?case
    using issued_above_bound [of i "is" i] by auto
qed simp

lemma issued_above_sorted: "issued_above n is \<Longrightarrow> sorted is"
proof (induction n "is" rule: issued_above.induct)
  case (2 n i "is")
  then show ?case
    using issued_above_bound [of i "is"] by fastforce
qed simp

section \<open>Ledgers\<close>

text \<open>
  A component that opens obligations and later settles them: what is open before a step together
  with what the step opens is what it settles together with what is open after it.
\<close>

locale ledger =
  fixes step :: "'s \<Rightarrow> 'c \<Rightarrow> 'l \<times> 's"
    and outstanding :: "'s \<Rightarrow> 'a multiset"
    and opened :: "'l \<Rightarrow> 'a multiset"
    and settled :: "'l \<Rightarrow> 'a multiset"
  assumes balance: "step s c = (l, s') \<Longrightarrow> outstanding s + opened l = settled l + outstanding s'"
begin

primrec run :: "'s \<Rightarrow> 'c list \<Rightarrow> 'l list \<times> 's" where
  "run s [] = ([], s)"
| "run s (c # cs) = (case step s c of (l, s1) \<Rightarrow> case run s1 cs of (ls, s2) \<Rightarrow> (l # ls, s2))"

lemma run_balance:
  "run s cs = (ls, s') \<Longrightarrow>
     outstanding s + sum_list (map opened ls) = sum_list (map settled ls) + outstanding s'"
proof (induction cs arbitrary: s ls)
  case (Cons c cs)
  obtain l s1 where st: "step s c = (l, s1)"
    by fastforce
  obtain ls1 where rn: "run s1 cs = (ls1, s')" "ls = l # ls1"
    using Cons.prems st by (auto split: prod.splits)
  have "outstanding s + sum_list (map opened ls) = (outstanding s + opened l) + sum_list (map opened ls1)"
    by (simp add: rn(2))
  also have "\<dots> = settled l + (outstanding s1 + sum_list (map opened ls1))"
    by (simp add: balance [OF st])
  also have "\<dots> = sum_list (map settled ls) + outstanding s'"
    by (simp add: Cons.IH [OF rn(1)] rn(2))
  finally show ?case .
qed simp

end

section \<open>Byte-stream reassemblers\<close>

locale byte_reassembler =
  fixes feed :: "'s \<Rightarrow> u8 \<Rightarrow> 'f option \<times> 's"
    and pending :: "'s \<Rightarrow> u8 list"
    and wire :: "'f \<Rightarrow> u8 list"
    and inv :: "'s \<Rightarrow> bool"
    and valid :: "'f \<Rightarrow> bool"
  assumes feed_inv: "inv s \<Longrightarrow> feed s b = (r, s') \<Longrightarrow> inv s'"
    and feed_emit: "inv s \<Longrightarrow> feed s b = (Some f, s') \<Longrightarrow>
      valid f \<and> wire f = pending s @ [b] \<and> pending s' = []"
    and feed_keep: "inv s \<Longrightarrow> feed s b = (None, s') \<Longrightarrow> suffix (pending s') (pending s @ [b])"
begin

primrec run :: "'s \<Rightarrow> u8 list \<Rightarrow> 'f list \<times> 's" where
  "run s [] = ([], s)"
| "run s (b # bs) =
     (case feed s b of (r, s') \<Rightarrow>
        (case run s' bs of (fs, s'') \<Rightarrow> (case r of None \<Rightarrow> fs | Some f \<Rightarrow> f # fs, s'')))"

text \<open>Feeding a stream in pieces is feeding it whole.\<close>

lemma run_append:
  "run s (xs @ ys) =
     (fst (run s xs) @ fst (run (snd (run s xs)) ys), snd (run (snd (run s xs)) ys))"
  by (induction xs arbitrary: s) (auto simp: Let_def split: prod.splits option.splits)

lemma run_inv: "inv s \<Longrightarrow> inv (snd (run s bs))"
  by (induction bs arbitrary: s) (auto split: prod.splits dest: feed_inv, metis feed_inv snd_conv)

lemma run_valid: "inv s \<Longrightarrow> f \<in> set (fst (run s bs)) \<Longrightarrow> valid f"
proof (induction bs arbitrary: s)
  case (Cons b bs)
  obtain r s' where st: "feed s b = (r, s')"
    by fastforce
  have "inv s'"
    using Cons.prems(1) st by (rule feed_inv)
  then show ?case
    using Cons st feed_emit [of s b _ s'] by (auto split: prod.splits option.splits)
qed simp

text \<open>Every reported frame is a contiguous piece of the input, in order and without overlap.\<close>

lemma run_embedded:
  "inv s \<Longrightarrow> embedded (map wire (fst (run s bs))) (pending (snd (run s bs))) (pending s @ bs)"
proof (induction bs arbitrary: s)
  case (Cons b bs)
  obtain r s' where st: "feed s b = (r, s')"
    by fastforce
  obtain fs s'' where rn: "run s' bs = (fs, s'')"
    by fastforce
  have s': "inv s'"
    using Cons.prems st by (rule feed_inv)
  have IH: "embedded (map wire fs) (pending s'') (pending s' @ bs)"
    using Cons.IH [OF s'] rn by simp
  show ?case
  proof (cases r)
    case None
    then obtain gap where "pending s @ [b] = gap @ pending s'"
      using feed_keep [OF Cons.prems, of b s'] st by (blast elim: suffixE)
    then have split: "pending s @ b # bs = gap @ pending s' @ bs"
      by (metis append.assoc append_Cons append_Nil)
    show ?thesis
      using IH st rn None unfolding split
      by (cases "map wire fs") (auto simp: suffix_def, metis append.assoc)
  next
    case (Some f)
    then have "wire f = pending s @ [b]" "pending s' = []"
      using feed_emit [OF Cons.prems] st by auto
    then show ?thesis
      using IH st rn Some by (auto intro: exI [of _ "[]"])
  qed
qed simp

text \<open>A reader may give up on the rest of a chunk when nothing is pending: frames stay where they were.\<close>

lemma run_cut_embedded:
  assumes "inv s" and "k < length bs \<Longrightarrow> pending (snd (run s (take k bs))) = []"
  shows "embedded (map wire (fst (run s (take k bs)))) (pending (snd (run s (take k bs)))) (pending s @ bs)"
proof (cases "k < length bs")
  case True
  have "embedded (map wire (fst (run s (take k bs)))) [] (pending s @ take k bs)"
    using run_embedded [OF assms(1), of "take k bs"] assms(2) [OF True] by simp
  then have "embedded (map wire (fst (run s (take k bs))) @ []) [] ((pending s @ take k bs) @ drop k bs)"
    by (rule embedded_join) simp
  then show ?thesis
    using assms(2) [OF True] by (simp only: append_Nil2 append_assoc append_take_drop_id)
next
  case False
  then show ?thesis
    using run_embedded [OF assms(1), of bs] by simp
qed

end

end
