(* ===== verification/Ordered_Map.thy ===== *)
theory Ordered_Map
  imports Prelude "HOL-Library.Finite_Map"
begin

text \<open>
  Rust's \<open>BTreeMap\<close> as a finite map over a linearly ordered key type.  Lookup, insertion and
  removal are those of the library's finite maps; iteration is in ascending key order, which
  \<open>btm_entries\<close> fixes.  The locale \<open>record_family\<close> is the contract of the components that keep
  one record per key and change a record only through a record-level operation: invariants and
  histories of one record then carry over to runs of the component.
\<close>

section \<open>Operations\<close>

definition btm_entries :: "('k::linorder, 'v) fmap \<Rightarrow> ('k \<times> 'v) list" where
  "btm_entries m = map (\<lambda>k. (k, the (fmlookup m k))) (sorted_list_of_fset (fmdom m))"

definition btm_values :: "('k::linorder, 'v) fmap \<Rightarrow> 'v list" where
  "btm_values m = map snd (btm_entries m)"

definition btm_len :: "('k, 'v) fmap \<Rightarrow> nat" where
  "btm_len m = fcard (fmdom m)"

text \<open>\<open>map.entry(k).or_default()\<close>, with the default record given.\<close>

definition entry_or :: "'v \<Rightarrow> ('k, 'v) fmap \<Rightarrow> 'k \<Rightarrow> 'v" where
  "entry_or d m k = unwrap_or (fmlookup m k) d"

text \<open>The first entry in key order that satisfies a predicate.\<close>

definition btm_find :: "('v \<Rightarrow> bool) \<Rightarrow> ('k::linorder, 'v) fmap \<Rightarrow> ('k \<times> 'v) option" where
  "btm_find P m = find (\<lambda>e. P (snd e)) (btm_entries m)"

section \<open>Laws\<close>

lemma entry_or_fmupd [simp]: "entry_or d (fmupd k v m) k' = (if k = k' then v else entry_or d m k')"
  by (simp add: entry_or_def)

lemma entry_or_empty [simp]: "entry_or d fmempty k = d"
  by (simp add: entry_or_def)

lemma fmupd_idem: "fmlookup m k = Some v \<Longrightarrow> fmupd k v m = m"
  by (rule fmap_ext) auto

lemma set_btm_entries: "set (btm_entries m) = {(k, v). fmlookup m k = Some v}"
  by (force simp: btm_entries_def fmlookup_dom_iff)

lemma set_btm_values: "v \<in> set (btm_values m) \<longleftrightarrow> (\<exists>k. fmlookup m k = Some v)"
  by (force simp: btm_values_def set_btm_entries)

lemma btm_entries_sorted: "sorted_wrt (<) (map fst (btm_entries m))"
  by (simp add: btm_entries_def comp_def strict_sorted_list_of_set sorted_list_of_fset.rep_eq)

lemma btm_entries_distinct: "distinct (map fst (btm_entries m))"
  using btm_entries_sorted [of m] by (simp add: strict_sorted_iff)

lemma length_btm_entries: "length (btm_entries m) = btm_len m"
  by (simp add: btm_entries_def btm_len_def sorted_list_of_fset.rep_eq fcard.rep_eq)

lemma btm_entries_fmempty [simp]: "btm_entries fmempty = []"
  by (simp add: btm_entries_def sorted_list_of_fset.rep_eq)

lemma btm_find_SomeD: "btm_find P m = Some (k, v) \<Longrightarrow> fmlookup m k = Some v \<and> P v"
  using set_btm_entries [of m]
  by (auto simp: btm_find_def find_Some_iff dest: nth_mem) (metis snd_conv)

lemma btm_find_None_iff: "btm_find P m = None \<longleftrightarrow> (\<forall>k v. fmlookup m k = Some v \<longrightarrow> \<not> P v)"
  by (auto simp: btm_find_def find_None_iff set_btm_entries)

lemma btm_entries_fmmap: "btm_entries (fmmap f m) = map (\<lambda>(k, v). (k, f v)) (btm_entries m)"
  by (auto simp: btm_entries_def sorted_list_of_fset.rep_eq fmlookup_dom_iff)

lemma btm_len_fmempty [simp]: "btm_len fmempty = 0"
  by (simp add: btm_len_def)

lemma btm_len_fmupd: "btm_len (fmupd k v m) = (if fmlookup m k = None then Suc (btm_len m) else btm_len m)"
  by (auto simp: btm_len_def fcard_finsert_if fmdom_notI fmlookup_dom_iff)

lemma btm_len_fmdrop: "btm_len (fmdrop k m) \<le> btm_len m"
  by (auto simp: btm_len_def intro: fcard_mono)

section \<open>Families of independent records\<close>

text \<open>
  A component that keeps one record per key: what a call does to the record of a key is an
  operation on that record alone, which \<open>local_op\<close> reads off the call.
\<close>

locale record_family =
  fixes call :: "'w \<Rightarrow> 'c \<Rightarrow> 'w"
    and rec :: "'w \<Rightarrow> 'k \<Rightarrow> 'r"
    and local_op :: "'w \<Rightarrow> 'c \<Rightarrow> 'k \<Rightarrow> 'o"
    and apply_op :: "'r \<Rightarrow> 'o \<Rightarrow> 'r"
    and rinv :: "'r \<Rightarrow> bool"
  assumes call_local: "rec (call w c) k = apply_op (rec w k) (local_op w c k)"
    and rinv_apply: "rinv r \<Longrightarrow> rinv (apply_op r x)"
begin

lemma rinv_run: "rinv (rec w k) \<Longrightarrow> rinv (rec (foldl call w cs) k)"
  by (induction cs rule: rev_induct) (simp_all add: call_local rinv_apply)

text \<open>A relation between the calls so far and the record of a key, carried along a run.\<close>

lemma history_run:
  assumes "rinv (rec w k)" "H [] (rec w k)"
    and step: "\<And>cs c w'. w' = foldl call w cs \<Longrightarrow> rinv (rec w' k) \<Longrightarrow> H cs (rec w' k) \<Longrightarrow>
      H (cs @ [c]) (apply_op (rec w' k) (local_op w' c k))"
  shows "H cs (rec (foldl call w cs) k)"
  using assms(1,2) by (induction cs rule: rev_induct) (simp_all add: call_local rinv_run step)

end

end
