(* ===== verification/Core_Units.thy ===== *)
theory Core_Units
  imports Prelude
begin

text \<open>
  The scalar vocabulary of \<^verbatim>\<open>cutout-core/src/lib.rs\<close> the other components share: monotonic
  timestamps and durations in milliseconds, wire tags, selectors and channels, the states several
  components report, and the connected-wheel movement threshold.  \<open>Quantity\<close> wrappers around one number are modelled by that number.
\<close>

type_synonym MonotonicTimestamp = u64
type_synonym Duration = u64
type_synonym ProtocolTag = u16
type_synonym ProtocolSelector = u8

text \<open>A GATT channel is the sixteen bytes of its UUID.\<close>

type_synonym GattChannel = "u8 list"

type_synonym TransportWriteLimit = u16

datatype WriteMode = WithResponse | WithoutResponse

datatype ProtocolFamily = VeteranLeaperkimNosfet | BegodeGotway | Vesc

datatype RideWarning =
    WarningNone | LowVoltage | HighVoltage | MosfetTemperature | MotorTemperature | WarningCurrent
  | DutyPushback | SpeedPushback | TemperaturePushback | Wheelslip | Sensors | LowBattery
  | WarningError | BmsConnection | WarningUnknown

datatype RideStopReason =
    StopNone | StopPitch | StopRoll | SwitchHalf | SwitchFull | StopReverse | QuickStop

definition saturating_add_duration :: "MonotonicTimestamp \<Rightarrow> Duration \<Rightarrow> MonotonicTimestamp" where
  "saturating_add_duration t d = saturating_add t d"

definition saturating_duration_since :: "MonotonicTimestamp \<Rightarrow> MonotonicTimestamp \<Rightarrow> Duration" where
  "saturating_duration_since t earlier = saturating_sub t earlier"

text \<open>Speeds are signed millimetres per second; \<open>unsigned_abs\<close> has no overflow case.\<close>

definition CONNECTED_WHEEL_MOVEMENT_THRESHOLD :: int where
  "CONNECTED_WHEEL_MOVEMENT_THRESHOLD = 500"

definition speed_is_moving :: "int \<Rightarrow> bool" where
  "speed_is_moving v \<longleftrightarrow> \<bar>CONNECTED_WHEEL_MOVEMENT_THRESHOLD\<bar> \<le> \<bar>v\<bar>"

lemma unat_saturating_duration_since [unat_rust]:
  "unat (saturating_duration_since t e) = unat t - unat e"
  by (simp add: saturating_duration_since_def unat_rust)

lemma unat_saturating_add_duration [unat_rust]:
  "unat (saturating_add_duration t d) = min (unat t + unat d) 18446744073709551615"
  by (simp add: saturating_add_duration_def unat_rust)

end
