(* ===== verification/Evidence.thy ===== *)
theory Evidence
  imports Core_Units
begin

text \<open>
  How far a decoded value may be trusted (\<^verbatim>\<open>cutout-core/src/lib.rs\<close>): where it came from, how it
  was obtained and how the decoder was verified, and the reasons a control command is refused.
  Settings and actions treat a value as usable evidence only when it was reported by the device,
  is known, and comes from a verified decoder; \<open>usable_evidence\<close> names that conjunction.
\<close>

datatype ValueSource = Reported | Calculated | Estimated

datatype ValueQuality = Known | Inferred

datatype VerificationStatus =
    Unverified | VerificationInferred | SourceVerified | HardwareVerified | SourceAndHardwareVerified

fun is_trusted :: "VerificationStatus \<Rightarrow> bool" where
  "is_trusted Unverified = False"
| "is_trusted VerificationInferred = False"
| "is_trusted SourceVerified = True"
| "is_trusted HardwareVerified = True"
| "is_trusted SourceAndHardwareVerified = True"

record 'a Measured =
  measured_value :: 'a
  measured_source :: ValueSource
  measured_quality :: ValueQuality
  measured_verification :: VerificationStatus

definition measured_reported :: "'a \<Rightarrow> 'a Measured" where
  "measured_reported v = \<lparr>measured_value = v, measured_source = Reported, measured_quality = Known,
     measured_verification = HardwareVerified\<rparr>"

definition measured_calculated :: "'a \<Rightarrow> 'a Measured" where
  "measured_calculated v = \<lparr>measured_value = v, measured_source = Calculated, measured_quality = Known,
     measured_verification = VerificationInferred\<rparr>"

definition measured_estimated :: "'a \<Rightarrow> 'a Measured" where
  "measured_estimated v = \<lparr>measured_value = v, measured_source = Estimated, measured_quality = Inferred,
     measured_verification = VerificationInferred\<rparr>"

definition map_value :: "('a \<Rightarrow> 'b) \<Rightarrow> 'a Measured \<Rightarrow> 'b Measured" where
  "map_value f x = \<lparr>measured_value = f (measured_value x), measured_source = measured_source x,
     measured_quality = measured_quality x, measured_verification = measured_verification x\<rparr>"

text \<open>The three conditions settings and actions both ask of a measured value.\<close>

definition usable_evidence :: "'a Measured \<Rightarrow> bool" where
  "usable_evidence x \<longleftrightarrow> measured_source x = Reported \<and> measured_quality x = Known
     \<and> is_trusted (measured_verification x)"

datatype ControlRefusalReason =
    WrongSafetyClass | MissingArm | WrongModel | ExpiredArm | CurrentLimitExceeded
  | UnsupportedCommand | Busy

lemma map_value_sel [simp]:
  "measured_value (map_value f x) = f (measured_value x)"
  "measured_source (map_value f x) = measured_source x"
  "measured_quality (map_value f x) = measured_quality x"
  "measured_verification (map_value f x) = measured_verification x"
  by (simp_all add: map_value_def)

lemma usable_map_value [simp]: "usable_evidence (map_value f x) = usable_evidence x"
  by (simp add: usable_evidence_def)

lemma usable_only_reported [simp]:
  "usable_evidence (measured_reported v)"
  "\<not> usable_evidence (measured_calculated v)"
  "\<not> usable_evidence (measured_estimated v)"
  by (simp_all add: usable_evidence_def measured_reported_def measured_calculated_def measured_estimated_def)

end
