(* ===== verification/Parser.thy ===== *)
theory Parser
  imports Prelude
begin

text \<open>
  The bounds-checked byte cursor of \<^verbatim>\<open>cutout-protocols/src/parser.rs\<close>.  A cursor is its byte
  slice; offsets and spans are byte counts.  Every read that would leave the slice is \<open>None\<close>.
\<close>

record ParserRange =
  range_start :: nat
  range_len :: nat

definition range_bounds :: "ParserRange \<Rightarrow> (nat \<times> nat) option" where
  "range_bounds r =
     (let stop = range_start r + range_len r in
      if stop < 2 ^ 64 then Some (range_start r, stop) else None)"

definition cursor_byte :: "u8 list \<Rightarrow> nat \<Rightarrow> u8 option" where
  "cursor_byte bytes offset = slice_get bytes offset"

definition cursor_range :: "u8 list \<Rightarrow> ParserRange \<Rightarrow> u8 list option" where
  "cursor_range bytes r =
     (case range_bounds r of None \<Rightarrow> None | Some (i, j) \<Rightarrow> slice_range bytes i j)"

definition cursor_be_u16 :: "u8 list \<Rightarrow> nat \<Rightarrow> u16 option" where
  "cursor_be_u16 bytes offset =
     (case cursor_range bytes \<lparr>range_start = offset, range_len = 2\<rparr> of
        None \<Rightarrow> None
      | Some bs \<Rightarrow>
          (case slice_get bs 0 of
             None \<Rightarrow> None
           | Some b0 \<Rightarrow>
               (case slice_get bs 1 of
                  None \<Rightarrow> None
                | Some b1 \<Rightarrow> Some (u16_from_be_bytes b0 b1))))"

definition cursor_be_i16 :: "u8 list \<Rightarrow> nat \<Rightarrow> int option" where
  "cursor_be_i16 bytes offset = map_option sint (cursor_be_u16 bytes offset)"

definition cursor_be_u32 :: "u8 list \<Rightarrow> nat \<Rightarrow> u32 option" where
  "cursor_be_u32 bytes offset =
     (case cursor_range bytes \<lparr>range_start = offset, range_len = 4\<rparr> of
        None \<Rightarrow> None
      | Some bs \<Rightarrow>
          (case (slice_get bs 0, slice_get bs 1, slice_get bs 2, slice_get bs 3) of
             (Some b0, Some b1, Some b2, Some b3) \<Rightarrow> Some (u32_from_be_bytes b0 b1 b2 b3)
           | _ \<Rightarrow> None))"

definition cursor_veteran_swapped_u32 :: "u8 list \<Rightarrow> nat \<Rightarrow> u32 option" where
  "cursor_veteran_swapped_u32 bytes offset =
     (case cursor_range bytes \<lparr>range_start = offset, range_len = 4\<rparr> of
        None \<Rightarrow> None
      | Some bs \<Rightarrow>
          (case (slice_get bs 0, slice_get bs 1, slice_get bs 2, slice_get bs 3) of
             (Some b0, Some b1, Some b2, Some b3) \<Rightarrow>
               Some (or (or (or (push_bit 24 (ucast b2)) (push_bit 16 (ucast b3)))
                            (push_bit 8 (ucast b0)))
                        (ucast b1))
           | _ \<Rightarrow> None))"

section \<open>Reads inside and outside the slice\<close>

text \<open>A Rust slice is at most \<open>isize::MAX\<close> bytes long, so an offset inside it never overflows.\<close>

lemma cursor_range_eq:
  assumes "i + n < 2 ^ 64"
  shows "cursor_range bytes \<lparr>range_start = i, range_len = n\<rparr> =
    (if i + n \<le> length bytes then Some (take n (drop i bytes)) else None)"
  using assms by (simp add: cursor_range_def range_bounds_def slice_range_def)

lemma cursor_be_u16_eq:
  assumes "offset + 2 < 2 ^ 64"
  shows "cursor_be_u16 bytes offset =
    (if offset + 2 \<le> length bytes
     then Some (u16_from_be_bytes (bytes ! offset) (bytes ! (offset + 1))) else None)"
proof -
  have "slice_get (take 2 (drop offset bytes)) 0 = Some (bytes ! offset)"
    and "slice_get (take 2 (drop offset bytes)) 1 = Some (bytes ! (offset + 1))"
    if "offset + 2 \<le> length bytes"
    using that by (simp_all add: slice_get_def)
  then show ?thesis
    using assms by (simp add: cursor_be_u16_def cursor_range_eq)
qed

lemma cursor_be_u32_eq:
  assumes "offset + 4 < 2 ^ 64"
  shows "cursor_be_u32 bytes offset =
    (if offset + 4 \<le> length bytes
     then Some (u32_from_be_bytes (bytes ! offset) (bytes ! (offset + 1))
                 (bytes ! (offset + 2)) (bytes ! (offset + 3))) else None)"
  using assms by (auto simp: cursor_be_u32_def cursor_range_eq slice_get_def)

end
