(* ===== verification/Begode_Frame.thy ===== *)
theory Begode_Frame
  imports Interfaces Core_Units
begin

text \<open>
  The Begode/Gotway reassembler of \<^verbatim>\<open>cutout-protocols/src/begode_frame.rs\<close>: fixed 24-byte
  frames \<open>55 aa \<dots> 5a 5a 5a 5a\<close> cut out of a notification byte stream, and the byte loop with
  which \<^verbatim>\<open>begode_session.rs\<close> drives it.  Shown: the buffer invariant, that every reported frame
  is a valid contiguous piece of the stream, that a valid frame fed to an idle reassembler is
  reported, and how the terminator glitches are resynchronised.
\<close>

section \<open>Frames\<close>

definition BEGODE_FRAME_LEN :: nat where
  "BEGODE_FRAME_LEN = 24"

definition BEGODE_HEADER :: "u8 list" where
  "BEGODE_HEADER = [0x55, 0xaa]"

definition BEGODE_TERMINATOR :: "u8 list" where
  "BEGODE_TERMINATOR = [0x5a, 0x5a, 0x5a, 0x5a]"

record BegodeFrame =
  begode_bytes :: "u8 list"

datatype BegodeFrameError = BegodeInvalidFrame

definition begode_try_from_slice :: "u8 list \<Rightarrow> BegodeFrameError + BegodeFrame" where
  "begode_try_from_slice bytes =
     (if length bytes \<noteq> BEGODE_FRAME_LEN
         \<or> \<not> starts_with bytes BEGODE_HEADER
         \<or> slice_range bytes (BEGODE_FRAME_LEN - length BEGODE_TERMINATOR) BEGODE_FRAME_LEN
             \<noteq> Some BEGODE_TERMINATOR
      then Inl BegodeInvalidFrame
      else Inr \<lparr>begode_bytes = bytes\<rparr>)"

definition begode_tag :: "BegodeFrame \<Rightarrow> ProtocolTag" where
  "begode_tag f = ucast (unwrap_or (slice_get (begode_bytes f) 18) 0)"

definition begode_sub_index :: "BegodeFrame \<Rightarrow> ProtocolSelector" where
  "begode_sub_index f = unwrap_or (slice_get (begode_bytes f) 19) 0"

section \<open>The reassembler\<close>

datatype BegodeFrameParseResult =
    BegodeSeeking
  | BegodeBuffered
  | BegodeComplete BegodeFrame

record BegodeFrameReassembler =
  begode_buffer :: "u8 list"
  begode_last_byte_ms :: "MonotonicTimestamp option"

definition begode_default :: BegodeFrameReassembler where
  "begode_default = \<lparr>begode_buffer = [], begode_last_byte_ms = None\<rparr>"

definition begode_clear_buffer :: "BegodeFrameReassembler \<Rightarrow> BegodeFrameReassembler" where
  "begode_clear_buffer r = r\<lparr>begode_buffer := [], begode_last_byte_ms := None\<rparr>"

definition begode_reset :: "BegodeFrameReassembler \<Rightarrow> BegodeFrameReassembler" where
  "begode_reset r = begode_clear_buffer r"

definition begode_expire_idle ::
  "BegodeFrameReassembler \<Rightarrow> MonotonicTimestamp \<Rightarrow> MonotonicTimestamp \<Rightarrow> bool \<times> BegodeFrameReassembler" where
  "begode_expire_idle r monotonic_ms timeout_ms =
     (case begode_last_byte_ms r of
        None \<Rightarrow> (False, r)
      | Some last_byte_ms \<Rightarrow>
          if begode_buffer r = []
             \<or> saturating_duration_since monotonic_ms last_byte_ms \<le> timeout_ms
          then (False, r)
          else (True, begode_clear_buffer r))"

definition begode_keep_trailing_header :: "BegodeFrameReassembler \<Rightarrow> BegodeFrameReassembler" where
  "begode_keep_trailing_header r = r\<lparr>begode_buffer := [BEGODE_HEADER ! 0, BEGODE_HEADER ! 1]\<rparr>"

definition begode_apply_embedded_header_resync :: "BegodeFrameReassembler \<Rightarrow> BegodeFrameReassembler" where
  "begode_apply_embedded_header_resync r =
     (let single_terminator_glitch = begode_buffer r = [0x55, 0xaa, 0x5a, 0x55, 0xaa];
          double_terminator_glitch = begode_buffer r = [0x55, 0xaa, 0x5a, 0x5a, 0x55, 0xaa]
      in if single_terminator_glitch \<or> double_terminator_glitch
         then begode_keep_trailing_header r else r)"

text \<open>\<open>try_push\<close> on the 24-byte \<open>ArrayVec\<close> drops the byte when the buffer is full.\<close>

definition begode_try_push :: "BegodeFrameReassembler \<Rightarrow> u8 \<Rightarrow> BegodeFrameReassembler" where
  "begode_try_push r byte =
     (if length (begode_buffer r) < BEGODE_FRAME_LEN
      then r\<lparr>begode_buffer := begode_buffer r @ [byte]\<rparr> else r)"

definition begode_feed_byte_result ::
  "BegodeFrameReassembler \<Rightarrow> u8 \<Rightarrow> (BegodeFrameError + BegodeFrameParseResult) \<times> BegodeFrameReassembler" where
  "begode_feed_byte_result r byte =
     (if begode_buffer r = [] then
        (if byte = BEGODE_HEADER ! 0
         then (Inr BegodeBuffered,
               r\<lparr>begode_buffer := begode_buffer r @ [byte], begode_last_byte_ms := None\<rparr>)
         else (Inr BegodeSeeking, r))
      else if length (begode_buffer r) = 1 then
        (let r' = (if byte = BEGODE_HEADER ! 1
                   then r\<lparr>begode_buffer := begode_buffer r @ [byte]\<rparr>
                   else if byte \<noteq> BEGODE_HEADER ! 0 then begode_clear_buffer r
                   else r)
         in (Inr (if begode_buffer r' = [] then BegodeSeeking else BegodeBuffered), r'))
      else
        (let r' = begode_apply_embedded_header_resync (begode_try_push r byte)
         in if length (begode_buffer r') \<noteq> BEGODE_FRAME_LEN
            then (Inr BegodeBuffered, r')
            else (case begode_try_from_slice (begode_buffer r') of
                    Inl e \<Rightarrow> (Inl e, begode_clear_buffer r')
                  | Inr f \<Rightarrow> (Inr (BegodeComplete f), begode_clear_buffer r'))))"

definition begode_feed_byte_result_at ::
  "MonotonicTimestamp \<Rightarrow> BegodeFrameReassembler \<Rightarrow> u8
     \<Rightarrow> (BegodeFrameError + BegodeFrameParseResult) \<times> BegodeFrameReassembler" where
  "begode_feed_byte_result_at monotonic_ms r byte =
     (case begode_feed_byte_result r byte of
        (Inl e, r') \<Rightarrow> (Inl e, r')
      | (Inr result, r') \<Rightarrow>
          (Inr result,
           r'\<lparr>begode_last_byte_ms := (if begode_buffer r' = [] then None else Some monotonic_ms)\<rparr>))"

text \<open>
  The byte loop of \<open>handle_notification\<close>: the completed frames of one notification, in order, up to
  the first malformed frame, whose diagnostic ends the loop.
\<close>

primrec begode_scan ::
  "MonotonicTimestamp \<Rightarrow> BegodeFrameReassembler \<Rightarrow> u8 list
     \<Rightarrow> (BegodeFrameError + BegodeFrame) list \<times> BegodeFrameReassembler" where
  "begode_scan at r [] = ([], r)"
| "begode_scan at r (byte # bytes) =
     (case begode_feed_byte_result_at at r byte of (res, r') \<Rightarrow>
        (case res of
           Inr (BegodeComplete f) \<Rightarrow> (case begode_scan at r' bytes of (evs, r'') \<Rightarrow> (Inr f # evs, r''))
         | Inr BegodeSeeking \<Rightarrow> begode_scan at r' bytes
         | Inr BegodeBuffered \<Rightarrow> begode_scan at r' bytes
         | Inl e \<Rightarrow> ([Inl e], r')))"

text \<open>A sequence of notifications, with their times of arrival.\<close>

primrec begode_receive ::
  "BegodeFrameReassembler \<Rightarrow> (MonotonicTimestamp \<times> u8 list) list
     \<Rightarrow> (BegodeFrameError + BegodeFrame) list \<times> BegodeFrameReassembler" where
  "begode_receive r [] = ([], r)"
| "begode_receive r (n # ns) =
     (case begode_scan (fst n) r (snd n) of (evs, r') \<Rightarrow>
        (case begode_receive r' ns of (evs', r'') \<Rightarrow> (evs @ evs', r'')))"

text \<open>The reference: the reassembler fed with every byte, malformed frames notwithstanding.\<close>

primrec begode_ingest ::
  "MonotonicTimestamp \<Rightarrow> BegodeFrameReassembler \<Rightarrow> u8 list
     \<Rightarrow> (BegodeFrameError + BegodeFrame) list \<times> BegodeFrameReassembler" where
  "begode_ingest at r [] = ([], r)"
| "begode_ingest at r (byte # bytes) =
     (case begode_feed_byte_result_at at r byte of (res, r') \<Rightarrow>
        (case begode_ingest at r' bytes of (evs, r'') \<Rightarrow>
           (case res of
              Inr (BegodeComplete f) \<Rightarrow> Inr f # evs
            | Inr BegodeSeeking \<Rightarrow> evs
            | Inr BegodeBuffered \<Rightarrow> evs
            | Inl e \<Rightarrow> Inl e # evs, r'')))"

section \<open>Specification\<close>

definition begode_valid :: "u8 list \<Rightarrow> bool" where
  "begode_valid bs \<longleftrightarrow>
     length bs = 24 \<and> take 2 bs = [0x55, 0xaa] \<and> drop 20 bs = [0x5a, 0x5a, 0x5a, 0x5a]"

definition begode_glitch_prefix :: "u8 list \<Rightarrow> bool" where
  "begode_glitch_prefix bs \<longleftrightarrow>
     take 3 (drop 2 bs) = [0x5a, 0x55, 0xaa] \<or> take 4 (drop 2 bs) = [0x5a, 0x5a, 0x55, 0xaa]"

definition begode_inv :: "BegodeFrameReassembler \<Rightarrow> bool" where
  "begode_inv r \<longleftrightarrow>
     begode_buffer r = [] \<or> begode_buffer r = [0x55]
     \<or> (take 2 (begode_buffer r) = [0x55, 0xaa] \<and> length (begode_buffer r) < 24)"

definition begode_frames :: "(BegodeFrameError + BegodeFrame) list \<Rightarrow> BegodeFrame list" where
  "begode_frames evs = concat (map (\<lambda>ev. case ev of Inl _ \<Rightarrow> [] | Inr f \<Rightarrow> [f]) evs)"

definition begode_emit ::
  "MonotonicTimestamp \<Rightarrow> BegodeFrameReassembler \<Rightarrow> u8 \<Rightarrow> BegodeFrame option \<times> BegodeFrameReassembler" where
  "begode_emit at r byte =
     (case begode_feed_byte_result_at at r byte of
        (Inr (BegodeComplete f), r') \<Rightarrow> (Some f, r')
      | (_, r') \<Rightarrow> (None, r'))"

lemmas begode_consts = BEGODE_FRAME_LEN_def BEGODE_HEADER_def BEGODE_TERMINATOR_def

lemmas begode_ops = begode_feed_byte_result_at_def begode_feed_byte_result_def begode_try_push_def
  begode_apply_embedded_header_resync_def begode_keep_trailing_header_def begode_clear_buffer_def
  begode_consts

section \<open>Frame validation\<close>

lemma begode_try_from_slice_iff:
  "begode_try_from_slice bs = Inr f \<longleftrightarrow> begode_valid bs \<and> f = \<lparr>begode_bytes = bs\<rparr>"
  by (auto simp: begode_try_from_slice_def begode_valid_def begode_consts starts_with_def
      slice_range_def take_all numeral_2_eq_2)

lemma begode_try_from_slice_err:
  "begode_try_from_slice bs = Inl BegodeInvalidFrame \<longleftrightarrow> \<not> begode_valid bs"
  by (auto simp: begode_try_from_slice_def begode_valid_def begode_consts starts_with_def
      slice_range_def take_all numeral_2_eq_2)

section \<open>One byte\<close>

text \<open>What one byte does to the buffer, from the buffer alone.\<close>

definition begode_next :: "u8 list \<Rightarrow> u8 \<Rightarrow> u8 list" where
  "begode_next buf b =
     (if buf = [] then (if b = 0x55 then [0x55] else [])
      else if length buf = 1 then (if b = 0xaa then buf @ [b] else if b = 0x55 then buf else [])
      else if buf @ [b] = [0x55, 0xaa, 0x5a, 0x55, 0xaa]
            \<or> buf @ [b] = [0x55, 0xaa, 0x5a, 0x5a, 0x55, 0xaa] then [0x55, 0xaa]
      else if length buf = 23 then [] else buf @ [b])"

lemma begode_feed_buffer:
  assumes "length (begode_buffer r) < 24"
  shows "begode_buffer (snd (begode_feed_byte_result_at at r b)) = begode_next (begode_buffer r) b"
  using assms
  by (auto simp: begode_ops begode_next_def Let_def split: sum.splits prod.splits)

lemma begode_feed_complete_iff:
  assumes "length (begode_buffer r) < 24"
  shows "fst (begode_feed_byte_result_at at r b) = Inr (BegodeComplete f) \<longleftrightarrow>
    length (begode_buffer r) = 23 \<and> begode_valid (begode_buffer r @ [b])
    \<and> f = \<lparr>begode_bytes = begode_buffer r @ [b]\<rparr>"
  using assms begode_try_from_slice_iff [of "begode_buffer r @ [b]" f]
  by (auto simp: begode_ops Let_def split: sum.splits prod.splits if_splits)

lemma begode_feed_quiet:
  assumes "length (begode_buffer r) < 23"
  shows "fst (begode_feed_byte_result_at at r b) \<in> {Inr BegodeSeeking, Inr BegodeBuffered}"
  using assms by (auto simp: begode_ops Let_def split: sum.splits prod.splits)

lemma begode_inv_length: "begode_inv r \<Longrightarrow> length (begode_buffer r) < 24"
  by (auto simp: begode_inv_def)

lemma begode_next_inv:
  assumes "begode_inv r"
  shows "begode_next (begode_buffer r) b = [] \<or> begode_next (begode_buffer r) b = [0x55]
    \<or> (take 2 (begode_next (begode_buffer r) b) = [0x55, 0xaa]
       \<and> length (begode_next (begode_buffer r) b) < 24)"
proof -
  have "2 \<le> length (begode_buffer r)" if "take 2 (begode_buffer r) = [0x55, 0xaa]"
    using that by (cases "begode_buffer r"; cases "tl (begode_buffer r)") auto
  then show ?thesis
    using assms by (auto simp: begode_inv_def begode_next_def)
qed

lemma begode_next_suffix:
  assumes "begode_inv r"
  shows "suffix (begode_next (begode_buffer r) b) (begode_buffer r @ [b])"
proof (cases "begode_buffer r @ [b] = [0x55, 0xaa, 0x5a, 0x55, 0xaa]
    \<or> begode_buffer r @ [b] = [0x55, 0xaa, 0x5a, 0x5a, 0x55, 0xaa]")
  case True
  then have "begode_next (begode_buffer r) b = [0x55, 0xaa]"
    by (auto simp: begode_next_def)
  moreover have "suffix [0x55, 0xaa] (begode_buffer r @ [b])"
    using True by (auto simp: suffix_def)
  ultimately show ?thesis
    by simp
next
  case False
  then show ?thesis
    using assms by (auto simp: begode_inv_def begode_next_def suffix_def)
qed

section \<open>The reassembler contract\<close>

lemma begode_emit_state: "snd (begode_emit at r b) = snd (begode_feed_byte_result_at at r b)"
  by (auto simp: begode_emit_def split: prod.splits sum.splits BegodeFrameParseResult.splits)

lemma begode_emit_Some:
  "fst (begode_emit at r b) = Some f \<longleftrightarrow>
     fst (begode_feed_byte_result_at at r b) = Inr (BegodeComplete f)"
  by (auto simp: begode_emit_def split: prod.splits sum.splits BegodeFrameParseResult.splits)

lemma begode_emit_inv: "begode_inv r \<Longrightarrow> begode_inv (snd (begode_emit at r b))"
  using begode_next_inv [of r b] begode_feed_buffer [OF begode_inv_length, of r at b]
  by (simp add: begode_inv_def [of "snd _"] begode_emit_state)

lemma begode_emit_frame:
  assumes "begode_inv r" and "fst (begode_emit at r b) = Some f"
  shows "begode_valid (begode_bytes f) \<and> begode_bytes f = begode_buffer r @ [b]
    \<and> begode_buffer (snd (begode_emit at r b)) = []"
proof -
  have len: "length (begode_buffer r) < 24"
    using assms(1) by (rule begode_inv_length)
  have "length (begode_buffer r) = 23" and v: "begode_valid (begode_buffer r @ [b])"
    and f: "f = \<lparr>begode_bytes = begode_buffer r @ [b]\<rparr>"
    using assms(2) begode_feed_complete_iff [OF len] by (simp_all add: begode_emit_Some)
  then have "begode_next (begode_buffer r) b = []"
    by (auto simp: begode_next_def dest: arg_cong [of _ _ length])
  then show ?thesis
    using v f begode_feed_buffer [OF len] by (simp add: begode_emit_state)
qed

interpretation begode: byte_reassembler "begode_emit at" begode_buffer begode_bytes begode_inv
  "\<lambda>f. begode_valid (begode_bytes f)" for at
proof unfold_locales
  fix r b res r'
  assume "begode_inv r" and st: "begode_emit at r b = (res, r')"
  then show "begode_inv r'"
    using begode_emit_inv [of r at b] by simp
next
  fix r b f r'
  assume "begode_inv r" and "begode_emit at r b = (Some f, r')"
  then show "begode_valid (begode_bytes f) \<and> begode_bytes f = begode_buffer r @ [b]
      \<and> begode_buffer r' = []"
    using begode_emit_frame [of r at b f] by (metis fst_conv snd_conv)
next
  fix r b r'
  assume inv: "begode_inv r" and st: "begode_emit at r b = (None, r')"
  have "begode_buffer r' = begode_next (begode_buffer r) b"
    using begode_feed_buffer [OF begode_inv_length [OF inv], of at b] begode_emit_state [of at r b] st
    by simp
  then show "suffix (begode_buffer r') (begode_buffer r @ [b])"
    using begode_next_suffix [OF inv, of b] by simp
qed

lemma begode_run_eq:
  "begode.run at r bs = (begode_frames (fst (begode_ingest at r bs)), snd (begode_ingest at r bs))"
  by (induction bs arbitrary: r)
    (auto simp: begode_frames_def begode_emit_def
      split: prod.splits sum.splits BegodeFrameParseResult.splits option.splits)

section \<open>Valid frames are reported\<close>

lemma begode_next_prefix:
  assumes "begode_valid (p @ b # ys)" and "\<not> begode_glitch_prefix (p @ b # ys)"
    and "length p < 23"
  shows "begode_next p b = p @ [b]"
proof -
  have hd: "take 2 (p @ b # ys) = [0x55, 0xaa]"
    using assms(1) by (simp add: begode_valid_def)
  consider "p = []" | x where "p = [x]" | "2 \<le> length p"
    by (cases p; cases "tl p") auto
  then show ?thesis
  proof cases
    case 3
    have split: "p @ b # ys = (p @ [b]) @ ys"
      by simp
    have "p @ [b] \<noteq> [0x55, 0xaa, 0x5a, 0x55, 0xaa]"
      and "p @ [b] \<noteq> [0x55, 0xaa, 0x5a, 0x5a, 0x55, 0xaa]"
      using assms(2) unfolding split by (force simp: begode_glitch_prefix_def)+
    then show ?thesis
      using 3 assms(3) by (auto simp: begode_next_def)
  qed (use hd in \<open>auto simp: begode_next_def\<close>)
qed

lemma begode_ingest_prefix:
  assumes "begode_valid (begode_buffer r @ xs)" and "\<not> begode_glitch_prefix (begode_buffer r @ xs)"
    and "xs \<noteq> []"
  shows "fst (begode_ingest at r xs) = [Inr \<lparr>begode_bytes = begode_buffer r @ xs\<rparr>]
    \<and> begode_buffer (snd (begode_ingest at r xs)) = []"
  using assms
proof (induction xs arbitrary: r)
  case (Cons b ys)
  obtain res r' where st: "begode_feed_byte_result_at at r b = (res, r')"
    by fastforce
  have len: "length (begode_buffer r) + Suc (length ys) = 24"
    using Cons.prems(1) by (simp add: begode_valid_def)
  have buf: "begode_buffer r' = begode_next (begode_buffer r) b"
    using begode_feed_buffer [of r at b] len st by simp
  show ?case
  proof (cases ys)
    case Nil
    then have "fst (begode_feed_byte_result_at at r b) =
        Inr (BegodeComplete \<lparr>begode_bytes = begode_buffer r @ [b]\<rparr>)"
      using Cons.prems(1) len begode_feed_complete_iff [of r at b] by simp
    moreover have "begode_next (begode_buffer r) b = []"
      using Nil len by (auto simp: begode_next_def dest: arg_cong [of _ _ length])
    ultimately show ?thesis
      using Nil st buf by simp
  next
    case (Cons c zs)
    have quiet: "res = Inr BegodeSeeking \<or> res = Inr BegodeBuffered"
      using begode_feed_quiet [of r at b] len st \<open>ys = c # zs\<close> by simp
    have "begode_buffer r' = begode_buffer r @ [b]"
      using buf begode_next_prefix [OF Cons.prems(1,2)] len \<open>ys = c # zs\<close> by simp
    then have "fst (begode_ingest at r' ys) = [Inr \<lparr>begode_bytes = begode_buffer r @ b # ys\<rparr>]
        \<and> begode_buffer (snd (begode_ingest at r' ys)) = []"
      using Cons.IH [of r'] Cons.prems \<open>ys = c # zs\<close> by simp
    then show ?thesis
      using st quiet by (auto split: prod.splits)
  qed
qed simp

lemma begode_ingest_append:
  "begode_ingest at r (xs @ ys) =
     (fst (begode_ingest at r xs) @ fst (begode_ingest at (snd (begode_ingest at r xs)) ys),
      snd (begode_ingest at (snd (begode_ingest at r xs)) ys))"
  by (induction xs arbitrary: r)
    (auto split: prod.splits sum.splits BegodeFrameParseResult.splits)

text \<open>Events and buffer do not depend on the arrival times.\<close>

lemma begode_feed_at_irrelevant:
  assumes "begode_buffer r = begode_buffer q"
  shows "fst (begode_feed_byte_result_at a r b) = fst (begode_feed_byte_result_at c q b)
    \<and> begode_buffer (snd (begode_feed_byte_result_at a r b)) =
      begode_buffer (snd (begode_feed_byte_result_at c q b))"
  using assms by (simp add: begode_ops Let_def split: sum.splits)

lemma begode_ingest_at_irrelevant:
  assumes "begode_buffer r = begode_buffer q"
  shows "fst (begode_ingest a r bs) = fst (begode_ingest c q bs)
    \<and> begode_buffer (snd (begode_ingest a r bs)) = begode_buffer (snd (begode_ingest c q bs))"
  using assms
proof (induction bs arbitrary: r q)
  case (Cons b bs)
  obtain res r' where st: "begode_feed_byte_result_at a r b = (res, r')"
    by fastforce
  obtain q' where sq: "begode_feed_byte_result_at c q b = (res, q')"
    and "begode_buffer r' = begode_buffer q'"
    using begode_feed_at_irrelevant [OF Cons.prems, of a b c] st
    by (cases "begode_feed_byte_result_at c q b") auto
  then show ?case
    using Cons.IH [of r' q'] st
    by (auto simp: case_prod_unfold split: sum.splits BegodeFrameParseResult.splits)
qed simp

text \<open>Too few bytes for a frame report none.\<close>

lemma begode_next_length: "length (begode_next buf b) \<le> Suc (length buf)"
  by (auto simp: begode_next_def)

lemma begode_ingest_short:
  assumes "length (begode_buffer r) + length xs < 24"
  shows "fst (begode_ingest at r xs) = []"
  using assms
proof (induction xs arbitrary: r)
  case (Cons b xs)
  obtain res r' where st: "begode_feed_byte_result_at at r b = (res, r')"
    by fastforce
  have "length (begode_buffer r') \<le> Suc (length (begode_buffer r))"
    using begode_feed_buffer [of r at b] begode_next_length [of "begode_buffer r" b] Cons.prems st
    by simp
  then have "fst (begode_ingest at r' xs) = []"
    using Cons by simp
  moreover have "res = Inr BegodeSeeking \<or> res = Inr BegodeBuffered"
    using begode_feed_quiet [of r at b] Cons.prems st by simp
  ultimately show ?case
    using st by (auto split: prod.splits)
qed simp

lemma begode_ingest_glitch:
  assumes "begode_buffer r = []" and "g = [0x55, 0xaa, 0x5a] \<or> g = [0x55, 0xaa, 0x5a, 0x5a]"
  shows "fst (begode_ingest at r (g @ [0x55, 0xaa])) = []
    \<and> begode_buffer (snd (begode_ingest at r (g @ [0x55, 0xaa]))) = [0x55, 0xaa]"
  using assms by (auto simp: begode_ops)

lemma begode_glitch_prefixE:
  assumes "begode_valid bs" and "begode_glitch_prefix bs"
  obtains g ys where "g = [0x55, 0xaa, 0x5a] \<or> g = [0x55, 0xaa, 0x5a, 0x5a]"
    and "bs = (g @ [0x55, 0xaa]) @ ys" and "length ys < 20"
proof -
  have len: "length bs = 24" and hd: "take 2 bs = [0x55, 0xaa]"
    using assms(1) by (simp_all add: begode_valid_def)
  have split3: "bs = take 2 bs @ take 3 (drop 2 bs) @ drop 5 bs"
    using append_take_drop_id [of "2 + 3" bs] unfolding take_add by simp
  have split4: "bs = take 2 bs @ take 4 (drop 2 bs) @ drop 6 bs"
    using append_take_drop_id [of "2 + 4" bs] unfolding take_add by simp
  consider "take 3 (drop 2 bs) = [0x5a, 0x55, 0xaa]" | "take 4 (drop 2 bs) = [0x5a, 0x5a, 0x55, 0xaa]"
    using assms(2) by (auto simp: begode_glitch_prefix_def)
  then show ?thesis
  proof cases
    case 1
    then have "bs = ([0x55, 0xaa, 0x5a] @ [0x55, 0xaa]) @ drop 5 bs"
      using split3 hd by simp
    then show ?thesis
      using len by (intro that [of "[0x55, 0xaa, 0x5a]" "drop 5 bs"]) auto
  next
    case 2
    then have "bs = ([0x55, 0xaa, 0x5a, 0x5a] @ [0x55, 0xaa]) @ drop 6 bs"
      using split4 hd by simp
    then show ?thesis
      using len by (intro that [of "[0x55, 0xaa, 0x5a, 0x5a]" "drop 6 bs"]) auto
  qed
qed

lemma begode_ingest_glitched_frame:
  assumes "begode_valid bs" and "begode_glitch_prefix bs" and "begode_buffer r = []"
  shows "fst (begode_ingest at r bs) = []"
proof -
  obtain g ys where g: "g = [0x55, 0xaa, 0x5a] \<or> g = [0x55, 0xaa, 0x5a, 0x5a]"
    and bs: "bs = (g @ [0x55, 0xaa]) @ ys" and "length ys < 20"
    using assms(1,2) by (rule begode_glitch_prefixE)
  then show ?thesis
    using begode_ingest_glitch [OF assms(3) g, of at] begode_ingest_short [of _ ys at]
    by (simp add: bs begode_ingest_append [of at r "g @ [0x55, 0xaa]" ys] del: append.append_Cons append_assoc)
qed

section \<open>Notifications\<close>

lemma begode_error_clears:
  "begode_feed_byte_result_at at r b = (Inl e, r') \<Longrightarrow> begode_buffer r' = []"
  by (auto simp: begode_ops Let_def split: sum.splits prod.splits if_splits)

text \<open>A notification is read up to its first malformed frame.\<close>

lemma begode_scan_cut:
  "\<exists>k. begode_scan at r bs = begode_ingest at r (take k bs)
     \<and> (k < length bs \<longrightarrow> begode_buffer (snd (begode_scan at r bs)) = [])"
proof (induction bs arbitrary: r)
  case (Cons b bs)
  obtain res r' where st: "begode_feed_byte_result_at at r b = (res, r')"
    by fastforce
  show ?case
  proof (cases res)
    case (Inl e)
    then show ?thesis
      using st begode_error_clears [of at r b e r'] by (auto intro!: exI [of _ 1])
  next
    case (Inr q)
    obtain k where k: "begode_scan at r' bs = begode_ingest at r' (take k bs)"
      "k < length bs \<longrightarrow> begode_buffer (snd (begode_scan at r' bs)) = []"
      using Cons.IH by blast
    then show ?thesis
      using st Inr by (intro exI [of _ "Suc k"]) (auto split: BegodeFrameParseResult.splits prod.splits)
  qed
qed simp

lemma begode_scan_whole:
  assumes "list_all (\<lambda>ev. ev \<noteq> Inl BegodeInvalidFrame) (fst (begode_ingest at r bs))"
  shows "begode_scan at r bs = begode_ingest at r bs"
  using assms
proof (induction bs arbitrary: r)
  case (Cons b bs)
  obtain res r' where st: "begode_feed_byte_result_at at r b = (res, r')"
    by fastforce
  show ?case
  proof (cases res)
    case (Inl e)
    then show ?thesis
      using Cons.prems st by (cases e) (auto split: prod.splits)
  next
    case (Inr q)
    then show ?thesis
      using Cons st by (cases q) (auto split: prod.splits)
  qed
qed simp

lemma begode_scan_sound:
  assumes "begode_inv r"
  shows "embedded (map begode_bytes (begode_frames (fst (begode_scan at r bs))))
      (begode_buffer (snd (begode_scan at r bs))) (begode_buffer r @ bs)
    \<and> begode_inv (snd (begode_scan at r bs))
    \<and> (\<forall>f \<in> set (begode_frames (fst (begode_scan at r bs))). begode_valid (begode_bytes f))"
proof -
  obtain k where k: "begode_scan at r bs = begode_ingest at r (take k bs)"
    "k < length bs \<longrightarrow> begode_buffer (snd (begode_scan at r bs)) = []"
    using begode_scan_cut by blast
  then show ?thesis
    using begode.run_cut_embedded [OF assms, of k bs at] begode.run_inv [OF assms, of at "take k bs"]
      begode.run_valid [OF assms, of _ at "take k bs"]
    by (simp add: begode_run_eq)
qed

lemma begode_frames_append: "begode_frames (xs @ ys) = begode_frames xs @ begode_frames ys"
  by (simp add: begode_frames_def)

lemma begode_receive_sound:
  "begode_inv r \<Longrightarrow>
     embedded (map begode_bytes (begode_frames (fst (begode_receive r ns))))
       (begode_buffer (snd (begode_receive r ns))) (begode_buffer r @ concat (map snd ns))
     \<and> (\<forall>f \<in> set (begode_frames (fst (begode_receive r ns))). begode_valid (begode_bytes f))"
proof (induction ns arbitrary: r)
  case (Cons n ns)
  obtain evs r' where st: "begode_scan (fst n) r (snd n) = (evs, r')"
    by fastforce
  have scan: "embedded (map begode_bytes (begode_frames evs)) (begode_buffer r') (begode_buffer r @ snd n)"
    "begode_inv r'" "\<forall>f \<in> set (begode_frames evs). begode_valid (begode_bytes f)"
    using begode_scan_sound [OF Cons.prems, of "fst n" "snd n"] st by simp_all
  have rest: "embedded (map begode_bytes (begode_frames (fst (begode_receive r' ns))))
      (begode_buffer (snd (begode_receive r' ns))) (begode_buffer r' @ concat (map snd ns))"
    "\<forall>f \<in> set (begode_frames (fst (begode_receive r' ns))). begode_valid (begode_bytes f)"
    using Cons.IH [OF scan(2)] by simp_all
  show ?case
    using embedded_join [OF scan(1) rest(1)] scan(3) rest(2) st
    by (auto simp: begode_frames_append split: prod.splits)
qed (simp add: begode_frames_def)

text \<open>While no frame is malformed the notifications read as one stream.\<close>

lemma begode_receive_stream:
  assumes "begode_buffer r = begode_buffer q"
    and "list_all (\<lambda>ev. ev \<noteq> Inl BegodeInvalidFrame) (fst (begode_ingest t q (concat (map snd ns))))"
  shows "fst (begode_receive r ns) = fst (begode_ingest t q (concat (map snd ns)))
    \<and> begode_buffer (snd (begode_receive r ns)) = begode_buffer (snd (begode_ingest t q (concat (map snd ns))))"
  using assms
proof (induction ns arbitrary: r q)
  case (Cons n ns)
  let ?q = "snd (begode_ingest t q (snd n))"
  have same: "fst (begode_ingest (fst n) r (snd n)) = fst (begode_ingest t q (snd n))"
    "begode_buffer (snd (begode_ingest (fst n) r (snd n))) = begode_buffer ?q"
    using begode_ingest_at_irrelevant [OF Cons.prems(1)] by blast+
  have ok: "list_all (\<lambda>ev. ev \<noteq> Inl BegodeInvalidFrame) (fst (begode_ingest t q (snd n)))"
    "list_all (\<lambda>ev. ev \<noteq> Inl BegodeInvalidFrame) (fst (begode_ingest t ?q (concat (map snd ns))))"
    using Cons.prems(2) by (simp_all add: begode_ingest_append)
  have "begode_scan (fst n) r (snd n) = begode_ingest (fst n) r (snd n)"
    using ok(1) same(1) by (intro begode_scan_whole) simp
  then show ?case
    using Cons.IH [OF same(2) ok(2)] same(1) by (simp add: begode_ingest_append case_prod_unfold)
qed simp

section \<open>Properties\<close>

text \<open>
  C1. Whatever notifications a wheel sends, every frame that is reported is a well-formed Begode
  frame (24 bytes, \<open>55 aa\<close> header, \<open>5a 5a 5a 5a\<close> terminator), the reported frames are
  contiguous pieces of the stream of notifications, in order and without overlap, and the retained
  partial frame is the end of the stream or empty.
\<close>

theorem begode_stream_sound:
  "embedded (map begode_bytes (begode_frames (fst (begode_receive begode_default ns))))
     (begode_buffer (snd (begode_receive begode_default ns))) (concat (map snd ns))
   \<and> list_all (\<lambda>f. begode_valid (begode_bytes f) \<and> begode_try_from_slice (begode_bytes f) = Inr f)
       (begode_frames (fst (begode_receive begode_default ns)))"
proof -
  have inv: "begode_inv begode_default"
    by (simp add: begode_inv_def begode_default_def)
  have "begode_try_from_slice (begode_bytes f) = Inr f" if "begode_valid (begode_bytes f)" for f
    using that by (simp add: begode_try_from_slice_iff)
  then show ?thesis
    using begode_receive_sound [OF inv, of ns] by (simp add: begode_default_def list_all_iff)
qed

text \<open>
  C33. Fragmentation does not matter to a stream without malformed frames: split into any
  notifications, arriving at any times, it yields the frames, and leaves the partial frame, of the
  stream fed as one notification.
\<close>

theorem begode_fragmentation_invariant:
  assumes "list_all (\<lambda>ev. ev \<noteq> Inl BegodeInvalidFrame)
      (fst (begode_scan t begode_default (concat (map snd ns))))"
  shows "fst (begode_receive begode_default ns) = fst (begode_scan t begode_default (concat (map snd ns)))
    \<and> begode_buffer (snd (begode_receive begode_default ns)) =
        begode_buffer (snd (begode_scan t begode_default (concat (map snd ns))))"
proof -
  have "begode_scan t r bs = begode_ingest t r bs"
    if "list_all (\<lambda>ev. ev \<noteq> Inl BegodeInvalidFrame) (fst (begode_scan t r bs))" for r bs
    using that
  proof (induction bs arbitrary: r)
    case (Cons b bs)
    obtain res r' where st: "begode_feed_byte_result_at t r b = (res, r')"
      by fastforce
    show ?case
    proof (cases res)
      case (Inl e)
      then show ?thesis
        using Cons.prems st by (cases e) auto
    next
      case (Inr q)
      then show ?thesis
        using Cons st by (cases q) (auto split: prod.splits)
    qed
  qed simp
  then show ?thesis
    using begode_receive_stream [of begode_default begode_default t ns] assms by simp
qed

theorem begode_fragmentation_invariant_witness:
  "begode_receive begode_default [(1, [0x55, 0xaa]), (2, [0x17]), (3, [])] =
     ([], \<lparr>begode_buffer = [0x55, 0xaa, 0x17], begode_last_byte_ms = Some 2\<rparr>)
   \<and> fst (begode_receive begode_default [(1, [0x55, 0xaa]), (2, [0x17]), (3, [])]) =
       fst (begode_scan 9 begode_default [0x55, 0xaa, 0x17])"
  using begode_fragmentation_invariant [of 9 "[(1, [0x55, 0xaa]), (2, [0x17]), (3, [])]"]
  by (simp add: begode_ops begode_default_def)

text \<open>
  C32. A valid frame fed to an idle reassembler is reported as exactly that frame, unless its
  payload starts with the bytes of a terminator glitch (\<open>5a 55 aa\<close> or \<open>5a 5a 55 aa\<close>): then the
  resynchronisation drops the frame and nothing is reported.
\<close>

theorem begode_valid_frame_reported:
  assumes "begode_valid bs" and "begode_buffer r = []"
  shows "fst (begode_scan at r bs) =
    (if begode_glitch_prefix bs then [] else [Inr \<lparr>begode_bytes = bs\<rparr>])"
proof -
  have "bs \<noteq> []"
    using assms(1) by (auto simp: begode_valid_def)
  then have "fst (begode_ingest at r bs) = (if begode_glitch_prefix bs then [] else [Inr \<lparr>begode_bytes = bs\<rparr>])"
    using assms begode_ingest_prefix [of r bs at] begode_ingest_glitched_frame [of bs r at] by simp
  then show ?thesis
    using begode_scan_whole [of at r bs] by simp
qed

theorem begode_valid_frame_reported_witness:
  "fst (begode_scan 7 begode_default
      ([0x55, 0xaa, 0x17, 0x75, 0x05, 0x38, 0x00, 0x76, 0x02, 0xee, 0xfb, 0x64, 0xf4, 0x94, 0x14, 0x81,
        0x00, 0x09, 0x00, 0x18, 0x5a, 0x5a, 0x5a, 0x5a])) =
   [Inr \<lparr>begode_bytes = [0x55, 0xaa, 0x17, 0x75, 0x05, 0x38, 0x00, 0x76, 0x02, 0xee, 0xfb, 0x64, 0xf4,
        0x94, 0x14, 0x81, 0x00, 0x09, 0x00, 0x18, 0x5a, 0x5a, 0x5a, 0x5a]\<rparr>]"
proof -
  let ?bs = "[0x55, 0xaa, 0x17, 0x75, 0x05, 0x38, 0x00, 0x76, 0x02, 0xee, 0xfb, 0x64, 0xf4, 0x94, 0x14,
    0x81, 0x00, 0x09, 0x00, 0x18, 0x5a, 0x5a, 0x5a, 0x5a] :: u8 list"
  have "begode_valid ?bs" and "begode_buffer begode_default = []" and "\<not> begode_glitch_prefix ?bs"
    by (simp_all add: begode_valid_def begode_default_def begode_glitch_prefix_def)
  then show ?thesis
    using begode_valid_frame_reported [of ?bs begode_default 7] by simp
qed

text \<open>
  A malformed frame takes the rest of its notification with it: the valid frame that follows in the
  same notification is lost, and would be reported in a notification of its own.
\<close>

lemma begode_scan_error_append:
  "Inl e \<in> set (fst (begode_scan at r xs)) \<Longrightarrow> begode_scan at r (xs @ ys) = begode_scan at r xs"
  by (induction xs arbitrary: r) (auto split: prod.splits sum.splits BegodeFrameParseResult.splits)

lemma begode_malformed_loses_rest:
  assumes "begode_valid bs" and "\<not> begode_glitch_prefix bs"
  shows "fst (begode_scan at begode_default ([0x55, 0xaa] @ replicate 22 0 @ bs)) = [Inl BegodeInvalidFrame]
    \<and> fst (begode_receive begode_default [(at, [0x55, 0xaa] @ replicate 22 0), (at, bs)]) =
        [Inl BegodeInvalidFrame, Inr \<lparr>begode_bytes = bs\<rparr>]"
proof -
  let ?bad = "[0x55, 0xaa] @ replicate 22 0 :: u8 list"
  have "replicate 22 (0 :: u8) = [0, 0, 0, 0, 0, 0, 0, 0, 0, 0, 0, 0, 0, 0, 0, 0, 0, 0, 0, 0, 0, 0]"
    by (simp add: eval_nat_numeral)
  then obtain r' where bad: "begode_scan at begode_default ?bad = ([Inl BegodeInvalidFrame], r')"
    and idle: "begode_buffer r' = []"
    by (simp add: begode_ops begode_default_def begode_try_from_slice_def starts_with_def slice_range_def)
  have "begode_scan at begode_default (?bad @ bs) = ([Inl BegodeInvalidFrame], r')"
    using begode_scan_error_append [of BegodeInvalidFrame at begode_default ?bad bs] bad by simp
  moreover have "bs \<noteq> []"
    using assms(1) by (auto simp: begode_valid_def)
  then have "fst (begode_scan at r' bs) = [Inr \<lparr>begode_bytes = bs\<rparr>]"
    using begode_ingest_prefix [of r' bs at] assms begode_scan_whole [of at r' bs] idle by simp
  ultimately show ?thesis
    using bad by (simp add: case_prod_unfold del: replicate.simps begode_scan.simps)
qed

text \<open>
  A documented terminator glitch before a frame (\<open>55 aa 5a\<close> or \<open>55 aa 5a 5a\<close>) is skipped:
  the valid frame that follows is reported, and no diagnostic is raised.
\<close>

lemma begode_glitch_resync:
  assumes "begode_valid bs" and "\<not> begode_glitch_prefix bs" and "begode_buffer r = []"
    and "g = [0x55, 0xaa, 0x5a] \<or> g = [0x55, 0xaa, 0x5a, 0x5a]"
  shows "fst (begode_ingest at r (g @ bs)) = [Inr \<lparr>begode_bytes = bs\<rparr>]"
proof -
  let ?r = "snd (begode_ingest at r (g @ [0x55, 0xaa]))"
  have buf: "begode_buffer ?r = [0x55, 0xaa]" and quiet: "fst (begode_ingest at r (g @ [0x55, 0xaa])) = []"
    using begode_ingest_glitch [OF assms(3,4), of at] by simp_all
  have bs: "bs = [0x55, 0xaa] @ drop 2 bs" and rest: "drop 2 bs \<noteq> []"
    using assms(1) append_take_drop_id [of 2 bs] by (auto simp: begode_valid_def)
  have "fst (begode_ingest at ?r (drop 2 bs)) = [Inr \<lparr>begode_bytes = bs\<rparr>]"
    using begode_ingest_prefix [of ?r "drop 2 bs" at] assms(1,2) bs rest by (simp add: buf)
  then have "fst (begode_ingest at r ((g @ [0x55, 0xaa]) @ drop 2 bs)) = [Inr \<lparr>begode_bytes = bs\<rparr>]"
    by (simp only: begode_ingest_append [of at r "g @ [0x55, 0xaa]"] quiet fst_conv append_Nil)
  then show ?thesis
    using bs by (metis append.assoc)
qed

lemma begode_glitch_resync_example:
  "fst (begode_ingest 7 begode_default ([0x55, 0xaa, 0x5a] @
      [0x55, 0xaa, 0x17, 0x75, 0x05, 0x38, 0x00, 0x76, 0x02, 0xee, 0xfb, 0x64, 0xf4, 0x94, 0x14, 0x81,
        0x00, 0x09, 0x00, 0x18, 0x5a, 0x5a, 0x5a, 0x5a])) =
   [Inr \<lparr>begode_bytes = [0x55, 0xaa, 0x17, 0x75, 0x05, 0x38, 0x00, 0x76, 0x02, 0xee, 0xfb, 0x64, 0xf4,
        0x94, 0x14, 0x81, 0x00, 0x09, 0x00, 0x18, 0x5a, 0x5a, 0x5a, 0x5a]\<rparr>]"
  by (rule begode_glitch_resync)
    (simp_all add: begode_valid_def begode_default_def begode_glitch_prefix_def)

end
