(* ===== verification/Quantities.thy ===== *)
theory Quantities
  imports Evidence "HOL-Library.Signed_Division"
begin

text \<open>
  The physical quantities of \<^verbatim>\<open>cutout-core/src/lib.rs\<close> and \<^verbatim>\<open>battery_current.rs\<close>.  A \<open>Quantity\<close> is one
  number in its storage unit: a signed one an integer with the saturation of \<open>i32\<close> written out, an
  unsigned one a word.  Division of signed numbers truncates (\<open>sdiv\<close>); intermediate results of 64 and
  128 bits stay far below their bounds.  Shown: a piecewise linear battery curve is
  bounded by its end points and never falls as its input rises.
\<close>

section \<open>Saturation and rounding\<close>

definition saturate_i32 :: "int \<Rightarrow> int" where
  "saturate_i32 v = max (- 2147483648) (min v 2147483647)"

definition saturating_u64_to_i32 :: "u64 \<Rightarrow> int" where
  "saturating_u64_to_i32 v = min (uint v) 2147483647"

definition saturate_i64 :: "int \<Rightarrow> int" where
  "saturate_i64 v = max (- 9223372036854775808) (min v 9223372036854775807)"

definition round_div_i128 :: "int \<Rightarrow> int \<Rightarrow> int" where
  "round_div_i128 numerator denominator =
     (if denominator = 0 then 0
      else
        (let rounded = (\<bar>numerator\<bar> + \<bar>denominator\<bar> sdiv 2) sdiv \<bar>denominator\<bar>
         in if (numerator < 0) \<noteq> (denominator < 0) then - rounded else rounded))"

section \<open>Electrical quantities\<close>

definition voltage_from_deci_volts :: "int \<Rightarrow> int" where
  "voltage_from_deci_volts v = saturate_i32 (v * 100)"

definition voltage_from_centivolts :: "int \<Rightarrow> int" where
  "voltage_from_centivolts v = saturate_i32 (v * 10)"

text \<open>Cell voltages are in microvolts.\<close>

definition as_cell_voltage :: "int \<Rightarrow> u8 \<Rightarrow> int" where
  "as_cell_voltage mv series_cells =
     (let cells = uint series_cells
      in if cells \<le> 0 then 0 else saturate_i32 ((saturate_i64 (mv * 1000) + cells sdiv 2) sdiv cells))"

definition voltage_from_cell_voltage :: "int \<Rightarrow> int \<Rightarrow> int" where
  "voltage_from_cell_voltage cell_voltage series_cells =
     (if series_cells \<le> 0 then 0 else saturate_i32 ((cell_voltage * series_cells + 500) sdiv 1000))"

type_synonym WireVoltage = u16

definition wire_as_millivolts :: "WireVoltage \<Rightarrow> int" where
  "wire_as_millivolts w = uint w * 10"

definition as_scaled_voltage :: "WireVoltage \<Rightarrow> int \<Rightarrow> int" where
  "as_scaled_voltage w scaler_milli =
     (if scaler_milli \<le> 0 then 0
      else saturate_i32 ((wire_as_millivolts w * scaler_milli + 500) sdiv 1000))"

text \<open>\<open>u16::try_from\<close>, with \<open>u16::MAX\<close> for what does not fit: a negative value becomes the maximum.\<close>

definition from_scaled_voltage :: "int \<Rightarrow> int \<Rightarrow> WireVoltage" where
  "from_scaled_voltage mv scaler_milli =
     (if scaler_milli \<le> 0 then 0
      else
        (let centivolts = (mv * 100 + scaler_milli sdiv 2) sdiv scaler_milli
         in if 0 \<le> centivolts \<and> centivolts \<le> 65535 then of_int centivolts else 65535))"

definition current_from_centiamps :: "int \<Rightarrow> int" where
  "current_from_centiamps v = saturate_i32 (v * 10)"

definition current_from_deciamps :: "int \<Rightarrow> int" where
  "current_from_deciamps v = saturate_i32 (v * 100)"

definition energy_from_cell_geometry :: "u32 \<Rightarrow> u8 \<Rightarrow> u8 \<Rightarrow> u32" where
  "energy_from_cell_geometry cell_watt_hours series_cells parallel_packs =
     saturating_mul (saturating_mul cell_watt_hours (ucast series_cells)) (ucast parallel_packs)"

definition capacity_from_parallel_packs :: "u32 \<Rightarrow> u8 \<Rightarrow> u32" where
  "capacity_from_parallel_packs cell_capacity parallel_packs = saturating_mul cell_capacity (ucast parallel_packs)"

datatype BatteryCurrent =
    CurrentZero
  | CurrentIn u32
  | CurrentOut u32
  | CurrentUnknown u32

datatype BatteryCurrentPolarity = PolarityUnknown | PositiveIsOut | PositiveIsIn

definition current_in :: "u32 \<Rightarrow> BatteryCurrent" where
  "current_in ma = (if ma = 0 then CurrentZero else CurrentIn ma)"

definition current_out :: "u32 \<Rightarrow> BatteryCurrent" where
  "current_out ma = (if ma = 0 then CurrentZero else CurrentOut ma)"

definition current_unknown :: "u32 \<Rightarrow> BatteryCurrent" where
  "current_unknown ma = (if ma = 0 then CurrentZero else CurrentUnknown ma)"

definition current_normalize :: "int \<Rightarrow> BatteryCurrentPolarity \<Rightarrow> BatteryCurrent" where
  "current_normalize value polarity =
     (let magnitude = of_int \<bar>value\<bar> :: u32
      in case polarity of
           PolarityUnknown \<Rightarrow> current_unknown magnitude
         | PositiveIsOut \<Rightarrow> if 0 \<le> value then current_out magnitude else current_in magnitude
         | PositiveIsIn \<Rightarrow> if value < 0 then current_out magnitude else current_in magnitude)"

text \<open>Power in milliwatts, for a current of known direction.\<close>

definition power_from_pack_voltage_current :: "int \<Rightarrow> BatteryCurrent \<Rightarrow> int option" where
  "power_from_pack_voltage_current mv current =
     map_option (\<lambda>ma. saturate_i64 ((mv * ma) sdiv 1000))
       (case current of
          CurrentZero \<Rightarrow> Some 0 | CurrentOut v \<Rightarrow> Some (uint v) | CurrentIn v \<Rightarrow> Some (- uint v) | CurrentUnknown _ \<Rightarrow> None)"

section \<open>Motion\<close>

definition speed_from_centimetres_per_second :: "int \<Rightarrow> int" where
  "speed_from_centimetres_per_second v = saturate_i32 (v * 10)"

definition speed_from_milli_kmh :: "int \<Rightarrow> int" where
  "speed_from_milli_kmh v = saturate_i32 (v * 5) sdiv 18"

definition speed_from_kmh :: "u64 \<Rightarrow> int" where
  "speed_from_kmh v = speed_from_milli_kmh (saturating_u64_to_i32 (saturating_mul v 1000))"

definition speed_from_deci_kmh :: "int \<Rightarrow> int" where
  "speed_from_deci_kmh v = speed_from_milli_kmh (saturate_i32 (v * 100))"

definition speed_as_milli_kmh :: "int \<Rightarrow> int" where
  "speed_as_milli_kmh v = saturate_i32 (v * 18) sdiv 5"

definition speed_as_kmh_rounded :: "int \<Rightarrow> int" where
  "speed_as_kmh_rounded v =
     (let numerator = v * 18
      in if 0 \<le> numerator then saturate_i32 ((numerator + 2500) sdiv 5000)
         else saturate_i32 ((numerator - 2500) sdiv 5000))"

definition speed_as_deci_kmh_rounded :: "int \<Rightarrow> int" where
  "speed_as_deci_kmh_rounded v =
     (let numerator = v * 36
      in if 0 \<le> numerator then saturate_i32 ((numerator + 500) sdiv 1000)
         else saturate_i32 ((numerator - 500) sdiv 1000))"

definition speed_from_mph_floor_kmh :: "u64 \<Rightarrow> int" where
  "speed_from_mph_floor_kmh v = speed_from_kmh (saturating_mul v 1609344 div 1000000)"

definition speed_from_milli_kmh_scaled :: "int \<Rightarrow> int \<Rightarrow> int" where
  "speed_from_milli_kmh_scaled v scale_milli =
     (if scale_milli \<le> 0 then 0
      else speed_from_milli_kmh (saturate_i32 ((v * scale_milli + 500000) sdiv 1000000)))"

type_synonym Distance = u64

definition distance_from_metres :: "u64 \<Rightarrow> Distance" where
  "distance_from_metres v = saturating_mul v 1000"

definition distance_from_milli_miles :: "u32 \<Rightarrow> Distance" where
  "distance_from_milli_miles v = saturating_mul (ucast v) 1609344 div 1000"

definition distance_as_metres :: "Distance \<Rightarrow> u64" where
  "distance_as_metres d = d div 1000"

section \<open>Time, temperature and ratios\<close>

definition duration_from_seconds :: "u64 \<Rightarrow> Duration" where
  "duration_from_seconds v = saturating_mul v 1000"

definition duration_from_minutes :: "u64 \<Rightarrow> Duration" where
  "duration_from_minutes v = duration_from_seconds (saturating_mul v 60)"

definition duration_as_seconds :: "Duration \<Rightarrow> u64" where
  "duration_as_seconds d = d div 1000"

definition duration_as_minutes :: "Duration \<Rightarrow> u64" where
  "duration_as_minutes d = d div 1000 div 60"

definition temperature_from_celsius :: "int \<Rightarrow> int" where
  "temperature_from_celsius v = saturate_i32 (v * 1000)"

definition temperature_from_centi_celsius :: "int \<Rightarrow> int" where
  "temperature_from_centi_celsius v = saturate_i32 (v * 10)"

definition angle_from_centi_degrees :: "int \<Rightarrow> int" where
  "angle_from_centi_degrees v = saturate_i32 (v * 10)"

definition temperature_from_mpu6050_counts :: "int \<Rightarrow> int" where
  "temperature_from_mpu6050_counts v = 36530 + (v * 1000) sdiv 340"

text \<open>\<open>i16::try_from\<close> of a 16-bit quotient, with \<open>i16::MAX\<close> when it does not fit.\<close>

definition duty_from_centipercent :: "u16 \<Rightarrow> int" where
  "duty_from_centipercent v = (let q = int (unat v) div 10 in if q \<le> 32767 then q else 32767)"

definition duty_from_decipermille :: "int \<Rightarrow> int" where
  "duty_from_decipermille v = v sdiv 10"

definition duty_from_centered_pwm :: "u16 \<Rightarrow> int" where
  "duty_from_centered_pwm v =
     (let permille = ((uint v - 32768) * 1000) sdiv 32768
      in if - 32768 \<le> permille \<and> permille \<le> 32767 then permille else if permille < 0 then - 32768 else 32767)"

section \<open>Battery level\<close>

type_synonym BatteryLevel = u8

definition from_percent :: "u8 \<Rightarrow> BatteryLevel" where
  "from_percent v = (if 100 < v then 100 else v)"

definition from_percent_i32 :: "int \<Rightarrow> BatteryLevel" where
  "from_percent_i32 v = from_percent (of_int (max 0 (min v 100)))"

definition interpolate :: "BatteryLevel \<Rightarrow> BatteryLevel \<Rightarrow> int \<Rightarrow> int \<Rightarrow> int \<Rightarrow> BatteryLevel" where
  "interpolate low high value low_value high_value =
     (let value_span = high_value - low_value
      in if value_span \<le> 0 then low
         else
           (let level_span = uint high - uint low;
                value_offset = value - low_value;
                delta = round_div_i128 (value_offset * level_span) value_span
            in from_percent_i32 (saturate_i32 (uint low + delta))))"

fun curve_window :: "int \<Rightarrow> (int \<times> BatteryLevel) list \<Rightarrow> BatteryLevel option" where
  "curve_window value ((low_value, low_level) # (high_value, high_level) # points) =
     (if value \<le> high_value then Some (interpolate low_level high_level value low_value high_value)
      else curve_window value ((high_value, high_level) # points))"
| "curve_window value _ = None"

definition from_piecewise_linear :: "int \<Rightarrow> (int \<times> BatteryLevel) list \<Rightarrow> BatteryLevel" where
  "from_piecewise_linear value points =
     (case points of
        [] \<Rightarrow> from_percent 0
      | (first_value, first_level) # _ \<Rightarrow>
          if value \<le> first_value then first_level
          else (case curve_window value points of Some level \<Rightarrow> level | None \<Rightarrow> snd (last points)))"

section \<open>Rounding\<close>

lemma saturate_i32_id: "- 2147483648 \<le> v \<Longrightarrow> v \<le> 2147483647 \<Longrightarrow> saturate_i32 v = v"
  by (simp add: saturate_i32_def)

lemma saturate_i32_mono: "v \<le> w \<Longrightarrow> saturate_i32 v \<le> saturate_i32 w"
  by (auto simp: saturate_i32_def)

lemma sdiv_pos [simp]: "0 \<le> a \<Longrightarrow> 0 < b \<Longrightarrow> a sdiv b = a div b" for a b :: int
  by (cases "a = 0") (simp_all add: signed_divide_int_def)

lemma round_div_pos:
  "0 \<le> n \<Longrightarrow> 0 < d \<Longrightarrow> round_div_i128 n d = (n + d div 2) div d"
  by (simp add: round_div_i128_def Let_def)

text \<open>Within a window the rounded increment runs from nothing to the whole span.\<close>

lemma round_div_span:
  assumes "0 \<le> x" and "x \<le> d" and "0 < d" and "0 \<le> s"
  shows "0 \<le> round_div_i128 (x * s) d" and "round_div_i128 (x * s) d \<le> s"
proof -
  have n: "0 \<le> x * s" and le: "x * s \<le> d * s"
    using assms by (simp_all add: mult_right_mono)
  show "0 \<le> round_div_i128 (x * s) d"
    using n assms(3) by (simp add: round_div_pos pos_imp_zdiv_nonneg_iff)
  have "(x * s + d div 2) div d \<le> (s * d + d div 2) div d"
    using le assms(3) by (intro zdiv_mono1) (simp_all add: mult.commute)
  also have "\<dots> = s"
    using assms(3) by simp
  finally show "round_div_i128 (x * s) d \<le> s"
    using n assms(3) by (simp add: round_div_pos)
qed

lemma round_div_mono:
  assumes "0 \<le> x" and "x \<le> y" and "0 < d" and "0 \<le> s"
  shows "round_div_i128 (x * s) d \<le> round_div_i128 (y * s) d"
proof -
  have "x * s \<le> y * s" and "0 \<le> x * s" and "0 \<le> y * s"
    using assms by (simp_all add: mult_right_mono)
  then show ?thesis
    using assms(3) by (simp add: round_div_pos zdiv_mono1)
qed

section \<open>Battery curves\<close>

lemma from_percent_i32_id: "0 \<le> v \<Longrightarrow> v \<le> 100 \<Longrightarrow> uint (from_percent_i32 v) = v"
proof -
  assume v: "0 \<le> v" "v \<le> 100"
  then have "uint (of_int v :: u8) = v"
    by (simp add: uint_word_of_int mod_pos_pos_trivial)
  then show ?thesis
    using v by (auto simp: from_percent_i32_def from_percent_def word_less_def)
qed

lemma interpolate_eq:
  assumes "lo \<le> v" and "v \<le> hi" and "lo < hi" and "uint a \<le> uint b" and "uint b \<le> 100"
  shows "uint (interpolate a b v lo hi) = uint a + round_div_i128 ((v - lo) * (uint b - uint a)) (hi - lo)"
proof -
  let ?r = "round_div_i128 ((v - lo) * (uint b - uint a)) (hi - lo)"
  have "0 \<le> ?r" and "?r \<le> uint b - uint a"
    using round_div_span [of "v - lo" "hi - lo" "uint b - uint a"] assms by simp_all
  then have "0 \<le> uint a + ?r" and "uint a + ?r \<le> 100"
    using assms(5) by simp_all
  then show ?thesis
    using assms(3) by (simp add: interpolate_def Let_def saturate_i32_id from_percent_i32_id)
qed

text \<open>Points in increasing order with levels that never fall and stay within a hundred percent.\<close>

fun rising_curve :: "(int \<times> BatteryLevel) list \<Rightarrow> bool" where
  "rising_curve (p # q # ps) \<longleftrightarrow> fst p < fst q \<and> uint (snd p) \<le> uint (snd q) \<and> rising_curve (q # ps)"
| "rising_curve [p] \<longleftrightarrow> uint (snd p) \<le> 100"
| "rising_curve [] \<longleftrightarrow> True"

lemma rising_curve_levels:
  "rising_curve (p # ps) \<Longrightarrow> uint (snd p) \<le> uint (snd (last (p # ps))) \<and> uint (snd (last (p # ps))) \<le> 100"
proof (induction ps arbitrary: p)
  case (Cons q ps)
  then have "rising_curve (q # ps)" and "uint (snd p) \<le> uint (snd q)"
    by simp_all
  then show ?case
    using Cons.IH [of q] by (simp del: rising_curve.simps)
qed simp

lemma interpolate_between:
  assumes "lo \<le> v" and "v \<le> hi" and "lo < hi" and "uint a \<le> uint b" and "uint b \<le> 100"
  shows "uint a \<le> uint (interpolate a b v lo hi)" and "uint (interpolate a b v lo hi) \<le> uint b"
  using round_div_span [of "v - lo" "hi - lo" "uint b - uint a"] assms by (simp_all add: interpolate_eq)

text \<open>The level of a value past the first point, by the windows or the last point.\<close>

definition curve_level :: "int \<Rightarrow> (int \<times> BatteryLevel) list \<Rightarrow> BatteryLevel" where
  "curve_level v ps = (case curve_window v ps of Some l \<Rightarrow> l | None \<Rightarrow> snd (last ps))"

lemma curve_level_Cons:
  "curve_level v ((a, k) # (b, l) # ps) =
     (if v \<le> b then interpolate k l v a b else curve_level v ((b, l) # ps))"
  by (simp add: curve_level_def split: option.splits)

lemma curve_level_bounds:
  assumes "rising_curve (p # ps)" and "fst p \<le> v"
  shows "uint (snd p) \<le> uint (curve_level v (p # ps))
    \<and> uint (curve_level v (p # ps)) \<le> uint (snd (last (p # ps)))"
  using assms
proof (induction ps arbitrary: p)
  case (Cons q ps)
  have rise: "fst p < fst q" "uint (snd p) \<le> uint (snd q)" "rising_curve (q # ps)"
    using Cons.prems(1) by simp_all
  have top: "uint (snd q) \<le> uint (snd (last (q # ps)))" "uint (snd (last (q # ps))) \<le> 100"
    using rising_curve_levels [OF rise(3)] by simp_all
  show ?case
  proof (cases "v \<le> fst q")
    case True
    then have "uint (snd p) \<le> uint (interpolate (snd p) (snd q) v (fst p) (fst q))"
      "uint (interpolate (snd p) (snd q) v (fst p) (fst q)) \<le> uint (snd q)"
      using interpolate_between [of "fst p" v "fst q" "snd p" "snd q"] rise top Cons.prems(2) by simp_all
    then show ?thesis
      using True top by (cases p; cases q) (simp add: curve_level_Cons)
  next
    case False
    then show ?thesis
      using Cons.IH [OF rise(3)] rise(2) by (cases p; cases q) (simp add: curve_level_Cons)
  qed
qed (simp add: curve_level_def)

lemma curve_level_mono:
  assumes "rising_curve (p # ps)" and "fst p \<le> v" and "v \<le> w"
  shows "uint (curve_level v (p # ps)) \<le> uint (curve_level w (p # ps))"
  using assms
proof (induction ps arbitrary: p)
  case (Cons q ps)
  have rise: "fst p < fst q" "uint (snd p) \<le> uint (snd q)" "rising_curve (q # ps)"
    using Cons.prems(1) by simp_all
  have top: "uint (snd q) \<le> 100"
    using rising_curve_levels [OF rise(3)] by simp
  consider "w \<le> fst q" | "v \<le> fst q" "fst q < w" | "fst q < v"
    by linarith
  then show ?case
  proof cases
    case 1
    then have "uint (interpolate (snd p) (snd q) v (fst p) (fst q)) \<le>
        uint (interpolate (snd p) (snd q) w (fst p) (fst q))"
      using Cons.prems rise top
      by (simp add: interpolate_eq round_div_mono)
    then show ?thesis
      using 1 Cons.prems by (cases p; cases q) (simp add: curve_level_Cons)
  next
    case 2
    then have "uint (interpolate (snd p) (snd q) v (fst p) (fst q)) \<le> uint (snd q)"
      using interpolate_between(2) [of "fst p" v "fst q" "snd p" "snd q"] Cons.prems rise top by simp
    moreover have "uint (snd q) \<le> uint (curve_level w (q # ps))"
      using curve_level_bounds [OF rise(3), of w] 2 by simp
    ultimately show ?thesis
      using 2 by (cases p; cases q) (simp add: curve_level_Cons)
  next
    case 3
    then show ?thesis
      using Cons.IH [OF rise(3)] Cons.prems by (cases p; cases q) (simp add: curve_level_Cons)
  qed
qed (simp add: curve_level_def)

lemma from_piecewise_linear_Cons:
  "from_piecewise_linear v (p # ps) = (if v \<le> fst p then snd p else curve_level v (p # ps))"
  by (simp add: from_piecewise_linear_def curve_level_def split: prod.splits)

text \<open>A rising curve is bounded by its end points and never falls.\<close>

lemma piecewise_linear_range:
  assumes "rising_curve (p # ps)"
  shows "uint (snd p) \<le> uint (from_piecewise_linear v (p # ps))
    \<and> uint (from_piecewise_linear v (p # ps)) \<le> uint (snd (last (p # ps)))"
  using curve_level_bounds [OF assms, of v] rising_curve_levels [OF assms]
  by (auto simp: from_piecewise_linear_Cons)

lemma piecewise_linear_mono:
  assumes "rising_curve (p # ps)" and "v \<le> w"
  shows "uint (from_piecewise_linear v (p # ps)) \<le> uint (from_piecewise_linear w (p # ps))"
proof (cases "v \<le> fst p")
  case True
  then show ?thesis
    using piecewise_linear_range [OF assms(1), of w] by (simp add: from_piecewise_linear_Cons)
next
  case False
  then show ?thesis
    using curve_level_mono [OF assms(1), of v w] assms(2) by (simp add: from_piecewise_linear_Cons)
qed

text \<open>No ratio below 3.276 saturates the pack voltage.\<close>

lemma as_scaled_voltage_eq:
  assumes "0 < k" and "k \<le> 3276"
  shows "as_scaled_voltage w k = (uint w * 10 * k + 500) div 1000"
proof -
  have "uint w \<le> 65535"
    using uint_bounded [of w] by simp
  then have "uint w * 10 * k \<le> 655350 * 3276"
    using assms by (intro mult_mono) simp_all
  then have "(uint w * 10 * k + 500) div 1000 \<le> (655350 * 3276 + 500) div 1000"
    by (intro zdiv_mono1) simp_all
  moreover have "0 \<le> (uint w * 10 * k + 500) div 1000"
    using assms by (simp add: pos_imp_zdiv_nonneg_iff)
  ultimately show ?thesis
    using assms by (simp add: as_scaled_voltage_def wire_as_millivolts_def saturate_i32_id)
qed

end
