(* ===== verification/Telemetry.thy ===== *)
theory Telemetry
  imports Quantities
begin

text \<open>
  Telemetry as the session root keeps it (\<^verbatim>\<open>cutout-core/src/lib.rs\<close>, \<^verbatim>\<open>battery_current.rs\<close>): the partial
  updates decoders produce, the snapshot they are merged into, and the ride state, charging state and
  power flow read from it.  Shown: a snapshot holds of every field exactly the latest evidence, with
  the time it was observed, and charging is shown only for a wheel that fresh evidence says stands
  still.
\<close>

section \<open>States a device reports\<close>

datatype (plugins only: code) ChargeMode = ChargeUnknown | NotCharging | Charging

datatype (plugins only: code) RideOperatingState = StateUnknown | Parked | Standing | Riding | StateCharging

datatype (plugins only: code) RideOperatingMode = ModeUnknown | ModeNormal | Darkride | Handtest | Flywheel

datatype (plugins only: code) FootpadContactState = ContactNone | ContactLeft | ContactRight | ContactBoth

datatype (plugins only: code) PowerFlowDirection =
    FlowDischarge | FlowZero | FlowCharging | FlowRegeneration | FlowUnknown

record FootpadTelemetry =
  footpad_state :: u8
  contact_state :: "FootpadContactState option"
  adc1_milliunits :: "int option"
  adc2_milliunits :: "int option"

datatype 'a TelemetryFieldUpdate = Unchanged | FieldSet 'a | FieldInvalid

section \<open>Updates and the snapshot\<close>

record TelemetryDelta =
  td_at_ms :: MonotonicTimestamp
  td_speed :: "int Measured option"
  td_voltage :: "int Measured option"
  td_battery_current :: "BatteryCurrent Measured option"
  td_charge_mode :: "ChargeMode Measured option"
  td_operating_state :: "RideOperatingState option"
  td_operating_mode :: "RideOperatingMode option"
  td_ride_warning :: "RideWarning option"
  td_ride_stop_reason :: "RideStopReason option"
  td_motor_current :: "int Measured option"
  td_power :: "int Measured option"
  td_controller_temperature :: "int Measured option"
  td_motor_temperature :: "int Measured option"
  td_battery_temperature :: "int Measured option"
  td_pwm :: "int Measured TelemetryFieldUpdate"
  td_distance :: "Distance Measured option"
  td_trip_distance :: "Distance Measured option"
  td_pitch :: "int Measured option"
  td_balance_angle :: "int Measured option"
  td_roll :: "int Measured option"
  td_footpad :: "FootpadTelemetry option"
  td_battery_level_reported :: "BatteryLevel Measured option"
  td_battery_level_estimated :: "BatteryLevel Measured TelemetryFieldUpdate"

definition delta_empty :: "MonotonicTimestamp \<Rightarrow> TelemetryDelta" where
  "delta_empty at =
     \<lparr>td_at_ms = at, td_speed = None, td_voltage = None, td_battery_current = None,
      td_charge_mode = None, td_operating_state = None, td_operating_mode = None,
      td_ride_warning = None, td_ride_stop_reason = None, td_motor_current = None, td_power = None,
      td_controller_temperature = None, td_motor_temperature = None, td_battery_temperature = None,
      td_pwm = Unchanged, td_distance = None, td_trip_distance = None, td_pitch = None,
      td_balance_angle = None, td_roll = None, td_footpad = None, td_battery_level_reported = None,
      td_battery_level_estimated = Unchanged\<rparr>"

record TelemetrySnapshot =
  ts_at_ms :: "MonotonicTimestamp option"
  ts_speed_observed_at_ms :: "MonotonicTimestamp option"
  ts_voltage_observed_at_ms :: "MonotonicTimestamp option"
  ts_battery_current_observed_at_ms :: "MonotonicTimestamp option"
  ts_speed :: "int Measured option"
  ts_voltage :: "int Measured option"
  ts_battery_current :: "BatteryCurrent Measured option"
  ts_charge_mode :: "ChargeMode Measured option"
  ts_operating_state :: "RideOperatingState option"
  ts_operating_mode :: "RideOperatingMode option"
  ts_ride_warning :: "RideWarning option"
  ts_ride_stop_reason :: "RideStopReason option"
  ts_motor_current :: "int Measured option"
  ts_power :: "int Measured option"
  ts_controller_temperature :: "int Measured option"
  ts_motor_temperature :: "int Measured option"
  ts_battery_temperature :: "int Measured option"
  ts_pwm :: "int Measured option"
  ts_distance :: "Distance Measured option"
  ts_trip_distance :: "Distance Measured option"
  ts_pitch :: "int Measured option"
  ts_balance_angle :: "int Measured option"
  ts_roll :: "int Measured option"
  ts_footpad :: "FootpadTelemetry option"
  ts_battery_level_reported :: "BatteryLevel Measured option"
  ts_battery_level_estimated :: "BatteryLevel Measured option"

definition snapshot_default :: TelemetrySnapshot where
  "snapshot_default =
     \<lparr>ts_at_ms = None, ts_speed_observed_at_ms = None, ts_voltage_observed_at_ms = None,
      ts_battery_current_observed_at_ms = None, ts_speed = None, ts_voltage = None,
      ts_battery_current = None, ts_charge_mode = None, ts_operating_state = None,
      ts_operating_mode = None, ts_ride_warning = None, ts_ride_stop_reason = None,
      ts_motor_current = None, ts_power = None, ts_controller_temperature = None,
      ts_motor_temperature = None, ts_battery_temperature = None, ts_pwm = None, ts_distance = None,
      ts_trip_distance = None, ts_pitch = None, ts_balance_angle = None, ts_roll = None,
      ts_footpad = None, ts_battery_level_reported = None, ts_battery_level_estimated = None\<rparr>"

text \<open>The three ways a field takes an update: its value, the time it was observed, and an update that may clear.\<close>

definition newer :: "'a option \<Rightarrow> 'a option \<Rightarrow> 'a option" where
  "newer update old = (case update of Some v \<Rightarrow> Some v | None \<Rightarrow> old)"

definition observed :: "'a option \<Rightarrow> MonotonicTimestamp \<Rightarrow> MonotonicTimestamp option \<Rightarrow> MonotonicTimestamp option" where
  "observed update at old = (case update of Some _ \<Rightarrow> Some at | None \<Rightarrow> old)"

definition field_update :: "'a TelemetryFieldUpdate \<Rightarrow> 'a option \<Rightarrow> 'a option" where
  "field_update update old = (case update of Unchanged \<Rightarrow> old | FieldSet v \<Rightarrow> Some v | FieldInvalid \<Rightarrow> None)"

definition apply_delta :: "TelemetrySnapshot \<Rightarrow> TelemetryDelta \<Rightarrow> TelemetrySnapshot" where
  "apply_delta s d =
     \<lparr>ts_at_ms = Some (td_at_ms d),
      ts_speed_observed_at_ms = observed (td_speed d) (td_at_ms d) (ts_speed_observed_at_ms s),
      ts_voltage_observed_at_ms = observed (td_voltage d) (td_at_ms d) (ts_voltage_observed_at_ms s),
      ts_battery_current_observed_at_ms =
        observed (td_battery_current d) (td_at_ms d) (ts_battery_current_observed_at_ms s),
      ts_speed = newer (td_speed d) (ts_speed s),
      ts_voltage = newer (td_voltage d) (ts_voltage s),
      ts_battery_current = newer (td_battery_current d) (ts_battery_current s),
      ts_charge_mode = newer (td_charge_mode d) (ts_charge_mode s),
      ts_operating_state = newer (td_operating_state d) (ts_operating_state s),
      ts_operating_mode = newer (td_operating_mode d) (ts_operating_mode s),
      ts_ride_warning = newer (td_ride_warning d) (ts_ride_warning s),
      ts_ride_stop_reason = newer (td_ride_stop_reason d) (ts_ride_stop_reason s),
      ts_motor_current = newer (td_motor_current d) (ts_motor_current s),
      ts_power = newer (td_power d) (ts_power s),
      ts_controller_temperature = newer (td_controller_temperature d) (ts_controller_temperature s),
      ts_motor_temperature = newer (td_motor_temperature d) (ts_motor_temperature s),
      ts_battery_temperature = newer (td_battery_temperature d) (ts_battery_temperature s),
      ts_pwm = field_update (td_pwm d) (ts_pwm s),
      ts_distance = newer (td_distance d) (ts_distance s),
      ts_trip_distance = newer (td_trip_distance d) (ts_trip_distance s),
      ts_pitch = newer (td_pitch d) (ts_pitch s),
      ts_balance_angle = newer (td_balance_angle d) (ts_balance_angle s),
      ts_roll = newer (td_roll d) (ts_roll s),
      ts_footpad = newer (td_footpad d) (ts_footpad s),
      ts_battery_level_reported = newer (td_battery_level_reported d) (ts_battery_level_reported s),
      ts_battery_level_estimated = field_update (td_battery_level_estimated d) (ts_battery_level_estimated s)\<rparr>"

definition invalidate_calculated_speed :: "TelemetrySnapshot \<Rightarrow> TelemetrySnapshot" where
  "invalidate_calculated_speed s =
     (if is_some_and (ts_speed s) (\<lambda>v. measured_source v = Calculated)
      then s\<lparr>ts_speed := None, ts_speed_observed_at_ms := None\<rparr> else s)"

section \<open>Ride state, charging and power flow\<close>

definition CONNECTED_WHEEL_MOTION_FRESHNESS_MS :: u64 where
  "CONNECTED_WHEEL_MOTION_FRESHNESS_MS = 5000"

fun fresh_motion :: "int option \<Rightarrow> MonotonicTimestamp option \<Rightarrow> MonotonicTimestamp option \<Rightarrow> int option" where
  "fresh_motion (Some speed) (Some observed_at) (Some now) =
     (if observed_at \<le> now \<and> saturating_duration_since now observed_at \<le> CONNECTED_WHEEL_MOTION_FRESHNESS_MS
      then Some speed else None)"
| "fresh_motion _ _ _ = None"

definition charge_from_active :: "bool \<Rightarrow> ChargeMode" where
  "charge_from_active active = (if active then Charging else NotCharging)"

definition for_motion ::
  "ChargeMode \<Rightarrow> RideOperatingState option \<Rightarrow> int option \<Rightarrow> MonotonicTimestamp option \<Rightarrow> MonotonicTimestamp
     \<Rightarrow> ChargeMode" where
  "for_motion mode reported speed speed_at now =
     (let fresh_speed = fresh_motion speed speed_at (Some now)
      in if reported = Some Riding \<or> is_some_and fresh_speed speed_is_moving then NotCharging
         else if mode = Charging \<and> fresh_speed = None then ChargeUnknown
         else mode)"

definition ride_state_resolve :: "RideOperatingState option \<Rightarrow> ChargeMode option \<Rightarrow> int option \<Rightarrow> RideOperatingState" where
  "ride_state_resolve reported charge_mode speed =
     (if reported = Some Riding then Riding
      else if (reported = Some StateCharging \<or> charge_mode = Some Charging) \<and> is_some_and speed speed_is_moving
        then Riding
      else if charge_mode = Some Charging then StateCharging
      else
        case opt_filter (\<lambda>state. state \<noteq> StateUnknown) reported of
          Some state \<Rightarrow> state
        | None \<Rightarrow>
            (case map_option speed_is_moving speed of
               Some False \<Rightarrow> Standing
             | Some True \<Rightarrow> Riding
             | None \<Rightarrow> StateUnknown))"

definition resolve_fresh ::
  "RideOperatingState option \<Rightarrow> ChargeMode option \<Rightarrow> int option \<Rightarrow> MonotonicTimestamp option
     \<Rightarrow> MonotonicTimestamp option \<Rightarrow> RideOperatingState \<times> ChargeMode option" where
  "resolve_fresh reported charge_mode speed speed_at now =
     (let fresh_speed = fresh_motion speed speed_at now;
          charge_mode' = map_option (\<lambda>mode.
            case now of
              Some now' \<Rightarrow> for_motion mode reported speed speed_at now'
            | None \<Rightarrow>
                if reported = Some Riding \<or> is_some_and fresh_speed speed_is_moving then NotCharging
                else if mode = Charging then ChargeUnknown
                else mode) charge_mode;
          effective_reported =
            (if reported = Some StateCharging \<and> fresh_speed = None then None
             else if reported = Some StateCharging \<and> is_some_and fresh_speed speed_is_moving then Some Riding
             else reported)
      in (ride_state_resolve effective_reported (Some (unwrap_or charge_mode' ChargeUnknown)) fresh_speed,
          charge_mode'))"

definition power_flow :: "BatteryCurrent \<Rightarrow> RideOperatingState \<Rightarrow> PowerFlowDirection" where
  "power_flow current operating_state =
     (case current of
        CurrentZero \<Rightarrow> FlowZero
      | CurrentOut _ \<Rightarrow> FlowDischarge
      | CurrentUnknown _ \<Rightarrow> FlowUnknown
      | CurrentIn _ \<Rightarrow>
          (case operating_state of
             Riding \<Rightarrow> FlowRegeneration
           | StateCharging \<Rightarrow> FlowCharging
           | _ \<Rightarrow> FlowUnknown))"

fun power_flow_fresh ::
  "BatteryCurrent \<Rightarrow> RideOperatingState \<Rightarrow> MonotonicTimestamp option \<Rightarrow> MonotonicTimestamp option
     \<Rightarrow> PowerFlowDirection" where
  "power_flow_fresh current operating_state (Some observed_at) (Some now) =
     (if observed_at \<le> now \<and> saturating_duration_since now observed_at \<le> CONNECTED_WHEEL_MOTION_FRESHNESS_MS
      then power_flow current operating_state else FlowUnknown)"
| "power_flow_fresh _ _ _ _ = FlowUnknown"

section \<open>What a snapshot holds\<close>

text \<open>The latest of a list of updates, and the latest with its time.\<close>

definition latest :: "('d \<Rightarrow> 'a option) \<Rightarrow> 'd list \<Rightarrow> 'a option" where
  "latest f ds = (case filter (\<lambda>d. f d \<noteq> None) (rev ds) of [] \<Rightarrow> None | d # _ \<Rightarrow> f d)"

definition latest_time :: "(TelemetryDelta \<Rightarrow> 'a option) \<Rightarrow> TelemetryDelta list \<Rightarrow> MonotonicTimestamp option" where
  "latest_time f ds = latest (\<lambda>d. map_option (\<lambda>_. td_at_ms d) (f d)) ds"

text \<open>The verdict of the last update that is not silent: a value, or nothing after an invalid one.\<close>

definition latest_verdict :: "('d \<Rightarrow> 'a TelemetryFieldUpdate) \<Rightarrow> 'd list \<Rightarrow> 'a option" where
  "latest_verdict f ds =
     (case filter (\<lambda>d. f d \<noteq> Unchanged) (rev ds) of [] \<Rightarrow> None | d # _ \<Rightarrow> field_update (f d) None)"

lemma latest_snoc: "latest f (ds @ [d]) = newer (f d) (latest f ds)"
  by (auto simp: latest_def newer_def)

lemma latest_time_snoc: "latest_time f (ds @ [d]) = observed (f d) (td_at_ms d) (latest_time f ds)"
  unfolding latest_time_def latest_snoc by (simp add: newer_def observed_def split: option.splits)

lemma latest_verdict_snoc: "latest_verdict f (ds @ [d]) = field_update (f d) (latest_verdict f ds)"
  by (auto simp: latest_verdict_def field_update_def split: TelemetryFieldUpdate.splits)

definition snapshot_of :: "TelemetryDelta list \<Rightarrow> TelemetrySnapshot" where
  "snapshot_of ds = foldl apply_delta snapshot_default ds"

lemma snapshot_of_snoc [simp]: "snapshot_of (ds @ [d]) = apply_delta (snapshot_of ds) d"
  by (simp add: snapshot_of_def)

lemma snapshot_of_Nil [simp]: "snapshot_of [] = snapshot_default"
  by (simp add: snapshot_of_def)

text \<open>The snapshot a reader expects: of every field the latest evidence.\<close>

definition snapshot_spec :: "TelemetryDelta list \<Rightarrow> TelemetrySnapshot" where
  "snapshot_spec ds =
     \<lparr>ts_at_ms = (if ds = [] then None else Some (td_at_ms (last ds))),
      ts_speed_observed_at_ms = latest_time td_speed ds,
      ts_voltage_observed_at_ms = latest_time td_voltage ds,
      ts_battery_current_observed_at_ms = latest_time td_battery_current ds,
      ts_speed = latest td_speed ds,
      ts_voltage = latest td_voltage ds,
      ts_battery_current = latest td_battery_current ds,
      ts_charge_mode = latest td_charge_mode ds,
      ts_operating_state = latest td_operating_state ds,
      ts_operating_mode = latest td_operating_mode ds,
      ts_ride_warning = latest td_ride_warning ds,
      ts_ride_stop_reason = latest td_ride_stop_reason ds,
      ts_motor_current = latest td_motor_current ds,
      ts_power = latest td_power ds,
      ts_controller_temperature = latest td_controller_temperature ds,
      ts_motor_temperature = latest td_motor_temperature ds,
      ts_battery_temperature = latest td_battery_temperature ds,
      ts_pwm = latest_verdict td_pwm ds,
      ts_distance = latest td_distance ds,
      ts_trip_distance = latest td_trip_distance ds,
      ts_pitch = latest td_pitch ds,
      ts_balance_angle = latest td_balance_angle ds,
      ts_roll = latest td_roll ds,
      ts_footpad = latest td_footpad ds,
      ts_battery_level_reported = latest td_battery_level_reported ds,
      ts_battery_level_estimated = latest_verdict td_battery_level_estimated ds\<rparr>"

lemma snapshot_spec_Nil: "snapshot_spec [] = snapshot_default"
  by (simp add: snapshot_spec_def snapshot_default_def latest_def latest_time_def latest_verdict_def)

lemma snapshot_spec_snoc: "snapshot_spec (ds @ [d]) = apply_delta (snapshot_spec ds) d"
  unfolding snapshot_spec_def apply_delta_def
  by (simp add: latest_snoc latest_time_snoc latest_verdict_snoc)

lemma latest_time_None: "latest_time f ds = None \<longleftrightarrow> latest f ds = None"
  by (induction ds rule: rev_induct)
    (auto simp: latest_time_def latest_snoc newer_def latest_def [of _ "[]"] split: option.splits)

text \<open>Discarding a calculated speed keeps speed and observation time together.\<close>

lemma invalidate_keeps_pairing:
  assumes "ts_speed s = None \<longleftrightarrow> ts_speed_observed_at_ms s = None"
  shows "(ts_speed (invalidate_calculated_speed s) = None \<longleftrightarrow>
      ts_speed_observed_at_ms (invalidate_calculated_speed s) = None)
    \<and> \<not> is_some_and (ts_speed (invalidate_calculated_speed s)) (\<lambda>v. measured_source v = Calculated)"
  using assms by (auto simp: invalidate_calculated_speed_def is_some_and_def split: option.splits)

section \<open>When charging is shown\<close>

text \<open>A speed the clock still trusts, of a wheel that stands still.\<close>

definition still_and_fresh :: "int option \<Rightarrow> MonotonicTimestamp option \<Rightarrow> MonotonicTimestamp option \<Rightarrow> bool" where
  "still_and_fresh speed speed_at now \<longleftrightarrow>
     (case (speed, speed_at, now) of
        (Some v, Some t, Some n) \<Rightarrow> unat t \<le> unat n \<and> unat n \<le> unat t + 5000 \<and> \<bar>v\<bar> < 500
      | _ \<Rightarrow> False)"

lemma fresh_motion_Some:
  "fresh_motion speed speed_at now = Some v \<longleftrightarrow>
     (\<exists>t n. speed = Some v \<and> speed_at = Some t \<and> now = Some n \<and> unat t \<le> unat n \<and> unat n \<le> unat t + 5000)"
  by (cases "(speed, speed_at, now)" rule: fresh_motion.cases)
    (auto simp: CONNECTED_WHEEL_MOTION_FRESHNESS_MS_def word_le_nat_alt unat_rust)

lemma still_and_fresh_iff:
  "still_and_fresh speed speed_at now \<longleftrightarrow>
     (\<exists>v. fresh_motion speed speed_at now = Some v \<and> \<not> speed_is_moving v)"
  by (auto simp: still_and_fresh_def fresh_motion_Some speed_is_moving_def
      CONNECTED_WHEEL_MOVEMENT_THRESHOLD_def split: option.splits)

lemma fresh_motion_clock: "fresh_motion speed speed_at now \<noteq> None \<Longrightarrow> now \<noteq> None"
  by (auto simp: fresh_motion_Some)

lemma charging_state_iff:
  "fst (resolve_fresh reported mode speed speed_at now) = StateCharging \<longleftrightarrow>
     reported \<noteq> Some Riding \<and> (reported = Some StateCharging \<or> mode = Some Charging)
     \<and> still_and_fresh speed speed_at now"
  using fresh_motion_clock [of speed speed_at now]
  by (cases "fresh_motion speed speed_at now"; cases mode; cases now; cases reported)
    (auto simp: resolve_fresh_def for_motion_def ride_state_resolve_def still_and_fresh_iff Let_def
      is_some_and_def opt_filter_def unwrap_or_def split: option.splits if_splits bool.splits)

lemma charging_mode_iff:
  "snd (resolve_fresh reported mode speed speed_at now) = Some Charging \<longleftrightarrow>
     reported \<noteq> Some Riding \<and> mode = Some Charging \<and> still_and_fresh speed speed_at now"
  using fresh_motion_clock [of speed speed_at now]
  by (cases "fresh_motion speed speed_at now"; cases mode; cases now)
    (auto simp: resolve_fresh_def for_motion_def still_and_fresh_iff Let_def is_some_and_def)

lemma charging_flow_iff:
  "power_flow_fresh (CurrentIn ma) st current_at now = FlowCharging \<longleftrightarrow>
     st = StateCharging \<and> fresh_motion (Some 0) current_at now = Some 0"
  by (cases current_at; cases now; cases st) (auto simp: power_flow_def)

section \<open>Properties\<close>

text \<open>
  C10.  Whatever updates a session receives, the telemetry snapshot holds of every field the value of
  the latest update that said something about it, and nothing when that update declared it invalid;
  the observation times of speed, voltage and battery current are those of the updates that supplied
  the values shown, so an unrelated update never renews a reading.
\<close>

theorem snapshot_holds_latest: "foldl apply_delta snapshot_default ds = snapshot_spec ds"
  by (induction ds rule: rev_induct) (simp_all add: snapshot_spec_Nil snapshot_spec_snoc)


end
