(* ===== verification/Battery_Page.thy ===== *)
theory Battery_Page
  imports Quantities Ordered_Map
begin

text \<open>
  Battery and BMS pages (\<^verbatim>\<open>cutout-core/src/battery_page.rs\<close>, the readback types of \<^verbatim>\<open>lib.rs\<close>): typed page
  payloads, readbacks with the identity of their cells, and the summaries of voltages, temperatures and
  currents over retained readbacks.  Voltages and temperatures are integers in thousandths.  Shown: a
  stabilized voltage is the lower median of seven samples, so any three wrong samples cannot move it
  out of the range of the others, and a summary lists each observation once, in order.
\<close>

section \<open>Pages\<close>

record RawFieldValue =
  raw_id :: u16
  raw_value :: int

record BatteryInfo =
  bi_voltage :: "int Measured option"
  bi_current :: "BatteryCurrent Measured option"
  bi_level_reported :: "BatteryLevel Measured option"
  bi_level_estimated :: "BatteryLevel Measured option"
  bi_temperature :: "int Measured option"
  bi_raw_state :: "RawFieldValue option"

definition battery_info_default :: BatteryInfo where
  "battery_info_default =
     \<lparr>bi_voltage = None, bi_current = None, bi_level_reported = None, bi_level_estimated = None,
      bi_temperature = None, bi_raw_state = None\<rparr>"

record BmsPackCurrents =
  current_0 :: BatteryCurrent
  current_1 :: BatteryCurrent
  currents_source :: ValueSource
  currents_quality :: ValueQuality
  currents_verification :: VerificationStatus

definition pack_currents_reported :: "BatteryCurrent \<Rightarrow> BatteryCurrent \<Rightarrow> BmsPackCurrents" where
  "pack_currents_reported a b =
     \<lparr>current_0 = a, current_1 = b, currents_source = Reported, currents_quality = Known,
      currents_verification = HardwareVerified\<rparr>"

datatype BatteryPageKind = KindMetadata | KindCellVoltage | KindTemperature | KindRaw

record BatteryPageMetadata =
  page_selector :: ProtocolSelector
  page_tag :: "ProtocolTag option"
  page_kind :: BatteryPageKind
  page_verification :: VerificationStatus

definition page_metadata_new :: "ProtocolSelector \<Rightarrow> BatteryPageKind \<Rightarrow> VerificationStatus \<Rightarrow> BatteryPageMetadata" where
  "page_metadata_new selector kind verification =
     \<lparr>page_selector = selector, page_tag = None, page_kind = kind, page_verification = verification\<rparr>"

definition with_tag :: "BatteryPageMetadata \<Rightarrow> ProtocolTag \<Rightarrow> BatteryPageMetadata" where
  "with_tag page tag = page\<lparr>page_tag := Some tag\<rparr>"

definition BATTERY_CELL_VOLTAGE_VALUES_MAX :: nat where
  "BATTERY_CELL_VOLTAGE_VALUES_MAX = 15"

definition BATTERY_TEMPERATURE_VALUES_PER_PAGE :: nat where
  "BATTERY_TEMPERATURE_VALUES_PER_PAGE = 6"

record BatteryCellVoltagePage =
  cell_page :: BatteryPageMetadata
  cell_battery :: BatteryInfo
  cell_voltages :: "int list"

record BatteryTemperaturePage =
  temperature_page :: BatteryPageMetadata
  temperature_battery :: BatteryInfo
  temperature_values :: "int list"
  temperature_count :: u8

record BatteryRawPage =
  raw_page :: BatteryPageMetadata
  raw_battery :: BatteryInfo
  raw_pack_currents :: "BmsPackCurrents option"

datatype BatteryPagePayload =
    PageCellVoltage BatteryCellVoltagePage
  | PageTemperature BatteryTemperaturePage
  | PageRaw BatteryRawPage

definition temperature_page_new :: "BatteryPageMetadata \<Rightarrow> BatteryInfo \<Rightarrow> BatteryTemperaturePage" where
  "temperature_page_new page battery =
     \<lparr>temperature_page = page, temperature_battery = battery,
      temperature_values = replicate BATTERY_TEMPERATURE_VALUES_PER_PAGE 0, temperature_count = 0\<rparr>"

text \<open>The values up to the first missing one, in an array that is zero behind them.\<close>

definition with_temperatures ::
  "BatteryPageMetadata \<Rightarrow> BatteryInfo \<Rightarrow> int Measured option list \<Rightarrow> BatteryTemperaturePage" where
  "with_temperatures page battery temperatures =
     (let present = takeWhile is_some (take BATTERY_TEMPERATURE_VALUES_PER_PAGE temperatures)
      in \<lparr>temperature_page = page, temperature_battery = battery,
          temperature_values = map (\<lambda>t. measured_value (the t)) present
            @ replicate (BATTERY_TEMPERATURE_VALUES_PER_PAGE - length present) 0,
          temperature_count = of_nat (length present)\<rparr>)"

definition raw_page_new :: "BatteryPageMetadata \<Rightarrow> BatteryInfo \<Rightarrow> BatteryRawPage" where
  "raw_page_new page battery = \<lparr>raw_page = page, raw_battery = battery, raw_pack_currents = None\<rparr>"

definition from_page :: "BatteryPageMetadata \<Rightarrow> BatteryInfo \<Rightarrow> BatteryPagePayload" where
  "from_page page battery =
     (case page_kind page of
        KindCellVoltage \<Rightarrow>
          PageRaw (raw_page_new (page_metadata_new (page_selector page) KindRaw (page_verification page)) battery)
      | KindTemperature \<Rightarrow> PageTemperature (temperature_page_new page battery)
      | KindMetadata \<Rightarrow> PageRaw (raw_page_new page battery)
      | KindRaw \<Rightarrow> PageRaw (raw_page_new page battery))"

fun with_bms_pack_currents :: "BatteryPagePayload \<Rightarrow> BmsPackCurrents \<Rightarrow> BatteryPagePayload" where
  "with_bms_pack_currents (PageRaw page) currents = PageRaw (page\<lparr>raw_pack_currents := Some currents\<rparr>)"
| "with_bms_pack_currents (PageCellVoltage page) _ = PageCellVoltage page"
| "with_bms_pack_currents (PageTemperature page) _ = PageTemperature page"

fun payload_page :: "BatteryPagePayload \<Rightarrow> BatteryPageMetadata" where
  "payload_page (PageCellVoltage p) = cell_page p"
| "payload_page (PageTemperature p) = temperature_page p"
| "payload_page (PageRaw p) = raw_page p"

fun payload_battery :: "BatteryPagePayload \<Rightarrow> BatteryInfo" where
  "payload_battery (PageCellVoltage p) = cell_battery p"
| "payload_battery (PageTemperature p) = temperature_battery p"
| "payload_battery (PageRaw p) = raw_battery p"

fun payload_pack_currents :: "BatteryPagePayload \<Rightarrow> BmsPackCurrents option" where
  "payload_pack_currents (PageRaw p) = raw_pack_currents p"
| "payload_pack_currents (PageCellVoltage _) = None"
| "payload_pack_currents (PageTemperature _) = None"

section \<open>Readbacks\<close>

datatype BatteryReadbackAvailability = BatteryAvailable | BatteryUnavailable | BatteryUnsupported

record BatteryReadback =
  rb_availability :: BatteryReadbackAvailability
  rb_page :: "BatteryPagePayload option"
  rb_first_observation_index :: "u16 option"
  rb_observation_pack_index :: "u8 option"
  rb_first_pack_observation_index :: "u16 option"
  rb_observed_at :: "MonotonicTimestamp option"
  rb_event_sequence :: "u64 option"

definition readback_empty :: "BatteryReadbackAvailability \<Rightarrow> BatteryReadback" where
  "readback_empty availability =
     \<lparr>rb_availability = availability, rb_page = None, rb_first_observation_index = None,
      rb_observation_pack_index = None, rb_first_pack_observation_index = None, rb_observed_at = None,
      rb_event_sequence = None\<rparr>"

definition battery_available :: "BatteryPagePayload \<Rightarrow> BatteryReadback" where
  "battery_available page = (readback_empty BatteryAvailable)\<lparr>rb_page := Some page\<rparr>"

definition battery_unavailable :: BatteryReadback where
  "battery_unavailable = readback_empty BatteryUnavailable"

definition battery_unsupported :: BatteryReadback where
  "battery_unsupported = readback_empty BatteryUnsupported"

definition with_first_observation_index :: "BatteryReadback \<Rightarrow> u16 \<Rightarrow> BatteryReadback" where
  "with_first_observation_index r i = r\<lparr>rb_first_observation_index := Some i\<rparr>"

definition with_observation_pack :: "BatteryReadback \<Rightarrow> u8 \<Rightarrow> u16 \<Rightarrow> BatteryReadback" where
  "with_observation_pack r pack first =
     r\<lparr>rb_observation_pack_index := Some pack, rb_first_pack_observation_index := Some first\<rparr>"

definition with_observed_at :: "BatteryReadback \<Rightarrow> MonotonicTimestamp \<Rightarrow> BatteryReadback" where
  "with_observed_at r at = r\<lparr>rb_observed_at := Some at\<rparr>"

section \<open>Summaries\<close>

definition BMS_OBSERVATION_HISTORY_CYCLES :: nat where
  "BMS_OBSERVATION_HISTORY_CYCLES = 7"

record BmsVoltageSample =
  sample_voltage :: int
  sample_observed_at :: MonotonicTimestamp

record BmsVoltageObservation =
  obs_index :: u16
  obs_pack_index :: "u8 option"
  obs_pack_observation_index :: "u16 option"
  obs_voltage :: int
  obs_latest_voltage :: int
  obs_samples :: "BmsVoltageSample list"

record BmsObservationSummary =
  observed_count :: u32
  lowest_index :: "u16 option"
  highest_index :: "u16 option"
  voltage_spread :: "int option"
  summary_observations :: "BmsVoltageObservation list"

record BmsTemperatureSummary =
  temperature_readings :: "int list"
  highest_temperature :: "int option"

record BmsCurrentSummary =
  summary_current :: "BatteryCurrent Measured option"
  summary_pack_currents :: "BmsPackCurrents option"

text \<open>\<open>Vec::resize\<close> pads with the seed or cuts to the length.\<close>

definition resize :: "nat \<Rightarrow> 'a \<Rightarrow> 'a list \<Rightarrow> 'a list" where
  "resize n seed xs = take n xs @ replicate (n - length xs) seed"

definition stabilized_voltage :: "BmsVoltageSample list \<Rightarrow> int" where
  "stabilized_voltage samples =
     (let seed = (case samples of [] \<Rightarrow> 0 | s # _ \<Rightarrow> sample_voltage s);
          values = sort (resize BMS_OBSERVATION_HISTORY_CYCLES seed (map sample_voltage samples))
      in values ! ((length values - 1) div 2))"

text \<open>The number of the cell in a slot; a slot or sum past sixteen bits has none.\<close>

definition slot_index :: "u16 \<Rightarrow> nat \<Rightarrow> u16 option" where
  "slot_index first slot = (if slot < 65536 then checked_add first (of_nat slot) else None)"

definition observe_slot ::
  "BatteryReadback \<Rightarrow> MonotonicTimestamp \<Rightarrow> (u16, BmsVoltageObservation) fmap \<Rightarrow> nat \<times> int
     \<Rightarrow> (u16, BmsVoltageObservation) fmap" where
  "observe_slot readback at observations slot_voltage =
     (case slot_voltage of (slot, voltage) \<Rightarrow>
        (case slot_index (unwrap_or (rb_first_observation_index readback) 0) slot of
           None \<Rightarrow> observations
         | Some index \<Rightarrow>
             let pack_observation_index =
                   Option.bind (rb_first_pack_observation_index readback) (\<lambda>first. slot_index first slot);
                 sample = \<lparr>sample_voltage = voltage, sample_observed_at = at\<rparr>
             in case fmlookup observations index of
                  Some o' \<Rightarrow>
                    fmupd index (o'\<lparr>obs_pack_index := rb_observation_pack_index readback,
                      obs_pack_observation_index := pack_observation_index,
                      obs_latest_voltage := voltage, obs_samples := obs_samples o' @ [sample]\<rparr>) observations
                | None \<Rightarrow>
                    fmupd index \<lparr>obs_index = index, obs_pack_index = rb_observation_pack_index readback,
                      obs_pack_observation_index = pack_observation_index, obs_voltage = voltage,
                      obs_latest_voltage = voltage, obs_samples = [sample]\<rparr> observations))"

definition observe_cells_of ::
  "(u16, BmsVoltageObservation) fmap \<Rightarrow> BatteryReadback \<Rightarrow> (u16, BmsVoltageObservation) fmap" where
  "observe_cells_of observations readback =
     (case (rb_observed_at readback, rb_page readback) of
        (Some at, Some (PageCellVoltage page)) \<Rightarrow>
          foldl (observe_slot readback at) observations (enumerate 0 (cell_voltages page))
      | _ \<Rightarrow> observations)"

text \<open>The first entry with the least key, in the order of the map.\<close>

definition min_by :: "('a \<Rightarrow> 'a \<Rightarrow> bool) \<Rightarrow> 'a list \<Rightarrow> 'a option" where
  "min_by before xs = (case xs of [] \<Rightarrow> None | x # ys \<Rightarrow> Some (foldl (\<lambda>best y. if before y best then y else best) x ys))"

definition lower_voltage :: "BmsVoltageObservation \<Rightarrow> BmsVoltageObservation \<Rightarrow> bool" where
  "lower_voltage a b \<longleftrightarrow>
     obs_voltage a < obs_voltage b \<or> obs_voltage a = obs_voltage b \<and> obs_index a < obs_index b"

definition higher_voltage :: "BmsVoltageObservation \<Rightarrow> BmsVoltageObservation \<Rightarrow> bool" where
  "higher_voltage a b \<longleftrightarrow>
     obs_voltage b < obs_voltage a \<or> obs_voltage a = obs_voltage b \<and> obs_index a < obs_index b"

definition observations_from :: "BatteryReadback list \<Rightarrow> BmsVoltageObservation list" where
  "observations_from readbacks =
     map (\<lambda>o'. o'\<lparr>obs_voltage := stabilized_voltage (obs_samples o')\<rparr>)
       (btm_values (foldl observe_cells_of fmempty readbacks))"

definition observation_summary_from :: "BatteryReadback list \<Rightarrow> BmsObservationSummary" where
  "observation_summary_from readbacks =
     (let observations = observations_from readbacks;
          lowest = min_by lower_voltage observations;
          highest = min_by higher_voltage observations
      in \<lparr>observed_count = of_nat (length observations),
          lowest_index = map_option obs_index lowest,
          highest_index = map_option obs_index highest,
          voltage_spread =
            (case (lowest, highest) of
               (Some low, Some high) \<Rightarrow> Some (i32_saturating_sub (obs_voltage high) (obs_voltage low))
             | _ \<Rightarrow> None),
          summary_observations = observations\<rparr>)"

text \<open>Pages are ordered by their tag, a missing tag first, and then by their selector.\<close>

definition page_key :: "BatteryPageMetadata \<Rightarrow> nat" where
  "page_key page =
     (case page_tag page of None \<Rightarrow> 0 | Some tag \<Rightarrow> unat tag + 1) * 256 + unat (page_selector page)"

definition temperatures_of :: "BatteryReadback \<Rightarrow> (BatteryPageMetadata \<times> int list) option" where
  "temperatures_of readback =
     (case rb_page readback of
        Some (PageTemperature p) \<Rightarrow>
          Some (temperature_page p, take (unat (temperature_count p)) (temperature_values p))
      | Some (PageRaw p) \<Rightarrow>
          map_option (\<lambda>t. (raw_page p, [measured_value t])) (bi_temperature (raw_battery p))
      | _ \<Rightarrow> None)"

definition temperature_summary_from :: "BatteryReadback list \<Rightarrow> BmsTemperatureSummary" where
  "temperature_summary_from readbacks =
     (let pages = sort_key (\<lambda>p. page_key (fst p)) (List.map_filter temperatures_of readbacks);
          readings = concat (map snd pages)
      in \<lparr>temperature_readings = readings,
          highest_temperature = (case readings of [] \<Rightarrow> None | t # ts \<Rightarrow> Some (foldl max t ts))\<rparr>)"

definition find_map :: "('a \<Rightarrow> 'b option) \<Rightarrow> 'a list \<Rightarrow> 'b option" where
  "find_map f xs = (case List.map_filter f xs of [] \<Rightarrow> None | y # _ \<Rightarrow> Some y)"

definition current_summary_from :: "BatteryReadback list \<Rightarrow> BmsCurrentSummary" where
  "current_summary_from readbacks =
     (let pages = List.map_filter rb_page (rev readbacks)
      in \<lparr>summary_current = find_map (\<lambda>p. bi_current (payload_battery p)) pages,
          summary_pack_currents = find_map payload_pack_currents pages\<rparr>)"

section \<open>The stabilized voltage\<close>

lemma length_resize [simp]: "length (resize n seed xs) = n"
  by (simp add: resize_def)

text \<open>A value at a position of a sorted list is at least every value before it.\<close>

lemma sorted_nth_above:
  assumes "sorted xs" and "k < length xs" and "xs ! k < a"
  shows "length (filter (\<lambda>x. a \<le> x) xs) \<le> length xs - Suc k"
proof -
  have "filter (\<lambda>x. a \<le> x) (take (Suc k) xs) = []"
    unfolding filter_empty_conv
  proof
    fix x
    assume "x \<in> set (take (Suc k) xs)"
    then obtain i where "i \<le> k" "x = xs ! i"
      by (auto simp: in_set_conv_nth less_Suc_eq_le)
    then show "\<not> a \<le> x"
      using sorted_nth_mono [OF assms(1), of i k] assms(2,3) by simp
  qed
  then have "filter (\<lambda>x. a \<le> x) xs = filter (\<lambda>x. a \<le> x) (drop (Suc k) xs)"
    by (metis append_take_drop_id filter_append self_append_conv2)
  then show ?thesis
    by (metis length_drop length_filter_le)
qed

lemma sorted_nth_below:
  assumes "sorted xs" and "k < length xs" and "b < xs ! k"
  shows "length (filter (\<lambda>x. x \<le> b) xs) \<le> k"
proof -
  have "filter (\<lambda>x. x \<le> b) (drop k xs) = []"
    using assms by (auto simp: filter_empty_conv in_set_conv_nth not_le)
      (metis add.commute le_add2 less_diff_conv less_le_trans sorted_nth_mono)
  then have "filter (\<lambda>x. x \<le> b) xs = filter (\<lambda>x. x \<le> b) (take k xs)"
    by (metis append_Nil2 append_take_drop_id filter_append)
  then show ?thesis
    by (metis length_filter_le length_take min.bounded_iff)
qed

lemma length_filter_sort: "length (filter P (sort xs)) = length (filter P xs)"
  by (simp add: filter_sort)

lemma length_filter_mono: "(\<And>x. P x \<Longrightarrow> Q x) \<Longrightarrow> length (filter P xs) \<le> length (filter Q xs)"
  by (induction xs) auto

text \<open>The seven values the voltage of an observation is chosen from.\<close>

definition window_values :: "BmsVoltageSample list \<Rightarrow> int list" where
  "window_values samples =
     resize 7 (case samples of [] \<Rightarrow> 0 | s # _ \<Rightarrow> sample_voltage s) (map sample_voltage samples)"

lemma stabilized_voltage_window: "stabilized_voltage samples = sort (window_values samples) ! 3"
  by (simp add: stabilized_voltage_def window_values_def BMS_OBSERVATION_HISTORY_CYCLES_def Let_def)

lemma stabilized_voltage_range:
  assumes "4 \<le> length (filter (\<lambda>v. a \<le> v \<and> v \<le> b) (window_values samples))"
  shows "a \<le> stabilized_voltage samples \<and> stabilized_voltage samples \<le> b"
proof -
  let ?s = "sort (window_values samples)"
  have len: "length ?s = 7"
    by (simp add: window_values_def)
  have "4 \<le> length (filter (\<lambda>v. a \<le> v) ?s)" "4 \<le> length (filter (\<lambda>v. v \<le> b) ?s)"
    using assms length_filter_mono [of "\<lambda>v. a \<le> v \<and> v \<le> b" "\<lambda>v. a \<le> v" "window_values samples"]
      length_filter_mono [of "\<lambda>v. a \<le> v \<and> v \<le> b" "\<lambda>v. v \<le> b" "window_values samples"]
    by (simp_all add: length_filter_sort)
  then show ?thesis
    using sorted_nth_above [of ?s 3 a] sorted_nth_below [of ?s 3 b] len
    unfolding stabilized_voltage_window by (auto simp: not_le [symmetric])
qed

text \<open>
  The window is filled with the oldest sample, so until four later samples differ from it the oldest
  sample is what is shown, and samples beyond the seventh are not looked at.
\<close>

lemma seeded_window_not_median:
  "stabilized_voltage (map (\<lambda>v. \<lparr>sample_voltage = v, sample_observed_at = 0\<rparr>) [10, 20, 30]) = 10"
  by (simp add: stabilized_voltage_window window_values_def resize_def numeral_eq_Suc)

lemma stabilized_voltage_first_seven:
  "7 \<le> length xs \<Longrightarrow> stabilized_voltage (xs @ ys) = stabilized_voltage xs"
  by (cases xs) (simp_all add: stabilized_voltage_window window_values_def resize_def)

section \<open>Order of a summary\<close>

lemma min_by_least:
  assumes "min_by before xs = Some m"
    and asym: "\<And>a b. before a b \<Longrightarrow> \<not> before b a"
    and trans: "\<And>a b c. \<not> before a b \<Longrightarrow> \<not> before b c \<Longrightarrow> \<not> before a c"
  shows "m \<in> set xs \<and> (\<forall>y \<in> set xs. \<not> before y m)"
proof -
  have irrefl: "\<not> before c c" for c
    using asym [of c c] by blast
  have fold: "foldl (\<lambda>best y. if before y best then y else best) x ys \<in> insert x (set ys)
      \<and> (\<forall>y \<in> insert x (set ys). \<not> before y (foldl (\<lambda>best y. if before y best then y else best) x ys))" for x ys
  proof (induction ys arbitrary: x)
    case Nil
    show ?case
      by (simp add: irrefl)
  next
    case (Cons y ys)
    let ?b = "if before y x then y else x"
    let ?m = "foldl (\<lambda>best y. if before y best then y else best) ?b ys"
    have m: "?m \<in> insert ?b (set ys)" "\<And>z. z \<in> insert ?b (set ys) \<Longrightarrow> \<not> before z ?m"
      using Cons.IH [of ?b] by blast+
    have "\<not> before x ?b" "\<not> before y ?b" "\<not> before ?b ?m"
      using asym [of y x] m(2) [of ?b] by (simp_all add: irrefl)
    then have "\<not> before x ?m" "\<not> before y ?m"
      using trans [of x ?b ?m] trans [of y ?b ?m] by blast+
    then show ?case
      using m by (cases "before y x") (simp_all, blast+)
  qed
  show ?thesis
    using assms(1) fold [of "hd xs" "tl xs"] by (cases xs) (simp_all add: min_by_def)
qed

lemma min_by_Nil_iff: "min_by before xs = None \<longleftrightarrow> xs = []"
  by (simp add: min_by_def split: list.splits)

text \<open>Every observation of the map is filed under its own number.\<close>

definition filed :: "(u16, BmsVoltageObservation) fmap \<Rightarrow> bool" where
  "filed m \<longleftrightarrow> (\<forall>i v. fmlookup m i = Some v \<longrightarrow> obs_index v = i)"

lemma observe_slot_filed: "filed m \<Longrightarrow> filed (observe_slot r at m sv)"
  by (auto simp: filed_def observe_slot_def Let_def split: prod.splits option.splits)

lemma observe_slots_filed: "filed m \<Longrightarrow> filed (foldl (observe_slot r at) m svs)"
  by (induction svs arbitrary: m) (simp_all add: observe_slot_filed)

lemma observe_cells_filed: "filed m \<Longrightarrow> filed (observe_cells_of m r)"
  by (simp add: observe_cells_of_def observe_slots_filed split: option.splits BatteryPagePayload.splits)

lemma observations_filed: "filed m \<Longrightarrow> filed (foldl observe_cells_of m rs)"
  by (induction rs arbitrary: m) (simp_all add: observe_cells_filed)

lemma btm_values_indices: "filed m \<Longrightarrow> map obs_index (btm_values m) = map fst (btm_entries m)"
  using set_btm_entries [of m] by (auto simp: btm_values_def filed_def)

lemma observations_sorted: "sorted_wrt (<) (map obs_index (observations_from rs))"
proof -
  have "filed (foldl observe_cells_of fmempty rs)"
    by (rule observations_filed) (simp add: filed_def)
  then have "map obs_index (observations_from rs) = map fst (btm_entries (foldl observe_cells_of fmempty rs))"
    by (simp add: observations_from_def comp_def btm_values_indices)
  then show ?thesis
    using btm_entries_sorted by metis
qed

lemma observation_voltage: "v \<in> set (observations_from rs) \<Longrightarrow> obs_voltage v = stabilized_voltage (obs_samples v)"
  by (auto simp: observations_from_def)

section \<open>Properties\<close>


text \<open>Four good samples and three glitches of one cell.\<close>

definition glitch_readbacks :: "BatteryReadback list" where
  "glitch_readbacks =
     map (\<lambda>(at, mv). with_observed_at (battery_available (PageCellVoltage
         \<lparr>cell_page = page_metadata_new 1 KindCellVoltage HardwareVerified, cell_battery = battery_info_default,
          cell_voltages = [mv]\<rparr>)) at)
       [(1, 3600), (2, 0), (3, 3601), (4, 65535), (5, 3602), (6, 0), (7, 3603)]"

definition glitch_observation :: BmsVoltageObservation where
  "glitch_observation =
     \<lparr>obs_index = 0, obs_pack_index = None, obs_pack_observation_index = None, obs_voltage = 3601,
      obs_latest_voltage = 3603,
      obs_samples = map (\<lambda>(at, mv). \<lparr>sample_voltage = mv, sample_observed_at = at\<rparr>)
        [(1, 3600), (2, 0), (3, 3601), (4, 65535), (5, 3602), (6, 0), (7, 3603)]\<rparr>"


end
