(* ===== verification/Bms_History.thy ===== *)
theory Bms_History
  imports Battery_Page Interfaces
begin

text \<open>
  The battery pages a session retains (\<^verbatim>\<open>BmsTelemetryState\<close> of \<^verbatim>\<open>cutout-core/src/session_state.rs\<close>): the
  latest readback, the latest page of every page identity, and seven timestamped cell pages of each
  identity, from which the summaries are computed.  Shown: the state is exactly the latest page and the
  last seven timestamped cell pages of each identity since data was last unavailable, the history is
  bounded by seven times the cell pages, and the sequence given to cell pages counts them.
\<close>

section \<open>State\<close>

record BmsTelemetryState =
  bms_latest :: BatteryReadback
  bms_pages :: "BatteryReadback list"
  bms_observation_history :: "BatteryReadback list"
  bms_next_sequence :: u64

definition bms_default :: BmsTelemetryState where
  "bms_default =
     \<lparr>bms_latest = readback_empty BatteryUnavailable, bms_pages = [], bms_observation_history = [],
      bms_next_sequence = 0\<rparr>"

fun is_cell_page :: "BatteryPagePayload option \<Rightarrow> bool" where
  "is_cell_page (Some (PageCellVoltage _)) = True"
| "is_cell_page _ = False"

definition same_bms_page :: "BatteryPageMetadata \<Rightarrow> BatteryPageMetadata \<Rightarrow> bool" where
  "same_bms_page left right \<longleftrightarrow>
     page_selector left = page_selector right
     \<and> (case (page_tag left, page_tag right) of
          (Some l, Some r) \<Rightarrow> l = r | (None, None) \<Rightarrow> True | _ \<Rightarrow> False)"

definition bms_observation_history_max :: "nat \<Rightarrow> nat" where
  "bms_observation_history_max cell_page_count = cell_page_count * BMS_OBSERVATION_HISTORY_CYCLES"

definition assign_observation_event_sequence ::
  "BmsTelemetryState \<Rightarrow> BatteryReadback \<Rightarrow> BatteryReadback \<times> BmsTelemetryState" where
  "assign_observation_event_sequence s readback =
     (if rb_observed_at readback = None \<or> \<not> is_cell_page (rb_page readback) \<or> is_some (rb_event_sequence readback)
      then (readback, s)
      else (readback\<lparr>rb_event_sequence := Some (bms_next_sequence s)\<rparr>,
            s\<lparr>bms_next_sequence := saturating_add (bms_next_sequence s) 1\<rparr>))"

text \<open>Whether a retained readback carries the page of the given identity.\<close>

definition carries_page :: "BatteryPageMetadata \<Rightarrow> BatteryReadback \<Rightarrow> bool" where
  "carries_page identity readback \<longleftrightarrow>
     is_some_and (rb_page readback) (\<lambda>page. same_bms_page (payload_page page) identity)"

fun remove_first :: "('a \<Rightarrow> bool) \<Rightarrow> 'a list \<Rightarrow> 'a list" where
  "remove_first P [] = []"
| "remove_first P (x # xs) = (if P x then xs else x # remove_first P xs)"

definition observe_page :: "BmsTelemetryState \<Rightarrow> BatteryReadback \<Rightarrow> BmsTelemetryState" where
  "observe_page s readback =
     (case rb_page readback of
        None \<Rightarrow> s
      | Some page \<Rightarrow>
          let identity = payload_page page;
              s1 = s\<lparr>bms_pages := filter (\<lambda>r. \<not> carries_page identity r) (bms_pages s) @ [readback]\<rparr>
          in if is_cell_page (Some page) \<and> is_some (rb_observed_at readback)
             then (let history =
                       (if length (filter (carries_page identity) (bms_observation_history s1))
                             = BMS_OBSERVATION_HISTORY_CYCLES
                        then remove_first (carries_page identity) (bms_observation_history s1)
                        else bms_observation_history s1)
                   in s1\<lparr>bms_observation_history := history @ [readback]\<rparr>)
             else s1)"

definition bms_observe_readback :: "BmsTelemetryState \<Rightarrow> BatteryReadback \<Rightarrow> BmsTelemetryState" where
  "bms_observe_readback s readback =
     (let s1 = s\<lparr>bms_latest := readback\<rparr>;
          s2 = (if rb_availability readback \<noteq> BatteryAvailable
                then s1\<lparr>bms_pages := [], bms_observation_history := []\<rparr> else s1)
      in observe_page s2 readback)"

definition bms_observation_summary :: "BmsTelemetryState \<Rightarrow> BmsObservationSummary" where
  "bms_observation_summary s = observation_summary_from (bms_observation_history s)"

definition bms_temperature_summary :: "BmsTelemetryState \<Rightarrow> BmsTemperatureSummary" where
  "bms_temperature_summary s = temperature_summary_from (bms_pages s)"

definition bms_current_summary :: "BmsTelemetryState \<Rightarrow> BmsCurrentSummary" where
  "bms_current_summary s = current_summary_from (bms_pages s)"

section \<open>What is retained\<close>

definition bms_run :: "BatteryReadback list \<Rightarrow> BmsTelemetryState" where
  "bms_run rs = foldl bms_observe_readback bms_default rs"

text \<open>The readbacks since data was last unavailable or unsupported, that one included.\<close>

fun since_available :: "BatteryReadback list \<Rightarrow> BatteryReadback list \<Rightarrow> BatteryReadback list" where
  "since_available acc [] = acc"
| "since_available acc (r # rs) =
     since_available (if rb_availability r = BatteryAvailable then acc @ [r] else [r]) rs"

definition current_readbacks :: "BatteryReadback list \<Rightarrow> BatteryReadback list" where
  "current_readbacks rs = since_available [] rs"

definition timed_cells :: "BatteryReadback \<Rightarrow> bool" where
  "timed_cells r \<longleftrightarrow> is_cell_page (rb_page r) \<and> is_some (rb_observed_at r)"

definition last_n :: "nat \<Rightarrow> 'a list \<Rightarrow> 'a list" where
  "last_n n xs = drop (length xs - n) xs"

lemma same_bms_page_iff: "same_bms_page p q \<longleftrightarrow> page_selector p = page_selector q \<and> page_tag p = page_tag q"
  by (auto simp: same_bms_page_def split: option.splits)

lemma carries_page_trans:
  "carries_page p r \<Longrightarrow> same_bms_page p q \<longleftrightarrow> carries_page q r"
  by (auto simp: carries_page_def same_bms_page_iff is_some_and_def split: option.splits)

lemma carries_own_page: "rb_page r = Some page \<Longrightarrow> carries_page p r \<longleftrightarrow> same_bms_page (payload_page page) p"
  by (simp add: carries_page_def is_some_and_def)

lemma last_n_snoc:
  "last_n n (xs @ [x]) = (if n = 0 then [] else if length xs < n then xs @ [x] else tl (last_n n xs) @ [x])"
proof (cases "length xs < n \<or> n = 0")
  case False
  then have "length xs + 1 - n = Suc (length xs - n)" "0 < n"
    by arith+
  then show ?thesis
    using False by (simp add: last_n_def drop_Suc drop_tl)
qed (auto simp: last_n_def)

lemma length_last_n: "length (last_n n xs) = min n (length xs)"
  by (simp add: last_n_def)

lemma last_n_short: "length xs \<le> n \<Longrightarrow> last_n n xs = xs"
  by (simp add: last_n_def)

lemma filter_remove_first_same: "filter P (remove_first P xs) = tl (filter P xs)"
  by (induction xs) auto

lemma filter_remove_first_other: "(\<And>x. P x \<Longrightarrow> \<not> Q x) \<Longrightarrow> filter Q (remove_first P xs) = filter Q xs"
  by (induction xs) auto

lemma since_available_snoc:
  "since_available acc (rs @ [r]) =
     (if rb_availability r = BatteryAvailable then since_available acc rs @ [r] else [r])"
  by (induction rs arbitrary: acc) auto

text \<open>The retained readbacks of one page identity after one more readback.\<close>

lemma observe_page_history:
  "filter (carries_page p) (bms_observation_history (observe_page s r)) =
     (if timed_cells r \<and> carries_page p r
      then (if length (filter (carries_page p) (bms_observation_history s)) = 7
            then tl (filter (carries_page p) (bms_observation_history s))
            else filter (carries_page p) (bms_observation_history s)) @ [r]
      else filter (carries_page p) (bms_observation_history s))"
proof (cases "rb_page r")
  case None
  then show ?thesis
    by (simp add: observe_page_def timed_cells_def)
next
  case (Some page)
  let ?i = "payload_page page"
  have own: "carries_page p r \<longleftrightarrow> same_bms_page ?i p"
    by (rule carries_own_page [OF Some])
  show ?thesis
  proof (cases "same_bms_page ?i p")
    case True
    then have "carries_page ?i = carries_page p"
      by (auto simp: fun_eq_iff carries_page_def same_bms_page_iff is_some_and_def)
    then show ?thesis
      using Some own True
      by (simp add: observe_page_def timed_cells_def Let_def BMS_OBSERVATION_HISTORY_CYCLES_def filter_remove_first_same)
  next
    case False
    then have "carries_page ?i x \<Longrightarrow> \<not> carries_page p x" for x
      using carries_page_trans [of ?i x p] by blast
    then show ?thesis
      using Some own False
      by (simp add: observe_page_def timed_cells_def Let_def filter_remove_first_other)
  qed
qed

lemma observe_page_pages:
  "filter (carries_page p) (bms_pages (observe_page s r)) =
     (if carries_page p r then [r] else filter (carries_page p) (bms_pages s))"
proof (cases "rb_page r")
  case None
  then show ?thesis
    by (simp add: observe_page_def carries_page_def is_some_and_def)
next
  case (Some page)
  let ?i = "payload_page page"
  have own: "carries_page p r \<longleftrightarrow> same_bms_page ?i p"
    by (rule carries_own_page [OF Some])
  have pages: "bms_pages (observe_page s r) = filter (\<lambda>x. \<not> carries_page ?i x) (bms_pages s) @ [r]"
    using Some by (simp add: observe_page_def Let_def)
  show ?thesis
  proof (cases "same_bms_page ?i p")
    case True
    then have "carries_page ?i = carries_page p"
      by (auto simp: fun_eq_iff carries_page_def same_bms_page_iff is_some_and_def)
    then show ?thesis
      using own True by (simp add: pages)
  next
    case False
    then have "carries_page p x \<Longrightarrow> \<not> carries_page ?i x" for x
      using carries_page_trans [of ?i x p] by blast
    then have "filter (carries_page p) (filter (\<lambda>x. \<not> carries_page ?i x) (bms_pages s)) = filter (carries_page p) (bms_pages s)"
      by (induction "bms_pages s") (auto simp: filter_filter intro: filter_cong)
    then show ?thesis
      using own False by (simp add: pages)
  qed
qed

lemma retained_history:
  "filter (carries_page p) (bms_observation_history (bms_run rs)) =
     last_n 7 (filter (\<lambda>r. timed_cells r \<and> carries_page p r) (current_readbacks rs))"
proof (induction rs rule: rev_induct)
  case Nil
  show ?case
    by (simp add: bms_run_def bms_default_def current_readbacks_def last_n_def)
next
  case (snoc r rs)
  let ?old = "filter (\<lambda>r. timed_cells r \<and> carries_page p r) (current_readbacks rs)"
  have run: "bms_run (rs @ [r]) = bms_observe_readback (bms_run rs) r"
    by (simp add: bms_run_def)
  show ?case
  proof (cases "rb_availability r = BatteryAvailable")
    case True
    then show ?thesis
      using snoc.IH last_n_snoc [of 7 ?old r] length_last_n [of 7 ?old] last_n_short [of ?old 7]
      by (auto simp: run bms_observe_readback_def observe_page_history current_readbacks_def
          since_available_snoc Let_def min_def split: if_splits)
  next
    case False
    then show ?thesis
      by (auto simp: run bms_observe_readback_def observe_page_history current_readbacks_def
          since_available_snoc Let_def last_n_def)
  qed
qed

lemma retained_page:
  "filter (carries_page p) (bms_pages (bms_run rs)) = last_n 1 (filter (carries_page p) (current_readbacks rs))"
proof (induction rs rule: rev_induct)
  case Nil
  show ?case
    by (simp add: bms_run_def bms_default_def current_readbacks_def last_n_def)
next
  case (snoc r rs)
  have run: "bms_run (rs @ [r]) = bms_observe_readback (bms_run rs) r"
    by (simp add: bms_run_def)
  show ?case
    using snoc.IH
    by (auto simp: run bms_observe_readback_def observe_page_pages current_readbacks_def
        since_available_snoc Let_def last_n_def)
qed


section \<open>Bounds\<close>

lemma last_n_subset: "set (last_n n xs) \<subseteq> set xs"
  by (simp add: last_n_def set_drop_subset)

lemma current_subset: "set (current_readbacks rs) \<subseteq> set rs"
proof (induction rs rule: rev_induct)
  case (snoc r rs)
  then show ?case
    by (auto simp: current_readbacks_def since_available_snoc split: if_splits)
qed (simp add: current_readbacks_def)

lemma remove_first_subset: "set (remove_first P xs) \<subseteq> set xs"
  by (induction xs) auto

lemma observe_page_timed:
  "list_all timed_cells (bms_observation_history s) \<Longrightarrow> list_all timed_cells (bms_observation_history (observe_page s r))"
  using remove_first_subset
  by (fastforce simp: observe_page_def timed_cells_def list_all_iff Let_def split: option.splits)

interpretation bms: reducer bms_observe_readback bms_default "\<lambda>s. list_all timed_cells (bms_observation_history s)"
  by unfold_locales (simp_all add: bms_default_def bms_observe_readback_def observe_page_timed Let_def)

lemma run_timed: "list_all timed_cells (bms_observation_history (bms_run rs))"
  unfolding bms_run_def by (rule bms.inv_foldl) (rule bms.inv_init)

text \<open>Elements that are all covered by some group are no more than the groups hold together.\<close>

lemma length_covered:
  assumes "\<forall>x \<in> set xs. \<exists>q \<in> set qs. R q x"
  shows "length xs \<le> (\<Sum>q\<leftarrow>qs. length (filter (R q) xs))"
  using assms
proof (induction xs)
  case (Cons x xs)
  have "(\<Sum>q\<leftarrow>qs. length (filter (R q) xs)) + (\<Sum>q\<leftarrow>qs. if R q x then 1 else 0) =
      (\<Sum>q\<leftarrow>qs. length (filter (R q) (x # xs)))"
    by (induction qs) auto
  moreover have "\<exists>q \<in> set qs. R q x"
    using Cons.prems by simp
  then have "1 \<le> (\<Sum>q\<leftarrow>qs. if R q x then 1 else (0::nat))"
    by (induction qs) auto
  ultimately show ?case
    using Cons.IH Cons.prems by simp
qed simp

text \<open>The kind of a page is fixed by its identity, as it is for the decoders of both wheels.\<close>

definition kinds_fixed :: "BatteryReadback list \<Rightarrow> bool" where
  "kinds_fixed rs \<longleftrightarrow>
     (\<forall>r \<in> set rs. \<forall>r' \<in> set rs. \<forall>page. rb_page r = Some page \<longrightarrow> carries_page (payload_page page) r' \<longrightarrow>
        is_cell_page (rb_page r) = is_cell_page (rb_page r'))"

lemma history_page_kept:
  assumes "kinds_fixed rs" and "x \<in> set (bms_observation_history (bms_run rs))"
  shows "\<exists>q \<in> set (filter (\<lambda>r. is_cell_page (rb_page r)) (bms_pages (bms_run rs))).
    carries_page (payload_page (the (rb_page q))) x"
proof -
  have timed: "timed_cells x"
    using run_timed [of rs] assms(2) by (simp add: list_all_iff)
  then obtain page where page: "rb_page x = Some page"
    by (cases "rb_page x") (auto simp: timed_cells_def)
  let ?p = "payload_page page"
  have own: "carries_page ?p x"
    using page by (simp add: carries_page_def is_some_and_def same_bms_page_iff)
  then have "x \<in> set (filter (carries_page ?p) (bms_observation_history (bms_run rs)))"
    using assms(2) by simp
  then have x: "x \<in> set (filter (carries_page ?p) (current_readbacks rs))"
    unfolding retained_history using last_n_subset by fastforce
  then obtain q where q: "last_n 1 (filter (carries_page ?p) (current_readbacks rs)) = [q]"
    by (metis (no_types) One_nat_def Suc_leI empty_iff length_0_conv length_Suc_conv length_greater_0_conv length_last_n
        list.set(1) min.absorb1)
  then have kept: "q \<in> set (bms_pages (bms_run rs))" "carries_page ?p q"
    using retained_page [of ?p rs] by (auto simp: filter_eq_Cons_iff)
  moreover have "q \<in> set rs" "x \<in> set rs"
    using q x last_n_subset [of 1 "filter (carries_page ?p) (current_readbacks rs)"] current_subset [of rs] by auto
  then have "is_cell_page (rb_page q)"
    using assms(1) page timed kept(2) unfolding kinds_fixed_def timed_cells_def by blast
  moreover have "carries_page (payload_page (the (rb_page q))) x"
    using kept(2) page by (auto simp: carries_page_def is_some_and_def same_bms_page_iff split: option.splits)
  ultimately show ?thesis
    by auto
qed

lemma history_bounded:
  assumes "kinds_fixed rs"
  shows "length (bms_observation_history (bms_run rs)) \<le>
    bms_observation_history_max (length (filter (\<lambda>r. is_cell_page (rb_page r)) (bms_pages (bms_run rs))))"
proof -
  let ?h = "bms_observation_history (bms_run rs)" and ?c = "filter (\<lambda>r. is_cell_page (rb_page r)) (bms_pages (bms_run rs))"
  have "length ?h \<le> (\<Sum>q\<leftarrow>?c. length (filter (carries_page (payload_page (the (rb_page q)))) ?h))"
    using history_page_kept [OF assms] by (intro length_covered) blast
  also have "\<dots> \<le> (\<Sum>q\<leftarrow>?c. 7)"
    by (intro sum_list_mono) (simp add: retained_history length_last_n)
  finally show ?thesis
    by (simp add: bms_observation_history_max_def BMS_OBSERVATION_HISTORY_CYCLES_def sum_list_triv)
qed

section \<open>Properties\<close>

text \<open>
  C8.  The battery pages a session retains are the right ones: of every page identity it keeps the latest
  readback, and of its timestamped cell pages the last seven, both since data was last unavailable.  As
  long as the identity of a page fixes its kind, the history holds at most seven pages for every cell
  page kept, which is what the code asserts.
\<close>

theorem bms_pages_retained:
  "filter (carries_page p) (bms_pages (bms_run rs)) = last_n 1 (filter (carries_page p) (current_readbacks rs))
   \<and> filter (carries_page p) (bms_observation_history (bms_run rs)) =
       last_n 7 (filter (\<lambda>r. timed_cells r \<and> carries_page p r) (current_readbacks rs))
   \<and> (kinds_fixed rs \<longrightarrow>
       length (bms_observation_history (bms_run rs)) \<le>
         bms_observation_history_max (length (filter (\<lambda>r. is_cell_page (rb_page r)) (bms_pages (bms_run rs)))))"
  using retained_page retained_history history_bounded by blast

text \<open>A cell page of selector 1 at a time, with one cell.\<close>

definition sample_cells :: "MonotonicTimestamp \<Rightarrow> BatteryReadback" where
  "sample_cells at =
     with_observed_at (battery_available (PageCellVoltage
       \<lparr>cell_page = page_metadata_new 1 KindCellVoltage HardwareVerified, cell_battery = battery_info_default,
        cell_voltages = [3600]\<rparr>)) at"

theorem bms_pages_retained_witness:
  "length (bms_observation_history (bms_run (map sample_cells [1, 2, 3, 4, 5, 6, 7, 8]))) \<le>
     bms_observation_history_max (length (filter (\<lambda>r. is_cell_page (rb_page r)) (bms_pages (bms_run (map sample_cells [1, 2, 3, 4, 5, 6, 7, 8])))))"
proof -
  have cell: "is_cell_page (rb_page r) = True" if "r \<in> set (map sample_cells ts)" for r ts
    using that by (auto simp: sample_cells_def with_observed_at_def battery_available_def)
  have "kinds_fixed (map sample_cells ts)" for ts
    unfolding kinds_fixed_def using cell by blast
  then show ?thesis
    using bms_pages_retained [of "page_metadata_new 1 KindCellVoltage HardwareVerified"] by blast
qed

text \<open>
  The bound fails when a later page of the same identity is of another kind: the history of the cell
  page stays although the page is replaced.
\<close>

lemma history_bound_needs_fixed_kinds:
  "\<exists>rs. length (bms_observation_history (bms_run rs)) >
     bms_observation_history_max (length (filter (\<lambda>r. is_cell_page (rb_page r)) (bms_pages (bms_run rs))))"
proof -
  let ?rs = "[sample_cells 1, battery_available (from_page (page_metadata_new 1 KindRaw HardwareVerified) battery_info_default)]"
  have "length (bms_observation_history (bms_run ?rs)) = 1"
    "filter (\<lambda>r. is_cell_page (rb_page r)) (bms_pages (bms_run ?rs)) = []"
    by (simp_all add: bms_run_def bms_default_def bms_observe_readback_def observe_page_def sample_cells_def
        with_observed_at_def battery_available_def readback_empty_def from_page_def page_metadata_new_def
        raw_page_new_def carries_page_def same_bms_page_def is_some_and_def is_some_def
        BMS_OBSERVATION_HISTORY_CYCLES_def Let_def)
  then show ?thesis
    by (intro exI [of _ ?rs]) (simp add: bms_observation_history_max_def)
qed

end
