(* ===== verification/Session_Output.thy ===== *)
theory Session_Output
  imports Telemetry Bms_History
begin

text \<open>
  What a protocol session tells its host (\<^verbatim>\<open>cutout-core/src/lib.rs\<close>): parser errors and their counters,
  the typed outcome of a notification with the bytes it retains, settings and diagnostics readbacks,
  device events and outputs, and how the session root of \<^verbatim>\<open>session_state.rs\<close> takes them in.  Raw VESC
  telemetry, refused controls and the identity that firmware responses update are left out.  Shown: retained bytes are the notification up to 4096
  bytes, and the session's error counters count the errors reported to it, up to saturation.
\<close>

section \<open>Parser errors and diagnostics\<close>

datatype ParserError =
    ParserOversizedFrame nat nat
  | BadChecksum
  | MalformedFrame
  | ParserTimeout MonotonicTimestamp MonotonicTimestamp
  | UnmatchedReply

record ParserDiagnostics =
  dropped_bytes :: u64
  resyncs :: u64
  bad_checksums :: u64
  timeouts :: u64
  oversized_frames :: u64
  malformed_frames :: u64
  unmatched_replies :: u64

definition diagnostics_default :: ParserDiagnostics where
  "diagnostics_default =
     \<lparr>dropped_bytes = 0, resyncs = 0, bad_checksums = 0, timeouts = 0, oversized_frames = 0,
      malformed_frames = 0, unmatched_replies = 0\<rparr>"

definition add_dropped_bytes :: "ParserDiagnostics \<Rightarrow> u64 \<Rightarrow> ParserDiagnostics" where
  "add_dropped_bytes d n = d\<lparr>dropped_bytes := saturating_add (dropped_bytes d) n\<rparr>"

definition record_resync :: "ParserDiagnostics \<Rightarrow> ParserDiagnostics" where
  "record_resync d = d\<lparr>resyncs := saturating_add (resyncs d) 1\<rparr>"

fun record_error :: "ParserDiagnostics \<Rightarrow> ParserError \<Rightarrow> ParserDiagnostics" where
  "record_error d (ParserOversizedFrame _ _) = d\<lparr>oversized_frames := saturating_add (oversized_frames d) 1\<rparr>"
| "record_error d BadChecksum = d\<lparr>bad_checksums := saturating_add (bad_checksums d) 1\<rparr>"
| "record_error d MalformedFrame = d\<lparr>malformed_frames := saturating_add (malformed_frames d) 1\<rparr>"
| "record_error d (ParserTimeout _ _) = d\<lparr>timeouts := saturating_add (timeouts d) 1\<rparr>"
| "record_error d UnmatchedReply = d\<lparr>unmatched_replies := saturating_add (unmatched_replies d) 1\<rparr>"

definition diagnostics_merge :: "ParserDiagnostics \<Rightarrow> ParserDiagnostics \<Rightarrow> ParserDiagnostics" where
  "diagnostics_merge d e =
     \<lparr>dropped_bytes = saturating_add (dropped_bytes d) (dropped_bytes e),
      resyncs = saturating_add (resyncs d) (resyncs e),
      bad_checksums = saturating_add (bad_checksums d) (bad_checksums e),
      timeouts = saturating_add (timeouts d) (timeouts e),
      oversized_frames = saturating_add (oversized_frames d) (oversized_frames e),
      malformed_frames = saturating_add (malformed_frames d) (malformed_frames e),
      unmatched_replies = saturating_add (unmatched_replies d) (unmatched_replies e)\<rparr>"

datatype DiagnosticErrorKind =
    KindOversizedFrame | KindBadChecksum | KindMalformedFrame | KindTimeout | KindUnmatchedReply

record DiagnosticError =
  error_kind :: DiagnosticErrorKind
  claimed_len :: "nat option"
  max_len :: "nat option"
  elapsed_ms :: "MonotonicTimestamp option"
  timeout_ms :: "MonotonicTimestamp option"

definition without_details :: "DiagnosticErrorKind \<Rightarrow> DiagnosticError" where
  "without_details k =
     \<lparr>error_kind = k, claimed_len = None, max_len = None, elapsed_ms = None, timeout_ms = None\<rparr>"

fun from_parser_error :: "ParserError \<Rightarrow> DiagnosticError" where
  "from_parser_error (ParserOversizedFrame claimed limit) =
     (without_details KindOversizedFrame)\<lparr>claimed_len := Some claimed, max_len := Some limit\<rparr>"
| "from_parser_error BadChecksum = without_details KindBadChecksum"
| "from_parser_error MalformedFrame = without_details KindMalformedFrame"
| "from_parser_error (ParserTimeout e t) =
     (without_details KindTimeout)\<lparr>elapsed_ms := Some e, timeout_ms := Some t\<rparr>"
| "from_parser_error UnmatchedReply = without_details KindUnmatchedReply"

section \<open>Notification outcomes\<close>

record NotificationEvidence =
  evidence_family :: ProtocolFamily
  evidence_channel :: GattChannel
  evidence_monotonic_ms :: MonotonicTimestamp
  evidence_len :: nat

definition evidence_new ::
  "ProtocolFamily \<Rightarrow> GattChannel \<Rightarrow> nat \<Rightarrow> MonotonicTimestamp \<Rightarrow> NotificationEvidence" where
  "evidence_new family channel len at =
     \<lparr>evidence_family = family, evidence_channel = channel, evidence_monotonic_ms = at, evidence_len = len\<rparr>"

definition MAX_RETAINED_NOTIFICATION_PAYLOAD_BYTES :: nat where
  "MAX_RETAINED_NOTIFICATION_PAYLOAD_BYTES = 4096"

definition INLINE_RETAINED_NOTIFICATION_PAYLOAD_BYTES :: nat where
  "INLINE_RETAINED_NOTIFICATION_PAYLOAD_BYTES = 36"

record InlineRetainedNotificationPayload =
  inline_len :: u8
  inline_bytes :: "u8 list"

text \<open>
  The copy into the 36 bytes of inline storage is for payloads that fit, which is what its caller
  checks; the length is kept in one byte.
\<close>

definition inline_from_bytes :: "u8 list \<Rightarrow> InlineRetainedNotificationPayload option" where
  "inline_from_bytes bytes =
     (if length bytes < 256
      then Some \<lparr>inline_len = of_nat (length bytes),
                 inline_bytes = bytes @ drop (length bytes) (replicate INLINE_RETAINED_NOTIFICATION_PAYLOAD_BYTES 0)\<rparr>
      else None)"

definition inline_as_slice :: "InlineRetainedNotificationPayload \<Rightarrow> u8 list" where
  "inline_as_slice p = take (unat (inline_len p)) (inline_bytes p)"

datatype RetainedNotificationPayload =
    RetainedEmpty | RetainedInline InlineRetainedNotificationPayload | RetainedBytes "u8 list"

definition retained_from_bytes :: "u8 list \<Rightarrow> RetainedNotificationPayload" where
  "retained_from_bytes bytes =
     (if bytes = [] then RetainedEmpty
      else
        case (if length bytes \<le> INLINE_RETAINED_NOTIFICATION_PAYLOAD_BYTES then inline_from_bytes bytes else None) of
          Some p \<Rightarrow> RetainedInline p
        | None \<Rightarrow> RetainedBytes (take MAX_RETAINED_NOTIFICATION_PAYLOAD_BYTES bytes))"

fun retained_as_slice :: "RetainedNotificationPayload \<Rightarrow> u8 list" where
  "retained_as_slice RetainedEmpty = []"
| "retained_as_slice (RetainedInline p) = inline_as_slice p"
| "retained_as_slice (RetainedBytes bytes) = bytes"

datatype IgnoredNotificationReason =
    WrongChannel | UnsupportedFamily | UnsupportedChannel | AcceptedButUnmapped | SeekingFrameBoundary
  | IntentionallyDropped

record IgnoredNotificationEvidence =
  ignored_family :: "ProtocolFamily option"
  ignored_channel :: GattChannel
  ignored_monotonic_ms :: MonotonicTimestamp
  ignored_len :: nat
  ignored_retained_payload :: RetainedNotificationPayload

definition ignored_with_retained_payload ::
  "ProtocolFamily option \<Rightarrow> GattChannel \<Rightarrow> u8 list \<Rightarrow> MonotonicTimestamp \<Rightarrow> IgnoredNotificationEvidence" where
  "ignored_with_retained_payload family channel bytes at =
     \<lparr>ignored_family = family, ignored_channel = channel, ignored_monotonic_ms = at,
      ignored_len = length bytes, ignored_retained_payload = retained_from_bytes bytes\<rparr>"

datatype PayloadClassifier = ClassifierSelector ProtocolSelector | ClassifierTag ProtocolTag

record ReservedPayloadEvidence =
  reserved_classifier :: PayloadClassifier
  reserved_body_len :: nat
  reserved_retained_payload :: RetainedNotificationPayload
  reserved_verification :: VerificationStatus

record ParserGapEvidence =
  gap_classifier :: PayloadClassifier
  gap_body_len :: nat
  gap_retained_payload :: RetainedNotificationPayload

datatype NotificationIngestOutcome =
    SemanticEvents NotificationEvidence nat
  | BufferedFragment NotificationEvidence
  | ParserDiagnostic NotificationEvidence ParserError
  | KnownReserved NotificationEvidence ReservedPayloadEvidence
  | ParserGap NotificationEvidence ParserGapEvidence
  | Ignored IgnoredNotificationEvidence IgnoredNotificationReason

definition wrong_channel_for_family_bytes ::
  "ProtocolFamily \<Rightarrow> GattChannel \<Rightarrow> u8 list \<Rightarrow> MonotonicTimestamp \<Rightarrow> NotificationIngestOutcome" where
  "wrong_channel_for_family_bytes family channel bytes at =
     Ignored (ignored_with_retained_payload (Some family) channel bytes at) WrongChannel"

definition seeking_frame_boundary ::
  "ProtocolFamily \<Rightarrow> GattChannel \<Rightarrow> u8 list \<Rightarrow> MonotonicTimestamp \<Rightarrow> NotificationIngestOutcome" where
  "seeking_frame_boundary family channel bytes at =
     Ignored (ignored_with_retained_payload (Some family) channel bytes at) SeekingFrameBoundary"

section \<open>Readbacks, events and outputs\<close>

record SettingsEntry =
  entry_field :: RawFieldValue
  entry_source :: ValueSource
  entry_quality :: ValueQuality
  entry_verification :: VerificationStatus

datatype SettingsReadbackAvailability = SettingsAvailable | SettingsUnavailable | SettingsUnsupported

definition SETTINGS_READBACK_CAPACITY :: nat where
  "SETTINGS_READBACK_CAPACITY = 18"

record SettingsReadback =
  readback_availability :: SettingsReadbackAvailability
  readback_entries :: "SettingsEntry option list"

text \<open>A fixed number of slots: entries past the last slot are dropped, missing ones are empty.\<close>

definition settings_available :: "SettingsEntry option list \<Rightarrow> SettingsReadback" where
  "settings_available entries =
     \<lparr>readback_availability = SettingsAvailable,
      readback_entries =
        take SETTINGS_READBACK_CAPACITY entries @ replicate (SETTINGS_READBACK_CAPACITY - length entries) None\<rparr>"

definition settings_unavailable :: SettingsReadback where
  "settings_unavailable =
     \<lparr>readback_availability = SettingsUnavailable, readback_entries = replicate SETTINGS_READBACK_CAPACITY None\<rparr>"

definition settings_unsupported :: SettingsReadback where
  "settings_unsupported =
     \<lparr>readback_availability = SettingsUnsupported, readback_entries = replicate SETTINGS_READBACK_CAPACITY None\<rparr>"

datatype DiagnosticSeverity = SeverityInfo | SeverityWarning | SeverityError

record DiagnosticDetail =
  detail_field :: RawFieldValue
  detail_severity :: DiagnosticSeverity
  detail_quality :: ValueQuality
  detail_verification :: VerificationStatus

record DiagnosticReadback =
  readback_details :: "DiagnosticDetail option list"

datatype FaultHistoryAvailability = FaultsAvailable | FaultsUnavailable | FaultsUnsupported

record FaultHistoryEntry =
  fault_code :: RawFieldValue
  fault_source :: ValueSource
  fault_quality :: ValueQuality
  fault_verification :: VerificationStatus

record FaultHistoryReadback =
  faults_availability :: FaultHistoryAvailability
  faults_last :: "FaultHistoryEntry option"
  faults_since_distance :: "Distance Measured option"

definition faults_unavailable :: FaultHistoryReadback where
  "faults_unavailable =
     \<lparr>faults_availability = FaultsUnavailable, faults_last = None, faults_since_distance = None\<rparr>"

definition faults_unsupported :: FaultHistoryReadback where
  "faults_unsupported =
     \<lparr>faults_availability = FaultsUnsupported, faults_last = None, faults_since_distance = None\<rparr>"

record FirmwareInfo =
  protocol_version :: "u16 Measured option"
  firmware_major :: "u16 Measured option"
  firmware_minor :: "u16 Measured option"
  firmware_patch :: "u16 Measured option"
  build_id :: "RawFieldValue option"

datatype ReadOnlyResponse =
    ResponseFirmware FirmwareInfo
  | ResponseBattery BatteryReadback
  | ResponseDiagnostics DiagnosticReadback
  | ResponseSettings SettingsReadback
  | ResponseFaultHistory FaultHistoryReadback

record LinkInfo =
  link_monotonic_ms :: MonotonicTimestamp
  link_max_write_len :: "TransportWriteLimit option"

datatype DeviceEvent =
    LinkUp LinkInfo
  | LinkDown
  | EventTick MonotonicTimestamp
  | EventTelemetry TelemetryDelta
  | EventReadOnlyResponse ReadOnlyResponse
  | EventDiagnostics ParserDiagnostics
  | EventDiagnosticError DiagnosticError

datatype TransportAction = Subscribe GattChannel | Write GattChannel "u8 list" WriteMode | Disconnect

datatype SessionOutput =
    Transport TransportAction
  | Event DeviceEvent
  | NotificationIngest NotificationIngestOutcome

definition diagnostics_for :: "ParserError \<Rightarrow> ParserDiagnostics" where
  "diagnostics_for e = record_error diagnostics_default e"

definition push_parser_error :: "ParserError \<Rightarrow> SessionOutput list" where
  "push_parser_error e = [Event (EventDiagnosticError (from_parser_error e)), Event (EventDiagnostics (diagnostics_for e))]"

section \<open>The session root\<close>

datatype SessionTelemetryRetention = RetentionLive | RetentionHistorical

record SessionTelemetry =
  telemetry_current :: TelemetrySnapshot
  telemetry_bms :: BmsTelemetryState
  diagnostics_parser :: ParserDiagnostics

definition session_telemetry_default :: SessionTelemetry where
  "session_telemetry_default =
     \<lparr>telemetry_current = snapshot_default, telemetry_bms = bms_default, diagnostics_parser = diagnostics_default\<rparr>"

text \<open>A live link change invalidates charging evidence.\<close>

definition forget_charging :: "SessionTelemetryRetention \<Rightarrow> TelemetrySnapshot \<Rightarrow> TelemetrySnapshot" where
  "forget_charging retention s =
     (if retention = RetentionLive
      then (s\<lparr>ts_charge_mode := None\<rparr>)
             \<lparr>ts_operating_state := (if ts_operating_state s = Some StateCharging then None else ts_operating_state s)\<rparr>
      else s)"

fun observe_read_only_response :: "SessionTelemetry \<Rightarrow> ReadOnlyResponse \<Rightarrow> SessionTelemetry" where
  "observe_read_only_response s (ResponseBattery readback) =
     s\<lparr>telemetry_bms := bms_observe_readback (telemetry_bms s) readback\<rparr>"
| "observe_read_only_response s _ = s"

fun observe_event :: "SessionTelemetryRetention \<Rightarrow> SessionTelemetry \<Rightarrow> DeviceEvent \<Rightarrow> SessionTelemetry" where
  "observe_event _ s (EventTelemetry delta) = s\<lparr>telemetry_current := apply_delta (telemetry_current s) delta\<rparr>"
| "observe_event _ s (EventReadOnlyResponse response) = observe_read_only_response s response"
| "observe_event _ s (EventDiagnostics d) = s\<lparr>diagnostics_parser := diagnostics_merge (diagnostics_parser s) d\<rparr>"
| "observe_event r s (LinkUp _) = s\<lparr>telemetry_current := forget_charging r (telemetry_current s)\<rparr>"
| "observe_event r s LinkDown = s\<lparr>telemetry_current := forget_charging r (telemetry_current s)\<rparr>"
| "observe_event _ s (EventTick _) = s"
| "observe_event _ s (EventDiagnosticError _) = s"

fun observe_output :: "SessionTelemetryRetention \<Rightarrow> SessionTelemetry \<Rightarrow> SessionOutput \<Rightarrow> SessionTelemetry" where
  "observe_output r s (Event event) = observe_event r s event"
| "observe_output _ s (Transport _) = s"
| "observe_output _ s (NotificationIngest _) = s"

definition observe_outputs :: "SessionTelemetryRetention \<Rightarrow> SessionTelemetry \<Rightarrow> SessionOutput list \<Rightarrow> SessionTelemetry" where
  "observe_outputs r s outputs = foldl (observe_output r) s outputs"

section \<open>Lemmas\<close>

lemma retained_roundtrip: "retained_as_slice (retained_from_bytes bytes) = take 4096 bytes"
  by (auto simp: retained_from_bytes_def inline_from_bytes_def inline_as_slice_def unsigned_of_nat take_bit_eq_mod
      INLINE_RETAINED_NOTIFICATION_PAYLOAD_BYTES_def MAX_RETAINED_NOTIFICATION_PAYLOAD_BYTES_def split: option.splits)

lemma inline_storage_fits:
  "retained_from_bytes bytes = RetainedInline p \<Longrightarrow> length (inline_bytes p) = 36"
  by (auto simp: retained_from_bytes_def inline_from_bytes_def INLINE_RETAINED_NOTIFICATION_PAYLOAD_BYTES_def
      split: option.splits if_splits)

lemma settings_available_slots: "length (readback_entries (settings_available es)) = 18"
  by (simp add: settings_available_def SETTINGS_READBACK_CAPACITY_def)

lemma observe_outputs_simps [simp]:
  "observe_outputs r s [] = s"
  "observe_outputs r s (x # xs) = observe_outputs r (observe_output r s x) xs"
  "observe_outputs r s (xs @ ys) = observe_outputs r (observe_outputs r s xs) ys"
  by (simp_all add: observe_outputs_def)

text \<open>What a list of outputs tells the snapshot about charging.\<close>

fun charge_told :: "SessionOutput \<Rightarrow> ChargeMode Measured option" where
  "charge_told (Event (EventTelemetry delta)) = td_charge_mode delta"
| "charge_told _ = None"

fun is_link_event :: "SessionOutput \<Rightarrow> bool" where
  "is_link_event (Event (LinkUp _)) = True"
| "is_link_event (Event LinkDown) = True"
| "is_link_event _ = False"

lemma observe_read_only_response_keeps [simp]:
  "telemetry_current (observe_read_only_response s response) = telemetry_current s"
  "diagnostics_parser (observe_read_only_response s response) = diagnostics_parser s"
  by (cases response; simp)+

lemma observe_output_charge:
  "\<not> is_link_event x \<Longrightarrow> ts_charge_mode (telemetry_current (observe_output r s x)) =
     newer (charge_told x) (ts_charge_mode (telemetry_current s))"
  by (cases x rule: charge_told.cases) (auto simp: apply_delta_def newer_def)

lemma observe_outputs_charge:
  "\<forall>x \<in> set xs. \<not> is_link_event x \<Longrightarrow>
     ts_charge_mode (telemetry_current (observe_outputs r s xs)) =
       foldl (\<lambda>old x. newer (charge_told x) old) (ts_charge_mode (telemetry_current s)) xs"
  by (induction xs arbitrary: s) (simp_all add: observe_output_charge)

text \<open>The counter of malformed frames.\<close>

fun reports_malformed :: "SessionOutput \<Rightarrow> u64" where
  "reports_malformed (Event (EventDiagnostics d)) = malformed_frames d"
| "reports_malformed _ = 0"

lemma observe_output_malformed:
  "malformed_frames (diagnostics_parser (observe_output r s x)) =
     saturating_add (malformed_frames (diagnostics_parser s)) (reports_malformed x)"
proof -
  have "saturating_add w 0 = w" for w :: u64
    using unat_less_2p64 [of w] by (simp add: saturating_add_def)
  then show ?thesis
    by (cases x rule: reports_malformed.cases) (simp_all add: diagnostics_merge_def)
qed

lemma observe_outputs_malformed:
  "unat (malformed_frames (diagnostics_parser (observe_outputs r s xs))) =
     min (unat (malformed_frames (diagnostics_parser s)) + (\<Sum>x\<leftarrow>xs. unat (reports_malformed x)))
       18446744073709551615"
proof (induction xs arbitrary: s)
  case Nil
  show ?case
    using unat_less_2p64 [of "malformed_frames (diagnostics_parser s)"] by simp
next
  case (Cons x xs)
  show ?case
    using Cons.IH [of "observe_output r s x"]
    by (simp add: observe_output_malformed unat_saturating_add min_def)
qed

end
