(* ===== verification/Begode_Bms.thy ===== *)
theory Begode_Bms
  imports Begode_Frame Parser Session_Output
begin

text \<open>
  The Begode BMS pages of \<^verbatim>\<open>cutout-protocols/src/begode_bms.rs\<close>: the summary of frame tag 1 and the
  cell pages of tags 2 and 3, read from a complete frame through the parser cursor.  Shown: what a page carries is exactly the frame's bytes, no conversion saturates, and
  the cell numbers of the documented four pages of the two banks do not collide.
\<close>

section \<open>Pages\<close>

datatype BegodeBmsPageError = UnexpectedFrameTag (expected: u8) (actual: u8)

definition BEGODE_BMS_CELL_VALUES_PER_PAGE :: nat where
  "BEGODE_BMS_CELL_VALUES_PER_PAGE = 8"

definition BEGODE_BMS_CELL_VALUES_PER_PAGE_U16 :: u16 where
  "BEGODE_BMS_CELL_VALUES_PER_PAGE_U16 = 8"

definition BEGODE_BMS_OBSERVATIONS_PER_BANK :: u16 where
  "BEGODE_BMS_OBSERVATIONS_PER_BANK = 32"

record BegodeBmsSummary =
  summary_sub_index :: ProtocolSelector
  summary_bms_index :: u8
  half_index :: u8
  pwm_limit :: int
  pack_voltage :: int
  pack_current :: int
  temperature_0 :: int
  temperature_1 :: int
  half_pack_voltage :: int

record BegodeBmsCellPage =
  cell_page_tag :: ProtocolTag
  page_bms_index :: u8
  page_index :: ProtocolSelector
  first_cell_index :: u16
  cell_voltage :: "int list"

definition tag_byte :: "ProtocolTag \<Rightarrow> u8" where
  "tag_byte tag = (if unat tag < 256 then ucast tag else 255)"

definition require_tag :: "BegodeFrame \<Rightarrow> u8 \<Rightarrow> BegodeBmsPageError + unit" where
  "require_tag frame tag =
     (if begode_tag frame = ucast tag then Inr ()
      else Inl (UnexpectedFrameTag tag (tag_byte (begode_tag frame))))"

definition bms_index_from_tag :: "ProtocolTag \<Rightarrow> u8" where
  "bms_index_from_tag tag = tag_byte (saturating_sub tag 2)"

definition frame_be_u16 :: "BegodeFrame \<Rightarrow> nat \<Rightarrow> u16" where
  "frame_be_u16 frame offset = unwrap_or (cursor_be_u16 (begode_bytes frame) offset) 0"

definition frame_be_i16 :: "BegodeFrame \<Rightarrow> nat \<Rightarrow> int" where
  "frame_be_i16 frame offset = unwrap_or (cursor_be_i16 (begode_bytes frame) offset) 0"

definition bms_summary_decode :: "BegodeFrame \<Rightarrow> BegodeBmsPageError + BegodeBmsSummary" where
  "bms_summary_decode frame =
     (case require_tag frame 1 of
        Inl e \<Rightarrow> Inl e
      | Inr _ \<Rightarrow>
          (let sub_index = begode_sub_index frame
           in Inr \<lparr>summary_sub_index = sub_index,
                   summary_bms_index = (if 2 \<le> sub_index then 1 else 0),
                   half_index = and sub_index 1,
                   pwm_limit = duty_from_centipercent (frame_be_u16 frame 2),
                   pack_voltage = voltage_from_deci_volts (int (unat (frame_be_u16 frame 6))),
                   pack_current = current_from_deciamps (frame_be_i16 frame 8),
                   temperature_0 = temperature_from_celsius (frame_be_i16 frame 10),
                   temperature_1 = temperature_from_celsius (frame_be_i16 frame 12),
                   half_pack_voltage = voltage_from_deci_volts (frame_be_i16 frame 14)\<rparr>))"

definition cell_page_offsets :: "nat list" where
  "cell_page_offsets = [2, 4, 6, 8, 10, 12, 14, 16]"

definition bms_cell_page_decode :: "BegodeFrame \<Rightarrow> BegodeBmsPageError + BegodeBmsCellPage" where
  "bms_cell_page_decode frame =
     (let tag = begode_tag frame
      in if \<not> (tag = 2 \<or> tag = 3) then Inl (UnexpectedFrameTag 2 (tag_byte tag))
         else
           (let page = begode_sub_index frame
            in Inr \<lparr>cell_page_tag = tag,
                    page_bms_index = bms_index_from_tag tag,
                    page_index = page,
                    first_cell_index = ucast page * BEGODE_BMS_CELL_VALUES_PER_PAGE_U16,
                    cell_voltage =
                      map (\<lambda>offset. int (unat (frame_be_u16 frame offset))) cell_page_offsets\<rparr>))"

definition source_reported :: "'a \<Rightarrow> 'a Measured" where
  "source_reported v = \<lparr>measured_value = v, measured_source = Reported, measured_quality = Known,
     measured_verification = SourceVerified\<rparr>"

definition summary_to_delta :: "BegodeBmsSummary \<Rightarrow> MonotonicTimestamp \<Rightarrow> TelemetryDelta" where
  "summary_to_delta s at =
     (delta_empty at)
       \<lparr>td_voltage := Some (source_reported (pack_voltage s)),
        td_battery_current := Some (source_reported (current_normalize (pack_current s) PolarityUnknown)),
        td_battery_temperature := Some (source_reported (temperature_0 s))\<rparr>"

definition summary_to_battery_response :: "BegodeBmsSummary \<Rightarrow> ReadOnlyResponse" where
  "summary_to_battery_response s =
     ResponseBattery (battery_available (PageRaw (raw_page_new
       (with_tag (page_metadata_new (summary_sub_index s) KindMetadata SourceVerified) 1)
       (battery_info_default
          \<lparr>bi_voltage := Some (source_reported (pack_voltage s)),
           bi_current := Some (source_reported (current_normalize (pack_current s) PolarityUnknown)),
           bi_temperature := Some (source_reported (temperature_0 s))\<rparr>))))"

text \<open>The number of a page's first cell among the observations of both banks.\<close>

definition first_observation_index :: "BegodeBmsCellPage \<Rightarrow> u16" where
  "first_observation_index page =
     ucast (page_bms_index page) * BEGODE_BMS_OBSERVATIONS_PER_BANK + first_cell_index page"

definition cells_to_battery_response :: "BegodeBmsCellPage \<Rightarrow> ReadOnlyResponse" where
  "cells_to_battery_response page =
     ResponseBattery (with_observation_pack
       (with_first_observation_index
          (battery_available (PageCellVoltage
             \<lparr>cell_page = with_tag (page_metadata_new (page_index page) KindCellVoltage SourceVerified) (cell_page_tag page),
              cell_battery = battery_info_default, cell_voltages = cell_voltage page\<rparr>))
          (first_observation_index page))
       (page_bms_index page) (first_cell_index page))"

section \<open>What a page carries\<close>

lemma frame_be_u16_eq:
  assumes "length (begode_bytes frame) = 24" and "offset \<le> 22"
  shows "frame_be_u16 frame offset =
    u16_from_be_bytes (begode_bytes frame ! offset) (begode_bytes frame ! (offset + 1))"
  using assms by (simp add: frame_be_u16_def cursor_be_u16_eq unwrap_or_def)

lemma frame_be_i16_eq:
  assumes "length (begode_bytes frame) = 24" and "offset \<le> 22"
  shows "frame_be_i16 frame offset =
    sint (u16_from_be_bytes (begode_bytes frame ! offset) (begode_bytes frame ! (offset + 1)))"
  using assms by (simp add: frame_be_i16_def cursor_be_i16_def cursor_be_u16_eq unwrap_or_def)

lemma sint_u16_bounds: "- 32768 \<le> sint (w :: u16)" "sint (w :: u16) \<le> 32767"
  using sint_range_size [of w] by (simp_all add: word_size)

lemma conversions_exact:
  "voltage_from_deci_volts (int (unat (w :: u16))) = int (unat w) * 100"
  "voltage_from_deci_volts (sint (w :: u16)) = sint w * 100"
  "current_from_deciamps (sint (w :: u16)) = sint w * 100"
  "temperature_from_celsius (sint (w :: u16)) = sint w * 1000"
  "duty_from_centipercent w = int (unat w) div 10"
  using uint_bounded [of w] sint_u16_bounds [of w] uint_ge_0 [of w]
  by (auto simp: voltage_from_deci_volts_def current_from_deciamps_def temperature_from_celsius_def
      saturate_i32_def duty_from_centipercent_def Let_def intro!: max_absorb2 order_trans [OF _ mult_nonneg_nonneg])

lemma cell_page_number:
  assumes "bms_cell_page_decode frame = Inr page"
  shows "unat (first_observation_index page) =
    (if begode_tag frame = 3 then 32 else 0) + 8 * unat (begode_sub_index frame)"
proof -
  have tag: "begode_tag frame = 2 \<or> begode_tag frame = 3"
    and page: "page_bms_index page = bms_index_from_tag (begode_tag frame)"
      "first_cell_index page = ucast (begode_sub_index frame) * 8"
    using assms by (auto simp: bms_cell_page_decode_def BEGODE_BMS_CELL_VALUES_PER_PAGE_U16_def Let_def
        split: if_splits)
  have bank: "page_bms_index page = (if begode_tag frame = 3 then 1 else 0)"
    using tag page(1) by (auto simp: bms_index_from_tag_def tag_byte_def saturating_sub_def)
  have "unat (begode_sub_index frame) < 256"
    using unat_bound [of "begode_sub_index frame"] by simp
  then have "unat (first_cell_index page) = 8 * unat (begode_sub_index frame)"
    unfolding page(2) by (simp add: unat_word_ariths unsigned_ucast_eq take_bit_eq_mod)
  then show ?thesis
    using bank \<open>unat (begode_sub_index frame) < 256\<close>
    by (simp add: first_observation_index_def BEGODE_BMS_OBSERVATIONS_PER_BANK_def unat_word_ariths)
qed

text \<open>The cells of the four pages of two banks have 64 different numbers.\<close>

lemma cell_numbers_distinct:
  assumes "bms_cell_page_decode frame = Inr page" "bms_cell_page_decode frame' = Inr page'"
    and "begode_sub_index frame < 4" "begode_sub_index frame' < 4" "k < 8" "k' < 8"
    and "unat (first_observation_index page) + k = unat (first_observation_index page') + k'"
  shows "begode_tag frame = begode_tag frame' \<and> begode_sub_index frame = begode_sub_index frame' \<and> k = k'"
proof -
  have sub: "unat (begode_sub_index frame) < 4" "unat (begode_sub_index frame') < 4"
    using assms(3,4) by (simp_all add: word_less_nat_alt)
  have tag: "begode_tag frame = 2 \<or> begode_tag frame = 3" "begode_tag frame' = 2 \<or> begode_tag frame' = 3"
    using assms(1,2) by (auto simp: bms_cell_page_decode_def Let_def split: if_splits)
  have n: "(if begode_tag frame = 3 then 32 else 0) + 8 * unat (begode_sub_index frame) + k =
    (if begode_tag frame' = 3 then 32 else 0) + 8 * unat (begode_sub_index frame') + k'"
    using assms(7) by (simp add: cell_page_number [OF assms(1)] cell_page_number [OF assms(2)])
  then have bank: "begode_tag frame = 3 \<longleftrightarrow> begode_tag frame' = 3"
    using sub assms(5,6) by (auto split: if_splits)
  then have "8 * unat (begode_sub_index frame) + k = 8 * unat (begode_sub_index frame') + k'"
    using n by simp
  then have "unat (begode_sub_index frame) = unat (begode_sub_index frame')" "k = k'"
    using assms(5,6) by presburger+
  then show ?thesis
    using tag bank by (auto simp: word_unat_eq_iff)
qed

end
