(* ===== verification/Begode_Charging.thy ===== *)
theory Begode_Charging
  imports Begode_Bms Telemetry
begin

text \<open>
  The charging estimate of \<^verbatim>\<open>cutout-protocols/src/begode_charging.rs\<close>, inferred from the voltage of a
  parked wheel.  Every estimate carries the same provenance in the source and is modelled by its
  charge mode; of a telemetry delta only speed and voltage are read.  Shown: charging is reported
  only for a wheel that stood still and whose voltage rose, and every such report has a deadline that
  is exactly the moment the report lapses without new evidence.
\<close>

section \<open>State\<close>

definition FRESH :: Duration where
  "FRESH = 5000"

definition SETTLE :: Duration where
  "SETTLE = 60000"

definition TREND :: Duration where
  "TREND = 120000"

definition INCREASE_SPACING :: Duration where
  "INCREASE_SPACING = 20000"

definition REQUIRED_RISE_MV :: int where
  "REQUIRED_RISE_MV = 200"

definition MATERIAL_RISE_MV :: int where
  "MATERIAL_RISE_MV = 50"

definition STOP_DROP_MV :: int where
  "STOP_DROP_MV = 100"

lemmas charge_consts = FRESH_def SETTLE_def TREND_def INCREASE_SPACING_def REQUIRED_RISE_MV_def
  MATERIAL_RISE_MV_def STOP_DROP_MV_def

datatype Source = SourceUnknown | SourcePlaceholders | SourceUsable

record ChargingDelta =
  delta_speed :: "int option"
  delta_voltage :: "int option"

record BegodeCharging =
  charge_source :: Source
  placeholder_summary_at :: "MonotonicTimestamp option"
  placeholder_cells_at :: "MonotonicTimestamp option"
  valid_summary_at :: "MonotonicTimestamp option"
  real_cells_at :: "MonotonicTimestamp option"
  last_input_at :: "MonotonicTimestamp option"
  last_speed_at :: "MonotonicTimestamp option"
  stationary_since :: "MonotonicTimestamp option"
  last_voltage_at :: "MonotonicTimestamp option"
  trend_started_at :: "MonotonicTimestamp option"
  baseline_mv :: "int option"
  peak_mv :: "int option"
  last_rise_at :: "MonotonicTimestamp option"
  rises :: u8
  is_charging :: bool

definition charging_default :: BegodeCharging where
  "charging_default =
     \<lparr>charge_source = SourceUnknown, placeholder_summary_at = None, placeholder_cells_at = None,
      valid_summary_at = None, real_cells_at = None, last_input_at = None, last_speed_at = None,
      stationary_since = None, last_voltage_at = None, trend_started_at = None, baseline_mv = None,
      peak_mv = None, last_rise_at = None, rises = 0, is_charging = False\<rparr>"

section \<open>Operations\<close>

definition elapsed :: "MonotonicTimestamp \<Rightarrow> MonotonicTimestamp \<Rightarrow> Duration" where
  "elapsed earlier later = saturating_duration_since later earlier"

definition fresh :: "MonotonicTimestamp \<Rightarrow> MonotonicTimestamp \<Rightarrow> bool" where
  "fresh seen now \<longleftrightarrow> seen \<le> now \<and> elapsed seen now \<le> FRESH"

definition stale :: "MonotonicTimestamp option \<Rightarrow> MonotonicTimestamp \<Rightarrow> bool" where
  "stale seen now \<longleftrightarrow> is_some_and seen (\<lambda>t. \<not> fresh t now)"

definition valid_summary :: "BegodeBmsSummary \<Rightarrow> bool" where
  "valid_summary s \<longleftrightarrow>
     - 20000 \<le> temperature_0 s \<and> temperature_0 s \<le> 100000
     \<and> - 20000 \<le> temperature_1 s \<and> temperature_1 s \<le> 100000
     \<and> 40000 \<le> pack_voltage s \<and> pack_voltage s \<le> 250000
     \<and> 0 < half_pack_voltage s \<and> half_pack_voltage s \<le> pack_voltage s"

definition is_placeholder :: "BegodeBmsSummary \<Rightarrow> bool" where
  "is_placeholder s \<longleftrightarrow>
     pack_current s = 0 \<and> temperature_0 s = 0 \<and> temperature_1 s = 5000000 \<and> half_pack_voltage s = 0"

definition reset_trend :: "BegodeCharging \<Rightarrow> BegodeCharging" where
  "reset_trend s =
     s\<lparr>baseline_mv := None, peak_mv := None, trend_started_at := None, last_rise_at := None,
       rises := 0, is_charging := False\<rparr>"

definition clear_bms_evidence :: "BegodeCharging \<Rightarrow> BegodeCharging" where
  "clear_bms_evidence s =
     reset_trend (s\<lparr>charge_source := SourceUnknown, placeholder_summary_at := None,
       placeholder_cells_at := None, valid_summary_at := None, real_cells_at := None\<rparr>)"

definition expire_trend :: "BegodeCharging \<Rightarrow> MonotonicTimestamp \<Rightarrow> BegodeCharging" where
  "expire_trend s at =
     (if is_charging s \<and> is_some_and (last_rise_at s) (\<lambda>r. TREND < elapsed r at) then reset_trend s else s)"

text \<open>The end of \<open>observe_voltage\<close>: the baseline, the peak and the rises, then the verdict.\<close>

definition observe_trend :: "BegodeCharging \<Rightarrow> int \<Rightarrow> MonotonicTimestamp \<Rightarrow> BegodeCharging" where
  "observe_trend s mv at =
     (let s1 = (if is_some_and (peak_mv s) (\<lambda>p. STOP_DROP_MV \<le> i32_saturating_sub p mv) then reset_trend s else s);
          s2 = (if baseline_mv s1 = None then s1\<lparr>baseline_mv := Some mv, trend_started_at := Some at\<rparr> else s1);
          peak = unwrap_or (peak_mv s2) mv;
          s3 = s2\<lparr>peak_mv := Some peak\<rparr>;
          s4 = (if MATERIAL_RISE_MV \<le> i32_saturating_sub mv peak
                then (if is_none_or (last_rise_at s3) (\<lambda>r. INCREASE_SPACING \<le> elapsed r at)
                      then s3\<lparr>rises := saturating_add (rises s3) 1, last_rise_at := Some at\<rparr>
                      else s3)\<lparr>peak_mv := Some mv\<rparr>
                else s3);
          s5 = s4\<lparr>last_voltage_at := Some at\<rparr>
      in if 3 \<le> rises s5
            \<and> is_some_and (baseline_mv s5) (\<lambda>b. REQUIRED_RISE_MV \<le> i32_saturating_sub mv b)
            \<and> is_some_and (trend_started_at s5) (\<lambda>t. TREND \<le> elapsed t at)
         then s5\<lparr>is_charging := True\<rparr> else s5)"

definition observe_voltage :: "BegodeCharging \<Rightarrow> int \<Rightarrow> MonotonicTimestamp \<Rightarrow> BegodeCharging" where
  "observe_voltage s mv at =
     (if last_voltage_at s = Some at then s
      else if mv \<le> 0 then (reset_trend s)\<lparr>last_voltage_at := Some at\<rparr>
      else if is_some_and (last_voltage_at s) (\<lambda>l. at < l) then reset_trend s
      else if is_none_or (stationary_since s) (\<lambda>start. elapsed start at < SETTLE)
        then s\<lparr>last_voltage_at := Some at\<rparr>
      else observe_trend s mv at)"

definition observe_summary :: "BegodeCharging \<Rightarrow> BegodeBmsSummary \<Rightarrow> MonotonicTimestamp \<Rightarrow> BegodeCharging" where
  "observe_summary s sm at =
     (if summary_bms_index sm \<noteq> 0 then s
      else if valid_summary sm then
        (let s1 = (if charge_source s \<noteq> SourceUsable then (reset_trend s)\<lparr>last_voltage_at := None\<rparr> else s);
             s2 = s1\<lparr>valid_summary_at := Some at, placeholder_summary_at := None, charge_source := SourceUsable\<rparr>
         in if is_some_and (real_cells_at s2) (\<lambda>seen. fresh seen at)
            then observe_voltage s2 (pack_voltage sm) at else s2)
      else if is_placeholder sm then
        (let s1 = (if charge_source s = SourceUsable
                   then (reset_trend s)\<lparr>last_voltage_at := None, real_cells_at := None,
                          charge_source := SourceUnknown\<rparr>
                   else s)
         in s1\<lparr>placeholder_summary_at := Some at, valid_summary_at := None\<rparr>)
      else clear_bms_evidence s)"

definition plausible_cell :: "int \<Rightarrow> bool" where
  "plausible_cell mv \<longleftrightarrow> 2500 \<le> mv \<and> mv \<le> 4500"

definition observe_cells :: "BegodeCharging \<Rightarrow> BegodeBmsCellPage \<Rightarrow> MonotonicTimestamp \<Rightarrow> BegodeCharging" where
  "observe_cells s page at =
     (if page_bms_index page \<noteq> 0 then s
      else
        (let plausible = list_all (\<lambda>mv. mv = 0 \<or> plausible_cell mv) (cell_voltage page);
             has_cells = list_ex plausible_cell (cell_voltage page)
         in if plausible \<and> has_cells then
              (let s1 = s\<lparr>real_cells_at := Some at\<rparr>;
                   s2 = (if charge_source s1 \<noteq> SourceUsable
                         then (reset_trend s1)\<lparr>last_voltage_at := None\<rparr> else s1)
               in s2\<lparr>charge_source := SourceUsable\<rparr>)
            else if list_all (\<lambda>mv. mv = 0) (cell_voltage page) then s\<lparr>placeholder_cells_at := Some at\<rparr>
            else clear_bms_evidence s))"

definition refresh_source :: "BegodeCharging \<Rightarrow> MonotonicTimestamp \<Rightarrow> BegodeCharging" where
  "refresh_source s at =
     (if charge_source s = SourceUsable then s
      else if is_some_and (placeholder_summary_at s) (\<lambda>seen. fresh seen at)
            \<and> is_some_and (placeholder_cells_at s) (\<lambda>seen. fresh seen at)
        then s\<lparr>charge_source := SourcePlaceholders\<rparr>
      else if charge_source s = SourcePlaceholders
        then reset_trend (s\<lparr>charge_source := SourceUnknown, last_voltage_at := None\<rparr>)
      else s)"

text \<open>The two timestamps of the BMS evidence a source rests on.\<close>

definition source_evidence :: "BegodeCharging \<Rightarrow> MonotonicTimestamp option list" where
  "source_evidence s =
     (case charge_source s of
        SourceUnknown \<Rightarrow> []
      | SourcePlaceholders \<Rightarrow> [placeholder_summary_at s, placeholder_cells_at s]
      | SourceUsable \<Rightarrow> [valid_summary_at s, real_cells_at s])"

definition charging_ready :: "BegodeCharging \<Rightarrow> MonotonicTimestamp \<Rightarrow> bool" where
  "charging_ready s at \<longleftrightarrow>
     is_some_and (last_speed_at s) (\<lambda>seen. fresh seen at)
     \<and> is_some_and (last_voltage_at s) (\<lambda>seen. fresh seen at)
     \<and> charge_source s \<noteq> SourceUnknown
     \<and> list_all (\<lambda>e. is_some_and e (\<lambda>seen. fresh seen at)) (source_evidence s)"

definition evidence_stale :: "BegodeCharging \<Rightarrow> MonotonicTimestamp \<Rightarrow> bool" where
  "evidence_stale s at \<longleftrightarrow>
     stale (last_speed_at s) at \<or> stale (last_voltage_at s) at
     \<or> list_ex (\<lambda>e. stale e at) (source_evidence s)"

definition charging_result :: "BegodeCharging \<Rightarrow> MonotonicTimestamp \<Rightarrow> ChargeMode \<times> BegodeCharging" where
  "charging_result s at =
     (if \<not> is_some_and (stationary_since s) (\<lambda>start. SETTLE \<le> elapsed start at)
      then (ChargeUnknown, reset_trend (s\<lparr>is_charging := False\<rparr>))
      else if is_charging s then (Charging, s)
      else (ChargeUnknown, s))"

definition charging_conclude :: "BegodeCharging \<Rightarrow> MonotonicTimestamp \<Rightarrow> ChargeMode \<times> BegodeCharging" where
  "charging_conclude s at = (if charging_ready s at then charging_result s at else (ChargeUnknown, s))"

definition observe_frame ::
  "BegodeCharging \<Rightarrow> BegodeFrame \<Rightarrow> ChargingDelta \<Rightarrow> MonotonicTimestamp \<Rightarrow> BegodeCharging" where
  "observe_frame s frame delta at =
     (let tag = begode_tag frame
      in if tag = 0 then
           (case delta_voltage delta of
              Some mv \<Rightarrow> if charge_source s = SourcePlaceholders then observe_voltage s mv at else s
            | None \<Rightarrow> s)
         else if tag = 1 then
           (case bms_summary_decode frame of Inr sm \<Rightarrow> observe_summary s sm at | Inl _ \<Rightarrow> s)
         else if tag = 2 \<or> tag = 3 then
           (case bms_cell_page_decode frame of Inr page \<Rightarrow> observe_cells s page at | Inl _ \<Rightarrow> s)
         else s)"

definition charging_observe ::
  "BegodeCharging \<Rightarrow> BegodeFrame \<Rightarrow> ChargingDelta \<Rightarrow> MonotonicTimestamp \<Rightarrow> ChargeMode \<times> BegodeCharging" where
  "charging_observe s frame delta at =
     (if is_some_and (last_input_at s) (\<lambda>l. at < l) then (ChargeUnknown, charging_default)
      else
        (let s1 = (if evidence_stale s at then charging_default else s);
             s2 = (expire_trend s1 at)\<lparr>last_input_at := Some at\<rparr>
         in case delta_speed delta of
              None \<Rightarrow> charging_conclude (refresh_source (observe_frame s2 frame delta at) at) at
            | Some speed \<Rightarrow>
                if speed_is_moving speed
                then (NotCharging, charging_default\<lparr>last_input_at := Some at, last_speed_at := Some at\<rparr>)
                else
                  (let s3 = s2\<lparr>last_speed_at := Some at,
                               stationary_since := (case stationary_since s2 of None \<Rightarrow> Some at | Some t \<Rightarrow> Some t)\<rparr>
                   in charging_conclude (refresh_source (observe_frame s3 frame delta at) at) at)))"

definition charging_tick :: "BegodeCharging \<Rightarrow> MonotonicTimestamp \<Rightarrow> ChargeMode \<times> BegodeCharging" where
  "charging_tick s at =
     (if is_some_and (last_input_at s) (\<lambda>l. at < l) then (ChargeUnknown, charging_default)
      else if evidence_stale s at then (ChargeUnknown, charging_default\<lparr>last_input_at := Some at\<rparr>)
      else charging_conclude (expire_trend (s\<lparr>last_input_at := Some at\<rparr>) at) at)"

definition next_tick_at :: "BegodeCharging \<Rightarrow> MonotonicTimestamp option" where
  "next_tick_at s =
     (if \<not> is_charging s then None
      else
        case (last_speed_at s, last_voltage_at s) of
          (Some speed_at, Some voltage_at) \<Rightarrow>
            (case source_evidence s of
               [Some a, Some b] \<Rightarrow>
                 (let oldest = min (min (min speed_at voltage_at) a) b;
                      evidence_expiry = saturating_add_duration oldest (saturating_add FRESH 1)
                  in case last_rise_at s of
                       None \<Rightarrow> None
                     | Some r \<Rightarrow> Some (min evidence_expiry (saturating_add_duration r (saturating_add TREND 1))))
             | _ \<Rightarrow> None)
        | _ \<Rightarrow> None)"

section \<open>Runs\<close>

datatype ChargeCall =
    ChargeObserve BegodeFrame ChargingDelta MonotonicTimestamp
  | ChargeTick MonotonicTimestamp
  | ChargeReset

fun charge_step :: "BegodeCharging \<Rightarrow> ChargeCall \<Rightarrow> ChargeMode \<times> BegodeCharging" where
  "charge_step s (ChargeObserve frame delta at) = charging_observe s frame delta at"
| "charge_step s (ChargeTick at) = charging_tick s at"
| "charge_step s ChargeReset = (ChargeUnknown, charging_default)"

definition charge_run :: "ChargeCall list \<Rightarrow> BegodeCharging" where
  "charge_run cs = foldl (\<lambda>s c. snd (charge_step s c)) charging_default cs"

fun call_at :: "ChargeCall \<Rightarrow> MonotonicTimestamp option" where
  "call_at (ChargeObserve _ _ at) = Some at"
| "call_at (ChargeTick at) = Some at"
| "call_at ChargeReset = None"

fun call_speed :: "ChargeCall \<Rightarrow> int option" where
  "call_speed (ChargeObserve _ delta _) = delta_speed delta"
| "call_speed _ = None"

text \<open>The voltage a call offers: of the telemetry frame, or of the BMS summary.\<close>

fun call_voltage :: "ChargeCall \<Rightarrow> int option" where
  "call_voltage (ChargeObserve frame delta _) =
     (if begode_tag frame = 0 then delta_voltage delta
      else case bms_summary_decode frame of Inr sm \<Rightarrow> Some (pack_voltage sm) | Inl _ \<Rightarrow> None)"
| "call_voltage _ = None"

definition sampled :: "ChargeCall list \<Rightarrow> MonotonicTimestamp \<Rightarrow> int \<Rightarrow> bool" where
  "sampled cs t v \<longleftrightarrow> list_ex (\<lambda>c. call_at c = Some t \<and> call_voltage c = Some v) cs"

text \<open>
  Calls of a wheel that stands still from \<open>t\<close> on: their times never go back, none reports motion
  and none resets the estimate.  \<open>parked_since\<close> starts with a speed observation.
\<close>

fun parked :: "MonotonicTimestamp \<Rightarrow> ChargeCall list \<Rightarrow> bool" where
  "parked t [] = True"
| "parked t (c # cs) =
     (case call_at c of
        None \<Rightarrow> False
      | Some t' \<Rightarrow> t \<le> t' \<and> \<not> is_some_and (call_speed c) speed_is_moving \<and> parked t' cs)"

fun park_end :: "MonotonicTimestamp \<Rightarrow> ChargeCall list \<Rightarrow> MonotonicTimestamp" where
  "park_end t [] = t"
| "park_end t (c # cs) = park_end (unwrap_or (call_at c) t) cs"

definition parked_since :: "MonotonicTimestamp \<Rightarrow> ChargeCall list \<Rightarrow> bool" where
  "parked_since t cs \<longleftrightarrow> cs \<noteq> [] \<and> call_at (hd cs) = Some t \<and> call_speed (hd cs) \<noteq> None \<and> parked t cs"

lemma parked_snoc:
  "parked t (cs @ [c]) \<longleftrightarrow> parked t cs \<and> (case call_at c of None \<Rightarrow> False
     | Some t' \<Rightarrow> park_end t cs \<le> t' \<and> \<not> is_some_and (call_speed c) speed_is_moving)"
  by (induction cs arbitrary: t) (auto split: option.splits simp: unwrap_or_def)

lemma park_end_snoc: "park_end t (cs @ [c]) = unwrap_or (call_at c) (park_end t cs)"
  by (induction cs arbitrary: t) auto

lemma parked_end_le: "parked t cs \<Longrightarrow> t \<le> park_end t cs"
proof (induction cs arbitrary: t)
  case (Cons c cs)
  then show ?case
    by (auto split: option.splits simp: unwrap_or_def intro: order_trans)
qed simp

lemma parked_time:
  "parked t cs \<Longrightarrow> c \<in> set cs \<Longrightarrow> call_at c = Some u \<Longrightarrow> t \<le> u \<and> u \<le> park_end t cs"
proof (induction cs arbitrary: t)
  case (Cons d cs)
  then obtain t' where t': "call_at d = Some t'" "t \<le> t'" "parked t' cs"
    by (auto split: option.splits)
  then show ?case
    using Cons.IH [OF t'(3)] Cons.prems parked_end_le [OF t'(3)] by (auto simp: unwrap_or_def)
qed simp

lemma sampled_time: "parked t cs \<Longrightarrow> sampled cs u v \<Longrightarrow> t \<le> u \<and> u \<le> park_end t cs"
  using parked_time by (auto simp: sampled_def list_ex_iff)

section \<open>The trend\<close>

text \<open>The trend fields rest on voltages \<open>P\<close> observed since the wheel settled.\<close>

definition trend_ok :: "(MonotonicTimestamp \<Rightarrow> int \<Rightarrow> bool) \<Rightarrow> BegodeCharging \<Rightarrow> bool" where
  "trend_ok P s \<longleftrightarrow>
     (baseline_mv s = None \<longrightarrow> trend_started_at s = None \<and> peak_mv s = None \<and> last_rise_at s = None
        \<and> rises s = 0 \<and> \<not> is_charging s)
     \<and> (\<forall>b. baseline_mv s = Some b \<longrightarrow> (\<exists>s0 t0. stationary_since s = Some s0 \<and> trend_started_at s = Some t0
           \<and> unat s0 + 60000 \<le> unat t0 \<and> P t0 b))
     \<and> (rises s \<noteq> 0 \<longrightarrow> last_rise_at s \<noteq> None)
     \<and> (\<forall>r. last_rise_at s = Some r \<longrightarrow> (\<exists>v. P r v))
     \<and> (is_charging s \<longrightarrow> rises s \<noteq> 0 \<and> (\<exists>b t0 t v. baseline_mv s = Some b \<and> trend_started_at s = Some t0
           \<and> P t v \<and> unat t0 + 120000 \<le> unat t \<and> b + 200 \<le> v))"

lemma trend_ok_reset [simp]: "trend_ok P (reset_trend s)"
  by (simp add: trend_ok_def reset_trend_def)

lemma trend_ok_mono: "trend_ok P s \<Longrightarrow> (\<And>t v. P t v \<Longrightarrow> Q t v) \<Longrightarrow> trend_ok Q s"
  unfolding trend_ok_def by meson

lemma trend_ok_other [simp]:
  "trend_ok P (s\<lparr>last_voltage_at := x\<rparr>) = trend_ok P s"
  "trend_ok P (s\<lparr>charge_source := src\<rparr>) = trend_ok P s"
  "trend_ok P (s\<lparr>valid_summary_at := x\<rparr>) = trend_ok P s"
  "trend_ok P (s\<lparr>real_cells_at := x\<rparr>) = trend_ok P s"
  "trend_ok P (s\<lparr>placeholder_summary_at := x\<rparr>) = trend_ok P s"
  "trend_ok P (s\<lparr>placeholder_cells_at := x\<rparr>) = trend_ok P s"
  "trend_ok P (s\<lparr>last_input_at := x\<rparr>) = trend_ok P s"
  "trend_ok P (s\<lparr>last_speed_at := x\<rparr>) = trend_ok P s"
  by (simp_all add: trend_ok_def)

lemma i32_sub_ge [simp]:
  "0 < k \<Longrightarrow> k \<le> 1000 \<Longrightarrow> k \<le> i32_saturating_sub a b \<longleftrightarrow> k \<le> a - b"
  by (auto simp: i32_saturating_sub_def i32_clamp_def i32_min_def i32_max_def)

lemma elapsed_le [simp]:
  "TREND \<le> elapsed a b \<longleftrightarrow> unat a + 120000 \<le> unat b"
  "SETTLE \<le> elapsed a b \<longleftrightarrow> unat a + 60000 \<le> unat b"
  by (auto simp: elapsed_def word_le_nat_alt unat_rust charge_consts)

lemma elapsed_less [simp]: "elapsed a b < SETTLE \<longleftrightarrow> unat b < unat a + 60000"
  "TREND < elapsed a b \<longleftrightarrow> unat a + 120000 < unat b"
  by (auto simp: elapsed_def word_less_nat_alt unat_rust charge_consts)

lemma saturating_add_u8_nonzero: "saturating_add (x :: u8) 1 \<noteq> 0"
proof
  assume "saturating_add x 1 = 0"
  then have "unat (saturating_add x 1) = 0"
    by simp
  then show False
    by (simp add: unat_rust unat_saturating_add_u8)
qed

lemma observe_trend_ok:
  assumes "trend_ok P s" and "stationary_since s = Some s0" and "unat s0 + 60000 \<le> unat at" and "P at mv"
  shows "trend_ok P (observe_trend s mv at)"
proof -
  define s1 where "s1 = (if is_some_and (peak_mv s) (\<lambda>p. STOP_DROP_MV \<le> i32_saturating_sub p mv)
     then reset_trend s else s)"
  define s2 where "s2 = (if baseline_mv s1 = None then s1\<lparr>baseline_mv := Some mv, trend_started_at := Some at\<rparr> else s1)"
  define peak where "peak = unwrap_or (peak_mv s2) mv"
  define s3 where "s3 = s2\<lparr>peak_mv := Some peak\<rparr>"
  define s4 where "s4 = (if MATERIAL_RISE_MV \<le> i32_saturating_sub mv peak
                then (if is_none_or (last_rise_at s3) (\<lambda>r. INCREASE_SPACING \<le> elapsed r at)
                      then s3\<lparr>rises := saturating_add (rises s3) 1, last_rise_at := Some at\<rparr>
                      else s3)\<lparr>peak_mv := Some mv\<rparr>
                else s3)"
  have s1: "trend_ok P s1" "stationary_since s1 = Some s0"
    using assms(1,2) by (auto simp: s1_def reset_trend_def) (simp add: trend_ok_def)
  have s2: "trend_ok P s2" "stationary_since s2 = Some s0" "baseline_mv s2 \<noteq> None"
    using s1 assms(3,4) by (auto simp: s2_def trend_ok_def)
  have s3: "trend_ok P s3" "stationary_since s3 = Some s0" "baseline_mv s3 \<noteq> None"
    using s2 by (auto simp: s3_def trend_ok_def)
  have s4: "trend_ok P s4" "baseline_mv s4 \<noteq> None"
    using s3 assms(4) by (auto simp: s4_def trend_ok_def saturating_add_u8_nonzero)
  have "observe_trend s mv at = (let s5 = s4\<lparr>last_voltage_at := Some at\<rparr>
      in if 3 \<le> rises s5
            \<and> is_some_and (baseline_mv s5) (\<lambda>b. REQUIRED_RISE_MV \<le> i32_saturating_sub mv b)
            \<and> is_some_and (trend_started_at s5) (\<lambda>t. TREND \<le> elapsed t at)
         then s5\<lparr>is_charging := True\<rparr> else s5)"
    unfolding observe_trend_def Let_def s4_def s3_def peak_def s2_def s1_def ..
  moreover have "trend_ok P (s4\<lparr>last_voltage_at := Some at, is_charging := True\<rparr>)"
    if ch: "3 \<le> rises s4" "is_some_and (baseline_mv s4) (\<lambda>b. REQUIRED_RISE_MV \<le> i32_saturating_sub mv b)"
      "is_some_and (trend_started_at s4) (\<lambda>t. TREND \<le> elapsed t at)"
  proof -
    obtain b t0 where "baseline_mv s4 = Some b" "trend_started_at s4 = Some t0" "b + 200 \<le> mv"
      "unat t0 + 120000 \<le> unat at"
      using ch by (cases "baseline_mv s4"; cases "trend_started_at s4") (auto simp: REQUIRED_RISE_MV_def)
    moreover have "rises s4 \<noteq> 0"
      using ch(1) by auto
    ultimately show ?thesis
      using s4 assms(4) by (auto simp: trend_ok_def)
  qed
  ultimately show ?thesis
    using s4(1) by (simp add: Let_def)
qed

lemma observe_voltage_ok:
  assumes "trend_ok P s" and "P at mv"
  shows "trend_ok P (observe_voltage s mv at)"
proof (cases "stationary_since s")
  case None
  then show ?thesis
    using assms by (simp add: observe_voltage_def)
next
  case (Some s0)
  then show ?thesis
    using assms observe_trend_ok [OF assms(1) Some _ assms(2)] by (auto simp: observe_voltage_def not_less)
qed

lemma observe_summary_ok:
  "trend_ok P s \<Longrightarrow> P at (pack_voltage sm) \<Longrightarrow> trend_ok P (observe_summary s sm at)"
  by (auto simp: observe_summary_def Let_def clear_bms_evidence_def intro!: observe_voltage_ok)

lemma observe_cells_ok: "trend_ok P s \<Longrightarrow> trend_ok P (observe_cells s page at)"
  by (simp add: observe_cells_def Let_def clear_bms_evidence_def)

lemma observe_frame_ok:
  assumes "trend_ok P s" and "\<And>v. call_voltage (ChargeObserve frame delta at) = Some v \<Longrightarrow> P at v"
  shows "trend_ok P (observe_frame s frame delta at)"
  using assms
  by (auto simp: observe_frame_def Let_def intro!: observe_voltage_ok observe_summary_ok observe_cells_ok
      split: option.splits sum.splits)

lemma refresh_source_ok: "trend_ok P s \<Longrightarrow> trend_ok P (refresh_source s at)"
  by (simp add: refresh_source_def)

lemma expire_trend_ok: "trend_ok P s \<Longrightarrow> trend_ok P (expire_trend s at)"
  by (simp add: expire_trend_def)

lemma charging_conclude_ok: "trend_ok P s \<Longrightarrow> trend_ok P (snd (charging_conclude s at))"
  by (simp add: charging_conclude_def charging_result_def)

text \<open>None of them touches the time of the input or since when the wheel stands.\<close>

lemma parked_fields [simp]:
  "stationary_since (reset_trend s) = stationary_since s" "last_input_at (reset_trend s) = last_input_at s"
  "stationary_since (clear_bms_evidence s) = stationary_since s"
  "last_input_at (clear_bms_evidence s) = last_input_at s"
  "stationary_since (expire_trend s at) = stationary_since s" "last_input_at (expire_trend s at) = last_input_at s"
  "stationary_since (observe_trend s mv at) = stationary_since s"
  "last_input_at (observe_trend s mv at) = last_input_at s"
  by (simp_all add: reset_trend_def clear_bms_evidence_def expire_trend_def observe_trend_def Let_def)

lemma parked_fields_voltage [simp]:
  "stationary_since (observe_voltage s mv at) = stationary_since s"
  "last_input_at (observe_voltage s mv at) = last_input_at s"
  by (simp_all add: observe_voltage_def)

lemma parked_fields_frame [simp]:
  "stationary_since (observe_frame s frame delta at) = stationary_since s"
  "last_input_at (observe_frame s frame delta at) = last_input_at s"
  by (simp_all add: observe_frame_def observe_summary_def observe_cells_def Let_def split: option.splits sum.splits)

lemma parked_fields_conclude [simp]:
  "stationary_since (refresh_source s at) = stationary_since s"
  "last_input_at (refresh_source s at) = last_input_at s"
  "stationary_since (snd (charging_conclude s at)) = stationary_since s"
  "last_input_at (snd (charging_conclude s at)) = last_input_at s"
  by (simp_all add: refresh_source_def charging_conclude_def charging_result_def)

section \<open>How a run explains its estimate\<close>

definition charge_explained :: "ChargeCall list \<Rightarrow> BegodeCharging \<Rightarrow> bool" where
  "charge_explained cs s \<longleftrightarrow>
     (\<exists>pre post. cs = pre @ post \<and> trend_ok (sampled post) s
        \<and> (\<forall>s0. stationary_since s = Some s0 \<longrightarrow>
              parked_since s0 post \<and> last_input_at s = Some (park_end s0 post)))"

lemma explained_fresh:
  assumes "stationary_since s = None" and "trend_ok (\<lambda>t v. False) s"
  shows "charge_explained cs s"
proof -
  have "trend_ok (sampled []) s"
    using assms(2) by (rule trend_ok_mono) simp
  then show ?thesis
    using assms(1) unfolding charge_explained_def by (intro exI [of _ cs] exI [of _ "[]"]) simp
qed

lemma explained_default [simp]:
  "charge_explained cs charging_default"
  "charge_explained cs (charging_default\<lparr>last_input_at := x\<rparr>)"
  "charge_explained cs (charging_default\<lparr>last_input_at := x, last_speed_at := y\<rparr>)"
  by (rule explained_fresh; simp add: charging_default_def trend_ok_def)+

text \<open>A call of a parked wheel extends the explanation, with the voltage it offers.\<close>

lemma explained_step:
  assumes "charge_explained cs s" and "call_at c = Some at" and "\<not> is_some_and (call_speed c) speed_is_moving"
    and "\<not> is_some_and (last_input_at s) (\<lambda>l. at < l)"
    and "stationary_since s' = stationary_since s" and "last_input_at s' = Some at"
    and "\<And>P. trend_ok P s \<Longrightarrow> (\<And>v. call_voltage c = Some v \<Longrightarrow> P at v) \<Longrightarrow> trend_ok P s'"
  shows "charge_explained (cs @ [c]) s'"
proof -
  obtain pre post where e: "cs = pre @ post" "trend_ok (sampled post) s"
    "\<forall>s0. stationary_since s = Some s0 \<longrightarrow> parked_since s0 post \<and> last_input_at s = Some (park_end s0 post)"
    using assms(1) unfolding charge_explained_def by blast
  have "trend_ok (sampled (post @ [c])) s"
    using e(2) by (rule trend_ok_mono) (simp add: sampled_def)
  then have "trend_ok (sampled (post @ [c])) s'"
    by (rule assms(7)) (simp add: sampled_def assms(2))
  moreover have "parked_since s0 (post @ [c]) \<and> park_end s0 (post @ [c]) = at"
    if "stationary_since s' = Some s0" for s0
    using that e(3) assms(2-5) by (auto simp: parked_since_def parked_snoc park_end_snoc unwrap_or_def not_less)
  ultimately show ?thesis
    unfolding charge_explained_def using e(1) assms(6)
    by (intro exI [of _ pre] exI [of _ "post @ [c]"]) simp
qed

text \<open>The first speed of a wheel that does not move starts a new explanation.\<close>

lemma explained_parks:
  assumes "trend_ok P s" and "stationary_since s = None" and "call_at c = Some at"
    and "call_speed c \<noteq> None" and "\<not> is_some_and (call_speed c) speed_is_moving"
    and "stationary_since s' = Some at" and "last_input_at s' = Some at"
    and "\<And>Q. trend_ok Q (s\<lparr>stationary_since := Some at\<rparr>) \<Longrightarrow> (\<And>v. call_voltage c = Some v \<Longrightarrow> Q at v) \<Longrightarrow> trend_ok Q s'"
  shows "charge_explained (cs @ [c]) s'"
proof -
  have "trend_ok (sampled [c]) (s\<lparr>stationary_since := Some at\<rparr>)"
    using assms(1,2) by (auto simp: trend_ok_def)
  then have "trend_ok (sampled [c]) s'"
    by (rule assms(8)) (simp add: sampled_def assms(3))
  moreover have "parked_since at [c]" "park_end at [c] = at"
    using assms(3-5) by (simp_all add: parked_since_def unwrap_or_def)
  ultimately show ?thesis
    unfolding charge_explained_def using assms(6,7)
    by (intro exI [of _ cs] exI [of _ "[c]"]) simp
qed

lemma charge_observe_explained:
  assumes "charge_explained cs s" and "c = ChargeObserve frame delta at"
  shows "charge_explained (cs @ [c]) (snd (charge_step s c))"
proof (cases "is_some_and (last_input_at s) (\<lambda>l. at < l) \<or> is_some_and (delta_speed delta) speed_is_moving")
  case True
  then show ?thesis
    using assms(2) by (auto simp: charging_observe_def Let_def is_some_and_def split: option.splits)
next
  case False
  define s1 where "s1 = (if evidence_stale s at then charging_default else s)"
  have s1: "charge_explained cs s1" "\<not> is_some_and (last_input_at s1) (\<lambda>l. at < l)"
    using assms(1) False by (simp_all add: s1_def) (simp add: charging_default_def)
  have c: "call_at c = Some at" "\<not> is_some_and (call_speed c) speed_is_moving" "call_speed c = delta_speed delta"
    using assms(2) False by simp_all
  define tail where "tail u = snd (charging_conclude (refresh_source (observe_frame u frame delta at) at) at)" for u
  have tail: "trend_ok P (tail u)" if "trend_ok P u" "\<And>v. call_voltage c = Some v \<Longrightarrow> P at v" for P u
    using that assms(2) unfolding tail_def
    by (intro charging_conclude_ok refresh_source_ok observe_frame_ok) auto
  have fields: "stationary_since (tail u) = stationary_since u" "last_input_at (tail u) = last_input_at u" for u
    by (simp_all add: tail_def)
  define s2 where "s2 = (expire_trend s1 at)\<lparr>last_input_at := Some at\<rparr>"
  have step: "snd (charge_step s c) = (case delta_speed delta of None \<Rightarrow> tail s2
      | Some speed \<Rightarrow> tail (s2\<lparr>last_speed_at := Some at, stationary_since :=
          (case stationary_since s1 of None \<Rightarrow> Some at | Some t \<Rightarrow> Some t)\<rparr>))"
    using assms(2) False
    by (cases "delta_speed delta") (simp_all add: charging_observe_def Let_def tail_def flip: s1_def s2_def)
  show ?thesis
  proof (cases "delta_speed delta = None \<or> stationary_since s1 \<noteq> None")
    case True
    define u where "u = (if delta_speed delta = None then s2 else s2\<lparr>last_speed_at := Some at\<rparr>)"
    have same: "v\<lparr>stationary_since := x\<rparr> = v" if "stationary_since v = x" for v :: BegodeCharging and x
      using that by (cases v) simp
    have "snd (charge_step s c) = tail u"
      using True unfolding step by (auto simp: u_def s2_def same split: option.splits)
    moreover have "trend_ok P u" if "trend_ok P s1" for P
      using that by (simp add: u_def s2_def expire_trend_ok)
    ultimately show ?thesis
      by (intro explained_step [OF s1(1) c(1,2) s1(2)]) (auto simp: fields u_def s2_def intro: tail)
  next
    case False
    then have st: "stationary_since s2 = None" "stationary_since s1 = None"
      by (simp_all add: s2_def)
    obtain P where "trend_ok P s1"
      using s1(1) unfolding charge_explained_def by blast
    then have "trend_ok P (s2\<lparr>last_speed_at := Some at\<rparr>)"
      by (simp add: s2_def expire_trend_ok)
    moreover have "snd (charge_step s c) = tail (s2\<lparr>last_speed_at := Some at, stationary_since := Some at\<rparr>)"
      using False unfolding step by (auto simp: st split: option.splits)
    ultimately show ?thesis
      using False c st
      by (intro explained_parks [where s = "s2\<lparr>last_speed_at := Some at\<rparr>" and at = at]) (auto simp: fields s2_def intro: tail)
  qed
qed

lemma charge_tick_explained:
  assumes "charge_explained cs s" and "c = ChargeTick at"
  shows "charge_explained (cs @ [c]) (snd (charge_step s c))"
proof (cases "is_some_and (last_input_at s) (\<lambda>l. at < l) \<or> evidence_stale s at")
  case False
  have "trend_ok P (snd (charging_conclude (expire_trend (s\<lparr>last_input_at := Some at\<rparr>) at) at))"
    if "trend_ok P s" for P
    using that by (intro charging_conclude_ok expire_trend_ok) simp
  then show ?thesis
    using False assms(2)
    by (intro explained_step [OF assms(1), where at = at]) (auto simp: charging_tick_def)
qed (use assms(2) in \<open>auto simp: charging_tick_def\<close>)

lemma charge_run_explained: "charge_explained cs (charge_run cs)"
proof (induction cs rule: rev_induct)
  case (snoc c cs)
  have "charge_run (cs @ [c]) = snd (charge_step (charge_run cs) c)"
    by (simp add: charge_run_def)
  then show ?case
    using snoc charge_observe_explained charge_tick_explained by (cases c) auto
qed (simp add: charge_run_def)

lemma charging_concluded:
  "charging_conclude u at = (Charging, s) \<Longrightarrow> s = u \<and> charging_ready s at \<and> is_charging s
    \<and> is_some_and (stationary_since s) (\<lambda>start. SETTLE \<le> elapsed start at)"
  by (auto simp: charging_conclude_def charging_result_def split: if_splits)

lemma charging_reported:
  assumes "charge_step s' c = (Charging, s)"
  shows "\<exists>at. call_at c = Some at \<and> last_input_at s = Some at \<and> charging_ready s at \<and> is_charging s
    \<and> is_some_and (stationary_since s) (\<lambda>start. SETTLE \<le> elapsed start at)"
proof -
  obtain u at where "charging_conclude u at = (Charging, s)" "last_input_at u = Some at" "call_at c = Some at"
  proof (cases c)
    case (ChargeObserve frame delta at)
    then show ?thesis
      using assms that
      by (auto simp: charging_observe_def Let_def split: if_splits option.splits)
  next
    case (ChargeTick at)
    then show ?thesis
      using assms that by (auto simp: charging_tick_def split: if_splits)
  qed (use assms in simp)
  then show ?thesis
    using charging_concluded by fastforce
qed

section \<open>A wheel on its charger\<close>

text \<open>
  A run in which charging is reported: every five seconds a page of cells, with the speed of a
  standing wheel, and a summary whose voltage rises by 100 mV after 65, 90 and 115 seconds.
\<close>

definition demo_cells :: BegodeFrame where
  "demo_cells = \<lparr>begode_bytes = [85, 170, 16, 0, 16, 0, 16, 0, 16, 0, 16, 0, 16, 0, 16, 0, 16, 0, 2, 0, 90, 90, 90, 90]\<rparr>"

definition demo_summary :: "u8 \<Rightarrow> BegodeFrame" where
  "demo_summary dv = \<lparr>begode_bytes = [85, 170, 0, 0, 0, 0, 3, dv, 0, 0, 0, 25, 0, 25, 1, 0, 0, 0, 1, 0, 90, 90, 90, 90]\<rparr>"

lemma demo_cells_tag: "begode_tag demo_cells = 2"
  by (simp add: begode_tag_def demo_cells_def slice_get_def unwrap_or_def)

lemma demo_cells_decoded:
  "\<exists>page. bms_cell_page_decode demo_cells = Inr page \<and> page_bms_index page = 0
     \<and> cell_voltage page = [4096, 4096, 4096, 4096, 4096, 4096, 4096, 4096]"
proof -
  have len: "length (begode_bytes demo_cells) = 24"
    by (simp add: demo_cells_def)
  have "u16_from_be_bytes 16 0 = 4096"
    by (simp add: u16_from_be_bytes_def)
  then have "map (\<lambda>offset. int (unat (frame_be_u16 demo_cells offset))) cell_page_offsets =
      [4096, 4096, 4096, 4096, 4096, 4096, 4096, 4096]"
    by (simp add: cell_page_offsets_def frame_be_u16_eq [OF len]) (simp add: demo_cells_def)
  moreover have "bms_index_from_tag 2 = 0"
    by (simp add: bms_index_from_tag_def tag_byte_def saturating_sub_def)
  ultimately show ?thesis
    by (simp add: bms_cell_page_decode_def demo_cells_tag Let_def)
qed

lemma demo_summary_tag: "begode_tag (demo_summary dv) = 1"
  by (simp add: begode_tag_def demo_summary_def slice_get_def unwrap_or_def)

lemma demo_summary_decoded:
  "\<exists>sm. bms_summary_decode (demo_summary dv) = Inr sm \<and> summary_bms_index sm = 0
     \<and> pack_voltage sm = (768 + int (unat dv)) * 100 \<and> valid_summary sm"
proof -
  let ?f = "demo_summary dv"
  have len: "length (begode_bytes ?f) = 24"
    by (simp add: demo_summary_def)
  have sub: "begode_sub_index ?f = 0"
    by (simp add: begode_sub_index_def demo_summary_def slice_get_def unwrap_or_def)
  have words: "u16_from_be_bytes 0 25 = 25" "u16_from_be_bytes 1 0 = 256" "u16_from_be_bytes 0 0 = 0"
    by (simp_all add: u16_from_be_bytes_def)
  have volts: "int (unat (frame_be_u16 ?f 6)) = 768 + int (unat dv)"
    by (simp add: frame_be_u16_eq [OF len] unat_u16_from_be_bytes del: of_nat_unat) (simp add: demo_summary_def)
  have ints: "frame_be_i16 ?f 10 = 25" "frame_be_i16 ?f 12 = 25" "frame_be_i16 ?f 14 = 256"
    by (simp_all add: frame_be_i16_eq [OF len], simp_all add: demo_summary_def words)
  have v: "voltage_from_deci_volts (768 + int (unat dv)) = (768 + int (unat dv)) * 100"
    using conversions_exact(1) [of "frame_be_u16 ?f 6"] unfolding volts .
  have "unat dv < 256"
    using unat_bound [of dv] by simp
  then have dv: "int (unat dv) < 256"
    by linarith
  obtain sm where sm: "bms_summary_decode ?f = Inr sm" "summary_bms_index sm = 0"
    "pack_voltage sm = (768 + int (unat dv)) * 100" "temperature_0 sm = 25000" "temperature_1 sm = 25000"
    "half_pack_voltage sm = 25600"
    using sub ints unfolding bms_summary_decode_def require_tag_def demo_summary_tag volts v
    by (auto simp: voltage_from_deci_volts_def temperature_from_celsius_def saturate_i32_def Let_def)
  then have "valid_summary sm"
    using dv by (simp add: valid_summary_def)
  then show ?thesis
    using sm by blast
qed

definition demo_at :: "nat \<Rightarrow> MonotonicTimestamp" where
  "demo_at k = of_nat (5000 * k)"

definition demo_state ::
  "nat \<Rightarrow> nat \<Rightarrow> nat option \<Rightarrow> int option \<Rightarrow> int option \<Rightarrow> nat option \<Rightarrow> u8 \<Rightarrow> BegodeCharging" where
  "demo_state i j start base peak rise n =
     \<lparr>charge_source = SourceUsable, placeholder_summary_at = None, placeholder_cells_at = None,
      valid_summary_at = Some (demo_at j), real_cells_at = Some (demo_at i),
      last_input_at = Some (demo_at i), last_speed_at = Some (demo_at i),
      stationary_since = Some (demo_at 0), last_voltage_at = Some (demo_at j),
      trend_started_at = map_option demo_at start, baseline_mv = base, peak_mv = peak,
      last_rise_at = map_option demo_at rise, rises = n, is_charging = False\<rparr>"

definition demo_round :: "nat \<Rightarrow> u8 \<Rightarrow> ChargeCall list" where
  "demo_round k dv =
     [ChargeObserve demo_cells \<lparr>delta_speed = Some 0, delta_voltage = None\<rparr> (demo_at k),
      ChargeObserve (demo_summary dv) \<lparr>delta_speed = None, delta_voltage = None\<rparr> (demo_at k)]"

lemma unat_demo_at: "k < 100 \<Longrightarrow> unat (demo_at k) = 5000 * k"
  unfolding demo_at_def unsigned_of_nat by (simp add: take_bit_nat_eq_self)

lemma demo_at_cmp:
  assumes "i < 100" "k < 100"
  shows "demo_at i < demo_at k \<longleftrightarrow> i < k" "demo_at i = demo_at k \<longleftrightarrow> i = k"
    "fresh (demo_at i) (demo_at k) \<longleftrightarrow> i \<le> k \<and> k \<le> i + 1"
    "elapsed (demo_at i) (demo_at k) < SETTLE \<longleftrightarrow> k < i + 12"
    "SETTLE \<le> elapsed (demo_at i) (demo_at k) \<longleftrightarrow> i + 12 \<le> k"
    "TREND \<le> elapsed (demo_at i) (demo_at k) \<longleftrightarrow> i + 24 \<le> k"
    "INCREASE_SPACING \<le> elapsed (demo_at i) (demo_at k) \<longleftrightarrow> i + 4 \<le> k"
  using unat_demo_at [OF assms(1)] unat_demo_at [OF assms(2)]
  by (auto simp: word_less_nat_alt word_le_nat_alt word_unat_eq_iff fresh_def elapsed_def unat_rust charge_consts)

lemma demo_cells_step:
  assumes "k < 98" and "k + 1 < 12 \<Longrightarrow> start = None \<and> base = None \<and> peak = None \<and> rise = None \<and> n = 0"
  shows "snd (charge_step (demo_state k k start base peak rise n) (hd (demo_round (k + 1) dv))) =
    demo_state (k + 1) k start base peak rise n"
proof -
  obtain page where page: "bms_cell_page_decode demo_cells = Inr page" "page_bms_index page = 0"
    "cell_voltage page = [4096, 4096, 4096, 4096, 4096, 4096, 4096, 4096]"
    using demo_cells_decoded by blast
  have "k < 100" "k + 1 < 100" "0 < (100 :: nat)"
    using assms(1) by simp_all
  note at = demo_at_cmp [OF \<open>k < 100\<close> \<open>k + 1 < 100\<close>] demo_at_cmp [OF \<open>k + 1 < 100\<close> \<open>k < 100\<close>]
    demo_at_cmp [OF \<open>k + 1 < 100\<close> \<open>k + 1 < 100\<close>] demo_at_cmp [OF \<open>0 < 100\<close> \<open>k + 1 < 100\<close>]
  have "\<not> speed_is_moving 0"
    by (simp add: speed_is_moving_def CONNECTED_WHEEL_MOVEMENT_THRESHOLD_def)
  then show ?thesis
    using assms(2) at [unfolded Suc_eq_plus1]
    by (cases "k + 1 < 12")
      (simp_all add: demo_round_def demo_state_def charging_observe_def evidence_stale_def stale_def
        source_evidence_def expire_trend_def observe_frame_def demo_cells_tag page observe_cells_def
        plausible_cell_def refresh_source_def charging_conclude_def charging_ready_def charging_result_def
        reset_trend_def Let_def del: elapsed_le elapsed_less)
qed

lemma demo_summary_step:
  assumes "k < 98"
  shows "charge_step (demo_state (k + 1) k start base peak rise n) (last (demo_round (k + 1) dv)) =
    charging_conclude (observe_voltage
      ((demo_state (k + 1) k start base peak rise n)\<lparr>valid_summary_at := Some (demo_at (k + 1))\<rparr>)
      ((768 + int (unat dv)) * 100) (demo_at (k + 1))) (demo_at (k + 1))"
proof -
  obtain sm where sm: "bms_summary_decode (demo_summary dv) = Inr sm" "summary_bms_index sm = 0"
    "pack_voltage sm = (768 + int (unat dv)) * 100" "valid_summary sm"
    using demo_summary_decoded by blast
  define d where "d = demo_state (k + 1) k start base peak rise n"
  define at where "at = demo_at (k + 1)"
  have "fresh (demo_at k) at" "fresh at at"
    using assms by (simp_all add: at_def demo_at_cmp)
  then have d: "charge_source d = SourceUsable" "placeholder_summary_at d = None" "real_cells_at d = Some at"
    "last_input_at d = Some at" "\<not> is_charging d" "\<not> evidence_stale d at"
    by (simp_all add: d_def at_def evidence_stale_def stale_def source_evidence_def demo_state_def)
  define s where "s = d\<lparr>valid_summary_at := Some at\<rparr>"
  have same: "d\<lparr>last_input_at := Some at\<rparr> = d"
    "d\<lparr>valid_summary_at := Some at, placeholder_summary_at := None, charge_source := SourceUsable\<rparr> = s"
    using d(1-4) by (cases d; simp add: s_def)+
  have u: "charge_source (observe_voltage s mv t) = SourceUsable" for mv t
    by (simp add: s_def d(1) observe_voltage_def observe_trend_def reset_trend_def Let_def)
  have "observe_frame d (demo_summary dv) \<lparr>delta_speed = None, delta_voltage = None\<rparr> at = observe_voltage s (pack_voltage sm) at"
    using d same(2) \<open>fresh at at\<close> by (simp add: observe_frame_def demo_summary_tag sm(1,2,4) observe_summary_def Let_def)
  then have "charging_observe d (demo_summary dv) \<lparr>delta_speed = None, delta_voltage = None\<rparr> at =
    charging_conclude (observe_voltage s (pack_voltage sm) at) at"
    using d(4-6) by (simp add: charging_observe_def expire_trend_def same(1) refresh_source_def u Let_def)
  then show ?thesis
    unfolding sm(3) by (simp add: demo_round_def d_def at_def s_def)
qed

text \<open>Voltages of a settled wheel: the first one, one at the peak, and a material rise.\<close>

lemma observe_trend_first:
  "baseline_mv s = None \<Longrightarrow> peak_mv s = None \<Longrightarrow> rises s = 0 \<Longrightarrow>
   observe_trend s mv at = s\<lparr>baseline_mv := Some mv, trend_started_at := Some at, peak_mv := Some mv, last_voltage_at := Some at\<rparr>"
  by (simp add: observe_trend_def Let_def unwrap_or_def charge_consts i32_saturating_sub_def i32_clamp_def i32_min_def i32_max_def)

lemma observe_trend_peak:
  assumes "baseline_mv s = Some b" and "peak_mv s = Some mv" and "trend_started_at s = Some t0"
  shows "observe_trend s mv at =
    (if 3 \<le> rises s \<and> b + 200 \<le> mv \<and> TREND \<le> elapsed t0 at
     then s\<lparr>last_voltage_at := Some at, is_charging := True\<rparr> else s\<lparr>last_voltage_at := Some at\<rparr>)"
proof -
  have "s\<lparr>peak_mv := Some mv\<rparr> = s"
    using assms(2) by (cases s) simp
  then show ?thesis
    using assms by (simp add: observe_trend_def Let_def unwrap_or_def MATERIAL_RISE_MV_def STOP_DROP_MV_def REQUIRED_RISE_MV_def algebra_simps del: elapsed_le)
qed

lemma observe_trend_rise:
  assumes "baseline_mv s = Some b" and "peak_mv s = Some p" and "trend_started_at s = Some t0"
    and "p + 50 \<le> mv" and "is_none_or (last_rise_at s) (\<lambda>r. INCREASE_SPACING \<le> elapsed r at)"
    and "\<not> TREND \<le> elapsed t0 at"
  shows "observe_trend s mv at =
    s\<lparr>peak_mv := Some mv, rises := saturating_add (rises s) 1, last_rise_at := Some at, last_voltage_at := Some at\<rparr>"
  using assms by (simp add: observe_trend_def Let_def unwrap_or_def MATERIAL_RISE_MV_def STOP_DROP_MV_def algebra_simps del: elapsed_le)

lemma demo_observe_voltage:
  assumes "k < 98"
    and s_def: "s = (demo_state (k + 1) k start base peak rise n)\<lparr>valid_summary_at := Some (demo_at (k + 1))\<rparr>"
  shows "observe_voltage s ((768 + int (unat dv)) * 100) (demo_at (k + 1)) =
    (if k + 1 < 12 then demo_state (k + 1) (k + 1) start base peak rise n
     else observe_trend s ((768 + int (unat dv)) * 100) (demo_at (k + 1)))"
proof -
  have "0 < (768 + int (unat dv)) * 100"
    by (simp add: add_pos_nonneg)
  moreover have "demo_at k \<noteq> demo_at (k + 1)" "\<not> demo_at (k + 1) < demo_at k"
    "elapsed (demo_at 0) (demo_at (k + 1)) < SETTLE \<longleftrightarrow> k + 1 < 12"
    using assms(1) demo_at_cmp [of k "k + 1"] demo_at_cmp [of "k + 1" k] demo_at_cmp [of 0 "k + 1"] by simp_all
  ultimately show ?thesis
    by (simp add: observe_voltage_def s_def demo_state_def del: elapsed_less)
qed


definition demo_feed :: "BegodeCharging \<Rightarrow> ChargeCall list \<Rightarrow> BegodeCharging" where
  "demo_feed s cs = foldl (\<lambda>s c. snd (charge_step s c)) s cs"

lemma demo_feed_append: "demo_feed s (cs @ ds) = demo_feed (demo_feed s cs) ds"
  by (simp add: demo_feed_def)

lemma demo_conclude:
  "\<not> is_charging s \<Longrightarrow> (is_some_and (stationary_since s) (\<lambda>t. SETTLE \<le> elapsed t at) \<or> reset_trend s = s)
    \<Longrightarrow> snd (charging_conclude s at) = s"
  by (cases s) (auto simp: charging_conclude_def charging_result_def reset_trend_def)

lemma demo_round_settling:
  assumes "k + 1 < 12"
  shows "demo_feed (demo_state k k None None None None 0) (demo_round (k + 1) dv) =
    demo_state (k + 1) (k + 1) None None None None 0"
proof -
  have "snd (charging_conclude (demo_state (k + 1) (k + 1) None None None None 0) (demo_at (k + 1))) =
    demo_state (k + 1) (k + 1) None None None None 0"
    by (intro demo_conclude) (simp_all add: demo_state_def reset_trend_def)
  then show ?thesis
    using assms demo_cells_step [of k None None None None 0 dv]
      demo_summary_step [of k None None None None 0 dv] demo_observe_voltage [OF _ refl, of k None None None None 0 dv]
    by (simp add: demo_feed_def demo_round_def)
qed

lemma demo_round_settled:
  assumes "12 \<le> k + 1" and "k < 98"
    and "observe_trend ((demo_state (k + 1) k start base peak rise n)\<lparr>valid_summary_at := Some (demo_at (k + 1))\<rparr>)
      ((768 + int (unat dv)) * 100) (demo_at (k + 1)) = demo_state (k + 1) (k + 1) start' base' peak' rise' n'"
  shows "demo_feed (demo_state k k start base peak rise n) (demo_round (k + 1) dv) =
    demo_state (k + 1) (k + 1) start' base' peak' rise' n'"
proof -
  have "SETTLE \<le> elapsed (demo_at 0) (demo_at (k + 1))"
    using assms(1,2) by (simp add: demo_at_cmp del: elapsed_le)
  then have "snd (charging_conclude (demo_state (k + 1) (k + 1) start' base' peak' rise' n') (demo_at (k + 1))) =
    demo_state (k + 1) (k + 1) start' base' peak' rise' n'"
    by (intro demo_conclude) (simp_all add: demo_state_def del: elapsed_le)
  then show ?thesis
    using assms demo_cells_step [of k start base peak rise n dv]
      demo_summary_step [of k start base peak rise n dv] demo_observe_voltage [OF _ refl, of k start base peak rise n dv]
    by (simp add: demo_feed_def demo_round_def)
qed

lemma demo_round_first:
  assumes "12 \<le> k + 1" and "k < 98"
  shows "demo_feed (demo_state k k None None None None 0) (demo_round (k + 1) dv) =
    demo_state (k + 1) (k + 1) (Some (k + 1)) (Some ((768 + int (unat dv)) * 100)) (Some ((768 + int (unat dv)) * 100)) None 0"
  using assms by (intro demo_round_settled) (simp_all add: observe_trend_first demo_state_def)

lemma demo_round_rise:
  assumes "12 \<le> k + 1" and "k < 98" and "p + 50 \<le> (768 + int (unat dv)) * 100" and "t < 50" and "k + 1 < t + 24"
    and "is_none_or rise (\<lambda>r. r < 50 \<and> r + 4 \<le> k + 1)"
  shows "demo_feed (demo_state k k (Some t) (Some b) (Some p) rise n) (demo_round (k + 1) dv) =
    demo_state (k + 1) (k + 1) (Some t) (Some b) (Some ((768 + int (unat dv)) * 100)) (Some (k + 1)) (saturating_add n 1)"
proof (intro demo_round_settled)
  let ?s = "(demo_state (k + 1) k (Some t) (Some b) (Some p) rise n)\<lparr>valid_summary_at := Some (demo_at (k + 1))\<rparr>"
  have "is_none_or (last_rise_at ?s) (\<lambda>r. INCREASE_SPACING \<le> elapsed r (demo_at (k + 1)))"
    using assms(2,6) by (cases rise) (simp_all add: demo_state_def demo_at_cmp)
  moreover have "\<not> TREND \<le> elapsed (demo_at t) (demo_at (k + 1))"
    using assms(2,4,5) by (simp add: demo_at_cmp del: elapsed_le)
  ultimately show "observe_trend ?s ((768 + int (unat dv)) * 100) (demo_at (k + 1)) =
    demo_state (k + 1) (k + 1) (Some t) (Some b) (Some ((768 + int (unat dv)) * 100)) (Some (k + 1)) (saturating_add n 1)"
    using observe_trend_rise [of ?s b p "demo_at t" "(768 + int (unat dv)) * 100" "demo_at (k + 1)"] assms(3)
    by (simp add: demo_state_def del: elapsed_le)
qed (use assms in simp_all)

lemma demo_round_peak:
  assumes "12 \<le> k + 1" and "k < 98" and "p = (768 + int (unat dv)) * 100" and "t < 50" and "k + 1 < t + 24"
  shows "demo_feed (demo_state k k (Some t) (Some b) (Some p) rise n) (demo_round (k + 1) dv) =
    demo_state (k + 1) (k + 1) (Some t) (Some b) (Some p) rise n"
proof (intro demo_round_settled)
  let ?s = "(demo_state (k + 1) k (Some t) (Some b) (Some p) rise n)\<lparr>valid_summary_at := Some (demo_at (k + 1))\<rparr>"
  have "\<not> TREND \<le> elapsed (demo_at t) (demo_at (k + 1))"
    using assms(2,4,5) by (simp add: demo_at_cmp del: elapsed_le)
  then show "observe_trend ?s ((768 + int (unat dv)) * 100) (demo_at (k + 1)) =
    demo_state (k + 1) (k + 1) (Some t) (Some b) (Some p) rise n"
    using observe_trend_peak [of ?s b "(768 + int (unat dv)) * 100" "demo_at t" "demo_at (k + 1)"] assms(3)
    by (simp add: demo_state_def del: elapsed_le)
qed (use assms in simp_all)


primrec demo_rounds :: "nat \<Rightarrow> nat \<Rightarrow> u8 \<Rightarrow> ChargeCall list" where
  "demo_rounds k 0 dv = []"
| "demo_rounds k (Suc m) dv = demo_round (k + 1) dv @ demo_rounds (k + 1) m dv"

lemma demo_rounds_settling:
  "k + m < 12 \<Longrightarrow> demo_feed (demo_state k k None None None None 0) (demo_rounds k m dv) =
    demo_state (k + m) (k + m) None None None None 0"
proof (induction m arbitrary: k)
  case (Suc m)
  then show ?case
    using demo_round_settling [of k dv] Suc.IH [of "k + 1"] by (simp add: demo_feed_append)
qed (simp add: demo_feed_def)

lemma demo_rounds_peak:
  assumes "p = (768 + int (unat dv)) * 100" and "t < 50"
  shows "11 \<le> k \<Longrightarrow> k + m < t + 24 \<Longrightarrow> demo_feed (demo_state k k (Some t) (Some b) (Some p) rise n) (demo_rounds k m dv) =
    demo_state (k + m) (k + m) (Some t) (Some b) (Some p) rise n"
proof (induction m arbitrary: k)
  case (Suc m)
  then show ?case
    using demo_round_peak [of k p dv t b rise n] Suc.IH [of "k + 1"] assms by (simp add: demo_feed_append)
qed (simp add: demo_feed_def)

lemma demo_round_start: "demo_feed charging_default (demo_round 0 dv) = demo_state 0 0 None None None None 0"
proof -
  obtain page where page: "bms_cell_page_decode demo_cells = Inr page" "page_bms_index page = 0"
    "cell_voltage page = [4096, 4096, 4096, 4096, 4096, 4096, 4096, 4096]"
    using demo_cells_decoded by blast
  obtain sm where sm: "bms_summary_decode (demo_summary dv) = Inr sm" "summary_bms_index sm = 0"
    "pack_voltage sm = (768 + int (unat dv)) * 100" "valid_summary sm"
    using demo_summary_decoded by blast
  have v: "\<not> (768 + int (unat dv)) * 100 \<le> 0"
    by (simp add: not_le add_pos_nonneg)
  have at: "fresh (demo_at 0) (demo_at 0)" "elapsed (demo_at 0) (demo_at 0) < SETTLE"
    "\<not> SETTLE \<le> elapsed (demo_at 0) (demo_at 0)"
    by (simp_all add: demo_at_cmp del: elapsed_le elapsed_less)
  define mid where "mid = charging_default\<lparr>charge_source := SourceUsable, real_cells_at := Some (demo_at 0),
     last_input_at := Some (demo_at 0), last_speed_at := Some (demo_at 0), stationary_since := Some (demo_at 0)\<rparr>"
  have "\<not> speed_is_moving 0"
    by (simp add: speed_is_moving_def CONNECTED_WHEEL_MOVEMENT_THRESHOLD_def)
  then have cells: "snd (charge_step charging_default (hd (demo_round 0 dv))) = mid"
    by (simp add: demo_round_def mid_def charging_observe_def charging_default_def evidence_stale_def stale_def
        source_evidence_def expire_trend_def observe_frame_def demo_cells_tag page observe_cells_def
        plausible_cell_def refresh_source_def charging_conclude_def charging_ready_def reset_trend_def Let_def
        del: elapsed_le elapsed_less)
  have "snd (charge_step mid (last (demo_round 0 dv))) = demo_state 0 0 None None None None 0"
    using at v
    by (simp add: demo_round_def mid_def charging_observe_def charging_default_def evidence_stale_def stale_def
        source_evidence_def expire_trend_def observe_frame_def demo_summary_tag sm(1,2,4) observe_summary_def
        observe_voltage_def sm(3) refresh_source_def charging_conclude_def charging_ready_def charging_result_def
        reset_trend_def demo_state_def Let_def del: elapsed_le elapsed_less)
  then show ?thesis
    using cells by (simp add: demo_feed_def demo_round_def)
qed

definition demo_calls :: "ChargeCall list" where
  "demo_calls = demo_round 0 72 @ demo_rounds 0 11 72 @ demo_round 12 72 @ demo_round 13 73 @ demo_rounds 13 4 73
     @ demo_round 18 74 @ demo_rounds 18 4 74 @ demo_round 23 75 @ demo_rounds 23 12 75 @ [hd (demo_round 36 75)]"

lemma demo_before: "charge_run demo_calls = demo_state 36 35 (Some 12) (Some 84000) (Some 84300) (Some 23) 3"
proof -
  have n: "saturating_add (0 :: u8) 1 = 1" "saturating_add (1 :: u8) 1 = 2" "saturating_add (2 :: u8) 1 = 3"
    by (simp_all add: saturating_add_def)
  let ?D = "\<lambda>k. demo_state k k (Some 12) (Some 84000)"
  have "demo_feed charging_default (demo_round 0 72 @ demo_rounds 0 11 72) = demo_state 11 11 None None None None 0"
    using demo_rounds_settling [of 0 11 72] by (simp add: demo_feed_append demo_round_start)
  moreover have "demo_feed (demo_state 11 11 None None None None 0) (demo_round 12 72) = ?D 12 (Some 84000) None 0"
    using demo_round_first [of 11 72] by simp
  moreover have "demo_feed (?D 12 (Some 84000) None 0) (demo_round 13 73 @ demo_rounds 13 4 73) = ?D 17 (Some 84100) (Some 13) 1"
    using demo_round_rise [of 12 84000 73 12 None 84000 0] demo_rounds_peak [of 84100 73 12 13 4 84000 "Some 13" 1]
    by (simp add: demo_feed_append n)
  moreover have "demo_feed (?D 17 (Some 84100) (Some 13) 1) (demo_round 18 74 @ demo_rounds 18 4 74) = ?D 22 (Some 84200) (Some 18) 2"
    using demo_round_rise [of 17 84100 74 12 "Some 13" 84000 1] demo_rounds_peak [of 84200 74 12 18 4 84000 "Some 18" 2]
    by (simp add: demo_feed_append n)
  moreover have "demo_feed (?D 22 (Some 84200) (Some 18) 2) (demo_round 23 75 @ demo_rounds 23 12 75) = ?D 35 (Some 84300) (Some 23) 3"
    using demo_round_rise [of 22 84200 75 12 "Some 18" 84000 2] demo_rounds_peak [of 84300 75 12 23 12 84000 "Some 23" 3]
    by (simp add: demo_feed_append n)
  moreover have "demo_feed (?D 35 (Some 84300) (Some 23) 3) [hd (demo_round 36 75)] =
      demo_state 36 35 (Some 12) (Some 84000) (Some 84300) (Some 23) 3"
    using demo_cells_step [of 35 "Some 12" "Some 84000" "Some 84300" "Some 23" 3 75] by (simp add: demo_feed_def)
  ultimately have "demo_feed charging_default demo_calls = demo_state 36 35 (Some 12) (Some 84000) (Some 84300) (Some 23) 3"
    by (simp only: demo_calls_def demo_feed_append)
  then show ?thesis
    by (simp add: charge_run_def demo_feed_def)
qed

lemma demo_charging: "fst (charge_step (charge_run demo_calls) (last (demo_round 36 75))) = Charging"
proof -
  let ?s = "(demo_state 36 35 (Some 12) (Some 84000) (Some 84300) (Some 23) 3)\<lparr>valid_summary_at := Some (demo_at 36)\<rparr>"
  have "observe_trend ?s 84300 (demo_at 36) = ?s\<lparr>last_voltage_at := Some (demo_at 36), is_charging := True\<rparr>"
    by (subst observe_trend_peak [where b = 84000 and ?t0.0 = "demo_at 12"])
      (simp_all add: demo_at_cmp demo_state_def del: elapsed_le)
  then have "charge_step (charge_run demo_calls) (last (demo_round 36 75)) =
      charging_conclude (?s\<lparr>last_voltage_at := Some (demo_at 36), is_charging := True\<rparr>) (demo_at 36)"
    using demo_summary_step [of 35 "Some 12" "Some 84000" "Some 84300" "Some 23" 3 75]
      demo_observe_voltage [OF _ refl, of 35 "Some 12" "Some 84000" "Some 84300" "Some 23" 3 "75 :: u8"]
    by (simp add: demo_before)
  then show ?thesis
    by (simp add: charging_conclude_def charging_ready_def charging_result_def source_evidence_def demo_state_def
        demo_at_cmp del: elapsed_le elapsed_less)
qed

section \<open>Reports of charging\<close>

text \<open>
  C26. Charging is reported only for a parked wheel with a rising voltage.  Whatever frames, ticks
  and resets came before, when a call reports charging, the calls end with an unbroken stretch that
  starts with a speed observation, in which time never went back and no motion was reported; in it
  two voltages were observed, the first at least a minute after the wheel was first seen standing,
  the second at least two minutes after the first and at least 200 mV above it.
\<close>

theorem charging_needs_parked_rise:
  assumes "charge_step (charge_run cs) c = (Charging, s)"
  shows "\<exists>pre post s0 t1 v1 t2 v2. cs @ [c] = pre @ post \<and> parked_since s0 post
    \<and> sampled post t1 v1 \<and> sampled post t2 v2
    \<and> unat s0 + 60000 \<le> unat t1 \<and> unat t1 + 120000 \<le> unat t2 \<and> v1 + 200 \<le> v2"
proof -
  have "charge_run (cs @ [c]) = s"
    using assms by (simp add: charge_run_def)
  then obtain pre post where e: "cs @ [c] = pre @ post" "trend_ok (sampled post) s"
    "\<forall>s0. stationary_since s = Some s0 \<longrightarrow> parked_since s0 post"
    using charge_run_explained [of "cs @ [c]"] unfolding charge_explained_def by auto
  have "is_charging s"
    using charging_reported [OF assms] by blast
  then obtain b t0 t v where "baseline_mv s = Some b" "trend_started_at s = Some t0" "sampled post t v"
    "unat t0 + 120000 \<le> unat t" "b + 200 \<le> v"
    using e(2) unfolding trend_ok_def by blast
  moreover obtain s0 where "stationary_since s = Some s0" "unat s0 + 60000 \<le> unat t0" "sampled post t0 b"
    using e(2) calculation(1,2) unfolding trend_ok_def by auto
  ultimately show ?thesis
    using e(1,3) by blast
qed

theorem charging_needs_parked_rise_witness:
  "\<exists>pre post s0 t1 v1 t2 v2. demo_calls @ [last (demo_round 36 75)] = pre @ post \<and> parked_since s0 post
    \<and> sampled post t1 v1 \<and> sampled post t2 v2
    \<and> unat s0 + 60000 \<le> unat t1 \<and> unat t1 + 120000 \<le> unat t2 \<and> v1 + 200 \<le> v2"
proof -
  have "charge_step (charge_run demo_calls) (last (demo_round 36 75)) =
      (Charging, snd (charge_step (charge_run demo_calls) (last (demo_round 36 75))))"
    by (rule prod_eqI) (simp_all add: demo_charging)
  then show ?thesis
    by (rule charging_needs_parked_rise)
qed

lemma fresh_iff: "fresh a b \<longleftrightarrow> unat a \<le> unat b \<and> unat b \<le> unat a + 5000"
  by (auto simp: fresh_def elapsed_def word_le_nat_alt unat_rust FRESH_def)

lemma expiry_iff:
  assumes "unat a + 120001 < 2 ^ 64"
  shows "unat (saturating_add_duration a (saturating_add FRESH 1)) = unat a + 5001"
    and "unat (saturating_add_duration a (saturating_add TREND 1)) = unat a + 120001"
  using assms by (simp_all add: unat_rust FRESH_def TREND_def)

text \<open>The tick of a charging state, from the times of its evidence.\<close>

lemma charging_tick_iff:
  assumes "is_charging s" and "last_input_at s = Some at" and "at \<le> at'" and "last_rise_at s = Some r"
    and "stationary_since s = Some s0" and "unat s0 + 60000 \<le> unat at" and "charge_source s \<noteq> SourceUnknown"
    and "last_speed_at s = Some sp" and "last_voltage_at s = Some vo" and "source_evidence s = [Some a, Some b]"
  shows "fst (charging_tick s at') = Charging \<longleftrightarrow>
    fresh sp at' \<and> fresh vo at' \<and> fresh a at' \<and> fresh b at' \<and> unat at' \<le> unat r + 120000"
proof -
  let ?u = "expire_trend (s\<lparr>last_input_at := Some at'\<rparr>) at'"
  have le: "unat at \<le> unat at'"
    using assms(3) by (simp add: word_le_nat_alt)
  have stale: "evidence_stale s at' \<longleftrightarrow> \<not> (fresh sp at' \<and> fresh vo at' \<and> fresh a at' \<and> fresh b at')"
    using assms(8-10) by (auto simp: evidence_stale_def stale_def)
  have ready: "charging_ready ?u at' \<longleftrightarrow> fresh sp at' \<and> fresh vo at' \<and> fresh a at' \<and> fresh b at'"
    using assms(7-10)
    by (auto simp: charging_ready_def expire_trend_def reset_trend_def source_evidence_def split: Source.splits)
  have charging: "is_charging ?u \<longleftrightarrow> unat at' \<le> unat r + 120000"
    using assms(1,4) by (auto simp: expire_trend_def reset_trend_def)
  have "fst (charging_result ?u at') = Charging \<longleftrightarrow> is_charging ?u"
    using assms(5,6) le by (simp add: charging_result_def)
  then show ?thesis
    using assms(2,3) stale ready charging by (auto simp: charging_tick_def charging_conclude_def)
qed

text \<open>
  C30. Every report of charging has a deadline, and it is exact.  After a call that reported
  charging, the next tick is known, and without further evidence a tick keeps reporting charging at
  exactly the times before it: not later, and not only up to an earlier time.  (Times are assumed to
  stay two minutes clear of the end of the 64-bit clock.)
\<close>

theorem charging_deadline_exact:
  assumes "charge_step (charge_run cs) c = (Charging, s)" and "call_at c = Some at"
    and "unat at + 120001 < 2 ^ 64"
  shows "\<exists>t. next_tick_at s = Some t
    \<and> (\<forall>at'. at \<le> at' \<longrightarrow> (fst (charging_tick s at') = Charging \<longleftrightarrow> at' < t))"
proof -
  have run: "charge_run (cs @ [c]) = s"
    using assms(1) by (simp add: charge_run_def)
  have rep: "last_input_at s = Some at" "charging_ready s at" "is_charging s"
    "is_some_and (stationary_since s) (\<lambda>start. SETTLE \<le> elapsed start at)"
    using charging_reported [OF assms(1)] assms(2) by auto
  obtain s0 where s0: "stationary_since s = Some s0" "unat s0 + 60000 \<le> unat at"
    using rep(4) by (cases "stationary_since s") auto
  obtain pre post where e: "trend_ok (sampled post) s" "parked_since s0 post" "at = park_end s0 post"
    using charge_run_explained [of "cs @ [c]"] s0(1) rep(1) unfolding run charge_explained_def by auto
  obtain r where r: "last_rise_at s = Some r" "unat r \<le> unat at"
    using e rep(3) sampled_time [of s0 post] unfolding trend_ok_def parked_since_def word_le_nat_alt by blast
  obtain sp vo where sv: "last_speed_at s = Some sp" "last_voltage_at s = Some vo" "fresh sp at" "fresh vo at"
    using rep(2) unfolding charging_ready_def by (cases "last_speed_at s"; cases "last_voltage_at s") auto
  obtain a b where ab: "source_evidence s = [Some a, Some b]" "fresh a at" "fresh b at" "charge_source s \<noteq> SourceUnknown"
    using rep(2) unfolding charging_ready_def source_evidence_def
    by (cases "charge_source s") (auto simp: is_some_and_def split: option.splits)
  define oldest where "oldest = min (min (min sp vo) a) b"
  have old: "unat oldest = min (min (min (unat sp) (unat vo)) (unat a)) (unat b)"
    by (simp add: oldest_def unat_min)
  have le: "unat sp \<le> unat at" "unat vo \<le> unat at" "unat a \<le> unat at" "unat b \<le> unat at"
    using sv(3,4) ab(2,3) by (simp_all add: fresh_iff)
  define t where "t = min (saturating_add_duration oldest (saturating_add FRESH 1)) (saturating_add_duration r (saturating_add TREND 1))"
  have t: "next_tick_at s = Some t"
    using rep(3) sv(1,2) ab(1) r(1) by (simp add: next_tick_at_def t_def oldest_def Let_def)
  have ut: "unat t = min (unat oldest + 5001) (unat r + 120001)"
  proof -
    have "unat oldest \<le> unat at"
      using old le by linarith
    then show ?thesis
      unfolding t_def unat_min using assms(3) r(2) by (simp add: expiry_iff)
  qed
  have "fst (charging_tick s at') = Charging \<longleftrightarrow> at' < t" if "at \<le> at'" for at'
  proof -
    have "unat at \<le> unat at'"
      using that by (simp add: word_le_nat_alt)
    then have f: "fresh x at' \<longleftrightarrow> unat at' < unat x + 5001" if "unat x \<le> unat at" for x
      using that by (auto simp: fresh_iff)
    have "at' < t \<longleftrightarrow> unat at' < unat sp + 5001 \<and> unat at' < unat vo + 5001 \<and> unat at' < unat a + 5001
        \<and> unat at' < unat b + 5001 \<and> unat at' < unat r + 120001"
      unfolding word_less_nat_alt ut old min_add_distrib_left min_less_iff_conj by blast
    then show ?thesis
      unfolding charging_tick_iff [OF rep(3) rep(1) that r(1) s0 ab(4) sv(1,2) ab(1)] f [OF le(1)] f [OF le(2)]
        f [OF le(3)] f [OF le(4)] by linarith
  qed
  then show ?thesis
    using t by blast
qed

theorem charging_deadline_exact_witness:
  "\<exists>s t. charge_step (charge_run demo_calls) (last (demo_round 36 75)) = (Charging, s) \<and> next_tick_at s = Some t
    \<and> (\<forall>at'. demo_at 36 \<le> at' \<longrightarrow> (fst (charging_tick s at') = Charging \<longleftrightarrow> at' < t))"
proof -
  let ?c = "last (demo_round 36 75)"
  let ?s = "snd (charge_step (charge_run demo_calls) ?c)"
  have s: "charge_step (charge_run demo_calls) ?c = (Charging, ?s)"
    by (rule prod_eqI) (simp_all add: demo_charging)
  have "call_at ?c = Some (demo_at 36)" "unat (demo_at 36) + 120001 < 2 ^ 64"
    by (simp_all add: demo_round_def unat_demo_at)
  then show ?thesis
    using charging_deadline_exact [OF s] s by blast
qed

end
