(* ===== verification/Veteran_Frame.thy ===== *)
theory Veteran_Frame
  imports Interfaces Parser
begin

text \<open>
  The Veteran/LeaperKim/NOSFET reassembler of \<^verbatim>\<open>cutout-protocols/src/veteran_frame.rs\<close>:
  length-prefixed \<open>dc 5a 5c\<close> frames, with a CRC32 trailer on the long ones, cut out of a byte
  stream by a four-state parser, and the byte loop of \<^verbatim>\<open>veteran_session.rs\<close> that drives it.
  The checksum is the function \<open>crc32fast::hash\<close> of a package outside the repository: it is the
  argument \<open>crc32\<close> of the definitions that use it.  Shown: the invariant between parser state and
  buffer, that the oversize and structure errors are unreachable, that every reported frame is a
  checksummed contiguous piece of the stream, and that valid frames are reported.
\<close>

section \<open>Frames\<close>

definition MAX_VETERAN_FRAME_LEN :: nat where
  "MAX_VETERAN_FRAME_LEN = 259"

definition VETERAN_MAGIC :: "u8 list" where
  "VETERAN_MAGIC = [0xdc, 0x5a, 0x5c]"

definition VETERAN_SHORT_FRAME_MAX_LEN :: u8 where
  "VETERAN_SHORT_FRAME_MAX_LEN = 38"

definition veteran_declared_size_from_wire :: "u8 \<Rightarrow> nat" where
  "veteran_declared_size_from_wire v = unat v"

definition veteran_complete_frame_size :: "nat \<Rightarrow> nat" where
  "veteran_complete_frame_size declared = declared + 4"

definition veteran_crc_offset :: "nat \<Rightarrow> nat" where
  "veteran_crc_offset declared = declared"

record VeteranFrame =
  veteran_bytes :: "u8 list"

datatype VeteranReassemblyError =
    OversizedFrame (claimed: nat) (max_len: nat)
  | CrcMismatch
  | VeteranInvalidFrame

definition veteran_try_from_slice :: "u8 list \<Rightarrow> VeteranReassemblyError + VeteranFrame" where
  "veteran_try_from_slice bytes =
     (if \<not> starts_with bytes VETERAN_MAGIC then Inl VeteranInvalidFrame
      else (case slice_get bytes 3 of
              None \<Rightarrow> Inl VeteranInvalidFrame
            | Some len \<Rightarrow>
                if length bytes \<noteq> veteran_complete_frame_size (veteran_declared_size_from_wire len)
                then Inl VeteranInvalidFrame
                else if MAX_VETERAN_FRAME_LEN < length bytes then Inl VeteranInvalidFrame
                else Inr \<lparr>veteran_bytes = bytes\<rparr>))"

definition veteran_expected_len :: "u8 list \<Rightarrow> nat option" where
  "veteran_expected_len bytes =
     map_option veteran_complete_frame_size
       (map_option veteran_declared_size_from_wire (cursor_byte bytes 3))"

definition veteran_uses_crc :: "u8 list \<Rightarrow> bool" where
  "veteran_uses_crc bytes =
     is_some_and (cursor_byte bytes 3) (\<lambda>len. VETERAN_SHORT_FRAME_MAX_LEN < len)"

definition veteran_crc_matches :: "(u8 list \<Rightarrow> u32) \<Rightarrow> u8 list \<Rightarrow> bool" where
  "veteran_crc_matches crc32 bytes =
     (case map_option veteran_declared_size_from_wire (cursor_byte bytes 3) of
        None \<Rightarrow> False
      | Some declared_len \<Rightarrow>
          (case cursor_be_u32 bytes (veteran_crc_offset declared_len) of
             None \<Rightarrow> False
           | Some expected_crc \<Rightarrow>
               (case slice_range bytes 0 declared_len of
                  None \<Rightarrow> False
                | Some crc_bytes \<Rightarrow> crc32 crc_bytes = expected_crc)))"

section \<open>The parser\<close>

datatype VeteranFrameParseResult =
    VeteranSeeking
  | VeteranBuffered
  | VeteranComplete VeteranFrame

datatype VeteranFrameParseState =
    SeekingMagic0
  | SeekingMagic1
  | SeekingMagic2
  | Collecting

record VeteranFrameReassembler =
  veteran_buffer :: "u8 list"
  veteran_state :: VeteranFrameParseState

definition veteran_default :: VeteranFrameReassembler where
  "veteran_default = \<lparr>veteran_buffer = [], veteran_state = SeekingMagic0\<rparr>"

definition veteran_reset :: "VeteranFrameReassembler \<Rightarrow> VeteranFrameReassembler" where
  "veteran_reset r = r\<lparr>veteran_buffer := [], veteran_state := SeekingMagic0\<rparr>"

definition veteran_has_pending_bytes :: "VeteranFrameReassembler \<Rightarrow> bool" where
  "veteran_has_pending_bytes r \<longleftrightarrow> veteran_buffer r \<noteq> []"

text \<open>A fallible step on the buffer: the result and the buffer it leaves.\<close>

definition push_candidate_byte :: "u8 list \<Rightarrow> u8 \<Rightarrow> (VeteranReassemblyError + unit) \<times> u8 list" where
  "push_candidate_byte buffer byte =
     (if length buffer < MAX_VETERAN_FRAME_LEN then (Inr (), buffer @ [byte])
      else (Inl (OversizedFrame (length buffer + 1) MAX_VETERAN_FRAME_LEN), []))"

definition veteran_try_finish ::
  "(u8 list \<Rightarrow> u32) \<Rightarrow> u8 list \<Rightarrow> (VeteranReassemblyError + VeteranFrame option) \<times> u8 list" where
  "veteran_try_finish crc32 buffer =
     (case veteran_expected_len buffer of
        None \<Rightarrow> (Inr None, buffer)
      | Some expected_len \<Rightarrow>
          if length buffer < expected_len then (Inr None, buffer)
          else if veteran_uses_crc buffer \<and> \<not> veteran_crc_matches crc32 buffer
          then (Inl CrcMismatch, [])
          else (case veteran_try_from_slice buffer of
                  Inl e \<Rightarrow> (Inl e, buffer)
                | Inr frame \<Rightarrow> (Inr (Some frame), [])))"

text \<open>Pushing a byte and trying to finish, as the two collecting states do.\<close>

definition veteran_collect ::
  "(u8 list \<Rightarrow> u32) \<Rightarrow> u8 \<Rightarrow> u8 list
     \<Rightarrow> (VeteranReassemblyError + VeteranFrameParseState \<times> VeteranFrame option) \<times> u8 list" where
  "veteran_collect crc32 byte buffer =
     (case push_candidate_byte buffer byte of
        (Inl e, buffer') \<Rightarrow> (Inl e, buffer')
      | (Inr _, buffer') \<Rightarrow>
          (case veteran_try_finish crc32 buffer' of
             (Inl e, buffer'') \<Rightarrow> (Inl e, buffer'')
           | (Inr frame, buffer'') \<Rightarrow>
               (Inr (if is_some frame then SeekingMagic0 else Collecting, frame), buffer'')))"

text \<open>Pushing a byte of the magic and moving to the state that expects the next one.\<close>

definition veteran_push_then ::
  "VeteranFrameParseState \<Rightarrow> u8 \<Rightarrow> u8 list
     \<Rightarrow> (VeteranReassemblyError + VeteranFrameParseState \<times> VeteranFrame option) \<times> u8 list" where
  "veteran_push_then state byte buffer =
     (case push_candidate_byte buffer byte of
        (Inl e, buffer') \<Rightarrow> (Inl e, buffer')
      | (Inr _, buffer') \<Rightarrow> (Inr (state, None), buffer'))"

fun veteran_feed_byte ::
  "(u8 list \<Rightarrow> u32) \<Rightarrow> VeteranFrameParseState \<Rightarrow> u8 \<Rightarrow> u8 list
     \<Rightarrow> (VeteranReassemblyError + VeteranFrameParseState \<times> VeteranFrame option) \<times> u8 list" where
  "veteran_feed_byte crc32 SeekingMagic0 byte buffer =
     (if byte = VETERAN_MAGIC ! 0 then veteran_push_then SeekingMagic1 byte []
      else (Inr (SeekingMagic0, None), buffer))"
| "veteran_feed_byte crc32 SeekingMagic1 byte buffer =
     (if byte = 0x5a then veteran_push_then SeekingMagic2 byte buffer
      else if byte = 0xdc then veteran_push_then SeekingMagic1 byte []
      else (Inr (SeekingMagic0, None), []))"
| "veteran_feed_byte crc32 SeekingMagic2 byte buffer =
     (if byte = VETERAN_MAGIC ! 2 then veteran_collect crc32 byte buffer
      else if byte = VETERAN_MAGIC ! 0 then veteran_push_then SeekingMagic1 byte []
      else (Inr (SeekingMagic0, None), []))"
| "veteran_feed_byte crc32 Collecting byte buffer = veteran_collect crc32 byte buffer"

definition veteran_feed_byte_result ::
  "(u8 list \<Rightarrow> u32) \<Rightarrow> VeteranFrameReassembler \<Rightarrow> u8
     \<Rightarrow> (VeteranReassemblyError + VeteranFrameParseResult) \<times> VeteranFrameReassembler" where
  "veteran_feed_byte_result crc32 r byte =
     (case veteran_feed_byte crc32 (veteran_state r) byte (veteran_buffer r) of
        (Inl e, buffer) \<Rightarrow> (Inl e, veteran_reset (r\<lparr>veteran_buffer := buffer\<rparr>))
      | (Inr (state, frame), buffer) \<Rightarrow>
          (Inr (case frame of
                  None \<Rightarrow> if buffer = [] then VeteranSeeking else VeteranBuffered
                | Some f \<Rightarrow> VeteranComplete f),
           r\<lparr>veteran_buffer := buffer, veteran_state := state\<rparr>))"

text \<open>
  The byte loop of \<open>handle_notification\<close>: the completed frames of one notification, in order, up to
  the first parser error, whose diagnostic ends the loop.
\<close>

primrec veteran_scan ::
  "(u8 list \<Rightarrow> u32) \<Rightarrow> VeteranFrameReassembler \<Rightarrow> u8 list
     \<Rightarrow> (VeteranReassemblyError + VeteranFrame) list \<times> VeteranFrameReassembler" where
  "veteran_scan crc32 r [] = ([], r)"
| "veteran_scan crc32 r (byte # bytes) =
     (case veteran_feed_byte_result crc32 r byte of (res, r') \<Rightarrow>
        (case res of
           Inr (VeteranComplete f) \<Rightarrow> (case veteran_scan crc32 r' bytes of (evs, r'') \<Rightarrow> (Inr f # evs, r''))
         | Inr VeteranBuffered \<Rightarrow> veteran_scan crc32 r' bytes
         | Inr VeteranSeeking \<Rightarrow> veteran_scan crc32 r' bytes
         | Inl e \<Rightarrow> ([Inl e], r')))"

text \<open>A sequence of notifications.\<close>

primrec veteran_receive ::
  "(u8 list \<Rightarrow> u32) \<Rightarrow> VeteranFrameReassembler \<Rightarrow> u8 list list
     \<Rightarrow> (VeteranReassemblyError + VeteranFrame) list \<times> VeteranFrameReassembler" where
  "veteran_receive crc32 r [] = ([], r)"
| "veteran_receive crc32 r (n # ns) =
     (case veteran_scan crc32 r n of (evs, r') \<Rightarrow>
        (case veteran_receive crc32 r' ns of (evs', r'') \<Rightarrow> (evs @ evs', r'')))"

text \<open>The reference: the reassembler fed with every byte, errors notwithstanding.\<close>

primrec veteran_ingest ::
  "(u8 list \<Rightarrow> u32) \<Rightarrow> VeteranFrameReassembler \<Rightarrow> u8 list
     \<Rightarrow> (VeteranReassemblyError + VeteranFrame) list \<times> VeteranFrameReassembler" where
  "veteran_ingest crc32 r [] = ([], r)"
| "veteran_ingest crc32 r (byte # bytes) =
     (case veteran_feed_byte_result crc32 r byte of (res, r') \<Rightarrow>
        (case veteran_ingest crc32 r' bytes of (evs, r'') \<Rightarrow>
           (case res of
              Inr (VeteranComplete f) \<Rightarrow> Inr f # evs
            | Inr VeteranBuffered \<Rightarrow> evs
            | Inr VeteranSeeking \<Rightarrow> evs
            | Inl e \<Rightarrow> Inl e # evs, r'')))"

section \<open>Specification\<close>

text \<open>A frame as the wire format describes it.\<close>

definition veteran_valid :: "(u8 list \<Rightarrow> u32) \<Rightarrow> u8 list \<Rightarrow> bool" where
  "veteran_valid crc32 bs \<longleftrightarrow>
     4 \<le> length bs \<and> take 3 bs = [0xdc, 0x5a, 0x5c] \<and> length bs = unat (bs ! 3) + 4
     \<and> (38 < unat (bs ! 3) \<longrightarrow>
          crc32 (take (unat (bs ! 3)) bs) =
          u32_from_be_bytes (bs ! (length bs - 4)) (bs ! (length bs - 3))
            (bs ! (length bs - 2)) (bs ! (length bs - 1)))"

definition veteran_inv :: "VeteranFrameReassembler \<Rightarrow> bool" where
  "veteran_inv r \<longleftrightarrow>
     (case veteran_state r of
        SeekingMagic0 \<Rightarrow> veteran_buffer r = []
      | SeekingMagic1 \<Rightarrow> veteran_buffer r = [0xdc]
      | SeekingMagic2 \<Rightarrow> veteran_buffer r = [0xdc, 0x5a]
      | Collecting \<Rightarrow>
          take 3 (veteran_buffer r) = [0xdc, 0x5a, 0x5c]
          \<and> (3 < length (veteran_buffer r)
               \<longrightarrow> length (veteran_buffer r) < unat (veteran_buffer r ! 3) + 4))"

definition veteran_frames :: "(VeteranReassemblyError + VeteranFrame) list \<Rightarrow> VeteranFrame list" where
  "veteran_frames evs = concat (map (\<lambda>ev. case ev of Inl _ \<Rightarrow> [] | Inr f \<Rightarrow> [f]) evs)"

definition veteran_emit ::
  "(u8 list \<Rightarrow> u32) \<Rightarrow> VeteranFrameReassembler \<Rightarrow> u8 \<Rightarrow> VeteranFrame option \<times> VeteranFrameReassembler" where
  "veteran_emit crc32 r byte =
     (case veteran_feed_byte_result crc32 r byte of
        (Inr (VeteranComplete f), r') \<Rightarrow> (Some f, r')
      | (_, r') \<Rightarrow> (None, r'))"

lemmas veteran_consts = MAX_VETERAN_FRAME_LEN_def VETERAN_MAGIC_def VETERAN_SHORT_FRAME_MAX_LEN_def
  veteran_declared_size_from_wire_def veteran_complete_frame_size_def veteran_crc_offset_def

lemmas veteran_reads = veteran_expected_len_def veteran_uses_crc_def veteran_crc_matches_def
  cursor_byte_def slice_get_def veteran_consts

section \<open>Finishing a candidate\<close>

lemma veteran_u8_le: "unat (v :: u8) \<le> 255"
  using unat_bound [of v] by simp

lemma veteran_crc_matches_iff:
  assumes "3 < length bs" and "length bs = unat (bs ! 3) + 4"
  shows "veteran_crc_matches crc32 bs \<longleftrightarrow>
    crc32 (take (unat (bs ! 3)) bs) =
      u32_from_be_bytes (bs ! (length bs - 4)) (bs ! (length bs - 3))
        (bs ! (length bs - 2)) (bs ! (length bs - 1))"
proof -
  have "unat (bs ! 3) + 4 < 2 ^ 64"
    using veteran_u8_le [of "bs ! 3"] by simp
  then have "cursor_be_u32 bs (unat (bs ! 3)) = Some (u32_from_be_bytes (bs ! (length bs - 4))
      (bs ! (length bs - 3)) (bs ! (length bs - 2)) (bs ! (length bs - 1)))"
    using assms by (simp add: cursor_be_u32_eq add.commute)
  then show ?thesis
    using assms by (auto simp: veteran_reads slice_range_def)
qed

text \<open>
  On a candidate that starts with the magic and is at most one byte too long, finishing waits,
  rejects the checksum, or reports the valid frame; it never meets another error.
\<close>

lemma veteran_try_finish_eq:
  assumes "take 3 bs = [0xdc, 0x5a, 0x5c]" and "3 < length bs \<longrightarrow> length bs \<le> unat (bs ! 3) + 4"
  shows "veteran_try_finish crc32 bs =
    (if length bs \<le> 3 \<or> length bs < unat (bs ! 3) + 4 then (Inr None, bs)
     else if veteran_valid crc32 bs then (Inr (Some \<lparr>veteran_bytes = bs\<rparr>), [])
     else (Inl CrcMismatch, []))"
proof (cases "3 < length bs \<and> unat (bs ! 3) + 4 \<le> length bs")
  case True
  then have len: "3 < length bs" "length bs = unat (bs ! 3) + 4"
    using assms(2) by auto
  have "(38 :: u8) < bs ! 3 \<longleftrightarrow> 38 < unat (bs ! 3)"
    by (simp add: word_less_nat_alt)
  moreover have "veteran_try_from_slice bs = Inr \<lparr>veteran_bytes = bs\<rparr>"
    using len assms(1) veteran_u8_le [of "bs ! 3"]
    by (simp add: veteran_try_from_slice_def starts_with_def slice_get_def veteran_consts
        numeral_3_eq_3)
  ultimately show ?thesis
    using len assms(1) veteran_crc_matches_iff [OF len]
    by (auto simp: veteran_try_finish_def veteran_expected_len_def veteran_uses_crc_def
        cursor_byte_def slice_get_def veteran_consts veteran_valid_def)
qed (auto simp: veteran_try_finish_def veteran_reads)

lemma veteran_candidate_length:
  assumes "3 < length buf \<longrightarrow> length buf < unat ((buf :: u8 list) ! 3) + 4"
  shows "length buf < 259"
  using assms veteran_u8_le [of "buf ! 3"] by (cases "3 < length buf") auto

lemma veteran_collect_eq:
  assumes "take 3 (buf @ [b]) = [0xdc, 0x5a, 0x5c]"
    and "3 < length buf \<longrightarrow> length buf < unat (buf ! 3) + 4"
  shows "veteran_collect crc32 b buf =
    (if length buf \<le> 2 \<or> Suc (length buf) < unat ((buf @ [b]) ! 3) + 4
     then (Inr (Collecting, None), buf @ [b])
     else if veteran_valid crc32 (buf @ [b])
     then (Inr (SeekingMagic0, Some \<lparr>veteran_bytes = buf @ [b]\<rparr>), [])
     else (Inl CrcMismatch, []))"
proof -
  have len: "length buf < 259"
    using assms(2) by (rule veteran_candidate_length)
  have "3 < length (buf @ [b]) \<longrightarrow> length (buf @ [b]) \<le> unat ((buf @ [b]) ! 3) + 4"
    using assms(2) by (auto simp: nth_append less_Suc_eq)
  then show ?thesis
    using len veteran_try_finish_eq [OF assms(1), of crc32]
    by (simp add: veteran_collect_def push_candidate_byte_def veteran_consts)
qed

section \<open>One byte\<close>

text \<open>
  The cases of one byte on a reassembler in its invariant: the candidate waits, is dropped, starts
  anew at the byte, is reported, or fails its checksum.
\<close>

lemma veteran_step_cases:
  assumes "veteran_inv r"
  shows "(\<exists>r'. veteran_feed_byte_result crc32 r b = (Inr VeteranBuffered, r')
            \<and> veteran_buffer r' = veteran_buffer r @ [b] \<and> veteran_inv r')
       \<or> (\<exists>r'. veteran_feed_byte_result crc32 r b = (Inr VeteranSeeking, r')
            \<and> veteran_buffer r' = [] \<and> veteran_inv r')
       \<or> (\<exists>r'. veteran_feed_byte_result crc32 r b = (Inr VeteranBuffered, r')
            \<and> veteran_buffer r' = [b] \<and> veteran_inv r')
       \<or> (\<exists>r'. veteran_feed_byte_result crc32 r b =
              (Inr (VeteranComplete \<lparr>veteran_bytes = veteran_buffer r @ [b]\<rparr>), r')
            \<and> veteran_buffer r' = [] \<and> veteran_inv r' \<and> veteran_valid crc32 (veteran_buffer r @ [b]))
       \<or> (\<exists>r'. veteran_feed_byte_result crc32 r b = (Inl CrcMismatch, r')
            \<and> veteran_buffer r' = [] \<and> veteran_inv r')"
proof (cases "veteran_state r")
  case Collecting
  then have inv: "take 3 (veteran_buffer r) = [0xdc, 0x5a, 0x5c]"
    "3 < length (veteran_buffer r) \<longrightarrow> length (veteran_buffer r) < unat (veteran_buffer r ! 3) + 4"
    using assms by (auto simp: veteran_inv_def)
  then have len: "3 \<le> length (veteran_buffer r)"
    by (metis length_take list.size(3,4) min_def numeral_3_eq_3 One_nat_def Suc_eq_plus1 nat_le_linear)
  then have "take 3 (veteran_buffer r @ [b]) = [0xdc, 0x5a, 0x5c]"
    using inv by simp
  then show ?thesis
    using veteran_collect_eq [OF _ inv(2), of b crc32] Collecting len inv
    by (auto simp: veteran_feed_byte_result_def veteran_inv_def veteran_reset_def)
qed (use assms in \<open>auto simp: veteran_feed_byte_result_def veteran_inv_def veteran_push_then_def
      push_candidate_byte_def veteran_consts veteran_collect_eq\<close>)

lemma veteran_emit_cases:
  assumes "veteran_inv r" and "veteran_emit crc32 r b = (res, r')"
  shows "veteran_inv r'
    \<and> (case res of
         None \<Rightarrow> suffix (veteran_buffer r') (veteran_buffer r @ [b])
       | Some f \<Rightarrow> veteran_valid crc32 (veteran_bytes f) \<and> veteran_bytes f = veteran_buffer r @ [b]
                    \<and> veteran_buffer r' = [])"
  using veteran_step_cases [OF assms(1), of crc32 b] assms(2)
  by (elim disjE exE conjE) (auto simp: veteran_emit_def suffix_def)

interpretation veteran: byte_reassembler "veteran_emit crc32" veteran_buffer veteran_bytes veteran_inv
  "\<lambda>f. veteran_valid crc32 (veteran_bytes f)" for crc32
  using veteran_emit_cases [of _ crc32] by unfold_locales force+

lemma veteran_run_eq:
  "veteran.run crc32 r bs =
     (veteran_frames (fst (veteran_ingest crc32 r bs)), snd (veteran_ingest crc32 r bs))"
  by (induction bs arbitrary: r)
    (auto simp: veteran_frames_def veteran_emit_def
      split: prod.splits sum.splits VeteranFrameParseResult.splits option.splits)

section \<open>Valid frames are reported\<close>

lemma veteran_valid_head:
  assumes "veteran_valid crc32 (p @ b # ys)"
  shows "p = [] \<Longrightarrow> b = 0xdc" and "p = [0xdc] \<Longrightarrow> b = 0x5a" and "p = [0xdc, 0x5a] \<Longrightarrow> b = 0x5c"
  using assms by (auto simp: veteran_valid_def)

lemma veteran_collect_prefix:
  assumes "veteran_valid crc32 (buf @ b # ys)" and "2 \<le> length buf"
    and "3 < length buf \<longrightarrow> length buf < unat (buf ! 3) + 4"
  shows "veteran_collect crc32 b buf =
    (if ys = [] then (Inr (SeekingMagic0, Some \<lparr>veteran_bytes = buf @ [b]\<rparr>), [])
     else (Inr (Collecting, None), buf @ [b]))"
proof -
  have v: "take 3 (buf @ b # ys) = [0xdc, 0x5a, 0x5c]" "4 \<le> length (buf @ b # ys)"
    "length (buf @ b # ys) = unat ((buf @ b # ys) ! 3) + 4"
    using assms(1) by (simp_all add: veteran_valid_def)
  have split: "buf @ b # ys = (buf @ [b]) @ ys"
    by simp
  have hd: "take 3 (buf @ [b]) = [0xdc, 0x5a, 0x5c]"
    using v(1) assms(2) by (cases "length buf = 2") (auto simp: take_append)
  have nth: "(buf @ b # ys) ! 3 = (buf @ [b]) ! 3" if "2 < length buf"
    using that unfolding split by (subst nth_append) simp
  show ?thesis
  proof (cases "ys = []")
    case True
    then show ?thesis
      using veteran_collect_eq [OF hd assms(3), of crc32] assms(1) v by simp
  next
    case False
    then have "length buf \<le> 2 \<or> Suc (length buf) < unat ((buf @ [b]) ! 3) + 4"
      using v(3) nth by (cases ys) auto
    then show ?thesis
      using veteran_collect_eq [OF hd assms(3), of crc32] False by simp
  qed
qed

lemma veteran_feed_prefix:
  assumes "veteran_inv r" and "veteran_valid crc32 (veteran_buffer r @ b # ys)"
  shows "veteran_feed_byte_result crc32 r b =
    (if ys = []
     then (Inr (VeteranComplete \<lparr>veteran_bytes = veteran_buffer r @ [b]\<rparr>),
           r\<lparr>veteran_buffer := [], veteran_state := SeekingMagic0\<rparr>)
     else (Inr VeteranBuffered,
           r\<lparr>veteran_buffer := veteran_buffer r @ [b],
             veteran_state := (if length (veteran_buffer r) = 0 then SeekingMagic1
                               else if length (veteran_buffer r) = 1 then SeekingMagic2
                               else Collecting)\<rparr>))"
proof (cases "veteran_state r")
  case Collecting
  then have inv: "take 3 (veteran_buffer r) = [0xdc, 0x5a, 0x5c]"
    "3 < length (veteran_buffer r) \<longrightarrow> length (veteran_buffer r) < unat (veteran_buffer r ! 3) + 4"
    using assms by (auto simp: veteran_inv_def)
  then have len: "3 \<le> length (veteran_buffer r)"
    by (metis length_take list.size(3,4) min_def numeral_3_eq_3 One_nat_def Suc_eq_plus1 nat_le_linear)
  then show ?thesis
    using veteran_collect_prefix [OF assms(2) _ inv(2)] Collecting
    by (auto simp: veteran_feed_byte_result_def)
next
  case SeekingMagic2
  then have buf: "veteran_buffer r = [0xdc, 0x5a]"
    using assms(1) by (simp add: veteran_inv_def)
  then show ?thesis
    using veteran_collect_prefix [OF assms(2)] SeekingMagic2 veteran_valid_head [OF assms(2)]
    by (auto simp: veteran_feed_byte_result_def VETERAN_MAGIC_def)
qed (use assms veteran_valid_head [OF assms(2)] in
    \<open>auto simp: veteran_feed_byte_result_def veteran_inv_def veteran_push_then_def
      push_candidate_byte_def veteran_consts veteran_valid_def\<close>)

lemma veteran_ingest_prefix:
  assumes "veteran_inv r" and "veteran_valid crc32 (veteran_buffer r @ xs)" and "xs \<noteq> []"
  shows "veteran_ingest crc32 r xs =
    ([Inr \<lparr>veteran_bytes = veteran_buffer r @ xs\<rparr>],
     r\<lparr>veteran_buffer := [], veteran_state := SeekingMagic0\<rparr>)"
  using assms
proof (induction xs arbitrary: r)
  case (Cons b ys)
  note st = veteran_feed_prefix [OF Cons.prems(1,2)]
  show ?case
  proof (cases "ys = []")
    case False
    let ?r = "snd (veteran_feed_byte_result crc32 r b)"
    have "veteran_inv ?r"
      using veteran_step_cases [OF Cons.prems(1), of crc32 b] by (elim disjE exE conjE) auto
    moreover have "veteran_buffer ?r = veteran_buffer r @ [b]"
      using st False by simp
    ultimately have "veteran_ingest crc32 ?r ys =
        ([Inr \<lparr>veteran_bytes = veteran_buffer r @ b # ys\<rparr>],
         ?r\<lparr>veteran_buffer := [], veteran_state := SeekingMagic0\<rparr>)"
      using Cons.IH [of ?r] Cons.prems(2) False by simp
    then show ?thesis
      using st False by simp
  qed (use st in simp)
qed simp

section \<open>Notifications\<close>

text \<open>A notification is read up to its first error.\<close>

lemma veteran_scan_cut:
  "veteran_inv r \<Longrightarrow>
     \<exists>k. veteran_scan crc32 r bs = veteran_ingest crc32 r (take k bs)
       \<and> (k < length bs \<longrightarrow> veteran_buffer (snd (veteran_scan crc32 r bs)) = [])"
proof (induction bs arbitrary: r)
  case (Cons b bs)
  obtain res r' where st: "veteran_feed_byte_result crc32 r b = (res, r')"
    by fastforce
  have inv: "veteran_inv r'" and clear: "\<And>e. res = Inl e \<Longrightarrow> veteran_buffer r' = []"
    using veteran_step_cases [OF Cons.prems, of crc32 b] st by (elim disjE exE conjE; simp)+
  show ?case
  proof (cases res)
    case (Inl e)
    then show ?thesis
      using st clear by (auto intro!: exI [of _ 1])
  next
    case (Inr q)
    obtain k where k: "veteran_scan crc32 r' bs = veteran_ingest crc32 r' (take k bs)"
      "k < length bs \<longrightarrow> veteran_buffer (snd (veteran_scan crc32 r' bs)) = []"
      using Cons.IH [OF inv] by blast
    then show ?thesis
      using st Inr by (intro exI [of _ "Suc k"]) (auto split: VeteranFrameParseResult.splits prod.splits)
  qed
qed simp

lemma veteran_scan_whole:
  assumes "list_all (\<lambda>ev. case ev of Inl _ \<Rightarrow> False | Inr _ \<Rightarrow> True) (fst (veteran_ingest crc32 r bs))"
  shows "veteran_scan crc32 r bs = veteran_ingest crc32 r bs"
  using assms
proof (induction bs arbitrary: r)
  case (Cons b bs)
  obtain res r' where st: "veteran_feed_byte_result crc32 r b = (res, r')"
    by fastforce
  show ?case
  proof (cases res)
    case (Inl e)
    then show ?thesis
      using Cons.prems st by (auto split: prod.splits)
  next
    case (Inr q)
    then show ?thesis
      using Cons st by (cases q) (auto split: prod.splits)
  qed
qed simp

lemma veteran_scan_sound:
  assumes "veteran_inv r"
  shows "embedded (map veteran_bytes (veteran_frames (fst (veteran_scan crc32 r bs))))
      (veteran_buffer (snd (veteran_scan crc32 r bs))) (veteran_buffer r @ bs)
    \<and> veteran_inv (snd (veteran_scan crc32 r bs))
    \<and> (\<forall>f \<in> set (veteran_frames (fst (veteran_scan crc32 r bs))). veteran_valid crc32 (veteran_bytes f))"
proof -
  obtain k where k: "veteran_scan crc32 r bs = veteran_ingest crc32 r (take k bs)"
    "k < length bs \<longrightarrow> veteran_buffer (snd (veteran_scan crc32 r bs)) = []"
    using veteran_scan_cut [OF assms] by blast
  then show ?thesis
    using veteran.run_cut_embedded [OF assms, of k bs crc32] veteran.run_inv [OF assms, of crc32 "take k bs"]
      veteran.run_valid [OF assms, of _ crc32 "take k bs"]
    by (simp add: veteran_run_eq)
qed

lemma veteran_frames_append: "veteran_frames (xs @ ys) = veteran_frames xs @ veteran_frames ys"
  by (simp add: veteran_frames_def)

lemma veteran_receive_sound:
  "veteran_inv r \<Longrightarrow>
     embedded (map veteran_bytes (veteran_frames (fst (veteran_receive crc32 r ns))))
       (veteran_buffer (snd (veteran_receive crc32 r ns))) (veteran_buffer r @ concat ns)
     \<and> (\<forall>f \<in> set (veteran_frames (fst (veteran_receive crc32 r ns))). veteran_valid crc32 (veteran_bytes f))"
proof (induction ns arbitrary: r)
  case (Cons n ns)
  obtain evs r' where st: "veteran_scan crc32 r n = (evs, r')"
    by fastforce
  have scan: "embedded (map veteran_bytes (veteran_frames evs)) (veteran_buffer r') (veteran_buffer r @ n)"
    "veteran_inv r'" "\<forall>f \<in> set (veteran_frames evs). veteran_valid crc32 (veteran_bytes f)"
    using veteran_scan_sound [OF Cons.prems, of crc32 n] st by simp_all
  have rest: "embedded (map veteran_bytes (veteran_frames (fst (veteran_receive crc32 r' ns))))
      (veteran_buffer (snd (veteran_receive crc32 r' ns))) (veteran_buffer r' @ concat ns)"
    "\<forall>f \<in> set (veteran_frames (fst (veteran_receive crc32 r' ns))). veteran_valid crc32 (veteran_bytes f)"
    using Cons.IH [OF scan(2)] by simp_all
  show ?case
    using embedded_join [OF scan(1) rest(1)] scan(3) rest(2) st
    by (auto simp: veteran_frames_append split: prod.splits)
qed (simp add: veteran_frames_def)

section \<open>Properties\<close>

text \<open>
  C29. Whatever notifications a wheel sends and whatever the checksum function is, every Veteran
  frame that is reported has the magic, the length it declares and, when it declares more than 38
  bytes, the CRC32 of its body as trailer; the reported frames are contiguous pieces of the stream of
  notifications, in order and without overlap, and the retained candidate is the end of the stream or
  empty.
\<close>

theorem veteran_stream_sound:
  "embedded (map veteran_bytes (veteran_frames (fst (veteran_receive crc32 veteran_default ns))))
     (veteran_buffer (snd (veteran_receive crc32 veteran_default ns))) (concat ns)
   \<and> list_all (\<lambda>f. veteran_valid crc32 (veteran_bytes f))
       (veteran_frames (fst (veteran_receive crc32 veteran_default ns)))"
proof -
  have inv: "veteran_inv veteran_default"
    by (simp add: veteran_inv_def veteran_default_def)
  show ?thesis
    using veteran_receive_sound [OF inv, of crc32 ns] by (simp add: veteran_default_def list_all_iff)
qed

text \<open>
  From a fresh reassembler no byte stream reaches the oversize or the structural error: the only
  error ever raised is a checksum mismatch, the candidate never exceeds 258 of the 259 bytes of the
  buffer, and a buffer is pending exactly when the parser is past the first magic byte.
\<close>

lemma veteran_only_crc_errors:
  "list_all (\<lambda>ev. case ev of Inl e \<Rightarrow> e = CrcMismatch | Inr _ \<Rightarrow> True)
     (fst (veteran_ingest crc32 veteran_default bs))
   \<and> length (veteran_buffer (snd (veteran_ingest crc32 veteran_default bs))) < MAX_VETERAN_FRAME_LEN
   \<and> (veteran_has_pending_bytes (snd (veteran_ingest crc32 veteran_default bs))
      \<longleftrightarrow> veteran_state (snd (veteran_ingest crc32 veteran_default bs)) \<noteq> SeekingMagic0)"
proof -
  have "list_all (\<lambda>ev. case ev of Inl e \<Rightarrow> e = CrcMismatch | Inr _ \<Rightarrow> True)
      (fst (veteran_ingest crc32 r bs)) \<and> veteran_inv (snd (veteran_ingest crc32 r bs))"
    if "veteran_inv r" for r
    using that
  proof (induction bs arbitrary: r)
    case (Cons b bs)
    show ?case
      using veteran_step_cases [OF Cons.prems, of crc32 b]
      by (elim disjE exE conjE) (use Cons.IH in \<open>force split: prod.splits\<close>)+
  qed simp
  moreover have "veteran_inv veteran_default"
    by (simp add: veteran_inv_def veteran_default_def)
  moreover have "length (veteran_buffer r) < MAX_VETERAN_FRAME_LEN
      \<and> (veteran_has_pending_bytes r \<longleftrightarrow> veteran_state r \<noteq> SeekingMagic0)" if "veteran_inv r" for r
    using that veteran_candidate_length [of "veteran_buffer r"]
    by (auto simp: veteran_inv_def veteran_has_pending_bytes_def veteran_consts
        split: VeteranFrameParseState.splits)
  ultimately show ?thesis
    by blast
qed

text \<open>
  Round trip: a valid Veteran frame fed byte by byte to a reassembler that is between frames is
  reported, unchanged and alone, and the reassembler is between frames again.
\<close>

lemma veteran_valid_frame_reported:
  assumes "veteran_valid crc32 bs" and "veteran_state r = SeekingMagic0" and "veteran_buffer r = []"
  shows "veteran_scan crc32 r bs = ([Inr \<lparr>veteran_bytes = bs\<rparr>], r)"
proof -
  have "veteran_inv r" and "bs \<noteq> []"
    using assms by (auto simp: veteran_inv_def veteran_valid_def)
  then show ?thesis
    using veteran_ingest_prefix [of r crc32 bs] veteran_scan_whole [of crc32 r bs] assms by simp
qed

lemma veteran_valid_frame_reported_example:
  "veteran_scan (\<lambda>bs. of_nat (length bs)) veteran_default
     ([0xdc, 0x5a, 0x5c, 39] @ replicate 35 7 @ [0, 0, 0, 39]) =
   ([Inr \<lparr>veteran_bytes = [0xdc, 0x5a, 0x5c, 39] @ replicate 35 7 @ [0, 0, 0, 39]\<rparr>],
    veteran_default)"
  by (rule veteran_valid_frame_reported)
    (simp_all add: veteran_valid_def veteran_default_def u32_from_be_bytes_def nth_append)

end
