(* ===== verification/Vesc_Frame.thy ===== *)
theory Vesc_Frame
  imports Prelude "HOL-Library.Sublist"
begin

text \<open>
  The VESC UART framing of \<^verbatim>\<open>cutout-protocols/src/vesc_codec.rs\<close>: short and long frames with a
  CRC16 trailer, the frame encoders, and the bounded stream decoder with its read and write
  positions.  Two functions are arguments of the definitions that use them: \<open>crc16\<close>, the XMODEM
  checksum of the external \<open>crc\<close> package, and \<open>decode\<close>, the reply decoder \<open>decode_frame\<close>, whose
  replies come from the external \<open>vesc\<close> package; the stream decoder uses nothing of it but its
  result.  Shown: that the positions implement a scanner over the pending bytes, that encoded
  frames are recognised, that fragmented frames are decoded when their last piece arrives, and how
  a full buffer blocks the decoder.
\<close>

section \<open>Frame boundaries\<close>

definition VESC_MAX_FRAME_LEN :: nat where
  "VESC_MAX_FRAME_LEN = 1024"

definition VESC_MAX_STREAM_REPLIES :: nat where
  "VESC_MAX_STREAM_REPLIES = 4"

definition VESC_FRAME_START_SHORT :: u8 where
  "VESC_FRAME_START_SHORT = 2"

definition VESC_FRAME_START_LONG :: u8 where
  "VESC_FRAME_START_LONG = 3"

definition VESC_FRAME_END :: u8 where
  "VESC_FRAME_END = 3"

datatype VescCodecError =
    EncodedFrameTooLong
  | EncodeFailed
  | DecodeFailed
  | UnsupportedReply

text \<open>The start and length of the payload a frame header declares; \<open>None\<close> while it is incomplete.\<close>

definition vesc_header :: "u8 list \<Rightarrow> VescCodecError + (nat \<times> nat) option" where
  "vesc_header bytes =
     (case slice_get bytes 0 of
        None \<Rightarrow> Inr None
      | Some start \<Rightarrow>
          if start = VESC_FRAME_START_SHORT then
            (case slice_get bytes 1 of
               None \<Rightarrow> Inr None
             | Some len \<Rightarrow> Inr (Some (2, unat len)))
          else if start = VESC_FRAME_START_LONG then
            (case slice_range bytes 1 3 of
               Some [b0, b1] \<Rightarrow> Inr (Some (3, unat (u16_from_be_bytes b0 b1)))
             | _ \<Rightarrow> Inr None)
          else Inl DecodeFailed)"

definition frame_parts ::
  "(u8 list \<Rightarrow> u16) \<Rightarrow> u8 list \<Rightarrow> VescCodecError + (nat \<times> nat \<times> nat) option" where
  "frame_parts crc16 bytes =
     (case vesc_header bytes of
        Inl e \<Rightarrow> Inl e
      | Inr None \<Rightarrow> Inr None
      | Inr (Some (payload_start, payload_len)) \<Rightarrow>
          (let checksum_start = payload_start + payload_len;
               total_len = checksum_start + 3
           in if VESC_MAX_FRAME_LEN < total_len then Inl DecodeFailed
              else if length bytes < total_len then Inr None
              else if slice_get bytes (total_len - 1) \<noteq> Some VESC_FRAME_END then Inl DecodeFailed
              else (case (slice_range bytes checksum_start (checksum_start + 2),
                          slice_range bytes payload_start checksum_start) of
                      (Some [c0, c1], Some payload) \<Rightarrow>
                        if u16_from_be_bytes c0 c1 \<noteq> crc16 payload then Inl DecodeFailed
                        else Inr (Some (payload_start, payload_len, total_len))
                    | _ \<Rightarrow> Inl DecodeFailed)))"

definition frame_len :: "(u8 list \<Rightarrow> u16) \<Rightarrow> u8 list \<Rightarrow> VescCodecError + nat option" where
  "frame_len crc16 bytes =
     (case frame_parts crc16 bytes of
        Inl e \<Rightarrow> Inl e
      | Inr parts \<Rightarrow> Inr (map_option (\<lambda>(payload_start, payload_len, len). len) parts))"

definition recoverable_frame_len :: "u8 list \<Rightarrow> nat option" where
  "recoverable_frame_len bytes =
     (case slice_get bytes 0 of
        None \<Rightarrow> None
      | Some start \<Rightarrow>
          (case (if start = VESC_FRAME_START_SHORT then
                   (case slice_get bytes 1 of None \<Rightarrow> None | Some len \<Rightarrow> Some (2, unat len))
                 else if start = VESC_FRAME_START_LONG then
                   (case slice_range bytes 1 3 of
                      Some [b0, b1] \<Rightarrow> Some (3, unat (u16_from_be_bytes b0 b1))
                    | _ \<Rightarrow> None)
                 else None) of
             None \<Rightarrow> None
           | Some (header_len, payload_len) \<Rightarrow>
               (let total_len = header_len + payload_len + 3
                in if total_len \<le> VESC_MAX_FRAME_LEN \<and> total_len \<le> length bytes
                      \<and> slice_get bytes (total_len - 1) = Some VESC_FRAME_END
                   then Some total_len else None)))"

section \<open>Encoders\<close>

definition MAX_TRANSPORT_WRITE_LEN :: nat where
  "MAX_TRANSPORT_WRITE_LEN = 512"

definition write_payload_try_from_slice :: "u8 list \<Rightarrow> u8 list option" where
  "write_payload_try_from_slice bytes =
     (if MAX_TRANSPORT_WRITE_LEN < length bytes then None else Some bytes)"

definition encode_raw_command :: "(u8 list \<Rightarrow> u16) \<Rightarrow> u8 \<Rightarrow> u8 list" where
  "encode_raw_command crc16 command_id =
     [VESC_FRAME_START_SHORT, 1, command_id] @ u16_to_be_bytes (crc16 [command_id]) @ [VESC_FRAME_END]"

definition encode_settings_payload :: "(u8 list \<Rightarrow> u16) \<Rightarrow> u8 list \<Rightarrow> u8 list option" where
  "encode_settings_payload crc16 payload =
     (if payload = [] \<or> MAX_TRANSPORT_WRITE_LEN - 7 < length payload then None
      else
        (let header = (if length payload < 256 then Some [2, of_nat (length payload)]
                       else if length payload < 65536
                       then Some ([3] @ u16_to_be_bytes (of_nat (length payload)))
                       else None)
         in case header of
              None \<Rightarrow> None
            | Some h \<Rightarrow>
                (let frame = h @ payload @ u16_to_be_bytes (crc16 payload) @ [3]
                 in if VESC_MAX_FRAME_LEN < length frame then None
                    else write_payload_try_from_slice frame)))"

section \<open>The stream decoder\<close>

record VescReadOnlyStreamDecoder =
  vesc_buffer :: "u8 list"
  read_position :: nat
  write_position :: nat

datatype 'reply VescReadOnlyStreamResult =
    StreamBuffered
  | StreamReplies (replies: "'reply list") (malformed_frames: bool)

definition vesc_decoder_new :: VescReadOnlyStreamDecoder where
  "vesc_decoder_new =
     \<lparr>vesc_buffer = replicate VESC_MAX_FRAME_LEN 0, read_position = 0, write_position = 0\<rparr>"

definition vesc_compact :: "VescReadOnlyStreamDecoder \<Rightarrow> VescReadOnlyStreamDecoder" where
  "vesc_compact d =
     (if read_position d = 0 then d
      else (let kept = take (write_position d - read_position d) (drop (read_position d) (vesc_buffer d))
            in d\<lparr>vesc_buffer := kept @ drop (length kept) (vesc_buffer d),
                 write_position := write_position d - read_position d,
                 read_position := 0\<rparr>))"

text \<open>The scan loop, from the read position to the write position.\<close>

function vesc_scan_buffer ::
  "(u8 list \<Rightarrow> u16) \<Rightarrow> (u8 list \<Rightarrow> VescCodecError + 'reply) \<Rightarrow> VescReadOnlyStreamDecoder
     \<Rightarrow> 'reply list \<Rightarrow> bool
     \<Rightarrow> (VescCodecError + 'reply list \<times> bool) \<times> VescReadOnlyStreamDecoder" where
  "vesc_scan_buffer crc16 decode d reps saw_invalid =
     (if read_position d < write_position d then
        (case slice_range (vesc_buffer d) (read_position d) (write_position d) of
           None \<Rightarrow> (Inl DecodeFailed, d)
         | Some frame \<Rightarrow>
             (case frame_len crc16 frame of
                Inr (Some len) \<Rightarrow>
                  (case slice_range frame 0 len of
                     None \<Rightarrow> (Inl DecodeFailed, d)
                   | Some whole \<Rightarrow>
                       if length reps = VESC_MAX_STREAM_REPLIES then (Inr (reps, saw_invalid), d)
                       else (case decode whole of
                               Inr reply \<Rightarrow>
                                 vesc_scan_buffer crc16 decode
                                   (d\<lparr>read_position := read_position d + len\<rparr>)
                                   (reps @ [reply]) saw_invalid
                             | Inl _ \<Rightarrow>
                                 vesc_scan_buffer crc16 decode
                                   (d\<lparr>read_position := read_position d + len\<rparr>) reps True))
              | Inr None \<Rightarrow> (Inr (reps, saw_invalid), d)
              | Inl _ \<Rightarrow>
                  vesc_scan_buffer crc16 decode
                    (d\<lparr>read_position :=
                         read_position d + unwrap_or (recoverable_frame_len frame) 1\<rparr>)
                    reps True))
      else (Inr (reps, saw_invalid), d))"
  by pat_completeness auto
termination
proof -
  have len: "0 < len" if "frame_len crc16 frame = Inr (Some len)" for crc16 frame len
    using that by (auto simp: frame_len_def frame_parts_def Let_def
        split: sum.splits option.splits list.splits if_splits)
  have discard: "0 < unwrap_or (recoverable_frame_len frame) 1" for frame
    by (auto simp: recoverable_frame_len_def Let_def split: option.splits)
  show ?thesis
    by (relation "measure (\<lambda>(crc16, decode, d, reps, saw_invalid). write_position d - read_position d)")
      (auto dest!: len intro!: diff_less_mono2 simp: discard [unfolded One_nat_def])
qed

declare vesc_scan_buffer.simps [simp del]

definition feed_result ::
  "(u8 list \<Rightarrow> u16) \<Rightarrow> (u8 list \<Rightarrow> VescCodecError + 'reply) \<Rightarrow> VescReadOnlyStreamDecoder \<Rightarrow> u8 list
     \<Rightarrow> (VescCodecError + 'reply VescReadOnlyStreamResult) \<times> VescReadOnlyStreamDecoder" where
  "feed_result crc16 decode d0 bytes =
     (let d = vesc_compact d0 in
      if length (vesc_buffer d) - write_position d < length bytes then (Inl DecodeFailed, d)
      else
        (let write_end = write_position d + length bytes;
             d' = d\<lparr>vesc_buffer := take (write_position d) (vesc_buffer d) @ bytes
                                   @ drop write_end (vesc_buffer d),
                    write_position := write_end\<rparr>
         in case vesc_scan_buffer crc16 decode d' [] False of
              (Inl e, d'') \<Rightarrow> (Inl e, d'')
            | (Inr (reps, saw_invalid), d'') \<Rightarrow>
                if reps = [] \<and> saw_invalid then (Inl DecodeFailed, d'')
                else (Inr (if reps = [] then StreamBuffered else StreamReplies reps saw_invalid), d'')))"

section \<open>The scanner it implements\<close>

text \<open>The bytes fed and not yet consumed, and what the loop does to them.\<close>

definition vesc_pending :: "VescReadOnlyStreamDecoder \<Rightarrow> u8 list" where
  "vesc_pending d = take (write_position d - read_position d) (drop (read_position d) (vesc_buffer d))"

definition vesc_wf :: "VescReadOnlyStreamDecoder \<Rightarrow> bool" where
  "vesc_wf d \<longleftrightarrow> length (vesc_buffer d) = VESC_MAX_FRAME_LEN \<and> read_position d \<le> write_position d
     \<and> write_position d \<le> VESC_MAX_FRAME_LEN"

function vesc_scan ::
  "(u8 list \<Rightarrow> u16) \<Rightarrow> (u8 list \<Rightarrow> VescCodecError + 'reply) \<Rightarrow> u8 list \<Rightarrow> 'reply list \<Rightarrow> bool
     \<Rightarrow> 'reply list \<times> bool \<times> u8 list" where
  "vesc_scan crc16 decode bs reps saw_invalid =
     (if bs = [] then (reps, saw_invalid, bs)
      else case frame_len crc16 bs of
             Inr (Some len) \<Rightarrow>
               if length reps = VESC_MAX_STREAM_REPLIES \<or> len = 0 then (reps, saw_invalid, bs)
               else (case decode (take len bs) of
                       Inr reply \<Rightarrow> vesc_scan crc16 decode (drop len bs) (reps @ [reply]) saw_invalid
                     | Inl _ \<Rightarrow> vesc_scan crc16 decode (drop len bs) reps True)
           | Inr None \<Rightarrow> (reps, saw_invalid, bs)
           | Inl _ \<Rightarrow>
               vesc_scan crc16 decode (drop (max 1 (unwrap_or (recoverable_frame_len bs) 1)) bs) reps True)"
  by pat_completeness auto
termination
  by (relation "measure (\<lambda>(crc16, decode, bs, reps, saw_invalid). length bs)") auto

declare vesc_scan.simps [simp del]

lemmas vesc_consts = VESC_MAX_FRAME_LEN_def VESC_MAX_STREAM_REPLIES_def VESC_FRAME_START_SHORT_def
  VESC_FRAME_START_LONG_def VESC_FRAME_END_def MAX_TRANSPORT_WRITE_LEN_def

lemma vesc_header_SomeD: "vesc_header bs = Inr (Some (s, n)) \<Longrightarrow> s = 2 \<or> s = 3"
  by (auto simp: vesc_header_def split: option.splits list.splits if_splits)

lemma frame_parts_SomeD:
  assumes "frame_parts crc16 bs = Inr (Some (s, n, len))"
  shows "len = s + n + 3 \<and> len \<le> length bs \<and> len \<le> 1024 \<and> (s = 2 \<or> s = 3)"
proof -
  obtain s' n' where header: "vesc_header bs = Inr (Some (s', n'))"
    using assms by (cases "vesc_header bs") (auto simp: frame_parts_def split: option.splits)
  then show ?thesis
    using assms vesc_header_SomeD [OF header]
    by (simp add: frame_parts_def vesc_consts Let_def split: if_splits option.splits list.splits)
qed

lemma frame_len_SomeD:
  assumes "frame_len crc16 bs = Inr (Some len)"
  shows "5 \<le> len \<and> len \<le> length bs \<and> len \<le> 1024"
proof -
  obtain s n where "frame_parts crc16 bs = Inr (Some (s, n, len))"
    using assms by (auto simp: frame_len_def split: sum.splits)
  then show ?thesis
    using frame_parts_SomeD [of crc16 bs s n len] by auto
qed

lemma recoverable_frame_len_SomeD:
  assumes "recoverable_frame_len bs = Some len"
  shows "5 \<le> len \<and> len \<le> length bs"
  using assms
  by (auto simp: recoverable_frame_len_def vesc_consts Let_def
      split: option.splits list.splits if_splits)

lemma vesc_discard_bounds:
  assumes "bs \<noteq> []"
  shows "1 \<le> unwrap_or (recoverable_frame_len bs) 1 \<and> unwrap_or (recoverable_frame_len bs) 1 \<le> length bs"
  using assms recoverable_frame_len_SomeD [of bs]
  by (cases "recoverable_frame_len bs") (auto simp: Suc_le_eq)

lemma vesc_pending_slice:
  "vesc_wf d \<Longrightarrow> slice_range (vesc_buffer d) (read_position d) (write_position d) = Some (vesc_pending d)"
  by (simp add: vesc_wf_def slice_range_def vesc_pending_def)

lemma vesc_pending_length: "vesc_wf d \<Longrightarrow> length (vesc_pending d) = write_position d - read_position d"
  by (auto simp: vesc_wf_def vesc_pending_def)

lemma vesc_advance:
  assumes "vesc_wf d" and "n \<le> length (vesc_pending d)"
  shows "vesc_wf (d\<lparr>read_position := read_position d + n\<rparr>)"
    and "vesc_pending (d\<lparr>read_position := read_position d + n\<rparr>) = drop n (vesc_pending d)"
  using assms vesc_pending_length [OF assms(1)]
  by (auto simp: vesc_wf_def vesc_pending_def drop_take add.commute)

text \<open>The positional loop is the scanner, and keeps the positions in range.\<close>

lemma vesc_scan_buffer_refines:
  assumes "vesc_wf d"
  shows "\<exists>d'. vesc_scan_buffer crc16 decode d reps saw_invalid =
      (Inr (fst (vesc_scan crc16 decode (vesc_pending d) reps saw_invalid),
            fst (snd (vesc_scan crc16 decode (vesc_pending d) reps saw_invalid))), d')
    \<and> vesc_wf d'
    \<and> vesc_pending d' = snd (snd (vesc_scan crc16 decode (vesc_pending d) reps saw_invalid))"
  using assms
proof (induction crc16 decode d reps saw_invalid rule: vesc_scan_buffer.induct)
  case (1 crc16 decode d reps saw_invalid)
  let ?bs = "vesc_pending d"
  have slice: "slice_range (vesc_buffer d) (read_position d) (write_position d) = Some ?bs"
    using "1.prems" by (rule vesc_pending_slice)
  have len: "length ?bs = write_position d - read_position d"
    using "1.prems" by (rule vesc_pending_length)
  show ?case
  proof (cases "read_position d < write_position d")
    case False
    then have "?bs = []"
      using len by simp
    then show ?thesis
      using False "1.prems" by (simp add: vesc_scan_buffer.simps [of _ _ d] vesc_scan.simps [of _ _ "[]"])
  next
    case True
    then have ne: "?bs \<noteq> []"
      using len by auto
    note unfold = vesc_scan_buffer.simps [of crc16 decode d reps saw_invalid]
      vesc_scan.simps [of crc16 decode ?bs reps saw_invalid]
    show ?thesis
    proof (cases "frame_len crc16 ?bs")
      case (Inl e)
      have b: "1 \<le> unwrap_or (recoverable_frame_len ?bs) 1
          \<and> unwrap_or (recoverable_frame_len ?bs) 1 \<le> length ?bs"
        using ne by (rule vesc_discard_bounds)
      show ?thesis
        using "1.IH"(1) [OF True slice Inl] vesc_advance [OF "1.prems" conjunct2 [OF b]] True slice Inl ne b
        by (simp add: unfold max_def)
    next
      case (Inr parts)
      show ?thesis
      proof (cases parts)
        case None
        then show ?thesis
          using True slice Inr ne "1.prems" by (simp add: unfold)
      next
        case (Some n)
        then have fl: "frame_len crc16 ?bs = Inr (Some n)"
          using Inr by simp
        then have n: "5 \<le> n" "n \<le> length ?bs"
          using frame_len_SomeD by blast+
        have whole: "slice_range ?bs 0 n = Some (take n ?bs)"
          using n by (simp add: slice_range_def)
        note adv = vesc_advance [OF "1.prems" n(2)]
        show ?thesis
        proof (cases "length reps = VESC_MAX_STREAM_REPLIES")
          case True
          then show ?thesis
            using \<open>read_position d < write_position d\<close> slice fl ne whole "1.prems" by (simp add: unfold)
        next
          case False
          show ?thesis
          proof (cases "decode (take n ?bs)")
            case (Inr reply)
            then show ?thesis
              using "1.IH"(3) [OF True slice fl refl whole False Inr] adv False True slice fl ne whole n
              by (simp add: unfold)
          next
            case (Inl e)
            then show ?thesis
              using "1.IH"(2) [OF True slice fl refl whole False Inl] adv False True slice fl ne whole n
              by (simp add: unfold)
          qed
        qed
      qed
    qed
  qed
qed

lemma vesc_compact_wf:
  assumes "vesc_wf d"
  shows "vesc_wf (vesc_compact d)" and "vesc_pending (vesc_compact d) = vesc_pending d"
    and "read_position (vesc_compact d) = 0"
    and "write_position (vesc_compact d) = length (vesc_pending d)"
  using assms vesc_pending_length [OF assms]
  by (auto simp: vesc_compact_def vesc_wf_def vesc_pending_def Let_def)

lemma vesc_append_wf:
  assumes "vesc_wf d" and "read_position d = 0"
    and "length bytes \<le> VESC_MAX_FRAME_LEN - write_position d"
  defines "d' \<equiv> d\<lparr>vesc_buffer := take (write_position d) (vesc_buffer d) @ bytes
                        @ drop (write_position d + length bytes) (vesc_buffer d),
                      write_position := write_position d + length bytes\<rparr>"
  shows "vesc_wf d'" and "vesc_pending d' = vesc_pending d @ bytes"
  using assms by (auto simp: vesc_wf_def vesc_pending_def min_def)

text \<open>The result of a feed, from the pending bytes alone.\<close>

definition vesc_outcome :: "'reply list \<Rightarrow> bool \<Rightarrow> VescCodecError + 'reply VescReadOnlyStreamResult" where
  "vesc_outcome reps saw_invalid =
     (if reps = [] \<and> saw_invalid then Inl DecodeFailed
      else Inr (if reps = [] then StreamBuffered else StreamReplies reps saw_invalid))"

lemma feed_result_rejects:
  assumes "vesc_wf d" and "VESC_MAX_FRAME_LEN < length (vesc_pending d) + length bytes"
  shows "\<exists>d'. feed_result crc16 decode d bytes = (Inl DecodeFailed, d') \<and> vesc_wf d'
    \<and> vesc_pending d' = vesc_pending d"
proof -
  have "length (vesc_buffer (vesc_compact d)) = VESC_MAX_FRAME_LEN"
    using vesc_compact_wf(1) [OF assms(1)] by (simp add: vesc_wf_def)
  moreover have "length (vesc_pending d) \<le> VESC_MAX_FRAME_LEN"
    using assms(1) vesc_pending_length [OF assms(1)] by (auto simp: vesc_wf_def)
  moreover have "VESC_MAX_FRAME_LEN - length (vesc_pending d) < length bytes"
    using assms(2) \<open>length (vesc_pending d) \<le> VESC_MAX_FRAME_LEN\<close> by arith
  ultimately have "feed_result crc16 decode d bytes = (Inl DecodeFailed, vesc_compact d)"
    using vesc_compact_wf(4) [OF assms(1)] by (simp add: feed_result_def Let_def)
  then show ?thesis
    using vesc_compact_wf [OF assms(1)] by simp
qed

lemma feed_result_scans:
  assumes "vesc_wf d" and "length (vesc_pending d) + length bytes \<le> VESC_MAX_FRAME_LEN"
    and "vesc_scan crc16 decode (vesc_pending d @ bytes) [] False = (reps, saw_invalid, rest)"
  shows "\<exists>d'. feed_result crc16 decode d bytes = (vesc_outcome reps saw_invalid, d') \<and> vesc_wf d'
    \<and> vesc_pending d' = rest"
proof -
  let ?c = "vesc_compact d"
  let ?e = "?c\<lparr>vesc_buffer := take (write_position ?c) (vesc_buffer ?c) @ bytes
      @ drop (write_position ?c + length bytes) (vesc_buffer ?c),
      write_position := write_position ?c + length bytes\<rparr>"
  have buf: "length (vesc_buffer ?c) = VESC_MAX_FRAME_LEN"
    using vesc_compact_wf(1) [OF assms(1)] by (simp add: vesc_wf_def)
  have fits: "length bytes \<le> VESC_MAX_FRAME_LEN - write_position ?c"
    using assms(2) vesc_compact_wf(4) [OF assms(1)] by simp
  have e: "vesc_wf ?e" "vesc_pending ?e = vesc_pending d @ bytes"
    using vesc_append_wf [OF vesc_compact_wf(1,3) [OF assms(1)] fits] vesc_compact_wf(2) [OF assms(1)]
    by simp_all
  obtain d' where d': "vesc_scan_buffer crc16 decode ?e [] False = (Inr (reps, saw_invalid), d')"
    "vesc_wf d'" "vesc_pending d' = rest"
    using vesc_scan_buffer_refines [OF e(1), of crc16 decode "[]" False] e(2) assms(3) by auto
  then have "feed_result crc16 decode d bytes = (vesc_outcome reps saw_invalid, d')"
    using fits buf by (simp add: feed_result_def vesc_outcome_def Let_def)
  then show ?thesis
    using d' by simp
qed

lemma vesc_decoder_new_wf: "vesc_wf vesc_decoder_new" "vesc_pending vesc_decoder_new = []"
  by (simp_all add: vesc_wf_def vesc_decoder_new_def vesc_pending_def)

section \<open>Encoded frames\<close>

definition vesc_encoded :: "(u8 list \<Rightarrow> u16) \<Rightarrow> u8 list \<Rightarrow> u8 list" where
  "vesc_encoded crc16 payload =
     (if length payload < 256 then [2, of_nat (length payload)]
      else [3] @ u16_to_be_bytes (of_nat (length payload)))
     @ payload @ u16_to_be_bytes (crc16 payload) @ [3]"

definition vesc_payload_start :: "u8 list \<Rightarrow> nat" where
  "vesc_payload_start payload = (if length payload < 256 then 2 else 3)"

lemma unat_of_nat_u8: "n < 256 \<Longrightarrow> unat (of_nat n :: u8) = n"
  by (simp add: unsigned_of_nat take_bit_nat_eq_self)

lemma unat_of_nat_u16: "n < 65536 \<Longrightarrow> unat (of_nat n :: u16) = n"
  by (simp add: unsigned_of_nat take_bit_nat_eq_self)

lemma length_vesc_encoded:
  "length (vesc_encoded crc16 payload) = vesc_payload_start payload + length payload + 3"
  by (simp add: vesc_encoded_def vesc_payload_start_def u16_to_be_bytes_def)

lemma encode_settings_payload_eq:
  assumes "payload \<noteq> []" and "length payload \<le> 505"
  shows "encode_settings_payload crc16 payload = Some (vesc_encoded crc16 payload)"
  using assms
  by (auto simp: encode_settings_payload_def vesc_encoded_def vesc_consts write_payload_try_from_slice_def
      u16_to_be_bytes_def Let_def)

text \<open>The header of an encoded frame declares its payload as soon as it is complete.\<close>

lemma vesc_header_encoded:
  assumes "length payload < 65536" and "prefix p (vesc_encoded crc16 payload)"
  shows "vesc_header p = Inr (if length p < vesc_payload_start payload then None
    else Some (vesc_payload_start payload, length payload))"
proof -
  let ?f = "vesc_encoded crc16 payload"
  have nth: "p ! i = ?f ! i" if "i < length p" for i
    using assms(2) that by (auto simp: prefix_def nth_append)
  show ?thesis
  proof (cases "length payload < 256")
    case True
    have "?f ! 0 = 2" "?f ! 1 = of_nat (length payload)"
      using True by (simp_all add: vesc_encoded_def)
    moreover consider "p = []" | x where "p = [x]" | x y q where "p = x # y # q"
      by (cases p; cases "tl p") auto
    ultimately show ?thesis
      using True nth [of 0] nth [of 1]
      by cases (auto simp: vesc_header_def slice_get_def vesc_consts vesc_payload_start_def unat_of_nat_u8)
  next
    case False
    have f: "?f ! 0 = 3" "?f ! 1 = ucast (drop_bit 8 (of_nat (length payload) :: u16))"
      "?f ! 2 = ucast (of_nat (length payload) :: u16)"
      using False by (simp_all add: vesc_encoded_def u16_to_be_bytes_def)
    have "take 2 (drop 1 p) = [p ! 1, p ! 2]" if "3 \<le> length p"
      using that by (cases p; cases "tl p"; cases "tl (tl p)") (auto simp: numeral_2_eq_2)
    then have "vesc_header p = Inr (if length p < 3 then None
        else Some (3, unat (u16_from_be_bytes (p ! 1) (p ! 2))))"
      using nth [of 0] f(1)
      by (auto simp: vesc_header_def slice_get_def slice_range_def vesc_consts)
    then show ?thesis
      using False f nth [of 1] nth [of 2] assms(1)
      by (auto simp: vesc_payload_start_def u16_be_roundtrip unat_of_nat_u16)
  qed
qed

lemma frame_parts_prefix:
  assumes "strict_prefix p (vesc_encoded crc16 payload)" and "length (vesc_encoded crc16 payload) \<le> 1024"
  shows "frame_parts crc16 p = Inr None"
proof -
  have "length p < length (vesc_encoded crc16 payload)"
    using assms(1) by (rule prefix_length_less)
  moreover have "length payload < 65536"
    using assms(2) by (simp add: length_vesc_encoded vesc_payload_start_def split: if_splits)
  ultimately show ?thesis
    using vesc_header_encoded [of payload p crc16] assms
    by (auto simp: frame_parts_def length_vesc_encoded vesc_consts Let_def)
qed

lemma vesc_encoded_fields:
  "take (length payload) (drop (vesc_payload_start payload) (vesc_encoded crc16 payload @ rest)) = payload"
  "take 2 (drop (vesc_payload_start payload + length payload) (vesc_encoded crc16 payload @ rest)) =
     u16_to_be_bytes (crc16 payload)"
  "(vesc_encoded crc16 payload @ rest) ! (vesc_payload_start payload + length payload + 2) = 3"
  by (auto simp: vesc_encoded_def vesc_payload_start_def u16_to_be_bytes_def nth_append numeral_2_eq_2)

lemma frame_parts_encoded:
  assumes "length (vesc_encoded crc16 payload) \<le> 1024"
  shows "frame_parts crc16 (vesc_encoded crc16 payload @ rest) =
    Inr (Some (vesc_payload_start payload, length payload, length (vesc_encoded crc16 payload)))"
proof -
  let ?f = "vesc_encoded crc16 payload @ rest" and ?s = "vesc_payload_start payload"
  have small: "length payload < 65536"
    using assms by (simp add: length_vesc_encoded vesc_payload_start_def split: if_splits)
  have start: "2 \<le> ?s"
    by (simp add: vesc_payload_start_def)
  have "vesc_header (vesc_encoded crc16 payload) = Inr (Some (?s, length payload))"
    using vesc_header_encoded [OF small, of "vesc_encoded crc16 payload" crc16]
    by (simp add: length_vesc_encoded)
  moreover have "vesc_header ?f = vesc_header (vesc_encoded crc16 payload)"
    by (simp add: vesc_header_def slice_get_def slice_range_def vesc_encoded_def u16_to_be_bytes_def
        vesc_consts numeral_2_eq_2 nth_append)
  ultimately have hd: "vesc_header ?f = Inr (Some (?s, length payload))"
    by simp
  have "slice_range ?f (?s + length payload) (?s + length payload + 2) = Some (u16_to_be_bytes (crc16 payload))"
    and "slice_range ?f ?s (?s + length payload) = Some payload"
    and "slice_get ?f (?s + length payload + 3 - 1) = Some VESC_FRAME_END"
    using vesc_encoded_fields [where payload = payload and ?crc16.0 = crc16 and rest = rest]
    by (auto simp: slice_range_def slice_get_def length_vesc_encoded vesc_consts)
  then show ?thesis
    using hd assms
    by (simp add: frame_parts_def Let_def length_vesc_encoded vesc_consts u16_to_be_bytes_def
        u16_be_roundtrip)
qed

lemma frame_len_encoded:
  assumes "length (vesc_encoded crc16 payload) \<le> 1024"
  shows "frame_len crc16 (vesc_encoded crc16 payload @ rest) = Inr (Some (length (vesc_encoded crc16 payload)))"
  using frame_parts_encoded [OF assms, of rest] by (simp add: frame_len_def)

lemma vesc_scan_encoded:
  assumes "length (vesc_encoded crc16 payload) \<le> 1024"
    and "decode (vesc_encoded crc16 payload) = Inr reply"
  shows "vesc_scan crc16 decode (vesc_encoded crc16 payload) [] False = ([reply], False, [])"
  using assms frame_len_encoded [OF assms(1), of "[]"]
  by (simp add: vesc_scan.simps [of _ _ "vesc_encoded crc16 payload"] vesc_scan.simps [of _ _ "[]"]
      vesc_consts) (simp add: vesc_encoded_def)

lemma vesc_scan_prefix:
  assumes "strict_prefix p (vesc_encoded crc16 payload)" and "length (vesc_encoded crc16 payload) \<le> 1024"
  shows "vesc_scan crc16 decode p [] False = ([], False, p)"
  using frame_parts_prefix [OF assms] by (simp add: vesc_scan.simps [of _ _ p] frame_len_def)

section \<open>Properties\<close>

text \<open>A feed as a function of the pending bytes alone.\<close>

definition vesc_feed_spec ::
  "(u8 list \<Rightarrow> u16) \<Rightarrow> (u8 list \<Rightarrow> VescCodecError + 'reply) \<Rightarrow> u8 list \<Rightarrow> u8 list
     \<Rightarrow> (VescCodecError + 'reply VescReadOnlyStreamResult) \<times> u8 list" where
  "vesc_feed_spec crc16 decode pending bytes =
     (if VESC_MAX_FRAME_LEN < length pending + length bytes then (Inl DecodeFailed, pending)
      else (case vesc_scan crc16 decode (pending @ bytes) [] False of
              (reps, saw_invalid, rest) \<Rightarrow> (vesc_outcome reps saw_invalid, rest)))"

text \<open>Feeding a list of transport chunks.\<close>

primrec vesc_feeds ::
  "(u8 list \<Rightarrow> u16) \<Rightarrow> (u8 list \<Rightarrow> VescCodecError + 'reply) \<Rightarrow> VescReadOnlyStreamDecoder \<Rightarrow> u8 list list
     \<Rightarrow> (VescCodecError + 'reply VescReadOnlyStreamResult) list \<times> VescReadOnlyStreamDecoder" where
  "vesc_feeds crc16 decode d [] = ([], d)"
| "vesc_feeds crc16 decode d (c # cs) =
     (case feed_result crc16 decode d c of
        (r, d') \<Rightarrow> (case vesc_feeds crc16 decode d' cs of (rs, d'') \<Rightarrow> (r # rs, d'')))"

lemma vesc_scan_suffix: "suffix (snd (snd (vesc_scan crc16 decode bs reps saw_invalid))) bs"
proof (induction crc16 decode bs reps saw_invalid rule: vesc_scan.induct)
  case (1 crc16 decode bs reps saw_invalid)
  have drop: "suffix xs (drop n bs) \<Longrightarrow> suffix xs bs" for xs n
    using suffix_drop suffix_order.trans by blast
  show ?case
    using 1 by (subst vesc_scan.simps) (fastforce split: sum.splits option.splits intro: drop)
qed

lemma vesc_scan_replies_bound:
  "length reps \<le> 4 \<Longrightarrow> length (fst (vesc_scan crc16 decode bs reps saw_invalid)) \<le> 4"
proof (induction crc16 decode bs reps saw_invalid rule: vesc_scan.induct)
  case (1 crc16 decode bs reps saw_invalid)
  then show ?case
    by (subst vesc_scan.simps) (auto simp: vesc_consts split: sum.splits option.splits)
qed

lemma vesc_outcome_replies:
  "vesc_outcome reps saw_invalid = Inr (StreamReplies rs m) \<Longrightarrow> rs = reps \<and> rs \<noteq> [] \<and> m = saw_invalid"
  by (auto simp: vesc_outcome_def split: if_splits)

text \<open>
  C2. The stream decoder implements the scanner over its unconsumed bytes: from a decoder whose
  positions are in range, a feed never fails on a position or a slice; its result and the bytes it
  keeps are those of the specification, which depends only on the bytes not yet consumed; the
  positions stay in range, what is kept is a tail of what was fed, and a reply result holds
  between one and four replies.
\<close>

theorem vesc_feed_refines:
  assumes "vesc_wf d"
  shows "\<exists>r d'. feed_result crc16 decode d bytes = (r, d') \<and> vesc_wf d'
    \<and> vesc_feed_spec crc16 decode (vesc_pending d) bytes = (r, vesc_pending d')
    \<and> (prefix (vesc_pending d') (vesc_pending d) \<or> suffix (vesc_pending d') (vesc_pending d @ bytes))
    \<and> (\<forall>reps m. r = Inr (StreamReplies reps m) \<longrightarrow> reps \<noteq> [] \<and> length reps \<le> 4)"
proof (cases "VESC_MAX_FRAME_LEN < length (vesc_pending d) + length bytes")
  case True
  then show ?thesis
    using feed_result_rejects [OF assms True, of crc16 decode] by (auto simp: vesc_feed_spec_def)
next
  case False
  obtain reps saw_invalid rest
    where sc: "vesc_scan crc16 decode (vesc_pending d @ bytes) [] False = (reps, saw_invalid, rest)"
    by (cases "vesc_scan crc16 decode (vesc_pending d @ bytes) [] False") auto
  have "suffix rest (vesc_pending d @ bytes)" "length reps \<le> 4"
    using vesc_scan_suffix [of crc16 decode "vesc_pending d @ bytes" "[]" False]
      vesc_scan_replies_bound [of "[]" crc16 decode "vesc_pending d @ bytes" False] sc by simp_all
  then show ?thesis
    using feed_result_scans [OF assms _ sc] False sc
    by (auto simp: vesc_feed_spec_def dest: vesc_outcome_replies)
qed

theorem vesc_feed_refines_witness:
  "\<exists>r d'. feed_result (\<lambda>_. 0) (\<lambda>_. Inr ()) vesc_decoder_new [2, 0, 0, 0, 3] = (r, d') \<and> vesc_wf d'"
  using vesc_feed_refines [OF vesc_decoder_new_wf(1), of "\<lambda>_. 0" "\<lambda>_. Inr ()" "[2, 0, 0, 0, 3]"]
  by blast

text \<open>
  Settings frames round trip: the encoder accepts only a non-empty payload that fits a transport
  write; the frame it builds fits one write, and the frame parser recognises it, whatever follows
  it in the stream, and reports the place where the payload is found in it.
\<close>

lemma vesc_settings_roundtrip:
  assumes "encode_settings_payload crc16 payload = Some frame"
  shows "payload \<noteq> [] \<and> length payload \<le> 505 \<and> length frame \<le> 512
      \<and> (\<exists>start. frame_parts crc16 (frame @ rest) = Inr (Some (start, length payload, length frame))
          \<and> slice_range frame start (start + length payload) = Some payload)"
proof -
  have ok: "payload \<noteq> []" "length payload \<le> 505"
    using assms by (auto simp: encode_settings_payload_def vesc_consts split: if_splits)
  then have fr: "frame = vesc_encoded crc16 payload" and "length (vesc_encoded crc16 payload) \<le> 512"
    using assms encode_settings_payload_eq [of payload crc16]
    by (auto simp: length_vesc_encoded vesc_payload_start_def)
  then show ?thesis
    using ok frame_parts_encoded [of crc16 payload rest] vesc_encoded_fields(1) [of payload crc16 "[]"]
    by (auto simp: slice_range_def length_vesc_encoded)
qed

lemma vesc_settings_roundtrip_example:
  "encode_settings_payload (\<lambda>p. of_nat (length p)) [9, 8] = Some [2, 2, 9, 8, 0, 2, 3]
   \<and> (\<exists>start. frame_parts (\<lambda>p. of_nat (length p)) ([2, 2, 9, 8, 0, 2, 3] @ [7]) = Inr (Some (start, 2, 7)))"
proof -
  have "encode_settings_payload (\<lambda>p. of_nat (length p)) [9, 8] = Some [2, 2, 9, 8, 0, 2, 3]"
    by (simp add: encode_settings_payload_eq vesc_encoded_def u16_to_be_bytes_def drop_bit_eq_div)
  then show ?thesis
    using vesc_settings_roundtrip [of "\<lambda>p. of_nat (length p)" "[9, 8]" "[2, 2, 9, 8, 0, 2, 3]" "[7]"]
    by fastforce
qed

lemma vesc_feeds_prefix:
  assumes "vesc_wf d" and "strict_prefix (vesc_pending d @ concat cs) (vesc_encoded crc16 payload)"
    and "length (vesc_encoded crc16 payload) \<le> 1024"
  shows "\<exists>d'. vesc_feeds crc16 decode d cs = (replicate (length cs) (Inr StreamBuffered), d')
    \<and> vesc_wf d' \<and> vesc_pending d' = vesc_pending d @ concat cs"
  using assms
proof (induction cs arbitrary: d)
  case (Cons c cs)
  let ?p = "vesc_pending d @ c"
  have p: "strict_prefix ?p (vesc_encoded crc16 payload)"
    using Cons.prems(2) by (auto simp: strict_prefix_def prefix_def)
  have "length ?p < length (vesc_encoded crc16 payload)"
    using p by (rule prefix_length_less)
  then have fits: "length (vesc_pending d) + length c \<le> VESC_MAX_FRAME_LEN"
    using Cons.prems(3) by (simp add: vesc_consts)
  obtain d' where d': "feed_result crc16 decode d c = (vesc_outcome [] False, d')" "vesc_wf d'"
    "vesc_pending d' = ?p"
    using feed_result_scans [OF Cons.prems(1) fits vesc_scan_prefix [OF p Cons.prems(3)]] by blast
  then show ?case
    using Cons.IH [OF d'(2)] Cons.prems(2,3) by (auto simp: vesc_outcome_def)
qed simp

lemma vesc_feeds_append:
  "vesc_feeds crc16 decode d (xs @ ys) =
     (case vesc_feeds crc16 decode d xs of (rs, d') \<Rightarrow>
        (case vesc_feeds crc16 decode d' ys of (rs', d'') \<Rightarrow> (rs @ rs', d'')))"
  by (induction xs arbitrary: d) (auto split: prod.splits)

text \<open>
  C34. Fragmentation does not lose frames: however a frame of at most 1024 bytes is cut into
  transport chunks, a decoder with nothing pending buffers every chunk but the last without an
  error, reports exactly the one reply when the last chunk arrives, and has nothing pending again.
\<close>

theorem vesc_fragmented_frame_decoded:
  assumes "vesc_wf d" and "vesc_pending d = []"
    and "concat (pieces @ [last_piece]) = vesc_encoded crc16 payload" and "last_piece \<noteq> []"
    and "length (vesc_encoded crc16 payload) \<le> 1024"
    and "decode (vesc_encoded crc16 payload) = Inr reply"
  shows "\<exists>d'. vesc_feeds crc16 decode d (pieces @ [last_piece]) =
      (replicate (length pieces) (Inr StreamBuffered) @ [Inr (StreamReplies [reply] False)], d')
    \<and> vesc_wf d' \<and> vesc_pending d' = []"
proof -
  let ?f = "vesc_encoded crc16 payload"
  have "strict_prefix (vesc_pending d @ concat pieces) ?f"
    using assms(2,4) assms(3) [symmetric] by (simp add: strict_prefix_def)
  note before = vesc_feeds_prefix [OF assms(1) this assms(5), of decode]
  obtain d1 where d1: "vesc_feeds crc16 decode d pieces = (replicate (length pieces) (Inr StreamBuffered), d1)"
    "vesc_wf d1" "vesc_pending d1 @ last_piece = ?f"
    using before assms(2,3) by auto
  have fits: "length (vesc_pending d1) + length last_piece \<le> VESC_MAX_FRAME_LEN"
    using d1(3) assms(5) by (metis VESC_MAX_FRAME_LEN_def length_append)
  obtain d' where "feed_result crc16 decode d1 last_piece = (vesc_outcome [reply] False, d')"
    "vesc_wf d'" "vesc_pending d' = []"
    using feed_result_scans [OF d1(2) fits] vesc_scan_encoded [of crc16 payload decode, OF assms(5,6)] d1(3)
    by metis
  then show ?thesis
    using d1(1) by (simp add: vesc_feeds_append vesc_outcome_def)
qed

theorem vesc_fragmented_frame_decoded_witness:
  "\<exists>d'. vesc_feeds (\<lambda>_. 7) (\<lambda>f. Inr (length f)) vesc_decoder_new ([[2], [1, 5], [0]] @ [[7, 3]]) =
      (replicate 3 (Inr StreamBuffered) @ [Inr (StreamReplies [6] False)], d')
    \<and> vesc_wf d' \<and> vesc_pending d' = []"
proof -
  have f: "vesc_encoded (\<lambda>_. 7) [5] = [2, 1, 5, 0, 7, 3]"
    by (simp add: vesc_encoded_def u16_to_be_bytes_def drop_bit_eq_div)
  show ?thesis
    using vesc_fragmented_frame_decoded [OF vesc_decoder_new_wf,
        of "[[2], [1, 5], [0]]" "[7, 3]" "\<lambda>_. 7" "[5]" "\<lambda>f. Inr (length f)" 6]
    by (simp add: f numeral_3_eq_3 del: vesc_feeds.simps)
qed

text \<open>
  A full buffer blocks the decoder: once it holds an incomplete candidate, every later chunk
  that does not fit beside it is refused with an error, and nothing is ever drained, so the decoder
  does not recover by itself however many such chunks arrive.
\<close>

lemma vesc_full_buffer_blocks:
  assumes "vesc_wf d" and "\<forall>c \<in> set cs. 1024 < length (vesc_pending d) + length c"
  shows "\<exists>d'. vesc_feeds crc16 decode d cs = (replicate (length cs) (Inl DecodeFailed), d')
    \<and> vesc_wf d' \<and> vesc_pending d' = vesc_pending d"
  using assms
proof (induction cs arbitrary: d)
  case (Cons c cs)
  obtain d' where "feed_result crc16 decode d c = (Inl DecodeFailed, d')" "vesc_wf d'"
    "vesc_pending d' = vesc_pending d"
    using feed_result_rejects [OF Cons.prems(1), of c crc16 decode] Cons.prems(2)
    by (auto simp: vesc_consts)
  then show ?case
    using Cons.IH [of d'] Cons.prems(2) by auto
qed simp

lemma vesc_full_buffer_blocks_example:
  "\<exists>d'. vesc_feeds (\<lambda>_. 0) (\<lambda>_. Inr ()) \<lparr>vesc_buffer = [3, 3, 250] @ replicate 1021 0, read_position = 0,
      write_position = 1015\<rparr> [replicate 10 0, replicate 20 1] = (replicate 2 (Inl DecodeFailed), d')
    \<and> vesc_wf d' \<and> length (vesc_pending d') = 1015"
proof -
  let ?d = "\<lparr>vesc_buffer = [3, 3, 250] @ replicate 1021 0, read_position = 0, write_position = 1015\<rparr>"
  have d: "vesc_wf ?d" "length (vesc_pending ?d) = 1015"
    by (simp_all add: vesc_wf_def vesc_pending_def vesc_consts)
  show ?thesis
    using vesc_full_buffer_blocks [OF d(1), of "[replicate 10 0, replicate 20 1]" "\<lambda>_. 0" "\<lambda>_. Inr ()"] d(2)
    by (auto simp: numeral_2_eq_2)
qed

end
