(* ===== verification/Ride_Session.thy ===== *)
theory Ride_Session
  imports Interfaces Core_Units
begin

text \<open>
  The logical ride reducer of \<^verbatim>\<open>cutout-core/src/ride_lifecycle.rs\<close>: one ride at a time, its
  \<open>ActivityKit\<close> projection, the freshness deadline, replacement by another ride, and the durable
  marker that survives a relaunch.  The marker's JSON codec and the textual form of a UUID belong
  to packages outside the repository and are arguments of the definitions that use them.  Shown:
  the invariant of every reachable state, what each requested effect means, that one activity is
  ended before another is started, the exact freshness deadline, and the marker round trip.
\<close>

section \<open>Identities and markers\<close>

definition RIDE_SESSION_STALE_AFTER :: Duration where
  "RIDE_SESSION_STALE_AFTER = 2000"

type_synonym Uuid = u128

record RideSessionIdentity =
  platform_identifier :: rust_str
  ride_session_id :: Uuid

definition RIDE_SESSION_MARKER_VERSION :: u8 where
  "RIDE_SESSION_MARKER_VERSION = 1"

record RideSessionMarker =
  marker_identity :: RideSessionIdentity

record RideSessionMarkerWire =
  wire_version :: u8
  wire_platform_identifier :: rust_str
  wire_session_id :: rust_str

datatype RideSessionMarkerError =
    InvalidEncoding
  | UnsupportedVersion
  | InvalidIdentity

definition marker_encode ::
  "(RideSessionMarkerWire \<Rightarrow> u8 list option) \<Rightarrow> (Uuid \<Rightarrow> rust_str) \<Rightarrow> RideSessionMarker
     \<Rightarrow> RideSessionMarkerError + u8 list" where
  "marker_encode to_vec to_string mk =
     (case to_vec \<lparr>wire_version = RIDE_SESSION_MARKER_VERSION,
                   wire_platform_identifier = platform_identifier (marker_identity mk),
                   wire_session_id = to_string (ride_session_id (marker_identity mk))\<rparr> of
        None \<Rightarrow> Inl InvalidEncoding
      | Some bytes \<Rightarrow> Inr bytes)"

definition marker_decode ::
  "(u8 list \<Rightarrow> RideSessionMarkerWire option) \<Rightarrow> (rust_str \<Rightarrow> Uuid option) \<Rightarrow> u8 list
     \<Rightarrow> RideSessionMarkerError + RideSessionMarker" where
  "marker_decode from_slice parse_str bytes =
     (case from_slice bytes of
        None \<Rightarrow> Inl InvalidEncoding
      | Some wire \<Rightarrow>
          if wire_version wire \<noteq> RIDE_SESSION_MARKER_VERSION then Inl UnsupportedVersion
          else if str_trim (wire_platform_identifier wire) = [] then Inl InvalidIdentity
          else (case parse_str (wire_session_id wire) of
                  None \<Rightarrow> Inl InvalidIdentity
                | Some session_id \<Rightarrow>
                    Inr \<lparr>marker_identity = \<lparr>platform_identifier = wire_platform_identifier wire,
                                            ride_session_id = session_id\<rparr>\<rparr>))"

section \<open>The state\<close>

datatype RideSessionAppPresence = Foreground | Background

datatype RideSessionEndReason =
    UserDisconnect
  | UserStop
  | ReplacedByNewSession
  | EndReconnectExhausted
  | EndAppReset
  | EndUnrecoverableSessionFailure

datatype RideSessionPhase =
    RideIdle
  | RideStarting
  | RideActive
  | RideReconnecting
  | RideStale
  | RideEnding RideSessionEndReason
  | RideEnded RideSessionEndReason

fun phase_is_live :: "RideSessionPhase \<Rightarrow> bool" where
  "phase_is_live RideIdle = False"
| "phase_is_live (RideEnded _) = False"
| "phase_is_live RideStarting = True"
| "phase_is_live RideActive = True"
| "phase_is_live RideReconnecting = True"
| "phase_is_live RideStale = True"
| "phase_is_live (RideEnding _) = True"

fun accepts_updates :: "RideSessionPhase \<Rightarrow> bool" where
  "accepts_updates RideStarting = True"
| "accepts_updates RideActive = True"
| "accepts_updates RideReconnecting = True"
| "accepts_updates RideStale = True"
| "accepts_updates RideIdle = False"
| "accepts_updates (RideEnding _) = False"
| "accepts_updates (RideEnded _) = False"

datatype ActivityProjectionState =
    ActAbsent
  | ActStarting
  | ActActive rust_str
  | ActStale rust_str
  | ActEnding
  | ActEnded
  | ActUnavailable

datatype RideSessionInput =
    Start RideSessionIdentity
  | ActivityStarted RideSessionIdentity rust_str
  | ActivityEnded RideSessionIdentity
  | ActivityUnavailable RideSessionIdentity
  | AppBackgrounded
  | AppForegrounded
  | BluetoothDisconnected MonotonicTimestamp
  | BluetoothConnected
  | TelemetryObserved MonotonicTimestamp
  | FreshnessChecked MonotonicTimestamp
  | UserDisconnected
  | UserStopped
  | ReconnectExhausted
  | AppReset
  | UnrecoverableSessionFailure

datatype RideSessionEffect =
    NoEffect
  | StartActivity RideSessionIdentity
  | UpdateActivity RideSessionIdentity
  | MarkActivityStale RideSessionIdentity
  | EndActivity RideSessionIdentity RideSessionEndReason
  | RequestCaptureFlush RideSessionIdentity

record RideSessionLifecycle =
  ride_phase :: RideSessionPhase
  ride_identity :: "RideSessionIdentity option"
  pending_identity :: "RideSessionIdentity option"
  ride_activity :: ActivityProjectionState
  last_telemetry_at :: "MonotonicTimestamp option"
  app_presence :: RideSessionAppPresence

definition ride_default :: RideSessionLifecycle where
  "ride_default =
     \<lparr>ride_phase = RideIdle, ride_identity = None, pending_identity = None, ride_activity = ActAbsent,
      last_telemetry_at = None, app_presence = Foreground\<rparr>"

type_synonym RideSessionDecision = "RideSessionLifecycle \<times> RideSessionEffect"

section \<open>Operations\<close>

definition ride_marker :: "RideSessionLifecycle \<Rightarrow> RideSessionMarker option" where
  "ride_marker s =
     (if \<not> phase_is_live (ride_phase s) then None
      else map_option (\<lambda>i. \<lparr>marker_identity = i\<rparr>) (ride_identity s))"

definition ride_recover ::
  "RideSessionMarker \<Rightarrow> rust_str option \<Rightarrow> RideSessionAppPresence \<Rightarrow> RideSessionDecision" where
  "ride_recover mk restored presence =
     (if restored = Some (platform_identifier (marker_identity mk))
      then (\<lparr>ride_phase = RideStarting, ride_identity = Some (marker_identity mk),
             pending_identity = None, ride_activity = ActStarting, last_telemetry_at = None,
             app_presence = presence\<rparr>, StartActivity (marker_identity mk))
      else (\<lparr>ride_phase = RideReconnecting, ride_identity = Some (marker_identity mk),
             pending_identity = None, ride_activity = ActUnavailable, last_telemetry_at = None,
             app_presence = presence\<rparr>, NoEffect))"

definition ride_start :: "RideSessionLifecycle \<Rightarrow> RideSessionIdentity \<Rightarrow> RideSessionDecision" where
  "ride_start s i =
     (if ride_identity s = Some i \<and> phase_is_live (ride_phase s) then (s, NoEffect)
      else (case opt_filter (\<lambda>_. phase_is_live (ride_phase s)) (ride_identity s) of
              Some current \<Rightarrow>
                (s\<lparr>ride_phase := RideEnding ReplacedByNewSession, pending_identity := Some i,
                   ride_activity := ActEnding\<rparr>,
                 EndActivity current ReplacedByNewSession)
            | None \<Rightarrow>
                (\<lparr>ride_phase = RideStarting, ride_identity = Some i, pending_identity = None,
                  ride_activity = ActStarting, last_telemetry_at = None,
                  app_presence = app_presence s\<rparr>, StartActivity i)))"

definition activity_started ::
  "RideSessionLifecycle \<Rightarrow> RideSessionIdentity \<Rightarrow> rust_str \<Rightarrow> RideSessionDecision" where
  "activity_started s i activity_id =
     (if ride_identity s \<noteq> Some i \<or> ride_activity s \<noteq> ActStarting
         \<or> \<not> accepts_updates (ride_phase s)
      then (s, NoEffect)
      else (s\<lparr>ride_phase := (if ride_phase s = RideStarting then RideActive else ride_phase s),
              ride_activity := ActActive activity_id\<rparr>, NoEffect))"

definition activity_ended :: "RideSessionLifecycle \<Rightarrow> RideSessionIdentity \<Rightarrow> RideSessionDecision" where
  "activity_ended s i =
     (if ride_identity s \<noteq> Some i then (s, NoEffect)
      else (case ride_phase s of
              RideEnding reason \<Rightarrow>
                (case pending_identity s of
                   Some j \<Rightarrow>
                     (\<lparr>ride_phase = RideStarting, ride_identity = Some j, pending_identity = None,
                       ride_activity = ActStarting, last_telemetry_at = None,
                       app_presence = app_presence s\<rparr>, StartActivity j)
                 | None \<Rightarrow>
                     (s\<lparr>ride_phase := RideEnded reason, ride_activity := ActEnded\<rparr>, NoEffect))
            | _ \<Rightarrow> (s, NoEffect)))"

definition activity_unavailable :: "RideSessionLifecycle \<Rightarrow> RideSessionIdentity \<Rightarrow> RideSessionDecision" where
  "activity_unavailable s i =
     (if ride_identity s \<noteq> Some i \<or> \<not> phase_is_live (ride_phase s) then (s, NoEffect)
      else (s\<lparr>ride_activity := ActUnavailable\<rparr>, NoEffect))"

definition app_backgrounded :: "RideSessionLifecycle \<Rightarrow> RideSessionDecision" where
  "app_backgrounded s =
     (if app_presence s = Background then (s, NoEffect)
      else (s\<lparr>app_presence := Background\<rparr>,
            case opt_filter (\<lambda>_. phase_is_live (ride_phase s)) (ride_identity s) of
              Some i \<Rightarrow> RequestCaptureFlush i
            | None \<Rightarrow> NoEffect))"

definition app_foregrounded :: "RideSessionLifecycle \<Rightarrow> RideSessionDecision" where
  "app_foregrounded s =
     (if app_presence s = Foreground then (s, NoEffect)
      else (s\<lparr>app_presence := Foreground\<rparr>, NoEffect))"

definition bluetooth_disconnected :: "RideSessionLifecycle \<Rightarrow> MonotonicTimestamp \<Rightarrow> RideSessionDecision" where
  "bluetooth_disconnected s at =
     (case ride_identity s of
        None \<Rightarrow> (s, NoEffect)
      | Some i \<Rightarrow>
          if \<not> accepts_updates (ride_phase s) then (s, NoEffect)
          else (let s' = s\<lparr>ride_phase := RideReconnecting,
                           last_telemetry_at :=
                             (case last_telemetry_at s of None \<Rightarrow> Some at | Some t \<Rightarrow> Some t)\<rparr>
                in case ride_activity s' of
                     ActActive a \<Rightarrow> (s'\<lparr>ride_activity := ActStale a\<rparr>, MarkActivityStale i)
                   | ActStale a \<Rightarrow> (s'\<lparr>ride_activity := ActStale a\<rparr>, MarkActivityStale i)
                   | _ \<Rightarrow> (s', NoEffect)))"

definition bluetooth_connected :: "RideSessionLifecycle \<Rightarrow> RideSessionDecision" where
  "bluetooth_connected s =
     (if ride_phase s = RideReconnecting \<or> ride_phase s = RideStale
      then (s\<lparr>ride_phase := RideActive\<rparr>, NoEffect) else (s, NoEffect))"

definition telemetry_observed :: "RideSessionLifecycle \<Rightarrow> MonotonicTimestamp \<Rightarrow> RideSessionDecision" where
  "telemetry_observed s at =
     (case ride_identity s of
        None \<Rightarrow> (s, NoEffect)
      | Some i \<Rightarrow>
          if \<not> accepts_updates (ride_phase s) then (s, NoEffect)
          else (let s' = s\<lparr>last_telemetry_at := Some at, ride_phase := RideActive\<rparr>
                in case ride_activity s' of
                     ActActive _ \<Rightarrow> (s', UpdateActivity i)
                   | ActStale a \<Rightarrow> (s'\<lparr>ride_activity := ActActive a\<rparr>, UpdateActivity i)
                   | _ \<Rightarrow> (s', NoEffect)))"

definition freshness_checked ::
  "RideSessionLifecycle \<Rightarrow> MonotonicTimestamp \<Rightarrow> Duration \<Rightarrow> RideSessionDecision" where
  "freshness_checked s now stale_after =
     (case (ride_identity s, last_telemetry_at s) of
        (Some i, Some last_at) \<Rightarrow>
          if \<not> accepts_updates (ride_phase s) \<or> ride_phase s = RideStale
             \<or> saturating_duration_since now last_at < stale_after
          then (s, NoEffect)
          else (let s' = s\<lparr>ride_phase := RideStale\<rparr>
                in case ride_activity s' of
                     ActActive a \<Rightarrow> (s'\<lparr>ride_activity := ActStale a\<rparr>, MarkActivityStale i)
                   | _ \<Rightarrow> (s', NoEffect))
      | _ \<Rightarrow> (s, NoEffect))"

definition ride_end :: "RideSessionLifecycle \<Rightarrow> RideSessionEndReason \<Rightarrow> RideSessionDecision" where
  "ride_end s reason =
     (case ride_identity s of
        None \<Rightarrow> (s\<lparr>ride_phase := RideEnded reason, ride_activity := ActEnded\<rparr>, NoEffect)
      | Some i \<Rightarrow>
          if \<not> phase_is_live (ride_phase s) then (s, NoEffect)
          else (case ride_phase s of
                  RideEnding existing_reason \<Rightarrow>
                    if existing_reason = reason \<and> ride_activity s = ActUnavailable
                    then (s\<lparr>ride_activity := ActEnding\<rparr>, EndActivity i reason)
                    else (s, NoEffect)
                | _ \<Rightarrow>
                    (s\<lparr>ride_phase := RideEnding reason, pending_identity := None,
                       ride_activity := ActEnding\<rparr>, EndActivity i reason)))"

fun ride_transition :: "RideSessionLifecycle \<Rightarrow> RideSessionInput \<Rightarrow> RideSessionDecision" where
  "ride_transition s (Start i) = ride_start s i"
| "ride_transition s (ActivityStarted i a) = activity_started s i a"
| "ride_transition s (ActivityEnded i) = activity_ended s i"
| "ride_transition s (ActivityUnavailable i) = activity_unavailable s i"
| "ride_transition s AppBackgrounded = app_backgrounded s"
| "ride_transition s AppForegrounded = app_foregrounded s"
| "ride_transition s (BluetoothDisconnected at) = bluetooth_disconnected s at"
| "ride_transition s BluetoothConnected = bluetooth_connected s"
| "ride_transition s (TelemetryObserved at) = telemetry_observed s at"
| "ride_transition s (FreshnessChecked now) = freshness_checked s now RIDE_SESSION_STALE_AFTER"
| "ride_transition s UserDisconnected = ride_end s UserDisconnect"
| "ride_transition s UserStopped = ride_end s UserStop"
| "ride_transition s ReconnectExhausted = ride_end s EndReconnectExhausted"
| "ride_transition s AppReset = ride_end s EndAppReset"
| "ride_transition s UnrecoverableSessionFailure = ride_end s EndUnrecoverableSessionFailure"

definition ride_step :: "RideSessionLifecycle \<Rightarrow> RideSessionInput \<Rightarrow> RideSessionLifecycle" where
  "ride_step s inp = fst (ride_transition s inp)"

section \<open>The invariant\<close>

definition ride_inv :: "RideSessionLifecycle \<Rightarrow> bool" where
  "ride_inv s \<longleftrightarrow>
     (case ride_phase s of
        RideIdle \<Rightarrow> ride_identity s = None \<and> pending_identity s = None \<and> ride_activity s = ActAbsent
      | RideEnding r \<Rightarrow>
          is_some (ride_identity s) \<and> (ride_activity s = ActEnding \<or> ride_activity s = ActUnavailable)
          \<and> (is_some (pending_identity s) \<longleftrightarrow> r = ReplacedByNewSession)
          \<and> pending_identity s \<noteq> ride_identity s
      | RideEnded r \<Rightarrow> pending_identity s = None \<and> ride_activity s = ActEnded \<and> r \<noteq> ReplacedByNewSession
      | _ \<Rightarrow>
          is_some (ride_identity s) \<and> pending_identity s = None
          \<and> ride_activity s \<notin> {ActAbsent, ActEnding, ActEnded}
          \<and> (ride_phase s = RideStarting \<longrightarrow> ride_activity s \<in> {ActStarting, ActUnavailable})
          \<and> (ride_phase s = RideStale \<longrightarrow> is_some (last_telemetry_at s)))"

lemmas ride_ops = ride_start_def activity_started_def activity_ended_def activity_unavailable_def
  app_backgrounded_def app_foregrounded_def bluetooth_disconnected_def bluetooth_connected_def
  telemetry_observed_def freshness_checked_def ride_end_def

lemma ride_inv_start: "ride_inv s \<Longrightarrow> ride_inv (fst (ride_start s i))"
  by (auto simp: ride_inv_def ride_start_def opt_filter_def is_some_iff
      split: RideSessionPhase.splits option.splits)

lemma ride_inv_activity_started: "ride_inv s \<Longrightarrow> ride_inv (fst (activity_started s i a))"
  by (auto simp: is_some_iff ride_inv_def activity_started_def split: RideSessionPhase.splits)

lemma ride_inv_activity_ended: "ride_inv s \<Longrightarrow> ride_inv (fst (activity_ended s i))"
  by (auto simp: ride_inv_def activity_ended_def is_some_iff split: RideSessionPhase.splits option.splits)

lemma ride_inv_activity_unavailable: "ride_inv s \<Longrightarrow> ride_inv (fst (activity_unavailable s i))"
  by (auto simp: is_some_iff ride_inv_def activity_unavailable_def split: RideSessionPhase.splits)

lemma ride_inv_bluetooth_disconnected: "ride_inv s \<Longrightarrow> ride_inv (fst (bluetooth_disconnected s at))"
  by (auto simp: is_some_iff ride_inv_def bluetooth_disconnected_def Let_def
      split: RideSessionPhase.splits option.splits ActivityProjectionState.splits)

lemma ride_inv_telemetry_observed: "ride_inv s \<Longrightarrow> ride_inv (fst (telemetry_observed s at))"
  by (auto simp: is_some_iff ride_inv_def telemetry_observed_def Let_def
      split: RideSessionPhase.splits option.splits ActivityProjectionState.splits)

lemma ride_inv_freshness_checked: "ride_inv s \<Longrightarrow> ride_inv (fst (freshness_checked s now d))"
  by (auto simp: is_some_iff ride_inv_def freshness_checked_def Let_def
      split: RideSessionPhase.splits option.splits ActivityProjectionState.splits)

lemma ride_inv_end: "ride_inv s \<Longrightarrow> r \<noteq> ReplacedByNewSession \<Longrightarrow> ride_inv (fst (ride_end s r))"
  by (cases "ride_identity s") (auto simp: is_some_iff ride_inv_def ride_end_def split: RideSessionPhase.splits)

lemma ride_inv_presence: "ride_inv (s\<lparr>app_presence := p\<rparr>) = ride_inv s"
  by (simp add: ride_inv_def cong: RideSessionPhase.case_cong)

lemma ride_inv_others:
  "ride_inv s \<Longrightarrow> ride_inv (fst (app_backgrounded s))"
  "ride_inv s \<Longrightarrow> ride_inv (fst (app_foregrounded s))"
  "ride_inv s \<Longrightarrow> ride_inv (fst (bluetooth_connected s))"
  by (auto simp: app_backgrounded_def app_foregrounded_def ride_inv_presence)
    (auto simp: bluetooth_connected_def ride_inv_def split: RideSessionPhase.splits)

lemma ride_inv_transition: "ride_inv s \<Longrightarrow> ride_inv (fst (ride_transition s inp))"
  by (cases inp) (simp_all add: ride_inv_start ride_inv_activity_started ride_inv_activity_ended
      ride_inv_activity_unavailable ride_inv_bluetooth_disconnected ride_inv_telemetry_observed
      ride_inv_freshness_checked ride_inv_end ride_inv_others)

interpretation ride: reducer ride_step ride_default ride_inv
  by unfold_locales (simp_all add: ride_step_def ride_inv_transition, simp add: ride_inv_def ride_default_def)

lemma ride_inv_recover: "ride_inv (fst (ride_recover mk restored presence))"
  by (simp add: ride_recover_def ride_inv_def)

text \<open>
  Every state reachable from a fresh process or from a recovered marker is coherent: a ride
  that is starting, active, reconnecting, stale or ending has an identity; a replacement is pending
  exactly while the ride is ending because it was replaced, and is a different ride; the activity
  is ending or unavailable exactly while the ride ends; a stale ride has seen telemetry; and no ride
  is ever left ended as replaced.
\<close>

lemma ride_reachable_inv:
  "ride_inv (foldl ride_step ride_default inputs)
   \<and> ride_inv (foldl ride_step (fst (ride_recover mk restored presence)) inputs)"
  by (simp add: ride.inv_run ride.inv_foldl ride_inv_recover)

section \<open>Effects\<close>

text \<open>What a requested platform effect means for the states around it.\<close>

fun ride_effect_ok :: "RideSessionLifecycle \<Rightarrow> RideSessionInput \<Rightarrow> RideSessionLifecycle \<Rightarrow> RideSessionEffect \<Rightarrow> bool" where
  "ride_effect_ok s inp s' NoEffect = True"
| "ride_effect_ok s inp s' (StartActivity i) =
     (ride_phase s' = RideStarting \<and> ride_identity s' = Some i \<and> ride_activity s' = ActStarting
      \<and> last_telemetry_at s' = None
      \<and> (\<not> phase_is_live (ride_phase s) \<and> inp = Start i
         \<or> ride_phase s = RideEnding ReplacedByNewSession \<and> pending_identity s = Some i
           \<and> (\<exists>old. inp = ActivityEnded old \<and> ride_identity s = Some old \<and> old \<noteq> i)))"
| "ride_effect_ok s inp s' (UpdateActivity i) =
     (ride_identity s = Some i \<and> ride_phase s' = RideActive \<and> (\<exists>a. ride_activity s' = ActActive a)
      \<and> (\<exists>at. inp = TelemetryObserved at \<and> last_telemetry_at s' = Some at))"
| "ride_effect_ok s inp s' (MarkActivityStale i) =
     (ride_identity s = Some i \<and> (ride_phase s' = RideStale \<or> ride_phase s' = RideReconnecting)
      \<and> (\<exists>a. ride_activity s' = ActStale a))"
| "ride_effect_ok s inp s' (EndActivity i r) =
     (ride_identity s = Some i \<and> ride_identity s' = Some i \<and> phase_is_live (ride_phase s)
      \<and> ride_phase s' = RideEnding r \<and> ride_activity s' = ActEnding)"
| "ride_effect_ok s inp s' (RequestCaptureFlush i) =
     (inp = AppBackgrounded \<and> app_presence s = Foreground \<and> app_presence s' = Background
      \<and> ride_identity s = Some i \<and> phase_is_live (ride_phase s))"

lemma ride_effect_ok_start: "ride_inv s \<Longrightarrow> ride_start s i = (s', e) \<Longrightarrow> ride_effect_ok s (Start i) s' e"
  by (auto simp: ride_start_def ride_inv_def opt_filter_def is_some_iff
      split: if_splits option.splits RideSessionPhase.splits)

lemma ride_effect_ok_ended:
  "ride_inv s \<Longrightarrow> activity_ended s i = (s', e) \<Longrightarrow> ride_effect_ok s (ActivityEnded i) s' e"
  by (auto simp: activity_ended_def ride_inv_def is_some_iff
      split: if_splits option.splits RideSessionPhase.splits)

lemma ride_effect_ok_updates:
  "telemetry_observed s at = (s', e) \<Longrightarrow> ride_effect_ok s (TelemetryObserved at) s' e"
  "bluetooth_disconnected s at = (s', e) \<Longrightarrow> ride_effect_ok s inp s' e"
  "freshness_checked s now d = (s', e) \<Longrightarrow> ride_effect_ok s inp s' e"
  "ride_end s r = (s', e) \<Longrightarrow> ride_effect_ok s inp s' e"
  by (auto simp: telemetry_observed_def bluetooth_disconnected_def freshness_checked_def ride_end_def Let_def
      split: if_splits option.splits ActivityProjectionState.splits RideSessionPhase.splits)

lemma ride_effect_ok_transition:
  assumes "ride_inv s" and "ride_transition s inp = (s', e)"
  shows "ride_effect_ok s inp s' e"
proof (cases inp)
  case AppBackgrounded
  then show ?thesis
    using assms(2) by (cases "app_presence s")
      (auto simp: app_backgrounded_def opt_filter_def split: if_splits option.splits)
qed (use assms in \<open>auto simp: ride_effect_ok_start ride_effect_ok_ended ride_effect_ok_updates
    activity_started_def activity_unavailable_def app_foregrounded_def bluetooth_connected_def
    split: if_splits\<close>)

text \<open>
  Effects are requested only where they are meant: a start only for a fresh ride or, once the
  replaced ride's end is confirmed, for the ride that replaces it; an update only with telemetry,
  leaving the activity current; a stale mark only when the activity becomes stale; an end only for
  the ride that is live; and a capture flush only for a live ride whose app leaves the foreground.
\<close>

lemma ride_effects_sound:
  assumes "ride_inv s" and "ride_transition s inp = (s', e)"
  shows "ride_effect_ok s inp s' e"
  using assms by (rule ride_effect_ok_transition)

lemma ride_effects_sound_example:
  "ride_effect_ok ride_default (Start \<lparr>platform_identifier = [97], ride_session_id = 1\<rparr>)
     (fst (ride_transition ride_default (Start \<lparr>platform_identifier = [97], ride_session_id = 1\<rparr>)))
     (snd (ride_transition ride_default (Start \<lparr>platform_identifier = [97], ride_session_id = 1\<rparr>)))"
  using ride_effects_sound [OF ride.inv_init] by (metis prod.collapse)

section \<open>One activity at a time\<close>

datatype ActivityEvent = ActivityBegan RideSessionIdentity | ActivityFinished RideSessionIdentity

text \<open>The activity starts requested by a run and the activity ends it accepts, in order.\<close>

primrec activity_events :: "RideSessionLifecycle \<Rightarrow> RideSessionInput list \<Rightarrow> ActivityEvent list" where
  "activity_events s [] = []"
| "activity_events s (inp # inps) =
     (case inp of
        ActivityEnded i \<Rightarrow>
          if ride_identity s = Some i \<and> (case ride_phase s of RideEnding _ \<Rightarrow> True | _ \<Rightarrow> False)
          then [ActivityFinished i] else []
      | _ \<Rightarrow> [])
     @ (case snd (ride_transition s inp) of StartActivity j \<Rightarrow> [ActivityBegan j] | _ \<Rightarrow> [])
     @ activity_events (ride_step s inp) inps"

fun one_at_a_time :: "RideSessionIdentity option \<Rightarrow> ActivityEvent list \<Rightarrow> bool" where
  "one_at_a_time cur [] = True"
| "one_at_a_time None (ActivityBegan i # es) = one_at_a_time (Some i) es"
| "one_at_a_time (Some j) (ActivityFinished i # es) = (i = j \<and> one_at_a_time None es)"
| "one_at_a_time None (ActivityFinished i # es) = False"
| "one_at_a_time (Some j) (ActivityBegan i # es) = False"

definition live_ride :: "RideSessionLifecycle \<Rightarrow> RideSessionIdentity option" where
  "live_ride s = (if phase_is_live (ride_phase s) then ride_identity s else None)"

lemma live_ride_start:
  "ride_inv s \<Longrightarrow> one_at_a_time (live_ride s)
     ((case snd (ride_start s i) of StartActivity j \<Rightarrow> [ActivityBegan j] | _ \<Rightarrow> []) @ es) =
   one_at_a_time (live_ride (fst (ride_start s i))) es"
  by (auto simp: live_ride_def ride_start_def ride_inv_def opt_filter_def is_some_iff
      split: option.splits RideSessionPhase.splits)

lemma live_ride_ended:
  "ride_inv s \<Longrightarrow> one_at_a_time (live_ride s)
     ((if ride_identity s = Some i \<and> (case ride_phase s of RideEnding _ \<Rightarrow> True | _ \<Rightarrow> False)
       then [ActivityFinished i] else [])
      @ (case snd (activity_ended s i) of StartActivity j \<Rightarrow> [ActivityBegan j] | _ \<Rightarrow> []) @ es) =
   one_at_a_time (live_ride (fst (activity_ended s i))) es"
  by (auto simp: live_ride_def activity_ended_def split: option.splits RideSessionPhase.splits)

lemma live_ride_same:
  assumes "ride_inv s" and "\<And>i. inp \<noteq> Start i" and "\<And>i. inp \<noteq> ActivityEnded i"
  shows "live_ride (fst (ride_transition s inp)) = live_ride s"
    and "(case snd (ride_transition s inp) of StartActivity j \<Rightarrow> [ActivityBegan j] | _ \<Rightarrow> []) = []"
proof -
  show "live_ride (fst (ride_transition s inp)) = live_ride s"
    using assms by (cases inp) (auto simp: live_ride_def ride_inv_def ride_ops Let_def
        split: option.splits RideSessionPhase.splits ActivityProjectionState.splits)
  show "(case snd (ride_transition s inp) of StartActivity j \<Rightarrow> [ActivityBegan j] | _ \<Rightarrow> []) = []"
    using ride_effect_ok_transition [OF assms(1), of inp "fst (ride_transition s inp)"
        "snd (ride_transition s inp)"] assms(2,3)
    by (auto split: RideSessionEffect.splits)
qed

lemma activity_events_one_at_a_time:
  "ride_inv s \<Longrightarrow> one_at_a_time (live_ride s) (activity_events s inputs)"
proof (induction inputs arbitrary: s)
  case (Cons inp inputs)
  have IH: "one_at_a_time (live_ride (ride_step s inp)) (activity_events (ride_step s inp) inputs)"
    using Cons by (simp add: ride.inv_step)
  consider i where "inp = Start i" | i where "inp = ActivityEnded i"
    | "\<And>i. inp \<noteq> Start i" "\<And>i. inp \<noteq> ActivityEnded i"
    by blast
  then show ?case
  proof cases
    case 1
    then show ?thesis
      using IH live_ride_start [OF Cons.prems] by (simp add: ride_step_def)
  next
    case 2
    then show ?thesis
      using IH live_ride_ended [OF Cons.prems] by (simp add: ride_step_def)
  next
    case 3
    then show ?thesis
      using IH live_ride_same [OF Cons.prems 3] by (cases inp) (auto simp: ride_step_def)
  qed
qed simp

text \<open>
  C24. Activities never overlap: over any sequence of inputs from a fresh process, activity starts
  and confirmed ends alternate, each end is that of the activity last started, and a replacing ride
  is started only after the end of the ride it replaces was confirmed.
\<close>

theorem ride_activities_alternate: "one_at_a_time None (activity_events ride_default inputs)"
  using activity_events_one_at_a_time [OF ride.inv_init, of inputs]
  by (simp add: live_ride_def ride_default_def)

section \<open>Replacement, freshness and recovery\<close>

lemma replacement_step:
  assumes "ride_phase s = RideEnding ReplacedByNewSession" "ride_identity s = Some i"
    "pending_identity s = Some j" "inp \<noteq> ActivityEnded i" "\<And>k. inp \<noteq> Start k"
  shows "ride_phase (ride_step s inp) = RideEnding ReplacedByNewSession
    \<and> ride_identity (ride_step s inp) = Some i \<and> pending_identity (ride_step s inp) = Some j"
  using assms by (cases inp) (auto simp: ride_step_def ride_ops Let_def
      split: option.splits RideSessionPhase.splits ActivityProjectionState.splits)

lemma replacement_run:
  assumes "ride_phase s = RideEnding ReplacedByNewSession" "ride_identity s = Some i"
    "pending_identity s = Some j" "ActivityEnded i \<notin> set inputs" "\<And>k. Start k \<notin> set inputs"
  shows "ride_phase (foldl ride_step s inputs) = RideEnding ReplacedByNewSession
    \<and> ride_identity (foldl ride_step s inputs) = Some i \<and> pending_identity (foldl ride_step s inputs) = Some j"
  using assms
proof (induction inputs arbitrary: s)
  case (Cons inp inputs)
  then have "inp \<noteq> ActivityEnded i" "inp \<noteq> Start k" for k
    by auto
  then show ?case
    using Cons.IH [of "ride_step s inp"] replacement_step [OF Cons.prems(1-3)] Cons.prems(4,5) by simp
qed simp

text \<open>
  C35. A requested replacement always goes through: once ride \<open>j\<close> was started over a live ride \<open>i\<close>,
  no other input but a further start cancels it - not a stop, disconnect or reset by the rider, not
  an exhausted reconnection, not an unavailable activity - and when the end of \<open>i\<close> is confirmed,
  \<open>j\<close> starts.
\<close>

theorem ride_replacement_goes_through:
  assumes "ride_identity s = Some i" and "phase_is_live (ride_phase s)" and "i \<noteq> j"
    and "ActivityEnded i \<notin> set inputs" and "\<forall>k. Start k \<notin> set inputs"
  shows "snd (ride_transition s (Start j)) = EndActivity i ReplacedByNewSession
    \<and> (case ride_transition (foldl ride_step s (Start j # inputs)) (ActivityEnded i) of
         (s', e) \<Rightarrow> e = StartActivity j \<and> ride_phase s' = RideStarting \<and> ride_identity s' = Some j)"
proof -
  have st: "ride_transition s (Start j) = (s\<lparr>ride_phase := RideEnding ReplacedByNewSession,
      pending_identity := Some j, ride_activity := ActEnding\<rparr>, EndActivity i ReplacedByNewSession)"
    using assms(1-3) by (simp add: ride_start_def)
  then have "ride_phase (foldl ride_step s (Start j # inputs)) = RideEnding ReplacedByNewSession
      \<and> ride_identity (foldl ride_step s (Start j # inputs)) = Some i
      \<and> pending_identity (foldl ride_step s (Start j # inputs)) = Some j"
    using replacement_run [of "ride_step s (Start j)" i j inputs] assms by (simp add: ride_step_def)
  then show ?thesis
    using st by (simp add: activity_ended_def)
qed

theorem ride_replacement_goes_through_witness:
  "let a = \<lparr>platform_identifier = [97], ride_session_id = 1\<rparr>;
       b = \<lparr>platform_identifier = [98], ride_session_id = 2\<rparr>;
       s = fst (ride_transition ride_default (Start a))
   in snd (ride_transition (foldl ride_step s [Start b, UserStopped, AppReset]) (ActivityEnded a)) = StartActivity b"
  using ride_replacement_goes_through [of "fst (ride_transition ride_default (Start \<lparr>platform_identifier = [97], ride_session_id = 1\<rparr>))"
      "\<lparr>platform_identifier = [97], ride_session_id = 1\<rparr>" "\<lparr>platform_identifier = [98], ride_session_id = 2\<rparr>"
      "[UserStopped, AppReset]"]
  by (auto simp: ride_start_def ride_default_def Let_def split: prod.splits)

text \<open>
  The freshness deadline is exact: after telemetry observed at \<open>at\<close> by a ride that accepts
  updates, a freshness check changes nothing less than 2000 milliseconds later (or when the clock
  went back), and from 2000 milliseconds on it makes the ride stale and marks a visible activity
  stale.
\<close>

lemma ride_freshness_deadline:
  assumes "ride_inv s" and "accepts_updates (ride_phase s)"
  shows "case ride_transition s (TelemetryObserved at) of (s1, _) \<Rightarrow>
    (if unat now < unat at + 2000 then ride_transition s1 (FreshnessChecked now) = (s1, NoEffect)
     else case ride_transition s1 (FreshnessChecked now) of (s2, e) \<Rightarrow>
       ride_phase s2 = RideStale
       \<and> (\<forall>a. ride_activity s1 = ActActive a \<longrightarrow> ride_activity s2 = ActStale a
             \<and> (\<exists>i. ride_identity s = Some i \<and> e = MarkActivityStale i)))"
proof -
  obtain i where i: "ride_identity s = Some i"
    using assms by (cases "ride_phase s") (auto simp: ride_inv_def is_some_iff)
  have "saturating_duration_since now at < 2000 \<longleftrightarrow> unat now < unat at + 2000"
    by (auto simp: word_less_nat_alt unat_rust)
  then show ?thesis
    using i assms(2)
    by (auto simp: telemetry_observed_def freshness_checked_def RIDE_SESSION_STALE_AFTER_def Let_def
        split: ActivityProjectionState.splits)
qed

lemma ride_freshness_deadline_example:
  "ride_phase (foldl ride_step ride_default [Start \<lparr>platform_identifier = [97], ride_session_id = 1\<rparr>,
     TelemetryObserved 100, FreshnessChecked 2100]) = RideStale"
proof -
  let ?s = "ride_step ride_default (Start \<lparr>platform_identifier = [97], ride_session_id = 1\<rparr>)"
  have "accepts_updates (ride_phase ?s)"
    by (simp add: ride_step_def ride_default_def ride_start_def)
  from ride_freshness_deadline [OF ride.inv_step [OF ride.inv_init] this, of 2100 100]
  show ?thesis
    by (simp add: ride_step_def split: prod.splits)
qed

text \<open>
  A marker survives a relaunch: where the JSON and UUID codecs read back what they wrote, the
  marker of a live ride whose platform identifier is not blank decodes to itself, and recovering
  from it restores the same ride, starting its activity exactly when the platform restored the same
  device.
\<close>

lemma ride_marker_relaunch:
  assumes codec: "\<And>w bytes. to_vec w = Some bytes \<Longrightarrow> from_slice bytes = Some w"
    and uuid: "\<And>u. parse_str (to_string u) = Some u"
    and "ride_marker s = Some mk" and "marker_encode to_vec to_string mk = Inr bytes"
    and "\<exists>c \<in> set (platform_identifier (marker_identity mk)). \<not> is_whitespace c"
  shows "marker_decode from_slice parse_str bytes = Inr mk
    \<and> (case ride_recover mk restored presence of (s', e) \<Rightarrow>
         ride_identity s' = ride_identity s \<and> ride_marker s' = Some mk
         \<and> (e = StartActivity (marker_identity mk) \<longleftrightarrow>
              restored = Some (platform_identifier (marker_identity mk))))"
proof -
  have "from_slice bytes = Some \<lparr>wire_version = 1,
      wire_platform_identifier = platform_identifier (marker_identity mk),
      wire_session_id = to_string (ride_session_id (marker_identity mk))\<rparr>"
    using assms(4) codec by (auto simp: marker_encode_def RIDE_SESSION_MARKER_VERSION_def split: option.splits)
  moreover have "str_trim (platform_identifier (marker_identity mk)) \<noteq> []"
    using assms(5) by (simp add: str_trim_Nil_iff)
  ultimately show ?thesis
    using assms(3) uuid
    by (auto simp: marker_decode_def RIDE_SESSION_MARKER_VERSION_def ride_recover_def ride_marker_def
        split: if_splits)
qed

lemma ride_marker_relaunch_example:
  "let w = \<lparr>wire_version = 1, wire_platform_identifier = [97], wire_session_id = [5]\<rparr>
   in marker_decode (\<lambda>bytes. Some w) (\<lambda>t. case t of [n] \<Rightarrow> Some (of_nat n) | _ \<Rightarrow> None) [1] =
      Inr \<lparr>marker_identity = \<lparr>platform_identifier = [97], ride_session_id = 5\<rparr>\<rparr>"
proof -
  let ?w = "\<lparr>wire_version = 1, wire_platform_identifier = [97], wire_session_id = [5]\<rparr>"
  let ?i = "\<lparr>platform_identifier = [97], ride_session_id = 5\<rparr>"
  have codec: "(if w = ?w then Some [1] else None) = Some bytes \<Longrightarrow> Some ?w = Some w"
    for w and bytes :: "u8 list"
    by (simp split: if_splits)
  show ?thesis
    using codec ride_marker_relaunch [of "\<lambda>w. if w = ?w then Some [1] else None" "\<lambda>bytes. Some ?w"
        "\<lambda>t. case t of [n] \<Rightarrow> Some (of_nat n) | _ \<Rightarrow> None" "\<lambda>u. [unat u]"
        "fst (ride_transition ride_default (Start ?i))" "\<lparr>marker_identity = ?i\<rparr>" "[1]" None Foreground, OF codec]
    by (simp add: ride_start_def ride_default_def ride_marker_def marker_encode_def is_whitespace_def
        RIDE_SESSION_MARKER_VERSION_def)
qed

end
