(* ===== verification/Connection_Lifecycle.thy ===== *)
theory Connection_Lifecycle
  imports Interfaces Core_Units
begin

text \<open>
  The connection-attempt owner of \<^verbatim>\<open>cutout-core/src/connection_lifecycle.rs\<close>: attempt tokens with
  wrapping generations, protocol admission, native link state, and the reconnect policy with its
  budget, backoff and timer tokens.  Shown: the invariant of every reachable state (a verified
  attempt is current and connected), that retired attempts are never admitted again while the
  64-bit generation does not wrap, the exact delay bounds of the backoff, the retry budget of an
  unidentified device, and that an approved retry starts at most once and not before its deadline.
\<close>

section \<open>State\<close>

record ConnectionAttemptToken =
  token_generation :: u64
  token_platform_identifier :: rust_str

type_synonym ConnectionRetryToken = u64

record ConnectionRetry =
  retry_id :: ConnectionRetryToken
  attempt_number :: u8
  retry_deadline_at :: MonotonicTimestamp
  retry_platform_identifier :: rust_str

datatype ConnectionRetryDecision =
    Scheduled ConnectionRetry
  | Exhausted u8
  | Rejected

datatype ConnectionReadiness =
    Disconnected
  | Pending
  | Verified
  | RecordOnly
  | Failed
  | Conflicted

datatype ConnectionTransportState =
    LinkDisconnected
  | LinkConnecting
  | LinkConnected

record ConnectionAttemptSnapshot =
  generation :: u64
  revision :: u64
  token :: "ConnectionAttemptToken option"
  readiness :: ConnectionReadiness
  transport :: ConnectionTransportState
  deadline :: "MonotonicTimestamp option"

datatype ConnectionRetryScope = InitialIdentification | EstablishedConnection

record ConnectionAttemptLifecycle =
  snapshot :: ConnectionAttemptSnapshot
  retry_scope :: ConnectionRetryScope
  retry_attempt :: u8
  retry_token :: u64
  failed_attempt :: "ConnectionAttemptToken option"
  pending_retry :: "ConnectionRetry option"

definition conn_default :: ConnectionAttemptLifecycle where
  "conn_default =
     \<lparr>snapshot = \<lparr>generation = 0, revision = 0, token = None, readiness = Disconnected,
                  transport = LinkDisconnected, deadline = None\<rparr>,
      retry_scope = InitialIdentification, retry_attempt = 0, retry_token = 0,
      failed_attempt = None, pending_retry = None\<rparr>"

section \<open>Operations\<close>

definition is_current :: "ConnectionAttemptLifecycle \<Rightarrow> ConnectionAttemptToken \<Rightarrow> bool" where
  "is_current s t \<longleftrightarrow> token (snapshot s) = Some t"

definition verified_attempt ::
  "ConnectionAttemptLifecycle \<Rightarrow> ConnectionAttemptToken \<Rightarrow> ConnectionAttemptToken option" where
  "verified_attempt s t =
     (if is_current s t \<and> readiness (snapshot s) = Verified \<and> transport (snapshot s) = LinkConnected
      then Some t else None)"

definition is_verified :: "ConnectionAttemptLifecycle \<Rightarrow> ConnectionAttemptToken \<Rightarrow> bool" where
  "is_verified s t = is_some (verified_attempt s t)"

definition begin_attempt ::
  "ConnectionAttemptLifecycle \<Rightarrow> rust_str \<Rightarrow> MonotonicTimestamp
     \<Rightarrow> ConnectionAttemptToken \<times> ConnectionAttemptLifecycle" where
  "begin_attempt s identifier at =
     (let snap = snapshot s;
          gen = generation snap + 1;
          t = \<lparr>token_generation = gen, token_platform_identifier = identifier\<rparr>
      in (t, s\<lparr>snapshot := snap\<lparr>generation := gen, token := Some t, readiness := Pending,
                               transport := LinkConnecting,
                               deadline := Some (saturating_add at 15000),
                               revision := revision snap + 1\<rparr>\<rparr>))"

definition conn_begin ::
  "ConnectionAttemptLifecycle \<Rightarrow> rust_str \<Rightarrow> MonotonicTimestamp
     \<Rightarrow> ConnectionAttemptToken \<times> ConnectionAttemptLifecycle" where
  "conn_begin s identifier at =
     begin_attempt (s\<lparr>retry_scope := InitialIdentification, retry_attempt := 0,
                      failed_attempt := None, pending_retry := None\<rparr>) identifier at"

definition retry_delay_ms :: "u8 \<Rightarrow> u16 \<Rightarrow> u64" where
  "retry_delay_ms attempt jitter_permille =
     (let jitter = ucast (min jitter_permille 1000) :: u64;
          exponent = min (saturating_sub attempt 1) 7;
          base_ms = min (saturating_mul 250 (push_bit (unat exponent) 1)) 25000
      in saturating_add (saturating_mul base_ms (800000 + 400 * jitter)) 500000 div 1000000)"

definition request_retry ::
  "ConnectionAttemptLifecycle \<Rightarrow> ConnectionAttemptToken \<Rightarrow> MonotonicTimestamp \<Rightarrow> u16
     \<Rightarrow> ConnectionRetryDecision \<times> ConnectionAttemptLifecycle" where
  "request_retry s failed at jitter_permille =
     (if is_some (pending_retry s) then (Rejected, s)
      else
        let snap = snapshot s;
            can_retry = readiness snap \<in> {Pending, Verified, RecordOnly, Failed};
            is_active_failure = is_current s failed \<and> can_retry
        in if \<not> is_active_failure \<and> failed_attempt s \<noteq> Some failed then (Rejected, s)
           else
             let attempt = saturating_add (retry_attempt s) 1
             in if 3 < attempt \<and> retry_scope s = InitialIdentification then
                  (Exhausted attempt,
                   s\<lparr>snapshot :=
                       (if is_current s failed
                        then snap\<lparr>generation := generation snap + 1, revision := revision snap + 1,
                                  token := None, deadline := None, readiness := Failed,
                                  transport := LinkDisconnected\<rparr>
                        else snap),
                     failed_attempt := Some failed, retry_attempt := attempt\<rparr>)
                else
                  let retry = \<lparr>retry_id = retry_token s + 1, attempt_number = attempt,
                               retry_deadline_at =
                                 saturating_add at (retry_delay_ms attempt jitter_permille),
                               retry_platform_identifier = token_platform_identifier failed\<rparr>
                  in (Scheduled retry,
                      s\<lparr>snapshot :=
                          (if is_current s failed
                           then snap\<lparr>deadline := None, readiness := Failed,
                                     transport := LinkDisconnected, revision := revision snap + 1\<rparr>
                           else snap),
                        failed_attempt := Some failed, retry_attempt := attempt,
                        retry_token := retry_token s + 1, pending_retry := Some retry\<rparr>))"

definition admit_retry ::
  "ConnectionAttemptLifecycle \<Rightarrow> ConnectionRetryToken \<Rightarrow> MonotonicTimestamp
     \<Rightarrow> ConnectionAttemptToken option \<times> ConnectionAttemptLifecycle" where
  "admit_retry s t at =
     (case pending_retry s of
        None \<Rightarrow> (None, s)
      | Some retry \<Rightarrow>
          if retry_id retry \<noteq> t \<or> at < retry_deadline_at retry then (None, s)
          else (case begin_attempt (s\<lparr>pending_retry := None, failed_attempt := None\<rparr>)
                       (retry_platform_identifier retry) at of
                  (new_token, s') \<Rightarrow> (Some new_token, s')))"

definition cancel_retry ::
  "ConnectionAttemptLifecycle \<Rightarrow> ConnectionRetryToken \<Rightarrow> bool \<times> ConnectionAttemptLifecycle" where
  "cancel_retry s t =
     (if map_option retry_id (pending_retry s) \<noteq> Some t then (False, s)
      else (True, s\<lparr>pending_retry := None, retry_attempt := 0, failed_attempt := None\<rparr>))"

definition retry_deadline ::
  "ConnectionAttemptLifecycle \<Rightarrow> ConnectionRetryToken \<Rightarrow> MonotonicTimestamp option" where
  "retry_deadline s t =
     map_option retry_deadline_at (opt_filter (\<lambda>retry. retry_id retry = t) (pending_retry s))"

definition finish_detection ::
  "ConnectionAttemptLifecycle \<Rightarrow> ConnectionAttemptToken \<Rightarrow> bool \<Rightarrow> bool \<times> ConnectionAttemptLifecycle" where
  "finish_detection s t verified =
     (let snap = snapshot s in
      if \<not> is_current s t \<or> readiness snap \<noteq> Pending then (False, s)
      else if verified \<and> transport snap \<noteq> LinkConnected then (False, s)
      else
        (let snap' = snap\<lparr>readiness := (if verified then Verified else RecordOnly), deadline := None,
                          revision := revision snap + 1\<rparr>;
             s' = (if verified
                   then s\<lparr>retry_scope := EstablishedConnection, retry_attempt := 0,
                          failed_attempt := None, pending_retry := None\<rparr>
                   else s)
         in (True, s'\<lparr>snapshot := snap'\<rparr>)))"

definition conn_expire ::
  "ConnectionAttemptLifecycle \<Rightarrow> ConnectionAttemptToken \<Rightarrow> MonotonicTimestamp \<Rightarrow> bool \<times> ConnectionAttemptLifecycle" where
  "conn_expire s t at =
     (if is_none_or (deadline (snapshot s)) (\<lambda>d. at < d) then (False, s)
      else finish_detection s t False)"

definition disconnect :: "ConnectionAttemptLifecycle \<Rightarrow> ConnectionAttemptLifecycle" where
  "disconnect s =
     (let snap = snapshot s in
      s\<lparr>retry_scope := InitialIdentification, retry_attempt := 0, failed_attempt := None,
        pending_retry := None,
        snapshot := snap\<lparr>generation := generation snap + 1, revision := revision snap + 1,
                         token := None, deadline := None, readiness := Disconnected,
                         transport := LinkDisconnected\<rparr>\<rparr>)"

definition conn_connected ::
  "ConnectionAttemptLifecycle \<Rightarrow> ConnectionAttemptToken \<Rightarrow> bool \<times> ConnectionAttemptLifecycle" where
  "conn_connected s t =
     (let snap = snapshot s in
      if \<not> is_current s t \<or> transport snap \<noteq> LinkConnecting then (False, s)
      else (True, s\<lparr>snapshot := snap\<lparr>transport := LinkConnected, revision := revision snap + 1\<rparr>\<rparr>))"

definition transport_failed ::
  "ConnectionAttemptLifecycle \<Rightarrow> ConnectionAttemptToken \<Rightarrow> bool \<times> ConnectionAttemptLifecycle" where
  "transport_failed s t =
     (if \<not> is_current s t then (False, s)
      else if readiness (snapshot s) = Pending then finish_detection s t False
      else if readiness (snapshot s) = Verified then
        (let s' = disconnect s in
         (True, s'\<lparr>retry_scope := EstablishedConnection, failed_attempt := Some t,
                   snapshot := (snapshot s')\<lparr>readiness := Failed\<rparr>\<rparr>))
      else (False, s))"

definition link_down ::
  "ConnectionAttemptLifecycle \<Rightarrow> ConnectionAttemptToken \<Rightarrow> bool \<times> ConnectionAttemptLifecycle" where
  "link_down s t =
     (let snap = snapshot s in
      if \<not> is_current s t then (False, s)
      else (True, snd (transport_failed
                         (s\<lparr>snapshot := snap\<lparr>transport := LinkDisconnected,
                                            revision := revision snap + 1\<rparr>\<rparr>) t)))"

definition conflict ::
  "ConnectionAttemptLifecycle \<Rightarrow> ConnectionAttemptToken \<Rightarrow> bool \<times> ConnectionAttemptLifecycle" where
  "conflict s t =
     (let snap = snapshot s in
      if \<not> is_current s t \<or> readiness snap \<noteq> Verified then (False, s)
      else (True, s\<lparr>snapshot := snap\<lparr>generation := generation snap + 1, revision := revision snap + 1,
                                     token := None, deadline := None, readiness := Conflicted,
                                     transport := LinkDisconnected\<rparr>\<rparr>))"

section \<open>Runs\<close>

datatype ConnectionCall =
    CallBegin rust_str MonotonicTimestamp
  | CallRequestRetry ConnectionAttemptToken MonotonicTimestamp u16
  | CallAdmitRetry ConnectionRetryToken MonotonicTimestamp
  | CallCancelRetry ConnectionRetryToken
  | CallFinishDetection ConnectionAttemptToken bool
  | CallExpire ConnectionAttemptToken MonotonicTimestamp
  | CallDisconnect
  | CallConnected ConnectionAttemptToken
  | CallLinkDown ConnectionAttemptToken
  | CallTransportFailed ConnectionAttemptToken
  | CallConflict ConnectionAttemptToken

fun conn_step :: "ConnectionAttemptLifecycle \<Rightarrow> ConnectionCall \<Rightarrow> ConnectionAttemptLifecycle" where
  "conn_step s (CallBegin identifier at) = snd (conn_begin s identifier at)"
| "conn_step s (CallRequestRetry t at j) = snd (request_retry s t at j)"
| "conn_step s (CallAdmitRetry t at) = snd (admit_retry s t at)"
| "conn_step s (CallCancelRetry t) = snd (cancel_retry s t)"
| "conn_step s (CallFinishDetection t verified) = snd (finish_detection s t verified)"
| "conn_step s (CallExpire t at) = snd (conn_expire s t at)"
| "conn_step s CallDisconnect = disconnect s"
| "conn_step s (CallConnected t) = snd (conn_connected s t)"
| "conn_step s (CallLinkDown t) = snd (link_down s t)"
| "conn_step s (CallTransportFailed t) = snd (transport_failed s t)"
| "conn_step s (CallConflict t) = snd (conflict s t)"

section \<open>The invariant\<close>

definition conn_inv :: "ConnectionAttemptLifecycle \<Rightarrow> bool" where
  "conn_inv s \<longleftrightarrow>
     (let snap = snapshot s in
      is_none_or (token snap) (\<lambda>t. token_generation t = generation snap)
      \<and> (is_some (deadline snap) \<longleftrightarrow> readiness snap = Pending)
      \<and> (readiness snap \<in> {Pending, Verified, RecordOnly} \<longrightarrow> is_some (token snap))
      \<and> (readiness snap = Verified \<longrightarrow>
           transport snap = LinkConnected \<and> retry_scope s = EstablishedConnection)
      \<and> (readiness snap \<in> {Disconnected, Failed, Conflicted} \<longrightarrow> transport snap = LinkDisconnected)
      \<and> (readiness snap \<in> {Disconnected, Conflicted} \<longrightarrow> token snap = None)
      \<and> (is_some (failed_attempt s) \<longrightarrow> readiness snap = Failed)
      \<and> is_none_or (pending_retry s) (\<lambda>r.
           retry_id r = retry_token s \<and> attempt_number r = retry_attempt s
           \<and> map_option token_platform_identifier (failed_attempt s) = Some (retry_platform_identifier r)
           \<and> (retry_scope s = InitialIdentification \<longrightarrow> attempt_number r \<le> 3)))"

lemmas conn_simps = conn_inv_def Let_def is_current_def

lemma conn_inv_begin: "conn_inv s \<Longrightarrow> conn_inv (snd (conn_begin s i at))"
  by (simp add: conn_simps conn_begin_def begin_attempt_def)

lemma conn_inv_request_retry: "conn_inv s \<Longrightarrow> conn_inv (snd (request_retry s t at j))"
  by (cases "readiness (snapshot s)"; cases "token (snapshot s)"; cases "failed_attempt s"; cases "pending_retry s")
    (auto simp: conn_simps request_retry_def)

lemma conn_inv_admit_retry: "conn_inv s \<Longrightarrow> conn_inv (snd (admit_retry s t at))"
  by (cases "readiness (snapshot s)"; cases "token (snapshot s)"; cases "failed_attempt s"; cases "pending_retry s")
    (auto simp: conn_simps admit_retry_def begin_attempt_def)

lemma conn_inv_cancel_retry: "conn_inv s \<Longrightarrow> conn_inv (snd (cancel_retry s t))"
  by (cases "readiness (snapshot s)"; cases "token (snapshot s)"; cases "failed_attempt s"; cases "pending_retry s")
    (auto simp: conn_simps cancel_retry_def)

lemma conn_inv_finish_detection: "conn_inv s \<Longrightarrow> conn_inv (snd (finish_detection s t v))"
  by (cases "readiness (snapshot s)"; cases "token (snapshot s)"; cases "failed_attempt s"; cases "pending_retry s")
    (auto simp: conn_simps finish_detection_def)

lemma conn_inv_disconnect: "conn_inv (disconnect s)"
  by (simp add: conn_simps disconnect_def)

lemma conn_inv_connected: "conn_inv s \<Longrightarrow> conn_inv (snd (conn_connected s t))"
  by (cases "readiness (snapshot s)"; cases "token (snapshot s)"; cases "failed_attempt s"; cases "pending_retry s")
    (auto simp: conn_simps conn_connected_def)

lemma conn_inv_transport_failed: "conn_inv s \<Longrightarrow> conn_inv (snd (transport_failed s t))"
  by (auto simp: transport_failed_def conn_inv_finish_detection) (simp add: conn_simps disconnect_def)

lemma conn_inv_link_down: "conn_inv s \<Longrightarrow> conn_inv (snd (link_down s t))"
  by (cases "readiness (snapshot s)"; cases "token (snapshot s)"; cases "failed_attempt s"; cases "pending_retry s")
    (auto simp: conn_simps link_down_def transport_failed_def finish_detection_def disconnect_def)

lemma conn_inv_conflict: "conn_inv s \<Longrightarrow> conn_inv (snd (conflict s t))"
  by (cases "readiness (snapshot s)"; cases "token (snapshot s)"; cases "failed_attempt s"; cases "pending_retry s")
    (auto simp: conn_simps conflict_def)

lemma conn_inv_step: "conn_inv s \<Longrightarrow> conn_inv (conn_step s c)"
  by (cases c) (simp_all add: conn_inv_begin conn_inv_request_retry conn_inv_admit_retry
      conn_inv_cancel_retry conn_inv_finish_detection conn_inv_disconnect conn_inv_connected
      conn_inv_transport_failed conn_inv_link_down conn_inv_conflict conn_expire_def)

interpretation conn: reducer conn_step conn_default conn_inv
  by unfold_locales (simp_all add: conn_inv_step, simp add: conn_simps conn_default_def)

text \<open>
  Whatever sequence of calls the platform makes, the published state is coherent: the current
  token carries the current generation; a deadline is set exactly while identification is pending;
  a verified attempt has a token, a connected link and the unbounded retry scope; a failed,
  conflicted or disconnected attempt has no link; and a pending retry timer is the newest one, is
  for the failed device, and is at most the third while the device was never identified.
\<close>

lemma conn_reachable_inv: "conn_inv (foldl conn_step conn_default calls)"
  by (rule conn.inv_run)

section \<open>Retired attempts\<close>

definition conn_generation :: "ConnectionAttemptLifecycle \<Rightarrow> nat" where
  "conn_generation s = unat (generation (snapshot s))"

text \<open>One call moves the generation by at most one, and a new token carries the new generation.\<close>

lemma conn_step_generation:
  assumes "conn_inv s"
  shows "generation (snapshot (conn_step s c)) = generation (snapshot s)
      \<and> (token (snapshot (conn_step s c)) = token (snapshot s) \<or> token (snapshot (conn_step s c)) = None)
    \<or> generation (snapshot (conn_step s c)) = generation (snapshot s) + 1"
  using assms
  by (cases c) (auto simp: conn_begin_def begin_attempt_def request_retry_def admit_retry_def cancel_retry_def
      finish_detection_def conn_expire_def disconnect_def conn_connected_def link_down_def
      transport_failed_def conflict_def Let_def split: option.splits)

lemma conn_retired_step:
  assumes "conn_inv s" and "unat (token_generation t) \<le> conn_generation s" and "\<not> is_current s t"
    and "Suc (conn_generation s) < 2 ^ 64"
  shows "unat (token_generation t) \<le> conn_generation (conn_step s c) \<and> \<not> is_current (conn_step s c) t
    \<and> conn_generation (conn_step s c) \<le> Suc (conn_generation s)"
proof -
  have inc: "unat (generation (snapshot s) + 1) = Suc (conn_generation s)"
    using assms(4) by (simp add: conn_generation_def unat_add_one_less)
  have "conn_inv (conn_step s c)"
    using assms(1) by (rule conn_inv_step)
  then have tok: "token (snapshot (conn_step s c)) = Some t \<Longrightarrow>
      token_generation t = generation (snapshot (conn_step s c))"
    by (simp add: conn_inv_def Let_def)
  show ?thesis
    using conn_step_generation [OF assms(1), of c] tok inc assms(2,3)
    by (auto simp: conn_generation_def is_current_def)
qed

text \<open>
  C23. A retired attempt stays retired: once a token that was issued is no longer current - replaced,
  disconnected, conflicted, failed or exhausted - no later sequence of calls makes it current or
  verified again, as long as the 64-bit generation does not wrap.
\<close>

theorem conn_retired_for_ever:
  assumes "conn_inv s" and "unat (token_generation t) \<le> conn_generation s" and "\<not> is_current s t"
    and "conn_generation s + length calls < 2 ^ 64"
  shows "\<not> is_current (foldl conn_step s calls) t \<and> \<not> is_verified (foldl conn_step s calls) t"
proof -
  have "\<not> is_current (foldl conn_step s calls) t"
    using assms
  proof (induction calls arbitrary: s)
    case (Cons c calls)
    then show ?case
      using conn_retired_step [of s t c] conn_inv_step [of s c] by simp
  qed simp
  then show ?thesis
    by (simp add: is_verified_def verified_attempt_def)
qed

theorem conn_retired_for_ever_witness:
  "\<not> is_verified (foldl conn_step (foldl conn_step conn_default [CallBegin [97] 0, CallDisconnect])
     [CallConnected \<lparr>token_generation = 1, token_platform_identifier = [97]\<rparr>,
      CallFinishDetection \<lparr>token_generation = 1, token_platform_identifier = [97]\<rparr> True])
     \<lparr>token_generation = 1, token_platform_identifier = [97]\<rparr>"
  using conn_retired_for_ever [OF conn.inv_run [of "[CallBegin [97] 0, CallDisconnect]"],
      of "\<lparr>token_generation = 1, token_platform_identifier = [97]\<rparr>"
      "[CallConnected \<lparr>token_generation = 1, token_platform_identifier = [97]\<rparr>,
        CallFinishDetection \<lparr>token_generation = 1, token_platform_identifier = [97]\<rparr> True]"]
  by (simp add: conn_default_def conn_begin_def begin_attempt_def disconnect_def conn_generation_def
      is_current_def Let_def)

section \<open>The retry policy\<close>

definition retry_base_ms :: "nat \<Rightarrow> nat" where
  "retry_base_ms n = min (250 * 2 ^ (n - 1)) 25000"

lemma retry_base_ms_cases:
  "retry_base_ms n \<in> {250, 500, 1000, 2000, 4000, 8000, 16000, 25000}
   \<and> retry_base_ms n = min (250 * 2 ^ min (n - 1) 7) 25000"
proof (cases "n - 1 < 7")
  case True
  then have "n - 1 \<in> {0, 1, 2, 3, 4, 5, 6}"
    by auto
  then show ?thesis
    by (auto simp: retry_base_ms_def)
next
  case False
  then have "(2::nat) ^ 7 \<le> 2 ^ (n - 1)"
    by (intro power_increasing) simp_all
  then show ?thesis
    using False by (simp add: retry_base_ms_def min_def)
qed

lemma unat_push_bit_one: "e \<le> 7 \<Longrightarrow> unat (2 ^ e :: u64) = 2 ^ e"
proof -
  assume "e \<le> 7"
  then have "e \<in> {0, 1, 2, 3, 4, 5, 6, 7}"
    by auto
  then show ?thesis
    by auto
qed

lemma unat_retry_delay_ms:
  "unat (retry_delay_ms n j) =
     (retry_base_ms (unat n) * (800000 + 400 * min (unat j) 1000) + 500000) div 1000000"
proof -
  have jit: "unat (ucast (min j 1000) :: u64) = min (unat j) 1000"
    using unat_bound [of j] by (simp add: unsigned_ucast_eq unat_rust take_bit_nat_eq_self)
  have e: "unat (min (saturating_sub n 1) 7) = min (unat n - 1) 7"
    by (simp add: unat_rust)
  have b: "unat (min (saturating_mul 250 (2 ^ unat (min (saturating_sub n 1) 7))) 25000 :: u64)
      = retry_base_ms (unat n)"
    unfolding e using retry_base_ms_cases [of "unat n"]
    by (simp add: unat_rust unat_push_bit_one) (auto simp: min_def)
  have j2: "unat (800000 + 400 * ucast (min j 1000) :: u64) = 800000 + 400 * min (unat j) 1000"
    using jit by (simp add: unat_word_ariths)
  have "retry_base_ms (unat n) \<le> 25000"
    by (simp add: retry_base_ms_def)
  then have "retry_base_ms (unat n) * (800000 + 400 * min (unat j) 1000) \<le> 25000 * 1200000"
    by (intro mult_mono) simp_all
  then show ?thesis
    unfolding retry_delay_ms_def Let_def unat_div
    by (simp add: unat_saturating_add unat_saturating_mul b j2)
qed

lemma retry_delay_bounds:
  "4 * retry_base_ms (unat n) \<le> 5 * unat (retry_delay_ms n j)
   \<and> 5 * unat (retry_delay_ms n j) \<le> 6 * retry_base_ms (unat n)"
proof -
  have "min (unat j) 1000 \<le> 1000"
    by simp
  then show ?thesis
    using conjunct1 [OF retry_base_ms_cases [of "unat n"]] unfolding unat_retry_delay_ms
    by auto
qed

text \<open>
  The backoff is bounded: a scheduled retry is the next attempt, is for the failed device, and
  its deadline lies 80 to 120 percent of its base delay after the request (saturating at the end of
  the clock), where the base doubles from 250 milliseconds and is capped at 25 seconds, whatever
  jitter the platform supplies.
\<close>

lemma conn_retry_backoff:
  assumes "request_retry s failed at jitter = (Scheduled r, s')"
  shows "unat (attempt_number r) = min (Suc (unat (retry_attempt s))) 255
    \<and> retry_platform_identifier r = token_platform_identifier failed \<and> pending_retry s' = Some r
    \<and> (\<exists>delay. unat (retry_deadline_at r) = min (unat at + delay) (2 ^ 64 - 1)
        \<and> 4 * min (250 * 2 ^ (unat (attempt_number r) - 1)) 25000 \<le> 5 * delay
        \<and> 5 * delay \<le> 6 * min (250 * 2 ^ (unat (attempt_number r) - 1)) 25000)"
proof -
  have r: "attempt_number r = saturating_add (retry_attempt s) 1"
    "retry_deadline_at r = saturating_add at (retry_delay_ms (attempt_number r) jitter)"
    "retry_platform_identifier r = token_platform_identifier failed" "pending_retry s' = Some r"
    using assms by (auto simp: request_retry_def Let_def split: if_splits)
  show ?thesis
    using r(1,3,4) retry_delay_bounds [of "attempt_number r" jitter]
    by (intro conjI exI [of _ "unat (retry_delay_ms (attempt_number r) jitter)"])
      (simp_all add: unat_rust r(2) retry_base_ms_def)
qed

lemma conn_retry_backoff_example:
  "\<exists>r s'. request_retry (snd (conn_begin conn_default [97] 0))
      \<lparr>token_generation = 1, token_platform_identifier = [97]\<rparr> 5000 0 = (Scheduled r, s')
    \<and> unat (attempt_number r) = 1"
proof -
  obtain r s' where "request_retry (snd (conn_begin conn_default [97] 0))
      \<lparr>token_generation = 1, token_platform_identifier = [97]\<rparr> 5000 0 = (Scheduled r, s')"
    by (simp add: conn_default_def conn_begin_def begin_attempt_def request_retry_def is_current_def
        saturating_add_def Let_def)
  then show ?thesis
    using conn_retry_backoff [of "snd (conn_begin conn_default [97] 0)"
        "\<lparr>token_generation = 1, token_platform_identifier = [97]\<rparr>" 5000 0 r s']
    by (simp add: conn_default_def conn_begin_def begin_attempt_def Let_def)
qed

text \<open>The retries scheduled by a run, and the calls that open a new retry budget.\<close>

primrec scheduled_count :: "ConnectionAttemptLifecycle \<Rightarrow> ConnectionCall list \<Rightarrow> nat" where
  "scheduled_count s [] = 0"
| "scheduled_count s (c # cs) =
     (case c of
        CallRequestRetry t at j \<Rightarrow> (case fst (request_retry s t at j) of Scheduled _ \<Rightarrow> 1 | _ \<Rightarrow> 0)
      | _ \<Rightarrow> 0) + scheduled_count (conn_step s c) cs"

fun opens_budget :: "ConnectionCall \<Rightarrow> bool" where
  "opens_budget (CallBegin _ _) = True"
| "opens_budget CallDisconnect = True"
| "opens_budget (CallCancelRetry _) = True"
| "opens_budget (CallFinishDetection _ verified) = verified"
| "opens_budget _ = False"

lemma budget_request:
  assumes "retry_scope s = InitialIdentification"
  shows "retry_scope (snd (request_retry s t at j)) = InitialIdentification
    \<and> (case fst (request_retry s t at j) of Scheduled _ \<Rightarrow> 1 | _ \<Rightarrow> 0)
      + (3 - unat (retry_attempt (snd (request_retry s t at j)))) \<le> 3 - unat (retry_attempt s)"
proof -
  have n: "unat (saturating_add (retry_attempt s) 1) = min (unat (retry_attempt s) + 1) 255"
    by (simp add: unat_rust)
  show ?thesis
    using assms n by (auto simp: request_retry_def Let_def word_less_nat_alt)
qed

lemma budget_step:
  assumes "conn_inv s" and "retry_scope s = InitialIdentification" and "\<not> opens_budget c"
    and "\<And>t at j. c \<noteq> CallRequestRetry t at j"
  shows "retry_scope (conn_step s c) = InitialIdentification
    \<and> retry_attempt (conn_step s c) = retry_attempt s"
proof -
  have "readiness (snapshot s) \<noteq> Verified"
    using assms(1,2) by (auto simp: conn_inv_def Let_def)
  then show ?thesis
    using assms by (cases c) (auto simp: admit_retry_def begin_attempt_def finish_detection_def conn_expire_def
        conn_connected_def link_down_def transport_failed_def conflict_def is_current_def Let_def
        split: option.splits)
qed

lemma scheduled_budget:
  assumes "conn_inv s" and "retry_scope s = InitialIdentification" and "\<forall>c \<in> set calls. \<not> opens_budget c"
  shows "scheduled_count s calls \<le> 3 - unat (retry_attempt s)"
  using assms
proof (induction calls arbitrary: s)
  case (Cons c calls)
  have inv: "conn_inv (conn_step s c)"
    using Cons.prems(1) by (rule conn_inv_step)
  show ?case
  proof (cases "\<exists>t at j. c = CallRequestRetry t at j")
    case True
    then obtain t at j where c: "c = CallRequestRetry t at j"
      by blast
    show ?thesis
      using budget_request [OF Cons.prems(2), of t at j] Cons.IH [OF inv] Cons.prems(3) by (simp add: c)
  next
    case False
    then have "retry_scope (conn_step s c) = InitialIdentification
        \<and> retry_attempt (conn_step s c) = retry_attempt s"
      using budget_step [OF Cons.prems(1,2), of c] Cons.prems(3) by auto
    then have "scheduled_count (conn_step s c) calls \<le> 3 - unat (retry_attempt s)"
      using Cons.IH [OF inv] Cons.prems(3) by simp
    then show ?thesis
      using False by (cases c) simp_all
  qed
qed simp

text \<open>
  An unidentified device has a budget of three retries: from the begin of an attempt, whatever
  the platform calls short of a new begin, a disconnect, a cancelled retry or a verified
  identification, at most three retries are ever scheduled.
\<close>

lemma conn_initial_retry_budget:
  assumes "conn_inv s" and "\<forall>c \<in> set calls. \<not> opens_budget c"
  shows "scheduled_count (snd (conn_begin s identifier at)) calls \<le> 3"
  using scheduled_budget [OF conn_inv_begin [OF assms(1)] _ assms(2)]
  by (simp add: conn_begin_def begin_attempt_def Let_def)

lemma conn_initial_retry_budget_example:
  "scheduled_count (snd (conn_begin conn_default [97] 0))
     [CallRequestRetry \<lparr>token_generation = 1, token_platform_identifier = [97]\<rparr> 5 0,
      CallAdmitRetry 1 400] \<le> 3"
  by (rule conn_initial_retry_budget [OF conn.inv_init]) simp

text \<open>
  A lost wheel is recovered: when the link of a verified attempt goes down, the attempt is no
  longer verified and its retry is scheduled; the timer starts nothing before its deadline or under
  another identity; from the deadline on it starts one attempt, for the same device and under a new
  generation, and not a second one; and when that attempt is connected and identified it is
  verified.
\<close>

lemma conn_lost_wheel_recovers:
  assumes "conn_inv s" and "is_verified s t"
  shows "\<exists>r s2. \<not> is_verified (snd (link_down s t)) t
    \<and> request_retry (snd (link_down s t)) t at jitter = (Scheduled r, s2)
    \<and> (\<forall>id now. id \<noteq> retry_id r \<or> now < retry_deadline_at r \<longrightarrow> admit_retry s2 id now = (None, s2))
    \<and> (\<forall>now. retry_deadline_at r \<le> now \<longrightarrow>
        (\<exists>t' s3. admit_retry s2 (retry_id r) now = (Some t', s3)
          \<and> token_platform_identifier t' = token_platform_identifier t
          \<and> token_generation t' = token_generation t + 2
          \<and> (\<forall>id later. admit_retry s3 id later = (None, s3))
          \<and> is_verified (snd (finish_detection (snd (conn_connected s3 t')) t' True)) t'))"
proof -
  have cur: "token (snapshot s) = Some t" "readiness (snapshot s) = Verified"
    and gen: "token_generation t = generation (snapshot s)"
    using assms by (auto simp: is_verified_def verified_attempt_def is_current_def conn_inv_def Let_def
        split: if_splits)
  let ?s1 = "snd (link_down s t)"
  have s1: "pending_retry ?s1 = None" "failed_attempt ?s1 = Some t" "retry_scope ?s1 = EstablishedConnection"
    "token (snapshot ?s1) = None" "generation (snapshot ?s1) = token_generation t + 1"
    using cur gen by (simp_all add: link_down_def transport_failed_def disconnect_def is_current_def Let_def)
  obtain r s2 where r: "request_retry ?s1 t at jitter = (Scheduled r, s2)"
    and s2: "pending_retry s2 = Some r" "generation (snapshot s2) = token_generation t + 1"
    and rp: "retry_platform_identifier r = token_platform_identifier t"
    using s1 by (simp add: request_retry_def Let_def is_current_def)
  have "\<not> is_verified ?s1 t"
    using s1(4) by (simp add: is_verified_def verified_attempt_def is_current_def)
  then show ?thesis
    using r s2 rp
    by (intro exI [of _ r] exI [of _ s2])
      (auto simp: admit_retry_def begin_attempt_def conn_connected_def finish_detection_def
        is_current_def is_verified_def verified_attempt_def Let_def not_less)
qed

lemma conn_lost_wheel_recovers_example:
  "let t = \<lparr>token_generation = 1, token_platform_identifier = [97]\<rparr>;
       s = foldl conn_step conn_default [CallBegin [97] 0, CallConnected t, CallFinishDetection t True]
   in \<exists>r s2. request_retry (snd (link_down s t)) t 10 0 = (Scheduled r, s2)"
proof -
  let ?t = "\<lparr>token_generation = 1, token_platform_identifier = [97]\<rparr>"
  let ?calls = "[CallBegin [97] 0, CallConnected ?t, CallFinishDetection ?t True]"
  have "is_verified (foldl conn_step conn_default ?calls) ?t"
    by (simp add: conn_default_def conn_begin_def begin_attempt_def conn_connected_def finish_detection_def
        is_current_def is_verified_def verified_attempt_def Let_def)
  from conn_lost_wheel_recovers [OF conn.inv_run this, of 10 0]
  show ?thesis
    unfolding Let_def by blast
qed

end
