(* ===== verification/Capture_Lifecycle.thy ===== *)
theory Capture_Lifecycle
  imports Connection_Lifecycle
begin

text \<open>
  The capture admission owner of \<^verbatim>\<open>cutout-core/src/capture_lifecycle.rs\<close>: generations of writer
  attempts, the stages of one attempt, finish tokens scoped to a retry, the transport a capture may
  own, and the receipts of retired writers.  Shown: the invariant of every reachable state, that
  generations are never reused, that one writer is reserved at a time, that each writer's terminal
  receipt is consumed at most once, and that a failed save can be retried until it is saved.
\<close>

section \<open>State\<close>

type_synonym CaptureGeneration = u64

datatype CaptureOrigin = Automatic | Manual

datatype CaptureTransportOwnership = Borrowed | CaptureOwned

datatype CaptureTransportRelease =
    ReleaseRejected
  | WriterOnly
  | ReleaseOwnedTransport ConnectionAttemptToken

datatype CaptureTransportBinding =
    BindingBorrowed
  | BindingOwned ConnectionAttemptToken

datatype CaptureStage =
    CaptureStarting
  | Recording
  | Saving
  | SaveFailed
  | Finalizing
  | Saved
  | CaptureFailed

datatype CaptureCompletionDisposition =
    CurrentAttempt
  | HistoricalAttempt
  | CompletionRejected

definition reserves_writer :: "CaptureStage \<Rightarrow> bool" where
  "reserves_writer st \<longleftrightarrow> st = CaptureStarting \<or> st = Recording \<or> st = Saving \<or> st = SaveFailed"

record CaptureAttemptSnapshot =
  capture_generation :: CaptureGeneration
  capture_origin :: CaptureOrigin
  capture_stage :: CaptureStage

record CaptureFinishToken =
  finish_generation :: CaptureGeneration
  finish_operation :: u64

record CaptureSessionLifecycle =
  next_generation :: u64
  next_operation :: u64
  capture_current :: "CaptureAttemptSnapshot option"
  capture_transport :: CaptureTransportBinding
  finishing :: "CaptureFinishToken option"
  pending_completions :: "CaptureGeneration set"

definition capture_default :: CaptureSessionLifecycle where
  "capture_default =
     \<lparr>next_generation = 0, next_operation = 0, capture_current = None,
      capture_transport = BindingBorrowed, finishing = None, pending_completions = {}\<rparr>"

section \<open>Operations\<close>

definition admits_result :: "CaptureSessionLifecycle \<Rightarrow> CaptureGeneration \<Rightarrow> bool" where
  "admits_result s g =
     (case capture_current s of
        None \<Rightarrow> False
      | Some a \<Rightarrow>
          capture_generation a = g
          \<and> (case capture_stage a of
               Recording \<Rightarrow> True | Saving \<Rightarrow> True | SaveFailed \<Rightarrow> True | Finalizing \<Rightarrow> True
             | CaptureStarting \<Rightarrow> False | Saved \<Rightarrow> False | CaptureFailed \<Rightarrow> False))"

definition can_start :: "CaptureSessionLifecycle \<Rightarrow> bool" where
  "can_start s = is_none_or (capture_current s) (\<lambda>a. \<not> reserves_writer (capture_stage a))"

definition can_pair :: "CaptureSessionLifecycle \<Rightarrow> bool" where
  "can_pair s = is_none_or (capture_current s)
     (\<lambda>a. capture_origin a = Automatic \<or> \<not> reserves_writer (capture_stage a))"

definition automatic_capture_to_finish :: "CaptureSessionLifecycle \<Rightarrow> CaptureGeneration option" where
  "automatic_capture_to_finish s =
     map_option capture_generation
       (opt_filter (\<lambda>a. capture_origin a = Automatic
          \<and> (capture_stage a = CaptureStarting \<or> capture_stage a = Recording
             \<or> capture_stage a = SaveFailed)) (capture_current s))"

definition begin_with_transport ::
  "CaptureSessionLifecycle \<Rightarrow> CaptureOrigin \<Rightarrow> CaptureTransportOwnership \<Rightarrow> ConnectionAttemptToken option
     \<Rightarrow> CaptureGeneration option \<times> CaptureSessionLifecycle" where
  "begin_with_transport s origin ownership attempt =
     (if \<not> can_start s then (None, s)
      else
        (case (case (ownership, attempt) of
                 (Borrowed, None) \<Rightarrow> Some BindingBorrowed
               | (CaptureOwned, Some t) \<Rightarrow> Some (BindingOwned t)
               | (Borrowed, Some _) \<Rightarrow> None
               | (CaptureOwned, None) \<Rightarrow> None) of
           None \<Rightarrow> (None, s)
         | Some binding \<Rightarrow>
             (case checked_add (next_generation s) 1 of
                None \<Rightarrow> (None, s)
              | Some g \<Rightarrow>
                  (Some g,
                   s\<lparr>next_generation := g,
                     pending_completions :=
                       (case capture_current s of
                          Some previous \<Rightarrow>
                            if capture_stage previous = Finalizing
                            then insert (capture_generation previous) (pending_completions s)
                            else pending_completions s
                        | None \<Rightarrow> pending_completions s),
                     capture_current :=
                       Some \<lparr>capture_generation = g, capture_origin = origin,
                             capture_stage = CaptureStarting\<rparr>,
                     capture_transport := binding,
                     finishing := None\<rparr>))))"

definition capture_begin ::
  "CaptureSessionLifecycle \<Rightarrow> CaptureOrigin \<Rightarrow> CaptureGeneration option \<times> CaptureSessionLifecycle" where
  "capture_begin s origin = begin_with_transport s origin Borrowed None"

definition capture_transition ::
  "CaptureSessionLifecycle \<Rightarrow> CaptureGeneration \<Rightarrow> CaptureStage \<Rightarrow> CaptureStage
     \<Rightarrow> bool \<times> CaptureSessionLifecycle" where
  "capture_transition s g from_stage to_stage =
     (case capture_current s of
        None \<Rightarrow> (False, s)
      | Some a \<Rightarrow>
          if capture_generation a \<noteq> g \<or> capture_stage a \<noteq> from_stage then (False, s)
          else (True, s\<lparr>capture_current := Some (a\<lparr>capture_stage := to_stage\<rparr>)\<rparr>))"

definition writer_started ::
  "CaptureSessionLifecycle \<Rightarrow> CaptureGeneration \<Rightarrow> bool \<times> CaptureSessionLifecycle" where
  "writer_started s g = capture_transition s g CaptureStarting Recording"

definition writer_start_failed ::
  "CaptureSessionLifecycle \<Rightarrow> CaptureGeneration \<Rightarrow> bool \<times> CaptureSessionLifecycle" where
  "writer_start_failed s g = capture_transition s g CaptureStarting CaptureFailed"

definition begin_finish ::
  "CaptureSessionLifecycle \<Rightarrow> CaptureGeneration \<Rightarrow> CaptureFinishToken option \<times> CaptureSessionLifecycle" where
  "begin_finish s g =
     (case capture_current s of
        None \<Rightarrow> (None, s)
      | Some a \<Rightarrow>
          if capture_generation a \<noteq> g \<or> capture_origin a \<noteq> Manual
             \<or> (capture_stage a \<noteq> Recording \<and> capture_stage a \<noteq> SaveFailed)
          then (None, s)
          else (case checked_add (next_operation s) 1 of
                  None \<Rightarrow> (None, s)
                | Some op \<Rightarrow>
                    (let tk = \<lparr>finish_generation = g, finish_operation = op\<rparr>
                     in (Some tk,
                         s\<lparr>next_operation := op,
                           capture_current := Some (a\<lparr>capture_stage := Saving\<rparr>),
                           finishing := Some tk\<rparr>))))"

definition finish_flush ::
  "CaptureSessionLifecycle \<Rightarrow> CaptureFinishToken \<Rightarrow> bool \<Rightarrow> bool \<times> CaptureSessionLifecycle" where
  "finish_flush s tk succeeded =
     (if finishing s \<noteq> Some tk then (False, s)
      else (case capture_current s of
              None \<Rightarrow> (False, s)
            | Some a \<Rightarrow>
                if capture_generation a \<noteq> finish_generation tk \<or> capture_stage a \<noteq> Saving then (False, s)
                else (succeeded,
                      s\<lparr>finishing := None,
                        capture_current :=
                          Some (a\<lparr>capture_stage := (if succeeded then Finalizing else SaveFailed)\<rparr>)\<rparr>)))"

definition finish_flush_with_transport ::
  "CaptureSessionLifecycle \<Rightarrow> CaptureFinishToken \<Rightarrow> bool \<Rightarrow> ConnectionAttemptToken option
     \<Rightarrow> CaptureTransportRelease \<times> CaptureSessionLifecycle" where
  "finish_flush_with_transport s tk succeeded current_token =
     (case finish_flush s tk succeeded of
        (False, s') \<Rightarrow> (ReleaseRejected, s')
      | (True, s') \<Rightarrow>
          (case capture_transport s' of
             BindingOwned owned \<Rightarrow>
               if current_token = Some owned then ReleaseOwnedTransport owned else WriterOnly
           | BindingBorrowed \<Rightarrow> WriterOnly,
           s'\<lparr>capture_transport := BindingBorrowed\<rparr>))"

definition writer_failed ::
  "CaptureSessionLifecycle \<Rightarrow> CaptureGeneration \<Rightarrow> bool \<times> CaptureSessionLifecycle" where
  "writer_failed s g =
     (case capture_current s of
        None \<Rightarrow> (False, s)
      | Some a \<Rightarrow>
          if capture_generation a \<noteq> g
             \<or> (capture_stage a \<noteq> Recording \<and> capture_stage a \<noteq> SaveFailed)
          then (False, s)
          else (True, s\<lparr>capture_current := Some (a\<lparr>capture_stage := SaveFailed\<rparr>)\<rparr>))"

definition retire :: "CaptureSessionLifecycle \<Rightarrow> CaptureGeneration \<Rightarrow> bool \<times> CaptureSessionLifecycle" where
  "retire s g =
     (case capture_current s of
        None \<Rightarrow> (False, s)
      | Some a \<Rightarrow>
          if capture_generation a \<noteq> g \<or> capture_stage a = CaptureStarting
             \<or> (\<not> reserves_writer (capture_stage a) \<and> capture_stage a \<noteq> Finalizing)
          then (False, s)
          else (True, s\<lparr>capture_current := Some (a\<lparr>capture_stage := Finalizing\<rparr>), finishing := None\<rparr>))"

definition complete ::
  "CaptureSessionLifecycle \<Rightarrow> CaptureGeneration \<Rightarrow> bool
     \<Rightarrow> CaptureCompletionDisposition \<times> CaptureSessionLifecycle" where
  "complete s g succeeded =
     (case capture_transition s g Finalizing (if succeeded then Saved else CaptureFailed) of
        (True, s') \<Rightarrow> (CurrentAttempt, s')
      | (False, s') \<Rightarrow>
          if g \<in> pending_completions s'
          then (HistoricalAttempt, s'\<lparr>pending_completions := pending_completions s' - {g}\<rparr>)
          else (CompletionRejected, s'))"

section \<open>Runs\<close>

datatype CaptureCall =
    BeginCapture CaptureOrigin CaptureTransportOwnership "ConnectionAttemptToken option"
  | WriterStarted CaptureGeneration
  | WriterStartFailed CaptureGeneration
  | BeginFinish CaptureGeneration
  | FinishFlush CaptureFinishToken bool "ConnectionAttemptToken option"
  | WriterFailed CaptureGeneration
  | Retire CaptureGeneration
  | Complete CaptureGeneration bool

fun capture_step :: "CaptureSessionLifecycle \<Rightarrow> CaptureCall \<Rightarrow> CaptureSessionLifecycle" where
  "capture_step s (BeginCapture origin ownership t) = snd (begin_with_transport s origin ownership t)"
| "capture_step s (WriterStarted g) = snd (writer_started s g)"
| "capture_step s (WriterStartFailed g) = snd (writer_start_failed s g)"
| "capture_step s (BeginFinish g) = snd (begin_finish s g)"
| "capture_step s (FinishFlush tk ok t) = snd (finish_flush_with_transport s tk ok t)"
| "capture_step s (WriterFailed g) = snd (writer_failed s g)"
| "capture_step s (Retire g) = snd (retire s g)"
| "capture_step s (Complete g ok) = snd (complete s g ok)"

text \<open>The generation a call hands out.\<close>

fun capture_issue :: "CaptureSessionLifecycle \<Rightarrow> CaptureCall \<Rightarrow> CaptureGeneration option \<times> CaptureSessionLifecycle" where
  "capture_issue s (BeginCapture origin ownership t) = begin_with_transport s origin ownership t"
| "capture_issue s c = (None, capture_step s c)"

section \<open>The invariant\<close>

definition capture_inv :: "CaptureSessionLifecycle \<Rightarrow> bool" where
  "capture_inv s \<longleftrightarrow>
     (case capture_current s of
        None \<Rightarrow> next_generation s = 0 \<and> pending_completions s = {} \<and> finishing s = None
      | Some a \<Rightarrow>
          capture_generation a = next_generation s
          \<and> (capture_stage a = Saving \<longrightarrow> capture_origin a = Manual)
          \<and> (case finishing s of
               None \<Rightarrow> capture_stage a \<noteq> Saving
             | Some tk \<Rightarrow> capture_stage a = Saving \<and> finish_generation tk = capture_generation a
                 \<and> finish_operation tk = next_operation s))
     \<and> (\<forall>g \<in> pending_completions s. g < next_generation s)"

lemmas capture_ops = begin_with_transport_def capture_transition_def writer_started_def
  writer_start_failed_def begin_finish_def finish_flush_def finish_flush_with_transport_def
  writer_failed_def retire_def complete_def

lemma checked_add_one_less: "checked_add (n :: u64) 1 = Some m \<Longrightarrow> n < m"
  by (drule checked_add_SomeD) (simp add: word_less_nat_alt)

lemma capture_inv_begin: "capture_inv s \<Longrightarrow> capture_inv (snd (begin_with_transport s org ow t))"
  by (auto simp: capture_inv_def begin_with_transport_def dest!: checked_add_one_less
      split: option.splits CaptureTransportOwnership.splits intro: less_trans)

lemma capture_inv_transition:
  "capture_inv s \<Longrightarrow> f \<noteq> Saving \<Longrightarrow> t \<noteq> Saving \<Longrightarrow> capture_inv (snd (capture_transition s g f t))"
  by (auto simp: capture_inv_def capture_transition_def split: option.splits)

lemma capture_inv_begin_finish: "capture_inv s \<Longrightarrow> capture_inv (snd (begin_finish s g))"
  by (auto simp: capture_inv_def begin_finish_def Let_def split: option.splits)

lemma capture_inv_flush: "capture_inv s \<Longrightarrow> capture_inv (snd (finish_flush s tk ok))"
  by (cases "capture_current s"; cases "finishing s") (simp_all add: capture_inv_def finish_flush_def, auto)

lemma capture_inv_transport: "capture_inv (s\<lparr>capture_transport := b\<rparr>) = capture_inv s"
  by (cases "capture_current s"; cases "finishing s") (simp_all add: capture_inv_def)

lemma capture_inv_flush_transport: "capture_inv s \<Longrightarrow> capture_inv (snd (finish_flush_with_transport s tk ok t))"
  using capture_inv_flush [of s tk ok]
  by (auto simp: finish_flush_with_transport_def capture_inv_transport split: prod.splits bool.splits)

lemma capture_inv_others:
  "capture_inv s \<Longrightarrow> capture_inv (snd (writer_failed s g))"
  "capture_inv s \<Longrightarrow> capture_inv (snd (retire s g))"
  by (auto simp: capture_inv_def writer_failed_def retire_def split: option.splits)

lemma capture_inv_complete: "capture_inv s \<Longrightarrow> capture_inv (snd (complete s g ok))"
  using capture_inv_transition [of s Finalizing "if ok then Saved else CaptureFailed" g]
  by (auto simp: complete_def split: prod.splits bool.splits if_splits)
    (auto simp: capture_inv_def split: option.splits)

lemma capture_inv_step: "capture_inv s \<Longrightarrow> capture_inv (capture_step s c)"
  by (cases c) (simp_all add: capture_inv_begin capture_inv_transition capture_inv_begin_finish
      capture_inv_flush_transport capture_inv_others capture_inv_complete writer_started_def
      writer_start_failed_def)

interpretation capture: reducer capture_step capture_default capture_inv
  by unfold_locales (simp_all add: capture_inv_step, simp add: capture_inv_def capture_default_def)

lemma capture_step_generation:
  assumes "\<And>org ow t. c \<noteq> BeginCapture org ow t"
  shows "next_generation (capture_step s c) = next_generation s
    \<and> map_option capture_generation (capture_current (capture_step s c)) =
      map_option capture_generation (capture_current s)"
  using assms by (cases c) (auto simp: capture_ops Let_def split: option.splits prod.splits bool.splits if_splits)

interpretation capture_ids: identity_source capture_issue next_generation
  "\<lambda>s. map_option capture_generation (capture_current s)"
proof
  show "unat n = Suc (unat (next_generation s)) \<and> next_generation s' = n
      \<and> map_option capture_generation (capture_current s') = Some n"
    if "capture_issue s c = (Some n, s')" for s c n s'
    using that by (cases c) (auto simp: begin_with_transport_def dest!: checked_add_SomeD
        split: if_splits option.splits CaptureTransportOwnership.splits)
  show "next_generation s' = next_generation s
      \<and> (map_option capture_generation (capture_current s') = None
         \<or> map_option capture_generation (capture_current s') = map_option capture_generation (capture_current s))"
    if "capture_issue s c = (None, s')" for s c s'
    using that capture_step_generation [of c s]
    by (cases c) (auto simp: begin_with_transport_def
        split: if_splits option.splits CaptureTransportOwnership.splits)
qed

section \<open>Properties\<close>

text \<open>
  Every reachable capture state is coherent: the current attempt carries the newest
  generation; exactly one finish token is outstanding exactly while an explicit recording saves, and
  it is for that recording and the newest retry; and receipts are awaited only for older writers.
\<close>

lemma capture_reachable_inv: "capture_inv (foldl capture_step capture_default calls)"
  by (rule capture.inv_run)

text \<open>The capture owner while a writer is reserved: no second one is admitted.\<close>

lemma capture_exclusive:
  assumes "capture_current s = Some a" and "reserves_writer (capture_stage a)"
  shows "begin_with_transport s org ow t = (None, s)"
  using assms by (simp add: begin_with_transport_def can_start_def)

text \<open>The receipts for one generation that a run accepts, and whether one can still be accepted.\<close>

primrec receipts :: "CaptureGeneration \<Rightarrow> CaptureSessionLifecycle \<Rightarrow> CaptureCall list \<Rightarrow> nat" where
  "receipts g s [] = 0"
| "receipts g s (c # cs) =
     (case c of
        Complete g' ok \<Rightarrow> if g' = g \<and> fst (complete s g' ok) \<noteq> CompletionRejected then 1 else 0
      | _ \<Rightarrow> 0) + receipts g (capture_step s c) cs"

definition receipt_open :: "CaptureGeneration \<Rightarrow> CaptureSessionLifecycle \<Rightarrow> nat" where
  "receipt_open g s =
     (if next_generation s < g \<or> g \<in> pending_completions s
         \<or> is_some_and (capture_current s)
             (\<lambda>a. capture_generation a = g \<and> capture_stage a \<noteq> Saved \<and> capture_stage a \<noteq> CaptureFailed)
      then 1 else 0)"

lemma next_generation_mono:
  "next_generation s \<le> next_generation (capture_step s c)"
proof (cases "\<exists>org ow t. c = BeginCapture org ow t")
  case True
  then show ?thesis
    by (auto simp: begin_with_transport_def dest!: checked_add_one_less
        split: option.splits CaptureTransportOwnership.splits)
next
  case False
  then show ?thesis
    using capture_step_generation [of c s] by auto
qed

lemma receipt_open_begin:
  assumes "capture_inv s"
  shows "receipt_open g (snd (begin_with_transport s org ow t)) \<le> receipt_open g s"
proof -
  have "checked_add n 1 = Some m \<Longrightarrow> (n :: u64) < m \<and> (\<forall>k. n < k \<longrightarrow> m \<le> k)" for n m
    by (drule checked_add_SomeD) (auto simp: word_less_nat_alt word_le_nat_alt)
  then show ?thesis
    using assms
    by (fastforce simp: receipt_open_def begin_with_transport_def capture_inv_def can_start_def
        reserves_writer_def split: option.splits CaptureTransportOwnership.splits if_splits)
qed

lemma receipt_open_complete:
  assumes "capture_inv s"
  shows "(if fst (complete s g ok) \<noteq> CompletionRejected then 1 else 0) + receipt_open g (snd (complete s g ok))
      \<le> receipt_open g s"
  using assms by (auto simp: receipt_open_def complete_def capture_transition_def capture_inv_def
      split: option.splits if_splits)

lemma receipt_open_complete_other:
  assumes "g' \<noteq> g"
  shows "receipt_open g (snd (complete s g' ok)) \<le> receipt_open g s"
  using assms by (auto simp: receipt_open_def complete_def capture_transition_def
      split: option.splits if_splits)

lemma receipt_open_step:
  assumes "capture_inv s"
  shows "(case c of
        Complete g' ok \<Rightarrow> if g' = g \<and> fst (complete s g' ok) \<noteq> CompletionRejected then 1 else 0
      | _ \<Rightarrow> 0) + receipt_open g (capture_step s c) \<le> receipt_open g s"
proof (cases c)
  case (BeginCapture org ow t)
  then show ?thesis
    using receipt_open_begin [OF assms] by simp
next
  case (Complete g' ok)
  then show ?thesis
    using receipt_open_complete [OF assms, of g ok] receipt_open_complete_other [of g' g s ok]
    by (cases "g' = g") auto
qed (auto simp: receipt_open_def capture_ops reserves_writer_def Let_def
    split: option.splits if_splits prod.splits bool.splits)

text \<open>
  A writer's terminal receipt is consumed at most once: whatever the order of starts, failures,
  retirements and receipts, for each generation at most one completion is accepted, as the current
  or as a historical attempt.
\<close>

lemma capture_receipt_once: "receipts g capture_default calls \<le> 1"
proof -
  have "receipts g s calls \<le> receipt_open g s" if "capture_inv s" for s
    using that
  proof (induction calls arbitrary: s)
    case (Cons c calls)
    then show ?case
      using receipt_open_step [OF Cons.prems, where c = c and g = g] Cons.IH [OF capture_inv_step [OF Cons.prems, of c]]
      by simp
  qed simp
  from this [OF capture.inv_init] show ?thesis
    by (simp add: receipt_open_def split: if_splits)
qed

text \<open>
  Generations are never reused: over any run from a fresh owner the generations handed out are
  strictly increasing, and a generation that was replaced never becomes the current one again.
\<close>

lemma capture_generations_fresh:
  "distinct (capture_ids.issued capture_default calls) \<and> sorted (capture_ids.issued capture_default calls)"
  using capture_ids.issued_fresh [of capture_default calls] issued_above_distinct issued_above_sorted by blast

text \<open>
  A save can be retried until it succeeds: while an explicit recording is recording or its save
  failed, finishing hands out a token; no other token completes the flush; a failed flush leaves the
  recording ready for the next try; and a successful one lets the writer's receipt save it.
\<close>

lemma capture_save_retryable:
  assumes "capture_inv s" and "capture_current s = Some a" and "capture_origin a = Manual"
    and "capture_stage a = Recording \<or> capture_stage a = SaveFailed" and "next_operation s \<noteq> - 1"
  shows "\<exists>tk s1. begin_finish s (capture_generation a) = (Some tk, s1)
    \<and> (\<forall>tk' ok. tk' \<noteq> tk \<longrightarrow> finish_flush s1 tk' ok = (False, s1))
    \<and> (\<exists>s2. finish_flush s1 tk False = (False, s2)
         \<and> capture_current s2 = Some (a\<lparr>capture_stage := SaveFailed\<rparr>))
    \<and> (\<exists>s2 s3. finish_flush s1 tk True = (True, s2)
         \<and> complete s2 (capture_generation a) True = (CurrentAttempt, s3)
         \<and> capture_current s3 = Some (a\<lparr>capture_stage := Saved\<rparr>))"
proof -
  have "unat (next_operation s) \<noteq> 2 ^ 64 - 1"
  proof
    assume "unat (next_operation s) = 2 ^ 64 - 1"
    then have "unat (next_operation s) = unat (- 1 :: u64)"
      by simp
    then show False
      using assms(5) by (simp only: word_unat_eq_iff [symmetric])
  qed
  then have "unat (next_operation s) + 1 < 2 ^ 64"
    using unat_less_2p64 [of "next_operation s"] by simp
  then have "checked_add (next_operation s) 1 = Some (next_operation s + 1)"
    by (simp add: checked_add_def)
  then show ?thesis
    using assms(2-4)
    by (auto simp: begin_finish_def finish_flush_def complete_def capture_transition_def Let_def)
qed

lemma capture_save_retryable_example:
  "let s = foldl capture_step capture_default [BeginCapture Manual Borrowed None, WriterStarted 1]
   in \<exists>tk s1. begin_finish s 1 = (Some tk, s1)"
proof -
  let ?calls = "[BeginCapture Manual Borrowed None, WriterStarted 1]"
  let ?a = "\<lparr>capture_generation = 1, capture_origin = Manual, capture_stage = Recording\<rparr>"
  have "capture_current (foldl capture_step capture_default ?calls) = Some ?a"
    "next_operation (foldl capture_step capture_default ?calls) = 0"
    by (simp_all add: capture_default_def begin_with_transport_def can_start_def checked_add_def
        writer_started_def capture_transition_def)
  then show ?thesis
    using capture_save_retryable [OF capture.inv_run, of ?calls ?a] by (auto simp: Let_def)
qed

end
