(* ===== verification/Camera.thy ===== *)
theory Camera
  imports Interfaces Core_Units
begin

text \<open>
  The ride-camera state of \<^verbatim>\<open>cutout-core/src/camera.rs\<close>: the bounded list of media associations
  with replacement and eviction, and the preview and recording observations with the generations
  that retire asynchronous work.  Shown: the list keeps at most 64 associations with distinct keys,
  a recorded association is found and the others are kept in order except an evicted oldest one, and
  invalidation retires every token.
\<close>

section \<open>Media associations\<close>

definition CAMERA_MAX_MEDIA_PATH_BYTES :: nat where
  "CAMERA_MAX_MEDIA_PATH_BYTES = 256"

definition CAMERA_MAX_CAMERA_TIME_BYTES :: nat where
  "CAMERA_MAX_CAMERA_TIME_BYTES = 32"

definition CAMERA_MAX_RIDE_CAPTURE_NAME_BYTES :: nat where
  "CAMERA_MAX_RIDE_CAPTURE_NAME_BYTES = 128"

definition CAMERA_MAX_PROVENANCE_RECORDS :: nat where
  "CAMERA_MAX_PROVENANCE_RECORDS = 64"

datatype CameraSourceKind = NovatekR3Pro | Rtsp | Fixture

datatype CameraClockUncertainty = ClockUnknown | ClockMilliseconds u64

datatype CameraMediaProvenanceError =
    EmptyCameraPath
  | CameraPathTooLong
  | CameraTimeTooLong
  | EmptyRideCaptureFileName
  | RideCaptureFileNameTooLong

record CameraMediaCaptureTiming =
  captured_at_monotonic :: MonotonicTimestamp
  captured_at_wall_clock :: u64
  clock_uncertainty :: CameraClockUncertainty

record CameraMediaProvenance =
  media_source :: CameraSourceKind
  camera_path :: rust_str
  size_bytes :: u64
  camera_timecode :: u64
  camera_time :: rust_str
  ride_capture_file_name :: rust_str
  media_timing :: CameraMediaCaptureTiming

definition provenance_new ::
  "CameraSourceKind \<Rightarrow> rust_str \<Rightarrow> u64 \<Rightarrow> u64 \<Rightarrow> rust_str \<Rightarrow> rust_str \<Rightarrow> CameraMediaCaptureTiming
     \<Rightarrow> CameraMediaProvenanceError + CameraMediaProvenance" where
  "provenance_new source path bytes timecode shown_time file_name timing =
     (if path = [] then Inl EmptyCameraPath
      else if file_name = [] then Inl EmptyRideCaptureFileName
      else if CAMERA_MAX_MEDIA_PATH_BYTES < utf8_len path then Inl CameraPathTooLong
      else if CAMERA_MAX_CAMERA_TIME_BYTES < utf8_len shown_time then Inl CameraTimeTooLong
      else if CAMERA_MAX_RIDE_CAPTURE_NAME_BYTES < utf8_len file_name then Inl RideCaptureFileNameTooLong
      else Inr \<lparr>media_source = source, camera_path = path, size_bytes = bytes,
                camera_timecode = timecode, camera_time = shown_time,
                ride_capture_file_name = file_name, media_timing = timing\<rparr>)"

definition media_key :: "CameraMediaProvenance \<Rightarrow> CameraSourceKind \<times> rust_str \<times> rust_str" where
  "media_key r = (media_source r, camera_path r, ride_capture_file_name r)"

type_synonym CameraProvenanceState = "CameraMediaProvenance list"

text \<open>Replacing the first record with the same key, when there is one.\<close>

fun replace_media :: "CameraMediaProvenance \<Rightarrow> CameraProvenanceState \<Rightarrow> CameraProvenanceState option" where
  "replace_media r [] = None"
| "replace_media r (x # xs) =
     (if media_key x = media_key r then Some (r # xs) else map_option ((#) x) (replace_media r xs))"

definition record_media :: "CameraProvenanceState \<Rightarrow> CameraMediaProvenance \<Rightarrow> CameraProvenanceState" where
  "record_media records r =
     (case replace_media r records of
        Some records' \<Rightarrow> records'
      | None \<Rightarrow>
          (let kept = (if length records = CAMERA_MAX_PROVENANCE_RECORDS then drop 1 records else records)
           in if length kept < CAMERA_MAX_PROVENANCE_RECORDS then kept @ [r] else kept))"

definition provenance_clear :: "CameraProvenanceState \<Rightarrow> CameraProvenanceState" where
  "provenance_clear records = []"

section \<open>The camera session\<close>

datatype CameraPreviewState =
    PreviewStopped
  | Buffering
  | Live
  | PreviewStale
  | Interrupted
  | PreviewUnavailable

datatype CameraOnboardRecordingState = OnboardUnknown | OnboardStopped | OnboardRecording

record CameraSessionState =
  camera_preview :: CameraPreviewState
  onboard_recording :: CameraOnboardRecordingState
  camera_generation :: u64
  preview_generation :: u64
  discovery_generation :: u64
  camera_revision :: u64

definition camera_default :: CameraSessionState where
  "camera_default =
     \<lparr>camera_preview = PreviewStopped, onboard_recording = OnboardUnknown, camera_generation = 0,
      preview_generation = 0, discovery_generation = 0, camera_revision = 0\<rparr>"

definition camera_is_current :: "CameraSessionState \<Rightarrow> u64 \<Rightarrow> bool" where
  "camera_is_current c t \<longleftrightarrow> camera_generation c = t"

definition is_preview_current :: "CameraSessionState \<Rightarrow> u64 \<Rightarrow> bool" where
  "is_preview_current c t \<longleftrightarrow> preview_generation c = t"

definition is_discovery_current :: "CameraSessionState \<Rightarrow> u64 \<Rightarrow> bool" where
  "is_discovery_current c t \<longleftrightarrow> discovery_generation c = t"

definition advance_generation :: "CameraSessionState \<Rightarrow> CameraSessionState" where
  "advance_generation c =
     c\<lparr>camera_generation := camera_generation c + 1, camera_revision := camera_revision c + 1\<rparr>"

definition advance_preview_generation :: "CameraSessionState \<Rightarrow> CameraSessionState" where
  "advance_preview_generation c =
     c\<lparr>preview_generation := preview_generation c + 1, camera_revision := camera_revision c + 1\<rparr>"

definition advance_discovery_generation :: "CameraSessionState \<Rightarrow> CameraSessionState" where
  "advance_discovery_generation c =
     c\<lparr>discovery_generation := discovery_generation c + 1, camera_revision := camera_revision c + 1\<rparr>"

definition camera_invalidate :: "CameraSessionState \<Rightarrow> CameraSessionState" where
  "camera_invalidate c =
     (advance_discovery_generation (advance_preview_generation (advance_generation c)))
       \<lparr>camera_preview := PreviewStopped, onboard_recording := OnboardUnknown\<rparr>"

definition observe_preview :: "CameraSessionState \<Rightarrow> CameraPreviewState \<Rightarrow> CameraSessionState" where
  "observe_preview c p =
     (if camera_preview c \<noteq> p
      then c\<lparr>camera_preview := p, camera_revision := camera_revision c + 1\<rparr> else c)"

definition observe_onboard_recording ::
  "CameraSessionState \<Rightarrow> CameraOnboardRecordingState \<Rightarrow> CameraSessionState" where
  "observe_onboard_recording c r =
     (if onboard_recording c \<noteq> r
      then c\<lparr>onboard_recording := r, camera_revision := camera_revision c + 1\<rparr> else c)"

section \<open>Properties\<close>

definition provenance_inv :: "CameraProvenanceState \<Rightarrow> bool" where
  "provenance_inv records \<longleftrightarrow> length records \<le> 64 \<and> distinct (map media_key records)"

lemma replace_media_Some:
  assumes "replace_media r records = Some records'"
  shows "map media_key records' = map media_key records \<and> r \<in> set records'
    \<and> filter (\<lambda>x. media_key x \<noteq> media_key r) records' = filter (\<lambda>x. media_key x \<noteq> media_key r) records"
  using assms by (induction r records arbitrary: records' rule: replace_media.induct) (auto split: if_splits)

lemma replace_media_None: "replace_media r records = None \<longleftrightarrow> (\<forall>x \<in> set records. media_key x \<noteq> media_key r)"
  by (induction r records rule: replace_media.induct) auto

lemma record_media_new:
  assumes "provenance_inv records" and "replace_media r records = None"
  shows "record_media records r = (if length records = 64 then tl records else records) @ [r]"
  using assms by (auto simp: record_media_def provenance_inv_def CAMERA_MAX_PROVENANCE_RECORDS_def Let_def drop_Suc)

lemma provenance_inv_record: "provenance_inv records \<Longrightarrow> provenance_inv (record_media records r)"
proof (cases "replace_media r records")
  case None
  assume inv: "provenance_inv records"
  show ?thesis
    using record_media_new [OF inv None] inv None [unfolded replace_media_None]
    by (cases records) (auto simp: provenance_inv_def)
next
  case (Some records')
  assume "provenance_inv records"
  then show ?thesis
    using Some replace_media_Some [OF Some] length_map [of media_key records'] length_map [of media_key records]
    by (simp add: record_media_def provenance_inv_def)
qed

interpretation provenance: reducer record_media "[]" provenance_inv
  by unfold_locales (simp_all add: provenance_inv_record, simp add: provenance_inv_def)

lemma filter_key_None:
  "replace_media r records = None \<Longrightarrow> filter (\<lambda>x. media_key x \<noteq> media_key r) records = records"
  by (auto simp: replace_media_None filter_id_conv)

text \<open>
  Media associations are bounded and faithful: over any sequence of recorded associations at
  most 64 are kept, no two for the same file and capture; a record just made is kept, and the
  others are kept unchanged and in order, save that the oldest one is evicted when a new association
  arrives at capacity.
\<close>

lemma camera_provenance_bounded:
  fixes earlier :: "CameraMediaProvenance list" and r :: CameraMediaProvenance
  defines "kept \<equiv> foldl record_media [] earlier"
  shows "provenance_inv (record_media kept r) \<and> r \<in> set (record_media kept r)
    \<and> filter (\<lambda>x. media_key x \<noteq> media_key r) (record_media kept r) =
       (if length kept = 64 \<and> media_key r \<notin> set (map media_key kept) then tl kept
        else filter (\<lambda>x. media_key x \<noteq> media_key r) kept)"
proof -
  have inv: "provenance_inv kept"
    unfolding kept_def by (rule provenance.inv_run)
  show ?thesis
  proof (cases "replace_media r kept")
    case None
    have "set (tl kept) \<subseteq> set kept"
      by (cases kept) auto
    then have "filter (\<lambda>x. media_key x \<noteq> media_key r) (tl kept) = tl kept"
      using None by (auto simp: replace_media_None filter_id_conv)
    then show ?thesis
      using None provenance_inv_record [OF inv, of r] record_media_new [OF inv None] filter_key_None [OF None]
      by (auto simp: replace_media_None image_iff)
  next
    case (Some records')
    then have "media_key r \<in> set (map media_key kept)"
      using replace_media_None [of r kept] by (auto simp: image_iff) metis
    then show ?thesis
      using Some provenance_inv_record [OF inv, of r] replace_media_Some [OF Some] by (simp add: record_media_def)
  qed
qed

text \<open>Invalidation retires the three kinds of tokens and forgets the observations.\<close>

lemma camera_invalidate_retires:
  "\<not> camera_is_current (camera_invalidate c) (camera_generation c)"
  "\<not> is_preview_current (camera_invalidate c) (preview_generation c)"
  "\<not> is_discovery_current (camera_invalidate c) (discovery_generation c)"
  "camera_preview (camera_invalidate c) = PreviewStopped"
  "onboard_recording (camera_invalidate c) = OnboardUnknown"
  by (simp_all add: camera_invalidate_def camera_is_current_def is_preview_current_def is_discovery_current_def
      advance_generation_def advance_preview_generation_def advance_discovery_generation_def)

end
