(* ===== verification/Phone_Drive.thy ===== *)
theory Phone_Drive
  imports Interfaces Vesc_Frame
begin

text \<open>
  Phone throttle and brake input of \<^verbatim>\<open>cutout-core/src/phone_drive.rs\<close>: current budgets parsed from
  text, the gesture state with its input generations, and the motor-current frame that
  \<^verbatim>\<open>cutout-protocols/src/vesc_codec.rs\<close> builds from an admitted request.  Shown: parsed budgets are in
  range and printing round trips, a press is only ever the unbroken hold of one contact in one
  region that began after everything was released, cancelled input generations are dead, and the
  frame carries the requested current in a frame the VESC parser accepts.
\<close>

section \<open>Budgets\<close>

record PhoneDriveLimits =
  throttle_milliamps :: u32
  brake_milliamps :: u32

datatype PhoneDriveLimitsError = PhoneDriveLimitsError

definition limits_default :: PhoneDriveLimits where
  "limits_default = \<lparr>throttle_milliamps = 3000, brake_milliamps = 3000\<rparr>"

definition limits_new :: "u32 \<Rightarrow> u32 \<Rightarrow> PhoneDriveLimitsError + PhoneDriveLimits" where
  "limits_new throttle brake =
     (if \<not> (1 \<le> throttle \<and> throttle \<le> 500000) \<or> \<not> (1 \<le> brake \<and> brake \<le> 500000)
      then Inl PhoneDriveLimitsError
      else Inr \<lparr>throttle_milliamps = throttle, brake_milliamps = brake\<rparr>)"

text \<open>\<open>str::parse\<close> on a text of digits: its value, or an error when it does not fit 32 bits.\<close>

definition parse_u32 :: "rust_str \<Rightarrow> u32 option" where
  "parse_u32 ds =
     (if ds = [] \<or> \<not> list_all is_ascii_digit ds then None
      else if digits_value ds < 2 ^ 32 then Some (of_nat (digits_value ds)) else None)"

text \<open>\<open>split_once('.')\<close>; the point is code 46.\<close>

fun split_once_point :: "rust_str \<Rightarrow> (rust_str \<times> rust_str) option" where
  "split_once_point [] = None"
| "split_once_point (c # cs) =
     (if c = 46 then Some ([], cs)
      else map_option (\<lambda>(whole, fraction). (c # whole, fraction)) (split_once_point cs))"

definition parse_amp_fraction :: "rust_str option \<Rightarrow> PhoneDriveLimitsError + u32" where
  "parse_amp_fraction fraction =
     (case fraction of
        None \<Rightarrow> Inr 0
      | Some value \<Rightarrow>
          (case (if utf8_len value = 1 then Some 100 else if utf8_len value = 2 then Some 10
                 else if utf8_len value = 3 then Some 1 else None) of
             None \<Rightarrow> Inl PhoneDriveLimitsError
           | Some scale \<Rightarrow>
               if \<not> list_all is_ascii_digit value then Inl PhoneDriveLimitsError
               else (case parse_u32 value of
                       None \<Rightarrow> Inl PhoneDriveLimitsError
                     | Some v \<Rightarrow> Inr (v * scale))))"

definition parse_amp_text :: "rust_str \<Rightarrow> PhoneDriveLimitsError + u32" where
  "parse_amp_text text0 =
     (let text = str_trim text0;
          (whole, fraction) = (case split_once_point text of
                                 Some (w, f) \<Rightarrow> (w, Some f)
                               | None \<Rightarrow> (text, None))
      in if whole = [] \<or> \<not> list_all is_ascii_digit whole then Inl PhoneDriveLimitsError
         else (case parse_amp_fraction fraction of
                 Inl e \<Rightarrow> Inl e
               | Inr frac \<Rightarrow>
                   (case parse_u32 whole of
                      None \<Rightarrow> Inl PhoneDriveLimitsError
                    | Some w \<Rightarrow>
                        (case Option.bind (checked_mul w 1000) (\<lambda>v. checked_add v frac) of
                           None \<Rightarrow> Inl PhoneDriveLimitsError
                         | Some v \<Rightarrow> Inr v))))"

definition limits_from_amp_text :: "rust_str \<Rightarrow> rust_str \<Rightarrow> PhoneDriveLimitsError + PhoneDriveLimits" where
  "limits_from_amp_text throttle brake =
     (case parse_amp_text throttle of
        Inl e \<Rightarrow> Inl e
      | Inr t \<Rightarrow>
          (case parse_amp_text brake of
             Inl e \<Rightarrow> Inl e
           | Inr b \<Rightarrow> limits_new t b))"

section \<open>Gestures\<close>

datatype PhoneControlMode = ModeDisabled | ModeButtons | ModeArea

datatype PhoneDriveAction = Brake | Throttle

type_synonym PhoneDriveContactId = u64

definition contact_id_new :: "u64 \<Rightarrow> PhoneDriveContactId option" where
  "contact_id_new v = (if v = 0 then None else Some v)"

datatype PhoneDriveContacts =
    ContactsInvalid
  | Released
  | Single PhoneDriveContactId "PhoneDriveAction option"
  | Multiple

datatype PhoneDriveCancelReason =
    ConfigurationChanged
  | ActivationChanged
  | InputExpired
  | TransportUnavailable
  | ControllerFault
  | TouchCancelled
  | InvalidContact
  | ModeChanged
  | LayoutChanged
  | Navigation
  | SceneInactive
  | ConnectionChanged
  | RegionLeft
  | MultipleContacts
  | ContactReplaced
  | GenerationExhausted

datatype PhoneDriveInputPhase =
    PhaseIdle
  | PhasePressed PhoneDriveAction
  | PhaseCancelled PhoneDriveCancelReason

datatype Gesture =
    GestureIdle
  | GesturePressed PhoneDriveContactId PhoneDriveAction
  | GestureSuppressed PhoneDriveCancelReason

datatype InputEpoch =
    EpochGeneration u64 Gesture
  | EpochExhausted

record PhoneDriveInputState =
  control_mode :: PhoneControlMode
  input_epoch :: InputEpoch

record PhoneDriveInputSnapshot =
  snap_mode :: PhoneControlMode
  snap_generation :: "u64 option"
  snap_phase :: PhoneDriveInputPhase

fun gesture_phase :: "Gesture \<Rightarrow> PhoneDriveInputPhase" where
  "gesture_phase GestureIdle = PhaseIdle"
| "gesture_phase (GesturePressed _ action) = PhasePressed action"
| "gesture_phase (GestureSuppressed reason) = PhaseCancelled reason"

fun gesture_observe :: "Gesture \<Rightarrow> PhoneDriveContacts \<Rightarrow> Gesture" where
  "gesture_observe _ Released = GestureIdle"
| "gesture_observe (GestureSuppressed reason) _ = GestureSuppressed reason"
| "gesture_observe _ ContactsInvalid = GestureSuppressed InvalidContact"
| "gesture_observe _ Multiple = GestureSuppressed MultipleContacts"
| "gesture_observe GestureIdle (Single contact (Some action)) = GesturePressed contact action"
| "gesture_observe GestureIdle (Single _ None) = GestureSuppressed RegionLeft"
| "gesture_observe (GesturePressed contact action) (Single observed region) =
     (if contact \<noteq> observed then GestureSuppressed ContactReplaced
      else if region \<noteq> Some action then GestureSuppressed RegionLeft
      else GesturePressed contact action)"

definition input_default :: PhoneDriveInputState where
  "input_default = \<lparr>control_mode = ModeDisabled, input_epoch = EpochGeneration 1 GestureIdle\<rparr>"

definition input_snapshot :: "PhoneDriveInputState \<Rightarrow> PhoneDriveInputSnapshot" where
  "input_snapshot s =
     (case input_epoch s of
        EpochGeneration g gesture \<Rightarrow>
          \<lparr>snap_mode = control_mode s, snap_generation = Some g, snap_phase = gesture_phase gesture\<rparr>
      | EpochExhausted \<Rightarrow>
          \<lparr>snap_mode = control_mode s, snap_generation = None,
           snap_phase = PhaseCancelled GenerationExhausted\<rparr>)"

definition input_cancel :: "PhoneDriveInputState \<Rightarrow> PhoneDriveCancelReason \<Rightarrow> PhoneDriveInputState" where
  "input_cancel s reason =
     s\<lparr>input_epoch :=
         (case input_epoch s of
            EpochGeneration g _ \<Rightarrow>
              (case checked_add g 1 of
                 Some g' \<Rightarrow> EpochGeneration g' (GestureSuppressed reason)
               | None \<Rightarrow> EpochExhausted)
          | EpochExhausted \<Rightarrow> EpochExhausted)\<rparr>"

definition set_mode :: "PhoneDriveInputState \<Rightarrow> PhoneControlMode \<Rightarrow> PhoneDriveInputState" where
  "set_mode s m =
     (if control_mode s \<noteq> m then input_cancel (s\<lparr>control_mode := m\<rparr>) ModeChanged else s)"

definition input_observe :: "PhoneDriveInputState \<Rightarrow> u64 \<Rightarrow> PhoneDriveContacts \<Rightarrow> PhoneDriveInputState" where
  "input_observe s observed_generation contacts =
     (if control_mode s = ModeDisabled then s
      else (case input_epoch s of
              EpochGeneration g gesture \<Rightarrow>
                if g = observed_generation
                then s\<lparr>input_epoch := EpochGeneration g (gesture_observe gesture contacts)\<rparr> else s
            | EpochExhausted \<Rightarrow> s))"

section \<open>The motor-current frame\<close>

definition encode_phone_drive_current ::
  "(u8 list \<Rightarrow> u16) \<Rightarrow> PhoneDriveAction option \<Rightarrow> u32 \<Rightarrow> u8 list option" where
  "encode_phone_drive_current crc16 action milliamps =
     (if 2 ^ 31 \<le> unat milliamps then None
      else
        (let command = (case action of Some Brake \<Rightarrow> 7 | Some Throttle \<Rightarrow> 6 | None \<Rightarrow> 6) :: u8;
             body = command # u32_to_be_bytes milliamps;
             frame = [2, 5] @ body @ u16_to_be_bytes (crc16 body) @ [3]
         in write_payload_try_from_slice frame))"

section \<open>Runs\<close>

datatype InputCall =
    CallObserve u64 PhoneDriveContacts
  | CallSetMode PhoneControlMode
  | CallCancel PhoneDriveCancelReason

fun input_step :: "PhoneDriveInputState \<Rightarrow> InputCall \<Rightarrow> PhoneDriveInputState" where
  "input_step s (CallObserve g contacts) = input_observe s g contacts"
| "input_step s (CallSetMode m) = set_mode s m"
| "input_step s (CallCancel reason) = input_cancel s reason"

text \<open>The generation, with exhaustion above all of them.\<close>

definition input_generation :: "PhoneDriveInputState \<Rightarrow> nat" where
  "input_generation s = (case input_epoch s of EpochGeneration g _ \<Rightarrow> unat g | EpochExhausted \<Rightarrow> 2 ^ 64)"

text \<open>
  Calls that leave a gesture of generation \<open>g\<close> under mode \<open>m\<close> alone, apart from contacts of its own
  generation, which satisfy \<open>P\<close>.
\<close>

definition undisturbed :: "u64 \<Rightarrow> PhoneControlMode \<Rightarrow> (PhoneDriveContacts \<Rightarrow> bool) \<Rightarrow> InputCall list \<Rightarrow> bool" where
  "undisturbed g m P cs \<longleftrightarrow>
     list_all (\<lambda>c. case c of
         CallObserve g' contacts \<Rightarrow> g' = g \<longrightarrow> P contacts
       | CallSetMode m' \<Rightarrow> m' = m
       | CallCancel reason \<Rightarrow> False) cs"

lemma undisturbed_append [simp]:
  "undisturbed g m P (xs @ ys) \<longleftrightarrow> undisturbed g m P xs \<and> undisturbed g m P ys"
  by (simp add: undisturbed_def)

lemma undisturbed_mono: "undisturbed g m P cs \<Longrightarrow> (\<And>x. P x \<Longrightarrow> Q x) \<Longrightarrow> undisturbed g m Q cs"
  by (auto simp: undisturbed_def list_all_iff split: InputCall.splits)

text \<open>How a run explains the gesture it left behind.\<close>

definition gesture_explained :: "InputCall list \<Rightarrow> PhoneControlMode \<Rightarrow> u64 \<Rightarrow> Gesture \<Rightarrow> bool" where
  "gesture_explained cs m g gesture =
     (case gesture of
        GestureSuppressed reason \<Rightarrow> True
      | GestureIdle \<Rightarrow> m \<noteq> ModeDisabled \<longrightarrow>
          (\<exists>pre rest. cs = pre @ CallObserve g Released # rest \<and> undisturbed g m (\<lambda>x. False) rest)
      | GesturePressed contact action \<Rightarrow> m \<noteq> ModeDisabled \<and>
          (\<exists>pre rest. cs = pre @ CallObserve g Released # rest
             \<and> CallObserve g (Single contact (Some action)) \<in> set rest
             \<and> undisturbed g m (\<lambda>x. x = Single contact (Some action)) rest))"

fun_cases gesture_observe_pressed: "gesture_observe g x = GesturePressed contact action"

lemma gesture_pressed_step:
  assumes "gesture_observe g x = GesturePressed contact action"
  shows "x = Single contact (Some action) \<and> (g = GestureIdle \<or> g = GesturePressed contact action)"
  using assms by (elim gesture_observe_pressed) (auto split: if_splits)

lemma gesture_idle_step: "gesture_observe g x = GestureIdle \<longleftrightarrow> x = Released"
  by (cases "(g, x)" rule: gesture_observe.cases) (auto split: if_splits)

lemma explained_idleI:
  "cs = pre @ CallObserve g Released # rest \<Longrightarrow> undisturbed g m (\<lambda>x. False) rest
    \<Longrightarrow> gesture_explained cs m g GestureIdle"
  by (auto simp: gesture_explained_def)

lemma explained_pressedI:
  "m \<noteq> ModeDisabled \<Longrightarrow> cs = pre @ CallObserve g Released # rest
    \<Longrightarrow> CallObserve g (Single contact (Some action)) \<in> set rest
    \<Longrightarrow> undisturbed g m (\<lambda>x. x = Single contact (Some action)) rest
    \<Longrightarrow> gesture_explained cs m g (GesturePressed contact action)"
  by (auto simp: gesture_explained_def)

lemma explained_quiet:
  assumes "gesture_explained cs m g gesture" and "\<And>P. undisturbed g m P [c]"
  shows "gesture_explained (cs @ [c]) m g gesture"
proof (cases gesture)
  case GestureIdle
  then show ?thesis
    using assms unfolding gesture_explained_def by fastforce
next
  case (GesturePressed contact action)
  with assms(1) obtain pre rest where "m \<noteq> ModeDisabled" "cs = pre @ CallObserve g Released # rest"
    "CallObserve g (Single contact (Some action)) \<in> set rest"
    "undisturbed g m (\<lambda>x. x = Single contact (Some action)) rest"
    by (auto simp: gesture_explained_def)
  then show ?thesis
    unfolding GesturePressed using assms(2)
    by (intro explained_pressedI [where pre = pre and rest = "rest @ [c]"]) simp_all
qed (simp add: gesture_explained_def)

lemma explained_observed:
  assumes "gesture_explained cs m g gesture" and "m \<noteq> ModeDisabled"
  shows "gesture_explained (cs @ [CallObserve g x]) m g (gesture_observe gesture x)"
proof (cases "gesture_observe gesture x")
  case GestureIdle
  then have "x = Released"
    by (simp add: gesture_idle_step)
  then show ?thesis
    unfolding GestureIdle
    by (intro explained_idleI [where pre = cs and rest = "[]"]) (simp_all add: undisturbed_def)
next
  case (GesturePressed contact action)
  then have x: "x = Single contact (Some action)" and "gesture = GestureIdle \<or> gesture = GesturePressed contact action"
    using gesture_pressed_step by blast+
  moreover have "\<exists>pre rest. cs = pre @ CallObserve g Released # rest
      \<and> undisturbed g m (\<lambda>x. x = Single contact (Some action)) rest" if "gesture = GestureIdle"
    using assms that by (auto simp: gesture_explained_def) (metis undisturbed_mono)
  ultimately obtain pre rest where "cs = pre @ CallObserve g Released # rest"
    "undisturbed g m (\<lambda>x. x = Single contact (Some action)) rest"
    using assms by (auto simp: gesture_explained_def)
  then show ?thesis
    unfolding GesturePressed using x assms(2)
    by (intro explained_pressedI [where pre = pre and rest = "rest @ [CallObserve g x]"])
      (simp_all add: undisturbed_def)
qed (simp add: gesture_explained_def)

definition input_explained :: "InputCall list \<Rightarrow> PhoneDriveInputState \<Rightarrow> bool" where
  "input_explained cs s =
     (case input_epoch s of
        EpochGeneration g gesture \<Rightarrow> gesture_explained cs (control_mode s) g gesture
      | EpochExhausted \<Rightarrow> True)"

lemma input_cancel_explained: "input_explained cs (input_cancel s reason)"
  by (simp add: input_explained_def input_cancel_def gesture_explained_def split: InputEpoch.splits option.splits)

lemma input_step_explained:
  assumes "input_explained cs s"
  shows "input_explained (cs @ [c]) (input_step s c)"
proof (cases c)
  case (CallObserve g' x)
  show ?thesis
  proof (cases "input_epoch s")
    case (EpochGeneration g gesture)
    have old: "gesture_explained cs (control_mode s) g gesture"
      using assms EpochGeneration by (simp add: input_explained_def)
    consider "g' = g" "control_mode s \<noteq> ModeDisabled" | "g' \<noteq> g" | "control_mode s = ModeDisabled"
      by blast
    then show ?thesis
    proof cases
      case 1
      then show ?thesis
        using explained_observed [OF old] CallObserve EpochGeneration
        by (simp add: input_explained_def input_observe_def)
    next
      case 2
      then show ?thesis
        using explained_quiet [OF old, of c] CallObserve EpochGeneration
        by (auto simp: input_explained_def input_observe_def undisturbed_def)
    next
      case 3
      then show ?thesis
        using old CallObserve EpochGeneration
        by (auto simp: input_explained_def input_observe_def gesture_explained_def split: Gesture.splits)
    qed
  qed (use CallObserve in \<open>simp add: input_explained_def input_observe_def\<close>)
next
  case (CallSetMode m)
  show ?thesis
  proof (cases "control_mode s = m")
    case True
    then show ?thesis
      using assms explained_quiet [of cs m _ _ c] CallSetMode
      by (auto simp: input_explained_def set_mode_def undisturbed_def split: InputEpoch.splits)
  qed (use CallSetMode input_cancel_explained in \<open>simp add: set_mode_def\<close>)
qed (simp add: input_cancel_explained)

lemma input_run_explained: "input_explained cs (foldl input_step input_default cs)"
proof (induction cs rule: rev_induct)
  case Nil
  then show ?case
    by (simp add: input_explained_def input_default_def gesture_explained_def)
qed (simp add: input_step_explained)

text \<open>
  C25. A press needs a clean hold.  Whatever native code does with the input owner from its initial
  state - observing contacts under any generation, changing the layout, cancelling - if the
  published phase is a press of some region, then the calls end with a complete release observed
  under the published generation, followed only by observations in which that generation saw one
  and the same contact in that region (at least once), stale observations and layout changes that
  change nothing: no second contact, no other contact, no other region and no cancellation since.
\<close>

theorem phone_press_is_clean_hold:
  assumes "foldl input_step input_default cs = s" and "snap_phase (input_snapshot s) = PhasePressed action"
  shows "\<exists>pre rest g contact. cs = pre @ CallObserve g Released # rest
    \<and> snap_generation (input_snapshot s) = Some g
    \<and> CallObserve g (Single contact (Some action)) \<in> set rest
    \<and> undisturbed g (snap_mode (input_snapshot s)) (\<lambda>x. x = Single contact (Some action)) rest"
proof -
  obtain g contact where "input_epoch s = EpochGeneration g (GesturePressed contact action)"
    using assms(2)
    by (auto simp: input_snapshot_def split: InputEpoch.splits elim: gesture_phase.elims)
  then show ?thesis
    using input_run_explained [of cs] assms(1)
    by (auto simp: input_explained_def gesture_explained_def input_snapshot_def)
qed

theorem phone_press_is_clean_hold_witness:
  "\<exists>pre rest g contact.
     [CallSetMode ModeArea, CallObserve 2 Released, CallObserve 2 (Single 7 (Some Brake))]
       = pre @ CallObserve g Released # rest
     \<and> Some 2 = Some g
     \<and> CallObserve g (Single contact (Some Brake)) \<in> set rest
     \<and> undisturbed g ModeArea (\<lambda>x. x = Single contact (Some Brake)) rest"
  using phone_press_is_clean_hold
    [OF refl, of "[CallSetMode ModeArea, CallObserve 2 Released, CallObserve 2 (Single 7 (Some Brake))]" Brake]
  by (simp add: input_default_def set_mode_def input_cancel_def input_observe_def input_snapshot_def
      checked_add_def)

section \<open>Retired generations\<close>

lemma input_generation_cancel:
  "input_generation (input_cancel s reason) = min (input_generation s + 1) (2 ^ 64)"
proof (cases "input_epoch s")
  case (EpochGeneration g gesture)
  have "unat g < 2 ^ 64"
    using unat_bound [of g] by simp
  then show ?thesis
    using EpochGeneration
    by (auto simp: input_generation_def input_cancel_def dest: checked_add_SomeD
        split: option.splits simp: checked_add_None_iff)
qed (simp add: input_generation_def input_cancel_def)

lemma input_generation_le: "input_generation s \<le> 2 ^ 64"
  using unat_bound [where ?'a = 64] by (auto simp: input_generation_def less_imp_le split: InputEpoch.splits)

lemma input_generation_step: "input_generation s \<le> input_generation (input_step s c)"
  using input_generation_le [of s]
  by (cases c)
    (auto simp: input_generation_cancel set_mode_def, auto simp: input_observe_def input_generation_def split: InputEpoch.splits)

lemma input_generation_run: "input_generation s \<le> input_generation (foldl input_step s cs)"
  by (induction cs arbitrary: s) (auto intro: order_trans input_generation_step)

text \<open>
  Retired input is dead.  Once input under the published generation has been cancelled, or the
  layout has really changed, no later observation that carries that generation changes anything,
  whatever is called in between; generations are not reused, because the last one is followed by
  an exhausted state and not by a wrapped counter.
\<close>

lemma phone_retired_input_dead:
  assumes "snap_generation (input_snapshot s) = Some g"
    and "c = CallCancel reason \<or> c = CallSetMode m \<and> m \<noteq> snap_mode (input_snapshot s)"
  shows "input_step (foldl input_step (input_step s c) cs) (CallObserve g contacts)
    = foldl input_step (input_step s c) cs"
proof -
  have s: "input_generation s = unat g" "unat g < 2 ^ 64"
    using assms(1) unat_bound [of g]
    by (auto simp: input_snapshot_def input_generation_def split: InputEpoch.splits)
  have "input_step s c = input_cancel s reason \<or> (\<exists>m. input_step s c = input_cancel (s\<lparr>control_mode := m\<rparr>) ModeChanged)"
    using assms(2) by (auto simp: set_mode_def input_snapshot_def split: InputEpoch.splits)
  moreover have "input_generation (s\<lparr>control_mode := m\<rparr>) = input_generation s" for m
    by (simp add: input_generation_def)
  ultimately have "input_generation (input_step s c) = min (unat g + 1) (2 ^ 64)"
    using s by (auto simp: input_generation_cancel)
  then have "unat g < input_generation (foldl input_step (input_step s c) cs)"
    using input_generation_run [of "input_step s c" cs] s(2) by simp
  then show ?thesis
    by (auto simp: input_observe_def input_generation_def split: InputEpoch.splits)
qed

lemma phone_retired_input_dead_example:
  "input_step (foldl input_step (input_step input_default (CallSetMode ModeArea)) [CallCancel Navigation])
      (CallObserve 1 (Single 7 (Some Throttle)))
   = foldl input_step (input_step input_default (CallSetMode ModeArea)) [CallCancel Navigation]"
  by (rule phone_retired_input_dead [where m = ModeArea and reason = Navigation])
    (simp_all add: input_default_def input_snapshot_def)

section \<open>Budget text\<close>

text \<open>A budget as a rider types it, with all its milliamps: \<open>12.345\<close>.\<close>

fun decimal :: "nat \<Rightarrow> rust_str" where
  "decimal n = (if n < 10 then [48 + n] else decimal (n div 10) @ [48 + n mod 10])"

declare decimal.simps [simp del]

definition amp_text :: "nat \<Rightarrow> rust_str" where
  "amp_text n = decimal (n div 1000)
     @ [46, 48 + n mod 1000 div 100, 48 + n mod 100 div 10, 48 + n mod 10]"

lemma decimal_digits: "list_all is_ascii_digit (decimal n)"
proof (induction n rule: decimal.induct)
  case (1 n)
  moreover have "is_ascii_digit (48 + k)" if "k < 10" for k
    using that by (simp add: is_ascii_digit_def)
  ultimately show ?case
    by (subst decimal.simps) simp
qed

lemma decimal_nonempty: "decimal n \<noteq> []"
  by (subst decimal.simps) simp

lemma decimal_value: "digits_value (decimal n) = n"
proof (induction n rule: decimal.induct)
  case (1 n)
  then show ?case
    by (subst decimal.simps) (auto simp: digits_value_def)
qed

lemma split_once_point_digits:
  "list_all is_ascii_digit ds \<Longrightarrow> split_once_point (ds @ 46 # rest) = Some (ds, rest)"
  by (induction ds) (auto simp: is_ascii_digit_def)

lemma str_trim_digits:
  assumes "list_all is_ascii_digit xs" and "xs \<noteq> []" and "is_ascii_digit d"
  shows "str_trim (xs @ mid @ [d]) = xs @ mid @ [d]"
proof -
  have w: "\<not> is_whitespace c" if "is_ascii_digit c" for c
    using that by (auto simp: is_whitespace_def is_ascii_digit_def)
  then have "dropWhile is_whitespace (xs @ mid @ [d]) = xs @ mid @ [d]"
    using assms by (cases xs) auto
  then show ?thesis
    using w assms(3) by (simp add: str_trim_def)
qed

lemma parse_u32_decimal:
  "parse_u32 (decimal n) = (if n < 2 ^ 32 then Some (of_nat n) else None)"
  by (simp add: parse_u32_def decimal_digits decimal_nonempty decimal_value)

lemma parse_amp_fraction_digits:
  assumes "a < 10" "b < 10" "c < 10"
  shows "parse_amp_fraction (Some [48 + a, 48 + b, 48 + c]) = Inr (of_nat (a * 100 + b * 10 + c))"
  using assms
  by (simp add: parse_amp_fraction_def parse_u32_def utf8_len_def is_ascii_digit_def digits_value_def algebra_simps)

lemma milli_digits: "n mod 1000 div 100 * 100 + n mod 100 div 10 * 10 + n mod 10 = n mod (1000 :: nat)"
proof -
  have "n mod 100 div 10 * 10 + n mod 10 = n mod 100"
    using div_mult_mod_eq [of "n mod 100" 10] by (simp add: mod_mod_cancel)
  moreover have "n mod 1000 div 100 * 100 + n mod 100 = n mod 1000"
    using div_mult_mod_eq [of "n mod 1000" 100] by (simp add: mod_mod_cancel)
  ultimately show ?thesis
    by simp
qed

lemma unat_of_nat_u32: "n < 2 ^ 32 \<Longrightarrow> unat (of_nat n :: u32) = n"
  by (simp add: unsigned_of_nat take_bit_nat_eq_self)

lemma parse_amp_text_amp_text:
  assumes "n < 2 ^ 32"
  shows "parse_amp_text (amp_text n) = Inr (of_nat n)"
proof -
  let ?w = "decimal (n div 1000)" and ?f = "[48 + n mod 1000 div 100, 48 + n mod 100 div 10, 48 + n mod 10]"
  have "str_trim (amp_text n) = ?w @ 46 # ?f"
    using str_trim_digits [of ?w "48 + n mod 10" "[46, 48 + n mod 1000 div 100, 48 + n mod 100 div 10]"]
    by (simp add: amp_text_def decimal_digits decimal_nonempty is_ascii_digit_def)
  then have t: "split_once_point (str_trim (amp_text n)) = Some (?w, ?f)"
    by (simp add: split_once_point_digits decimal_digits)
  have f: "parse_amp_fraction (Some ?f) = Inr (of_nat (n mod 1000))"
    using parse_amp_fraction_digits [of "n mod 1000 div 100" "n mod 100 div 10" "n mod 10"]
    unfolding milli_digits by simp
  have w: "parse_u32 ?w = Some (of_nat (n div 1000))"
    using assms by (simp add: parse_u32_decimal)
  have u: "unat (of_nat (n div 1000) :: u32) = n div 1000" "unat (of_nat (n mod 1000) :: u32) = n mod 1000"
    using assms by (intro unat_of_nat_u32, simp)+
  have "n div 1000 * 1000 < 2 ^ 32"
    using assms div_mult_mod_eq [of n 1000] by linarith
  then have mul: "checked_mul (of_nat (n div 1000) :: u32) 1000 = Some (of_nat (n div 1000 * 1000))"
    using u by (simp add: checked_mul_def)
  have "unat (of_nat (n div 1000 * 1000) :: u32) = n div 1000 * 1000"
    using \<open>n div 1000 * 1000 < 2 ^ 32\<close> by (rule unat_of_nat_u32)
  moreover have "n div 1000 * 1000 + n mod 1000 = n"
    by simp
  ultimately have "checked_add (of_nat (n div 1000 * 1000) :: u32) (of_nat (n mod 1000)) = Some (of_nat n)"
    using u(2) assms unat_of_nat_u32 [OF assms] by (simp add: checked_add_Some_iff)
  then show ?thesis
    using t f w mul by (simp add: parse_amp_text_def decimal_digits decimal_nonempty)
qed

text \<open>
  Budgets survive their text form exactly.  Two budgets written out in amps with three decimals
  are read back as exactly those milliamps, without rounding, when both are between 1 mA and 500 A;
  any other pair that fits the 32-bit range is refused.
\<close>

lemma phone_budget_text_roundtrip:
  "limits_from_amp_text (amp_text (unat throttle)) (amp_text (unat brake)) =
     (if 1 \<le> unat throttle \<and> unat throttle \<le> 500000 \<and> 1 \<le> unat brake \<and> unat brake \<le> 500000
      then Inr \<lparr>throttle_milliamps = throttle, brake_milliamps = brake\<rparr>
      else Inl PhoneDriveLimitsError)"
proof -
  have "parse_amp_text (amp_text (unat w)) = Inr w" for w :: u32
    using parse_amp_text_amp_text [of "unat w"] unat_bound [of w] by simp
  then show ?thesis
    by (auto simp: limits_from_amp_text_def limits_new_def word_le_nat_alt)
qed

section \<open>The current on the wire\<close>

lemma encode_phone_drive_current_eq:
  assumes "unat milliamps < 2 ^ 31"
  shows "encode_phone_drive_current crc16 action milliamps =
    Some (vesc_encoded crc16 ((if action = Some Brake then 7 else 6) # u32_to_be_bytes milliamps))"
proof -
  have "(case action of Some Brake \<Rightarrow> 7 | Some Throttle \<Rightarrow> 6 | None \<Rightarrow> (6 :: u8)) = (if action = Some Brake then 7 else 6)"
    by (auto split: option.splits PhoneDriveAction.splits)
  then show ?thesis
    using assms
    by (simp add: encode_phone_drive_current_def vesc_encoded_def write_payload_try_from_slice_def
        u16_to_be_bytes_def u32_to_be_bytes_def Let_def vesc_consts MAX_TRANSPORT_WRITE_LEN_def)
qed

text \<open>
  C36. The requested current reaches the wire unchanged.  Every current of a checked budget is
  encoded, whatever checksum function is used, as a frame that the VESC frame parser accepts whole:
  a five byte payload of the command (7 to brake, 6 otherwise) and the milliamps as a 32-bit
  big-endian number that has the same value read as a signed one.
\<close>

theorem phone_current_on_wire:
  assumes "limits_new throttle brake = Inr limits"
    and "milliamps = throttle_milliamps limits \<or> milliamps = brake_milliamps limits \<or> milliamps = 0"
  shows "\<exists>frame b0 b1 b2 b3. encode_phone_drive_current crc16 action milliamps = Some frame
    \<and> frame_parts crc16 frame = Inr (Some (2, 5, length frame))
    \<and> slice_range frame 2 7 = Some [if action = Some Brake then 7 else 6, b0, b1, b2, b3]
    \<and> u32_from_be_bytes b0 b1 b2 b3 = milliamps \<and> sint milliamps = int (unat milliamps)"
proof -
  let ?body = "(if action = Some Brake then 7 else 6) # u32_to_be_bytes milliamps"
  let ?frame = "vesc_encoded crc16 ?body"
  have m: "unat milliamps \<le> 500000"
    using assms by (auto simp: limits_new_def word_le_nat_alt split: if_splits)
  then have "encode_phone_drive_current crc16 action milliamps = Some ?frame"
    by (intro encode_phone_drive_current_eq) simp
  moreover have "length ?frame = 10"
    by (simp add: length_vesc_encoded vesc_payload_start_def u32_to_be_bytes_def)
  then have "frame_parts crc16 ?frame = Inr (Some (2, 5, length ?frame))"
    using frame_parts_encoded [where payload = ?body and rest = "[]" and ?crc16.0 = crc16]
    by (simp add: vesc_payload_start_def u32_to_be_bytes_def)
  moreover have "slice_range ?frame 2 7 = Some ?body"
  proof -
    have "length ?body = 5"
      by (simp add: u32_to_be_bytes_def)
    then show ?thesis
      using \<open>length ?frame = 10\<close> vesc_encoded_fields(1) [where payload = ?body and rest = "[]" and ?crc16.0 = crc16]
      by (simp only: slice_range_def vesc_payload_start_def append_Nil2) simp
  qed
  moreover have "sint milliamps = int (unat milliamps)"
  proof -
    have "uint milliamps \<le> 500000"
      using m unfolding uint_nat by linarith
    then have "signed_take_bit 31 (uint milliamps) = uint milliamps"
      by (intro signed_take_bit_int_eq_self) (simp_all add: order_trans [OF _ uint_ge_0 [of milliamps]])
    then show ?thesis
      by (simp add: sint_uint)
  qed
  ultimately show ?thesis
    using u32_be_roundtrip [of milliamps] unfolding u32_to_be_bytes_def by blast
qed

theorem phone_current_on_wire_witness:
  "\<exists>frame b0 b1 b2 b3. encode_phone_drive_current (\<lambda>bs. 4660) (Some Brake) 3000 = Some frame
    \<and> frame_parts (\<lambda>bs. 4660) frame = Inr (Some (2, 5, length frame))
    \<and> slice_range frame 2 7 = Some [7, b0, b1, b2, b3]
    \<and> u32_from_be_bytes b0 b1 b2 b3 = 3000 \<and> sint (3000 :: u32) = 3000"
  using phone_current_on_wire [of 3000 3000 limits_default 3000 "\<lambda>bs. 4660" "Some Brake"]
  by (simp add: limits_new_def limits_default_def)

end
