(* ===== verification/Session_Capture.thy ===== *)
theory Session_Capture
  imports Capture_Lifecycle Camera Ride_Session Phone_Drive
begin

text \<open>
  The operations of the session root \<^verbatim>\<open>cutout-core/src/session_state.rs\<close> that tie its slices
  together: captures admitted against the current connection attempt, the transport a capture may
  release, and camera media recorded only for an active capture.  Shown: over any interleaving of
  connection, capture and session calls a capture releases only the connection attempt it owns and
  that is still current, at most once for each capture that was admitted as its owner.
\<close>

datatype DeviceConnectionIntent = IntentUse | IntentReconnect | IntentRecordOnly

record CutoutSessionState =
  device_connection_intent :: DeviceConnectionIntent
  connection :: ConnectionAttemptLifecycle
  session_capture :: CaptureSessionLifecycle
  ride_session :: RideSessionLifecycle
  session_camera :: CameraSessionState
  camera_provenance :: CameraProvenanceState
  phone_drive_input :: PhoneDriveInputState
  phone_drive_limits :: PhoneDriveLimits

definition session_default :: CutoutSessionState where
  "session_default =
     \<lparr>device_connection_intent = IntentUse, connection = conn_default, session_capture = capture_default,
      ride_session = ride_default, session_camera = camera_default, camera_provenance = [],
      phone_drive_input = input_default, phone_drive_limits = limits_default\<rparr>"

definition begin_capture ::
  "CutoutSessionState \<Rightarrow> CaptureOrigin \<Rightarrow> CaptureTransportOwnership \<Rightarrow> ConnectionAttemptToken option
     \<Rightarrow> CaptureGeneration option \<times> CutoutSessionState" where
  "begin_capture s origin ownership attempt =
     (if is_some_and attempt (\<lambda>t. \<not> is_current (connection s) t) then (None, s)
      else
        (case (case ownership of
                 Borrowed \<Rightarrow> Some None
               | CaptureOwned \<Rightarrow>
                   if device_connection_intent s \<noteq> IntentRecordOnly then None
                   else (case attempt of None \<Rightarrow> None | Some t \<Rightarrow> Some (Some t))) of
           None \<Rightarrow> (None, s)
         | Some admitted_token \<Rightarrow>
             (case begin_with_transport (session_capture s) origin ownership admitted_token of
                (g, capture') \<Rightarrow> (g, s\<lparr>session_capture := capture'\<rparr>))))"

definition finish_capture_flush ::
  "CutoutSessionState \<Rightarrow> CaptureFinishToken \<Rightarrow> bool \<Rightarrow> CaptureTransportRelease \<times> CutoutSessionState" where
  "finish_capture_flush s tk succeeded =
     (case finish_flush_with_transport (session_capture s) tk succeeded (token (snapshot (connection s))) of
        (release, capture') \<Rightarrow> (release, s\<lparr>session_capture := capture'\<rparr>))"

definition should_retry_identification :: "CutoutSessionState \<Rightarrow> bool" where
  "should_retry_identification s =
     (case device_connection_intent s of IntentReconnect \<Rightarrow> True | _ \<Rightarrow> False)"

definition record_camera_media_provenance ::
  "CutoutSessionState \<Rightarrow> CaptureGeneration \<Rightarrow> CameraMediaProvenance \<Rightarrow> bool \<times> CutoutSessionState" where
  "record_camera_media_provenance s g r =
     (if \<not> admits_result (session_capture s) g then (False, s)
      else (True, s\<lparr>camera_provenance := record_media (camera_provenance s) r\<rparr>))"

section \<open>Runs\<close>

text \<open>
  The calls on the session: on its connection, on its capture other than the two that go through
  the session, and the session's own.
\<close>

datatype SessionCall =
    OnConnection ConnectionCall
  | OnWriterStarted CaptureGeneration
  | OnWriterStartFailed CaptureGeneration
  | OnBeginFinish CaptureGeneration
  | OnWriterFailed CaptureGeneration
  | OnRetire CaptureGeneration
  | OnComplete CaptureGeneration bool
  | SelectIntent DeviceConnectionIntent
  | SessionBeginCapture CaptureOrigin CaptureTransportOwnership "ConnectionAttemptToken option"
  | SessionFinishFlush CaptureFinishToken bool
  | SessionRecordMedia CaptureGeneration CameraMediaProvenance

fun session_step :: "CutoutSessionState \<Rightarrow> SessionCall \<Rightarrow> CutoutSessionState" where
  "session_step s (OnConnection c) = s\<lparr>connection := conn_step (connection s) c\<rparr>"
| "session_step s (OnWriterStarted g) = s\<lparr>session_capture := capture_step (session_capture s) (WriterStarted g)\<rparr>"
| "session_step s (OnWriterStartFailed g) = s\<lparr>session_capture := capture_step (session_capture s) (WriterStartFailed g)\<rparr>"
| "session_step s (OnBeginFinish g) = s\<lparr>session_capture := capture_step (session_capture s) (BeginFinish g)\<rparr>"
| "session_step s (OnWriterFailed g) = s\<lparr>session_capture := capture_step (session_capture s) (WriterFailed g)\<rparr>"
| "session_step s (OnRetire g) = s\<lparr>session_capture := capture_step (session_capture s) (Retire g)\<rparr>"
| "session_step s (OnComplete g ok) = s\<lparr>session_capture := capture_step (session_capture s) (Complete g ok)\<rparr>"
| "session_step s (SelectIntent i) = s\<lparr>device_connection_intent := i\<rparr>"
| "session_step s (SessionBeginCapture org ow t) = snd (begin_capture s org ow t)"
| "session_step s (SessionFinishFlush tk ok) = snd (finish_capture_flush s tk ok)"
| "session_step s (SessionRecordMedia g r) = snd (record_camera_media_provenance s g r)"

text \<open>The attempts admitted as owned by a capture and the attempts released by captures, in order.\<close>

primrec owned_begins :: "CutoutSessionState \<Rightarrow> SessionCall list \<Rightarrow> ConnectionAttemptToken list" where
  "owned_begins s [] = []"
| "owned_begins s (c # cs) =
     (case c of
        SessionBeginCapture org CaptureOwned (Some t) \<Rightarrow>
          (case fst (begin_capture s org CaptureOwned (Some t)) of None \<Rightarrow> [] | Some _ \<Rightarrow> [t])
      | _ \<Rightarrow> []) @ owned_begins (session_step s c) cs"

primrec releases :: "CutoutSessionState \<Rightarrow> SessionCall list \<Rightarrow> (ConnectionAttemptToken \<times> bool) list" where
  "releases s [] = []"
| "releases s (c # cs) =
     (case c of
        SessionFinishFlush tk ok \<Rightarrow>
          (case fst (finish_capture_flush s tk ok) of
             ReleaseOwnedTransport t \<Rightarrow> [(t, is_current (connection s) t)]
           | _ \<Rightarrow> [])
      | _ \<Rightarrow> []) @ releases (session_step s c) cs"

definition owned_now :: "CutoutSessionState \<Rightarrow> ConnectionAttemptToken list" where
  "owned_now s = (case capture_transport (session_capture s) of BindingOwned t \<Rightarrow> [t] | BindingBorrowed \<Rightarrow> [])"

section \<open>Properties\<close>

lemma capture_transport_kept:
  assumes "\<And>org ow t. c \<noteq> BeginCapture org ow t" and "\<And>tk ok t. c \<noteq> FinishFlush tk ok t"
  shows "capture_transport (capture_step s c) = capture_transport s"
  using assms by (cases c) (auto simp: capture_ops Let_def split: option.splits if_splits)

lemma finish_flush_transport: "capture_transport (snd (finish_flush s tk ok)) = capture_transport s"
  by (auto simp: finish_flush_def split: option.splits)

lemma owned_now_begin:
  "owned_now (snd (begin_capture s org ow t)) =
     (case fst (begin_capture s org ow t) of
        None \<Rightarrow> owned_now s
      | Some _ \<Rightarrow> (case (ow, t) of (CaptureOwned, Some t') \<Rightarrow> [t'] | _ \<Rightarrow> []))"
  by (cases ow; cases t) (auto simp: begin_capture_def begin_with_transport_def owned_now_def
      split: option.splits prod.splits if_splits)

lemma release_step:
  assumes "finish_capture_flush s tk ok = (rel, s')"
  shows "(\<forall>t. rel = ReleaseOwnedTransport t \<longrightarrow> owned_now s = [t] \<and> owned_now s' = [] \<and> is_current (connection s) t)
    \<and> (owned_now s' = owned_now s \<or> owned_now s' = [])"
  using assms finish_flush_transport [of "session_capture s" tk ok]
  by (auto simp: finish_capture_flush_def finish_flush_with_transport_def owned_now_def is_current_def
      split: prod.splits bool.splits CaptureTransportBinding.splits if_splits)

lemma owned_now_other:
  assumes "\<And>org ow t. c \<noteq> SessionBeginCapture org ow t" and "\<And>tk ok. c \<noteq> SessionFinishFlush tk ok"
  shows "owned_now (session_step s c) = owned_now s"
  using assms by (cases c) (auto simp: owned_now_def record_camera_media_provenance_def capture_transport_kept
      simp del: capture_step.simps)

lemma releases_owned:
  "subseq (map fst (releases s calls)) (owned_now s @ owned_begins s calls)"
proof (induction calls arbitrary: s)
  case (Cons c calls)
  consider org ow t where "c = SessionBeginCapture org ow t" | tk ok where "c = SessionFinishFlush tk ok"
    | "\<And>org ow t. c \<noteq> SessionBeginCapture org ow t" "\<And>tk ok. c \<noteq> SessionFinishFlush tk ok"
    by blast
  then show ?case
  proof cases
    case (1 org ow t)
    have "subseq (owned_now (session_step s c)) (owned_now s @ (case c of
        SessionBeginCapture org CaptureOwned (Some t) \<Rightarrow>
          (case fst (begin_capture s org CaptureOwned (Some t)) of None \<Rightarrow> [] | Some _ \<Rightarrow> [t]) | _ \<Rightarrow> []))"
      by (cases ow; cases t) (auto simp: 1 owned_now_begin split: option.splits)
    from list_emb_append_mono [OF this subseq_order.order_refl [of "owned_begins (session_step s c) calls"]]
    have "subseq (owned_now (session_step s c) @ owned_begins (session_step s c) calls)
        (owned_now s @ owned_begins s (c # calls))"
      by simp
    then show ?thesis
      using subseq_order.trans [OF Cons.IH [of "session_step s c"]] by (simp add: 1)
  next
    case (2 tk ok)
    obtain rel s' where fl: "finish_capture_flush s tk ok = (rel, s')"
      by fastforce
    show ?thesis
      using release_step [OF fl] Cons.IH [of s'] fl
      by (cases rel) (auto simp: 2 dest: subseq_order.trans)
  next
    case 3
    then show ?thesis
      using Cons.IH [of "session_step s c"] owned_now_other [OF 3] by (cases c) auto
  qed
qed simp

lemma releases_current: "\<forall>r \<in> set (releases s calls). snd r"
proof (induction calls arbitrary: s)
  case (Cons c calls)
  have "is_current (connection s) t" if "fst (finish_capture_flush s tk ok) = ReleaseOwnedTransport t" for tk ok t
    using release_step [of s tk ok "fst (finish_capture_flush s tk ok)"] that by (metis prod.collapse)
  then show ?case
    using Cons.IH [of "session_step s c"] by (auto split: SessionCall.splits CaptureTransportRelease.splits)
qed simp


end
