(* ===== verification/Turn_Signals.thy ===== *)
theory Turn_Signals
  imports Prelude
begin

text \<open>
  The lean-based turn-signal detector of \<^verbatim>\<open>cutout-core/src/turn_signals.rs\<close>.  Speeds and rolls are
  signed integers (\<open>i32\<close>, widened before the magnitude is taken).  Shown, over any sequence of
  telemetry samples: a side is selected only after a lean to that side was held for the engage
  duration without a gap, and it is kept only while speed and lean stay above their thresholds.
\<close>

datatype TurnSignalSide = SideLeft | SideRight

datatype TurnSignalPolarity = NegativeIsLeft | PositiveIsLeft

record TurnSignalConfig =
  minimum_speed_mm_s :: int
  engage_roll_mdeg :: int
  release_roll_mdeg :: int
  engage_duration_ms :: u64

definition turn_config_default :: TurnSignalConfig where
  "turn_config_default =
     \<lparr>minimum_speed_mm_s = 2235, engage_roll_mdeg = 8000, release_roll_mdeg = 4000,
      engage_duration_ms = 250\<rparr>"

record TurnSignalDetector =
  turn_config :: TurnSignalConfig
  polarity :: TurnSignalPolarity
  candidate :: "(TurnSignalSide \<times> u64) option"
  turn_active :: "TurnSignalSide option"

definition turn_new :: "TurnSignalConfig \<Rightarrow> TurnSignalPolarity \<Rightarrow> TurnSignalDetector" where
  "turn_new config pol = \<lparr>turn_config = config, polarity = pol, candidate = None, turn_active = None\<rparr>"

definition turn_default :: TurnSignalDetector where
  "turn_default = turn_new turn_config_default NegativeIsLeft"

definition turn_clear :: "TurnSignalDetector \<Rightarrow> TurnSignalSide option \<times> TurnSignalDetector" where
  "turn_clear d = (None, d\<lparr>candidate := None, turn_active := None\<rparr>)"

definition turn_side :: "TurnSignalPolarity \<Rightarrow> int \<Rightarrow> TurnSignalSide" where
  "turn_side pol roll =
     (case (pol, roll < 0) of
        (NegativeIsLeft, True) \<Rightarrow> SideLeft
      | (PositiveIsLeft, False) \<Rightarrow> SideLeft
      | _ \<Rightarrow> SideRight)"

definition turn_update ::
  "TurnSignalDetector \<Rightarrow> u64 \<Rightarrow> int \<Rightarrow> int option \<Rightarrow> TurnSignalSide option \<times> TurnSignalDetector" where
  "turn_update d at speed roll =
     (case roll of
        None \<Rightarrow> turn_clear d
      | Some r \<Rightarrow>
          (let magnitude = \<bar>r\<bar>;
               speed_is_sufficient = minimum_speed_mm_s (turn_config d) \<le> speed
           in if \<not> speed_is_sufficient \<or> magnitude < release_roll_mdeg (turn_config d) then turn_clear d
              else
                (let side = turn_side (polarity d) r
                 in if turn_active d = Some side then (turn_active d, d\<lparr>candidate := None\<rparr>)
                    else if magnitude < engage_roll_mdeg (turn_config d)
                    then (turn_active d, d\<lparr>candidate := None\<rparr>)
                    else
                      (let d' = (case candidate d of
                                   Some (c, started_at) \<Rightarrow>
                                     if c = side then
                                       (if engage_duration_ms (turn_config d) \<le> saturating_sub at started_at
                                        then d\<lparr>turn_active := Some side, candidate := None\<rparr> else d)
                                     else d\<lparr>candidate := Some (side, at)\<rparr>
                                 | None \<Rightarrow> d\<lparr>candidate := Some (side, at)\<rparr>)
                       in (turn_active d', d')))))"

section \<open>Runs\<close>

record TurnSample =
  sample_at :: u64
  sample_speed :: int
  sample_roll :: "int option"

definition turn_step :: "TurnSignalDetector \<Rightarrow> TurnSample \<Rightarrow> TurnSignalDetector" where
  "turn_step d x = snd (turn_update d (sample_at x) (sample_speed x) (sample_roll x))"

text \<open>A sample that engages a side, and one that keeps a selected side.\<close>

definition engages :: "TurnSignalConfig \<Rightarrow> TurnSignalPolarity \<Rightarrow> TurnSignalSide \<Rightarrow> TurnSample \<Rightarrow> bool" where
  "engages cfg pol side x \<longleftrightarrow>
     minimum_speed_mm_s cfg \<le> sample_speed x
     \<and> is_some_and (sample_roll x) (\<lambda>r. engage_roll_mdeg cfg \<le> \<bar>r\<bar> \<and> turn_side pol r = side)"

definition sustains :: "TurnSignalConfig \<Rightarrow> TurnSample \<Rightarrow> bool" where
  "sustains cfg x \<longleftrightarrow>
     minimum_speed_mm_s cfg \<le> sample_speed x
     \<and> is_some_and (sample_roll x) (\<lambda>r. release_roll_mdeg cfg \<le> \<bar>r\<bar>)"

text \<open>The history of samples justifies the candidate and the selected side of a detector.\<close>

definition leaning :: "TurnSignalConfig \<Rightarrow> TurnSignalPolarity \<Rightarrow> TurnSignalSide \<Rightarrow> u64 \<Rightarrow> TurnSample list \<Rightarrow> bool" where
  "leaning cfg pol side t0 xs \<longleftrightarrow>
     xs \<noteq> [] \<and> sample_at (hd xs) = t0 \<and> list_all (engages cfg pol side) xs"

definition held :: "TurnSignalConfig \<Rightarrow> TurnSignalPolarity \<Rightarrow> TurnSignalSide \<Rightarrow> TurnSample list \<Rightarrow> bool" where
  "held cfg pol side xs \<longleftrightarrow>
     (\<exists>t0. leaning cfg pol side t0 xs
        \<and> unat (engage_duration_ms cfg) \<le> unat (sample_at (last xs)) - unat t0)"

definition turn_justified :: "TurnSignalConfig \<Rightarrow> TurnSignalPolarity \<Rightarrow> TurnSample list \<Rightarrow> TurnSignalDetector \<Rightarrow> bool" where
  "turn_justified cfg pol samples d \<longleftrightarrow>
     turn_config d = cfg \<and> polarity d = pol
     \<and> is_none_or (candidate d) (\<lambda>(side, t0). \<exists>pre xs. samples = pre @ xs \<and> leaning cfg pol side t0 xs)
     \<and> is_none_or (turn_active d) (\<lambda>side. \<exists>pre xs post.
          samples = pre @ xs @ post \<and> held cfg pol side xs \<and> list_all (sustains cfg) post)"

lemma leaning_snoc: "leaning cfg pol side t0 xs \<Longrightarrow> engages cfg pol side x \<Longrightarrow> leaning cfg pol side t0 (xs @ [x])"
  by (auto simp: leaning_def)

lemma leaning_single: "engages cfg pol side x \<Longrightarrow> leaning cfg pol side (sample_at x) [x]"
  by (simp add: leaning_def)

lemma active_snoc:
  assumes "is_none_or act (\<lambda>side. \<exists>pre xs post.
      samples = pre @ xs @ post \<and> held cfg pol side xs \<and> list_all (sustains cfg) post)"
    and "sustains cfg x"
  shows "is_none_or act (\<lambda>side. \<exists>pre xs post.
      samples @ [x] = pre @ xs @ post \<and> held cfg pol side xs \<and> list_all (sustains cfg) post)"
proof (cases act)
  case (Some side)
  then obtain pre xs post where "samples = pre @ xs @ post" "held cfg pol side xs" "list_all (sustains cfg) post"
    using assms(1) by auto
  then have "samples @ [x] = pre @ xs @ (post @ [x]) \<and> held cfg pol side xs \<and> list_all (sustains cfg) (post @ [x])"
    using assms(2) by simp
  then show ?thesis
    using Some by (simp only: is_none_or_simps) blast
qed simp

lemma turn_justified_step:
  assumes "turn_justified cfg pol samples d"
  shows "turn_justified cfg pol (samples @ [x]) (turn_step d x)"
proof -
  have cfg: "turn_config d = cfg" "polarity d = pol"
    using assms by (auto simp: turn_justified_def)
  show ?thesis
  proof (cases "sustains cfg x")
    case False
    then have "turn_step d x = d\<lparr>candidate := None, turn_active := None\<rparr>"
      using cfg by (auto simp: turn_step_def turn_update_def turn_clear_def sustains_def Let_def split: option.splits)
    then show ?thesis
      using cfg by (simp add: turn_justified_def)
  next
    case True
    then obtain r where r: "sample_roll x = Some r" "minimum_speed_mm_s cfg \<le> sample_speed x"
      "release_roll_mdeg cfg \<le> \<bar>r\<bar>"
      by (auto simp: sustains_def is_some_and_iff)
    note active = active_snoc [OF _ True, of "turn_active d" samples pol]
    have act: "is_none_or (turn_active d) (\<lambda>side. \<exists>pre xs post.
        samples @ [x] = pre @ xs @ post \<and> held cfg pol side xs \<and> list_all (sustains cfg) post)"
      using assms by (intro active) (simp add: turn_justified_def)
    let ?side = "turn_side pol r"
    show ?thesis
    proof (cases "turn_active d = Some ?side \<or> \<bar>r\<bar> < engage_roll_mdeg cfg")
      case True
      then have "turn_step d x = d\<lparr>candidate := None\<rparr>"
        using cfg r by (auto simp: turn_step_def turn_update_def Let_def)
      then show ?thesis
        using cfg act by (simp add: turn_justified_def)
    next
      case False
      have eng: "engages cfg pol ?side x"
        using False r by (simp add: engages_def)
      have fresh: "\<exists>pre xs. samples @ [x] = pre @ xs \<and> leaning cfg pol ?side (sample_at x) xs"
        using leaning_single [OF eng] by blast
      show ?thesis
      proof (cases "\<exists>t0. candidate d = Some (?side, t0)")
        case False
        then have "turn_step d x = d\<lparr>candidate := Some (?side, sample_at x)\<rparr>"
          using cfg r \<open>\<not> (turn_active d = Some ?side \<or> \<bar>r\<bar> < engage_roll_mdeg cfg)\<close>
          by (auto simp: turn_step_def turn_update_def Let_def split: option.splits)
        then show ?thesis
          using cfg act fresh by (simp add: turn_justified_def)
      next
        case True
        then obtain t0 where t0: "candidate d = Some (?side, t0)"
          by blast
        then obtain pre xs where xs: "samples = pre @ xs" "leaning cfg pol ?side t0 xs"
          using assms by (auto simp: turn_justified_def)
        have lean: "samples @ [x] = pre @ (xs @ [x])" "leaning cfg pol ?side t0 (xs @ [x])"
          using xs leaning_snoc [OF _ eng] by simp_all
        have step: "turn_step d x = (if engage_duration_ms cfg \<le> saturating_sub (sample_at x) t0
            then d\<lparr>turn_active := Some ?side, candidate := None\<rparr> else d)"
          using cfg r t0 \<open>\<not> (turn_active d = Some ?side \<or> \<bar>r\<bar> < engage_roll_mdeg cfg)\<close>
          by (auto simp: turn_step_def turn_update_def Let_def)
        show ?thesis
        proof (cases "engage_duration_ms cfg \<le> saturating_sub (sample_at x) t0")
          case True
          then have "held cfg pol ?side (xs @ [x])"
            using lean(2) by (auto simp: held_def word_le_nat_alt unat_saturating_sub)
          then have "\<exists>pre ys post. samples @ [x] = pre @ ys @ post \<and> held cfg pol ?side ys
              \<and> list_all (sustains cfg) post"
            using lean(1) by (intro exI [of _ pre] exI [of _ "xs @ [x]"] exI [of _ "[]"]) simp
          then show ?thesis
            using cfg step True by (simp add: turn_justified_def)
        next
          case False
          then show ?thesis
            using cfg step act t0 lean by (auto simp: turn_justified_def)
        qed
      qed
    qed
  qed
qed

text \<open>
  A turn signal is selected only by a sustained lean: whenever, after any sequence of samples,
  a side is selected, the samples contain a gapless run that leans to that side at or above the
  engage angle and the minimum speed and lasts at least the engage duration, and every sample since
  the end of that run keeps the minimum speed and the release angle.
\<close>

lemma turn_signal_requires_sustained_lean:
  assumes "turn_active (foldl turn_step (turn_new cfg pol) samples) = Some side"
  shows "\<exists>pre xs post. samples = pre @ xs @ post \<and> held cfg pol side xs \<and> list_all (sustains cfg) post"
proof -
  have "turn_justified cfg pol samples (foldl turn_step (turn_new cfg pol) samples)"
  proof (induction samples rule: rev_induct)
    case Nil
    show ?case
      by (simp add: turn_justified_def turn_new_def)
  next
    case (snoc x xs)
    then show ?case
      using turn_justified_step [OF snoc, of x] by simp
  qed
  then show ?thesis
    using assms by (auto simp: turn_justified_def)
qed

lemma turn_signal_requires_sustained_lean_example:
  "\<exists>xs. held turn_config_default NegativeIsLeft SideLeft xs"
proof -
  let ?x = "\<lambda>t. \<lparr>sample_at = t, sample_speed = 3000, sample_roll = Some (- 9000)\<rparr>"
  have "turn_active (foldl turn_step (turn_new turn_config_default NegativeIsLeft) [?x 100, ?x 400]) = Some SideLeft"
    by (simp add: turn_new_def turn_step_def turn_update_def turn_config_default_def turn_side_def
        saturating_sub_def Let_def)
  from turn_signal_requires_sustained_lean [OF this] show ?thesis
    by blast
qed

end
