(* ===== verification/Device_Settings.thy ===== *)
theory Device_Settings
  imports Evidence Ordered_Map Interfaces
begin

text \<open>
  Settings written to a connected device (\<^verbatim>\<open>cutout-core/src/settings.rs\<close> and the state owner of
  \<^verbatim>\<open>cutout-core/src/device_settings.rs\<close>).  \<open>SettingState\<close> is the life of one write: submitted,
  handed to the transport, confirmed by a matching readback, or refused, timed out or failed.
  \<open>DeviceSettingsState\<close> keeps one record per setting identifier.  The identifiers are an
  enumeration of some two hundred names of which the code only ever uses the derived order and
  equality, so they are a type variable of class \<open>linorder\<close>.  The process-wide counter
  \<open>NEXT_REQUEST_ID\<close> is an explicit argument and result of the operation that draws from it.
\<close>

section \<open>The life of one write\<close>

definition SETTING_CONFIRMATION_TIMEOUT :: Duration where
  "SETTING_CONFIRMATION_TIMEOUT = 2000"

datatype SettingCompletionStrategy = SubmissionOnly | MatchingReadback

fun supports_readback :: "SettingCompletionStrategy \<Rightarrow> bool" where
  "supports_readback MatchingReadback = True"
| "supports_readback SubmissionOnly = False"

datatype SettingValueSource = LiveReadback | CaptureReplay | UserRequest | SourceNotKnown

datatype SettingCommandStatus =
    CommandIdle | WaitingForConfirmation | SentWithoutConfirmation | CommandTimedOut
  | CommandConfirmed | CommandRefused | CommandFailed

datatype SettingTransportStatus =
    TransportAccepted | TransportQueued | TransportSubmitted | TransportRejected | TransportCancelled

record 'v SettingValue =
  setting_value :: 'v
  setting_source :: SettingValueSource

datatype 'v SettingState =
    SettingUnknown
  | SettingCurrent "'v SettingValue"
  | SettingPending "'v SettingValue option" 'v "MonotonicTimestamp option"
  | SettingConfirmed "'v SettingValue" MonotonicTimestamp
  | SettingRefused "'v SettingValue option" "'v option" ControlRefusalReason
  | SettingTimedOut "'v SettingValue option" 'v
  | SettingFailed "'v SettingValue option" "'v option"

fun current_readback :: "'v SettingState \<Rightarrow> 'v SettingValue option" where
  "current_readback SettingUnknown = None"
| "current_readback (SettingCurrent v) = Some v"
| "current_readback (SettingConfirmed v _) = Some v"
| "current_readback (SettingPending c _ _) = c"
| "current_readback (SettingRefused c _ _) = c"
| "current_readback (SettingTimedOut c _) = c"
| "current_readback (SettingFailed c _) = c"

definition current_value :: "'v SettingState \<Rightarrow> 'v option" where
  "current_value s = map_option setting_value (current_readback s)"

fun requested_value :: "'v SettingState \<Rightarrow> 'v option" where
  "requested_value (SettingPending _ r _) = Some r"
| "requested_value (SettingTimedOut _ r) = Some r"
| "requested_value (SettingRefused _ r _) = r"
| "requested_value (SettingFailed _ r) = r"
| "requested_value SettingUnknown = None"
| "requested_value (SettingCurrent _) = None"
| "requested_value (SettingConfirmed _ _) = None"

definition setting_submit :: "'v SettingState \<Rightarrow> 'v \<Rightarrow> MonotonicTimestamp \<Rightarrow> 'v SettingState" where
  "setting_submit s r at = SettingPending (current_readback s) r (Some at)"

fun await_transport :: "'v SettingState \<Rightarrow> 'v SettingState" where
  "await_transport (SettingPending c r _) = SettingPending c r None"
| "await_transport s = s"

fun transport_submitted :: "'v SettingState \<Rightarrow> MonotonicTimestamp \<Rightarrow> 'v SettingState" where
  "transport_submitted (SettingPending c r _) at = SettingPending c r (Some at)"
| "transport_submitted s at = s"

fun confirm_from :: "'v SettingState \<Rightarrow> 'v \<Rightarrow> SettingValueSource \<Rightarrow> MonotonicTimestamp
    \<Rightarrow> bool \<times> 'v SettingState" where
  "confirm_from (SettingPending c r (Some sub)) v src at =
     (if r \<noteq> v \<or> at < sub then (False, SettingPending c r (Some sub))
      else (True, SettingConfirmed \<lparr>setting_value = v, setting_source = src\<rparr> at))"
| "confirm_from s v src at = (False, s)"

definition setting_confirm :: "'v SettingState \<Rightarrow> 'v \<Rightarrow> MonotonicTimestamp \<Rightarrow> bool \<times> 'v SettingState" where
  "setting_confirm s v at = confirm_from s v LiveReadback at"

fun terminal_readback_matches :: "'v SettingState \<Rightarrow> 'v \<Rightarrow> bool" where
  "terminal_readback_matches (SettingConfirmed cur _) v = (setting_value cur = v)"
| "terminal_readback_matches (SettingRefused (Some cur) _ _) v = (setting_value cur = v)"
| "terminal_readback_matches (SettingTimedOut (Some cur) _) v = (setting_value cur = v)"
| "terminal_readback_matches (SettingFailed (Some cur) _) v = (setting_value cur = v)"
| "terminal_readback_matches SettingUnknown v = False"
| "terminal_readback_matches (SettingCurrent _) v = False"
| "terminal_readback_matches (SettingPending _ _ _) v = False"
| "terminal_readback_matches (SettingRefused None _ _) v = False"
| "terminal_readback_matches (SettingTimedOut None _) v = False"
| "terminal_readback_matches (SettingFailed None _) v = False"

definition setting_observe :: "'v SettingState \<Rightarrow> 'v \<Rightarrow> SettingValueSource \<Rightarrow> MonotonicTimestamp
    \<Rightarrow> bool \<times> 'v SettingState" where
  "setting_observe s v src at =
     (case confirm_from s v src at of
        (True, s') \<Rightarrow> (True, s')
      | (False, s') \<Rightarrow>
          if terminal_readback_matches s' v then (False, s')
          else (False,
            let value = \<lparr>setting_value = v, setting_source = src\<rparr> in
            case s' of
              SettingFailed c r \<Rightarrow> SettingFailed (Some value) r
            | SettingPending c r sub \<Rightarrow>
                if is_none_or sub (\<lambda>t. t \<le> at) then SettingPending (Some value) r sub else s'
            | _ \<Rightarrow> SettingCurrent value))"

definition setting_refuse :: "'v SettingState \<Rightarrow> ControlRefusalReason \<Rightarrow> 'v SettingState" where
  "setting_refuse s reason = SettingRefused (current_readback s) (requested_value s) reason"

fun setting_timeout :: "'v SettingState \<Rightarrow> 'v SettingState" where
  "setting_timeout (SettingPending c r _) = SettingTimedOut c r"
| "setting_timeout s = s"

fun timeout_if_elapsed :: "'v SettingState \<Rightarrow> MonotonicTimestamp \<Rightarrow> Duration \<Rightarrow> bool \<times> 'v SettingState" where
  "timeout_if_elapsed (SettingPending c r (Some sub)) now limit =
     (if saturating_duration_since now sub < limit then (False, SettingPending c r (Some sub))
      else (True, setting_timeout (SettingPending c r (Some sub))))"
| "timeout_if_elapsed s now limit = (False, s)"

definition setting_fail :: "'v SettingState \<Rightarrow> 'v SettingState" where
  "setting_fail s = SettingFailed (current_readback s) (requested_value s)"

fun command_status :: "'v SettingState \<Rightarrow> MonotonicTimestamp \<Rightarrow> SettingCompletionStrategy
    \<Rightarrow> SettingCommandStatus" where
  "command_status SettingUnknown now c = CommandIdle"
| "command_status (SettingCurrent _) now c = CommandIdle"
| "command_status (SettingPending _ _ None) now c = WaitingForConfirmation"
| "command_status (SettingPending _ _ (Some sub)) now c =
     (if \<not> supports_readback c then SentWithoutConfirmation
      else if SETTING_CONFIRMATION_TIMEOUT \<le> saturating_duration_since now sub then CommandTimedOut
      else WaitingForConfirmation)"
| "command_status (SettingConfirmed _ _) now c = CommandConfirmed"
| "command_status (SettingRefused _ _ _) now c = CommandRefused"
| "command_status (SettingTimedOut _ _) now c = CommandTimedOut"
| "command_status (SettingFailed _ _) now c = CommandFailed"

section \<open>The settings of a device\<close>

datatype DeviceSettingValue =
    SettingBoolean bool | SettingNumber int | SettingChoice u16 | SettingDisabled

datatype SettingSubmissionOutcome =
    SubmissionAccepted | SubmissionRefused ControlRefusalReason | SubmissionFailed

record 'id DeviceSettingSnapshot =
  snap_id :: 'id
  snap_current :: "DeviceSettingValue SettingValue option"
  snap_measured :: "DeviceSettingValue Measured option"
  snap_requested :: "DeviceSettingValue option"
  snap_request_id :: "u64 option"
  snap_status :: SettingCommandStatus
  snap_transport :: "SettingTransportStatus option"
  snap_age :: "Duration option"
  snap_refusal :: "ControlRefusalReason option"

record SettingRecord =
  setting_state :: "DeviceSettingValue SettingState"
  observed_at :: "MonotonicTimestamp option"
  evidence :: "unit Measured option"
  completion :: SettingCompletionStrategy
  transport :: "SettingTransportStatus option"
  request_id :: "u64 option"
  transport_at :: "MonotonicTimestamp option"

definition setting_record_default :: SettingRecord where
  "setting_record_default = \<lparr>setting_state = SettingUnknown, observed_at = None, evidence = None,
     completion = MatchingReadback, transport = None, request_id = None, transport_at = None\<rparr>"

record 'id DeviceSettingsState =
  records :: "('id, SettingRecord) fmap"
  managed_transport :: bool

definition settings_default :: "'id DeviceSettingsState" where
  "settings_default = \<lparr>records = fmempty, managed_transport = False\<rparr>"

definition require_managed_transport :: "'id DeviceSettingsState \<Rightarrow> 'id DeviceSettingsState" where
  "require_managed_transport s = s\<lparr>managed_transport := True\<rparr>"

text \<open>Evidence older than the latest observation, or than the hand-off of a pending write.\<close>

definition outdated :: "SettingRecord \<Rightarrow> MonotonicTimestamp \<Rightarrow> bool" where
  "outdated r at \<longleftrightarrow> is_some_and (observed_at r) (\<lambda>latest. at < latest)
     \<or> (case setting_state r of SettingPending _ _ (Some sub) \<Rightarrow> at < sub | _ \<Rightarrow> False)"

definition usable_confirmation :: "DeviceSettingValue SettingValue \<Rightarrow> unit Measured option \<Rightarrow> bool" where
  "usable_confirmation v ev \<longleftrightarrow> setting_source v = LiveReadback \<and> is_none_or ev usable_evidence"

definition record_observe :: "SettingRecord \<Rightarrow> DeviceSettingValue SettingValue \<Rightarrow> unit Measured option
    \<Rightarrow> MonotonicTimestamp \<Rightarrow> SettingRecord" where
  "record_observe r v ev at =
     (if outdated r at then r
      else r\<lparr>setting_state :=
          (case setting_state r of
             SettingPending c req sub \<Rightarrow>
               if \<not> supports_readback (completion r) \<or> \<not> usable_confirmation v ev
               then SettingPending (Some v) req sub
               else snd (setting_observe (setting_state r) (setting_value v) (setting_source v) at)
           | _ \<Rightarrow> snd (setting_observe (setting_state r) (setting_value v) (setting_source v) at)),
        observed_at := Some at, evidence := ev\<rparr>)"

definition observe_readback :: "'id DeviceSettingsState \<Rightarrow> 'id \<Rightarrow> DeviceSettingValue SettingValue
    \<Rightarrow> unit Measured option \<Rightarrow> MonotonicTimestamp \<Rightarrow> 'id DeviceSettingsState" where
  "observe_readback s i v ev at =
     s\<lparr>records := fmupd i (record_observe (entry_or setting_record_default (records s) i) v ev at) (records s)\<rparr>"

definition settings_observe :: "'id DeviceSettingsState \<Rightarrow> 'id \<Rightarrow> DeviceSettingValue \<Rightarrow> SettingValueSource
    \<Rightarrow> MonotonicTimestamp \<Rightarrow> 'id DeviceSettingsState" where
  "settings_observe s i v src at =
     observe_readback s i \<lparr>setting_value = v, setting_source = src\<rparr> None at"

definition settings_observe_measured :: "'id DeviceSettingsState \<Rightarrow> 'id \<Rightarrow> DeviceSettingValue Measured
    \<Rightarrow> MonotonicTimestamp \<Rightarrow> 'id DeviceSettingsState" where
  "settings_observe_measured s i x at =
     (let src = (if measured_source x = Reported then LiveReadback else SourceNotKnown) in
      observe_readback s i \<lparr>setting_value = measured_value x, setting_source = src\<rparr>
        (Some (map_value (\<lambda>_. ()) x)) at)"

definition record_invalidate :: "SettingRecord \<Rightarrow> MonotonicTimestamp \<Rightarrow> SettingRecord" where
  "record_invalidate r at =
     (if outdated r at then r
      else r\<lparr>setting_state :=
          (case setting_state r of
             SettingPending _ req sub \<Rightarrow> SettingPending None req sub
           | SettingRefused _ req reason \<Rightarrow> SettingRefused None req reason
           | SettingTimedOut _ req \<Rightarrow> SettingTimedOut None req
           | SettingFailed _ req \<Rightarrow> SettingFailed None req
           | _ \<Rightarrow> SettingUnknown),
        evidence := None, observed_at := Some at\<rparr>)"

definition invalidate_readback :: "'id DeviceSettingsState \<Rightarrow> 'id \<Rightarrow> MonotonicTimestamp
    \<Rightarrow> 'id DeviceSettingsState" where
  "invalidate_readback s i at =
     s\<lparr>records := fmupd i (record_invalidate (entry_or setting_record_default (records s) i) at) (records s)\<rparr>"

text \<open>
  \<open>NEXT_REQUEST_ID.try_update\<close>: the identity drawn is the counter before the update; once the
  counter cannot advance, every request gets the largest identity.
\<close>

definition next_request_id :: "u64 \<Rightarrow> u64 \<times> u64" where
  "next_request_id n = (case checked_add n 1 of Some n' \<Rightarrow> (n, n') | None \<Rightarrow> (- 1, n))"

definition record_submission :: "bool \<Rightarrow> u64 \<Rightarrow> SettingRecord \<Rightarrow> DeviceSettingValue \<Rightarrow> SettingSubmissionOutcome
    \<Rightarrow> SettingCompletionStrategy \<Rightarrow> MonotonicTimestamp \<Rightarrow> SettingRecord" where
  "record_submission managed rid r req outcome compl at =
     (let submitted = setting_submit (setting_state r) req at;
          waiting = (if managed then await_transport submitted else submitted)
      in r\<lparr>request_id := Some rid, transport_at := Some at, completion := compl,
           transport := Some (case outcome of SubmissionAccepted \<Rightarrow> TransportAccepted
                              | SubmissionRefused _ \<Rightarrow> TransportRejected
                              | SubmissionFailed \<Rightarrow> TransportRejected),
           setting_state := (case outcome of SubmissionAccepted \<Rightarrow> waiting
                             | SubmissionRefused reason \<Rightarrow> setting_refuse waiting reason
                             | SubmissionFailed \<Rightarrow> setting_fail waiting)\<rparr>)"

definition settings_submission :: "u64 \<Rightarrow> 'id DeviceSettingsState \<Rightarrow> 'id \<Rightarrow> DeviceSettingValue
    \<Rightarrow> SettingSubmissionOutcome \<Rightarrow> SettingCompletionStrategy \<Rightarrow> MonotonicTimestamp
    \<Rightarrow> u64 \<times> u64 \<times> 'id DeviceSettingsState" where
  "settings_submission n s i req outcome compl at =
     (case next_request_id n of (rid, n') \<Rightarrow>
        (rid, n', s\<lparr>records := fmupd i
           (record_submission (managed_transport s) rid (entry_or setting_record_default (records s) i)
              req outcome compl at) (records s)\<rparr>))"

fun is_pending :: "'v SettingState \<Rightarrow> bool" where
  "is_pending (SettingPending _ _ _) = True"
| "is_pending _ = False"

fun transport_advances :: "SettingTransportStatus option \<Rightarrow> SettingTransportStatus \<Rightarrow> bool" where
  "transport_advances (Some TransportAccepted) status = (status \<noteq> TransportAccepted)"
| "transport_advances (Some TransportQueued) status =
     (status \<in> {TransportSubmitted, TransportRejected, TransportCancelled})"
| "transport_advances _ status = False"

definition record_transport :: "SettingRecord \<Rightarrow> u64 \<Rightarrow> SettingTransportStatus \<Rightarrow> MonotonicTimestamp
    \<Rightarrow> SettingRecord option" where
  "record_transport r rid status at =
     (if request_id r \<noteq> Some rid \<or> is_some_and (transport_at r) (\<lambda>latest. at < latest)
         \<or> \<not> is_pending (setting_state r) \<or> \<not> transport_advances (transport r) status
      then None
      else Some (r\<lparr>transport := Some status, transport_at := Some at,
        setting_state := (case status of
            TransportSubmitted \<Rightarrow> transport_submitted (setting_state r) at
          | TransportRejected \<Rightarrow> setting_fail (setting_state r)
          | TransportCancelled \<Rightarrow> setting_fail (setting_state r)
          | TransportQueued \<Rightarrow> setting_state r
          | TransportAccepted \<Rightarrow> setting_state r)\<rparr>))"

definition settings_transport :: "'id DeviceSettingsState \<Rightarrow> 'id \<Rightarrow> u64 \<Rightarrow> SettingTransportStatus
    \<Rightarrow> MonotonicTimestamp \<Rightarrow> bool \<times> 'id DeviceSettingsState" where
  "settings_transport s i rid status at =
     (case fmlookup (records s) i of None \<Rightarrow> (False, s)
      | Some r \<Rightarrow> (case record_transport r rid status at of
          None \<Rightarrow> (False, s)
        | Some r' \<Rightarrow> (True, s\<lparr>records := fmupd i r' (records s)\<rparr>)))"

definition record_fail :: "SettingRecord \<Rightarrow> MonotonicTimestamp \<Rightarrow> SettingRecord option" where
  "record_fail r at =
     (if is_some_and (transport_at r) (\<lambda>latest. at < latest) \<or> \<not> is_pending (setting_state r) then None
      else Some (r\<lparr>setting_state := setting_fail (setting_state r)\<rparr>))"

definition fail_operation :: "'id::linorder DeviceSettingsState \<Rightarrow> u64 \<Rightarrow> MonotonicTimestamp
    \<Rightarrow> bool \<times> 'id DeviceSettingsState" where
  "fail_operation s rid at =
     (case btm_find (\<lambda>r. request_id r = Some rid) (records s) of None \<Rightarrow> (False, s)
      | Some (i, r) \<Rightarrow> (case record_fail r at of
          None \<Rightarrow> (False, s)
        | Some r' \<Rightarrow> (True, s\<lparr>records := fmupd i r' (records s)\<rparr>)))"

definition record_deadline :: "SettingRecord \<Rightarrow> MonotonicTimestamp option" where
  "record_deadline r =
     (if \<not> supports_readback (completion r) then None
      else case setting_state r of
          SettingPending _ _ (Some at) \<Rightarrow> Some (saturating_add_duration at SETTING_CONFIRMATION_TIMEOUT)
        | _ \<Rightarrow> None)"

definition next_confirmation_at :: "'id::linorder DeviceSettingsState \<Rightarrow> MonotonicTimestamp option" where
  "next_confirmation_at s =
     (case List.map_filter record_deadline (btm_values (records s)) of
        [] \<Rightarrow> None | d # ds \<Rightarrow> Some (foldl min d ds))"

definition awaits_transport :: "'id DeviceSettingsState \<Rightarrow> 'id \<Rightarrow> u64 \<Rightarrow> bool" where
  "awaits_transport s i rid = is_some_and (fmlookup (records s) i) (\<lambda>r.
     request_id r = Some rid \<and> (transport r = Some TransportAccepted \<or> transport r = Some TransportQueued))"

definition record_tick :: "MonotonicTimestamp \<Rightarrow> SettingRecord \<Rightarrow> SettingRecord" where
  "record_tick now r =
     (if supports_readback (completion r)
      then r\<lparr>setting_state := snd (timeout_if_elapsed (setting_state r) now SETTING_CONFIRMATION_TIMEOUT)\<rparr>
      else r)"

definition settings_tick :: "'id DeviceSettingsState \<Rightarrow> MonotonicTimestamp \<Rightarrow> 'id DeviceSettingsState" where
  "settings_tick s now = s\<lparr>records := fmmap (record_tick now) (records s)\<rparr>"

definition settings_disconnect :: "'id DeviceSettingsState \<Rightarrow> 'id DeviceSettingsState" where
  "settings_disconnect s = s\<lparr>records := fmempty\<rparr>"

definition record_snapshot :: "MonotonicTimestamp \<Rightarrow> 'id \<Rightarrow> SettingRecord \<Rightarrow> 'id DeviceSettingSnapshot" where
  "record_snapshot now i r =
     \<lparr>snap_id = i,
      snap_current = current_readback (setting_state r),
      snap_measured = (case (current_readback (setting_state r), evidence r) of
          (Some cur, Some ev) \<Rightarrow> Some (map_value (\<lambda>_. setting_value cur) ev)
        | _ \<Rightarrow> None),
      snap_requested = requested_value (setting_state r),
      snap_request_id = request_id r,
      snap_status = command_status (setting_state r) now (completion r),
      snap_transport = transport r,
      snap_age = map_option (saturating_duration_since now)
        (opt_filter (\<lambda>_. is_some (current_readback (setting_state r))) (observed_at r)),
      snap_refusal = (case setting_state r of SettingRefused _ _ reason \<Rightarrow> Some reason | _ \<Rightarrow> None)\<rparr>"

definition settings_snapshot :: "'id::linorder DeviceSettingsState \<Rightarrow> MonotonicTimestamp
    \<Rightarrow> 'id DeviceSettingSnapshot list" where
  "settings_snapshot s now = map (\<lambda>(i, r). record_snapshot now i r) (btm_entries (records s))"

section \<open>Runs\<close>

text \<open>
  One call on the owner; the process-wide counter is part of the state of a run, and
  \<open>CallElsewhere\<close> is a submission to another device, which draws from the same counter.
\<close>

datatype 'id SettingsCall =
    CallManaged
  | CallObserve 'id DeviceSettingValue SettingValueSource MonotonicTimestamp
  | CallObserveMeasured 'id "DeviceSettingValue Measured" MonotonicTimestamp
  | CallInvalidate 'id MonotonicTimestamp
  | CallSubmission 'id DeviceSettingValue SettingSubmissionOutcome SettingCompletionStrategy MonotonicTimestamp
  | CallTransport 'id u64 SettingTransportStatus MonotonicTimestamp
  | CallFail u64 MonotonicTimestamp
  | CallTick MonotonicTimestamp
  | CallDisconnect
  | CallElsewhere

type_synonym 'id settings_world = "u64 \<times> 'id DeviceSettingsState"

fun settings_call :: "'id::linorder settings_world \<Rightarrow> 'id SettingsCall \<Rightarrow> 'id settings_world" where
  "settings_call (n, s) CallManaged = (n, require_managed_transport s)"
| "settings_call (n, s) (CallObserve i v src at) = (n, settings_observe s i v src at)"
| "settings_call (n, s) (CallObserveMeasured i x at) = (n, settings_observe_measured s i x at)"
| "settings_call (n, s) (CallInvalidate i at) = (n, invalidate_readback s i at)"
| "settings_call (n, s) (CallSubmission i req outcome compl at) =
     snd (settings_submission n s i req outcome compl at)"
| "settings_call (n, s) (CallTransport i rid status at) = (n, snd (settings_transport s i rid status at))"
| "settings_call (n, s) (CallFail rid at) = (n, snd (fail_operation s rid at))"
| "settings_call (n, s) (CallTick now) = (n, settings_tick s now)"
| "settings_call (n, s) CallDisconnect = (n, settings_disconnect s)"
| "settings_call (n, s) CallElsewhere = (snd (next_request_id n), s)"

definition settings_run :: "'id::linorder settings_world \<Rightarrow> 'id SettingsCall list \<Rightarrow> 'id settings_world" where
  "settings_run w calls = foldl settings_call w calls"

section \<open>One record at a time\<close>

text \<open>
  What a call does to the record of one identifier.  The store is then a family of independent
  records, and invariants and histories are proved on one of them.
\<close>

datatype record_op =
    OpKeep | OpReset
  | OpObserve "DeviceSettingValue SettingValue" "unit Measured option" MonotonicTimestamp
  | OpInvalidate MonotonicTimestamp
  | OpSubmission bool u64 DeviceSettingValue SettingSubmissionOutcome SettingCompletionStrategy MonotonicTimestamp
  | OpTransport u64 SettingTransportStatus MonotonicTimestamp
  | OpFail MonotonicTimestamp
  | OpTick MonotonicTimestamp

fun record_apply :: "SettingRecord \<Rightarrow> record_op \<Rightarrow> SettingRecord" where
  "record_apply r OpKeep = r"
| "record_apply r OpReset = setting_record_default"
| "record_apply r (OpObserve v ev at) = record_observe r v ev at"
| "record_apply r (OpInvalidate at) = record_invalidate r at"
| "record_apply r (OpSubmission m rid req outcome compl at) = record_submission m rid r req outcome compl at"
| "record_apply r (OpTransport rid status at) = unwrap_or (record_transport r rid status at) r"
| "record_apply r (OpFail at) = unwrap_or (record_fail r at) r"
| "record_apply r (OpTick now) = record_tick now r"

fun local_op :: "'id::linorder settings_world \<Rightarrow> 'id SettingsCall \<Rightarrow> 'id \<Rightarrow> record_op" where
  "local_op (n, s) CallManaged i = OpKeep"
| "local_op (n, s) (CallObserve j v src at) i =
     (if i = j then OpObserve \<lparr>setting_value = v, setting_source = src\<rparr> None at else OpKeep)"
| "local_op (n, s) (CallObserveMeasured j x at) i =
     (if i = j then OpObserve \<lparr>setting_value = measured_value x,
          setting_source = (if measured_source x = Reported then LiveReadback else SourceNotKnown)\<rparr>
        (Some (map_value (\<lambda>_. ()) x)) at
      else OpKeep)"
| "local_op (n, s) (CallInvalidate j at) i = (if i = j then OpInvalidate at else OpKeep)"
| "local_op (n, s) (CallSubmission j req outcome compl at) i =
     (if i = j then OpSubmission (managed_transport s) (fst (next_request_id n)) req outcome compl at else OpKeep)"
| "local_op (n, s) (CallTransport j rid status at) i = (if i = j then OpTransport rid status at else OpKeep)"
| "local_op (n, s) (CallFail rid at) i =
     (case btm_find (\<lambda>r. request_id r = Some rid) (records s) of
        Some (j, r) \<Rightarrow> if i = j then OpFail at else OpKeep | None \<Rightarrow> OpKeep)"
| "local_op (n, s) (CallTick now) i = OpTick now"
| "local_op (n, s) CallDisconnect i = OpReset"
| "local_op (n, s) CallElsewhere i = OpKeep"

abbreviation record_of :: "'id::linorder settings_world \<Rightarrow> 'id \<Rightarrow> SettingRecord" where
  "record_of w i \<equiv> entry_or setting_record_default (records (snd w)) i"

lemma record_default_sel [simp]:
  "request_id setting_record_default = None" "transport setting_record_default = None"
  "setting_state setting_record_default = SettingUnknown"
  by (simp_all add: setting_record_default_def)

lemma record_transport_default [simp]: "record_transport setting_record_default rid status at = None"
  by (simp add: record_transport_def setting_record_default_def)

lemma record_tick_default [simp]: "record_tick now setting_record_default = setting_record_default"
  by (simp add: record_tick_def setting_record_default_def)

lemma settings_call_record:
  "record_of (settings_call w c) i = record_apply (record_of w i) (local_op w c i)"
proof -
  obtain n s where w: "w = (n, s)"
    by fastforce
  show ?thesis
  proof (cases c)
    case (CallTransport j rid status at)
    show ?thesis
      by (cases "fmlookup (records s) j"; cases "record_transport (entry_or setting_record_default (records s) j) rid status at")
        (auto simp: w CallTransport settings_transport_def entry_or_def)
  next
    case (CallFail rid at)
    show ?thesis
      by (auto simp: w CallFail fail_operation_def entry_or_def split: option.splits dest!: btm_find_SomeD)
  next
    case (CallTick now)
    show ?thesis
      by (cases "fmlookup (records s) i") (auto simp: w CallTick settings_tick_def entry_or_def)
  qed (auto simp: w require_managed_transport_def settings_observe_def settings_observe_measured_def Let_def
      observe_readback_def invalidate_readback_def settings_submission_def settings_disconnect_def
      split: prod.splits)
qed

lemma settings_run_Nil [simp]: "settings_run w [] = w"
  by (simp add: settings_run_def)

lemma settings_run_snoc [simp]: "settings_run w (calls @ [c]) = settings_call (settings_run w calls) c"
  by (simp add: settings_run_def)

lemma settings_run_Cons [simp]: "settings_run w (c # calls) = settings_run (settings_call w c) calls"
  by (simp add: settings_run_def)

lemma managed_call:
  "managed_transport (snd (settings_call w c)) \<longleftrightarrow> managed_transport (snd w) \<or> c = CallManaged"
  by (cases w; cases c)
    (auto simp: require_managed_transport_def settings_observe_def settings_observe_measured_def Let_def
      observe_readback_def invalidate_readback_def settings_submission_def settings_disconnect_def
      settings_transport_def fail_operation_def settings_tick_def split: prod.splits option.splits)

lemma managed_run:
  "managed_transport (snd (settings_run (n, settings_default) calls)) \<longleftrightarrow> CallManaged \<in> set calls"
  by (induction calls rule: rev_induct) (auto simp: managed_call settings_default_def)

section \<open>Transitions of a record\<close>

lemma setting_value_collapse [simp]: "\<lparr>setting_value = setting_value v, setting_source = setting_source v\<rparr> = v"
  by simp

lemma not_advances_accepted [simp]: "\<not> transport_advances st TransportAccepted"
  by (cases "(st, TransportAccepted)" rule: transport_advances.cases) auto

lemma setting_observe_pending:
  "snd (setting_observe (SettingPending c req sub) v src at) =
     (let value = \<lparr>setting_value = v, setting_source = src\<rparr> in
      case sub of
        None \<Rightarrow> SettingPending (Some value) req None
      | Some t \<Rightarrow> if at < t then SettingPending c req sub
          else if req = v then SettingConfirmed value at else SettingPending (Some value) req sub)"
  by (cases sub) (auto simp: setting_observe_def Let_def)

lemma setting_observe_settled:
  "\<not> is_pending s \<Longrightarrow> \<not> is_pending (snd (setting_observe s v src at))
     \<and> (snd (setting_observe s v src at) = SettingConfirmed u t \<longrightarrow> s = SettingConfirmed u t)"
  by (cases s) (auto simp: setting_observe_def Let_def)

lemma is_pending_iff: "is_pending s \<longleftrightarrow> (\<exists>c req sub. s = SettingPending c req sub)"
  by (cases s) auto

lemma observe_settled:
  "\<not> is_pending (setting_state r) \<Longrightarrow> \<not> outdated r at \<Longrightarrow>
     setting_state (record_observe r v ev at) =
       snd (setting_observe (setting_state r) (setting_value v) (setting_source v) at)"
  by (cases "setting_state r") (auto simp: record_observe_def)

lemma observe_outdated [simp]: "outdated r at \<Longrightarrow> record_observe r v ev at = r"
  by (simp add: record_observe_def)

lemma observe_pendingE:
  assumes "setting_state (record_observe r v ev at) = SettingPending c req sub"
  obtains c' where "setting_state r = SettingPending c' req sub"
proof -
  have "is_pending (setting_state r)"
    using assms observe_settled [of r at v ev] setting_observe_settled [of "setting_state r"]
    by (cases "outdated r at") (auto, metis is_pending.simps(1))
  then show thesis
    using assms that by (auto simp: is_pending_iff record_observe_def setting_observe_pending Let_def
        split: if_splits option.splits)
qed

lemma observe_confirmedE:
  assumes "setting_state (record_observe r v ev at) = SettingConfirmed u t"
  obtains (kept) "setting_state r = SettingConfirmed u t"
  | (confirmed) c sub where "setting_state r = SettingPending c (setting_value v) (Some sub)"
      "sub \<le> at" "t = at" "u = v" "completion r = MatchingReadback" "usable_confirmation v ev"
proof (cases "is_pending (setting_state r)")
  case True
  then obtain c req sub where st: "setting_state r = SettingPending c req sub"
    unfolding is_pending_iff by blast
  moreover obtain t' where "sub = Some t'" "\<not> at < t'" "req = setting_value v" "u = v" "t = at"
    "supports_readback (completion r)" "usable_confirmation v ev"
    using assms st
    by (cases sub) (auto simp: record_observe_def setting_observe_pending Let_def split: if_splits)
  ultimately show ?thesis
    using confirmed [of c t'] by (cases "completion r") (auto simp: not_less)
next
  case False
  then show ?thesis
    using assms observe_settled [of r at v ev] setting_observe_settled [of "setting_state r"] kept
    by (cases "outdated r at") simp_all
qed

lemma invalidate_pendingE:
  assumes "setting_state (record_invalidate r at) = SettingPending c req sub"
  obtains c' where "setting_state r = SettingPending c' req sub"
  using assms by (cases "setting_state r") (auto simp: record_invalidate_def split: if_splits)

lemma invalidate_confirmedE:
  "setting_state (record_invalidate r at) = SettingConfirmed u t \<Longrightarrow> setting_state r = SettingConfirmed u t"
  by (cases "setting_state r") (auto simp: record_invalidate_def split: if_splits)

lemma transport_pendingE:
  assumes "record_transport r rid status at = Some r'" "setting_state r' = SettingPending c req sub"
  obtains (handed) sub' where "setting_state r = SettingPending c req sub'" "sub = Some at" "status = TransportSubmitted"
  | (queued) "setting_state r = SettingPending c req sub" "status = TransportQueued"
  using assms by (cases "setting_state r"; cases status; cases "transport r")
    (auto simp: record_transport_def setting_fail_def split: if_splits)

lemma transport_not_confirmed:
  "record_transport r rid status at = Some r' \<Longrightarrow> setting_state r' \<noteq> SettingConfirmed u t"
  by (cases "setting_state r"; cases status) (auto simp: record_transport_def setting_fail_def split: if_splits)

lemma fail_state: "record_fail r at = Some r' \<Longrightarrow> \<exists>c req. setting_state r' = SettingFailed c req"
  by (auto simp: record_fail_def setting_fail_def split: if_splits)

lemma tick_pendingE:
  assumes "setting_state (record_tick now r) = SettingPending c req sub"
  shows "setting_state r = SettingPending c req sub"
  using assms by (cases "(setting_state r, now, SETTING_CONFIRMATION_TIMEOUT)" rule: timeout_if_elapsed.cases)
    (auto simp: record_tick_def split: if_splits)

lemma tick_confirmedE:
  assumes "setting_state (record_tick now r) = SettingConfirmed u t"
  shows "setting_state r = SettingConfirmed u t"
  using assms by (cases "(setting_state r, now, SETTING_CONFIRMATION_TIMEOUT)" rule: timeout_if_elapsed.cases)
    (auto simp: record_tick_def split: if_splits)

lemma record_ops_keep [simp]:
  "completion (record_observe r v ev at) = completion r"
  "completion (record_invalidate r at) = completion r"
  "completion (record_tick now r) = completion r"
  "transport_at (record_observe r v ev at) = transport_at r"
  "transport_at (record_invalidate r at) = transport_at r"
  "transport_at (record_tick now r) = transport_at r"
  "transport (record_observe r v ev at) = transport r"
  "transport (record_invalidate r at) = transport r"
  "transport (record_tick now r) = transport r"
  "request_id (record_observe r v ev at) = request_id r"
  "request_id (record_invalidate r at) = request_id r"
  "request_id (record_tick now r) = request_id r"
  by (simp_all add: record_observe_def record_invalidate_def record_tick_def)

lemma transport_keeps:
  assumes "record_transport r rid status at = Some r'"
  shows "completion r' = completion r" "transport_at r' = Some at" "request_id r' = request_id r"
    "transport r' = Some status" "request_id r = Some rid" "is_none_or (transport_at r) (\<lambda>t. t \<le> at)"
  using assms by (cases "transport_at r"; auto simp: record_transport_def split: if_splits)+

lemma submission_simps [simp]:
  "completion (record_submission m rid r req outcome compl at) = compl"
  "transport_at (record_submission m rid r req outcome compl at) = Some at"
  "request_id (record_submission m rid r req outcome compl at) = Some rid"
  by (simp_all add: record_submission_def Let_def)

lemma submission_state:
  "setting_state (record_submission m rid r req outcome compl at) =
     (case outcome of
        SubmissionAccepted \<Rightarrow> SettingPending (current_readback (setting_state r)) req (if m then None else Some at)
      | SubmissionRefused reason \<Rightarrow> SettingRefused (current_readback (setting_state r)) (Some req) reason
      | SubmissionFailed \<Rightarrow> SettingFailed (current_readback (setting_state r)) (Some req))"
  by (auto simp: record_submission_def Let_def setting_submit_def setting_refuse_def setting_fail_def
      split: SettingSubmissionOutcome.splits)

section \<open>The invariant of a record\<close>

text \<open>
  A pending write has an identity and a transport receipt that has not failed, its hand-off is not
  later than the receipt, and a write without a hand-off is still with the host.  A confirmed write
  was a readable one, and its value was read live.
\<close>

definition setting_record_ok :: "SettingRecord \<Rightarrow> bool" where
  "setting_record_ok r \<longleftrightarrow>
     (case setting_state r of
        SettingPending _ _ sub \<Rightarrow>
          request_id r \<noteq> None
          \<and> transport r \<in> {Some TransportAccepted, Some TransportQueued, Some TransportSubmitted}
          \<and> (\<exists>t. transport_at r = Some t \<and> is_none_or sub (\<lambda>s. s \<le> t))
          \<and> (sub = None \<longrightarrow> transport r \<noteq> Some TransportSubmitted)
      | SettingConfirmed v t \<Rightarrow> completion r = MatchingReadback \<and> setting_source v = LiveReadback
      | _ \<Rightarrow> True)"

lemma setting_record_okI:
  assumes "\<And>c req sub. setting_state r = SettingPending c req sub \<Longrightarrow>
      request_id r \<noteq> None
      \<and> transport r \<in> {Some TransportAccepted, Some TransportQueued, Some TransportSubmitted}
      \<and> (\<exists>t. transport_at r = Some t \<and> is_none_or sub (\<lambda>s. s \<le> t))
      \<and> (sub = None \<longrightarrow> transport r \<noteq> Some TransportSubmitted)"
    and "\<And>v t. setting_state r = SettingConfirmed v t \<Longrightarrow> completion r = MatchingReadback \<and> setting_source v = LiveReadback"
  shows "setting_record_ok r"
  using assms by (auto simp: setting_record_ok_def split: SettingState.splits)

lemma record_ok_pending:
  "setting_record_ok r \<Longrightarrow> setting_state r = SettingPending c req sub \<Longrightarrow>
     request_id r \<noteq> None
      \<and> transport r \<in> {Some TransportAccepted, Some TransportQueued, Some TransportSubmitted}
      \<and> (\<exists>t. transport_at r = Some t \<and> is_none_or sub (\<lambda>s. s \<le> t))
      \<and> (sub = None \<longrightarrow> transport r \<noteq> Some TransportSubmitted)"
  by (simp add: setting_record_ok_def)

lemma record_ok_confirmed:
  "setting_record_ok r \<Longrightarrow> setting_state r = SettingConfirmed v t \<Longrightarrow>
     completion r = MatchingReadback \<and> setting_source v = LiveReadback"
  by (simp add: setting_record_ok_def)

lemma record_ok_apply:
  assumes ok: "setting_record_ok r"
  shows "setting_record_ok (record_apply r x)"
proof (cases x)
  case (OpObserve v ev at)
  show ?thesis unfolding OpObserve record_apply.simps
    by (rule setting_record_okI)
      (auto elim!: observe_pendingE observe_confirmedE dest: record_ok_pending [OF ok] record_ok_confirmed [OF ok]
        simp: usable_confirmation_def)
next
  case (OpInvalidate at)
  show ?thesis unfolding OpInvalidate record_apply.simps
    by (rule setting_record_okI)
      (auto elim!: invalidate_pendingE dest!: invalidate_confirmedE
        dest: record_ok_pending [OF ok] record_ok_confirmed [OF ok])
next
  case (OpSubmission m rid req outcome compl at)
  then show ?thesis
    by (auto simp: setting_record_ok_def submission_state split: SettingSubmissionOutcome.splits)
      (simp_all add: record_submission_def Let_def)
next
  case (OpTransport rid status at)
  show ?thesis
  proof (cases "record_transport r rid status at")
    case None
    then show ?thesis using ok by (simp add: OpTransport)
  next
    case (Some r')
    have "setting_record_ok r'"
    proof (rule setting_record_okI)
      fix c req sub assume "setting_state r' = SettingPending c req sub"
      from Some this show "request_id r' \<noteq> None
        \<and> transport r' \<in> {Some TransportAccepted, Some TransportQueued, Some TransportSubmitted}
        \<and> (\<exists>t. transport_at r' = Some t \<and> is_none_or sub (\<lambda>s. s \<le> t))
        \<and> (sub = None \<longrightarrow> transport r' \<noteq> Some TransportSubmitted)"
        using transport_keeps [OF Some]
        by (cases rule: transport_pendingE) (cases sub; auto dest: record_ok_pending [OF ok])+
    qed (use transport_not_confirmed [OF Some] in blast)
    then show ?thesis by (simp add: OpTransport Some)
  qed
next
  case (OpFail at)
  then show ?thesis
    using ok fail_state [of r at] by (cases "record_fail r at") (auto simp: setting_record_ok_def)
next
  case (OpTick now)
  show ?thesis unfolding OpTick record_apply.simps
    by (rule setting_record_okI)
      (auto dest!: tick_pendingE tick_confirmedE dest: record_ok_pending [OF ok] record_ok_confirmed [OF ok])
qed (use ok in \<open>simp_all add: setting_record_ok_def setting_record_default_def\<close>)

lemma record_ok_default [simp]: "setting_record_ok setting_record_default"
  by (simp add: setting_record_ok_def setting_record_default_def)

interpretation settings_records:
  record_family settings_call record_of local_op record_apply setting_record_ok
  by unfold_locales (fact settings_call_record, fact record_ok_apply)

section \<open>What confirms a write\<close>

fun quiet :: "'id \<Rightarrow> 'id SettingsCall \<Rightarrow> bool" where
  "quiet i (CallSubmission j _ _ _ _) = (i \<noteq> j)"
| "quiet i CallDisconnect = False"
| "quiet i _ = True"

text \<open>An accepted submission of the value, not superseded since, that reached the transport at \<open>sub\<close>.\<close>

definition handed_over :: "'id \<Rightarrow> DeviceSettingValue \<Rightarrow> SettingCompletionStrategy \<Rightarrow> MonotonicTimestamp
    \<Rightarrow> 'id SettingsCall list \<Rightarrow> bool" where
  "handed_over i req compl sub calls \<longleftrightarrow>
     (\<exists>pre t0 mid. calls = pre @ CallSubmission i req SubmissionAccepted compl t0 # mid
        \<and> (\<forall>c \<in> set mid. quiet i c) \<and> t0 \<le> sub
        \<and> (sub = t0 \<and> CallManaged \<notin> set pre
           \<or> (\<exists>rid. CallTransport i rid TransportSubmitted sub \<in> set mid)))"

fun trusted_readback :: "'id \<Rightarrow> DeviceSettingValue \<Rightarrow> MonotonicTimestamp \<Rightarrow> 'id SettingsCall \<Rightarrow> bool" where
  "trusted_readback i v at (CallObserve j v' src t) = (i = j \<and> v = v' \<and> at = t \<and> src = LiveReadback)"
| "trusted_readback i v at (CallObserveMeasured j x t) =
     (i = j \<and> v = measured_value x \<and> at = t \<and> usable_evidence x)"
| "trusted_readback i v at _ = False"

text \<open>The history of a record: what the calls so far say of a pending and of a confirmed write.\<close>

definition accepted_at :: "'id \<Rightarrow> DeviceSettingValue \<Rightarrow> SettingCompletionStrategy \<Rightarrow> MonotonicTimestamp
    \<Rightarrow> 'id SettingsCall list \<Rightarrow> bool" where
  "accepted_at i req compl ta calls \<longleftrightarrow>
     (\<exists>pre t0 mid. calls = pre @ CallSubmission i req SubmissionAccepted compl t0 # mid
        \<and> (\<forall>c \<in> set mid. quiet i c) \<and> t0 \<le> ta)"

definition confirmed_by :: "'id \<Rightarrow> DeviceSettingValue \<Rightarrow> MonotonicTimestamp \<Rightarrow> 'id SettingsCall list \<Rightarrow> bool" where
  "confirmed_by i v at calls \<longleftrightarrow>
     (\<exists>before c after sub. calls = before @ c # after \<and> trusted_readback i v at c
        \<and> handed_over i v MatchingReadback sub before \<and> sub \<le> at \<and> (\<forall>c \<in> set after. quiet i c))"

definition setting_history :: "'id \<Rightarrow> 'id SettingsCall list \<Rightarrow> SettingRecord \<Rightarrow> bool" where
  "setting_history i calls r \<longleftrightarrow>
     (case setting_state r of
        SettingPending _ req sub \<Rightarrow>
          (\<exists>ta. transport_at r = Some ta \<and> accepted_at i req (completion r) ta calls)
          \<and> is_none_or sub (\<lambda>s. handed_over i req (completion r) s calls)
      | SettingConfirmed v at \<Rightarrow> confirmed_by i (setting_value v) at calls
      | _ \<Rightarrow> True)"

lemma handed_over_snoc:
  assumes "handed_over i req compl sub calls" "quiet i c"
  shows "handed_over i req compl sub (calls @ [c])"
proof -
  obtain pre t0 mid where "calls = pre @ CallSubmission i req SubmissionAccepted compl t0 # mid"
    "\<forall>c \<in> set mid. quiet i c" "t0 \<le> sub"
    "sub = t0 \<and> CallManaged \<notin> set pre \<or> (\<exists>rid. CallTransport i rid TransportSubmitted sub \<in> set mid)"
    using assms(1) unfolding handed_over_def by blast
  then show ?thesis
    using assms(2) unfolding handed_over_def
    by (intro exI [of _ pre] exI [of _ t0] exI [of _ "mid @ [c]"]) auto
qed

lemma accepted_at_snoc:
  assumes "accepted_at i req compl ta calls" "quiet i c"
  shows "accepted_at i req compl ta (calls @ [c])"
proof -
  obtain pre t0 mid where "calls = pre @ CallSubmission i req SubmissionAccepted compl t0 # mid"
    "\<forall>c \<in> set mid. quiet i c" "t0 \<le> ta"
    using assms(1) unfolding accepted_at_def by blast
  then show ?thesis
    using assms(2) unfolding accepted_at_def
    by (intro exI [of _ pre] exI [of _ t0] exI [of _ "mid @ [c]"]) auto
qed

lemma confirmed_by_snoc:
  assumes "confirmed_by i v at calls" "quiet i c"
  shows "confirmed_by i v at (calls @ [c])"
proof -
  obtain before c' after sub where "calls = before @ c' # after" "trusted_readback i v at c'"
    "handed_over i v MatchingReadback sub before" "sub \<le> at" "\<forall>c \<in> set after. quiet i c"
    using assms(1) unfolding confirmed_by_def by blast
  then show ?thesis
    using assms(2) unfolding confirmed_by_def
    by (intro exI [of _ before] exI [of _ c'] exI [of _ "after @ [c]"] exI [of _ sub]) auto
qed

lemmas quiet_snoc = handed_over_snoc accepted_at_snoc confirmed_by_snoc

lemma accepted_at_later: "accepted_at i req compl ta calls \<Longrightarrow> ta \<le> tb \<Longrightarrow> accepted_at i req compl tb calls"
  unfolding accepted_at_def by (blast intro: order_trans)

lemma handed_over_transport:
  assumes "accepted_at i req compl ta calls" "ta \<le> at"
  shows "handed_over i req compl at (calls @ [CallTransport i rid TransportSubmitted at])"
proof -
  obtain pre t0 mid where "calls = pre @ CallSubmission i req SubmissionAccepted compl t0 # mid"
    "\<forall>c \<in> set mid. quiet i c" "t0 \<le> at"
    using assms unfolding accepted_at_def by (blast intro: order_trans)
  then show ?thesis
    unfolding handed_over_def
    by (intro exI [of _ pre] exI [of _ t0] exI [of _ "mid @ [CallTransport i rid TransportSubmitted at]"]) auto
qed

lemma confirmed_by_readback:
  "handed_over i v MatchingReadback sub calls \<Longrightarrow> sub \<le> at \<Longrightarrow> trusted_readback i v at c
     \<Longrightarrow> confirmed_by i v at (calls @ [c])"
  unfolding confirmed_by_def
  by (intro exI [of _ calls] exI [of _ c] exI [of _ "[]"] exI [of _ sub]) simp

lemma history_pending:
  "setting_history i calls r \<Longrightarrow> setting_state r = SettingPending c req sub \<Longrightarrow>
     (\<exists>ta. transport_at r = Some ta \<and> accepted_at i req (completion r) ta calls)
     \<and> is_none_or sub (\<lambda>s. handed_over i req (completion r) s calls)"
  by (simp add: setting_history_def)

lemma history_confirmed:
  "setting_history i calls r \<Longrightarrow> setting_state r = SettingConfirmed v at \<Longrightarrow> confirmed_by i (setting_value v) at calls"
  by (simp add: setting_history_def)

lemma setting_historyI:
  assumes "\<And>c req sub. setting_state r = SettingPending c req sub \<Longrightarrow>
     (\<exists>ta. transport_at r = Some ta \<and> accepted_at i req (completion r) ta calls)
     \<and> is_none_or sub (\<lambda>s. handed_over i req (completion r) s calls)"
    and "\<And>v at. setting_state r = SettingConfirmed v at \<Longrightarrow> confirmed_by i (setting_value v) at calls"
  shows "setting_history i calls r"
  using assms by (auto simp: setting_history_def split: SettingState.splits)

text \<open>A call that neither starts, hands over nor confirms a write keeps the history.\<close>

lemma history_carry:
  assumes H: "setting_history i calls r" and q: "quiet i c"
    and pend: "\<And>cur req sub. setting_state r' = SettingPending cur req sub \<Longrightarrow>
      (\<exists>cur'. setting_state r = SettingPending cur' req sub) \<and> transport_at r' = transport_at r"
    and conf: "\<And>v at. setting_state r' = SettingConfirmed v at \<Longrightarrow>
      setting_state r = SettingConfirmed v at \<or> confirmed_by i (setting_value v) at (calls @ [c])"
    and compl: "completion r' = completion r"
  shows "setting_history i (calls @ [c]) r'"
proof (rule setting_historyI)
  fix cur req sub assume "setting_state r' = SettingPending cur req sub"
  from pend [OF this] obtain cur' where "setting_state r = SettingPending cur' req sub"
    and ta: "transport_at r' = transport_at r"
    by blast
  from history_pending [OF H this(1)]
  show "(\<exists>ta. transport_at r' = Some ta \<and> accepted_at i req (completion r') ta (calls @ [c]))
     \<and> is_none_or sub (\<lambda>s. handed_over i req (completion r') s (calls @ [c]))"
    by (cases sub) (auto simp: ta compl intro: quiet_snoc q)
next
  fix v at assume "setting_state r' = SettingConfirmed v at"
  from conf [OF this] show "confirmed_by i (setting_value v) at (calls @ [c])"
    by (auto intro: quiet_snoc q dest: history_confirmed [OF H])
qed

lemma history_observe:
  assumes H: "setting_history i calls r" and q: "quiet i c"
    and rb: "usable_confirmation v ev \<Longrightarrow> trusted_readback i (setting_value v) at c"
  shows "setting_history i (calls @ [c]) (record_observe r v ev at)"
proof (rule history_carry [OF H q])
  fix u t assume "setting_state (record_observe r v ev at) = SettingConfirmed u t"
  then show "setting_state r = SettingConfirmed u t \<or> confirmed_by i (setting_value u) t (calls @ [c])"
  proof (cases rule: observe_confirmedE)
    case (confirmed cur sub)
    then have "handed_over i (setting_value v) MatchingReadback sub calls"
      using history_pending [OF H, of cur "setting_value v" "Some sub"] by simp
    then show ?thesis
      using confirmed rb by (auto intro: confirmed_by_readback)
  qed simp
qed (auto elim: observe_pendingE)

lemma history_transport:
  assumes H: "setting_history i calls r"
    and tr: "record_transport r rid status at = Some r'"
  shows "setting_history i (calls @ [CallTransport i rid status at]) r'"
proof (rule setting_historyI)
  let ?c = "CallTransport i rid status at"
  fix cur req sub assume st: "setting_state r' = SettingPending cur req sub"
  from tr st obtain sub' where prev: "setting_state r = SettingPending cur req sub'"
    and sub: "sub = sub' \<or> sub = Some at \<and> status = TransportSubmitted"
    by (cases rule: transport_pendingE) auto
  obtain ta where ta: "transport_at r = Some ta" "accepted_at i req (completion r) ta calls"
    using history_pending [OF H prev] by blast
  then have le: "ta \<le> at"
    using transport_keeps(6) [OF tr] by simp
  have "accepted_at i req (completion r) at (calls @ [?c])"
    using ta(2) le by (auto intro: quiet_snoc accepted_at_later)
  moreover have "is_none_or sub (\<lambda>s. handed_over i req (completion r) s (calls @ [?c]))"
    using sub history_pending [OF H prev] handed_over_transport [OF ta(2) le]
    by (cases sub) (auto intro: quiet_snoc)
  ultimately show "(\<exists>ta. transport_at r' = Some ta \<and> accepted_at i req (completion r') ta (calls @ [?c]))
      \<and> is_none_or sub (\<lambda>s. handed_over i req (completion r') s (calls @ [?c]))"
    using transport_keeps [OF tr] by simp
qed (use transport_not_confirmed [OF tr] in blast)

lemma history_submission:
  assumes "managed_transport s \<longleftrightarrow> CallManaged \<in> set calls"
  shows "setting_history i (calls @ [CallSubmission i req outcome compl at])
     (record_submission (managed_transport s) rid r req outcome compl at)"
proof -
  have "accepted_at i req compl at (calls @ [CallSubmission i req SubmissionAccepted compl at])"
    unfolding accepted_at_def by (intro exI [of _ calls] exI [of _ at] exI [of _ "[]"]) simp
  moreover have "CallManaged \<notin> set calls \<Longrightarrow>
      handed_over i req compl at (calls @ [CallSubmission i req SubmissionAccepted compl at])"
    unfolding handed_over_def by (intro exI [of _ calls] exI [of _ at] exI [of _ "[]"]) simp
  ultimately show ?thesis
    using assms by (auto simp: setting_history_def submission_state split: SettingSubmissionOutcome.splits)
qed

lemma history_fail:
  "setting_history i calls r \<Longrightarrow> quiet i c \<Longrightarrow> setting_history i (calls @ [c]) (unwrap_or (record_fail r at) r)"
  using fail_state [of r at] history_carry [of i calls r c r]
  by (cases "record_fail r at") (auto intro: setting_historyI)

lemma history_step:
  assumes w: "w = settings_run (n, settings_default) calls"
    and H: "setting_history i calls (record_of w i)"
  shows "setting_history i (calls @ [c]) (record_apply (record_of w i) (local_op w c i))"
proof -
  let ?r = "record_of w i"
  obtain m s where ws: "w = (m, s)"
    by fastforce
  have keep: "setting_history i (calls @ [c]) ?r" if "quiet i c"
    by (rule history_carry [OF H that]) auto
  show ?thesis
  proof (cases c)
    case (CallObserve j v src at)
    have "setting_history i (calls @ [c]) (record_observe ?r \<lparr>setting_value = v, setting_source = src\<rparr> None at)"
      if "i = j"
      by (rule history_observe [OF H]) (auto simp: CallObserve that usable_confirmation_def)
    then show ?thesis
      using keep by (simp add: ws CallObserve)
  next
    case (CallObserveMeasured j x at)
    have "setting_history i (calls @ [c]) (record_observe ?r \<lparr>setting_value = measured_value x,
        setting_source = (if measured_source x = Reported then LiveReadback else SourceNotKnown)\<rparr>
        (Some (map_value (\<lambda>_. ()) x)) at)" if "i = j"
      by (rule history_observe [OF H]) (simp_all add: CallObserveMeasured that usable_confirmation_def)
    then show ?thesis
      using keep by (cases "i = j") (simp_all add: ws CallObserveMeasured)
  next
    case (CallInvalidate j at)
    have "setting_history i (calls @ [c]) (record_invalidate ?r at)"
      by (rule history_carry [OF H]) (auto simp: CallInvalidate elim: invalidate_pendingE dest: invalidate_confirmedE)
    then show ?thesis
      using keep by (auto simp: ws CallInvalidate)
  next
    case (CallSubmission j req outcome compl at)
    moreover have "managed_transport s \<longleftrightarrow> CallManaged \<in> set calls"
      using managed_run [of n calls] by (simp add: ws flip: w)
    ultimately show ?thesis
      using keep history_submission [of s calls i] by (auto simp: ws)
  next
    case (CallTransport j rid status at)
    then show ?thesis
      using keep history_transport [OF H, of rid status at]
      by (cases "record_transport ?r rid status at") (auto simp: ws)
  next
    case (CallFail rid at)
    then show ?thesis
      using keep history_fail [OF H, of c at] by (auto simp: ws split: option.splits)
  next
    case (CallTick now)
    have "setting_history i (calls @ [c]) (record_tick now ?r)"
      by (rule history_carry [OF H]) (auto simp: CallTick dest: tick_pendingE tick_confirmedE)
    then show ?thesis
      by (simp add: ws CallTick)
  next
    case CallDisconnect
    then show ?thesis
      by (simp add: ws setting_history_def setting_record_default_def)
  qed (use keep in \<open>auto simp: ws\<close>)
qed

text \<open>
  C5. A write is confirmed only by the device itself.  Whenever a setting is reported as confirmed
  at some time, the calls so far contain, in this order: an accepted submission of that very value
  that asked for a readback; its hand-off to the transport, at submission when the host does not
  manage the transport and by a receipt otherwise; and, at the confirmation time and not before
  the hand-off, a readback of the same value that is live and, when it carries evidence, reported,
  known and verified.  No other submission of the setting and no disconnect lies in between or since.
\<close>

theorem setting_confirmed_by_readback:
  assumes "setting_state (record_of (settings_run (n, settings_default) calls) i) = SettingConfirmed v at"
  shows "\<exists>before c after sub. calls = before @ c # after
    \<and> trusted_readback i (setting_value v) at c
    \<and> handed_over i (setting_value v) MatchingReadback sub before
    \<and> sub \<le> at \<and> (\<forall>c \<in> set after. quiet i c)"
proof -
  have "setting_history i calls (record_of (foldl settings_call (n, settings_default) calls) i)"
    by (rule settings_records.history_run [where H = "setting_history i"])
      (use history_step [of _ n _ i] in \<open>auto simp: settings_default_def setting_history_def [of _ "[]"]
          setting_record_default_def settings_run_def record_ok_default [unfolded setting_record_default_def]\<close>)
  then show ?thesis
    using assms unfolding settings_run_def confirmed_by_def [symmetric] by (rule history_confirmed)
qed

definition confirmed_calls :: "nat SettingsCall list" where
  "confirmed_calls =
     [CallManaged, CallSubmission 1 (SettingBoolean True) SubmissionAccepted MatchingReadback 10,
      CallTransport 1 7 TransportSubmitted 20,
      CallObserveMeasured 1 (measured_reported (SettingBoolean True)) 30]"

lemmas settings_eval = confirmed_calls_def settings_default_def require_managed_transport_def
  settings_submission_def next_request_id_def checked_add_def record_submission_def Let_def
  setting_submit_def setting_record_default_def entry_or_def settings_transport_def record_transport_def
  settings_observe_measured_def observe_readback_def record_observe_def outdated_def
  usable_confirmation_def usable_evidence_def measured_reported_def setting_observe_def

lemma confirmed_calls_state:
  "setting_state (record_of (settings_run (7, settings_default) confirmed_calls) 1) =
     SettingConfirmed \<lparr>setting_value = SettingBoolean True, setting_source = LiveReadback\<rparr> 30"
  by (simp add: settings_eval)

theorem setting_confirmed_by_readback_witness:
  "setting_state (record_of (settings_run (7, settings_default) confirmed_calls) 1) =
     SettingConfirmed \<lparr>setting_value = SettingBoolean True, setting_source = LiveReadback\<rparr> 30
   \<and> (\<exists>before c after sub. confirmed_calls = before @ c # after
    \<and> trusted_readback 1 (SettingBoolean True) 30 c
    \<and> handed_over 1 (SettingBoolean True) MatchingReadback sub before
    \<and> sub \<le> 30 \<and> (\<forall>c \<in> set after. quiet 1 c))"
  using setting_confirmed_by_readback [OF confirmed_calls_state] confirmed_calls_state by simp

section \<open>Deadlines and projections\<close>

lemma state_update_id: "r\<lparr>setting_state := x\<rparr> = r \<longleftrightarrow> x = setting_state r"
  by (cases r) auto

lemma tick_unchanged_iff:
  assumes "now \<noteq> - 1"
  shows "record_tick now r = r \<longleftrightarrow> is_none_or (record_deadline r) (\<lambda>d. now < d)"
proof -
  have now: "unat now < 18446744073709551615"
    using assms unat_less_2p64 [of now] unat_max_word_u64 unfolding word_unat_eq_iff by linarith
  have "saturating_duration_since now sub < SETTING_CONFIRMATION_TIMEOUT
      \<longleftrightarrow> now < saturating_add_duration sub SETTING_CONFIRMATION_TIMEOUT" for sub
    using now by (auto simp: word_less_nat_alt unat_rust SETTING_CONFIRMATION_TIMEOUT_def)
  then show ?thesis
    by (cases "(setting_state r, now, SETTING_CONFIRMATION_TIMEOUT)" rule: timeout_if_elapsed.cases)
      (simp_all add: record_tick_def record_deadline_def state_update_id)
qed

lemma fmmap_id_iff: "fmmap f m = m \<longleftrightarrow> (\<forall>v \<in> set (btm_values m). f v = v)"
proof
  assume eq: "fmmap f m = m"
  show "\<forall>v \<in> set (btm_values m). f v = v"
  proof
    fix v assume "v \<in> set (btm_values m)"
    then obtain k where k: "fmlookup m k = Some v"
      by (auto simp: set_btm_values)
    have "fmlookup (fmmap f m) k = Some v"
      using k eq by simp
    then show "f v = v"
      using k by simp
  qed
next
  assume fix_all: "\<forall>v \<in> set (btm_values m). f v = v"
  show "fmmap f m = m"
  proof (rule fmap_ext)
    fix k show "fmlookup (fmmap f m) k = fmlookup m k"
    proof (cases "fmlookup m k")
      case (Some v)
      then have "v \<in> set (btm_values m)"
        by (auto simp: set_btm_values)
      then show ?thesis using fix_all Some by simp
    qed simp
  qed
qed

lemma foldl_min_le_iff: "(now :: 'a::linorder) < foldl min d ds \<longleftrightarrow> (\<forall>e \<in> set (d # ds). now < e)"
  by (induction ds arbitrary: d) auto

text \<open>
  The confirmation deadline is exact.  At every time the clock can show before its very last
  value, a tick changes some setting exactly when the announced next confirmation deadline has
  been reached; with no deadline announced, or before it, a tick changes nothing.
\<close>

lemma settings_deadline_exact:
  assumes "now \<noteq> - 1"
  shows "settings_tick s now = s \<longleftrightarrow> is_none_or (next_confirmation_at s) (\<lambda>d. now < d)"
proof -
  have "settings_tick s now = s \<longleftrightarrow> (\<forall>r \<in> set (btm_values (records s)). record_tick now r = r)"
    by (cases s) (simp add: settings_tick_def fmmap_id_iff)
  also have "\<dots> \<longleftrightarrow> (\<forall>r \<in> set (btm_values (records s)). is_none_or (record_deadline r) (\<lambda>d. now < d))"
    by (simp only: tick_unchanged_iff [OF assms])
  also have "\<dots> \<longleftrightarrow> (\<forall>d \<in> set (List.map_filter record_deadline (btm_values (records s))). now < d)"
    by (force simp: List.map_filter_def is_none_or_def split: option.splits)
  also have "\<dots> \<longleftrightarrow> is_none_or (next_confirmation_at s) (\<lambda>d. now < d)"
    by (cases "List.map_filter record_deadline (btm_values (records s))")
      (simp_all add: next_confirmation_at_def foldl_min_le_iff del: foldl.simps)
  finally show ?thesis .
qed

lemma settings_deadline_exact_example:
  "(2020 :: u64) \<noteq> - 1 \<and>
   (let s = snd (settings_run (7, settings_default) (take 3 confirmed_calls)) in
      settings_tick s 2020 = s \<longleftrightarrow> is_none_or (next_confirmation_at s) (\<lambda>d. 2020 < d))"
  using settings_deadline_exact [of 2020 "snd (settings_run (7, settings_default) (take 3 confirmed_calls))"]
  by (simp add: Let_def)

text \<open>
  What is shown does not depend on ticks having run: the projection of every setting at a time,
  its status included, is the same before and after a tick at that time.
\<close>

lemma settings_snapshot_tick: "settings_snapshot (settings_tick s now) now = settings_snapshot s now"
proof -
  have "record_snapshot now i (record_tick now r) = record_snapshot now i r" for i :: 'a and r
    by (cases "(setting_state r, now, SETTING_CONFIRMATION_TIMEOUT)" rule: timeout_if_elapsed.cases)
      (auto simp: record_snapshot_def record_tick_def not_less split: option.splits)
  then show ?thesis
    by (auto simp: settings_snapshot_def settings_tick_def btm_entries_fmmap comp_def case_prod_beta)
qed

section \<open>Transport receipts\<close>

fun final_receipt :: "SettingTransportStatus \<Rightarrow> bool" where
  "final_receipt TransportAccepted = False"
| "final_receipt TransportQueued = False"
| "final_receipt TransportSubmitted = True"
| "final_receipt TransportRejected = True"
| "final_receipt TransportCancelled = True"

text \<open>How often a run takes a final receipt for the request \<open>rid\<close>.\<close>

fun takes_receipt :: "u64 \<Rightarrow> 'id settings_world \<Rightarrow> 'id SettingsCall \<Rightarrow> bool" where
  "takes_receipt rid w (CallTransport i rid' status at) =
     (rid = rid' \<and> final_receipt status \<and> fst (settings_transport (snd w) i rid' status at))"
| "takes_receipt rid w _ = False"

primrec receipts :: "u64 \<Rightarrow> 'id::linorder settings_world \<Rightarrow> 'id SettingsCall list \<Rightarrow> nat" where
  "receipts rid w [] = 0"
| "receipts rid w (c # cs) = (if takes_receipt rid w c then 1 else 0) + receipts rid (settings_call w c) cs"

text \<open>
  Identities below the largest one are below the counter, and no two settings hold the same one.
\<close>

definition ids_issued :: "'id::linorder settings_world \<Rightarrow> bool" where
  "ids_issued w \<longleftrightarrow>
     (\<forall>i rid. request_id (record_of w i) = Some rid \<longrightarrow> rid = - 1 \<or> rid < fst w)
     \<and> (\<forall>i j rid. request_id (record_of w i) = Some rid \<and> request_id (record_of w j) = Some rid
          \<and> rid \<noteq> - 1 \<longrightarrow> i = j)"

definition awaited :: "u64 \<Rightarrow> 'id::linorder settings_world \<Rightarrow> bool" where
  "awaited rid w \<longleftrightarrow> (\<exists>i. request_id (record_of w i) = Some rid
     \<and> transport (record_of w i) \<in> {Some TransportAccepted, Some TransportQueued})"

lemma next_request_id_cases:
  obtains (fresh) "n \<noteq> - 1" "next_request_id n = (n, n + 1)" "n < n + 1"
  | (exhausted) "n = - 1" "next_request_id n = (- 1, - 1)"
proof (cases "n = - 1")
  case True
  then show ?thesis
    by (intro exhausted) (simp_all add: next_request_id_def checked_add_def)
next
  case False
  then have "unat n \<noteq> 18446744073709551615"
    using unat_max_word_u64 by (metis word_unat_eq_iff)
  then have lt: "unat n < 18446744073709551615"
    using unat_less_2p64 [of n] by linarith
  then have "unat (n + 1) = Suc (unat n)"
    by (intro unat_add_one_less) simp
  then show ?thesis
    using False lt by (intro fresh) (simp_all add: next_request_id_def checked_add_def word_less_nat_alt)
qed

lemma counter_mono: "fst w \<le> fst (settings_call w c)"
proof -
  have mono: "n \<le> snd (next_request_id n)" for n
    by (cases n rule: next_request_id_cases) auto
  show ?thesis
    using mono [of "fst w"] by (cases w; cases c) (auto simp: settings_submission_def split: prod.splits)
qed

lemma transport_was_open:
  "record_transport r rid status at = Some r' \<Longrightarrow> transport r \<in> {Some TransportAccepted, Some TransportQueued}"
  by (cases "(transport r, status)" rule: transport_advances.cases) (auto simp: record_transport_def split: if_splits)

text \<open>Only a submission gives a record a new identity.\<close>

lemma call_request_id:
  obtains (same) "request_id (record_of (settings_call w c) i) = request_id (record_of w i)"
      "transport (record_of (settings_call w c) i) \<in> {Some TransportAccepted, Some TransportQueued}
        \<longrightarrow> transport (record_of w i) \<in> {Some TransportAccepted, Some TransportQueued}"
  | (reset) "request_id (record_of (settings_call w c) i) = None"
  | (issued) req outcome compl at where "c = CallSubmission i req outcome compl at"
      "request_id (record_of (settings_call w c) i) = Some (fst (next_request_id (fst w)))"
proof (cases "local_op w c i")
  case (OpSubmission m rid req outcome compl at)
  then have "c = CallSubmission i req outcome compl at \<and> rid = fst (next_request_id (fst w))"
    by (cases w; cases c) (auto split: if_splits option.splits)
  then show ?thesis
    using issued OpSubmission by (simp add: settings_call_record)
next
  case OpReset
  then show ?thesis
    using reset by (simp add: settings_call_record)
next
  case (OpTransport rid status at)
  then show ?thesis
    using same by (cases "record_transport (record_of w i) rid status at")
      (auto simp: settings_call_record transport_keeps dest: transport_was_open)
next
  case (OpFail at)
  then show ?thesis
    using same by (auto simp: settings_call_record record_fail_def)
qed (use same in \<open>auto simp: settings_call_record\<close>)

lemma ids_issued_default: "ids_issued (n, settings_default)"
  by (simp add: ids_issued_def settings_default_def)

lemma issue_counter:
  assumes "c = CallSubmission i req outcome compl at"
  shows "fst (next_request_id (fst w)) = - 1 \<or>
    fst (next_request_id (fst w)) = fst w \<and> fst w < fst (settings_call w c)"
  using assms by (cases w; cases "fst w" rule: next_request_id_cases) (simp_all add: settings_submission_def)

lemma ids_issued_bound:
  "ids_issued w \<Longrightarrow> request_id (record_of w i) = Some rid \<Longrightarrow> rid = - 1 \<or> rid < fst w"
  unfolding ids_issued_def by blast

lemma ids_issued_inj:
  "ids_issued w \<Longrightarrow> request_id (record_of w i) = Some rid \<Longrightarrow> request_id (record_of w j) = Some rid \<Longrightarrow>
     rid \<noteq> - 1 \<Longrightarrow> i = j"
  unfolding ids_issued_def by blast

lemma ids_issued_bound_call:
  assumes inv: "ids_issued w" and i: "request_id (record_of (settings_call w c) i) = Some rid"
  shows "rid = - 1 \<or> rid < fst (settings_call w c)"
proof (cases rule: call_request_id [of w c i, case_names same reset issued])
  case same
  then have "rid = - 1 \<or> rid < fst w"
    using i ids_issued_bound [OF inv, of i rid] by simp
  then show ?thesis
    using counter_mono [of w c] by (blast intro: less_le_trans)
next
  case reset
  then show ?thesis using i by simp
next
  case (issued req outcome compl at)
  then have "rid = fst (next_request_id (fst w))"
    using i by simp
  then show ?thesis
    using issue_counter [OF issued(1), of w] by metis
qed

text \<open>A call gives at most one record an identity, and no record held it before.\<close>

lemma ids_issued_inj_call:
  assumes inv: "ids_issued w" and rid: "rid \<noteq> - 1" and ne: "i \<noteq> j"
    and i: "request_id (record_of (settings_call w c) i) = Some rid"
    and j: "request_id (record_of (settings_call w c) j) = Some rid"
  shows False
proof -
  have old: "request_id (record_of w k) = Some rid"
    if k: "request_id (record_of (settings_call w c) k) = Some rid"
      and l: "request_id (record_of w l) = Some rid" for k l
  proof (cases rule: call_request_id [of w c k, case_names same reset issued])
    case (issued req outcome compl at)
    then have "rid = fst (next_request_id (fst w))"
      using k by simp
    then have "rid = fst w"
      using issue_counter [OF issued(1), of w] rid by metis
    then show ?thesis
      using ids_issued_bound [OF inv l] rid by simp
  qed (use k in simp_all)
  have one: "request_id (record_of w i) = Some rid \<or> request_id (record_of w j) = Some rid"
  proof (cases rule: call_request_id [of w c i, case_names same reset issued])
    case isi: (issued req outcome compl at)
    show ?thesis
    proof (cases rule: call_request_id [of w c j, case_names same reset issued])
      case (issued req' outcome' compl' at')
      then show ?thesis using isi(1) ne by simp
    qed (use j in simp_all)
  qed (use i in simp_all)
  then have "request_id (record_of w i) = Some rid" "request_id (record_of w j) = Some rid"
    using old [OF i] old [OF j] by blast+
  then show False
    using ids_issued_inj [OF inv] rid ne by blast
qed

lemma ids_issued_call: "ids_issued w \<Longrightarrow> ids_issued (settings_call w c)"
  unfolding ids_issued_def [of "settings_call w c"]
  using ids_issued_bound_call ids_issued_inj_call by blast

text \<open>A request is awaited after a call only if it was awaited before or is issued by that call.\<close>

lemma awaited_call:
  assumes "awaited rid (settings_call w c)" "rid \<noteq> - 1"
  shows "awaited rid w \<or> rid = fst w \<and> fst w < fst (settings_call w c)"
proof -
  let ?w = "settings_call w c"
  obtain i where i: "request_id (record_of ?w i) = Some rid"
    "transport (record_of ?w i) \<in> {Some TransportAccepted, Some TransportQueued}"
    using assms unfolding awaited_def by blast
  show ?thesis
  proof (cases rule: call_request_id [of w c i, case_names same reset issued])
    case same
    then show ?thesis
      using i unfolding awaited_def by (intro disjI1 exI [of _ i]) auto
  next
    case (issued req outcome compl at)
    then show ?thesis
      using i(1) assms(2) issue_counter [of c i req outcome compl at w] by auto
  qed (use i(1) in simp)
qed

lemma receipt_closes:
  assumes inv: "ids_issued w" and rid: "rid \<noteq> - 1" and tk: "takes_receipt rid w c"
  shows "awaited rid w" "\<not> awaited rid (settings_call w c)" "rid < fst w" "fst (settings_call w c) = fst w"
proof -
  obtain n s where w: "w = (n, s)"
    by fastforce
  obtain i status at where c: "c = CallTransport i rid status at" "final_receipt status"
    "fst (settings_transport s i rid status at)"
    using tk by (cases c) (auto simp: w)
  then obtain r r' where r: "fmlookup (records s) i = Some r" "record_transport r rid status at = Some r'"
    by (auto simp: settings_transport_def split: option.splits)
  have ri: "record_of w i = r" "record_of (settings_call w c) i = r'"
    using r c by (simp_all add: w entry_or_def settings_transport_def)
  note keeps = transport_keeps [OF r(2)] transport_was_open [OF r(2)]
  show "awaited rid w"
    using keeps ri(1) unfolding awaited_def by auto
  show "rid < fst w"
    using inv rid keeps ri(1) unfolding ids_issued_def by blast
  show "fst (settings_call w c) = fst w"
    by (simp add: w c)
  show "\<not> awaited rid (settings_call w c)"
  proof
    assume "awaited rid (settings_call w c)"
    then obtain j where j: "request_id (record_of (settings_call w c) j) = Some rid"
      "transport (record_of (settings_call w c) j) \<in> {Some TransportAccepted, Some TransportQueued}"
      unfolding awaited_def by blast
    have "i = j"
      using ids_issued_call [OF inv, of c] j(1) keeps ri rid unfolding ids_issued_def by metis
    then show False
      using j(2) ri(2) keeps c(2) by auto
  qed
qed

lemma receipts_bound:
  assumes "ids_issued w" "rid \<noteq> - 1"
  shows "receipts rid w calls \<le> (if awaited rid w \<or> fst w \<le> rid then 1 else 0)"
  using assms(1)
proof (induction calls arbitrary: w)
  case (Cons c calls)
  note IH = Cons.IH [OF ids_issued_call [OF Cons.prems, of c]]
  show ?case
  proof (cases "takes_receipt rid w c")
    case True
    then show ?thesis
      using IH receipt_closes [OF Cons.prems assms(2) True] by (simp add: not_le [symmetric])
  next
    case False
    have "awaited rid (settings_call w c) \<or> fst (settings_call w c) \<le> rid \<Longrightarrow> awaited rid w \<or> fst w \<le> rid"
      using awaited_call [of rid w c] assms(2) counter_mono [of w c] by auto
    then show ?thesis
      using IH False by (auto split: if_splits)
  qed
qed simp

text \<open>
  A request is handed to the transport at most once: over any run, including submissions to
  other devices that draw from the same counter and re-submissions of the same setting, at most
  one final transport receipt (submitted, rejected or cancelled) is taken for a request identity
  other than the exhausted counter's.
\<close>

lemma setting_receipt_once:
  assumes "rid \<noteq> - 1"
  shows "receipts rid (n, settings_default) calls \<le> 1"
  using receipts_bound [OF ids_issued_default assms, of n calls] by (simp split: if_splits)

lemma setting_receipt_once_example:
  "(7 :: u64) \<noteq> - 1
   \<and> receipts 7 (7, settings_default) (confirmed_calls @ [CallTransport 1 7 TransportCancelled 40]) \<le> 1
   \<and> takes_receipt 7 (settings_run (7, settings_default) (take 2 confirmed_calls)) (CallTransport 1 7 TransportSubmitted 20)"
  using setting_receipt_once [of 7 7 "confirmed_calls @ [CallTransport 1 7 TransportCancelled 40]"]
  by (simp add: settings_eval)

end
