(* ===== verification/Device_Actions.thy ===== *)
theory Device_Actions
  imports Evidence Ordered_Map
begin

text \<open>
  Device actions and their reported progress (\<^verbatim>\<open>cutout-core/src/device_actions.rs\<close>), with the way
  the connection session submits them (\<open>submit_action\<close> in
  \<^verbatim>\<open>cutout-protocols/src/device_connection/actions.rs\<close>): the next legal step is resolved from the
  recorded progress, offered to the protocol, and its outcome recorded.  The protocol's verdict is
  an argument: none when the connection or the profile declines the request before it is offered.
\<close>

section \<open>Data\<close>

datatype DeviceActionId = Horn | ResetTripMeter | GyroCalibration

text \<open>The derived order is that of the declaration.\<close>

definition action_rank :: "DeviceActionId \<Rightarrow> nat" where
  "action_rank i = (case i of Horn \<Rightarrow> 0 | ResetTripMeter \<Rightarrow> 1 | GyroCalibration \<Rightarrow> 2)"

instantiation DeviceActionId :: linorder
begin

definition less_eq_DeviceActionId :: "DeviceActionId \<Rightarrow> DeviceActionId \<Rightarrow> bool" where
  "i \<le> j \<longleftrightarrow> action_rank i \<le> action_rank j"

definition less_DeviceActionId :: "DeviceActionId \<Rightarrow> DeviceActionId \<Rightarrow> bool" where
  "i < j \<longleftrightarrow> action_rank i < action_rank j"

instance
  by standard (auto simp: less_eq_DeviceActionId_def less_DeviceActionId_def action_rank_def
      split: DeviceActionId.splits)

end

datatype DeviceActionProgress = AdjustingAttitude | ReadyToCalibrate

datatype DeviceActionStep = Invoke | PrepareGyroCalibration | StartGyroCalibration

record DeviceActionRequest =
  action_id :: DeviceActionId
  action_step :: DeviceActionStep

datatype DeviceActionStateError = ActionBusy | RestartRequired

datatype DeviceActionSubmissionOutcome =
    ActionAccepted | ActionRefusedBecause ControlRefusalReason | ActionSubmissionFailed

datatype DeviceActionStatus =
    ActionIdle | WaitingForProgress | ReadyForNextStep | ActionSent | ActionRefused | ActionFailed

record DeviceActionSnapshot =
  asnap_id :: DeviceActionId
  asnap_progress :: "DeviceActionProgress Measured option"
  asnap_status :: DeviceActionStatus
  asnap_age :: "Duration option"
  asnap_requested_step :: "DeviceActionStep option"
  asnap_next_step :: "DeviceActionStateError + DeviceActionStep"
  asnap_refusal :: "ControlRefusalReason option"

record ActionRecord =
  progress :: "DeviceActionProgress Measured option"
  action_observed_at :: "MonotonicTimestamp option"
  action_submitted_at :: "MonotonicTimestamp option"
  requested_step :: "DeviceActionStep option"
  action_status :: DeviceActionStatus
  refusal :: "ControlRefusalReason option"

definition action_record_default :: ActionRecord where
  "action_record_default = \<lparr>progress = None, action_observed_at = None, action_submitted_at = None,
     requested_step = None, action_status = ActionIdle, refusal = None\<rparr>"

type_synonym DeviceActionsState = "(DeviceActionId, ActionRecord) fmap"

section \<open>Operations\<close>

definition usable_action_progress :: "DeviceActionProgress Measured \<Rightarrow> bool" where
  "usable_action_progress x \<longleftrightarrow> measured_source x = Reported \<and> measured_quality x = Known
     \<and> is_trusted (measured_verification x)"

definition gyro_step :: "ActionRecord option \<Rightarrow> DeviceActionStateError + DeviceActionStep" where
  "gyro_step rec =
     (case rec of None \<Rightarrow> Inr PrepareGyroCalibration
      | Some r \<Rightarrow>
          if action_status r = ActionSent then Inl RestartRequired
          else if action_status r = WaitingForProgress then Inl ActionBusy
          else case progress r of
              Some x \<Rightarrow> if measured_value x = ReadyToCalibrate \<and> usable_action_progress x
                then Inr StartGyroCalibration else Inr PrepareGyroCalibration
            | None \<Rightarrow> Inr PrepareGyroCalibration)"

definition next_request :: "DeviceActionsState \<Rightarrow> DeviceActionId \<Rightarrow> DeviceActionStateError + DeviceActionRequest" where
  "next_request s i =
     map_sum id (\<lambda>st. \<lparr>action_id = i, action_step = st\<rparr>)
       (case i of Horn \<Rightarrow> Inr Invoke | ResetTripMeter \<Rightarrow> Inr Invoke
        | GyroCalibration \<Rightarrow> gyro_step (fmlookup s i))"

definition action_submitted :: "ActionRecord \<Rightarrow> DeviceActionStep \<Rightarrow> DeviceActionSubmissionOutcome
    \<Rightarrow> MonotonicTimestamp \<Rightarrow> ActionRecord" where
  "action_submitted r st outcome at =
     r\<lparr>action_submitted_at := Some at, requested_step := Some st,
       refusal := (case outcome of ActionRefusedBecause reason \<Rightarrow> Some reason | _ \<Rightarrow> None),
       action_status := (case outcome of
           ActionAccepted \<Rightarrow> if st = PrepareGyroCalibration then WaitingForProgress else ActionSent
         | ActionRefusedBecause _ \<Rightarrow> ActionRefused
         | ActionSubmissionFailed \<Rightarrow> ActionFailed)\<rparr>"

definition action_submission :: "DeviceActionsState \<Rightarrow> DeviceActionRequest \<Rightarrow> DeviceActionSubmissionOutcome
    \<Rightarrow> MonotonicTimestamp \<Rightarrow> DeviceActionsState" where
  "action_submission s req outcome at =
     fmupd (action_id req)
       (action_submitted (entry_or action_record_default s (action_id req)) (action_step req) outcome at) s"

definition progress_outdated :: "ActionRecord \<Rightarrow> MonotonicTimestamp \<Rightarrow> bool" where
  "progress_outdated r at \<longleftrightarrow> is_some_and (action_observed_at r) (\<lambda>latest. at < latest)
     \<or> is_some_and (action_submitted_at r) (\<lambda>submitted. at < submitted)"

definition action_observed :: "ActionRecord \<Rightarrow> DeviceActionProgress Measured \<Rightarrow> MonotonicTimestamp \<Rightarrow> ActionRecord" where
  "action_observed r x at =
     (if progress_outdated r at then r
      else let r1 = r\<lparr>progress := Some x, action_observed_at := Some at, refusal := None\<rparr>;
               usable = usable_action_progress x
           in if action_status r1 = ActionSent \<and> requested_step r1 = Some StartGyroCalibration then r1
              else let r2 = r1\<lparr>action_status :=
                       (if usable then
                          (case measured_value x of AdjustingAttitude \<Rightarrow> WaitingForProgress
                           | ReadyToCalibrate \<Rightarrow> ReadyForNextStep)
                        else if requested_step r1 = Some PrepareGyroCalibration then WaitingForProgress
                        else ActionIdle)\<rparr>
                   in if usable \<and> measured_value x = ReadyToCalibrate
                      then r2\<lparr>requested_step := None, action_submitted_at := None\<rparr> else r2)"

definition action_observe_measured :: "DeviceActionsState \<Rightarrow> DeviceActionId \<Rightarrow> DeviceActionProgress Measured
    \<Rightarrow> MonotonicTimestamp \<Rightarrow> DeviceActionsState" where
  "action_observe_measured s i x at =
     fmupd i (action_observed (entry_or action_record_default s i) x at) s"

definition action_invalidated :: "ActionRecord \<Rightarrow> MonotonicTimestamp \<Rightarrow> ActionRecord" where
  "action_invalidated r at =
     (if progress_outdated r at then r
      else let r1 = r\<lparr>progress := None, action_observed_at := Some at\<rparr>
           in if action_status r1 = ActionSent then r1
              else r1\<lparr>action_status :=
                (if requested_step r1 = Some PrepareGyroCalibration then WaitingForProgress else ActionIdle)\<rparr>)"

definition invalidate_progress :: "DeviceActionsState \<Rightarrow> DeviceActionId \<Rightarrow> MonotonicTimestamp \<Rightarrow> DeviceActionsState" where
  "invalidate_progress s i at = fmupd i (action_invalidated (entry_or action_record_default s i) at) s"

definition actions_disconnect :: "DeviceActionsState \<Rightarrow> DeviceActionsState" where
  "actions_disconnect s = fmempty"

definition snapshot_for :: "DeviceActionsState \<Rightarrow> DeviceActionId \<Rightarrow> MonotonicTimestamp \<Rightarrow> DeviceActionSnapshot" where
  "snapshot_for s i now =
     (let r = entry_or action_record_default s i in
      \<lparr>asnap_id = i, asnap_progress = progress r, asnap_status = action_status r,
       asnap_age = (case progress r of None \<Rightarrow> None
         | Some _ \<Rightarrow> map_option (saturating_duration_since now) (action_observed_at r)),
       asnap_requested_step = requested_step r,
       asnap_next_step = map_sum id action_step (next_request s i),
       asnap_refusal = refusal r\<rparr>)"

definition actions_snapshot :: "DeviceActionsState \<Rightarrow> MonotonicTimestamp \<Rightarrow> DeviceActionSnapshot list" where
  "actions_snapshot s now = map (\<lambda>(i, _). snapshot_for s i now) (btm_entries s)"

section \<open>Submission through the session\<close>

definition submit_action :: "DeviceActionsState \<Rightarrow> DeviceActionId \<Rightarrow> DeviceActionSubmissionOutcome option
    \<Rightarrow> MonotonicTimestamp \<Rightarrow> DeviceActionsState" where
  "submit_action s i verdict at =
     (case next_request s i of
        Inl _ \<Rightarrow> s
      | Inr req \<Rightarrow> (case verdict of None \<Rightarrow> s | Some outcome \<Rightarrow> action_submission s req outcome at))"

datatype ActionCall =
    ActSubmit DeviceActionId "DeviceActionSubmissionOutcome option" MonotonicTimestamp
  | ActObserve DeviceActionId "DeviceActionProgress Measured" MonotonicTimestamp
  | ActInvalidate DeviceActionId MonotonicTimestamp
  | ActDisconnect

fun action_call :: "DeviceActionsState \<Rightarrow> ActionCall \<Rightarrow> DeviceActionsState" where
  "action_call s (ActSubmit i verdict at) = submit_action s i verdict at"
| "action_call s (ActObserve i x at) = action_observe_measured s i x at"
| "action_call s (ActInvalidate i at) = invalidate_progress s i at"
| "action_call s ActDisconnect = actions_disconnect s"

definition actions_run :: "ActionCall list \<Rightarrow> DeviceActionsState" where
  "actions_run calls = foldl action_call fmempty calls"

section \<open>One action at a time\<close>

datatype action_op =
    AOpKeep | AOpReset
  | AOpSubmit DeviceActionStep DeviceActionSubmissionOutcome MonotonicTimestamp
  | AOpObserve "DeviceActionProgress Measured" MonotonicTimestamp
  | AOpInvalidate MonotonicTimestamp

fun action_apply :: "ActionRecord \<Rightarrow> action_op \<Rightarrow> ActionRecord" where
  "action_apply r AOpKeep = r"
| "action_apply r AOpReset = action_record_default"
| "action_apply r (AOpSubmit st outcome at) = action_submitted r st outcome at"
| "action_apply r (AOpObserve x at) = action_observed r x at"
| "action_apply r (AOpInvalidate at) = action_invalidated r at"

fun action_local :: "DeviceActionsState \<Rightarrow> ActionCall \<Rightarrow> DeviceActionId \<Rightarrow> action_op" where
  "action_local s (ActSubmit j verdict at) i =
     (case (next_request s j, verdict) of
        (Inr req, Some outcome) \<Rightarrow> if i = j then AOpSubmit (action_step req) outcome at else AOpKeep
      | _ \<Rightarrow> AOpKeep)"
| "action_local s (ActObserve j x at) i = (if i = j then AOpObserve x at else AOpKeep)"
| "action_local s (ActInvalidate j at) i = (if i = j then AOpInvalidate at else AOpKeep)"
| "action_local s ActDisconnect i = AOpReset"

abbreviation action_record :: "DeviceActionsState \<Rightarrow> DeviceActionId \<Rightarrow> ActionRecord" where
  "action_record s i \<equiv> entry_or action_record_default s i"

definition action_record_ok :: "ActionRecord \<Rightarrow> bool" where
  "action_record_ok r \<longleftrightarrow> (action_status r = ActionSent
     \<longrightarrow> requested_step r = Some StartGyroCalibration \<or> requested_step r = Some Invoke)"

lemma next_request_id: "next_request s i = Inr req \<Longrightarrow> action_id req = i"
  by (cases "gyro_step (fmlookup s i)") (auto simp: next_request_def split: DeviceActionId.splits)

lemma action_call_local: "action_record (action_call s c) i = action_apply (action_record s i) (action_local s c i)"
proof (cases c)
  case (ActSubmit j verdict at)
  then show ?thesis
    using next_request_id [of s j]
    by (auto simp: submit_action_def action_submission_def split: sum.splits option.splits)
qed (auto simp: action_observe_measured_def invalidate_progress_def actions_disconnect_def)

lemma action_ok_submitted: "action_record_ok (action_submitted r st outcome at)"
  by (cases st; cases outcome) (simp_all add: action_record_ok_def action_submitted_def)

lemma action_ok_apply: "action_record_ok r \<Longrightarrow> action_record_ok (action_apply r x)"
proof (cases x)
  case (AOpSubmit st outcome at)
  then show ?thesis
    by (simp add: action_ok_submitted)
qed (auto simp: action_record_ok_def action_record_default_def action_observed_def
    action_invalidated_def Let_def split: DeviceActionProgress.splits)

interpretation action_records: record_family action_call action_record action_local action_apply action_record_ok
  by unfold_locales (fact action_call_local, fact action_ok_apply)

lemma gyro_step_record: "gyro_step (fmlookup s i) = gyro_step (Some (action_record s i))"
  by (cases "fmlookup s i") (simp_all add: gyro_step_def entry_or_def action_record_default_def)

lemma next_request_gyro:
  "next_request s GyroCalibration =
     map_sum id (\<lambda>st. \<lparr>action_id = GyroCalibration, action_step = st\<rparr>) (gyro_step (Some (action_record s GyroCalibration)))"
  by (simp add: next_request_def gyro_step_record)

section \<open>Gyro calibration\<close>

text \<open>The call \<open>c\<close> sends the calibration command from state \<open>s\<close>.\<close>

definition starts_calibration :: "DeviceActionsState \<Rightarrow> ActionCall \<Rightarrow> bool" where
  "starts_calibration s c \<longleftrightarrow> (\<exists>at. c = ActSubmit GyroCalibration (Some ActionAccepted) at)
     \<and> next_request s GyroCalibration = Inr \<lparr>action_id = GyroCalibration, action_step = StartGyroCalibration\<rparr>"

definition calibrating :: "ActionRecord \<Rightarrow> bool" where
  "calibrating r \<longleftrightarrow> action_status r = ActionSent \<and> requested_step r = Some StartGyroCalibration"

lemma starts_calibrating:
  "starts_calibration s c \<Longrightarrow> calibrating (action_record (action_call s c) GyroCalibration)"
  by (auto simp: starts_calibration_def action_call_local calibrating_def action_submitted_def)

lemma calibrating_call:
  assumes "calibrating (action_record s GyroCalibration)" "c \<noteq> ActDisconnect"
  shows "calibrating (action_record (action_call s c) GyroCalibration)"
proof -
  have "next_request s GyroCalibration = Inl RestartRequired"
    using assms(1) by (simp add: next_request_gyro gyro_step_def calibrating_def)
  then have "action_local s c GyroCalibration \<in> {AOpKeep} \<union> range (case_prod AOpObserve) \<union> range AOpInvalidate"
    using assms(2) by (cases c) (auto split: sum.splits option.splits)
  then show ?thesis
    using assms(1) by (auto simp: action_call_local calibrating_def action_observed_def action_invalidated_def Let_def)
qed

lemma calibrating_run:
  "calibrating (action_record s GyroCalibration) \<Longrightarrow> ActDisconnect \<notin> set calls \<Longrightarrow>
     calibrating (action_record (foldl action_call s calls) GyroCalibration)"
proof (induction calls rule: rev_induct)
  case (snoc c calls)
  then have "calibrating (action_record (foldl action_call s calls) GyroCalibration)" "c \<noteq> ActDisconnect"
    by auto
  then show ?case
    by (simp add: calibrating_call)
qed simp

text \<open>Recorded readiness comes from a usable observation made on this connection.\<close>

definition ready_reported :: "ActionCall list \<Rightarrow> ActionRecord \<Rightarrow> bool" where
  "ready_reported calls r \<longleftrightarrow>
     (\<forall>x. progress r = Some x \<longrightarrow>
        (\<exists>before at after. calls = before @ ActObserve GyroCalibration x at # after \<and> ActDisconnect \<notin> set after))"

lemma progress_apply:
  "progress (action_apply r p) = progress r \<or> progress (action_apply r p) = None
     \<or> (\<exists>x at. p = AOpObserve x at \<and> progress (action_apply r p) = Some x)"
  by (cases p) (auto simp: action_record_default_def action_submitted_def action_observed_def action_invalidated_def Let_def)

lemma ready_reported_step:
  assumes "ready_reported calls (action_record s GyroCalibration)"
  shows "ready_reported (calls @ [c]) (action_apply (action_record s GyroCalibration) (action_local s c GyroCalibration))"
  unfolding ready_reported_def
proof (intro allI impI)
  let ?r = "action_record s GyroCalibration" and ?p = "action_local s c GyroCalibration"
  fix x assume x: "progress (action_apply ?r ?p) = Some x"
  show "\<exists>before at after. calls @ [c] = before @ ActObserve GyroCalibration x at # after \<and> ActDisconnect \<notin> set after"
  proof (cases "\<exists>at. ?p = AOpObserve x at")
    case True
    then obtain at where "c = ActObserve GyroCalibration x at"
      by (cases c) (auto split: sum.splits option.splits if_splits)
    then show ?thesis
      by (intro exI [of _ calls] exI [of _ at] exI [of _ "[]"]) simp
  next
    case False
    then have "progress ?r = Some x" "c \<noteq> ActDisconnect"
      using progress_apply [of ?r ?p] x by (auto simp: action_record_default_def)
    moreover from this obtain before at after where
      "calls = before @ ActObserve GyroCalibration x at # after" "ActDisconnect \<notin> set after"
      using assms unfolding ready_reported_def by blast
    ultimately show ?thesis
      by (intro exI [of _ before] exI [of _ at] exI [of _ "after @ [c]"]) simp
  qed
qed

lemma ready_reported_run: "ready_reported calls (action_record (actions_run calls) GyroCalibration)"
  unfolding actions_run_def
  by (rule action_records.history_run [where H = ready_reported])
    (simp_all add: ready_reported_step, simp_all add: ready_reported_def action_record_ok_def action_record_default_def)

text \<open>
  C28. Calibration is started only on the wheel's own word, and once.  When a submission sends the
  start command, the calls made on this connection contain a reported, known and verified
  observation that the wheel is ready, which is the progress then on record; and from then on,
  until the connection ends, whatever is observed, invalidated or submitted, the next step is
  refused with the demand to restart the wheel.
\<close>

theorem gyro_started_once:
  assumes "starts_calibration (actions_run pre) c" "ActDisconnect \<notin> set post"
  shows "(\<exists>x before at after. pre = before @ ActObserve GyroCalibration x at # after \<and> ActDisconnect \<notin> set after
      \<and> usable_evidence x \<and> measured_value x = ReadyToCalibrate
      \<and> progress (action_record (actions_run pre) GyroCalibration) = Some x)
    \<and> next_request (actions_run (pre @ c # post)) GyroCalibration = Inl RestartRequired"
proof
  obtain x where x: "progress (action_record (actions_run pre) GyroCalibration) = Some x"
    "measured_value x = ReadyToCalibrate" "usable_action_progress x"
    using assms(1) by (auto simp: starts_calibration_def next_request_gyro gyro_step_def
        split: if_splits option.splits sum.splits)
  moreover obtain before at after where
    "pre = before @ ActObserve GyroCalibration x at # after" "ActDisconnect \<notin> set after"
    using ready_reported_run [of pre] x(1) unfolding ready_reported_def by blast
  ultimately show "\<exists>x before at after. pre = before @ ActObserve GyroCalibration x at # after \<and> ActDisconnect \<notin> set after
      \<and> usable_evidence x \<and> measured_value x = ReadyToCalibrate
      \<and> progress (action_record (actions_run pre) GyroCalibration) = Some x"
    by (intro exI [of _ x] exI [of _ before] exI [of _ at] exI [of _ after])
      (simp add: usable_action_progress_def usable_evidence_def)
  have "calibrating (action_record (actions_run (pre @ c # post)) GyroCalibration)"
    using calibrating_run [OF starts_calibrating [OF assms(1)] assms(2)] by (simp add: actions_run_def)
  then show "next_request (actions_run (pre @ c # post)) GyroCalibration = Inl RestartRequired"
    by (simp add: next_request_gyro gyro_step_def calibrating_def)
qed

text \<open>A preparation, the wheel's readiness, the start, and a later report of readiness.\<close>

definition calibration_calls :: "ActionCall list" where
  "calibration_calls =
     [ActSubmit GyroCalibration (Some ActionAccepted) 10,
      ActObserve GyroCalibration (measured_reported ReadyToCalibrate) 13]"

lemma calibration_calls_start:
  "starts_calibration (actions_run calibration_calls) (ActSubmit GyroCalibration (Some ActionAccepted) 15)"
  by (simp add: starts_calibration_def actions_run_def calibration_calls_def submit_action_def next_request_def
      gyro_step_def action_submission_def action_submitted_def action_record_default_def
      action_observe_measured_def action_observed_def progress_outdated_def Let_def usable_action_progress_def
      measured_reported_def entry_or_def)

theorem gyro_started_once_witness:
  "next_request (actions_run (calibration_calls @ ActSubmit GyroCalibration (Some ActionAccepted) 15 #
      [ActObserve GyroCalibration (measured_reported ReadyToCalibrate) 16])) GyroCalibration = Inl RestartRequired"
  using gyro_started_once [OF calibration_calls_start,
      of "[ActObserve GyroCalibration (measured_reported ReadyToCalibrate) 16]"] by simp

section \<open>Readiness unblocks, and an unusable reading can block\<close>

text \<open>
  Whatever the procedure waits for, a usable report of readiness that is not older than what is on
  record makes the start available.
\<close>

lemma gyro_ready_unblocks:
  assumes "next_request s GyroCalibration \<noteq> Inl RestartRequired"
    and "\<not> progress_outdated (action_record s GyroCalibration) at"
    and "usable_evidence x" "measured_value x = ReadyToCalibrate"
  shows "next_request (action_observe_measured s GyroCalibration x at) GyroCalibration =
    Inr \<lparr>action_id = GyroCalibration, action_step = StartGyroCalibration\<rparr>"
proof -
  have "action_status (action_record s GyroCalibration) \<noteq> ActionSent"
    using assms(1) by (auto simp: next_request_gyro gyro_step_def)
  then show ?thesis
    using assms by (simp add: next_request_gyro gyro_step_def action_observe_measured_def action_observed_def
        Let_def usable_action_progress_def usable_evidence_def)
qed

text \<open>
  A refused preparation never reached the wheel, yet the next unusable reading leaves the
  procedure waiting for the wheel's progress and every further request is answered with busy.
\<close>

lemma refused_preparation_blocks:
  assumes "action_status (action_record s GyroCalibration) = ActionIdle"
    and "progress (action_record s GyroCalibration) = None"
    and "\<not> progress_outdated (action_record s GyroCalibration) at"
  shows "next_request (invalidate_progress
      (submit_action s GyroCalibration (Some (ActionRefusedBecause reason)) at) GyroCalibration at) GyroCalibration
    = Inl ActionBusy"
  using assms
  by (simp add: submit_action_def next_request_gyro gyro_step_def action_submission_def action_submitted_def
      invalidate_progress_def action_invalidated_def progress_outdated_def Let_def)

end
