(* ===== verification/Phone_Alarm.thy ===== *)
theory Phone_Alarm
  imports Core_Units Ordered_Map Interfaces "HOL-Library.Multiset"
begin

text \<open>
  Alarms the phone raises by itself (\<^verbatim>\<open>cutout-core/src/phone_alarm.rs\<close>): per-device preferences, the
  evaluator that reserves deliveries for three independent channels, and the manager that ties
  both to the active device.  The process-wide counter \<open>NEXT_PHONE_ALARM_REQUEST_ID\<close> is an explicit
  argument and result; when it is exhausted no delivery is reserved.  A duty cycle is its value in
  permille.  The text of a device identity is the list of its Unicode scalar values.
\<close>

section \<open>Thresholds and preferences\<close>

definition PWM_REARM_HYSTERESIS_PERCENT :: u8 where "PWM_REARM_HYSTERESIS_PERCENT = 5"

definition FAILED_DELIVERY_RETRY_AFTER :: Duration where "FAILED_DELIVERY_RETRY_AFTER = 1000"

definition PHONE_ALARM_REPEAT_AFTER :: Duration where "PHONE_ALARM_REPEAT_AFTER = 30000"

definition DEFAULT_PWM_DUTY_PERCENT :: u8 where "DEFAULT_PWM_DUTY_PERCENT = 80"

definition MAX_PHONE_ALARM_DEVICES :: nat where "MAX_PHONE_ALARM_DEVICES = 256"

definition MAX_DEVICE_IDENTITY_BYTES :: nat where "MAX_DEVICE_IDENTITY_BYTES = 1024"

type_synonym PwmDutyAlarmThreshold = u8

datatype PhoneAlarmManagerError =
    NoActiveDevice | InvalidDeviceIdentity | InvalidPwmDutyThreshold u8
  | InvalidPwmHeadroomThreshold u8 | TooManyDevices | DeviceIdentityChanged

definition threshold_new :: "u8 \<Rightarrow> PhoneAlarmManagerError + PwmDutyAlarmThreshold" where
  "threshold_new duty = (if 1 \<le> duty \<and> duty \<le> 100 then Inr duty else Inl (InvalidPwmDutyThreshold duty))"

definition threshold_permille :: "PwmDutyAlarmThreshold \<Rightarrow> nat" where
  "threshold_permille t = unat t * 10"

definition rearm_permille :: "PwmDutyAlarmThreshold \<Rightarrow> nat" where
  "rearm_permille t = unat (saturating_sub t PWM_REARM_HYSTERESIS_PERCENT) * 10"

record PhoneAlarmPreferences =
  pref_enabled :: bool
  pwm_duty_threshold :: PwmDutyAlarmThreshold

definition preferences_default :: PhoneAlarmPreferences where
  "preferences_default = \<lparr>pref_enabled = False, pwm_duty_threshold = DEFAULT_PWM_DUTY_PERCENT\<rparr>"

definition preferences_new :: "bool \<Rightarrow> u8 \<Rightarrow> PhoneAlarmManagerError + PhoneAlarmPreferences" where
  "preferences_new on duty = map_sum id (\<lambda>t. \<lparr>pref_enabled = on, pwm_duty_threshold = t\<rparr>) (threshold_new duty)"

definition duty_percent :: "PhoneAlarmPreferences \<Rightarrow> u8" where
  "duty_percent p = pwm_duty_threshold p"

definition headroom_percent :: "PhoneAlarmPreferences \<Rightarrow> u8" where
  "headroom_percent p = 100 - pwm_duty_threshold p"

section \<open>Evidence and events\<close>

datatype PhoneAlarmEvidenceFreshness = EvidenceFresh | EvidenceStale | EvidenceUnavailable

record PhoneAlarmEvidence =
  freshness :: PhoneAlarmEvidenceFreshness
  pwm_duty :: "int option"
  controller_warning :: "RideWarning option"
  controller_stop :: "RideStopReason option"

datatype PhoneAlarmEvent = PwmDuty u8 u8 | ControllerWarning RideWarning | ControllerStop RideStopReason

datatype ActivePhoneAlarmCondition =
    ActivePwmDuty | ActiveWarning RideWarning | ActiveStop RideStopReason

fun event_condition :: "PhoneAlarmEvent \<Rightarrow> ActivePhoneAlarmCondition" where
  "event_condition (PwmDuty _ _) = ActivePwmDuty"
| "event_condition (ControllerWarning x) = ActiveWarning x"
| "event_condition (ControllerStop x) = ActiveStop x"

record PhoneAlarmDeliveryRequest =
  delivery_id :: u64
  delivery_event :: PhoneAlarmEvent

record PhoneAlarmActions =
  scheduled :: "PhoneAlarmDeliveryRequest list"
  cancelled_ids :: "u64 list"

record PhoneAlarmPolicy =
  policy_enabled :: bool
  policy_threshold :: PwmDutyAlarmThreshold
  repeat_after :: Duration

definition policy_disabled :: PhoneAlarmPolicy where
  "policy_disabled = \<lparr>policy_enabled = False, policy_threshold = 80, repeat_after = 10000\<rparr>"

definition policy_on :: "PwmDutyAlarmThreshold \<Rightarrow> Duration \<Rightarrow> PhoneAlarmPolicy" where
  "policy_on t d = \<lparr>policy_enabled = True, policy_threshold = t, repeat_after = d\<rparr>"

section \<open>The evaluator\<close>

record PhoneAlarmChannelState =
  active :: "ActivePhoneAlarmCondition option"
  delivered_at :: "MonotonicTimestamp option"
  failed_at :: "MonotonicTimestamp option"
  pending_request_id :: "u64 option"
  waiting_for_rearm :: bool

definition channel_clear :: PhoneAlarmChannelState where
  "channel_clear = \<lparr>active = None, delivered_at = None, failed_at = None, pending_request_id = None,
     waiting_for_rearm = False\<rparr>"

record PhoneAlarmEvaluator =
  pwm :: PhoneAlarmChannelState
  warning :: PhoneAlarmChannelState
  stop :: PhoneAlarmChannelState

definition evaluator_default :: PhoneAlarmEvaluator where
  "evaluator_default = \<lparr>pwm = channel_clear, warning = channel_clear, stop = channel_clear\<rparr>"

definition option_list :: "'a option \<Rightarrow> 'a list" where
  "option_list x = (case x of None \<Rightarrow> [] | Some y \<Rightarrow> [y])"

definition pwm_event :: "PwmDutyAlarmThreshold \<Rightarrow> int \<Rightarrow> PhoneAlarmEvent option" where
  "pwm_event t duty =
     (let permille = min (nat \<bar>duty\<bar>) 1000 in
      if threshold_permille t \<le> permille
      then let percent = of_nat (permille div 10) in Some (PwmDuty percent (100 - percent))
      else None)"

fun warning_event :: "RideWarning \<Rightarrow> PhoneAlarmEvent option" where
  "warning_event WarningNone = None"
| "warning_event WarningUnknown = None"
| "warning_event x = Some (ControllerWarning x)"

fun stop_event :: "RideStopReason \<Rightarrow> PhoneAlarmEvent option" where
  "stop_event StopNone = None"
| "stop_event x = Some (ControllerStop x)"

text \<open>The condition of a channel changes: its pending delivery is cancelled and its gates open.\<close>

definition switch_condition :: "PhoneAlarmChannelState \<Rightarrow> ActivePhoneAlarmCondition
    \<Rightarrow> u64 list \<Rightarrow> PhoneAlarmChannelState \<times> u64 list" where
  "switch_condition st cond canc =
     (if active st \<noteq> Some cond
      then (st\<lparr>active := Some cond, delivered_at := None, failed_at := None, pending_request_id := None\<rparr>,
            canc @ option_list (pending_request_id st))
      else (st, canc))"

definition delivery_due :: "PhoneAlarmChannelState \<Rightarrow> Duration \<Rightarrow> MonotonicTimestamp \<Rightarrow> bool" where
  "delivery_due st repeat now \<longleftrightarrow>
     is_none_or (delivered_at st) (\<lambda>t. repeat \<le> saturating_duration_since now t)
     \<and> is_none_or (failed_at st) (\<lambda>t. FAILED_DELIVERY_RETRY_AFTER \<le> saturating_duration_since now t)"

definition reserve_if_due :: "u64 \<Rightarrow> PhoneAlarmChannelState \<Rightarrow> PhoneAlarmEvent option \<Rightarrow> Duration
    \<Rightarrow> MonotonicTimestamp \<Rightarrow> PhoneAlarmDeliveryRequest list \<Rightarrow> u64 list
    \<Rightarrow> u64 \<times> PhoneAlarmChannelState \<times> PhoneAlarmDeliveryRequest list \<times> u64 list" where
  "reserve_if_due n st event repeat now reqs canc =
     (case event of None \<Rightarrow> (n, st, reqs, canc)
      | Some e \<Rightarrow>
          (case switch_condition st (event_condition e) canc of (st1, canc1) \<Rightarrow>
             if is_some (pending_request_id st1) then (n, st1, reqs, canc1)
             else if waiting_for_rearm st1 then (n, st1, reqs, canc1)
             else if \<not> delivery_due st1 repeat now then (n, st1, reqs, canc1)
             else (case checked_add n 1 of
                 None \<Rightarrow> (n, st1, reqs, canc1)
               | Some n' \<Rightarrow> (n', st1\<lparr>pending_request_id := Some n\<rparr>,
                   reqs @ [\<lparr>delivery_id = n, delivery_event = e\<rparr>], canc1))))"

definition update_pwm_rearm :: "PhoneAlarmChannelState \<Rightarrow> PwmDutyAlarmThreshold \<Rightarrow> int option
    \<Rightarrow> PhoneAlarmEvent option \<Rightarrow> u64 list \<Rightarrow> PhoneAlarmChannelState \<times> u64 list" where
  "update_pwm_rearm st t duty event canc =
     (if is_some event then (st, canc)
      else
        let cancelled_pending = is_some (pending_request_id st);
            canc1 = canc @ option_list (pending_request_id st);
            st1 = st\<lparr>pending_request_id := None\<rparr>
        in if is_none_or duty (\<lambda>d. nat \<bar>d\<bar> \<le> rearm_permille t) then (channel_clear, canc1)
           else if cancelled_pending then (st1\<lparr>waiting_for_rearm := True\<rparr>, canc1)
           else (st1, canc1))"

definition clear_if_absent :: "PhoneAlarmChannelState \<Rightarrow> PhoneAlarmEvent option \<Rightarrow> u64 list
    \<Rightarrow> PhoneAlarmChannelState \<times> u64 list" where
  "clear_if_absent st event canc =
     (if is_some event then (st, canc) else (channel_clear, canc @ option_list (pending_request_id st)))"

definition evaluator_clear :: "PhoneAlarmEvaluator \<Rightarrow> u64 list \<times> PhoneAlarmEvaluator" where
  "evaluator_clear ev =
     (option_list (pending_request_id (pwm ev)) @ option_list (pending_request_id (warning ev))
        @ option_list (pending_request_id (stop ev)),
      evaluator_default)"

definition evaluator_evaluate :: "u64 \<Rightarrow> PhoneAlarmEvaluator \<Rightarrow> PhoneAlarmPolicy \<Rightarrow> PhoneAlarmEvidence
    \<Rightarrow> MonotonicTimestamp \<Rightarrow> u64 \<times> PhoneAlarmEvaluator \<times> PhoneAlarmActions" where
  "evaluator_evaluate n ev policy evi now =
     (if \<not> policy_enabled policy \<or> freshness evi \<noteq> EvidenceFresh
      then (case evaluator_clear ev of (ids, ev') \<Rightarrow> (n, ev', \<lparr>scheduled = [], cancelled_ids = ids\<rparr>))
      else
        let pe = Option.bind (pwm_duty evi) (pwm_event (policy_threshold policy));
            we = Option.bind (controller_warning evi) warning_event;
            se = Option.bind (controller_stop evi) stop_event in
        case update_pwm_rearm (pwm ev) (policy_threshold policy) (pwm_duty evi) pe [] of (p1, c1) \<Rightarrow>
        case reserve_if_due n p1 pe (repeat_after policy) now [] c1 of (n1, p2, r1, c2) \<Rightarrow>
        case clear_if_absent (warning ev) we c2 of (w1, c3) \<Rightarrow>
        case reserve_if_due n1 w1 we (repeat_after policy) now r1 c3 of (n2, w2, r2, c4) \<Rightarrow>
        case clear_if_absent (stop ev) se c4 of (s1, c5) \<Rightarrow>
        case reserve_if_due n2 s1 se (repeat_after policy) now r2 c5 of (n3, s2, r3, c6) \<Rightarrow>
          (n3, \<lparr>pwm = p2, warning = w2, stop = s2\<rparr>, \<lparr>scheduled = r3, cancelled_ids = c6\<rparr>))"

definition channel_complete :: "PhoneAlarmChannelState \<Rightarrow> bool \<Rightarrow> MonotonicTimestamp \<Rightarrow> PhoneAlarmChannelState" where
  "channel_complete st delivered now =
     (if delivered then st\<lparr>pending_request_id := None, delivered_at := Some now, failed_at := None\<rparr>
      else st\<lparr>pending_request_id := None, failed_at := Some now\<rparr>)"

definition evaluator_complete :: "PhoneAlarmEvaluator \<Rightarrow> u64 \<Rightarrow> bool \<Rightarrow> MonotonicTimestamp
    \<Rightarrow> bool \<times> PhoneAlarmEvaluator" where
  "evaluator_complete ev rid delivered now =
     (if pending_request_id (pwm ev) = Some rid
      then (True, ev\<lparr>pwm := channel_complete (pwm ev) delivered now\<rparr>)
      else if pending_request_id (warning ev) = Some rid
      then (True, ev\<lparr>warning := channel_complete (warning ev) delivered now\<rparr>)
      else if pending_request_id (stop ev) = Some rid
      then (True, ev\<lparr>stop := channel_complete (stop ev) delivered now\<rparr>)
      else (False, ev))"

section \<open>The manager\<close>

record PhoneAlarmManager =
  active_identity :: "rust_str option"
  preferences :: "(rust_str, PhoneAlarmPreferences) fmap"
  evaluator :: PhoneAlarmEvaluator
  cancelled_request_ids :: "u64 list"

definition manager_default :: PhoneAlarmManager where
  "manager_default = \<lparr>active_identity = None, preferences = fmempty, evaluator = evaluator_default,
     cancelled_request_ids = []\<rparr>"

definition validate_identity :: "rust_str \<Rightarrow> PhoneAlarmManagerError + unit" where
  "validate_identity t =
     (if str_trim t = [] \<or> MAX_DEVICE_IDENTITY_BYTES < utf8_len t then Inl InvalidDeviceIdentity else Inr ())"

definition manager_invalidate :: "PhoneAlarmManager \<Rightarrow> PhoneAlarmManager" where
  "manager_invalidate m =
     (case evaluator_clear (evaluator m) of (ids, ev) \<Rightarrow>
        m\<lparr>evaluator := ev, cancelled_request_ids := cancelled_request_ids m @ ids\<rparr>)"

definition store_full_for :: "PhoneAlarmManager \<Rightarrow> rust_str \<Rightarrow> bool" where
  "store_full_for m i \<longleftrightarrow> fmlookup (preferences m) i = None \<and> MAX_PHONE_ALARM_DEVICES \<le> btm_len (preferences m)"

definition activate_device :: "PhoneAlarmManager \<Rightarrow> rust_str
    \<Rightarrow> (PhoneAlarmManagerError + PhoneAlarmPreferences) \<times> PhoneAlarmManager" where
  "activate_device m i =
     (case validate_identity i of Inl e \<Rightarrow> (Inl e, m)
      | Inr _ \<Rightarrow>
          if store_full_for m i then (Inl TooManyDevices, m)
          else
            let p = entry_or preferences_default (preferences m) i;
                m1 = m\<lparr>preferences := fmupd i p (preferences m), active_identity := Some i\<rparr>
            in (Inr p, if active_identity m \<noteq> Some i then manager_invalidate m1 else m1))"

definition clear_active_device :: "PhoneAlarmManager \<Rightarrow> PhoneAlarmManager" where
  "clear_active_device m = manager_invalidate (m\<lparr>active_identity := None\<rparr>)"

definition active_preferences :: "PhoneAlarmManager \<Rightarrow> PhoneAlarmPreferences option" where
  "active_preferences m = Option.bind (active_identity m) (fmlookup (preferences m))"

definition active_preferences_for :: "PhoneAlarmManager \<Rightarrow> rust_str
    \<Rightarrow> PhoneAlarmManagerError + PhoneAlarmPreferences" where
  "active_preferences_for m i =
     (case validate_identity i of Inl e \<Rightarrow> Inl e
      | Inr _ \<Rightarrow> (case active_identity m of None \<Rightarrow> Inl NoActiveDevice
          | Some j \<Rightarrow> if j \<noteq> i then Inl DeviceIdentityChanged
              else (case active_preferences m of None \<Rightarrow> Inl NoActiveDevice | Some p \<Rightarrow> Inr p)))"

definition update_active_preferences :: "PhoneAlarmManager \<Rightarrow> (PhoneAlarmPreferences \<Rightarrow> PhoneAlarmPreferences)
    \<Rightarrow> (PhoneAlarmManagerError + unit) \<times> PhoneAlarmManager" where
  "update_active_preferences m f =
     (case active_identity m of None \<Rightarrow> (Inl NoActiveDevice, m)
      | Some i \<Rightarrow> (case fmlookup (preferences m) i of None \<Rightarrow> (Inl NoActiveDevice, m)
          | Some p \<Rightarrow>
              let m1 = m\<lparr>preferences := fmupd i (f p) (preferences m)\<rparr>
              in (Inr (), if f p \<noteq> p then manager_invalidate m1 else m1)))"

definition set_enabled :: "PhoneAlarmManager \<Rightarrow> bool \<Rightarrow> (PhoneAlarmManagerError + unit) \<times> PhoneAlarmManager" where
  "set_enabled m on = update_active_preferences m (\<lambda>p. p\<lparr>pref_enabled := on\<rparr>)"

definition set_duty_percent :: "PhoneAlarmManager \<Rightarrow> u8 \<Rightarrow> (PhoneAlarmManagerError + unit) \<times> PhoneAlarmManager" where
  "set_duty_percent m duty =
     (case threshold_new duty of Inl e \<Rightarrow> (Inl e, m)
      | Inr t \<Rightarrow> update_active_preferences m (\<lambda>p. p\<lparr>pwm_duty_threshold := t\<rparr>))"

definition set_headroom_percent :: "PhoneAlarmManager \<Rightarrow> u8 \<Rightarrow> (PhoneAlarmManagerError + unit) \<times> PhoneAlarmManager" where
  "set_headroom_percent m headroom =
     (if 100 \<le> headroom then (Inl (InvalidPwmHeadroomThreshold headroom), m)
      else set_duty_percent m (100 - headroom))"

definition with_pending_cancellations :: "PhoneAlarmManager \<Rightarrow> PhoneAlarmActions
    \<Rightarrow> PhoneAlarmActions \<times> PhoneAlarmManager" where
  "with_pending_cancellations m acts =
     (if cancelled_request_ids m \<noteq> []
      then (acts\<lparr>cancelled_ids := cancelled_request_ids m @ cancelled_ids acts\<rparr>, m\<lparr>cancelled_request_ids := []\<rparr>)
      else (acts, m))"

definition manager_evaluate :: "u64 \<Rightarrow> PhoneAlarmManager \<Rightarrow> PhoneAlarmEvidence \<Rightarrow> MonotonicTimestamp
    \<Rightarrow> u64 \<times> PhoneAlarmActions \<times> PhoneAlarmManager" where
  "manager_evaluate n m evi now =
     (let nothing = (n, with_pending_cancellations (manager_invalidate m) \<lparr>scheduled = [], cancelled_ids = []\<rparr>) in
      case active_preferences m of None \<Rightarrow> nothing
      | Some p \<Rightarrow>
          if \<not> pref_enabled p \<or> freshness evi \<noteq> EvidenceFresh then nothing
          else case evaluator_evaluate n (evaluator m)
              (policy_on (pwm_duty_threshold p) PHONE_ALARM_REPEAT_AFTER) evi now of
            (n', ev, acts) \<Rightarrow> (n', with_pending_cancellations (m\<lparr>evaluator := ev\<rparr>) acts))"

definition manager_complete :: "PhoneAlarmManager \<Rightarrow> u64 \<Rightarrow> bool \<Rightarrow> MonotonicTimestamp \<Rightarrow> bool \<times> PhoneAlarmManager" where
  "manager_complete m rid delivered now =
     (if active_identity m = None then (False, m)
      else case evaluator_complete (evaluator m) rid delivered now of
        (ok, ev) \<Rightarrow> (ok, m\<lparr>evaluator := ev\<rparr>))"

definition invalidate_deliveries :: "PhoneAlarmManager \<Rightarrow> u64 list \<times> PhoneAlarmManager" where
  "invalidate_deliveries m =
     (case evaluator_clear (evaluator m) of (ids, ev) \<Rightarrow>
        (cancelled_request_ids m @ ids, m\<lparr>cancelled_request_ids := [], evaluator := ev\<rparr>))"

definition take_cancelled_request_ids :: "PhoneAlarmManager \<Rightarrow> u64 list \<times> PhoneAlarmManager" where
  "take_cancelled_request_ids m = (cancelled_request_ids m, m\<lparr>cancelled_request_ids := []\<rparr>)"

definition restore_preferences :: "PhoneAlarmManager \<Rightarrow> rust_str \<Rightarrow> PhoneAlarmPreferences
    \<Rightarrow> (PhoneAlarmManagerError + unit) \<times> PhoneAlarmManager" where
  "restore_preferences m i p =
     (case validate_identity i of Inl e \<Rightarrow> (Inl e, m)
      | Inr _ \<Rightarrow>
          if store_full_for m i then (Inl TooManyDevices, m)
          else
            let active_changed = (active_identity m = Some i \<and> fmlookup (preferences m) i \<noteq> Some p);
                m1 = m\<lparr>preferences := fmupd i p (preferences m)\<rparr>
            in (Inr (), if active_changed then manager_invalidate m1 else m1))"

section \<open>Runs\<close>

text \<open>
  A call on the manager with what it tells the platform: the deliveries to schedule, those
  completed and those to cancel.  \<open>AlarmElsewhere\<close> is another evaluator drawing from the counter.
\<close>

datatype AlarmCall =
    AlarmActivate rust_str
  | AlarmDeactivate
  | AlarmSetEnabled bool
  | AlarmSetDuty u8
  | AlarmSetHeadroom u8
  | AlarmEvaluate PhoneAlarmEvidence MonotonicTimestamp
  | AlarmComplete u64 bool MonotonicTimestamp
  | AlarmInvalidate
  | AlarmTakeCancelled
  | AlarmRestore rust_str bool u8
  | AlarmElsewhere

record alarm_log =
  log_scheduled :: "PhoneAlarmDeliveryRequest list"
  log_completed :: "u64 list"
  log_cancelled :: "u64 list"

definition log_nothing :: alarm_log where
  "log_nothing = \<lparr>log_scheduled = [], log_completed = [], log_cancelled = []\<rparr>"

fun alarm_call :: "u64 \<times> PhoneAlarmManager \<Rightarrow> AlarmCall \<Rightarrow> alarm_log \<times> u64 \<times> PhoneAlarmManager" where
  "alarm_call (n, m) (AlarmActivate i) = (log_nothing, n, snd (activate_device m i))"
| "alarm_call (n, m) AlarmDeactivate = (log_nothing, n, clear_active_device m)"
| "alarm_call (n, m) (AlarmSetEnabled on) = (log_nothing, n, snd (set_enabled m on))"
| "alarm_call (n, m) (AlarmSetDuty duty) = (log_nothing, n, snd (set_duty_percent m duty))"
| "alarm_call (n, m) (AlarmSetHeadroom h) = (log_nothing, n, snd (set_headroom_percent m h))"
| "alarm_call (n, m) (AlarmEvaluate evi now) =
     (case manager_evaluate n m evi now of (n', acts, m') \<Rightarrow>
        (log_nothing\<lparr>log_scheduled := scheduled acts, log_cancelled := cancelled_ids acts\<rparr>, n', m'))"
| "alarm_call (n, m) (AlarmComplete rid delivered now) =
     (case manager_complete m rid delivered now of (ok, m') \<Rightarrow>
        (log_nothing\<lparr>log_completed := (if ok then [rid] else [])\<rparr>, n, m'))"
| "alarm_call (n, m) AlarmInvalidate =
     (case invalidate_deliveries m of (ids, m') \<Rightarrow> (log_nothing\<lparr>log_cancelled := ids\<rparr>, n, m'))"
| "alarm_call (n, m) AlarmTakeCancelled =
     (case take_cancelled_request_ids m of (ids, m') \<Rightarrow> (log_nothing\<lparr>log_cancelled := ids\<rparr>, n, m'))"
| "alarm_call (n, m) (AlarmRestore i on duty) =
     (case preferences_new on duty of Inl _ \<Rightarrow> (log_nothing, n, m)
      | Inr p \<Rightarrow> (log_nothing, n, snd (restore_preferences m i p)))"
| "alarm_call (n, m) AlarmElsewhere =
     (log_nothing, (case checked_add n 1 of None \<Rightarrow> n | Some n' \<Rightarrow> n'), m)"

definition log_append :: "alarm_log \<Rightarrow> alarm_log \<Rightarrow> alarm_log" where
  "log_append a b = \<lparr>log_scheduled = log_scheduled a @ log_scheduled b,
     log_completed = log_completed a @ log_completed b, log_cancelled = log_cancelled a @ log_cancelled b\<rparr>"

primrec alarm_run :: "u64 \<times> PhoneAlarmManager \<Rightarrow> AlarmCall list \<Rightarrow> alarm_log \<times> u64 \<times> PhoneAlarmManager" where
  "alarm_run w [] = (log_nothing, w)"
| "alarm_run w (c # cs) =
     (case alarm_call w c of (l, w1) \<Rightarrow> case alarm_run w1 cs of (l', w2) \<Rightarrow> (log_append l l', w2))"

section \<open>The ledger of deliveries\<close>

definition pending_ids :: "PhoneAlarmEvaluator \<Rightarrow> u64 list" where
  "pending_ids ev = option_list (pending_request_id (pwm ev)) @ option_list (pending_request_id (warning ev))
     @ option_list (pending_request_id (stop ev))"

definition outstanding_ids :: "u64 \<times> PhoneAlarmManager \<Rightarrow> u64 multiset" where
  "outstanding_ids w = mset (cancelled_request_ids (snd w)) + mset (pending_ids (evaluator (snd w)))"

definition opened_ids :: "alarm_log \<Rightarrow> u64 multiset" where
  "opened_ids l = mset (map delivery_id (log_scheduled l))"

definition settled_ids :: "alarm_log \<Rightarrow> u64 multiset" where
  "settled_ids l = mset (log_completed l) + mset (log_cancelled l)"

lemma option_list_simps [simp]: "option_list None = []" "option_list (Some x) = [x]"
  by (simp_all add: option_list_def)

lemma channel_clear_pending [simp]: "pending_request_id channel_clear = None"
  by (simp add: channel_clear_def)

lemma pending_default [simp]: "pending_ids evaluator_default = []"
  by (simp add: pending_ids_def evaluator_default_def)

lemma evaluator_clear_eq: "evaluator_clear ev = (pending_ids ev, evaluator_default)"
  by (simp add: evaluator_clear_def pending_ids_def)

lemma checked_succ:
  "checked_add (n :: u64) 1 = Some n' \<Longrightarrow> n < n' \<and> unat n' = Suc (unat n)"
  using checked_add_SomeD [of n 1 n'] by (simp add: word_less_nat_alt)

lemma switch_balance:
  assumes "switch_condition st cond canc = (st', canc')"
  shows "mset (option_list (pending_request_id st)) + mset canc = mset (option_list (pending_request_id st')) + mset canc'"
    and "active st' = Some cond"
  using assms by (auto simp: switch_condition_def split: if_splits)

lemma reserve_balance:
  assumes "reserve_if_due n st event repeat now reqs canc = (n', st', reqs', canc')"
  shows "mset (option_list (pending_request_id st)) + mset (map delivery_id reqs') + mset canc =
      mset (option_list (pending_request_id st')) + mset (map delivery_id reqs) + mset canc'"
proof (cases event)
  case None
  then show ?thesis using assms by (simp add: reserve_if_due_def)
next
  case (Some e)
  obtain st1 canc1 where sw: "switch_condition st (event_condition e) canc = (st1, canc1)"
    by fastforce
  show ?thesis
    using assms switch_balance(1) [OF sw] unfolding reserve_if_due_def Some
    by (auto simp: sw is_some_iff split: if_splits option.splits)
qed

lemma rearm_balance:
  assumes "update_pwm_rearm st t duty event canc = (st', canc')"
  shows "mset (option_list (pending_request_id st)) + mset canc = mset (option_list (pending_request_id st')) + mset canc'"
  using assms by (auto simp: update_pwm_rearm_def Let_def split: if_splits)

lemma absent_balance:
  assumes "clear_if_absent st event canc = (st', canc')"
  shows "mset (option_list (pending_request_id st)) + mset canc = mset (option_list (pending_request_id st')) + mset canc'"
  using assms by (auto simp: clear_if_absent_def split: if_splits)

section \<open>Identities\<close>

definition ids_between :: "u64 \<Rightarrow> u64 list \<Rightarrow> u64 \<Rightarrow> bool" where
  "ids_between n ids n' \<longleftrightarrow> n \<le> n' \<and> sorted_wrt (<) ids \<and> (\<forall>i \<in> set ids. n \<le> i \<and> i < n')"

lemma ids_between_Nil [simp]: "ids_between n [] n' \<longleftrightarrow> n \<le> n'"
  by (simp add: ids_between_def)

lemma ids_between_one: "n < n' \<Longrightarrow> ids_between n [n] n'"
  by (simp add: ids_between_def)

lemma ids_between_append:
  "ids_between n xs n1 \<Longrightarrow> ids_between n1 ys n2 \<Longrightarrow> ids_between n (xs @ ys) n2"
  unfolding ids_between_def sorted_wrt_append by (auto intro: order_trans less_le_trans)

lemma ids_between_distinct: "ids_between n ids n' \<Longrightarrow> distinct ids"
  by (simp add: ids_between_def strict_sorted_iff)

lemma reserve_issues:
  assumes "reserve_if_due n st event repeat now reqs canc = (n', st', reqs', canc')"
  obtains new where "reqs' = reqs @ new" "ids_between n (map delivery_id new) n'"
proof (cases event)
  case None
  then show ?thesis using assms that [of "[]"] by (simp add: reserve_if_due_def)
next
  case (Some e)
  show ?thesis
    using assms that [of "[]"] that [of "[\<lparr>delivery_id = n, delivery_event = e\<rparr>]"] unfolding reserve_if_due_def Some
    by (auto simp: ids_between_one dest: checked_succ split: if_splits option.splits prod.splits)
qed

text \<open>The six channel steps of an evaluation that is not switched off.\<close>

lemma evaluate_steps:
  assumes "evaluator_evaluate n ev policy evi now = (n', ev', acts)"
  obtains (off) "\<not> policy_enabled policy \<or> freshness evi \<noteq> EvidenceFresh"
      "n' = n" "ev' = evaluator_default" "acts = \<lparr>scheduled = [], cancelled_ids = pending_ids ev\<rparr>"
  | (on) pe we se p1 c1 n1 p2 r1 c2 w1 c3 n2 w2 r2 c4 s1 c5 s2 where
      "policy_enabled policy" "freshness evi = EvidenceFresh"
      "pe = Option.bind (pwm_duty evi) (pwm_event (policy_threshold policy))"
      "we = Option.bind (controller_warning evi) warning_event"
      "se = Option.bind (controller_stop evi) stop_event"
      "update_pwm_rearm (pwm ev) (policy_threshold policy) (pwm_duty evi) pe [] = (p1, c1)"
      "reserve_if_due n p1 pe (repeat_after policy) now [] c1 = (n1, p2, r1, c2)"
      "clear_if_absent (warning ev) we c2 = (w1, c3)"
      "reserve_if_due n1 w1 we (repeat_after policy) now r1 c3 = (n2, w2, r2, c4)"
      "clear_if_absent (stop ev) se c4 = (s1, c5)"
      "reserve_if_due n2 s1 se (repeat_after policy) now r2 c5 = (n', s2, scheduled acts, cancelled_ids acts)"
      "ev' = \<lparr>pwm = p2, warning = w2, stop = s2\<rparr>"
proof (cases "\<not> policy_enabled policy \<or> freshness evi \<noteq> EvidenceFresh")
  case True
  then show ?thesis using assms off by (auto simp: evaluator_evaluate_def evaluator_clear_eq)
next
  case False
  then show ?thesis
    using assms on [OF _ _ refl refl refl] unfolding evaluator_evaluate_def Let_def
    by (simp split: prod.splits) auto
qed

lemma evaluate_balance:
  assumes "evaluator_evaluate n ev policy evi now = (n', ev', acts)"
  shows "mset (pending_ids ev) + mset (map delivery_id (scheduled acts)) =
      mset (cancelled_ids acts) + mset (pending_ids ev')"
  using assms
proof (cases rule: evaluate_steps)
  case (on pe we se p1 c1 n1 p2 r1 c2 w1 c3 n2 w2 r2 c4 s1 c5 s2)
  show ?thesis
  proof (rule multiset_eqI)
    fix x
    note balances = rearm_balance [OF on(6)] reserve_balance [OF on(7)] absent_balance [OF on(8)]
      reserve_balance [OF on(9)] absent_balance [OF on(10)] reserve_balance [OF on(11)]
    show "count (mset (pending_ids ev) + mset (map delivery_id (scheduled acts))) x =
        count (mset (cancelled_ids acts) + mset (pending_ids ev')) x"
      using balances [THEN arg_cong [where f = "\<lambda>m. count m x"]]
      by (simp add: on(12) pending_ids_def)
  qed
qed simp

lemma evaluate_issues:
  assumes "evaluator_evaluate n ev policy evi now = (n', ev', acts)"
  shows "ids_between n (map delivery_id (scheduled acts)) n'"
  using assms
proof (cases rule: evaluate_steps)
  case (on pe we se p1 c1 n1 p2 r1 c2 w1 c3 n2 w2 r2 c4 s1 c5 s2)
  obtain x where x: "r1 = [] @ x" "ids_between n (map delivery_id x) n1"
    using on(7) by (rule reserve_issues)
  obtain y where y: "r2 = r1 @ y" "ids_between n1 (map delivery_id y) n2"
    using on(9) by (rule reserve_issues)
  obtain z where z: "scheduled acts = r2 @ z" "ids_between n2 (map delivery_id z) n'"
    using on(11) by (rule reserve_issues)
  show ?thesis
    using ids_between_append [OF ids_between_append [OF x(2) y(2)] z(2)] x(1) y(1) z(1) by simp
qed simp

lemma invalidate_outstanding [simp]:
  "outstanding_ids (n, manager_invalidate m) = outstanding_ids (n, m)"
  by (simp add: outstanding_ids_def manager_invalidate_def evaluator_clear_eq)

lemma invalidate_evaluator [simp]: "evaluator (manager_invalidate m) = evaluator_default"
  by (simp add: manager_invalidate_def evaluator_clear_eq)

lemma invalidate_keeps [simp]:
  "active_identity (manager_invalidate m) = active_identity m" "preferences (manager_invalidate m) = preferences m"
  by (simp_all add: manager_invalidate_def evaluator_clear_eq)

lemma with_pending_balance:
  assumes "with_pending_cancellations m acts = (acts', m')"
  shows "mset (cancelled_request_ids m) + mset (cancelled_ids acts) = mset (cancelled_ids acts') + mset (cancelled_request_ids m')"
    and "evaluator m' = evaluator m" "scheduled acts' = scheduled acts"
    and "active_identity m' = active_identity m" "preferences m' = preferences m"
  using assms by (auto simp: with_pending_cancellations_def split: if_splits)

lemma update_outstanding [simp]:
  "outstanding_ids (n, snd (update_active_preferences m f)) = outstanding_ids (n, m)"
  by (auto simp: update_active_preferences_def Let_def outstanding_ids_def manager_invalidate_def
      evaluator_clear_eq split: option.splits)

lemma activate_outstanding [simp]: "outstanding_ids (n, snd (activate_device m i)) = outstanding_ids (n, m)"
  by (auto simp: activate_device_def Let_def outstanding_ids_def manager_invalidate_def evaluator_clear_eq
      split: sum.splits)

lemma restore_outstanding [simp]: "outstanding_ids (n, snd (restore_preferences m i p)) = outstanding_ids (n, m)"
  by (auto simp: restore_preferences_def Let_def outstanding_ids_def manager_invalidate_def evaluator_clear_eq
      split: sum.splits)

lemma manager_evaluate_cases:
  assumes "manager_evaluate n m evi now = (n', acts, m')"
  obtains (off) "with_pending_cancellations (manager_invalidate m) \<lparr>scheduled = [], cancelled_ids = []\<rparr> = (acts, m')" "n' = n"
  | (on) p ev acts0 where "active_preferences m = Some p" "pref_enabled p" "freshness evi = EvidenceFresh"
      "evaluator_evaluate n (evaluator m) (policy_on (pwm_duty_threshold p) PHONE_ALARM_REPEAT_AFTER) evi now = (n', ev, acts0)"
      "with_pending_cancellations (m\<lparr>evaluator := ev\<rparr>) acts0 = (acts, m')"
  using assms by (auto simp: manager_evaluate_def Let_def split: option.splits if_splits prod.splits)

lemma manager_evaluate_balance:
  assumes "manager_evaluate n m evi now = (n', acts, m')"
  shows "outstanding_ids (n, m) + mset (map delivery_id (scheduled acts)) =
      mset (cancelled_ids acts) + outstanding_ids (n', m')"
    and "ids_between n (map delivery_id (scheduled acts)) n'"
  using assms
proof (atomize (full), cases rule: manager_evaluate_cases)
  case off
  then show "outstanding_ids (n, m) + mset (map delivery_id (scheduled acts)) =
      mset (cancelled_ids acts) + outstanding_ids (n', m') \<and> ids_between n (map delivery_id (scheduled acts)) n'"
    using with_pending_balance [OF off(1)] invalidate_outstanding [of n m]
    by (simp add: outstanding_ids_def)
next
  case (on p ev acts0)
  note wp = with_pending_balance [OF on(5)]
  have "outstanding_ids (n, m) + mset (map delivery_id (scheduled acts))
      = mset (cancelled_request_ids m) + (mset (cancelled_ids acts0) + mset (pending_ids ev))"
    using evaluate_balance [OF on(4)] wp(3) by (simp add: outstanding_ids_def)
  also have "\<dots> = mset (cancelled_ids acts) + outstanding_ids (n', m')"
    using wp(1,2) by (simp add: outstanding_ids_def flip: add.assoc)
  finally show "outstanding_ids (n, m) + mset (map delivery_id (scheduled acts)) =
      mset (cancelled_ids acts) + outstanding_ids (n', m') \<and> ids_between n (map delivery_id (scheduled acts)) n'"
    using evaluate_issues [OF on(4)] wp(3) by simp
qed

lemma complete_balance:
  assumes "manager_complete m rid delivered now = (ok, m')"
  shows "outstanding_ids (n, m) = mset (if ok then [rid] else []) + outstanding_ids (n', m')"
  using assms
  by (auto simp: manager_complete_def evaluator_complete_def channel_complete_def outstanding_ids_def
      pending_ids_def split: if_splits)

lemma alarm_balance:
  assumes "alarm_call w c = (l, w')"
  shows "outstanding_ids w + opened_ids l = settled_ids l + outstanding_ids w'"
    and "ids_between (fst w) (map delivery_id (log_scheduled l)) (fst w')"
proof (atomize (full), goal_cases)
  case 1
  obtain n m where w: "w = (n, m)"
    by fastforce
  note defs = opened_ids_def settled_ids_def log_nothing_def
  show ?case
  proof (cases c)
    case (AlarmEvaluate evi now)
    obtain n' acts m' where ev: "manager_evaluate n m evi now = (n', acts, m')"
      by (cases "manager_evaluate n m evi now") auto
    then show ?thesis
      using assms manager_evaluate_balance [OF ev] by (auto simp: w AlarmEvaluate defs)
  next
    case (AlarmComplete rid delivered now)
    obtain ok m' where co: "manager_complete m rid delivered now = (ok, m')"
      by fastforce
    then show ?thesis
      using assms complete_balance [OF co, of n n] by (auto simp: w AlarmComplete defs)
  next
    case (AlarmSetDuty duty)
    then show ?thesis
      using assms by (auto simp: w defs set_duty_percent_def split: sum.splits)
  next
    case (AlarmSetHeadroom h)
    then show ?thesis
      using assms
      by (auto simp: w defs set_headroom_percent_def set_duty_percent_def split: sum.splits if_splits)
  next
    case (AlarmElsewhere)
    then show ?thesis
      using assms checked_succ [of n] by (auto simp: w defs outstanding_ids_def less_imp_le split: option.splits)
  next
    case AlarmInvalidate
    then show ?thesis
      using assms by (auto simp: w defs outstanding_ids_def invalidate_deliveries_def evaluator_clear_eq)
  next
    case AlarmTakeCancelled
    then show ?thesis
      using assms by (auto simp: w defs outstanding_ids_def take_cancelled_request_ids_def)
  next
    case AlarmDeactivate
    then show ?thesis
      using assms by (auto simp: w defs clear_active_device_def) (simp add: outstanding_ids_def)
  qed (use assms in \<open>auto simp: w defs set_enabled_def split: sum.splits\<close>)
qed

interpretation alarm_ledger: ledger alarm_call outstanding_ids opened_ids settled_ids
  by unfold_locales (rule alarm_balance)

lemma log_append_ids:
  "opened_ids (log_append a b) = opened_ids a + opened_ids b"
  "settled_ids (log_append a b) = settled_ids a + settled_ids b"
  by (simp_all add: opened_ids_def settled_ids_def log_append_def)

lemma alarm_run_ledger:
  assumes "alarm_run w calls = (l, w')"
  obtains ls where "alarm_ledger.run w calls = (ls, w')"
    "opened_ids l = sum_list (map opened_ids ls)" "settled_ids l = sum_list (map settled_ids ls)"
  using assms
proof (induction calls arbitrary: w l thesis)
  case Nil
  then show ?case
    by (auto simp: opened_ids_def settled_ids_def log_nothing_def)
next
  case (Cons c calls)
  obtain l1 w1 where st: "alarm_call w c = (l1, w1)"
    by (cases "alarm_call w c")
  obtain l2 where rn: "alarm_run w1 calls = (l2, w')" "l = log_append l1 l2"
    using Cons.prems(2) st by (auto split: prod.splits)
  obtain ls where ls: "alarm_ledger.run w1 calls = (ls, w')"
    "opened_ids l2 = sum_list (map opened_ids ls)" "settled_ids l2 = sum_list (map settled_ids ls)"
    using Cons.IH [OF _ rn(1)] by blast
  show ?case
    using Cons.prems(1) [of "l1 # ls"] st ls by (simp add: rn(2) log_append_ids)
qed

lemma alarm_run_issues: "alarm_run w calls = (l, w') \<Longrightarrow> ids_between (fst w) (map delivery_id (log_scheduled l)) (fst w')"
proof (induction calls arbitrary: w l)
  case Nil
  then show ?case by (auto simp: log_nothing_def)
next
  case (Cons c calls)
  obtain l1 w1 where st: "alarm_call w c = (l1, w1)"
    by (cases "alarm_call w c")
  obtain l2 where rn: "alarm_run w1 calls = (l2, w')" "l = log_append l1 l2"
    using Cons.prems st by (auto split: prod.splits)
  show ?case
    using ids_between_append [OF alarm_balance(2) [OF st] Cons.IH [OF rn(1)]] by (simp add: rn(2) log_append_def)
qed

text \<open>
  C4. Every alarm delivery is settled exactly once.  Over any calls, on any devices and with any
  evidence, and while other evaluators draw from the same counter, no delivery identity is
  scheduled twice, and the deliveries scheduled so far are exactly those whose completion was
  accepted, those whose cancellation was handed out, those whose cancellation is queued and those
  still pending, each counted once.
\<close>

theorem alarm_deliveries_settled_once:
  "case alarm_run (n, manager_default) calls of (l, n', m) \<Rightarrow>
     distinct (map delivery_id (log_scheduled l))
     \<and> mset (map delivery_id (log_scheduled l)) =
         mset (log_completed l) + mset (log_cancelled l)
         + mset (cancelled_request_ids m) + mset (pending_ids (evaluator m))"
proof -
  obtain l n' m where run: "alarm_run (n, manager_default) calls = (l, n', m)"
    by (cases "alarm_run (n, manager_default) calls") auto
  obtain ls where ls: "alarm_ledger.run (n, manager_default) calls = (ls, n', m)"
    "opened_ids l = sum_list (map opened_ids ls)" "settled_ids l = sum_list (map settled_ids ls)"
    using run by (rule alarm_run_ledger)
  have "outstanding_ids (n, manager_default) = {#}"
    by (simp add: outstanding_ids_def manager_default_def)
  then have "opened_ids l = settled_ids l + outstanding_ids (n', m)"
    using alarm_ledger.run_balance [OF ls(1)] ls(2,3) by simp
  then show ?thesis
    using ids_between_distinct [OF alarm_run_issues [OF run]]
    by (simp add: run opened_ids_def settled_ids_def outstanding_ids_def ac_simps)
qed

section \<open>The invariant of the manager\<close>

text \<open>
  The store is bounded and holds valid identities and thresholds, the active device has
  preferences, and a delivery is pending only for an active device that has alarms enabled.
\<close>

definition manager_ok :: "PhoneAlarmManager \<Rightarrow> bool" where
  "manager_ok m \<longleftrightarrow>
     btm_len (preferences m) \<le> MAX_PHONE_ALARM_DEVICES
     \<and> (\<forall>i p. fmlookup (preferences m) i = Some p \<longrightarrow>
          validate_identity i = Inr () \<and> 1 \<le> pwm_duty_threshold p \<and> pwm_duty_threshold p \<le> 100)
     \<and> (\<forall>i. active_identity m = Some i \<longrightarrow> fmlookup (preferences m) i \<noteq> None)
     \<and> (pending_ids (evaluator m) \<noteq> [] \<longrightarrow> (\<exists>p. active_preferences m = Some p \<and> pref_enabled p))"

lemma manager_ok_default: "manager_ok manager_default"
  by (simp add: manager_ok_def manager_default_def)

lemma manager_ok_invalidate:
  "btm_len (preferences m) \<le> MAX_PHONE_ALARM_DEVICES \<Longrightarrow>
   (\<And>i p. fmlookup (preferences m) i = Some p \<Longrightarrow>
      validate_identity i = Inr () \<and> 1 \<le> pwm_duty_threshold p \<and> pwm_duty_threshold p \<le> 100) \<Longrightarrow>
   (\<And>i. active_identity m = Some i \<Longrightarrow> fmlookup (preferences m) i \<noteq> None) \<Longrightarrow>
   manager_ok (manager_invalidate m)"
  by (simp add: manager_ok_def)

lemma btm_len_upd_le:
  "\<not> store_full_for m i \<Longrightarrow> btm_len (preferences m) \<le> MAX_PHONE_ALARM_DEVICES \<Longrightarrow>
     btm_len (fmupd i p (preferences m)) \<le> MAX_PHONE_ALARM_DEVICES"
  by (auto simp: store_full_for_def btm_len_fmupd)

lemma default_threshold [simp]:
  "1 \<le> pwm_duty_threshold preferences_default" "pwm_duty_threshold preferences_default \<le> 100"
  by (simp_all add: preferences_default_def DEFAULT_PWM_DUTY_PERCENT_def)

lemma manager_ok_activate:
  assumes ok: "manager_ok m"
  shows "manager_ok (snd (activate_device m i))"
proof (cases "validate_identity i = Inr () \<and> \<not> store_full_for m i")
  case True
  let ?p = "entry_or preferences_default (preferences m) i"
  let ?m = "m\<lparr>preferences := fmupd i ?p (preferences m), active_identity := Some i\<rparr>"
  have p: "1 \<le> pwm_duty_threshold ?p \<and> pwm_duty_threshold ?p \<le> 100"
    using ok by (cases "fmlookup (preferences m) i") (auto simp: manager_ok_def entry_or_def)
  have inval: "manager_ok (manager_invalidate ?m)"
    using ok p True by (intro manager_ok_invalidate) (auto simp: manager_ok_def btm_len_upd_le split: if_splits)
  have same: "?m = m" if act: "active_identity m = Some i"
  proof -
    obtain q where "fmlookup (preferences m) i = Some q"
      using ok act by (auto simp: manager_ok_def)
    then show ?thesis
      using act by (simp add: entry_or_def fmupd_idem)
  qed
  show ?thesis
    using True inval same ok by (auto simp: activate_device_def Let_def)
next
  case False
  then show ?thesis
    using ok by (auto simp: activate_device_def split: sum.splits)
qed

lemma manager_ok_restore:
  assumes ok: "manager_ok m" and p: "1 \<le> pwm_duty_threshold p" "pwm_duty_threshold p \<le> 100"
  shows "manager_ok (snd (restore_preferences m i p))"
proof (cases "validate_identity i = Inr () \<and> \<not> store_full_for m i")
  case True
  let ?m = "m\<lparr>preferences := fmupd i p (preferences m)\<rparr>"
  have inval: "manager_ok (manager_invalidate ?m)"
    using ok p True by (intro manager_ok_invalidate) (auto simp: manager_ok_def btm_len_upd_le split: if_splits)
  have keep: "manager_ok ?m" if "active_identity m \<noteq> Some i \<or> fmlookup (preferences m) i = Some p"
  proof (cases "fmlookup (preferences m) i = Some p")
    case True
    then show ?thesis using ok by (simp add: fmupd_idem)
  next
    case False
    then show ?thesis
      using ok p True that
      by (auto simp: manager_ok_def btm_len_upd_le active_preferences_def bind_eq_Some_conv split: if_splits)
  qed
  show ?thesis
    using True inval keep by (auto simp: restore_preferences_def Let_def)
next
  case False
  then show ?thesis
    using ok by (auto simp: restore_preferences_def split: sum.splits)
qed

lemma manager_ok_update:
  assumes ok: "manager_ok m"
    and f: "\<And>p. 1 \<le> pwm_duty_threshold p \<Longrightarrow> pwm_duty_threshold p \<le> 100 \<Longrightarrow>
      1 \<le> pwm_duty_threshold (f p) \<and> pwm_duty_threshold (f p) \<le> 100"
  shows "manager_ok (snd (update_active_preferences m f))"
proof (cases "active_identity m")
  case (Some i)
  obtain p where p: "fmlookup (preferences m) i = Some p"
    using ok Some by (auto simp: manager_ok_def)
  have range: "1 \<le> pwm_duty_threshold (f p) \<and> pwm_duty_threshold (f p) \<le> 100"
    using ok p by (intro f) (auto simp: manager_ok_def)
  have "manager_ok (manager_invalidate (m\<lparr>preferences := fmupd i (f p) (preferences m)\<rparr>))"
    using ok range p by (intro manager_ok_invalidate) (auto simp: manager_ok_def btm_len_fmupd split: if_splits)
  then show ?thesis
    using Some p ok by (auto simp: update_active_preferences_def Let_def fmupd_idem)
qed (simp add: update_active_preferences_def ok)

lemma manager_ok_evaluate:
  assumes ok: "manager_ok m" and ev: "manager_evaluate n m evi now = (n', acts, m')"
  shows "manager_ok m'"
  using ev
proof (cases rule: manager_evaluate_cases)
  case off
  then show ?thesis
    using with_pending_balance [OF off(1)] ok by (simp add: manager_ok_def)
next
  case (on p ev acts0)
  then show ?thesis
    using with_pending_balance [OF on(5)] ok by (simp add: manager_ok_def active_preferences_def)
qed

lemma manager_ok_complete:
  assumes "manager_ok m" "manager_complete m rid delivered now = (done, m')"
  shows "manager_ok m'"
proof -
  have "evaluator m' = evaluator m \<or> pending_ids (evaluator m) \<noteq> []"
    "preferences m' = preferences m" "active_identity m' = active_identity m"
    using assms(2) by (auto simp: manager_complete_def evaluator_complete_def pending_ids_def split: if_splits)
  then show ?thesis
    using assms(1) by (auto simp: manager_ok_def active_preferences_def)
qed

lemma threshold_new_range: "threshold_new duty = Inr t \<Longrightarrow> 1 \<le> t \<and> t \<le> 100"
  by (auto simp: threshold_new_def split: if_splits)

lemma manager_ok_set_duty: "manager_ok m \<Longrightarrow> manager_ok (snd (set_duty_percent m duty))"
  using threshold_new_range [of duty]
  by (auto simp: set_duty_percent_def split: sum.splits intro: manager_ok_update)

lemma manager_ok_call:
  assumes ok: "manager_ok (snd w)"
  shows "manager_ok (snd (snd (alarm_call w c)))"
proof -
  obtain n m where w: "w = (n, m)"
    by fastforce
  note okm = ok [unfolded w snd_conv]
  show ?thesis
  proof (cases c)
    case AlarmDeactivate
    then show ?thesis
      using okm by (auto simp: w clear_active_device_def manager_ok_def)
  next
    case (AlarmSetEnabled on)
    then show ?thesis
      using okm by (auto simp: w set_enabled_def intro: manager_ok_update)
  next
    case (AlarmSetHeadroom h)
    then show ?thesis
      using okm by (auto simp: w set_headroom_percent_def intro: manager_ok_set_duty)
  next
    case (AlarmEvaluate evi now)
    then show ?thesis
      using manager_ok_evaluate [OF okm] by (auto simp: w split: prod.splits)
  next
    case (AlarmComplete rid delivered now)
    then show ?thesis
      using manager_ok_complete [OF okm] by (auto simp: w split: prod.splits)
  next
    case (AlarmRestore i on duty)
    then show ?thesis
      using okm threshold_new_range [of duty]
      by (cases "threshold_new duty") (auto simp: w preferences_new_def intro: manager_ok_restore)
  next
    case AlarmInvalidate
    then show ?thesis
      using okm by (auto simp: w invalidate_deliveries_def evaluator_clear_eq manager_ok_def)
  next
    case AlarmTakeCancelled
    then show ?thesis
      using okm by (auto simp: w take_cancelled_request_ids_def manager_ok_def active_preferences_def)
  qed (use okm in \<open>auto simp: w intro: manager_ok_activate manager_ok_set_duty\<close>)
qed

text \<open>
  C38. After any calls the alarm manager is well formed: at most 256 devices, each with a valid
  identity and a threshold of one to a hundred percent; the active device has preferences; and
  whenever a delivery is pending there is an active device and it has alarms enabled, so switching
  devices or switching alarms off leaves nothing in flight.
\<close>

theorem alarm_manager_inv: "manager_ok (snd (snd (alarm_run (n, manager_default) calls)))"
proof -
  have "manager_ok (snd w) \<Longrightarrow> manager_ok (snd (snd (alarm_run w calls)))" for w
  proof (induction calls arbitrary: w)
    case (Cons c calls)
    then have "manager_ok (snd (snd (alarm_run (snd (alarm_call w c)) calls)))"
      using manager_ok_call [of w c] by blast
    then show ?case
      by (auto split: prod.splits)
  qed simp
  then show ?thesis
    by (simp add: manager_ok_default)
qed

section \<open>When an alarm is scheduled\<close>

text \<open>
  A channel admits a delivery for a condition unless it waits to be rearmed or, while that same
  condition lasts, a delivery is pending or a repeat or retry interval is running.
\<close>

definition channel_ready :: "PhoneAlarmChannelState \<Rightarrow> ActivePhoneAlarmCondition \<Rightarrow> Duration \<Rightarrow> MonotonicTimestamp \<Rightarrow> bool" where
  "channel_ready st cond repeat now \<longleftrightarrow> \<not> waiting_for_rearm st
     \<and> (active st = Some cond \<longrightarrow> pending_request_id st = None \<and> delivery_due st repeat now)"

definition alarm_due :: "PhoneAlarmManager \<Rightarrow> PhoneAlarmEvidence \<Rightarrow> MonotonicTimestamp \<Rightarrow> PhoneAlarmEvent \<Rightarrow> bool" where
  "alarm_due m evi now e \<longleftrightarrow>
     (\<exists>p. active_preferences m = Some p \<and> pref_enabled p \<and> freshness evi = EvidenceFresh
        \<and> (case e of
             PwmDuty percent headroom \<Rightarrow>
               (\<exists>duty. pwm_duty evi = Some duty
                  \<and> unat (pwm_duty_threshold p) * 10 \<le> min (nat \<bar>duty\<bar>) 1000
                  \<and> percent = of_nat (min (nat \<bar>duty\<bar>) 1000 div 10) \<and> headroom = 100 - percent)
               \<and> channel_ready (pwm (evaluator m)) ActivePwmDuty PHONE_ALARM_REPEAT_AFTER now
           | ControllerWarning x \<Rightarrow> controller_warning evi = Some x \<and> x \<notin> {WarningNone, WarningUnknown}
               \<and> channel_ready (warning (evaluator m)) (ActiveWarning x) PHONE_ALARM_REPEAT_AFTER now
           | ControllerStop x \<Rightarrow> controller_stop evi = Some x \<and> x \<noteq> StopNone
               \<and> channel_ready (stop (evaluator m)) (ActiveStop x) PHONE_ALARM_REPEAT_AFTER now))"

lemma reserve_scheduled:
  assumes "reserve_if_due n st event repeat now reqs canc = (n', st', reqs', canc')"
    and "unat n + 1 < 18446744073709551616"
  shows "delivery_event ` set reqs' =
      delivery_event ` set reqs \<union> {e. event = Some e \<and> channel_ready st (event_condition e) repeat now}"
    and "unat n' \<le> unat n + 1"
proof -
  obtain n1 where n1: "checked_add n 1 = Some n1" "unat n1 = unat n + 1"
    using assms(2) by (cases "checked_add n 1") (auto simp: checked_add_None_iff dest: checked_succ)
  have due: "delivery_due (st\<lparr>active := Some c, delivered_at := None, failed_at := None, pending_request_id := None\<rparr>) repeat now" for c
    by (simp add: delivery_due_def)
  show "delivery_event ` set reqs' =
      delivery_event ` set reqs \<union> {e. event = Some e \<and> channel_ready st (event_condition e) repeat now}"
    using assms(1) due
    by (auto simp: reserve_if_due_def switch_condition_def channel_ready_def n1(1) is_some_iff
        split: if_splits option.splits)
  show "unat n' \<le> unat n + 1"
    using assms(1) n1 by (auto simp: reserve_if_due_def split: if_splits option.splits prod.splits)
qed

lemma rearm_event: "update_pwm_rearm st t duty (Some e) canc = (st, canc)"
  by (simp add: update_pwm_rearm_def)

lemma absent_event: "clear_if_absent st (Some e) canc = (st, canc)"
  by (simp add: clear_if_absent_def)

lemma warning_event_Some: "warning_event x = Some e \<longleftrightarrow> e = ControllerWarning x \<and> x \<notin> {WarningNone, WarningUnknown}"
  by (cases x) auto

lemma stop_event_Some: "stop_event x = Some e \<longleftrightarrow> e = ControllerStop x \<and> x \<noteq> StopNone"
  by (cases x) auto

lemma pwm_event_Some:
  "pwm_event t duty = Some e \<longleftrightarrow> unat t * 10 \<le> min (nat \<bar>duty\<bar>) 1000 \<and>
     e = PwmDuty (of_nat (min (nat \<bar>duty\<bar>) 1000 div 10)) (100 - of_nat (min (nat \<bar>duty\<bar>) 1000 div 10))"
  by (auto simp: pwm_event_def Let_def threshold_permille_def)

lemma evaluate_scheduled:
  assumes "evaluator_evaluate n ev policy evi now = (n', ev', acts)"
    and "policy_enabled policy" "freshness evi = EvidenceFresh"
    and "unat n + 3 < 18446744073709551616"
  shows "delivery_event ` set (scheduled acts) =
     {e. Option.bind (pwm_duty evi) (pwm_event (policy_threshold policy)) = Some e
         \<and> channel_ready (pwm ev) (event_condition e) (repeat_after policy) now}
   \<union> {e. Option.bind (controller_warning evi) warning_event = Some e
         \<and> channel_ready (warning ev) (event_condition e) (repeat_after policy) now}
   \<union> {e. Option.bind (controller_stop evi) stop_event = Some e
         \<and> channel_ready (stop ev) (event_condition e) (repeat_after policy) now}"
  using assms(1)
proof (cases rule: evaluate_steps)
  case (on pe we se p1 c1 n1 p2 r1 c2 w1 c3 n2 w2 r2 c4 s1 c5 s2)
  have p1: "pe = Some e \<Longrightarrow> p1 = pwm ev" and w1: "we = Some e \<Longrightarrow> w1 = warning ev"
    and s1: "se = Some e \<Longrightarrow> s1 = stop ev" for e
    using on(6,8,10) by (auto simp: rearm_event absent_event)
  have "unat n + 1 < 18446744073709551616"
    using assms(4) by simp
  note r1 = reserve_scheduled [OF on(7) this]
  then have "unat n1 + 1 < 18446744073709551616"
    using assms(4) by simp
  note r2 = reserve_scheduled [OF on(9) this]
  then have "unat n2 + 1 < 18446744073709551616"
    using assms(4) r1(2) by simp
  note r3 = reserve_scheduled [OF on(11) this]
  show ?thesis
    unfolding r3(1) r2(1) r1(1) on(3-5) [symmetric] using p1 w1 s1 by auto
qed (use assms(2,3) in simp)

text \<open>
  C37. An evaluation schedules exactly the alarms that are due: alarms are enabled for the active
  device, the evidence is fresh, the duty reaches the configured threshold or the controller
  reports a warning it knows or a stop, and that channel neither has a delivery of the same
  condition pending, nor delivered it in the last 30 seconds, nor failed to in the last second,
  nor waits for the duty to fall below the rearming level.  The only proviso is that the identity
  counter is not within three of its end.
\<close>

theorem alarm_scheduled_iff_due:
  assumes "unat n + 3 < 18446744073709551616"
  shows "(\<exists>rid. \<lparr>delivery_id = rid, delivery_event = e\<rparr> \<in> set (scheduled (fst (snd (manager_evaluate n m evi now)))))
    \<longleftrightarrow> alarm_due m evi now e"
proof -
  obtain n' acts m' where ev: "manager_evaluate n m evi now = (n', acts, m')"
    by (cases "manager_evaluate n m evi now")
  have mem: "(\<exists>rid. \<lparr>delivery_id = rid, delivery_event = e\<rparr> \<in> set reqs) \<longleftrightarrow> e \<in> delivery_event ` set reqs" for reqs
  proof
    assume "e \<in> delivery_event ` set reqs"
    then obtain r where r: "r \<in> set reqs" "e = delivery_event r"
      by blast
    moreover have "\<lparr>delivery_id = delivery_id r, delivery_event = delivery_event r\<rparr> = r"
      by simp
    ultimately show "\<exists>rid. \<lparr>delivery_id = rid, delivery_event = e\<rparr> \<in> set reqs"
      by metis
  qed force
  show ?thesis
  proof (cases "\<exists>p. active_preferences m = Some p \<and> pref_enabled p \<and> freshness evi = EvidenceFresh")
    case False
    then have "scheduled acts = []"
      using ev by (auto simp: manager_evaluate_def Let_def with_pending_cancellations_def
          split: option.splits if_splits)
    moreover have "\<not> alarm_due m evi now e"
      using False by (auto simp: alarm_due_def)
    ultimately show ?thesis
      by (simp add: ev)
  next
    case True
    then obtain p ev' acts0 where p: "active_preferences m = Some p" "pref_enabled p" "freshness evi = EvidenceFresh"
      and evd: "evaluator_evaluate n (evaluator m) (policy_on (pwm_duty_threshold p) PHONE_ALARM_REPEAT_AFTER) evi now = (n', ev', acts0)"
      and wp: "with_pending_cancellations (m\<lparr>evaluator := ev'\<rparr>) acts0 = (acts, m')"
      using ev by (auto simp: manager_evaluate_def Let_def split: prod.splits)
    have "e \<in> delivery_event ` set (scheduled acts) \<longleftrightarrow> alarm_due m evi now e"
      using evaluate_scheduled [OF evd _ p(3) assms] p
      by (cases e) (auto simp: with_pending_balance(3) [OF wp] alarm_due_def policy_on_def bind_eq_Some_conv
          warning_event_Some stop_event_Some pwm_event_Some)
    then show ?thesis
      by (simp add: ev mem)
  qed
qed

text \<open>A wheel with alarms on at 80 percent, stopped by its pitch at 91.5 percent duty.\<close>

definition alarm_example :: PhoneAlarmManager where
  "alarm_example = manager_default\<lparr>active_identity := Some [97],
     preferences := fmupd [97] \<lparr>pref_enabled = True, pwm_duty_threshold = 80\<rparr> fmempty\<rparr>"

theorem alarm_scheduled_iff_due_witness:
  "unat (1 :: u64) + 3 < 18446744073709551616
   \<and> (\<exists>rid. \<lparr>delivery_id = rid, delivery_event = PwmDuty 91 9\<rparr> \<in> set (scheduled (fst (snd
        (manager_evaluate 1 alarm_example
           \<lparr>freshness = EvidenceFresh, pwm_duty = Some (- 915), controller_warning = None,
            controller_stop = Some StopPitch\<rparr> 0)))))"
proof -
  have "alarm_due alarm_example \<lparr>freshness = EvidenceFresh, pwm_duty = Some (- 915),
      controller_warning = None, controller_stop = Some StopPitch\<rparr> 0 (PwmDuty 91 9)"
    by (simp add: alarm_due_def alarm_example_def manager_default_def evaluator_default_def channel_clear_def
        active_preferences_def channel_ready_def)
  moreover have "unat (1 :: u64) + 3 < 18446744073709551616"
    by simp
  ultimately show ?thesis
    using alarm_scheduled_iff_due [of 1] by blast
qed

end
