(* ===== verification/Melk_Lighting.thy ===== *)
theory Melk_Lighting
  imports Core_Units
begin

unbundle bit_operations_syntax

text \<open>
  The MELK-OC21 lighting profile: the bounded controls of \<^verbatim>\<open>cutout-core/src/melk_controls.rs\<close>, the
  lighting commands of \<^verbatim>\<open>cutout-core/src/lib.rs\<close>, and the frames, the write policy, the pattern
  catalogue and the ordered plan of a state in \<^verbatim>\<open>cutout-protocols/src/melk_lighting.rs\<close>, with
  their translation to application writes in \<^verbatim>\<open>cutout-application/src/lighting/melk/mod.rs\<close>.
  A GATT channel and a UUID are 128-bit words.  A bounded setting is its byte; its constructor
  checks the bound.
\<close>

section \<open>Controls\<close>

datatype MelkControlError = PatternError | MusicEffectError | SensitivityError | TimeError

type_synonym MelkPattern = u8
type_synonym MelkMusicEffect = u8
type_synonym MelkSensitivity = u8
type_synonym LightingBrightness = u8

definition melk_pattern_try_from :: "u8 \<Rightarrow> MelkControlError + MelkPattern" where
  "melk_pattern_try_from v = (if v \<le> 227 then Inr v else Inl PatternError)"

definition melk_music_effect_try_from :: "u8 \<Rightarrow> MelkControlError + MelkMusicEffect" where
  "melk_music_effect_try_from v = (if v \<le> 7 then Inr v else Inl MusicEffectError)"

definition melk_sensitivity_try_from :: "u8 \<Rightarrow> MelkControlError + MelkSensitivity" where
  "melk_sensitivity_try_from v = (if v \<le> 100 then Inr v else Inl SensitivityError)"

definition brightness_try_from_percent :: "u8 \<Rightarrow> u8 + LightingBrightness" where
  "brightness_try_from_percent v = (if v \<le> 100 then Inr v else Inl v)"

datatype LightingPowerState = PowerOff | PowerOn

record RgbColor =
  red :: u8
  green :: u8
  blue :: u8

datatype LightingPlayback =
    PlaybackSolid
  | PlaybackEffect MelkPattern u8
  | PlaybackMusic MelkMusicEffect MelkSensitivity

record MelkSchedule =
  schedule_power :: LightingPowerState
  schedule_hour :: u8
  schedule_minute :: u8
  schedule_days :: u8
  schedule_enabled :: bool

definition melk_schedule_new :: "LightingPowerState \<Rightarrow> u8 \<Rightarrow> u8 \<Rightarrow> u8 \<Rightarrow> bool
    \<Rightarrow> MelkControlError + MelkSchedule" where
  "melk_schedule_new pw hour minute days on =
     (if 23 < hour \<or> 59 < minute \<or> 127 < days then Inl TimeError
      else Inr \<lparr>schedule_power = pw, schedule_hour = hour, schedule_minute = minute,
             schedule_days = days, schedule_enabled = on\<rparr>)"

record MelkClock =
  clock_hour :: u8
  clock_minute :: u8
  clock_second :: u8
  clock_weekday :: u8

definition melk_clock_new :: "u8 \<Rightarrow> u8 \<Rightarrow> u8 \<Rightarrow> u8 \<Rightarrow> MelkControlError + MelkClock" where
  "melk_clock_new hour minute second weekday =
     (if 23 < hour \<or> 59 < minute \<or> 59 < second \<or> weekday < 1 \<or> 7 < weekday then Inl TimeError
      else Inr \<lparr>clock_hour = hour, clock_minute = minute, clock_second = second, clock_weekday = weekday\<rparr>)"

datatype MelkControl =
    ControlPattern MelkPattern
  | ControlSpeed u8
  | ControlMusicEffect MelkMusicEffect
  | ControlMicrophone bool
  | ControlSensitivity MelkSensitivity
  | ControlSchedule MelkSchedule
  | ControlClock MelkClock

datatype RgbLightingCommand =
    SetPower LightingPowerState
  | SetSolidColor RgbColor
  | SetBrightness LightingBrightness

record RgbLightingRequestedState =
  requested_power :: LightingPowerState
  requested_color :: RgbColor
  requested_brightness :: LightingBrightness
  requested_playback :: LightingPlayback

section \<open>The profile\<close>

definition MELK_FRAME_LEN :: nat where "MELK_FRAME_LEN = 9"

definition MELK_SERVICE_CHANNEL :: u128 where
  "MELK_SERVICE_CHANNEL = 0x0000fff000001000800000805f9b34fb"

definition MELK_WRITE_CHANNEL :: u128 where
  "MELK_WRITE_CHANNEL = 0x0000fff300001000800000805f9b34fb"

definition MELK_NOTIFY_CHANNEL :: u128 where
  "MELK_NOTIFY_CHANNEL = 0x0000fff400001000800000805f9b34fb"

record MelkGattEvidence =
  evidence_service :: "u128 option"
  evidence_write :: "u128 option"
  evidence_notify :: "u128 option"

definition gatt_observed :: MelkGattEvidence where
  "gatt_observed = \<lparr>evidence_service = Some MELK_SERVICE_CHANNEL, evidence_write = Some MELK_WRITE_CHANNEL,
     evidence_notify = Some MELK_NOTIFY_CHANNEL\<rparr>"

definition melk_identify :: "rust_str \<Rightarrow> MelkGattEvidence \<Rightarrow> bool" where
  "melk_identify name ev \<longleftrightarrow> ev = gatt_observed"

record MelkWritePolicy =
  policy_channel :: u128
  policy_mode :: WriteMode
  confirmation_channel :: u128
  policy_interval_ms :: "u16 option"

definition write_policy :: MelkWritePolicy where
  "write_policy = \<lparr>policy_channel = MELK_WRITE_CHANNEL, policy_mode = WithoutResponse,
     confirmation_channel = MELK_NOTIFY_CHANNEL, policy_interval_ms = Some 50\<rparr>"

fun melk_encode :: "RgbLightingCommand \<Rightarrow> u8 list" where
  "melk_encode (SetPower PowerOn) = [0x7e, 0x00, 0x04, 0x01, 0x00, 0x00, 0x00, 0x00, 0xef]"
| "melk_encode (SetPower PowerOff) = [0x7e, 0x00, 0x04, 0x00, 0x00, 0x00, 0xff, 0x00, 0xef]"
| "melk_encode (SetSolidColor c) = [0x7e, 0x00, 0x05, 0x03, red c, green c, blue c, 0x00, 0xef]"
| "melk_encode (SetBrightness b) = [0x7e, 0x04, 0x01, b, 0xff, 0x00, 0xff, 0x00, 0xef]"

fun encode_control :: "MelkControl \<Rightarrow> u8 list" where
  "encode_control (ControlPattern p) = [0x7e, 5, 3, p, 6, 0xff, 0xff, 0, 0xef]"
| "encode_control (ControlSpeed v) = [0x7e, 4, 2, v, 0xff, 0xff, 0xff, 0, 0xef]"
| "encode_control (ControlMusicEffect e) = [0x7e, 5, 3, 0x80 + e, 4, 0xff, 0xff, 0, 0xef]"
| "encode_control (ControlMicrophone on) = [0x7e, 4, 7, of_bool on, 0xff, 0xff, 0xff, 0, 0xef]"
| "encode_control (ControlSensitivity v) = [0x7e, 4, 6, v, 0xff, 0xff, 0xff, 0, 0xef]"
| "encode_control (ControlSchedule s) =
     [0x7e, 0, 0x82, schedule_hour s, schedule_minute s, 0,
      (case schedule_power s of PowerOn \<Rightarrow> 0 | PowerOff \<Rightarrow> 1),
      schedule_days s OR push_bit 7 (of_bool (schedule_enabled s)), 0xef]"
| "encode_control (ControlClock c) =
     [0x7e, 0, 0x83, clock_hour c, clock_minute c, clock_second c, clock_weekday c, 0, 0xef]"

text \<open>A transport action of this profile is always a write.\<close>

record TransportWrite =
  write_channel :: u128
  write_bytes :: "u8 list"
  write_mode :: WriteMode

definition melk_write_bytes :: "u8 list \<Rightarrow> TransportWrite" where
  "melk_write_bytes bytes = \<lparr>write_channel = policy_channel write_policy, write_bytes = bytes,
     write_mode = policy_mode write_policy\<rparr>"

definition control_action :: "MelkControl \<Rightarrow> TransportWrite" where
  "control_action c = melk_write_bytes (encode_control c)"

definition write_action :: "RgbLightingCommand \<Rightarrow> TransportWrite" where
  "write_action c = melk_write_bytes (melk_encode c)"

definition plan_state :: "RgbLightingRequestedState \<Rightarrow> TransportWrite list" where
  "plan_state s =
     [write_action (SetPower (requested_power s))]
     @ (case requested_playback s of
          PlaybackSolid \<Rightarrow> [write_action (SetSolidColor (requested_color s))]
        | PlaybackEffect pattern speed \<Rightarrow>
            [control_action (ControlPattern pattern), control_action (ControlSpeed speed)]
        | PlaybackMusic effect sensitivity \<Rightarrow>
            [control_action (ControlSensitivity sensitivity), control_action (ControlMusicEffect effect),
             control_action (ControlMicrophone True)])
     @ [write_action (SetBrightness (requested_brightness s))]
     @ (if requested_power s = PowerOff then [write_action (SetPower PowerOff)] else [])"

definition initialization_actions :: "TransportWrite list" where
  "initialization_actions = [melk_write_bytes [0x7e, 0x07, 0x83], melk_write_bytes [0x7e, 0x04, 0x04]]"

section \<open>Application writes\<close>

datatype LightingWriteMode = LightingWithoutResponse

record LightingWrite =
  lw_characteristic :: u128
  lw_payload :: "u8 list"
  lw_mode :: LightingWriteMode
  lw_confirmation :: u128
  lw_interval_ms :: "u16 option"

definition transport_action :: "TransportWrite \<Rightarrow> LightingWrite" where
  "transport_action a = \<lparr>lw_characteristic = write_channel a, lw_payload = write_bytes a,
     lw_mode = LightingWithoutResponse, lw_confirmation = confirmation_channel write_policy,
     lw_interval_ms = policy_interval_ms write_policy\<rparr>"

definition is_coalescible_color_write :: "LightingWrite \<Rightarrow> bool" where
  "is_coalescible_color_write w \<longleftrightarrow>
     lw_confirmation w = confirmation_channel write_policy
     \<and> lw_characteristic w = policy_channel write_policy
     \<and> length (lw_payload w) = 9
     \<and> lw_payload w ! 0 = 0x7e \<and> lw_payload w ! 1 = 0 \<and> lw_payload w ! 2 = 5 \<and> lw_payload w ! 3 = 3
     \<and> lw_payload w ! 8 = 0xef"

section \<open>The pattern catalogue\<close>

definition MELK_PATTERN_NAMES :: "string list" where
  "MELK_PATTERN_NAMES = [
     ''Auto Play'', ''Magic Forward'', ''Magic Back'', ''7-Color Trans'', ''7-Color Trans Back'',
     ''R-G-B Trans'', ''R-G-B Trans Back'', ''Y-C-P Trans'', ''Y-C-P Trans Back'',
     ''6-Color to Red'', ''6-Color to Red Back'', ''6-Color to Green'', ''6-Color to Green Back'',
     ''6-Color to Blue'', ''6-Color to Blue Back'', ''6-Color to Cyan'', ''6-Color to Cyan Back'',
     ''6-Color to Yellow'', ''6-Color to Yellow Back'', ''6-Color to Purple'',
     ''6-Color to Purple Back'', ''6-Color to White'', ''6-Color to White Back'', ''7-Color Tail'',
     ''7-Color Tail Back'', ''Red Tail'', ''Red Tail Back'', ''Green Tail'', ''Green Tail Back'',
     ''Blue Tail'', ''Blue Tail Back'', ''Yellow Tail'', ''Yellow Tail Back'', ''Cyan Tail'',
     ''Cyan Tail Back'', ''Purple Tail'', ''Purple Tail Back'', ''White Tail'',
     ''White Tail Back'', ''7-Color Water'', ''7-Color Water Back'', ''R-G-B Water'',
     ''R-G-B Water Back'', ''Y-C-P Water'', ''Y-C-P Water Back'', ''R-G Water'',
     ''R-G Water Back'', ''G-B Water'', ''G-B Water Back'', ''Y-B Water'', ''Y-B Water Back'',
     ''Y-C Water'', ''Y-C Water Back'', ''C-P Water'', ''C-P Water Back'', ''White Water'',
     ''White Water Back'', ''7-Color Close'', ''7-Color Open'', ''R-G-B Close'', ''R-G-B Open'',
     ''Y-C-P Close'', ''Y-C-P Open'', ''Red Close'', ''Red Open'', ''Green Close'', ''Green Open'',
     ''Blue Close'', ''Blue Open'', ''Yellow Close'', ''Yellow Open'', ''Cyan Close'',
     ''Cyan Open'', ''Purple Close'', ''Purple Open'', ''White Close'', ''White Open'',
     ''7-Color Race'', ''7-Color Race Back'', ''R-G-B Race'', ''R-G-B Race Back'', ''Y-C-P Race'',
     ''Y-C-P Race Back'', ''7-Color Wave'', ''7-Color Wave Back'', ''R-G-B Wave'',
     ''R-G-B Wave Back'', ''Y-C-P Wave'', ''Y-C-P Wave Back'', ''Red Running'', ''Red Run Back'',
     ''Green Running'', ''Green Run Back'', ''Blue Running'', ''Blue Run Back'',
     ''Yellow Running'', ''Yellow Run Back'', ''Cyan Running'', ''Cyan Run Back'',
     ''Purple Running'', ''Purple Run Back'', ''White Running'', ''White Run Back'',
     ''7-Color Running'', ''7-Color Run Back'', ''R-G-B Running'', ''R-G-B Run Back'',
     ''Y-C-P Running'', ''Y-C-P Run Back'', ''B-P-C-Y Running'', ''B-P-C-Y Run Back'',
     ''B-G-C-Y Running'', ''B-G-C-Y Run Back'', ''Red-Dot in White Running'',
     ''Red-Dot in White Run Back'', ''Green-Dot in Red Running'', ''Green-Dot in Red Run Back'',
     ''Blue-Dot in Green Running'', ''Blue-Dot in Green Run Back'', ''Yellow-Dot in Blue Running'',
     ''Yellow-Dot in Blue Run Back'', ''Cyan-Dot in Yellow Running'',
     ''Cyan-Dot in Yellow Run Back'', ''Purple-Dot in Cyan Running'',
     ''Purple-Dot in Cyan Run Back'', ''White-Dot in Purple Running'',
     ''White-Dot in Purple Run Back'', ''White-Dot in Red Running'', ''White-Dot in Red Run Back'',
     ''7-Color in Red Running'', ''7-Color in Red Run Back'', ''7-Color in Green Running'',
     ''7-Color in Green Run Back'', ''7-Color in Blue Running'', ''7-Color in Blue Run Back'',
     ''7-Color in Yellow Running'', ''7-Color in Yellow Run Back'', ''7-Color in Cyan Running'',
     ''7-Color in Cyan Run Back'', ''7-Color in Purple Running'', ''7-Color in Purple Run Back'',
     ''7-Color in White Running'', ''7-Color in White Run Back'', ''W-R-W Flow'',
     ''W-R-W Flow Back'', ''W-G-W Flow'', ''W-G-W Flow Back'', ''W-B-W Flow'', ''W-B-W Flow Back'',
     ''W-Y-W Flow'', ''W-Y-W Flow Back'', ''W-C-W Flow'', ''W-C-W Flow Back'', ''W-P-W Flow'',
     ''W-P-W Flow Back'', ''R-W-R Flow'', ''R-W-R Flow Back'', ''G-W-G Flow'', ''G-W-G Flow Back'',
     ''B-W-B Flow'', ''B-W-B Flow Back'', ''Y-W-Y Flow'', ''Y-W-Y Flow Back'', ''C-W-C Flow'',
     ''C-W-C Flow Back'', ''P-W-P Flow'', ''P-W-P Flow Back'', ''Green-Dot in Blue Running'',
     ''Green-Dot in Blue Run Back'', ''Green-Dot in Red Running'', ''Green-Dot in Red Run Back'',
     ''Red-Dot in Blue Running'', ''Red-Dot in Blue Run Back'', ''Cyan-Dot in Yellow Running'',
     ''Cyan-Dot in Yellow Run Back'', ''Yellow-Dot in Purple Running'',
     ''Yellow-Dot in Purple Run Back'', ''White-Dot in Yellow Running'',
     ''White-Dot in Yellow Run Back'', ''Yellow-Dot in White Running'',
     ''Yellow-Dot in White Run Back'', ''7-Color Flush'', ''7-Color Flush Back'', ''R-G-B Flush'',
     ''R-G-B Flush Back'', ''Y-C-P Flush'', ''Y-C-P Flush Back'', ''7-Color Flush Close'',
     ''7-Color Flush Open'', ''R-G-B Flush Close'', ''R-G-B Flush Open'', ''Y-C-P Flush Close'',
     ''Y-C-P Flush Open'', ''7-Color Jump'', ''R-G-B Jump'', ''Y-C-P Jump'', ''7-Color Strobe'',
     ''R-G-B Strobe'', ''Y-C-P Strobe'', ''7-Color Gradual'', ''R-Y Gradual'', ''R-P Gradual'',
     ''G-C Gradual'', ''G-Y Gradual'', ''B-P Gradual'', ''Red Marquee'', ''Green Marquee'',
     ''Blue Marquee'', ''Yellow Marquee'', ''Cyan Marquee'', ''Purple Marquee'', ''White Marquee'',
     ''7-Color Energy'', ''Fade 73'', ''Fade 74'', ''Fade 75'', ''Fade 76'', ''Fade 77'',
     ''Fade 78'', ''Fade Bar'', ''Music Flow Flash'', ''Music Flash'', ''Music Rainbow'',
     ''Music Snake'', ''Music Rainbow 2'', ''Music Pulse'', ''Music Flow'', ''Music Pulse 2'']"

definition BASIC_EFFECT_IDS :: "u8 list" where
  "BASIC_EFFECT_IDS = [1, 2, 212, 193, 194, 195, 196, 197, 198, 199, 200, 201, 202, 203, 204, 205, 206, 207,
     208, 209, 210, 211, 77, 78, 79, 80, 81, 82, 83, 84, 85, 86, 87, 88, 181, 182, 183, 184,
     185, 186, 187, 188, 189, 190, 191, 192]"

definition CURTAIN_EFFECT_IDS :: "u8 list" where
  "CURTAIN_EFFECT_IDS = [57, 58, 59, 60, 61, 62, 63, 64, 65, 66, 67, 68, 69, 70, 71, 72, 73, 74, 75, 76]"

definition TRANS_EFFECT_IDS :: "u8 list" where
  "TRANS_EFFECT_IDS = [3, 4, 5, 6, 7, 8, 9, 10, 11, 12, 13, 14, 15, 16, 17, 18, 19, 20, 21, 22]"

definition WATER_EFFECT_IDS :: "u8 list" where
  "WATER_EFFECT_IDS = [39, 40, 41, 42, 43, 44, 45, 46, 47, 48, 49, 50, 51, 52, 53, 54, 55, 56]"

definition FLOW_EFFECT_IDS :: "u8 list" where
  "FLOW_EFFECT_IDS = [143, 144, 145, 146, 147, 148, 149, 150, 151, 152, 153, 154, 155, 156, 157, 158, 159,
     160, 161, 162, 163, 164, 165, 166]"

definition TAIL_EFFECT_IDS :: "u8 list" where
  "TAIL_EFFECT_IDS = [23, 24, 25, 26, 27, 28, 29, 30, 31, 32, 33, 34, 35, 36, 37, 38]"

definition RUN_EFFECT_IDS :: "u8 list" where
  "RUN_EFFECT_IDS = [89, 91, 93, 95, 97, 99, 101, 103, 105, 107, 109, 111, 113, 115, 117, 119, 121, 123,
     125, 127, 129, 131, 133, 135, 137, 139, 141, 167, 169, 171, 173, 175, 177, 179]"

definition RUN_BACK_EFFECT_IDS :: "u8 list" where
  "RUN_BACK_EFFECT_IDS = [90, 92, 94, 96, 98, 100, 102, 104, 106, 108, 110, 112, 114, 116, 118, 120, 122, 124,
     126, 128, 130, 132, 134, 136, 138, 140, 142, 168, 170, 172, 174, 176, 178, 180]"

definition UNMAPPED_EFFECT_IDS :: "u8 list" where
  "UNMAPPED_EFFECT_IDS = [0, 213, 214, 215, 216, 217, 218, 219, 220, 221, 222, 223, 224, 225, 226, 227]"

record MelkLightingEffectGroup =
  group_name :: string
  group_ids :: "u8 list"

definition MELK_EFFECT_GROUPS :: "MelkLightingEffectGroup list" where
  "MELK_EFFECT_GROUPS =
     [\<lparr>group_name = ''Basic'', group_ids = BASIC_EFFECT_IDS\<rparr>,
      \<lparr>group_name = ''Curtain'', group_ids = CURTAIN_EFFECT_IDS\<rparr>,
      \<lparr>group_name = ''Trans'', group_ids = TRANS_EFFECT_IDS\<rparr>,
      \<lparr>group_name = ''Water'', group_ids = WATER_EFFECT_IDS\<rparr>,
      \<lparr>group_name = ''Flow'', group_ids = FLOW_EFFECT_IDS\<rparr>,
      \<lparr>group_name = ''Tail'', group_ids = TAIL_EFFECT_IDS\<rparr>,
      \<lparr>group_name = ''Run'', group_ids = RUN_EFFECT_IDS\<rparr>,
      \<lparr>group_name = ''Run Back'', group_ids = RUN_BACK_EFFECT_IDS\<rparr>,
      \<lparr>group_name = ''Unmapped'', group_ids = UNMAPPED_EFFECT_IDS\<rparr>]"

definition pattern_group :: "u8 \<Rightarrow> string" where
  "pattern_group i =
     (case find (\<lambda>g. i \<in> set (group_ids g)) MELK_EFFECT_GROUPS of
        None \<Rightarrow> ''Unmapped'' | Some g \<Rightarrow> group_name g)"

record MelkPatternDescriptor =
  pattern_id :: u8
  pattern_name :: string
  pattern_group_name :: string

definition pattern_catalog :: "MelkPatternDescriptor list" where
  "pattern_catalog =
     map (\<lambda>(i, name). \<lparr>pattern_id = i, pattern_name = name, pattern_group_name = pattern_group i\<rparr>)
       (zip (map of_nat [0..<228]) MELK_PATTERN_NAMES)"

record MelkLightingEffectFixture =
  fixture_id :: u8
  fixture_frame :: "u8 list"

definition candidate_fixture :: "u8 \<Rightarrow> MelkLightingEffectFixture" where
  "candidate_fixture i = \<lparr>fixture_id = i, fixture_frame = [0x7e, 0x05, 0x03, i, 0x06, 0xff, 0xff, 0x00, 0xef]\<rparr>"

definition MELK_OC21_EFFECT_FIXTURES :: "MelkLightingEffectFixture list" where
  "MELK_OC21_EFFECT_FIXTURES = map candidate_fixture [1, 2, 3, 4, 5, 6, 7, 8, 9, 10, 16, 22, 75]"

record MelkLightingCapabilities =
  verified_effect_ids :: "u8 list"
  controller_microphone :: bool
  cap_schedules :: bool
  addressable_zones :: bool
  cap_scenes :: bool

definition melk_oc21 :: MelkLightingCapabilities where
  "melk_oc21 = \<lparr>verified_effect_ids = [1, 2, 3, 4, 5, 6, 7, 8, 9, 10, 16, 22, 75],
     controller_microphone = False, cap_schedules = False, addressable_zones = False, cap_scenes = False\<rparr>"

definition supports_effect :: "MelkLightingCapabilities \<Rightarrow> u8 \<Rightarrow> bool" where
  "supports_effect cap i \<longleftrightarrow> i \<in> set (verified_effect_ids cap)
     \<and> (\<exists>x \<in> set MELK_OC21_EFFECT_FIXTURES. fixture_id x = i)"

section \<open>Frames identify commands\<close>

datatype MelkCommand = Basic RgbLightingCommand | Control MelkControl

fun melk_frame :: "MelkCommand \<Rightarrow> u8 list" where
  "melk_frame (Basic c) = melk_encode c"
| "melk_frame (Control c) = encode_control c"

text \<open>The values the constructors of the bounded settings let through.\<close>

fun command_valid :: "MelkCommand \<Rightarrow> bool" where
  "command_valid (Basic (SetBrightness b)) = (b \<le> 100)"
| "command_valid (Control (ControlPattern p)) = (p \<le> 227)"
| "command_valid (Control (ControlMusicEffect e)) = (e \<le> 7)"
| "command_valid (Control (ControlSensitivity v)) = (v \<le> 100)"
| "command_valid (Control (ControlSchedule s)) = (schedule_hour s \<le> 23 \<and> schedule_minute s \<le> 59 \<and> schedule_days s \<le> 127)"
| "command_valid (Control (ControlClock c)) = (clock_hour c \<le> 23 \<and> clock_minute c \<le> 59 \<and> clock_second c \<le> 59
     \<and> 1 \<le> clock_weekday c \<and> clock_weekday c \<le> 7)"
| "command_valid _ = True"

text \<open>What a controller that knows the command set reads off a frame.\<close>

fun melk_read :: "u8 list \<Rightarrow> MelkCommand option" where
  "melk_read [h, a, b, c, d, e, f, g, t] =
     (if h \<noteq> 0x7e \<or> t \<noteq> 0xef then None
      else if a = 0 \<and> b = 4 then Some (Basic (SetPower (if c = 1 then PowerOn else PowerOff)))
      else if a = 0 \<and> b = 5 then Some (Basic (SetSolidColor \<lparr>red = d, green = e, blue = f\<rparr>))
      else if a = 4 \<and> b = 1 then Some (Basic (SetBrightness c))
      else if a = 5 \<and> b = 3 then Some (Control (if d = 6 then ControlPattern c else ControlMusicEffect (c - 0x80)))
      else if a = 4 \<and> b = 2 then Some (Control (ControlSpeed c))
      else if a = 4 \<and> b = 7 then Some (Control (ControlMicrophone (c = 1)))
      else if a = 4 \<and> b = 6 then Some (Control (ControlSensitivity c))
      else if a = 0 \<and> b = 0x82 then
        Some (Control (ControlSchedule \<lparr>schedule_power = (if f = 0 then PowerOn else PowerOff), schedule_hour = c,
          schedule_minute = d, schedule_days = g AND 0x7f, schedule_enabled = bit g 7\<rparr>))
      else if a = 0 \<and> b = 0x83 then
        Some (Control (ControlClock \<lparr>clock_hour = c, clock_minute = d, clock_second = e, clock_weekday = f\<rparr>))
      else None)"
| "melk_read _ = None"

lemma schedule_days_bits:
  assumes "(days :: u8) \<le> 127"
  shows "(days OR push_bit 7 (of_bool on)) AND 127 = days" "bit (days OR push_bit 7 (of_bool on)) 7 = on"
proof -
  have low: "\<not> bit days n" if "7 \<le> n" for n
  proof -
    have "unat days < 2 ^ 7"
      using assms by (simp add: word_le_nat_alt)
    then have "days = take_bit 7 days"
      by (simp add: word_unat_eq_iff unsigned_take_bit_eq take_bit_nat_eq_self)
    then show ?thesis
      using that by (metis bit_take_bit_iff not_le)
  qed
  have mask: "(127 :: u8) = mask 7"
    by (simp add: mask_eq_exp_minus_1)
  show "(days OR push_bit 7 (of_bool on)) AND 127 = days"
    unfolding mask by (rule bit_word_eqI) (use low leI in \<open>auto simp: bit_simps\<close>)
  show "bit (days OR push_bit 7 (of_bool on)) 7 = on"
    by (simp add: bit_simps low)
qed

text \<open>
  No two commands share a frame: from the frame sent for a command whose settings passed their
  bounds, that command and no other can be read back, over basic commands, patterns, microphone
  modes, schedules with their weekday mask and enable bit, and the clock.
\<close>

lemma melk_frame_roundtrip:
  assumes "command_valid cmd"
  shows "melk_read (melk_frame cmd) = Some cmd \<and> length (melk_frame cmd) = MELK_FRAME_LEN"
proof (cases cmd)
  case (Basic c)
  then show ?thesis
    by (cases c rule: melk_encode.cases) (simp_all add: MELK_FRAME_LEN_def)
next
  case (Control c)
  show ?thesis
  proof (cases c)
    case (ControlSchedule s)
    then show ?thesis
      using assms schedule_days_bits [of "schedule_days s" "schedule_enabled s"]
      by (cases "schedule_power s") (auto simp: Control MELK_FRAME_LEN_def)
  qed (auto simp: Control MELK_FRAME_LEN_def)
qed

lemma melk_frame_roundtrip_example:
  "let cmd = Control (ControlSchedule \<lparr>schedule_power = PowerOff, schedule_hour = 22, schedule_minute = 30,
      schedule_days = 0x55, schedule_enabled = True\<rparr>) in
   command_valid cmd \<and> melk_read (melk_frame cmd) = Some cmd \<and> melk_frame cmd ! 7 = 0xd5"
  using melk_frame_roundtrip [of "Control (ControlSchedule \<lparr>schedule_power = PowerOff, schedule_hour = 22,
      schedule_minute = 30, schedule_days = 0x55, schedule_enabled = True\<rparr>)"]
  by (simp add: Let_def)

lemma coalescible_iff_solid:
  "is_coalescible_color_write (transport_action (melk_write_bytes (melk_frame cmd)))
     \<longleftrightarrow> (\<exists>c. cmd = Basic (SetSolidColor c))"
proof (cases cmd)
  case (Basic c)
  then show ?thesis
    by (cases c rule: melk_encode.cases)
      (simp_all add: is_coalescible_color_write_def transport_action_def melk_write_bytes_def write_policy_def)
next
  case (Control c)
  then show ?thesis
    by (cases c) (simp_all add: is_coalescible_color_write_def transport_action_def melk_write_bytes_def write_policy_def)
qed

section \<open>The catalogue\<close>

lemma fixtures_are_pattern_frames:
  "x \<in> set MELK_OC21_EFFECT_FIXTURES \<Longrightarrow> fixture_frame x = encode_control (ControlPattern (fixture_id x))"
  by (auto simp: MELK_OC21_EFFECT_FIXTURES_def candidate_fixture_def)

lemma verified_effects_supported: "i \<in> set (verified_effect_ids melk_oc21) \<longleftrightarrow> supports_effect melk_oc21 i"
  by (auto simp: supports_effect_def melk_oc21_def MELK_OC21_EFFECT_FIXTURES_def candidate_fixture_def)

text \<open>The group tables, read as integers and sorted, are the catalogue's identifiers.\<close>

lemma groups_sorted: "sort (map uint (concat (map group_ids MELK_EFFECT_GROUPS))) = [0..227]"
  by code_simp

lemma groups_distinct: "distinct (concat (map group_ids MELK_EFFECT_GROUPS))"
proof -
  have "distinct (sort (map uint (concat (map group_ids MELK_EFFECT_GROUPS))))"
    unfolding groups_sorted by simp
  then show ?thesis
    by (simp only: distinct_sort distinct_map)
qed

lemma groups_cover: "i \<in> set (concat (map group_ids MELK_EFFECT_GROUPS)) \<longleftrightarrow> i \<le> 227"
proof -
  let ?ids = "concat (map group_ids MELK_EFFECT_GROUPS)"
  have eq: "uint ` set ?ids = {0..227}"
    using arg_cong [OF groups_sorted, of set] by (simp only: set_sort set_map set_upto)
  have "i \<in> set ?ids \<longleftrightarrow> uint i \<in> uint ` set ?ids"
    by (metis (no_types, lifting) imageE imageI word_uint_eqI)
  also have "\<dots> \<longleftrightarrow> i \<le> 227"
    unfolding eq by (simp add: word_le_def)
  finally show ?thesis .
qed

lemma distinct_concat_unique:
  "distinct (concat (map f gs)) \<Longrightarrow> g \<in> set gs \<Longrightarrow> h \<in> set gs \<Longrightarrow> x \<in> set (f g) \<Longrightarrow> x \<in> set (f h) \<Longrightarrow> g = h"
  by (induction gs) auto

lemma pattern_group_of:
  assumes "i \<le> 227"
  shows "\<exists>g \<in> set MELK_EFFECT_GROUPS. i \<in> set (group_ids g) \<and> pattern_group i = group_name g"
proof -
  obtain h where "h \<in> set MELK_EFFECT_GROUPS" "i \<in> set (group_ids h)"
    using groups_cover [of i] assms by (simp only: set_concat set_map) blast
  then obtain g where g: "find (\<lambda>g. i \<in> set (group_ids g)) MELK_EFFECT_GROUPS = Some g"
    by (metis find_None_iff option.exhaust)
  then have "g \<in> set MELK_EFFECT_GROUPS" "i \<in> set (group_ids g)"
    unfolding find_Some_iff by (metis nth_mem)+
  then show ?thesis
    by (intro bexI [of _ g]) (simp_all add: pattern_group_def g)
qed

lemma catalog_ids: "map pattern_id pattern_catalog = map of_nat [0..<228]"
proof -
  have "length MELK_PATTERN_NAMES = 228"
    by (simp add: MELK_PATTERN_NAMES_def)
  then show ?thesis
    by (intro nth_equalityI) (simp_all add: pattern_catalog_def)
qed

lemma catalog_id_set: "pattern_id ` set pattern_catalog = {i. i \<le> 227}"
proof -
  have "pattern_id ` set pattern_catalog = of_nat ` {0..<228}"
    using arg_cong [OF catalog_ids, of set] by (simp only: set_map set_upt)
  also have "\<dots> = {i. i \<le> 227}"
  proof (intro equalityI subsetI)
    fix i :: u8 assume "i \<in> {i. i \<le> 227}"
    then have "unat i < 228"
      by (simp add: word_le_nat_alt)
    then show "i \<in> of_nat ` {0..<228}"
      by (intro image_eqI [of _ _ "unat i"]) simp_all
  qed (auto simp: word_le_nat_alt unat_of_nat)
  finally show ?thesis .
qed

lemma catalog_entry_group: "d \<in> set pattern_catalog \<Longrightarrow> pattern_group_name d = pattern_group (pattern_id d)"
  by (auto simp: pattern_catalog_def)

text \<open>
  The catalogue is the command's domain: it lists exactly the identifiers that a pattern
  command admits, 0 to 227, once each and in order, and each of them belongs to exactly one group,
  whose name its entry carries.
\<close>

lemma melk_catalog_complete:
  "map pattern_id pattern_catalog = map of_nat [0..<228]
   \<and> (\<forall>i. melk_pattern_try_from i = Inr i \<longleftrightarrow> i \<in> pattern_id ` set pattern_catalog)
   \<and> (\<forall>i. i \<in> pattern_id ` set pattern_catalog \<longleftrightarrow> (\<exists>!g. g \<in> set MELK_EFFECT_GROUPS \<and> i \<in> set (group_ids g)))
   \<and> list_all (\<lambda>d. \<exists>g. g \<in> set MELK_EFFECT_GROUPS
        \<and> pattern_id d \<in> set (group_ids g) \<and> pattern_group_name d = group_name g) pattern_catalog"
proof (intro conjI allI)
  fix i :: u8
  show "melk_pattern_try_from i = Inr i \<longleftrightarrow> i \<in> pattern_id ` set pattern_catalog"
    by (simp add: melk_pattern_try_from_def catalog_id_set)
  have "i \<le> 227 \<longleftrightarrow> (\<exists>g \<in> set MELK_EFFECT_GROUPS. i \<in> set (group_ids g))"
    using groups_cover [of i] by (simp only: set_concat set_map) blast
  then show "i \<in> pattern_id ` set pattern_catalog \<longleftrightarrow> (\<exists>!g. g \<in> set MELK_EFFECT_GROUPS \<and> i \<in> set (group_ids g))"
    using distinct_concat_unique [OF groups_distinct] unfolding catalog_id_set by blast
next
  show "list_all (\<lambda>d. \<exists>g. g \<in> set MELK_EFFECT_GROUPS
      \<and> pattern_id d \<in> set (group_ids g) \<and> pattern_group_name d = group_name g) pattern_catalog"
    unfolding list_all_iff
  proof
    fix d assume d: "d \<in> set pattern_catalog"
    then have "pattern_id d \<le> 227"
      using catalog_id_set by blast
    from pattern_group_of [OF this]
    show "\<exists>g. g \<in> set MELK_EFFECT_GROUPS \<and> pattern_id d \<in> set (group_ids g) \<and> pattern_group_name d = group_name g"
      unfolding catalog_entry_group [OF d] by blast
  qed
qed (rule catalog_ids)

end
