(* ===== verification/Melk_Session.thy ===== *)
theory Melk_Session
  imports Melk_Lighting Ordered_Map Interfaces "HOL-Library.FSet"
begin

text \<open>
  The session reducer of the standalone MELK lighting accessory
  (\<^verbatim>\<open>cutout-application/src/lighting/melk/session/\<close>): the platform adapter reports Bluetooth facts
  and performs the actions the reducer queues.  The reducer scans, probes unknown candidates one
  at a time, connects, verifies the GATT roles, subscribes, sends the initialization frames and
  then paces user writes.  \<open>Uuid::parse_str\<close> of the uuid crate is the parameter \<open>parse\<close>.  Every text
  the reducer builds for a person to read (failure reasons, diagnostic records) is a constructor
  of \<open>melk_text\<close> holding the values that are interpolated into it.
\<close>

section \<open>Contract\<close>

datatype melk_text =
    PlatformText rust_str
  | InvalidIdentityText
  | BluetoothUnavailableText int
  | ReconnectExhaustedText
  | MissingServiceText
  | MissingWriteText
  | MissingNotifyText
  | NotifyUnavailableText
  | ProbeRejectedText melk_text
  | CandidateRejectedText melk_text
  | SelectedText rust_str
  | ReconnectExhaustedRecord melk_text
  | ReconnectAttemptText u8 u64 melk_text
  | ConnectTimeoutExhaustedText
  | ConnectTimeoutText
  | NotifyStateText
  | RequestedText "u8 list"
  | ScanRefusedText
  | ScanText
  | CandidateText "rust_str option" rust_str int
  | RestoreIgnoredText
  | RestoreText rust_str
  | GattMissingServiceText
  | GattText
  | GattTimeoutText
  | DisconnectedText melk_text

datatype LightingSessionState =
    MelkIdle
  | MelkScanning
  | MelkConnecting
  | MelkRetrying u8 u64
  | MelkDiscovering
  | MelkReady
  | MelkDisconnected
  | MelkFailed melk_text

datatype LightingTimer = ConnectionAttempt | Discovery | Reconnect | Initialization | WriteDrain

record LightingCharacteristicEvidence =
  ce_uuid :: u128
  write_without_response :: bool
  notify_or_indicate :: bool

datatype LightingSessionEvent =
    EvResume
  | EvBluetoothState bool int
  | EvDiscovered "rust_str option" rust_str int
  | EvRestored "rust_str option" rust_str bool bool
  | EvRestoreUnavailable
  | EvConnected "rust_str option" rust_str
  | EvConnectFailed rust_str
  | EvConnectTimeout
  | EvServicesDiscovered "u128 list" "rust_str option"
  | EvCharacteristicsDiscovered "rust_str option" u128 "LightingCharacteristicEvidence list" "rust_str option"
  | EvNotificationState u128 bool bool "rust_str option"
  | EvNotification u128 "u8 list"
  | EvWriteReady bool
  | EvTimerFired LightingTimer bool
  | EvDisconnected rust_str bool

datatype LightingSessionAction =
    ActRestartTransport
  | ActScan
  | ActStopScan
  | ActRestorePeripheral rust_str
  | ActConnect rust_str
  | ActCancelConnect rust_str
  | ActDiscoverServices rust_str u128
  | ActDiscoverCharacteristics rust_str u128
  | ActSubscribe rust_str u128
  | ActWrite rust_str LightingWrite
  | ActArmTimer LightingTimer u64

record LightingSessionCandidate =
  cand_identifier :: rust_str
  cand_name :: "rust_str option"
  cand_rssi :: int

record LightingSessionSnapshot =
  lsnap_state :: LightingSessionState
  lsnap_identifier :: "rust_str option"
  lsnap_name :: "rust_str option"
  lsnap_command_status :: u8
  lsnap_notification_ready :: bool

section \<open>State\<close>

definition MAX_CANDIDATES :: nat where "MAX_CANDIDATES = 32"
definition CONNECTION_TIMEOUT_MS :: u64 where "CONNECTION_TIMEOUT_MS = 15000"
definition PROBE_TIMEOUT_MS :: u64 where "PROBE_TIMEOUT_MS = 3000"
definition INITIALIZATION_DELAY_MS :: u64 where "INITIALIZATION_DELAY_MS = 1000"
definition MAX_RECONNECT_ATTEMPTS :: u8 where "MAX_RECONNECT_ATTEMPTS = 3"
definition FALLBACK_WRITE_INTERVAL_MS :: u16 where "FALLBACK_WRITE_INTERVAL_MS = 50"

datatype GattState = GattUnverified | GattVerified | GattSubscribed
datatype ConnectionPurpose = PurposeProbe | PurposeSelected
datatype ProbeOutcome = ProbeSupported | ProbeUnsupported | ProbeUnavailable
datatype RestoredConnection = RestoredConnected | RestoredPending | RestoredDisconnected

record SessionReducer =
  sr_state :: LightingSessionState
  preferred_identifier :: "rust_str option"
  invalid_preferred_identifier :: bool
  selected_identifier :: "rust_str option"
  selected_name :: "rust_str option"
  candidates :: "(rust_str, LightingSessionCandidate) fmap"
  purpose :: ConnectionPurpose
  verified :: "rust_str fset"
  rejected :: "rust_str fset"
  probe_queue :: "rust_str list"
  reconnect_enabled :: bool
  reconnect_attempt :: u8
  bluetooth_powered_on :: bool
  pending_restoration :: "RestoredConnection option"
  gatt :: GattState
  initialization :: "LightingWrite list"
  writes :: "LightingWrite list"
  sr_timer :: "LightingTimer option"
  command_status_code :: u8
  actions :: "LightingSessionAction list"
  text_records :: "melk_text list"
  notifications :: "u8 list list"
  candidates_out :: "LightingSessionCandidate list"
  candidate_removals_out :: "rust_str list"

definition reducer_default :: SessionReducer where
  "reducer_default =
     \<lparr>sr_state = MelkIdle, preferred_identifier = None, invalid_preferred_identifier = False,
      selected_identifier = None, selected_name = None, candidates = fmempty, purpose = PurposeSelected,
      verified = {||}, rejected = {||}, probe_queue = [], reconnect_enabled = True, reconnect_attempt = 0,
      bluetooth_powered_on = False, pending_restoration = None, gatt = GattUnverified, initialization = [],
      writes = [], sr_timer = None, command_status_code = 0, actions = [], text_records = [],
      notifications = [], candidates_out = [], candidate_removals_out = []\<rparr>"

section \<open>Helpers\<close>

definition push_action :: "LightingSessionAction \<Rightarrow> SessionReducer \<Rightarrow> SessionReducer" where
  "push_action a s = s\<lparr>actions := actions s @ [a]\<rparr>"

definition melk_record :: "melk_text \<Rightarrow> SessionReducer \<Rightarrow> SessionReducer" where
  "melk_record t s = s\<lparr>text_records := text_records s @ [t]\<rparr>"

definition reset_initialization :: "SessionReducer \<Rightarrow> SessionReducer" where
  "reset_initialization s =
     (let s1 = s\<lparr>initialization := [], gatt := GattUnverified\<rparr>
      in if sr_timer s1 = Some Initialization then s1\<lparr>sr_timer := None\<rparr> else s1)"

definition melk_transition :: "LightingSessionState \<Rightarrow> SessionReducer \<Rightarrow> SessionReducer" where
  "melk_transition st s =
     (if st = MelkReady
      then let s1 = s\<lparr>reconnect_attempt := 0\<rparr>
           in (if preferred_identifier s1 = None then s1\<lparr>preferred_identifier := selected_identifier s1\<rparr> else s1)
              \<lparr>sr_state := st\<rparr>
      else let s1 = s\<lparr>sr_timer := None\<rparr>;
               s2 = (if command_status_code s1 = 1 then s1\<lparr>command_status_code := 3\<rparr> else s1)
           in (reset_initialization (s2\<lparr>writes := []\<rparr>))\<lparr>sr_state := st\<rparr>)"

definition forget_selected_connection :: "SessionReducer \<Rightarrow> SessionReducer" where
  "forget_selected_connection s = s\<lparr>sr_timer := None, pending_restoration := None, purpose := PurposeSelected,
     probe_queue := [], selected_identifier := None, selected_name := None\<rparr>"

definition melk_accepts :: "(rust_str \<Rightarrow> u128 option) \<Rightarrow> SessionReducer \<Rightarrow> rust_str \<Rightarrow> bool" where
  "melk_accepts parse s i =
     (case parse i of None \<Rightarrow> False
      | Some u \<Rightarrow> \<not> invalid_preferred_identifier s
          \<and> is_none_or (preferred_identifier s) (\<lambda>p. parse p = Some u))"

definition is_probing :: "SessionReducer \<Rightarrow> bool" where
  "is_probing s \<longleftrightarrow> purpose s = PurposeProbe"

definition melk_arm :: "LightingTimer \<Rightarrow> u64 \<Rightarrow> SessionReducer \<Rightarrow> SessionReducer" where
  "melk_arm t d s = push_action (ActArmTimer t d) (s\<lparr>sr_timer := Some t\<rparr>)"

text \<open>The loop of \<open>probe_next\<close>: entries that are no longer candidates are dropped from the queue.\<close>

fun probe_pop :: "(rust_str, LightingSessionCandidate) fmap \<Rightarrow> rust_str list
    \<Rightarrow> (rust_str \<times> LightingSessionCandidate) option \<times> rust_str list" where
  "probe_pop cands [] = (None, [])"
| "probe_pop cands (i # queue) =
     (case fmlookup cands i of None \<Rightarrow> probe_pop cands queue | Some c \<Rightarrow> (Some (i, c), queue))"

definition probe_next :: "SessionReducer \<Rightarrow> SessionReducer" where
  "probe_next s =
     (if selected_identifier s \<noteq> None \<or> \<not> bluetooth_powered_on s then s
      else case probe_pop (candidates s) (probe_queue s) of
        (None, queue) \<Rightarrow> s\<lparr>probe_queue := queue\<rparr>
      | (Some (i, c), queue) \<Rightarrow>
          melk_arm ConnectionAttempt PROBE_TIMEOUT_MS (push_action (ActConnect i)
            (melk_transition MelkConnecting
              (s\<lparr>probe_queue := queue, selected_name := cand_name c, selected_identifier := Some i,
                 purpose := PurposeProbe\<rparr>))))"

definition discard_candidate :: "rust_str \<Rightarrow> SessionReducer \<Rightarrow> SessionReducer" where
  "discard_candidate i s =
     s\<lparr>candidates := fmdrop i (candidates s), verified := verified s |-| {|i|},
       probe_queue := filter (\<lambda>j. j \<noteq> i) (probe_queue s),
       candidates_out := filter (\<lambda>c. cand_identifier c \<noteq> i) (candidates_out s),
       candidate_removals_out := candidate_removals_out s @ [i]\<rparr>"

text \<open>The verdict of a probe: a supported candidate is published, any other is discarded.\<close>

definition settle_probe :: "ProbeOutcome \<Rightarrow> rust_str \<Rightarrow> SessionReducer \<Rightarrow> SessionReducer" where
  "settle_probe outcome i s =
     (if outcome = ProbeSupported
      then let s1 = s\<lparr>verified := finsert i (verified s)\<rparr>
           in (case fmlookup (candidates s1) i of
                 Some c \<Rightarrow> s1\<lparr>candidates_out := candidates_out s1 @ [c]\<rparr> | None \<Rightarrow> s1)
      else discard_candidate i
        (if outcome = ProbeUnsupported
         then s\<lparr>rejected := finsert i (if 256 \<le> fcard (rejected s) then {||} else rejected s)\<rparr>
         else s))"

definition finish_probe :: "ProbeOutcome \<Rightarrow> SessionReducer \<Rightarrow> SessionReducer" where
  "finish_probe outcome s =
     (case selected_identifier s of None \<Rightarrow> s
      | Some i \<Rightarrow>
          probe_next (melk_transition MelkScanning
            ((settle_probe outcome i (push_action (ActCancelConnect i) (s\<lparr>selected_identifier := None\<rparr>)))
               \<lparr>selected_name := None, purpose := PurposeSelected\<rparr>)))"

definition reject_candidate :: "melk_text \<Rightarrow> SessionReducer \<Rightarrow> SessionReducer" where
  "reject_candidate reason s =
     (if is_probing s then finish_probe ProbeUnsupported (melk_record (ProbeRejectedText reason) s)
      else
        let s1 = (case selected_identifier s of None \<Rightarrow> s
              | Some i \<Rightarrow> discard_candidate i (push_action (ActCancelConnect i) s))
        in if preferred_identifier s1 = None
           then push_action ActScan (melk_record (CandidateRejectedText reason)
             (melk_transition MelkScanning (s1\<lparr>selected_identifier := None, selected_name := None\<rparr>)))
           else melk_transition (MelkFailed reason) s1)"

definition connect_selected :: "SessionReducer \<Rightarrow> SessionReducer" where
  "connect_selected s =
     (case selected_identifier s of None \<Rightarrow> s
      | Some i \<Rightarrow>
          if \<not> bluetooth_powered_on s then s\<lparr>pending_restoration := Some RestoredDisconnected\<rparr>
          else melk_arm ConnectionAttempt CONNECTION_TIMEOUT_MS
                 (push_action (ActConnect i) (melk_transition MelkConnecting s)))"

definition resume_restoration :: "RestoredConnection \<Rightarrow> SessionReducer \<Rightarrow> SessionReducer" where
  "resume_restoration connection s =
     (if \<not> bluetooth_powered_on s then s\<lparr>pending_restoration := Some connection\<rparr>
      else let s1 = s\<lparr>pending_restoration := None\<rparr> in
        case connection of
          RestoredConnected \<Rightarrow>
            (case selected_identifier s1 of None \<Rightarrow> s1
             | Some i \<Rightarrow>
                 push_action (ActDiscoverServices i MELK_SERVICE_CHANNEL)
                   (melk_arm Discovery (if is_probing s1 then PROBE_TIMEOUT_MS else CONNECTION_TIMEOUT_MS)
                     (melk_transition MelkDiscovering s1)))
        | RestoredPending \<Rightarrow>
            melk_arm ConnectionAttempt CONNECTION_TIMEOUT_MS (melk_transition MelkConnecting s1)
        | RestoredDisconnected \<Rightarrow> connect_selected s1)"

definition reconnect_delay :: "u8 \<Rightarrow> u64" where
  "reconnect_delay attempt = 250 * push_bit (unat (attempt - 1)) 1"

definition schedule_reconnect :: "melk_text \<Rightarrow> SessionReducer \<Rightarrow> SessionReducer" where
  "schedule_reconnect reason s =
     (let attempt = saturating_add (reconnect_attempt s) 1;
          s1 = s\<lparr>reconnect_attempt := attempt\<rparr>
      in if MAX_RECONNECT_ATTEMPTS < attempt
         then melk_record (ReconnectExhaustedRecord reason) (melk_transition (MelkFailed ReconnectExhaustedText) s1)
         else let delay = reconnect_delay attempt
              in melk_arm Reconnect delay (melk_record (ReconnectAttemptText attempt delay reason)
                   (melk_transition (MelkRetrying attempt delay) s1)))"

definition connection_timed_out :: "SessionReducer \<Rightarrow> SessionReducer" where
  "connection_timed_out s =
     (if is_probing s then finish_probe ProbeUnavailable s
      else
        let s1 = s\<lparr>sr_timer := None\<rparr>;
            s2 = (case selected_identifier s1 of None \<Rightarrow> s1
                  | Some i \<Rightarrow> push_action (ActCancelConnect i) (s1\<lparr>selected_identifier := None\<rparr>));
            s3 = s2\<lparr>selected_name := None\<rparr>;
            s4 = (if preferred_identifier s3 \<noteq> None
                  then s3\<lparr>reconnect_attempt := saturating_add (reconnect_attempt s3) 1\<rparr> else s3)
        in if preferred_identifier s3 \<noteq> None \<and> MAX_RECONNECT_ATTEMPTS < reconnect_attempt s4
           then melk_record ConnectTimeoutExhaustedText (melk_transition (MelkFailed ReconnectExhaustedText) s4)
           else melk_record ConnectTimeoutText (push_action ActScan (melk_transition MelkScanning s4)))"

section \<open>Commands\<close>

definition melk_start :: "(rust_str \<Rightarrow> u128 option) \<Rightarrow> rust_str option \<Rightarrow> SessionReducer \<Rightarrow> SessionReducer" where
  "melk_start parse preferred s =
     melk_transition MelkIdle
       (s\<lparr>actions := [], text_records := [], notifications := [], candidates_out := [], candidate_removals_out := [],
          preferred_identifier := preferred,
          invalid_preferred_identifier := is_some_and preferred (\<lambda>p. parse p = None),
          reconnect_enabled := True, reconnect_attempt := 0, bluetooth_powered_on := False,
          pending_restoration := None, candidates := fmempty, verified := {||}, rejected := {||}, probe_queue := [],
          purpose := PurposeSelected, selected_identifier := None, selected_name := None, sr_timer := None,
          command_status_code := 0\<rparr>)"

definition melk_stop :: "SessionReducer \<Rightarrow> SessionReducer" where
  "melk_stop s = melk_transition MelkDisconnected
     (s\<lparr>reconnect_enabled := False, purpose := PurposeSelected, sr_timer := None, actions := []\<rparr>)"

definition melk_snapshot :: "SessionReducer \<Rightarrow> LightingSessionSnapshot" where
  "melk_snapshot s =
     \<lparr>lsnap_state = (if is_probing s then MelkScanning else sr_state s),
      lsnap_identifier = selected_identifier s, lsnap_name = selected_name s,
      lsnap_command_status = command_status_code s, lsnap_notification_ready = (gatt s = GattSubscribed)\<rparr>"

definition melk_select :: "rust_str \<Rightarrow> SessionReducer \<Rightarrow> SessionReducer" where
  "melk_select i s =
     (if \<not> is_probing s \<and> sr_state s \<noteq> MelkScanning \<or> preferred_identifier s \<noteq> None
         \<or> invalid_preferred_identifier s \<or> i |\<notin>| verified s
      then s
      else case fmlookup (candidates s) i of None \<Rightarrow> s
        | Some c \<Rightarrow>
            let s1 = (if is_probing s
                  then (case selected_identifier s of
                          Some probe \<Rightarrow> push_action (ActCancelConnect probe)
                            (s\<lparr>selected_identifier := None, probe_queue := probe # probe_queue s\<rparr>)
                        | None \<Rightarrow> s)\<lparr>purpose := PurposeSelected\<rparr>
                  else s);
                s2 = push_action (ActConnect i) (push_action ActStopScan
                  (s1\<lparr>selected_identifier := Some i, selected_name := cand_name c\<rparr>))
            in melk_record (SelectedText i)
                 (melk_arm ConnectionAttempt CONNECTION_TIMEOUT_MS (melk_transition MelkConnecting s2)))"

definition queue_writes :: "LightingWrite list \<Rightarrow> SessionReducer \<Rightarrow> bool \<times> SessionReducer" where
  "queue_writes ws s =
     (if list_ex (\<lambda>w. lw_mode w \<noteq> LightingWithoutResponse) ws then (False, s)
      else
        let coalescible = list_ex is_coalescible_color_write ws;
            retained = (if coalescible
              then length (writes s) - length (filter is_coalescible_color_write (writes s))
              else length (writes s))
        in if 32 < retained + length ws then (False, s)
           else (True, s\<lparr>writes :=
               (if coalescible then filter (\<lambda>w. \<not> is_coalescible_color_write w) (writes s) else writes s) @ ws,
               command_status_code := 1\<rparr>))"

definition queue_write :: "LightingWrite \<Rightarrow> SessionReducer \<Rightarrow> bool \<times> SessionReducer" where
  "queue_write w s = queue_writes [w] s"

definition emit_write :: "LightingWrite \<Rightarrow> SessionReducer \<Rightarrow> SessionReducer" where
  "emit_write w s = (case selected_identifier s of None \<Rightarrow> s | Some i \<Rightarrow> push_action (ActWrite i w) s)"

definition write_interval :: "LightingWrite \<Rightarrow> u64" where
  "write_interval w = ucast (unwrap_or (lw_interval_ms w) FALLBACK_WRITE_INTERVAL_MS)"

definition drain_initialization :: "bool \<Rightarrow> SessionReducer \<Rightarrow> SessionReducer" where
  "drain_initialization can_send s =
     (if \<not> can_send \<or> gatt s \<noteq> GattSubscribed \<or> sr_state s \<noteq> MelkDiscovering \<or> is_some (sr_timer s) then s
      else case initialization s of
        [] \<Rightarrow> melk_record NotifyStateText (melk_transition MelkReady s)
      | w # ws \<Rightarrow>
          let s1 = emit_write w (s\<lparr>initialization := ws\<rparr>)
          in melk_arm Initialization
               (if initialization s1 = [] then write_interval w else INITIALIZATION_DELAY_MS) s1)"

definition drain_writes :: "bool \<Rightarrow> SessionReducer \<Rightarrow> SessionReducer" where
  "drain_writes can_send s =
     (if \<not> can_send \<or> sr_state s \<noteq> MelkReady \<or> is_some (sr_timer s) then s
      else case writes s of
        [] \<Rightarrow> s
      | w # ws \<Rightarrow>
          melk_arm WriteDrain (write_interval w)
            (emit_write w (melk_record (RequestedText (lw_payload w)) (s\<lparr>writes := ws\<rparr>))))"

definition mark_last_command_confirmed :: "SessionReducer \<Rightarrow> bool \<times> SessionReducer" where
  "mark_last_command_confirmed s =
     (if command_status_code s \<noteq> 1 \<or> writes s \<noteq> [] then (False, s)
      else (True, s\<lparr>command_status_code := 2\<rparr>))"

definition mark_last_command_unconfirmed :: "SessionReducer \<Rightarrow> SessionReducer" where
  "mark_last_command_unconfirmed s = (if command_status_code s = 1 then s\<lparr>command_status_code := 3\<rparr> else s)"

definition drain_actions :: "SessionReducer \<Rightarrow> LightingSessionAction list \<times> SessionReducer" where
  "drain_actions s = (actions s, s\<lparr>actions := []\<rparr>)"

definition drain_records :: "SessionReducer \<Rightarrow> melk_text list \<times> SessionReducer" where
  "drain_records s = (text_records s, s\<lparr>text_records := []\<rparr>)"

definition drain_candidates :: "SessionReducer \<Rightarrow> LightingSessionCandidate list \<times> SessionReducer" where
  "drain_candidates s = (candidates_out s, s\<lparr>candidates_out := []\<rparr>)"

definition drain_candidate_removals :: "SessionReducer \<Rightarrow> rust_str list \<times> SessionReducer" where
  "drain_candidate_removals s = (candidate_removals_out s, s\<lparr>candidate_removals_out := []\<rparr>)"

definition drain_notifications :: "SessionReducer \<Rightarrow> u8 list list \<times> SessionReducer" where
  "drain_notifications s = (notifications s, s\<lparr>notifications := []\<rparr>)"

definition melk_is_ready :: "SessionReducer \<Rightarrow> bool" where
  "melk_is_ready s \<longleftrightarrow> sr_state s = MelkReady"

section \<open>Events\<close>

definition handle_resume :: "(rust_str \<Rightarrow> u128 option) \<Rightarrow> SessionReducer \<Rightarrow> SessionReducer" where
  "handle_resume parse s =
     (if \<not> reconnect_enabled s \<or> invalid_preferred_identifier s then s
      else case sr_state s of
          MelkFailed _ \<Rightarrow> push_action ActRestartTransport (melk_start parse (preferred_identifier s) s)
        | MelkDisconnected \<Rightarrow> push_action ActRestartTransport (melk_start parse (preferred_identifier s) s)
        | _ \<Rightarrow> s)"

definition handle_bluetooth_state :: "bool \<Rightarrow> int \<Rightarrow> SessionReducer \<Rightarrow> SessionReducer" where
  "handle_bluetooth_state on code s0 =
     (let s = s0\<lparr>bluetooth_powered_on := on\<rparr> in
      if invalid_preferred_identifier s
      then melk_record ScanRefusedText (melk_transition (MelkFailed InvalidIdentityText) s)
      else if \<not> on
      then melk_transition (MelkFailed (BluetoothUnavailableText code)) (forget_selected_connection s)
      else case pending_restoration s of
          Some connection \<Rightarrow> resume_restoration connection (s\<lparr>pending_restoration := None\<rparr>)
        | None \<Rightarrow>
            if selected_identifier s = None
            then (case preferred_identifier s of
                    Some i \<Rightarrow> push_action (ActRestorePeripheral i) s
                  | None \<Rightarrow> melk_record ScanText (melk_transition MelkScanning (push_action ActScan s)))
            else s)"

text \<open>A discovered candidate that passed the guards.\<close>

definition admit_candidate :: "rust_str option \<Rightarrow> rust_str \<Rightarrow> int \<Rightarrow> SessionReducer \<Rightarrow> SessionReducer" where
  "admit_candidate name i rssi s =
     (let c = \<lparr>cand_identifier = i, cand_name = name, cand_rssi = rssi\<rparr>;
          is_new = (fmlookup (candidates s) i = None);
          s1 = melk_record (CandidateText name i rssi) (s\<lparr>candidates := fmupd i c (candidates s)\<rparr>)
      in if preferred_identifier s1 \<noteq> None
         then connect_selected (push_action ActStopScan (s1\<lparr>selected_identifier := Some i, selected_name := name\<rparr>))
         else if i |\<in>| verified s1 then s1\<lparr>candidates_out := candidates_out s1 @ [c]\<rparr>
         else if is_new \<or> selected_identifier s1 \<noteq> Some i \<and> i \<notin> set (probe_queue s1)
         then probe_next (s1\<lparr>probe_queue := probe_queue s1 @ [i]\<rparr>)
         else s1)"

definition handle_discovered :: "(rust_str \<Rightarrow> u128 option) \<Rightarrow> rust_str option \<Rightarrow> rust_str \<Rightarrow> int
    \<Rightarrow> SessionReducer \<Rightarrow> SessionReducer" where
  "handle_discovered parse name i rssi s =
     (if \<not> is_probing s \<and> sr_state s \<noteq> MelkScanning \<or> \<not> melk_accepts parse s i \<or> i |\<in>| rejected s
      then discard_candidate i s
      else if MAX_CANDIDATES \<le> btm_len (candidates s) \<and> fmlookup (candidates s) i = None
      then discard_candidate i s
      else admit_candidate name i rssi s)"

definition handle_restore_unavailable :: "SessionReducer \<Rightarrow> SessionReducer" where
  "handle_restore_unavailable s =
     (if bluetooth_powered_on s \<and> preferred_identifier s \<noteq> None \<and> selected_identifier s = None
      then melk_record ScanText (melk_transition MelkScanning (push_action ActScan s)) else s)"

definition handle_restored :: "(rust_str \<Rightarrow> u128 option) \<Rightarrow> rust_str option \<Rightarrow> rust_str \<Rightarrow> bool \<Rightarrow> bool
    \<Rightarrow> SessionReducer \<Rightarrow> SessionReducer" where
  "handle_restored parse name i connected pending s =
     (if preferred_identifier s = None \<or> \<not> melk_accepts parse s i then melk_record RestoreIgnoredText s
      else resume_restoration
        (if connected then RestoredConnected else if pending then RestoredPending else RestoredDisconnected)
        (melk_record (RestoreText i) (s\<lparr>selected_identifier := Some i, selected_name := name\<rparr>)))"

definition handle_connected :: "rust_str option \<Rightarrow> rust_str \<Rightarrow> SessionReducer \<Rightarrow> SessionReducer" where
  "handle_connected name i s =
     (if selected_identifier s \<noteq> Some i then s
      else let s1 = (if name \<noteq> None then s\<lparr>selected_name := name\<rparr> else s)
           in resume_restoration RestoredConnected (s1\<lparr>sr_timer := None\<rparr>))"

definition handle_connect_failed :: "rust_str \<Rightarrow> SessionReducer \<Rightarrow> SessionReducer" where
  "handle_connect_failed reason s =
     (if sr_state s \<noteq> MelkConnecting \<and> pending_restoration s = None then s
      else if is_probing s then finish_probe ProbeUnavailable s
      else let s1 = s\<lparr>sr_timer := None, pending_restoration := None\<rparr>
           in if reconnect_enabled s1 then schedule_reconnect (PlatformText reason) s1
              else melk_transition (MelkFailed (PlatformText reason)) s1)"

definition handle_services :: "u128 list \<Rightarrow> rust_str option \<Rightarrow> SessionReducer \<Rightarrow> SessionReducer" where
  "handle_services uuids err s =
     (if sr_state s \<noteq> MelkDiscovering then s
      else case err of
          Some reason \<Rightarrow> if is_probing s then finish_probe ProbeUnavailable s
            else reject_candidate (PlatformText reason) s
        | None \<Rightarrow>
            if MELK_SERVICE_CHANNEL \<notin> set uuids
            then reject_candidate MissingServiceText (melk_record GattMissingServiceText s)
            else (case selected_identifier s of None \<Rightarrow> s
                  | Some i \<Rightarrow> push_action (ActDiscoverCharacteristics i MELK_SERVICE_CHANNEL) s))"

definition handle_characteristics :: "rust_str option \<Rightarrow> u128 \<Rightarrow> LightingCharacteristicEvidence list
    \<Rightarrow> rust_str option \<Rightarrow> SessionReducer \<Rightarrow> SessionReducer" where
  "handle_characteristics name service chars err s0 =
     (if sr_state s0 \<noteq> MelkDiscovering then s0
      else
        let s = (if name \<noteq> None then s0\<lparr>selected_name := name\<rparr> else s0) in
        case err of
          Some reason \<Rightarrow> if is_probing s then finish_probe ProbeUnavailable s
            else reject_candidate (PlatformText reason) s
        | None \<Rightarrow>
            if service \<noteq> MELK_SERVICE_CHANNEL then reject_candidate MissingServiceText s
            else if \<not> list_ex (\<lambda>c. ce_uuid c = MELK_WRITE_CHANNEL \<and> write_without_response c) chars
            then reject_candidate MissingWriteText s
            else if \<not> list_ex (\<lambda>c. ce_uuid c = MELK_NOTIFY_CHANNEL \<and> notify_or_indicate c) chars
            then reject_candidate MissingNotifyText s
            else if is_probing s then finish_probe ProbeSupported s
            else
              let s1 = melk_record GattText
                    (s\<lparr>gatt := GattVerified, initialization := map transport_action initialization_actions\<rparr>)
              in (case selected_identifier s1 of None \<Rightarrow> s1
                  | Some i \<Rightarrow> push_action (ActSubscribe i (confirmation_channel write_policy)) s1))"

definition handle_notification_state :: "u128 \<Rightarrow> bool \<Rightarrow> bool \<Rightarrow> rust_str option \<Rightarrow> SessionReducer \<Rightarrow> SessionReducer" where
  "handle_notification_state ch ready can_send err s =
     (if sr_state s \<noteq> MelkDiscovering \<and> sr_state s \<noteq> MelkReady then s
      else if ch \<noteq> MELK_NOTIFY_CHANNEL then s
      else case err of
          Some reason \<Rightarrow> melk_transition (MelkFailed (PlatformText reason)) s
        | None \<Rightarrow>
            if \<not> ready then melk_transition (MelkFailed NotifyUnavailableText) s
            else if gatt s = GattUnverified then s
            else
              let s1 = (if sr_timer s = Some Discovery then s\<lparr>sr_timer := None\<rparr> else s)
              in drain_initialization can_send (s1\<lparr>gatt := GattSubscribed\<rparr>))"

definition handle_timer :: "LightingTimer \<Rightarrow> bool \<Rightarrow> SessionReducer \<Rightarrow> SessionReducer" where
  "handle_timer t can_send s =
     (if sr_timer s \<noteq> Some t then s
      else case t of
          ConnectionAttempt \<Rightarrow> connection_timed_out s
        | Discovery \<Rightarrow> connection_timed_out (melk_record GattTimeoutText s)
        | Reconnect \<Rightarrow> connect_selected (s\<lparr>sr_timer := None\<rparr>)
        | Initialization \<Rightarrow> drain_initialization can_send (s\<lparr>sr_timer := None\<rparr>)
        | WriteDrain \<Rightarrow> drain_writes can_send (s\<lparr>sr_timer := None\<rparr>))"

definition handle_disconnected :: "rust_str \<Rightarrow> bool \<Rightarrow> SessionReducer \<Rightarrow> SessionReducer" where
  "handle_disconnected reason on s =
     (if on \<and> pending_restoration s = None \<and> sr_state s \<notin> {MelkConnecting, MelkDiscovering, MelkReady} then s
      else let s1 = s\<lparr>bluetooth_powered_on := on\<rparr> in
        if is_probing s1 then finish_probe ProbeUnavailable s1
        else
          let s2 = melk_record (DisconnectedText (PlatformText reason)) (s1\<lparr>pending_restoration := None\<rparr>)
          in if reconnect_enabled s2 \<and> on then schedule_reconnect (PlatformText reason) s2
             else melk_transition MelkDisconnected (forget_selected_connection s2))"

definition melk_handle :: "(rust_str \<Rightarrow> u128 option) \<Rightarrow> LightingSessionEvent \<Rightarrow> SessionReducer \<Rightarrow> SessionReducer" where
  "melk_handle parse event s =
     (if \<not> reconnect_enabled s then s
      else case event of
          EvResume \<Rightarrow> handle_resume parse s
        | EvBluetoothState on code \<Rightarrow> handle_bluetooth_state on code s
        | EvDiscovered name i rssi \<Rightarrow> handle_discovered parse name i rssi s
        | EvRestoreUnavailable \<Rightarrow> handle_restore_unavailable s
        | EvRestored name i connected pending \<Rightarrow> handle_restored parse name i connected pending s
        | EvConnected name i \<Rightarrow> handle_connected name i s
        | EvConnectFailed reason \<Rightarrow> handle_connect_failed reason s
        | EvConnectTimeout \<Rightarrow> if sr_timer s = Some ConnectionAttempt then connection_timed_out s else s
        | EvServicesDiscovered uuids err \<Rightarrow> handle_services uuids err s
        | EvCharacteristicsDiscovered name service chars err \<Rightarrow> handle_characteristics name service chars err s
        | EvNotificationState ch ready can_send err \<Rightarrow> handle_notification_state ch ready can_send err s
        | EvNotification ch bytes \<Rightarrow>
            if ch = MELK_NOTIFY_CHANNEL then s\<lparr>notifications := notifications s @ [bytes]\<rparr> else s
        | EvWriteReady can_send \<Rightarrow> drain_writes can_send (drain_initialization can_send s)
        | EvTimerFired t can_send \<Rightarrow> handle_timer t can_send s
        | EvDisconnected reason on \<Rightarrow> handle_disconnected reason on s)"

section \<open>Runs\<close>

datatype MelkCall =
    MelkStart "rust_str option"
  | MelkStop
  | MelkSelect rust_str
  | MelkQueue "LightingWrite list"
  | MelkDrainWrites bool
  | MelkConfirm
  | MelkUnconfirm
  | MelkEvent LightingSessionEvent
  | MelkDrainOutputs

text \<open>One call by the adapter.  Actions are drained after each call, as the adapter does.\<close>

fun melk_apply :: "(rust_str \<Rightarrow> u128 option) \<Rightarrow> SessionReducer \<Rightarrow> MelkCall \<Rightarrow> SessionReducer" where
  "melk_apply parse s (MelkStart preferred) = melk_start parse preferred s"
| "melk_apply parse s MelkStop = melk_stop s"
| "melk_apply parse s (MelkSelect i) = melk_select i s"
| "melk_apply parse s (MelkQueue ws) = snd (queue_writes ws s)"
| "melk_apply parse s (MelkDrainWrites can_send) = drain_writes can_send s"
| "melk_apply parse s MelkConfirm = snd (mark_last_command_confirmed s)"
| "melk_apply parse s MelkUnconfirm = mark_last_command_unconfirmed s"
| "melk_apply parse s (MelkEvent e) = melk_handle parse e s"
| "melk_apply parse s MelkDrainOutputs =
     snd (drain_notifications (snd (drain_candidate_removals (snd (drain_candidates (snd (drain_records s)))))))"

definition melk_step :: "(rust_str \<Rightarrow> u128 option) \<Rightarrow> SessionReducer \<Rightarrow> MelkCall
    \<Rightarrow> LightingSessionAction list \<times> SessionReducer" where
  "melk_step parse s c = drain_actions (melk_apply parse s c)"

section \<open>Invariants\<close>

text \<open>
  How lifecycle state, connection, GATT progress, timer, restoration and identities fit together.
\<close>

definition probing_ok :: "SessionReducer \<Rightarrow> bool" where
  "probing_ok s \<longleftrightarrow> (purpose s = PurposeProbe \<longrightarrow>
     bluetooth_powered_on s \<and> preferred_identifier s = None \<and> pending_restoration s = None
     \<and> selected_identifier s \<noteq> None
     \<and> (sr_state s = MelkConnecting \<or> sr_state s = MelkDiscovering \<or> (\<exists>r. sr_state s = MelkFailed r)))"

fun needs_selection :: "LightingSessionState \<Rightarrow> bool" where
  "needs_selection MelkConnecting = True"
| "needs_selection MelkDiscovering = True"
| "needs_selection MelkReady = True"
| "needs_selection (MelkRetrying _ _) = True"
| "needs_selection _ = False"

definition link_ok :: "SessionReducer \<Rightarrow> bool" where
  "link_ok s \<longleftrightarrow>
     (needs_selection (sr_state s) \<longrightarrow> selected_identifier s \<noteq> None)
     \<and> (sr_state s = MelkReady \<longrightarrow> gatt s = GattSubscribed)
     \<and> (gatt s \<noteq> GattUnverified \<longrightarrow> (sr_state s = MelkDiscovering \<or> sr_state s = MelkReady) \<and> purpose s = PurposeSelected)
     \<and> (sr_state s = MelkDiscovering \<or> sr_state s = MelkReady \<longrightarrow> bluetooth_powered_on s)
     \<and> (initialization s \<noteq> [] \<longrightarrow> gatt s \<noteq> GattUnverified \<and> sr_state s = MelkDiscovering)
     \<and> (sr_state s = MelkScanning \<and> preferred_identifier s = None \<longrightarrow> selected_identifier s = None)"

fun timer_state :: "LightingTimer \<Rightarrow> LightingSessionState \<Rightarrow> bool" where
  "timer_state ConnectionAttempt st = (st = MelkConnecting)"
| "timer_state Discovery st = (st = MelkDiscovering)"
| "timer_state Reconnect st = (\<exists>a d. st = MelkRetrying a d)"
| "timer_state Initialization st = (st = MelkDiscovering)"
| "timer_state WriteDrain st = (st = MelkReady)"

text \<open>Only a reconnect timer may run while Bluetooth is off.\<close>

definition timer_waits :: "SessionReducer \<Rightarrow> bool" where
  "timer_waits s \<longleftrightarrow> is_none_or (sr_timer s) (\<lambda>t. t = Reconnect \<and> timer_state t (sr_state s))"

definition timers_ok :: "SessionReducer \<Rightarrow> bool" where
  "timers_ok s \<longleftrightarrow>
     is_none_or (sr_timer s) (\<lambda>t. timer_state t (sr_state s))
     \<and> (pending_restoration s \<noteq> None \<longrightarrow> \<not> bluetooth_powered_on s \<and> selected_identifier s \<noteq> None \<and> timer_waits s)
     \<and> (\<not> timer_waits s \<and> preferred_identifier s \<noteq> None \<longrightarrow> bluetooth_powered_on s)"

definition identity_ok :: "(rust_str \<Rightarrow> u128 option) \<Rightarrow> SessionReducer \<Rightarrow> bool" where
  "identity_ok parse s \<longleftrightarrow>
     invalid_preferred_identifier s = is_some_and (preferred_identifier s) (\<lambda>p. parse p = None)
     \<and> (\<forall>i. fmlookup (candidates s) i \<noteq> None \<longrightarrow> parse i \<noteq> None)
     \<and> is_none_or (selected_identifier s) (\<lambda>i. parse i \<noteq> None
          \<and> is_none_or (preferred_identifier s) (\<lambda>p. parse p = parse i))"

definition melk_inv :: "(rust_str \<Rightarrow> u128 option) \<Rightarrow> SessionReducer \<Rightarrow> bool" where
  "melk_inv parse s \<longleftrightarrow> probing_ok s \<and> link_ok s \<and> timers_ok s \<and> identity_ok parse s"

named_theorems melk_defs \<open>the invariant and the small helpers\<close>

lemmas [melk_defs] = melk_inv_def probing_ok_def link_ok_def timers_ok_def timer_waits_def identity_ok_def
  push_action_def melk_record_def melk_arm_def is_probing_def Let_def

lemma transition_leave [melk_defs]:
  "st \<noteq> MelkReady \<Longrightarrow> melk_transition st s =
     s\<lparr>sr_timer := None, command_status_code := (if command_status_code s = 1 then 3 else command_status_code s),
       writes := [], initialization := [], gatt := GattUnverified, sr_state := st\<rparr>"
  by (simp add: melk_transition_def Let_def reset_initialization_def)

lemma transition_ready [melk_defs]:
  "melk_transition MelkReady s =
     s\<lparr>reconnect_attempt := 0,
       preferred_identifier := (if preferred_identifier s = None then selected_identifier s else preferred_identifier s),
       sr_state := MelkReady\<rparr>"
  by (simp add: melk_transition_def Let_def)

lemma melk_inv_default: "melk_inv parse reducer_default"
  by (simp add: melk_defs reducer_default_def)

lemma melk_inv_start: "melk_inv parse (melk_start parse preferred s)"
  by (simp add: melk_start_def melk_defs)

lemma melk_inv_stop: "melk_inv parse s \<Longrightarrow> melk_inv parse (melk_stop s)"
  by (auto simp: melk_stop_def melk_defs)

lemma melk_inv_record [simp]: "melk_inv parse (melk_record t s) = melk_inv parse s"
  by (simp add: melk_defs)

lemma pending_record: "pending_restoration (melk_record t s) = pending_restoration s"
  by (simp add: melk_record_def)

lemma sr_state_record: "sr_state (melk_record t s) = sr_state s"
  by (simp add: melk_record_def)

lemma melk_inv_push [simp]: "melk_inv parse (push_action a s) = melk_inv parse s"
  by (simp add: melk_defs)

lemma probe_pop_lookup: "probe_pop cands queue = (Some (i, c), rest) \<Longrightarrow> fmlookup cands i = Some c"
  by (induction cands queue rule: probe_pop.induct) (auto split: option.splits)

lemma melk_inv_probe_next:
  assumes inv: "melk_inv parse s" and pr: "preferred_identifier s = None" and pe: "pending_restoration s = None"
  shows "melk_inv parse (probe_next s)"
proof -
  obtain r queue where pop: "probe_pop (candidates s) (probe_queue s) = (r, queue)"
    by fastforce
  consider (idle) "selected_identifier s \<noteq> None \<or> \<not> bluetooth_powered_on s"
    | (none) "selected_identifier s = None" "bluetooth_powered_on s" "r = None"
    | (some) i c where "selected_identifier s = None" "bluetooth_powered_on s" "r = Some (i, c)"
    by (cases r) auto
  then show ?thesis
  proof cases
    case idle
    then show ?thesis using inv by (auto simp: probe_next_def)
  next
    case none
    then show ?thesis using inv by (simp add: probe_next_def pop melk_defs)
  next
    case some
    then have "parse i \<noteq> None"
      using inv probe_pop_lookup [of "candidates s" "probe_queue s" i c queue] pop by (simp add: melk_inv_def identity_ok_def)
    then show ?thesis
      using inv some pr pe by (simp add: probe_next_def pop melk_defs)
  qed
qed

lemma melk_inv_discard [simp]: "melk_inv parse s \<Longrightarrow> melk_inv parse (discard_candidate i s)"
  by (simp add: discard_candidate_def melk_defs)

lemma discard_keeps [simp]:
  "selected_identifier (discard_candidate i s) = selected_identifier s"
  "preferred_identifier (discard_candidate i s) = preferred_identifier s"
  "pending_restoration (discard_candidate i s) = pending_restoration s"
  "sr_state (discard_candidate i s) = sr_state s"
  "bluetooth_powered_on (discard_candidate i s) = bluetooth_powered_on s"
  by (simp_all add: discard_candidate_def)

text \<open>After the connection is given up the reducer is scanning again, whatever it was doing.\<close>

lemma melk_inv_scanning:
  "identity_ok parse s \<Longrightarrow> pending_restoration s = None \<Longrightarrow> purpose s = PurposeSelected \<Longrightarrow>
     selected_identifier s = None \<Longrightarrow> melk_inv parse (melk_transition MelkScanning s)"
  by (simp add: melk_defs)

lemma settle_probe_keeps [simp]:
  "selected_identifier (settle_probe outcome i s) = selected_identifier s"
  "preferred_identifier (settle_probe outcome i s) = preferred_identifier s"
  "pending_restoration (settle_probe outcome i s) = pending_restoration s"
  "identity_ok parse s \<Longrightarrow> identity_ok parse (settle_probe outcome i s)"
  by (simp_all add: settle_probe_def Let_def identity_ok_def discard_candidate_def split: option.split)

lemma melk_inv_finish_probe:
  assumes inv: "identity_ok parse s" and pr: "preferred_identifier s = None" and pe: "pending_restoration s = None"
    and sel: "selected_identifier s \<noteq> None"
  shows "melk_inv parse (finish_probe outcome s)"
proof -
  obtain i where i: "selected_identifier s = Some i"
    using sel by blast
  define t where "t = (settle_probe outcome i (push_action (ActCancelConnect i) (s\<lparr>selected_identifier := None\<rparr>)))
    \<lparr>selected_name := None, purpose := PurposeSelected\<rparr>"
  have "identity_ok parse (push_action (ActCancelConnect i) (s\<lparr>selected_identifier := None\<rparr>))"
    using inv by (simp add: push_action_def identity_ok_def)
  then have "identity_ok parse (settle_probe outcome i (push_action (ActCancelConnect i) (s\<lparr>selected_identifier := None\<rparr>)))"
    by simp
  then have t: "identity_ok parse t" "preferred_identifier t = None" "pending_restoration t = None"
    "purpose t = PurposeSelected" "selected_identifier t = None"
    using pr pe by (simp_all add: t_def identity_ok_def push_action_def)
  have "finish_probe outcome s = probe_next (melk_transition MelkScanning t)"
    unfolding finish_probe_def i t_def by simp
  moreover have "melk_inv parse (melk_transition MelkScanning t)"
    using t by (simp add: melk_inv_scanning)
  ultimately show ?thesis
    using t by (simp add: melk_inv_probe_next transition_leave)
qed

lemma inv_identity: "melk_inv parse s \<Longrightarrow> identity_ok parse s"
  by (simp add: melk_inv_def)

lemma probing_facts:
  assumes "melk_inv parse s" "is_probing s"
  shows "preferred_identifier s = None" "pending_restoration s = None" "selected_identifier s \<noteq> None"
  using assms by (auto simp: melk_inv_def probing_ok_def link_ok_def is_probing_def)

lemma melk_inv_reject:
  assumes inv: "melk_inv parse s" and st: "sr_state s = MelkDiscovering"
  shows "melk_inv parse (reject_candidate reason s)"
proof (cases "is_probing s")
  case True
  then show ?thesis
    using probing_facts [OF inv True] inv_identity [OF inv]
    by (simp add: reject_candidate_def melk_inv_finish_probe melk_record_def identity_ok_def)
next
  case False
  then have sel: "purpose s = PurposeSelected"
    by (cases "purpose s") (simp_all add: is_probing_def)
  have pe: "pending_restoration s = None"
    using inv st by (auto simp: melk_inv_def link_ok_def timers_ok_def)
  obtain i where i: "selected_identifier s = Some i"
    using inv st by (auto simp: melk_inv_def link_ok_def)
  show ?thesis
    using False inv sel pe i
    by (cases "preferred_identifier s") (simp_all add: reject_candidate_def melk_defs discard_candidate_def)
qed

text \<open>Starting to connect establishes the invariant from the identities alone.\<close>

lemma melk_inv_connecting:
  assumes "identity_ok parse s" "pending_restoration s = None" "selected_identifier s \<noteq> None"
    "preferred_identifier s = None \<or> bluetooth_powered_on s" "purpose s = PurposeSelected"
  shows "melk_inv parse (melk_arm ConnectionAttempt d (push_action a (melk_transition MelkConnecting s)))"
    and "melk_inv parse (melk_arm ConnectionAttempt d (melk_transition MelkConnecting s))"
  using assms by (auto simp: melk_defs)

lemma melk_inv_discovering:
  assumes "identity_ok parse s" "pending_restoration s = None" "selected_identifier s \<noteq> None"
    "bluetooth_powered_on s" "purpose s = PurposeProbe \<longrightarrow> preferred_identifier s = None"
  shows "melk_inv parse (melk_arm Discovery d (melk_transition MelkDiscovering s))"
  using assms by (auto simp: melk_defs)

lemma melk_inv_pending:
  assumes "identity_ok parse s" "link_ok s" "\<not> bluetooth_powered_on s" "purpose s = PurposeSelected"
    "selected_identifier s \<noteq> None" "timer_waits s"
  shows "melk_inv parse (s\<lparr>pending_restoration := Some c\<rparr>)"
  using assms by (cases "sr_timer s")
    (auto simp: melk_inv_def probing_ok_def link_ok_def timers_ok_def timer_waits_def identity_ok_def)

lemma identity_ok_pending [simp]: "identity_ok parse (s\<lparr>pending_restoration := c\<rparr>) = identity_ok parse s"
  by (simp add: identity_ok_def)

lemma melk_inv_connect_selected:
  assumes "identity_ok parse s" "link_ok s" "purpose s = PurposeSelected" "selected_identifier s \<noteq> None"
    "bluetooth_powered_on s \<Longrightarrow> pending_restoration s = None" "\<not> bluetooth_powered_on s \<Longrightarrow> timer_waits s"
  shows "melk_inv parse (connect_selected s)"
proof (cases "bluetooth_powered_on s")
  case True
  then show ?thesis
    using assms melk_inv_connecting(1) [of parse s] by (auto simp: connect_selected_def)
next
  case False
  then show ?thesis
    using assms melk_inv_pending [of parse s] by (auto simp: connect_selected_def)
qed

lemma melk_inv_resume:
  assumes "identity_ok parse s" "link_ok s" "selected_identifier s \<noteq> None"
    "\<not> bluetooth_powered_on s \<Longrightarrow> timer_waits s \<and> purpose s = PurposeSelected"
    "purpose s = PurposeProbe \<Longrightarrow> connection = RestoredConnected \<and> preferred_identifier s = None"
  shows "melk_inv parse (resume_restoration connection s)"
proof (cases "bluetooth_powered_on s")
  case False
  then show ?thesis
    using assms by (simp add: resume_restoration_def melk_inv_pending)
next
  case on: True
  let ?s = "s\<lparr>pending_restoration := None\<rparr>"
  obtain i where i: "selected_identifier s = Some i"
    using assms(3) by blast
  have link: "link_ok ?s"
    using assms(2) by (simp add: link_ok_def)
  have sel: "purpose s = PurposeSelected" if "connection \<noteq> RestoredConnected"
    using assms(5) that by (cases "purpose s") auto
  show ?thesis
  proof (cases connection)
    case RestoredConnected
    then show ?thesis
      using on i assms(1,5) by (simp add: resume_restoration_def Let_def melk_inv_discovering)
  next
    case RestoredPending
    then show ?thesis
      using on i assms(1) sel by (simp add: resume_restoration_def Let_def melk_inv_connecting)
  next
    case RestoredDisconnected
    then show ?thesis
      using on i assms(1) sel link
      by (simp add: resume_restoration_def Let_def) (intro melk_inv_connect_selected, simp_all)
  qed
qed

lemma melk_inv_leave:
  "identity_ok parse s \<Longrightarrow> pending_restoration s = None \<Longrightarrow> purpose s = PurposeSelected \<Longrightarrow>
     \<not> needs_selection st \<Longrightarrow> st \<noteq> MelkScanning \<Longrightarrow> melk_inv parse (melk_transition st s)"
  by (cases st) (simp_all add: melk_defs)

lemma melk_inv_schedule:
  assumes "identity_ok parse s" "pending_restoration s = None" "purpose s = PurposeSelected"
    "selected_identifier s \<noteq> None"
  shows "melk_inv parse (schedule_reconnect reason s)"
  using assms by (auto simp: schedule_reconnect_def melk_defs)

lemma not_probing: "\<not> is_probing s \<Longrightarrow> purpose s = PurposeSelected"
  by (cases "purpose s") (simp_all add: is_probing_def)

lemma timer_no_pending:
  "melk_inv parse s \<Longrightarrow> sr_timer s = Some t \<Longrightarrow> t \<noteq> Reconnect \<Longrightarrow> pending_restoration s = None"
  by (auto simp: melk_inv_def timers_ok_def timer_waits_def)

lemma no_timer_waits [simp]: "sr_timer s = None \<Longrightarrow> timer_waits s"
  by (simp add: timer_waits_def)

lemma melk_inv_timed_out:
  assumes inv: "melk_inv parse s" and pe: "pending_restoration s = None"
  shows "melk_inv parse (connection_timed_out s)"
proof (cases "is_probing s")
  case True
  then show ?thesis
    using probing_facts [OF inv True] inv_identity [OF inv]
    by (simp add: connection_timed_out_def melk_inv_finish_probe)
next
  case False
  then show ?thesis
    using pe inv_identity [OF inv] not_probing [OF False]
    by (cases "selected_identifier s"; cases "preferred_identifier s")
      (simp_all add: connection_timed_out_def melk_defs)
qed

lemma melk_inv_select:
  assumes inv: "melk_inv parse s"
  shows "melk_inv parse (melk_select i s)"
proof (cases "(is_probing s \<or> sr_state s = MelkScanning) \<and> preferred_identifier s = None
    \<and> \<not> invalid_preferred_identifier s \<and> i |\<in>| verified s \<and> fmlookup (candidates s) i \<noteq> None")
  case True
  then obtain c where c: "fmlookup (candidates s) i = Some c"
    by blast
  have i: "parse i \<noteq> None"
    using inv c by (simp add: melk_inv_def identity_ok_def)
  have pe: "pending_restoration s = None"
  proof (cases "is_probing s")
    case False
    then have "selected_identifier s = None"
      using inv True by (simp add: melk_inv_def link_ok_def)
    then show ?thesis
      using inv by (auto simp: melk_inv_def timers_ok_def)
  qed (rule probing_facts [OF inv])
  show ?thesis
    using True c i pe inv_identity [OF inv]
    by (cases "selected_identifier s"; cases "is_probing s") (simp_all add: melk_select_def melk_defs)
next
  case False
  then show ?thesis
    using inv by (auto simp: melk_select_def split: option.splits)
qed

lemma melk_inv_drain_initialization: "melk_inv parse s \<Longrightarrow> melk_inv parse (drain_initialization can_send s)"
proof -
  assume inv: "melk_inv parse s"
  show ?thesis
  proof (cases "\<not> can_send \<or> gatt s \<noteq> GattSubscribed \<or> sr_state s \<noteq> MelkDiscovering \<or> is_some (sr_timer s)")
    case True
    then show ?thesis using inv by (auto simp: drain_initialization_def)
  next
    case False
    then obtain i where "selected_identifier s = Some i"
      using inv by (auto simp: melk_inv_def link_ok_def)
    then show ?thesis
      using False inv
      by (cases "initialization s"; cases "preferred_identifier s"; cases "sr_timer s")
        (simp_all add: drain_initialization_def emit_write_def melk_defs)
  qed
qed

lemma melk_inv_drain_writes: "melk_inv parse s \<Longrightarrow> melk_inv parse (drain_writes can_send s)"
proof -
  assume inv: "melk_inv parse s"
  show ?thesis
  proof (cases "\<not> can_send \<or> sr_state s \<noteq> MelkReady \<or> is_some (sr_timer s)")
    case True
    then show ?thesis using inv by (auto simp: drain_writes_def)
  next
    case False
    then obtain i where "selected_identifier s = Some i"
      using inv by (auto simp: melk_inv_def link_ok_def)
    then show ?thesis
      using False inv
      by (cases "writes s"; cases "sr_timer s") (simp_all add: drain_writes_def emit_write_def melk_defs)
  qed
qed

lemma melk_inv_bluetooth:
  assumes inv: "melk_inv parse s"
  shows "melk_inv parse (handle_bluetooth_state on code s)"
proof -
  let ?s = "s\<lparr>bluetooth_powered_on := on\<rparr>"
  have id: "identity_ok parse ?s"
    using inv by (simp add: melk_inv_def identity_ok_def)
  consider (invalid) "invalid_preferred_identifier s" | (off) "\<not> invalid_preferred_identifier s" "\<not> on"
    | (pending) c where "\<not> invalid_preferred_identifier s" on "pending_restoration s = Some c"
    | (idle) "\<not> invalid_preferred_identifier s" on "pending_restoration s = None" "selected_identifier s = None"
    | (busy) "\<not> invalid_preferred_identifier s" on "pending_restoration s = None" "selected_identifier s \<noteq> None"
    by (cases on; cases "pending_restoration s"; cases "invalid_preferred_identifier s") auto
  then show ?thesis
  proof cases
    case invalid
    then have pr: "preferred_identifier s \<noteq> None"
      using inv by (cases "preferred_identifier s") (auto simp: melk_inv_def identity_ok_def)
    then have "selected_identifier s = None"
      using inv invalid by (cases "selected_identifier s") (auto simp: melk_inv_def identity_ok_def)
    moreover from this have "pending_restoration s = None"
      using inv by (auto simp: melk_inv_def timers_ok_def)
    moreover have "purpose s = PurposeSelected"
      using inv pr by (cases "purpose s") (auto simp: melk_inv_def probing_ok_def)
    ultimately show ?thesis
      using invalid id by (simp add: handle_bluetooth_state_def Let_def melk_inv_leave)
  next
    case off
    then show ?thesis
      using id by (simp add: handle_bluetooth_state_def Let_def melk_inv_leave forget_selected_connection_def identity_ok_def)
  next
    case (pending c)
    have p: "purpose s = PurposeSelected" "selected_identifier s \<noteq> None"
      using inv pending by (cases "purpose s"; auto simp: melk_inv_def probing_ok_def timers_ok_def)+
    have "link_ok (?s\<lparr>pending_restoration := None\<rparr>)"
      using inv pending by (auto simp: melk_inv_def link_ok_def)
    then show ?thesis
      using pending p id by (simp add: handle_bluetooth_state_def Let_def) (rule melk_inv_resume, simp_all)
  next
    case idle
    have "purpose s = PurposeSelected"
      using inv idle by (cases "purpose s") (auto simp: melk_inv_def probing_ok_def link_ok_def)
    then have scan: "melk_inv parse (melk_transition MelkScanning (push_action ActScan ?s))"
      using idle id by (intro melk_inv_scanning) (simp_all add: push_action_def identity_ok_def)
    have "melk_inv parse ?s"
      using inv idle id by (simp add: melk_inv_def probing_ok_def link_ok_def timers_ok_def)
    then show ?thesis
      using scan idle by (simp add: handle_bluetooth_state_def Let_def split: option.split)
  next
    case busy
    have "melk_inv parse ?s"
      using inv busy id by (auto simp: melk_inv_def probing_ok_def link_ok_def timers_ok_def)
    then show ?thesis
      using busy by (auto simp: handle_bluetooth_state_def Let_def)
  qed
qed

lemma melk_inv_admit:
  assumes inv: "melk_inv parse s" and acc: "melk_accepts parse s i"
    and sc: "is_probing s \<or> sr_state s = MelkScanning"
  shows "melk_inv parse (admit_candidate name i rssi s)"
proof -
  define s1 where "s1 = melk_record (CandidateText name i rssi)
    (s\<lparr>candidates := fmupd i \<lparr>cand_identifier = i, cand_name = name, cand_rssi = rssi\<rparr> (candidates s)\<rparr>)"
  have i: "parse i \<noteq> None" "is_none_or (preferred_identifier s) (\<lambda>p. parse p = parse i)"
    using acc by (auto simp: melk_accepts_def split: option.splits)
  have inv1: "melk_inv parse s1"
    using inv i(1) by (simp add: s1_def melk_defs)
  have s1: "preferred_identifier s1 = preferred_identifier s" "selected_identifier s1 = selected_identifier s"
    "pending_restoration s1 = pending_restoration s" "sr_state s1 = sr_state s" "purpose s1 = purpose s"
    "sr_timer s1 = sr_timer s" "bluetooth_powered_on s1 = bluetooth_powered_on s"
    by (simp_all add: s1_def melk_record_def)
  show ?thesis
  proof (cases "preferred_identifier s")
    case None
    have "pending_restoration s = None"
    proof (cases "is_probing s")
      case False
      then have "selected_identifier s = None"
        using inv sc None by (simp add: melk_inv_def link_ok_def)
      then show ?thesis
        using inv by (auto simp: melk_inv_def timers_ok_def)
    qed (rule probing_facts [OF inv])
    then have "melk_inv parse (probe_next (s1\<lparr>probe_queue := q\<rparr>))" for q
      using inv1 None s1 by (intro melk_inv_probe_next) (simp_all add: melk_defs)
    moreover have "melk_inv parse (s1\<lparr>candidates_out := x\<rparr>)" for x
      using inv1 by (simp add: melk_defs)
    ultimately show ?thesis
      using None inv1 s1 unfolding admit_candidate_def Let_def s1_def [symmetric] by simp
  next
    case (Some p)
    have sel: "purpose s = PurposeSelected" "sr_state s = MelkScanning"
      using Some sc inv by (cases "purpose s"; auto simp: melk_inv_def probing_ok_def is_probing_def)+
    have tm: "sr_timer s = None"
      using inv sel by (cases "sr_timer s"; cases "the (sr_timer s)") (auto simp: melk_inv_def timers_ok_def)
    let ?s = "push_action ActStopScan (s1\<lparr>selected_identifier := Some i, selected_name := name\<rparr>)"
    have "melk_inv parse (connect_selected ?s)"
    proof (rule melk_inv_connect_selected)
      show "identity_ok parse ?s"
        using inv_identity [OF inv1] i s1(1) by (simp add: push_action_def identity_ok_def)
      show "link_ok ?s"
        using inv1 s1 sel Some by (simp add: push_action_def melk_inv_def link_ok_def)
      show "bluetooth_powered_on ?s \<Longrightarrow> pending_restoration ?s = None"
        using inv s1 by (auto simp: push_action_def melk_inv_def timers_ok_def)
    qed (use s1 sel tm in \<open>simp_all add: push_action_def timer_waits_def\<close>)
    then show ?thesis
      using Some s1(1) unfolding admit_candidate_def Let_def s1_def [symmetric] by simp
  qed
qed

lemma melk_inv_discovered: "melk_inv parse s \<Longrightarrow> melk_inv parse (handle_discovered parse name i rssi s)"
  using melk_inv_admit [of parse s i name rssi] by (auto simp: handle_discovered_def)

lemma melk_inv_restored:
  assumes inv: "melk_inv parse s"
  shows "melk_inv parse (handle_restored parse name i connected pending s)"
proof (cases "preferred_identifier s = None \<or> \<not> melk_accepts parse s i")
  case True
  then show ?thesis using inv by (auto simp: handle_restored_def)
next
  case False
  let ?s = "melk_record (RestoreText i) (s\<lparr>selected_identifier := Some i, selected_name := name\<rparr>)"
  have acc: "parse i \<noteq> None" "is_none_or (preferred_identifier s) (\<lambda>p. parse p = parse i)" "preferred_identifier s \<noteq> None"
    using False by (auto simp: melk_accepts_def split: option.splits)
  have sel: "purpose s = PurposeSelected"
    using inv acc(3) by (cases "purpose s") (auto simp: melk_inv_def probing_ok_def)
  have "melk_inv parse (resume_restoration c ?s)" for c
  proof (rule melk_inv_resume)
    show "identity_ok parse ?s"
      using inv acc by (simp add: melk_record_def melk_inv_def identity_ok_def)
    show "link_ok ?s"
      using inv acc(3) by (simp add: melk_record_def melk_inv_def link_ok_def)
    show "\<not> bluetooth_powered_on ?s \<Longrightarrow> timer_waits ?s \<and> purpose ?s = PurposeSelected"
      using inv acc(3) sel by (auto simp: melk_record_def melk_inv_def timers_ok_def timer_waits_def)
  qed (use sel in \<open>simp_all add: melk_record_def\<close>)
  then show ?thesis
    using False by (auto simp: handle_restored_def)
qed

lemma melk_inv_connected:
  assumes inv: "melk_inv parse s"
  shows "melk_inv parse (handle_connected name i s)"
proof (cases "selected_identifier s = Some i")
  case True
  define t where "t = (if name \<noteq> None then s\<lparr>selected_name := name\<rparr> else s)\<lparr>sr_timer := None\<rparr>"
  have t: "sr_state t = sr_state s" "preferred_identifier t = preferred_identifier s" "gatt t = gatt s"
    "selected_identifier t = Some i" "candidates t = candidates s" "purpose t = purpose s"
    "invalid_preferred_identifier t = invalid_preferred_identifier s" "initialization t = initialization s"
    "bluetooth_powered_on t = bluetooth_powered_on s" "sr_timer t = None"
    using True by (simp_all add: t_def)
  have "melk_inv parse (resume_restoration RestoredConnected t)"
  proof (rule melk_inv_resume)
    show "identity_ok parse t"
      using inv_identity [OF inv] t True by (simp add: identity_ok_def)
    show "link_ok t"
      using inv t True by (simp add: melk_inv_def link_ok_def)
    show "\<not> bluetooth_powered_on t \<Longrightarrow> timer_waits t \<and> purpose t = PurposeSelected"
      using inv t by (cases "purpose s") (simp_all add: melk_inv_def probing_ok_def)
    show "purpose t = PurposeProbe \<Longrightarrow> RestoredConnected = RestoredConnected \<and> preferred_identifier t = None"
      using inv t by (simp add: melk_inv_def probing_ok_def)
  qed (simp add: t)
  then show ?thesis
    using True unfolding handle_connected_def Let_def t_def by simp
qed (use inv in \<open>simp add: handle_connected_def\<close>)

lemma link_selected: "melk_inv parse s \<Longrightarrow> needs_selection (sr_state s) \<Longrightarrow> selected_identifier s \<noteq> None"
  by (simp add: melk_inv_def link_ok_def)

lemma melk_inv_connect_failed:
  assumes inv: "melk_inv parse s"
  shows "melk_inv parse (handle_connect_failed reason s)"
proof (cases "sr_state s \<noteq> MelkConnecting \<and> pending_restoration s = None")
  case True
  then show ?thesis using inv by (simp add: handle_connect_failed_def)
next
  case False
  then have sel: "selected_identifier s \<noteq> None"
    using inv link_selected [OF inv] by (cases "sr_state s = MelkConnecting") (auto simp: melk_inv_def timers_ok_def)
  show ?thesis
  proof (cases "is_probing s")
    case True
    then show ?thesis
      using False probing_facts [OF inv True] inv_identity [OF inv]
      by (auto simp: handle_connect_failed_def melk_inv_finish_probe)
  next
    case np: False
    let ?s = "s\<lparr>sr_timer := None, pending_restoration := None\<rparr>"
    have id: "identity_ok parse ?s"
      using inv_identity [OF inv] by (simp add: identity_ok_def)
    have "melk_inv parse (schedule_reconnect (PlatformText reason) ?s)"
      using id sel not_probing [OF np] by (simp add: melk_inv_schedule)
    moreover have "melk_inv parse (melk_transition (MelkFailed (PlatformText reason)) ?s)"
      using id not_probing [OF np] by (simp add: melk_inv_leave)
    ultimately show ?thesis
      using False np by (auto simp: handle_connect_failed_def Let_def)
  qed
qed

lemma melk_inv_services:
  assumes inv: "melk_inv parse s"
  shows "melk_inv parse (handle_services uuids err s)"
proof (cases "sr_state s = MelkDiscovering")
  case True
  have fp: "melk_inv parse (finish_probe ProbeUnavailable s)" if "is_probing s"
    using probing_facts [OF inv that] inv_identity [OF inv] by (simp add: melk_inv_finish_probe)
  have rj: "melk_inv parse (reject_candidate r s)" "melk_inv parse (reject_candidate r (melk_record t s))" for r t
    using inv True by (auto intro!: melk_inv_reject simp: sr_state_record)
  show ?thesis
    using True inv fp rj by (simp add: handle_services_def split: option.split)
qed (use inv in \<open>simp add: handle_services_def\<close>)

lemma melk_inv_characteristics:
  assumes inv: "melk_inv parse s"
  shows "melk_inv parse (handle_characteristics name service chars err s)"
proof (cases "sr_state s = MelkDiscovering")
  case True
  define t where "t = (if name \<noteq> None then s\<lparr>selected_name := name\<rparr> else s)"
  have invt: "melk_inv parse t" "sr_state t = MelkDiscovering"
    using inv True by (auto simp: t_def melk_defs)
  have fp: "melk_inv parse (finish_probe out t)" if "is_probing t" for out
    using probing_facts [OF invt(1) that] inv_identity [OF invt(1)] by (simp add: melk_inv_finish_probe)
  have rj: "melk_inv parse (reject_candidate r t)" for r
    by (rule melk_inv_reject [OF invt])
  have ve: "melk_inv parse (t\<lparr>gatt := GattVerified, initialization := ws\<rparr>)" if "\<not> is_probing t" for ws
    using invt not_probing [OF that] by (auto simp: melk_defs)
  show ?thesis
    using True fp rj ve unfolding handle_characteristics_def Let_def t_def [symmetric]
    by (simp split: option.split)
qed (use inv in \<open>simp add: handle_characteristics_def\<close>)

lemma melk_inv_notification_state:
  assumes inv: "melk_inv parse s"
  shows "melk_inv parse (handle_notification_state ch ready can_send err s)"
proof (cases "(sr_state s = MelkDiscovering \<or> sr_state s = MelkReady) \<and> ch = MELK_NOTIFY_CHANNEL")
  case True
  have pe: "pending_restoration s = None"
    using True inv by (auto simp: melk_inv_def link_ok_def timers_ok_def)
  have fail: "melk_inv parse (melk_transition (MelkFailed r) s)" for r
    using inv pe by (auto simp: melk_inv_def probing_ok_def link_ok_def timers_ok_def transition_leave identity_ok_def)
  define t where "t = (if sr_timer s = Some Discovery then s\<lparr>sr_timer := None\<rparr> else s)\<lparr>gatt := GattSubscribed\<rparr>"
  have drain: "melk_inv parse (drain_initialization can_send t)" if "gatt s \<noteq> GattUnverified"
  proof -
    have "melk_inv parse t"
      using inv True that by (auto simp: t_def melk_defs)
    then show ?thesis
      by (rule melk_inv_drain_initialization)
  qed
  have t_eq: "(if sr_timer s = Some Discovery then s\<lparr>sr_timer := None\<rparr> else s)\<lparr>gatt := GattSubscribed\<rparr> = t"
    by (simp add: t_def)
  show ?thesis
    using True inv fail drain unfolding handle_notification_state_def Let_def t_eq
    by (auto split: option.split)
qed (use inv in \<open>auto simp: handle_notification_state_def\<close>)

lemma melk_inv_clear_timer: "melk_inv parse s \<Longrightarrow> melk_inv parse (s\<lparr>sr_timer := None\<rparr>)"
  by (simp add: melk_inv_def probing_ok_def link_ok_def timers_ok_def identity_ok_def)

lemma melk_inv_timer:
  assumes inv: "melk_inv parse s"
  shows "melk_inv parse (handle_timer t can_send s)"
proof (cases "sr_timer s = Some t")
  case True
  note pe = timer_no_pending [OF inv True]
  show ?thesis
  proof (cases t)
    case ConnectionAttempt
    then show ?thesis
      using True inv pe by (simp add: handle_timer_def melk_inv_timed_out)
  next
    case Discovery
    then show ?thesis
      using True inv pe melk_inv_timed_out [of parse "melk_record GattTimeoutText s"]
      by (simp add: handle_timer_def pending_record)
  next
    case Reconnect
    have st: "\<exists>a d. sr_state s = MelkRetrying a d"
      using inv True Reconnect by (simp add: melk_inv_def timers_ok_def)
    then have "purpose s = PurposeSelected" "selected_identifier s \<noteq> None"
      using inv by (cases "purpose s"; auto simp: melk_inv_def probing_ok_def link_ok_def)+
    moreover have "identity_ok parse (s\<lparr>sr_timer := None\<rparr>)" "link_ok (s\<lparr>sr_timer := None\<rparr>)"
      using melk_inv_clear_timer [OF inv] by (simp_all add: melk_inv_def)
    moreover have "bluetooth_powered_on s \<Longrightarrow> pending_restoration s = None"
      using inv by (cases "pending_restoration s") (simp_all add: melk_inv_def timers_ok_def)
    ultimately have "melk_inv parse (connect_selected (s\<lparr>sr_timer := None\<rparr>))"
      by (intro melk_inv_connect_selected) simp_all
    then show ?thesis
      using True Reconnect by (simp add: handle_timer_def)
  next
    case Initialization
    then show ?thesis
      using True inv by (simp add: handle_timer_def melk_inv_drain_initialization melk_inv_clear_timer)
  next
    case WriteDrain
    then show ?thesis
      using True inv by (simp add: handle_timer_def melk_inv_drain_writes melk_inv_clear_timer)
  qed
qed (use inv in \<open>simp add: handle_timer_def\<close>)

lemma melk_inv_disconnected:
  assumes inv: "melk_inv parse s"
  shows "melk_inv parse (handle_disconnected reason on s)"
proof (cases "on \<and> pending_restoration s = None \<and> sr_state s \<notin> {MelkConnecting, MelkDiscovering, MelkReady}")
  case True
  then show ?thesis using inv by (simp add: handle_disconnected_def)
next
  case False
  let ?s = "s\<lparr>bluetooth_powered_on := on\<rparr>"
  have id: "identity_ok parse ?s"
    using inv_identity [OF inv] by (simp add: identity_ok_def)
  show ?thesis
  proof (cases "is_probing s")
    case True
    have "melk_inv parse (finish_probe ProbeUnavailable ?s)"
      using probing_facts [OF inv True] id by (intro melk_inv_finish_probe) simp_all
    then show ?thesis
      using True False by (auto simp: handle_disconnected_def Let_def is_probing_def)
  next
    case np: False
    define t where "t = melk_record (DisconnectedText (PlatformText reason)) (?s\<lparr>pending_restoration := None\<rparr>)"
    have t: "identity_ok parse t" "pending_restoration t = None" "purpose t = PurposeSelected"
      "selected_identifier t = selected_identifier s"
      using id not_probing [OF np] by (simp_all add: t_def melk_record_def identity_ok_def)
    have "melk_inv parse (melk_transition MelkDisconnected (forget_selected_connection t))"
      using t(1) by (simp add: melk_inv_leave forget_selected_connection_def identity_ok_def)
    moreover have "melk_inv parse (schedule_reconnect (PlatformText reason) t)" if on
    proof -
      have "selected_identifier s \<noteq> None"
        using False that link_selected [OF inv] inv
        by (cases "pending_restoration s") (auto simp: melk_inv_def timers_ok_def)
      then show ?thesis
        using t by (simp add: melk_inv_schedule)
    qed
    moreover have "handle_disconnected reason on s =
        (if reconnect_enabled t \<and> on then schedule_reconnect (PlatformText reason) t
         else melk_transition MelkDisconnected (forget_selected_connection t))"
      using False np by (auto simp: handle_disconnected_def Let_def t_def is_probing_def)
    ultimately show ?thesis
      by simp
  qed
qed

lemma melk_inv_restore_unavailable:
  assumes inv: "melk_inv parse s"
  shows "melk_inv parse (handle_restore_unavailable s)"
proof (cases "bluetooth_powered_on s \<and> preferred_identifier s \<noteq> None \<and> selected_identifier s = None")
  case True
  then have "purpose s = PurposeSelected" "pending_restoration s = None"
    using inv by (cases "purpose s"; auto simp: melk_inv_def probing_ok_def timers_ok_def)+
  then have "melk_inv parse (melk_transition MelkScanning (push_action ActScan s))"
    using True inv_identity [OF inv] by (intro melk_inv_scanning) (simp_all add: push_action_def identity_ok_def)
  then show ?thesis
    using True by (simp add: handle_restore_unavailable_def)
qed (use inv in \<open>auto simp: handle_restore_unavailable_def\<close>)

lemma melk_inv_handle:
  assumes inv: "melk_inv parse s"
  shows "melk_inv parse (melk_handle parse e s)"
proof (cases e)
  case EvResume
  then show ?thesis
    using inv by (auto simp: melk_handle_def handle_resume_def melk_inv_start split: LightingSessionState.split)
next
  case EvConnectTimeout
  then show ?thesis
    using inv timer_no_pending [OF inv, of ConnectionAttempt] by (simp add: melk_handle_def melk_inv_timed_out)
next
  case (EvNotification ch bytes)
  then show ?thesis
    using inv by (simp add: melk_handle_def melk_defs)
qed (use inv in \<open>simp_all add: melk_handle_def melk_inv_bluetooth melk_inv_discovered melk_inv_restore_unavailable
    melk_inv_restored melk_inv_connected melk_inv_connect_failed melk_inv_services melk_inv_characteristics
    melk_inv_notification_state melk_inv_drain_initialization melk_inv_drain_writes melk_inv_timer
    melk_inv_disconnected\<close>)

lemma melk_inv_apply: "melk_inv parse s \<Longrightarrow> melk_inv parse (melk_apply parse s c)"
proof (cases c)
  case (MelkQueue ws)
  assume "melk_inv parse s"
  then show ?thesis
    by (simp add: MelkQueue queue_writes_def melk_defs)
next
  case MelkConfirm
  assume "melk_inv parse s"
  then show ?thesis
    by (simp add: MelkConfirm mark_last_command_confirmed_def melk_defs)
next
  case MelkUnconfirm
  assume "melk_inv parse s"
  then show ?thesis
    by (simp add: MelkUnconfirm mark_last_command_unconfirmed_def melk_defs)
next
  case MelkDrainOutputs
  assume "melk_inv parse s"
  then show ?thesis
    by (simp add: MelkDrainOutputs drain_records_def drain_candidates_def drain_candidate_removals_def
        drain_notifications_def melk_defs)
qed (simp_all add: melk_inv_start melk_inv_stop melk_inv_select melk_inv_drain_writes melk_inv_handle)

lemma melk_inv_step: "melk_inv parse s \<Longrightarrow> melk_inv parse (snd (melk_step parse s c))"
  using melk_inv_apply [of parse s c] by (simp add: melk_step_def drain_actions_def melk_defs)

end
