(* ===== verification/Melk_Actions.thy ===== *)
theory Melk_Actions
  imports Melk_Session
begin

text \<open>
  What the MELK session reducer asks of the platform adapter, over whole runs: its state invariant,
  which peripheral its actions address, which bytes it writes on a link and in what order, and how
  it gives up.  The reducer itself is modelled in \<open>Melk_Session\<close>.
\<close>

section \<open>What a step asks of the platform\<close>

fun addressee :: "LightingSessionAction \<Rightarrow> rust_str option" where
  "addressee (ActConnect i) = Some i"
| "addressee (ActDiscoverServices i _) = Some i"
| "addressee (ActDiscoverCharacteristics i _) = Some i"
| "addressee (ActSubscribe i _) = Some i"
| "addressee (ActWrite i _) = Some i"
| "addressee _ = None"

fun written :: "LightingSessionAction \<Rightarrow> LightingWrite option" where
  "written (ActWrite _ w) = Some w"
| "written _ = None"

definition written_in :: "LightingSessionAction list \<Rightarrow> LightingWrite list" where
  "written_in acts = List.map_filter written acts"

text \<open>Queued actions that address no peripheral, and queued actions that only address the selected one.\<close>

definition bare :: "SessionReducer \<Rightarrow> bool" where
  "bare s \<longleftrightarrow> (\<forall>a \<in> set (actions s). addressee a = None)"

definition aimed :: "SessionReducer \<Rightarrow> bool" where
  "aimed s \<longleftrightarrow> (\<forall>a \<in> set (actions s). is_none_or (addressee a) (\<lambda>i. selected_identifier s = Some i))"

definition writeless :: "SessionReducer \<Rightarrow> bool" where
  "writeless s \<longleftrightarrow> written_in (actions s) = []"

lemma bare_aimed: "bare s \<Longrightarrow> aimed s"
  by (auto simp: bare_def aimed_def)

lemma written_in_simps [simp]:
  "written_in [] = []"
  "written_in (a # as) = (case written a of None \<Rightarrow> written_in as | Some w \<Rightarrow> w # written_in as)"
  by (simp_all add: written_in_def map_filter_simps split: option.split)

lemma written_in_append [simp]: "written_in (xs @ ys) = written_in xs @ written_in ys"
  by (induction xs) (simp_all split: option.split)

lemma bare_simps [simp]:
  "bare (push_action a s) \<longleftrightarrow> bare s \<and> addressee a = None"
  "bare (melk_record t s) = bare s"
  "bare (melk_transition st s) = bare s"
  "bare (discard_candidate i s) = bare s"
  by (auto simp: bare_def push_action_def melk_record_def discard_candidate_def melk_transition_def
      reset_initialization_def Let_def)

lemma aimed_simps [simp]:
  "aimed (push_action a s) \<longleftrightarrow> aimed s \<and> is_none_or (addressee a) (\<lambda>i. selected_identifier s = Some i)"
  "aimed (melk_record t s) = aimed s"
  "aimed (melk_transition st s) = aimed s"
  "aimed (discard_candidate i s) = aimed s"
  "aimed (melk_arm tm d s) = aimed s"
  by (auto simp: aimed_def push_action_def melk_record_def discard_candidate_def melk_transition_def
      melk_arm_def reset_initialization_def Let_def)

lemma writeless_simps [simp]:
  "writeless (push_action a s) \<longleftrightarrow> writeless s \<and> written a = None"
  "writeless (melk_record t s) = writeless s"
  "writeless (melk_transition st s) = writeless s"
  "writeless (discard_candidate i s) = writeless s"
  "writeless (melk_arm tm d s) = writeless s"
  by (auto simp: writeless_def push_action_def melk_record_def discard_candidate_def melk_transition_def
      melk_arm_def reset_initialization_def Let_def split: option.split)

lemma pending_acts [simp]:
  "aimed (s\<lparr>pending_restoration := x\<rparr>) = aimed s" "writeless (s\<lparr>pending_restoration := x\<rparr>) = writeless s"
  by (simp_all add: aimed_def writeless_def)

lemma selected_simps [simp]:
  "selected_identifier (melk_transition st s) = selected_identifier s"
  "selected_identifier (melk_record t s) = selected_identifier s"
  "selected_identifier (push_action a s) = selected_identifier s"
  "selected_identifier (melk_arm tm d s) = selected_identifier s"
  by (simp_all add: melk_record_def push_action_def melk_arm_def melk_transition_def reset_initialization_def Let_def)

lemma probe_next_acts:
  "bare s \<Longrightarrow> aimed (probe_next s)" "writeless s \<Longrightarrow> writeless (probe_next s)"
proof -
  have "bare s \<Longrightarrow> aimed (s\<lparr>probe_queue := queue, selected_name := n, selected_identifier := i, purpose := p\<rparr>)"
    "bare s \<Longrightarrow> aimed (s\<lparr>probe_queue := queue\<rparr>)"
    "writeless s \<Longrightarrow> writeless (s\<lparr>probe_queue := queue, selected_name := n, selected_identifier := i, purpose := p\<rparr>)"
    "writeless s \<Longrightarrow> writeless (s\<lparr>probe_queue := queue\<rparr>)"
    for queue n i p
    by (auto simp: bare_def aimed_def writeless_def)
  then show "bare s \<Longrightarrow> aimed (probe_next s)" "writeless s \<Longrightarrow> writeless (probe_next s)"
    by (simp_all add: probe_next_def bare_aimed split: prod.split option.split)
qed

lemma settle_probe_actions [simp]: "actions (settle_probe outcome i s) = actions s"
  by (simp add: settle_probe_def discard_candidate_def Let_def split: option.split)

lemma finish_probe_acts:
  "bare s \<Longrightarrow> aimed (finish_probe outcome s)" "writeless s \<Longrightarrow> writeless (finish_probe outcome s)"
proof -
  define t where "t i = (settle_probe outcome i (push_action (ActCancelConnect i) (s\<lparr>selected_identifier := None\<rparr>)))
    \<lparr>selected_name := None, purpose := PurposeSelected\<rparr>" for i
  have "bare s \<Longrightarrow> bare (t i)" "writeless s \<Longrightarrow> writeless (t i)" for i
    by (auto simp: bare_def writeless_def t_def push_action_def)
  then show "bare s \<Longrightarrow> aimed (finish_probe outcome s)" "writeless s \<Longrightarrow> writeless (finish_probe outcome s)"
    by (auto simp: finish_probe_def t_def [symmetric] bare_aimed probe_next_acts split: option.split)
qed

lemma connect_selected_acts:
  "aimed s \<Longrightarrow> aimed (connect_selected s)" "writeless s \<Longrightarrow> writeless (connect_selected s)"
  by (simp_all add: connect_selected_def split: option.split)

lemma discover_acts:
  assumes "selected_identifier s = Some i"
  shows "aimed (push_action (ActDiscoverServices i u) (melk_arm tm d (melk_transition st s))) = aimed s"
    "writeless (push_action (ActDiscoverServices i u) (melk_arm tm d (melk_transition st s))) = writeless s"
  using assms by simp_all

lemma resume_aimed: "aimed s \<Longrightarrow> aimed (resume_restoration c s)"
  unfolding resume_restoration_def Let_def
  by (cases c; cases "selected_identifier s") (simp_all add: connect_selected_acts discover_acts)

lemma resume_writeless: "writeless s \<Longrightarrow> writeless (resume_restoration c s)"
  unfolding resume_restoration_def Let_def
  by (cases c; cases "selected_identifier s") (simp_all add: connect_selected_acts discover_acts)

lemma reject_acts:
  "bare s \<Longrightarrow> aimed (reject_candidate r s)" "writeless s \<Longrightarrow> writeless (reject_candidate r s)"
proof -
  have drop: "bare s \<Longrightarrow> aimed (s\<lparr>selected_identifier := None, selected_name := None\<rparr>)"
    "writeless (s\<lparr>selected_identifier := None, selected_name := None\<rparr>) = writeless s" for s
    by (auto simp: bare_def aimed_def writeless_def)
  show "bare s \<Longrightarrow> aimed (reject_candidate r s)" "writeless s \<Longrightarrow> writeless (reject_candidate r s)"
    by (auto simp: reject_candidate_def Let_def drop finish_probe_acts bare_aimed split: option.split)
qed

lemma schedule_acts:
  "aimed s \<Longrightarrow> aimed (schedule_reconnect r s)" "writeless s \<Longrightarrow> writeless (schedule_reconnect r s)"
proof -
  have "aimed (s\<lparr>reconnect_attempt := x\<rparr>) = aimed s" "writeless (s\<lparr>reconnect_attempt := x\<rparr>) = writeless s" for x
    by (simp_all add: aimed_def writeless_def)
  then show "aimed s \<Longrightarrow> aimed (schedule_reconnect r s)" "writeless s \<Longrightarrow> writeless (schedule_reconnect r s)"
    by (simp_all add: schedule_reconnect_def Let_def)
qed

lemma timed_out_acts:
  "bare s \<Longrightarrow> aimed (connection_timed_out s)" "writeless s \<Longrightarrow> writeless (connection_timed_out s)"
proof -
  define s2 where "s2 = (case selected_identifier s of None \<Rightarrow> s\<lparr>sr_timer := None\<rparr>
    | Some i \<Rightarrow> push_action (ActCancelConnect i) (s\<lparr>sr_timer := None, selected_identifier := None\<rparr>))\<lparr>selected_name := None\<rparr>"
  have "bare s \<Longrightarrow> bare s2" "writeless s \<Longrightarrow> writeless s2"
    by (auto simp: s2_def bare_def writeless_def push_action_def split: option.split)
  moreover have "bare (s2\<lparr>reconnect_attempt := x\<rparr>) = bare s2" "writeless (s2\<lparr>reconnect_attempt := x\<rparr>) = writeless s2" for x
    by (simp_all add: bare_def writeless_def)
  ultimately show "bare s \<Longrightarrow> aimed (connection_timed_out s)" "writeless s \<Longrightarrow> writeless (connection_timed_out s)"
    unfolding connection_timed_out_def Let_def
    by (simp_all add: s2_def [symmetric] finish_probe_acts bare_aimed)
qed

lemma forget_acts:
  "bare s \<Longrightarrow> bare (forget_selected_connection s)" "writeless s \<Longrightarrow> writeless (forget_selected_connection s)"
  by (simp_all add: forget_selected_connection_def bare_def writeless_def)

lemma select_acts:
  "bare s \<Longrightarrow> aimed (melk_select i s)" "writeless s \<Longrightarrow> writeless (melk_select i s)"
proof -
  define s1 where "s1 = (if is_probing s
    then (case selected_identifier s of
            Some probe \<Rightarrow> push_action (ActCancelConnect probe)
              (s\<lparr>selected_identifier := None, probe_queue := probe # probe_queue s\<rparr>)
          | None \<Rightarrow> s)\<lparr>purpose := PurposeSelected\<rparr>
    else s)"
  have "bare s \<Longrightarrow> bare s1" "writeless s \<Longrightarrow> writeless s1"
    by (auto simp: s1_def bare_def writeless_def push_action_def split: option.split)
  moreover have "bare s1 \<Longrightarrow> aimed (s1\<lparr>selected_identifier := x, selected_name := n\<rparr>)"
    "writeless (s1\<lparr>selected_identifier := x, selected_name := n\<rparr>) = writeless s1" for x n
    by (auto simp: bare_def aimed_def writeless_def)
  ultimately show "bare s \<Longrightarrow> aimed (melk_select i s)" "writeless s \<Longrightarrow> writeless (melk_select i s)"
    unfolding melk_select_def Let_def s1_def [symmetric]
    by (simp_all add: bare_aimed split: option.split)
qed

lemma bluetooth_acts:
  "bare s \<Longrightarrow> aimed (handle_bluetooth_state on code s)" "writeless s \<Longrightarrow> writeless (handle_bluetooth_state on code s)"
proof -
  define t where "t = s\<lparr>bluetooth_powered_on := on\<rparr>"
  have "bare s \<Longrightarrow> bare t" "writeless s \<Longrightarrow> writeless t"
    by (simp_all add: t_def bare_def writeless_def)
  then show "bare s \<Longrightarrow> aimed (handle_bluetooth_state on code s)" "writeless s \<Longrightarrow> writeless (handle_bluetooth_state on code s)"
    unfolding handle_bluetooth_state_def Let_def t_def [symmetric]
    by (simp_all add: bare_aimed forget_acts resume_aimed resume_writeless split: option.split)
qed

lemma admit_acts:
  "bare s \<Longrightarrow> aimed (admit_candidate name i rssi s)" "writeless s \<Longrightarrow> writeless (admit_candidate name i rssi s)"
proof -
  define c where "c = \<lparr>cand_identifier = i, cand_name = name, cand_rssi = rssi\<rparr>"
  define t where "t = melk_record (CandidateText name i rssi) (s\<lparr>candidates := fmupd i c (candidates s)\<rparr>)"
  have t: "bare s \<Longrightarrow> bare t" "writeless s \<Longrightarrow> writeless t"
    by (simp_all add: t_def melk_record_def bare_def writeless_def)
  have u: "bare t \<Longrightarrow> aimed (t\<lparr>selected_identifier := x, selected_name := n\<rparr>)"
    "writeless (t\<lparr>selected_identifier := x, selected_name := n\<rparr>) = writeless t"
    "bare (t\<lparr>candidates_out := cs\<rparr>) = bare t" "writeless (t\<lparr>candidates_out := cs\<rparr>) = writeless t"
    "bare (t\<lparr>probe_queue := q\<rparr>) = bare t" "writeless (t\<lparr>probe_queue := q\<rparr>) = writeless t" for x n cs q
    by (auto simp: bare_def aimed_def writeless_def)
  show "bare s \<Longrightarrow> aimed (admit_candidate name i rssi s)" "writeless s \<Longrightarrow> writeless (admit_candidate name i rssi s)"
    unfolding admit_candidate_def Let_def c_def [symmetric] t_def [symmetric]
    using t by (simp_all add: u bare_aimed connect_selected_acts probe_next_acts)
qed

lemma discovered_acts:
  "bare s \<Longrightarrow> aimed (handle_discovered parse name i rssi s)"
  "writeless s \<Longrightarrow> writeless (handle_discovered parse name i rssi s)"
  by (simp_all add: handle_discovered_def admit_acts bare_aimed)

lemma restored_acts:
  "bare s \<Longrightarrow> aimed (handle_restored parse name i connected pending s)"
  "writeless s \<Longrightarrow> writeless (handle_restored parse name i connected pending s)"
proof -
  have "bare s \<Longrightarrow> aimed (s\<lparr>selected_identifier := x, selected_name := n\<rparr>)"
    "writeless (s\<lparr>selected_identifier := x, selected_name := n\<rparr>) = writeless s" for x n
    by (auto simp: bare_def aimed_def writeless_def)
  then show "bare s \<Longrightarrow> aimed (handle_restored parse name i connected pending s)"
    "writeless s \<Longrightarrow> writeless (handle_restored parse name i connected pending s)"
    unfolding handle_restored_def by (simp_all add: resume_aimed resume_writeless bare_aimed)
qed

lemma connected_acts:
  "bare s \<Longrightarrow> aimed (handle_connected name i s)" "writeless s \<Longrightarrow> writeless (handle_connected name i s)"
proof -
  have "aimed (s\<lparr>sr_timer := x\<rparr>) = aimed s" "aimed (s\<lparr>selected_name := n, sr_timer := x\<rparr>) = aimed s"
    "writeless (s\<lparr>sr_timer := x\<rparr>) = writeless s" "writeless (s\<lparr>selected_name := n, sr_timer := x\<rparr>) = writeless s" for x n
    by (simp_all add: aimed_def writeless_def)
  then show "bare s \<Longrightarrow> aimed (handle_connected name i s)" "writeless s \<Longrightarrow> writeless (handle_connected name i s)"
    unfolding handle_connected_def Let_def by (simp_all add: resume_aimed resume_writeless bare_aimed)
qed

lemma connect_failed_acts:
  "bare s \<Longrightarrow> aimed (handle_connect_failed r s)" "writeless s \<Longrightarrow> writeless (handle_connect_failed r s)"
proof -
  have "aimed (s\<lparr>sr_timer := x, pending_restoration := y\<rparr>) = aimed s"
    "writeless (s\<lparr>sr_timer := x, pending_restoration := y\<rparr>) = writeless s" for x y
    by (simp_all add: aimed_def writeless_def)
  then show "bare s \<Longrightarrow> aimed (handle_connect_failed r s)" "writeless s \<Longrightarrow> writeless (handle_connect_failed r s)"
    unfolding handle_connect_failed_def Let_def by (simp_all add: finish_probe_acts schedule_acts bare_aimed)
qed

lemma services_acts:
  "bare s \<Longrightarrow> aimed (handle_services us err s)" "writeless s \<Longrightarrow> writeless (handle_services us err s)"
  unfolding handle_services_def
  by (simp_all add: finish_probe_acts reject_acts bare_aimed split: option.split)

lemma characteristics_acts:
  "bare s \<Longrightarrow> aimed (handle_characteristics name svc chars err s)"
  "writeless s \<Longrightarrow> writeless (handle_characteristics name svc chars err s)"
proof -
  define t where "t = (if name \<noteq> None then s\<lparr>selected_name := name\<rparr> else s)"
  have t: "bare s \<Longrightarrow> bare t" "writeless s \<Longrightarrow> writeless t"
    by (simp_all add: t_def bare_def writeless_def)
  have u: "aimed (t\<lparr>gatt := g, initialization := ws\<rparr>) = aimed t" 
    "writeless (t\<lparr>gatt := g, initialization := ws\<rparr>) = writeless t" for g ws
    by (simp_all add: aimed_def writeless_def)
  show "bare s \<Longrightarrow> aimed (handle_characteristics name svc chars err s)"
    "writeless s \<Longrightarrow> writeless (handle_characteristics name svc chars err s)"
    unfolding handle_characteristics_def Let_def t_def [symmetric]
    using t by (simp_all add: u finish_probe_acts reject_acts bare_aimed split: option.split)
qed

lemma disconnected_acts:
  "bare s \<Longrightarrow> aimed (handle_disconnected r on s)" "writeless s \<Longrightarrow> writeless (handle_disconnected r on s)"
proof -
  define t where "t = s\<lparr>bluetooth_powered_on := on\<rparr>"
  have t: "bare s \<Longrightarrow> bare t" "writeless s \<Longrightarrow> writeless t"
    by (simp_all add: t_def bare_def writeless_def)
  have "bare (t\<lparr>pending_restoration := x\<rparr>) = bare t" for x
    by (simp add: bare_def)
  then show "bare s \<Longrightarrow> aimed (handle_disconnected r on s)" "writeless s \<Longrightarrow> writeless (handle_disconnected r on s)"
    unfolding handle_disconnected_def Let_def t_def [symmetric]
    using t by (simp_all add: finish_probe_acts schedule_acts forget_acts bare_aimed)
qed

lemma emit_write_aimed [simp]: "aimed (emit_write w s) = aimed s"
  by (simp add: emit_write_def split: option.split)

lemma emit_write_keeps [simp]:
  "selected_identifier (emit_write w s) = selected_identifier s" "initialization (emit_write w s) = initialization s"
  "gatt (emit_write w s) = gatt s" "sr_state (emit_write w s) = sr_state s" "writes (emit_write w s) = writes s"
  by (simp_all add: emit_write_def push_action_def split: option.split)

lemma drain_aimed:
  "aimed s \<Longrightarrow> aimed (drain_initialization can_send s)" "aimed s \<Longrightarrow> aimed (drain_writes can_send s)"
proof -
  have "aimed (s\<lparr>initialization := ws\<rparr>) = aimed s" "aimed (s\<lparr>writes := ws\<rparr>) = aimed s" for ws
    by (simp_all add: aimed_def)
  then show "aimed s \<Longrightarrow> aimed (drain_initialization can_send s)" "aimed s \<Longrightarrow> aimed (drain_writes can_send s)"
    by (simp_all add: drain_initialization_def drain_writes_def Let_def split: list.split)
qed

lemma notification_state_aimed: "aimed s \<Longrightarrow> aimed (handle_notification_state ch ready can_send err s)"
proof -
  have "aimed (s\<lparr>sr_timer := x, gatt := g\<rparr>) = aimed s" "aimed (s\<lparr>gatt := g\<rparr>) = aimed s" for x g
    by (simp_all add: aimed_def)
  then show "aimed s \<Longrightarrow> aimed (handle_notification_state ch ready can_send err s)"
    by (simp add: handle_notification_state_def Let_def drain_aimed split: option.split)
qed

lemma timer_aimed: "bare s \<Longrightarrow> aimed (handle_timer t can_send s)"
proof -
  have "aimed (s\<lparr>sr_timer := x\<rparr>) = aimed s" for x
    by (simp add: aimed_def)
  then show "bare s \<Longrightarrow> aimed (handle_timer t can_send s)"
    by (cases t) (simp_all add: handle_timer_def timed_out_acts connect_selected_acts drain_aimed bare_aimed)
qed

lemma start_acts: "bare (melk_start parse p s)" "writeless (melk_start parse p s)"
  by (simp_all add: melk_start_def) (simp_all add: bare_def writeless_def)

lemma resume_event_acts:
  "bare s \<Longrightarrow> aimed (handle_resume parse s)" "writeless s \<Longrightarrow> writeless (handle_resume parse s)"
  by (simp_all add: handle_resume_def start_acts bare_aimed split: LightingSessionState.split)

lemma restore_unavailable_acts:
  "bare s \<Longrightarrow> aimed (handle_restore_unavailable s)" "writeless s \<Longrightarrow> writeless (handle_restore_unavailable s)"
  by (simp_all add: handle_restore_unavailable_def bare_aimed)

lemmas handler_aimed = resume_event_acts(1) bluetooth_acts(1) discovered_acts(1) restored_acts(1)
  restore_unavailable_acts(1) connected_acts(1) connect_failed_acts(1) timed_out_acts(1) services_acts(1)
  characteristics_acts(1) disconnected_acts(1) timer_aimed

lemma handle_aimed: "bare s \<Longrightarrow> aimed (melk_handle parse e s)"
proof (cases e)
  case (EvNotification ch bytes)
  assume "bare s"
  then show ?thesis
    by (auto simp: EvNotification melk_handle_def bare_def aimed_def)
qed (simp_all add: melk_handle_def handler_aimed drain_aimed notification_state_aimed bare_aimed)

lemma apply_aimed: "bare s \<Longrightarrow> aimed (melk_apply parse s c)"
proof (cases c)
  case MelkStop
  then show ?thesis
    by (simp add: melk_stop_def) (simp add: aimed_def)
next
  case MelkDrainOutputs
  assume "bare s"
  then show ?thesis
    by (auto simp: MelkDrainOutputs drain_records_def drain_candidates_def drain_candidate_removals_def
        drain_notifications_def bare_def aimed_def)
next
  case (MelkQueue ws)
  assume "bare s"
  then show ?thesis
    by (auto simp: MelkQueue queue_writes_def Let_def bare_def aimed_def)
next
  case MelkConfirm
  assume "bare s"
  then show ?thesis
    by (auto simp: MelkConfirm mark_last_command_confirmed_def bare_def aimed_def)
next
  case MelkUnconfirm
  assume "bare s"
  then show ?thesis
    by (auto simp: MelkUnconfirm mark_last_command_unconfirmed_def bare_def aimed_def)
qed (simp_all add: start_acts select_acts drain_aimed handle_aimed bare_aimed)

section \<open>Runs\<close>

text \<open>A state between two calls: the invariant holds and the adapter has taken every action.\<close>

definition melk_settled :: "(rust_str \<Rightarrow> u128 option) \<Rightarrow> SessionReducer \<Rightarrow> bool" where
  "melk_settled parse s \<longleftrightarrow> melk_inv parse s \<and> actions s = []"

definition melk_run :: "(rust_str \<Rightarrow> u128 option) \<Rightarrow> MelkCall list \<Rightarrow> SessionReducer" where
  "melk_run parse calls = foldl (\<lambda>s c. snd (melk_step parse s c)) reducer_default calls"

interpretation melk: reducer "\<lambda>s c. snd (melk_step parse s c)" reducer_default "melk_settled parse"
  for parse
  by unfold_locales
    (simp_all add: melk_settled_def melk_inv_default melk_inv_step, simp_all add: reducer_default_def melk_step_def drain_actions_def)

lemma run_settled: "melk_settled parse (melk_run parse calls)"
  unfolding melk_run_def by (rule melk.inv_run)

lemma step_aimed:
  assumes "melk_settled parse s" and "melk_step parse s c = (acts, s')" and "a \<in> set acts" and "addressee a = Some i"
  shows "selected_identifier s' = Some i"
proof -
  have "aimed (melk_apply parse s c)"
    using assms(1) by (intro apply_aimed) (simp add: melk_settled_def bare_def)
  then show ?thesis
    using assms(2-4) by (auto simp: melk_step_def drain_actions_def aimed_def)
qed

text \<open>
  C20.  Identity of the accessory.  After any sequence of calls, every peripheral that the next
  call's actions connect to, discover, subscribe to or write is the one selected when that call
  returns; its identifier is a valid UUID, and if an accessory is remembered it is that accessory.
\<close>

theorem melk_addresses_selected:
  assumes "melk_step parse (melk_run parse calls) c = (acts, s')" and "a \<in> set acts" and "addressee a = Some i"
  shows "selected_identifier s' = Some i \<and> parse i \<noteq> None
    \<and> is_none_or (preferred_identifier s') (\<lambda>p. parse p = parse i)"
proof -
  have "melk_settled parse s'"
    using melk.inv_step [OF run_settled, of parse calls c] assms(1) by simp
  moreover have "selected_identifier s' = Some i"
    using step_aimed [OF run_settled assms] .
  ultimately show ?thesis
    by (simp add: melk_settled_def melk_inv_def identity_ok_def)
qed

section \<open>Writes on a link\<close>

definition INIT_WRITES :: "LightingWrite list" where
  "INIT_WRITES = map transport_action initialization_actions"

text \<open>How a handler that writes nothing may leave the link: down, as it was, or newly verified.\<close>

definition relinked :: "SessionReducer \<Rightarrow> SessionReducer \<Rightarrow> bool" where
  "relinked s t \<longleftrightarrow>
     gatt t = GattUnverified
     \<or> gatt t = GattVerified \<and> initialization t = INIT_WRITES
     \<or> gatt t = gatt s \<and> sr_state t = sr_state s \<and> initialization t = initialization s"

lemma relinked_refl [simp]: "relinked s s"
  by (simp add: relinked_def)

lemma relinked_congs [simp]:
  "relinked s (push_action a t) = relinked s t" "relinked s (melk_record x t) = relinked s t"
  "relinked s (melk_arm tm d t) = relinked s t" "relinked s (discard_candidate i t) = relinked s t"
  "relinked (melk_record x s) t = relinked s t"
  by (simp_all add: relinked_def push_action_def melk_record_def melk_arm_def discard_candidate_def)

lemma relinked_transition: "st \<noteq> MelkReady \<Longrightarrow> relinked s (melk_transition st t)"
  by (simp add: relinked_def transition_leave)

lemma relinked_updates [simp]:
  "relinked s (t\<lparr>selected_identifier := i\<rparr>) = relinked s t"
  "relinked s (t\<lparr>selected_name := n\<rparr>) = relinked s t"
  "relinked s (t\<lparr>pending_restoration := r\<rparr>) = relinked s t"
  "relinked s (t\<lparr>bluetooth_powered_on := b\<rparr>) = relinked s t"
  "relinked s (t\<lparr>candidates := cs\<rparr>) = relinked s t"
  "relinked s (t\<lparr>candidates_out := os\<rparr>) = relinked s t"
  "relinked s (t\<lparr>probe_queue := q\<rparr>) = relinked s t"
  "relinked s (t\<lparr>sr_timer := tm\<rparr>) = relinked s t"
  "relinked s (t\<lparr>gatt := GattVerified, initialization := INIT_WRITES\<rparr>)"
  "relinked s (t\<lparr>notifications := ns\<rparr>) = relinked s t"
  by (simp_all add: relinked_def)

lemma relinked_probe_next [simp]: "relinked s t \<Longrightarrow> relinked s (probe_next t)"
  by (simp add: probe_next_def relinked_transition split: prod.split option.split)

lemma relinked_finish_probe [simp]: "relinked s t \<Longrightarrow> relinked s (finish_probe outcome t)"
  by (simp add: finish_probe_def relinked_transition split: option.split)

lemma relinked_connect_selected [simp]: "relinked s t \<Longrightarrow> relinked s (connect_selected t)"
  by (simp add: connect_selected_def relinked_transition split: option.split)

lemma relinked_resume [simp]: "relinked s t \<Longrightarrow> relinked s (resume_restoration c t)"
  unfolding resume_restoration_def Let_def
  by (cases c; cases "selected_identifier t") (simp_all add: relinked_transition)

lemma relinked_reject [simp]: "relinked s t \<Longrightarrow> relinked s (reject_candidate r t)"
  by (simp add: reject_candidate_def relinked_transition Let_def split: option.split)

lemma relinked_schedule [simp]: "relinked s (schedule_reconnect r t)"
  by (simp add: schedule_reconnect_def relinked_transition Let_def)

lemma relinked_timed_out [simp]: "relinked s t \<Longrightarrow> relinked s (connection_timed_out t)"
  unfolding connection_timed_out_def Let_def by (simp add: relinked_transition)

lemma relinked_start [simp]: "relinked s (melk_start parse p t)"
  by (simp add: melk_start_def relinked_transition)

lemma relinked_select: "relinked s (melk_select i s)"
  unfolding melk_select_def Let_def by (simp add: relinked_transition split: option.split)

lemma relinked_bluetooth: "relinked s (handle_bluetooth_state on code s)"
  unfolding handle_bluetooth_state_def Let_def by (simp add: relinked_transition split: option.split)

lemma relinked_admit: "relinked s (admit_candidate n i rssi s)"
proof -
  define t where "t = melk_record (CandidateText n i rssi)
    (s\<lparr>candidates := fmupd i \<lparr>cand_identifier = i, cand_name = n, cand_rssi = rssi\<rparr> (candidates s)\<rparr>)"
  have "relinked s t"
    by (simp add: t_def)
  then show ?thesis
    unfolding admit_candidate_def Let_def t_def [symmetric] by simp
qed

lemma relinked_discovered: "relinked s (handle_discovered parse n i rssi s)"
  by (simp add: handle_discovered_def relinked_admit)

lemma relinked_connect_failed: "relinked s (handle_connect_failed r s)"
  unfolding handle_connect_failed_def Let_def by (simp add: relinked_transition)

lemma relinked_services: "relinked s (handle_services us err s)"
  unfolding handle_services_def by (simp split: option.split)

lemma relinked_characteristics: "relinked s (handle_characteristics n svc chars err s)"
  unfolding handle_characteristics_def Let_def INIT_WRITES_def [symmetric] by (simp split: option.split)

lemma relinked_disconnected: "relinked s (handle_disconnected r on s)"
  unfolding handle_disconnected_def Let_def by (simp add: relinked_transition)

lemma relinked_resume_event: "relinked s (handle_resume parse s)"
  by (simp add: handle_resume_def split: LightingSessionState.split)

lemma relinked_others:
  "relinked s (handle_restored parse n i cn pn s)" "relinked s (handle_connected n i s)"
  "relinked s (handle_restore_unavailable s)"
  unfolding handle_restored_def handle_connected_def handle_restore_unavailable_def Let_def
  by (simp_all add: relinked_transition)

text \<open>
  The writes handed to the adapter since the link was last not subscribed, next to the state.
\<close>

definition melk_log_step :: "(rust_str \<Rightarrow> u128 option) \<Rightarrow> SessionReducer \<times> LightingWrite list \<Rightarrow> MelkCall
    \<Rightarrow> SessionReducer \<times> LightingWrite list" where
  "melk_log_step parse sw c =
     (case melk_step parse (fst sw) c of
        (acts, s') \<Rightarrow> (s', (if gatt s' = GattSubscribed then snd sw else []) @ written_in acts))"

definition log_ok :: "SessionReducer \<times> LightingWrite list \<Rightarrow> bool" where
  "log_ok sw \<longleftrightarrow>
     (case sw of (s, log) \<Rightarrow>
       if gatt s = GattSubscribed
       then (sr_state s = MelkDiscovering \<longrightarrow> log @ initialization s = INIT_WRITES)
         \<and> (sr_state s = MelkReady \<longrightarrow> prefix INIT_WRITES log)
       else log = [] \<and> (gatt s = GattVerified \<longrightarrow> initialization s = INIT_WRITES))"

text \<open>The log after the reducer went from \<open>s\<close> with log \<open>log\<close> to \<open>t\<close>, whose actions are still queued.\<close>

definition log_after :: "LightingWrite list \<Rightarrow> SessionReducer \<Rightarrow> SessionReducer \<times> LightingWrite list" where
  "log_after log t = (t, (if gatt t = GattSubscribed then log else []) @ written_in (actions t))"

lemma log_relinked:
  "log_ok (s, log) \<Longrightarrow> relinked s t \<Longrightarrow> writeless t \<Longrightarrow> log_ok (log_after log t)"
  by (auto simp: log_ok_def log_after_def relinked_def writeless_def)

lemma written_emit [simp]:
  "selected_identifier s \<noteq> None \<Longrightarrow> written_in (actions (emit_write w s)) = written_in (actions s) @ [w]"
  by (auto simp: emit_write_def push_action_def)

lemma log_drain_initialization:
  assumes log: "log_ok (s, log)" and inv: "link_ok s" and quiet: "writeless s"
  shows "log_ok (log_after log (drain_initialization can_send s))"
proof (cases "can_send \<and> gatt s = GattSubscribed \<and> sr_state s = MelkDiscovering \<and> sr_timer s = None")
  case True
  then have sel: "selected_identifier s \<noteq> None"
    using inv by (simp add: link_ok_def)
  show ?thesis
  proof (cases "initialization s")
    case Nil
    then have "drain_initialization can_send s = melk_record NotifyStateText (melk_transition MelkReady s)"
      using True by (simp add: drain_initialization_def)
    moreover have "log = INIT_WRITES"
      using log True Nil by (simp add: log_ok_def)
    ultimately show ?thesis
      using True quiet by (simp add: log_after_def log_ok_def transition_ready melk_record_def writeless_def)
  next
    case (Cons w ws)
    define t where "t = emit_write w (s\<lparr>initialization := ws\<rparr>)"
    have t: "written_in (actions t) = [w]" "initialization t = ws" "gatt t = GattSubscribed" "sr_state t = MelkDiscovering"
      using True quiet sel by (simp_all add: t_def writeless_def)
    have "\<exists>d. drain_initialization can_send s = melk_arm Initialization d t"
      using True Cons by (auto simp: drain_initialization_def t_def)
    then show ?thesis
      using log True Cons t by (auto simp: log_after_def log_ok_def melk_arm_def push_action_def)
  qed
next
  case False
  then have "drain_initialization can_send s = s"
    by (auto simp: drain_initialization_def)
  then show ?thesis
    using log quiet by (auto simp: log_after_def log_ok_def writeless_def)
qed

text \<open>User writes go out only when the accessory is ready.\<close>

lemma log_drain_writes:
  assumes log: "log_ok (log_after log s)" and inv: "link_ok s"
  shows "log_ok (log_after log (drain_writes can_send s))"
proof (cases "can_send \<and> sr_state s = MelkReady \<and> sr_timer s = None \<and> writes s \<noteq> []")
  case True
  then obtain w ws where ws: "writes s = w # ws"
    by (cases "writes s") auto
  define t where "t = emit_write w (melk_record (RequestedText (lw_payload w)) (s\<lparr>writes := ws\<rparr>))"
  have sub: "gatt s = GattSubscribed" and sel: "selected_identifier s \<noteq> None"
    using True inv by (simp_all add: link_ok_def)
  have t: "written_in (actions t) = written_in (actions s) @ [w]" "gatt t = GattSubscribed" "sr_state t = MelkReady"
    using True sub sel by (simp_all add: t_def melk_record_def)
  have "drain_writes can_send s = melk_arm WriteDrain (write_interval w) t"
    using True ws by (simp add: drain_writes_def t_def)
  then show ?thesis
    using log True t sub prefix_prefix [of INIT_WRITES "log @ written_in (actions s)" "[w]"]
    by (simp add: log_after_def log_ok_def melk_arm_def push_action_def)
next
  case False
  then have "drain_writes can_send s = s"
    by (auto simp: drain_writes_def split: list.split)
  then show ?thesis
    using log by simp
qed

lemma log_notification_state:
  assumes log: "log_ok (s, log)" and inv: "link_ok s" and quiet: "writeless s"
  shows "log_ok (log_after log (handle_notification_state ch ready can_send err s))"
proof -
  define t where "t = (if sr_timer s = Some Discovery then s\<lparr>sr_timer := None\<rparr> else s)\<lparr>gatt := GattSubscribed\<rparr>"
  have t: "sr_state t = sr_state s" "initialization t = initialization s" "gatt t = GattSubscribed"
    "selected_identifier t = selected_identifier s" "actions t = actions s" "purpose t = purpose s"
    "bluetooth_powered_on t = bluetooth_powered_on s" "preferred_identifier t = preferred_identifier s"
    by (simp_all add: t_def)
  have down: "log_ok (log_after log (melk_transition (MelkFailed r) s))" for r
    by (rule log_relinked [OF log]) (simp_all add: relinked_transition quiet)
  have up: "log_ok (log_after log (drain_initialization can_send t))" if "gatt s \<noteq> GattUnverified"
  proof (rule log_drain_initialization)
    show "link_ok t"
      using inv that t by (auto simp: link_ok_def)
    show "writeless t"
      using quiet t by (simp add: writeless_def)
    show "log_ok (t, log)"
      using log inv that t by (cases "gatt s") (auto simp: log_ok_def link_ok_def)
  qed
  have same: "log_ok (log_after log s)"
    by (rule log_relinked [OF log]) (simp_all add: quiet)
  show ?thesis
    unfolding handle_notification_state_def Let_def t_def [symmetric]
    using down up same by (simp split: option.split)
qed

lemma log_clear_timer: "log_ok (s\<lparr>sr_timer := None\<rparr>, log) = log_ok (s, log)"
  by (simp add: log_ok_def)

lemma log_timer:
  assumes log: "log_ok (s, log)" and inv: "link_ok s" and quiet: "writeless s"
  shows "log_ok (log_after log (handle_timer tm can_send s))"
proof -
  let ?s = "s\<lparr>sr_timer := None\<rparr>"
  have s: "log_ok (?s, log)" "link_ok ?s" "writeless ?s"
    using log inv quiet by (simp_all add: log_clear_timer link_ok_def writeless_def)
  have same: "log_ok (log_after log s)" "log_ok (log_after log ?s)"
    by (rule log_relinked [OF log], simp_all add: quiet s)+
  have silent: "log_ok (log_after log (connection_timed_out s))"
    "log_ok (log_after log (connection_timed_out (melk_record GattTimeoutText s)))"
    "log_ok (log_after log (connect_selected ?s))"
    by (rule log_relinked [OF log], simp_all add: timed_out_acts connect_selected_acts quiet s)+
  show ?thesis
    unfolding handle_timer_def
    using same silent log_drain_initialization [OF s] log_drain_writes [OF same(2) s(2)]
    by (simp split: LightingTimer.split)
qed

lemmas handler_relinked = relinked_resume_event relinked_bluetooth relinked_discovered relinked_others
  relinked_connect_failed relinked_services relinked_characteristics relinked_disconnected

lemmas handler_writeless = resume_event_acts(2) bluetooth_acts(2) discovered_acts(2) restored_acts(2)
  restore_unavailable_acts(2) connected_acts(2) connect_failed_acts(2) timed_out_acts(2) services_acts(2)
  characteristics_acts(2) disconnected_acts(2)

lemma log_handle:
  assumes log: "log_ok (s, log)" and inv: "melk_inv parse s" and quiet: "writeless s"
  shows "log_ok (log_after log (melk_handle parse e s))"
proof -
  note link = inv [unfolded melk_inv_def, THEN conjunct2, THEN conjunct1]
  have silent: "relinked s t \<Longrightarrow> writeless t \<Longrightarrow> log_ok (log_after log t)" for t
    by (rule log_relinked [OF log])
  show ?thesis
  proof (cases "reconnect_enabled s")
    case True
    show ?thesis
    proof (cases e)
      case (EvNotification ch bytes)
      then show ?thesis
        using True quiet by (intro silent) (simp_all add: melk_handle_def writeless_def)
    next
      case (EvWriteReady can_send)
      have "link_ok (drain_initialization can_send s)"
        using melk_inv_drain_initialization [OF inv] by (simp add: melk_inv_def)
      then show ?thesis
        using True log_drain_writes [OF log_drain_initialization [OF log link quiet]]
        by (simp add: melk_handle_def EvWriteReady)
    qed (use True in \<open>simp_all add: melk_handle_def silent handler_relinked handler_writeless quiet
        log_timer [OF log link quiet] log_notification_state [OF log link quiet]\<close>)
  next
    case False
    then show ?thesis
      using quiet by (intro silent) (simp_all add: melk_handle_def)
  qed
qed

lemma log_apply:
  assumes log: "log_ok (s, log)" and inv: "melk_inv parse s" and quiet: "writeless s"
  shows "log_ok (log_after log (melk_apply parse s c))"
proof -
  have silent: "relinked s t \<Longrightarrow> writeless t \<Longrightarrow> log_ok (log_after log t)" for t
    by (rule log_relinked [OF log])
  have link: "link_ok s"
    using inv by (simp add: melk_inv_def)
  have same: "log_ok (log_after log s)"
    using quiet by (intro silent) simp_all
  show ?thesis
  proof (cases c)
    case (MelkDrainWrites can_send)
    then show ?thesis
      using log_drain_writes [OF same link] by simp
  next
    case MelkStop
    have "relinked s (melk_stop s)" "writeless (melk_stop s)"
      by (simp_all add: melk_stop_def relinked_transition) (simp add: writeless_def)
    then show ?thesis
      by (simp add: MelkStop silent)
  next
    case (MelkQueue ws)
    have "relinked s (snd (queue_writes ws s))" "writeless (snd (queue_writes ws s))"
      using quiet by (simp_all add: queue_writes_def Let_def relinked_def writeless_def)
    then show ?thesis
      by (simp add: MelkQueue silent)
  next
    case MelkConfirm
    have "relinked s (snd (mark_last_command_confirmed s))" "writeless (snd (mark_last_command_confirmed s))"
      using quiet by (simp_all add: mark_last_command_confirmed_def relinked_def writeless_def)
    then show ?thesis
      by (simp add: MelkConfirm silent)
  next
    case MelkUnconfirm
    have "relinked s (mark_last_command_unconfirmed s)" "writeless (mark_last_command_unconfirmed s)"
      using quiet by (simp_all add: mark_last_command_unconfirmed_def relinked_def writeless_def)
    then show ?thesis
      by (simp add: MelkUnconfirm silent)
  next
    case MelkDrainOutputs
    have "relinked s (melk_apply parse s c)" "writeless (melk_apply parse s c)"
      using quiet by (simp_all add: MelkDrainOutputs drain_records_def drain_candidates_def
          drain_candidate_removals_def drain_notifications_def relinked_def writeless_def)
    then show ?thesis
      by (rule silent)
  qed (simp_all add: silent relinked_select start_acts select_acts quiet log_handle [OF log inv quiet])
qed

definition log_settled :: "(rust_str \<Rightarrow> u128 option) \<Rightarrow> SessionReducer \<times> LightingWrite list \<Rightarrow> bool" where
  "log_settled parse sw \<longleftrightarrow> melk_settled parse (fst sw) \<and> log_ok sw"

lemma log_settled_step:
  assumes "log_settled parse sw"
  shows "log_settled parse (melk_log_step parse sw c)"
proof -
  obtain s log where sw: "sw = (s, log)"
    by (cases sw)
  have s: "melk_settled parse s" "log_ok (s, log)"
    using assms by (simp_all add: log_settled_def sw)
  define t where "t = melk_apply parse s c"
  have "log_ok (log_after log t)"
    using log_apply [OF s(2), of parse c] s(1) by (simp add: t_def melk_settled_def writeless_def)
  then show ?thesis
    using s(1) melk_inv_step [of parse s c]
    by (simp add: sw log_settled_def melk_settled_def melk_log_step_def melk_step_def drain_actions_def
        t_def [symmetric] log_after_def log_ok_def split: if_splits)
qed

interpretation melk_log: reducer "melk_log_step parse" "(reducer_default, [])" "log_settled parse"
  for parse
  by unfold_locales
    (simp_all add: log_settled_step, simp add: log_settled_def melk.inv_init log_ok_def, simp add: reducer_default_def)

lemma log_fst: "fst (foldl (melk_log_step parse) (reducer_default, []) calls) = melk_run parse calls"
  by (induction calls rule: rev_induct)
    (simp_all add: melk_run_def melk_log_step_def split: prod.split)

text \<open>
  C19.  Initialization comes first.  Follow any sequence of calls and keep, next to the state, the
  writes handed to the adapter since the link was last not subscribed.  While the link is not
  subscribed nothing has been written; while the reducer is initializing, what was written and
  what is still to be written are together exactly the two initialization frames; and once it is
  ready, both frames went out first and in order, before every user write.
\<close>

theorem melk_initialization_first:
  assumes "foldl (melk_log_step parse) (reducer_default, []) calls = (s, log)"
  shows "s = melk_run parse calls
    \<and> (gatt s \<noteq> GattSubscribed \<longrightarrow> log = [])
    \<and> (gatt s = GattSubscribed \<and> sr_state s = MelkDiscovering \<longrightarrow> log @ initialization s = INIT_WRITES)
    \<and> (sr_state s = MelkReady \<longrightarrow> prefix INIT_WRITES log)"
proof -
  have settled: "log_settled parse (s, log)"
    using melk_log.inv_run [of parse calls] assms by simp
  then have ok: "log_ok (s, log)"
    by (simp add: log_settled_def)
  have "sr_state s = MelkReady \<Longrightarrow> gatt s = GattSubscribed"
    using settled by (simp add: log_settled_def melk_settled_def melk_inv_def link_ok_def)
  then show ?thesis
    using log_fst [of parse calls] assms ok by (cases "gatt s = GattSubscribed") (auto simp: log_ok_def)
qed

section \<open>Giving up\<close>

text \<open>A selected accessory that is being connected after \<open>n\<close> failures in a row.\<close>

definition connecting_after :: "nat \<Rightarrow> SessionReducer \<Rightarrow> bool" where
  "connecting_after n s \<longleftrightarrow> sr_state s = MelkConnecting \<and> purpose s = PurposeSelected \<and> reconnect_enabled s
     \<and> bluetooth_powered_on s \<and> selected_identifier s \<noteq> None \<and> reconnect_attempt s = of_nat n"

definition given_up :: "SessionReducer \<Rightarrow> bool" where
  "given_up s \<longleftrightarrow> sr_state s = MelkFailed ReconnectExhaustedText \<and> sr_timer s = None \<and> reconnect_enabled s
     \<and> pending_restoration s = None"

text \<open>The platform reports that the connection attempt failed, and later the reconnect timer fires.\<close>

definition fail_round :: "rust_str \<Rightarrow> MelkCall list" where
  "fail_round reason = [MelkEvent (EvConnectFailed reason), MelkEvent (EvTimerFired Reconnect True)]"

definition melk_rounds :: "(rust_str \<Rightarrow> u128 option) \<Rightarrow> rust_str list \<Rightarrow> SessionReducer \<Rightarrow> SessionReducer" where
  "melk_rounds parse reasons s = foldl (\<lambda>s c. snd (melk_step parse s c)) s (concat (map fail_round reasons))"

lemma melk_rounds_simps:
  "melk_rounds parse [] s = s"
  "melk_rounds parse (reasons @ [r]) s =
     snd (melk_step parse (snd (melk_step parse (melk_rounds parse reasons s) (MelkEvent (EvConnectFailed r))))
       (MelkEvent (EvTimerFired Reconnect True)))"
  by (simp_all add: melk_rounds_def fail_round_def)

lemma small_attempt:
  assumes "n \<le> (3::nat)"
  shows "saturating_add (of_nat n :: u8) 1 = of_nat (Suc n)" "MAX_RECONNECT_ATTEMPTS < (of_nat (Suc n) :: u8) \<longleftrightarrow> n = 3"
proof -
  have "n = 0 \<or> n = 1 \<or> n = 2 \<or> n = 3"
    using assms by arith
  then show "saturating_add (of_nat n :: u8) 1 = of_nat (Suc n)" "MAX_RECONNECT_ATTEMPTS < (of_nat (Suc n) :: u8) \<longleftrightarrow> n = 3"
    by (elim disjE; simp; code_simp)+
qed

lemma fail_round_retries:
  assumes "connecting_after n s" and "n < 3"
  shows "connecting_after (Suc n) (snd (melk_step parse (snd (melk_step parse s (MelkEvent (EvConnectFailed r))))
    (MelkEvent (EvTimerFired Reconnect True))))"
  using assms small_attempt [of n]
  by (auto simp: connecting_after_def melk_step_def drain_actions_def melk_handle_def handle_connect_failed_def
      is_probing_def schedule_reconnect_def handle_timer_def connect_selected_def transition_leave melk_arm_def
      push_action_def melk_record_def Let_def)

lemma fail_round_gives_up:
  assumes "connecting_after 3 s"
  shows "given_up (snd (melk_step parse (snd (melk_step parse s (MelkEvent (EvConnectFailed r))))
    (MelkEvent (EvTimerFired Reconnect True))))"
  using assms small_attempt [of 3]
  by (auto simp: connecting_after_def given_up_def melk_step_def drain_actions_def melk_handle_def handle_connect_failed_def
      is_probing_def schedule_reconnect_def handle_timer_def transition_leave melk_record_def Let_def)

lemma given_up_stays:
  "given_up s \<Longrightarrow> given_up (snd (melk_step parse (snd (melk_step parse s (MelkEvent (EvConnectFailed r))))
    (MelkEvent (EvTimerFired Reconnect True))))"
  by (simp add: given_up_def melk_step_def drain_actions_def melk_handle_def handle_connect_failed_def handle_timer_def)

text \<open>
  C39.  The retry loop ends.  Whenever the reducer is connecting to a selected accessory with no
  failure recorded, a run of connection failures, each followed by the reconnect timer, makes it
  try three more times and then fail for good: with at most three failures it is connecting
  again and has counted them, with more it reports that reconnection is exhausted and no timer is
  left running.
\<close>

theorem melk_retries_end:
  assumes "connecting_after 0 (melk_run parse calls)"
  shows "if length reasons \<le> 3
    then connecting_after (length reasons) (melk_rounds parse reasons (melk_run parse calls))
    else given_up (melk_rounds parse reasons (melk_run parse calls))"
proof (induction reasons rule: rev_induct)
  case Nil
  then show ?case
    using assms by (simp add: melk_rounds_simps)
next
  case (snoc r reasons)
  define s where "s = melk_rounds parse reasons (melk_run parse calls)"
  consider "length reasons < 3" | "length reasons = 3" | "3 < length reasons"
    by linarith
  then show ?case
    using snoc fail_round_retries [of "length reasons" s parse r] fail_round_gives_up [of s parse r]
      given_up_stays [of s parse r]
    unfolding melk_rounds_simps s_def [symmetric] by cases simp_all
qed

section \<open>Witnesses\<close>

definition one_uuid :: "rust_str \<Rightarrow> u128 option" where
  "one_uuid i = (if i = [65] then Some 1 else None)"

definition supported_chars :: "LightingCharacteristicEvidence list" where
  "supported_chars =
     [\<lparr>ce_uuid = MELK_WRITE_CHANNEL, write_without_response = True, notify_or_indicate = False\<rparr>,
      \<lparr>ce_uuid = MELK_NOTIFY_CHANNEL, write_without_response = False, notify_or_indicate = True\<rparr>]"

text \<open>A candidate is discovered, probed and found supported, selected, connected and verified.\<close>

definition verify_calls :: "MelkCall list" where
  "verify_calls =
     [MelkStart None, MelkEvent (EvBluetoothState True 5), MelkEvent (EvDiscovered None [65] (- 50)),
      MelkEvent (EvConnected None [65]), MelkEvent (EvServicesDiscovered [MELK_SERVICE_CHANNEL] None),
      MelkEvent (EvCharacteristicsDiscovered None MELK_SERVICE_CHANNEL supported_chars None), MelkSelect [65],
      MelkEvent (EvConnected None [65]), MelkEvent (EvServicesDiscovered [MELK_SERVICE_CHANNEL] None)]"

definition ready_calls :: "MelkCall list" where
  "ready_calls = verify_calls @
     [MelkEvent (EvCharacteristicsDiscovered None MELK_SERVICE_CHANNEL supported_chars None),
      MelkEvent (EvNotificationState MELK_NOTIFY_CHANNEL True True None),
      MelkEvent (EvTimerFired Initialization True), MelkEvent (EvTimerFired Initialization True)]"

definition restore_calls :: "MelkCall list" where
  "restore_calls = [MelkStart (Some [65]), MelkEvent (EvBluetoothState True 5), MelkEvent (EvRestored None [65] False False)]"

theorem melk_addresses_selected_witness:
  "\<exists>acts s'. melk_step one_uuid (melk_run one_uuid verify_calls)
        (MelkEvent (EvCharacteristicsDiscovered None MELK_SERVICE_CHANNEL supported_chars None)) = (acts, s')
     \<and> ActSubscribe [65] MELK_NOTIFY_CHANNEL \<in> set acts \<and> selected_identifier s' = Some [65] \<and> one_uuid [65] \<noteq> None"
proof -
  obtain acts s' where step: "melk_step one_uuid (melk_run one_uuid verify_calls)
      (MelkEvent (EvCharacteristicsDiscovered None MELK_SERVICE_CHANNEL supported_chars None)) = (acts, s')"
    by (cases "melk_step one_uuid (melk_run one_uuid verify_calls)
      (MelkEvent (EvCharacteristicsDiscovered None MELK_SERVICE_CHANNEL supported_chars None))")
  have "ActSubscribe [65] MELK_NOTIFY_CHANNEL \<in> set (fst (melk_step one_uuid (melk_run one_uuid verify_calls)
      (MelkEvent (EvCharacteristicsDiscovered None MELK_SERVICE_CHANNEL supported_chars None))))"
    by code_simp
  then have act: "ActSubscribe [65] MELK_NOTIFY_CHANNEL \<in> set acts"
    by (simp add: step)
  show ?thesis
    using melk_addresses_selected [OF step act, of "[65]"] step act by simp
qed

theorem melk_initialization_first_witness:
  "\<exists>s log. foldl (melk_log_step one_uuid) (reducer_default, []) ready_calls = (s, log)
     \<and> sr_state s = MelkReady \<and> prefix INIT_WRITES log"
proof -
  obtain s log where run: "foldl (melk_log_step one_uuid) (reducer_default, []) ready_calls = (s, log)"
    by (cases "foldl (melk_log_step one_uuid) (reducer_default, []) ready_calls")
  have "sr_state (fst (foldl (melk_log_step one_uuid) (reducer_default, []) ready_calls)) = MelkReady"
    by code_simp
  then show ?thesis
    using melk_initialization_first [OF run] run by simp
qed

theorem melk_retries_end_witness:
  "connecting_after 0 (melk_run one_uuid restore_calls)
     \<and> given_up (melk_rounds one_uuid [[1], [2], [3], [4]] (melk_run one_uuid restore_calls))"
proof -
  have "connecting_after 0 (melk_run one_uuid restore_calls)"
    by code_simp
  then show ?thesis
    using melk_retries_end [of one_uuid restore_calls "[[1], [2], [3], [4]]"] by simp
qed

end
