(* ===== verification/Ride_Recording.thy ===== *)
theory Ride_Recording
  imports Prelude
begin

text \<open>
  The durable recording lifecycle of \<^verbatim>\<open>cutout-ride-maps/src/lifecycle.rs\<close>: its states, events,
  predicates, the transition table and the actions offered for a state.  Shown, by rule induction on
  the accepted histories: what every saved recording went through, and that offered actions are
  exactly the ones that apply.
\<close>

datatype RideLifecycleState =
    Draft
  | RecActive
  | RecPaused
  | RecStopped
  | RecInterrupted
  | RecDiscarded
  | RecSaved
  | RecImported

datatype RideEvent =
    EvStart
  | EvPause
  | EvResume
  | EvStop
  | EvInterrupt
  | EvDiscard
  | EvSave
  | EvImport

datatype TransitionError = TransitionInvalid

definition is_recording :: "RideLifecycleState \<Rightarrow> bool" where
  "is_recording s =
     (case s of
        RecActive \<Rightarrow> True | RecPaused \<Rightarrow> True
      | Draft \<Rightarrow> False | RecStopped \<Rightarrow> False | RecInterrupted \<Rightarrow> False | RecDiscarded \<Rightarrow> False
      | RecSaved \<Rightarrow> False | RecImported \<Rightarrow> False)"

definition is_discardable :: "RideLifecycleState \<Rightarrow> bool" where
  "is_discardable s =
     (case s of
        RecStopped \<Rightarrow> True | RecInterrupted \<Rightarrow> True
      | Draft \<Rightarrow> False | RecActive \<Rightarrow> False | RecPaused \<Rightarrow> False | RecDiscarded \<Rightarrow> False
      | RecSaved \<Rightarrow> False | RecImported \<Rightarrow> False)"

definition only_allows_new_recording :: "RideLifecycleState \<Rightarrow> bool" where
  "only_allows_new_recording s =
     (case s of
        RecSaved \<Rightarrow> True | RecDiscarded \<Rightarrow> True
      | Draft \<Rightarrow> False | RecActive \<Rightarrow> False | RecPaused \<Rightarrow> False | RecStopped \<Rightarrow> False
      | RecInterrupted \<Rightarrow> False | RecImported \<Rightarrow> False)"

definition has_recorded_bounds :: "RideLifecycleState \<Rightarrow> bool" where
  "has_recorded_bounds s =
     (case s of
        RecStopped \<Rightarrow> True | RecInterrupted \<Rightarrow> True | RecDiscarded \<Rightarrow> True | RecSaved \<Rightarrow> True
      | RecImported \<Rightarrow> True
      | Draft \<Rightarrow> False | RecActive \<Rightarrow> False | RecPaused \<Rightarrow> False)"

definition allows_auto_recording_replacement :: "RideLifecycleState \<Rightarrow> bool" where
  "allows_auto_recording_replacement s =
     (case s of
        RecInterrupted \<Rightarrow> True | RecSaved \<Rightarrow> True | RecDiscarded \<Rightarrow> True
      | Draft \<Rightarrow> False | RecActive \<Rightarrow> False | RecPaused \<Rightarrow> False | RecStopped \<Rightarrow> False
      | RecImported \<Rightarrow> False)"

definition is_terminal :: "RideLifecycleState \<Rightarrow> bool" where
  "is_terminal s =
     (case s of
        RecStopped \<Rightarrow> True | RecInterrupted \<Rightarrow> True | RecDiscarded \<Rightarrow> True | RecSaved \<Rightarrow> True
      | Draft \<Rightarrow> False | RecActive \<Rightarrow> False | RecPaused \<Rightarrow> False | RecImported \<Rightarrow> False)"

record ValidatedRideTransition =
  previous :: RideLifecycleState
  next_state :: RideLifecycleState

fun recording_next :: "RideLifecycleState \<Rightarrow> RideEvent \<Rightarrow> TransitionError + RideLifecycleState" where
  "recording_next Draft EvStart = Inr RecActive"
| "recording_next RecPaused EvResume = Inr RecActive"
| "recording_next RecInterrupted EvResume = Inr RecActive"
| "recording_next Draft EvImport = Inr RecImported"
| "recording_next RecActive EvPause = Inr RecPaused"
| "recording_next RecActive EvStop = Inr RecStopped"
| "recording_next RecPaused EvStop = Inr RecStopped"
| "recording_next RecActive EvInterrupt = Inr RecInterrupted"
| "recording_next RecPaused EvInterrupt = Inr RecInterrupted"
| "recording_next Draft EvDiscard = Inr RecDiscarded"
| "recording_next RecActive EvDiscard = Inr RecDiscarded"
| "recording_next RecPaused EvDiscard = Inr RecDiscarded"
| "recording_next RecStopped EvDiscard = Inr RecDiscarded"
| "recording_next RecInterrupted EvDiscard = Inr RecDiscarded"
| "recording_next RecStopped EvSave = Inr RecSaved"
| "recording_next RecInterrupted EvSave = Inr RecSaved"
| "recording_next _ _ = Inl TransitionInvalid"

definition recording_transition ::
  "RideLifecycleState \<Rightarrow> RideEvent \<Rightarrow> TransitionError + ValidatedRideTransition" where
  "recording_transition s ev =
     (case recording_next s ev of
        Inl e \<Rightarrow> Inl e
      | Inr s' \<Rightarrow> Inr \<lparr>previous = s, next_state = s'\<rparr>)"

definition recording_apply :: "RideLifecycleState \<Rightarrow> RideEvent \<Rightarrow> TransitionError + RideLifecycleState" where
  "recording_apply s ev =
     (case recording_transition s ev of Inl e \<Rightarrow> Inl e | Inr t \<Rightarrow> Inr (next_state t))"

definition recording_actions :: "RideLifecycleState \<Rightarrow> RideEvent list" where
  "recording_actions s =
     (if only_allows_new_recording s then [EvStart]
      else filter (\<lambda>ev. ev \<noteq> EvDiscard \<or> is_discardable s)
             (filter (\<lambda>ev. \<not> isl (recording_apply s ev))
                [EvStart, EvPause, EvResume, EvStop, EvSave, EvDiscard]))"

section \<open>Histories\<close>

text \<open>\<open>recording_history evs s\<close>: a recording created as a draft accepted the events \<open>evs\<close> and is in \<open>s\<close>.\<close>

inductive recording_history :: "RideEvent list \<Rightarrow> RideLifecycleState \<Rightarrow> bool" where
  created: "recording_history [] Draft"
| accepted: "recording_history evs s \<Longrightarrow> recording_apply s ev = Inr s' \<Longrightarrow> recording_history (evs @ [ev]) s'"

code_pred recording_history .

lemma recording_apply_iff: "recording_apply s ev = Inr s' \<longleftrightarrow> recording_next s ev = Inr s'"
  by (simp add: recording_apply_def recording_transition_def split: sum.splits)

fun_cases recording_nextE: "recording_next s ev = Inr s'"

lemma recording_history_shape:
  "recording_history evs s \<Longrightarrow>
     (case s of
        Draft \<Rightarrow> evs = []
      | RecImported \<Rightarrow> evs = [EvImport]
      | RecDiscarded \<Rightarrow> evs \<noteq> [] \<and> last evs = EvDiscard \<and> EvSave \<notin> set evs
      | RecSaved \<Rightarrow> (\<exists>pre. evs = EvStart # pre @ [EvSave] \<and> (EvStop \<in> set pre \<or> EvInterrupt \<in> set pre)
                     \<and> set pre \<subseteq> {EvPause, EvResume, EvStop, EvInterrupt})
      | _ \<Rightarrow> (\<exists>pre. evs = EvStart # pre \<and> set pre \<subseteq> {EvPause, EvResume, EvStop, EvInterrupt}
                \<and> (s = RecStopped \<longrightarrow> EvStop \<in> set pre) \<and> (s = RecInterrupted \<longrightarrow> EvInterrupt \<in> set pre)))"
proof (induction rule: recording_history.induct)
  case (accepted evs s ev s')
  have "EvSave \<notin> set pre" if "set pre \<subseteq> {EvPause, EvResume, EvStop, EvInterrupt}" for pre
    using that by auto
  then show ?case
    using accepted by (auto simp: recording_apply_iff elim!: recording_nextE)
qed simp

text \<open>
  Only a finished live ride is saved: every recording that reaches the saved state was started,
  after that only paused, resumed, stopped or interrupted, was stopped or interrupted at least once,
  and was then saved; in particular an imported or discarded recording is never saved, and once
  saved no further event is accepted.
\<close>

lemma recording_saved_history:
  assumes "recording_history evs RecSaved"
  shows "\<exists>pre. evs = EvStart # pre @ [EvSave] \<and> (EvStop \<in> set pre \<or> EvInterrupt \<in> set pre)
      \<and> set pre \<subseteq> {EvPause, EvResume, EvStop, EvInterrupt}
      \<and> (\<forall>ev. recording_apply RecSaved ev = Inl TransitionInvalid)"
proof -
  have "recording_apply RecSaved ev = Inl TransitionInvalid" for ev
    by (cases ev) (simp_all add: recording_apply_def recording_transition_def)
  then show ?thesis
    using recording_history_shape [OF assms] by auto
qed

lemma recording_saved_history_example:
  "\<exists>pre. [EvStart, EvPause, EvStop, EvSave] = EvStart # pre @ [EvSave]
      \<and> (EvStop \<in> set pre \<or> EvInterrupt \<in> set pre)"
proof -
  have "recording_history [EvStart] RecActive"
    using accepted [OF created, of EvStart RecActive] by (simp add: recording_apply_iff)
  from accepted [OF this, of EvPause RecPaused] have "recording_history [EvStart, EvPause] RecPaused"
    by (simp add: recording_apply_iff)
  from accepted [OF this, of EvStop RecStopped] have "recording_history [EvStart, EvPause, EvStop] RecStopped"
    by (simp add: recording_apply_iff)
  from accepted [OF this, of EvSave RecSaved] have "recording_history [EvStart, EvPause, EvStop, EvSave] RecSaved"
    by (simp add: recording_apply_iff)
  from recording_saved_history [OF this] show ?thesis
    by blast
qed

text \<open>
  The actions offered for a recording are truthful: while it is not yet saved or discarded, an
  offered action is exactly a rider action that applies, except that discarding is offered only once
  the recording has stopped or was interrupted; afterwards only the start of a new ride is offered.
\<close>

lemma recording_actions_exact:
  "ev \<in> set (recording_actions s) \<longleftrightarrow>
     (if s = RecSaved \<or> s = RecDiscarded then ev = EvStart
      else (\<exists>s'. recording_apply s ev = Inr s')
        \<and> (ev \<in> {EvStart, EvPause, EvResume, EvStop, EvSave}
             \<or> ev = EvDiscard \<and> (s = RecStopped \<or> s = RecInterrupted)))"
  by (cases s; cases ev) (simp_all add: recording_actions_def recording_apply_def recording_transition_def
      only_allows_new_recording_def is_discardable_def)

end
