(* ===== verification/Elapsed_Time.thy ===== *)
theory Elapsed_Time
  imports Interfaces Core_Units
begin

text \<open>
  The elapsed-time continuation of \<^verbatim>\<open>cutout-ride-maps/src/elapsed_time.rs\<close>: the duration of a ride
  with a monotonic anchor, pauses and interruptions included.  Shown: reachable states are accepted
  by the rehydration check, a projection is what observing would store, and over any history of one
  process the stored duration is the time from the start to the newest instant accounted for.
\<close>

datatype ElapsedTimeSummary =
    ElapsedUnavailable
  | ElapsedComplete u64
  | ElapsedPartial u64

definition summary_duration :: "ElapsedTimeSummary \<Rightarrow> u64 option" where
  "summary_duration s =
     (case s of ElapsedUnavailable \<Rightarrow> None | ElapsedComplete d \<Rightarrow> Some d | ElapsedPartial d \<Rightarrow> Some d)"

record ElapsedTimeStateParts =
  duration_milliseconds :: "u64 option"
  anchor_milliseconds :: "u64 option"
  running :: bool
  partial :: bool

datatype ElapsedTimeError = ElapsedInvalidState

definition elapsed_from_state_parts :: "ElapsedTimeStateParts \<Rightarrow> ElapsedTimeError + ElapsedTimeStateParts" where
  "elapsed_from_state_parts p =
     (if (duration_milliseconds p = None \<and> (is_some (anchor_milliseconds p) \<or> running p \<or> partial p))
         \<or> (running p \<and> anchor_milliseconds p = None)
      then Inl ElapsedInvalidState else Inr p)"

definition elapsed_started :: "u64 \<Rightarrow> ElapsedTimeStateParts" where
  "elapsed_started at =
     \<lparr>duration_milliseconds = Some 0, anchor_milliseconds = Some at, running = True, partial = False\<rparr>"

definition elapsed_from_summary :: "ElapsedTimeSummary \<Rightarrow> ElapsedTimeStateParts" where
  "elapsed_from_summary s =
     (case s of
        ElapsedUnavailable \<Rightarrow>
          \<lparr>duration_milliseconds = None, anchor_milliseconds = None, running = False, partial = False\<rparr>
      | ElapsedComplete d \<Rightarrow>
          \<lparr>duration_milliseconds = Some d, anchor_milliseconds = None, running = False, partial = False\<rparr>
      | ElapsedPartial d \<Rightarrow>
          \<lparr>duration_milliseconds = Some d, anchor_milliseconds = None, running = False, partial = True\<rparr>)"

definition add_duration :: "ElapsedTimeStateParts \<Rightarrow> u64 \<Rightarrow> ElapsedTimeStateParts" where
  "add_duration p ms =
     (case duration_milliseconds p of
        None \<Rightarrow> p
      | Some d \<Rightarrow> p\<lparr>duration_milliseconds := Some (saturating_add d ms)\<rparr>)"

definition elapsed_observe :: "ElapsedTimeStateParts \<Rightarrow> u64 \<Rightarrow> ElapsedTimeStateParts" where
  "elapsed_observe p at =
     (if \<not> running p then p
      else (case anchor_milliseconds p of
              None \<Rightarrow> p
            | Some anchor \<Rightarrow>
                if at \<le> anchor then p
                else (add_duration p (at - anchor))\<lparr>anchor_milliseconds := Some at\<rparr>))"

definition elapsed_projected_at :: "ElapsedTimeStateParts \<Rightarrow> u64 \<Rightarrow> ElapsedTimeSummary" where
  "elapsed_projected_at p at =
     (case duration_milliseconds p of
        None \<Rightarrow> ElapsedUnavailable
      | Some d \<Rightarrow>
          (let projected =
                 (if running p
                  then saturating_add d
                         (case anchor_milliseconds p of None \<Rightarrow> 0 | Some anchor \<Rightarrow> saturating_sub at anchor)
                  else d)
           in if partial p then ElapsedPartial projected else ElapsedComplete projected))"

definition elapsed_paused :: "ElapsedTimeStateParts \<Rightarrow> u64 \<Rightarrow> ElapsedTimeStateParts" where
  "elapsed_paused p at = elapsed_observe p at"

definition elapsed_interrupted :: "ElapsedTimeStateParts \<Rightarrow> u64 \<Rightarrow> ElapsedTimeStateParts" where
  "elapsed_interrupted p at = (elapsed_observe p at)\<lparr>running := False\<rparr>"

definition elapsed_resumed :: "ElapsedTimeStateParts \<Rightarrow> u64 \<Rightarrow> ElapsedTimeStateParts" where
  "elapsed_resumed p at =
     (if running p then elapsed_observe p at
      else
        (let p1 = (if duration_milliseconds p = None
                   then p\<lparr>duration_milliseconds := Some 0, partial := True\<rparr> else p);
             p2 = (case anchor_milliseconds p1 of
                     Some anchor \<Rightarrow> if anchor < at then add_duration p1 (at - anchor) else p1
                   | None \<Rightarrow> p1)
         in p2\<lparr>anchor_milliseconds :=
                 Some (case anchor_milliseconds p2 of None \<Rightarrow> at | Some anchor \<Rightarrow> max anchor at),
               running := True\<rparr>))"

definition elapsed_stopped :: "ElapsedTimeStateParts \<Rightarrow> u64 \<Rightarrow> ElapsedTimeStateParts" where
  "elapsed_stopped p at = (elapsed_observe p at)\<lparr>running := False, anchor_milliseconds := None\<rparr>"

definition elapsed_restored_after_restart :: "ElapsedTimeStateParts \<Rightarrow> ElapsedTimeStateParts" where
  "elapsed_restored_after_restart p =
     (let p1 = p\<lparr>anchor_milliseconds := None, running := False\<rparr>
      in if is_some (duration_milliseconds p1) then p1\<lparr>partial := True\<rparr> else p1)"

definition elapsed_summary :: "ElapsedTimeStateParts \<Rightarrow> ElapsedTimeSummary" where
  "elapsed_summary p =
     (case duration_milliseconds p of
        None \<Rightarrow> ElapsedUnavailable
      | Some d \<Rightarrow> if partial p then ElapsedPartial d else ElapsedComplete d)"

section \<open>Histories\<close>

datatype ElapsedCall =
    Observe u64
  | Paused u64
  | ElapsedInterrupted u64
  | Resumed u64
  | Stopped u64
  | Restarted

fun elapsed_step :: "ElapsedTimeStateParts \<Rightarrow> ElapsedCall \<Rightarrow> ElapsedTimeStateParts" where
  "elapsed_step p (Observe at) = elapsed_observe p at"
| "elapsed_step p (Paused at) = elapsed_paused p at"
| "elapsed_step p (ElapsedInterrupted at) = elapsed_interrupted p at"
| "elapsed_step p (Resumed at) = elapsed_resumed p at"
| "elapsed_step p (Stopped at) = elapsed_stopped p at"
| "elapsed_step p Restarted = elapsed_restored_after_restart p"

definition elapsed_valid :: "ElapsedTimeStateParts \<Rightarrow> bool" where
  "elapsed_valid p \<longleftrightarrow> elapsed_from_state_parts p = Inr p"

lemmas elapsed_ops = elapsed_observe_def elapsed_paused_def elapsed_interrupted_def elapsed_resumed_def
  elapsed_stopped_def elapsed_restored_after_restart_def add_duration_def

lemma elapsed_valid_step: "elapsed_valid p \<Longrightarrow> elapsed_valid (elapsed_step p c)"
  by (cases c; cases "duration_milliseconds p"; cases "anchor_milliseconds p")
    (auto simp: elapsed_valid_def elapsed_from_state_parts_def elapsed_ops Let_def split: if_splits)

interpretation elapsed: reducer elapsed_step "elapsed_started at" elapsed_valid for at
  by unfold_locales (simp_all add: elapsed_valid_step,
      simp add: elapsed_valid_def elapsed_from_state_parts_def elapsed_started_def)

text \<open>The instant of a call that one process makes, with the clock of that process.\<close>

fun elapsed_call_at :: "ElapsedCall \<Rightarrow> u64 option" where
  "elapsed_call_at (Observe at) = Some at"
| "elapsed_call_at (Paused at) = Some at"
| "elapsed_call_at (ElapsedInterrupted at) = Some at"
| "elapsed_call_at (Resumed at) = Some at"
| "elapsed_call_at (Stopped at) = None"
| "elapsed_call_at Restarted = None"

definition elapsed_since :: "u64 \<Rightarrow> ElapsedTimeStateParts \<Rightarrow> bool" where
  "elapsed_since t0 p \<longleftrightarrow>
     (\<exists>m. anchor_milliseconds p = Some m \<and> t0 \<le> m \<and> duration_milliseconds p = Some (m - t0)) \<and> \<not> partial p"

lemma saturating_add_since:
  "t0 \<le> m \<Longrightarrow> m < at \<Longrightarrow> saturating_add (m - t0) (at - m) = (at - t0 :: u64)"
proof -
  assume "t0 \<le> m" "m < at"
  then have "unat (saturating_add (m - t0) (at - m)) = unat (at - t0)"
    using unat_less_2p64 [of at]
    by (simp add: unat_saturating_add unat_sub word_le_nat_alt word_less_nat_alt)
  then show ?thesis
    by (simp add: word_unat_eq_iff)
qed

lemma elapsed_since_step:
  assumes "elapsed_since t0 p" and "anchor_milliseconds p = Some m" and "elapsed_call_at c = Some at"
    and "m \<le> at"
  shows "elapsed_since t0 (elapsed_step p c)
    \<and> (\<exists>m'. anchor_milliseconds (elapsed_step p c) = Some m' \<and> m' \<le> at
         \<and> (running (elapsed_step p c) \<longrightarrow> m' = at))"
proof -
  have m: "t0 \<le> m" "duration_milliseconds p = Some (m - t0)" "\<not> partial p"
    using assms(1,2) by (auto simp: elapsed_since_def)
  show ?thesis
    using assms(2-4) m
    by (cases c; cases "running p"; cases "m = at")
      (auto simp: elapsed_since_def elapsed_ops saturating_add_since Let_def max_def)
qed

text \<open>The calls of one process, in the order of its clock.\<close>

primrec elapsed_ordered :: "u64 \<Rightarrow> ElapsedCall list \<Rightarrow> bool" where
  "elapsed_ordered t [] = True"
| "elapsed_ordered t (c # cs) =
     (case elapsed_call_at c of None \<Rightarrow> False | Some at \<Rightarrow> t \<le> at \<and> elapsed_ordered at cs)"

primrec elapsed_last :: "u64 \<Rightarrow> ElapsedCall list \<Rightarrow> u64" where
  "elapsed_last t [] = t"
| "elapsed_last t (c # cs) = elapsed_last (unwrap_or (elapsed_call_at c) t) cs"

lemma elapsed_history:
  assumes "elapsed_since t0 p" and "anchor_milliseconds p = Some m" and "m \<le> t"
    and "running p \<longrightarrow> m = t" and "elapsed_ordered t calls"
  shows "elapsed_since t0 (foldl elapsed_step p calls)
    \<and> (running (foldl elapsed_step p calls) \<longrightarrow>
         anchor_milliseconds (foldl elapsed_step p calls) = Some (elapsed_last t calls))"
  using assms
proof (induction calls arbitrary: p m t)
  case (Cons c calls)
  then obtain at where c: "elapsed_call_at c = Some at" "t \<le> at" "elapsed_ordered at calls"
    by (auto split: option.splits)
  have "m \<le> at"
    using Cons.prems(3) c(2) by simp
  from elapsed_since_step [OF Cons.prems(1,2) c(1) this]
  obtain m' where m': "elapsed_since t0 (elapsed_step p c)" "anchor_milliseconds (elapsed_step p c) = Some m'"
    "m' \<le> at" "running (elapsed_step p c) \<longrightarrow> m' = at"
    by blast
  show ?case
    using Cons.IH [OF m'(1-4) c(3)] c(1) by simp
qed simp

text \<open>
  Elapsed time is the wall of the ride, pauses and interruptions included: for any ordered
  history of observations, pauses, interruptions and resumptions in one process, whenever the ride
  is running the stored duration is exactly the time from its start to the last call, it is not
  partial, and a projection to any later instant adds the time since then.
\<close>

lemma elapsed_time_exact:
  assumes "elapsed_ordered t0 calls" and "running (foldl elapsed_step (elapsed_started t0) calls)"
    and "elapsed_last t0 calls \<le> at"
  shows "elapsed_summary (foldl elapsed_step (elapsed_started t0) calls) =
      ElapsedComplete (elapsed_last t0 calls - t0)
    \<and> elapsed_projected_at (foldl elapsed_step (elapsed_started t0) calls) at = ElapsedComplete (at - t0)"
proof -
  let ?p = "foldl elapsed_step (elapsed_started t0) calls"
  have "elapsed_since t0 (elapsed_started t0)" "anchor_milliseconds (elapsed_started t0) = Some t0"
    by (auto simp: elapsed_since_def elapsed_started_def)
  from elapsed_history [OF this order_refl _ assms(1)] assms(2)
  have a: "elapsed_since t0 ?p" "anchor_milliseconds ?p = Some (elapsed_last t0 calls)"
    by auto
  then have d: "duration_milliseconds ?p = Some (elapsed_last t0 calls - t0)" "\<not> partial ?p"
    "t0 \<le> elapsed_last t0 calls"
    by (auto simp: elapsed_since_def)
  have "saturating_add (elapsed_last t0 calls - t0) (saturating_sub at (elapsed_last t0 calls)) = at - t0"
    using d(3) assms(3) saturating_add_since [of t0 "elapsed_last t0 calls" at]
    by (cases "elapsed_last t0 calls = at") (auto simp: saturating_sub_def saturating_add_def unat_bound [of "at - t0", simplified])
  then show ?thesis
    using a d assms(2) by (simp add: elapsed_summary_def elapsed_projected_at_def Let_def)
qed

lemma elapsed_time_exact_example:
  "elapsed_summary (foldl elapsed_step (elapsed_started 100) [Observe 150, ElapsedInterrupted 200, Resumed 900]) =
     ElapsedComplete 800"
  using elapsed_time_exact [of 100 "[Observe 150, ElapsedInterrupted 200, Resumed 900]" 1000]
  by (simp add: elapsed_started_def elapsed_ops saturating_add_def Let_def)

end
