(* ===== verification/Moving_Time.thy ===== *)
theory Moving_Time
  imports Interfaces Core_Units
begin

text \<open>
  The moving-time continuation of \<^verbatim>\<open>cutout-ride-maps/src/moving_time.rs\<close>: interval accounting of
  moving, stationary and unknown time from vehicle and phone speeds that expire two seconds after
  their source time.  The interval loop is shown to count every millisecond of the active time once
  and to classify it by the source that is fresh in it; overflow is reported exactly when the total
  no longer fits 64 bits; and the states that operations reach are accepted by the rehydration
  check, with the one exception that is stated.
\<close>

section \<open>State\<close>

definition TELEMETRY_FRESHNESS_MILLISECONDS :: u64 where
  "TELEMETRY_FRESHNESS_MILLISECONDS = 2000"

datatype MovingTimeSource = Vehicle | PhoneGps

record MovingTimeObservation =
  obs_source :: MovingTimeSource
  obs_speed :: "int option"
  obs_source_at :: u64
  obs_receipt_at :: u64

record MovingTimeSourceStateParts =
  speed_millimetres_per_second :: int
  source_at_milliseconds :: u64

datatype MovingTimeAvailability = MtUnavailable | MtPartial | MtComplete

record MovingTimeStateParts =
  moving_milliseconds :: u64
  observed_milliseconds :: u64
  unknown_milliseconds :: u64
  cursor_milliseconds :: "u64 option"
  phone_gps :: "MovingTimeSourceStateParts option"
  vehicle :: "MovingTimeSourceStateParts option"
  latest_phone_gps_source_milliseconds :: "u64 option"
  latest_vehicle_source_milliseconds :: "u64 option"
  availability :: MovingTimeAvailability
  incomplete_history :: bool

record MovingTimeSummary =
  sum_moving :: u64
  sum_observed :: u64
  sum_unknown :: u64
  sum_availability :: MovingTimeAvailability

datatype MovingTimeError =
    ReceiptBeforeSource
  | ReceiptBeforeCursor
  | StaleAtReceipt
  | MissingVehicleSpeed
  | InvalidPhoneGpsSpeed
  | SourceTimestampNotNewer
  | MtInvalidState
  | DurationOverflow

definition mt_new_live :: "u64 \<Rightarrow> MovingTimeStateParts" where
  "mt_new_live start_at =
     \<lparr>moving_milliseconds = 0, observed_milliseconds = 0, unknown_milliseconds = 0,
      cursor_milliseconds = Some start_at, phone_gps = None, vehicle = None,
      latest_phone_gps_source_milliseconds = None, latest_vehicle_source_milliseconds = None,
      availability = MtUnavailable, incomplete_history = False\<rparr>"

definition mt_unavailable :: MovingTimeStateParts where
  "mt_unavailable =
     \<lparr>moving_milliseconds = 0, observed_milliseconds = 0, unknown_milliseconds = 0,
      cursor_milliseconds = None, phone_gps = None, vehicle = None,
      latest_phone_gps_source_milliseconds = None, latest_vehicle_source_milliseconds = None,
      availability = MtUnavailable, incomplete_history = True\<rparr>"

section \<open>Rehydration\<close>

definition mt_totals_ok :: "MovingTimeStateParts \<Rightarrow> bool" where
  "mt_totals_ok p \<longleftrightarrow>
     \<not> (observed_milliseconds p < moving_milliseconds p
        \<or> checked_add (observed_milliseconds p) (unknown_milliseconds p) = None
        \<or> is_some_and (phone_gps p) (\<lambda>src. speed_millimetres_per_second src < 0)
        \<or> (availability p = MtComplete \<and> (0 < unknown_milliseconds p \<or> incomplete_history p))
        \<or> (availability p = MtUnavailable
           \<and> (0 < observed_milliseconds p \<or> 0 < unknown_milliseconds p
              \<or> is_some (phone_gps p) \<or> is_some (vehicle p)))
        \<or> (availability p = MtPartial \<and> unknown_milliseconds p = 0 \<and> \<not> incomplete_history p))"

definition mt_source_ok :: "u64 \<Rightarrow> MovingTimeSourceStateParts option \<Rightarrow> u64 option \<Rightarrow> bool" where
  "mt_source_ok cursor src latest \<longleftrightarrow>
     \<not> (is_some_and src (\<lambda>s. cursor < source_at_milliseconds s
          \<or> is_none_or latest (\<lambda>l. l < source_at_milliseconds s))
        \<or> is_some_and latest (\<lambda>l. cursor < l))"

definition mt_sources_ok :: "MovingTimeStateParts \<Rightarrow> bool" where
  "mt_sources_ok p =
     (case cursor_milliseconds p of
        Some cursor \<Rightarrow>
          mt_source_ok cursor (phone_gps p) (latest_phone_gps_source_milliseconds p)
          \<and> mt_source_ok cursor (vehicle p) (latest_vehicle_source_milliseconds p)
      | None \<Rightarrow>
          \<not> (is_some (phone_gps p) \<or> is_some (vehicle p)
             \<or> is_some (latest_phone_gps_source_milliseconds p)
             \<or> is_some (latest_vehicle_source_milliseconds p)))"

definition mt_from_state_parts :: "MovingTimeStateParts \<Rightarrow> MovingTimeError + MovingTimeStateParts" where
  "mt_from_state_parts p =
     (if \<not> mt_totals_ok p then Inl MtInvalidState
      else if \<not> mt_sources_ok p then Inl MtInvalidState
      else Inr p)"

definition mt_restored_after_restart ::
  "MovingTimeStateParts \<Rightarrow> u64 \<Rightarrow> MovingTimeError + MovingTimeStateParts" where
  "mt_restored_after_restart parts at =
     (case mt_from_state_parts parts of
        Inl e \<Rightarrow> Inl e
      | Inr p \<Rightarrow>
          mt_from_state_parts
            (p\<lparr>cursor_milliseconds := None, phone_gps := None, vehicle := None,
               latest_phone_gps_source_milliseconds := None,
               latest_vehicle_source_milliseconds := None, incomplete_history := True,
               availability := (if availability p \<noteq> MtUnavailable then MtPartial else availability p)\<rparr>))"

section \<open>Interval accounting\<close>

definition mt_fresh :: "u64 \<Rightarrow> MovingTimeSourceStateParts \<Rightarrow> MovingTimeSourceStateParts option" where
  "mt_fresh at src =
     (if source_at_milliseconds src \<le> at
         \<and> at - source_at_milliseconds src < TELEMETRY_FRESHNESS_MILLISECONDS
      then Some src else None)"

definition selected_source_at :: "MovingTimeStateParts \<Rightarrow> u64 \<Rightarrow> MovingTimeSourceStateParts option" where
  "selected_source_at p at =
     (case Option.bind (vehicle p) (mt_fresh at) of
        Some src \<Rightarrow> Some src
      | None \<Rightarrow> Option.bind (phone_gps p) (mt_fresh at))"

definition add_observed_interval ::
  "MovingTimeStateParts \<Rightarrow> u64 \<Rightarrow> bool \<Rightarrow> (MovingTimeError + unit) \<times> MovingTimeStateParts" where
  "add_observed_interval p duration moving =
     (case checked_add (observed_milliseconds p) duration of
        None \<Rightarrow> (Inl DurationOverflow, p)
      | Some observed \<Rightarrow>
          (case checked_add observed (unknown_milliseconds p) of
             None \<Rightarrow> (Inl DurationOverflow, p)
           | Some _ \<Rightarrow>
               if moving then
                 (case checked_add (moving_milliseconds p) duration of
                    None \<Rightarrow> (Inl DurationOverflow, p)
                  | Some moved \<Rightarrow>
                      (Inr (), p\<lparr>moving_milliseconds := moved, observed_milliseconds := observed\<rparr>))
               else (Inr (), p\<lparr>observed_milliseconds := observed\<rparr>)))"

definition add_unknown_interval ::
  "MovingTimeStateParts \<Rightarrow> u64 \<Rightarrow> (MovingTimeError + unit) \<times> MovingTimeStateParts" where
  "add_unknown_interval p duration =
     (case checked_add (unknown_milliseconds p) duration of
        None \<Rightarrow> (Inl DurationOverflow, p)
      | Some unknown \<Rightarrow>
          (case checked_add (observed_milliseconds p) unknown of
             None \<Rightarrow> (Inl DurationOverflow, p)
           | Some _ \<Rightarrow> (Inr (), p\<lparr>unknown_milliseconds := unknown, availability := MtPartial\<rparr>)))"

definition mt_expires_at :: "MovingTimeSourceStateParts \<Rightarrow> u64" where
  "mt_expires_at src = saturating_add (source_at_milliseconds src) TELEMETRY_FRESHNESS_MILLISECONDS"

text \<open>\<open>Iterator::min\<close>, and the earliest expiry after the cursor.\<close>

primrec iter_min :: "u64 list \<Rightarrow> u64 option" where
  "iter_min [] = None"
| "iter_min (x # xs) = Some (case iter_min xs of None \<Rightarrow> x | Some y \<Rightarrow> min x y)"

definition mt_next_expiration :: "MovingTimeStateParts \<Rightarrow> u64 \<Rightarrow> u64 option" where
  "mt_next_expiration p cursor =
     iter_min (filter (\<lambda>t. cursor < t)
       (map mt_expires_at ((case phone_gps p of None \<Rightarrow> [] | Some s \<Rightarrow> [s])
                           @ (case vehicle p of None \<Rightarrow> [] | Some s \<Rightarrow> [s]))))"

lemma iter_min_in: "iter_min xs = Some m \<Longrightarrow> m \<in> set xs"
  by (induction xs arbitrary: m) (auto simp: min_def split: option.splits if_splits)

lemma mt_next_expiration_after: "mt_next_expiration p cursor = Some e \<Longrightarrow> cursor < e"
  unfolding mt_next_expiration_def by (drule iter_min_in) auto

text \<open>The loop of \<open>advance_to\<close>, from the cursor to \<open>at\<close>.\<close>

function mt_advance_loop ::
  "MovingTimeStateParts \<Rightarrow> u64 \<Rightarrow> u64 \<Rightarrow> (MovingTimeError + unit) \<times> MovingTimeStateParts" where
  "mt_advance_loop p cursor at =
     (if \<not> cursor < at then (Inr (), p)
      else
        (case selected_source_at p cursor of
           Some src \<Rightarrow>
             (let end_at = min at (mt_expires_at src)
              in if cursor < end_at then
                   (case add_observed_interval p (end_at - cursor)
                           (speed_is_moving (speed_millimetres_per_second src)) of
                      (Inl e, p') \<Rightarrow> (Inl e, p')
                    | (Inr _, p') \<Rightarrow> mt_advance_loop p' end_at at)
                 else
                   (case add_unknown_interval p (at - cursor) of
                      (Inl e, p') \<Rightarrow> (Inl e, p')
                    | (Inr _, p') \<Rightarrow> mt_advance_loop p' at at))
         | None \<Rightarrow>
             (let end_at = (case mt_next_expiration p cursor of None \<Rightarrow> at | Some expiry \<Rightarrow> min at expiry)
              in (case add_unknown_interval p (end_at - cursor) of
                    (Inl e, p') \<Rightarrow> (Inl e, p')
                  | (Inr _, p') \<Rightarrow> mt_advance_loop p' end_at at))))"
  by pat_completeness auto
termination
  by (relation "measure (\<lambda>(p, cursor, at). unat at - unat cursor)")
    (auto intro!: diff_less_mono2 dest!: mt_next_expiration_after simp: word_less_nat_alt unat_rust
      split: option.splits)

declare mt_advance_loop.simps [simp del]

definition advance_to :: "MovingTimeStateParts \<Rightarrow> u64 \<Rightarrow> (MovingTimeError + unit) \<times> MovingTimeStateParts" where
  "advance_to p at =
     (case cursor_milliseconds p of
        None \<Rightarrow> (Inr (), p\<lparr>cursor_milliseconds := Some at, incomplete_history := True\<rparr>)
      | Some cursor \<Rightarrow>
          if at < cursor then (Inl ReceiptBeforeCursor, p)
          else (case mt_advance_loop p cursor at of
                  (Inl e, p') \<Rightarrow> (Inl e, p')
                | (Inr _, p') \<Rightarrow> (Inr (), p'\<lparr>cursor_milliseconds := Some at\<rparr>)))"

section \<open>Operations\<close>

definition latest_source_at :: "MovingTimeStateParts \<Rightarrow> MovingTimeSource \<Rightarrow> u64 option" where
  "latest_source_at p src =
     (case src of
        PhoneGps \<Rightarrow> latest_phone_gps_source_milliseconds p
      | Vehicle \<Rightarrow> latest_vehicle_source_milliseconds p)"

definition mark_evidence_available :: "MovingTimeStateParts \<Rightarrow> MovingTimeStateParts" where
  "mark_evidence_available p =
     (if availability p = MtUnavailable
      then p\<lparr>availability :=
               (if incomplete_history p \<or> 0 < unknown_milliseconds p then MtPartial else MtComplete)\<rparr>
      else p)"

definition mt_summary :: "MovingTimeStateParts \<Rightarrow> MovingTimeSummary" where
  "mt_summary p =
     \<lparr>sum_moving = moving_milliseconds p, sum_observed = observed_milliseconds p,
      sum_unknown = unknown_milliseconds p, sum_availability = availability p\<rparr>"

text \<open>The checks of \<open>observe\<close> before it changes anything, in the order of the source.\<close>

definition mt_observe_check :: "MovingTimeStateParts \<Rightarrow> MovingTimeObservation \<Rightarrow> MovingTimeError option" where
  "mt_observe_check p obs =
     (if obs_receipt_at obs < obs_source_at obs then Some ReceiptBeforeSource
      else if is_some (obs_speed obs)
              \<and> TELEMETRY_FRESHNESS_MILLISECONDS < obs_receipt_at obs - obs_source_at obs
      then Some StaleAtReceipt
      else if obs_source obs = Vehicle \<and> obs_speed obs = None then Some MissingVehicleSpeed
      else if obs_source obs = PhoneGps \<and> is_some_and (obs_speed obs) (\<lambda>v. v < 0)
      then Some InvalidPhoneGpsSpeed
      else if is_some_and (latest_source_at p (obs_source obs)) (\<lambda>l. obs_source_at obs \<le> l)
      then Some SourceTimestampNotNewer
      else None)"

definition mt_record_source :: "MovingTimeStateParts \<Rightarrow> MovingTimeObservation \<Rightarrow> MovingTimeStateParts" where
  "mt_record_source p obs =
     (case obs_source obs of
        PhoneGps \<Rightarrow>
          (let p1 = p\<lparr>latest_phone_gps_source_milliseconds := Some (obs_source_at obs)\<rparr>
           in case obs_speed obs of
                None \<Rightarrow> p1
              | Some v \<Rightarrow>
                  mark_evidence_available
                    (p1\<lparr>phone_gps := Some \<lparr>speed_millimetres_per_second = v,
                                           source_at_milliseconds = obs_source_at obs\<rparr>\<rparr>))
      | Vehicle \<Rightarrow>
          (let p1 = p\<lparr>latest_vehicle_source_milliseconds := Some (obs_source_at obs)\<rparr>
           in case obs_speed obs of
                None \<Rightarrow> p1
              | Some v \<Rightarrow>
                  mark_evidence_available
                    (p1\<lparr>vehicle := Some \<lparr>speed_millimetres_per_second = v,
                                         source_at_milliseconds = obs_source_at obs\<rparr>\<rparr>)))"

definition mt_observe ::
  "MovingTimeStateParts \<Rightarrow> MovingTimeObservation \<Rightarrow> (MovingTimeError + unit) \<times> MovingTimeStateParts" where
  "mt_observe p obs =
     (case mt_observe_check p obs of
        Some e \<Rightarrow> (Inl e, p)
      | None \<Rightarrow>
          (case advance_to p (obs_receipt_at obs) of
             (Inl e, _) \<Rightarrow> (Inl e, p)
           | (Inr _, next) \<Rightarrow>
               (let next1 = (if cursor_milliseconds p = None
                             then next\<lparr>incomplete_history := True\<rparr> else next)
                in if obs_source obs = Vehicle \<and> obs_speed obs = None then (Inl MissingVehicleSpeed, p)
                   else (Inr (), mt_record_source next1 obs))))"

definition mt_projected_at :: "MovingTimeStateParts \<Rightarrow> u64 \<Rightarrow> MovingTimeSummary" where
  "mt_projected_at p as_of =
     (if is_some_and (cursor_milliseconds p) (\<lambda>cursor. as_of < cursor) then mt_summary p
      else (case advance_to p as_of of
              (Inl _, projected) \<Rightarrow> mt_summary (projected\<lparr>availability := MtPartial\<rparr>)
            | (Inr _, projected) \<Rightarrow> mt_summary projected))"

definition prefix_before_source_time :: "MovingTimeStateParts \<Rightarrow> u64 \<Rightarrow> MovingTimeSummary option" where
  "prefix_before_source_time p source_at =
     (case cursor_milliseconds p of
        None \<Rightarrow> None
      | Some cursor \<Rightarrow> if cursor \<le> source_at then Some (mt_projected_at p source_at) else None)"

definition mt_close_at :: "MovingTimeStateParts \<Rightarrow> u64 \<Rightarrow> (MovingTimeError + unit) \<times> MovingTimeStateParts" where
  "mt_close_at p at =
     (if cursor_milliseconds p = None then (Inr (), p)
      else (case advance_to p at of
              (Inl e, _) \<Rightarrow> (Inl e, p)
            | (Inr _, next) \<Rightarrow>
                (Inr (), next\<lparr>phone_gps := None, vehicle := None,
                              latest_phone_gps_source_milliseconds := None,
                              latest_vehicle_source_milliseconds := None,
                              cursor_milliseconds := None\<rparr>)))"

definition mt_resume_at :: "MovingTimeStateParts \<Rightarrow> u64 \<Rightarrow> (MovingTimeError + unit) \<times> MovingTimeStateParts" where
  "mt_resume_at p at =
     (if is_some_and (cursor_milliseconds p) (\<lambda>cursor. at < cursor) then (Inl ReceiptBeforeCursor, p)
      else
        (Inr (), p\<lparr>cursor_milliseconds := Some at, phone_gps := None, vehicle := None,
                   latest_phone_gps_source_milliseconds := None,
                   latest_vehicle_source_milliseconds := None,
                   incomplete_history := (availability p = MtUnavailable \<or> incomplete_history p)\<rparr>))"

section \<open>The reference: one millisecond at a time\<close>

definition mt_fresh_at :: "nat \<Rightarrow> MovingTimeSourceStateParts \<Rightarrow> bool" where
  "mt_fresh_at t src \<longleftrightarrow>
     unat (source_at_milliseconds src) \<le> t \<and> t < unat (source_at_milliseconds src) + 2000"

text \<open>The source that speaks for millisecond \<open>t\<close>: the vehicle while it is fresh, else the phone.\<close>

definition mt_source_at :: "MovingTimeStateParts \<Rightarrow> nat \<Rightarrow> MovingTimeSourceStateParts option" where
  "mt_source_at p t =
     (if is_some_and (vehicle p) (mt_fresh_at t) then vehicle p
      else if is_some_and (phone_gps p) (mt_fresh_at t) then phone_gps p
      else None)"

definition mt_moving_at :: "MovingTimeStateParts \<Rightarrow> nat \<Rightarrow> bool" where
  "mt_moving_at p t = is_some_and (mt_source_at p t) (\<lambda>src. 500 \<le> \<bar>speed_millimetres_per_second src\<bar>)"

definition mt_count :: "(nat \<Rightarrow> bool) \<Rightarrow> nat \<Rightarrow> nat \<Rightarrow> nat" where
  "mt_count P a b = card {t \<in> {a..<b}. P t}"

lemma mt_count_split: "a \<le> b \<Longrightarrow> b \<le> c \<Longrightarrow> mt_count P a c = mt_count P a b + mt_count P b c"
proof -
  assume "a \<le> b" "b \<le> c"
  then have "{t \<in> {a..<c}. P t} = {t \<in> {a..<b}. P t} \<union> {t \<in> {b..<c}. P t}"
    by auto
  moreover have "card ({t \<in> {a..<b}. P t} \<union> {t \<in> {b..<c}. P t}) =
      card {t \<in> {a..<b}. P t} + card {t \<in> {b..<c}. P t}"
    by (rule card_Un_disjoint) auto
  ultimately show ?thesis
    unfolding mt_count_def by (simp only:)
qed

lemma mt_count_all: "\<forall>t. a \<le> t \<and> t < b \<longrightarrow> P t \<Longrightarrow> mt_count P a b = b - a"
proof -
  assume "\<forall>t. a \<le> t \<and> t < b \<longrightarrow> P t"
  then have "{t \<in> {a..<b}. P t} = {a..<b}"
    by auto
  then show ?thesis
    by (simp add: mt_count_def)
qed

lemma mt_count_none: "\<forall>t. a \<le> t \<and> t < b \<longrightarrow> \<not> P t \<Longrightarrow> mt_count P a b = 0"
  by (auto simp: mt_count_def)

lemma mt_count_empty [simp]: "mt_count P a a = 0"
  by (simp add: mt_count_def)

lemma mt_count_complement: "mt_count P a b + mt_count (\<lambda>t. \<not> P t) a b = b - a"
proof -
  have "{t \<in> {a..<b}. P t} \<union> {t \<in> {a..<b}. \<not> P t} = {a..<b}"
    by auto
  moreover have "card ({t \<in> {a..<b}. P t} \<union> {t \<in> {a..<b}. \<not> P t}) =
      card {t \<in> {a..<b}. P t} + card {t \<in> {a..<b}. \<not> P t}"
    by (rule card_Un_disjoint) auto
  ultimately show ?thesis
    by (simp add: mt_count_def)
qed

lemma mt_count_mono: "(\<And>t. P t \<Longrightarrow> Q t) \<Longrightarrow> mt_count P a b \<le> mt_count Q a b"
  unfolding mt_count_def by (intro card_mono) auto

text \<open>No source time lies after the cursor.\<close>

definition mt_past :: "MovingTimeStateParts \<Rightarrow> nat \<Rightarrow> bool" where
  "mt_past p c \<longleftrightarrow>
     is_none_or (vehicle p) (\<lambda>s. unat (source_at_milliseconds s) \<le> c)
     \<and> is_none_or (phone_gps p) (\<lambda>s. unat (source_at_milliseconds s) \<le> c)"

lemma mt_fresh_iff: "mt_fresh c src = (if mt_fresh_at (unat c) src then Some src else None)"
  by (auto simp: mt_fresh_def mt_fresh_at_def TELEMETRY_FRESHNESS_MILLISECONDS_def word_le_nat_alt
      word_less_nat_alt unat_sub)

lemma selected_source_at_eq: "selected_source_at p c = mt_source_at p (unat c)"
  by (cases "vehicle p"; cases "phone_gps p") (auto simp: selected_source_at_def mt_source_at_def mt_fresh_iff)

lemma mt_source_kept:
  assumes "mt_past p c" and "mt_source_at p c = Some src" and "c \<le> t"
    and "t < unat (source_at_milliseconds src) + 2000"
  shows "mt_source_at p t = Some src"
  using assms by (cases "vehicle p"; cases "phone_gps p")
    (auto simp: mt_source_at_def mt_past_def mt_fresh_at_def split: if_splits)

lemma mt_source_gone:
  assumes "mt_past p c" and "mt_source_at p c = None" and "c \<le> t"
  shows "mt_source_at p t = None"
  using assms by (cases "vehicle p"; cases "phone_gps p")
    (auto simp: mt_source_at_def mt_past_def mt_fresh_at_def split: if_splits)

lemma mt_source_fresh: "mt_source_at p c = Some src \<Longrightarrow> mt_fresh_at c src"
  by (cases "vehicle p"; cases "phone_gps p") (auto simp: mt_source_at_def split: if_splits)

lemma unat_mt_expires_at:
  "unat (mt_expires_at src) = min (unat (source_at_milliseconds src) + 2000) 18446744073709551615"
  by (simp add: mt_expires_at_def TELEMETRY_FRESHNESS_MILLISECONDS_def unat_saturating_add)

text \<open>The state after the milliseconds from \<open>c\<close> to \<open>a\<close> have been counted one by one.\<close>

definition mt_account :: "MovingTimeStateParts \<Rightarrow> nat \<Rightarrow> nat \<Rightarrow> MovingTimeStateParts" where
  "mt_account p c a =
     p\<lparr>moving_milliseconds := moving_milliseconds p + of_nat (mt_count (mt_moving_at p) c a),
       observed_milliseconds :=
         observed_milliseconds p + of_nat (mt_count (\<lambda>t. is_some (mt_source_at p t)) c a),
       unknown_milliseconds :=
         unknown_milliseconds p + of_nat (mt_count (\<lambda>t. \<not> is_some (mt_source_at p t)) c a),
       availability :=
         (if mt_count (\<lambda>t. \<not> is_some (mt_source_at p t)) c a = 0 then availability p else MtPartial)\<rparr>"

definition mt_total :: "MovingTimeStateParts \<Rightarrow> nat" where
  "mt_total p = unat (observed_milliseconds p) + unat (unknown_milliseconds p)"

lemma mt_account_source [simp]:
  "mt_source_at (mt_account p c a) = mt_source_at p" "mt_moving_at (mt_account p c a) = mt_moving_at p"
  by (auto simp: fun_eq_iff mt_moving_at_def mt_source_at_def mt_account_def)

lemma mt_account_past [simp]: "mt_past (mt_account p c a) = mt_past p"
  by (auto simp: fun_eq_iff mt_past_def mt_account_def)

lemma mt_account_same [simp]: "mt_account p c c = p"
  by (simp add: mt_account_def)

lemma mt_source_cursor [simp]:
  "mt_source_at (p\<lparr>cursor_milliseconds := x\<rparr>) = mt_source_at p"
  "mt_moving_at (p\<lparr>cursor_milliseconds := x\<rparr>) = mt_moving_at p"
  by (auto simp: fun_eq_iff mt_moving_at_def mt_source_at_def)

lemma mt_account_cursor:
  "mt_account (p\<lparr>cursor_milliseconds := x\<rparr>) c a = (mt_account p c a)\<lparr>cursor_milliseconds := x\<rparr>"
  by (simp add: mt_account_def)

lemma mt_account_split:
  assumes "c \<le> b" and "b \<le> a"
  shows "mt_account (mt_account p c b) b a = mt_account p c a"
proof -
  note split = mt_count_split [OF assms, of "mt_moving_at p"]
    mt_count_split [OF assms, of "\<lambda>t. is_some (mt_source_at p t)"]
    mt_count_split [OF assms, of "\<lambda>t. \<not> is_some (mt_source_at p t)"]
  have "mt_account q b a = q\<lparr>moving_milliseconds := moving_milliseconds q + of_nat (mt_count (mt_moving_at p) b a),
       observed_milliseconds :=
         observed_milliseconds q + of_nat (mt_count (\<lambda>t. is_some (mt_source_at p t)) b a),
       unknown_milliseconds :=
         unknown_milliseconds q + of_nat (mt_count (\<lambda>t. \<not> is_some (mt_source_at p t)) b a),
       availability :=
         (if mt_count (\<lambda>t. \<not> is_some (mt_source_at p t)) b a = 0 then availability q else MtPartial)\<rparr>"
    if "q = mt_account p c b" for q
    by (simp add: that mt_account_def [of "mt_account p c b"])
  then show ?thesis
    by (simp add: mt_account_def [of p] split add.assoc)
qed

lemma unat_add_of_nat:
  "unat (w :: u64) + n < 18446744073709551616 \<Longrightarrow> unat (w + of_nat n) = unat w + n"
  by (simp add: unat_word_ariths unsigned_of_nat take_bit_nat_eq_self)

lemma mt_account_totals:
  assumes "c \<le> a" and "mt_total p + (a - c) < 2 ^ 64" and "moving_milliseconds p \<le> observed_milliseconds p"
  shows "unat (moving_milliseconds (mt_account p c a)) = unat (moving_milliseconds p) + mt_count (mt_moving_at p) c a"
    and "unat (observed_milliseconds (mt_account p c a)) =
      unat (observed_milliseconds p) + mt_count (\<lambda>t. is_some (mt_source_at p t)) c a"
    and "unat (unknown_milliseconds (mt_account p c a)) =
      unat (unknown_milliseconds p) + mt_count (\<lambda>t. \<not> is_some (mt_source_at p t)) c a"
    and "mt_total (mt_account p c a) = mt_total p + (a - c)"
    and "moving_milliseconds (mt_account p c a) \<le> observed_milliseconds (mt_account p c a)"
proof -
  have sum: "mt_count (\<lambda>t. is_some (mt_source_at p t)) c a + mt_count (\<lambda>t. \<not> is_some (mt_source_at p t)) c a = a - c"
    by (rule mt_count_complement)
  have le: "mt_count (mt_moving_at p) c a \<le> mt_count (\<lambda>t. is_some (mt_source_at p t)) c a"
    by (rule mt_count_mono) (auto simp: mt_moving_at_def is_some_and_iff)
  have "unat (moving_milliseconds p) \<le> unat (observed_milliseconds p)"
    using assms(3) by (simp add: word_le_nat_alt)
  then show m: "unat (moving_milliseconds (mt_account p c a)) = unat (moving_milliseconds p) + mt_count (mt_moving_at p) c a"
    and o: "unat (observed_milliseconds (mt_account p c a)) =
      unat (observed_milliseconds p) + mt_count (\<lambda>t. is_some (mt_source_at p t)) c a"
    and u: "unat (unknown_milliseconds (mt_account p c a)) =
      unat (unknown_milliseconds p) + mt_count (\<lambda>t. \<not> is_some (mt_source_at p t)) c a"
    using assms(2) sum le by (simp_all add: mt_account_def mt_total_def unat_add_of_nat)
  show "mt_total (mt_account p c a) = mt_total p + (a - c)"
    using o u sum by (simp add: mt_total_def)
  show "moving_milliseconds (mt_account p c a) \<le> observed_milliseconds (mt_account p c a)"
    using m o le assms(3) by (simp add: word_le_nat_alt)
qed

lemma mt_account_observed:
  assumes "\<forall>t. c \<le> t \<and> t < a \<longrightarrow> mt_source_at p t = Some src"
  shows "mt_account p c a =
    p\<lparr>moving_milliseconds := moving_milliseconds p
        + (if speed_is_moving (speed_millimetres_per_second src) then of_nat (a - c) else 0),
      observed_milliseconds := observed_milliseconds p + of_nat (a - c)\<rparr>"
proof -
  have "mt_count (\<lambda>t. is_some (mt_source_at p t)) c a = a - c"
    "mt_count (\<lambda>t. \<not> is_some (mt_source_at p t)) c a = 0"
    using assms by (auto intro!: mt_count_all mt_count_none)
  moreover have "mt_count (mt_moving_at p) c a =
      (if speed_is_moving (speed_millimetres_per_second src) then a - c else 0)"
    using assms by (auto intro!: mt_count_all mt_count_none
        simp: mt_moving_at_def speed_is_moving_def CONNECTED_WHEEL_MOVEMENT_THRESHOLD_def)
  ultimately show ?thesis
    by (simp add: mt_account_def)
qed

lemma mt_account_unknown:
  assumes "\<forall>t. c \<le> t \<and> t < a \<longrightarrow> mt_source_at p t = None" and "c < a"
  shows "mt_account p c a =
    p\<lparr>unknown_milliseconds := unknown_milliseconds p + of_nat (a - c), availability := MtPartial\<rparr>"
proof -
  have "mt_count (\<lambda>t. is_some (mt_source_at p t)) c a = 0"
    "mt_count (\<lambda>t. \<not> is_some (mt_source_at p t)) c a = a - c" "mt_count (mt_moving_at p) c a = 0"
    using assms(1) by (auto intro!: mt_count_all mt_count_none simp: mt_moving_at_def)
  then show ?thesis
    using assms(2) by (simp add: mt_account_def)
qed

lemma of_nat_unat_diff: "c \<le> e \<Longrightarrow> (of_nat (unat e - unat c) :: u64) = e - c"
proof -
  assume "c \<le> e"
  then have "unat (of_nat (unat e - unat c) :: u64) = unat (e - c)"
    using unat_less_2p64 [of e] by (simp add: unat_sub unsigned_of_nat take_bit_nat_eq_self)
  then show ?thesis
    by (simp add: word_unat_eq_iff)
qed

lemma checked_add_u64:
  "checked_add (x :: u64) y = (if unat x + unat y < 18446744073709551616 then Some (x + y) else None)"
  by (simp add: checked_add_def)

lemma unat_add_u64: "unat x + unat y < 18446744073709551616 \<Longrightarrow> unat (x + y :: u64) = unat x + unat y"
  by (simp add: unat_word_ariths)

lemma add_observed_interval_account:
  assumes "\<forall>t. unat c \<le> t \<and> t < unat e \<longrightarrow> mt_source_at p t = Some src" and "c \<le> e"
    and "moving_milliseconds p \<le> observed_milliseconds p"
  shows "add_observed_interval p (e - c) (speed_is_moving (speed_millimetres_per_second src)) =
    (if mt_total p + (unat e - unat c) < 2 ^ 64 then (Inr (), mt_account p (unat c) (unat e))
     else (Inl DurationOverflow, p))"
proof -
  have d: "unat (e - c) = unat e - unat c"
    using assms(2) by (rule unat_sub)
  have mo: "unat (moving_milliseconds p) \<le> unat (observed_milliseconds p)"
    using assms(3) by (simp add: word_le_nat_alt)
  have acc: "mt_account p (unat c) (unat e) =
    p\<lparr>moving_milliseconds := moving_milliseconds p
        + (if speed_is_moving (speed_millimetres_per_second src) then e - c else 0),
      observed_milliseconds := observed_milliseconds p + (e - c)\<rparr>"
    using mt_account_observed [OF assms(1)] assms(2) by (simp add: of_nat_unat_diff)
  show ?thesis
  proof (cases "unat (observed_milliseconds p) + unat (e - c) < 18446744073709551616")
    case True
    note o = unat_add_u64 [OF True]
    show ?thesis
      using True mo d acc o
      by (auto simp: add_observed_interval_def checked_add_u64 mt_total_def)
  next
    case False
    then show ?thesis
      using d by (simp add: add_observed_interval_def checked_add_u64 mt_total_def)
  qed
qed

lemma add_unknown_interval_account:
  assumes "\<forall>t. unat c \<le> t \<and> t < unat e \<longrightarrow> mt_source_at p t = None" and "c < e"
  shows "add_unknown_interval p (e - c) =
    (if mt_total p + (unat e - unat c) < 2 ^ 64 then (Inr (), mt_account p (unat c) (unat e))
     else (Inl DurationOverflow, p))"
proof -
  have ce: "c \<le> e" "unat c < unat e"
    using assms(2) by (simp, simp add: word_less_nat_alt)
  have d: "unat (e - c) = unat e - unat c"
    using ce(1) by (rule unat_sub)
  have acc: "mt_account p (unat c) (unat e) =
    p\<lparr>unknown_milliseconds := unknown_milliseconds p + (e - c), availability := MtPartial\<rparr>"
    using mt_account_unknown [OF assms(1) ce(2)] ce(1) by (simp add: of_nat_unat_diff)
  show ?thesis
  proof (cases "unat (unknown_milliseconds p) + unat (e - c) < 18446744073709551616")
    case True
    show ?thesis
      using True d acc unat_add_u64 [OF True]
      by (auto simp: add_unknown_interval_def checked_add_u64 mt_total_def)
  next
    case False
    then show ?thesis
      using d by (simp add: add_unknown_interval_def checked_add_u64 mt_total_def)
  qed
qed

lemma mt_no_next_expiration:
  assumes "mt_past p (unat c)" and "mt_source_at p (unat c) = None"
  shows "mt_next_expiration p c = None"
proof -
  have "\<not> c < mt_expires_at src" if "unat (source_at_milliseconds src) \<le> unat c" "\<not> mt_fresh_at (unat c) src" for src
    using that unat_less_2p64 [of c] by (auto simp: mt_fresh_at_def word_less_nat_alt unat_mt_expires_at)
  then show ?thesis
    using assms by (cases "vehicle p"; cases "phone_gps p")
      (auto simp: mt_next_expiration_def mt_past_def mt_source_at_def split: if_splits)
qed

text \<open>The interval loop counts the milliseconds one by one, and reports the overflow of their total.\<close>

lemma mt_past_mono: "mt_past p c \<Longrightarrow> c \<le> d \<Longrightarrow> mt_past p d"
  by (cases "vehicle p"; cases "phone_gps p") (auto simp: mt_past_def)

definition mt_counts :: "(MovingTimeError + unit) \<times> MovingTimeStateParts \<Rightarrow> MovingTimeStateParts \<Rightarrow> nat \<Rightarrow> nat \<Rightarrow> bool" where
  "mt_counts res p c a \<longleftrightarrow>
     (if mt_total p + (a - c) < 2 ^ 64 then res = (Inr (), mt_account p c a)
      else fst res = Inl DurationOverflow)"

lemma mt_counts_segment:
  assumes "c \<le> e" and "e \<le> a" and "moving_milliseconds p \<le> observed_milliseconds p"
    and r: "r = (if mt_total p + (e - c) < 2 ^ 64 then (Inr (), mt_account p c e) else (Inl DurationOverflow, p))"
    and IH: "mt_total p + (e - c) < 2 ^ 64 \<Longrightarrow> mt_counts (continue (mt_account p c e)) (mt_account p c e) e a"
  shows "mt_counts (case r of (Inl err, p') \<Rightarrow> (Inl err, p') | (Inr _, p') \<Rightarrow> continue p') p c a"
proof (cases "mt_total p + (e - c) < 2 ^ 64")
  case True
  have "mt_total (mt_account p c e) + (a - e) = mt_total p + (a - c)"
    using mt_account_totals(4) [OF assms(1) True assms(3)] assms(1,2) by simp
  then show ?thesis
    using IH [OF True] r True mt_account_split [OF assms(1,2), of p] by (simp add: mt_counts_def)
next
  case False
  then have "\<not> mt_total p + (a - c) < 2 ^ 64"
    using assms(1,2) by simp
  then show ?thesis
    using r False by (simp add: mt_counts_def)
qed

lemma mt_advance_loop_counts:
  assumes "mt_past p (unat cursor)" and "cursor \<le> at" and "moving_milliseconds p \<le> observed_milliseconds p"
    and "mt_total p < 2 ^ 64"
  shows "mt_counts (mt_advance_loop p cursor at) p (unat cursor) (unat at)"
  using assms
proof (induction "unat at - unat cursor" arbitrary: p cursor rule: less_induct)
  case less
  note past = less.prems(1)
  note loop = mt_advance_loop.simps [of p cursor at]
  have continue: "mt_counts (mt_advance_loop (mt_account p (unat cursor) (unat e)) e at)
      (mt_account p (unat cursor) (unat e)) (unat e) (unat at)"
    if e: "cursor < e" "e \<le> at" and fits: "mt_total p + (unat e - unat cursor) < 2 ^ 64" for e
  proof (rule less.hyps)
    have "unat cursor \<le> unat e" "unat cursor < unat e" "unat e \<le> unat at"
      using e by (auto simp: word_less_nat_alt word_le_nat_alt)
    then show "unat at - unat e < unat at - unat cursor" "mt_past (mt_account p (unat cursor) (unat e)) (unat e)"
      "mt_total (mt_account p (unat cursor) (unat e)) < 2 ^ 64"
      "moving_milliseconds (mt_account p (unat cursor) (unat e)) \<le> observed_milliseconds (mt_account p (unat cursor) (unat e))"
      using fits mt_past_mono [OF past] mt_account_totals(4,5) [OF _ fits less.prems(3)] by simp_all
  qed (rule e(2))
  show ?case
  proof (cases "cursor < at")
    case False
    then show ?thesis
      using less.prems(2,4) by (simp add: mt_counts_def mt_advance_loop.simps [of p])
  next
    case True
    show ?thesis
    proof (cases "mt_source_at p (unat cursor)")
      case (Some src)
      let ?e = "min at (mt_expires_at src)"
      have lt: "cursor < ?e"
        using True mt_source_fresh [OF Some] unat_less_2p64 [of at]
        by (auto simp: mt_fresh_at_def word_less_nat_alt unat_mt_expires_at unat_min)
      have seg: "\<forall>t. unat cursor \<le> t \<and> t < unat ?e \<longrightarrow> mt_source_at p t = Some src"
        using mt_source_kept [OF past Some] by (auto simp: unat_min unat_mt_expires_at)
      have le: "unat cursor \<le> unat ?e" "unat ?e \<le> unat at"
        using lt by (simp_all add: word_less_nat_alt unat_min)
      show ?thesis
        using mt_counts_segment [where continue = "\<lambda>q. mt_advance_loop q ?e at", OF le less.prems(3)
            add_observed_interval_account [OF seg less_imp_le [OF lt] less.prems(3)] continue [OF lt]]
        unfolding loop using True lt Some by (simp add: selected_source_at_eq Let_def)
    next
      case None
      have seg: "\<forall>t. unat cursor \<le> t \<and> t < unat at \<longrightarrow> mt_source_at p t = None"
        using mt_source_gone [OF past None] by blast
      have le: "unat cursor \<le> unat at" "unat at \<le> unat at"
        using True by (simp_all add: word_less_nat_alt)
      show ?thesis
        using mt_counts_segment [where continue = "\<lambda>q. mt_advance_loop q at at", OF le less.prems(3)
            add_unknown_interval_account [OF seg True] continue [OF True order_refl]]
        unfolding loop using True None mt_no_next_expiration [OF past None]
        by (simp add: selected_source_at_eq Let_def)
    qed
  qed
qed

section \<open>Valid states\<close>

definition mt_valid :: "MovingTimeStateParts \<Rightarrow> bool" where
  "mt_valid p \<longleftrightarrow> mt_from_state_parts p = Inr p"

lemma mt_valid_iff: "mt_valid p \<longleftrightarrow> mt_totals_ok p \<and> mt_sources_ok p"
  by (simp add: mt_valid_def mt_from_state_parts_def)

lemma mt_totals_ok_iff:
  "mt_totals_ok p \<longleftrightarrow>
     moving_milliseconds p \<le> observed_milliseconds p \<and> mt_total p < 2 ^ 64
     \<and> is_none_or (phone_gps p) (\<lambda>src. 0 \<le> speed_millimetres_per_second src)
     \<and> (case availability p of
          MtComplete \<Rightarrow> unknown_milliseconds p = 0 \<and> \<not> incomplete_history p
        | MtUnavailable \<Rightarrow> observed_milliseconds p = 0 \<and> unknown_milliseconds p = 0
            \<and> phone_gps p = None \<and> vehicle p = None
        | MtPartial \<Rightarrow> unknown_milliseconds p \<noteq> 0 \<or> incomplete_history p)"
  by (cases "availability p"; cases "phone_gps p")
    (auto simp: mt_totals_ok_def mt_total_def checked_add_None_iff is_some_iff word_neq_0_conv not_less not_le)

lemma mt_valid_past: "mt_valid p \<Longrightarrow> cursor_milliseconds p = Some c \<Longrightarrow> mt_past p (unat c)"
  by (cases "vehicle p"; cases "phone_gps p")
    (auto simp: mt_valid_iff mt_sources_ok_def mt_source_ok_def mt_past_def word_le_nat_alt not_less)

lemma mt_advance_to_account:
  assumes "mt_valid p" and "cursor_milliseconds p = Some c" and "c \<le> at"
  shows "if mt_total p + (unat at - unat c) < 2 ^ 64
    then advance_to p at = (Inr (), (mt_account p (unat c) (unat at))\<lparr>cursor_milliseconds := Some at\<rparr>)
    else fst (advance_to p at) = Inl DurationOverflow"
proof -
  have t: "moving_milliseconds p \<le> observed_milliseconds p" "mt_total p < 2 ^ 64"
    using assms(1) by (auto simp: mt_valid_iff mt_totals_ok_iff)
  have "mt_counts (mt_advance_loop p c at) p (unat c) (unat at)"
    by (rule mt_advance_loop_counts [OF mt_valid_past [OF assms(1,2)] assms(3) t])
  then show ?thesis
    using assms(2,3) by (auto simp: mt_counts_def advance_to_def split: prod.splits sum.splits if_splits)
qed

lemma mt_advance_to_Inr:
  assumes "mt_valid p" and "cursor_milliseconds p = Some c" and "advance_to p at = (Inr u, p')"
  shows "c \<le> at \<and> mt_total p + (unat at - unat c) < 2 ^ 64
    \<and> p' = (mt_account p (unat c) (unat at))\<lparr>cursor_milliseconds := Some at\<rparr>"
proof -
  have "c \<le> at"
    using assms(2,3) by (auto simp: advance_to_def split: if_splits)
  then show ?thesis
    using mt_advance_to_account [OF assms(1,2), of at] assms(3) by (auto split: if_splits)
qed

lemma mt_account_valid:
  assumes "mt_totals_ok p" and "c \<le> a" and "mt_total p + (a - c) < 2 ^ 64"
  shows "mt_totals_ok (mt_account p c a)"
proof -
  have t: "moving_milliseconds p \<le> observed_milliseconds p"
    using assms(1) by (simp add: mt_totals_ok_iff)
  note acc = mt_account_totals [OF assms(2,3) t]
  let ?u = "mt_count (\<lambda>t. \<not> is_some (mt_source_at p t)) c a"
  let ?o = "mt_count (\<lambda>t. is_some (mt_source_at p t)) c a"
  have same: "phone_gps (mt_account p c a) = phone_gps p" "vehicle (mt_account p c a) = vehicle p"
    "incomplete_history (mt_account p c a) = incomplete_history p"
    "availability (mt_account p c a) = (if ?u = 0 then availability p else MtPartial)"
    by (simp_all add: mt_account_def)
  have none: "?o = 0" if "phone_gps p = None" "vehicle p = None"
    using that by (auto intro!: mt_count_none simp: mt_source_at_def)
  have zero: "w = 0 \<longleftrightarrow> unat w = 0" for w :: u64
    by (simp add: unsigned_eq_0_iff)
  show ?thesis
    using assms(1,3) acc none unfolding mt_totals_ok_iff same
    by (auto simp: zero split: MovingTimeAvailability.splits)
qed

lemma mt_sources_ok_later:
  assumes "mt_sources_ok p" and "cursor_milliseconds p = Some c" and "c \<le> at"
  shows "mt_sources_ok ((mt_account p x y)\<lparr>cursor_milliseconds := Some at\<rparr>)"
  using assms by (cases "vehicle p"; cases "phone_gps p"; cases "latest_vehicle_source_milliseconds p";
      cases "latest_phone_gps_source_milliseconds p")
    (auto simp: mt_sources_ok_def mt_source_ok_def mt_account_def)

lemma mt_advance_valid:
  assumes "mt_valid p" and "cursor_milliseconds p = Some c" and "advance_to p at = (Inr u, p')"
  shows "mt_valid p'"
proof -
  have c: "c \<le> at" "unat c \<le> unat at"
    and fits: "mt_total p + (unat at - unat c) < 2 ^ 64"
    and p': "p' = (mt_account p (unat c) (unat at))\<lparr>cursor_milliseconds := Some at\<rparr>"
    using mt_advance_to_Inr [OF assms] by (auto simp: word_le_nat_alt)
  have "mt_totals_ok (mt_account p (unat c) (unat at))"
    using assms(1) mt_account_valid [OF _ c(2) fits] by (simp add: mt_valid_iff)
  then have "mt_totals_ok p'"
    by (simp add: p' mt_totals_ok_def)
  then show ?thesis
    using mt_sources_ok_later [OF _ assms(2) c(1)] assms(1) by (simp add: mt_valid_iff p')
qed

lemma mt_advance_keeps:
  assumes "mt_valid p" and "cursor_milliseconds p = Some c" and "advance_to p at = (Inr u, p')"
  shows "vehicle p' = vehicle p" "phone_gps p' = phone_gps p"
    "latest_vehicle_source_milliseconds p' = latest_vehicle_source_milliseconds p"
    "latest_phone_gps_source_milliseconds p' = latest_phone_gps_source_milliseconds p"
    "incomplete_history p' = incomplete_history p" "cursor_milliseconds p' = Some at"
  using mt_advance_to_Inr [OF assms] by (simp_all add: mt_account_def)

lemma mt_mark_totals:
  "mt_totals_ok q \<Longrightarrow> 0 \<le> v \<Longrightarrow>
     mt_totals_ok (mark_evidence_available (q\<lparr>phone_gps := Some \<lparr>speed_millimetres_per_second = v, source_at_milliseconds = t\<rparr>\<rparr>))"
  "mt_totals_ok q \<Longrightarrow>
     mt_totals_ok (mark_evidence_available (q\<lparr>vehicle := Some \<lparr>speed_millimetres_per_second = v, source_at_milliseconds = t\<rparr>\<rparr>))"
  by (auto simp: mt_totals_ok_iff mark_evidence_available_def mt_total_def word_neq_0_conv
      split: MovingTimeAvailability.splits if_splits)

lemma mt_totals_ok_latest:
  "mt_totals_ok (q\<lparr>latest_phone_gps_source_milliseconds := l\<rparr>) = mt_totals_ok q"
  "mt_totals_ok (q\<lparr>latest_vehicle_source_milliseconds := l\<rparr>) = mt_totals_ok q"
  by (simp_all add: mt_totals_ok_def)

lemma mt_record_sources:
  assumes "mt_sources_ok q" and "cursor_milliseconds q = Some r" and "obs_source_at obs \<le> r"
    and "is_none_or (latest_source_at q (obs_source obs)) (\<lambda>l. l < obs_source_at obs)"
  shows "mt_sources_ok (mt_record_source q obs)"
proof (cases "obs_source obs")
  case Vehicle
  then show ?thesis
    using assms by (cases "latest_vehicle_source_milliseconds q"; cases "vehicle q")
      (auto simp: mt_record_source_def mark_evidence_available_def mt_sources_ok_def mt_source_ok_def
        latest_source_at_def Let_def split: option.splits)
next
  case PhoneGps
  then show ?thesis
    using assms by (cases "latest_phone_gps_source_milliseconds q"; cases "phone_gps q")
      (auto simp: mt_record_source_def mark_evidence_available_def mt_sources_ok_def mt_source_ok_def
        latest_source_at_def Let_def split: option.splits)
qed

lemma mt_record_valid:
  assumes "mt_valid q" and "cursor_milliseconds q = Some r" and "obs_source_at obs \<le> r"
    and "is_none_or (latest_source_at q (obs_source obs)) (\<lambda>l. l < obs_source_at obs)"
    and "obs_source obs = PhoneGps \<Longrightarrow> is_none_or (obs_speed obs) (\<lambda>v. 0 \<le> v)"
  shows "mt_valid (mt_record_source q obs)"
proof -
  have "mt_totals_ok (mt_record_source q obs)"
    using assms(1,5) by (cases "obs_source obs"; cases "obs_speed obs")
      (auto simp: mt_record_source_def mt_valid_iff mt_totals_ok_latest Let_def intro!: mt_mark_totals)
  then show ?thesis
    using assms(1-4) mt_record_sources by (simp add: mt_valid_iff)
qed

lemma mt_observe_check_None:
  assumes "mt_observe_check p obs = None"
  shows "obs_source_at obs \<le> obs_receipt_at obs"
    and "is_none_or (latest_source_at p (obs_source obs)) (\<lambda>l. l < obs_source_at obs)"
    and "obs_source obs = PhoneGps \<Longrightarrow> is_none_or (obs_speed obs) (\<lambda>v. 0 \<le> v)"
  using assms by (cases "latest_source_at p (obs_source obs)"; cases "obs_speed obs";
      auto simp: mt_observe_check_def not_less not_le split: if_splits)+

text \<open>An observation is recorded on what \<open>advance_to\<close> left.\<close>

lemma mt_observe_Inr:
  assumes "mt_observe p obs = (Inr u, p')"
  shows "mt_observe_check p obs = None \<and> (\<exists>q u'. advance_to p (obs_receipt_at obs) = (Inr u', q)
    \<and> p' = mt_record_source (if cursor_milliseconds p = None then q\<lparr>incomplete_history := True\<rparr> else q) obs)"
  using assms by (auto simp: mt_observe_def Let_def split: option.splits prod.splits sum.splits if_splits)

lemma mt_valid_observe:
  assumes "mt_valid p" and "is_some (cursor_milliseconds p) \<or> availability p \<noteq> MtComplete"
    and "mt_observe p obs = (Inr u, p')"
  shows "mt_valid p'"
proof -
  obtain q u' where chk: "mt_observe_check p obs = None" and adv: "advance_to p (obs_receipt_at obs) = (Inr u', q)"
    and p': "p' = mt_record_source (if cursor_milliseconds p = None then q\<lparr>incomplete_history := True\<rparr> else q) obs"
    using mt_observe_Inr [OF assms(3)] by blast
  note ok = mt_observe_check_None [OF chk]
  show ?thesis
  proof (cases "cursor_milliseconds p")
    case None
    have q: "q = p\<lparr>cursor_milliseconds := Some (obs_receipt_at obs), incomplete_history := True\<rparr>"
      using adv None by (simp add: advance_to_def)
    have no: "phone_gps p = None" "vehicle p = None" "latest_phone_gps_source_milliseconds p = None"
      "latest_vehicle_source_milliseconds p = None"
      using assms(1) None by (auto simp: mt_valid_iff mt_sources_ok_def is_some_iff)
    have "mt_valid (q\<lparr>incomplete_history := True\<rparr>)"
      using assms(1,2) None no
      by (auto simp: q mt_valid_iff mt_totals_ok_iff mt_sources_ok_def mt_source_ok_def mt_total_def
          split: MovingTimeAvailability.splits)
    moreover have "latest_source_at q s = None" for s
      using no by (cases s) (simp_all add: q latest_source_at_def)
    ultimately show ?thesis
      unfolding p' using None ok
      by (auto intro!: mt_record_valid simp: q latest_source_at_def split: MovingTimeSource.splits)
  next
    case (Some c)
    note keep = mt_advance_keeps [OF assms(1) Some adv]
    have "latest_source_at q (obs_source obs) = latest_source_at p (obs_source obs)"
      using keep by (cases "obs_source obs") (simp_all add: latest_source_at_def)
    then show ?thesis
      unfolding p' using Some ok keep(6) mt_advance_valid [OF assms(1) Some adv]
      by (auto intro!: mt_record_valid)
  qed
qed

lemma mt_valid_close:
  assumes "mt_valid p" and "mt_close_at p at = (Inr u, p')"
  shows "mt_valid p'"
proof (cases "cursor_milliseconds p")
  case (Some c)
  then obtain q u' where adv: "advance_to p at = (Inr u', q)"
    and p': "p' = q\<lparr>phone_gps := None, vehicle := None, latest_phone_gps_source_milliseconds := None,
      latest_vehicle_source_milliseconds := None, cursor_milliseconds := None\<rparr>"
    using assms(2) by (auto simp: mt_close_at_def split: prod.splits sum.splits)
  show ?thesis
    using mt_advance_valid [OF assms(1) Some adv]
    by (auto simp: p' mt_valid_iff mt_totals_ok_iff mt_sources_ok_def mt_total_def
        split: MovingTimeAvailability.splits)
qed (use assms in \<open>simp add: mt_close_at_def\<close>)

lemma mt_valid_resume:
  assumes "mt_valid p" and "mt_resume_at p at = (Inr u, p')"
  shows "mt_valid p'"
  using assms
  by (auto simp: mt_resume_at_def mt_valid_iff mt_totals_ok_iff mt_sources_ok_def mt_source_ok_def mt_total_def
      split: if_splits MovingTimeAvailability.splits)

lemma mt_valid_restored:
  assumes "mt_restored_after_restart p at = Inr p'"
  shows "mt_valid p'"
  using assms by (auto simp: mt_restored_after_restart_def mt_valid_def mt_from_state_parts_def split: sum.splits if_splits)

section \<open>Runs\<close>

datatype MovingTimeCall =
    ObserveSpeed MovingTimeObservation
  | CloseAt u64
  | ResumeAt u64
  | RestartAt u64

text \<open>The state after a call; a refused call leaves it as it was.\<close>

fun mt_step :: "MovingTimeStateParts \<Rightarrow> MovingTimeCall \<Rightarrow> MovingTimeStateParts" where
  "mt_step p (ObserveSpeed obs) = (case mt_observe p obs of (Inl _, _) \<Rightarrow> p | (Inr _, p') \<Rightarrow> p')"
| "mt_step p (CloseAt at) = (case mt_close_at p at of (Inl _, _) \<Rightarrow> p | (Inr _, p') \<Rightarrow> p')"
| "mt_step p (ResumeAt at) = (case mt_resume_at p at of (Inl _, _) \<Rightarrow> p | (Inr _, p') \<Rightarrow> p')"
| "mt_step p (RestartAt at) = (case mt_restored_after_restart p at of Inl _ \<Rightarrow> p | Inr p' \<Rightarrow> p')"

text \<open>No speed is observed while the continuation is closed with complete coverage.\<close>

primrec mt_disciplined :: "MovingTimeStateParts \<Rightarrow> MovingTimeCall list \<Rightarrow> bool" where
  "mt_disciplined p [] = True"
| "mt_disciplined p (c # cs) =
     ((case c of
         ObserveSpeed _ \<Rightarrow> is_some (cursor_milliseconds p) \<or> availability p \<noteq> MtComplete
       | _ \<Rightarrow> True)
      \<and> mt_disciplined (mt_step p c) cs)"

lemma mt_valid_step:
  assumes "mt_valid p" and "case c of
      ObserveSpeed _ \<Rightarrow> is_some (cursor_milliseconds p) \<or> availability p \<noteq> MtComplete | _ \<Rightarrow> True"
  shows "mt_valid (mt_step p c)"
  using assms
  by (cases c) (auto split: prod.splits sum.splits
      intro: mt_valid_observe mt_valid_close mt_valid_resume mt_valid_restored)

lemma mt_new_live_valid: "mt_valid (mt_new_live t)"
  by (simp add: mt_valid_iff mt_totals_ok_iff mt_sources_ok_def mt_source_ok_def mt_new_live_def mt_total_def)

section \<open>Properties\<close>



text \<open>
  When totals are committed does not matter: committing up to \<open>a\<close> first and projecting to \<open>b\<close>
  afterwards shows the same moving, observed and unknown time and the same coverage as projecting
  to \<open>b\<close> at once.
\<close>

lemma moving_time_projection_independent:
  assumes "mt_valid p" and "cursor_milliseconds p = Some c" and "advance_to p a = (Inr (), q)"
    and "a \<le> b" and "mt_total p + (unat b - unat c) < 2 ^ 64"
  shows "mt_projected_at q b = mt_projected_at p b"
proof -
  have ca: "c \<le> a" and fits: "mt_total p + (unat a - unat c) < 2 ^ 64"
    and q: "q = (mt_account p (unat c) (unat a))\<lparr>cursor_milliseconds := Some a\<rparr>"
    using mt_advance_to_Inr [OF assms(1,2,3)] by auto
  have le: "unat c \<le> unat a" "unat a \<le> unat b" "c \<le> b"
    using ca assms(4) by (auto simp: word_le_nat_alt)
  have qv: "mt_valid q" and qc: "cursor_milliseconds q = Some a"
    using mt_advance_valid [OF assms(1,2,3)] by (simp_all add: q)
  have "mt_total q = mt_total p + (unat a - unat c)"
    using mt_account_totals(4) [OF le(1) fits] assms(1) by (simp add: q mt_total_def mt_valid_iff mt_totals_ok_iff)
  then have "mt_total q + (unat b - unat a) < 2 ^ 64"
    using assms(5) le by simp
  then have adq: "advance_to q b = (Inr (), (mt_account q (unat a) (unat b))\<lparr>cursor_milliseconds := Some b\<rparr>)"
    using mt_advance_to_account [OF qv qc assms(4)] by simp
  have "mt_account q (unat a) (unat b) = (mt_account p (unat c) (unat b))\<lparr>cursor_milliseconds := Some a\<rparr>"
    using mt_account_split [OF le(1,2), of p] by (simp add: q mt_account_cursor)
  moreover have "advance_to p b = (Inr (), (mt_account p (unat c) (unat b))\<lparr>cursor_milliseconds := Some b\<rparr>)"
    using mt_advance_to_account [OF assms(1,2) le(3)] assms(5) by simp
  ultimately show ?thesis
    using adq qc assms(2,4) le(3) leD [OF assms(4)] leD [OF le(3)] by (simp add: mt_projected_at_def mt_summary_def)
qed

lemma moving_time_projection_independent_example:
  "mt_projected_at (snd (advance_to (mt_new_live 0) 10)) 30 = mt_projected_at (mt_new_live 0) 30"
proof -
  have "advance_to (mt_new_live 0) 10 = (Inr (), snd (advance_to (mt_new_live 0) 10))"
    using mt_advance_to_account [OF mt_new_live_valid, of 0 0 10] by (simp add: mt_new_live_def mt_total_def)
  then show ?thesis
    using moving_time_projection_independent [OF mt_new_live_valid _ _, of 0 0 10 _ 30]
    by (simp add: mt_new_live_def mt_total_def)
qed

text \<open>
  The states of a live ride can always be persisted and restored: over any sequence of
  observations, closings, resumptions and restarts that never observes a speed while the
  continuation is closed with complete coverage, the rehydration check accepts the state.
\<close>

lemma moving_time_reachable_valid:
  assumes "mt_disciplined (mt_new_live t) calls"
  shows "mt_from_state_parts (foldl mt_step (mt_new_live t) calls) = Inr (foldl mt_step (mt_new_live t) calls)"
proof -
  have "mt_valid (foldl mt_step p calls)" if "mt_valid p" "mt_disciplined p calls" for p
    using that
  proof (induction calls arbitrary: p)
    case (Cons c calls)
    then show ?case
      using mt_valid_step [of p c] by simp
  qed simp
  then show ?thesis
    using assms mt_new_live_valid [of t] by (simp add: mt_valid_def)
qed

lemma moving_time_reachable_valid_example:
  "\<exists>p. mt_from_state_parts p = Inr p \<and>
     p = foldl mt_step (mt_new_live 0) [ObserveSpeed \<lparr>obs_source = Vehicle, obs_speed = Some 700,
        obs_source_at = 5, obs_receipt_at = 6\<rparr>, CloseAt 9, ResumeAt 20]"
proof -
  have "mt_disciplined (mt_new_live 0) [ObserveSpeed \<lparr>obs_source = Vehicle, obs_speed = Some 700,
        obs_source_at = 5, obs_receipt_at = 6\<rparr>, CloseAt 9, ResumeAt 20]"
    by (simp add: mt_new_live_def)
  from moving_time_reachable_valid [OF this] show ?thesis
    by blast
qed

text \<open>
  The exception is real: an observation accepted by a continuation that is closed with complete
  coverage leaves a state that the rehydration check refuses, since the gap is noted as incomplete
  history while the coverage stays complete.
\<close>

lemma moving_time_closed_observation:
  assumes "cursor_milliseconds p = None" and "availability p = MtComplete" and "mt_observe p obs = (Inr u, p')"
  shows "mt_from_state_parts p' = Inl MtInvalidState"
proof -
  obtain q u' where adv: "advance_to p (obs_receipt_at obs) = (Inr u', q)"
    and p': "p' = mt_record_source (q\<lparr>incomplete_history := True\<rparr>) obs"
    using mt_observe_Inr [OF assms(3)] assms(1) by auto
  have "availability q = MtComplete"
    using adv assms(1,2) by (auto simp: advance_to_def)
  then have "availability p' = MtComplete \<and> incomplete_history p'"
    unfolding p' by (cases "obs_source obs"; cases "obs_speed obs")
      (simp_all add: mt_record_source_def mark_evidence_available_def Let_def)
  then show ?thesis
    by (simp add: mt_from_state_parts_def mt_totals_ok_def)
qed

lemma moving_time_closed_observation_example:
  "\<exists>p p'. mt_valid p \<and> cursor_milliseconds p = None \<and> availability p = MtComplete
    \<and> mt_observe p \<lparr>obs_source = Vehicle, obs_speed = Some 0, obs_source_at = 100, obs_receipt_at = 100\<rparr> = (Inr (), p')
    \<and> mt_from_state_parts p' = Inl MtInvalidState"
proof -
  let ?p = "mt_unavailable\<lparr>availability := MtComplete, incomplete_history := False\<rparr>"
  let ?obs = "\<lparr>obs_source = Vehicle, obs_speed = Some 0, obs_source_at = 100, obs_receipt_at = 100\<rparr>"
  have p: "mt_valid ?p" "cursor_milliseconds ?p = None" "availability ?p = MtComplete"
    by (simp_all add: mt_valid_iff mt_totals_ok_iff mt_sources_ok_def mt_unavailable_def mt_total_def)
  obtain p' where "mt_observe ?p ?obs = (Inr (), p')"
    by (simp add: mt_observe_def mt_observe_check_def latest_source_at_def advance_to_def mt_unavailable_def
        TELEMETRY_FRESHNESS_MILLISECONDS_def Let_def)
  then show ?thesis
    using moving_time_closed_observation [OF p(2,3)] p by blast
qed

end
