(* ===== verification/Recovery.thy ===== *)
theory Recovery
  imports Interfaces Core_Units
begin

text \<open>
  Ride recovery of \<^verbatim>\<open>cutout-ride-maps/src/recovery.rs\<close>: the ordered inactivity evidence, its merge
  with possibly stale snapshots, and the decision what to do with an interrupted or paused ride.
  A receipt order is a nonzero 64-bit number.  Shown: merging is associative, idempotent and, for
  different orders, commutative; evidence never rolls back and stays restorable; an inactive
  interval keeps its first anchor; and the recovery windows are exact.
\<close>

datatype RideAppPresence = AppForeground | AppBackground

type_synonym RideAppPresenceOrder = u64
type_synonym WallClockUnixMilliseconds = u64

definition presence_order_new :: "u64 \<Rightarrow> RideAppPresenceOrder option" where
  "presence_order_new v = (if v = 0 then None else Some v)"

datatype RideInactivityEligibility = VerifiedParked | NotCanonicallyParked

record RideInactivityEvidence =
  presence_order :: "RideAppPresenceOrder option"
  presence_observed_at :: "WallClockUnixMilliseconds option"
  app_inactive_since :: "WallClockUnixMilliseconds option"
  last_verified_device_seen :: "WallClockUnixMilliseconds option"

datatype RideInactivityEvidenceError = EvidenceInvalidState | OrderExhausted

definition evidence_default :: RideInactivityEvidence where
  "evidence_default =
     \<lparr>presence_order = None, presence_observed_at = None, app_inactive_since = None,
      last_verified_device_seen = None\<rparr>"

definition evidence_from_state_parts ::
  "RideAppPresenceOrder option \<Rightarrow> WallClockUnixMilliseconds option \<Rightarrow> WallClockUnixMilliseconds option
     \<Rightarrow> WallClockUnixMilliseconds option \<Rightarrow> RideInactivityEvidenceError + RideInactivityEvidence" where
  "evidence_from_state_parts order observed inactive seen =
     (if is_some order \<noteq> is_some observed \<or> (is_some inactive \<and> order = None)
      then Inl EvidenceInvalidState
      else Inr \<lparr>presence_order = order, presence_observed_at = observed, app_inactive_since = inactive,
                last_verified_device_seen = seen\<rparr>)"

text \<open>The derived order on \<open>Option\<close>: \<open>None\<close> is below every value.\<close>

definition opt_less :: "u64 option \<Rightarrow> u64 option \<Rightarrow> bool" where
  "opt_less a b = (case b of None \<Rightarrow> False | Some y \<Rightarrow> (case a of None \<Rightarrow> True | Some x \<Rightarrow> x < y))"

definition evidence_merge ::
  "RideInactivityEvidence \<Rightarrow> RideInactivityEvidence \<Rightarrow> RideInactivityEvidence" where
  "evidence_merge a b =
     (let newer = opt_less (presence_order a) (presence_order b)
      in \<lparr>presence_order = (if newer then presence_order b else presence_order a),
          presence_observed_at = (if newer then presence_observed_at b else presence_observed_at a),
          app_inactive_since = (if newer then app_inactive_since b else app_inactive_since a),
          last_verified_device_seen =
            (case (last_verified_device_seen a, last_verified_device_seen b) of
               (Some current, Some candidate) \<Rightarrow> Some (max current candidate)
             | (Some current, None) \<Rightarrow> Some current
             | (None, Some candidate) \<Rightarrow> Some candidate
             | (None, None) \<Rightarrow> None)\<rparr>)"

definition observe_app_presence ::
  "RideInactivityEvidence \<Rightarrow> RideAppPresenceOrder \<Rightarrow> RideAppPresence \<Rightarrow> WallClockUnixMilliseconds
     \<Rightarrow> bool \<times> RideInactivityEvidence" where
  "observe_app_presence e order presence observed_at =
     (if is_some_and (presence_order e) (\<lambda>prev. order \<le> prev) then (False, e)
      else (True,
            e\<lparr>presence_order := Some order, presence_observed_at := Some observed_at,
              app_inactive_since :=
                (case presence of
                   AppForeground \<Rightarrow> None
                 | AppBackground \<Rightarrow>
                     (case app_inactive_since e of None \<Rightarrow> Some observed_at | Some t \<Rightarrow> Some t))\<rparr>))"

definition observe_verified_device_seen ::
  "RideInactivityEvidence \<Rightarrow> WallClockUnixMilliseconds \<Rightarrow> bool \<times> RideInactivityEvidence" where
  "observe_verified_device_seen e observed_at =
     (if is_some_and (last_verified_device_seen e) (\<lambda>prev. observed_at \<le> prev) then (False, e)
      else (True, e\<lparr>last_verified_device_seen := Some observed_at\<rparr>))"

definition INTERRUPTED_RIDE_RESUME_WINDOW :: u64 where
  "INTERRUPTED_RIDE_RESUME_WINDOW = 3 * 60 * 60 * 1000"

definition EXPLICIT_PAUSE_PERSISTENCE_WINDOW :: u64 where
  "EXPLICIT_PAUSE_PERSISTENCE_WINDOW = 24 * 60 * 60 * 1000"

datatype RideRecoveryKind = InvoluntaryInterruption | ExplicitPause

datatype RideRecoveryDecision = RecoverResume | KeepPaused | Finalize

definition ride_recovery_decision ::
  "RideRecoveryKind \<Rightarrow> WallClockUnixMilliseconds \<Rightarrow> WallClockUnixMilliseconds \<Rightarrow> RideRecoveryDecision" where
  "ride_recovery_decision kind now updated_at =
     (case checked_sub now updated_at of
        None \<Rightarrow> Finalize
      | Some age \<Rightarrow>
          (case kind of
             InvoluntaryInterruption \<Rightarrow>
               if age \<le> INTERRUPTED_RIDE_RESUME_WINDOW then RecoverResume else Finalize
           | ExplicitPause \<Rightarrow>
               if age \<le> EXPLICIT_PAUSE_PERSISTENCE_WINDOW then KeepPaused else Finalize))"

definition inactivity_recovery_decision ::
  "RideInactivityEvidence \<Rightarrow> WallClockUnixMilliseconds \<Rightarrow> RideInactivityEligibility
     \<Rightarrow> RideRecoveryDecision option" where
  "inactivity_recovery_decision e now eligibility =
     (if eligibility \<noteq> VerifiedParked then None
      else (case app_inactive_since e of
              None \<Rightarrow> None
            | Some inactive_since \<Rightarrow>
                Some (ride_recovery_decision InvoluntaryInterruption now
                        (case last_verified_device_seen e of
                           None \<Rightarrow> inactive_since
                         | Some last_seen \<Rightarrow> max inactive_since last_seen))))"

section \<open>Runs\<close>

datatype EvidenceCall =
    Presence RideAppPresenceOrder RideAppPresence WallClockUnixMilliseconds
  | DeviceSeen WallClockUnixMilliseconds
  | MergeWith RideInactivityEvidence

definition evidence_valid :: "RideInactivityEvidence \<Rightarrow> bool" where
  "evidence_valid e \<longleftrightarrow>
     evidence_from_state_parts (presence_order e) (presence_observed_at e) (app_inactive_since e)
       (last_verified_device_seen e) = Inr e"

text \<open>A snapshot to merge with is itself restored, hence valid; an invalid one is refused.\<close>

fun evidence_step :: "RideInactivityEvidence \<Rightarrow> EvidenceCall \<Rightarrow> RideInactivityEvidence" where
  "evidence_step e (Presence order p t) = snd (observe_app_presence e order p t)"
| "evidence_step e (DeviceSeen t) = snd (observe_verified_device_seen e t)"
| "evidence_step e (MergeWith b) = (if evidence_valid b then evidence_merge e b else e)"

definition opt_le :: "u64 option \<Rightarrow> u64 option \<Rightarrow> bool" where
  "opt_le a b \<longleftrightarrow> \<not> opt_less b a"

lemmas evidence_defs = evidence_valid_def evidence_from_state_parts_def evidence_merge_def
  observe_app_presence_def observe_verified_device_seen_def

lemma evidence_valid_iff:
  "evidence_valid e \<longleftrightarrow> (is_some (presence_order e) \<longleftrightarrow> is_some (presence_observed_at e))
     \<and> (is_some (app_inactive_since e) \<longrightarrow> is_some (presence_order e))"
  by (cases e) (auto simp: evidence_valid_def evidence_from_state_parts_def is_some_iff)

lemma evidence_valid_merge: "evidence_valid a \<Longrightarrow> evidence_valid b \<Longrightarrow> evidence_valid (evidence_merge a b)"
  by (auto simp: evidence_valid_iff evidence_merge_def Let_def)

lemma evidence_valid_step: "evidence_valid e \<Longrightarrow> evidence_valid (evidence_step e c)"
proof (cases c)
  case (Presence order p t)
  assume "evidence_valid e"
  then show ?thesis
    by (cases p) (auto simp: Presence evidence_valid_iff observe_app_presence_def split: option.splits)
next
  case (DeviceSeen t)
  assume "evidence_valid e"
  then show ?thesis
    by (auto simp: DeviceSeen evidence_valid_iff observe_verified_device_seen_def)
next
  case (MergeWith b)
  assume "evidence_valid e"
  then show ?thesis
    by (simp add: MergeWith evidence_valid_merge)
qed

interpretation evidence: reducer evidence_step evidence_default evidence_valid
  by unfold_locales (simp_all add: evidence_valid_step, simp add: evidence_valid_iff evidence_default_def)

lemma opt_le_trans: "opt_le a b \<Longrightarrow> opt_le b c \<Longrightarrow> opt_le a c"
  by (auto simp: opt_le_def opt_less_def split: option.splits)

lemma opt_le_refl [simp]: "opt_le a a"
  by (simp add: opt_le_def opt_less_def split: option.splits)

lemma evidence_step_mono:
  "opt_le (presence_order e) (presence_order (evidence_step e c))
   \<and> opt_le (last_verified_device_seen e) (last_verified_device_seen (evidence_step e c))"
  by (cases c) (auto simp: evidence_defs opt_le_def opt_less_def Let_def is_some_and_def max_def
      split: option.splits)

text \<open>
  Evidence never rolls back: over any sequence of presence events, device observations and
  merges with restored snapshots, in any order of delivery, the presence watermark and the
  verified-device watermark never decrease, and the evidence stays one that can be persisted and
  restored.
\<close>

lemma evidence_no_rollback:
  "opt_le (presence_order (foldl evidence_step evidence_default calls))
     (presence_order (foldl evidence_step evidence_default (calls @ further)))
   \<and> opt_le (last_verified_device_seen (foldl evidence_step evidence_default calls))
     (last_verified_device_seen (foldl evidence_step evidence_default (calls @ further)))
   \<and> evidence_valid (foldl evidence_step evidence_default (calls @ further))"
proof -
  have "opt_le (presence_order e) (presence_order (foldl evidence_step e further))
      \<and> opt_le (last_verified_device_seen e) (last_verified_device_seen (foldl evidence_step e further))" for e
  proof (induction further arbitrary: e)
    case (Cons c cs)
    then show ?case
      using evidence_step_mono [of e c] by (auto intro: opt_le_trans)
  qed simp
  then show ?thesis
    using evidence.inv_run [of "calls @ further"] by simp
qed

text \<open>
  Merging snapshots is order independent where the sources are: it is associative and
  idempotent, and commutative on snapshots whose presence events differ in receipt order or agree.
\<close>

lemma evidence_merge_laws:
  "evidence_merge (evidence_merge a b) c = evidence_merge a (evidence_merge b c)
   \<and> evidence_merge a a = a
   \<and> (presence_order a \<noteq> presence_order b \<or> (presence_observed_at a = presence_observed_at b
        \<and> app_inactive_since a = app_inactive_since b)
      \<longrightarrow> evidence_merge a b = evidence_merge b a)"
proof (intro conjI impI)
  show "evidence_merge (evidence_merge a b) c = evidence_merge a (evidence_merge b c)"
    by (cases "presence_order a"; cases "presence_order b"; cases "presence_order c";
        cases "last_verified_device_seen a"; cases "last_verified_device_seen b";
        cases "last_verified_device_seen c")
      (auto simp: evidence_merge_def opt_less_def Let_def max_def)
  show "evidence_merge a a = a"
    by (cases a) (auto simp: evidence_merge_def opt_less_def Let_def split: option.splits)
  show "evidence_merge a b = evidence_merge b a"
    if "presence_order a \<noteq> presence_order b \<or> (presence_observed_at a = presence_observed_at b
        \<and> app_inactive_since a = app_inactive_since b)"
    using that
    by (cases "presence_order a"; cases "presence_order b";
        cases "last_verified_device_seen a"; cases "last_verified_device_seen b")
      (auto simp: evidence_merge_def opt_less_def Let_def max_def)
qed

lemma evidence_merge_laws_example:
  "evidence_merge (evidence_default\<lparr>presence_order := Some 1\<rparr>) evidence_default =
   evidence_merge evidence_default (evidence_default\<lparr>presence_order := Some 1\<rparr>)"
  using evidence_merge_laws [of "evidence_default\<lparr>presence_order := Some 1\<rparr>" evidence_default evidence_default]
  by (simp add: evidence_default_def)

text \<open>
  A parked ride is finalised three hours after its newest evidence and not before: where the
  app went inactive at \<open>t\<close>, later background events keep that anchor, and the decision is to resume
  exactly while the clock is at or after the anchor - the later of \<open>t\<close> and the last verified device
  observation - and at most 10 800 000 milliseconds past it.
\<close>

lemma inactivity_decision_exact:
  assumes "app_inactive_since e = Some t"
  shows "inactivity_recovery_decision (snd (observe_app_presence e order AppBackground later)) now VerifiedParked =
      inactivity_recovery_decision e now VerifiedParked
    \<and> inactivity_recovery_decision e now VerifiedParked =
      Some (if unat now < unat (max t (unwrap_or (last_verified_device_seen e) t))
               \<or> unat (max t (unwrap_or (last_verified_device_seen e) t)) + 10800000 < unat now
            then Finalize else RecoverResume)"
proof -
  have "inactivity_recovery_decision (snd (observe_app_presence e order AppBackground later)) now VerifiedParked =
      inactivity_recovery_decision e now VerifiedParked"
    using assms by (simp add: inactivity_recovery_decision_def observe_app_presence_def)
  moreover have "ride_recovery_decision InvoluntaryInterruption now a =
      (if unat now < unat a \<or> unat a + 10800000 < unat now then Finalize else RecoverResume)" for a
    by (auto simp: ride_recovery_decision_def checked_sub_def INTERRUPTED_RIDE_RESUME_WINDOW_def
        word_le_nat_alt word_less_nat_alt unat_sub)
  ultimately show ?thesis
    using assms by (auto simp: inactivity_recovery_decision_def split: option.splits)
qed

lemma inactivity_decision_exact_example:
  "inactivity_recovery_decision
     (snd (observe_app_presence evidence_default 1 AppBackground 100)) 10800100 VerifiedParked = Some RecoverResume"
  using inactivity_decision_exact [of "snd (observe_app_presence evidence_default 1 AppBackground 100)" 100 2 200 10800100]
  by (simp add: evidence_default_def observe_app_presence_def)

end
