(* ===== verification/Callback_Epoch.thy ===== *)
theory Callback_Epoch
  imports Interfaces Core_Units
begin

text \<open>
  The identities of asynchronous provider callbacks: \<^verbatim>\<open>cutout-music/src/ids.rs\<close> and
  \<^verbatim>\<open>cutout-music/src/callback_epoch.rs\<close>.  The phantom marker of a \<open>LifecycleId\<close> only separates types
  and is dropped.  Shown, through the issuer interface: identities are never reused, even at the end
  of the 64-bit range, and the terminal callback of each is accepted at most once; an authorization
  terminates as the kind it was begun as.
\<close>

section \<open>Identities\<close>

type_synonym LifecycleId = u64

definition lifecycle_id_next :: "LifecycleId \<Rightarrow> LifecycleId option" where
  "lifecycle_id_next i = (case checked_add i 1 of Some v \<Rightarrow> Some v | None \<Rightarrow> None)"

type_synonym ObservationRevision = u64

definition observation_revision_next :: "ObservationRevision \<Rightarrow> ObservationRevision option" where
  "observation_revision_next r = (case checked_add r 1 of Some v \<Rightarrow> Some v | None \<Rightarrow> None)"

lemma lifecycle_id_next_Some: "lifecycle_id_next i = Some n \<Longrightarrow> unat n = Suc (unat i)"
  by (auto simp: lifecycle_id_next_def dest!: checked_add_SomeD split: option.splits)

section \<open>Callback epochs\<close>

datatype CallbackEpochMatch = EpochCurrent | EpochStale

datatype CallbackEpochState = EpochIdle | EpochActive LifecycleId

record CallbackEpoch =
  epoch_last_id :: LifecycleId
  epoch_state :: CallbackEpochState

definition epoch_default :: CallbackEpoch where
  "epoch_default = \<lparr>epoch_last_id = 0, epoch_state = EpochIdle\<rparr>"

definition epoch_begin :: "CallbackEpoch \<Rightarrow> LifecycleId option \<times> CallbackEpoch" where
  "epoch_begin e =
     (case lifecycle_id_next (epoch_last_id e) of
        None \<Rightarrow> (None, e)
      | Some i \<Rightarrow> (Some i, e\<lparr>epoch_last_id := i, epoch_state := EpochActive i\<rparr>))"

definition epoch_classify :: "CallbackEpoch \<Rightarrow> LifecycleId \<Rightarrow> CallbackEpochMatch" where
  "epoch_classify e i =
     (case epoch_state e of
        EpochActive active \<Rightarrow> if active = i then EpochCurrent else EpochStale
      | EpochIdle \<Rightarrow> EpochStale)"

definition epoch_finish :: "CallbackEpoch \<Rightarrow> LifecycleId \<Rightarrow> CallbackEpochMatch \<times> CallbackEpoch" where
  "epoch_finish e i =
     (let outcome = epoch_classify e i
      in (outcome, if outcome = EpochCurrent then e\<lparr>epoch_state := EpochIdle\<rparr> else e))"

definition epoch_invalidate :: "CallbackEpoch \<Rightarrow> CallbackEpoch" where
  "epoch_invalidate e = e\<lparr>epoch_state := EpochIdle\<rparr>"

section \<open>Authorization transactions\<close>

datatype AuthorizationTransactionKind = KindAuthorizing | KindRenewing

datatype AuthorizationTransactionMatch = MatchAuthorizing | MatchRenewing | MatchStale

datatype AuthorizationTransactionState =
    AuthIdle
  | Authorizing LifecycleId
  | Renewing LifecycleId

record AuthorizationTransaction =
  auth_last_id :: LifecycleId
  auth_state :: AuthorizationTransactionState

definition auth_default :: AuthorizationTransaction where
  "auth_default = \<lparr>auth_last_id = 0, auth_state = AuthIdle\<rparr>"

definition auth_begin ::
  "AuthorizationTransaction \<Rightarrow> AuthorizationTransactionKind \<Rightarrow> LifecycleId option \<times> AuthorizationTransaction" where
  "auth_begin a kind =
     (case lifecycle_id_next (auth_last_id a) of
        None \<Rightarrow> (None, a)
      | Some i \<Rightarrow>
          (Some i, a\<lparr>auth_last_id := i,
                     auth_state := (case kind of KindAuthorizing \<Rightarrow> Authorizing i | KindRenewing \<Rightarrow> Renewing i)\<rparr>))"

definition auth_classify :: "AuthorizationTransaction \<Rightarrow> LifecycleId \<Rightarrow> AuthorizationTransactionMatch" where
  "auth_classify a i =
     (case auth_state a of
        Authorizing active \<Rightarrow> if active = i then MatchAuthorizing else MatchStale
      | Renewing active \<Rightarrow> if active = i then MatchRenewing else MatchStale
      | AuthIdle \<Rightarrow> MatchStale)"

definition auth_finish ::
  "AuthorizationTransaction \<Rightarrow> LifecycleId \<Rightarrow> AuthorizationTransactionMatch \<times> AuthorizationTransaction" where
  "auth_finish a i =
     (let outcome = auth_classify a i
      in (outcome, if outcome \<noteq> MatchStale then a\<lparr>auth_state := AuthIdle\<rparr> else a))"

definition auth_invalidate :: "AuthorizationTransaction \<Rightarrow> AuthorizationTransaction" where
  "auth_invalidate a = a\<lparr>auth_state := AuthIdle\<rparr>"

section \<open>Runs\<close>

datatype EpochCall = EpochBegin | EpochFinish LifecycleId | EpochInvalidate

fun epoch_step :: "CallbackEpoch \<Rightarrow> EpochCall \<Rightarrow> LifecycleId option \<times> CallbackEpoch" where
  "epoch_step e EpochBegin = epoch_begin e"
| "epoch_step e (EpochFinish i) = (None, snd (epoch_finish e i))"
| "epoch_step e EpochInvalidate = (None, epoch_invalidate e)"

definition epoch_active :: "CallbackEpoch \<Rightarrow> LifecycleId option" where
  "epoch_active e = (case epoch_state e of EpochActive i \<Rightarrow> Some i | EpochIdle \<Rightarrow> None)"

fun epoch_accepts :: "CallbackEpoch \<Rightarrow> EpochCall \<Rightarrow> LifecycleId \<Rightarrow> bool" where
  "epoch_accepts e (EpochFinish i) n = (i = n \<and> fst (epoch_finish e i) = EpochCurrent)"
| "epoch_accepts e _ n = False"

interpretation epoch: one_shot_source epoch_step epoch_last_id epoch_active epoch_accepts
proof
  show "unat n = Suc (unat (epoch_last_id e)) \<and> epoch_last_id e' = n \<and> epoch_active e' = Some n"
    if "epoch_step e c = (Some n, e')" for e c n e'
    using that by (cases c) (auto simp: epoch_begin_def epoch_active_def dest: lifecycle_id_next_Some
        split: option.splits)
  show "epoch_last_id e' = epoch_last_id e \<and> (epoch_active e' = None \<or> epoch_active e' = epoch_active e)"
    if "epoch_step e c = (None, e')" for e c e'
    using that by (cases c) (auto simp: epoch_begin_def epoch_active_def epoch_finish_def epoch_invalidate_def
        Let_def split: option.splits)
  show "epoch_active e = Some n \<and> epoch_active (snd (epoch_step e c)) = None"
    if "epoch_accepts e c n" for e c n
    using that by (cases c) (auto simp: epoch_finish_def epoch_active_def epoch_classify_def Let_def
        split: CallbackEpochState.splits if_splits)
qed

datatype AuthCall = AuthBegin AuthorizationTransactionKind | AuthFinish LifecycleId | AuthInvalidate

fun auth_step :: "AuthorizationTransaction \<Rightarrow> AuthCall \<Rightarrow> LifecycleId option \<times> AuthorizationTransaction" where
  "auth_step a (AuthBegin kind) = auth_begin a kind"
| "auth_step a (AuthFinish i) = (None, snd (auth_finish a i))"
| "auth_step a AuthInvalidate = (None, auth_invalidate a)"

definition auth_active :: "AuthorizationTransaction \<Rightarrow> LifecycleId option" where
  "auth_active a = (case auth_state a of Authorizing i \<Rightarrow> Some i | Renewing i \<Rightarrow> Some i | AuthIdle \<Rightarrow> None)"

fun auth_accepts :: "AuthorizationTransaction \<Rightarrow> AuthCall \<Rightarrow> LifecycleId \<Rightarrow> bool" where
  "auth_accepts a (AuthFinish i) n = (i = n \<and> fst (auth_finish a i) \<noteq> MatchStale)"
| "auth_accepts a _ n = False"

interpretation auth: one_shot_source auth_step auth_last_id auth_active auth_accepts
proof
  show "unat n = Suc (unat (auth_last_id a)) \<and> auth_last_id a' = n \<and> auth_active a' = Some n"
    if "auth_step a c = (Some n, a')" for a c n a'
    using that by (cases c) (auto simp: auth_begin_def auth_active_def dest: lifecycle_id_next_Some
        split: option.splits AuthorizationTransactionKind.splits)
  show "auth_last_id a' = auth_last_id a \<and> (auth_active a' = None \<or> auth_active a' = auth_active a)"
    if "auth_step a c = (None, a')" for a c a'
    using that by (cases c) (auto simp: auth_begin_def auth_active_def auth_finish_def auth_invalidate_def
        Let_def split: option.splits)
  show "auth_active a = Some n \<and> auth_active (snd (auth_step a c)) = None"
    if "auth_accepts a c n" for a c n
    using that by (cases c) (auto simp: auth_finish_def auth_active_def auth_classify_def Let_def
        split: AuthorizationTransactionState.splits if_splits)
qed

section \<open>Properties\<close>

text \<open>
  Each provider callback epoch is honoured once: over any run from a fresh source, in any
  interleaving of begins, terminal callbacks and invalidations, the identities handed out strictly
  increase and the terminal callback of each identity is accepted at most once.
\<close>

lemma epoch_callbacks_once:
  "distinct (epoch.issued epoch_default calls) \<and> sorted (epoch.issued epoch_default calls)
   \<and> epoch.accept_count i epoch_default calls \<le> 1"
proof -
  have "epoch.bounded epoch_default"
    by (simp add: epoch.bounded_def epoch_default_def epoch_active_def)
  then show ?thesis
    using epoch.issued_fresh [of epoch_default calls] issued_above_distinct issued_above_sorted
      epoch.accepted_once by blast
qed

lemma auth_finish_kind:
  assumes "auth_begin a kind = (Some i, a')"
  shows "auth_finish a' i = (case kind of KindAuthorizing \<Rightarrow> MatchAuthorizing | KindRenewing \<Rightarrow> MatchRenewing,
    a'\<lparr>auth_state := AuthIdle\<rparr>)"
  using assms by (auto simp: auth_begin_def auth_finish_def auth_classify_def Let_def
      split: option.splits AuthorizationTransactionKind.splits)

text \<open>
  An authorization or renewal that was begun terminates as what it was begun as when its own
  callback comes first, and once it was replaced, terminated or invalidated no later call makes its
  identity current again.
\<close>

lemma auth_transaction_kind:
  assumes "auth_begin a kind = (Some i, a')" and "auth_begin a' kind' = (Some j, a'')"
  shows "fst (auth_finish a' i) = (case kind of KindAuthorizing \<Rightarrow> MatchAuthorizing | KindRenewing \<Rightarrow> MatchRenewing)
    \<and> auth_classify (foldl (\<lambda>s c. snd (auth_step s c)) (snd (auth_finish a' i)) calls) i = MatchStale
    \<and> auth_classify (foldl (\<lambda>s c. snd (auth_step s c)) (auth_invalidate a') calls) i = MatchStale
    \<and> auth_classify (foldl (\<lambda>s c. snd (auth_step s c)) a'' calls) i = MatchStale"
proof -
  have i: "auth_last_id a' = i"
    using assms(1) by (auto simp: auth_begin_def split: option.splits)
  have j: "unat j = Suc (unat i)" "auth_last_id a'' = j" "auth_active a'' = Some j"
    using auth.issue [of a' "AuthBegin kind'" j a''] assms(2) i by auto
  have stale: "auth_classify s i = MatchStale" if "auth_active s \<noteq> Some i" for s
    using that by (auto simp: auth_classify_def auth_active_def split: AuthorizationTransactionState.splits)
  have "auth_classify (foldl (\<lambda>s c. snd (auth_step s c)) (snd (auth_finish a' i)) calls) i = MatchStale"
    using auth_finish_kind [OF assms(1)] i
    by (intro stale auth.retired_for_ever) (simp_all add: auth_active_def)
  moreover have "auth_classify (foldl (\<lambda>s c. snd (auth_step s c)) (auth_invalidate a') calls) i = MatchStale"
    using i by (intro stale auth.retired_for_ever) (simp_all add: auth_active_def auth_invalidate_def)
  moreover have "auth_classify (foldl (\<lambda>s c. snd (auth_step s c)) a'' calls) i = MatchStale"
    using j by (intro stale auth.retired_for_ever) auto
  ultimately show ?thesis
    using auth_finish_kind [OF assms(1)] by simp
qed

lemma auth_transaction_kind_example:
  "fst (auth_finish (snd (auth_begin auth_default KindRenewing)) 1) = MatchRenewing"
proof -
  let ?a = "snd (auth_begin auth_default KindRenewing)"
  have b: "auth_begin auth_default KindRenewing = (Some 1, ?a)"
    "auth_begin ?a KindRenewing = (Some 2, snd (auth_begin ?a KindRenewing))"
    by (simp_all add: auth_begin_def auth_default_def lifecycle_id_next_def checked_add_def)
  show ?thesis
    using auth_transaction_kind [OF b] by simp
qed

end
