(* ===== verification/Player_Request.thy ===== *)
theory Player_Request
  imports Callback_Epoch
begin

text \<open>
  Player-state and artwork requests of \<^verbatim>\<open>cutout-music/src/player_request.rs\<close>: one outstanding
  request with a timeout, observation revisions that supersede a poll, and a bounded number of
  artwork attempts.  Shown, through the issuer interface: a callback is accepted at most once and
  only within ten seconds of its request, a poll overtaken by a push observation is never accepted,
  and at most three artwork requests are made between resets.
\<close>

section \<open>State\<close>

definition REQUEST_TIMEOUT :: Duration where
  "REQUEST_TIMEOUT = 10000"

definition OBSERVATION_TIMEOUT :: Duration where
  "OBSERVATION_TIMEOUT = 30000"

definition MAX_ARTWORK_ATTEMPTS :: u8 where
  "MAX_ARTWORK_ATTEMPTS = 3"

datatype MusicPlayerRequestCompletion = Accepted | CompletionStale

datatype MusicPlayerRequestExpiration = ExpirationPending | Expired | ExpirationStale

record PendingPlayerStateRequest =
  request_id :: LifecycleId
  started_at :: MonotonicTimestamp

datatype PlayerStateRequestState = RequestAvailable | RequestPending PendingPlayerStateRequest

definition request_pending :: "PlayerStateRequestState \<Rightarrow> PendingPlayerStateRequest option" where
  "request_pending st = (case st of RequestPending p \<Rightarrow> Some p | RequestAvailable \<Rightarrow> None)"

definition request_retire ::
  "PlayerStateRequestState \<Rightarrow> LifecycleId \<Rightarrow> PendingPlayerStateRequest option \<times> PlayerStateRequestState" where
  "request_retire st i =
     (case opt_filter (\<lambda>p. request_id p = i) (request_pending st) of
        None \<Rightarrow> (None, st)
      | Some p \<Rightarrow> (Some p, RequestAvailable))"

datatype ObservationRevisionState = RevisionCurrent ObservationRevision | RevisionExhausted

definition revision_value :: "ObservationRevisionState \<Rightarrow> ObservationRevision" where
  "revision_value r = (case r of RevisionCurrent v \<Rightarrow> v | RevisionExhausted \<Rightarrow> - 1)"

definition revision_advance :: "ObservationRevisionState \<Rightarrow> ObservationRevisionState" where
  "revision_advance r =
     (case r of
        RevisionCurrent current \<Rightarrow>
          (case observation_revision_next current of
             Some next \<Rightarrow> RevisionCurrent next
           | None \<Rightarrow> RevisionExhausted)
      | RevisionExhausted \<Rightarrow> r)"

record MusicPlayerRequest =
  player_last_id :: LifecycleId
  player_state :: PlayerStateRequestState
  last_observed_at :: "MonotonicTimestamp option"
  observation_revision :: ObservationRevisionState

datatype ArtworkRequestState = ArtworkAvailable | ArtworkPending LifecycleId

record MusicArtworkRequest =
  artwork_last_id :: LifecycleId
  attempts :: u8
  artwork_state :: ArtworkRequestState

definition player_default :: MusicPlayerRequest where
  "player_default =
     \<lparr>player_last_id = 0, player_state = RequestAvailable, last_observed_at = None,
      observation_revision = RevisionCurrent 0\<rparr>"

definition artwork_default :: MusicArtworkRequest where
  "artwork_default = \<lparr>artwork_last_id = 0, attempts = 0, artwork_state = ArtworkAvailable\<rparr>"

section \<open>Artwork requests\<close>

definition artwork_can_retry :: "MusicArtworkRequest \<Rightarrow> bool" where
  "artwork_can_retry a =
     (case artwork_state a of ArtworkAvailable \<Rightarrow> attempts a < MAX_ARTWORK_ATTEMPTS | ArtworkPending _ \<Rightarrow> False)"

definition artwork_begin :: "MusicArtworkRequest \<Rightarrow> LifecycleId option \<times> MusicArtworkRequest" where
  "artwork_begin a =
     (if \<not> artwork_can_retry a then (None, a)
      else (case lifecycle_id_next (artwork_last_id a) of
              None \<Rightarrow> (None, a)
            | Some i \<Rightarrow>
                (Some i, a\<lparr>artwork_last_id := i, attempts := attempts a + 1, artwork_state := ArtworkPending i\<rparr>)))"

definition artwork_complete ::
  "MusicArtworkRequest \<Rightarrow> LifecycleId \<Rightarrow> MusicPlayerRequestCompletion \<times> MusicArtworkRequest" where
  "artwork_complete a i =
     (case artwork_state a of
        ArtworkPending j \<Rightarrow>
          if j = i then (Accepted, a\<lparr>artwork_state := ArtworkAvailable\<rparr>) else (CompletionStale, a)
      | ArtworkAvailable \<Rightarrow> (CompletionStale, a))"

definition artwork_reset :: "MusicArtworkRequest \<Rightarrow> MusicArtworkRequest" where
  "artwork_reset a = a\<lparr>attempts := 0, artwork_state := ArtworkAvailable\<rparr>"

section \<open>Player-state requests\<close>

definition player_begin :: "MusicPlayerRequest \<Rightarrow> u64 \<Rightarrow> LifecycleId option \<times> MusicPlayerRequest" where
  "player_begin r now =
     (if is_some_and (request_pending (player_state r))
           (\<lambda>p. saturating_duration_since now (started_at p) < REQUEST_TIMEOUT)
      then (None, r)
      else (case lifecycle_id_next (player_last_id r) of
              None \<Rightarrow> (None, r)
            | Some i \<Rightarrow>
                (Some i, r\<lparr>player_last_id := i,
                           player_state := RequestPending \<lparr>request_id = i, started_at = now\<rparr>\<rparr>)))"

definition player_complete ::
  "MusicPlayerRequest \<Rightarrow> LifecycleId \<Rightarrow> u64 \<Rightarrow> MusicPlayerRequestCompletion \<times> MusicPlayerRequest" where
  "player_complete r i now =
     (case request_retire (player_state r) i of
        (None, st) \<Rightarrow> (CompletionStale, r\<lparr>player_state := st\<rparr>)
      | (Some p, st) \<Rightarrow>
          (if saturating_duration_since now (started_at p) < REQUEST_TIMEOUT then Accepted else CompletionStale,
           r\<lparr>player_state := st\<rparr>))"

definition player_expire ::
  "MusicPlayerRequest \<Rightarrow> LifecycleId \<Rightarrow> u64 \<Rightarrow> MusicPlayerRequestExpiration \<times> MusicPlayerRequest" where
  "player_expire r i now =
     (case opt_filter (\<lambda>p. request_id p = i) (request_pending (player_state r)) of
        None \<Rightarrow> (ExpirationStale, r)
      | Some p \<Rightarrow>
          if saturating_duration_since now (started_at p) < REQUEST_TIMEOUT then (ExpirationPending, r)
          else (Expired, r\<lparr>player_state := snd (request_retire (player_state r) i)\<rparr>))"

definition player_complete_if_current ::
  "MusicPlayerRequest \<Rightarrow> LifecycleId \<Rightarrow> ObservationRevision \<Rightarrow> u64
     \<Rightarrow> MusicPlayerRequestCompletion \<times> MusicPlayerRequest" where
  "player_complete_if_current r i revn now =
     (if observation_revision r \<noteq> RevisionCurrent revn
      then (CompletionStale, r\<lparr>player_state := snd (request_retire (player_state r) i)\<rparr>)
      else player_complete r i now)"

definition mark_observed :: "MusicPlayerRequest \<Rightarrow> u64 \<Rightarrow> MusicPlayerRequest" where
  "mark_observed r now =
     r\<lparr>observation_revision := revision_advance (observation_revision r), last_observed_at := Some now\<rparr>"

definition player_is_stale :: "MusicPlayerRequest \<Rightarrow> u64 \<Rightarrow> bool" where
  "player_is_stale r now =
     is_some_and (last_observed_at r)
       (\<lambda>observed_at. OBSERVATION_TIMEOUT < saturating_duration_since now observed_at)"

definition player_reset :: "MusicPlayerRequest \<Rightarrow> MusicPlayerRequest" where
  "player_reset r = r\<lparr>player_state := RequestAvailable, last_observed_at := None\<rparr>"

section \<open>Runs\<close>

datatype PlayerCall =
    PlayerBegin u64
  | PlayerComplete LifecycleId u64
  | PlayerCompleteIfCurrent LifecycleId ObservationRevision u64
  | PlayerExpire LifecycleId u64
  | MarkObserved u64
  | PlayerReset

fun player_step :: "MusicPlayerRequest \<Rightarrow> PlayerCall \<Rightarrow> LifecycleId option \<times> MusicPlayerRequest" where
  "player_step r (PlayerBegin now) = player_begin r now"
| "player_step r (PlayerComplete i now) = (None, snd (player_complete r i now))"
| "player_step r (PlayerCompleteIfCurrent i revn now) = (None, snd (player_complete_if_current r i revn now))"
| "player_step r (PlayerExpire i now) = (None, snd (player_expire r i now))"
| "player_step r (MarkObserved now) = (None, mark_observed r now)"
| "player_step r PlayerReset = (None, player_reset r)"

definition player_active :: "MusicPlayerRequest \<Rightarrow> LifecycleId option" where
  "player_active r = map_option request_id (request_pending (player_state r))"

fun player_accepts :: "MusicPlayerRequest \<Rightarrow> PlayerCall \<Rightarrow> LifecycleId \<Rightarrow> bool" where
  "player_accepts r (PlayerComplete i now) n = (i = n \<and> fst (player_complete r i now) = Accepted)"
| "player_accepts r (PlayerCompleteIfCurrent i revn now) n =
     (i = n \<and> fst (player_complete_if_current r i revn now) = Accepted)"
| "player_accepts r _ n = False"

lemmas player_ops = player_begin_def player_complete_def player_expire_def player_complete_if_current_def
  mark_observed_def player_reset_def request_retire_def request_pending_def

interpretation player: one_shot_source player_step player_last_id player_active player_accepts
proof
  show "unat n = Suc (unat (player_last_id r)) \<and> player_last_id r' = n \<and> player_active r' = Some n"
    if "player_step r c = (Some n, r')" for r c n r'
    using that by (cases c) (auto simp: player_begin_def player_active_def request_pending_def
        dest: lifecycle_id_next_Some split: option.splits if_splits)
  show "player_last_id r' = player_last_id r \<and> (player_active r' = None \<or> player_active r' = player_active r)"
    if "player_step r c = (None, r')" for r c r'
    using that by (cases c) (auto simp: player_active_def player_ops
        split: option.splits if_splits PlayerStateRequestState.splits)
  show "player_active r = Some n \<and> player_active (snd (player_step r c)) = None"
    if "player_accepts r c n" for r c n
    using that by (cases c) (auto simp: player_active_def player_ops
        split: option.splits if_splits PlayerStateRequestState.splits)
qed

section \<open>Properties\<close>

text \<open>
  A player-state callback is honoured once: over any run from a fresh request slot, with polls,
  pushed observations, timeouts and resets in any order, request identities strictly increase and
  the callback of each is accepted at most once.
\<close>

lemma player_callbacks_once:
  "distinct (player.issued player_default calls) \<and> sorted (player.issued player_default calls)
   \<and> player.accept_count i player_default calls \<le> 1"
proof -
  have "player.bounded player_default"
    by (simp add: player.bounded_def player_default_def player_active_def request_pending_def)
  then show ?thesis
    using player.issued_fresh [of player_default calls] issued_above_distinct issued_above_sorted
      player.accepted_once by blast
qed

text \<open>The revisions observed after a call are never below the ones before.\<close>

definition revision_position :: "MusicPlayerRequest \<Rightarrow> nat" where
  "revision_position r =
     (case observation_revision r of RevisionCurrent v \<Rightarrow> unat v | RevisionExhausted \<Rightarrow> 2 ^ 64)"

lemma revision_position_observed:
  assumes "revision_position r < 2 ^ 64"
  shows "revision_position (mark_observed r now) = Suc (revision_position r)"
proof (cases "observation_revision r")
  case (RevisionCurrent v)
  show ?thesis
  proof (cases "checked_add v 1")
    case None
    then have "unat v = 2 ^ 64 - 1"
      using unat_less_2p64 [of v] by (simp add: checked_add_None_iff)
    then show ?thesis
      using RevisionCurrent None
      by (simp add: revision_position_def mark_observed_def revision_advance_def observation_revision_next_def)
  next
    case (Some w)
    then show ?thesis
      using RevisionCurrent checked_add_SomeD [OF Some]
      by (simp add: revision_position_def mark_observed_def revision_advance_def observation_revision_next_def)
  qed
qed (use assms in \<open>simp add: revision_position_def\<close>)

lemma revision_position_other:
  "(\<And>now. c \<noteq> MarkObserved now) \<Longrightarrow> revision_position (snd (player_step r c)) = revision_position r"
  by (cases c) (auto simp: revision_position_def player_ops split: option.splits prod.splits)

lemma revision_position_exhausted:
  "\<not> revision_position r < 2 ^ 64 \<Longrightarrow> observation_revision r = RevisionExhausted"
  using unat_less_2p64 by (auto simp: revision_position_def split: ObservationRevisionState.splits)

lemma revision_position_step:
  "revision_position r \<le> revision_position (snd (player_step r c))"
proof (cases "\<exists>now. c = MarkObserved now")
  case True
  then show ?thesis
    using revision_position_observed [of r] revision_position_exhausted [of r]
    by (cases "revision_position r < 2 ^ 64") (auto simp: revision_position_def mark_observed_def revision_advance_def)
next
  case False
  then show ?thesis
    using revision_position_other [of c r] by auto
qed

lemma revision_position_run:
  "revision_position r \<le> revision_position (foldl (\<lambda>r c. snd (player_step r c)) r calls)"
proof (induction calls arbitrary: r)
  case (Cons c calls)
  show ?case
    using revision_position_step [of r c] Cons.IH [of "snd (player_step r c)"] by simp
qed simp

lemma revision_position_passed:
  assumes "MarkObserved t \<in> set calls" and "revision_position r < 2 ^ 64"
  shows "revision_position r < revision_position (foldl (\<lambda>r c. snd (player_step r c)) r calls)"
  using assms
proof (induction calls arbitrary: r)
  case (Cons c calls)
  let ?r = "snd (player_step r c)"
  show ?case
  proof (cases "c = MarkObserved t")
    case True
    then show ?thesis
      using revision_position_observed [OF Cons.prems(2), of t] revision_position_run [of ?r calls] by simp
  next
    case False
    then have "revision_position ?r < revision_position (foldl (\<lambda>r c. snd (player_step r c)) ?r calls)
        \<or> 2 ^ 64 \<le> revision_position ?r"
      using Cons.IH [of ?r] Cons.prems(1) by auto
    then show ?thesis
      using revision_position_step [of r c] revision_position_run [of ?r calls] Cons.prems(2) by auto
  qed
qed simp

text \<open>
  A poll overtaken by a push is dropped: when a player state was observed after the revision a
  poll was started with, no matter what else happened in between, completing the poll for that
  revision is stale.
\<close>

lemma player_superseded_poll_stale:
  assumes "observation_revision r = RevisionCurrent v" and "MarkObserved t \<in> set calls"
  shows "fst (player_complete_if_current (foldl (\<lambda>r c. snd (player_step r c)) r calls) i v now) = CompletionStale"
proof -
  have "revision_position r = unat v"
    using assms(1) by (simp add: revision_position_def)
  then have "unat v < revision_position (foldl (\<lambda>r c. snd (player_step r c)) r calls)"
    using revision_position_passed [OF assms(2), of r] unat_less_2p64 [of v] by simp
  then have "observation_revision (foldl (\<lambda>r c. snd (player_step r c)) r calls) \<noteq> RevisionCurrent v"
    by (auto simp: revision_position_def)
  then show ?thesis
    by (simp add: player_complete_if_current_def)
qed

lemma player_superseded_poll_stale_example:
  "fst (player_complete_if_current
     (foldl (\<lambda>r c. snd (player_step r c)) player_default [PlayerBegin 5, MarkObserved 6]) 1 0 7) = CompletionStale"
  using player_superseded_poll_stale [of player_default 0 6 "[PlayerBegin 5, MarkObserved 6]" 1 7]
  by (simp add: player_default_def)

section \<open>Artwork\<close>

datatype ArtworkCall = ArtworkBegin | ArtworkComplete LifecycleId | ArtworkReset

fun artwork_step :: "MusicArtworkRequest \<Rightarrow> ArtworkCall \<Rightarrow> LifecycleId option \<times> MusicArtworkRequest" where
  "artwork_step a ArtworkBegin = artwork_begin a"
| "artwork_step a (ArtworkComplete i) = (None, snd (artwork_complete a i))"
| "artwork_step a ArtworkReset = (None, artwork_reset a)"

definition artwork_active :: "MusicArtworkRequest \<Rightarrow> LifecycleId option" where
  "artwork_active a = (case artwork_state a of ArtworkPending i \<Rightarrow> Some i | ArtworkAvailable \<Rightarrow> None)"

fun artwork_accepts :: "MusicArtworkRequest \<Rightarrow> ArtworkCall \<Rightarrow> LifecycleId \<Rightarrow> bool" where
  "artwork_accepts a (ArtworkComplete i) n = (i = n \<and> fst (artwork_complete a i) = Accepted)"
| "artwork_accepts a _ n = False"

interpretation artwork: one_shot_source artwork_step artwork_last_id artwork_active artwork_accepts
proof
  show "unat n = Suc (unat (artwork_last_id a)) \<and> artwork_last_id a' = n \<and> artwork_active a' = Some n"
    if "artwork_step a c = (Some n, a')" for a c n a'
    using that by (cases c) (auto simp: artwork_begin_def artwork_active_def dest: lifecycle_id_next_Some
        split: option.splits if_splits)
  show "artwork_last_id a' = artwork_last_id a \<and> (artwork_active a' = None \<or> artwork_active a' = artwork_active a)"
    if "artwork_step a c = (None, a')" for a c a'
    using that by (cases c) (auto simp: artwork_begin_def artwork_complete_def artwork_reset_def artwork_active_def
        split: option.splits if_splits ArtworkRequestState.splits)
  show "artwork_active a = Some n \<and> artwork_active (snd (artwork_step a c)) = None"
    if "artwork_accepts a c n" for a c n
    using that by (cases c) (auto simp: artwork_complete_def artwork_active_def
        split: if_splits ArtworkRequestState.splits)
qed

lemma artwork_attempt:
  assumes "unat (attempts a) \<le> 3" and "c \<noteq> ArtworkReset"
  shows "unat (attempts (snd (artwork_step a c))) =
      unat (attempts a) + (case fst (artwork_step a c) of None \<Rightarrow> 0 | Some _ \<Rightarrow> 1)
    \<and> unat (attempts (snd (artwork_step a c))) \<le> 3"
  using assms by (cases c) (auto simp: artwork_begin_def artwork_complete_def artwork_can_retry_def
      MAX_ARTWORK_ATTEMPTS_def word_less_nat_alt unat_add_one_less
      split: option.splits ArtworkRequestState.splits)

text \<open>
  Artwork is requested at most three times per track or connection: from a fresh or just reset
  request slot, without a further reset, at most three requests are admitted, however their
  callbacks arrive; and their attempt counter never wraps.
\<close>

lemma artwork_attempts_bounded:
  assumes "ArtworkReset \<notin> set calls"
  shows "length (artwork.issued (artwork_reset a) calls) \<le> 3"
proof -
  have "length (artwork.issued b calls) + unat (attempts b) \<le> 3" if "unat (attempts b) \<le> 3" for b
    using that assms
  proof (induction calls arbitrary: b)
    case (Cons c calls)
    obtain r b' where st: "artwork_step b c = (r, b')"
      by fastforce
    have "c \<noteq> ArtworkReset"
      using Cons.prems(2) by auto
    then show ?case
      using artwork_attempt [OF Cons.prems(1), of c] Cons.IH [of b'] Cons.prems(2) st
      by (cases r) auto
  qed simp
  from this [of "artwork_reset a"] show ?thesis
    by (simp add: artwork_reset_def)
qed

lemma artwork_attempts_bounded_example:
  "length (artwork.issued (artwork_reset artwork_default) [ArtworkBegin, ArtworkComplete 1, ArtworkBegin]) \<le> 3"
  by (rule artwork_attempts_bounded) simp

end
