(* ===== verification/Music_Model.thy ===== *)
theory Music_Model
  imports Core_Units
begin

unbundle bit_operations_syntax

text \<open>
  Canonical provider observations and bounded metadata (\<^verbatim>\<open>cutout-music/src/model.rs\<close>): providers,
  playback states, commands and their capability bits, identifiers and display text with their
  bounds, items, positions and snapshots.  Shown: a capability set holds exactly the commands put
  into it, accepted text keeps its bounds, and an accepted snapshot is consistent.
\<close>

section \<open>Vocabulary\<close>

definition MAX_MUSIC_IDENTIFIER_BYTES :: nat where "MAX_MUSIC_IDENTIFIER_BYTES = 256"
definition MAX_MUSIC_DISPLAY_TEXT_BYTES :: nat where "MAX_MUSIC_DISPLAY_TEXT_BYTES = 512"

datatype MusicProvider = AppleMusic | Spotify | SoundCloud

datatype MusicPlaybackState =
    MusicPlaying | MusicPaused | MusicStopped | MusicBuffering | MusicInterrupted
  | MusicUnauthorized | MusicUnavailable | MusicDisconnected | MusicStale

datatype MusicCommand = CmdPrevious | CmdPlay | CmdPause | CmdNext | CmdOpenProvider

datatype MusicValidationError =
    ProviderObservationUnsupported
  | BlankIdentifier
  | IdentifierTooLong
  | PositionAfterDuration
  | ObservationAfterEvent
  | EventKindStateMismatch

fun command_is_skip :: "MusicCommand \<Rightarrow> bool" where
  "command_is_skip CmdPrevious = True"
| "command_is_skip CmdNext = True"
| "command_is_skip _ = False"

fun command_bit :: "MusicCommand \<Rightarrow> u8" where
  "command_bit CmdPrevious = push_bit 0 1"
| "command_bit CmdPlay = push_bit 1 1"
| "command_bit CmdPause = push_bit 2 1"
| "command_bit CmdNext = push_bit 3 1"
| "command_bit CmdOpenProvider = push_bit 4 1"

section \<open>Capabilities\<close>

type_synonym MusicCapabilities = u8

definition capabilities_new :: MusicCapabilities where
  "capabilities_new = 0"

definition capabilities_with :: "MusicCapabilities \<Rightarrow> MusicCommand \<Rightarrow> MusicCapabilities" where
  "capabilities_with caps c = caps OR command_bit c"

definition capabilities_supports :: "MusicCapabilities \<Rightarrow> MusicCommand \<Rightarrow> bool" where
  "capabilities_supports caps c \<longleftrightarrow> caps AND command_bit c \<noteq> 0"

section \<open>Text\<close>

type_synonym MusicIdentifier = rust_str
type_synonym MusicDisplayText = rust_str

definition music_identifier_new :: "rust_str \<Rightarrow> MusicValidationError + MusicIdentifier" where
  "music_identifier_new t =
     (if str_trim t = [] then Inl BlankIdentifier
      else if MAX_MUSIC_IDENTIFIER_BYTES < utf8_len t then Inl IdentifierTooLong
      else Inr t)"

text \<open>The longest prefix of at most \<open>n\<close> bytes that ends at a character boundary.\<close>

fun truncate_utf8 :: "nat \<Rightarrow> rust_str \<Rightarrow> rust_str" where
  "truncate_utf8 n [] = []"
| "truncate_utf8 n (c # cs) =
     (if utf8_len [c] \<le> n then c # truncate_utf8 (n - utf8_len [c]) cs else [])"

definition display_text_new :: "rust_str \<Rightarrow> MusicDisplayText option" where
  "display_text_new t =
     (let v = str_trim t in
      if v = [] then None else Some (truncate_utf8 MAX_MUSIC_DISPLAY_TEXT_BYTES v))"

section \<open>Observations\<close>

record MusicItem =
  item_identifier :: MusicIdentifier
  item_title :: "MusicDisplayText option"
  item_artist :: "MusicDisplayText option"

definition music_item_new :: "rust_str \<Rightarrow> rust_str option \<Rightarrow> rust_str option \<Rightarrow> MusicValidationError + MusicItem" where
  "music_item_new i title artist =
     (case music_identifier_new i of Inl e \<Rightarrow> Inl e
      | Inr i' \<Rightarrow> Inr \<lparr>item_identifier = i', item_title = Option.bind title display_text_new,
                     item_artist = Option.bind artist display_text_new\<rparr>)"

record MusicPlaybackPosition =
  pos_position_ms :: "u64 option"
  pos_duration_ms :: "u64 option"

definition playback_position_new :: "u64 option \<Rightarrow> u64 option \<Rightarrow> MusicValidationError + MusicPlaybackPosition" where
  "playback_position_new p d =
     (case (p, d) of
        (Some position, Some duration) \<Rightarrow>
          if duration < position then Inl PositionAfterDuration
          else Inr \<lparr>pos_position_ms = p, pos_duration_ms = d\<rparr>
      | _ \<Rightarrow> Inr \<lparr>pos_position_ms = p, pos_duration_ms = d\<rparr>)"

record MusicSnapshot =
  snap_provider :: MusicProvider
  snap_session_id :: MusicIdentifier
  snap_state :: MusicPlaybackState
  snap_item :: "MusicItem option"
  snap_position_ms :: "u64 option"
  snap_duration_ms :: "u64 option"
  snap_observed_at :: MonotonicTimestamp
  snap_capabilities :: MusicCapabilities

definition music_snapshot_new ::
  "MusicProvider \<Rightarrow> rust_str \<Rightarrow> MusicPlaybackState \<Rightarrow> MusicItem option \<Rightarrow> MusicPlaybackPosition
     \<Rightarrow> MonotonicTimestamp \<Rightarrow> MusicCapabilities \<Rightarrow> MusicValidationError + MusicSnapshot" where
  "music_snapshot_new provider session st item position at caps =
     (if provider = SoundCloud
         \<and> (st \<noteq> MusicUnavailable \<or> item \<noteq> None \<or> pos_position_ms position \<noteq> None
            \<or> pos_duration_ms position \<noteq> None \<or> caps AND NOT (command_bit CmdOpenProvider) \<noteq> 0)
      then Inl ProviderObservationUnsupported
      else case music_identifier_new session of Inl e \<Rightarrow> Inl e
        | Inr session' \<Rightarrow>
            Inr \<lparr>snap_provider = provider, snap_session_id = session', snap_state = st, snap_item = item,
               snap_position_ms = pos_position_ms position, snap_duration_ms = pos_duration_ms position,
               snap_observed_at = at, snap_capabilities = caps\<rparr>)"

definition with_playback_observation ::
  "MusicSnapshot \<Rightarrow> MusicPlaybackState \<Rightarrow> MonotonicTimestamp \<Rightarrow> MusicCapabilities \<Rightarrow> MusicSnapshot" where
  "with_playback_observation s st at caps =
     s\<lparr>snap_state := st, snap_observed_at := at, snap_capabilities := caps\<rparr>"

section \<open>Bounds\<close>

lemma capabilities_exact:
  "capabilities_supports (foldl capabilities_with capabilities_new cs) c \<longleftrightarrow> c \<in> set cs"
proof -
  have one: "capabilities_supports (capabilities_with caps d) c \<longleftrightarrow> d = c \<or> capabilities_supports caps c" for caps d
    by (cases d; cases c; simp add: capabilities_supports_def capabilities_with_def word_bw_assocs
        bit.conj_disj_distrib2)
  have "capabilities_supports (foldl capabilities_with caps cs) c \<longleftrightarrow> c \<in> set cs \<or> capabilities_supports caps c" for caps
    by (induction cs arbitrary: caps) (auto simp: one)
  moreover have "\<not> capabilities_supports capabilities_new c"
    by (simp add: capabilities_supports_def capabilities_new_def)
  ultimately show ?thesis
    by simp
qed

lemma utf8_len_Cons: "utf8_len (c # cs) = utf8_len [c] + utf8_len cs"
  by (simp add: utf8_len_def)

lemma truncate_utf8_bound: "utf8_len (truncate_utf8 n t) \<le> n"
proof (induction n t rule: truncate_utf8.induct)
  case (2 n c cs)
  then show ?case
    using utf8_len_Cons [of c "truncate_utf8 (n - utf8_len [c]) cs"] by (auto simp: utf8_len_def)
qed (simp add: utf8_len_def)

lemma display_text_bound: "display_text_new t = Some v \<Longrightarrow> utf8_len v \<le> MAX_MUSIC_DISPLAY_TEXT_BYTES"
  by (auto simp: display_text_new_def Let_def truncate_utf8_bound split: if_splits)

definition identifier_ok :: "MusicIdentifier \<Rightarrow> bool" where
  "identifier_ok i \<longleftrightarrow> str_trim i \<noteq> [] \<and> utf8_len i \<le> MAX_MUSIC_IDENTIFIER_BYTES"

lemma identifier_new_iff: "music_identifier_new t = Inr i \<longleftrightarrow> i = t \<and> identifier_ok t"
  by (auto simp: music_identifier_new_def identifier_ok_def)

lemma identifier_new_ok: "identifier_ok t \<Longrightarrow> music_identifier_new t = Inr t"
  by (simp add: identifier_new_iff)

end
