(* ===== verification/Music_History.thy ===== *)
theory Music_History
  imports Music_Model Interfaces
begin

text \<open>
  Privacy-filtered ride events and bounded music timelines (\<^verbatim>\<open>cutout-music/src/history.rs\<close>).  Shown:
  a timeline is always within its capacity and in time order, so the stored rows of any timeline
  are restored exactly; and redacting an event recorded with its metadata gives the event that the
  opaque policy would have recorded.
\<close>

section \<open>Events\<close>

type_synonym WallClockUnixTimestamp = u64

definition MAX_MUSIC_TIMELINE_EVENTS :: nat where "MAX_MUSIC_TIMELINE_EVENTS = 512"

datatype MusicHistoryPolicy = HistoryDisabled | HistoryOpaqueItem | HistoryHumanReadable

datatype MusicRideEventKind =
    EventPlay | EventPause | EventSkip | EventItemChanged | EventStopped | EventProviderDisconnected

record MusicEventTiming =
  timing_observed_at :: "MonotonicTimestamp option"
  timing_monotonic_at :: MonotonicTimestamp
  timing_wall_clock_at :: WallClockUnixTimestamp
  timing_uncertainty_ms :: u64

record MusicRideEvent =
  event_provider :: MusicProvider
  event_item_identifier :: "MusicIdentifier option"
  event_title :: "MusicDisplayText option"
  event_artist :: "MusicDisplayText option"
  event_kind :: MusicRideEventKind
  event_observed_at :: "MonotonicTimestamp option"
  event_monotonic_at :: MonotonicTimestamp
  event_wall_clock_at :: WallClockUnixTimestamp
  event_uncertainty_ms :: u64

fun kind_is_occurrence :: "MusicRideEventKind \<Rightarrow> bool" where
  "kind_is_occurrence EventSkip = True"
| "kind_is_occurrence EventItemChanged = True"
| "kind_is_occurrence EventProviderDisconnected = True"
| "kind_is_occurrence _ = False"

definition valid_for_state :: "MusicRideEventKind \<Rightarrow> MusicPlaybackState \<Rightarrow> bool" where
  "valid_for_state kind st =
     (case kind of
        EventPlay \<Rightarrow> st \<in> {MusicPlaying, MusicPaused, MusicBuffering}
      | EventPause \<Rightarrow> st \<in> {MusicPlaying, MusicPaused, MusicBuffering}
      | EventStopped \<Rightarrow> st = MusicStopped
      | EventProviderDisconnected \<Rightarrow> st = MusicDisconnected
      | EventSkip \<Rightarrow> st \<in> {MusicPlaying, MusicPaused, MusicStopped}
      | EventItemChanged \<Rightarrow> st \<in> {MusicPlaying, MusicPaused, MusicStopped})"

text \<open>The scalar values of \<open>"spotify:local:"\<close>.\<close>

definition SPOTIFY_LOCAL :: rust_str where
  "SPOTIFY_LOCAL = [115, 112, 111, 116, 105, 102, 121, 58, 108, 111, 99, 97, 108, 58]"

definition metadata_bearing_identifier :: "MusicProvider \<Rightarrow> MusicIdentifier \<Rightarrow> bool" where
  "metadata_bearing_identifier provider i =
     (case provider of Spotify \<Rightarrow> starts_with i SPOTIFY_LOCAL | _ \<Rightarrow> False)"

definition ride_event_new ::
  "MusicProvider \<Rightarrow> rust_str option \<Rightarrow> rust_str option \<Rightarrow> rust_str option \<Rightarrow> MusicRideEventKind
     \<Rightarrow> MusicEventTiming \<Rightarrow> MusicValidationError + MusicRideEvent" where
  "ride_event_new provider item title artist kind timing =
     (if provider = SoundCloud then Inl ProviderObservationUnsupported
      else if is_some_and (timing_observed_at timing) (\<lambda>observed. timing_monotonic_at timing < observed)
      then Inl ObservationAfterEvent
      else
        let event = (\<lambda>i. \<lparr>event_provider = provider, event_item_identifier = i,
              event_title = Option.bind title display_text_new, event_artist = Option.bind artist display_text_new,
              event_kind = kind, event_observed_at = timing_observed_at timing,
              event_monotonic_at = timing_monotonic_at timing, event_wall_clock_at = timing_wall_clock_at timing,
              event_uncertainty_ms = timing_uncertainty_ms timing\<rparr>)
        in case item of None \<Rightarrow> Inr (event None)
          | Some t \<Rightarrow> (case music_identifier_new t of Inl e \<Rightarrow> Inl e | Inr i \<Rightarrow> Inr (event (Some i))))"

definition try_from_snapshot ::
  "MusicSnapshot \<Rightarrow> MusicRideEventKind \<Rightarrow> MonotonicTimestamp \<Rightarrow> WallClockUnixTimestamp \<Rightarrow> u64
     \<Rightarrow> MusicHistoryPolicy \<Rightarrow> MusicValidationError + MusicRideEvent option" where
  "try_from_snapshot s kind at wall unc policy =
     (if policy = HistoryDisabled \<or> snap_state s = MusicStale then Inr None
      else if \<not> valid_for_state kind (snap_state s) then Inl EventKindStateMismatch
      else
        let item = snap_item s;
            timing = \<lparr>timing_observed_at = Some (snap_observed_at s), timing_monotonic_at = at,
              timing_wall_clock_at = wall, timing_uncertainty_ms = unc\<rparr>
        in case policy of
             HistoryDisabled \<Rightarrow> Inr None
           | HistoryOpaqueItem \<Rightarrow>
               map_sum (\<lambda>e. e) Some (ride_event_new (snap_provider s)
                 (map_option item_identifier
                   (opt_filter (\<lambda>i. \<not> metadata_bearing_identifier (snap_provider s) (item_identifier i)) item))
                 None None kind timing)
           | HistoryHumanReadable \<Rightarrow>
               map_sum (\<lambda>e. e) Some (ride_event_new (snap_provider s) (map_option item_identifier item)
                 (Option.bind item item_title) (Option.bind item item_artist) kind timing))"

definition from_snapshot ::
  "MusicSnapshot \<Rightarrow> MusicRideEventKind \<Rightarrow> MonotonicTimestamp \<Rightarrow> WallClockUnixTimestamp \<Rightarrow> u64
     \<Rightarrow> MusicHistoryPolicy \<Rightarrow> MusicRideEvent option" where
  "from_snapshot s kind at wall unc policy =
     (case try_from_snapshot s kind at wall unc policy of Inl _ \<Rightarrow> None | Inr e \<Rightarrow> e)"

definition same_transition_as :: "MusicRideEvent \<Rightarrow> MusicRideEvent \<Rightarrow> bool" where
  "same_transition_as a b =
     (let same_content = event_provider a = event_provider b
            \<and> event_item_identifier a = event_item_identifier b \<and> event_kind a = event_kind b
      in if kind_is_occurrence (event_kind a) \<or> kind_is_occurrence (event_kind b)
         then same_content \<and> event_observed_at a = event_observed_at b
           \<and> event_monotonic_at a = event_monotonic_at b \<and> event_wall_clock_at a = event_wall_clock_at b
           \<and> event_uncertainty_ms a = event_uncertainty_ms b
         else same_content)"

definition redact_event :: "MusicRideEvent \<Rightarrow> MusicRideEvent" where
  "redact_event e =
     (let e1 = e\<lparr>event_title := None, event_artist := None\<rparr>
      in if is_some_and (event_item_identifier e1) (metadata_bearing_identifier (event_provider e1))
         then e1\<lparr>event_item_identifier := None\<rparr> else e1)"

section \<open>Timelines\<close>

datatype MusicTimelineOutcome = TimelineRecorded | TimelineDuplicate | TimelineOutOfOrder | TimelineDisabled | TimelineFull

datatype MusicTimelineRestoreError = RestoreFull | RestoreOutOfOrder

type_synonym MusicTimeline = "MusicRideEvent list"

definition slice_last :: "'a list \<Rightarrow> 'a option" where
  "slice_last xs = (if xs = [] then None else Some (last xs))"

fun windows_any :: "('a \<Rightarrow> 'a \<Rightarrow> bool) \<Rightarrow> 'a list \<Rightarrow> bool" where
  "windows_any P (x # y # xs) = (P x y \<or> windows_any P (y # xs))"
| "windows_any P _ = False"

definition from_stored_events :: "MusicRideEvent list \<Rightarrow> MusicTimelineRestoreError + MusicTimeline" where
  "from_stored_events events =
     (if MAX_MUSIC_TIMELINE_EVENTS < length events then Inl RestoreFull
      else if windows_any (\<lambda>a b. event_monotonic_at b < event_monotonic_at a) events then Inl RestoreOutOfOrder
      else Inr events)"

definition timeline_admission :: "MusicRideEvent option \<Rightarrow> nat \<Rightarrow> MusicRideEvent \<Rightarrow> MusicTimelineOutcome" where
  "timeline_admission previous stored e =
     (if is_some_and previous (\<lambda>p. event_monotonic_at e < event_monotonic_at p) then TimelineOutOfOrder
      else if is_some_and previous (same_transition_as e) then TimelineDuplicate
      else if MAX_MUSIC_TIMELINE_EVENTS \<le> stored then TimelineFull
      else TimelineRecorded)"

definition timeline_append :: "MusicTimeline \<Rightarrow> MusicRideEvent \<Rightarrow> MusicTimelineOutcome \<times> MusicTimeline" where
  "timeline_append evs e =
     (let outcome = timeline_admission (slice_last evs) (length evs) e
      in (outcome, if outcome = TimelineRecorded then evs @ [e] else evs))"

definition timeline_pop_last :: "MusicTimeline \<Rightarrow> MusicRideEvent option \<times> MusicTimeline" where
  "timeline_pop_last evs = (slice_last evs, butlast evs)"

definition timeline_redact :: "MusicTimeline \<Rightarrow> MusicTimeline" where
  "timeline_redact evs = map redact_event evs"

section \<open>Restoring a timeline\<close>

datatype TimelineCall = TimelineAppend MusicRideEvent | TimelinePop | TimelineRedact

fun timeline_step :: "MusicTimeline \<Rightarrow> TimelineCall \<Rightarrow> MusicTimeline" where
  "timeline_step evs (TimelineAppend e) = snd (timeline_append evs e)"
| "timeline_step evs TimelinePop = snd (timeline_pop_last evs)"
| "timeline_step evs TimelineRedact = timeline_redact evs"

definition timeline_ok :: "MusicTimeline \<Rightarrow> bool" where
  "timeline_ok evs \<longleftrightarrow> length evs \<le> MAX_MUSIC_TIMELINE_EVENTS \<and> sorted (map event_monotonic_at evs)"

lemma windows_sorted: "windows_any (\<lambda>a b. f b < f a) xs \<longleftrightarrow> \<not> sorted (map f xs)"
  for f :: "'a \<Rightarrow> 'b::linorder"
  by (induction "\<lambda>a b. f b < f a" xs rule: windows_any.induct) (auto simp: not_less intro: order.trans)

lemma restore_iff: "from_stored_events es = Inr evs \<longleftrightarrow> evs = es \<and> timeline_ok es"
  by (auto simp: from_stored_events_def timeline_ok_def windows_sorted)

lemma sorted_append_last:
  "sorted xs \<Longrightarrow> (xs \<noteq> [] \<Longrightarrow> last xs \<le> y) \<Longrightarrow> sorted (xs @ [y])"
  for xs :: "'a::linorder list"
proof (cases xs rule: rev_cases)
  case (snoc zs z)
  assume "sorted xs" "xs \<noteq> [] \<Longrightarrow> last xs \<le> y"
  then show ?thesis
    by (auto simp: snoc sorted_append intro: order.trans)
qed simp

lemma timeline_ok_append: "timeline_ok evs \<Longrightarrow> timeline_ok (snd (timeline_append evs e))"
  by (auto simp: timeline_append_def timeline_admission_def timeline_ok_def slice_last_def Let_def last_map not_less
      intro!: sorted_append_last)

lemma sorted_butlast: "sorted xs \<Longrightarrow> sorted (butlast xs)"
  by (simp add: butlast_conv_take sorted_wrt_take)

lemma redact_monotonic_at [simp]: "event_monotonic_at (redact_event e) = event_monotonic_at e"
  by (simp add: redact_event_def Let_def)

lemma timeline_ok_step: "timeline_ok evs \<Longrightarrow> timeline_ok (timeline_step evs c)"
proof (cases c)
  case (TimelineAppend e)
  then show "timeline_ok evs \<Longrightarrow> ?thesis"
    by (simp add: timeline_ok_append)
next
  case TimelinePop
  then show "timeline_ok evs \<Longrightarrow> ?thesis"
    by (auto simp: timeline_pop_last_def timeline_ok_def sorted_butlast map_butlast)
next
  case TimelineRedact
  then show "timeline_ok evs \<Longrightarrow> ?thesis"
    by (simp add: timeline_redact_def timeline_ok_def comp_def)
qed

interpretation timeline: reducer timeline_step "[]" timeline_ok
  by unfold_locales (simp_all add: timeline_ok_step, simp add: timeline_ok_def)

definition restored_or_empty :: "MusicRideEvent list \<Rightarrow> MusicTimeline" where
  "restored_or_empty stored = (case from_stored_events stored of Inr evs \<Rightarrow> evs | Inl _ \<Rightarrow> [])"


section \<open>Redaction\<close>

lemma redact_idem [simp]: "redact_event (redact_event e) = redact_event e"
  by (simp add: redact_event_def Let_def)

text \<open>Redacting an event recorded with its metadata gives the event of the opaque policy.\<close>

lemma redact_new:
  assumes "is_none_or item identifier_ok"
  shows "map_sum (\<lambda>e. e) redact_event (ride_event_new provider item title artist kind timing) =
    ride_event_new provider (opt_filter (\<lambda>i. \<not> metadata_bearing_identifier provider i) item) None None kind timing"
  using assms
  by (cases item) (simp_all add: ride_event_new_def redact_event_def Let_def identifier_new_ok)

definition snapshot_identifier_ok :: "MusicSnapshot \<Rightarrow> bool" where
  "snapshot_identifier_ok s \<longleftrightarrow> is_none_or (snap_item s) (\<lambda>i. identifier_ok (item_identifier i))"

text \<open>
   Redaction is as private as never having recorded.  For a snapshot whose item came through
  the validating constructor, redacting what the human-readable policy records gives exactly what
  the opaque policy records: the same event, the same absence and the same error.
\<close>

lemma music_redaction_equals_opaque:
  assumes "snapshot_identifier_ok s"
  shows "map_sum (\<lambda>e. e) (map_option redact_event) (try_from_snapshot s kind at wall unc HistoryHumanReadable) =
    try_from_snapshot s kind at wall unc HistoryOpaqueItem"
proof -
  have "is_none_or (map_option item_identifier (snap_item s)) identifier_ok"
    using assms by (cases "snap_item s") (simp_all add: snapshot_identifier_ok_def)
  note redact_new [OF this, of "snap_provider s" "Option.bind (snap_item s) item_title"
      "Option.bind (snap_item s) item_artist" kind]
  moreover have "opt_filter (\<lambda>i. \<not> metadata_bearing_identifier (snap_provider s) i) (map_option item_identifier (snap_item s)) =
      map_option item_identifier (opt_filter (\<lambda>i. \<not> metadata_bearing_identifier (snap_provider s) (item_identifier i)) (snap_item s))"
    by (cases "snap_item s") simp_all
  moreover have "map_sum (\<lambda>e. e) (map_option redact_event) (map_sum (\<lambda>e. e) Some r) =
      map_sum (\<lambda>e. e) Some (map_sum (\<lambda>e. e) redact_event r)" for r :: "MusicValidationError + MusicRideEvent"
    by (cases r) simp_all
  ultimately show ?thesis
    by (simp add: try_from_snapshot_def Let_def)
qed

definition local_track :: MusicSnapshot where
  "local_track = \<lparr>snap_provider = Spotify, snap_session_id = [115], snap_state = MusicPlaying,
     snap_item = Some \<lparr>item_identifier = SPOTIFY_LOCAL @ [65], item_title = Some [84], item_artist = None\<rparr>,
     snap_position_ms = None, snap_duration_ms = None, snap_observed_at = 5, snap_capabilities = 0\<rparr>"

lemma music_redaction_equals_opaque_example:
  "snapshot_identifier_ok local_track
   \<and> map_sum (\<lambda>e. e) (map_option redact_event) (try_from_snapshot local_track EventPlay 6 7 0 HistoryHumanReadable) =
     try_from_snapshot local_track EventPlay 6 7 0 HistoryOpaqueItem"
proof -
  have "snapshot_identifier_ok local_track"
    by (simp add: snapshot_identifier_ok_def local_track_def identifier_ok_def SPOTIFY_LOCAL_def str_trim_Nil_iff
        is_whitespace_def utf8_len_def MAX_MUSIC_IDENTIFIER_BYTES_def)
  then show ?thesis
    using music_redaction_equals_opaque [of local_track EventPlay 6 7 0] by simp
qed

end
