(* ===== verification/Music_Connection.thy ===== *)
theory Music_Connection
  imports Callback_Epoch
begin

text \<open>
  Monitor intent and bounded connection attempts of a foreground music provider
  (\<^verbatim>\<open>cutout-music/src/monitor.rs\<close>, \<^verbatim>\<open>cutout-music/src/connection.rs\<close>).  Shown: an explicit authorization
  is launched at most once per request and never after a suspension; attempt identities are never
  reused and a retired attempt stays retired; and at most three attempts are started between two
  successes.
\<close>

section \<open>Monitor\<close>

datatype MusicMonitorStart = StartObserve | StartAuthorize
datatype MusicMonitorRequest = RequestObserve | RequestAuthorize
datatype MonitorScene = SceneActive | SceneSuspended
datatype MonitorIntent = IntentIdle | IntentObserve | IntentAuthorize
datatype MusicMonitorResume = ResumeAlreadyActive | ResumeNoRequest | ResumeRestored

record MusicMonitor =
  scene :: MonitorScene
  intent :: MonitorIntent

definition monitor_default :: MusicMonitor where
  "monitor_default = \<lparr>scene = SceneActive, intent = IntentIdle\<rparr>"

definition monitor_request :: "MusicMonitor \<Rightarrow> MusicMonitorRequest \<Rightarrow> MusicMonitor" where
  "monitor_request mon request =
     mon\<lparr>intent := (case request of
         RequestObserve \<Rightarrow> (case intent mon of IntentAuthorize \<Rightarrow> IntentAuthorize | _ \<Rightarrow> IntentObserve)
       | RequestAuthorize \<Rightarrow> IntentAuthorize)\<rparr>"

definition monitor_cancel :: "MusicMonitor \<Rightarrow> MusicMonitor" where
  "monitor_cancel mon = mon\<lparr>intent := IntentIdle\<rparr>"

definition monitor_suspend :: "MusicMonitor \<Rightarrow> MusicMonitor" where
  "monitor_suspend mon =
     (let mon1 = mon\<lparr>scene := SceneSuspended\<rparr>
      in if intent mon1 = IntentAuthorize then mon1\<lparr>intent := IntentObserve\<rparr> else mon1)"

definition monitor_resume :: "MusicMonitor \<Rightarrow> MusicMonitorResume \<times> MusicMonitor" where
  "monitor_resume mon =
     (case scene mon of
        SceneActive \<Rightarrow> ResumeAlreadyActive
      | SceneSuspended \<Rightarrow> (case intent mon of IntentIdle \<Rightarrow> ResumeNoRequest | _ \<Rightarrow> ResumeRestored),
      mon\<lparr>scene := SceneActive\<rparr>)"

definition is_scene_active :: "MusicMonitor \<Rightarrow> bool" where
  "is_scene_active mon = (case scene mon of SceneActive \<Rightarrow> True | SceneSuspended \<Rightarrow> False)"

definition pending_start :: "MusicMonitor \<Rightarrow> MusicMonitorStart option" where
  "pending_start mon =
     (if scene mon \<noteq> SceneActive \<or> intent mon = IntentIdle then None
      else Some (case intent mon of IntentAuthorize \<Rightarrow> StartAuthorize | _ \<Rightarrow> StartObserve))"

definition take_start :: "MusicMonitor \<Rightarrow> MusicMonitorStart option \<times> MusicMonitor" where
  "take_start mon =
     (case pending_start mon of None \<Rightarrow> (None, mon)
      | Some start \<Rightarrow> (Some start, mon\<lparr>intent := IntentObserve\<rparr>))"

definition music_callback_path_matches :: "rust_str \<Rightarrow> rust_str \<Rightarrow> bool" where
  "music_callback_path_matches expected actual =
     (if expected \<in> {[], [47]} \<and> actual \<in> {[], [47]} then True else expected = actual)"

datatype MonitorCall = MonRequest MusicMonitorRequest | MonCancel | MonSuspend | MonResume | MonStart

fun monitor_step :: "MusicMonitor \<Rightarrow> MonitorCall \<Rightarrow> MusicMonitorStart option \<times> MusicMonitor" where
  "monitor_step mon (MonRequest r) = (None, monitor_request mon r)"
| "monitor_step mon MonCancel = (None, monitor_cancel mon)"
| "monitor_step mon MonSuspend = (None, monitor_suspend mon)"
| "monitor_step mon MonResume = (None, snd (monitor_resume mon))"
| "monitor_step mon MonStart = take_start mon"

primrec monitor_starts :: "MusicMonitor \<Rightarrow> MonitorCall list \<Rightarrow> MusicMonitorStart list" where
  "monitor_starts mon [] = []"
| "monitor_starts mon (c # cs) =
     (case monitor_step mon c of
        (None, mon') \<Rightarrow> monitor_starts mon' cs
      | (Some start, mon') \<Rightarrow> start # monitor_starts mon' cs)"

text \<open>Authorization is launched at most once for each explicit request.\<close>

lemma authorize_once_per_request:
  "count_list (monitor_starts mon cs) StartAuthorize
     \<le> count_list cs (MonRequest RequestAuthorize) + (if intent mon = IntentAuthorize then 1 else 0)"
proof (induction cs arbitrary: mon)
  case (Cons c cs)
  show ?case
    using Cons.IH [of "snd (monitor_step mon c)"]
    by (cases c; cases "intent mon")
      (auto simp: monitor_request_def monitor_cancel_def monitor_suspend_def monitor_resume_def take_start_def
        pending_start_def Let_def split: MusicMonitorRequest.splits)
qed simp

section \<open>Connection attempts\<close>

definition MAXIMUM_ATTEMPTS :: u8 where "MAXIMUM_ATTEMPTS = 3"
definition RETRY_DELAY :: Duration where "RETRY_DELAY = 2000"
definition ATTEMPT_TIMEOUT :: Duration where "ATTEMPT_TIMEOUT = 10000"

datatype MusicConnectionCallback = ConnectionAccepted | ConnectionStale

datatype ConnectionAttemptAdmission =
    AttemptStarted LifecycleId
  | AttemptPending
  | AttemptWaitingToRetry
  | AttemptExhausted

datatype MusicConnectionState =
    ConnectionIdle
  | Connecting LifecycleId MonotonicTimestamp
  | Connected LifecycleId
  | WaitingToRetry MonotonicTimestamp

record MusicConnection =
  mc_attempts :: u8
  last_attempt_id :: LifecycleId
  connection_state :: MusicConnectionState

definition connection_default :: MusicConnection where
  "connection_default = \<lparr>mc_attempts = 0, last_attempt_id = 0, connection_state = ConnectionIdle\<rparr>"

definition callback_id :: "MusicConnection \<Rightarrow> LifecycleId option" where
  "callback_id c =
     (case connection_state c of Connecting i _ \<Rightarrow> Some i | Connected i \<Rightarrow> Some i | _ \<Rightarrow> None)"

definition is_established :: "MusicConnection \<Rightarrow> LifecycleId \<Rightarrow> bool" where
  "is_established c i = (case connection_state c of Connected current \<Rightarrow> current = i | _ \<Rightarrow> False)"

definition connection_classify :: "MusicConnection \<Rightarrow> LifecycleId \<Rightarrow> MusicConnectionCallback" where
  "connection_classify c i = (if callback_id c = Some i then ConnectionAccepted else ConnectionStale)"

definition connection_classify_at :: "MusicConnection \<Rightarrow> LifecycleId \<Rightarrow> u64 \<Rightarrow> MusicConnectionCallback" where
  "connection_classify_at c i now =
     (case connection_state c of
        Connected current \<Rightarrow> if current = i then ConnectionAccepted else ConnectionStale
      | Connecting current started \<Rightarrow>
          if current = i \<and> saturating_duration_since now started < ATTEMPT_TIMEOUT
          then ConnectionAccepted else ConnectionStale
      | _ \<Rightarrow> ConnectionStale)"

definition connection_reset :: "MusicConnection \<Rightarrow> MusicConnection" where
  "connection_reset c = c\<lparr>mc_attempts := 0, connection_state := ConnectionIdle\<rparr>"

text \<open>The guard of \<open>begin_attempt\<close> on the current state.\<close>

definition attempt_blocked :: "MusicConnection \<Rightarrow> u64 \<Rightarrow> ConnectionAttemptAdmission option" where
  "attempt_blocked c now =
     (case connection_state c of
        Connecting _ started \<Rightarrow>
          if saturating_duration_since now started < ATTEMPT_TIMEOUT then Some AttemptPending else None
      | WaitingToRetry not_before \<Rightarrow> if now < not_before then Some AttemptWaitingToRetry else None
      | _ \<Rightarrow> None)"

definition begin_attempt :: "MusicConnection \<Rightarrow> u64 \<Rightarrow> ConnectionAttemptAdmission \<times> MusicConnection" where
  "begin_attempt c now =
     (if MAXIMUM_ATTEMPTS \<le> mc_attempts c then (AttemptExhausted, c)
      else case attempt_blocked c now of
        Some r \<Rightarrow> (r, c)
      | None \<Rightarrow>
          (case lifecycle_id_next (last_attempt_id c) of
             None \<Rightarrow> (AttemptExhausted, c)
           | Some i \<Rightarrow> (AttemptStarted i, c\<lparr>mc_attempts := mc_attempts c + 1, last_attempt_id := i,
                connection_state := Connecting i now\<rparr>)))"

definition recovery_exhausted_at :: "MusicConnection \<Rightarrow> u64 \<Rightarrow> bool" where
  "recovery_exhausted_at c now =
     (if mc_attempts c < MAXIMUM_ATTEMPTS then False
      else case connection_state c of
          Connecting _ started \<Rightarrow> ATTEMPT_TIMEOUT \<le> saturating_duration_since now started
        | Connected _ \<Rightarrow> False
        | _ \<Rightarrow> True)"

definition schedule_retry :: "MusicConnection \<Rightarrow> u64 \<Rightarrow> MusicConnection" where
  "schedule_retry c now =
     (let requested = saturating_add_duration now RETRY_DELAY
      in c\<lparr>connection_state := WaitingToRetry
             (case connection_state c of WaitingToRetry not_before \<Rightarrow> max not_before requested | _ \<Rightarrow> requested)\<rparr>)"

definition failed_for :: "MusicConnection \<Rightarrow> LifecycleId \<Rightarrow> u64 \<Rightarrow> MusicConnectionCallback \<times> MusicConnection" where
  "failed_for c i now =
     (if connection_classify_at c i now = ConnectionStale then (ConnectionStale, c)
      else (ConnectionAccepted, schedule_retry c now))"

definition disconnected_for :: "MusicConnection \<Rightarrow> LifecycleId \<Rightarrow> u64 \<Rightarrow> MusicConnectionCallback \<times> MusicConnection" where
  "disconnected_for c i now = failed_for c i now"

definition established_for_at :: "MusicConnection \<Rightarrow> LifecycleId \<Rightarrow> u64 \<Rightarrow> LifecycleId option \<times> MusicConnection" where
  "established_for_at c i now =
     (if \<not> (case connection_state c of Connecting current _ \<Rightarrow> current = i | _ \<Rightarrow> False)
         \<or> connection_classify_at c i now = ConnectionStale
      then (None, c)
      else (Some i, c\<lparr>mc_attempts := 0, connection_state := Connected i\<rparr>))"

definition expired_for :: "MusicConnection \<Rightarrow> LifecycleId \<Rightarrow> u64 \<Rightarrow> MusicConnectionCallback \<times> MusicConnection" where
  "expired_for c i now =
     (case connection_state c of
        Connecting current started \<Rightarrow>
          if current \<noteq> i \<or> saturating_duration_since now started < ATTEMPT_TIMEOUT then (ConnectionStale, c)
          else (ConnectionAccepted, schedule_retry c now)
      | _ \<Rightarrow> (ConnectionStale, c))"

section \<open>Identities of attempts\<close>

datatype ConnectionCall =
    CallBegin u64
  | CallFailed LifecycleId u64
  | CallEstablished LifecycleId u64
  | CallExpired LifecycleId u64
  | CallReset

fun connection_step :: "MusicConnection \<Rightarrow> ConnectionCall \<Rightarrow> LifecycleId option \<times> MusicConnection" where
  "connection_step c (CallBegin now) =
     (case begin_attempt c now of (AttemptStarted i, c') \<Rightarrow> (Some i, c') | (_, c') \<Rightarrow> (None, c'))"
| "connection_step c (CallFailed i now) = (None, snd (failed_for c i now))"
| "connection_step c (CallEstablished i now) = (None, snd (established_for_at c i now))"
| "connection_step c (CallExpired i now) = (None, snd (expired_for c i now))"
| "connection_step c CallReset = (None, connection_reset c)"

lemmas connection_ops = failed_for_def established_for_at_def expired_for_def connection_reset_def
  schedule_retry_def callback_id_def connection_classify_at_def Let_def

lemma begin_attempt_cases:
  obtains (started) i where "begin_attempt c now = (AttemptStarted i, c\<lparr>mc_attempts := mc_attempts c + 1,
      last_attempt_id := i, connection_state := Connecting i now\<rparr>)"
      "lifecycle_id_next (last_attempt_id c) = Some i" "mc_attempts c < MAXIMUM_ATTEMPTS"
      "attempt_blocked c now = None"
    | (refused) r where "begin_attempt c now = (r, c)" "\<And>i. r \<noteq> AttemptStarted i"
proof (cases "MAXIMUM_ATTEMPTS \<le> mc_attempts c")
  case True
  then show thesis
    by (intro refused [of AttemptExhausted]) (simp_all add: begin_attempt_def)
next
  case small: False
  show thesis
  proof (cases "attempt_blocked c now")
    case None
    show thesis
    proof (cases "lifecycle_id_next (last_attempt_id c)")
      case None
      then show thesis
        using small \<open>attempt_blocked c now = None\<close> by (intro refused [of AttemptExhausted]) (simp_all add: begin_attempt_def)
    next
      case (Some i)
      then show thesis
        using small \<open>attempt_blocked c now = None\<close> by (intro started) (simp_all add: begin_attempt_def)
    qed
  next
    case (Some r)
    then show thesis
      using small by (intro refused [of r])
        (auto simp: begin_attempt_def attempt_blocked_def split: MusicConnectionState.splits if_splits)
  qed
qed

interpretation attempts: identity_source connection_step last_attempt_id callback_id
proof
  show "unat n = Suc (unat (last_attempt_id c)) \<and> last_attempt_id c' = n \<and> callback_id c' = Some n"
    if "connection_step c call = (Some n, c')" for c call n c'
  proof (cases call)
    case (CallBegin now)
    then show ?thesis
      using that by (cases rule: begin_attempt_cases [of c now])
        (auto simp: callback_id_def dest: lifecycle_id_next_Some split: ConnectionAttemptAdmission.splits)
  qed (use that in simp_all)
  show "last_attempt_id c' = last_attempt_id c \<and> (callback_id c' = None \<or> callback_id c' = callback_id c)"
    if "connection_step c call = (None, c')" for c call c'
  proof (cases call)
    case (CallBegin now)
    then show ?thesis
      using that by (cases rule: begin_attempt_cases [of c now]) (auto split: ConnectionAttemptAdmission.splits)
  qed (use that in \<open>auto simp: connection_ops split: MusicConnectionState.splits if_splits\<close>)
qed

text \<open>Attempts begun since the last success or reset.\<close>

fun attempt_streak :: "nat \<Rightarrow> MusicConnection \<Rightarrow> ConnectionCall list \<Rightarrow> nat" where
  "attempt_streak n c [] = n"
| "attempt_streak n c (call # calls) =
     attempt_streak
       (case call of
          CallBegin now \<Rightarrow> if fst (connection_step c call) \<noteq> None then Suc n else n
        | CallEstablished i now \<Rightarrow> if fst (established_for_at c i now) \<noteq> None then 0 else n
        | CallReset \<Rightarrow> 0
        | _ \<Rightarrow> n)
       (snd (connection_step c call)) calls"

lemma attempt_streak_counts:
  assumes "unat (mc_attempts c) = n" and "n \<le> 3"
  shows "attempt_streak n c calls = unat (mc_attempts (foldl (\<lambda>c call. snd (connection_step c call)) c calls))
    \<and> attempt_streak n c calls \<le> 3"
  using assms
proof (induction calls arbitrary: n c)
  case (Cons call calls)
  show ?case
  proof (cases call)
    case (CallBegin now)
    then show ?thesis
    proof (cases rule: begin_attempt_cases [of c now])
      case (started i)
      have "unat (mc_attempts c) < 3"
        using started(3) by (simp add: MAXIMUM_ATTEMPTS_def word_less_nat_alt)
      then have "unat (mc_attempts c + 1) = Suc n"
        using Cons.prems by (simp add: unat_add_one_less)
      then show ?thesis
        using Cons.IH [of "c\<lparr>mc_attempts := mc_attempts c + 1, last_attempt_id := i,
            connection_state := Connecting i now\<rparr>" "Suc n"] Cons.prems \<open>unat (mc_attempts c) < 3\<close>
        by (simp add: CallBegin started(1))
    next
      case (refused r)
      then have "connection_step c call = (None, c)"
        by (cases r) (auto simp: CallBegin)
      then show ?thesis
        using Cons.IH [of c n] Cons.prems by (simp add: CallBegin)
    qed
  next
    case (CallFailed i now)
    have "mc_attempts (snd (failed_for c i now)) = mc_attempts c"
      by (simp add: failed_for_def schedule_retry_def Let_def)
    then show ?thesis
      using Cons.IH [of "snd (failed_for c i now)" n] Cons.prems by (simp add: CallFailed)
  next
    case (CallEstablished i now)
    have "unat (mc_attempts (snd (established_for_at c i now))) =
        (if fst (established_for_at c i now) \<noteq> None then 0 else n)"
      using Cons.prems by (simp add: established_for_at_def)
    then show ?thesis
      using Cons.IH [of "snd (established_for_at c i now)" "if fst (established_for_at c i now) \<noteq> None then 0 else n"]
        Cons.prems by (simp add: CallEstablished split: if_splits)
  next
    case (CallExpired i now)
    have "mc_attempts (snd (expired_for c i now)) = mc_attempts c"
      by (simp add: expired_for_def schedule_retry_def Let_def split: MusicConnectionState.split)
    then show ?thesis
      using Cons.IH [of "snd (expired_for c i now)" n] Cons.prems by (simp add: CallExpired)
  next
    case CallReset
    then show ?thesis
      using Cons.IH [of "connection_reset c" 0] by (simp add: connection_reset_def)
  qed
qed simp

text \<open>At most three attempts are started between two successes, whatever the order of callbacks.\<close>

lemma attempts_bounded: "attempt_streak 0 connection_default calls \<le> 3"
  using attempt_streak_counts [of connection_default 0 calls] by (simp add: connection_default_def)

lemma attempt_retired_for_ever:
  "unat n \<le> unat (last_attempt_id c) \<Longrightarrow> callback_id c \<noteq> Some n \<Longrightarrow>
     callback_id (foldl (\<lambda>c call. snd (connection_step c call)) c calls) \<noteq> Some n"
  by (rule attempts.retired_for_ever)

end
