(* ===== verification/Music_Observation.thy ===== *)
theory Music_Observation
  imports Music_History Callback_Epoch
begin

text \<open>
  Ordering of provider observations and their correlation with skip commands
  (\<^verbatim>\<open>cutout-music/src/observation.rs\<close>).  A transition seen while a skip command is outstanding is held
  back until the command is accepted or rejected.  Shown here: the state invariant of the tracker
  (no held transition without its command, bounded and increasing history) is kept by every
  operation, and every transition fits the playback state it was observed in.
\<close>

section \<open>State\<close>

definition SKIP_CONFIRMATION_MAX_AGE :: Duration where "SKIP_CONFIRMATION_MAX_AGE = 5000"

definition SKIP_CONFIRMATION_MAX_UNCHANGED_OBSERVATIONS :: u8 where
  "SKIP_CONFIRMATION_MAX_UNCHANGED_OBSERVATIONS = 5"

datatype SkipCommandOutcome = SkipPending | SkipAccepted | SkipRejected

record PendingSkip =
  skip_transport_id :: LifecycleId
  skip_issued_at :: MonotonicTimestamp
  skip_remaining :: u8
  skip_outcome :: SkipCommandOutcome
  skip_matched :: bool

definition skip_applies_at :: "PendingSkip \<Rightarrow> MonotonicTimestamp \<Rightarrow> bool" where
  "skip_applies_at p at \<longleftrightarrow> skip_issued_at p \<le> at"

definition skip_is_expired_at :: "PendingSkip \<Rightarrow> MonotonicTimestamp \<Rightarrow> bool" where
  "skip_is_expired_at p at \<longleftrightarrow>
     skip_issued_at p \<le> at \<and> SKIP_CONFIRMATION_MAX_AGE < saturating_duration_since at (skip_issued_at p)"

record MusicObservationTiming =
  obs_wall_clock_at :: WallClockUnixTimestamp
  obs_uncertainty_ms :: u64

datatype PendingHistoryKind =
    HistoryConfirmed MusicRideEventKind
  | HistoryAwaitingSkip LifecycleId "MusicRideEventKind option"

record PendingHistoryTransition =
  pend_id :: LifecycleId
  pend_snapshot :: MusicSnapshot
  pend_kind :: PendingHistoryKind
  pend_timing :: MusicObservationTiming

datatype MusicUnsettledHistoryKind =
    UnsettledConfirmed MusicRideEventKind
  | UnsettledAwaitingSkip LifecycleId "MusicRideEventKind option"

record MusicUnsettledHistoryTransition =
  uns_id :: LifecycleId
  uns_snapshot :: MusicSnapshot
  uns_kind :: MusicUnsettledHistoryKind
  uns_timing :: MusicObservationTiming

record MusicHistoryTransition =
  hist_id :: LifecycleId
  hist_snapshot :: MusicSnapshot
  hist_kind :: MusicRideEventKind
  hist_timing :: MusicObservationTiming

datatype MusicHistoryTransitionAcknowledgement = Acknowledged | AcknowledgementStale

record MusicObservationDecision =
  decision_snapshot :: MusicSnapshot
  history_transition :: "MusicHistoryTransition option"

datatype MusicObservationOutcome =
    ObservationAccepted MusicObservationDecision
  | ObservationOutOfOrder
  | ObservationFull

record MusicObservationTracker =
  trk_apple_music :: "MusicSnapshot option"
  trk_spotify :: "MusicSnapshot option"
  trk_soundcloud :: "MusicSnapshot option"
  pending_skips :: "PendingSkip list"
  pending_history :: "PendingHistoryTransition list"
  last_history_id :: LifecycleId

definition tracker_new :: MusicObservationTracker where
  "tracker_new = \<lparr>trk_apple_music = None, trk_spotify = None, trk_soundcloud = None, pending_skips = [],
     pending_history = [], last_history_id = 0\<rparr>"

section \<open>Sequences\<close>

text \<open>\<open>iter().position\<close> and \<open>VecDeque::remove\<close>.\<close>

fun list_position :: "('a \<Rightarrow> bool) \<Rightarrow> 'a list \<Rightarrow> nat option" where
  "list_position P [] = None"
| "list_position P (x # xs) = (if P x then Some 0 else map_option Suc (list_position P xs))"

definition remove_at :: "nat \<Rightarrow> 'a list \<Rightarrow> 'a list" where
  "remove_at i xs = take i xs @ drop (Suc i) xs"

section \<open>Classification\<close>

definition is_terminal_state :: "MusicPlaybackState \<Rightarrow> bool" where
  "is_terminal_state st \<longleftrightarrow> st \<in> {MusicStopped, MusicUnauthorized, MusicUnavailable, MusicDisconnected, MusicStale}"

text \<open>The part of \<open>classify_transition\<close> that compares two observations of one provider.\<close>

definition classify_change :: "MusicSnapshot \<Rightarrow> MusicSnapshot \<Rightarrow> bool \<Rightarrow> MusicRideEventKind option" where
  "classify_change previous current skip_applies =
     (let previous_item = map_option item_identifier (snap_item previous);
          current_item = map_option item_identifier (snap_item current)
      in if snap_provider previous \<noteq> snap_provider current then Some EventItemChanged
         else if snap_state current = MusicStopped \<and> snap_state previous \<noteq> MusicStopped then Some EventStopped
         else if previous_item \<noteq> current_item
         then Some (if skip_applies \<and> previous_item \<noteq> None \<and> current_item \<noteq> None then EventSkip else EventItemChanged)
         else if skip_applies \<and> previous_item \<noteq> None \<and> current_item \<noteq> None
           \<and> (case (snap_position_ms previous, snap_position_ms current) of
                (Some p, Some c) \<Rightarrow> c < p | _ \<Rightarrow> False)
         then Some EventSkip
         else if snap_state current = MusicPlaying \<and> snap_state previous \<noteq> MusicPlaying then Some EventPlay
         else if snap_state current = MusicPaused \<and> snap_state previous \<noteq> MusicPaused then Some EventPause
         else None)"

definition classify_transition :: "MusicSnapshot option \<Rightarrow> MusicSnapshot \<Rightarrow> bool \<Rightarrow> MusicRideEventKind option" where
  "classify_transition previous current skip_applies =
     (if snap_state current = MusicDisconnected
      then (if is_none_or previous (\<lambda>p. snap_state p \<noteq> MusicDisconnected) then Some EventProviderDisconnected else None)
      else if snap_state current \<in> {MusicBuffering, MusicInterrupted, MusicUnauthorized, MusicUnavailable, MusicStale}
      then None
      else case previous of
          None \<Rightarrow> map_option (\<lambda>_. EventItemChanged) (snap_item current)
        | Some p \<Rightarrow> classify_change p current skip_applies)"

section \<open>Operations\<close>

definition issue_skip :: "LifecycleId \<Rightarrow> MonotonicTimestamp \<Rightarrow> MusicObservationTracker \<Rightarrow> MusicObservationTracker" where
  "issue_skip t at s = s\<lparr>pending_skips := pending_skips s @
     [\<lparr>skip_transport_id = t, skip_issued_at = at, skip_remaining = SKIP_CONFIRMATION_MAX_UNCHANGED_OBSERVATIONS,
       skip_outcome = SkipPending, skip_matched = False\<rparr>]\<rparr>"

definition awaits_transport_id :: "LifecycleId \<Rightarrow> PendingHistoryTransition \<Rightarrow> bool" where
  "awaits_transport_id t h = (case pend_kind h of HistoryAwaitingSkip current _ \<Rightarrow> current = t | _ \<Rightarrow> False)"

definition resolve_history_skip :: "LifecycleId \<Rightarrow> SkipCommandOutcome \<Rightarrow> MusicObservationTracker \<Rightarrow> MusicObservationTracker" where
  "resolve_history_skip t outcome s =
     (case list_position (awaits_transport_id t) (pending_history s) of None \<Rightarrow> s
      | Some i \<Rightarrow>
          let h = pending_history s ! i;
              settle = (\<lambda>replacement. case replacement of
                  Some kind \<Rightarrow> s\<lparr>pending_history := (pending_history s)[i := h\<lparr>pend_kind := HistoryConfirmed kind\<rparr>]\<rparr>
                | None \<Rightarrow> s\<lparr>pending_history := remove_at i (pending_history s)\<rparr>)
          in case pend_kind h of
               HistoryConfirmed _ \<Rightarrow> s
             | HistoryAwaitingSkip _ rejected_kind \<Rightarrow>
                 (case outcome of
                    SkipAccepted \<Rightarrow> settle (Some EventSkip)
                  | SkipRejected \<Rightarrow> settle rejected_kind
                  | SkipPending \<Rightarrow> s))"

definition finish_skip :: "LifecycleId \<Rightarrow> SkipCommandOutcome \<Rightarrow> MusicObservationTracker \<Rightarrow> MusicObservationTracker" where
  "finish_skip t outcome s =
     (case list_position (\<lambda>p. skip_transport_id p = t) (pending_skips s) of None \<Rightarrow> s
      | Some i \<Rightarrow>
          if outcome = SkipAccepted \<and> \<not> skip_matched (pending_skips s ! i)
          then s\<lparr>pending_skips := (pending_skips s)[i := (pending_skips s ! i)\<lparr>skip_outcome := SkipAccepted\<rparr>]\<rparr>
          else let s1 = resolve_history_skip t outcome s
               in s1\<lparr>pending_skips := remove_at i (pending_skips s1)\<rparr>)"

text \<open>The loops over the identities of skips that were collected first.\<close>

definition reject_skips :: "LifecycleId list \<Rightarrow> MusicObservationTracker \<Rightarrow> MusicObservationTracker" where
  "reject_skips ts s = foldl (\<lambda>s t. finish_skip t SkipRejected s) s ts"

definition clear_pending_skips :: "MusicObservationTracker \<Rightarrow> MusicObservationTracker" where
  "clear_pending_skips s = reject_skips (map skip_transport_id (pending_skips s)) s"

definition expire_skips :: "MonotonicTimestamp \<Rightarrow> MusicObservationTracker \<Rightarrow> MusicObservationTracker" where
  "expire_skips at s =
     reject_skips (map skip_transport_id (filter (\<lambda>p. skip_is_expired_at p at) (pending_skips s))) s"

definition reset_observations :: "MusicObservationTracker \<Rightarrow> MusicObservationTracker" where
  "reset_observations s = s\<lparr>trk_apple_music := None, trk_spotify := None, trk_soundcloud := None\<rparr>"

definition tracker_reset :: "MusicObservationTracker \<Rightarrow> MusicObservationTracker" where
  "tracker_reset s = (clear_pending_skips (reset_observations s))\<lparr>pending_history := []\<rparr>"

definition unsettled :: "PendingHistoryTransition \<Rightarrow> MusicUnsettledHistoryTransition" where
  "unsettled h = \<lparr>uns_id = pend_id h, uns_snapshot = pend_snapshot h,
     uns_kind = (case pend_kind h of HistoryConfirmed kind \<Rightarrow> UnsettledConfirmed kind
       | HistoryAwaitingSkip t r \<Rightarrow> UnsettledAwaitingSkip t r),
     uns_timing = pend_timing h\<rparr>"

definition tracker_retire :: "MusicObservationTracker \<Rightarrow> MusicUnsettledHistoryTransition list \<times> MusicObservationTracker" where
  "tracker_retire s = (map unsettled (pending_history s), tracker_reset (s\<lparr>pending_history := []\<rparr>))"

definition tracker_has_pending :: "MusicObservationTracker \<Rightarrow> bool" where
  "tracker_has_pending s \<longleftrightarrow> pending_history s \<noteq> []"

definition tracker_latest :: "MusicObservationTracker \<Rightarrow> MusicProvider \<Rightarrow> MusicSnapshot option" where
  "tracker_latest s provider =
     (case provider of AppleMusic \<Rightarrow> trk_apple_music s | Spotify \<Rightarrow> trk_spotify s | SoundCloud \<Rightarrow> trk_soundcloud s)"

definition replace_latest :: "MusicSnapshot \<Rightarrow> MusicObservationTracker \<Rightarrow> MusicObservationTracker" where
  "replace_latest snap s =
     (case snap_provider snap of
        AppleMusic \<Rightarrow> s\<lparr>trk_apple_music := Some snap\<rparr>
      | Spotify \<Rightarrow> s\<lparr>trk_spotify := Some snap\<rparr>
      | SoundCloud \<Rightarrow> s\<lparr>trk_soundcloud := Some snap\<rparr>)"

text \<open>The last part of \<open>enqueue_observation_transition\<close>: issue an identity and append the entry.\<close>

definition push_history :: "MusicSnapshot \<Rightarrow> MusicObservationTiming \<Rightarrow> PendingHistoryKind
    \<Rightarrow> MusicObservationTracker \<Rightarrow> MusicObservationTracker" where
  "push_history snap timing kind s =
     (case lifecycle_id_next (last_history_id s) of None \<Rightarrow> s
      | Some i \<Rightarrow> s\<lparr>last_history_id := i, pending_history := pending_history s @
          [\<lparr>pend_id = i, pend_snapshot = snap, pend_kind = kind, pend_timing = timing\<rparr>]\<rparr>)"

definition enqueue_observation_transition ::
  "MusicSnapshot \<Rightarrow> MusicObservationTiming \<Rightarrow> MusicRideEventKind option \<Rightarrow> MusicRideEventKind option
     \<Rightarrow> nat option \<Rightarrow> MusicObservationTracker \<Rightarrow> MusicObservationTracker" where
  "enqueue_observation_transition snap timing transition rejected skip_index s =
     (case transition of None \<Rightarrow> s
      | Some kind \<Rightarrow>
          if kind \<noteq> EventSkip then push_history snap timing (HistoryConfirmed kind) s
          else case skip_index of None \<Rightarrow> s
            | Some i \<Rightarrow>
                let p = pending_skips s ! i;
                    s1 = s\<lparr>pending_skips := (pending_skips s)[i := p\<lparr>skip_matched := True\<rparr>]\<rparr>
                in case skip_outcome p of
                     SkipAccepted \<Rightarrow>
                       if lifecycle_id_next (last_history_id s1) = None then s1
                       else let s2 = push_history snap timing (HistoryConfirmed kind) s1
                            in s2\<lparr>pending_skips := remove_at i (pending_skips s2)\<rparr>
                   | SkipPending \<Rightarrow>
                       push_history snap timing (HistoryAwaitingSkip (skip_transport_id p) rejected) s1
                   | SkipRejected \<Rightarrow> s1)"

definition resolve_unchanged_skip :: "MusicSnapshot \<Rightarrow> nat option \<Rightarrow> MusicRideEventKind option
    \<Rightarrow> MusicObservationTracker \<Rightarrow> MusicObservationTracker" where
  "resolve_unchanged_skip current skip_index transition s =
     (case skip_index of None \<Rightarrow> s
      | Some i \<Rightarrow>
          if transition = Some EventSkip then s
          else if is_terminal_state (snap_state current)
          then finish_skip (skip_transport_id (pending_skips s ! i)) SkipRejected s
          else let p = (pending_skips s ! i)\<lparr>skip_remaining := saturating_sub (skip_remaining (pending_skips s ! i)) 1\<rparr>;
                   s1 = s\<lparr>pending_skips := (pending_skips s)[i := p]\<rparr>
               in if skip_remaining p = 0 then finish_skip (skip_transport_id p) SkipRejected s1 else s1)"

definition current_history_transition :: "MusicObservationTracker \<Rightarrow> MusicHistoryTransition option" where
  "current_history_transition s =
     (case pending_history s of [] \<Rightarrow> None
      | h # _ \<Rightarrow> (case pend_kind h of
          HistoryConfirmed kind \<Rightarrow> Some \<lparr>hist_id = pend_id h, hist_snapshot = pend_snapshot h, hist_kind = kind,
            hist_timing = pend_timing h\<rparr>
        | HistoryAwaitingSkip _ _ \<Rightarrow> None))"

definition unmatched_at :: "MonotonicTimestamp \<Rightarrow> PendingSkip \<Rightarrow> bool" where
  "unmatched_at at p \<longleftrightarrow> \<not> skip_matched p \<and> skip_applies_at p at"

definition tracker_observe :: "MusicSnapshot \<Rightarrow> MusicObservationTiming \<Rightarrow> MusicObservationTracker
    \<Rightarrow> MusicObservationOutcome \<times> MusicObservationTracker" where
  "tracker_observe snap timing s =
     (let previous = tracker_latest s (snap_provider snap) in
      if is_some_and previous (\<lambda>p. snap_observed_at snap \<le> snap_observed_at p) then (ObservationOutOfOrder, s)
      else
        let s1 = expire_skips (snap_observed_at snap) s;
            skip_index = list_position (unmatched_at (snap_observed_at snap)) (pending_skips s1);
            skip_applies = is_some skip_index;
            transition = classify_transition previous snap skip_applies
        in if is_some transition \<and> MAX_MUSIC_TIMELINE_EVENTS \<le> length (pending_history s1)
           then (ObservationFull, s1)
           else
             let rejected = (if skip_applies then classify_transition previous snap False else None);
                 s2 = enqueue_observation_transition snap timing transition rejected skip_index s1;
                 s3 = resolve_unchanged_skip snap skip_index transition s2;
                 s4 = replace_latest snap s3
             in (ObservationAccepted \<lparr>decision_snapshot = snap, history_transition = current_history_transition s4\<rparr>, s4))"

definition tracker_acknowledge :: "LifecycleId \<Rightarrow> MusicObservationTracker
    \<Rightarrow> MusicHistoryTransitionAcknowledgement \<times> MusicObservationTracker" where
  "tracker_acknowledge i s =
     (case pending_history s of [] \<Rightarrow> (AcknowledgementStale, s)
      | h # hs \<Rightarrow>
          if pend_id h \<noteq> i \<or> (case pend_kind h of HistoryConfirmed _ \<Rightarrow> False | HistoryAwaitingSkip _ _ \<Rightarrow> True)
          then (AcknowledgementStale, s)
          else (Acknowledged, s\<lparr>pending_history := hs\<rparr>))"

section \<open>Lemmas on sequences\<close>

lemma list_position_None: "list_position P xs = None \<longleftrightarrow> (\<forall>x \<in> set xs. \<not> P x)"
  by (induction xs) simp_all

lemma list_position_Some:
  assumes "list_position P xs = Some i"
  obtains as x bs where "xs = as @ x # bs" "length as = i" "P x" "\<forall>y \<in> set as. \<not> P y"
  using assms
proof (induction xs arbitrary: i thesis)
  case (Cons y ys)
  show ?case
  proof (cases "P y")
    case True
    then show ?thesis
      using Cons.prems(2) Cons.prems(1) [of "[]" y ys] by simp
  next
    case False
    then obtain j where j: "list_position P ys = Some j" "i = Suc j"
      using Cons.prems(2) by auto
    obtain as x bs where "ys = as @ x # bs" "length as = j" "P x" "\<forall>z \<in> set as. \<not> P z"
      using Cons.IH [OF _ j(1)] by blast
    then show ?thesis
      using False j(2) Cons.prems(1) [of "y # as" x bs] by simp
  qed
qed simp

lemma remove_at_split [simp]: "remove_at (length as) (as @ x # bs) = as @ bs"
  by (simp add: remove_at_def)

lemma update_split [simp]: "(as @ x # bs)[length as := y] = as @ y # bs"
  by simp

lemma distinct_map_split:
  "distinct (map f (as @ q # bs)) \<Longrightarrow> x \<in> set as \<or> x \<in> set bs \<Longrightarrow> f x \<noteq> f q"
  by (simp add: image_iff) metis

section \<open>Invariant\<close>

definition awaited :: "PendingHistoryTransition \<Rightarrow> LifecycleId option" where
  "awaited h = (case pend_kind h of HistoryAwaitingSkip t _ \<Rightarrow> Some t | HistoryConfirmed _ \<Rightarrow> None)"

definition held :: "PendingHistoryTransition list \<Rightarrow> LifecycleId list" where
  "held hs = List.map_filter awaited hs"

definition skip_ids :: "MusicObservationTracker \<Rightarrow> LifecycleId list" where
  "skip_ids s = map skip_transport_id (pending_skips s)"

definition skips_ok :: "MusicObservationTracker \<Rightarrow> bool" where
  "skips_ok s \<longleftrightarrow> distinct (skip_ids s) \<and> (\<forall>p \<in> set (pending_skips s). skip_outcome p \<noteq> SkipRejected)"

text \<open>Every held transition has its own command, which has been matched and is still undecided.\<close>

definition held_ok :: "MusicObservationTracker \<Rightarrow> bool" where
  "held_ok s \<longleftrightarrow> distinct (held (pending_history s))
     \<and> (\<forall>t \<in> set (held (pending_history s)).
          \<exists>p \<in> set (pending_skips s). skip_transport_id p = t \<and> skip_matched p \<and> skip_outcome p = SkipPending)"

definition kind_fits :: "PendingHistoryTransition \<Rightarrow> bool" where
  "kind_fits h =
     (case pend_kind h of
        HistoryConfirmed kind \<Rightarrow> valid_for_state kind (snap_state (pend_snapshot h))
      | HistoryAwaitingSkip _ r \<Rightarrow> valid_for_state EventSkip (snap_state (pend_snapshot h))
          \<and> is_none_or r (\<lambda>kind. valid_for_state kind (snap_state (pend_snapshot h))))"

definition history_ok :: "MusicObservationTracker \<Rightarrow> bool" where
  "history_ok s \<longleftrightarrow> length (pending_history s) \<le> MAX_MUSIC_TIMELINE_EVENTS
     \<and> (\<forall>h \<in> set (pending_history s). kind_fits h \<and> pend_id h \<le> last_history_id s)
     \<and> sorted_wrt (<) (map pend_id (pending_history s))"

definition tracker_ok :: "MusicObservationTracker \<Rightarrow> bool" where
  "tracker_ok s \<longleftrightarrow> skips_ok s \<and> held_ok s \<and> history_ok s"

lemma held_simps [simp]:
  "held [] = []"
  "held (h # hs) = (case awaited h of None \<Rightarrow> held hs | Some t \<Rightarrow> t # held hs)"
  by (simp_all add: held_def map_filter_simps split: option.split)

lemma held_append [simp]: "held (as @ bs) = held as @ held bs"
  by (induction as) (simp_all split: option.split)

lemma awaits_iff: "awaits_transport_id t h \<longleftrightarrow> awaited h = Some t"
  by (simp add: awaits_transport_id_def awaited_def split: PendingHistoryKind.split)

lemma awaited_update [simp]:
  "awaited (h\<lparr>pend_kind := HistoryConfirmed kind\<rparr>) = None"
  by (simp add: awaited_def)

lemma filter_neq_id: "t \<notin> set xs \<Longrightarrow> filter (\<lambda>u. u \<noteq> t) xs = xs"
  by (auto simp: filter_id_conv)

lemma in_held_iff: "t \<in> set (held hs) \<longleftrightarrow> (\<exists>h \<in> set hs. awaited h = Some t)"
  by (induction hs) (auto split: option.splits)

text \<open>Deciding a command settles exactly the transition that was held for it.\<close>

lemma resolve_cases:
  assumes "outcome \<noteq> SkipPending"
  obtains (none) "t \<notin> set (held (pending_history s))" "resolve_history_skip t outcome s = s"
    | (confirm) as h bs r kind where "pending_history s = as @ h # bs" "pend_kind h = HistoryAwaitingSkip t r"
      "kind = EventSkip \<and> outcome = SkipAccepted \<or> r = Some kind \<and> outcome = SkipRejected"
      "resolve_history_skip t outcome s = s\<lparr>pending_history := as @ h\<lparr>pend_kind := HistoryConfirmed kind\<rparr> # bs\<rparr>"
    | (drop) as h bs where "pending_history s = as @ h # bs" "pend_kind h = HistoryAwaitingSkip t None"
      "outcome = SkipRejected" "resolve_history_skip t outcome s = s\<lparr>pending_history := as @ bs\<rparr>"
proof (cases "list_position (awaits_transport_id t) (pending_history s)")
  case None
  then have "resolve_history_skip t outcome s = s"
    by (simp add: resolve_history_skip_def)
  moreover have "t \<notin> set (held (pending_history s))"
    using None by (simp add: list_position_None awaits_iff in_held_iff)
  ultimately show thesis
    using none by blast
next
  case (Some i)
  then obtain as h bs where h: "pending_history s = as @ h # bs" "length as = i" "awaits_transport_id t h"
    by (rule list_position_Some)
  then obtain r where r: "pend_kind h = HistoryAwaitingSkip t r"
    by (auto simp: awaits_transport_id_def split: PendingHistoryKind.splits)
  note eq = resolve_history_skip_def [of t outcome s, unfolded Some, simplified, folded h(2),
      unfolded h(1), simplified, unfolded r, simplified]
  show thesis
  proof (cases outcome)
    case SkipAccepted
    then show thesis
      using confirm [OF h(1) r, of EventSkip] eq by (simp add: Let_def)
  next
    case SkipRejected
    then show thesis
      using confirm [OF h(1) r] drop [OF h(1)] eq r by (cases r) (simp_all add: Let_def)
  next
    case SkipPending
    then show thesis
      using assms by simp
  qed
qed

lemma resolve_keeps [simp]: "pending_skips (resolve_history_skip t outcome s) = pending_skips s"
  by (simp add: resolve_history_skip_def Let_def split: option.split PendingHistoryKind.split SkipCommandOutcome.split)

lemma resolve_held:
  assumes "outcome \<noteq> SkipPending" "distinct (held (pending_history s))"
  shows "held (pending_history (resolve_history_skip t outcome s)) = filter (\<lambda>u. u \<noteq> t) (held (pending_history s))"
  using assms(1)
proof (cases rule: resolve_cases [of outcome t s])
  case none
  then show ?thesis
    by (subst filter_True) auto
next
  case (confirm as h bs r kind)
  then show ?thesis
    using assms(2) by (simp add: awaited_def filter_neq_id)
next
  case (drop as h bs)
  then show ?thesis
    using assms(2) by (simp add: awaited_def filter_neq_id)
qed

lemma resolve_history_ok:
  assumes "outcome \<noteq> SkipPending" "history_ok s"
  shows "history_ok (resolve_history_skip t outcome s)"
  using assms(1)
proof (cases rule: resolve_cases [of outcome t s])
  case none
  then show ?thesis using assms(2) by simp
next
  case (confirm as h bs r kind)
  then show ?thesis
    using assms(2) by (auto simp: history_ok_def kind_fits_def sorted_wrt_append)
next
  case (drop as h bs)
  then show ?thesis
    using assms(2) by (auto simp: history_ok_def sorted_wrt_append)
qed

text \<open>Finishing a skip leaves the other skips alone; its own is gone or, when still unmatched, accepted.\<close>

lemma finish_skip_cases:
  assumes "outcome \<noteq> SkipPending"
  obtains (none) "t \<notin> set (skip_ids s)" "finish_skip t outcome s = s"
    | (accept) as p bs where "pending_skips s = as @ p # bs" "skip_transport_id p = t" "outcome = SkipAccepted"
      "\<not> skip_matched p" "finish_skip t outcome s = s\<lparr>pending_skips := as @ p\<lparr>skip_outcome := SkipAccepted\<rparr> # bs\<rparr>"
    | (remove) as p bs where "pending_skips s = as @ p # bs" "skip_transport_id p = t"
      "finish_skip t outcome s = (resolve_history_skip t outcome s)\<lparr>pending_skips := as @ bs\<rparr>"
proof (cases "list_position (\<lambda>p. skip_transport_id p = t) (pending_skips s)")
  case None
  then have "finish_skip t outcome s = s"
    by (simp add: finish_skip_def)
  moreover have "t \<notin> set (skip_ids s)"
    using None by (auto simp: list_position_None skip_ids_def)
  ultimately show thesis
    using none by blast
next
  case (Some i)
  then obtain as p bs where p: "pending_skips s = as @ p # bs" "length as = i" "skip_transport_id p = t"
    by (rule list_position_Some)
  have nth: "pending_skips s ! i = p" "remove_at i (pending_skips s) = as @ bs"
    "(pending_skips s)[i := q] = as @ q # bs" for q
    using p by (auto simp: nth_append)
  show thesis
  proof (cases "outcome = SkipAccepted \<and> \<not> skip_matched p")
    case True
    then show thesis
      using accept [OF p(1,3)] by (simp add: finish_skip_def Some nth)
  next
    case False
    then have "finish_skip t outcome s = (resolve_history_skip t outcome s)\<lparr>pending_skips := as @ bs\<rparr>"
      using nth by (auto simp: finish_skip_def Some Let_def)
    then show thesis
      using remove [OF p(1,3)] by blast
  qed
qed

lemma finish_skip_ok:
  assumes ok: "tracker_ok s" and oc: "outcome \<noteq> SkipPending"
  shows "tracker_ok (finish_skip t outcome s)"
  using oc
proof (cases rule: finish_skip_cases [of outcome t s])
  case none
  then show ?thesis
    using ok by simp
next
  case (accept as p bs)
  then have "held_ok (finish_skip t outcome s)" "skips_ok (finish_skip t outcome s)"
    using ok by (auto simp: tracker_ok_def held_ok_def skips_ok_def skip_ids_def)
  moreover have "history_ok (finish_skip t outcome s)"
    using ok accept by (simp add: tracker_ok_def history_ok_def)
  ultimately show ?thesis
    by (simp add: tracker_ok_def)
next
  case (remove as p bs)
  have "history_ok (finish_skip t outcome s)"
    using resolve_history_ok [OF oc, of s t] ok remove by (simp add: tracker_ok_def history_ok_def)
  moreover have "skips_ok (finish_skip t outcome s)"
    using ok remove by (auto simp: tracker_ok_def skips_ok_def skip_ids_def)
  moreover have "held (pending_history (finish_skip t outcome s)) = filter (\<lambda>u. u \<noteq> t) (held (pending_history s))"
    using resolve_held [OF oc, of s t] ok remove by (simp add: tracker_ok_def held_ok_def)
  then have "held_ok (finish_skip t outcome s)"
    using ok remove by (auto simp: tracker_ok_def held_ok_def)
  ultimately show ?thesis
    by (simp add: tracker_ok_def)
qed

text \<open>What finishing a skip leaves of the others.\<close>

lemma finish_skip_skips:
  assumes "distinct (skip_ids s)" "outcome \<noteq> SkipPending" "p \<in> set (pending_skips (finish_skip t outcome s))"
  shows "skip_transport_id p \<noteq> t \<and> p \<in> set (pending_skips s)
    \<or> skip_transport_id p = t \<and> outcome = SkipAccepted \<and> skip_outcome p = SkipAccepted \<and> t \<in> set (skip_ids s)"
  using assms(2)
proof (cases rule: finish_skip_cases [of outcome t s])
  case none
  then show ?thesis
    using assms(3) by (auto simp: skip_ids_def)
next
  case (accept as q bs)
  have "skip_transport_id x \<noteq> t" if "x \<in> set as \<or> x \<in> set bs" for x
    using distinct_map_split [OF assms(1) [unfolded skip_ids_def accept(1)] that] accept(2) by simp
  then show ?thesis
    using assms(3) accept by (auto simp: skip_ids_def)
next
  case (remove as q bs)
  have "skip_transport_id x \<noteq> t" if "x \<in> set as \<or> x \<in> set bs" for x
    using distinct_map_split [OF assms(1) [unfolded skip_ids_def remove(1)] that] remove(2) by simp
  then show ?thesis
    using assms(3) remove by auto
qed

lemma finish_skip_keeps [simp]:
  "last_history_id (finish_skip t outcome s) = last_history_id s"
  "trk_apple_music (finish_skip t outcome s) = trk_apple_music s"
  by (simp_all add: finish_skip_def resolve_history_skip_def Let_def split: option.split PendingHistoryKind.split
      SkipCommandOutcome.split)

lemma reject_skips_ok: "tracker_ok s \<Longrightarrow> tracker_ok (reject_skips ts s)"
  unfolding reject_skips_def by (induction ts arbitrary: s) (simp_all add: finish_skip_ok)

text \<open>Rejecting a list of skips removes them and changes no other skip.\<close>

lemma reject_skips_skips:
  assumes "tracker_ok s"
  shows "set (pending_skips (reject_skips ts s)) \<subseteq> {p \<in> set (pending_skips s). skip_transport_id p \<notin> set ts}"
  using assms unfolding reject_skips_def
proof (induction ts arbitrary: s)
  case (Cons t ts)
  have ok: "tracker_ok (finish_skip t SkipRejected s)"
    by (rule finish_skip_ok [OF Cons.prems]) simp
  have "distinct (skip_ids s)"
    using Cons.prems by (simp add: tracker_ok_def skips_ok_def)
  then show ?case
    using Cons.IH [OF ok] finish_skip_skips [of s SkipRejected _ t] by fastforce
qed simp

lemma clear_skips_none:
  assumes "tracker_ok s"
  shows "pending_skips (clear_pending_skips s) = []"
proof -
  have "set (pending_skips (clear_pending_skips s)) \<subseteq>
      {p \<in> set (pending_skips s). skip_transport_id p \<notin> skip_transport_id ` set (pending_skips s)}"
    using reject_skips_skips [OF assms, of "map skip_transport_id (pending_skips s)"]
    unfolding clear_pending_skips_def set_map .
  also have "\<dots> = {}"
    by blast
  finally have "set (pending_skips (clear_pending_skips s)) \<subseteq> {}" .
  then show ?thesis
    by simp
qed

lemma clear_skips_ok: "tracker_ok s \<Longrightarrow> tracker_ok (clear_pending_skips s)"
  by (simp add: clear_pending_skips_def reject_skips_ok)

lemma expire_skips_ok: "tracker_ok s \<Longrightarrow> tracker_ok (expire_skips at s)"
  by (simp add: expire_skips_def reject_skips_ok)

lemma reset_observations_ok [simp]: "tracker_ok (reset_observations s) = tracker_ok s"
  by (simp add: reset_observations_def tracker_ok_def skips_ok_def skip_ids_def held_ok_def history_ok_def)

lemma replace_latest_ok [simp]: "tracker_ok (replace_latest snap s) = tracker_ok s"
  by (simp add: replace_latest_def tracker_ok_def skips_ok_def skip_ids_def held_ok_def history_ok_def
      split: MusicProvider.split)

lemma clear_history_ok: "tracker_ok s \<Longrightarrow> tracker_ok (s\<lparr>pending_history := []\<rparr>)"
  by (simp add: tracker_ok_def skips_ok_def skip_ids_def held_ok_def history_ok_def)

lemma tracker_reset_ok: "tracker_ok s \<Longrightarrow> tracker_ok (tracker_reset s)"
  by (simp add: tracker_reset_def clear_history_ok clear_skips_ok)

lemma tracker_retire_ok: "tracker_ok s \<Longrightarrow> tracker_ok (snd (tracker_retire s))"
  by (simp add: tracker_retire_def tracker_reset_ok clear_history_ok)

lemma acknowledge_ok: "tracker_ok s \<Longrightarrow> tracker_ok (snd (tracker_acknowledge i s))"
  by (cases "pending_history s")
    (auto simp: tracker_acknowledge_def tracker_ok_def skips_ok_def skip_ids_def held_ok_def history_ok_def
      split: option.splits)

lemma issue_skip_ok:
  "tracker_ok s \<Longrightarrow> t \<notin> set (skip_ids s) \<Longrightarrow> tracker_ok (issue_skip t at s)"
  by (auto simp: issue_skip_def tracker_ok_def skips_ok_def skip_ids_def held_ok_def history_ok_def)

section \<open>Observations\<close>

text \<open>A transition fits the state of the snapshot that shows it.\<close>

lemma classify_change_fits:
  "snap_state current \<in> {MusicPlaying, MusicPaused, MusicStopped} \<Longrightarrow>
     classify_change previous current b = Some kind \<Longrightarrow> valid_for_state kind (snap_state current)"
  by (auto simp: classify_change_def valid_for_state_def Let_def split: if_splits)

lemma classify_fits:
  assumes "classify_transition previous current b = Some kind"
  shows "valid_for_state kind (snap_state current)"
proof (cases "snap_state current \<in> {MusicPlaying, MusicPaused, MusicStopped}")
  case True
  then show ?thesis
    using assms classify_change_fits [OF True]
    by (cases previous) (auto simp: classify_transition_def valid_for_state_def)
next
  case False
  then show ?thesis
    using assms by (cases "snap_state current") (auto simp: classify_transition_def valid_for_state_def split: if_splits)
qed

lemma push_history_ok:
  assumes ok: "tracker_ok s" and len: "length (pending_history s) < MAX_MUSIC_TIMELINE_EVENTS"
    and fits: "kind_fits \<lparr>pend_id = i, pend_snapshot = snap, pend_kind = kind, pend_timing = timing\<rparr>"
    and new: "\<And>t r. kind = HistoryAwaitingSkip t r \<Longrightarrow> t \<notin> set (held (pending_history s))
      \<and> (\<exists>p \<in> set (pending_skips s). skip_transport_id p = t \<and> skip_matched p \<and> skip_outcome p = SkipPending)"
  shows "tracker_ok (push_history snap timing kind s)"
proof (cases "lifecycle_id_next (last_history_id s)")
  case None
  then show ?thesis
    using ok by (simp add: push_history_def)
next
  case (Some j)
  define h where "h = \<lparr>pend_id = j, pend_snapshot = snap, pend_kind = kind, pend_timing = timing\<rparr>"
  have lt: "last_history_id s < j"
    using lifecycle_id_next_Some [OF Some] by (simp add: word_less_nat_alt)
  have h: "kind_fits h" "awaited h = (case kind of HistoryAwaitingSkip t _ \<Rightarrow> Some t | _ \<Rightarrow> None)" "pend_id h = j"
    using fits by (cases kind; simp add: h_def kind_fits_def awaited_def)+
  define t where "t = s\<lparr>last_history_id := j, pending_history := pending_history s @ [h]\<rparr>"
  have "history_ok t"
    using ok len lt h by (auto simp: t_def tracker_ok_def history_ok_def sorted_wrt_append intro: order.trans order.strict_trans1)
  moreover have "held_ok t"
    using ok new h by (auto simp: t_def tracker_ok_def held_ok_def split: PendingHistoryKind.splits)
  moreover have "skips_ok t"
    using ok by (simp add: t_def tracker_ok_def skips_ok_def skip_ids_def)
  ultimately show ?thesis
    by (simp add: push_history_def Some h_def [symmetric] t_def [symmetric] tracker_ok_def)
qed

text \<open>The first unmatched skip, and marking it as matched.\<close>

lemma match_ok:
  assumes ok: "tracker_ok s" and sk: "pending_skips s = as @ p # bs" and um: "\<not> skip_matched p"
  shows "tracker_ok (s\<lparr>pending_skips := as @ p\<lparr>skip_matched := True\<rparr> # bs\<rparr>)"
    "skip_transport_id p \<notin> set (held (pending_history s))"
proof -
  have d: "distinct (map skip_transport_id (as @ p # bs))"
    using ok by (simp add: tracker_ok_def skips_ok_def skip_ids_def sk)
  show "tracker_ok (s\<lparr>pending_skips := as @ p\<lparr>skip_matched := True\<rparr> # bs\<rparr>)"
    using ok sk by (auto simp: tracker_ok_def skips_ok_def skip_ids_def held_ok_def history_ok_def)
  show "skip_transport_id p \<notin> set (held (pending_history s))"
  proof
    assume "skip_transport_id p \<in> set (held (pending_history s))"
    then obtain q where "q \<in> set (pending_skips s)" "skip_transport_id q = skip_transport_id p" "skip_matched q"
      using ok by (auto simp: tracker_ok_def held_ok_def)
    then show False
      using um sk distinct_map_split [OF d, of q] by auto
  qed
qed

lemma kind_fits_simps:
  "kind_fits \<lparr>pend_id = i, pend_snapshot = snap, pend_kind = HistoryConfirmed kind, pend_timing = timing\<rparr> =
     valid_for_state kind (snap_state snap)"
  "kind_fits \<lparr>pend_id = i, pend_snapshot = snap, pend_kind = HistoryAwaitingSkip t r, pend_timing = timing\<rparr> \<longleftrightarrow>
     valid_for_state EventSkip (snap_state snap) \<and> is_none_or r (\<lambda>kind. valid_for_state kind (snap_state snap))"
  by (simp_all add: kind_fits_def)

lemma drop_skip_ok:
  assumes "tracker_ok s" "pending_skips s = as @ p # bs" "skip_outcome p \<noteq> SkipPending"
  shows "tracker_ok (s\<lparr>pending_skips := as @ bs\<rparr>)"
  using assms by (auto simp: tracker_ok_def skips_ok_def skip_ids_def held_ok_def history_ok_def)

lemma enqueue_ok:
  assumes ok: "tracker_ok s" and len: "transition \<noteq> None \<Longrightarrow> length (pending_history s) < MAX_MUSIC_TIMELINE_EVENTS"
    and idx: "\<And>i. skip_index = Some i \<Longrightarrow>
      \<exists>as p bs. pending_skips s = as @ p # bs \<and> length as = i \<and> \<not> skip_matched p"
    and fits: "is_none_or transition (\<lambda>kind. valid_for_state kind (snap_state snap))"
      "is_none_or rejected (\<lambda>kind. valid_for_state kind (snap_state snap))"
  shows "tracker_ok (enqueue_observation_transition snap timing transition rejected skip_index s)"
proof (cases "transition = Some EventSkip \<and> skip_index \<noteq> None")
  case False
  then show ?thesis
    using ok len fits by (cases transition)
      (auto simp: enqueue_observation_transition_def kind_fits_simps intro!: push_history_ok)
next
  case True
  then obtain as p bs where tr: "transition = Some EventSkip" and i: "skip_index = Some (length as)"
    and p: "pending_skips s = as @ p # bs" "\<not> skip_matched p"
    using idx by blast
  define s1 where "s1 = s\<lparr>pending_skips := as @ p\<lparr>skip_matched := True\<rparr> # bs\<rparr>"
  have s1: "tracker_ok s1" "skip_transport_id p \<notin> set (held (pending_history s))"
    using match_ok [OF ok p] by (simp_all add: s1_def)
  have eq: "enqueue_observation_transition snap timing transition rejected skip_index s =
      (case skip_outcome p of
         SkipAccepted \<Rightarrow> if lifecycle_id_next (last_history_id s1) = None then s1
           else (push_history snap timing (HistoryConfirmed EventSkip) s1)\<lparr>pending_skips := as @ bs\<rparr>
       | SkipPending \<Rightarrow> push_history snap timing (HistoryAwaitingSkip (skip_transport_id p) rejected) s1
       | SkipRejected \<Rightarrow> s1)"
    by (simp add: enqueue_observation_transition_def tr i p(1) s1_def Let_def push_history_def
        split: SkipCommandOutcome.split option.split)
  have fit: "valid_for_state EventSkip (snap_state snap)"
    using fits(1) by (simp add: tr)
  have len1: "length (pending_history s1) < MAX_MUSIC_TIMELINE_EVENTS"
    using len by (simp add: tr s1_def)
  show ?thesis
  proof (cases "skip_outcome p")
    case SkipPending
    then show ?thesis
      unfolding eq using s1 p(1) fits(2) fit len1
      by (auto simp: kind_fits_simps s1_def intro!: push_history_ok)
  next
    case SkipAccepted
    have "tracker_ok (push_history snap timing (HistoryConfirmed EventSkip) s1)"
      using s1 fit len1 by (auto simp: kind_fits_simps intro!: push_history_ok)
    moreover have "pending_skips (push_history snap timing (HistoryConfirmed EventSkip) s1) =
        as @ p\<lparr>skip_matched := True\<rparr> # bs"
      by (simp add: push_history_def s1_def split: option.split)
    ultimately show ?thesis
      unfolding eq using s1 SkipAccepted by (auto intro: drop_skip_ok)
  next
    case SkipRejected
    then show ?thesis
      unfolding eq using s1 by simp
  qed
qed

lemma resolve_unchanged_ok:
  assumes ok: "tracker_ok s" and idx: "\<And>i. skip_index = Some i \<Longrightarrow> transition \<noteq> Some EventSkip \<Longrightarrow>
      \<exists>as p bs. pending_skips s = as @ p # bs \<and> length as = i"
  shows "tracker_ok (resolve_unchanged_skip current skip_index transition s)"
proof (cases "skip_index = None \<or> transition = Some EventSkip")
  case True
  then show ?thesis
    using ok by (auto simp: resolve_unchanged_skip_def split: option.split)
next
  case False
  then obtain i where "skip_index = Some i"
    by auto
  then obtain as p bs where i: "skip_index = Some (length as)" and p: "pending_skips s = as @ p # bs"
    using idx [of i] False by blast
  define s1 where "s1 n = s\<lparr>pending_skips := as @ p\<lparr>skip_remaining := n\<rparr> # bs\<rparr>" for n
  have "tracker_ok (s1 n)" for n
    using ok p by (auto simp: s1_def tracker_ok_def skips_ok_def skip_ids_def held_ok_def history_ok_def)
  then show ?thesis
    using False i p ok
    by (auto simp: resolve_unchanged_skip_def Let_def s1_def [symmetric] intro!: finish_skip_ok)
qed

lemma enqueue_skips:
  "transition \<noteq> Some EventSkip \<Longrightarrow>
     pending_skips (enqueue_observation_transition snap timing transition rejected skip_index s) = pending_skips s"
  by (simp add: enqueue_observation_transition_def push_history_def split: option.split)

lemma observe_ok:
  assumes ok: "tracker_ok s"
  shows "tracker_ok (snd (tracker_observe snap timing s))"
proof -
  define previous where "previous = tracker_latest s (snap_provider snap)"
  define s1 where "s1 = expire_skips (snap_observed_at snap) s"
  define idx where "idx = list_position (unmatched_at (snap_observed_at snap)) (pending_skips s1)"
  define tr where "tr = classify_transition previous snap (is_some idx)"
  define rj where "rj = (if is_some idx then classify_transition previous snap False else None)"
  define s2 where "s2 = enqueue_observation_transition snap timing tr rj idx s1"
  have s1: "tracker_ok s1"
    using ok by (simp add: s1_def expire_skips_ok)
  have at: "\<exists>as p bs. pending_skips s1 = as @ p # bs \<and> length as = i \<and> \<not> skip_matched p" if "idx = Some i" for i
    using that unfolding idx_def by (rule list_position_Some) (auto simp: unmatched_at_def)
  have fits: "is_none_or tr (\<lambda>kind. valid_for_state kind (snap_state snap))"
    "is_none_or rj (\<lambda>kind. valid_for_state kind (snap_state snap))"
    using classify_fits [of previous snap] by (cases tr; cases rj; simp add: tr_def rj_def split: if_splits)+
  have "tracker_ok (resolve_unchanged_skip snap idx tr s2)"
    if "\<not> (is_some tr \<and> MAX_MUSIC_TIMELINE_EVENTS \<le> length (pending_history s1))"
  proof (rule resolve_unchanged_ok)
    show "tracker_ok s2"
      unfolding s2_def using s1 that at fits by (intro enqueue_ok) (auto simp: is_some_iff)
    show "\<exists>as p bs. pending_skips s2 = as @ p # bs \<and> length as = i" if "idx = Some i" "tr \<noteq> Some EventSkip" for i
      using at [OF that(1)] enqueue_skips [OF that(2), of snap timing rj idx s1] by (auto simp: s2_def)
  qed
  then show ?thesis
    using ok s1 unfolding tracker_observe_def Let_def previous_def [symmetric] s1_def [symmetric] idx_def [symmetric]
      tr_def [symmetric] rj_def [symmetric] s2_def [symmetric]
    by simp
qed

lemma tracker_new_ok: "tracker_ok tracker_new"
  by (simp add: tracker_new_def tracker_ok_def skips_ok_def skip_ids_def held_ok_def history_ok_def)

end
