(* ===== verification/Music_Provider.thy ===== *)
theory Music_Provider
  imports Music_Observation Music_Connection Player_Request
begin

text \<open>
  The owner of one music provider (\<^verbatim>\<open>cutout-music/src/provider_lifecycle.rs\<close>): it joins the monitor, the
  callback epochs, the authorization, the connection attempts, the player and artwork requests, the
  transport command and the observation tracker.  Shown for every order of calls: a pending command
  always belongs to the current session and, when it was issued on a connection, to the connection
  that is established; every command ends once; and a transition that is held back for a skip always
  waits for the command that is pending, so it cannot be held for ever.
\<close>

section \<open>Types\<close>

definition MONITOR_POLL_INTERVAL_MS :: u64 where "MONITOR_POLL_INTERVAL_MS = 1000"
definition AUTHORIZATION_TIMEOUT_MS :: u64 where "AUTHORIZATION_TIMEOUT_MS = 20000"
definition TRANSPORT_TIMEOUT_MS :: u64 where "TRANSPORT_TIMEOUT_MS = 10000"
definition ARTWORK_TIMEOUT_MS :: u64 where "ARTWORK_TIMEOUT_MS = 5000"
definition ARTWORK_RETRY_DELAY_MS :: u64 where "ARTWORK_RETRY_DELAY_MS = 1000"
definition PLAY_HANDOFF_TIMEOUT_MS :: u64 where "PLAY_HANDOFF_TIMEOUT_MS = 60000"

datatype MusicPlaybackTransport = TransportAppRemote | TransportWebApi | TransportUnavailable

definition select_playback_transport :: "bool \<Rightarrow> bool \<Rightarrow> MusicPlaybackTransport" where
  "select_playback_transport app_remote web =
     (if app_remote then TransportAppRemote else if web then TransportWebApi else TransportUnavailable)"

definition deadline_after :: "u64 \<Rightarrow> u64 \<Rightarrow> MonotonicTimestamp" where
  "deadline_after now delay = saturating_add_duration now delay"

record MusicDeadlineEffect =
  effect_id :: LifecycleId
  effect_deadline :: MonotonicTimestamp

datatype MusicProviderWorkState =
    WorkActive | WorkRemotePolling | WorkAuthorizationPending | WorkCredentialsAvailable
  | WorkRequiresUserAction | WorkUnavailable

datatype MusicTransportOutcome = OutcomeAccepted | OutcomeFailed | OutcomeTimedOut | OutcomeCancelled

datatype MusicTransportCompletion =
    TransportStillPending
  | TransportFinished LifecycleId MusicTransportOutcome
  | TransportStale

record MusicConnectionEffect =
  ce_callback :: MusicConnectionCallback
  ce_transport :: MusicTransportCompletion

record MusicConnectionAttemptEffect =
  cae_attempt_id :: LifecycleId
  cae_transport :: MusicTransportCompletion

datatype MusicConnectionAttemptAdmission =
    AdmissionStarted MusicConnectionAttemptEffect
  | AdmissionPending
  | AdmissionWaitingToRetry
  | AdmissionExhausted

datatype MusicTransportOwner =
    OwnerProvider LifecycleId
  | OwnerConnection LifecycleId LifecycleId

fun owner_generation :: "MusicTransportOwner \<Rightarrow> LifecycleId" where
  "owner_generation (OwnerProvider g) = g"
| "owner_generation (OwnerConnection g _) = g"

record MusicProviderSuspension =
  observation_gap :: bool
  cancelled_transport_request_id :: "LifecycleId option"

record MusicMonitorEffect =
  me_generation :: LifecycleId
  me_start :: MusicMonitorStart

section \<open>Transport\<close>

record PendingTransport =
  pt_owner :: MusicTransportOwner
  pt_request_id :: LifecycleId
  pt_started_at :: MonotonicTimestamp
  pt_command :: MusicCommand

datatype MusicTransportState = TransportAvailable LifecycleId | TransportPending PendingTransport

definition transport_default :: MusicTransportState where
  "transport_default = TransportAvailable 0"

definition transport_begin :: "MusicTransportOwner \<Rightarrow> MusicCommand \<Rightarrow> MonotonicTimestamp \<Rightarrow> MusicTransportState
    \<Rightarrow> PendingTransport option \<times> MusicTransportState" where
  "transport_begin owner command now t =
     (case t of
        TransportPending _ \<Rightarrow> (None, t)
      | TransportAvailable l \<Rightarrow>
          (case lifecycle_id_next l of None \<Rightarrow> (None, t)
           | Some i \<Rightarrow>
               let p = \<lparr>pt_owner = owner, pt_request_id = i, pt_started_at = now, pt_command = command\<rparr>
               in (Some p, TransportPending p)))"

definition transport_pending :: "MusicTransportState \<Rightarrow> PendingTransport option" where
  "transport_pending t = (case t of TransportPending p \<Rightarrow> Some p | TransportAvailable _ \<Rightarrow> None)"

definition transport_finish :: "LifecycleId \<Rightarrow> LifecycleId \<Rightarrow> MusicTransportState
    \<Rightarrow> PendingTransport option \<times> MusicTransportState" where
  "transport_finish gen i t =
     (case opt_filter (\<lambda>p. owner_generation (pt_owner p) = gen \<and> pt_request_id p = i) (transport_pending t) of
        None \<Rightarrow> (None, t)
      | Some p \<Rightarrow> (Some p, TransportAvailable (pt_request_id p)))"

datatype MusicObservationOwnership = OwnershipIdle | OwnershipActive

definition has_gap :: "MusicObservationOwnership \<Rightarrow> bool" where
  "has_gap o' = (case o' of OwnershipActive \<Rightarrow> True | OwnershipIdle \<Rightarrow> False)"

definition finished_request_id :: "MusicTransportCompletion \<Rightarrow> LifecycleId option" where
  "finished_request_id c = (case c of TransportFinished i _ \<Rightarrow> Some i | _ \<Rightarrow> None)"

section \<open>State\<close>

record MusicProviderLifecycle =
  pl_monitor :: MusicMonitor
  pl_monitor_generation :: CallbackEpoch
  pl_session :: CallbackEpoch
  pl_authorization :: AuthorizationTransaction
  pl_connection :: MusicConnection
  pl_player :: MusicPlayerRequest
  pl_artwork :: MusicArtworkRequest
  pl_artwork_retry :: CallbackEpoch
  pl_feedback :: CallbackEpoch
  pl_handoff :: CallbackEpoch
  pl_handoff_started_at :: MonotonicTimestamp
  pl_transport :: MusicTransportState
  pl_observations :: MusicObservationTracker
  pl_ownership :: MusicObservationOwnership

definition lifecycle_default :: MusicProviderLifecycle where
  "lifecycle_default =
     \<lparr>pl_monitor = monitor_default, pl_monitor_generation = epoch_default, pl_session = epoch_default,
      pl_authorization = auth_default, pl_connection = connection_default, pl_player = player_default,
      pl_artwork = artwork_default, pl_artwork_retry = epoch_default, pl_feedback = epoch_default,
      pl_handoff = epoch_default, pl_handoff_started_at = 0, pl_transport = transport_default,
      pl_observations = tracker_new, pl_ownership = OwnershipIdle\<rparr>"

section \<open>Ending transport commands\<close>

definition finish_transport_unchecked :: "LifecycleId \<Rightarrow> LifecycleId \<Rightarrow> MusicTransportOutcome
    \<Rightarrow> MusicProviderLifecycle \<Rightarrow> MusicTransportCompletion \<times> MusicProviderLifecycle" where
  "finish_transport_unchecked gen i outcome s =
     (case transport_finish gen i (pl_transport s) of
        (None, t) \<Rightarrow> (TransportStale, s\<lparr>pl_transport := t\<rparr>)
      | (Some p, t) \<Rightarrow>
          let s1 = s\<lparr>pl_transport := t\<rparr>;
              s2 = (if command_is_skip (pt_command p)
                then s1\<lparr>pl_observations := finish_skip i
                  (if outcome = OutcomeAccepted then SkipAccepted else SkipRejected) (pl_observations s1)\<rparr>
                else s1)
          in (TransportFinished i outcome, s2))"

definition cancel_current_transport :: "MusicProviderLifecycle \<Rightarrow> MusicTransportCompletion \<times> MusicProviderLifecycle" where
  "cancel_current_transport s =
     (case transport_pending (pl_transport s) of None \<Rightarrow> (TransportStale, s)
      | Some p \<Rightarrow> finish_transport_unchecked (owner_generation (pt_owner p)) (pt_request_id p) OutcomeCancelled s)"

definition cancel_transport_for_connection_current :: "LifecycleId \<Rightarrow> MusicProviderLifecycle
    \<Rightarrow> MusicTransportCompletion \<times> MusicProviderLifecycle" where
  "cancel_transport_for_connection_current conn s =
     (case transport_pending (pl_transport s) of None \<Rightarrow> (TransportStale, s)
      | Some p \<Rightarrow>
          if \<not> (case pt_owner p of OwnerConnection _ current \<Rightarrow> current = conn | _ \<Rightarrow> False) then (TransportStale, s)
          else finish_transport_unchecked (owner_generation (pt_owner p)) (pt_request_id p) OutcomeCancelled s)"

definition invalidate_provider_work :: "MusicProviderLifecycle \<Rightarrow> MusicProviderLifecycle" where
  "invalidate_provider_work s =
     s\<lparr>pl_session := epoch_invalidate (pl_session s), pl_ownership := OwnershipIdle,
       pl_connection := connection_reset (pl_connection s), pl_player := player_reset (pl_player s),
       pl_artwork := artwork_reset (pl_artwork s), pl_artwork_retry := epoch_invalidate (pl_artwork_retry s),
       pl_observations := clear_pending_skips (pl_observations s)\<rparr>"

definition retire_all_provider_work :: "MusicProviderLifecycle \<Rightarrow> MusicTransportCompletion \<times> MusicProviderLifecycle" where
  "retire_all_provider_work s =
     (case cancel_current_transport s of (completion, s1) \<Rightarrow> (completion, invalidate_provider_work s1))"

definition finish_connection :: "LifecycleId \<Rightarrow> MusicConnectionCallback \<Rightarrow> MusicProviderLifecycle
    \<Rightarrow> MusicConnectionEffect \<times> MusicProviderLifecycle" where
  "finish_connection i callback s =
     (if callback = ConnectionStale
      then (\<lparr>ce_callback = callback, ce_transport = TransportStale\<rparr>, s)
      else
        let s1 = s\<lparr>pl_feedback := epoch_invalidate (pl_feedback s), pl_player := player_reset (pl_player s)\<rparr>
        in (case cancel_transport_for_connection_current i s1 of
              (completion, s2) \<Rightarrow> (\<lparr>ce_callback = callback, ce_transport = completion\<rparr>, s2)))"

definition end_connection :: "LifecycleId \<Rightarrow> u64 \<Rightarrow> MusicProviderLifecycle
    \<Rightarrow> MusicConnectionEffect \<times> MusicProviderLifecycle" where
  "end_connection i now s =
     (case failed_for (pl_connection s) i now of
        (callback, c) \<Rightarrow> finish_connection i callback (s\<lparr>pl_connection := c\<rparr>))"

section \<open>Operations\<close>

definition begin_play_handoff :: "u64 \<Rightarrow> MusicProviderLifecycle \<Rightarrow> MusicDeadlineEffect option \<times> MusicProviderLifecycle" where
  "begin_play_handoff now s =
     (case epoch_begin (pl_handoff s) of
        (None, e) \<Rightarrow> (None, s\<lparr>pl_handoff := e\<rparr>)
      | (Some i, e) \<Rightarrow>
          (Some \<lparr>effect_id = i, effect_deadline = deadline_after now PLAY_HANDOFF_TIMEOUT_MS\<rparr>,
           s\<lparr>pl_handoff := e, pl_handoff_started_at := now\<rparr>))"

definition handoff_deadline :: "MusicProviderLifecycle \<Rightarrow> MonotonicTimestamp" where
  "handoff_deadline s = saturating_add_duration (pl_handoff_started_at s) PLAY_HANDOFF_TIMEOUT_MS"

definition finish_handoff_as :: "MusicTransportOutcome \<Rightarrow> LifecycleId \<Rightarrow> MusicProviderLifecycle
    \<Rightarrow> MusicTransportOutcome option \<times> MusicProviderLifecycle" where
  "finish_handoff_as outcome i s =
     (case epoch_finish (pl_handoff s) i of
        (m, e) \<Rightarrow> (if m = EpochCurrent then Some outcome else None, s\<lparr>pl_handoff := e\<rparr>))"

definition observe_play_handoff :: "LifecycleId \<Rightarrow> MusicPlaybackState \<Rightarrow> u64 \<Rightarrow> MusicProviderLifecycle
    \<Rightarrow> MusicTransportOutcome option \<times> MusicProviderLifecycle" where
  "observe_play_handoff i st at s =
     (if st \<noteq> MusicPlaying \<or> at < pl_handoff_started_at s \<or> handoff_deadline s \<le> at then (None, s)
      else finish_handoff_as OutcomeAccepted i s)"

definition expire_play_handoff :: "LifecycleId \<Rightarrow> u64 \<Rightarrow> MusicProviderLifecycle
    \<Rightarrow> MusicTransportOutcome option \<times> MusicProviderLifecycle" where
  "expire_play_handoff i now s =
     (if now < handoff_deadline s then (None, s) else finish_handoff_as OutcomeTimedOut i s)"

definition finish_play_handoff :: "LifecycleId \<Rightarrow> MusicProviderLifecycle \<Rightarrow> CallbackEpochMatch \<times> MusicProviderLifecycle" where
  "finish_play_handoff i s = (case epoch_finish (pl_handoff s) i of (m, e) \<Rightarrow> (m, s\<lparr>pl_handoff := e\<rparr>))"

definition begin_command_feedback :: "MusicProviderLifecycle \<Rightarrow> LifecycleId option \<times> MusicProviderLifecycle" where
  "begin_command_feedback s = (case epoch_begin (pl_feedback s) of (r, e) \<Rightarrow> (r, s\<lparr>pl_feedback := e\<rparr>))"

definition classify_command_feedback :: "MusicProviderLifecycle \<Rightarrow> LifecycleId \<Rightarrow> CallbackEpochMatch" where
  "classify_command_feedback s i = epoch_classify (pl_feedback s) i"

definition invalidate_command_feedback :: "MusicProviderLifecycle \<Rightarrow> MusicProviderLifecycle" where
  "invalidate_command_feedback s = s\<lparr>pl_feedback := epoch_invalidate (pl_feedback s)\<rparr>"

definition dismiss_command_feedback :: "LifecycleId \<Rightarrow> MusicProviderLifecycle \<Rightarrow> CallbackEpochMatch \<times> MusicProviderLifecycle" where
  "dismiss_command_feedback i s = (case epoch_finish (pl_feedback s) i of (m, e) \<Rightarrow> (m, s\<lparr>pl_feedback := e\<rparr>))"

definition observe_music :: "MusicSnapshot \<Rightarrow> MusicObservationTiming \<Rightarrow> MusicProviderLifecycle
    \<Rightarrow> MusicObservationOutcome \<times> MusicProviderLifecycle" where
  "observe_music snap timing s =
     (case tracker_observe snap timing (pl_observations s) of (r, o') \<Rightarrow> (r, s\<lparr>pl_observations := o'\<rparr>))"

definition retire_history_association :: "MusicProviderLifecycle
    \<Rightarrow> MusicUnsettledHistoryTransition list \<times> MusicProviderLifecycle" where
  "retire_history_association s =
     (case tracker_retire (pl_observations s) of (r, o') \<Rightarrow> (r, s\<lparr>pl_observations := o'\<rparr>))"

definition has_pending_history :: "MusicProviderLifecycle \<Rightarrow> bool" where
  "has_pending_history s = tracker_has_pending (pl_observations s)"

definition acknowledge_history_transition :: "LifecycleId \<Rightarrow> MusicProviderLifecycle
    \<Rightarrow> MusicHistoryTransitionAcknowledgement \<times> MusicProviderLifecycle" where
  "acknowledge_history_transition i s =
     (case tracker_acknowledge i (pl_observations s) of (r, o') \<Rightarrow> (r, s\<lparr>pl_observations := o'\<rparr>))"

definition reset_observation_correlation :: "MusicProviderLifecycle \<Rightarrow> MusicProviderLifecycle" where
  "reset_observation_correlation s = s\<lparr>pl_observations := tracker_reset (pl_observations s)\<rparr>"

definition reset_observation_baselines :: "MusicProviderLifecycle \<Rightarrow> MusicProviderLifecycle" where
  "reset_observation_baselines s = s\<lparr>pl_observations := reset_observations (pl_observations s)\<rparr>"

definition clear_pending_command_correlation :: "MusicProviderLifecycle \<Rightarrow> MusicProviderLifecycle" where
  "clear_pending_command_correlation s = s\<lparr>pl_observations := clear_pending_skips (pl_observations s)\<rparr>"

definition request_monitor :: "MusicMonitorRequest \<Rightarrow> MusicProviderLifecycle \<Rightarrow> MusicProviderLifecycle" where
  "request_monitor r s = s\<lparr>pl_monitor := monitor_request (pl_monitor s) r\<rparr>"

definition cancel_monitor :: "MusicProviderLifecycle \<Rightarrow> MusicTransportCompletion \<times> MusicProviderLifecycle" where
  "cancel_monitor s = retire_all_provider_work
     (s\<lparr>pl_monitor := monitor_cancel (pl_monitor s),
        pl_monitor_generation := epoch_invalidate (pl_monitor_generation s),
        pl_authorization := auth_invalidate (pl_authorization s)\<rparr>)"

definition begin_monitor :: "MusicProviderLifecycle \<Rightarrow> MusicMonitorEffect option \<times> MusicProviderLifecycle" where
  "begin_monitor s =
     (case pending_start (pl_monitor s) of None \<Rightarrow> (None, s)
      | Some start \<Rightarrow>
          (case epoch_begin (pl_monitor_generation s) of
             (None, e) \<Rightarrow> (None, s\<lparr>pl_monitor_generation := e\<rparr>)
           | (Some i, e) \<Rightarrow>
               (case take_start (pl_monitor s) of
                  (None, mon) \<Rightarrow> (None, s\<lparr>pl_monitor_generation := e, pl_monitor := mon\<rparr>)
                | (Some _, mon) \<Rightarrow>
                    (Some \<lparr>me_generation = i, me_start = start\<rparr>, s\<lparr>pl_monitor_generation := e, pl_monitor := mon\<rparr>))))"

definition classify_monitor :: "MusicProviderLifecycle \<Rightarrow> LifecycleId \<Rightarrow> CallbackEpochMatch" where
  "classify_monitor s i = epoch_classify (pl_monitor_generation s) i"

definition finish_monitor :: "LifecycleId \<Rightarrow> MusicProviderLifecycle \<Rightarrow> CallbackEpochMatch \<times> MusicProviderLifecycle" where
  "finish_monitor i s =
     (case epoch_finish (pl_monitor_generation s) i of (m, e) \<Rightarrow> (m, s\<lparr>pl_monitor_generation := e\<rparr>))"

definition next_monitor_poll :: "MusicProviderLifecycle \<Rightarrow> LifecycleId \<Rightarrow> MusicProviderWorkState \<Rightarrow> u64
    \<Rightarrow> MusicDeadlineEffect option" where
  "next_monitor_poll s i work now =
     (if epoch_classify (pl_monitor_generation s) i = EpochStale
         \<or> work = WorkCredentialsAvailable \<and> recovery_exhausted_at (pl_connection s) now
         \<or> work \<in> {WorkRequiresUserAction, WorkUnavailable}
      then None
      else Some \<lparr>effect_id = i, effect_deadline =
        deadline_after now (if work = WorkRemotePolling then 5000 else MONITOR_POLL_INTERVAL_MS)\<rparr>)"

definition suspend :: "MusicProviderLifecycle \<Rightarrow> MusicProviderSuspension \<times> MusicProviderLifecycle" where
  "suspend s =
     (let s1 = s\<lparr>pl_monitor := monitor_suspend (pl_monitor s),
                 pl_monitor_generation := epoch_invalidate (pl_monitor_generation s)\<rparr>;
          gap = has_gap (pl_ownership s1)
      in case cancel_current_transport s1 of
           (completion, s2) \<Rightarrow>
             (\<lparr>observation_gap = gap, cancelled_transport_request_id = finished_request_id completion\<rparr>,
              invalidate_provider_work s2))"

definition resume :: "MusicProviderLifecycle \<Rightarrow> MusicMonitorResume \<times> MusicProviderLifecycle" where
  "resume s = (case monitor_resume (pl_monitor s) of (r, mon) \<Rightarrow> (r, s\<lparr>pl_monitor := mon\<rparr>))"

definition begin_provider_session :: "MusicProviderLifecycle \<Rightarrow> LifecycleId option \<times> MusicProviderLifecycle" where
  "begin_provider_session s =
     (case retire_all_provider_work s of
        (_, s1) \<Rightarrow>
          let s2 = s1\<lparr>pl_feedback := epoch_invalidate (pl_feedback s1)\<rparr>
          in (case epoch_begin (pl_session s2) of
                (None, e) \<Rightarrow> (None, s2\<lparr>pl_session := e\<rparr>)
              | (Some i, e) \<Rightarrow> (Some i, s2\<lparr>pl_session := e, pl_ownership := OwnershipActive\<rparr>)))"

definition classify_provider_session :: "MusicProviderLifecycle \<Rightarrow> LifecycleId \<Rightarrow> CallbackEpochMatch" where
  "classify_provider_session s i = epoch_classify (pl_session s) i"

definition retire_provider_session :: "LifecycleId \<Rightarrow> MusicProviderLifecycle
    \<Rightarrow> MusicTransportCompletion \<times> MusicProviderLifecycle" where
  "retire_provider_session i s =
     (case epoch_finish (pl_session s) i of
        (EpochStale, e) \<Rightarrow> (TransportStale, s\<lparr>pl_session := e\<rparr>)
      | (EpochCurrent, e) \<Rightarrow>
          retire_all_provider_work (s\<lparr>pl_session := e, pl_feedback := epoch_invalidate (pl_feedback s)\<rparr>))"

definition begin_authorization :: "AuthorizationTransactionKind \<Rightarrow> MusicProviderLifecycle
    \<Rightarrow> LifecycleId option \<times> MusicProviderLifecycle" where
  "begin_authorization kind s =
     (case auth_begin (pl_authorization s) kind of (r, a) \<Rightarrow> (r, s\<lparr>pl_authorization := a\<rparr>))"

definition begin_authorization_effect :: "AuthorizationTransactionKind \<Rightarrow> u64 \<Rightarrow> MusicProviderLifecycle
    \<Rightarrow> MusicDeadlineEffect option \<times> MusicProviderLifecycle" where
  "begin_authorization_effect kind now s =
     (let deadline = (case kind of KindAuthorizing \<Rightarrow> - 1 | KindRenewing \<Rightarrow> deadline_after now AUTHORIZATION_TIMEOUT_MS)
      in case begin_authorization kind s of
           (None, s1) \<Rightarrow> (None, s1)
         | (Some i, s1) \<Rightarrow> (Some \<lparr>effect_id = i, effect_deadline = deadline\<rparr>, s1))"

definition classify_authorization :: "MusicProviderLifecycle \<Rightarrow> LifecycleId \<Rightarrow> AuthorizationTransactionMatch" where
  "classify_authorization s i = auth_classify (pl_authorization s) i"

definition finish_authorization :: "LifecycleId \<Rightarrow> MusicProviderLifecycle
    \<Rightarrow> AuthorizationTransactionMatch \<times> MusicProviderLifecycle" where
  "finish_authorization i s =
     (case auth_finish (pl_authorization s) i of (m, a) \<Rightarrow> (m, s\<lparr>pl_authorization := a\<rparr>))"

definition invalidate_authorization :: "MusicProviderLifecycle \<Rightarrow> MusicProviderLifecycle" where
  "invalidate_authorization s = s\<lparr>pl_authorization := auth_invalidate (pl_authorization s)\<rparr>"

definition begin_connection_attempt :: "u64 \<Rightarrow> MusicProviderLifecycle
    \<Rightarrow> MusicConnectionAttemptAdmission \<times> MusicProviderLifecycle" where
  "begin_connection_attempt now s =
     (let previous_id = callback_id (pl_connection s)
      in case begin_attempt (pl_connection s) now of
           (AttemptPending, c) \<Rightarrow> (AdmissionPending, s\<lparr>pl_connection := c\<rparr>)
         | (AttemptWaitingToRetry, c) \<Rightarrow> (AdmissionWaitingToRetry, s\<lparr>pl_connection := c\<rparr>)
         | (AttemptExhausted, c) \<Rightarrow> (AdmissionExhausted, s\<lparr>pl_connection := c\<rparr>)
         | (AttemptStarted i, c) \<Rightarrow>
             let s1 = s\<lparr>pl_connection := c\<rparr>
             in (case previous_id of
                   None \<Rightarrow> (AdmissionStarted \<lparr>cae_attempt_id = i, cae_transport = TransportStale\<rparr>, s1)
                 | Some p \<Rightarrow>
                     (case cancel_transport_for_connection_current p s1 of
                        (completion, s2) \<Rightarrow>
                          (AdmissionStarted \<lparr>cae_attempt_id = i, cae_transport = completion\<rparr>, s2))))"

definition classify_connection :: "MusicProviderLifecycle \<Rightarrow> LifecycleId \<Rightarrow> u64 \<Rightarrow> MusicConnectionCallback" where
  "classify_connection s i now = connection_classify_at (pl_connection s) i now"

definition connection_established :: "LifecycleId \<Rightarrow> u64 \<Rightarrow> MusicProviderLifecycle
    \<Rightarrow> LifecycleId option \<times> MusicProviderLifecycle" where
  "connection_established i now s =
     (case established_for_at (pl_connection s) i now of (r, c) \<Rightarrow> (r, s\<lparr>pl_connection := c\<rparr>))"

definition connection_failed_effect :: "LifecycleId \<Rightarrow> u64 \<Rightarrow> MusicProviderLifecycle
    \<Rightarrow> MusicConnectionEffect \<times> MusicProviderLifecycle" where
  "connection_failed_effect i now s = end_connection i now s"

definition connection_expired_effect :: "LifecycleId \<Rightarrow> u64 \<Rightarrow> MusicProviderLifecycle
    \<Rightarrow> MusicConnectionEffect \<times> MusicProviderLifecycle" where
  "connection_expired_effect i now s =
     (case expired_for (pl_connection s) i now of
        (callback, c) \<Rightarrow> finish_connection i callback (s\<lparr>pl_connection := c\<rparr>))"

definition connection_disconnected_effect :: "LifecycleId \<Rightarrow> u64 \<Rightarrow> MusicProviderLifecycle
    \<Rightarrow> MusicConnectionEffect \<times> MusicProviderLifecycle" where
  "connection_disconnected_effect i now s = end_connection i now s"

definition begin_player_state_request :: "u64 \<Rightarrow> MusicProviderLifecycle \<Rightarrow> LifecycleId option \<times> MusicProviderLifecycle" where
  "begin_player_state_request now s =
     (case player_begin (pl_player s) now of (r, p) \<Rightarrow> (r, s\<lparr>pl_player := p\<rparr>))"

definition complete_player_state_request :: "LifecycleId \<Rightarrow> u64 \<Rightarrow> MusicProviderLifecycle
    \<Rightarrow> MusicPlayerRequestCompletion \<times> MusicProviderLifecycle" where
  "complete_player_state_request i now s =
     (case player_complete (pl_player s) i now of (r, p) \<Rightarrow> (r, s\<lparr>pl_player := p\<rparr>))"

definition expire_player_state_request :: "LifecycleId \<Rightarrow> u64 \<Rightarrow> MusicProviderLifecycle
    \<Rightarrow> MusicPlayerRequestExpiration \<times> MusicProviderLifecycle" where
  "expire_player_state_request i now s =
     (case player_expire (pl_player s) i now of (r, p) \<Rightarrow> (r, s\<lparr>pl_player := p\<rparr>))"

definition complete_player_state_request_if_current :: "LifecycleId \<Rightarrow> ObservationRevision \<Rightarrow> u64
    \<Rightarrow> MusicProviderLifecycle \<Rightarrow> MusicPlayerRequestCompletion \<times> MusicProviderLifecycle" where
  "complete_player_state_request_if_current i revn now s =
     (case player_complete_if_current (pl_player s) i revn now of (r, p) \<Rightarrow> (r, s\<lparr>pl_player := p\<rparr>))"

definition mark_player_state_observed :: "u64 \<Rightarrow> MusicProviderLifecycle \<Rightarrow> MusicProviderLifecycle" where
  "mark_player_state_observed now s = s\<lparr>pl_player := mark_observed (pl_player s) now\<rparr>"

definition is_player_state_stale :: "MusicProviderLifecycle \<Rightarrow> u64 \<Rightarrow> bool" where
  "is_player_state_stale s now = player_is_stale (pl_player s) now"

definition begin_artwork_effect :: "LifecycleId \<Rightarrow> u64 \<Rightarrow> MusicProviderLifecycle
    \<Rightarrow> MusicDeadlineEffect option \<times> MusicProviderLifecycle" where
  "begin_artwork_effect gen now s =
     (if epoch_classify (pl_session s) gen = EpochStale then (None, s)
      else case artwork_begin (pl_artwork s) of
          (r, a) \<Rightarrow> (map_option (\<lambda>i. \<lparr>effect_id = i, effect_deadline = deadline_after now ARTWORK_TIMEOUT_MS\<rparr>) r,
             s\<lparr>pl_artwork := a\<rparr>))"

definition complete_artwork_request :: "LifecycleId \<Rightarrow> LifecycleId \<Rightarrow> MusicProviderLifecycle
    \<Rightarrow> MusicPlayerRequestCompletion \<times> MusicProviderLifecycle" where
  "complete_artwork_request gen i s =
     (if epoch_classify (pl_session s) gen = EpochStale then (CompletionStale, s)
      else case artwork_complete (pl_artwork s) i of (r, a) \<Rightarrow> (r, s\<lparr>pl_artwork := a\<rparr>))"

definition reset_artwork :: "MusicProviderLifecycle \<Rightarrow> MusicProviderLifecycle" where
  "reset_artwork s = s\<lparr>pl_artwork := artwork_reset (pl_artwork s),
     pl_artwork_retry := epoch_invalidate (pl_artwork_retry s)\<rparr>"

definition begin_artwork_retry_effect :: "LifecycleId \<Rightarrow> u64 \<Rightarrow> MusicProviderLifecycle
    \<Rightarrow> MusicDeadlineEffect option \<times> MusicProviderLifecycle" where
  "begin_artwork_retry_effect gen now s =
     (if epoch_classify (pl_session s) gen = EpochStale \<or> \<not> artwork_can_retry (pl_artwork s) then (None, s)
      else case epoch_begin (pl_artwork_retry s) of
          (r, e) \<Rightarrow> (map_option (\<lambda>i. \<lparr>effect_id = i, effect_deadline = deadline_after now ARTWORK_RETRY_DELAY_MS\<rparr>) r,
             s\<lparr>pl_artwork_retry := e\<rparr>))"

definition complete_artwork_retry :: "LifecycleId \<Rightarrow> LifecycleId \<Rightarrow> MusicProviderLifecycle
    \<Rightarrow> CallbackEpochMatch \<times> MusicProviderLifecycle" where
  "complete_artwork_retry gen i s =
     (if epoch_classify (pl_session s) gen = EpochStale then (EpochStale, s)
      else case epoch_finish (pl_artwork_retry s) i of (m, e) \<Rightarrow> (m, s\<lparr>pl_artwork_retry := e\<rparr>))"

definition owner_is_current :: "MusicProviderLifecycle \<Rightarrow> MusicTransportOwner \<Rightarrow> bool" where
  "owner_is_current s owner =
     (case owner of
        OwnerProvider gen \<Rightarrow> epoch_classify (pl_session s) gen = EpochCurrent
      | OwnerConnection gen conn \<Rightarrow> epoch_classify (pl_session s) gen = EpochCurrent
          \<and> is_established (pl_connection s) conn)"

definition begin_transport_effect :: "MusicTransportOwner \<Rightarrow> MusicCommand \<Rightarrow> u64 \<Rightarrow> MusicProviderLifecycle
    \<Rightarrow> MusicDeadlineEffect option \<times> MusicProviderLifecycle" where
  "begin_transport_effect owner command now s =
     (if \<not> owner_is_current s owner then (None, s)
      else case transport_begin owner command now (pl_transport s) of
          (None, t) \<Rightarrow> (None, s\<lparr>pl_transport := t\<rparr>)
        | (Some p, t) \<Rightarrow>
            let s1 = s\<lparr>pl_transport := t\<rparr>;
                s2 = (if command_is_skip command
                  then s1\<lparr>pl_observations := issue_skip (pt_request_id p) (pt_started_at p) (pl_observations s1)\<rparr> else s1)
            in (Some \<lparr>effect_id = pt_request_id p, effect_deadline = deadline_after now TRANSPORT_TIMEOUT_MS\<rparr>, s2))"

definition finish_transport :: "LifecycleId \<Rightarrow> LifecycleId \<Rightarrow> MusicTransportOutcome \<Rightarrow> MusicProviderLifecycle
    \<Rightarrow> MusicTransportCompletion \<times> MusicProviderLifecycle" where
  "finish_transport gen i outcome s =
     (case transport_pending (pl_transport s) of None \<Rightarrow> (TransportStale, s)
      | Some p \<Rightarrow>
          if owner_generation (pt_owner p) \<noteq> gen \<or> pt_request_id p \<noteq> i then (TransportStale, s)
          else (case pt_owner p of
              OwnerConnection _ conn \<Rightarrow>
                if \<not> is_established (pl_connection s) conn
                then finish_transport_unchecked gen i OutcomeCancelled s
                else finish_transport_unchecked gen i outcome s
            | OwnerProvider _ \<Rightarrow> finish_transport_unchecked gen i outcome s))"

definition expire_transport :: "LifecycleId \<Rightarrow> u64 \<Rightarrow> MusicProviderLifecycle
    \<Rightarrow> MusicTransportCompletion \<times> MusicProviderLifecycle" where
  "expire_transport gen now s =
     (case transport_pending (pl_transport s) of None \<Rightarrow> (TransportStale, s)
      | Some p \<Rightarrow>
          if owner_generation (pt_owner p) \<noteq> gen then (TransportStale, s)
          else if saturating_duration_since now (pt_started_at p) < TRANSPORT_TIMEOUT_MS then (TransportStillPending, s)
          else finish_transport_unchecked gen (pt_request_id p) OutcomeTimedOut s)"

definition cancel_transport :: "LifecycleId \<Rightarrow> LifecycleId \<Rightarrow> MusicProviderLifecycle
    \<Rightarrow> MusicTransportCompletion \<times> MusicProviderLifecycle" where
  "cancel_transport gen i s = finish_transport_unchecked gen i OutcomeCancelled s"

section \<open>Runs\<close>

datatype (plugins only: code) ProviderCall =
    PcBeginHandoff u64 | PcObserveHandoff LifecycleId MusicPlaybackState u64 | PcExpireHandoff LifecycleId u64
  | PcFinishHandoff LifecycleId | PcBeginFeedback | PcInvalidateFeedback | PcDismissFeedback LifecycleId
  | PcObserve MusicSnapshot MusicObservationTiming | PcRetireHistory | PcAcknowledge LifecycleId
  | PcResetCorrelation | PcResetBaselines | PcClearCommands
  | PcRequestMonitor MusicMonitorRequest | PcCancelMonitor | PcBeginMonitor | PcFinishMonitor LifecycleId
  | PcSuspend | PcResume | PcBeginSession | PcRetireSession LifecycleId
  | PcBeginAuthorization AuthorizationTransactionKind u64 | PcFinishAuthorization LifecycleId | PcInvalidateAuthorization
  | PcBeginAttempt u64 | PcEstablished LifecycleId u64 | PcFailed LifecycleId u64 | PcExpired LifecycleId u64
  | PcDisconnected LifecycleId u64
  | PcBeginPlayer u64 | PcCompletePlayer LifecycleId u64 | PcExpirePlayer LifecycleId u64
  | PcCompletePlayerIfCurrent LifecycleId ObservationRevision u64 | PcMarkObserved u64
  | PcBeginArtwork LifecycleId u64 | PcCompleteArtwork LifecycleId LifecycleId | PcResetArtwork
  | PcBeginArtworkRetry LifecycleId u64 | PcCompleteArtworkRetry LifecycleId LifecycleId
  | PcBeginTransport MusicTransportOwner MusicCommand u64
  | PcFinishTransport LifecycleId LifecycleId MusicTransportOutcome
  | PcExpireTransport LifecycleId u64 | PcCancelTransport LifecycleId LifecycleId

text \<open>
  What a call tells about transport commands: the one it begins, the one it reports as ended and
  the one it ends without reporting it.
\<close>

record transport_log =
  log_begun :: "LifecycleId option"
  log_ended :: "(LifecycleId \<times> MusicTransportOutcome) option"
  log_dropped :: "LifecycleId option"

definition log_none :: transport_log where
  "log_none = \<lparr>log_begun = None, log_ended = None, log_dropped = None\<rparr>"

fun ending :: "MusicTransportCompletion \<Rightarrow> (LifecycleId \<times> MusicTransportOutcome) option" where
  "ending (TransportFinished i outcome) = Some (i, outcome)"
| "ending _ = None"

definition log_ending :: "MusicTransportCompletion \<Rightarrow> transport_log" where
  "log_ending c = log_none\<lparr>log_ended := ending c\<rparr>"

fun admission_transport :: "MusicConnectionAttemptAdmission \<Rightarrow> MusicTransportCompletion" where
  "admission_transport (AdmissionStarted e) = cae_transport e"
| "admission_transport _ = TransportStale"

primrec provider_call :: "MusicProviderLifecycle \<Rightarrow> ProviderCall \<Rightarrow> transport_log \<times> MusicProviderLifecycle" where
  "provider_call s (PcBeginHandoff now) = (log_none, snd (begin_play_handoff now s))"
| "provider_call s (PcObserveHandoff i st at) = (log_none, snd (observe_play_handoff i st at s))"
| "provider_call s (PcExpireHandoff i now) = (log_none, snd (expire_play_handoff i now s))"
| "provider_call s (PcFinishHandoff i) = (log_none, snd (finish_play_handoff i s))"
| "provider_call s PcBeginFeedback = (log_none, snd (begin_command_feedback s))"
| "provider_call s PcInvalidateFeedback = (log_none, invalidate_command_feedback s)"
| "provider_call s (PcDismissFeedback i) = (log_none, snd (dismiss_command_feedback i s))"
| "provider_call s (PcObserve snap timing) = (log_none, snd (observe_music snap timing s))"
| "provider_call s PcRetireHistory = (log_none, snd (retire_history_association s))"
| "provider_call s (PcAcknowledge i) = (log_none, snd (acknowledge_history_transition i s))"
| "provider_call s PcResetCorrelation = (log_none, reset_observation_correlation s)"
| "provider_call s PcResetBaselines = (log_none, reset_observation_baselines s)"
| "provider_call s PcClearCommands = (log_none, clear_pending_command_correlation s)"
| "provider_call s (PcRequestMonitor r) = (log_none, request_monitor r s)"
| "provider_call s PcCancelMonitor = (case cancel_monitor s of (c, s') \<Rightarrow> (log_ending c, s'))"
| "provider_call s PcBeginMonitor = (log_none, snd (begin_monitor s))"
| "provider_call s (PcFinishMonitor i) = (log_none, snd (finish_monitor i s))"
| "provider_call s PcSuspend =
     (case suspend s of (r, s') \<Rightarrow>
        (log_none\<lparr>log_ended := map_option (\<lambda>i. (i, OutcomeCancelled)) (cancelled_transport_request_id r)\<rparr>, s'))"
| "provider_call s PcResume = (log_none, snd (resume s))"
| "provider_call s PcBeginSession =
     (log_none\<lparr>log_dropped := finished_request_id (fst (retire_all_provider_work s))\<rparr>, snd (begin_provider_session s))"
| "provider_call s (PcRetireSession i) = (case retire_provider_session i s of (c, s') \<Rightarrow> (log_ending c, s'))"
| "provider_call s (PcBeginAuthorization kind now) = (log_none, snd (begin_authorization_effect kind now s))"
| "provider_call s (PcFinishAuthorization i) = (log_none, snd (finish_authorization i s))"
| "provider_call s PcInvalidateAuthorization = (log_none, invalidate_authorization s)"
| "provider_call s (PcBeginAttempt now) =
     (case begin_connection_attempt now s of (r, s') \<Rightarrow> (log_ending (admission_transport r), s'))"
| "provider_call s (PcEstablished i now) = (log_none, snd (connection_established i now s))"
| "provider_call s (PcFailed i now) =
     (case connection_failed_effect i now s of (r, s') \<Rightarrow> (log_ending (ce_transport r), s'))"
| "provider_call s (PcExpired i now) =
     (case connection_expired_effect i now s of (r, s') \<Rightarrow> (log_ending (ce_transport r), s'))"
| "provider_call s (PcDisconnected i now) =
     (case connection_disconnected_effect i now s of (r, s') \<Rightarrow> (log_ending (ce_transport r), s'))"
| "provider_call s (PcBeginPlayer now) = (log_none, snd (begin_player_state_request now s))"
| "provider_call s (PcCompletePlayer i now) = (log_none, snd (complete_player_state_request i now s))"
| "provider_call s (PcExpirePlayer i now) = (log_none, snd (expire_player_state_request i now s))"
| "provider_call s (PcCompletePlayerIfCurrent i revn now) =
     (log_none, snd (complete_player_state_request_if_current i revn now s))"
| "provider_call s (PcMarkObserved now) = (log_none, mark_player_state_observed now s)"
| "provider_call s (PcBeginArtwork gen now) = (log_none, snd (begin_artwork_effect gen now s))"
| "provider_call s (PcCompleteArtwork gen i) = (log_none, snd (complete_artwork_request gen i s))"
| "provider_call s PcResetArtwork = (log_none, reset_artwork s)"
| "provider_call s (PcBeginArtworkRetry gen now) = (log_none, snd (begin_artwork_retry_effect gen now s))"
| "provider_call s (PcCompleteArtworkRetry gen i) = (log_none, snd (complete_artwork_retry gen i s))"
| "provider_call s (PcBeginTransport owner command now) =
     (case begin_transport_effect owner command now s of
        (r, s') \<Rightarrow> (log_none\<lparr>log_begun := map_option effect_id r\<rparr>, s'))"
| "provider_call s (PcFinishTransport gen i outcome) =
     (case finish_transport gen i outcome s of (c, s') \<Rightarrow> (log_ending c, s'))"
| "provider_call s (PcExpireTransport gen now) =
     (case expire_transport gen now s of (c, s') \<Rightarrow> (log_ending c, s'))"
| "provider_call s (PcCancelTransport gen i) = (case cancel_transport gen i s of (c, s') \<Rightarrow> (log_ending c, s'))"

section \<open>Invariant\<close>

fun transport_last :: "MusicTransportState \<Rightarrow> LifecycleId" where
  "transport_last (TransportAvailable l) = l"
| "transport_last (TransportPending p) = pt_request_id p"

text \<open>A skip that is still undecided is the pending command.\<close>

definition skips_owned :: "MusicTransportState \<Rightarrow> MusicObservationTracker \<Rightarrow> bool" where
  "skips_owned t o' \<longleftrightarrow> (\<forall>q \<in> set (pending_skips o').
     skip_transport_id q \<le> transport_last t
     \<and> (skip_outcome q = SkipPending \<longrightarrow>
          is_some_and (transport_pending t) (\<lambda>p. pt_request_id p = skip_transport_id q \<and> command_is_skip (pt_command p))))"

definition work_ok :: "MusicTransportState \<Rightarrow> MusicObservationTracker \<Rightarrow> bool" where
  "work_ok t o' \<longleftrightarrow> tracker_ok o' \<and> skips_owned t o'"

definition pending_owned :: "CallbackEpoch \<Rightarrow> MusicConnection \<Rightarrow> MusicTransportState \<Rightarrow> bool" where
  "pending_owned e c t \<longleftrightarrow> is_none_or (transport_pending t) (\<lambda>p.
     epoch_active e = Some (owner_generation (pt_owner p))
     \<and> (case pt_owner p of OwnerConnection _ conn \<Rightarrow> connection_state c = Connected conn | OwnerProvider _ \<Rightarrow> True))"

definition provider_ok :: "MusicProviderLifecycle \<Rightarrow> bool" where
  "provider_ok s \<longleftrightarrow> work_ok (pl_transport s) (pl_observations s)
     \<and> pending_owned (pl_session s) (pl_connection s) (pl_transport s)"

lemma transport_pending_simps [simp]:
  "transport_pending (TransportPending p) = Some p" "transport_pending (TransportAvailable l) = None"
  by (simp_all add: transport_pending_def)

lemma pending_owned_idle [simp]: "pending_owned e c (TransportAvailable l)"
  by (simp add: pending_owned_def)

text \<open>Ending the pending command.\<close>

lemma finish_unchecked_eq:
  assumes "pl_transport s = TransportPending p" and "owner_generation (pt_owner p) = gen" and "pt_request_id p = i"
  shows "finish_transport_unchecked gen i outcome s = (TransportFinished i outcome,
    s\<lparr>pl_transport := TransportAvailable i, pl_observations :=
      (if command_is_skip (pt_command p)
       then finish_skip i (if outcome = OutcomeAccepted then SkipAccepted else SkipRejected) (pl_observations s)
       else pl_observations s)\<rparr>)"
  using assms by (simp add: finish_transport_unchecked_def transport_finish_def Let_def)

lemma finish_unchecked_stale:
  assumes "\<And>p. pl_transport s = TransportPending p \<Longrightarrow> owner_generation (pt_owner p) \<noteq> gen \<or> pt_request_id p \<noteq> i"
  shows "finish_transport_unchecked gen i outcome s = (TransportStale, s)"
  using assms by (cases "pl_transport s") (auto simp: finish_transport_unchecked_def transport_finish_def)

lemma work_ok_finish:
  assumes ok: "work_ok (TransportPending p) o'" and oc: "outcome \<noteq> SkipPending"
  shows "work_ok (TransportAvailable (pt_request_id p))
    (if command_is_skip (pt_command p) then finish_skip (pt_request_id p) outcome o' else o')"
proof (cases "command_is_skip (pt_command p)")
  case True
  have "distinct (skip_ids o')"
    using ok by (simp add: work_ok_def tracker_ok_def skips_ok_def)
  note skips = finish_skip_skips [OF this oc, where t = "pt_request_id p"]
  have "skips_owned (TransportAvailable (pt_request_id p)) (finish_skip (pt_request_id p) outcome o')"
    unfolding skips_owned_def
  proof
    fix q assume q: "q \<in> set (pending_skips (finish_skip (pt_request_id p) outcome o'))"
    show "skip_transport_id q \<le> transport_last (TransportAvailable (pt_request_id p)) \<and>
        (skip_outcome q = SkipPending \<longrightarrow> is_some_and (transport_pending (TransportAvailable (pt_request_id p)))
          (\<lambda>p. pt_request_id p = skip_transport_id q \<and> command_is_skip (pt_command p)))"
      using skips [OF q] ok by (auto simp: work_ok_def skips_owned_def)
  qed
  then show ?thesis
    using ok oc True by (simp add: work_ok_def finish_skip_ok)
next
  case False
  then show ?thesis
    using ok by (auto simp: work_ok_def skips_owned_def)
qed

definition ends_transport :: "MusicTransportCompletion \<Rightarrow> MusicTransportState \<Rightarrow> MusicTransportState \<Rightarrow> bool" where
  "ends_transport c t t' \<longleftrightarrow> transport_last t' = transport_last t
     \<and> map_option pt_request_id (transport_pending t) =
       (case ending c of None \<Rightarrow> map_option pt_request_id (transport_pending t') | Some (i, _) \<Rightarrow> Some i)
     \<and> (ending c \<noteq> None \<longrightarrow> transport_pending t' = None) \<and> (ending c = None \<longrightarrow> t' = t)"

lemma finish_unchecked_work:
  assumes "finish_transport_unchecked gen i outcome s = (c, s')" and "work_ok (pl_transport s) (pl_observations s)"
  shows "work_ok (pl_transport s') (pl_observations s')" "ends_transport c (pl_transport s) (pl_transport s')"
    "pl_session s' = pl_session s" "pl_connection s' = pl_connection s"
proof -
  consider (hit) p where "pl_transport s = TransportPending p" "owner_generation (pt_owner p) = gen" "pt_request_id p = i"
    | (miss) "finish_transport_unchecked gen i outcome s = (TransportStale, s)"
    using finish_unchecked_stale [of s gen i outcome] by blast
  then have "work_ok (pl_transport s') (pl_observations s') \<and> ends_transport c (pl_transport s) (pl_transport s')
      \<and> pl_session s' = pl_session s \<and> pl_connection s' = pl_connection s"
  proof cases
    case hit
    show ?thesis
      using assms finish_unchecked_eq [OF hit, of outcome] hit
        work_ok_finish [of p "pl_observations s" SkipAccepted] work_ok_finish [of p "pl_observations s" SkipRejected]
      by (auto simp: ends_transport_def)
  next
    case miss
    then show ?thesis
      using assms by (simp add: ends_transport_def)
  qed
  then show "work_ok (pl_transport s') (pl_observations s')" "ends_transport c (pl_transport s) (pl_transport s')"
    "pl_session s' = pl_session s" "pl_connection s' = pl_connection s"
    by simp_all
qed

lemma cancel_current_work:
  assumes "cancel_current_transport s = (c, s')" and "work_ok (pl_transport s) (pl_observations s)"
  shows "work_ok (pl_transport s') (pl_observations s')" "ends_transport c (pl_transport s) (pl_transport s')"
    "pl_session s' = pl_session s" "pl_connection s' = pl_connection s" "transport_pending (pl_transport s') = None"
proof -
  have "work_ok (pl_transport s') (pl_observations s') \<and> ends_transport c (pl_transport s) (pl_transport s')
      \<and> pl_session s' = pl_session s \<and> pl_connection s' = pl_connection s \<and> transport_pending (pl_transport s') = None"
  proof (cases "pl_transport s")
    case (TransportAvailable l)
    then show ?thesis
      using assms by (auto simp: cancel_current_transport_def ends_transport_def)
  next
    case (TransportPending p)
    then have eq: "finish_transport_unchecked (owner_generation (pt_owner p)) (pt_request_id p) OutcomeCancelled s = (c, s')"
      using assms(1) by (simp add: cancel_current_transport_def)
    moreover have "ending c \<noteq> None"
      using eq finish_unchecked_eq [OF TransportPending refl refl, of OutcomeCancelled] by auto
    ultimately show ?thesis
      using finish_unchecked_work [OF eq assms(2)] by (simp add: ends_transport_def)
  qed
  then show "work_ok (pl_transport s') (pl_observations s')" "ends_transport c (pl_transport s) (pl_transport s')"
    "pl_session s' = pl_session s" "pl_connection s' = pl_connection s" "transport_pending (pl_transport s') = None"
    by simp_all
qed

lemma clear_skips_work: "tracker_ok o' \<Longrightarrow> work_ok t (clear_pending_skips o')"
  by (simp add: work_ok_def clear_skips_ok skips_owned_def clear_skips_none)

lemma pending_owned_none: "transport_pending t = None \<Longrightarrow> pending_owned e c t"
  by (simp add: pending_owned_def)

lemma retire_all_work:
  assumes "retire_all_provider_work s = (c, s')" and "work_ok (pl_transport s) (pl_observations s)"
  shows "provider_ok s'" "ends_transport c (pl_transport s) (pl_transport s')" "transport_pending (pl_transport s') = None"
    "work_ok (pl_transport s') (pl_observations s')"
proof -
  obtain s1 where s1: "cancel_current_transport s = (c, s1)" "s' = invalidate_provider_work s1"
    using assms(1) by (auto simp: retire_all_provider_work_def split: prod.splits)
  note w = cancel_current_work [OF s1(1) assms(2)]
  show "ends_transport c (pl_transport s) (pl_transport s')" "transport_pending (pl_transport s') = None"
    using w by (simp_all add: s1(2) invalidate_provider_work_def)
  show "work_ok (pl_transport s') (pl_observations s')"
    using clear_skips_work [of "pl_observations s1"] w(1) by (simp add: s1(2) invalidate_provider_work_def work_ok_def)
  then show "provider_ok s'"
    using \<open>transport_pending (pl_transport s') = None\<close> by (simp add: provider_ok_def pending_owned_none)
qed

text \<open>A step of the tracker that only forgets or marks skips.\<close>

definition skips_from :: "MusicObservationTracker \<Rightarrow> MusicObservationTracker \<Rightarrow> bool" where
  "skips_from o1 o2 \<longleftrightarrow> (\<forall>q \<in> set (pending_skips o2). \<exists>p \<in> set (pending_skips o1).
     skip_transport_id p = skip_transport_id q \<and> skip_outcome p = skip_outcome q)"

lemma skips_from_refl [simp]: "skips_from o' o'"
  by (auto simp: skips_from_def)

lemma skips_from_trans: "skips_from o1 o2 \<Longrightarrow> skips_from o2 o3 \<Longrightarrow> skips_from o1 o3"
  unfolding skips_from_def by metis

lemma skips_owned_from:
  assumes "skips_owned t o1" "skips_from o1 o2"
  shows "skips_owned t o2"
  unfolding skips_owned_def
proof
  fix q assume "q \<in> set (pending_skips o2)"
  then obtain p where p: "p \<in> set (pending_skips o1)" "skip_transport_id p = skip_transport_id q" "skip_outcome p = skip_outcome q"
    using assms(2) unfolding skips_from_def by blast
  show "skip_transport_id q \<le> transport_last t
      \<and> (skip_outcome q = SkipPending \<longrightarrow>
        is_some_and (transport_pending t) (\<lambda>p. pt_request_id p = skip_transport_id q \<and> command_is_skip (pt_command p)))"
    using bspec [OF assms(1) [unfolded skips_owned_def] p(1)] unfolding p(2,3) .
qed

lemma skips_from_subset: "set (pending_skips o2) \<subseteq> set (pending_skips o1) \<Longrightarrow> skips_from o1 o2"
  by (auto simp: skips_from_def)

lemma reject_from: "tracker_ok o' \<Longrightarrow> skips_from o' (reject_skips ts o')"
  using reject_skips_skips [of o' ts] by (intro skips_from_subset) blast

lemma finish_rejected_from: "tracker_ok o' \<Longrightarrow> skips_from o' (finish_skip t SkipRejected o')"
  using reject_from [of o' "[t]"] by (simp add: reject_skips_def)

lemma set_update_from:
  assumes "\<And>p. p \<in> set (pending_skips o2) \<Longrightarrow> p \<in> set (pending_skips o1)
    \<or> (\<exists>q \<in> set (pending_skips o1). skip_transport_id q = skip_transport_id p \<and> skip_outcome q = skip_outcome p)"
  shows "skips_from o1 o2"
  using assms unfolding skips_from_def by blast

lemma push_history_skips [simp]: "pending_skips (push_history snap timing kind o') = pending_skips o'"
  by (simp add: push_history_def split: option.split)

lemma enqueue_from:
  assumes idx: "\<And>i. skip_index = Some i \<Longrightarrow> \<exists>as p bs. pending_skips o' = as @ p # bs \<and> length as = i"
  shows "skips_from o' (enqueue_observation_transition snap timing tr rj skip_index o')"
proof (cases "tr = Some EventSkip \<and> skip_index \<noteq> None")
  case False
  then have "pending_skips (enqueue_observation_transition snap timing tr rj skip_index o') = pending_skips o'"
    by (auto simp: enqueue_observation_transition_def split: option.split)
  then show ?thesis
    by (simp add: skips_from_subset)
next
  case True
  then obtain as p bs where i: "skip_index = Some (length as)" and p: "pending_skips o' = as @ p # bs"
    using idx by blast
  have "set (pending_skips (enqueue_observation_transition snap timing tr rj skip_index o')) \<subseteq>
      set as \<union> {p\<lparr>skip_matched := True\<rparr>} \<union> set bs"
    using True i p
    by (auto simp: enqueue_observation_transition_def Let_def split: SkipCommandOutcome.splits if_splits)
  then show ?thesis
    using p by (intro set_update_from) auto
qed

lemma resolve_unchanged_from:
  assumes ok: "tracker_ok o'" and idx: "\<And>i. skip_index = Some i \<Longrightarrow> tr \<noteq> Some EventSkip \<Longrightarrow>
      \<exists>as p bs. pending_skips o' = as @ p # bs \<and> length as = i"
  shows "skips_from o' (resolve_unchanged_skip snap skip_index tr o')"
proof (cases "skip_index = None \<or> tr = Some EventSkip")
  case True
  then show ?thesis
    by (auto simp: resolve_unchanged_skip_def split: option.split)
next
  case False
  then obtain i where "skip_index = Some i" "tr \<noteq> Some EventSkip"
    by auto
  then obtain as p bs where i: "skip_index = Some (length as)" and p: "pending_skips o' = as @ p # bs"
    using idx by blast
  define o1 where "o1 n = o'\<lparr>pending_skips := as @ p\<lparr>skip_remaining := n\<rparr> # bs\<rparr>" for n
  have o1: "tracker_ok (o1 n)" "skips_from o' (o1 n)" for n
    using ok p by (auto simp: o1_def tracker_ok_def skips_ok_def skip_ids_def held_ok_def history_ok_def skips_from_def)
  show ?thesis
    using False i p ok o1 skips_from_trans [OF o1(2) finish_rejected_from [OF o1(1)]]
    by (auto simp: resolve_unchanged_skip_def Let_def o1_def [symmetric] finish_rejected_from)
qed

lemma observe_from:
  assumes ok: "tracker_ok o'"
  shows "skips_from o' (snd (tracker_observe snap timing o'))"
proof -
  define previous where "previous = tracker_latest o' (snap_provider snap)"
  define s1 where "s1 = expire_skips (snap_observed_at snap) o'"
  define idx where "idx = list_position (unmatched_at (snap_observed_at snap)) (pending_skips s1)"
  define tr where "tr = classify_transition previous snap (is_some idx)"
  define rj where "rj = (if is_some idx then classify_transition previous snap False else None)"
  define s2 where "s2 = enqueue_observation_transition snap timing tr rj idx s1"
  have s1: "tracker_ok s1" "skips_from o' s1"
    using ok by (simp_all add: s1_def expire_skips_def reject_from reject_skips_ok)
  have at: "\<exists>as p bs. pending_skips s1 = as @ p # bs \<and> length as = i \<and> \<not> skip_matched p" if "idx = Some i" for i
    using that unfolding idx_def by (rule list_position_Some) (auto simp: unmatched_at_def)
  have fits: "is_none_or tr (\<lambda>kind. valid_for_state kind (snap_state snap))"
    "is_none_or rj (\<lambda>kind. valid_for_state kind (snap_state snap))"
    using classify_fits [of previous snap] by (cases tr; cases rj; simp add: tr_def rj_def split: if_splits)+
  have "skips_from o' (replace_latest snap (resolve_unchanged_skip snap idx tr s2))"
    if "\<not> (is_some tr \<and> MAX_MUSIC_TIMELINE_EVENTS \<le> length (pending_history s1))"
  proof -
    have s2: "tracker_ok s2"
      unfolding s2_def using s1 that at fits by (intro enqueue_ok) (auto simp: is_some_iff)
    have at2: "\<exists>as p bs. pending_skips s2 = as @ p # bs \<and> length as = i" if "idx = Some i" "tr \<noteq> Some EventSkip" for i
      using at [OF that(1)] enqueue_skips [OF that(2), of snap timing rj idx s1] by (auto simp: s2_def)
    have "skips_from s1 s2"
      unfolding s2_def by (rule enqueue_from) (use at in blast)
    moreover have "skips_from s2 (resolve_unchanged_skip snap idx tr s2)"
      by (rule resolve_unchanged_from [OF s2 at2])
    ultimately have "skips_from o' (resolve_unchanged_skip snap idx tr s2)"
      using s1(2) skips_from_trans by blast
    then show ?thesis
      by (simp add: skips_from_def replace_latest_def split: MusicProvider.split)
  qed
  then show ?thesis
    using s1(2) unfolding tracker_observe_def Let_def previous_def [symmetric] s1_def [symmetric] idx_def [symmetric]
      tr_def [symmetric] rj_def [symmetric] s2_def [symmetric]
    by simp
qed

lemma tracker_work:
  assumes "work_ok t o'"
  shows "work_ok t (snd (tracker_observe snap timing o'))" "work_ok t (snd (tracker_acknowledge i o'))"
    "work_ok t (reset_observations o')" "work_ok t (clear_pending_skips o')" "work_ok t (tracker_reset o')"
    "work_ok t (snd (tracker_retire o'))"
proof -
  have ok: "tracker_ok o'" and own: "skips_owned t o'"
    using assms by (simp_all add: work_ok_def)
  show "work_ok t (snd (tracker_observe snap timing o'))"
    using ok own by (simp add: work_ok_def observe_ok skips_owned_from [OF own observe_from])
  have "pending_skips (snd (tracker_acknowledge i o')) = pending_skips o'"
    by (simp add: tracker_acknowledge_def split: list.split)
  then show "work_ok t (snd (tracker_acknowledge i o'))"
    using ok own by (simp add: work_ok_def acknowledge_ok skips_owned_def)
  show "work_ok t (reset_observations o')"
    using ok own by (simp add: work_ok_def skips_owned_def) (simp add: reset_observations_def)
  show "work_ok t (clear_pending_skips o')"
    by (rule clear_skips_work [OF ok])
  have reset: "work_ok t (tracker_reset x)" if "tracker_ok x" for x
    using clear_skips_work [of "reset_observations x" t] that
    by (simp add: work_ok_def tracker_reset_ok) (simp add: tracker_reset_def skips_owned_def)
  then show "work_ok t (tracker_reset o')" "work_ok t (snd (tracker_retire o'))"
    using ok clear_history_ok [OF ok] by (simp_all add: tracker_retire_def)
qed

section \<open>Every call\<close>

lemma epoch_classify_active: "epoch_classify e i = EpochCurrent \<longleftrightarrow> epoch_active e = Some i"
  by (simp add: epoch_classify_def epoch_active_def split: CallbackEpochState.split)

text \<open>
  The effect of a call on transport commands: the invariant is kept, and what was pending or is
  begun has ended, was dropped or is pending afterwards.
\<close>

definition log_balanced :: "MusicTransportState \<Rightarrow> transport_log \<Rightarrow> MusicTransportState \<Rightarrow> bool" where
  "log_balanced t l t' \<longleftrightarrow>
     (if log_begun l \<noteq> None
      then transport_pending t = None \<and> log_ended l = None \<and> log_dropped l = None
        \<and> log_begun l = map_option pt_request_id (transport_pending t') \<and> lifecycle_id_next (transport_last t) = log_begun l
      else transport_last t' = transport_last t
        \<and> (if log_ended l = None \<and> log_dropped l = None
           then map_option pt_request_id (transport_pending t') = map_option pt_request_id (transport_pending t)
           else transport_pending t' = None \<and> transport_pending t \<noteq> None
             \<and> (log_ended l = None \<or> log_dropped l = None)
             \<and> (log_ended l \<noteq> None \<longrightarrow> map_option fst (log_ended l) = map_option pt_request_id (transport_pending t))
             \<and> (log_dropped l \<noteq> None \<longrightarrow> log_dropped l = map_option pt_request_id (transport_pending t))))"

definition call_ok :: "MusicProviderLifecycle \<Rightarrow> transport_log \<times> MusicProviderLifecycle \<Rightarrow> bool" where
  "call_ok s r \<longleftrightarrow> provider_ok (snd r) \<and> log_balanced (pl_transport s) (fst r) (pl_transport (snd r))"

lemma log_balanced_refl: "log_balanced t log_none t"
  by (simp add: log_balanced_def log_none_def)

lemma ends_transport_cases:
  assumes "ends_transport c t t'"
  obtains (none) "ending c = None" "t' = t"
    | (some) i outcome p where "c = TransportFinished i outcome" "t = TransportPending p" "pt_request_id p = i"
      "transport_pending t' = None" "transport_last t' = i"
proof (cases "ending c")
  case None
  then show thesis
    using assms none by (simp add: ends_transport_def)
next
  case (Some r)
  then obtain i outcome where c: "c = TransportFinished i outcome"
    by (cases c) auto
  then have "map_option pt_request_id (transport_pending t) = Some i"
    using assms by (simp add: ends_transport_def)
  then obtain p where "t = TransportPending p" "pt_request_id p = i"
    by (cases t) auto
  then show thesis
    using some [OF c] assms c by (simp add: ends_transport_def)
qed

lemma log_balanced_ends: "ends_transport c t t' \<Longrightarrow> log_balanced t (log_ending c) t'"
proof (erule ends_transport_cases)
  assume "ending c = None" "t' = t"
  then have "log_ending c = log_none"
    by (simp add: log_ending_def log_none_def)
  then show "log_balanced t (log_ending c) t'"
    using \<open>t' = t\<close> by (simp add: log_balanced_refl)
qed (simp add: log_balanced_def log_ending_def log_none_def)

text \<open>A call that leaves the four parts of the invariant alone.\<close>

lemma call_ok_local:
  "provider_ok s \<Longrightarrow> pl_transport s' = pl_transport s \<Longrightarrow> pl_observations s' = pl_observations s \<Longrightarrow>
     pl_session s' = pl_session s \<Longrightarrow> pl_connection s' = pl_connection s \<Longrightarrow> call_ok s (log_none, s')"
  by (simp add: call_ok_def provider_ok_def log_balanced_refl)

lemma call_ok_tracker:
  "provider_ok s \<Longrightarrow> work_ok (pl_transport s) o' \<Longrightarrow> call_ok s (log_none, s\<lparr>pl_observations := o'\<rparr>)"
  by (simp add: call_ok_def provider_ok_def log_balanced_refl)

lemma call_ok_finish:
  assumes "provider_ok s" and "finish_transport_unchecked gen i outcome s = (c, s')"
  shows "call_ok s (log_ending c, s')"
proof -
  have work: "work_ok (pl_transport s) (pl_observations s)"
    using assms(1) by (simp add: provider_ok_def)
  note w = finish_unchecked_work [OF assms(2) work]
  have "pending_owned (pl_session s') (pl_connection s') (pl_transport s')"
    using w assms(1) by (cases "ending c") (auto simp: ends_transport_def provider_ok_def pending_owned_none)
  then show ?thesis
    using w by (simp add: call_ok_def provider_ok_def log_balanced_ends)
qed

lemma call_ok_stale: "provider_ok s \<Longrightarrow> call_ok s (log_ending TransportStale, s)"
  "provider_ok s \<Longrightarrow> call_ok s (log_ending TransportStillPending, s)"
  by (simp_all add: call_ok_def log_balanced_ends ends_transport_def)

lemma call_ok_retire:
  assumes "retire_all_provider_work s1 = (c, s')" and "work_ok (pl_transport s) (pl_observations s)"
    and "pl_transport s1 = pl_transport s" "pl_observations s1 = pl_observations s"
  shows "call_ok s (log_ending c, s')"
  using retire_all_work [OF assms(1)] assms(2-4) by (simp add: call_ok_def log_balanced_ends)

lemma call_ok_finish_transport:
  assumes "provider_ok s" shows "call_ok s (provider_call s (PcFinishTransport gen i outcome))"
proof (cases "transport_pending (pl_transport s)")
  case (Some p)
  have fin: "call_ok s (case finish_transport_unchecked gen i oc s of (c, s') \<Rightarrow> (log_ending c, s'))" for oc
    using call_ok_finish [OF assms, of gen i oc] by (simp split: prod.split)
  show ?thesis
    unfolding provider_call.simps finish_transport_def Some
    using fin call_ok_stale [OF assms] by (cases "pt_owner p") simp_all
qed (simp add: finish_transport_def call_ok_stale [OF assms])

lemma call_ok_expire_transport:
  assumes "provider_ok s" shows "call_ok s (provider_call s (PcExpireTransport gen now))"
proof (cases "transport_pending (pl_transport s)")
  case (Some p)
  have "call_ok s (case finish_transport_unchecked gen i oc s of (c, s') \<Rightarrow> (log_ending c, s'))" for i oc
    using call_ok_finish [OF assms, of gen i oc] by (simp split: prod.split)
  then show ?thesis
    using call_ok_stale [OF assms] by (simp add: expire_transport_def Some)
qed (simp add: expire_transport_def call_ok_stale [OF assms])

lemma call_ok_cancel_transport:
  assumes "provider_ok s" shows "call_ok s (provider_call s (PcCancelTransport gen i))"
  using call_ok_finish [OF assms, of gen i] by (auto simp: cancel_transport_def split: prod.split)

lemma call_ok_suspend:
  assumes "provider_ok s" shows "call_ok s (provider_call s PcSuspend)"
proof -
  define s1 where "s1 = s\<lparr>pl_monitor := monitor_suspend (pl_monitor s),
    pl_monitor_generation := epoch_invalidate (pl_monitor_generation s)\<rparr>"
  obtain c s2 where c: "cancel_current_transport s1 = (c, s2)"
    by (cases "cancel_current_transport s1")
  have "retire_all_provider_work s1 = (c, invalidate_provider_work s2)"
    by (simp add: retire_all_provider_work_def c)
  then have "call_ok s (log_ending c, invalidate_provider_work s2)"
    using assms by (intro call_ok_retire [where ?s1.0 = s1]) (simp_all add: s1_def provider_ok_def)
  moreover have "map_option (\<lambda>i. (i, OutcomeCancelled)) (finished_request_id c) = ending c"
    using c finish_unchecked_eq [of s1 _ _ _ OutcomeCancelled]
    by (cases "pl_transport s1") (auto simp: cancel_current_transport_def finished_request_id_def)
  ultimately show ?thesis
    by (simp add: suspend_def Let_def s1_def [symmetric] c log_ending_def)
qed

lemma call_ok_session:
  assumes "provider_ok s" shows "call_ok s (provider_call s PcBeginSession)"
proof -
  obtain c s1 where c: "retire_all_provider_work s = (c, s1)"
    by (cases "retire_all_provider_work s")
  have w: "work_ok (pl_transport s) (pl_observations s)"
    using assms by (simp add: provider_ok_def)
  note r = retire_all_work [OF c w]
  have "provider_ok (snd (begin_provider_session s))" "pl_transport (snd (begin_provider_session s)) = pl_transport s1"
    using r(3,4) by (simp_all add: begin_provider_session_def c Let_def provider_ok_def pending_owned_none
        split: prod.split option.split)
  moreover have "log_balanced (pl_transport s) (log_none\<lparr>log_dropped := finished_request_id c\<rparr>) (pl_transport s1)"
    using r(2)
  proof (cases rule: ends_transport_cases)
    case none
    then have "finished_request_id c = None"
      by (cases c) (simp_all add: finished_request_id_def)
    then show ?thesis
      using none(2) by (simp add: log_balanced_def log_none_def)
  next
    case (some i outcome p)
    then show ?thesis
      by (simp add: log_balanced_def log_none_def finished_request_id_def)
  qed
  ultimately show ?thesis
    by (simp add: c call_ok_def)
qed

lemma call_ok_retire_session:
  assumes "provider_ok s" shows "call_ok s (provider_call s (PcRetireSession i))"
proof -
  obtain m e where e: "epoch_finish (pl_session s) i = (m, e)"
    by (cases "epoch_finish (pl_session s) i")
  show ?thesis
  proof (cases m)
    case EpochStale
    then have "s\<lparr>pl_session := e\<rparr> = s"
      using e by (auto simp: epoch_finish_def Let_def split: if_splits)
    then show ?thesis
      using assms EpochStale e by (simp add: retire_provider_session_def call_ok_stale)
  next
    case EpochCurrent
    define s1 where "s1 = s\<lparr>pl_session := e, pl_feedback := epoch_invalidate (pl_feedback s)\<rparr>"
    obtain c s' where c: "retire_all_provider_work s1 = (c, s')"
      by (cases "retire_all_provider_work s1")
    have "call_ok s (log_ending c, s')"
      by (rule call_ok_retire [OF c]) (use assms in \<open>simp_all add: s1_def provider_ok_def\<close>)
    then show ?thesis
      using EpochCurrent e c by (simp add: retire_provider_session_def s1_def)
  qed
qed

lemma call_ok_cancel_monitor:
  assumes "provider_ok s" shows "call_ok s (provider_call s PcCancelMonitor)"
proof -
  define s1 where "s1 = s\<lparr>pl_monitor := monitor_cancel (pl_monitor s),
    pl_monitor_generation := epoch_invalidate (pl_monitor_generation s),
    pl_authorization := auth_invalidate (pl_authorization s)\<rparr>"
  obtain c s' where c: "retire_all_provider_work s1 = (c, s')"
    by (cases "retire_all_provider_work s1")
  have "call_ok s (log_ending c, s')"
    by (rule call_ok_retire [OF c]) (use assms in \<open>simp_all add: s1_def provider_ok_def\<close>)
  then show ?thesis
    by (simp add: cancel_monitor_def s1_def [symmetric] c)
qed

text \<open>When a connection is given up, the command it owned ends with it.\<close>

lemma cancel_connection_work:
  assumes can: "cancel_transport_for_connection_current conn s = (c, s')" and work: "work_ok (pl_transport s) (pl_observations s)"
    and own: "pending_owned (pl_session s) c0 (pl_transport s)"
    and given_up: "\<And>x. connection_state c0 = Connected x \<Longrightarrow> x = conn"
  shows "provider_ok s'" "ends_transport c (pl_transport s) (pl_transport s')"
proof -
  have "provider_ok s' \<and> ends_transport c (pl_transport s) (pl_transport s')"
  proof (cases "pl_transport s")
    case (TransportAvailable l)
    then show ?thesis
      using can work by (auto simp: cancel_transport_for_connection_current_def provider_ok_def ends_transport_def)
  next
    case (TransportPending p)
    show ?thesis
    proof (cases "pt_owner p")
      case (OwnerProvider g)
      then show ?thesis
        using can work own TransportPending
        by (auto simp: cancel_transport_for_connection_current_def provider_ok_def ends_transport_def pending_owned_def)
    next
      case (OwnerConnection g x)
      then have "x = conn"
        using own given_up TransportPending by (simp add: pending_owned_def)
      then have eq: "finish_transport_unchecked (owner_generation (pt_owner p)) (pt_request_id p) OutcomeCancelled s = (c, s')"
        using can TransportPending OwnerConnection by (simp add: cancel_transport_for_connection_current_def)
      then have "transport_pending (pl_transport s') = None"
        using finish_unchecked_eq [OF TransportPending refl refl, of OutcomeCancelled] by auto
      then show ?thesis
        using finish_unchecked_work [OF eq work] by (simp add: provider_ok_def pending_owned_none)
    qed
  qed
  then show "provider_ok s'" "ends_transport c (pl_transport s) (pl_transport s')"
    by simp_all
qed

lemma call_ok_begin_attempt:
  assumes ok: "provider_ok s" shows "call_ok s (provider_call s (PcBeginAttempt now))"
proof (cases rule: begin_attempt_cases [of "pl_connection s" now])
  case (refused r)
  have "s\<lparr>pl_connection := pl_connection s\<rparr> = s"
    by simp
  then show ?thesis
    using refused ok call_ok_stale(1) [OF ok] by (cases r) (auto simp: begin_connection_attempt_def)
next
  case (started i)
  define s1 where "s1 = s\<lparr>pl_connection := (pl_connection s)\<lparr>mc_attempts := mc_attempts (pl_connection s) + 1,
    last_attempt_id := i, connection_state := Connecting i now\<rparr>\<rparr>"
  have work: "work_ok (pl_transport s1) (pl_observations s1)"
    and own: "pending_owned (pl_session s1) (pl_connection s) (pl_transport s1)"
    using ok by (simp_all add: s1_def provider_ok_def)
  show ?thesis
  proof (cases "callback_id (pl_connection s)")
    case None
    then have "pending_owned (pl_session s1) (pl_connection s1) (pl_transport s1)"
      using own by (cases "pl_transport s1"; cases "connection_state (pl_connection s)")
        (auto simp: callback_id_def pending_owned_def split: MusicTransportOwner.splits)
    then have "provider_ok s1" "pl_transport s1 = pl_transport s"
      using work by (simp_all add: provider_ok_def s1_def)
    moreover have "provider_call s (PcBeginAttempt now) = (log_ending TransportStale, s1)"
      using started None by (simp add: begin_connection_attempt_def s1_def Let_def)
    moreover have "log_ending TransportStale = log_none"
      by (simp add: log_ending_def log_none_def)
    ultimately show ?thesis
      by (simp add: call_ok_def log_balanced_refl)
  next
    case (Some conn)
    obtain c s2 where c: "cancel_transport_for_connection_current conn s1 = (c, s2)"
      by (cases "cancel_transport_for_connection_current conn s1")
    have "x = conn" if "connection_state (pl_connection s) = Connected x" for x
      using that Some by (simp add: callback_id_def)
    note w = cancel_connection_work [OF c work own this]
    have "provider_call s (PcBeginAttempt now) = (log_ending c, s2)"
      using started Some c by (simp add: begin_connection_attempt_def s1_def Let_def)
    then show ?thesis
      using w by (simp add: call_ok_def log_balanced_ends s1_def)
  qed
qed

lemma call_ok_finish_connection:
  assumes ok: "provider_ok s" and stale: "callback = ConnectionStale \<Longrightarrow> c' = pl_connection s"
    and given_up: "\<And>x. callback \<noteq> ConnectionStale \<Longrightarrow> connection_state (pl_connection s) = Connected x \<Longrightarrow> x = i"
    and fin: "finish_connection i callback (s\<lparr>pl_connection := c'\<rparr>) = (r, s')"
  shows "call_ok s (log_ending (ce_transport r), s')"
proof (cases "callback = ConnectionStale")
  case True
  then have "s' = s" "ce_transport r = TransportStale"
    using fin stale by (auto simp: finish_connection_def)
  then show ?thesis
    using call_ok_stale(1) [OF ok] by simp
next
  case False
  define s1 where "s1 = s\<lparr>pl_connection := c', pl_feedback := epoch_invalidate (pl_feedback s), pl_player := player_reset (pl_player s)\<rparr>"
  obtain c where c: "cancel_transport_for_connection_current i s1 = (c, s')" "ce_transport r = c"
    using fin False by (auto simp: finish_connection_def Let_def s1_def split: prod.splits)
  have "work_ok (pl_transport s1) (pl_observations s1)" "pending_owned (pl_session s1) (pl_connection s) (pl_transport s1)"
    using ok by (simp_all add: s1_def provider_ok_def)
  note w = cancel_connection_work [OF c(1) this given_up [OF False]]
  show ?thesis
    using w c(2) by (simp add: call_ok_def log_balanced_ends s1_def)
qed

lemma call_ok_end_connection:
  assumes ok: "provider_ok s" and e: "end_connection i now s = (r, s')"
  shows "call_ok s (log_ending (ce_transport r), s')"
proof -
  obtain cb c' where f: "failed_for (pl_connection s) i now = (cb, c')"
    by (cases "failed_for (pl_connection s) i now")
  have "cb = ConnectionStale \<Longrightarrow> c' = pl_connection s"
    "\<And>x. cb \<noteq> ConnectionStale \<Longrightarrow> connection_state (pl_connection s) = Connected x \<Longrightarrow> x = i"
    using f by (auto simp: failed_for_def connection_classify_at_def split: if_splits)
  then show ?thesis
    using e f by (intro call_ok_finish_connection [OF ok, where callback = cb and c' = c']) (simp_all add: end_connection_def)
qed

lemma call_ok_expired:
  assumes ok: "provider_ok s" shows "call_ok s (provider_call s (PcExpired i now))"
proof -
  obtain cb c' where f: "expired_for (pl_connection s) i now = (cb, c')"
    by (cases "expired_for (pl_connection s) i now")
  obtain r s' where fin: "finish_connection i cb (s\<lparr>pl_connection := c'\<rparr>) = (r, s')"
    by (cases "finish_connection i cb (s\<lparr>pl_connection := c'\<rparr>)")
  have "cb = ConnectionStale \<Longrightarrow> c' = pl_connection s"
    "\<And>x. cb \<noteq> ConnectionStale \<Longrightarrow> connection_state (pl_connection s) = Connected x \<Longrightarrow> x = i"
    using f by (auto simp: expired_for_def split: MusicConnectionState.splits if_splits)
  then have "call_ok s (log_ending (ce_transport r), s')"
    by (rule call_ok_finish_connection [OF ok _ _ fin])
  then show ?thesis
    by (simp add: connection_expired_effect_def f fin)
qed

lemma call_ok_established:
  assumes ok: "provider_ok s" shows "call_ok s (provider_call s (PcEstablished i now))"
proof -
  obtain r c where e: "established_for_at (pl_connection s) i now = (r, c)"
    by (cases "established_for_at (pl_connection s) i now")
  have "c = pl_connection s \<or> (\<exists>j at. connection_state (pl_connection s) = Connecting j at)"
    using e by (auto simp: established_for_at_def split: MusicConnectionState.splits if_splits)
  then have "pending_owned (pl_session s) c (pl_transport s)"
    using ok by (cases "transport_pending (pl_transport s)")
      (auto simp: provider_ok_def pending_owned_def split: MusicTransportOwner.splits)
  then show ?thesis
    using ok by (simp add: connection_established_def e call_ok_def provider_ok_def log_balanced_refl)
qed

lemma call_ok_begin_transport:
  assumes ok: "provider_ok s" shows "call_ok s (provider_call s (PcBeginTransport owner command now))"
proof (cases "owner_is_current s owner \<and> (\<exists>l i. pl_transport s = TransportAvailable l \<and> lifecycle_id_next l = Some i)")
  case False
  then have "begin_transport_effect owner command now s = (None, s)"
    by (cases "pl_transport s") (auto simp: begin_transport_effect_def transport_begin_def split: option.split)
  moreover have "log_none\<lparr>log_begun := None\<rparr> = log_none"
    by (simp add: log_none_def)
  ultimately show ?thesis
    using ok by (simp add: call_ok_def log_balanced_refl)
next
  case True
  then obtain l i where l: "pl_transport s = TransportAvailable l" "lifecycle_id_next l = Some i"
    by blast
  define p where "p = \<lparr>pt_owner = owner, pt_request_id = i, pt_started_at = now, pt_command = command\<rparr>"
  define o' where "o' = (if command_is_skip command then issue_skip i now (pl_observations s) else pl_observations s)"
  have eq: "provider_call s (PcBeginTransport owner command now) =
      (log_none\<lparr>log_begun := Some i\<rparr>, s\<lparr>pl_transport := TransportPending p, pl_observations := o'\<rparr>)"
    using True l by (simp add: begin_transport_effect_def transport_begin_def Let_def p_def o'_def)
  have lt: "l < i"
    using lifecycle_id_next_Some [OF l(2)] by (simp add: word_less_nat_alt)
  have skips: "skip_transport_id q \<le> l \<and> skip_outcome q \<noteq> SkipPending" if "q \<in> set (pending_skips (pl_observations s))" for q
    using ok that l by (auto simp: provider_ok_def work_ok_def skips_owned_def)
  then have fresh: "i \<notin> set (skip_ids (pl_observations s))"
    using lt by (fastforce simp: skip_ids_def)
  have "tracker_ok o'"
    using ok fresh by (simp add: o'_def provider_ok_def work_ok_def issue_skip_ok)
  moreover have "skips_owned (TransportPending p) o'"
    using skips lt by (fastforce simp: skips_owned_def o'_def issue_skip_def p_def)
  moreover have "pending_owned (pl_session s) (pl_connection s) (TransportPending p)"
    using True by (cases owner) (auto simp: pending_owned_def p_def owner_is_current_def epoch_classify_active
        is_established_def split: MusicConnectionState.splits)
  ultimately show ?thesis
    unfolding eq using l by (simp add: call_ok_def provider_ok_def work_ok_def log_balanced_def log_none_def p_def)
qed

lemma call_ok_handoff:
  assumes "provider_ok s"
  shows "call_ok s (provider_call s (PcBeginHandoff now))" "call_ok s (provider_call s (PcObserveHandoff i st now))"
    "call_ok s (provider_call s (PcExpireHandoff i now))" "call_ok s (provider_call s (PcFinishHandoff i))"
  by (simp_all, (rule call_ok_local [OF assms];
      simp add: begin_play_handoff_def observe_play_handoff_def expire_play_handoff_def finish_handoff_as_def
        finish_play_handoff_def split: prod.split option.split)+)

lemma call_ok_small:
  assumes "provider_ok s"
  shows "call_ok s (provider_call s PcBeginFeedback)" "call_ok s (provider_call s PcInvalidateFeedback)"
    "call_ok s (provider_call s (PcDismissFeedback i))" "call_ok s (provider_call s (PcRequestMonitor rq))"
    "call_ok s (provider_call s PcBeginMonitor)" "call_ok s (provider_call s (PcFinishMonitor i))"
    "call_ok s (provider_call s PcResume)" "call_ok s (provider_call s (PcBeginAuthorization kind now))"
    "call_ok s (provider_call s (PcFinishAuthorization i))" "call_ok s (provider_call s PcInvalidateAuthorization)"
  by (simp_all, (rule call_ok_local [OF assms];
      simp add: begin_command_feedback_def invalidate_command_feedback_def dismiss_command_feedback_def
        request_monitor_def begin_monitor_def finish_monitor_def resume_def begin_authorization_effect_def
        begin_authorization_def finish_authorization_def invalidate_authorization_def Let_def
        split: prod.split option.split)+)

lemma call_ok_requests:
  assumes "provider_ok s"
  shows "call_ok s (provider_call s (PcBeginPlayer now))" "call_ok s (provider_call s (PcCompletePlayer i now))"
    "call_ok s (provider_call s (PcExpirePlayer i now))" "call_ok s (provider_call s (PcCompletePlayerIfCurrent i revn now))"
    "call_ok s (provider_call s (PcMarkObserved now))" "call_ok s (provider_call s (PcBeginArtwork g now))"
    "call_ok s (provider_call s (PcCompleteArtwork g i))" "call_ok s (provider_call s PcResetArtwork)"
    "call_ok s (provider_call s (PcBeginArtworkRetry g now))" "call_ok s (provider_call s (PcCompleteArtworkRetry g i))"
  by (simp_all, (rule call_ok_local [OF assms];
      simp add: begin_player_state_request_def complete_player_state_request_def expire_player_state_request_def
        complete_player_state_request_if_current_def mark_player_state_observed_def begin_artwork_effect_def
        complete_artwork_request_def reset_artwork_def begin_artwork_retry_effect_def complete_artwork_retry_def
        split: prod.split)+)

lemma call_ok_observations:
  assumes ok: "provider_ok s"
  shows "call_ok s (provider_call s (PcObserve snap timing))" "call_ok s (provider_call s PcRetireHistory)"
    "call_ok s (provider_call s (PcAcknowledge i))" "call_ok s (provider_call s PcResetCorrelation)"
    "call_ok s (provider_call s PcResetBaselines)" "call_ok s (provider_call s PcClearCommands)"
proof -
  have "work_ok (pl_transport s) (pl_observations s)"
    using ok by (simp add: provider_ok_def)
  note work = tracker_work [OF this]
  show "call_ok s (provider_call s (PcObserve snap timing))"
    using call_ok_tracker [OF ok work(1)] by (simp add: observe_music_def split_beta)
  show "call_ok s (provider_call s PcRetireHistory)"
    using call_ok_tracker [OF ok work(6)] by (simp add: retire_history_association_def split_beta)
  show "call_ok s (provider_call s (PcAcknowledge i))"
    using call_ok_tracker [OF ok work(2)] by (simp add: acknowledge_history_transition_def split_beta)
  show "call_ok s (provider_call s PcResetCorrelation)"
    using call_ok_tracker [OF ok work(5)] by (simp add: reset_observation_correlation_def)
  show "call_ok s (provider_call s PcResetBaselines)"
    using call_ok_tracker [OF ok work(3)] by (simp add: reset_observation_baselines_def)
  show "call_ok s (provider_call s PcClearCommands)"
    using call_ok_tracker [OF ok work(4)] by (simp add: clear_pending_command_correlation_def)
qed

lemma call_ok_connection_ends:
  assumes "provider_ok s"
  shows "call_ok s (provider_call s (PcFailed i now))" "call_ok s (provider_call s (PcDisconnected i now))"
  using call_ok_end_connection [OF assms, of i now]
  by (simp_all add: connection_failed_effect_def connection_disconnected_effect_def split: prod.split)

lemma call_ok_every: "provider_ok s \<Longrightarrow> call_ok s (provider_call s c)"
  by (cases c) (simp_all only: call_ok_handoff call_ok_small call_ok_requests call_ok_observations
      call_ok_connection_ends call_ok_expired call_ok_established call_ok_begin_transport call_ok_begin_attempt
      call_ok_cancel_monitor call_ok_retire_session call_ok_session call_ok_suspend call_ok_finish_transport
      call_ok_expire_transport call_ok_cancel_transport)

section \<open>Runs of calls\<close>

definition provider_run :: "ProviderCall list \<Rightarrow> MusicProviderLifecycle" where
  "provider_run calls = foldl (\<lambda>s c. snd (provider_call s c)) lifecycle_default calls"

interpretation provider: reducer "\<lambda>s c. snd (provider_call s c)" lifecycle_default provider_ok
proof
  show "provider_ok lifecycle_default"
    by (simp add: provider_ok_def lifecycle_default_def work_ok_def tracker_new_ok skips_owned_def transport_default_def)
      (simp add: tracker_new_def)
  show "provider_ok (snd (provider_call s c))" if "provider_ok s" for s c
    using call_ok_every [OF that, of c] by (simp add: call_ok_def)
qed

lemma run_ok: "provider_ok (provider_run calls)"
  unfolding provider_run_def by (rule provider.inv_run)

text \<open>
  C14.  Commands belong to the present.  After any sequence of calls, a transport command that is
  still pending belongs to the current provider session and, if it was issued on a connection, to
  the connection that is established now; so the result its provider reports is the result the
  owner hands on, never a substitute.
\<close>

theorem music_command_owner_current:
  assumes "pl_transport (provider_run calls) = TransportPending p"
  shows "owner_is_current (provider_run calls) (pt_owner p)
    \<and> fst (finish_transport (owner_generation (pt_owner p)) (pt_request_id p) outcome (provider_run calls)) =
        TransportFinished (pt_request_id p) outcome"
proof -
  let ?s = "provider_run calls"
  have "pending_owned (pl_session ?s) (pl_connection ?s) (pl_transport ?s)"
    using run_ok [of calls] by (simp add: provider_ok_def)
  then have own: "epoch_active (pl_session ?s) = Some (owner_generation (pt_owner p))"
    "case pt_owner p of OwnerConnection _ conn \<Rightarrow> is_established (pl_connection ?s) conn | OwnerProvider _ \<Rightarrow> True"
    using assms by (auto simp: pending_owned_def is_established_def split: MusicTransportOwner.splits)
  then show ?thesis
    using assms finish_unchecked_eq [OF assms refl refl, of outcome]
    by (cases "pt_owner p") (auto simp: owner_is_current_def epoch_classify_active finish_transport_def)
qed

text \<open>
  C13.  No history is held for ever.  After any sequence of calls, a transition that waits for a skip
  waits for the command that is pending at that moment, which is a skip; so whenever no command is
  pending, the oldest unacknowledged transition is ready to be handed out and acknowledged.
\<close>

theorem music_history_never_stuck:
  "(\<forall>h \<in> set (pending_history (pl_observations (provider_run calls))). \<forall>t r.
      pend_kind h = HistoryAwaitingSkip t r \<longrightarrow>
      (\<exists>p. pl_transport (provider_run calls) = TransportPending p \<and> pt_request_id p = t \<and> command_is_skip (pt_command p)))
   \<and> (transport_pending (pl_transport (provider_run calls)) = None \<and> has_pending_history (provider_run calls) \<longrightarrow>
      (\<exists>d. current_history_transition (pl_observations (provider_run calls)) = Some d
        \<and> fst (acknowledge_history_transition (hist_id d) (provider_run calls)) = Acknowledged))"
proof -
  let ?s = "provider_run calls"
  let ?o = "pl_observations ?s"
  have ok: "tracker_ok ?o" "skips_owned (pl_transport ?s) ?o"
    using run_ok [of calls] by (simp_all add: provider_ok_def work_ok_def)
  have held: "\<exists>p. pl_transport ?s = TransportPending p \<and> pt_request_id p = t \<and> command_is_skip (pt_command p)"
    if "h \<in> set (pending_history ?o)" "pend_kind h = HistoryAwaitingSkip t r" for h t r
  proof -
    have "t \<in> set (held (pending_history ?o))"
      using that by (auto simp: in_held_iff awaited_def intro!: bexI [of _ h])
    then obtain q where "q \<in> set (pending_skips ?o)" "skip_transport_id q = t" "skip_outcome q = SkipPending"
      using ok(1) by (auto simp: tracker_ok_def held_ok_def)
    then show ?thesis
      using ok(2) by (cases "pl_transport ?s") (auto simp: skips_owned_def)
  qed
  moreover have "\<exists>d. current_history_transition ?o = Some d \<and> fst (acknowledge_history_transition (hist_id d) ?s) = Acknowledged"
    if idle: "transport_pending (pl_transport ?s) = None" and some: "has_pending_history ?s"
  proof -
    obtain h hs where h: "pending_history ?o = h # hs"
      using some by (cases "pending_history ?o") (auto simp: has_pending_history_def tracker_has_pending_def)
    then obtain kind where "pend_kind h = HistoryConfirmed kind"
      using held [of h] idle by (cases "pend_kind h") (auto simp: h)
    then show ?thesis
      by (simp add: current_history_transition_def h acknowledge_history_transition_def tracker_acknowledge_def split_beta)
  qed
  ultimately show ?thesis
    by blast
qed

section \<open>The ledger of commands\<close>

definition option_mset :: "'a option \<Rightarrow> 'a multiset" where
  "option_mset x = (case x of None \<Rightarrow> {#} | Some y \<Rightarrow> {#y#})"

definition pending_command :: "MusicProviderLifecycle \<Rightarrow> LifecycleId multiset" where
  "pending_command s = option_mset (map_option pt_request_id (transport_pending (pl_transport s)))"

definition begun_commands :: "transport_log \<Rightarrow> LifecycleId multiset" where
  "begun_commands l = option_mset (log_begun l)"

definition ended_commands :: "transport_log \<Rightarrow> LifecycleId multiset" where
  "ended_commands l = option_mset (map_option fst (log_ended l)) + option_mset (log_dropped l)"

lemma option_mset_simps [simp]: "option_mset None = {#}" "option_mset (Some x) = {#x#}"
  by (simp_all add: option_mset_def)

lemma balanced_commands:
  assumes "log_balanced t l t'"
  shows "option_mset (map_option pt_request_id (transport_pending t)) + begun_commands l =
    ended_commands l + option_mset (map_option pt_request_id (transport_pending t'))"
proof (cases "log_begun l")
  case (Some i)
  then show ?thesis
    using assms by (simp add: log_balanced_def begun_commands_def ended_commands_def)
next
  case none: None
  show ?thesis
  proof (cases "log_ended l = None \<and> log_dropped l = None")
    case True
    then have "map_option pt_request_id (transport_pending t') = map_option pt_request_id (transport_pending t)"
      using assms none by (simp add: log_balanced_def)
    then show ?thesis
      using True none by (simp add: begun_commands_def ended_commands_def)
  next
    case False
    obtain p where p: "transport_pending t = Some p"
      using assms none False by (cases "transport_pending t") (simp_all add: log_balanced_def)
    then show ?thesis
      using assms none False by (cases "log_ended l"; cases "log_dropped l")
        (simp_all add: log_balanced_def begun_commands_def ended_commands_def)
  qed
qed

text \<open>The same calls on states that satisfy the invariant, which is where the balance holds.\<close>

definition guarded_call :: "MusicProviderLifecycle \<Rightarrow> ProviderCall \<Rightarrow> transport_log \<times> MusicProviderLifecycle" where
  "guarded_call s c = (if provider_ok s then provider_call s c else (log_none, s))"

interpretation commands: ledger guarded_call pending_command begun_commands ended_commands
proof
  show "pending_command s + begun_commands l = ended_commands l + pending_command s'"
    if "guarded_call s c = (l, s')" for s c l s'
  proof (cases "provider_ok s")
    case True
    then have "log_balanced (pl_transport s) l (pl_transport s')"
      using call_ok_every [OF True, of c] that by (simp add: guarded_call_def call_ok_def)
    then show ?thesis
      using balanced_commands by (simp add: pending_command_def)
  next
    case False
    then show ?thesis
      using that by (auto simp: guarded_call_def begun_commands_def ended_commands_def log_none_def)
  qed
qed

primrec provider_logs :: "MusicProviderLifecycle \<Rightarrow> ProviderCall list \<Rightarrow> transport_log list" where
  "provider_logs s [] = []"
| "provider_logs s (c # cs) = (case provider_call s c of (l, s') \<Rightarrow> l # provider_logs s' cs)"

lemma ledger_run:
  "provider_ok s \<Longrightarrow> commands.run s cs = (provider_logs s cs, foldl (\<lambda>s c. snd (provider_call s c)) s cs)"
proof (induction cs arbitrary: s)
  case (Cons c cs)
  have "provider_ok (snd (provider_call s c))"
    using call_ok_every [OF Cons.prems, of c] by (simp add: call_ok_def)
  moreover have "guarded_call s c = provider_call s c"
    using Cons.prems by (simp add: guarded_call_def)
  ultimately show ?case
    using Cons.IH [of "snd (provider_call s c)"] by (cases "provider_call s c") simp
qed simp

text \<open>Commands begun by a run, oldest first, and how each of them ended.\<close>

definition begun :: "transport_log list \<Rightarrow> LifecycleId list" where
  "begun ls = List.map_filter log_begun ls"

definition ended :: "transport_log list \<Rightarrow> LifecycleId list" where
  "ended ls = map fst (List.map_filter log_ended ls)"

definition dropped :: "transport_log list \<Rightarrow> LifecycleId list" where
  "dropped ls = List.map_filter log_dropped ls"

lemma begun_fresh:
  "provider_ok s \<Longrightarrow> issued_above (unat (transport_last (pl_transport s))) (map unat (begun (provider_logs s cs)))"
proof (induction cs arbitrary: s)
  case (Cons c cs)
  obtain l s' where st: "provider_call s c = (l, s')"
    by (cases "provider_call s c")
  have ok: "provider_ok s'" and bal: "log_balanced (pl_transport s) l (pl_transport s')"
    using call_ok_every [OF Cons.prems, of c] by (simp_all add: st call_ok_def)
  note IH = Cons.IH [OF ok]
  show ?case
  proof (cases "log_begun l")
    case None
    then show ?thesis
      using IH bal by (simp add: st begun_def map_filter_simps log_balanced_def)
  next
    case (Some i)
    then have "lifecycle_id_next (transport_last (pl_transport s)) = Some i" "transport_last (pl_transport s') = i"
      using bal by (cases "pl_transport s'"; simp add: log_balanced_def)+
    then show ?thesis
      using IH Some lifecycle_id_next_Some by (simp add: st begun_def map_filter_simps)
  qed
qed (simp add: begun_def map_filter_simps)

lemma sum_logs:
  "sum_list (map begun_commands ls) = mset (begun ls)"
  "sum_list (map ended_commands ls) = mset (ended ls) + mset (dropped ls)"
  by (induction ls)
    (auto simp: begun_def ended_def dropped_def begun_commands_def ended_commands_def map_filter_simps split: option.split)

text \<open>
  C12.  Every command ends once.  In every run the commands begun have distinct identities, and each
  of them has been reported as ended exactly once, was dropped when a new provider session replaced
  its owner, or is the one still pending.
\<close>

theorem music_commands_end_once:
  "distinct (begun (provider_logs lifecycle_default calls))
   \<and> mset (begun (provider_logs lifecycle_default calls)) =
       mset (ended (provider_logs lifecycle_default calls)) + mset (dropped (provider_logs lifecycle_default calls))
       + pending_command (provider_run calls)"
proof -
  have "distinct (begun (provider_logs lifecycle_default calls))"
    using issued_above_distinct [OF begun_fresh [OF provider.inv_init]] by (simp add: distinct_map)
  moreover have "pending_command lifecycle_default = {#}"
    by (simp add: pending_command_def lifecycle_default_def transport_default_def)
  ultimately show ?thesis
    using commands.run_balance [OF ledger_run [OF provider.inv_init], of calls]
    by (simp add: sum_logs provider_run_def)
qed

text \<open>Starting a provider session ends the pending command of the previous one without reporting it.\<close>

lemma session_drops_command:
  assumes "pl_transport (provider_run calls) = TransportPending p"
  shows "log_dropped (fst (provider_call (provider_run calls) PcBeginSession)) = Some (pt_request_id p)"
    "fst (finish_transport gen (pt_request_id p) outcome (snd (provider_call (provider_run calls) PcBeginSession))) = TransportStale"
proof -
  let ?s = "provider_run calls"
  obtain c s' where c: "retire_all_provider_work ?s = (c, s')"
    by (cases "retire_all_provider_work ?s")
  note r = retire_all_work [OF c, OF run_ok [of calls, unfolded provider_ok_def, THEN conjunct1]]
  have "c = TransportFinished (pt_request_id p) OutcomeCancelled"
    using c finish_unchecked_eq [OF assms refl refl, of OutcomeCancelled] assms
    by (simp add: retire_all_provider_work_def cancel_current_transport_def)
  then show "log_dropped (fst (provider_call ?s PcBeginSession)) = Some (pt_request_id p)"
    by (simp add: c log_none_def finished_request_id_def)
  have "pl_transport (snd (begin_provider_session ?s)) = pl_transport s'"
    by (simp add: begin_provider_session_def c Let_def split: prod.split option.split)
  then show "fst (finish_transport gen (pt_request_id p) outcome (snd (provider_call ?s PcBeginSession))) = TransportStale"
    using r(3) by (simp add: finish_transport_def)
qed

section \<open>Witnesses\<close>

definition playing :: "nat \<Rightarrow> u64 \<Rightarrow> MusicSnapshot" where
  "playing item at = \<lparr>snap_provider = Spotify, snap_session_id = [115], snap_state = MusicPlaying,
     snap_item = Some \<lparr>item_identifier = [item], item_title = None, item_artist = None\<rparr>,
     snap_position_ms = None, snap_duration_ms = None, snap_observed_at = at, snap_capabilities = 0\<rparr>"

definition no_timing :: MusicObservationTiming where
  "no_timing = \<lparr>obs_wall_clock_at = 0, obs_uncertainty_ms = 0\<rparr>"

definition skip_calls :: "ProviderCall list" where
  "skip_calls = [PcBeginSession, PcObserve (playing 65 10) no_timing, PcBeginTransport (OwnerProvider 1) CmdNext 20,
     PcObserve (playing 66 30) no_timing]"

definition pending_skip_command :: PendingTransport where
  "pending_skip_command = \<lparr>pt_owner = OwnerProvider 1, pt_request_id = 1, pt_started_at = 20, pt_command = CmdNext\<rparr>"

theorem music_command_owner_current_witness:
  "pl_transport (provider_run skip_calls) = TransportPending pending_skip_command
   \<and> owner_is_current (provider_run skip_calls) (OwnerProvider 1)
   \<and> fst (finish_transport 1 1 OutcomeAccepted (provider_run skip_calls)) = TransportFinished 1 OutcomeAccepted"
proof -
  have pend: "pl_transport (provider_run skip_calls) = TransportPending pending_skip_command"
    by code_simp
  show ?thesis
    using music_command_owner_current [OF pend, of OutcomeAccepted] pend by (simp add: pending_skip_command_def)
qed

theorem music_history_never_stuck_witness:
  "\<exists>h. h \<in> set (pending_history (pl_observations (provider_run skip_calls)))
     \<and> pend_kind h = HistoryAwaitingSkip 1 (Some EventItemChanged)
     \<and> (\<exists>p. pl_transport (provider_run skip_calls) = TransportPending p \<and> pt_request_id p = 1 \<and> command_is_skip (pt_command p))"
proof -
  define h where "h = \<lparr>pend_id = 2, pend_snapshot = playing 66 30, pend_kind = HistoryAwaitingSkip 1 (Some EventItemChanged),
    pend_timing = no_timing\<rparr>"
  have "h \<in> set (pending_history (pl_observations (provider_run skip_calls)))"
    unfolding h_def by code_simp
  moreover have "pend_kind h = HistoryAwaitingSkip 1 (Some EventItemChanged)"
    by (simp add: h_def)
  ultimately show ?thesis
    using music_history_never_stuck [of skip_calls] by blast
qed

end
