(* ===== verification/Commands.thy ===== *)
theory Commands
  imports Session_Output
begin

unbundle bit_operations_syntax

text \<open>
  Host commands and read requests (\<^verbatim>\<open>cutout-core/src/lib.rs\<close>, \<^verbatim>\<open>cutout-protocols/src/probe.rs\<close>,
  \<^verbatim>\<open>request_encoder.rs\<close>): command kinds with their safety classes, capability sets packed into 64 bits,
  and the probes of the two wheel families.  A session reads of a command only its kind, which stands
  for it.  Shown: a packed capability set contains exactly the commands it was made from, and a probe
  belongs to the command that asks for it.
\<close>

section \<open>Commands\<close>

datatype CommandKind =
    RequestIdentity | RequestTelemetry | RequestFirmwareInfo | RequestBatteryInfo | RequestDiagnostics
  | RequestFaultHistory | RequestSettings | ResetTripMeter | GyroCalibration | SetSetting | SetLights
  | SetTaillight | SoundHorn | SetRawMotorCurrent

datatype SafetyClass = ReadOnly | BenignControl | StationaryOnly | Actuation | Firmware

fun kind_safety_class :: "CommandKind \<Rightarrow> SafetyClass" where
  "kind_safety_class RequestIdentity = ReadOnly"
| "kind_safety_class RequestTelemetry = ReadOnly"
| "kind_safety_class RequestFirmwareInfo = ReadOnly"
| "kind_safety_class RequestBatteryInfo = ReadOnly"
| "kind_safety_class RequestDiagnostics = ReadOnly"
| "kind_safety_class RequestFaultHistory = ReadOnly"
| "kind_safety_class RequestSettings = ReadOnly"
| "kind_safety_class SetLights = BenignControl"
| "kind_safety_class SetTaillight = BenignControl"
| "kind_safety_class SoundHorn = BenignControl"
| "kind_safety_class ResetTripMeter = BenignControl"
| "kind_safety_class GyroCalibration = StationaryOnly"
| "kind_safety_class SetSetting = StationaryOnly"
| "kind_safety_class SetRawMotorCurrent = Actuation"

section \<open>Capability sets\<close>

type_synonym CommandSet = u64

text \<open>The discriminant of a kind is its position among the variants.\<close>

fun kind_discriminant :: "CommandKind \<Rightarrow> nat" where
  "kind_discriminant RequestIdentity = 0"
| "kind_discriminant RequestTelemetry = 1"
| "kind_discriminant RequestFirmwareInfo = 2"
| "kind_discriminant RequestBatteryInfo = 3"
| "kind_discriminant RequestDiagnostics = 4"
| "kind_discriminant RequestFaultHistory = 5"
| "kind_discriminant RequestSettings = 6"
| "kind_discriminant ResetTripMeter = 7"
| "kind_discriminant GyroCalibration = 8"
| "kind_discriminant SetSetting = 9"
| "kind_discriminant SetLights = 10"
| "kind_discriminant SetTaillight = 11"
| "kind_discriminant SoundHorn = 12"
| "kind_discriminant SetRawMotorCurrent = 13"

definition kind_bit :: "CommandKind \<Rightarrow> u64" where
  "kind_bit kind = push_bit (kind_discriminant kind) 1"

definition commands_insert :: "CommandSet \<Rightarrow> CommandKind \<Rightarrow> CommandSet" where
  "commands_insert cs kind = cs OR kind_bit kind"

definition from_commands :: "CommandKind list \<Rightarrow> CommandSet" where
  "from_commands kinds = foldl commands_insert 0 kinds"

definition commands_contain :: "CommandSet \<Rightarrow> CommandKind \<Rightarrow> bool" where
  "commands_contain cs kind \<longleftrightarrow> cs AND kind_bit kind \<noteq> 0"

section \<open>Read requests\<close>

datatype AeroProbe = AeroIdentity | AeroFirmwareInfo | AeroTelemetry | AeroBatteryInfo | AeroFaultHistory | AeroSettings

datatype FalconProbe = FalconIdentity | FalconFirmwareInfo | FalconTelemetry | FalconBatteryInfo

fun aero_from_command_kind :: "CommandKind \<Rightarrow> AeroProbe option" where
  "aero_from_command_kind RequestIdentity = Some AeroIdentity"
| "aero_from_command_kind RequestFirmwareInfo = Some AeroFirmwareInfo"
| "aero_from_command_kind RequestTelemetry = Some AeroTelemetry"
| "aero_from_command_kind RequestBatteryInfo = Some AeroBatteryInfo"
| "aero_from_command_kind RequestFaultHistory = Some AeroFaultHistory"
| "aero_from_command_kind RequestSettings = Some AeroSettings"
| "aero_from_command_kind _ = None"

fun aero_command_kind :: "AeroProbe \<Rightarrow> CommandKind" where
  "aero_command_kind AeroIdentity = RequestIdentity"
| "aero_command_kind AeroFirmwareInfo = RequestFirmwareInfo"
| "aero_command_kind AeroTelemetry = RequestTelemetry"
| "aero_command_kind AeroBatteryInfo = RequestBatteryInfo"
| "aero_command_kind AeroFaultHistory = RequestFaultHistory"
| "aero_command_kind AeroSettings = RequestSettings"

fun falcon_from_command_kind :: "CommandKind \<Rightarrow> FalconProbe option" where
  "falcon_from_command_kind RequestIdentity = Some FalconIdentity"
| "falcon_from_command_kind RequestFirmwareInfo = Some FalconFirmwareInfo"
| "falcon_from_command_kind RequestTelemetry = Some FalconTelemetry"
| "falcon_from_command_kind RequestBatteryInfo = Some FalconBatteryInfo"
| "falcon_from_command_kind _ = None"

fun falcon_command_kind :: "FalconProbe \<Rightarrow> CommandKind" where
  "falcon_command_kind FalconIdentity = RequestIdentity"
| "falcon_command_kind FalconFirmwareInfo = RequestFirmwareInfo"
| "falcon_command_kind FalconTelemetry = RequestTelemetry"
| "falcon_command_kind FalconBatteryInfo = RequestBatteryInfo"

record 'p EncodedRequest =
  request_probe :: 'p
  request_command :: CommandKind
  request_payload :: "u8 list"
  request_mode :: WriteMode

datatype 'p RequestDisposition =
    DispositionPassive 'p CommandKind
  | DispositionWrite "'p EncodedRequest"
  | DispositionWrites "'p EncodedRequest list"

definition aero_encode :: "AeroProbe \<Rightarrow> AeroProbe RequestDisposition" where
  "aero_encode probe = DispositionPassive probe (aero_command_kind probe)"

definition aero_encode_command :: "CommandKind \<Rightarrow> AeroProbe RequestDisposition option" where
  "aero_encode_command kind = map_option aero_encode (aero_from_command_kind kind)"

definition falcon_write :: "FalconProbe \<Rightarrow> u8 \<Rightarrow> FalconProbe RequestDisposition" where
  "falcon_write probe letter =
     DispositionWrite \<lparr>request_probe = probe, request_command = falcon_command_kind probe,
       request_payload = [letter], request_mode = WithoutResponse\<rparr>"

text \<open>The identity is asked for with the letter N, the firmware with V.\<close>

definition falcon_encode :: "FalconProbe \<Rightarrow> FalconProbe RequestDisposition" where
  "falcon_encode probe =
     (case probe of
        FalconIdentity \<Rightarrow> falcon_write probe 78
      | FalconFirmwareInfo \<Rightarrow> falcon_write probe 86
      | FalconTelemetry \<Rightarrow> DispositionPassive probe (falcon_command_kind probe)
      | FalconBatteryInfo \<Rightarrow> DispositionPassive probe (falcon_command_kind probe))"

definition falcon_encode_command :: "CommandKind \<Rightarrow> FalconProbe RequestDisposition option" where
  "falcon_encode_command kind = map_option falcon_encode (falcon_from_command_kind kind)"

definition unavailable_readback_response :: "CommandKind \<Rightarrow> ReadOnlyResponse option" where
  "unavailable_readback_response kind =
     (case kind of
        RequestBatteryInfo \<Rightarrow> Some (ResponseBattery battery_unavailable)
      | RequestFaultHistory \<Rightarrow> Some (ResponseFaultHistory faults_unavailable)
      | RequestSettings \<Rightarrow> Some (ResponseSettings settings_unavailable)
      | _ \<Rightarrow> None)"

section \<open>Lemmas\<close>

lemma kind_discriminant_less: "kind_discriminant k < 14"
  by (cases k) simp_all

lemma kind_discriminant_inject: "kind_discriminant k = kind_discriminant l \<longleftrightarrow> k = l"
  by (cases k; cases l; simp)

lemma commands_contain_bit: "commands_contain cs k \<longleftrightarrow> bit cs (kind_discriminant k)"
  by (simp add: commands_contain_def kind_bit_def bit_iff_and_push_bit_not_eq_0)

lemma bit_kind_bit: "bit (kind_bit k) (kind_discriminant l) \<longleftrightarrow> k = l"
  using kind_discriminant_less [of k] kind_discriminant_less [of l] kind_discriminant_inject [of k l]
  by (auto simp: kind_bit_def bit_exp_iff)

lemma commands_insert_contain: "commands_contain (commands_insert cs k) l \<longleftrightarrow> commands_contain cs l \<or> k = l"
  by (simp add: commands_contain_bit commands_insert_def bit_or_iff bit_kind_bit)

text \<open>A packed set is the set of the commands it was made from.\<close>

lemma from_commands_contain: "commands_contain (from_commands ks) k \<longleftrightarrow> k \<in> set ks"
proof -
  have "commands_contain (foldl commands_insert cs ks) k \<longleftrightarrow> commands_contain cs k \<or> k \<in> set ks" for cs
    by (induction ks arbitrary: cs) (auto simp: commands_insert_contain)
  then show ?thesis
    by (simp add: from_commands_def) (simp add: commands_contain_def)
qed

lemma falcon_probe_of_command: "falcon_from_command_kind k = Some p \<longleftrightarrow> falcon_command_kind p = k"
  by (cases k; cases p) simp_all

lemma aero_probe_of_command: "aero_from_command_kind k = Some p \<longleftrightarrow> aero_command_kind p = k"
  by (cases k; cases p) simp_all

end
