(* ===== verification/Host_Session.thy ===== *)
theory Host_Session
  imports Commands Interfaces
begin

text \<open>
  Read-only sessions and their host (\<^verbatim>\<open>cutout-protocols/src/session.rs\<close>, \<open>HostSession\<close> of
  \<^verbatim>\<open>cutout-core/src/lib.rs\<close>).  A model of a wheel is a record of what the Rust trait asks of it: family,
  channels, capabilities, request encoder and notification decoder.  The shell reacts to link changes,
  notifications, ticks and commands; the host stamps battery pages with the time of the input and
  applies all outputs to the session root.  The locale \<open>read_only_model\<close> states what a decoder promises,
  and what the shell guarantees for every decoder is proved in it: transport is touched only by
  subscribing and by supported read requests, and a session without a link decodes nothing.  The locale
  \<open>paged_model\<close> adds a property of the battery pages a decoder puts out, which all pages of a run have.
\<close>

section \<open>Models and sessions\<close>

datatype SessionInput =
    InputLinkUp LinkInfo
  | InputLinkDown
  | InputNotification GattChannel "u8 list" MonotonicTimestamp
  | InputTick MonotonicTimestamp
  | InputCommand CommandKind

record ('p, 'd) ReadOnlyModel =
  model_protocol :: ProtocolFamily
  model_write_channel :: GattChannel
  model_subscribe_channel :: GattChannel
  model_read_capabilities :: CommandSet
  model_encode_read_command :: "CommandKind \<Rightarrow> 'p RequestDisposition option"
  model_reset :: "'d \<Rightarrow> 'd"
  model_on_tick :: "'d \<Rightarrow> MonotonicTimestamp \<Rightarrow> SessionOutput list \<times> 'd"
  model_next_tick_at :: "'d \<Rightarrow> MonotonicTimestamp option"
  model_on_read_command :: "'d \<Rightarrow> CommandKind \<Rightarrow> bool \<times> SessionOutput list \<times> 'd"
  model_handle_notification ::
    "ProtocolFamily \<Rightarrow> GattChannel \<Rightarrow> 'd \<Rightarrow> u8 list \<Rightarrow> MonotonicTimestamp \<Rightarrow> SessionOutput list \<times> 'd"

record 'd ReadOnlySession =
  connected :: bool
  session_decoder :: 'd

definition with_decoder :: "'d \<Rightarrow> 'd ReadOnlySession" where
  "with_decoder d = \<lparr>connected = False, session_decoder = d\<rparr>"

definition session_next_tick_at :: "('p, 'd) ReadOnlyModel \<Rightarrow> 'd ReadOnlySession \<Rightarrow> MonotonicTimestamp option" where
  "session_next_tick_at M s = (if connected s then model_next_tick_at M (session_decoder s) else None)"

datatype ReadOnlyCommandGate = SupportedRead CommandKind | UnsupportedRead CommandKind

definition gate_read_only_command :: "('p, 'd) ReadOnlyModel \<Rightarrow> CommandKind \<Rightarrow> ReadOnlyCommandGate" where
  "gate_read_only_command M kind =
     (if kind_safety_class kind = ReadOnly \<and> commands_contain (model_read_capabilities M) kind
      then SupportedRead kind else UnsupportedRead kind)"

definition push_encoded_read_request :: "('p, 'd) ReadOnlyModel \<Rightarrow> 'p EncodedRequest \<Rightarrow> SessionOutput" where
  "push_encoded_read_request M request =
     Transport (Write (model_write_channel M) (request_payload request) (request_mode request))"

definition unavailable_output :: "CommandKind \<Rightarrow> SessionOutput list" where
  "unavailable_output kind =
     (case unavailable_readback_response kind of None \<Rightarrow> [] | Some r \<Rightarrow> [Event (EventReadOnlyResponse r)])"

definition push_read_request :: "('p, 'd) ReadOnlyModel \<Rightarrow> CommandKind \<Rightarrow> SessionOutput list" where
  "push_read_request M kind =
     (case model_encode_read_command M kind of
        Some (DispositionWrite request) \<Rightarrow> [push_encoded_read_request M request]
      | Some (DispositionWrites requests) \<Rightarrow> map (push_encoded_read_request M) requests
      | Some (DispositionPassive _ command) \<Rightarrow> unavailable_output command
      | None \<Rightarrow> unavailable_output kind)"

definition handle_read_only_command ::
  "('p, 'd) ReadOnlyModel \<Rightarrow> 'd ReadOnlySession \<Rightarrow> CommandKind \<Rightarrow> SessionOutput list \<times> 'd ReadOnlySession" where
  "handle_read_only_command M s command =
     (case gate_read_only_command M command of
        SupportedRead kind \<Rightarrow>
          (if connected s \<or> model_protocol M \<noteq> Vesc then
             (case model_on_read_command M (session_decoder s) kind of (handled, outs, d) \<Rightarrow>
                ((if handled then outs else outs @ push_read_request M kind), s\<lparr>session_decoder := d\<rparr>))
           else ([], s))
      | UnsupportedRead RequestSettings \<Rightarrow> ([Event (EventReadOnlyResponse (ResponseSettings settings_unsupported))], s)
      | UnsupportedRead RequestFaultHistory \<Rightarrow> ([Event (EventReadOnlyResponse (ResponseFaultHistory faults_unsupported))], s)
      | UnsupportedRead RequestBatteryInfo \<Rightarrow> ([Event (EventReadOnlyResponse (ResponseBattery battery_unsupported))], s)
      | UnsupportedRead _ \<Rightarrow> ([], s))"

fun handle_read_only_session ::
  "('p, 'd) ReadOnlyModel \<Rightarrow> 'd ReadOnlySession \<Rightarrow> SessionInput \<Rightarrow> SessionOutput list \<times> 'd ReadOnlySession" where
  "handle_read_only_session M s (InputLinkUp info) =
     (case model_on_tick M (model_reset M (session_decoder s)) (link_monotonic_ms info) of (outs, d) \<Rightarrow>
        (outs @ [Event (LinkUp info), Transport (Subscribe (model_subscribe_channel M))],
         s\<lparr>connected := True, session_decoder := d\<rparr>))"
| "handle_read_only_session M s InputLinkDown =
     ([Event LinkDown], s\<lparr>connected := False, session_decoder := model_reset M (session_decoder s)\<rparr>)"
| "handle_read_only_session M s (InputTick at) =
     (case (if connected s then model_on_tick M (session_decoder s) at else ([], session_decoder s)) of (outs, d) \<Rightarrow>
        (outs @ [Event (EventTick at)], s\<lparr>session_decoder := d\<rparr>))"
| "handle_read_only_session M s (InputNotification channel bytes at) =
     (if connected s then
        (if channel = model_subscribe_channel M then
           (case model_handle_notification M (model_protocol M) channel (session_decoder s) bytes at of (outs, d) \<Rightarrow>
              (outs, s\<lparr>session_decoder := d\<rparr>))
         else ([NotificationIngest (wrong_channel_for_family_bytes (model_protocol M) channel bytes at)], s))
      else ([], s))"
| "handle_read_only_session M s (InputCommand command) = handle_read_only_command M s command"

section \<open>Host\<close>

record 'd HostSession =
  host_session :: "'d ReadOnlySession"
  host_output :: "SessionOutput list"
  host_state :: SessionTelemetry

definition host_new :: "'d ReadOnlySession \<Rightarrow> 'd HostSession" where
  "host_new s = \<lparr>host_session = s, host_output = [], host_state = session_telemetry_default\<rparr>"

fun input_observed_at :: "SessionInput \<Rightarrow> MonotonicTimestamp option" where
  "input_observed_at (InputNotification _ _ at) = Some at"
| "input_observed_at (InputTick at) = Some at"
| "input_observed_at (InputLinkUp _) = None"
| "input_observed_at InputLinkDown = None"
| "input_observed_at (InputCommand _) = None"

text \<open>Battery readbacks get the time of the input, and cell pages their sequence number.\<close>

fun stamp_output :: "MonotonicTimestamp \<Rightarrow> BmsTelemetryState \<Rightarrow> SessionOutput \<Rightarrow> SessionOutput \<times> BmsTelemetryState" where
  "stamp_output at bms (Event (EventReadOnlyResponse (ResponseBattery readback))) =
     (case assign_observation_event_sequence bms (with_observed_at readback at) of (readback', bms') \<Rightarrow>
        (Event (EventReadOnlyResponse (ResponseBattery readback')), bms'))"
| "stamp_output at bms out = (out, bms)"

primrec stamp_outputs ::
  "MonotonicTimestamp \<Rightarrow> BmsTelemetryState \<Rightarrow> SessionOutput list \<Rightarrow> SessionOutput list \<times> BmsTelemetryState" where
  "stamp_outputs at bms [] = ([], bms)"
| "stamp_outputs at bms (out # outs) =
     (case stamp_output at bms out of (out', bms') \<Rightarrow>
        (case stamp_outputs at bms' outs of (outs', bms'') \<Rightarrow> (out' # outs', bms'')))"

definition host_handle :: "('p, 'd) ReadOnlyModel \<Rightarrow> 'd HostSession \<Rightarrow> SessionInput \<Rightarrow> 'd HostSession" where
  "host_handle M h input =
     (case handle_read_only_session M (host_session h) input of (outs, s) \<Rightarrow>
        (case (case input_observed_at input of
                 None \<Rightarrow> (outs, telemetry_bms (host_state h))
               | Some at \<Rightarrow> stamp_outputs at (telemetry_bms (host_state h)) outs) of
           (outs', bms) \<Rightarrow>
             h\<lparr>host_session := s, host_output := host_output h @ outs',
               host_state := observe_outputs RetentionLive ((host_state h)\<lparr>telemetry_bms := bms\<rparr>) outs'\<rparr>))"

definition drain_outputs :: "'d HostSession \<Rightarrow> SessionOutput list \<times> 'd HostSession" where
  "drain_outputs h = (host_output h, h\<lparr>host_output := []\<rparr>)"

definition host_run :: "('p, 'd) ReadOnlyModel \<Rightarrow> 'd ReadOnlySession \<Rightarrow> SessionInput list \<Rightarrow> 'd HostSession" where
  "host_run M s is = foldl (host_handle M) (host_new s) is"

section \<open>Outputs of the host\<close>

lemma stamp_output_keeps:
  assumes "stamp_output at bms out = (out', bms')"
  shows "charge_told out' = charge_told out" "is_link_event out' = is_link_event out"
    "(\<exists>action. out' = Transport action) = (\<exists>action. out = Transport action)"
    "out = Transport action \<Longrightarrow> out' = Transport action"
  using assms by (cases "(at, bms, out)" rule: stamp_output.cases; auto split: prod.splits)+

lemma stamp_outputs_keep:
  "stamp_outputs at bms outs = (outs', bms') \<Longrightarrow>
     map charge_told outs' = map charge_told outs \<and> map is_link_event outs' = map is_link_event outs"
  by (induction outs arbitrary: bms outs' bms') (auto split: prod.splits dest: stamp_output_keeps)

text \<open>The outputs of an input and the charge mode the root shows after it.\<close>

lemma foldl_newer_map: "foldl (\<lambda>old x. newer (f x) old) m xs = foldl (\<lambda>old y. newer y old) m (map f xs)"
  by (induction xs arbitrary: m) simp_all

lemma host_handle_session: "host_session (host_handle M h i) = snd (handle_read_only_session M (host_session h) i)"
  by (simp add: host_handle_def split: prod.splits)

lemma host_handle_charge:
  assumes "handle_read_only_session M (host_session h) i = (outs, s)" and "list_all (\<lambda>x. \<not> is_link_event x) outs"
  shows "ts_charge_mode (telemetry_current (host_state (host_handle M h i))) =
    foldl (\<lambda>old x. newer (charge_told x) old) (ts_charge_mode (telemetry_current (host_state h))) outs"
proof -
  obtain outs' bms where stamped: "(case input_observed_at i of None \<Rightarrow> (outs, telemetry_bms (host_state h))
      | Some at \<Rightarrow> stamp_outputs at (telemetry_bms (host_state h)) outs) = (outs', bms)"
    by fastforce
  then have same: "map charge_told outs' = map charge_told outs" "map is_link_event outs' = map is_link_event outs"
    by (auto dest: stamp_outputs_keep split: option.splits)
  then have "list_all (\<lambda>x. \<not> is_link_event x) outs'"
    using assms(2) by (metis (no_types, lifting) list_all_length length_map nth_map)
  then have "ts_charge_mode (telemetry_current (observe_outputs RetentionLive ((host_state h)\<lparr>telemetry_bms := bms\<rparr>) outs')) =
      foldl (\<lambda>old x. newer (charge_told x) old) (ts_charge_mode (telemetry_current (host_state h))) outs'"
    using observe_outputs_charge [of outs' RetentionLive "(host_state h)\<lparr>telemetry_bms := bms\<rparr>"] by (simp add: list_all_iff)
  then show ?thesis
    using assms(1) stamped same(1) foldl_newer_map [of charge_told _ outs] foldl_newer_map [of charge_told _ outs']
    by (simp add: host_handle_def)
qed

section \<open>Battery pages and telemetry of the host\<close>

fun battery_of :: "SessionOutput \<Rightarrow> BatteryReadback option" where
  "battery_of (Event (EventReadOnlyResponse (ResponseBattery readback))) = Some readback"
| "battery_of _ = None"

fun delta_of :: "SessionOutput \<Rightarrow> TelemetryDelta option" where
  "delta_of (Event (EventTelemetry delta)) = Some delta"
| "delta_of _ = None"

text \<open>States that agree on what is retained of battery pages, their sequence numbers aside.\<close>

definition bms_agree :: "BmsTelemetryState \<Rightarrow> BmsTelemetryState \<Rightarrow> bool" where
  "bms_agree s t \<longleftrightarrow> bms_pages s = bms_pages t \<and> bms_observation_history s = bms_observation_history t"

lemma bms_agree_observe: "bms_agree s t \<Longrightarrow> bms_agree (bms_observe_readback s r) (bms_observe_readback t r)"
  by (auto simp: bms_agree_def bms_observe_readback_def observe_page_def Let_def split: option.splits)

lemma bms_agree_foldl: "bms_agree s t \<Longrightarrow> bms_agree (foldl bms_observe_readback s rs) (foldl bms_observe_readback t rs)"
  by (induction rs arbitrary: s t) (auto intro: bms_agree_observe)

lemma stamp_output_bms: "stamp_output at bms out = (out', bms') \<Longrightarrow> bms_agree bms' bms \<and> delta_of out' = delta_of out"
  by (cases "(at, bms, out)" rule: stamp_output.cases)
    (auto simp: bms_agree_def assign_observation_event_sequence_def split: if_splits)

lemma stamp_outputs_bms:
  "stamp_outputs at bms outs = (outs', bms') \<Longrightarrow> bms_agree bms' bms \<and> map delta_of outs' = map delta_of outs"
proof (induction outs arbitrary: bms outs' bms')
  case (Cons out outs)
  obtain o1 b1 where step: "stamp_output at bms out = (o1, b1)"
    by fastforce
  obtain o2 b2 where rest: "stamp_outputs at b1 outs = (o2, b2)"
    by fastforce
  show ?case
    using Cons.IH [OF rest] stamp_output_bms [OF step] Cons.prems step rest by (auto simp: bms_agree_def)
qed (simp add: bms_agree_def)

lemma observe_output_parts:
  "telemetry_bms (observe_output r s x) =
     (case battery_of x of None \<Rightarrow> telemetry_bms s | Some b \<Rightarrow> bms_observe_readback (telemetry_bms s) b)"
  "\<not> is_link_event x \<Longrightarrow> telemetry_current (observe_output r s x) =
     (case delta_of x of None \<Rightarrow> telemetry_current s | Some d \<Rightarrow> apply_delta (telemetry_current s) d)"
   apply (cases x rule: battery_of.cases; simp)
  apply (cases x rule: delta_of.cases; simp)
  done

lemma observe_outputs_bms:
  "telemetry_bms (observe_outputs r s xs) = foldl bms_observe_readback (telemetry_bms s) (List.map_filter battery_of xs)"
  by (induction xs arbitrary: s) (auto simp: observe_output_parts List.map_filter_simps split: option.splits)

lemma observe_outputs_current:
  "list_all (\<lambda>x. \<not> is_link_event x) xs \<Longrightarrow>
     telemetry_current (observe_outputs r s xs) = foldl apply_delta (telemetry_current s) (List.map_filter delta_of xs)"
  by (induction xs arbitrary: s) (auto simp: observe_output_parts List.map_filter_simps split: option.splits)

text \<open>What one input adds to the outputs of the host and to the root.\<close>

lemma host_handle_parts:
  assumes "handle_read_only_session M (host_session h) i = (outs, s)"
  shows "\<exists>outs' bms. host_output (host_handle M h i) = host_output h @ outs'
    \<and> bms_agree bms (telemetry_bms (host_state h)) \<and> map delta_of outs' = map delta_of outs
    \<and> map is_link_event outs' = map is_link_event outs
    \<and> (outs', bms) = (case input_observed_at i of None \<Rightarrow> (outs, telemetry_bms (host_state h))
        | Some at \<Rightarrow> stamp_outputs at (telemetry_bms (host_state h)) outs)
    \<and> host_state (host_handle M h i) = observe_outputs RetentionLive ((host_state h)\<lparr>telemetry_bms := bms\<rparr>) outs'"
proof -
  obtain outs' bms where stamped: "(case input_observed_at i of None \<Rightarrow> (outs, telemetry_bms (host_state h))
      | Some at \<Rightarrow> stamp_outputs at (telemetry_bms (host_state h)) outs) = (outs', bms)"
    by fastforce
  then have "bms_agree bms (telemetry_bms (host_state h)) \<and> map delta_of outs' = map delta_of outs
      \<and> map is_link_event outs' = map is_link_event outs"
    by (auto simp: bms_agree_def dest: stamp_outputs_bms stamp_outputs_keep split: option.splits)
  then show ?thesis
    using assms stamped by (intro exI [of _ outs'] exI [of _ bms]) (simp add: host_handle_def)
qed

lemma map_filter_cong_map: "map f xs = map f ys \<Longrightarrow> List.map_filter f xs = List.map_filter f ys"
proof (induction xs arbitrary: ys)
  case (Cons x xs)
  then obtain y zs where "ys = y # zs" "f x = f y" "map f xs = map f zs"
    by (auto simp: Cons_eq_map_conv)
  then show ?case
    using Cons.IH [of zs] by (cases "f y") (simp_all add: List.map_filter_simps)
qed (simp add: List.map_filter_simps)

lemma host_handle_current:
  assumes "handle_read_only_session M (host_session h) i = (outs, s)" and "list_all (\<lambda>x. \<not> is_link_event x) outs"
  shows "telemetry_current (host_state (host_handle M h i)) =
    foldl apply_delta (telemetry_current (host_state h)) (List.map_filter delta_of outs)"
proof -
  obtain outs' bms where deltas: "map delta_of outs' = map delta_of outs"
    and links: "map is_link_event outs' = map is_link_event outs"
    and state: "host_state (host_handle M h i) = observe_outputs RetentionLive ((host_state h)\<lparr>telemetry_bms := bms\<rparr>) outs'"
    using host_handle_parts [OF assms(1)] by blast
  have "list_all (\<lambda>x. \<not> is_link_event x) outs'"
    using assms(2) links by (metis (no_types, lifting) list_all_length length_map nth_map)
  then show ?thesis
    using map_filter_cong_map [OF deltas] by (simp add: state observe_outputs_current)
qed

text \<open>The pages retained by the root are those of the readbacks that were put out.\<close>

lemma host_run_bms:
  "bms_agree (telemetry_bms (host_state (host_run M s is)))
     (bms_run (List.map_filter battery_of (host_output (host_run M s is))))"
proof (induction "is" rule: rev_induct)
  case Nil
  show ?case
    by (simp add: host_run_def host_new_def session_telemetry_default_def bms_run_def bms_agree_def
        List.map_filter_simps)
next
  case (snoc i "is")
  let ?h = "host_run M s is"
  obtain outs' bms where out: "host_output (host_handle M ?h i) = host_output ?h @ outs'"
    and agree: "bms_agree bms (telemetry_bms (host_state ?h))"
    and state: "host_state (host_handle M ?h i) = observe_outputs RetentionLive ((host_state ?h)\<lparr>telemetry_bms := bms\<rparr>) outs'"
    using host_handle_parts [OF surjective_pairing, of M ?h i] by blast
  have "bms_agree bms (bms_run (List.map_filter battery_of (host_output ?h)))"
    using agree snoc by (simp add: bms_agree_def)
  then show ?case
    using out state bms_agree_foldl
    by (simp add: host_run_def observe_outputs_bms bms_run_def List.map_filter_def)
qed

section \<open>What every model guarantees\<close>

fun is_transport :: "SessionOutput \<Rightarrow> bool" where
  "is_transport (Transport _) = True"
| "is_transport _ = False"

lemma stamp_outputs_transport:
  "stamp_outputs at bms outs = (outs', bms') \<Longrightarrow> Transport action \<in> set outs' \<Longrightarrow> Transport action \<in> set outs"
proof (induction outs arbitrary: bms outs' bms')
  case (Cons out outs)
  obtain o1 b1 where step: "stamp_output at bms out = (o1, b1)"
    by fastforce
  obtain o2 b2 where rest: "stamp_outputs at b1 outs = (o2, b2)"
    by fastforce
  show ?case
    using Cons.IH [OF rest] Cons.prems step rest stamp_output_keeps(3,4) [OF step] by auto
qed simp

locale read_only_model =
  fixes M :: "('p, 'd) ReadOnlyModel"
  assumes notification_silent:
      "x \<in> set (fst (model_handle_notification M family channel d bytes at)) \<Longrightarrow> \<not> is_transport x"
    and tick_silent: "x \<in> set (fst (model_on_tick M d at)) \<Longrightarrow> \<not> is_transport x"
    and command_passed_on: "model_on_read_command M d kind = (False, [], d)"
begin

text \<open>Only supported read commands write, and they write what the encoder says.\<close>

lemma writes_are_requests:
  assumes "Transport (Write channel bytes mode) \<in> set (fst (handle_read_only_session M s i))"
  shows "\<exists>kind. i = InputCommand kind \<and> kind_safety_class kind = ReadOnly
    \<and> commands_contain (model_read_capabilities M) kind \<and> channel = model_write_channel M
    \<and> (\<exists>r. (model_encode_read_command M kind = Some (DispositionWrite r)
         \<or> (\<exists>rs. model_encode_read_command M kind = Some (DispositionWrites rs) \<and> r \<in> set rs))
        \<and> bytes = request_payload r \<and> mode = request_mode r)"
proof (cases i)
  case (InputLinkUp info)
  then show ?thesis
    using assms tick_silent [of _ "model_reset M (session_decoder s)" "link_monotonic_ms info"]
    by (fastforce split: prod.splits)
next
  case (InputNotification channel' bytes' at)
  then show ?thesis
    using assms notification_silent [of _ "model_protocol M" channel' "session_decoder s" bytes' at]
    by (fastforce split: prod.splits if_splits)
next
  case (InputTick at)
  then show ?thesis
    using assms tick_silent [of _ "session_decoder s" at] by (fastforce split: prod.splits if_splits)
next
  case (InputCommand kind)
  have silent: "x \<in> set (unavailable_output k) \<Longrightarrow> \<not> is_transport x" for x k
    by (auto simp: unavailable_output_def split: option.splits)
  show ?thesis
  proof (cases "kind_safety_class kind = ReadOnly \<and> commands_contain (model_read_capabilities M) kind")
    case True
    then have "Transport (Write channel bytes mode) \<in> set (push_read_request M kind)"
      using assms InputCommand by (simp add: handle_read_only_command_def gate_read_only_command_def command_passed_on
          split: if_splits)
    then show ?thesis
      using True InputCommand silent
      by (fastforce simp: push_read_request_def push_encoded_read_request_def
          split: option.splits RequestDisposition.splits)
  next
    case False
    then show ?thesis
      using assms InputCommand
      by (cases kind) (auto simp: handle_read_only_command_def gate_read_only_command_def)
  qed
qed (use assms in simp)

text \<open>Over a whole run of a host, every write answers a command of the run.\<close>

lemma run_writes:
  "Transport (Write channel bytes mode) \<in> set (host_output (host_run M s is)) \<Longrightarrow>
     \<exists>kind r. InputCommand kind \<in> set is \<and> channel = model_write_channel M
       \<and> (model_encode_read_command M kind = Some (DispositionWrite r)
          \<or> (\<exists>rs. model_encode_read_command M kind = Some (DispositionWrites rs) \<and> r \<in> set rs))
       \<and> bytes = request_payload r \<and> mode = request_mode r"
proof (induction "is" rule: rev_induct)
  case (snoc i "is")
  let ?h = "host_run M s is" and ?w = "Transport (Write channel bytes mode)"
  obtain outs s' where step: "handle_read_only_session M (host_session ?h) i = (outs, s')"
    by fastforce
  obtain outs' bms where out: "host_output (host_handle M ?h i) = host_output ?h @ outs'"
    and stamped: "(outs', bms) = (case input_observed_at i of None \<Rightarrow> (outs, telemetry_bms (host_state ?h))
        | Some at \<Rightarrow> stamp_outputs at (telemetry_bms (host_state ?h)) outs)"
    using host_handle_parts [OF step] by blast
  show ?case
  proof (cases "?w \<in> set outs'")
    case True
    then have "?w \<in> set (fst (handle_read_only_session M (host_session ?h) i))"
      using stamped step stamp_outputs_transport [of _ _ outs outs' bms] by (auto split: option.splits)
    from writes_are_requests [OF this] show ?thesis
      by auto
  next
    case False
    then show ?thesis
      using snoc out by (auto simp: host_run_def)
  qed
qed (simp add: host_run_def host_new_def)

text \<open>A session without a link keeps its decoder on every input but a new link.\<close>

lemma unlinked_session_idle:
  assumes "\<not> connected s" and "\<not> (\<exists>info. i = InputLinkUp info)"
  shows "\<not> connected (snd (handle_read_only_session M s i))
    \<and> (session_decoder (snd (handle_read_only_session M s i)) = session_decoder s
       \<or> i = InputLinkDown)"
proof (cases i)
  case (InputCommand kind)
  then show ?thesis
    using assms(1)
    by (cases kind) (auto simp: handle_read_only_command_def gate_read_only_command_def command_passed_on)
qed (use assms in auto)

end

text \<open>
  Models whose decoders put out only battery pages with a property that the stamping of the host keeps:
  every page the host puts out has it.
\<close>

locale paged_model = read_only_model M for M :: "('p, 'd) ReadOnlyModel" +
  fixes page_ok :: "BatteryReadback \<Rightarrow> bool"
  assumes notification_pages:
      "x \<in> set (fst (model_handle_notification M family channel d bytes at)) \<Longrightarrow> battery_of x = Some r \<Longrightarrow> page_ok r"
    and tick_pages: "x \<in> set (fst (model_on_tick M d at)) \<Longrightarrow> battery_of x = Some r \<Longrightarrow> page_ok r"
    and pageless_ok: "rb_page r = None \<Longrightarrow> page_ok r"
    and stamped_ok: "page_ok r \<Longrightarrow> page_ok (with_observed_at r at)"
    and numbered_ok: "page_ok r \<Longrightarrow> page_ok (r\<lparr>rb_event_sequence := n\<rparr>)"
begin

lemma command_pages:
  assumes "x \<in> set (fst (handle_read_only_command M s kind))" and "battery_of x = Some r"
  shows "page_ok r"
proof -
  have request: "battery_of y = Some r \<Longrightarrow> page_ok r" if "y \<in> set (push_read_request M k)" for y k
    using that
    by (auto simp: push_read_request_def push_encoded_read_request_def unavailable_output_def
        unavailable_readback_response_def battery_unavailable_def readback_empty_def pageless_ok
        split: option.splits RequestDisposition.splits CommandKind.splits)
  show ?thesis
    using assms request
    by (auto simp: handle_read_only_command_def command_passed_on battery_unsupported_def readback_empty_def pageless_ok
        split: ReadOnlyCommandGate.splits CommandKind.splits if_splits)
qed

lemma session_pages:
  assumes "x \<in> set (fst (handle_read_only_session M s i))" and "battery_of x = Some r"
  shows "page_ok r"
proof (cases i)
  case (InputLinkUp info)
  then show ?thesis
    using assms tick_pages [of x "model_reset M (session_decoder s)" "link_monotonic_ms info" r]
    by (auto split: prod.splits)
next
  case (InputNotification channel bytes at)
  then show ?thesis
    using assms notification_pages [of x "model_protocol M" channel "session_decoder s" bytes at r]
    by (auto split: prod.splits if_splits)
next
  case (InputTick at)
  then show ?thesis
    using assms tick_pages [of x "session_decoder s" at r] by (auto split: prod.splits if_splits)
qed (use assms command_pages in auto)

lemma stamp_pages:
  assumes "stamp_outputs at bms outs = (outs', bms')" and "\<forall>x \<in> set outs. \<forall>r. battery_of x = Some r \<longrightarrow> page_ok r"
  shows "\<forall>x \<in> set outs'. \<forall>r. battery_of x = Some r \<longrightarrow> page_ok r"
  using assms
proof (induction outs arbitrary: bms outs' bms')
  case (Cons out outs)
  obtain o1 b1 where step: "stamp_output at bms out = (o1, b1)"
    by fastforce
  obtain o2 b2 where rest: "stamp_outputs at b1 outs = (o2, b2)"
    by fastforce
  have "page_ok r" if "battery_of o1 = Some r" for r
    using step that Cons.prems(2)
    by (cases "(at, bms, out)" rule: stamp_output.cases)
      (auto simp: assign_observation_event_sequence_def stamped_ok numbered_ok split: if_splits)
  then show ?case
    using Cons.IH [OF rest] Cons.prems step rest by auto
qed simp

lemma run_pages: "x \<in> set (host_output (host_run M s is)) \<Longrightarrow> battery_of x = Some r \<Longrightarrow> page_ok r"
proof (induction "is" rule: rev_induct)
  case (snoc i "is")
  let ?h = "host_run M s is"
  obtain outs s' where step: "handle_read_only_session M (host_session ?h) i = (outs, s')"
    by fastforce
  obtain outs' bms where out: "host_output (host_handle M ?h i) = host_output ?h @ outs'"
    and stamped: "(outs', bms) = (case input_observed_at i of None \<Rightarrow> (outs, telemetry_bms (host_state ?h))
        | Some at \<Rightarrow> stamp_outputs at (telemetry_bms (host_state ?h)) outs)"
    using host_handle_parts [OF step] by blast
  have "\<forall>x \<in> set outs. \<forall>r. battery_of x = Some r \<longrightarrow> page_ok r"
    using session_pages [of _ "host_session ?h" i] step by auto
  then have "\<forall>x \<in> set outs'. \<forall>r. battery_of x = Some r \<longrightarrow> page_ok r"
    using stamped stamp_pages [of _ _ outs outs' bms] by (auto split: option.splits)
  then show ?case
    using snoc out by (auto simp: host_run_def)
qed (simp add: host_run_def host_new_def)

end

end
