(* ===== verification/Begode_Pack.thy ===== *)
theory Begode_Pack
  imports Quantities
begin

text \<open>
  Pack evidence for Begode wheels (\<^verbatim>\<open>cutout-protocols/src/begode_telemetry.rs\<close>): annotations of a capture
  name a voltage class, a capacity or a cell layout; what they say is merged field by field, and the
  merged evidence selects a voltage profile and a battery variant.  \<open>Result<_, ()>\<close> is an option, with
  \<open>None\<close> for a conflict.  The merges share one contract, the locale \<open>evidence_merge\<close>: a merge fails exactly
  when two pieces of evidence name one field differently.  Shown: a selection depends only on the set
  of annotations, neither on their order nor on repetitions.
\<close>

section \<open>Evidence and selections\<close>

datatype BegodePackVoltageProfile = Begode84VFullCharge | Begode100VFullCharge

datatype BegodeVoltageEvidence = VoltageClass84V | VoltageClass100V | ObservedPackVoltage int

datatype BegodeVoltageProfileSelection = ProfileMissing | ProfileConflicting | ProfileSelected BegodePackVoltageProfile

record BegodeCapacityEvidence =
  nominal_capacity :: "u32 option"
  reported_energy :: "u32 option"

datatype BegodeCapacitySelection = CapacityMissing | CapacityConflicting | CapacitySelected BegodeCapacityEvidence

datatype BegodeCellModel = Samsung50S

record BegodePackLayoutEvidence =
  cell_model :: "BegodeCellModel option"
  series_cells :: "u8 option"
  parallel_count :: "u8 option"

datatype BegodePackLayoutSelection = LayoutMissing | LayoutConflicting | LayoutSelected BegodePackLayoutEvidence

datatype BegodePackEvidenceConsistency = EvidenceConsistent | EvidenceIncomplete | EvidenceInconsistent

datatype BegodeFalconBatteryVariant = Current100V24S900WhSamsung50S

datatype BegodeFalconBatteryVariantSelection =
    VariantMissing | VariantConflicting | VariantSelected BegodeFalconBatteryVariant

fun scaler_milli :: "BegodePackVoltageProfile \<Rightarrow> int" where
  "scaler_milli Begode84VFullCharge = 1250"
| "scaler_milli Begode100VFullCharge = 1500"

fun profile_series_cells :: "BegodePackVoltageProfile \<Rightarrow> u8" where
  "profile_series_cells Begode84VFullCharge = 20"
| "profile_series_cells Begode100VFullCharge = 24"

fun profile_voltage_range :: "BegodePackVoltageProfile \<Rightarrow> int \<times> int" where
  "profile_voltage_range Begode84VFullCharge = (60000, 84000)"
| "profile_voltage_range Begode100VFullCharge = (72000, 100800)"

fun variant_voltage_profile :: "BegodeFalconBatteryVariant \<Rightarrow> BegodePackVoltageProfile" where
  "variant_voltage_profile Current100V24S900WhSamsung50S = Begode100VFullCharge"

section \<open>Reading annotations\<close>

definition ascii_lower :: "nat \<Rightarrow> nat" where
  "ascii_lower c = (if 65 \<le> c \<and> c \<le> 90 then c + 32 else c)"

definition eq_ignore_ascii_case :: "rust_str \<Rightarrow> rust_str \<Rightarrow> bool" where
  "eq_ignore_ascii_case left right \<longleftrightarrow>
     length left = length right \<and> list_all (\<lambda>(l, r). ascii_lower l = ascii_lower r) (zip left right)"

text \<open>\<open>str::parse\<close> for unsigned and signed numbers: an optional sign, then digits, within the type's range.\<close>

definition parse_unsigned :: "rust_str \<Rightarrow> nat option" where
  "parse_unsigned t =
     (let ds = (case t of [] \<Rightarrow> [] | c # cs \<Rightarrow> if c = 43 then cs else t)
      in if ds = [] \<or> \<not> list_all is_ascii_digit ds then None else Some (digits_value ds))"

definition parse_signed :: "rust_str \<Rightarrow> int option" where
  "parse_signed t =
     (case t of
        c # cs \<Rightarrow>
          if c = 45 then
            (if cs = [] \<or> \<not> list_all is_ascii_digit cs then None else Some (- int (digits_value cs)))
          else map_option int (parse_unsigned t)
      | [] \<Rightarrow> None)"

definition str_parse_u32 :: "rust_str \<Rightarrow> u32 option" where
  "str_parse_u32 t = map_option of_nat (opt_filter (\<lambda>n. n < 2 ^ 32) (parse_unsigned t))"

definition str_parse_u8 :: "rust_str \<Rightarrow> u8 option" where
  "str_parse_u8 t = map_option of_nat (opt_filter (\<lambda>n. n < 2 ^ 8) (parse_unsigned t))"

definition str_parse_i32 :: "rust_str \<Rightarrow> int option" where
  "str_parse_i32 t = opt_filter (\<lambda>n. - (2 ^ 31) \<le> n \<and> n < 2 ^ 31) (parse_signed t)"

definition voltage_class_evidence :: "rust_str \<Rightarrow> BegodeVoltageEvidence option" where
  "voltage_class_evidence text =
     (let trimmed = str_trim text;
          value = (case split_once 45 trimmed of None \<Rightarrow> trimmed | Some (head, _) \<Rightarrow> head)
      in if eq_ignore_ascii_case value (text_of ''84v'') \<or> eq_ignore_ascii_case value (text_of ''84.0v'')
            \<or> eq_ignore_ascii_case value (text_of ''20s'')
         then Some VoltageClass84V
         else if eq_ignore_ascii_case value (text_of ''100v'') \<or> eq_ignore_ascii_case value (text_of ''100.8v'')
            \<or> eq_ignore_ascii_case value (text_of ''24s'')
         then Some VoltageClass100V
         else None)"

definition parse_mv_evidence :: "rust_str \<Rightarrow> BegodeVoltageEvidence option" where
  "parse_mv_evidence text =
     map_option ObservedPackVoltage (opt_filter (\<lambda>mv. 0 \<le> mv) (str_parse_i32 (str_trim text)))"

definition key_among :: "rust_str \<Rightarrow> string list \<Rightarrow> bool" where
  "key_among key names \<longleftrightarrow> list_ex (\<lambda>name. str_trim key = text_of name) names"

definition voltage_evidence_from_annotation :: "rust_str \<Rightarrow> BegodeVoltageEvidence option" where
  "voltage_evidence_from_annotation annotation =
     (case split_once 61 annotation of
        None \<Rightarrow> None
      | Some (key, text) \<Rightarrow>
          if key_among key [''battery'', ''app_voltage_class'', ''charger_voltage_class'']
          then voltage_class_evidence text
          else if key_among key [''charger_voltage'', ''observed_pack_voltage'', ''bms_voltage'', ''app_voltage'']
          then parse_mv_evidence text
          else None)"

definition capacity_evidence_from_annotation :: "rust_str \<Rightarrow> BegodeCapacityEvidence option" where
  "capacity_evidence_from_annotation annotation =
     (case split_once 61 annotation of
        None \<Rightarrow> None
      | Some (key, text) \<Rightarrow>
          (case str_parse_u32 (str_trim text) of
             None \<Rightarrow> None
           | Some parsed \<Rightarrow>
               if key_among key [''nominal_capacity_mah'', ''nominal_capacity'', ''capacity_mah'', ''pack_capacity_mah'']
               then Some \<lparr>nominal_capacity = Some parsed, reported_energy = None\<rparr>
               else if key_among key [''reported_wh'', ''reported_energy'', ''pack_wh'']
               then Some \<lparr>nominal_capacity = None, reported_energy = Some parsed\<rparr>
               else None))"

definition cell_model_evidence :: "rust_str \<Rightarrow> BegodePackLayoutEvidence option" where
  "cell_model_evidence text =
     (let value = str_trim text
      in if eq_ignore_ascii_case value (text_of ''samsung 50s'') \<or> eq_ignore_ascii_case value (text_of ''samsung50s'')
            \<or> eq_ignore_ascii_case value (text_of ''50s'')
         then Some \<lparr>cell_model = Some Samsung50S, series_cells = None, parallel_count = None\<rparr>
         else None)"

definition layout_evidence_from_annotation :: "rust_str \<Rightarrow> BegodePackLayoutEvidence option" where
  "layout_evidence_from_annotation annotation =
     (case split_once 61 annotation of
        None \<Rightarrow> None
      | Some (key, text) \<Rightarrow>
          if key_among key [''cell_model'', ''pack_cell_model''] then cell_model_evidence text
          else if key_among key [''series_cells'', ''pack_series_cells'']
          then map_option (\<lambda>n. \<lparr>cell_model = None, series_cells = Some n, parallel_count = None\<rparr>)
                 (str_parse_u8 (str_trim text))
          else if key_among key [''parallel_count'', ''parallel_cells'', ''parallel_packs'', ''pack_parallel_count'']
          then map_option (\<lambda>n. \<lparr>cell_model = None, series_cells = None, parallel_count = Some n\<rparr>)
                 (str_parse_u8 (str_trim text))
          else None)"

fun evidence_profile :: "BegodeVoltageEvidence \<Rightarrow> BegodePackVoltageProfile option" where
  "evidence_profile VoltageClass84V = Some Begode84VFullCharge"
| "evidence_profile VoltageClass100V = Some Begode100VFullCharge"
| "evidence_profile (ObservedPackVoltage mv) =
     (if mv < 72000 then Some Begode84VFullCharge
      else if 84000 < mv \<and> mv \<le> 100800 then Some Begode100VFullCharge
      else None)"

section \<open>Merging and selecting\<close>

primrec try_fold :: "('s \<Rightarrow> 'e \<Rightarrow> 's option) \<Rightarrow> 's \<Rightarrow> 'e list \<Rightarrow> 's option" where
  "try_fold f s [] = Some s"
| "try_fold f s (e # es) = (case f s e of None \<Rightarrow> None | Some s' \<Rightarrow> try_fold f s' es)"

definition merge_profile_selection ::
  "BegodePackVoltageProfile option \<Rightarrow> BegodePackVoltageProfile \<Rightarrow> BegodePackVoltageProfile option option" where
  "merge_profile_selection selected candidate =
     (case selected of
        Some previous \<Rightarrow> if previous \<noteq> candidate then None else Some (Some previous)
      | None \<Rightarrow> Some (Some candidate))"

fun merge_optional_quantity :: "'a option \<Rightarrow> 'a option \<Rightarrow> 'a option option" where
  "merge_optional_quantity None None = Some None"
| "merge_optional_quantity (Some v) None = Some (Some v)"
| "merge_optional_quantity None (Some v) = Some (Some v)"
| "merge_optional_quantity (Some l) (Some r) = (if l = r then Some (Some l) else None)"

definition merge_capacity_evidence :: "BegodeCapacityEvidence \<Rightarrow> BegodeCapacityEvidence \<Rightarrow> BegodeCapacityEvidence option" where
  "merge_capacity_evidence selected evidence =
     (case merge_optional_quantity (nominal_capacity selected) (nominal_capacity evidence) of
        None \<Rightarrow> None
      | Some c \<Rightarrow>
          (case merge_optional_quantity (reported_energy selected) (reported_energy evidence) of
             None \<Rightarrow> None
           | Some e \<Rightarrow> Some \<lparr>nominal_capacity = c, reported_energy = e\<rparr>))"

definition merge_layout_evidence ::
  "BegodePackLayoutEvidence \<Rightarrow> BegodePackLayoutEvidence \<Rightarrow> BegodePackLayoutEvidence option" where
  "merge_layout_evidence selected evidence =
     (case merge_optional_quantity (cell_model selected) (cell_model evidence) of
        None \<Rightarrow> None
      | Some m \<Rightarrow>
          (case merge_optional_quantity (series_cells selected) (series_cells evidence) of
             None \<Rightarrow> None
           | Some s \<Rightarrow>
               (case merge_optional_quantity (parallel_count selected) (parallel_count evidence) of
                  None \<Rightarrow> None
                | Some p \<Rightarrow> Some \<lparr>cell_model = m, series_cells = s, parallel_count = p\<rparr>)))"

definition profile_selection :: "BegodePackVoltageProfile option option \<Rightarrow> BegodeVoltageProfileSelection" where
  "profile_selection merged =
     (case merged of
        None \<Rightarrow> ProfileConflicting
      | Some (Some profile) \<Rightarrow> ProfileSelected profile
      | Some None \<Rightarrow> ProfileMissing)"

definition select_begode_pack_voltage_profile :: "BegodeVoltageEvidence list \<Rightarrow> BegodeVoltageProfileSelection" where
  "select_begode_pack_voltage_profile evidence =
     profile_selection (try_fold merge_profile_selection None (List.map_filter evidence_profile evidence))"

definition select_begode_pack_voltage_profile_from_annotations :: "rust_str list \<Rightarrow> BegodeVoltageProfileSelection" where
  "select_begode_pack_voltage_profile_from_annotations annotations =
     profile_selection
       (try_fold (\<lambda>selected evidence.
            case evidence_profile evidence of
              None \<Rightarrow> Some selected
            | Some profile \<Rightarrow> merge_profile_selection selected profile)
          None (List.map_filter voltage_evidence_from_annotation annotations))"

definition capacity_default :: BegodeCapacityEvidence where
  "capacity_default = \<lparr>nominal_capacity = None, reported_energy = None\<rparr>"

definition layout_default :: BegodePackLayoutEvidence where
  "layout_default = \<lparr>cell_model = None, series_cells = None, parallel_count = None\<rparr>"

definition select_begode_pack_capacity_from_annotations :: "rust_str list \<Rightarrow> BegodeCapacitySelection" where
  "select_begode_pack_capacity_from_annotations annotations =
     (case try_fold merge_capacity_evidence capacity_default
             (List.map_filter capacity_evidence_from_annotation annotations) of
        None \<Rightarrow> CapacityConflicting
      | Some evidence \<Rightarrow>
          if is_some (nominal_capacity evidence) \<or> is_some (reported_energy evidence)
          then CapacitySelected evidence else CapacityMissing)"

definition select_begode_pack_layout_from_annotations :: "rust_str list \<Rightarrow> BegodePackLayoutSelection" where
  "select_begode_pack_layout_from_annotations annotations =
     (case try_fold merge_layout_evidence layout_default
             (List.map_filter layout_evidence_from_annotation annotations) of
        None \<Rightarrow> LayoutConflicting
      | Some evidence \<Rightarrow>
          if is_some (cell_model evidence) \<or> is_some (series_cells evidence) \<or> is_some (parallel_count evidence)
          then LayoutSelected evidence else LayoutMissing)"

section \<open>Consistency\<close>

text \<open>
  The products of \<open>within_percent\<close> are of 32 bits: an optimised build wraps, a checked build panics.
  The model wraps.
\<close>

definition within_percent :: "u32 \<Rightarrow> u32 \<Rightarrow> u32 \<Rightarrow> bool" where
  "within_percent value expected percent \<longleftrightarrow>
     (let delta = (if value < expected then expected - value else value - expected)
      in delta * 100 \<le> expected * percent)"

definition validate_samsung_50s_capacity :: "BegodeCapacityEvidence \<Rightarrow> u8 \<Rightarrow> u8 \<Rightarrow> BegodePackEvidenceConsistency" where
  "validate_samsung_50s_capacity capacity series parallel =
     (if is_some_and (nominal_capacity capacity) (\<lambda>c. c \<noteq> capacity_from_parallel_packs 5000 parallel)
      then EvidenceInconsistent
      else if is_some_and (reported_energy capacity)
                (\<lambda>e. \<not> within_percent e (energy_from_cell_geometry 18 series parallel) 5)
      then EvidenceInconsistent
      else EvidenceConsistent)"

definition validate_selected_begode_pack_capacity ::
  "BegodeCapacityEvidence \<Rightarrow> BegodePackLayoutEvidence \<Rightarrow> BegodePackEvidenceConsistency" where
  "validate_selected_begode_pack_capacity capacity layout =
     (case (cell_model layout, series_cells layout, parallel_count layout) of
        (Some Samsung50S, Some series, Some parallel) \<Rightarrow> validate_samsung_50s_capacity capacity series parallel
      | _ \<Rightarrow> EvidenceIncomplete)"

definition validate_selected_begode_pack_evidence ::
  "BegodePackVoltageProfile \<Rightarrow> BegodeCapacitySelection \<Rightarrow> BegodePackLayoutEvidence
     \<Rightarrow> BegodePackEvidenceConsistency" where
  "validate_selected_begode_pack_evidence profile capacity layout =
     (if is_some_and (series_cells layout) (\<lambda>n. n \<noteq> profile_series_cells profile) then EvidenceInconsistent
      else
        case capacity of
          CapacityMissing \<Rightarrow> EvidenceConsistent
        | CapacityConflicting \<Rightarrow> EvidenceInconsistent
        | CapacitySelected c \<Rightarrow> validate_selected_begode_pack_capacity c layout)"

definition validate_begode_pack_evidence ::
  "BegodeVoltageProfileSelection \<Rightarrow> BegodeCapacitySelection \<Rightarrow> BegodePackLayoutSelection
     \<Rightarrow> BegodePackEvidenceConsistency" where
  "validate_begode_pack_evidence profile capacity layout =
     (if profile = ProfileConflicting \<or> capacity = CapacityConflicting \<or> layout = LayoutConflicting
      then EvidenceInconsistent
      else
        case (profile, layout) of
          (ProfileSelected p, LayoutSelected l) \<Rightarrow> validate_selected_begode_pack_evidence p capacity l
        | _ \<Rightarrow> EvidenceIncomplete)"

definition select_consistent_begode_falcon_battery_variant ::
  "BegodeVoltageProfileSelection \<Rightarrow> BegodeCapacitySelection \<Rightarrow> BegodePackLayoutSelection
     \<Rightarrow> BegodeFalconBatteryVariantSelection" where
  "select_consistent_begode_falcon_battery_variant profile capacity layout =
     (case (profile, capacity, layout) of
        (ProfileSelected Begode100VFullCharge, CapacitySelected c, LayoutSelected l) \<Rightarrow>
          if cell_model l = Some Samsung50S \<and> series_cells l = Some 24 \<and> parallel_count l = Some 2
             \<and> nominal_capacity c = Some 10000 \<and> reported_energy c = Some 900
          then VariantSelected Current100V24S900WhSamsung50S else VariantMissing
      | _ \<Rightarrow> VariantMissing)"

definition select_begode_falcon_battery_variant ::
  "BegodeVoltageProfileSelection \<Rightarrow> BegodeCapacitySelection \<Rightarrow> BegodePackLayoutSelection
     \<Rightarrow> BegodeFalconBatteryVariantSelection" where
  "select_begode_falcon_battery_variant profile capacity layout =
     (case validate_begode_pack_evidence profile capacity layout of
        EvidenceInconsistent \<Rightarrow> VariantConflicting
      | EvidenceIncomplete \<Rightarrow> VariantMissing
      | EvidenceConsistent \<Rightarrow> select_consistent_begode_falcon_battery_variant profile capacity layout)"

section \<open>Merging as agreement\<close>

text \<open>
  What a merge state was told and what a piece of evidence says are sets of facts, each about one
  field; facts agree when no field is named twice with different values.
\<close>

locale evidence_merge =
  fixes merge :: "'s \<Rightarrow> 'e \<Rightarrow> 's option"
    and told :: "'s \<Rightarrow> 'f set"
    and says :: "'e \<Rightarrow> 'f set"
    and field :: "'f \<Rightarrow> 'k"
  assumes told_inj: "told s = told s' \<Longrightarrow> s = s'"
    and told_agrees: "inj_on field (told s)"
    and merge_agree: "inj_on field (told s \<union> says e) \<Longrightarrow> \<exists>s'. merge s e = Some s' \<and> told s' = told s \<union> says e"
    and merge_conflict: "\<not> inj_on field (told s \<union> says e) \<Longrightarrow> merge s e = None"
begin

lemma fold_facts:
  "(case try_fold merge s es of
      None \<Rightarrow> \<not> inj_on field (told s \<union> (\<Union>e\<in>set es. says e))
    | Some s' \<Rightarrow> told s' = told s \<union> (\<Union>e\<in>set es. says e))"
proof (induction es arbitrary: s)
  case (Cons e es)
  show ?case
  proof (cases "inj_on field (told s \<union> says e)")
    case True
    then obtain s' where s': "merge s e = Some s'" "told s' = told s \<union> says e"
      using merge_agree by blast
    then show ?thesis
      using Cons.IH [of s'] by (auto simp: Un_assoc split: option.splits)
  next
    case False
    then have "\<not> inj_on field (told s \<union> (\<Union>e\<in>set (e # es). says e))"
      by (auto dest: inj_on_subset)
    then show ?thesis
      using merge_conflict [OF False] by simp
  qed
qed simp

lemma fold_conflict_iff:
  "try_fold merge s es = None \<longleftrightarrow> \<not> inj_on field (told s \<union> (\<Union>e\<in>set es. says e))"
  using fold_facts [of s es] told_agrees [of "the (try_fold merge s es)"]
  by (cases "try_fold merge s es") simp_all

text \<open>Only the set of the evidence matters.\<close>

lemma fold_set:
  assumes "set es = set es'"
  shows "try_fold merge s es = try_fold merge s es'"
proof (cases "try_fold merge s es")
  case None
  then show ?thesis
    using fold_conflict_iff [of s es] fold_conflict_iff [of s es'] assms by simp
next
  case (Some t)
  then obtain t' where t': "try_fold merge s es' = Some t'"
    using fold_conflict_iff [of s es] fold_conflict_iff [of s es'] assms by (cases "try_fold merge s es'") auto
  then have "told t' = told t"
    using fold_facts [of s es] fold_facts [of s es'] Some assms by simp
  then show ?thesis
    using Some t' told_inj by metis
qed

end

interpretation profiles: evidence_merge merge_profile_selection set_option "\<lambda>p. {p}" "\<lambda>_. ()"
  by unfold_locales
    (auto simp: merge_profile_selection_def inj_on_def split: option.splits if_splits elim: option.set_cases
      intro: option.expand)

text \<open>Voltages that select no profile are skipped by the fold over annotations.\<close>

interpretation voltages: evidence_merge
    "\<lambda>selected evidence. case evidence_profile evidence of
        None \<Rightarrow> Some selected | Some profile \<Rightarrow> merge_profile_selection selected profile"
    set_option "\<lambda>e. set_option (evidence_profile e)" "\<lambda>_. ()"
proof unfold_locales
  fix s e
  assume "inj_on (\<lambda>_. ()) (set_option s \<union> set_option (evidence_profile e))"
  then show "\<exists>s'. (case evidence_profile e of None \<Rightarrow> Some s | Some profile \<Rightarrow> merge_profile_selection s profile) = Some s'
      \<and> set_option s' = set_option s \<union> set_option (evidence_profile e)"
    using profiles.merge_agree [of s "the (evidence_profile e)"] by (cases "evidence_profile e") simp_all
next
  fix s e
  assume "\<not> inj_on (\<lambda>_. ()) (set_option s \<union> set_option (evidence_profile e))"
  then show "(case evidence_profile e of None \<Rightarrow> Some s | Some profile \<Rightarrow> merge_profile_selection s profile) = None"
    using profiles.merge_conflict [of s "the (evidence_profile e)"] profiles.told_agrees [of s]
    by (cases "evidence_profile e") simp_all
qed (use profiles.told_inj profiles.told_agrees in blast)+

text \<open>Two optional values agree unless both are there and differ.\<close>

definition agree :: "'a option \<Rightarrow> 'a option \<Rightarrow> bool" where
  "agree a b \<longleftrightarrow> a = None \<or> b = None \<or> a = b"

lemma merge_optional_quantity_eq:
  "merge_optional_quantity a b = (if agree a b then Some (if a = None then b else a) else None)"
  by (cases a; cases b) (auto simp: agree_def)

lemma agree_union: "agree a b \<Longrightarrow> set_option (if a = None then b else a) = set_option a \<union> set_option b"
  by (cases a; cases b) (auto simp: agree_def)

lemma agree_iff: "agree a b \<longleftrightarrow> (\<forall>x\<in>set_option a \<union> set_option b. \<forall>y\<in>set_option a \<union> set_option b. x = y)"
  by (cases a; cases b) (auto simp: agree_def)

lemma option_set_inj: "set_option a = set_option b \<Longrightarrow> a = b"
  by (cases a; cases b) auto

definition capacity_facts :: "BegodeCapacityEvidence \<Rightarrow> (u32 + u32) set" where
  "capacity_facts c = Inl ` set_option (nominal_capacity c) \<union> Inr ` set_option (reported_energy c)"

lemma inj_on_isl: "inj_on isl (Inl ` A \<union> Inr ` B) \<longleftrightarrow> (\<forall>x\<in>A. \<forall>y\<in>A. x = y) \<and> (\<forall>x\<in>B. \<forall>y\<in>B. x = y)"
  by (simp add: inj_on_def ball_Un)

lemma capacity_facts_agree:
  "inj_on isl (capacity_facts s \<union> capacity_facts e) \<longleftrightarrow>
     agree (nominal_capacity s) (nominal_capacity e) \<and> agree (reported_energy s) (reported_energy e)"
proof -
  have "capacity_facts s \<union> capacity_facts e =
      Inl ` (set_option (nominal_capacity s) \<union> set_option (nominal_capacity e))
      \<union> Inr ` (set_option (reported_energy s) \<union> set_option (reported_energy e))"
    by (auto simp: capacity_facts_def)
  then show ?thesis
    by (simp only: agree_iff inj_on_isl)
qed

lemma capacity_facts_inj: "capacity_facts s = capacity_facts s' \<Longrightarrow> s = s'"
proof -
  assume eq: "capacity_facts s = capacity_facts s'"
  have "Inl -` capacity_facts c = set_option (nominal_capacity c)"
    "Inr -` capacity_facts c = set_option (reported_energy c)" for c
    by (auto simp: capacity_facts_def)
  then have "set_option (nominal_capacity s) = set_option (nominal_capacity s')"
    "set_option (reported_energy s) = set_option (reported_energy s')"
    using eq by metis+
  then show "s = s'"
    by (auto intro!: BegodeCapacityEvidence.equality intro: option_set_inj)
qed

interpretation capacities: evidence_merge merge_capacity_evidence capacity_facts capacity_facts isl
proof unfold_locales
  fix s e
  assume "inj_on isl (capacity_facts s \<union> capacity_facts e)"
  then have "agree (nominal_capacity s) (nominal_capacity e)" "agree (reported_energy s) (reported_energy e)"
    by (simp_all only: capacity_facts_agree)
  then show "\<exists>s'. merge_capacity_evidence s e = Some s' \<and> capacity_facts s' = capacity_facts s \<union> capacity_facts e"
    by (auto simp: merge_capacity_evidence_def merge_optional_quantity_eq capacity_facts_def agree_union)
next
  fix s
  show "inj_on isl (capacity_facts s)"
    using capacity_facts_agree [of s s] by (simp add: agree_def)
qed (auto simp: capacity_facts_agree merge_capacity_evidence_def merge_optional_quantity_eq
    dest: capacity_facts_inj split: option.splits)

datatype LayoutFact = CellFact BegodeCellModel | SeriesFact u8 | ParallelFact u8

fun layout_field :: "LayoutFact \<Rightarrow> nat" where
  "layout_field (CellFact _) = 0"
| "layout_field (SeriesFact _) = 1"
| "layout_field (ParallelFact _) = 2"

definition layout_facts :: "BegodePackLayoutEvidence \<Rightarrow> LayoutFact set" where
  "layout_facts l = CellFact ` set_option (cell_model l) \<union> SeriesFact ` set_option (series_cells l)
     \<union> ParallelFact ` set_option (parallel_count l)"

lemma inj_on_layout_field:
  "inj_on layout_field (CellFact ` A \<union> SeriesFact ` B \<union> ParallelFact ` C) \<longleftrightarrow>
     (\<forall>x\<in>A. \<forall>y\<in>A. x = y) \<and> (\<forall>x\<in>B. \<forall>y\<in>B. x = y) \<and> (\<forall>x\<in>C. \<forall>y\<in>C. x = y)"
  by (simp add: inj_on_def ball_Un)

lemma layout_facts_agree:
  "inj_on layout_field (layout_facts s \<union> layout_facts e) \<longleftrightarrow>
     agree (cell_model s) (cell_model e) \<and> agree (series_cells s) (series_cells e)
     \<and> agree (parallel_count s) (parallel_count e)"
proof -
  have "layout_facts s \<union> layout_facts e =
      CellFact ` (set_option (cell_model s) \<union> set_option (cell_model e))
      \<union> SeriesFact ` (set_option (series_cells s) \<union> set_option (series_cells e))
      \<union> ParallelFact ` (set_option (parallel_count s) \<union> set_option (parallel_count e))"
    by (auto simp: layout_facts_def)
  then show ?thesis
    by (simp only: agree_iff inj_on_layout_field)
qed

lemma layout_facts_inj: "layout_facts s = layout_facts s' \<Longrightarrow> s = s'"
proof -
  assume eq: "layout_facts s = layout_facts s'"
  have "CellFact -` layout_facts c = set_option (cell_model c)"
    "SeriesFact -` layout_facts c = set_option (series_cells c)"
    "ParallelFact -` layout_facts c = set_option (parallel_count c)" for c
    by (auto simp: layout_facts_def)
  then have "set_option (cell_model s) = set_option (cell_model s')"
    "set_option (series_cells s) = set_option (series_cells s')"
    "set_option (parallel_count s) = set_option (parallel_count s')"
    using eq by metis+
  then show "s = s'"
    by (auto intro!: BegodePackLayoutEvidence.equality intro: option_set_inj)
qed

interpretation layouts: evidence_merge merge_layout_evidence layout_facts layout_facts layout_field
proof unfold_locales
  fix s e
  assume "inj_on layout_field (layout_facts s \<union> layout_facts e)"
  then have "agree (cell_model s) (cell_model e)" "agree (series_cells s) (series_cells e)"
    "agree (parallel_count s) (parallel_count e)"
    by (simp_all only: layout_facts_agree)
  then show "\<exists>s'. merge_layout_evidence s e = Some s' \<and> layout_facts s' = layout_facts s \<union> layout_facts e"
    by (auto simp: merge_layout_evidence_def merge_optional_quantity_eq layout_facts_def agree_union)
next
  fix s
  show "inj_on layout_field (layout_facts s)"
    using layout_facts_agree [of s s] by (simp add: agree_def)
qed (auto simp: layout_facts_agree merge_layout_evidence_def merge_optional_quantity_eq
    dest: layout_facts_inj split: option.splits)

section \<open>Selections\<close>

lemma set_map_filter: "set (List.map_filter f xs) = {y. \<exists>x \<in> set xs. f x = Some y}"
  by (induction xs) (auto simp: map_filter_simps split: option.splits)

text \<open>The profiles that the annotations of a capture speak for.\<close>

definition annotated_profiles :: "rust_str list \<Rightarrow> BegodePackVoltageProfile set" where
  "annotated_profiles annotations =
     {p. \<exists>a \<in> set annotations. \<exists>e. voltage_evidence_from_annotation a = Some e \<and> evidence_profile e = Some p}"

lemma voltage_fold_facts:
  "(\<Union>e\<in>set (List.map_filter voltage_evidence_from_annotation annotations). set_option (evidence_profile e))
     = annotated_profiles annotations"
  by (auto simp: set_map_filter annotated_profiles_def)

lemma voltage_selection_iff:
  "select_begode_pack_voltage_profile_from_annotations annotations =
     (if annotated_profiles annotations = {} then ProfileMissing
      else if annotated_profiles annotations = {Begode84VFullCharge} then ProfileSelected Begode84VFullCharge
      else if annotated_profiles annotations = {Begode100VFullCharge} then ProfileSelected Begode100VFullCharge
      else ProfileConflicting)"
proof -
  have "annotated_profiles annotations \<subseteq> {Begode84VFullCharge, Begode100VFullCharge}"
    by (metis BegodePackVoltageProfile.exhaust insertCI subsetI)
  then show ?thesis
    using voltages.fold_facts [of None "List.map_filter voltage_evidence_from_annotation annotations"]
    unfolding select_begode_pack_voltage_profile_from_annotations_def profile_selection_def voltage_fold_facts
    by (auto simp: inj_on_def split: option.splits)
qed

lemma samsung_pack_consistent:
  "validate_samsung_50s_capacity \<lparr>nominal_capacity = Some 10000, reported_energy = Some 900\<rparr> 24 2 = EvidenceConsistent"
  by (simp add: validate_samsung_50s_capacity_def within_percent_def energy_from_cell_geometry_def
      capacity_from_parallel_packs_def saturating_mul_def is_some_and_def)

text \<open>The one known variant is selected exactly for its own evidence.\<close>

lemma falcon_variant_iff:
  "select_begode_falcon_battery_variant profile capacity layout = VariantSelected v \<longleftrightarrow>
     profile = ProfileSelected Begode100VFullCharge
     \<and> capacity = CapacitySelected \<lparr>nominal_capacity = Some 10000, reported_energy = Some 900\<rparr>
     \<and> layout = LayoutSelected \<lparr>cell_model = Some Samsung50S, series_cells = Some 24, parallel_count = Some 2\<rparr>"
  (is "?l \<longleftrightarrow> ?r")
proof
  assume ?r
  then show ?l
    by (cases v) (simp add: select_begode_falcon_battery_variant_def validate_begode_pack_evidence_def
        validate_selected_begode_pack_evidence_def validate_selected_begode_pack_capacity_def
        samsung_pack_consistent select_consistent_begode_falcon_battery_variant_def is_some_and_def)
next
  assume ?l
  then have "select_consistent_begode_falcon_battery_variant profile capacity layout = VariantSelected v"
    by (simp add: select_begode_falcon_battery_variant_def split: BegodePackEvidenceConsistency.splits)
  then show ?r
    by (auto simp: select_consistent_begode_falcon_battery_variant_def
        split: BegodeVoltageProfileSelection.splits BegodePackVoltageProfile.splits
          BegodeCapacitySelection.splits BegodePackLayoutSelection.splits if_splits)
qed

text \<open>
  The products of \<open>within_percent\<close> overflow: an energy of almost 43 gigawatt hours passes as within
  five percent of the 864 watt hours of the pack.
\<close>

lemma within_percent_overflow: "within_percent 42950537 864 5 \<and> energy_from_cell_geometry 18 24 2 = 864"
  by (simp add: within_percent_def energy_from_cell_geometry_def saturating_mul_def)

section \<open>Properties\<close>



end
