(* ===== verification/Begode_Telemetry.thy ===== *)
theory Begode_Telemetry
  imports Begode_Charging Begode_Pack Session_Output
begin

text \<open>
  The Begode telemetry decoders (\<^verbatim>\<open>cutout-protocols/src/begode_telemetry.rs\<close>): the live frames 0 and 4 and
  the extra frame 7, the unit mode that is learnt from frame 4, the battery estimate, and the context
  that joins them with the charging estimate.  Shown: the battery estimate is a percentage that never
  falls as the wire voltage rises, and decoding fails exactly for a frame of another tag.
\<close>

section \<open>Units and settings\<close>

datatype BegodeUnitMode = Metric | Imperial

datatype LightState = LightOff | LightOn | LightStrobe

type_synonym BegodeSettingsBits = u16
type_synonym BegodeLightMode = u8

definition light_mode_new :: "u8 \<Rightarrow> BegodeLightMode" where
  "light_mode_new v = and v 3"

definition light_state :: "BegodeLightMode \<Rightarrow> LightState option" where
  "light_state m =
     (if m = 0 then Some LightOff else if m = 1 then Some LightOn else if m = 2 then Some LightStrobe else None)"

definition from_settings_bits :: "BegodeSettingsBits \<Rightarrow> BegodeUnitMode" where
  "from_settings_bits bits = (if and bits 1 = 0 then Metric else Imperial)"

fun distance_from_wire :: "BegodeUnitMode \<Rightarrow> u32 \<Rightarrow> Distance" where
  "distance_from_wire Metric v = distance_from_metres (ucast v)"
| "distance_from_wire Imperial v = distance_from_milli_miles v"

fun unit_speed :: "BegodeUnitMode \<Rightarrow> int \<Rightarrow> int" where
  "unit_speed Metric v = v"
| "unit_speed Imperial v = speed_from_milli_kmh_scaled (speed_as_milli_kmh v) 1609344"

fun speed_limit :: "BegodeUnitMode \<Rightarrow> u16 \<Rightarrow> int" where
  "speed_limit Metric v = speed_from_kmh (ucast v)"
| "speed_limit Imperial v = speed_from_mph_floor_kmh (ucast v)"

definition unit_distance :: "BegodeUnitMode \<Rightarrow> Distance \<Rightarrow> Distance" where
  "unit_distance m d =
     distance_from_wire m (let metres = distance_as_metres d in if unat metres < 2 ^ 32 then ucast metres else - 1)"

section \<open>Reading a frame\<close>

datatype BegodeTelemetryError = TelemetryUnexpectedFrameTag u8 u8

definition telemetry_require_tag :: "BegodeFrame \<Rightarrow> u8 \<Rightarrow> BegodeTelemetryError + unit" where
  "telemetry_require_tag frame tag =
     (if begode_tag frame = ucast tag then Inr ()
      else Inl (TelemetryUnexpectedFrameTag tag (tag_byte (begode_tag frame))))"

definition frame_byte :: "BegodeFrame \<Rightarrow> nat \<Rightarrow> u8" where
  "frame_byte frame offset = unwrap_or (cursor_byte (begode_bytes frame) offset) 0"

definition frame_be_u32 :: "BegodeFrame \<Rightarrow> nat \<Rightarrow> u32" where
  "frame_be_u32 frame offset = unwrap_or (cursor_be_u32 (begode_bytes frame) offset) 0"

definition source_estimated :: "'a \<Rightarrow> 'a Measured" where
  "source_estimated v = \<lparr>measured_value = v, measured_source = Estimated, measured_quality = Inferred,
     measured_verification = SourceVerified\<rparr>"

definition settings_entry :: "u16 \<Rightarrow> int \<Rightarrow> SettingsEntry" where
  "settings_entry i v =
     \<lparr>entry_field = \<lparr>raw_id = i, raw_value = v\<rparr>, entry_source = Reported, entry_quality = Known,
      entry_verification = SourceVerified\<rparr>"

definition BEGODE_BATTERY_CURVE :: "(int \<times> BatteryLevel) list" where
  "BEGODE_BATTERY_CURVE = [(5120, from_percent 0), (5440, from_percent 9), (6680, from_percent 100)]"

definition estimate_begode_battery_level :: "int \<Rightarrow> BegodePackVoltageProfile \<Rightarrow> BatteryLevel" where
  "estimate_begode_battery_level voltage profile =
     from_piecewise_linear (uint (from_scaled_voltage voltage (scaler_milli profile))) BEGODE_BATTERY_CURVE"

section \<open>Live frame A\<close>

definition BEGODE_FIELD_FIRMWARE_WORD :: u16 where
  "BEGODE_FIELD_FIRMWARE_WORD = 0x000e"

definition BEGODE_FIELD_BEEPER_VOLUME :: u16 where
  "BEGODE_FIELD_BEEPER_VOLUME = 0x0011"

definition BEGODE_FIELD_SETTINGS_BITS :: u16 where
  "BEGODE_FIELD_SETTINGS_BITS = 0x0406"

definition BEGODE_FIELD_POWER_OFF_TIMER_MINUTES :: u16 where
  "BEGODE_FIELD_POWER_OFF_TIMER_MINUTES = 0x0408"

definition BEGODE_FIELD_TILTBACK_SPEED_KMH :: u16 where
  "BEGODE_FIELD_TILTBACK_SPEED_KMH = 0x040a"

definition BEGODE_FIELD_LED_AND_LIGHT_MODE :: u16 where
  "BEGODE_FIELD_LED_AND_LIGHT_MODE = 0x040d"

definition BEGODE_FIELD_ALERT_FLAGS :: u16 where
  "BEGODE_FIELD_ALERT_FLAGS = 0x040e"

record BegodeLiveATelemetry =
  la_wire_voltage :: WireVoltage
  la_voltage :: int
  la_speed :: int
  la_trip_distance :: Distance
  la_trip_distance_low :: Distance
  la_phase_current :: int
  la_imu_temperature :: int
  la_firmware_word :: u16
  la_beeper_volume :: u8
  la_battery_level :: BatteryLevel

definition live_a_decode ::
  "BegodeFrame \<Rightarrow> BegodePackVoltageProfile \<Rightarrow> BegodeTelemetryError + BegodeLiveATelemetry" where
  "live_a_decode frame profile =
     (case telemetry_require_tag frame 0 of
        Inl e \<Rightarrow> Inl e
      | Inr _ \<Rightarrow>
          (let wire_voltage = frame_be_u16 frame 2
           in Inr \<lparr>la_wire_voltage = wire_voltage,
                   la_voltage = as_scaled_voltage wire_voltage (scaler_milli profile),
                   la_speed = speed_from_centimetres_per_second (frame_be_i16 frame 4),
                   la_trip_distance = distance_from_metres (ucast (frame_be_u32 frame 6)),
                   la_trip_distance_low = distance_from_metres (ucast (frame_be_u16 frame 8)),
                   la_phase_current = current_from_centiamps (frame_be_i16 frame 10),
                   la_imu_temperature = temperature_from_mpu6050_counts (frame_be_i16 frame 12),
                   la_firmware_word = frame_be_u16 frame 14,
                   la_beeper_volume = frame_byte frame 17,
                   la_battery_level =
                     estimate_begode_battery_level (as_scaled_voltage wire_voltage (scaler_milli profile)) profile\<rparr>))"

definition live_a_to_delta_with_units :: "BegodeLiveATelemetry \<Rightarrow> MonotonicTimestamp \<Rightarrow> BegodeUnitMode \<Rightarrow> TelemetryDelta" where
  "live_a_to_delta_with_units t at m =
     (delta_empty at)
       \<lparr>td_speed := Some (source_reported (unit_speed m (la_speed t))),
        td_voltage := Some (source_reported (la_voltage t)),
        td_motor_current := Some (source_reported (la_phase_current t)),
        td_controller_temperature := Some (source_reported (la_imu_temperature t)),
        td_distance := Some (source_reported (unit_distance m (la_trip_distance_low t))),
        td_battery_level_estimated := FieldSet (source_estimated (la_battery_level t))\<rparr>"

definition live_a_to_settings_response :: "BegodeLiveATelemetry \<Rightarrow> ReadOnlyResponse" where
  "live_a_to_settings_response t =
     ResponseSettings (settings_available
       [Some (settings_entry BEGODE_FIELD_FIRMWARE_WORD (uint (la_firmware_word t))),
        Some (settings_entry BEGODE_FIELD_BEEPER_VOLUME (uint (la_beeper_volume t)))])"

section \<open>Live frame B\<close>

record BegodeLiveBTelemetry =
  lb_total_distance :: Distance
  lb_settings_bits :: BegodeSettingsBits
  lb_power_off_timer :: Duration
  lb_tiltback_speed :: int
  lb_led_mode :: u8
  lb_alert_flags :: u8
  lb_light_mode :: BegodeLightMode

definition live_b_decode :: "BegodeFrame \<Rightarrow> BegodeTelemetryError + BegodeLiveBTelemetry" where
  "live_b_decode frame =
     (case telemetry_require_tag frame 4 of
        Inl e \<Rightarrow> Inl e
      | Inr _ \<Rightarrow>
          (let settings_bits = frame_be_u16 frame 6;
               m = from_settings_bits settings_bits
           in Inr \<lparr>lb_total_distance = distance_from_wire m (frame_be_u32 frame 2),
                   lb_settings_bits = settings_bits,
                   lb_power_off_timer = duration_from_minutes (ucast (frame_be_u16 frame 8)),
                   lb_tiltback_speed = speed_limit m (frame_be_u16 frame 10),
                   lb_led_mode = frame_byte frame 13,
                   lb_alert_flags = frame_byte frame 14,
                   lb_light_mode = light_mode_new (frame_byte frame 15)\<rparr>))"

definition live_b_unit_mode :: "BegodeLiveBTelemetry \<Rightarrow> BegodeUnitMode" where
  "live_b_unit_mode t = from_settings_bits (lb_settings_bits t)"

definition live_b_to_delta_with_units :: "BegodeLiveBTelemetry \<Rightarrow> MonotonicTimestamp \<Rightarrow> TelemetryDelta" where
  "live_b_to_delta_with_units t at = (delta_empty at)\<lparr>td_distance := Some (source_reported (lb_total_distance t))\<rparr>"

definition u64_to_i64_saturating :: "u64 \<Rightarrow> int" where
  "u64_to_i64_saturating v = min (uint v) 9223372036854775807"

definition live_b_to_settings_response_with_units :: "BegodeLiveBTelemetry \<Rightarrow> ReadOnlyResponse" where
  "live_b_to_settings_response_with_units t =
     ResponseSettings (settings_available
       [Some (settings_entry BEGODE_FIELD_SETTINGS_BITS (uint (lb_settings_bits t))),
        Some (settings_entry BEGODE_FIELD_POWER_OFF_TIMER_MINUTES
                (u64_to_i64_saturating (duration_as_minutes (lb_power_off_timer t)))),
        Some (settings_entry BEGODE_FIELD_TILTBACK_SPEED_KMH
                (max 0 (min (speed_as_kmh_rounded (lb_tiltback_speed t)) 65535))),
        Some (settings_entry BEGODE_FIELD_LED_AND_LIGHT_MODE
                (uint (or (push_bit 8 (ucast (lb_led_mode t))) (ucast (lb_light_mode t)) :: u16)))])"

definition live_b_to_diagnostics_response :: "BegodeLiveBTelemetry \<Rightarrow> ReadOnlyResponse" where
  "live_b_to_diagnostics_response t =
     ResponseDiagnostics \<lparr>readback_details =
       [Some \<lparr>detail_field = \<lparr>raw_id = BEGODE_FIELD_ALERT_FLAGS, raw_value = uint (lb_alert_flags t)\<rparr>,
              detail_severity = (if lb_alert_flags t = 0 then SeverityInfo else SeverityWarning),
              detail_quality = Known, detail_verification = SourceVerified\<rparr>,
        None, None, None]\<rparr>"

section \<open>Extra frame\<close>

record BegodeExtraTelemetry =
  ex_battery_current :: int
  ex_motor_temperature :: int
  ex_true_pwm :: "int option"

definition extra_decode :: "BegodeFrame \<Rightarrow> BegodeTelemetryError + BegodeExtraTelemetry" where
  "extra_decode frame =
     (case telemetry_require_tag frame 7 of
        Inl e \<Rightarrow> Inl e
      | Inr _ \<Rightarrow>
          Inr \<lparr>ex_battery_current = current_from_centiamps (frame_be_i16 frame 2),
               ex_motor_temperature = temperature_from_celsius (frame_be_i16 frame 6),
               ex_true_pwm =
                 (let p = frame_be_i16 frame 8 * 10 in if - 32768 \<le> p \<and> p \<le> 32767 then Some p else None)\<rparr>)"

definition extra_to_delta :: "BegodeExtraTelemetry \<Rightarrow> MonotonicTimestamp \<Rightarrow> TelemetryDelta" where
  "extra_to_delta t at =
     (delta_empty at)
       \<lparr>td_battery_current := Some (source_reported (current_normalize (ex_battery_current t) PolarityUnknown)),
        td_motor_temperature := Some (source_reported (ex_motor_temperature t)),
        td_pwm := (case ex_true_pwm t of None \<Rightarrow> FieldInvalid | Some v \<Rightarrow> FieldSet (source_reported v))\<rparr>"

section \<open>The telemetry context\<close>

record BegodeTelemetryContext =
  ctx_unit_mode :: BegodeUnitMode
  ctx_charging :: BegodeCharging
  last_charge_mode :: "ChargeMode Measured option"

definition context_default :: BegodeTelemetryContext where
  "context_default = \<lparr>ctx_unit_mode = Metric, ctx_charging = charging_default, last_charge_mode = None\<rparr>"

definition context_reset :: "BegodeTelemetryContext \<Rightarrow> BegodeTelemetryContext" where
  "context_reset c = c\<lparr>ctx_unit_mode := Metric, ctx_charging := charging_default, last_charge_mode := None\<rparr>"

text \<open>The charging estimate reads the speed and the voltage of a delta; its verdicts are estimates.\<close>

definition charging_view :: "TelemetryDelta \<Rightarrow> ChargingDelta" where
  "charging_view d =
     \<lparr>delta_speed = map_option measured_value (td_speed d), delta_voltage = map_option measured_value (td_voltage d)\<rparr>"

definition charging_delta ::
  "BegodeTelemetryContext \<Rightarrow> BegodeFrame \<Rightarrow> TelemetryDelta \<Rightarrow> MonotonicTimestamp
     \<Rightarrow> TelemetryDelta \<times> BegodeTelemetryContext" where
  "charging_delta c frame delta at =
     (case charging_observe (ctx_charging c) frame (charging_view delta) at of (verdict, charging) \<Rightarrow>
        (let mode = measured_estimated verdict
         in (delta\<lparr>td_charge_mode := Some mode\<rparr>,
             c\<lparr>ctx_charging := charging, last_charge_mode := Some mode\<rparr>)))"

definition changed_charging_delta ::
  "BegodeTelemetryContext \<Rightarrow> ChargeMode Measured \<Rightarrow> MonotonicTimestamp
     \<Rightarrow> TelemetryDelta option \<times> BegodeTelemetryContext" where
  "changed_charging_delta c mode at =
     (if last_charge_mode c = Some mode \<or> (last_charge_mode c = None \<and> measured_value mode = ChargeUnknown)
      then (None, c)
      else (Some ((delta_empty at)\<lparr>td_charge_mode := Some mode\<rparr>), c\<lparr>last_charge_mode := Some mode\<rparr>))"

definition bms_charging_delta ::
  "BegodeTelemetryContext \<Rightarrow> BegodeFrame \<Rightarrow> MonotonicTimestamp \<Rightarrow> TelemetryDelta option \<times> BegodeTelemetryContext" where
  "bms_charging_delta c frame at =
     (case charging_observe (ctx_charging c) frame (charging_view (delta_empty at)) at of (verdict, charging) \<Rightarrow>
        changed_charging_delta (c\<lparr>ctx_charging := charging\<rparr>) (measured_estimated verdict) at)"

definition context_charging_tick ::
  "BegodeTelemetryContext \<Rightarrow> MonotonicTimestamp \<Rightarrow> TelemetryDelta option \<times> BegodeTelemetryContext" where
  "context_charging_tick c at =
     (case charging_tick (ctx_charging c) at of (verdict, charging) \<Rightarrow>
        changed_charging_delta (c\<lparr>ctx_charging := charging\<rparr>) (measured_estimated verdict) at)"

definition next_charging_tick_at :: "BegodeTelemetryContext \<Rightarrow> MonotonicTimestamp option" where
  "next_charging_tick_at c = next_tick_at (ctx_charging c)"

definition observe_live_b :: "BegodeTelemetryContext \<Rightarrow> BegodeLiveBTelemetry \<Rightarrow> BegodeTelemetryContext" where
  "observe_live_b c t = c\<lparr>ctx_unit_mode := live_b_unit_mode t\<rparr>"

definition context_live_a_to_delta ::
  "BegodeTelemetryContext \<Rightarrow> BegodeLiveATelemetry \<Rightarrow> MonotonicTimestamp \<Rightarrow> TelemetryDelta" where
  "context_live_a_to_delta c t at = live_a_to_delta_with_units t at (ctx_unit_mode c)"

section \<open>Lemmas\<close>

text \<open>The charge mode the context last showed, an unknown one before the first.\<close>

definition shown_charge :: "BegodeTelemetryContext \<Rightarrow> ChargeMode" where
  "shown_charge c = (case last_charge_mode c of None \<Rightarrow> ChargeUnknown | Some m \<Rightarrow> measured_value m)"

text \<open>Every verdict of the context carries the provenance of an estimate.\<close>

definition context_ok :: "BegodeTelemetryContext \<Rightarrow> bool" where
  "context_ok c \<longleftrightarrow> (\<forall>m. last_charge_mode c = Some m \<longrightarrow> m = measured_estimated (measured_value m))"

lemma measured_estimated_value [simp]: "measured_value (measured_estimated v) = v"
  by (simp add: measured_estimated_def)

lemma changed_charging_delta_shows:
  assumes "changed_charging_delta c (measured_estimated v) at = (delta, c')" and "context_ok c"
  shows "shown_charge c' = v \<and> context_ok c' \<and> ctx_charging c' = ctx_charging c
    \<and> last_charge_mode c' = newer (case delta of None \<Rightarrow> None | Some d \<Rightarrow> td_charge_mode d) (last_charge_mode c)"
  using assms
  by (auto simp: changed_charging_delta_def shown_charge_def context_ok_def newer_def split: if_splits option.splits)

lemma charging_delta_shows:
  assumes "charging_delta c frame delta at = (delta', c')"
  shows "shown_charge c' = fst (charging_observe (ctx_charging c) frame (charging_view delta) at)
    \<and> context_ok c' \<and> last_charge_mode c' = td_charge_mode delta' \<and> td_charge_mode delta' \<noteq> None"
  using assms by (auto simp: charging_delta_def shown_charge_def context_ok_def Let_def split: prod.splits)

text \<open>Decoding fails exactly for a frame of another tag.\<close>

lemma live_a_decode_iff: "(\<exists>t. live_a_decode frame profile = Inr t) \<longleftrightarrow> begode_tag frame = 0"
  by (simp add: live_a_decode_def telemetry_require_tag_def Let_def)

lemma live_b_decode_iff: "(\<exists>t. live_b_decode frame = Inr t) \<longleftrightarrow> begode_tag frame = 4"
  by (simp add: live_b_decode_def telemetry_require_tag_def Let_def)

lemma extra_decode_iff: "(\<exists>t. extra_decode frame = Inr t) \<longleftrightarrow> begode_tag frame = 7"
  by (simp add: extra_decode_def telemetry_require_tag_def)

text \<open>Scaling to the pack voltage and back gives the wire voltage again.\<close>

lemma wire_voltage_roundtrip:
  "from_scaled_voltage (as_scaled_voltage w (scaler_milli profile)) (scaler_milli profile) = w"
proof -
  have w: "0 \<le> uint w" "uint w \<le> 65535"
    using uint_bounded [of w] by simp_all
  have "((uint w * 10 * k + 500) div 1000 * 100 + k div 2) div k = uint w" if "k = 1250 \<or> k = 1500" for k
  proof -
    define q where "q = (uint w * 10 * k + 500) div 1000"
    have "1000 * q \<le> uint w * 10 * k + 500" "uint w * 10 * k + 500 < 1000 * q + 1000"
      unfolding q_def by linarith+
    then show ?thesis
      unfolding q_def [symmetric] using that
      by (intro int_div_pos_eq [where r = "q * 100 + k div 2 - k * uint w"]) (elim disjE; simp)+
  qed
  then have eq: "(as_scaled_voltage w k * 100 + k sdiv 2) sdiv k = uint w" if "k = 1250 \<or> k = 1500" for k
    using that w by (auto simp: as_scaled_voltage_eq pos_imp_zdiv_nonneg_iff)
  have "from_scaled_voltage (as_scaled_voltage w k) k = w" if "k = 1250 \<or> k = 1500" for k
  proof -
    have "0 < k"
      using that by auto
    then show ?thesis
      using w by (simp add: from_scaled_voltage_def eq [OF that] Let_def del: sdiv_pos)
  qed
  then show ?thesis
    by (cases profile) simp_all
qed

lemma battery_curve_rises: "rising_curve BEGODE_BATTERY_CURVE"
  by (simp add: BEGODE_BATTERY_CURVE_def from_percent_def)

lemma live_a_battery_level:
  assumes "live_a_decode frame profile = Inr t"
  shows "la_battery_level t = from_piecewise_linear (uint (la_wire_voltage t)) BEGODE_BATTERY_CURVE
    \<and> la_voltage t = as_scaled_voltage (la_wire_voltage t) (scaler_milli profile)"
  using assms
  by (auto simp: live_a_decode_def estimate_begode_battery_level_def wire_voltage_roundtrip Let_def
      split: sum.splits)

lemma battery_level_ends:
  "v \<le> 5120 \<Longrightarrow> from_piecewise_linear v BEGODE_BATTERY_CURVE = 0"
  "6680 \<le> v \<Longrightarrow> from_piecewise_linear v BEGODE_BATTERY_CURVE = 100"
proof -
  have full: "interpolate 9 100 6680 5440 6680 = 100"
    using interpolate_eq [of 5440 6680 6680 9 100] by (simp add: round_div_pos word_uint_eq_iff)
  show "v \<le> 5120 \<Longrightarrow> from_piecewise_linear v BEGODE_BATTERY_CURVE = 0"
    by (simp add: from_piecewise_linear_def BEGODE_BATTERY_CURVE_def from_percent_def)
  show "6680 \<le> v \<Longrightarrow> from_piecewise_linear v BEGODE_BATTERY_CURVE = 100"
    using full by (cases "v = 6680") (simp_all add: from_piecewise_linear_def BEGODE_BATTERY_CURVE_def from_percent_def)
qed

text \<open>A negative voltage, which no frame carries, would count as a full battery.\<close>

lemma negative_voltage_full: "estimate_begode_battery_level (- 5000) Begode100VFullCharge = 100"
proof -
  have "from_scaled_voltage (- 5000) 1500 = 65535"
    by (simp add: from_scaled_voltage_def signed_divide_int_def)
  then show ?thesis
    by (simp add: estimate_begode_battery_level_def battery_level_ends)
qed

lemma as_scaled_voltage_mono: "v \<le> w \<Longrightarrow> as_scaled_voltage v (scaler_milli p) \<le> as_scaled_voltage w (scaler_milli p)"
proof -
  assume "v \<le> w"
  then have "uint v \<le> uint w"
    by (simp add: word_le_def)
  then show ?thesis
    by (cases p) (simp_all add: as_scaled_voltage_eq zdiv_mono1)
qed

lemma battery_level_mono:
  "v \<le> w \<Longrightarrow> from_piecewise_linear v BEGODE_BATTERY_CURVE \<le> from_piecewise_linear w BEGODE_BATTERY_CURVE
     \<and> from_piecewise_linear w BEGODE_BATTERY_CURVE \<le> 100"
  using piecewise_linear_mono [OF battery_curve_rises [unfolded BEGODE_BATTERY_CURVE_def], of v w]
    piecewise_linear_range [OF battery_curve_rises [unfolded BEGODE_BATTERY_CURVE_def], of w]
  by (simp add: BEGODE_BATTERY_CURVE_def from_percent_def word_le_def)

section \<open>Properties\<close>

text \<open>
   The battery estimate of a live frame is a percentage: it depends on the wire voltage alone, lies
  between 0 and 100 percent, is 0 up to 51.2 V and 100 from 66.8 V on the wire, and a frame with a
  higher wire voltage never shows a lower level or a lower pack voltage.
\<close>

lemma begode_battery_estimate:
  assumes "live_a_decode f profile = Inr a" and "live_a_decode g profile = Inr b"
    and "la_wire_voltage a \<le> la_wire_voltage b"
  shows "la_battery_level a \<le> la_battery_level b \<and> la_battery_level b \<le> 100 \<and> la_voltage a \<le> la_voltage b
    \<and> (la_wire_voltage b \<le> 5120 \<longrightarrow> la_battery_level b = 0)
    \<and> (6680 \<le> la_wire_voltage a \<longrightarrow> la_battery_level a = 100)"
proof -
  have level: "la_battery_level a = from_piecewise_linear (uint (la_wire_voltage a)) BEGODE_BATTERY_CURVE"
    "la_battery_level b = from_piecewise_linear (uint (la_wire_voltage b)) BEGODE_BATTERY_CURVE"
    and volts: "la_voltage a \<le> la_voltage b"
    using live_a_battery_level [OF assms(1)] live_a_battery_level [OF assms(2)]
      as_scaled_voltage_mono [OF assms(3)] by simp_all
  show ?thesis
    using battery_level_mono [of "uint (la_wire_voltage a)" "uint (la_wire_voltage b)"] assms(3) volts
      battery_level_ends
    unfolding level by (simp add: word_le_def)
qed

lemma begode_battery_estimate_example:
  "\<exists>a b. live_a_decode \<lparr>begode_bytes = [0x55, 0xaa, 0x14, 0x00] @ replicate 20 0\<rparr> Begode100VFullCharge = Inr a
     \<and> live_a_decode \<lparr>begode_bytes = [0x55, 0xaa, 0x1a, 0x18] @ replicate 20 0\<rparr> Begode100VFullCharge = Inr b
     \<and> la_battery_level a \<le> la_battery_level b \<and> la_battery_level b \<le> 100 \<and> la_voltage a \<le> la_voltage b"
proof -
  define f g :: BegodeFrame
    where "f = \<lparr>begode_bytes = [0x55, 0xaa, 0x14, 0x00] @ replicate 20 0\<rparr>"
      and "g = \<lparr>begode_bytes = [0x55, 0xaa, 0x1a, 0x18] @ replicate 20 0\<rparr>"
  have tags: "begode_tag f = 0" "begode_tag g = 0"
    by (simp_all add: f_def g_def begode_tag_def slice_get_def unwrap_or_def)
  then obtain a b where ab: "live_a_decode f Begode100VFullCharge = Inr a" "live_a_decode g Begode100VFullCharge = Inr b"
    using live_a_decode_iff by blast
  have "la_wire_voltage a = frame_be_u16 f 2" "la_wire_voltage b = frame_be_u16 g 2"
    using ab by (auto simp: live_a_decode_def Let_def split: sum.splits)
  then have "la_wire_voltage a = 0x1400" "la_wire_voltage b = 0x1a18"
    by (simp_all add: frame_be_u16_eq f_def g_def u16_from_be_bytes_def)
  then show ?thesis
    using begode_battery_estimate [OF ab] ab unfolding f_def g_def by auto
qed

end
