(* ===== verification/Begode_Session.thy ===== *)
theory Begode_Session
  imports Begode_Telemetry Host_Session
begin

text \<open>
  The Begode session (\<^verbatim>\<open>cutout-protocols/src/session.rs\<close>): the notification decoder that feeds the
  reassembler, dispatches frames to the decoders and the charging estimate, as the decoder of a
  read-only model run by a host session.  Counts of events are
  natural numbers: a notification yields at most three for every 24 bytes, far below saturation.
  Shown: the loop reports what a scan of the bytes reports, and the charge mode the session root shows
  is always the verdict of the charging estimate on the latest evidence, and the session never writes
  anything but its two requests.
\<close>

section \<open>Decoder\<close>

definition BEGODE_DATA_CHANNEL :: GattChannel where
  "BEGODE_DATA_CHANNEL =
     [0x00, 0x00, 0xff, 0xe1, 0x00, 0x00, 0x10, 0x00, 0x80, 0x00, 0x00, 0x80, 0x5f, 0x9b, 0x34, 0xfb]"

record BegodeNotificationDecoder =
  dec_reassembler :: BegodeFrameReassembler
  dec_context :: BegodeTelemetryContext
  dec_profile :: BegodePackVoltageProfile

definition with_pack_voltage_profile :: "BegodePackVoltageProfile \<Rightarrow> BegodeNotificationDecoder" where
  "with_pack_voltage_profile profile =
     \<lparr>dec_reassembler = begode_default, dec_context = context_default, dec_profile = profile\<rparr>"

definition decoder_reset :: "BegodeNotificationDecoder \<Rightarrow> BegodeNotificationDecoder" where
  "decoder_reset d =
     d\<lparr>dec_reassembler := begode_reset (dec_reassembler d), dec_context := context_reset (dec_context d)\<rparr>"

definition decoder_next_tick_at :: "BegodeNotificationDecoder \<Rightarrow> MonotonicTimestamp option" where
  "decoder_next_tick_at d = next_charging_tick_at (dec_context d)"

definition on_tick :: "BegodeNotificationDecoder \<Rightarrow> MonotonicTimestamp \<Rightarrow> SessionOutput list \<times> BegodeNotificationDecoder" where
  "on_tick d at =
     (case context_charging_tick (dec_context d) at of (delta, context) \<Rightarrow>
        ((case delta of None \<Rightarrow> [] | Some t \<Rightarrow> [Event (EventTelemetry t)]), d\<lparr>dec_context := context\<rparr>))"

definition retain_known_frame ::
  "ProtocolFamily \<Rightarrow> GattChannel \<Rightarrow> BegodeFrame \<Rightarrow> MonotonicTimestamp \<Rightarrow> SessionOutput" where
  "retain_known_frame family channel frame at =
     NotificationIngest (ParserGap (evidence_new family channel (length (begode_bytes frame)) at)
       \<lparr>gap_classifier = ClassifierTag (begode_tag frame), gap_body_len = length (begode_bytes frame),
        gap_retained_payload = retained_from_bytes (begode_bytes frame)\<rparr>)"

text \<open>The outputs of one frame, the number of events they count as, and the context after it.\<close>

definition push_begode_frame ::
  "ProtocolFamily \<Rightarrow> GattChannel \<Rightarrow> BegodeTelemetryContext \<Rightarrow> BegodePackVoltageProfile \<Rightarrow> BegodeFrame
     \<Rightarrow> MonotonicTimestamp \<Rightarrow> SessionOutput list \<times> nat \<times> BegodeTelemetryContext" where
  "push_begode_frame family channel context profile frame at =
     (let tag = begode_tag frame;
          retained = retain_known_frame family channel frame at
      in if tag = 0 then
           (case live_a_decode frame profile of
              Inr t \<Rightarrow>
                (case charging_delta context frame (context_live_a_to_delta context t at) at of (delta, context') \<Rightarrow>
                   ([Event (EventTelemetry delta), Event (EventReadOnlyResponse (live_a_to_settings_response t)),
                     retained], 2, context'))
            | Inl _ \<Rightarrow> (push_parser_error MalformedFrame, 2, context))
         else if tag = 1 \<or> tag = 2 \<or> tag = 3 then
           (case bms_charging_delta context frame at of
              (Some delta, context') \<Rightarrow> ([retained, Event (EventTelemetry delta)], 1, context')
            | (None, context') \<Rightarrow> ([retained], 0, context'))
         else if tag = 4 then
           (case live_b_decode frame of
              Inr t \<Rightarrow>
                (let context1 = observe_live_b context t
                 in case charging_delta context1 frame (live_b_to_delta_with_units t at) at of (delta, context') \<Rightarrow>
                      ([Event (EventTelemetry delta),
                        Event (EventReadOnlyResponse (live_b_to_settings_response_with_units t)),
                        Event (EventReadOnlyResponse (live_b_to_diagnostics_response t)), retained], 3, context'))
            | Inl _ \<Rightarrow> (push_parser_error MalformedFrame, 2, context))
         else if tag = 7 then
           (case extra_decode frame of
              Inr t \<Rightarrow>
                (case charging_delta context frame (extra_to_delta t at) at of (delta, context') \<Rightarrow>
                   ([Event (EventTelemetry delta), retained], 1, context'))
            | Inl _ \<Rightarrow> (push_parser_error MalformedFrame, 2, context))
         else (push_parser_error MalformedFrame, 2, context))"

text \<open>
  The loop over the bytes of a notification of length \<open>len\<close>, with the events counted and whether a frame
  was completed; at the end one outcome for the notification, unless complete frames were all silent.
\<close>

primrec notification_loop ::
  "ProtocolFamily \<Rightarrow> GattChannel \<Rightarrow> nat \<Rightarrow> MonotonicTimestamp \<Rightarrow> BegodeNotificationDecoder \<Rightarrow> nat \<Rightarrow> bool
     \<Rightarrow> u8 list \<Rightarrow> SessionOutput list \<times> BegodeNotificationDecoder" where
  "notification_loop family channel len at d event_count completed_frame [] =
     (if completed_frame \<and> event_count = 0 then ([], d)
      else ([NotificationIngest
               (if 0 < event_count then SemanticEvents (evidence_new family channel len at) event_count
                else BufferedFragment (evidence_new family channel len at))], d))"
| "notification_loop family channel len at d event_count completed_frame (byte # bytes) =
     (case begode_feed_byte_result_at at (dec_reassembler d) byte of
        (Inr (BegodeComplete frame), r) \<Rightarrow>
          (case push_begode_frame family channel (dec_context d) (dec_profile d) frame at of (outs, n, context) \<Rightarrow>
             (case notification_loop family channel len at (d\<lparr>dec_reassembler := r, dec_context := context\<rparr>)
                     (event_count + n) True bytes of
                (outs', d') \<Rightarrow> (outs @ outs', d')))
      | (Inr BegodeSeeking, r) \<Rightarrow>
          notification_loop family channel len at (d\<lparr>dec_reassembler := r\<rparr>) event_count completed_frame bytes
      | (Inr BegodeBuffered, r) \<Rightarrow>
          notification_loop family channel len at (d\<lparr>dec_reassembler := r\<rparr>) event_count completed_frame bytes
      | (Inl _, r) \<Rightarrow>
          (push_parser_error MalformedFrame
             @ [NotificationIngest (ParserDiagnostic (evidence_new family channel len at) MalformedFrame)],
           d\<lparr>dec_reassembler := r\<rparr>))"

definition handle_notification ::
  "ProtocolFamily \<Rightarrow> GattChannel \<Rightarrow> BegodeNotificationDecoder \<Rightarrow> u8 list \<Rightarrow> MonotonicTimestamp
     \<Rightarrow> SessionOutput list \<times> BegodeNotificationDecoder" where
  "handle_notification family channel d bytes at =
     notification_loop family channel (length bytes) at d 0 False bytes"

section \<open>Model\<close>

definition FALCON_READ_CAPABILITIES :: CommandSet where
  "FALCON_READ_CAPABILITIES =
     from_commands [RequestIdentity, RequestFirmwareInfo, RequestTelemetry, RequestBatteryInfo]"

definition begode_falcon_model :: "(FalconProbe, BegodeNotificationDecoder) ReadOnlyModel" where
  "begode_falcon_model =
     \<lparr>model_protocol = BegodeGotway, model_write_channel = BEGODE_DATA_CHANNEL,
      model_subscribe_channel = BEGODE_DATA_CHANNEL, model_read_capabilities = FALCON_READ_CAPABILITIES,
      model_encode_read_command = falcon_encode_command, model_reset = decoder_reset, model_on_tick = on_tick,
      model_next_tick_at = decoder_next_tick_at, model_on_read_command = (\<lambda>d kind. (False, [], d)),
      model_handle_notification = handle_notification\<rparr>"

definition falcon_session :: "BegodeNotificationDecoder ReadOnlySession" where
  "falcon_session = with_decoder (with_pack_voltage_profile Begode100VFullCharge)"

text \<open>A host over a Falcon session.\<close>

abbreviation falcon_run :: "SessionInput list \<Rightarrow> BegodeNotificationDecoder HostSession" where
  "falcon_run \<equiv> host_run begode_falcon_model falcon_session"

section \<open>The loop and the scan\<close>

text \<open>The frames of a notification pushed one after the other, as the scan of its bytes finds them.\<close>

primrec push_events ::
  "ProtocolFamily \<Rightarrow> GattChannel \<Rightarrow> nat \<Rightarrow> MonotonicTimestamp \<Rightarrow> BegodePackVoltageProfile \<Rightarrow> BegodeTelemetryContext
     \<Rightarrow> nat \<Rightarrow> bool \<Rightarrow> (BegodeFrameError + BegodeFrame) list \<Rightarrow> SessionOutput list \<times> BegodeTelemetryContext" where
  "push_events family channel len at profile context event_count completed_frame [] =
     (if completed_frame \<and> event_count = 0 then []
      else [NotificationIngest
               (if 0 < event_count then SemanticEvents (evidence_new family channel len at) event_count
                else BufferedFragment (evidence_new family channel len at))], context)"
| "push_events family channel len at profile context event_count completed_frame (ev # evs) =
     (case ev of
        Inr frame \<Rightarrow>
          (case push_begode_frame family channel context profile frame at of (outs, n, context') \<Rightarrow>
             (case push_events family channel len at profile context' (event_count + n) True evs of
                (outs', context'') \<Rightarrow> (outs @ outs', context'')))
      | Inl _ \<Rightarrow>
          (push_parser_error MalformedFrame
             @ [NotificationIngest (ParserDiagnostic (evidence_new family channel len at) MalformedFrame)], context))"

lemma notification_loop_scan:
  "notification_loop family channel len at d event_count completed_frame bytes =
     (case begode_scan at (dec_reassembler d) bytes of (evs, r) \<Rightarrow>
        (case push_events family channel len at (dec_profile d) (dec_context d) event_count completed_frame evs of
           (outs, context) \<Rightarrow> (outs, d\<lparr>dec_reassembler := r, dec_context := context\<rparr>)))"
proof (induction bytes arbitrary: d event_count completed_frame)
  case (Cons b bytes)
  show ?case
    by (auto simp: Cons.IH split: prod.splits sum.splits BegodeFrameParseResult.splits)
qed simp

section \<open>Charge mode\<close>

text \<open>What a list of outputs leaves of the charge mode shown before it.\<close>

definition charge_after :: "ChargeMode Measured option \<Rightarrow> SessionOutput list \<Rightarrow> ChargeMode Measured option" where
  "charge_after old outs = foldl (\<lambda>m x. newer (charge_told x) m) old outs"

text \<open>The outputs keep the shown charge mode equal to the context's.\<close>

definition charge_synced :: "BegodeTelemetryContext \<Rightarrow> SessionOutput list \<Rightarrow> BegodeTelemetryContext \<Rightarrow> bool" where
  "charge_synced c outs c' \<longleftrightarrow>
     context_ok c' \<and> charge_after (last_charge_mode c) outs = last_charge_mode c' \<and> list_all (\<lambda>x. \<not> is_link_event x) outs"

lemma newer_simps [simp]: "newer None old = old" "newer (Some v) old = Some v"
  by (simp_all add: newer_def)

lemma push_parser_error_synced: "context_ok c \<Longrightarrow> charge_synced c (push_parser_error e) c"
  by (simp add: charge_synced_def charge_after_def push_parser_error_def)

lemma charging_delta_synced:
  assumes "charging_delta c' frame delta at = (delta', c'')" and "list_all (\<lambda>x. charge_told x = None \<and> \<not> is_link_event x) rest"
  shows "charge_synced c (Event (EventTelemetry delta') # rest) c''"
proof -
  have "foldl (\<lambda>m x. newer (charge_told x) m) m rest = m" for m
    using assms(2) by (induction rest) simp_all
  then show ?thesis
    using charging_delta_shows [OF assms(1)] assms(2)
    by (auto simp: charge_synced_def charge_after_def newer_def list_all_iff split: option.splits)
qed

lemma changed_charging_delta_synced:
  assumes "changed_charging_delta c (measured_estimated v) at = (delta, c')" and "context_ok c"
  shows "charge_synced c (case delta of None \<Rightarrow> [] | Some d \<Rightarrow> [Event (EventTelemetry d)]) c' \<and> shown_charge c' = v"
  using changed_charging_delta_shows [OF assms]
  by (auto simp: charge_synced_def charge_after_def split: option.splits)

lemma retained_silent [simp]:
  "charge_told (retain_known_frame family channel frame at) = None"
  "\<not> is_link_event (retain_known_frame family channel frame at)"
  by (simp_all add: retain_known_frame_def)

lemma charging_update_ok:
  "context_ok (c\<lparr>ctx_charging := x\<rparr>) = context_ok c" "context_ok (observe_live_b c t) = context_ok c"
  by (simp_all add: context_ok_def observe_live_b_def)

lemma charge_synced_retained:
  "charge_synced c outs c' \<Longrightarrow> charge_synced c (retain_known_frame family channel frame at # outs) c'"
  by (simp add: charge_synced_def charge_after_def)

lemma push_begode_frame_synced:
  assumes "push_begode_frame family channel c profile frame at = (outs, n, c')" and "context_ok c"
  shows "charge_synced c outs c'"
proof -
  note silent = charging_delta_synced [where c = c and rest = "[_, _]"]
    charging_delta_synced [where c = c and rest = "[_]"] charging_delta_synced [where c = c and rest = "[_, _, _]"]
  consider (a) "begode_tag frame = 0" | (bms) "begode_tag frame = 1 \<or> begode_tag frame = 2 \<or> begode_tag frame = 3"
    | (b) "begode_tag frame = 4" | (extra) "begode_tag frame = 7"
    | (other) "begode_tag frame \<notin> {0, 1, 2, 3, 4, 7}"
    by blast
  then show ?thesis
  proof cases
    case a
    obtain t where "live_a_decode frame profile = Inr t"
      using a live_a_decode_iff by blast
    then show ?thesis
      using assms a by (auto simp: push_begode_frame_def Let_def split: prod.splits intro!: silent)
  next
    case bms
    obtain v ch where obs: "charging_observe (ctx_charging c) frame (charging_view (delta_empty at)) at = (v, ch)"
      by fastforce
    obtain delta c1 where ch: "changed_charging_delta (c\<lparr>ctx_charging := ch\<rparr>) (measured_estimated v) at = (delta, c1)"
      by fastforce
    have "charge_synced c (case delta of None \<Rightarrow> [] | Some d \<Rightarrow> [Event (EventTelemetry d)]) c1"
      using changed_charging_delta_synced [OF ch] assms(2)
      by (simp add: charging_update_ok charge_synced_def)
    then show ?thesis
      using assms(1) bms obs ch
      by (auto simp: push_begode_frame_def bms_charging_delta_def Let_def split: option.splits
          dest: charge_synced_retained)
  next
    case b
    obtain t where "live_b_decode frame = Inr t"
      using b live_b_decode_iff by blast
    then show ?thesis
      using assms b by (auto simp: push_begode_frame_def Let_def split: prod.splits intro!: silent)
  next
    case extra
    obtain t where "extra_decode frame = Inr t"
      using extra extra_decode_iff by blast
    then show ?thesis
      using assms extra by (auto simp: push_begode_frame_def Let_def split: prod.splits intro!: silent)
  next
    case other
    then show ?thesis
      using assms push_parser_error_synced [OF assms(2), of MalformedFrame]
      by (auto simp: push_begode_frame_def Let_def)
  qed
qed

lemma charge_synced_append:
  "charge_synced c outs c' \<Longrightarrow> charge_synced c' outs' c'' \<Longrightarrow> charge_synced c (outs @ outs') c''"
  by (simp add: charge_synced_def charge_after_def)

lemma charge_synced_silent:
  "context_ok c \<Longrightarrow> list_all (\<lambda>x. charge_told x = None \<and> \<not> is_link_event x) outs \<Longrightarrow> charge_synced c outs c"
  by (induction outs) (simp_all add: charge_synced_def charge_after_def)

lemma push_events_synced:
  "context_ok c \<Longrightarrow>
     charge_synced c (fst (push_events family channel len at profile c k completed evs))
       (snd (push_events family channel len at profile c k completed evs))"
proof (induction evs arbitrary: c k completed)
  case Nil
  then show ?case
    by (simp add: charge_synced_silent)
next
  case (Cons ev evs)
  show ?case
  proof (cases ev)
    case (Inl e)
    then show ?thesis
      using Cons.prems by (simp add: charge_synced_silent push_parser_error_def)
  next
    case (Inr frame)
    obtain outs n c' where push: "push_begode_frame family channel c profile frame at = (outs, n, c')"
      by (cases "push_begode_frame family channel c profile frame at") auto
    have "charge_synced c outs c'"
      by (rule push_begode_frame_synced [OF push Cons.prems])
    moreover from this have "context_ok c'"
      by (simp add: charge_synced_def)
    ultimately show ?thesis
      using Cons.IH [of c' "k + n" True] charge_synced_append Inr push by (simp add: case_prod_unfold)
  qed
qed

lemma handle_notification_synced:
  assumes "handle_notification family channel d bytes at = (outs, d')" and "context_ok (dec_context d)"
  shows "charge_synced (dec_context d) outs (dec_context d')"
  using assms push_events_synced [OF assms(2)]
  by (auto simp: handle_notification_def notification_loop_scan case_prod_unfold)

lemma on_tick_synced:
  assumes "on_tick d at = (outs, d')" and "context_ok (dec_context d)"
  shows "charge_synced (dec_context d) outs (dec_context d')
    \<and> shown_charge (dec_context d') = fst (charging_tick (ctx_charging (dec_context d)) at)"
proof -
  obtain v ch where tick: "charging_tick (ctx_charging (dec_context d)) at = (v, ch)"
    by fastforce
  obtain delta c where c: "changed_charging_delta (dec_context d\<lparr>ctx_charging := ch\<rparr>) (measured_estimated v) at = (delta, c)"
    by fastforce
  then show ?thesis
    using changed_charging_delta_synced [OF c] assms tick
    by (auto simp: on_tick_def context_charging_tick_def charging_update_ok charge_synced_def)
qed

text \<open>The delta a frame decodes to before the charging estimate is added.\<close>

definition frame_delta ::
  "BegodeTelemetryContext \<Rightarrow> BegodePackVoltageProfile \<Rightarrow> BegodeFrame \<Rightarrow> MonotonicTimestamp \<Rightarrow> TelemetryDelta" where
  "frame_delta c profile frame at =
     (case (live_a_decode frame profile, live_b_decode frame, extra_decode frame) of
        (Inr t, _, _) \<Rightarrow> context_live_a_to_delta c t at
      | (_, Inr t, _) \<Rightarrow> live_b_to_delta_with_units t at
      | (_, _, Inr t) \<Rightarrow> extra_to_delta t at
      | _ \<Rightarrow> delta_empty at)"

lemma decode_tags:
  "begode_tag frame \<noteq> 0 \<Longrightarrow> \<exists>e. live_a_decode frame profile = Inl e"
  "begode_tag frame \<noteq> 4 \<Longrightarrow> \<exists>e. live_b_decode frame = Inl e"
  "begode_tag frame \<noteq> 7 \<Longrightarrow> \<exists>e. extra_decode frame = Inl e"
  by (simp_all add: live_a_decode_def live_b_decode_def extra_decode_def telemetry_require_tag_def)

lemma push_begode_frame_shows:
  assumes "begode_tag frame \<in> {0, 1, 2, 3, 4, 7}" and "context_ok c"
  shows "shown_charge (snd (snd (push_begode_frame family channel c profile frame at))) =
    fst (charging_observe (ctx_charging c) frame (charging_view (frame_delta c profile frame at)) at)"
proof -
  have told: "shown_charge (snd (charging_delta c' frame delta at)) =
      fst (charging_observe (ctx_charging c') frame (charging_view delta) at)" for c' delta
    using charging_delta_shows [of c' frame delta at] by (cases "charging_delta c' frame delta at") simp
  consider (a) "begode_tag frame = 0" | (bms) "begode_tag frame \<in> {1, 2, 3}"
    | (b) "begode_tag frame = 4" | (extra) "begode_tag frame = 7"
    using assms(1) by blast
  then show ?thesis
  proof cases
    case a
    then obtain t where "live_a_decode frame profile = Inr t"
      using live_a_decode_iff by blast
    then show ?thesis
      using a by (simp add: push_begode_frame_def frame_delta_def case_prod_unfold told)
  next
    case bms
    then have "frame_delta c profile frame at = delta_empty at"
      using decode_tags(1) [of frame profile] decode_tags(2,3) [of frame]
      by (auto simp: frame_delta_def split: sum.splits)
    moreover obtain v ch where obs: "charging_observe (ctx_charging c) frame (charging_view (delta_empty at)) at = (v, ch)"
      by fastforce
    moreover obtain delta c1 where
        ch: "changed_charging_delta (c\<lparr>ctx_charging := ch\<rparr>) (measured_estimated v) at = (delta, c1)"
      by fastforce
    moreover have "shown_charge c1 = v"
      using changed_charging_delta_synced [OF ch] assms(2) by (simp add: charging_update_ok)
    ultimately show ?thesis
      using bms by (auto simp: push_begode_frame_def bms_charging_delta_def Let_def split: option.splits)
  next
    case b
    then obtain t e where "live_b_decode frame = Inr t" "live_a_decode frame profile = Inl e"
      using live_b_decode_iff decode_tags(1) [of frame profile] by fastforce
    then show ?thesis
      using b by (simp add: push_begode_frame_def frame_delta_def case_prod_unfold told observe_live_b_def Let_def)
  next
    case extra
    then obtain t e e' where "extra_decode frame = Inr t" "live_a_decode frame profile = Inl e" "live_b_decode frame = Inl e'"
      using extra_decode_iff decode_tags(1) [of frame profile] decode_tags(2) [of frame] by fastforce
    then show ?thesis
      using extra by (simp add: push_begode_frame_def frame_delta_def case_prod_unfold told)
  qed
qed

section \<open>Session and root\<close>

lemma falcon_model_simps [simp]:
  "model_protocol begode_falcon_model = BegodeGotway"
  "model_write_channel begode_falcon_model = BEGODE_DATA_CHANNEL"
  "model_subscribe_channel begode_falcon_model = BEGODE_DATA_CHANNEL"
  "model_read_capabilities begode_falcon_model = FALCON_READ_CAPABILITIES"
  "model_encode_read_command begode_falcon_model = falcon_encode_command"
  "model_reset begode_falcon_model = decoder_reset" "model_on_tick begode_falcon_model = on_tick"
  "model_next_tick_at begode_falcon_model = decoder_next_tick_at"
  "model_on_read_command begode_falcon_model d kind = (False, [], d)"
  "model_handle_notification begode_falcon_model = handle_notification"
  by (simp_all add: begode_falcon_model_def)

definition session_context :: "BegodeNotificationDecoder HostSession \<Rightarrow> BegodeTelemetryContext" where
  "session_context h = dec_context (session_decoder (host_session h))"

definition host_ok :: "BegodeNotificationDecoder HostSession \<Rightarrow> bool" where
  "host_ok h \<longleftrightarrow>
     context_ok (session_context h)
     \<and> ts_charge_mode (telemetry_current (host_state h)) = last_charge_mode (session_context h)"

text \<open>The charge mode the root shows.\<close>

definition charge_mode_shown :: "'d HostSession \<Rightarrow> ChargeMode" where
  "charge_mode_shown h =
     (case ts_charge_mode (telemetry_current (host_state h)) of None \<Rightarrow> ChargeUnknown | Some m \<Rightarrow> measured_value m)"

lemma host_ok_shown: "host_ok h \<Longrightarrow> charge_mode_shown h = shown_charge (session_context h)"
  by (simp add: host_ok_def charge_mode_shown_def shown_charge_def)

lemma synced_host:
  assumes "handle_read_only_session begode_falcon_model (host_session h) i = (outs, s)"
    and "charge_synced (session_context h) outs (dec_context (session_decoder s))" and "host_ok h"
  shows "host_ok (host_handle begode_falcon_model h i)"
  using assms host_handle_charge [OF assms(1)]
  by (simp add: host_ok_def session_context_def host_handle_session charge_synced_def charge_after_def)

lemma charging_tick_default: "fst (charging_tick charging_default at) = ChargeUnknown"
  by (simp add: charging_tick_def charging_default_def evidence_stale_def stale_def source_evidence_def
      charging_conclude_def charging_ready_def expire_trend_def is_some_and_def)

lemma reset_context: "context_reset c = context_default"
  by (simp add: context_reset_def context_default_def)

lemma context_default_ok: "context_ok context_default"
  by (simp add: context_ok_def context_default_def)

text \<open>The tick of a fresh link says nothing.\<close>

lemma on_tick_reset:
  "\<exists>d'. on_tick (decoder_reset d) at = ([], d') \<and> last_charge_mode (dec_context d') = None"
  using charging_tick_default [of at]
  by (auto simp: on_tick_def decoder_reset_def reset_context context_default_def context_charging_tick_def
      changed_charging_delta_def split: prod.splits)

lemma forget_charging_live [simp]: "ts_charge_mode (forget_charging RetentionLive t) = None"
  by (simp add: forget_charging_def)

lemma read_response_silent: "charge_told (Event (EventReadOnlyResponse r)) = None" "\<not> is_link_event (Event (EventReadOnlyResponse r))"
  by simp_all

lemma command_silent:
  assumes "handle_read_only_command begode_falcon_model s kind = (outs, s')"
  shows "list_all (\<lambda>x. charge_told x = None \<and> \<not> is_link_event x) outs \<and> session_decoder s' = session_decoder s"
  using assms
  by (cases kind)
    (auto simp: handle_read_only_command_def gate_read_only_command_def push_read_request_def
      push_encoded_read_request_def unavailable_output_def unavailable_readback_response_def
      falcon_encode_command_def falcon_encode_def falcon_write_def split: if_splits)

lemma host_handle_ok:
  assumes "host_ok h"
  shows "host_ok (host_handle begode_falcon_model h i)"
proof (cases i)
  case (InputLinkUp info)
  then show ?thesis
    using on_tick_reset [of "session_decoder (host_session h)" "link_monotonic_ms info"]
    by (auto simp: host_handle_def host_ok_def session_context_def context_ok_def)
next
  case InputLinkDown
  then show ?thesis
    by (simp add: host_handle_def host_ok_def session_context_def decoder_reset_def reset_context
        context_default_ok) (simp add: context_default_def)
next
  case (InputNotification channel bytes at)
  obtain outs s where step: "handle_read_only_session begode_falcon_model (host_session h) i = (outs, s)"
    by fastforce
  have "charge_synced (session_context h) outs (dec_context (session_decoder s))"
    using step InputNotification assms
      handle_notification_synced [of BegodeGotway channel "session_decoder (host_session h)" bytes at]
    by (auto simp: host_ok_def session_context_def charge_synced_silent split: if_splits prod.splits)
  then show ?thesis
    by (rule synced_host [OF step]) (rule assms)
next
  case (InputTick at)
  obtain outs s where step: "handle_read_only_session begode_falcon_model (host_session h) i = (outs, s)"
    by fastforce
  have "charge_synced (session_context h) outs (dec_context (session_decoder s))"
    using step InputTick assms on_tick_synced [of "session_decoder (host_session h)" at]
    by (auto simp: host_ok_def session_context_def charge_synced_def charge_after_def split: if_splits prod.splits)
  then show ?thesis
    by (rule synced_host [OF step]) (rule assms)
next
  case (InputCommand kind)
  obtain outs s where step: "handle_read_only_session begode_falcon_model (host_session h) i = (outs, s)"
    by fastforce
  then have "charge_synced (session_context h) outs (dec_context (session_decoder s))"
    using InputCommand assms command_silent [of "host_session h" kind outs s] charge_synced_silent
    by (simp add: host_ok_def session_context_def)
  then show ?thesis
    by (rule synced_host [OF step]) (rule assms)
qed

interpretation host: reducer "host_handle begode_falcon_model" "host_new falcon_session" host_ok
  using host_handle_ok context_default_ok
  by unfold_locales (simp_all add: host_ok_def session_context_def host_new_def falcon_session_def with_decoder_def
      with_pack_voltage_profile_def session_telemetry_default_def snapshot_default_def context_default_def)

lemma falcon_run_ok: "host_ok (falcon_run is)"
  unfolding host_run_def by (rule host.inv_run)

lemma host_run_snoc: "host_run M s (is @ [i]) = host_handle M (host_run M s is) i"
  by (simp add: host_run_def)

lemma tick_shows_verdict:
  assumes "host_ok h" and "connected (host_session h)"
  shows "charge_mode_shown (host_handle begode_falcon_model h (InputTick at)) =
    fst (charging_tick (ctx_charging (session_context h)) at)"
proof -
  obtain outs d where tick: "on_tick (session_decoder (host_session h)) at = (outs, d)"
    by fastforce
  have "shown_charge (dec_context d) = fst (charging_tick (ctx_charging (session_context h)) at)"
    using on_tick_synced [OF tick] assms(1) by (simp add: host_ok_def session_context_def)
  moreover have "session_context (host_handle begode_falcon_model h (InputTick at)) = dec_context d"
    using tick assms(2) by (simp add: session_context_def host_handle_session)
  ultimately show ?thesis
    using host_ok_shown [OF host_handle_ok [OF assms(1), of "InputTick at"]] by simp
qed

text \<open>The decoder keeps the promises of a read-only model.\<close>

lemma push_begode_frame_silent:
  "x \<in> set (fst (push_begode_frame family channel c profile frame at)) \<Longrightarrow> \<not> is_transport x"
  by (auto simp: push_begode_frame_def retain_known_frame_def push_parser_error_def Let_def
      split: if_splits sum.splits prod.splits option.splits)

lemma push_events_silent:
  "x \<in> set (fst (push_events family channel len at profile c k completed evs)) \<Longrightarrow> \<not> is_transport x"
proof (induction evs arbitrary: c k completed)
  case (Cons ev evs)
  show ?case
  proof (cases ev)
    case (Inr frame)
    obtain outs n c' where push: "push_begode_frame family channel c profile frame at = (outs, n, c')"
      by (cases "push_begode_frame family channel c profile frame at") auto
    then show ?thesis
      using Cons.prems Cons.IH [of c' "k + n" True] push_begode_frame_silent [of x family channel c profile frame at] Inr
      by (auto simp: case_prod_unfold)
  qed (use Cons.prems in \<open>auto simp: push_parser_error_def\<close>)
qed (auto split: if_splits)

lemma handle_notification_silent:
  "x \<in> set (fst (handle_notification family channel d bytes at)) \<Longrightarrow> \<not> is_transport x"
  using push_events_silent by (auto simp: handle_notification_def notification_loop_scan case_prod_unfold)

interpretation falcon: read_only_model begode_falcon_model
  by unfold_locales
    (auto simp: handle_notification_silent on_tick_def split: prod.splits option.splits)

section \<open>Properties\<close>

text \<open>
  C7.  The charge mode shown for a Begode wheel is never out of date: whatever links, notifications and
  ticks a session sees, the root shows the charge mode the decoder last reported; after a tick on a
  connected link this is the verdict of the charging estimate at that time, although only changes are
  reported; every frame of a known kind leaves the verdict on its own evidence; and a lost link leaves
  the charge mode unknown.
\<close>

theorem begode_charge_mode_current:
  "ts_charge_mode (telemetry_current (host_state (falcon_run is))) = last_charge_mode (session_context (falcon_run is))
   \<and> (connected (host_session (falcon_run is)) \<longrightarrow>
       charge_mode_shown (falcon_run (is @ [InputTick at])) =
         fst (charging_tick (ctx_charging (session_context (falcon_run is))) at))
   \<and> (begode_tag frame \<in> {0, 1, 2, 3, 4, 7} \<longrightarrow>
       shown_charge (snd (snd (push_begode_frame BegodeGotway channel (session_context (falcon_run is)) profile frame at))) =
         fst (charging_observe (ctx_charging (session_context (falcon_run is))) frame
           (charging_view (frame_delta (session_context (falcon_run is)) profile frame at)) at))
   \<and> charge_mode_shown (falcon_run (is @ [InputLinkDown])) = ChargeUnknown"
proof -
  have ok: "host_ok (falcon_run is)"
    by (rule falcon_run_ok)
  have "charge_mode_shown (falcon_run (is @ [InputLinkDown])) = ChargeUnknown"
    by (simp add: host_run_snoc host_handle_def charge_mode_shown_def)
  then show ?thesis
    using ok tick_shows_verdict [OF ok] push_begode_frame_shows [of frame "session_context (falcon_run is)"]
    by (simp add: host_run_snoc host_ok_def)
qed

theorem begode_charge_mode_current_witness:
  "connected (host_session (falcon_run [InputLinkUp \<lparr>link_monotonic_ms = 5, link_max_write_len = None\<rparr>]))
   \<and> charge_mode_shown (falcon_run ([InputLinkUp \<lparr>link_monotonic_ms = 5, link_max_write_len = None\<rparr>] @ [InputTick 9])) =
       ChargeUnknown"
proof -
  let ?is = "[InputLinkUp \<lparr>link_monotonic_ms = 5, link_max_write_len = None\<rparr>]"
  have up: "connected (host_session (falcon_run ?is))"
    by (simp add: host_run_def host_handle_session split: prod.splits)
  moreover have "fst (charging_tick (ctx_charging (session_context (falcon_run ?is))) 9) = ChargeUnknown"
    by (simp add: host_run_def host_handle_session host_new_def falcon_session_def with_decoder_def session_context_def
        on_tick_def decoder_reset_def with_pack_voltage_profile_def reset_context context_default_def
        context_charging_tick_def changed_charging_delta_def charging_tick_def charging_default_def evidence_stale_def
        stale_def source_evidence_def charging_conclude_def charging_ready_def expire_trend_def is_some_and_def)
  ultimately show ?thesis
    using begode_charge_mode_current [of ?is 9] by simp
qed



end
