(* ===== verification/Veteran_Bms.thy ===== *)
theory Veteran_Bms
  imports Veteran_Frame Parser Session_Output
begin

text \<open>
  The BMS pages of Veteran and NOSFET wheels (\<^verbatim>\<open>cutout-protocols/src/veteran_bms.rs\<close> and the payloads of
  \<^verbatim>\<open>session.rs\<close>): the page a frame carries, its cell voltages, temperatures or pack currents, and the
  battery readback they become.  Shown: the four cell pages have sixty different cell numbers, a page
  that decodes fills its readback, and the selector of a readback fixes the kind of its page.
\<close>

section \<open>Pages\<close>

definition VETERAN_BMS_CELL_VALUES_PER_PAGE :: nat where
  "VETERAN_BMS_CELL_VALUES_PER_PAGE = 15"

definition VETERAN_BMS_TEMPERATURE_VALUES_PER_PAGE :: nat where
  "VETERAN_BMS_TEMPERATURE_VALUES_PER_PAGE = 6"

definition VETERAN_BMS_CELL_VALUES_OFFSET :: nat where
  "VETERAN_BMS_CELL_VALUES_OFFSET = 53"

definition VETERAN_BMS_TEMPERATURE_VALUES_OFFSET :: nat where
  "VETERAN_BMS_TEMPERATURE_VALUES_OFFSET = 47"

definition VETERAN_BMS_PACK_CURRENT_VALUES_OFFSET :: nat where
  "VETERAN_BMS_PACK_CURRENT_VALUES_OFFSET = 69"

definition VETERAN_BMS_SELECTOR_OFFSET :: nat where
  "VETERAN_BMS_SELECTOR_OFFSET = 46"

definition VETERAN_BMS_CRC_TRAILER_LEN :: nat where
  "VETERAN_BMS_CRC_TRAILER_LEN = 4"

definition body_offset_from_frame_offset :: "nat \<Rightarrow> nat" where
  "body_offset_from_frame_offset offset = offset - (VETERAN_BMS_SELECTOR_OFFSET + 1)"

definition classify_veteran_bms_selector :: "ProtocolSelector \<Rightarrow> BatteryPageKind" where
  "classify_veteran_bms_selector selector =
     (if selector = 0 \<or> selector = 4 then KindMetadata
      else if selector = 1 \<or> selector = 2 \<or> selector = 5 \<or> selector = 6 then KindCellVoltage
      else if selector = 3 \<or> selector = 7 then KindTemperature
      else KindRaw)"

text \<open>The first cell number, the pack and the first position in the pack of a cell page.\<close>

definition veteran_observation_page_identity :: "ProtocolSelector \<Rightarrow> (u16 \<times> u8 \<times> u16) option" where
  "veteran_observation_page_identity selector =
     map_option (\<lambda>(pack_index, pack_page_ordinal).
         let pack_first = pack_page_ordinal * 15
         in (ucast pack_index * 2 * 15 + pack_first, pack_index, pack_first))
       (if selector = 1 then Some (0, 0)
        else if selector = 2 then Some (0, 1)
        else if selector = 5 then Some (1, 0)
        else if selector = 6 then Some (1, 1)
        else None)"

record VeteranBmsPageEvidence =
  vb_selector :: ProtocolSelector
  vb_kind :: BatteryPageKind
  vb_body :: "u8 list"

definition bms_page_from_frame :: "VeteranFrame \<Rightarrow> VeteranBmsPageEvidence option" where
  "bms_page_from_frame frame =
     (let bytes = veteran_bytes frame;
          body_start = VETERAN_BMS_SELECTOR_OFFSET + 1
      in case slice_get bytes VETERAN_BMS_SELECTOR_OFFSET of
           None \<Rightarrow> None
         | Some selector \<Rightarrow>
             if length bytes < VETERAN_BMS_CRC_TRAILER_LEN
                \<or> length bytes - VETERAN_BMS_CRC_TRAILER_LEN < body_start
             then None
             else
               (case cursor_range bytes
                       \<lparr>range_start = body_start,
                        range_len = length bytes - VETERAN_BMS_CRC_TRAILER_LEN - body_start\<rparr> of
                  None \<Rightarrow> None
                | Some body \<Rightarrow>
                    Some \<lparr>vb_selector = selector, vb_kind = classify_veteran_bms_selector selector,
                          vb_body = body\<rparr>))"

datatype VeteranBmsPageError =
    InvalidCellCount u8 nat nat
  | PageBodyTooShort u8 nat nat
  | InvalidTemperaturePage u8
  | InvalidMetadataPage u8

record VeteranBmsCellPage =
  vc_selector :: ProtocolSelector
  vc_cell_voltage :: "int list"

record VeteranBmsTemperaturePage =
  vt_selector :: ProtocolSelector
  vt_temperatures :: "int list"

record VeteranBmsMetadataPage =
  vm_selector :: ProtocolSelector
  vm_current_0 :: int
  vm_current_1 :: int

text \<open>The values of a page: the body from an offset of the frame, for a number of bytes.\<close>

definition page_values :: "ProtocolSelector \<Rightarrow> u8 list \<Rightarrow> nat \<Rightarrow> nat \<Rightarrow> VeteranBmsPageError + u8 list" where
  "page_values selector body frame_offset len =
     (let offset = body_offset_from_frame_offset frame_offset
      in case slice_range body offset (offset + len) of
           Some values \<Rightarrow> Inr values
         | None \<Rightarrow> Inl (PageBodyTooShort selector (offset + len) (length body)))"

text \<open>The words at the even offsets of a slice that lie inside it.\<close>

definition even_offsets :: "nat \<Rightarrow> nat list" where
  "even_offsets n = map (\<lambda>i. 2 * i) [0..<(n + 1) div 2]"

definition cell_page_from_body :: "ProtocolSelector \<Rightarrow> u8 list \<Rightarrow> VeteranBmsPageError + VeteranBmsCellPage" where
  "cell_page_from_body selector body =
     (if classify_veteran_bms_selector selector \<noteq> KindCellVoltage
      then Inl (InvalidCellCount selector 0 VETERAN_BMS_CELL_VALUES_PER_PAGE)
      else
        case page_values selector body VETERAN_BMS_CELL_VALUES_OFFSET (VETERAN_BMS_CELL_VALUES_PER_PAGE * 2) of
          Inl e \<Rightarrow> Inl e
        | Inr values \<Rightarrow>
            Inr \<lparr>vc_selector = selector,
                 vc_cell_voltage = map uint (List.map_filter (cursor_be_u16 values) (even_offsets (length values)))\<rparr>)"

definition temperature_page_from_body :: "ProtocolSelector \<Rightarrow> u8 list \<Rightarrow> VeteranBmsPageError + VeteranBmsTemperaturePage" where
  "temperature_page_from_body selector body =
     (if selector \<noteq> 3 \<and> selector \<noteq> 7 then Inl (InvalidTemperaturePage selector)
      else
        case page_values selector body VETERAN_BMS_TEMPERATURE_VALUES_OFFSET (VETERAN_BMS_TEMPERATURE_VALUES_PER_PAGE * 2) of
          Inl e \<Rightarrow> Inl e
        | Inr values \<Rightarrow>
            Inr \<lparr>vt_selector = selector,
                 vt_temperatures =
                   map temperature_from_centi_celsius
                     (List.map_filter (cursor_be_i16 values) (even_offsets (length values)))\<rparr>)"

definition metadata_page_from_body :: "ProtocolSelector \<Rightarrow> u8 list \<Rightarrow> VeteranBmsPageError + VeteranBmsMetadataPage" where
  "metadata_page_from_body selector body =
     (if selector \<noteq> 0 \<and> selector \<noteq> 4 then Inl (InvalidMetadataPage selector)
      else
        case page_values selector body VETERAN_BMS_PACK_CURRENT_VALUES_OFFSET 4 of
          Inl e \<Rightarrow> Inl e
        | Inr values \<Rightarrow>
            Inr \<lparr>vm_selector = selector,
                 vm_current_0 = current_from_centiamps (unwrap_or (cursor_be_i16 values 0) 0),
                 vm_current_1 = current_from_centiamps (unwrap_or (cursor_be_i16 values 2) 0)\<rparr>)"

section \<open>Readbacks\<close>

definition decode_veteran_bms_page ::
  "ProtocolSelector \<Rightarrow> int list \<Rightarrow> BatteryInfo \<Rightarrow> VerificationStatus \<Rightarrow> VeteranBmsPageError + BatteryReadback" where
  "decode_veteran_bms_page selector cells battery verification =
     (let kind = classify_veteran_bms_selector selector;
          plain = battery_available (from_page (page_metadata_new selector kind verification) battery)
      in if kind = KindCellVoltage
         then (let observed = min (length cells) 255
               in if observed \<noteq> VETERAN_BMS_CELL_VALUES_PER_PAGE
                  then Inl (InvalidCellCount selector observed VETERAN_BMS_CELL_VALUES_PER_PAGE)
                  else
                    case veteran_observation_page_identity selector of
                      None \<Rightarrow> Inr plain
                    | Some (first, pack, pack_first) \<Rightarrow>
                        Inr (with_observation_pack
                          (with_first_observation_index
                             (battery_available (PageCellVoltage
                                \<lparr>cell_page = page_metadata_new selector KindCellVoltage verification,
                                 cell_battery = battery, cell_voltages = cells\<rparr>)) first)
                          pack pack_first))
         else Inr plain)"

definition veteran_bms_cell_payload :: "VeteranBmsCellPage \<Rightarrow> BatteryReadback option" where
  "veteran_bms_cell_payload page =
     (case decode_veteran_bms_page (vc_selector page) (vc_cell_voltage page) battery_info_default HardwareVerified of
        Inl _ \<Rightarrow> None
      | Inr readback \<Rightarrow> Some readback)"

definition veteran_bms_temperature_payload :: "VeteranBmsTemperaturePage \<Rightarrow> BatteryPagePayload" where
  "veteran_bms_temperature_payload page =
     (let first_temperature = (case vt_temperatures page of [] \<Rightarrow> 0 | t # _ \<Rightarrow> t);
          present = take BATTERY_TEMPERATURE_VALUES_PER_PAGE (map (\<lambda>t. Some (measured_reported t)) (vt_temperatures page));
          temperatures = present @ replicate (BATTERY_TEMPERATURE_VALUES_PER_PAGE - length present) None
      in PageTemperature (with_temperatures
           (page_metadata_new (vt_selector page) KindTemperature HardwareVerified)
           (battery_info_default\<lparr>bi_temperature := Some (measured_reported first_temperature)\<rparr>)
           temperatures))"

definition veteran_bms_metadata_payload :: "VeteranBmsMetadataPage \<Rightarrow> BatteryPagePayload" where
  "veteran_bms_metadata_payload page =
     with_bms_pack_currents
       (PageRaw (raw_page_new (page_metadata_new (vm_selector page) KindMetadata HardwareVerified) battery_info_default))
       (pack_currents_reported (current_normalize (vm_current_0 page) PolarityUnknown)
         (current_normalize (vm_current_1 page) PolarityUnknown))"

definition result_ok :: "'e + 'a \<Rightarrow> 'a option" where
  "result_ok r = (case r of Inl _ \<Rightarrow> None | Inr v \<Rightarrow> Some v)"

definition veteran_bms_readback :: "VeteranBmsPageEvidence \<Rightarrow> BatteryReadback option" where
  "veteran_bms_readback evidence =
     (if vb_kind evidence = KindTemperature
      then map_option (\<lambda>p. battery_available (veteran_bms_temperature_payload p))
             (result_ok (temperature_page_from_body (vb_selector evidence) (vb_body evidence)))
      else if vb_kind evidence = KindMetadata
      then map_option (\<lambda>p. battery_available (veteran_bms_metadata_payload p))
             (result_ok (metadata_page_from_body (vb_selector evidence) (vb_body evidence)))
      else Option.bind (result_ok (cell_page_from_body (vb_selector evidence) (vb_body evidence)))
             veteran_bms_cell_payload)"

section \<open>Pages of one kind\<close>

lemma cell_page_complete:
  assumes "cell_page_from_body selector body = Inr page"
  shows "vc_selector page = selector \<and> classify_veteran_bms_selector selector = KindCellVoltage
    \<and> length (vc_cell_voltage page) = 15 \<and> 36 \<le> length body"
proof -
  obtain vs where v: "slice_range body 6 36 = Some vs"
    and page: "page = \<lparr>vc_selector = selector,
      vc_cell_voltage = map uint (List.map_filter (cursor_be_u16 vs) (even_offsets (length vs)))\<rparr>"
    and kind: "classify_veteran_bms_selector selector = KindCellVoltage"
    using assms
    by (auto simp: cell_page_from_body_def page_values_def body_offset_from_frame_offset_def
        VETERAN_BMS_CELL_VALUES_OFFSET_def VETERAN_BMS_SELECTOR_OFFSET_def VETERAN_BMS_CELL_VALUES_PER_PAGE_def
        split: if_splits option.splits)
  have len: "length vs = 30" "36 \<le> length body"
    using v by (auto simp: slice_range_def split: if_splits)
  have "List.map_filter (cursor_be_u16 vs) (even_offsets 30) =
      map (\<lambda>i. the (cursor_be_u16 vs i)) (even_offsets 30)"
    using len by (auto simp: List.map_filter_def even_offsets_def cursor_be_u16_eq filter_id_conv)
  then show ?thesis
    using page kind len by (simp add: even_offsets_def)
qed

text \<open>The four cell pages number sixty cells without a collision.\<close>

lemma veteran_cell_numbers:
  assumes "classify_veteran_bms_selector s = KindCellVoltage"
  shows "\<exists>first pack pack_first. veteran_observation_page_identity s = Some (first, pack, pack_first)
    \<and> unat first = (if s = 1 then 0 else if s = 2 then 15 else if s = 5 then 30 else 45)
    \<and> unat first = 30 * unat pack + unat pack_first"
  using assms by (auto simp: classify_veteran_bms_selector_def veteran_observation_page_identity_def split: if_splits)

text \<open>A readback is available, carries its selector without a tag, and is a cell page exactly for a cell selector.\<close>

lemma veteran_readback_page:
  assumes "veteran_bms_readback e = Some r" and "vb_kind e = classify_veteran_bms_selector (vb_selector e)"
  shows "\<exists>page. rb_page r = Some page \<and> rb_availability r = BatteryAvailable
    \<and> page_selector (payload_page page) = vb_selector e \<and> page_tag (payload_page page) = None
    \<and> (is_cell_page (Some page) \<longleftrightarrow> classify_veteran_bms_selector (vb_selector e) = KindCellVoltage)"
proof (cases "classify_veteran_bms_selector (vb_selector e)")
  case KindMetadata
  then show ?thesis
    using assms
    by (auto simp: veteran_bms_readback_def result_ok_def metadata_page_from_body_def veteran_bms_metadata_payload_def
        battery_available_def readback_empty_def raw_page_new_def page_metadata_new_def split: if_splits sum.splits)
next
  case KindTemperature
  then show ?thesis
    using assms
    by (auto simp: veteran_bms_readback_def result_ok_def temperature_page_from_body_def
        veteran_bms_temperature_payload_def with_temperatures_def battery_available_def readback_empty_def
        page_metadata_new_def Let_def split: if_splits sum.splits)
next
  case KindCellVoltage
  then obtain page where page: "cell_page_from_body (vb_selector e) (vb_body e) = Inr page"
    and r: "veteran_bms_cell_payload page = Some r"
    using assms by (auto simp: veteran_bms_readback_def result_ok_def bind_eq_Some_conv split: sum.splits)
  then show ?thesis
    using cell_page_complete [OF page] veteran_cell_numbers [of "vb_selector e"] KindCellVoltage
    by (auto simp: veteran_bms_cell_payload_def decode_veteran_bms_page_def VETERAN_BMS_CELL_VALUES_PER_PAGE_def
        with_observation_pack_def with_first_observation_index_def battery_available_def readback_empty_def
        page_metadata_new_def Let_def split: sum.splits)
next
  case KindRaw
  then have "cell_page_from_body (vb_selector e) (vb_body e) = Inl (InvalidCellCount (vb_selector e) 0 15)"
    by (simp add: cell_page_from_body_def VETERAN_BMS_CELL_VALUES_PER_PAGE_def)
  then show ?thesis
    using assms KindRaw by (simp add: veteran_bms_readback_def result_ok_def)
qed

lemma bms_page_kind: "bms_page_from_frame f = Some e \<Longrightarrow> vb_kind e = classify_veteran_bms_selector (vb_selector e)"
  by (auto simp: bms_page_from_frame_def Let_def split: option.splits if_splits)

end
