(* ===== verification/Veteran_Telemetry.thy ===== *)
theory Veteran_Telemetry
  imports Veteran_Bms "HOL-Library.Monad_Syntax"
begin

unbundle bit_operations_syntax

text \<open>
  Telemetry of Veteran and NOSFET wheels (\<^verbatim>\<open>cutout-protocols/src/veteran_telemetry.rs\<close>,
  \<^verbatim>\<open>battery_profile.rs\<close>): the fixed header of a frame, the model profiles that scale it, the battery
  estimate and the settings and firmware responses.  Shown: a frame decodes exactly
  when its header is complete, and the battery estimate of every model is a percentage that never falls
  with rising voltage and is exact at the ends of the pack's range.
\<close>

section \<open>Battery profiles\<close>

record BatteryVoltageProfile =
  profile_cell_model :: string
  profile_nominal_capacity :: u32
  profile_points :: "(int \<times> BatteryLevel) list"

definition estimate_level_from_cell_voltage :: "BatteryVoltageProfile \<Rightarrow> int \<Rightarrow> BatteryLevel" where
  "estimate_level_from_cell_voltage profile cell_voltage =
     (case profile_points profile of
        [] \<Rightarrow> from_percent 0
      | (first_voltage, first_level) # _ \<Rightarrow>
          if cell_voltage \<le> first_voltage then first_level
          else (case curve_window cell_voltage (profile_points profile) of
                  Some level \<Rightarrow> level
                | None \<Rightarrow> snd (last (profile_points profile))))"

definition estimate_level_from_pack_voltage :: "BatteryVoltageProfile \<Rightarrow> int \<Rightarrow> u8 \<Rightarrow> BatteryLevel" where
  "estimate_level_from_pack_voltage profile mv series_cells =
     estimate_level_from_cell_voltage profile (as_cell_voltage mv series_cells)"

definition SAMSUNG_50S_CELL_POINTS :: "(int \<times> BatteryLevel) list" where
  "SAMSUNG_50S_CELL_POINTS =
     [(3033333, from_percent 0), (3200000, from_percent 7), (3333333, from_percent 15), (3433333, from_percent 25),
      (3566667, from_percent 40), (3733333, from_percent 60), (3866667, from_percent 75), (4200000, from_percent 100)]"

definition SAMSUNG_50S_PROFILE :: BatteryVoltageProfile where
  "SAMSUNG_50S_PROFILE = \<lparr>profile_cell_model = ''Samsung 50S'', profile_nominal_capacity = 5000,
      profile_points = SAMSUNG_50S_CELL_POINTS\<rparr>"

section \<open>Models\<close>

type_synonym VeteranModelId = u16

type_synonym VeteranModelCapabilities = u8

definition capabilities_new :: "bool \<Rightarrow> bool \<Rightarrow> bool \<Rightarrow> VeteranModelCapabilities" where
  "capabilities_new pwm smart_bms binary_horn =
     (if pwm then push_bit 0 1 else 0) OR (if smart_bms then push_bit 1 1 else 0)
       OR (if binary_horn then push_bit 2 1 else 0)"

definition has_pwm_readback :: "VeteranModelCapabilities \<Rightarrow> bool" where
  "has_pwm_readback c \<longleftrightarrow> c AND push_bit 0 1 \<noteq> 0"

definition has_smart_bms :: "VeteranModelCapabilities \<Rightarrow> bool" where
  "has_smart_bms c \<longleftrightarrow> c AND push_bit 1 1 \<noteq> 0"

definition requires_binary_horn :: "VeteranModelCapabilities \<Rightarrow> bool" where
  "requires_binary_horn c \<longleftrightarrow> c AND push_bit 2 1 \<noteq> 0"

record BmsPageSelectorSpec =
  spec_selector :: ProtocolSelector
  spec_kind :: BatteryPageKind
  spec_verification :: VerificationStatus

record BmsLayoutSpec =
  layout_series_cells :: u8
  layout_parallel_packs :: u8
  cell_values_per_page :: nat
  temperature_values_per_page :: nat
  layout_selectors :: "BmsPageSelectorSpec list"
  layout_verification :: VerificationStatus

definition bms_page_selector :: "u8 \<Rightarrow> BmsPageSelectorSpec" where
  "bms_page_selector selector =
     \<lparr>spec_selector = selector, spec_kind = classify_veteran_bms_selector selector,
      spec_verification = SourceVerified\<rparr>"

definition VETERAN_BMS_SELECTORS :: "BmsPageSelectorSpec list" where
  "VETERAN_BMS_SELECTORS = map bms_page_selector [0, 1, 2, 3, 4, 5, 6, 7, 8]"

definition veteran_bms_layout :: "u8 \<Rightarrow> u8 \<Rightarrow> BmsLayoutSpec" where
  "veteran_bms_layout series_cells parallel_packs =
     \<lparr>layout_series_cells = series_cells, layout_parallel_packs = parallel_packs,
      cell_values_per_page = VETERAN_BMS_CELL_VALUES_PER_PAGE, temperature_values_per_page = 6,
      layout_selectors = VETERAN_BMS_SELECTORS, layout_verification = VerificationInferred\<rparr>"

definition bms_layout_for_geometry :: "u8 \<Rightarrow> u8 \<Rightarrow> BmsLayoutSpec option" where
  "bms_layout_for_geometry series_cells parallel_packs =
     (if (series_cells, parallel_packs) \<in> {(30, 2), (36, 2), (36, 4), (36, 6), (42, 6)}
      then Some (veteran_bms_layout series_cells parallel_packs) else None)"

record VeteranModelProfile =
  vp_model_id :: VeteranModelId
  vp_name :: string
  vp_series_cells :: u8
  vp_parallel_packs :: u8
  vp_nominal_capacity :: "u32 option"
  vp_battery_profile :: "BatteryVoltageProfile option"
  vp_range_start :: int
  vp_range_end :: int
  vp_capabilities :: VeteranModelCapabilities
  vp_bms_layout :: "BmsLayoutSpec option"
  vp_observed_app_odometer_offset :: "int option"

definition model_capabilities :: "VeteranModelId \<Rightarrow> VeteranModelCapabilities" where
  "model_capabilities m =
     capabilities_new (2 \<le> m) (5 \<le> m \<or> m = 4 \<or> m = 7 \<or> (42 \<le> m \<and> m \<le> 44)) (3 \<le> m)"

definition profile_new_linear :: "VeteranModelId \<Rightarrow> string \<Rightarrow> u8 \<Rightarrow> int \<Rightarrow> int \<Rightarrow> VeteranModelProfile" where
  "profile_new_linear m name' series_cells lowest highest =
     \<lparr>vp_model_id = m, vp_name = name', vp_series_cells = series_cells, vp_parallel_packs = 1,
      vp_nominal_capacity = None, vp_battery_profile = None, vp_range_start = lowest, vp_range_end = highest,
      vp_capabilities = model_capabilities m, vp_bms_layout = None, vp_observed_app_odometer_offset = None\<rparr>"

definition battery_profile_pack_start :: "BatteryVoltageProfile \<Rightarrow> u8 \<Rightarrow> int" where
  "battery_profile_pack_start profile series_cells =
     (case profile_points profile of [] \<Rightarrow> 0 | p # _ \<Rightarrow> voltage_from_cell_voltage (fst p) (uint series_cells))"

definition battery_profile_pack_end :: "BatteryVoltageProfile \<Rightarrow> u8 \<Rightarrow> int" where
  "battery_profile_pack_end profile series_cells =
     (case profile_points profile of
        [] \<Rightarrow> battery_profile_pack_start profile series_cells
      | ps \<Rightarrow> voltage_from_cell_voltage (fst (last ps)) (uint series_cells))"

definition profile_new_with_battery_profile ::
  "VeteranModelId \<Rightarrow> string \<Rightarrow> u8 \<Rightarrow> u8 \<Rightarrow> BatteryVoltageProfile \<Rightarrow> VeteranModelProfile" where
  "profile_new_with_battery_profile m name' series_cells parallel_packs profile =
     \<lparr>vp_model_id = m, vp_name = name', vp_series_cells = series_cells, vp_parallel_packs = parallel_packs,
      vp_nominal_capacity = Some (saturating_mul (profile_nominal_capacity profile) (ucast parallel_packs)),
      vp_battery_profile = Some profile,
      vp_range_start = battery_profile_pack_start profile series_cells,
      vp_range_end = battery_profile_pack_end profile series_cells, vp_capabilities = model_capabilities m,
      vp_bms_layout = bms_layout_for_geometry series_cells parallel_packs,
      vp_observed_app_odometer_offset = None\<rparr>"

definition with_observed_app_odometer_offset :: "int \<Rightarrow> VeteranModelProfile \<Rightarrow> VeteranModelProfile" where
  "with_observed_app_odometer_offset offset p = p\<lparr>vp_observed_app_odometer_offset := Some offset\<rparr>"

definition from_model_id :: "VeteranModelId \<Rightarrow> VeteranModelProfile option" where
  "from_model_id m =
     (let linear = (\<lambda>name'. Some (profile_new_linear m name' 24 79350 98700));
          samsung = (\<lambda>name' series_cells parallel_packs.
            Some (profile_new_with_battery_profile m name' series_cells parallel_packs SAMSUNG_50S_PROFILE))
      in if m = 0 \<or> m = 1 then linear ''Veteran Sherman''
         else if m = 2 then linear ''Veteran Abrams''
         else if m = 3 then linear ''Veteran Sherman S''
         else if m = 4 then samsung ''Veteran Patton'' 30 2
         else if m = 5 then samsung ''Veteran Lynx'' 36 4
         else if m = 6 then samsung ''Veteran Sherman L'' 36 6
         else if m = 7 then samsung ''Veteran Patton S'' 30 2
         else if m = 8 then samsung ''Veteran Oryx'' 42 6
         else if m = 9 then samsung ''Veteran Lynx S'' 36 4
         else if m = 42 then samsung ''NOSFET Apex'' 36 4
         else if m = 43 then map_option (with_observed_app_odometer_offset 805000) (samsung ''NOSFET Aero'' 30 2)
         else if m = 44 then samsung ''NOSFET Aeon'' 36 2
         else None)"

definition estimate_battery_level :: "VeteranModelProfile \<Rightarrow> int \<Rightarrow> BatteryLevel" where
  "estimate_battery_level p voltage =
     (case vp_battery_profile p of
        Some profile \<Rightarrow> estimate_level_from_pack_voltage profile voltage (vp_series_cells p)
      | None \<Rightarrow>
          if voltage \<le> vp_range_start p then from_percent 0
          else if vp_range_end p \<le> voltage then from_percent 100
          else
            (let numerator = (voltage - vp_range_start p) * 100;
                 denominator = vp_range_end p - vp_range_start p
             in from_percent_i32 ((numerator + denominator sdiv 2) sdiv denominator)))"

definition estimate_veteran_battery_level :: "VeteranModelId \<Rightarrow> int \<Rightarrow> BatteryLevel" where
  "estimate_veteran_battery_level m voltage =
     (case from_model_id m of None \<Rightarrow> from_percent 0 | Some p \<Rightarrow> estimate_battery_level p voltage)"

section \<open>Telemetry\<close>

record VeteranFirmwareVersion =
  raw_version :: u16
  fw_model_id :: VeteranModelId
  fw_minor :: u16
  fw_revision :: u16

definition firmware_from_raw :: "u16 \<Rightarrow> VeteranFirmwareVersion" where
  "firmware_from_raw v =
     \<lparr>raw_version = v, fw_model_id = v div 1000, fw_minor = v mod 1000 div 100, fw_revision = v mod 100\<rparr>"

definition charge_mode_from_veteran_field :: "u16 \<Rightarrow> ChargeMode" where
  "charge_mode_from_veteran_field v = charge_from_active (v \<noteq> 0)"

definition veteran_charge_mode_field :: "ChargeMode \<Rightarrow> u16" where
  "veteran_charge_mode_field mode = (if mode = Charging then 1 else 0)"

definition veteran_hardware_pwm :: "VeteranModelId \<Rightarrow> u16 \<Rightarrow> int" where
  "veteran_hardware_pwm m raw = (if m = 43 then duty_from_decipermille (sint raw) else duty_from_centered_pwm raw)"

record VeteranTelemetry =
  vt_firmware :: VeteranFirmwareVersion
  vt_voltage :: int
  vt_speed :: int
  vt_trip_distance :: Distance
  vt_total_distance :: Distance
  vt_battery_current :: int
  vt_mosfet_temperature :: int
  vt_auto_shutdown :: Duration
  vt_charge_mode :: ChargeMode
  vt_speed_alert :: int
  vt_speed_tiltback :: int
  vt_pedals_mode :: u16
  vt_pitch :: int
  vt_hardware_pwm :: int
  vt_battery_level :: BatteryLevel

datatype VeteranTelemetryError = FrameTooShort

text \<open>Every field that is missing refuses the frame.\<close>

definition veteran_decode :: "VeteranFrame \<Rightarrow> VeteranTelemetryError + VeteranTelemetry" where
  "veteran_decode frame =
     (let bytes = veteran_bytes frame
      in case
           (do {
              raw \<leftarrow> cursor_be_u16 bytes 28;
              centivolts \<leftarrow> cursor_be_u16 bytes 4;
              charge \<leftarrow> cursor_be_u16 bytes 22;
              speed \<leftarrow> cursor_be_i16 bytes 6;
              trip \<leftarrow> cursor_veteran_swapped_u32 bytes 8;
              total \<leftarrow> cursor_veteran_swapped_u32 bytes 12;
              current \<leftarrow> cursor_be_i16 bytes 16;
              temperature \<leftarrow> cursor_be_i16 bytes 18;
              shutdown \<leftarrow> cursor_be_u16 bytes 20;
              speed_alert \<leftarrow> cursor_be_u16 bytes 24;
              tiltback \<leftarrow> cursor_be_u16 bytes 26;
              pedals \<leftarrow> cursor_be_u16 bytes 30;
              pitch \<leftarrow> cursor_be_i16 bytes 32;
              pwm \<leftarrow> cursor_be_u16 bytes 34;
              Some (let firmware = firmware_from_raw raw;
                        voltage = voltage_from_centivolts (uint centivolts)
                    in \<lparr>vt_firmware = firmware, vt_voltage = voltage, vt_speed = speed_from_deci_kmh speed,
                        vt_trip_distance = distance_from_metres (ucast trip),
                        vt_total_distance = distance_from_metres (ucast total),
                        vt_battery_current = current_from_centiamps current,
                        vt_mosfet_temperature = temperature_from_centi_celsius temperature,
                        vt_auto_shutdown = duration_from_seconds (ucast shutdown),
                        vt_charge_mode = charge_mode_from_veteran_field charge,
                        vt_speed_alert = speed_from_deci_kmh (uint speed_alert),
                        vt_speed_tiltback = speed_from_deci_kmh (uint tiltback),
                        vt_pedals_mode = pedals, vt_pitch = angle_from_centi_degrees pitch,
                        vt_hardware_pwm = veteran_hardware_pwm (fw_model_id firmware) pwm,
                        vt_battery_level = estimate_veteran_battery_level (fw_model_id firmware) voltage\<rparr>)
            }) of
           None \<Rightarrow> Inl FrameTooShort
         | Some t \<Rightarrow> Inr t)"

definition veteran_to_delta :: "VeteranTelemetry \<Rightarrow> MonotonicTimestamp \<Rightarrow> TelemetryDelta" where
  "veteran_to_delta t at =
     (let battery_current = current_normalize (vt_battery_current t) PolarityUnknown
      in (delta_empty at)
           \<lparr>td_speed := Some (measured_reported (vt_speed t)),
            td_voltage := Some (measured_reported (vt_voltage t)),
            td_battery_current := Some (measured_reported battery_current),
            td_charge_mode := Some (measured_reported (vt_charge_mode t)),
            td_power := map_option measured_calculated (power_from_pack_voltage_current (vt_voltage t) battery_current),
            td_controller_temperature := Some (measured_reported (vt_mosfet_temperature t)),
            td_pwm := FieldSet (measured_reported (vt_hardware_pwm t)),
            td_distance := Some (measured_reported (vt_total_distance t)),
            td_trip_distance := Some (measured_reported (vt_trip_distance t)),
            td_pitch := Some (measured_reported (vt_pitch t)),
            td_battery_level_estimated := FieldSet (measured_estimated (vt_battery_level t))\<rparr>)"

section \<open>Responses\<close>

definition VETERAN_FIELD_FIRMWARE_VERSION :: u16 where
  "VETERAN_FIELD_FIRMWARE_VERSION = 0x001c"

definition VETERAN_FIELD_AUTO_SHUTDOWN_TIME_REMAINING_SECONDS :: u16 where
  "VETERAN_FIELD_AUTO_SHUTDOWN_TIME_REMAINING_SECONDS = 0x0014"

definition VETERAN_FIELD_CHARGE_MODE :: u16 where
  "VETERAN_FIELD_CHARGE_MODE = 0x0016"

definition VETERAN_FIELD_SPEED_ALERT_DECI_KMH :: u16 where
  "VETERAN_FIELD_SPEED_ALERT_DECI_KMH = 0x0018"

definition VETERAN_FIELD_SPEED_TILTBACK_DECI_KMH :: u16 where
  "VETERAN_FIELD_SPEED_TILTBACK_DECI_KMH = 0x001a"

definition VETERAN_FIELD_PEDALS_MODE :: u16 where
  "VETERAN_FIELD_PEDALS_MODE = 0x001e"

definition AERO_FIELD_LATERAL_TILT_LIMIT_DEGREES :: u16 where
  "AERO_FIELD_LATERAL_TILT_LIMIT_DEGREES = 0x022f"

definition to_firmware_response :: "VeteranTelemetry \<Rightarrow> ReadOnlyResponse" where
  "to_firmware_response t =
     ResponseFirmware
       \<lparr>protocol_version = None, firmware_major = Some (measured_reported (fw_model_id (vt_firmware t))),
        firmware_minor = Some (measured_reported (fw_minor (vt_firmware t))),
        firmware_patch = Some (measured_reported (fw_revision (vt_firmware t))),
        build_id = Some \<lparr>raw_id = VETERAN_FIELD_FIRMWARE_VERSION, raw_value = uint (raw_version (vt_firmware t))\<rparr>\<rparr>"

definition veteran_settings_entry :: "u16 \<Rightarrow> int \<Rightarrow> SettingsEntry" where
  "veteran_settings_entry id' value' =
     \<lparr>entry_field = \<lparr>raw_id = id', raw_value = value'\<rparr>, entry_source = Reported, entry_quality = Known,
      entry_verification = HardwareVerified\<rparr>"

definition aero_settings_entry :: "u16 \<Rightarrow> int \<Rightarrow> SettingsEntry" where
  "aero_settings_entry id' value' =
     \<lparr>entry_field = \<lparr>raw_id = id', raw_value = value'\<rparr>, entry_source = Reported, entry_quality = Known,
      entry_verification = SourceVerified\<rparr>"

definition to_settings_responses :: "VeteranTelemetry \<Rightarrow> ReadOnlyResponse list" where
  "to_settings_responses t =
     [ResponseSettings (settings_available
        [Some (veteran_settings_entry VETERAN_FIELD_AUTO_SHUTDOWN_TIME_REMAINING_SECONDS
           (saturate_i64 (uint (duration_as_seconds (vt_auto_shutdown t))))),
         Some (veteran_settings_entry VETERAN_FIELD_CHARGE_MODE (uint (veteran_charge_mode_field (vt_charge_mode t)))),
         Some (veteran_settings_entry VETERAN_FIELD_SPEED_ALERT_DECI_KMH (speed_as_deci_kmh_rounded (vt_speed_alert t))),
         Some (veteran_settings_entry VETERAN_FIELD_SPEED_TILTBACK_DECI_KMH
           (speed_as_deci_kmh_rounded (vt_speed_tiltback t)))]),
      ResponseSettings (settings_available
        [Some (veteran_settings_entry VETERAN_FIELD_PEDALS_MODE (uint (vt_pedals_mode t))), None, None, None])]"

text \<open>
  The controls of the Aero settings page: the offset of each in the body and its field.
\<close>

definition AERO_PAGE_8_FIELDS :: "(nat \<times> u16) list" where
  "AERO_PAGE_8_FIELDS =
     [(50, 0x0832), (53, 0x0835), (55, 0x0837), (56, 0x0838), (57, 0x0839), (58, 0x083a), (59, 0x083b),
      (60, 0x083c), (61, 0x083d), (63, 0x083f), (64, 0x0840), (66, 0x0842), (68, 0x0844), (65, 0x0841)]"

text \<open>The voltage correction at offset 59 is signed.\<close>

definition aero_entry :: "u8 list \<Rightarrow> nat \<times> u16 \<Rightarrow> SettingsEntry option" where
  "aero_entry body field =
     map_option (\<lambda>b. aero_settings_entry (snd field) (if fst field = 59 then sint b else uint b))
       (slice_get body (fst field))"

definition to_aero_settings_page_response :: "VeteranTelemetry \<Rightarrow> VeteranFrame \<Rightarrow> ReadOnlyResponse option" where
  "to_aero_settings_page_response t frame =
     (let bytes = veteran_bytes frame
      in if fw_model_id (vt_firmware t) \<noteq> 43 \<or> length bytes < 4 then None
         else
           (let body = take (length bytes - 4) bytes
            in if slice_get body 46 = Some 2
               then map_option (\<lambda>b. ResponseSettings (settings_available
                      (Some (aero_settings_entry AERO_FIELD_LATERAL_TILT_LIMIT_DEGREES (uint b)) # replicate 15 None)))
                      (slice_get body 47)
               else if slice_get body 46 = Some 8
               then Some (ResponseSettings (settings_available
                      (map (aero_entry body) AERO_PAGE_8_FIELDS @ replicate 4 None)))
               else None))"

section \<open>Decoding\<close>

lemma veteran_decode_iff: "(\<exists>t. veteran_decode frame = Inr t) \<longleftrightarrow> 36 \<le> length (veteran_bytes frame)"
proof
  assume "\<exists>t. veteran_decode frame = Inr t"
  then show "36 \<le> length (veteran_bytes frame)"
    by (auto simp: veteran_decode_def Let_def bind_eq_Some_conv cursor_be_u16_eq split: option.splits if_splits)
next
  assume "36 \<le> length (veteran_bytes frame)"
  then show "\<exists>t. veteran_decode frame = Inr t"
    by (simp add: veteran_decode_def Let_def cursor_be_u16_eq cursor_be_i16_def cursor_veteran_swapped_u32_def
        cursor_range_eq slice_get_def)
qed

section \<open>The battery estimate\<close>

lemma estimate_cell_piecewise:
  "estimate_level_from_cell_voltage profile v = from_piecewise_linear v (profile_points profile)"
  by (simp add: estimate_level_from_cell_voltage_def from_piecewise_linear_def)

lemma samsung_rises: "rising_curve SAMSUNG_50S_CELL_POINTS"
  by (simp add: SAMSUNG_50S_CELL_POINTS_def from_percent_def)

lemma samsung_level_mono:
  assumes "v \<le> w"
  shows "from_piecewise_linear v SAMSUNG_50S_CELL_POINTS \<le> from_piecewise_linear w SAMSUNG_50S_CELL_POINTS
    \<and> from_piecewise_linear w SAMSUNG_50S_CELL_POINTS \<le> 100"
  using piecewise_linear_mono [OF samsung_rises [unfolded SAMSUNG_50S_CELL_POINTS_def] assms]
    piecewise_linear_range [OF samsung_rises [unfolded SAMSUNG_50S_CELL_POINTS_def], of w]
  by (simp add: SAMSUNG_50S_CELL_POINTS_def from_percent_def word_le_def)

lemma samsung_level_ends:
  "v \<le> 3033333 \<Longrightarrow> from_piecewise_linear v SAMSUNG_50S_CELL_POINTS = 0"
  "4200000 \<le> v \<Longrightarrow> from_piecewise_linear v SAMSUNG_50S_CELL_POINTS = 100"
proof -
  have full: "interpolate 75 100 4200000 3866667 4200000 = 100"
    using interpolate_eq [of 3866667 4200000 4200000 75 100] by (simp add: round_div_pos word_uint_eq_iff)
  show "v \<le> 3033333 \<Longrightarrow> from_piecewise_linear v SAMSUNG_50S_CELL_POINTS = 0"
    by (simp add: from_piecewise_linear_def SAMSUNG_50S_CELL_POINTS_def from_percent_def)
  show "4200000 \<le> v \<Longrightarrow> from_piecewise_linear v SAMSUNG_50S_CELL_POINTS = 100"
    using full by (cases "v = 4200000") (simp_all add: from_piecewise_linear_def SAMSUNG_50S_CELL_POINTS_def from_percent_def)
qed

text \<open>A pack voltage of a frame, at most 655.35 V, is split over the cells without saturation.\<close>

lemma model_geometry:
  assumes "from_model_id m = Some p"
  shows "(vp_battery_profile p = None \<and> vp_range_start p = 79350 \<and> vp_range_end p = 98700) \<or>
    (vp_battery_profile p = Some SAMSUNG_50S_PROFILE \<and>
      (vp_series_cells p = 30 \<or> vp_series_cells p = 36 \<or> vp_series_cells p = 42) \<and>
      vp_range_start p = battery_profile_pack_start SAMSUNG_50S_PROFILE (vp_series_cells p) \<and>
      vp_range_end p = battery_profile_pack_end SAMSUNG_50S_PROFILE (vp_series_cells p))"
  using assms unfolding from_model_id_def Let_def
  by (simp add: profile_new_linear_def profile_new_with_battery_profile_def with_observed_app_odometer_offset_def
      split: if_splits) (erule subst, simp)+

lemma samsung_pack_start:
  assumes "c = 30 \<or> c = 36 \<or> c = (42 :: u8)"
  shows "battery_profile_pack_start SAMSUNG_50S_PROFILE c = (3033333 * uint c + 500) div 1000"
  using assms
  by (elim disjE)
    (simp_all add: battery_profile_pack_start_def SAMSUNG_50S_PROFILE_def SAMSUNG_50S_CELL_POINTS_def
      voltage_from_cell_voltage_def saturate_i32_def)

lemma samsung_pack_end:
  assumes "c = 30 \<or> c = 36 \<or> c = (42 :: u8)"
  shows "battery_profile_pack_end SAMSUNG_50S_PROFILE c = (4200000 * uint c + 500) div 1000"
  using assms
  by (elim disjE)
    (simp_all add: battery_profile_pack_end_def SAMSUNG_50S_PROFILE_def SAMSUNG_50S_CELL_POINTS_def
      voltage_from_cell_voltage_def saturate_i32_def)

lemma as_cell_voltage_eq:
  assumes "0 \<le> mv" and "mv \<le> 655350" and "c = 30 \<or> c = 36 \<or> c = (42 :: u8)"
  shows "as_cell_voltage mv c = (mv * 1000 + uint c div 2) div uint c"
proof -
  have "saturate_i64 (mv * 1000) = mv * 1000"
    using assms by (simp add: saturate_i64_def)
  moreover have "0 \<le> (mv * 1000 + uint c div 2) div uint c" "(mv * 1000 + uint c div 2) div uint c \<le> 2147483647"
    using assms by (elim disjE; simp)+
  ultimately show ?thesis
    using assms by (elim disjE) (simp_all add: as_cell_voltage_def Let_def saturate_i32_id)
qed

lemma samsung_pack_range_cells:
  assumes "c = 30 \<or> c = 36 \<or> c = (42 :: u8)" and "0 \<le> mv" and "mv \<le> 655350"
  shows "mv \<le> battery_profile_pack_start SAMSUNG_50S_PROFILE c \<Longrightarrow> as_cell_voltage mv c \<le> 3033333"
    and "battery_profile_pack_end SAMSUNG_50S_PROFILE c \<le> mv \<Longrightarrow> 4200000 \<le> as_cell_voltage mv c"
  using assms
  by (elim disjE; simp add: as_cell_voltage_eq samsung_pack_start samsung_pack_end)+

lemma as_cell_voltage_mono:
  assumes "0 \<le> v" and "v \<le> w" and "w \<le> 655350" and "c = 30 \<or> c = 36 \<or> c = (42 :: u8)"
  shows "as_cell_voltage v c \<le> as_cell_voltage w c"
  using assms by (elim disjE) (simp_all add: as_cell_voltage_eq zdiv_mono1)

lemma linear_level_eq:
  assumes "79350 < v" and "v < 98700"
  shows "from_percent_i32 (((v - 79350) * 100 + 9675) sdiv 19350) = word_of_int (((v - 79350) * 100 + 9675) div 19350)"
proof -
  have "0 \<le> ((v - 79350) * 100 + 9675) div 19350" "((v - 79350) * 100 + 9675) div 19350 \<le> 100"
    using assms by simp_all
  then show ?thesis
    using assms by (simp add: from_percent_i32_def from_percent_def word_less_def uint_word_of_int)
qed

lemma estimate_level_range:
  assumes model: "from_model_id m = Some p" and "0 \<le> v" and "v \<le> w" and "w \<le> 655350"
  shows "estimate_battery_level p v \<le> estimate_battery_level p w \<and> estimate_battery_level p w \<le> 100
    \<and> (v \<le> vp_range_start p \<longrightarrow> estimate_battery_level p v = 0)
    \<and> (vp_range_end p \<le> w \<longrightarrow> estimate_battery_level p w = 100)"
  using model_geometry [OF model]
proof
  assume g: "vp_battery_profile p = None \<and> vp_range_start p = 79350 \<and> vp_range_end p = 98700"
  have level: "estimate_battery_level p x = word_of_int (if x \<le> 79350 then 0 else if 98700 \<le> x then 100
      else ((x - 79350) * 100 + 9675) div 19350)" for x
    using g linear_level_eq [of x] by (simp add: estimate_battery_level_def Let_def from_percent_def)
  have range: "0 \<le> ((x - 79350) * 100 + 9675) div 19350 \<and> ((x - 79350) * 100 + 9675) div 19350 \<le> 100"
    if "79350 < x" "x < 98700" for x :: int
    using that by (intro conjI) simp_all
  show ?thesis
    using assms(3) g range [of v] range [of w] by (auto simp: level word_le_def uint_word_of_int zdiv_mono1)
next
  assume g: "vp_battery_profile p = Some SAMSUNG_50S_PROFILE \<and>
      (vp_series_cells p = 30 \<or> vp_series_cells p = 36 \<or> vp_series_cells p = 42) \<and>
      vp_range_start p = battery_profile_pack_start SAMSUNG_50S_PROFILE (vp_series_cells p) \<and>
      vp_range_end p = battery_profile_pack_end SAMSUNG_50S_PROFILE (vp_series_cells p)"
  have level: "estimate_battery_level p x =
      from_piecewise_linear (as_cell_voltage x (vp_series_cells p)) SAMSUNG_50S_CELL_POINTS" for x
    using g by (simp add: estimate_battery_level_def estimate_level_from_pack_voltage_def estimate_cell_piecewise
        SAMSUNG_50S_PROFILE_def)
  show ?thesis
    using g assms samsung_level_mono [OF as_cell_voltage_mono, of v w "vp_series_cells p"]
      samsung_pack_range_cells [of "vp_series_cells p" v] samsung_pack_range_cells [of "vp_series_cells p" w]
    by (auto simp: level samsung_level_ends)
qed

lemma decoded_header:
  assumes "veteran_decode frame = Inr t"
  shows "\<exists>raw c. cursor_be_u16 (veteran_bytes frame) 28 = Some raw \<and> cursor_be_u16 (veteran_bytes frame) 4 = Some c
    \<and> vt_firmware t = firmware_from_raw raw \<and> vt_voltage t = voltage_from_centivolts (uint c)
    \<and> vt_battery_level t = estimate_veteran_battery_level (fw_model_id (vt_firmware t)) (vt_voltage t)"
  using assms by (auto simp: veteran_decode_def Let_def bind_eq_Some_conv split: option.splits)

lemma decoded_level:
  assumes "veteran_decode frame = Inr t"
  shows "vt_battery_level t = estimate_veteran_battery_level (fw_model_id (vt_firmware t)) (vt_voltage t)
    \<and> 0 \<le> vt_voltage t \<and> vt_voltage t \<le> 655350"
proof -
  obtain c :: u16 where "vt_voltage t = voltage_from_centivolts (uint c)"
    and level: "vt_battery_level t = estimate_veteran_battery_level (fw_model_id (vt_firmware t)) (vt_voltage t)"
    using decoded_header [OF assms] by blast
  moreover have "0 \<le> uint c" "uint c < 2 ^ 16"
    using uint_bounded [of c] by simp_all
  ultimately show ?thesis
    by (simp add: voltage_from_centivolts_def saturate_i32_def)
qed

text \<open>
   For two decoded frames of the same known model, the frame with the higher voltage shows at least
  the battery level of the other, and no more than 100 percent; the level is 0 up to the lower end of
  the voltage range of the model's pack and 100 from its upper end.
\<close>

lemma veteran_battery_estimate:
  assumes "veteran_decode f = Inr t" and "veteran_decode g = Inr u"
    and "fw_model_id (vt_firmware u) = fw_model_id (vt_firmware t)"
    and "from_model_id (fw_model_id (vt_firmware t)) = Some p" and "vt_voltage t \<le> vt_voltage u"
  shows "vt_battery_level t \<le> vt_battery_level u \<and> vt_battery_level u \<le> 100
    \<and> (vt_voltage t \<le> vp_range_start p \<longrightarrow> vt_battery_level t = 0)
    \<and> (vp_range_end p \<le> vt_voltage u \<longrightarrow> vt_battery_level u = 100)"
  using assms decoded_level [OF assms(1)] decoded_level [OF assms(2)]
    estimate_level_range [OF assms(4), of "vt_voltage t" "vt_voltage u"]
  by (simp add: estimate_veteran_battery_level_def)

text \<open>An Aero at 91 V and at 126 V.\<close>

definition aero_header :: "u8 \<Rightarrow> u8 \<Rightarrow> VeteranFrame" where
  "aero_header hi lo =
     \<lparr>veteran_bytes = [0xdc, 0x5a, 0x5c, 32, hi, lo, 0, 0, 0, 0, 0, 0, 0, 0, 0, 0, 0, 0, 0, 0, 0, 0, 0, 0, 0, 0,
        0, 0, 0xa7, 0xf8, 0, 0, 0, 0, 0, 0]\<rparr>"

lemma veteran_battery_estimate_example:
  "\<exists>t u p. veteran_decode (aero_header 35 140) = Inr t \<and> veteran_decode (aero_header 49 56) = Inr u
    \<and> from_model_id (fw_model_id (vt_firmware t)) = Some p
    \<and> vt_battery_level t = 0 \<and> vt_battery_level u = 100"
proof -
  obtain t u where t: "veteran_decode (aero_header 35 140) = Inr t" and u: "veteran_decode (aero_header 49 56) = Inr u"
    using veteran_decode_iff [of "aero_header 35 140"] veteran_decode_iff [of "aero_header 49 56"]
    by (auto simp: aero_header_def)
  have vt: "vt_voltage t = 91000" "fw_model_id (vt_firmware t) = 43"
    using decoded_header [OF t]
    by (auto simp: aero_header_def cursor_be_u16_eq firmware_from_raw_def voltage_from_centivolts_def saturate_i32_def
      u16_from_be_bytes_def)
  have vu: "vt_voltage u = 126000" "fw_model_id (vt_firmware u) = 43"
    using decoded_header [OF u]
    by (auto simp: aero_header_def cursor_be_u16_eq firmware_from_raw_def voltage_from_centivolts_def saturate_i32_def
      u16_from_be_bytes_def)
  obtain p where p: "from_model_id (fw_model_id (vt_firmware t)) = Some p"
    and g: "vp_range_start p = 91000" "vp_range_end p = 126000"
    using samsung_pack_start [of 30] samsung_pack_end [of 30]
    by (simp add: vt from_model_id_def Let_def profile_new_with_battery_profile_def with_observed_app_odometer_offset_def)
  show ?thesis
    using veteran_battery_estimate [OF t u _ p] t u p g vt vu by simp
qed

end
