(* ===== verification/Veteran_Session.thy ===== *)
theory Veteran_Session
  imports Veteran_Telemetry Host_Session
begin

text \<open>
  The session of Veteran and NOSFET wheels (\<^verbatim>\<open>cutout-protocols/src/session.rs\<close>,
  \<^verbatim>\<open>request_encoder.rs\<close>, \<^verbatim>\<open>raw_settings.rs\<close>): the notification decoder that feeds the reassembler,
  decodes telemetry, settings and battery pages, keeps the raw settings page and detects the command mode
  of the wheel, as the decoder of the read-only Aero model.  The checksum function of the external package
  is the argument \<open>crc32\<close>.  Counts of events are natural numbers, far below saturation.  Shown: a valid
  frame reaches the session root however it is split into notifications, and over any inputs the session
  never writes, keeps its battery history within the bound the code asserts, and keeps one raw settings
  page.
\<close>

section \<open>Command mode\<close>

datatype VeteranCommandMode = CommandAscii | CommandBinary

record VeteranCommandModeDetector =
  mode_previous :: "VeteranCommandMode option"
  mode_latched :: "VeteranCommandMode option"

definition detector_default :: VeteranCommandModeDetector where
  "detector_default = \<lparr>mode_previous = None, mode_latched = None\<rparr>"

definition command_mode :: "VeteranCommandModeDetector \<Rightarrow> VeteranCommandMode" where
  "command_mode d = unwrap_or (mode_latched d) CommandBinary"

definition is_latched :: "VeteranCommandModeDetector \<Rightarrow> bool" where
  "is_latched d \<longleftrightarrow> is_some (mode_latched d)"

definition observe_complete_packet_len :: "VeteranCommandModeDetector \<Rightarrow> nat \<Rightarrow> VeteranCommandModeDetector" where
  "observe_complete_packet_len d packet_len =
     (if packet_len < 36 \<or> is_some (mode_latched d) then d
      else
        let seen = (if packet_len < 47 then CommandAscii else CommandBinary)
        in if mode_previous d = Some seen then d\<lparr>mode_latched := Some seen\<rparr>
           else d\<lparr>mode_previous := Some seen\<rparr>)"

section \<open>Raw settings pages\<close>

datatype RawSettingsPageKey = VeteranPageKey (key_selector: u8)

record RawSettingsPage =
  raw_key :: RawSettingsPageKey
  raw_observed_at :: MonotonicTimestamp
  raw_bytes :: "u8 list"

text \<open>
  \<open>binary_search_by_key\<close> on pages sorted by their selector: the position of the page, or the position at
  which it belongs.
\<close>

fun search_page :: "u8 \<Rightarrow> RawSettingsPage list \<Rightarrow> nat + nat" where
  "search_page selector [] = Inl 0"
| "search_page selector (p # ps) =
     (if key_selector (raw_key p) = selector then Inr 0
      else if selector < key_selector (raw_key p) then Inl 0
      else map_sum Suc Suc (search_page selector ps))"

definition observe_veteran :: "RawSettingsPage list \<Rightarrow> VeteranFrame \<Rightarrow> MonotonicTimestamp \<Rightarrow> RawSettingsPage list" where
  "observe_veteran pages frame at =
     (case bms_page_from_frame frame of
        None \<Rightarrow> pages
      | Some evidence \<Rightarrow>
          let page = \<lparr>raw_key = VeteranPageKey (vb_selector evidence), raw_observed_at = at,
                      raw_bytes = veteran_bytes frame\<rparr>
          in case search_page (vb_selector evidence) pages of
               Inr index \<Rightarrow>
                 if at < raw_observed_at (pages ! index) then pages else pages[index := page]
             | Inl index \<Rightarrow> take index pages @ page # drop index pages)"

section \<open>Decoder\<close>

record VeteranNotificationDecoder =
  vd_reassembler :: VeteranFrameReassembler
  vd_command_mode :: VeteranCommandModeDetector
  vd_raw_settings :: "RawSettingsPage list option"

definition veteran_decoder_default :: VeteranNotificationDecoder where
  "veteran_decoder_default =
     \<lparr>vd_reassembler = veteran_default, vd_command_mode = detector_default, vd_raw_settings = None\<rparr>"

definition veteran_decoder_reset :: "VeteranNotificationDecoder \<Rightarrow> VeteranNotificationDecoder" where
  "veteran_decoder_reset d =
     d\<lparr>vd_reassembler := veteran_reset (vd_reassembler d), vd_command_mode := detector_default,
       vd_raw_settings := None\<rparr>"

definition raw_settings_pages :: "VeteranNotificationDecoder \<Rightarrow> RawSettingsPage list" where
  "raw_settings_pages d = (case vd_raw_settings d of None \<Rightarrow> [] | Some pages \<Rightarrow> pages)"

text \<open>The battery readback of a frame, when it carries a page that is not raw and decodes.\<close>

definition frame_readback :: "VeteranFrame \<Rightarrow> BatteryReadback option" where
  "frame_readback frame =
     (case bms_page_from_frame frame of
        None \<Rightarrow> None
      | Some evidence \<Rightarrow> if vb_kind evidence = KindRaw then None else veteran_bms_readback evidence)"

text \<open>The outputs of one frame and the number of events they count as.\<close>

definition push_veteran_frame :: "VeteranFrame \<Rightarrow> MonotonicTimestamp \<Rightarrow> SessionOutput list \<times> nat" where
  "push_veteran_frame frame at =
     (case veteran_decode frame of
        Inr t \<Rightarrow>
          (let settings = to_settings_responses t
                 @ (case to_aero_settings_page_response t frame of None \<Rightarrow> [] | Some r \<Rightarrow> [r]);
               outs = Event (EventTelemetry (veteran_to_delta t at))
                 # Event (EventReadOnlyResponse (to_firmware_response t))
                 # map (\<lambda>r. Event (EventReadOnlyResponse r)) settings
           in case frame_readback frame of
                Some readback \<Rightarrow>
                  (outs @ [Event (EventReadOnlyResponse (ResponseBattery readback))], 3 + length settings)
              | None \<Rightarrow> (outs, 2 + length settings))
      | Inl _ \<Rightarrow> (push_parser_error MalformedFrame, 2))"

definition push_veteran_ingest_outcome_for_frame ::
  "VeteranFrame \<Rightarrow> ProtocolFamily \<Rightarrow> GattChannel \<Rightarrow> MonotonicTimestamp \<Rightarrow> nat \<Rightarrow> SessionOutput list" where
  "push_veteran_ingest_outcome_for_frame frame family channel at event_count =
     (let evidence = evidence_new family channel (length (veteran_bytes frame)) at;
          semantic = NotificationIngest (SemanticEvents evidence event_count)
      in case bms_page_from_frame frame of
           None \<Rightarrow> [semantic]
         | Some page \<Rightarrow>
             let gap = NotificationIngest (ParserGap evidence
                   \<lparr>gap_classifier = ClassifierSelector (vb_selector page), gap_body_len = length (vb_body page),
                    gap_retained_payload = retained_from_bytes (vb_body page)\<rparr>)
             in if vb_kind page \<noteq> KindRaw then [semantic, gap]
                else if vb_selector page = 8
                then [NotificationIngest (KnownReserved evidence
                   \<lparr>reserved_classifier = ClassifierSelector (vb_selector page),
                    reserved_body_len = length (vb_body page),
                    reserved_retained_payload = retained_from_bytes (vb_body page),
                    reserved_verification = HardwareVerified\<rparr>)]
                else [gap])"

fun parser_error_of :: "VeteranReassemblyError \<Rightarrow> ParserError" where
  "parser_error_of CrcMismatch = BadChecksum"
| "parser_error_of (OversizedFrame claimed' limit) = ParserOversizedFrame claimed' limit"
| "parser_error_of VeteranInvalidFrame = MalformedFrame"

text \<open>The decoder after a complete frame, its reassembler aside.\<close>

definition observe_frame_state ::
  "VeteranNotificationDecoder \<Rightarrow> VeteranFrame \<Rightarrow> MonotonicTimestamp \<Rightarrow> VeteranNotificationDecoder" where
  "observe_frame_state d frame at =
     (let d1 = (if slice_get (veteran_bytes frame) 46 = Some 8
                then d\<lparr>vd_raw_settings := Some (observe_veteran (raw_settings_pages d) frame at)\<rparr> else d)
      in d1\<lparr>vd_command_mode := observe_complete_packet_len (vd_command_mode d1) (length (veteran_bytes frame))\<rparr>)"

definition complete_frame_outputs ::
  "ProtocolFamily \<Rightarrow> GattChannel \<Rightarrow> VeteranFrame \<Rightarrow> MonotonicTimestamp \<Rightarrow> SessionOutput list" where
  "complete_frame_outputs family channel frame at =
     (case push_veteran_frame frame at of (outs, n) \<Rightarrow>
        outs @ push_veteran_ingest_outcome_for_frame frame family channel at n)"

text \<open>
  The loop over the bytes of a notification, with whether a frame was completed and whether bytes are
  buffered; \<open>all\<close> is the whole notification.
\<close>

primrec veteran_notification_loop ::
  "(u8 list \<Rightarrow> u32) \<Rightarrow> ProtocolFamily \<Rightarrow> GattChannel \<Rightarrow> u8 list \<Rightarrow> MonotonicTimestamp
     \<Rightarrow> VeteranNotificationDecoder \<Rightarrow> bool \<Rightarrow> bool \<Rightarrow> u8 list \<Rightarrow> SessionOutput list \<times> VeteranNotificationDecoder" where
  "veteran_notification_loop crc32 family channel all at d completed buffered [] =
     (if completed then ([], d)
      else ([NotificationIngest
               (if buffered then BufferedFragment (evidence_new family channel (length all) at)
                else seeking_frame_boundary family channel all at)], d))"
| "veteran_notification_loop crc32 family channel all at d completed buffered (byte # bytes) =
     (case veteran_feed_byte_result crc32 (vd_reassembler d) byte of
        (Inr (VeteranComplete frame), r) \<Rightarrow>
          (case veteran_notification_loop crc32 family channel all at
                  (observe_frame_state (d\<lparr>vd_reassembler := r\<rparr>) frame at) True False bytes of
             (outs, d') \<Rightarrow> (complete_frame_outputs family channel frame at @ outs, d'))
      | (Inr VeteranBuffered, r) \<Rightarrow>
          veteran_notification_loop crc32 family channel all at (d\<lparr>vd_reassembler := r\<rparr>) completed True bytes
      | (Inr VeteranSeeking, r) \<Rightarrow>
          veteran_notification_loop crc32 family channel all at (d\<lparr>vd_reassembler := r\<rparr>) completed False bytes
      | (Inl e, r) \<Rightarrow>
          (push_parser_error (parser_error_of e)
             @ [NotificationIngest (ParserDiagnostic (evidence_new family channel (length all) at) (parser_error_of e))],
           d\<lparr>vd_reassembler := r\<rparr>))"

definition veteran_handle_notification ::
  "(u8 list \<Rightarrow> u32) \<Rightarrow> ProtocolFamily \<Rightarrow> GattChannel \<Rightarrow> VeteranNotificationDecoder \<Rightarrow> u8 list \<Rightarrow> MonotonicTimestamp
     \<Rightarrow> SessionOutput list \<times> VeteranNotificationDecoder" where
  "veteran_handle_notification crc32 family channel d bytes at =
     veteran_notification_loop crc32 family channel bytes at d False False bytes"

section \<open>Model\<close>

definition VETERAN_DATA_CHANNEL :: GattChannel where
  "VETERAN_DATA_CHANNEL =
     [0x00, 0x00, 0xff, 0xe1, 0x00, 0x00, 0x10, 0x00, 0x80, 0x00, 0x00, 0x80, 0x5f, 0x9b, 0x34, 0xfb]"

definition AERO_READ_CAPABILITIES :: CommandSet where
  "AERO_READ_CAPABILITIES =
     from_commands [RequestIdentity, RequestFirmwareInfo, RequestTelemetry, RequestBatteryInfo, RequestSettings]"

definition nosfet_aero_model :: "(u8 list \<Rightarrow> u32) \<Rightarrow> (AeroProbe, VeteranNotificationDecoder) ReadOnlyModel" where
  "nosfet_aero_model crc32 =
     \<lparr>model_protocol = VeteranLeaperkimNosfet, model_write_channel = VETERAN_DATA_CHANNEL,
      model_subscribe_channel = VETERAN_DATA_CHANNEL, model_read_capabilities = AERO_READ_CAPABILITIES,
      model_encode_read_command = aero_encode_command, model_reset = veteran_decoder_reset,
      model_on_tick = (\<lambda>d at. ([], d)), model_next_tick_at = (\<lambda>d. None),
      model_on_read_command = (\<lambda>d kind. (False, [], d)),
      model_handle_notification = veteran_handle_notification crc32\<rparr>"

definition aero_session :: "VeteranNotificationDecoder ReadOnlySession" where
  "aero_session = with_decoder veteran_decoder_default"

text \<open>A host over an Aero session.\<close>

abbreviation aero_run :: "(u8 list \<Rightarrow> u32) \<Rightarrow> SessionInput list \<Rightarrow> VeteranNotificationDecoder HostSession" where
  "aero_run crc32 \<equiv> host_run (nosfet_aero_model crc32) aero_session"

section \<open>Outputs of the decoder\<close>

lemma push_veteran_frame_outputs:
  assumes "x \<in> set (complete_frame_outputs family channel frame at)"
  shows "\<not> is_transport x \<and> \<not> is_link_event x"
  using assms
  by (auto simp: complete_frame_outputs_def push_veteran_frame_def push_parser_error_def
      push_veteran_ingest_outcome_for_frame_def Let_def split: sum.splits option.splits prod.splits if_splits)

text \<open>A readback of a decoder has no tag, and is a cell page exactly for a cell selector.\<close>

definition selector_fixes_kind :: "BatteryReadback \<Rightarrow> bool" where
  "selector_fixes_kind r \<longleftrightarrow>
     (case rb_page r of
        None \<Rightarrow> True
      | Some page \<Rightarrow> is_cell_page (Some page) \<longleftrightarrow>
          classify_veteran_bms_selector (page_selector (payload_page page)) = KindCellVoltage)"

lemma frame_readback_kind:
  assumes "frame_readback frame = Some r"
  shows "selector_fixes_kind r"
proof -
  obtain e where e: "bms_page_from_frame frame = Some e" "veteran_bms_readback e = Some r"
    using assms by (auto simp: frame_readback_def split: option.splits if_splits)
  then show ?thesis
    using veteran_readback_page [OF e(2) bms_page_kind [OF e(1)]] by (auto simp: selector_fixes_kind_def)
qed

lemma settings_responses_silent:
  "r \<in> set (to_settings_responses t) \<Longrightarrow> battery_of (Event (EventReadOnlyResponse r)) = None"
  "to_aero_settings_page_response t frame = Some r \<Longrightarrow> battery_of (Event (EventReadOnlyResponse r)) = None"
  by (auto simp: to_settings_responses_def to_aero_settings_page_response_def Let_def split: if_splits)

lemma complete_frame_battery:
  assumes "x \<in> set (complete_frame_outputs family channel frame at)" and "battery_of x = Some r"
  shows "frame_readback frame = Some r"
  using assms settings_responses_silent
  by (auto simp: complete_frame_outputs_def push_veteran_frame_def push_parser_error_def to_firmware_response_def
      push_veteran_ingest_outcome_for_frame_def Let_def split: sum.splits option.splits prod.splits if_splits)

lemma loop_outputs:
  assumes "x \<in> set (fst (veteran_notification_loop crc32 family channel all at d completed buffered bytes))"
  shows "\<not> is_transport x \<and> \<not> is_link_event x \<and> (\<forall>r. battery_of x = Some r \<longrightarrow> selector_fixes_kind r)"
  using assms
proof (induction bytes arbitrary: d completed buffered)
  case (Cons byte bytes)
  obtain res r where step: "veteran_feed_byte_result crc32 (vd_reassembler d) byte = (res, r)"
    by fastforce
  show ?case
  proof (cases res)
    case (Inl e)
    then show ?thesis
      using Cons.prems step by (auto simp: push_parser_error_def)
  next
    case (Inr q)
    then show ?thesis
    proof (cases q)
      case (VeteranComplete frame)
      then consider "x \<in> set (complete_frame_outputs family channel frame at)"
        | "x \<in> set (fst (veteran_notification_loop crc32 family channel all at
            (observe_frame_state (d\<lparr>vd_reassembler := r\<rparr>) frame at) True False bytes))"
        using Cons.prems step Inr by (auto simp: case_prod_unfold)
      then show ?thesis
        using push_veteran_frame_outputs complete_frame_battery frame_readback_kind Cons.IH by cases blast+
    qed (use Cons step Inr in auto)
  qed
qed (auto simp: seeking_frame_boundary_def split: if_splits)

interpretation aero: paged_model "nosfet_aero_model crc32" selector_fixes_kind for crc32
  using loop_outputs
  by unfold_locales
    (auto simp: nosfet_aero_model_def veteran_handle_notification_def selector_fixes_kind_def with_observed_at_def)

lemma aero_kinds_fixed: "kinds_fixed (List.map_filter battery_of (host_output (aero_run crc32 is)))"
proof -
  have kind: "selector_fixes_kind r"
    if "r \<in> set (List.map_filter battery_of (host_output (aero_run crc32 is)))" for r
    using that aero.run_pages by (fastforce simp: List.map_filter_def)
  show ?thesis
    unfolding kinds_fixed_def
  proof (intro ballI allI impI)
    fix r r' page
    assume "r \<in> set (List.map_filter battery_of (host_output (aero_run crc32 is)))"
      and "r' \<in> set (List.map_filter battery_of (host_output (aero_run crc32 is)))"
      and "rb_page r = Some page" and "carries_page (payload_page page) r'"
    then show "is_cell_page (rb_page r) = is_cell_page (rb_page r')"
      using kind [of r] kind [of r']
      by (auto simp: selector_fixes_kind_def carries_page_def is_some_and_def same_bms_page_iff split: option.splits)
  qed
qed

lemma aero_never_writes: "Transport (Write channel bytes mode) \<notin> set (host_output (aero_run crc32 is))"
proof
  assume w: "Transport (Write channel bytes mode) \<in> set (host_output (aero_run crc32 is))"
  then obtain kind r where "aero_encode_command kind = Some (DispositionWrite r)
      \<or> (\<exists>rs. aero_encode_command kind = Some (DispositionWrites rs) \<and> r \<in> set rs)"
    using aero.run_writes [OF w] by (auto simp: nosfet_aero_model_def)
  then show False
    by (auto simp: aero_encode_command_def aero_encode_def)
qed

section \<open>The state of the decoder\<close>

definition raw_page_ok :: "(u8 list \<Rightarrow> u32) \<Rightarrow> RawSettingsPage \<Rightarrow> bool" where
  "raw_page_ok crc32 p \<longleftrightarrow>
     raw_key p = VeteranPageKey 8 \<and> veteran_valid crc32 (raw_bytes p) \<and> slice_get (raw_bytes p) 46 = Some 8"

definition decoder_ok :: "(u8 list \<Rightarrow> u32) \<Rightarrow> VeteranNotificationDecoder \<Rightarrow> bool" where
  "decoder_ok crc32 d \<longleftrightarrow>
     veteran_inv (vd_reassembler d) \<and> length (raw_settings_pages d) \<le> 1
     \<and> list_all (raw_page_ok crc32) (raw_settings_pages d)"

lemma observe_veteran_ok:
  assumes "length ps \<le> 1" and "list_all (raw_page_ok crc32) ps" and "slice_get (veteran_bytes f) 46 = Some 8"
    and "veteran_valid crc32 (veteran_bytes f)"
  shows "length (observe_veteran ps f at) \<le> 1 \<and> list_all (raw_page_ok crc32) (observe_veteran ps f at)"
proof (cases "bms_page_from_frame f")
  case (Some e)
  then have "vb_selector e = 8"
    using assms(3) by (auto simp: bms_page_from_frame_def Let_def VETERAN_BMS_SELECTOR_OFFSET_def split: option.splits if_splits)
  then show ?thesis
    using assms Some by (cases ps) (auto simp: observe_veteran_def raw_page_ok_def Let_def)
qed (use assms in \<open>simp add: observe_veteran_def\<close>)

lemma observe_frame_state_keeps [simp]: "vd_reassembler (observe_frame_state d f at) = vd_reassembler d"
  by (simp add: observe_frame_state_def Let_def)

lemma observe_frame_state_ok:
  assumes "decoder_ok crc32 d" and "veteran_valid crc32 (veteran_bytes f)"
  shows "decoder_ok crc32 (observe_frame_state d f at)"
  using assms observe_veteran_ok [of "raw_settings_pages d" crc32 f at]
  by (auto simp: decoder_ok_def observe_frame_state_def raw_settings_pages_def Let_def)

lemma feed_ok:
  assumes "veteran_inv r" and "veteran_feed_byte_result crc32 r byte = (res, r')"
  shows "veteran_inv r' \<and> (\<forall>f. res = Inr (VeteranComplete f) \<longrightarrow> veteran_valid crc32 (veteran_bytes f))"
  using veteran_step_cases [OF assms(1), of crc32 byte] assms(2) by (elim disjE exE conjE) auto

lemma decoder_ok_reassembler:
  "decoder_ok crc32 d \<Longrightarrow> veteran_inv r \<Longrightarrow> decoder_ok crc32 (d\<lparr>vd_reassembler := r\<rparr>)"
  by (simp add: decoder_ok_def raw_settings_pages_def)

lemma loop_ok:
  assumes "decoder_ok crc32 d"
  shows "decoder_ok crc32 (snd (veteran_notification_loop crc32 family channel all at d completed buffered bytes))"
  using assms
proof (induction bytes arbitrary: d completed buffered)
  case (Cons byte bytes)
  obtain res r where step: "veteran_feed_byte_result crc32 (vd_reassembler d) byte = (res, r)"
    by fastforce
  then have r: "veteran_inv r" "\<forall>f. res = Inr (VeteranComplete f) \<longrightarrow> veteran_valid crc32 (veteran_bytes f)"
    using feed_ok [OF _ step] Cons.prems by (auto simp: decoder_ok_def)
  show ?case
    using Cons.IH decoder_ok_reassembler [OF Cons.prems r(1)] observe_frame_state_ok r(2) step
    by (auto simp: case_prod_unfold split: sum.splits VeteranFrameParseResult.splits)
qed simp

lemma veteran_default_inv: "veteran_inv veteran_default" "veteran_inv (veteran_reset r)"
  by (simp_all add: veteran_inv_def veteran_default_def veteran_reset_def)

lemma aero_handle_ok:
  assumes "decoder_ok crc32 (session_decoder s)"
  shows "decoder_ok crc32 (session_decoder (snd (handle_read_only_session (nosfet_aero_model crc32) s i)))"
proof -
  have reset: "decoder_ok crc32 (veteran_decoder_reset (session_decoder s))"
    by (simp add: decoder_ok_def veteran_decoder_reset_def raw_settings_pages_def veteran_default_inv)
  show ?thesis
  proof (cases i)
    case (InputNotification channel bytes at)
    then show ?thesis
      using assms loop_ok [OF assms] by (auto simp: nosfet_aero_model_def veteran_handle_notification_def split: prod.splits)
        (metis snd_conv)
  next
    case (InputCommand kind)
    then show ?thesis
      using assms
      by (auto simp: handle_read_only_command_def nosfet_aero_model_def
          split: ReadOnlyCommandGate.splits CommandKind.splits)
  qed (use assms reset in \<open>simp_all add: nosfet_aero_model_def\<close>)
qed

interpretation aero_host: reducer "host_handle (nosfet_aero_model crc32)" "host_new aero_session"
  "\<lambda>h. decoder_ok crc32 (session_decoder (host_session h))" for crc32
proof unfold_locales
  show "decoder_ok crc32 (session_decoder (host_session (host_new aero_session)))"
    by (simp add: host_new_def aero_session_def with_decoder_def veteran_decoder_default_def decoder_ok_def
        raw_settings_pages_def veteran_default_inv)
qed (simp add: host_handle_session aero_handle_ok)

section \<open>Delivery of a frame\<close>

text \<open>Bytes of a valid frame that do not complete it are buffered without an event.\<close>

lemma loop_prefix:
  assumes "veteran_inv (vd_reassembler d)" and "veteran_valid crc32 (veteran_buffer (vd_reassembler d) @ xs @ ys)"
    and "ys \<noteq> []"
  shows "\<exists>outcome r. veteran_notification_loop crc32 family channel all at d False buffered xs =
      ([NotificationIngest outcome], d\<lparr>vd_reassembler := r\<rparr>)
    \<and> veteran_inv r \<and> veteran_buffer r = veteran_buffer (vd_reassembler d) @ xs"
  using assms
proof (induction xs arbitrary: d buffered)
  case Nil
  then show ?case
    by (intro exI [of _ "vd_reassembler d"] exI) auto
next
  case (Cons b xs)
  obtain r where step: "veteran_feed_byte_result crc32 (vd_reassembler d) b = (Inr VeteranBuffered, r)"
    and buf: "veteran_buffer r = veteran_buffer (vd_reassembler d) @ [b]"
    using veteran_feed_prefix [OF Cons.prems(1), of crc32 b "xs @ ys"] Cons.prems(2,3) by auto
  have "veteran_inv r"
    using feed_ok [OF Cons.prems(1) step] by simp
  then show ?case
    using Cons.IH [of "d\<lparr>vd_reassembler := r\<rparr>" True] Cons.prems(2,3) step buf by auto
qed

lemma loop_completes:
  assumes "veteran_inv (vd_reassembler d)" and "veteran_valid crc32 (veteran_buffer (vd_reassembler d) @ xs)"
    and "xs \<noteq> []"
  shows "veteran_notification_loop crc32 family channel all at d completed buffered xs =
    (complete_frame_outputs family channel \<lparr>veteran_bytes = veteran_buffer (vd_reassembler d) @ xs\<rparr> at,
     observe_frame_state (d\<lparr>vd_reassembler := (vd_reassembler d)\<lparr>veteran_buffer := [], veteran_state := SeekingMagic0\<rparr>\<rparr>)
       \<lparr>veteran_bytes = veteran_buffer (vd_reassembler d) @ xs\<rparr> at)"
  using assms
proof (induction xs arbitrary: d completed buffered)
  case (Cons b xs)
  note step = veteran_feed_prefix [OF Cons.prems(1,2)]
  show ?case
  proof (cases "xs = []")
    case False
    let ?r = "snd (veteran_feed_byte_result crc32 (vd_reassembler d) b)"
    have "veteran_inv ?r"
      using feed_ok [OF Cons.prems(1) surjective_pairing] by blast
    then show ?thesis
      using Cons.IH [of "d\<lparr>vd_reassembler := ?r\<rparr>"] Cons.prems(2) step False by simp
  qed (use step in simp)
qed simp

lemma complete_frame_deltas:
  assumes "veteran_decode frame = Inr t"
  shows "List.map_filter delta_of (complete_frame_outputs family channel frame at) = [veteran_to_delta t at]"
  using assms
  by (auto simp: complete_frame_outputs_def push_veteran_frame_def push_veteran_ingest_outcome_for_frame_def Let_def
      List.map_filter_def split: option.splits)

text \<open>Notifications on the data channel.\<close>

abbreviation data_notification :: "u8 list \<times> MonotonicTimestamp \<Rightarrow> SessionInput" where
  "data_notification n \<equiv> InputNotification VETERAN_DATA_CHANNEL (fst n) (snd n)"

definition aero_reassembler :: "VeteranNotificationDecoder HostSession \<Rightarrow> VeteranFrameReassembler" where
  "aero_reassembler h = vd_reassembler (session_decoder (host_session h))"

lemma aero_notification:
  assumes "connected (host_session h)"
    and "veteran_handle_notification crc32 VeteranLeaperkimNosfet VETERAN_DATA_CHANNEL (session_decoder (host_session h))
      (fst n) (snd n) = (outs, d)"
  shows "handle_read_only_session (nosfet_aero_model crc32) (host_session h) (data_notification n) =
    (outs, (host_session h)\<lparr>session_decoder := d\<rparr>)"
  using assms by (simp add: nosfet_aero_model_def)

lemma prefix_delivered:
  assumes "connected (host_session h)" and "veteran_inv (aero_reassembler h)"
    and "veteran_valid crc32 (veteran_buffer (aero_reassembler h) @ fst n @ ys)" and "ys \<noteq> []"
  shows "let h' = host_handle (nosfet_aero_model crc32) h (data_notification n)
    in connected (host_session h') \<and> veteran_inv (aero_reassembler h')
      \<and> veteran_buffer (aero_reassembler h') = veteran_buffer (aero_reassembler h) @ fst n
      \<and> telemetry_current (host_state h') = telemetry_current (host_state h)"
proof -
  let ?d = "session_decoder (host_session h)"
  obtain outcome r where loop: "veteran_handle_notification crc32 VeteranLeaperkimNosfet VETERAN_DATA_CHANNEL ?d
      (fst n) (snd n) = ([NotificationIngest outcome], ?d\<lparr>vd_reassembler := r\<rparr>)"
    and r: "veteran_inv r" "veteran_buffer r = veteran_buffer (vd_reassembler ?d) @ fst n"
    using loop_prefix [of ?d crc32 "fst n" ys] assms unfolding veteran_handle_notification_def aero_reassembler_def by metis
  note step = aero_notification [OF assms(1) loop]
  show ?thesis
    using host_handle_current [OF step] r assms(1) step
    by (simp add: Let_def aero_reassembler_def host_handle_session List.map_filter_simps)
qed

lemma frame_delivered:
  assumes "connected (host_session h)" and "veteran_inv (aero_reassembler h)"
    and "veteran_valid crc32 (veteran_buffer (aero_reassembler h) @ fst n)" and "fst n \<noteq> []"
    and "veteran_decode \<lparr>veteran_bytes = veteran_buffer (aero_reassembler h) @ fst n\<rparr> = Inr t"
  shows "let h' = host_handle (nosfet_aero_model crc32) h (data_notification n)
    in connected (host_session h') \<and> veteran_buffer (aero_reassembler h') = []
      \<and> veteran_state (aero_reassembler h') = SeekingMagic0
      \<and> telemetry_current (host_state h') = apply_delta (telemetry_current (host_state h)) (veteran_to_delta t (snd n))"
proof -
  let ?d = "session_decoder (host_session h)"
  let ?f = "\<lparr>veteran_bytes = veteran_buffer (aero_reassembler h) @ fst n\<rparr>"
  have loop: "veteran_handle_notification crc32 VeteranLeaperkimNosfet VETERAN_DATA_CHANNEL ?d (fst n) (snd n) =
      (complete_frame_outputs VeteranLeaperkimNosfet VETERAN_DATA_CHANNEL ?f (snd n),
       observe_frame_state (?d\<lparr>vd_reassembler := (vd_reassembler ?d)\<lparr>veteran_buffer := [], veteran_state := SeekingMagic0\<rparr>\<rparr>)
         ?f (snd n))"
    using loop_completes [of ?d crc32 "fst n"] assms unfolding veteran_handle_notification_def aero_reassembler_def by metis
  note step = aero_notification [OF assms(1) loop]
  have "list_all (\<lambda>x. \<not> is_link_event x) (complete_frame_outputs VeteranLeaperkimNosfet VETERAN_DATA_CHANNEL ?f (snd n))"
    using push_veteran_frame_outputs by (auto simp: list_all_iff)
  then show ?thesis
    using host_handle_current [OF step] assms(1) step
    by (simp add: Let_def aero_reassembler_def host_handle_session complete_frame_deltas [OF assms(5) [unfolded aero_reassembler_def]])
qed

lemma prefixes_delivered:
  assumes "connected (host_session h)" and "veteran_inv (aero_reassembler h)"
    and "veteran_valid crc32 (veteran_buffer (aero_reassembler h) @ concat (map fst ns) @ ys)" and "ys \<noteq> []"
  shows "let h' = foldl (host_handle (nosfet_aero_model crc32)) h (map data_notification ns)
    in connected (host_session h') \<and> veteran_inv (aero_reassembler h')
      \<and> veteran_buffer (aero_reassembler h') = veteran_buffer (aero_reassembler h) @ concat (map fst ns)
      \<and> telemetry_current (host_state h') = telemetry_current (host_state h)"
  using assms
proof (induction ns arbitrary: h)
  case (Cons n ns)
  let ?h = "host_handle (nosfet_aero_model crc32) h (data_notification n)"
  have "connected (host_session ?h) \<and> veteran_inv (aero_reassembler ?h)
      \<and> veteran_buffer (aero_reassembler ?h) = veteran_buffer (aero_reassembler h) @ fst n
      \<and> telemetry_current (host_state ?h) = telemetry_current (host_state h)"
    using prefix_delivered [of h crc32 n "concat (map fst ns) @ ys"] Cons.prems by (simp add: Let_def)
  then show ?case
    using Cons.IH [of ?h] Cons.prems(3,4) by (simp add: Let_def)
qed (simp add: Let_def)

section \<open>Properties\<close>

text \<open>
  C6.  A telemetry frame reaches the session root: on a connected Aero session between frames, a valid
  frame that arrives on the data channel, cut into notifications in any way, changes the telemetry of the
  root by exactly the update decoded from it, at the time of the notification that completes it, and
  leaves the session connected and between frames again.
\<close>

theorem aero_frame_reaches_root:
  assumes "connected (host_session h)" and "veteran_buffer (aero_reassembler h) = []"
    and "veteran_state (aero_reassembler h) = SeekingMagic0"
    and "veteran_valid crc32 (concat (map fst ns) @ bytes)" and "bytes \<noteq> []"
    and "36 \<le> length (concat (map fst ns) @ bytes)"
  shows "\<exists>t. veteran_decode \<lparr>veteran_bytes = concat (map fst ns) @ bytes\<rparr> = Inr t
    \<and> (let h' = foldl (host_handle (nosfet_aero_model crc32)) h (map data_notification (ns @ [(bytes, at)]))
       in telemetry_current (host_state h') = apply_delta (telemetry_current (host_state h)) (veteran_to_delta t at)
         \<and> connected (host_session h') \<and> veteran_buffer (aero_reassembler h') = []
         \<and> veteran_state (aero_reassembler h') = SeekingMagic0)"
proof -
  let ?h = "foldl (host_handle (nosfet_aero_model crc32)) h (map data_notification ns)"
  obtain t where t: "veteran_decode \<lparr>veteran_bytes = concat (map fst ns) @ bytes\<rparr> = Inr t"
    using veteran_decode_iff assms(6) by fastforce
  have "veteran_inv (aero_reassembler h)"
    using assms(2,3) by (simp add: veteran_inv_def)
  then have "connected (host_session ?h) \<and> veteran_inv (aero_reassembler ?h)
      \<and> veteran_buffer (aero_reassembler ?h) = concat (map fst ns)
      \<and> telemetry_current (host_state ?h) = telemetry_current (host_state h)"
    using prefixes_delivered [of h crc32 ns bytes] assms by (simp add: Let_def)
  then show ?thesis
    using frame_delivered [of ?h crc32 "(bytes, at)" t] t assms(4,5) by (simp add: Let_def)
qed

theorem aero_frame_reaches_root_witness:
  "ts_voltage (telemetry_current (host_state (aero_run (\<lambda>_. 0)
     [InputLinkUp \<lparr>link_monotonic_ms = 1, link_max_write_len = None\<rparr>,
      data_notification (take 20 (veteran_bytes (aero_header 49 56)), 2),
      data_notification (drop 20 (veteran_bytes (aero_header 49 56)), 3)]))) = Some (measured_reported 126000)"
proof -
  define bs where "bs = veteran_bytes (aero_header 49 56)"
  define h where "h = host_handle (nosfet_aero_model (\<lambda>_. 0)) (host_new aero_session)
    (InputLinkUp \<lparr>link_monotonic_ms = 1, link_max_write_len = None\<rparr>)"
  have frame: "\<lparr>veteran_bytes = bs\<rparr> = aero_header 49 56"
    by (simp add: aero_header_def bs_def)
  have h: "connected (host_session h)" "veteran_buffer (aero_reassembler h) = []"
    "veteran_state (aero_reassembler h) = SeekingMagic0"
    by (simp_all add: h_def aero_reassembler_def host_handle_session nosfet_aero_model_def host_new_def aero_session_def
        with_decoder_def veteran_decoder_default_def veteran_decoder_reset_def veteran_reset_def)
  have bs: "veteran_valid (\<lambda>_. 0) bs" "36 \<le> length bs" "drop 20 bs \<noteq> []"
    by (simp_all add: veteran_valid_def aero_header_def bs_def)
  obtain t where t: "veteran_decode (aero_header 49 56) = Inr t"
    and root: "telemetry_current (host_state (foldl (host_handle (nosfet_aero_model (\<lambda>_. 0))) h
      (map data_notification ([(take 20 bs, 2)] @ [(drop 20 bs, 3)])))) =
      apply_delta (telemetry_current (host_state h)) (veteran_to_delta t 3)"
    using aero_frame_reaches_root [OF h, of "\<lambda>_. 0" "[(take 20 bs, 2)]" "drop 20 bs" 3, unfolded Let_def] bs frame
    by auto
  have "vt_voltage t = 126000"
    using decoded_header [OF t]
    by (auto simp: aero_header_def cursor_be_u16_eq voltage_from_centivolts_def saturate_i32_def u16_from_be_bytes_def)
  then have "ts_voltage (apply_delta (telemetry_current (host_state h)) (veteran_to_delta t 3)) = Some (measured_reported 126000)"
    by (simp add: apply_delta_def veteran_to_delta_def Let_def newer_def)
  then show ?thesis
    using root unfolding host_run_def h_def [symmetric] bs_def [symmetric] by (simp add: h_def)
qed

text \<open>
  C11.  Whatever links, notifications, ticks and commands an Aero session sees, it never writes to the
  wheel; the battery history of its root stays within the bound the code asserts; and it keeps at most
  one raw settings page, which is a complete and valid frame of the settings selector.
\<close>

theorem aero_session_contained:
  "Transport (Write channel bytes mode) \<notin> set (host_output (aero_run crc32 is))
   \<and> length (bms_observation_history (telemetry_bms (host_state (aero_run crc32 is)))) \<le>
       bms_observation_history_max
         (length (filter (\<lambda>r. is_cell_page (rb_page r)) (bms_pages (telemetry_bms (host_state (aero_run crc32 is))))))
   \<and> length (raw_settings_pages (session_decoder (host_session (aero_run crc32 is)))) \<le> 1
   \<and> list_all (\<lambda>p. veteran_valid crc32 (raw_bytes p) \<and> slice_get (raw_bytes p) 46 = Some 8)
       (raw_settings_pages (session_decoder (host_session (aero_run crc32 is))))"
proof -
  have "decoder_ok crc32 (session_decoder (host_session (aero_run crc32 is)))"
    unfolding host_run_def by (rule aero_host.inv_run)
  moreover have "bms_agree (telemetry_bms (host_state (aero_run crc32 is)))
      (bms_run (List.map_filter battery_of (host_output (aero_run crc32 is))))"
    by (rule host_run_bms)
  ultimately show ?thesis
    using aero_never_writes history_bounded [OF aero_kinds_fixed]
    by (auto simp: bms_agree_def decoder_ok_def raw_page_ok_def list_all_iff)
qed

end
