(* ===== verification/Float_Bits.thy ===== *)
theory Float_Bits
  imports Prelude Complex_Main
begin

text \<open>
  The binary64 numbers of the language, by their bit patterns: finiteness, the comparisons and the
  conversion of seconds into whole nanoseconds.  Comparisons are defined on the patterns, so that
  they evaluate; their reading as comparisons of real numbers is proved.
\<close>

type_synonym f64 = u64

definition f64_magnitude :: "f64 \<Rightarrow> nat" where
  "f64_magnitude b = unat b mod 2 ^ 63"

definition f64_negative :: "f64 \<Rightarrow> bool" where
  "f64_negative b \<longleftrightarrow> 2 ^ 63 \<le> unat b"

definition f64_infinity_magnitude :: nat where
  "f64_infinity_magnitude = 2047 * 2 ^ 52"

definition f64_is_finite :: "f64 \<Rightarrow> bool" where
  "f64_is_finite b \<longleftrightarrow> f64_magnitude b < f64_infinity_magnitude"

definition f64_is_nan :: "f64 \<Rightarrow> bool" where
  "f64_is_nan b \<longleftrightarrow> f64_infinity_magnitude < f64_magnitude b"

text \<open>A key whose order is the order of the numbers; both zeros have key 0.\<close>

definition f64_key :: "f64 \<Rightarrow> int" where
  "f64_key b = (if f64_negative b then - int (f64_magnitude b) else int (f64_magnitude b))"

definition f64_le :: "f64 \<Rightarrow> f64 \<Rightarrow> bool" where
  "f64_le a b \<longleftrightarrow> \<not> f64_is_nan a \<and> \<not> f64_is_nan b \<and> f64_key a \<le> f64_key b"

definition f64_lt :: "f64 \<Rightarrow> f64 \<Rightarrow> bool" where
  "f64_lt a b \<longleftrightarrow> \<not> f64_is_nan a \<and> \<not> f64_is_nan b \<and> f64_key a < f64_key b"

definition f64_in_range :: "f64 \<Rightarrow> f64 \<Rightarrow> f64 \<Rightarrow> bool" where
  "f64_in_range lo hi b \<longleftrightarrow> f64_le lo b \<and> f64_le b hi"

section \<open>The numbers denoted\<close>

text \<open>The number a magnitude denotes, in units of \<open>2 ^ - 1074\<close>.\<close>

definition f64_units :: "nat \<Rightarrow> nat" where
  "f64_units n =
     (let e = n div 2 ^ 52; m = n mod 2 ^ 52
      in if e = 0 then m else (2 ^ 52 + m) * 2 ^ (e - 1))"

definition f64_unit :: real where
  "f64_unit = 1 / 2 ^ 1074"

definition f64_real :: "f64 \<Rightarrow> real" where
  "f64_real b = (if f64_negative b then -1 else 1) * real (f64_units (f64_magnitude b)) * f64_unit"

lemma f64_unit_pos: "0 < f64_unit"
  unfolding f64_unit_def by (rule divide_pos_pos) simp_all

lemma f64_units_parts:
  "m < 2 ^ 52 \<Longrightarrow> f64_units (e * 2 ^ 52 + m) = (if e = 0 then m else (2 ^ 52 + m) * 2 ^ (e - 1))"
  by (simp add: f64_units_def Let_def)

lemma f64_units_Suc: "f64_units n < f64_units (Suc n)"
proof -
  define e m where "e = n div 2 ^ 52" and "m = n mod 2 ^ 52"
  have n: "n = e * 2 ^ 52 + m" and m: "m < 2 ^ 52"
    by (simp_all add: e_def m_def)
  show ?thesis
  proof (cases "Suc m < 2 ^ 52")
    case True
    then show ?thesis
      using f64_units_parts [OF m, of e] f64_units_parts [OF True, of e] by (simp add: n del: power_numeral)
  next
    case False
    then have last: "Suc m = 2 ^ 52"
      using m by simp
    then have "Suc n = Suc e * 2 ^ 52 + 0"
      unfolding n by simp
    then have "f64_units (Suc n) = 2 ^ 52 * 2 ^ e"
      using f64_units_parts [of 0 "Suc e"] by simp
    moreover have "(2 ^ 52 + m) * 2 ^ (e - 1) < 2 ^ 52 * 2 ^ e" if "e > 0"
      using m that by (cases e) simp_all
    ultimately show ?thesis
      using f64_units_parts [OF m, of e] m by (auto simp: n)
  qed
qed

lemma f64_units_less [simp]: "f64_units m < f64_units n \<longleftrightarrow> m < n"
  using lift_Suc_mono_less [of f64_units, OF f64_units_Suc] by (metis linorder_cases order_less_asym)

lemma f64_units_le [simp]: "f64_units m \<le> f64_units n \<longleftrightarrow> m \<le> n"
  by (simp flip: not_less)

lemma f64_units_0 [simp]: "f64_units 0 = 0"
  by (simp add: f64_units_def)

lemma f64_units_eq_0 [simp]: "f64_units n = 0 \<longleftrightarrow> n = 0"
  using f64_units_less [of 0 n] by (cases n) auto

text \<open>On numbers, the comparison of the patterns is the comparison of what they denote.\<close>

definition key_units :: "int \<Rightarrow> int" where
  "key_units k = (if k < 0 then - int (f64_units (nat (- k))) else int (f64_units (nat k)))"

lemma f64_units_pos: "0 < n \<Longrightarrow> 0 < f64_units n"
  using f64_units_less [of 0 n] by simp

lemma key_units_less: "j < k \<Longrightarrow> key_units j < key_units k"
  using f64_units_pos [of "nat (- j)"] by (auto simp: key_units_def nat_mono_iff)

lemma key_units_mono: "strict_mono key_units"
  by (rule strict_monoI) (rule key_units_less)

lemma f64_real_key: "f64_real b = of_int (key_units (f64_key b)) * f64_unit"
  by (simp add: f64_real_def key_units_def f64_key_def)

lemma f64_real_less_iff: "f64_real a < f64_real b \<longleftrightarrow> f64_key a < f64_key b"
  using f64_unit_pos by (simp add: f64_real_key mult_less_cancel_right strict_mono_less [OF key_units_mono])

lemma f64_real_le_iff: "f64_real a \<le> f64_real b \<longleftrightarrow> f64_key a \<le> f64_key b"
  by (simp add: f64_real_less_iff flip: not_less)

lemma f64_finite_not_nan: "f64_is_finite b \<Longrightarrow> \<not> f64_is_nan b"
  by (simp add: f64_is_finite_def f64_is_nan_def)

section \<open>Seconds as whole milliseconds\<close>

text \<open>Rounding to the nearest integer, ties to even.\<close>

definition round_half_even :: "nat \<Rightarrow> nat \<Rightarrow> nat" where
  "round_half_even n d =
     (let q = n div d; r = n mod d
      in if 2 * r < d then q else if d < 2 * r then Suc q else if even q then q else Suc q)"

definition f64_nanoseconds :: "f64 \<Rightarrow> nat" where
  "f64_nanoseconds b = round_half_even (f64_units (f64_magnitude b) * 10 ^ 9) (2 ^ 1074)"

text \<open>\<open>Duration::try_from_secs_f64\<close> of a number that is not negative, in nanoseconds.\<close>

definition try_from_secs_f64 :: "f64 \<Rightarrow> nat option" where
  "try_from_secs_f64 b =
     (let ns = f64_nanoseconds b
      in if \<not> f64_is_finite b \<or> 2 ^ 64 \<le> ns div 10 ^ 9 then None else Some ns)"

end
