(* ===== verification/Pevcap_Labels.thy ===== *)
theory Pevcap_Labels
  imports Prelude Interfaces
begin

text \<open>
  Capture labels and capture annotations (\<open>cutout-core/src/pevcap.rs\<close> and
  \<open>cutout-core/src/capture_annotations.rs\<close>).  A person recording a capture marks what the
  wheel is doing by starting and stopping labelled intervals.  Every boundary is written as one of
  at most 256 annotations of the capture header; the open intervals are reconstructed from those
  annotations.  The annotation list keeps room for the stop of every open interval.
\<close>

named_theorems label_defs

section \<open>Labels\<close>

datatype (plugins only: code) CaptureSessionLabel =
    LabelPoweredOnStationary | LabelRollingForward | LabelRollingBackward | LabelLiftedWheel
  | LabelCharging | LabelHeadlightToggled | LabelHorn | LabelRideModeChange
  | LabelAlarmChange | LabelBmsScreen | LabelDisconnectReconnect | LabelPowerCycle
  | LabelRide | LabelBalancing | LabelLowBeamOn | LabelLowBeamOff
  | LabelHighBeamOn | LabelHighBeamOff | LabelPedalsHard | LabelPedalsMedium
  | LabelPedalsSoft | LabelResetTrip | LabelSoftwareLock | LabelSoftwareUnlock
  | LabelTiltbackSpeed | LabelAlarmSpeed | LabelAngleAdjustment | LabelRideMode
  | LabelPwmPercent | LabelPedalHardness | LabelDisplayBrightness | LabelDynamicAssist
  | LabelPedalDipCompensation | LabelLateralCutoff | LabelVoltageCorrection | LabelDisplayUnits
  | LabelBrakeOverpressureAlarm | LabelBeeperVolume | LabelRollAngleMode | LabelLedPattern

definition ALL_LABELS :: "CaptureSessionLabel list" where
  "ALL_LABELS =
    [LabelPoweredOnStationary, LabelRollingForward, LabelRollingBackward, LabelLiftedWheel,
     LabelCharging, LabelHeadlightToggled, LabelHorn, LabelRideModeChange,
     LabelAlarmChange, LabelBmsScreen, LabelDisconnectReconnect, LabelPowerCycle,
     LabelRide, LabelBalancing, LabelLowBeamOn, LabelLowBeamOff,
     LabelHighBeamOn, LabelHighBeamOff, LabelPedalsHard, LabelPedalsMedium,
     LabelPedalsSoft, LabelResetTrip, LabelSoftwareLock, LabelSoftwareUnlock,
     LabelTiltbackSpeed, LabelAlarmSpeed, LabelAngleAdjustment, LabelRideMode,
     LabelPwmPercent, LabelPedalHardness, LabelDisplayBrightness, LabelDynamicAssist,
     LabelPedalDipCompensation, LabelLateralCutoff, LabelVoltageCorrection, LabelDisplayUnits,
     LabelBrakeOverpressureAlarm, LabelBeeperVolume, LabelRollAngleMode, LabelLedPattern]"

primrec slug :: "CaptureSessionLabel \<Rightarrow> string" where
  "slug LabelPoweredOnStationary = ''powered_on_stationary''"
| "slug LabelRollingForward = ''rolling_forward''"
| "slug LabelRollingBackward = ''rolling_backward''"
| "slug LabelLiftedWheel = ''lifted_wheel''"
| "slug LabelCharging = ''charging''"
| "slug LabelHeadlightToggled = ''headlight_toggled''"
| "slug LabelHorn = ''horn''"
| "slug LabelRideModeChange = ''ride_mode_change''"
| "slug LabelAlarmChange = ''alarm_change''"
| "slug LabelBmsScreen = ''bms_screen''"
| "slug LabelDisconnectReconnect = ''disconnect_reconnect''"
| "slug LabelPowerCycle = ''power_cycle''"
| "slug LabelRide = ''ride''"
| "slug LabelBalancing = ''balancing''"
| "slug LabelLowBeamOn = ''low_beam_on''"
| "slug LabelLowBeamOff = ''low_beam_off''"
| "slug LabelHighBeamOn = ''high_beam_on''"
| "slug LabelHighBeamOff = ''high_beam_off''"
| "slug LabelPedalsHard = ''pedals_hard''"
| "slug LabelPedalsMedium = ''pedals_medium''"
| "slug LabelPedalsSoft = ''pedals_soft''"
| "slug LabelResetTrip = ''reset_trip''"
| "slug LabelSoftwareLock = ''software_lock''"
| "slug LabelSoftwareUnlock = ''software_unlock''"
| "slug LabelTiltbackSpeed = ''tiltback_speed''"
| "slug LabelAlarmSpeed = ''alarm_speed''"
| "slug LabelAngleAdjustment = ''angle_adjustment''"
| "slug LabelRideMode = ''ride_mode''"
| "slug LabelPwmPercent = ''pwm_percent''"
| "slug LabelPedalHardness = ''pedal_hardness''"
| "slug LabelDisplayBrightness = ''display_brightness''"
| "slug LabelDynamicAssist = ''dynamic_assist''"
| "slug LabelPedalDipCompensation = ''pedal_dip_compensation''"
| "slug LabelLateralCutoff = ''lateral_cutoff''"
| "slug LabelVoltageCorrection = ''voltage_correction''"
| "slug LabelDisplayUnits = ''display_units''"
| "slug LabelBrakeOverpressureAlarm = ''brake_overpressure_alarm''"
| "slug LabelBeeperVolume = ''beeper_volume''"
| "slug LabelRollAngleMode = ''roll_angle_mode''"
| "slug LabelLedPattern = ''led_pattern''"

fun is_mutually_exclusive :: "CaptureSessionLabel \<Rightarrow> CaptureSessionLabel \<Rightarrow> bool" where
  "is_mutually_exclusive l other =
     (case l of
        LabelLowBeamOn \<Rightarrow> other = LabelLowBeamOff
      | LabelLowBeamOff \<Rightarrow> other = LabelLowBeamOn
      | LabelHighBeamOn \<Rightarrow> other = LabelHighBeamOff
      | LabelHighBeamOff \<Rightarrow> other = LabelHighBeamOn
      | LabelPedalsHard \<Rightarrow> other \<in> set [LabelPedalsMedium, LabelPedalsSoft]
      | LabelPedalsMedium \<Rightarrow> other \<in> set [LabelPedalsHard, LabelPedalsSoft]
      | LabelPedalsSoft \<Rightarrow> other \<in> set [LabelPedalsHard, LabelPedalsMedium]
      | LabelSoftwareLock \<Rightarrow> other = LabelSoftwareUnlock
      | LabelSoftwareUnlock \<Rightarrow> other = LabelSoftwareLock
      | _ \<Rightarrow> False)"

declare is_mutually_exclusive.simps [simp del]

section \<open>Interval boundaries\<close>

datatype CaptureLabelTransition = LabelStarted CaptureSessionLabel | LabelStopped CaptureSessionLabel

definition strip_suffix :: "'a list \<Rightarrow> 'a list \<Rightarrow> 'a list option" where
  "strip_suffix s suf =
     (let n = length s - length suf
      in if length suf \<le> length s \<and> drop n s = suf then Some (take n s) else None)"

definition label_of_slug :: "rust_str \<Rightarrow> CaptureSessionLabel option" where
  "label_of_slug s = find (\<lambda>l. text_of (slug l) = s) ALL_LABELS"

definition from_annotation_value :: "rust_str \<Rightarrow> CaptureLabelTransition option" where
  "from_annotation_value value =
     (case strip_suffix value (text_of ''_start'') of
        Some s \<Rightarrow> map_option LabelStarted (label_of_slug s)
      | None \<Rightarrow>
          (case strip_suffix value (text_of ''_stop'') of
             Some s \<Rightarrow> map_option LabelStopped (label_of_slug s)
           | None \<Rightarrow> None))"

fun annotation_value :: "CaptureLabelTransition \<Rightarrow> rust_str" where
  "annotation_value (LabelStarted l) = text_of (slug l) @ text_of ''_start''"
| "annotation_value (LabelStopped l) = text_of (slug l) @ text_of ''_stop''"

section \<open>Open intervals\<close>

type_synonym CaptureLabelState = "CaptureSessionLabel list"

definition label_stop :: "CaptureSessionLabel \<Rightarrow> CaptureLabelState \<Rightarrow> CaptureLabelTransition option \<times> CaptureLabelState" where
  "label_stop l active = (if l \<in> set active then (Some (LabelStopped l), remove1 l active) else (None, active))"

definition label_start :: "CaptureSessionLabel \<Rightarrow> CaptureLabelState \<Rightarrow> CaptureLabelTransition list \<times> CaptureLabelState" where
  "label_start l active =
     (if l \<in> set active then ([], active)
      else (case find (is_mutually_exclusive l) active of
          None \<Rightarrow> ([LabelStarted l], active @ [l])
        | Some previous \<Rightarrow>
            (case label_stop previous active of
               (None, rest) \<Rightarrow> ([LabelStarted l], rest @ [l])
             | (Some stopped, rest) \<Rightarrow> ([stopped, LabelStarted l], rest @ [l]))))"

definition label_close :: "CaptureLabelState \<Rightarrow> CaptureLabelTransition list \<times> CaptureLabelState" where
  "label_close active = (map LabelStopped active, [])"

definition CAPTURE_LABEL_KEY :: rust_str where
  "CAPTURE_LABEL_KEY = text_of ''capture_label''"

definition EQUALS_SIGN :: nat where
  "EQUALS_SIGN = 61"

definition label_replay :: "CaptureLabelState \<Rightarrow> rust_str \<Rightarrow> CaptureLabelState" where
  "label_replay labels annotation =
     (case split_once EQUALS_SIGN annotation of
        None \<Rightarrow> labels
      | Some (key, value) \<Rightarrow>
          if key \<noteq> CAPTURE_LABEL_KEY then labels
          else (case from_annotation_value value of
              Some (LabelStarted l) \<Rightarrow> snd (label_start l labels)
            | Some (LabelStopped l) \<Rightarrow> snd (label_stop l labels)
            | None \<Rightarrow> labels))"

definition from_annotations :: "rust_str list \<Rightarrow> CaptureLabelState" where
  "from_annotations annotations = foldl label_replay [] annotations"

section \<open>Bounded annotations\<close>

definition PEVCAP_MAX_ANNOTATIONS :: nat where
  "PEVCAP_MAX_ANNOTATIONS = 256"

datatype CaptureAnnotationCapacityReached = CaptureAnnotationCapacityReached

record CaptureAnnotations =
  ann_entries :: "rust_str list"
  ann_labels :: CaptureLabelState

definition annotations_default :: CaptureAnnotations where
  "annotations_default = \<lparr>ann_entries = [], ann_labels = []\<rparr>"

text \<open>\<open>ArrayVec::try_push\<close> for every annotation of a batch.\<close>

primrec push_all :: "nat \<Rightarrow> 'a list \<Rightarrow> 'a list \<Rightarrow> 'a list option" where
  "push_all cap xs [] = Some xs"
| "push_all cap xs (y # ys) = (if length xs < cap then push_all cap (xs @ [y]) ys else None)"

definition try_append :: "rust_str list \<Rightarrow> CaptureAnnotations \<Rightarrow> CaptureAnnotationCapacityReached + CaptureAnnotations" where
  "try_append annotations s =
     (case push_all PEVCAP_MAX_ANNOTATIONS (ann_entries s) annotations of
        None \<Rightarrow> Inl CaptureAnnotationCapacityReached
      | Some entries \<Rightarrow>
          let labels = from_annotations entries
          in if PEVCAP_MAX_ANNOTATIONS < length entries + length labels then Inl CaptureAnnotationCapacityReached
             else Inr (s\<lparr>ann_entries := entries, ann_labels := labels\<rparr>))"

definition boundary_annotation :: "CaptureLabelTransition \<Rightarrow> rust_str" where
  "boundary_annotation t = CAPTURE_LABEL_KEY @ [EQUALS_SIGN] @ annotation_value t"

definition append_boundaries ::
  "CaptureLabelTransition list \<Rightarrow> CaptureAnnotations \<Rightarrow> CaptureAnnotationCapacityReached + CaptureAnnotations" where
  "append_boundaries ts s = try_append (map boundary_annotation ts) s"

definition annotations_start ::
  "CaptureSessionLabel \<Rightarrow> CaptureAnnotations \<Rightarrow> CaptureAnnotationCapacityReached + CaptureAnnotations" where
  "annotations_start l s = append_boundaries (fst (label_start l (ann_labels s))) s"

definition annotations_stop ::
  "CaptureSessionLabel \<Rightarrow> CaptureAnnotations \<Rightarrow> CaptureAnnotationCapacityReached + CaptureAnnotations" where
  "annotations_stop l s =
     append_boundaries (case fst (label_stop l (ann_labels s)) of None \<Rightarrow> [] | Some t \<Rightarrow> [t]) s"

section \<open>Reading a boundary back\<close>

lemma distinct_slugs: "distinct (map slug ALL_LABELS)"
  by code_simp

lemma all_labels: "l \<in> set ALL_LABELS"
  by (cases l) (simp_all add: ALL_LABELS_def)

lemma find_by_key:
  assumes "distinct (map f xs)" "x \<in> set xs"
  shows "find (\<lambda>y. f y = f x) xs = Some x"
  using assms by (induction xs) auto

lemma label_of_slug [simp]: "label_of_slug (text_of (slug l)) = Some l"
  using find_by_key [OF distinct_slugs all_labels] by (simp add: label_of_slug_def text_of_inj)

lemma strip_suffix_append [simp]: "strip_suffix (s @ suf) suf = Some s"
  by (simp add: strip_suffix_def)

lemma strip_suffix_last:
  assumes "suf \<noteq> []" "last suf \<noteq> last t" "t \<noteq> []"
  shows "strip_suffix (s @ t) suf = None"
proof -
  have "drop n (s @ t) \<noteq> suf" for n
  proof
    assume eq: "drop n (s @ t) = suf"
    then have "n < length (s @ t)"
      using assms(1) drop_eq_Nil2 by (metis not_le drop_all)
    then have "last suf = last (s @ t)"
      using last_drop eq by metis
    then show False
      using assms(2,3) by simp
  qed
  then show ?thesis
    by (simp add: strip_suffix_def Let_def del: drop_append)
qed

text \<open>A written boundary is read back as the boundary it was.\<close>

lemma annotation_value_roundtrip: "from_annotation_value (annotation_value t) = Some t"
proof (cases t)
  case (LabelStopped l)
  have "strip_suffix (text_of (slug l) @ text_of ''_stop'') (text_of ''_start'') = None"
    by (rule strip_suffix_last) (simp_all add: text_of_def)
  then show ?thesis
    by (simp add: LabelStopped from_annotation_value_def)
qed (simp add: from_annotation_value_def)

lemma key_has_no_equals: "takeWhile (\<lambda>x. x \<noteq> EQUALS_SIGN) (CAPTURE_LABEL_KEY @ EQUALS_SIGN # v) = CAPTURE_LABEL_KEY"
  by (simp add: EQUALS_SIGN_def CAPTURE_LABEL_KEY_def text_of_def)

lemma replay_boundary:
  "label_replay labels (boundary_annotation t) =
     (case t of LabelStarted l \<Rightarrow> snd (label_start l labels) | LabelStopped l \<Rightarrow> snd (label_stop l labels))"
  using key_has_no_equals [of "annotation_value t"]
  by (simp add: label_replay_def boundary_annotation_def split_once_def annotation_value_roundtrip Let_def
      split: CaptureLabelTransition.split)

section \<open>Invariant of the open intervals\<close>

definition labels_ok :: "CaptureLabelState \<Rightarrow> bool" where
  "labels_ok active \<longleftrightarrow> distinct active \<and> (\<forall>a \<in> set active. \<forall>b \<in> set active. \<not> is_mutually_exclusive a b)"

lemma exclusive_sym: "is_mutually_exclusive a b \<Longrightarrow> is_mutually_exclusive b a"
  by (auto simp: is_mutually_exclusive.simps split: CaptureSessionLabel.splits)

lemma exclusive_irrefl [simp]: "\<not> is_mutually_exclusive a a"
  by (cases a) (simp_all add: is_mutually_exclusive.simps)

text \<open>Exclusion groups are cliques, so at most one open interval excludes a new label.\<close>

lemma exclusive_clique:
  "is_mutually_exclusive l a \<Longrightarrow> is_mutually_exclusive l b \<Longrightarrow> a \<noteq> b \<Longrightarrow> is_mutually_exclusive a b"
  by (auto simp: is_mutually_exclusive.simps split: CaptureSessionLabel.splits)

lemma labels_ok_stop: "labels_ok active \<Longrightarrow> labels_ok (snd (label_stop l active))"
  by (auto simp: labels_ok_def label_stop_def dest: notin_set_remove1)


text \<open>
  What starting a label does to well-formed intervals: the label is appended, and the interval it
  excludes, if one is open, is gone.
\<close>

lemma label_start_eq:
  assumes "labels_ok active"
  shows "snd (label_start l active) = (if l \<in> set active then active
    else filter (\<lambda>a. \<not> is_mutually_exclusive l a) active @ [l])"
proof (cases "find (is_mutually_exclusive l) active")
  case None
  then have "filter (\<lambda>a. \<not> is_mutually_exclusive l a) active = active"
    by (simp add: find_None_iff)
  then show ?thesis
    by (simp add: label_start_def None)
next
  case (Some p)
  then have p: "p \<in> set active" "is_mutually_exclusive l p"
    by (auto simp: find_Some_iff)
  have "is_mutually_exclusive l a \<longleftrightarrow> a = p" if "a \<in> set active" for a
    using exclusive_clique [of l p a] p that assms by (auto simp: labels_ok_def)
  then have "filter (\<lambda>a. \<not> is_mutually_exclusive l a) active = filter (\<lambda>a. p \<noteq> a) active"
    by (intro filter_cong) auto
  also have "\<dots> = remove1 p active"
    using assms by (auto simp: labels_ok_def distinct_remove1_removeAll removeAll_filter_not_eq)
  finally show ?thesis
    using p by (simp add: label_start_def Some label_stop_def)
qed

lemma labels_ok_start: "labels_ok active \<Longrightarrow> labels_ok (snd (label_start l active))"
  using exclusive_sym by (auto simp: label_start_eq labels_ok_def)

lemma labels_ok_replay: "labels_ok labels \<Longrightarrow> labels_ok (label_replay labels a)"
  by (auto simp: label_replay_def labels_ok_start labels_ok_stop split: option.split CaptureLabelTransition.split)

interpretation labels: reducer label_replay "[]" labels_ok
  by unfold_locales (simp_all add: labels_ok_replay, simp add: labels_ok_def)

lemma from_annotations_ok: "labels_ok (from_annotations as)"
  using labels.inv_run by (simp add: from_annotations_def)

section \<open>Boundaries replayed\<close>

lemma replay_start:
  assumes "labels_ok active"
  shows "foldl label_replay active (map boundary_annotation (fst (label_start l active))) = snd (label_start l active)"
proof (cases "l \<in> set active")
  case False
  show ?thesis
  proof (cases "find (is_mutually_exclusive l) active")
    case (Some p)
    then have p: "p \<in> set active" "is_mutually_exclusive l p"
      by (auto simp: find_Some_iff)
    have rest: "snd (label_stop p active) = remove1 p active"
      using p by (simp add: label_stop_def)
    have "l \<notin> set (remove1 p active)"
      using False notin_set_remove1 by fastforce
    moreover have "find (is_mutually_exclusive l) (remove1 p active) = None"
      using exclusive_clique [of l p] p assms
      by (auto simp: find_None_iff labels_ok_def distinct_remove1_removeAll)
    ultimately have "label_start l (remove1 p active) = ([LabelStarted l], remove1 p active @ [l])"
      by (simp add: label_start_def)
    then show ?thesis
      using p by (simp add: label_start_def False Some label_stop_def replay_boundary)
  qed (simp add: label_start_def False replay_boundary)
qed (simp add: label_start_def)

lemma replay_stop:
  "foldl label_replay active (map boundary_annotation (case fst (label_stop l active) of None \<Rightarrow> [] | Some t \<Rightarrow> [t])) =
     snd (label_stop l active)"
  by (simp add: label_stop_def replay_boundary)

section \<open>Annotations with reserved room\<close>

datatype AnnotationCall =
    AnnotationAppend "rust_str list" | AnnotationStart CaptureSessionLabel | AnnotationStop CaptureSessionLabel

fun annotation_result :: "CaptureAnnotations \<Rightarrow> AnnotationCall \<Rightarrow> CaptureAnnotationCapacityReached + CaptureAnnotations" where
  "annotation_result s (AnnotationAppend as) = try_append as s"
| "annotation_result s (AnnotationStart l) = annotations_start l s"
| "annotation_result s (AnnotationStop l) = annotations_stop l s"

definition annotation_step :: "CaptureAnnotations \<Rightarrow> AnnotationCall \<Rightarrow> CaptureAnnotations" where
  "annotation_step s c = (case annotation_result s c of Inr s' \<Rightarrow> s' | Inl _ \<Rightarrow> s)"

definition annotations_ok :: "CaptureAnnotations \<Rightarrow> bool" where
  "annotations_ok s \<longleftrightarrow> ann_labels s = from_annotations (ann_entries s)
     \<and> length (ann_entries s) + length (ann_labels s) \<le> PEVCAP_MAX_ANNOTATIONS"

lemma push_all_eq: "push_all cap xs ys = (if ys = [] \<or> length xs + length ys \<le> cap then Some (xs @ ys) else None)"
  by (induction ys arbitrary: xs) auto

lemma try_append_ok: "try_append as s = Inr s' \<Longrightarrow> annotations_ok s'"
  by (auto simp: try_append_def annotations_ok_def Let_def not_less split: option.splits if_splits)

lemma annotation_result_ok: "annotation_result s c = Inr s' \<Longrightarrow> annotations_ok s'"
  by (cases c) (auto simp: annotations_start_def annotations_stop_def append_boundaries_def dest: try_append_ok)

interpretation annotations: reducer annotation_step annotations_default annotations_ok
proof
  fix s c
  assume "annotations_ok s"
  then show "annotations_ok (annotation_step s c)"
    using annotation_result_ok by (auto simp: annotation_step_def split: sum.split)
qed (simp add: annotations_ok_def annotations_default_def from_annotations_def)

lemma annotations_labels_ok: "annotations_ok s \<Longrightarrow> labels_ok (ann_labels s)"
  by (simp add: annotations_ok_def from_annotations_ok)

text \<open>Stopping an interval fills the place that was kept for it.\<close>

lemma annotations_stop_eq:
  assumes "annotations_ok s"
  shows "annotations_stop l s = Inr (if l \<in> set (ann_labels s)
    then s\<lparr>ann_entries := ann_entries s @ [boundary_annotation (LabelStopped l)], ann_labels := remove1 l (ann_labels s)\<rparr>
    else s)"
proof (cases "l \<in> set (ann_labels s)")
  case True
  then have "length (remove1 l (ann_labels s)) + 1 = length (ann_labels s)"
    using length_pos_if_in_set [OF True] by (simp add: length_remove1)
  moreover have "from_annotations (ann_entries s @ [boundary_annotation (LabelStopped l)]) = remove1 l (ann_labels s)"
    using assms True by (simp add: from_annotations_def annotations_ok_def replay_boundary label_stop_def)
  ultimately show ?thesis
    using assms True
    by (auto simp: annotations_stop_def append_boundaries_def try_append_def push_all_eq annotations_ok_def label_stop_def
        Let_def)
next
  case False
  then show ?thesis
    using assms
    by (auto simp: annotations_stop_def append_boundaries_def try_append_def annotations_ok_def label_stop_def Let_def)
qed

primrec stop_each :: "CaptureSessionLabel list \<Rightarrow> CaptureAnnotations \<Rightarrow> CaptureAnnotationCapacityReached + CaptureAnnotations" where
  "stop_each [] s = Inr s"
| "stop_each (l # ls) s = (case annotations_stop l s of Inl e \<Rightarrow> Inl e | Inr s' \<Rightarrow> stop_each ls s')"

lemma stop_each_eq:
  assumes "annotations_ok s" "ann_labels s = ls"
  shows "stop_each ls s = Inr (s\<lparr>ann_entries := ann_entries s @ map (boundary_annotation \<circ> LabelStopped) ls, ann_labels := []\<rparr>)"
  using assms
proof (induction ls arbitrary: s)
  case (Cons l ls)
  let ?s = "s\<lparr>ann_entries := ann_entries s @ [boundary_annotation (LabelStopped l)], ann_labels := ls\<rparr>"
  have stop: "annotations_stop l s = Inr ?s"
    using annotations_stop_eq [OF Cons.prems(1), of l] Cons.prems(2) by simp
  then have "annotations_ok ?s"
    using annotation_result_ok [of s "AnnotationStop l"] by simp
  then show ?case
    using Cons.IH [of ?s] stop by simp
qed (simp flip: append_Nil2)

text \<open>
  C18.  A capture can always be finished.  Whatever annotations, starts and stops were admitted or
  refused before: the header never holds more than 256 annotations; the intervals reconstructed
  from it are the open ones, each open once and no two of them incompatible; stopping any label
  succeeds and closes it; and stopping all open labels in their start order succeeds, writes
  exactly one boundary for each and leaves none open.
\<close>

theorem capture_labels_always_close:
  "let s = foldl annotation_step annotations_default calls in
     length (ann_entries s) \<le> PEVCAP_MAX_ANNOTATIONS
   \<and> from_annotations (ann_entries s) = ann_labels s
   \<and> labels_ok (ann_labels s)
   \<and> (\<exists>s'. annotations_stop l s = Inr s' \<and> ann_labels s' = remove1 l (ann_labels s) \<and> l \<notin> set (ann_labels s'))
   \<and> (\<exists>s'. stop_each (ann_labels s) s = Inr s' \<and> ann_labels s' = []
        \<and> ann_entries s' = ann_entries s @ map (boundary_annotation \<circ> LabelStopped) (ann_labels s))"
proof -
  define s where "s = foldl annotation_step annotations_default calls"
  have ok: "annotations_ok s"
    unfolding s_def by (rule annotations.inv_run)
  have "\<exists>s'. annotations_stop l s = Inr s' \<and> ann_labels s' = remove1 l (ann_labels s) \<and> l \<notin> set (ann_labels s')"
    using annotations_stop_eq [OF ok, of l] annotations_labels_ok [OF ok] by (auto simp: labels_ok_def remove1_idem)
  moreover have "\<exists>s'. stop_each (ann_labels s) s = Inr s' \<and> ann_labels s' = []
      \<and> ann_entries s' = ann_entries s @ map (boundary_annotation \<circ> LabelStopped) (ann_labels s)"
    using stop_each_eq [OF ok refl] by simp
  ultimately show ?thesis
    using ok annotations_labels_ok [OF ok] by (simp add: annotations_ok_def flip: s_def)
qed

end
