(* ===== verification/Pevcap_Records.thy ===== *)
theory Pevcap_Records
  imports Pevcap_Labels Float_Bits Core_Units Evidence
begin

text \<open>
  The contents of a capture (\<open>cutout-core/src/pevcap.rs\<close>, with the settings worksheet of
  \<open>cutout-core/src/capture_research.rs\<close>): header, transport records, phone locations and
  settings observations, the structures that are written as JSON in their place and the
  conversions between the two, with every rejection.  A type variable stands for the
  protocol-native telemetry attached to a record, which is only carried along.
\<close>

section \<open>Locations\<close>

record PevcapPhoneLocation =
  wall_clock_unix_ms :: u64
  latitude_degrees :: f64
  longitude_degrees :: f64
  altitude_meters :: f64
  horizontal_accuracy_meters :: "f64 option"
  vertical_accuracy_meters :: "f64 option"
  speed_meters_per_second :: "f64 option"
  speed_accuracy_meters_per_second :: "f64 option"
  course_degrees :: "f64 option"
  course_accuracy_degrees :: "f64 option"

datatype PevcapPhoneLocationError =
  MissingWallClockTimestamp | InvalidLatitude | InvalidLongitude | InvalidAltitude

text \<open>The literals of the source as bit patterns.\<close>

definition F64_ZERO :: f64 where "F64_ZERO = 0"
definition F64_90 :: f64 where "F64_90 = 0x4056800000000000"
definition F64_MINUS_90 :: f64 where "F64_MINUS_90 = 0xC056800000000000"
definition F64_180 :: f64 where "F64_180 = 0x4066800000000000"
definition F64_MINUS_180 :: f64 where "F64_MINUS_180 = 0xC066800000000000"
definition F64_360 :: f64 where "F64_360 = 0x4076800000000000"

definition canonical_non_negative_finite :: "f64 option \<Rightarrow> f64 option" where
  "canonical_non_negative_finite v = opt_filter (\<lambda>x. f64_is_finite x \<and> f64_le F64_ZERO x) v"

definition canonical_course :: "f64 option \<Rightarrow> f64 option" where
  "canonical_course v = opt_filter (\<lambda>x. f64_is_finite x \<and> f64_le F64_ZERO x \<and> f64_lt x F64_360) v"

definition location_canonical :: "PevcapPhoneLocation \<Rightarrow> PevcapPhoneLocationError + PevcapPhoneLocation" where
  "location_canonical l =
     (if wall_clock_unix_ms l = 0 then Inl MissingWallClockTimestamp
      else if \<not> f64_is_finite (latitude_degrees l) \<or> \<not> f64_in_range F64_MINUS_90 F64_90 (latitude_degrees l)
      then Inl InvalidLatitude
      else if \<not> f64_is_finite (longitude_degrees l) \<or> \<not> f64_in_range F64_MINUS_180 F64_180 (longitude_degrees l)
      then Inl InvalidLongitude
      else if \<not> f64_is_finite (altitude_meters l) then Inl InvalidAltitude
      else Inr (l\<lparr>horizontal_accuracy_meters := canonical_non_negative_finite (horizontal_accuracy_meters l),
        vertical_accuracy_meters := canonical_non_negative_finite (vertical_accuracy_meters l),
        speed_meters_per_second := canonical_non_negative_finite (speed_meters_per_second l),
        speed_accuracy_meters_per_second := canonical_non_negative_finite (speed_accuracy_meters_per_second l),
        course_degrees := canonical_course (course_degrees l),
        course_accuracy_degrees := canonical_non_negative_finite (course_accuracy_degrees l)\<rparr>))"

record PevcapLocationSample =
  receipt_monotonic_ms :: MonotonicTimestamp
  source_monotonic_offset_ms :: "int option"
  sample_location :: PevcapPhoneLocation
  source_timestamp_unix_seconds :: "f64 option"
  simulated :: "bool option"
  produced_by_accessory :: "bool option"

definition calibrate_location_source_offset_ms ::
  "MonotonicTimestamp \<Rightarrow> MonotonicTimestamp \<Rightarrow> u64 \<Rightarrow> u64 \<Rightarrow> int option" where
  "calibrate_location_source_offset_ms started receipt receipt_wall source_wall =
     (let offset = uint receipt + uint source_wall - uint receipt_wall - uint started
      in if - (2 ^ 63) \<le> offset \<and> offset < 2 ^ 63 then Some offset else None)"

definition unix_milliseconds_from_seconds :: "f64 \<Rightarrow> u64 option" where
  "unix_milliseconds_from_seconds timestamp =
     (if \<not> f64_is_finite timestamp \<or> f64_le timestamp F64_ZERO then None
      else case try_from_secs_f64 timestamp of None \<Rightarrow> None
        | Some ns \<Rightarrow>
            let ms = ns div 10 ^ 6
            in if 2 ^ 64 \<le> ms then None else if 0 < ms then Some (word_of_nat ms) else None)"

definition from_raw_observation ::
  "MonotonicTimestamp \<Rightarrow> PevcapPhoneLocation \<Rightarrow> bool option \<Rightarrow> bool option \<Rightarrow> PevcapLocationSample" where
  "from_raw_observation receipt l sim accessory =
     \<lparr>receipt_monotonic_ms = receipt, source_monotonic_offset_ms = None, sample_location = l,
      source_timestamp_unix_seconds = None, simulated = sim, produced_by_accessory = accessory\<rparr>"

definition location_sample_new ::
  "MonotonicTimestamp \<Rightarrow> PevcapPhoneLocation \<Rightarrow> bool option \<Rightarrow> bool option
     \<Rightarrow> PevcapPhoneLocationError + PevcapLocationSample" where
  "location_sample_new receipt l sim accessory =
     map_sum (\<lambda>e. e) (\<lambda>c. from_raw_observation receipt c sim accessory) (location_canonical l)"

record PevcapLocationRejection =
  rejected_observation :: PevcapLocationSample
  rejected_reason :: PevcapPhoneLocationError

record PevcapLocationJson =
  lj_receipt_monotonic_ms :: u64
  lj_location :: PevcapPhoneLocation
  lj_source_monotonic_offset_ms :: "int option"
  lj_source_timestamp_unix_seconds :: "f64 option"
  lj_simulated :: "bool option"
  lj_produced_by_accessory :: "bool option"

definition location_json :: "PevcapLocationSample \<Rightarrow> PevcapLocationJson" where
  "location_json s = \<lparr>lj_receipt_monotonic_ms = receipt_monotonic_ms s, lj_location = sample_location s,
     lj_source_monotonic_offset_ms = source_monotonic_offset_ms s,
     lj_source_timestamp_unix_seconds = source_timestamp_unix_seconds s,
     lj_simulated = simulated s, lj_produced_by_accessory = produced_by_accessory s\<rparr>"

definition into_raw_observation :: "PevcapLocationJson \<Rightarrow> PevcapLocationSample" where
  "into_raw_observation j =
     (from_raw_observation (lj_receipt_monotonic_ms j) (lj_location j) (lj_simulated j) (lj_produced_by_accessory j))
       \<lparr>source_monotonic_offset_ms := lj_source_monotonic_offset_ms j,
        source_timestamp_unix_seconds := lj_source_timestamp_unix_seconds j\<rparr>"

definition try_into_location :: "PevcapLocationJson \<Rightarrow> PevcapPhoneLocationError + PevcapLocationSample" where
  "try_into_location j =
     (let j' = (case lj_source_timestamp_unix_seconds j of None \<Rightarrow> j
        | Some t \<Rightarrow> j\<lparr>lj_location := (lj_location j)\<lparr>wall_clock_unix_ms := unwrap_or (unix_milliseconds_from_seconds t) 0\<rparr>\<rparr>)
      in case location_canonical (lj_location j') of Inl e \<Rightarrow> Inl e | Inr _ \<Rightarrow> Inr (into_raw_observation j'))"

section \<open>Records\<close>

datatype PevcapDirection = DirLinkUp | DirLinkDown | DirInbound | DirOutbound
datatype RequestTarget = TargetLocal | TargetVescCanController u8
datatype PevcapWriteDisposition = WriteQueued | WriteSubmitted | WriteRejected | WriteCancelled

record PevcapWriteReceipt =
  receipt_write_id :: u64
  receipt_disposition :: PevcapWriteDisposition

datatype PevcapTelemetryProvenance = LiveSession | Replay

record PevcapSemanticTelemetry =
  sem_observed_at_ms :: "MonotonicTimestamp option"
  sem_provenance :: PevcapTelemetryProvenance
  sem_snapshot_schema_version :: u16
  sem_library_version :: rust_str
  sem_snapshot_json :: rust_str

record 't PevcapRecord =
  rec_monotonic_ms :: MonotonicTimestamp
  rec_direction :: PevcapDirection
  rec_characteristic :: GattChannel
  rec_service :: "GattChannel option"
  rec_write_mode :: "WriteMode option"
  rec_link_max_write_len :: "TransportWriteLimit option"
  rec_target :: "RequestTarget option"
  rec_write_receipt :: "PevcapWriteReceipt option"
  rec_bytes :: "u8 list"
  rec_telemetry :: "'t option"
  rec_semantic_telemetry :: "PevcapSemanticTelemetry option"
  rec_phone_location :: "PevcapPhoneLocation option"

definition ZERO_CHANNEL :: GattChannel where
  "ZERO_CHANNEL = replicate 16 0"

definition record_base :: "MonotonicTimestamp \<Rightarrow> PevcapDirection \<Rightarrow> GattChannel \<Rightarrow> u8 list \<Rightarrow> 't PevcapRecord" where
  "record_base ms dir characteristic payload =
     \<lparr>rec_monotonic_ms = ms, rec_direction = dir, rec_characteristic = characteristic, rec_service = None,
      rec_write_mode = None, rec_link_max_write_len = None, rec_target = None, rec_write_receipt = None,
      rec_bytes = payload, rec_telemetry = None, rec_semantic_telemetry = None, rec_phone_location = None\<rparr>"

definition record_link_up :: "MonotonicTimestamp \<Rightarrow> TransportWriteLimit option \<Rightarrow> 't PevcapRecord" where
  "record_link_up ms limit = (record_base ms DirLinkUp ZERO_CHANNEL [])\<lparr>rec_link_max_write_len := limit\<rparr>"

definition record_link_down :: "MonotonicTimestamp \<Rightarrow> 't PevcapRecord" where
  "record_link_down ms = record_base ms DirLinkDown ZERO_CHANNEL []"

definition record_outbound_write :: "MonotonicTimestamp \<Rightarrow> GattChannel \<Rightarrow> WriteMode \<Rightarrow> u8 list \<Rightarrow> 't PevcapRecord" where
  "record_outbound_write ms characteristic mode payload =
     (record_base ms DirOutbound characteristic payload)\<lparr>rec_write_mode := Some mode\<rparr>"

definition record_targeted_outbound_write ::
  "MonotonicTimestamp \<Rightarrow> GattChannel \<Rightarrow> WriteMode \<Rightarrow> u8 list \<Rightarrow> RequestTarget \<Rightarrow> 't PevcapRecord" where
  "record_targeted_outbound_write ms characteristic mode payload target =
     (record_outbound_write ms characteristic mode payload)\<lparr>rec_target := Some target\<rparr>"

definition record_inbound_notification ::
  "MonotonicTimestamp \<Rightarrow> GattChannel \<Rightarrow> GattChannel \<Rightarrow> u8 list \<Rightarrow> 't PevcapRecord" where
  "record_inbound_notification ms characteristic service payload =
     (record_base ms DirInbound characteristic payload)\<lparr>rec_service := Some service\<rparr>"

datatype PevcapRecordError =
    MissingInboundService | UnexpectedService | MissingOutboundWriteMode | UnexpectedWriteMode
  | UnexpectedLinkMaxWriteLen | UnexpectedTarget | UnexpectedWriteReceipt | UnexpectedMusic
  | UnexpectedLinkBytes

datatype PevcapDirectionJson = DirJsonLinkUp | DirJsonLinkDown | DirJsonInbound | DirJsonOutbound
datatype WriteModeJson = ModeJsonWithResponse | ModeJsonWithoutResponse
datatype PevcapRequestTargetJson = TargetJsonLocal | TargetJsonVescCanController u8

fun direction_json :: "PevcapDirection \<Rightarrow> PevcapDirectionJson" where
  "direction_json DirLinkUp = DirJsonLinkUp"
| "direction_json DirLinkDown = DirJsonLinkDown"
| "direction_json DirInbound = DirJsonInbound"
| "direction_json DirOutbound = DirJsonOutbound"

fun into_direction :: "PevcapDirectionJson \<Rightarrow> PevcapDirection" where
  "into_direction DirJsonLinkUp = DirLinkUp"
| "into_direction DirJsonLinkDown = DirLinkDown"
| "into_direction DirJsonInbound = DirInbound"
| "into_direction DirJsonOutbound = DirOutbound"

fun write_mode_json :: "WriteMode \<Rightarrow> WriteModeJson" where
  "write_mode_json WithResponse = ModeJsonWithResponse"
| "write_mode_json WithoutResponse = ModeJsonWithoutResponse"

fun into_mode :: "WriteModeJson \<Rightarrow> WriteMode" where
  "into_mode ModeJsonWithResponse = WithResponse"
| "into_mode ModeJsonWithoutResponse = WithoutResponse"

fun target_json :: "RequestTarget \<Rightarrow> PevcapRequestTargetJson" where
  "target_json TargetLocal = TargetJsonLocal"
| "target_json (TargetVescCanController i) = TargetJsonVescCanController i"

fun into_target :: "PevcapRequestTargetJson \<Rightarrow> RequestTarget" where
  "into_target TargetJsonLocal = TargetLocal"
| "into_target (TargetJsonVescCanController i) = TargetVescCanController i"

text \<open>
  The JSON form of a semantic snapshot has the fields of the snapshot, so one record serves for
  both; \<open>rj_music_present\<close> tells whether the JSON of a record had a \<open>music\<close> field.
\<close>

record 't PevcapRecordJson =
  rj_monotonic_ms :: u64
  rj_direction :: PevcapDirectionJson
  rj_characteristic :: "u8 list"
  rj_service :: "u8 list option"
  rj_write_mode :: "WriteModeJson option"
  rj_link_max_write_len :: "u16 option"
  rj_target :: "PevcapRequestTargetJson option"
  rj_write_receipt :: "PevcapWriteReceipt option"
  rj_bytes :: "u8 list"
  rj_telemetry :: "'t option"
  rj_semantic_telemetry :: "PevcapSemanticTelemetry option"
  rj_music_present :: bool
  rj_phone_location :: "PevcapPhoneLocation option"

definition record_json :: "'t PevcapRecord \<Rightarrow> 't PevcapRecordJson" where
  "record_json r = \<lparr>rj_monotonic_ms = rec_monotonic_ms r, rj_direction = direction_json (rec_direction r),
     rj_characteristic = rec_characteristic r, rj_service = rec_service r,
     rj_write_mode = map_option write_mode_json (rec_write_mode r),
     rj_link_max_write_len = rec_link_max_write_len r, rj_target = map_option target_json (rec_target r),
     rj_write_receipt = rec_write_receipt r, rj_bytes = rec_bytes r, rj_telemetry = rec_telemetry r,
     rj_semantic_telemetry = rec_semantic_telemetry r, rj_music_present = False,
     rj_phone_location = rec_phone_location r\<rparr>"

definition validate_link :: "'t PevcapRecordJson \<Rightarrow> PevcapRecordError option" where
  "validate_link j =
     (if rj_service j \<noteq> None then Some UnexpectedService
      else if rj_write_mode j \<noteq> None then Some UnexpectedWriteMode
      else if rj_target j \<noteq> None then Some UnexpectedTarget
      else if rj_bytes j \<noteq> [] then Some UnexpectedLinkBytes
      else if rj_direction j = DirJsonLinkDown \<and> rj_link_max_write_len j \<noteq> None then Some UnexpectedLinkMaxWriteLen
      else None)"

definition validate_inbound :: "'t PevcapRecordJson \<Rightarrow> PevcapRecordError option" where
  "validate_inbound j =
     (if rj_service j = None then Some MissingInboundService
      else if rj_write_mode j \<noteq> None then Some UnexpectedWriteMode
      else if rj_link_max_write_len j \<noteq> None then Some UnexpectedLinkMaxWriteLen
      else if rj_target j \<noteq> None then Some UnexpectedTarget
      else None)"

definition validate_outbound :: "'t PevcapRecordJson \<Rightarrow> PevcapRecordError option" where
  "validate_outbound j =
     (if rj_service j \<noteq> None then Some UnexpectedService
      else if rj_write_mode j = None then Some MissingOutboundWriteMode
      else if rj_link_max_write_len j \<noteq> None then Some UnexpectedLinkMaxWriteLen
      else None)"

definition record_validate :: "'t PevcapRecordJson \<Rightarrow> PevcapRecordError option" where
  "record_validate j =
     (if rj_music_present j then Some UnexpectedMusic
      else if rj_write_receipt j \<noteq> None \<and> rj_direction j \<noteq> DirJsonOutbound then Some UnexpectedWriteReceipt
      else case rj_direction j of
          DirJsonLinkUp \<Rightarrow> validate_link j
        | DirJsonLinkDown \<Rightarrow> validate_link j
        | DirJsonInbound \<Rightarrow> validate_inbound j
        | DirJsonOutbound \<Rightarrow> validate_outbound j)"

definition try_into_record :: "'t PevcapRecordJson \<Rightarrow> PevcapRecordError + 't PevcapRecord" where
  "try_into_record j =
     (case record_validate j of Some e \<Rightarrow> Inl e
      | None \<Rightarrow> Inr \<lparr>rec_monotonic_ms = rj_monotonic_ms j, rec_direction = into_direction (rj_direction j),
          rec_characteristic = rj_characteristic j, rec_service = rj_service j,
          rec_write_mode = map_option into_mode (rj_write_mode j),
          rec_link_max_write_len = rj_link_max_write_len j, rec_target = map_option into_target (rj_target j),
          rec_write_receipt = rj_write_receipt j, rec_bytes = rj_bytes j, rec_telemetry = rj_telemetry j,
          rec_semantic_telemetry = rj_semantic_telemetry j, rec_phone_location = rj_phone_location j\<rparr>)"

section \<open>What is read back\<close>

lemma into_direction_json [simp]: "into_direction (direction_json d) = d" "direction_json (into_direction dj) = dj"
  by (cases d; simp) (cases dj; simp)

lemma into_mode_json [simp]: "into_mode (write_mode_json m) = m" "write_mode_json (into_mode mj) = mj"
  by (cases m; simp) (cases mj; simp)

lemma into_target_json [simp]: "into_target (target_json t) = t" "target_json (into_target tj) = tj"
  by (cases t; simp) (cases tj; simp)

lemma direction_json_inj [simp]: "direction_json d = direction_json d' \<longleftrightarrow> d = d'"
  by (cases d; cases d') simp_all

lemma location_roundtrip [simp]: "into_raw_observation (location_json s) = s"
  by (simp add: into_raw_observation_def from_raw_observation_def location_json_def)

text \<open>Every record the program's constructors make passes validation.\<close>

definition record_ok :: "'t PevcapRecord \<Rightarrow> bool" where
  "record_ok r \<longleftrightarrow> record_validate (record_json r) = None"

lemma record_roundtrip: "record_ok r \<Longrightarrow> try_into_record (record_json r) = Inr r"
  by (simp add: record_ok_def try_into_record_def) (simp add: record_json_def option.map_comp comp_def option.map_ident)

lemma try_into_record_json: "try_into_record j = Inr r \<Longrightarrow> record_json r = j \<and> record_validate j = None"
  by (auto simp: try_into_record_def record_json_def record_validate_def option.map_comp comp_def option.map_ident
      split: option.splits if_splits)

lemma try_into_record_valid: "try_into_record j = Inr r \<Longrightarrow> record_ok r"
  using try_into_record_json by (auto simp: record_ok_def)

lemmas record_constructors = record_base_def record_link_up_def record_link_down_def record_outbound_write_def
  record_targeted_outbound_write_def record_inbound_notification_def

lemma constructed_records_ok:
  "record_ok (record_link_up ms limit)" "record_ok (record_link_down ms)"
  "record_ok (record_outbound_write ms ch mode bs)" "record_ok (record_targeted_outbound_write ms ch mode bs t)"
  "record_ok (record_inbound_notification ms ch srv bs)"
  by (simp_all add: record_ok_def record_json_def record_constructors record_validate_def validate_link_def
      validate_inbound_def validate_outbound_def)

section \<open>Canonical locations\<close>

lemma canonical_filters [simp]:
  "canonical_non_negative_finite (canonical_non_negative_finite v) = canonical_non_negative_finite v"
  "canonical_course (canonical_course v) = canonical_course v"
  by (cases v; simp add: canonical_non_negative_finite_def canonical_course_def)+

lemma f64_constants:
  "f64_real F64_90 = 90" "f64_real F64_MINUS_90 = - 90" "f64_real F64_180 = 180" "f64_real F64_MINUS_180 = - 180"
  "f64_real F64_360 = 360" "f64_real F64_ZERO = 0"
  by (simp_all add: f64_real_def f64_magnitude_def f64_negative_def f64_units_def f64_unit_def
      F64_90_def F64_MINUS_90_def F64_180_def F64_MINUS_180_def F64_360_def F64_ZERO_def)

lemma in_range_real:
  "f64_in_range lo hi x \<Longrightarrow> f64_real lo \<le> f64_real x \<and> f64_real x \<le> f64_real hi"
  by (simp add: f64_in_range_def f64_le_def f64_real_le_iff)

text \<open>What a canonical location promises about its numbers.\<close>

definition non_negative :: "f64 option \<Rightarrow> bool" where
  "non_negative v \<longleftrightarrow> is_none_or v (\<lambda>x. f64_is_finite x \<and> 0 \<le> f64_real x)"

definition location_in_range :: "PevcapPhoneLocation \<Rightarrow> bool" where
  "location_in_range l \<longleftrightarrow> wall_clock_unix_ms l \<noteq> 0
     \<and> \<bar>f64_real (latitude_degrees l)\<bar> \<le> 90 \<and> \<bar>f64_real (longitude_degrees l)\<bar> \<le> 180 \<and> f64_is_finite (altitude_meters l)
     \<and> non_negative (horizontal_accuracy_meters l) \<and> non_negative (vertical_accuracy_meters l)
     \<and> non_negative (speed_meters_per_second l) \<and> non_negative (speed_accuracy_meters_per_second l)
     \<and> non_negative (course_degrees l) \<and> is_none_or (course_degrees l) (\<lambda>x. f64_real x < 360)
     \<and> non_negative (course_accuracy_degrees l)"

lemma canonical_non_negative [simp]: "non_negative (canonical_non_negative_finite v)"
  using f64_real_le_iff [of F64_ZERO]
  by (cases v) (simp_all add: non_negative_def canonical_non_negative_finite_def f64_le_def f64_constants)

lemma canonical_course_range [simp]:
  "non_negative (canonical_course v)" "is_none_or (canonical_course v) (\<lambda>x. f64_real x < 360)"
  using f64_real_le_iff [of F64_ZERO] f64_real_less_iff [of _ F64_360]
  by (cases v; simp add: non_negative_def canonical_course_def f64_le_def f64_lt_def f64_constants)+

text \<open>
   A canonical location is a location.  Whatever bit patterns the phone delivered, an accepted
  location has a source time, a latitude within 90 and a longitude within 180 degrees, a finite
  altitude, a course in [0, 360) or none, and no negative or non-finite accuracy or speed;
  coordinates, altitude and time are those delivered, and canonicalizing it again changes nothing.
\<close>

lemma canonical_location_in_range:
  assumes "location_canonical l = Inr c"
  shows "location_in_range c \<and> location_canonical c = Inr c
    \<and> wall_clock_unix_ms c = wall_clock_unix_ms l \<and> latitude_degrees c = latitude_degrees l
    \<and> longitude_degrees c = longitude_degrees l \<and> altitude_meters c = altitude_meters l"
  using assms in_range_real [of F64_MINUS_90 F64_90 "latitude_degrees l"]
    in_range_real [of F64_MINUS_180 F64_180 "longitude_degrees l"]
  by (auto simp: location_canonical_def location_in_range_def f64_constants abs_le_iff split: if_splits)

lemmas f64_evaluate = f64_in_range_def f64_le_def f64_lt_def f64_is_finite_def f64_is_nan_def f64_key_def f64_magnitude_def
  f64_negative_def f64_infinity_magnitude_def F64_90_def F64_MINUS_90_def F64_180_def F64_MINUS_180_def F64_360_def
  F64_ZERO_def

definition berlin :: PevcapPhoneLocation where
  "berlin = \<lparr>wall_clock_unix_ms = 1700000000000, latitude_degrees = 0x404A428F5C28F5C3,
     longitude_degrees = 0x402ACCCCCCCCCCCD, altitude_meters = 0x4041000000000000,
     horizontal_accuracy_meters = Some 0x4014000000000000, vertical_accuracy_meters = Some 0xBFF0000000000000,
     speed_meters_per_second = None, speed_accuracy_meters_per_second = None,
     course_degrees = Some 0x7FF8000000000000, course_accuracy_degrees = None\<rparr>"

lemma canonical_location_in_range_example:
  "location_canonical berlin = Inr (berlin\<lparr>vertical_accuracy_meters := None, course_degrees := None\<rparr>)
   \<and> location_in_range (berlin\<lparr>vertical_accuracy_meters := None, course_degrees := None\<rparr>)"
proof -
  have "location_canonical berlin = Inr (berlin\<lparr>vertical_accuracy_meters := None, course_degrees := None\<rparr>)"
    by (simp add: location_canonical_def berlin_def canonical_non_negative_finite_def canonical_course_def f64_evaluate)
  then show ?thesis
    using canonical_location_in_range [of berlin] by blast
qed

end
