(* ===== verification/Pevcap_Header.thy ===== *)
theory Pevcap_Header
  imports Pevcap_Records
begin

unbundle bit_operations_syntax

text \<open>
  The header of a capture and the settings worksheet entries (\<open>cutout-core/src/pevcap.rs\<close>,
  \<open>cutout-core/src/capture_research.rs\<close>, the GATT roles of \<open>cutout-core/src/lib.rs\<close>), the JSON
  forms of the header and their conversions.  The canonical text of a UUID comes from the
  \<open>uuid\<close> crate and is a parameter: the text a string's UUID prints as, if the string is one.
\<close>

section \<open>GATT roles\<close>

type_synonym GattRoles = u8

definition ROLE_READ :: u8 where "ROLE_READ = 1"
definition ROLE_WRITE :: u8 where "ROLE_WRITE = 2"
definition ROLE_WRITE_WITHOUT_RESPONSE :: u8 where "ROLE_WRITE_WITHOUT_RESPONSE = 4"
definition ROLE_NOTIFY :: u8 where "ROLE_NOTIFY = 8"
definition ROLE_INDICATE :: u8 where "ROLE_INDICATE = 16"

definition with_role :: "u8 \<Rightarrow> GattRoles \<Rightarrow> GattRoles" where
  "with_role flag roles = roles OR flag"

definition supports_role :: "u8 \<Rightarrow> GattRoles \<Rightarrow> bool" where
  "supports_role flag roles \<longleftrightarrow> roles AND flag \<noteq> 0"

datatype GattRoleJson = RoleRead | RoleWrite | RoleWriteWithoutResponse | RoleNotify | RoleIndicate

definition roles_json :: "GattRoles \<Rightarrow> GattRoleJson list" where
  "roles_json roles =
     (if supports_role ROLE_READ roles then [RoleRead] else [])
     @ (if supports_role ROLE_WRITE roles then [RoleWrite] else [])
     @ (if supports_role ROLE_WRITE_WITHOUT_RESPONSE roles then [RoleWriteWithoutResponse] else [])
     @ (if supports_role ROLE_NOTIFY roles then [RoleNotify] else [])
     @ (if supports_role ROLE_INDICATE roles then [RoleIndicate] else [])"

fun role_apply :: "GattRoles \<Rightarrow> GattRoleJson \<Rightarrow> GattRoles" where
  "role_apply roles RoleRead = with_role ROLE_READ roles"
| "role_apply roles RoleWrite = with_role ROLE_WRITE roles"
| "role_apply roles RoleWriteWithoutResponse = with_role ROLE_WRITE_WITHOUT_RESPONSE roles"
| "role_apply roles RoleNotify = with_role ROLE_NOTIFY roles"
| "role_apply roles RoleIndicate = with_role ROLE_INDICATE roles"

definition into_roles :: "GattRoleJson list \<Rightarrow> GattRoles" where
  "into_roles rs = foldl role_apply 0 rs"

section \<open>Header\<close>

record VerifiedString =
  verified_value :: rust_str
  verified_status :: VerificationStatus

record GattFingerprint =
  fp_service :: GattChannel
  fp_characteristic :: GattChannel
  fp_roles :: GattRoles
  fp_verification :: VerificationStatus

record PevcapResolvedIdentity =
  id_protocol_family :: "ProtocolFamily option"
  id_model :: "VerifiedString option"
  id_firmware :: "VerifiedString option"

record PevcapHeader =
  hd_wall_clock_start_unix_ms :: u64
  hd_platform_id :: rust_str
  hd_write_limit :: "TransportWriteLimit option"
  hd_advertised_services :: "GattChannel list"
  hd_gatt_fingerprints :: "GattFingerprint list"
  hd_selected_session_key :: "rust_str option"
  hd_resolved_identity :: "PevcapResolvedIdentity option"
  hd_resolver_evidence :: "rust_str list"
  hd_resolver_warnings :: "rust_str list"
  hd_library_version :: rust_str
  hd_registry_hash :: "u8 list"
  hd_annotations :: "rust_str list"

definition PEVCAP_MAX_ADVERTISED_SERVICES :: nat where "PEVCAP_MAX_ADVERTISED_SERVICES = 8"
definition PEVCAP_MAX_GATT_FINGERPRINTS :: nat where "PEVCAP_MAX_GATT_FINGERPRINTS = 16"
definition PEVCAP_MAX_RESOLVER_CONTEXT :: nat where "PEVCAP_MAX_RESOLVER_CONTEXT = 8"

datatype PevcapHeaderField =
  FieldAdvertisedServices | FieldGattFingerprints | FieldResolverEvidence | FieldResolverWarnings | FieldAnnotations

datatype PevcapHeaderError = TooManyItems PevcapHeaderField nat nat

text \<open>The capacity of the vector that collects is the same maximum, so no push is refused.\<close>

definition collect_bounded :: "'a list \<Rightarrow> nat \<Rightarrow> PevcapHeaderField \<Rightarrow> PevcapHeaderError + 'a list" where
  "collect_bounded items maximum field =
     (if maximum < length items then Inl (TooManyItems field (length items) maximum) else Inr items)"

definition header_new :: "u64 \<Rightarrow> rust_str \<Rightarrow> TransportWriteLimit option \<Rightarrow> GattChannel list \<Rightarrow> GattFingerprint list
    \<Rightarrow> rust_str option \<Rightarrow> PevcapResolvedIdentity option \<Rightarrow> rust_str \<Rightarrow> u8 list \<Rightarrow> rust_str list
    \<Rightarrow> PevcapHeaderError + PevcapHeader" where
  "header_new start platform limit services fingerprints key identity version hash annotations =
     (case collect_bounded services PEVCAP_MAX_ADVERTISED_SERVICES FieldAdvertisedServices of Inl e \<Rightarrow> Inl e
      | Inr services' \<Rightarrow>
     (case collect_bounded fingerprints PEVCAP_MAX_GATT_FINGERPRINTS FieldGattFingerprints of Inl e \<Rightarrow> Inl e
      | Inr fingerprints' \<Rightarrow>
     (case collect_bounded annotations PEVCAP_MAX_ANNOTATIONS FieldAnnotations of Inl e \<Rightarrow> Inl e
      | Inr annotations' \<Rightarrow>
        Inr \<lparr>hd_wall_clock_start_unix_ms = start, hd_platform_id = platform, hd_write_limit = limit,
          hd_advertised_services = services', hd_gatt_fingerprints = fingerprints', hd_selected_session_key = key,
          hd_resolved_identity = identity, hd_resolver_evidence = [], hd_resolver_warnings = [],
          hd_library_version = version, hd_registry_hash = hash, hd_annotations = annotations'\<rparr>)))"

definition with_resolver_context :: "rust_str list \<Rightarrow> rust_str list \<Rightarrow> PevcapHeader \<Rightarrow> PevcapHeaderError + PevcapHeader" where
  "with_resolver_context evidence warnings h =
     (case collect_bounded evidence PEVCAP_MAX_RESOLVER_CONTEXT FieldResolverEvidence of Inl e \<Rightarrow> Inl e
      | Inr evidence' \<Rightarrow>
     (case collect_bounded warnings PEVCAP_MAX_RESOLVER_CONTEXT FieldResolverWarnings of Inl e \<Rightarrow> Inl e
      | Inr warnings' \<Rightarrow> Inr (h\<lparr>hd_resolver_evidence := evidence', hd_resolver_warnings := warnings'\<rparr>)))"

text \<open>
  The JSON enums for protocol families and verification status have the constructors of the
  enums they stand for; the JSON header differs in its fingerprints, whose roles are a list.
\<close>

record GattFingerprintJson =
  fj_service :: "u8 list"
  fj_characteristic :: "u8 list"
  fj_roles :: "GattRoleJson list"
  fj_verification :: VerificationStatus

definition fingerprint_json :: "GattFingerprint \<Rightarrow> GattFingerprintJson" where
  "fingerprint_json f = \<lparr>fj_service = fp_service f, fj_characteristic = fp_characteristic f,
     fj_roles = roles_json (fp_roles f), fj_verification = fp_verification f\<rparr>"

definition into_fingerprint :: "GattFingerprintJson \<Rightarrow> GattFingerprint" where
  "into_fingerprint j = \<lparr>fp_service = fj_service j, fp_characteristic = fj_characteristic j,
     fp_roles = into_roles (fj_roles j), fp_verification = fj_verification j\<rparr>"

record PevcapHeaderJson =
  hj_wall_clock_start_unix_ms :: u64
  hj_platform_id :: rust_str
  hj_write_limit :: "u16 option"
  hj_advertised_services :: "u8 list list"
  hj_gatt_fingerprints :: "GattFingerprintJson list"
  hj_selected_session_key :: "rust_str option"
  hj_resolved_identity :: "PevcapResolvedIdentity option"
  hj_resolver_evidence :: "rust_str list"
  hj_resolver_warnings :: "rust_str list"
  hj_library_version :: rust_str
  hj_registry_hash :: "u8 list"
  hj_annotations :: "rust_str list"

definition header_json :: "PevcapHeader \<Rightarrow> PevcapHeaderJson" where
  "header_json h = \<lparr>hj_wall_clock_start_unix_ms = hd_wall_clock_start_unix_ms h, hj_platform_id = hd_platform_id h,
     hj_write_limit = hd_write_limit h, hj_advertised_services = hd_advertised_services h,
     hj_gatt_fingerprints = map fingerprint_json (hd_gatt_fingerprints h),
     hj_selected_session_key = hd_selected_session_key h, hj_resolved_identity = hd_resolved_identity h,
     hj_resolver_evidence = hd_resolver_evidence h, hj_resolver_warnings = hd_resolver_warnings h,
     hj_library_version = hd_library_version h, hj_registry_hash = hd_registry_hash h,
     hj_annotations = hd_annotations h\<rparr>"

definition try_into_header :: "PevcapHeaderJson \<Rightarrow> PevcapHeaderError + PevcapHeader" where
  "try_into_header j =
     (case header_new (hj_wall_clock_start_unix_ms j) (hj_platform_id j) (hj_write_limit j) (hj_advertised_services j)
         (map into_fingerprint (hj_gatt_fingerprints j)) (hj_selected_session_key j) (hj_resolved_identity j)
         (hj_library_version j) (hj_registry_hash j) (hj_annotations j) of
        Inl e \<Rightarrow> Inl e
      | Inr h \<Rightarrow> with_resolver_context (hj_resolver_evidence j) (hj_resolver_warnings j) h)"

section \<open>Settings worksheet\<close>

definition MAX_CAPTURE_SETTINGS_VALUES :: nat where "MAX_CAPTURE_SETTINGS_VALUES = 64"
definition MAX_CAPTURE_SETTINGS_OBSERVATIONS :: nat where "MAX_CAPTURE_SETTINGS_OBSERVATIONS = 1024"
definition MAX_CAPTURE_SETTINGS_OFFSET_MILLISECONDS :: u64 where
  "MAX_CAPTURE_SETTINGS_OFFSET_MILLISECONDS = 24 * 60 * 60 * 1000"

datatype CaptureResearchProfileSelection = SelectionManual | SelectionResolved
datatype CaptureObservationSource = SourceWheelDisplay | SourceManufacturerApp | SourceOther
datatype CaptureObservedValue = Unobserved | ObservedOff | ObservedBoolean bool | Entered rust_str

record CaptureResearchProfile =
  profile_id :: rust_str
  pev_category :: "rust_str option"
  profile_model :: "rust_str option"
  profile_firmware :: "rust_str option"
  profile_selection :: CaptureResearchProfileSelection

record CaptureSettingObservationValue =
  osv_setting_id :: rust_str
  osv_value :: CaptureObservedValue
  osv_unit :: "rust_str option"
  osv_note :: "rust_str option"

record CaptureSettingsObservation =
  cso_capture_id :: rust_str
  cso_profile :: CaptureResearchProfile
  cso_observed_at_ms :: u64
  cso_recorded_at_ms :: u64
  cso_source :: CaptureObservationSource
  cso_values :: "CaptureSettingObservationValue list"
  cso_note :: "rust_str option"

datatype CaptureSettingsObservationError =
  ObservationBlank | ObservationTooLarge | DuplicateSetting | FutureObservation | InvalidCaptureId | TimeOutOfRange

definition bounded_text :: "rust_str \<Rightarrow> nat \<Rightarrow> bool \<Rightarrow> CaptureSettingsObservationError option" where
  "bounded_text t maximum required =
     (if required \<and> str_trim t = [] then Some ObservationBlank
      else if maximum < utf8_len t then Some ObservationTooLarge
      else None)"

definition bounded_optional :: "rust_str option \<Rightarrow> nat \<Rightarrow> bool \<Rightarrow> CaptureSettingsObservationError option" where
  "bounded_optional t maximum required = (case t of None \<Rightarrow> None | Some t' \<Rightarrow> bounded_text t' maximum required)"

text \<open>The first failure of a sequence of checks.\<close>

fun first_error :: "'e option list \<Rightarrow> 'e option" where
  "first_error [] = None"
| "first_error (Some e # _) = Some e"
| "first_error (None # es) = first_error es"

fun validate_values :: "rust_str list \<Rightarrow> CaptureSettingObservationValue list \<Rightarrow> CaptureSettingsObservationError option" where
  "validate_values seen [] = None"
| "validate_values seen (v # vs) =
     (case first_error
        [bounded_text (osv_setting_id v) 128 True,
         if osv_setting_id v \<in> set seen then Some DuplicateSetting else None,
         (case osv_value v of Entered t \<Rightarrow> bounded_text t 256 True | _ \<Rightarrow> None),
         bounded_optional (osv_unit v) 32 True,
         bounded_optional (osv_note v) 1024 False] of
        Some e \<Rightarrow> Some e
      | None \<Rightarrow> validate_values (osv_setting_id v # seen) vs)"

definition observation_validate ::
  "(rust_str \<Rightarrow> rust_str option) \<Rightarrow> CaptureSettingsObservation \<Rightarrow> CaptureSettingsObservationError option" where
  "observation_validate uuid_text obs =
     first_error
       [if uuid_text (cso_capture_id obs) = Some (cso_capture_id obs) then None else Some InvalidCaptureId,
        bounded_text (profile_id (cso_profile obs)) 128 True,
        bounded_optional (pev_category (cso_profile obs)) 128 True,
        bounded_optional (profile_model (cso_profile obs)) 128 True,
        bounded_optional (profile_firmware (cso_profile obs)) 128 True,
        if MAX_CAPTURE_SETTINGS_OFFSET_MILLISECONDS < cso_recorded_at_ms obs then Some TimeOutOfRange else None,
        if cso_recorded_at_ms obs < cso_observed_at_ms obs then Some FutureObservation else None,
        if cso_values obs = [] then Some ObservationBlank else None,
        if MAX_CAPTURE_SETTINGS_VALUES < length (cso_values obs) then Some ObservationTooLarge else None,
        validate_values [] (cso_values obs),
        bounded_optional (cso_note obs) 1024 False]"

section \<open>What is read back\<close>

text \<open>A role set the program can build uses the five lowest bits.\<close>

definition roles_ok :: "GattRoles \<Rightarrow> bool" where
  "roles_ok r \<longleftrightarrow> r < 32"

definition all_roles :: "u8 list" where
  "all_roles = [0,1,2,3,4,5,6,7,8,9,10,11,12,13,14,15,16,17,18,19,20,21,22,23,24,25,26,27,28,29,30,31]"

lemma roles_ok_iff: "roles_ok r \<longleftrightarrow> r \<in> set all_roles"
proof -
  have "set all_roles = set (map word_of_nat [0..<32])"
    by (simp add: all_roles_def upt_rec)
  moreover have "roles_ok r \<longleftrightarrow> r \<in> set (map word_of_nat [0..<32])"
  proof
    assume "roles_ok r"
    then have "unat r < 32"
      by (simp add: roles_ok_def word_less_nat_alt)
    then show "r \<in> set (map word_of_nat [0..<32])"
      by (auto simp: image_iff intro!: bexI [of _ "unat r"])
  next
    assume "r \<in> set (map word_of_nat [0..<32])"
    then obtain n where "n < 32" "r = word_of_nat n"
      by auto
    then show "roles_ok r"
      by (simp add: roles_ok_def word_less_nat_alt unsigned_of_nat take_bit_nat_eq_self)
  qed
  ultimately show ?thesis
    by blast
qed

lemma all_roles_roundtrip: "list_all (\<lambda>r. into_roles (roles_json r) = r) all_roles"
  by code_simp

lemma roles_roundtrip: "roles_ok r \<Longrightarrow> into_roles (roles_json r) = r"
  using all_roles_roundtrip by (simp add: roles_ok_iff list_all_iff)

definition header_ok :: "PevcapHeader \<Rightarrow> bool" where
  "header_ok h \<longleftrightarrow> length (hd_advertised_services h) \<le> PEVCAP_MAX_ADVERTISED_SERVICES
     \<and> length (hd_gatt_fingerprints h) \<le> PEVCAP_MAX_GATT_FINGERPRINTS
     \<and> length (hd_resolver_evidence h) \<le> PEVCAP_MAX_RESOLVER_CONTEXT
     \<and> length (hd_resolver_warnings h) \<le> PEVCAP_MAX_RESOLVER_CONTEXT
     \<and> length (hd_annotations h) \<le> PEVCAP_MAX_ANNOTATIONS
     \<and> (\<forall>f \<in> set (hd_gatt_fingerprints h). roles_ok (fp_roles f))"

lemma fingerprint_roundtrip: "roles_ok (fp_roles f) \<Longrightarrow> into_fingerprint (fingerprint_json f) = f"
  by (simp add: into_fingerprint_def fingerprint_json_def roles_roundtrip)

lemma header_roundtrip:
  assumes "header_ok h"
  shows "try_into_header (header_json h) = Inr h"
proof -
  have "map into_fingerprint (map fingerprint_json (hd_gatt_fingerprints h)) = hd_gatt_fingerprints h"
    using assms by (auto simp: header_ok_def fingerprint_roundtrip intro!: map_idI)
  then show ?thesis
    using assms
    by (simp add: header_ok_def try_into_header_def header_json_def header_new_def with_resolver_context_def
        collect_bounded_def)
qed

end
