(* ===== verification/Pevcap_Binary.thy ===== *)
theory Pevcap_Binary
  imports Pevcap_Header "HOL-Library.Sublist"
begin

text \<open>
  The binary capture container (\<open>cutout-core/src/pevcap.rs\<close>): writing a capture, reading it whole
  and reading it as a stream of events.  JSON is the work of \<open>serde_json\<close>: one function writes and
  one reads each kind of payload, collected in a record that the operations take as an argument.
  What a theorem needs of them is a hypothesis of the theorem.
\<close>

section \<open>Parameters, errors and the capture\<close>

record ('t, 'e) PevcapCodec =
  header_to_vec :: "PevcapHeaderJson \<Rightarrow> 'e + u8 list"
  header_from_slice :: "u8 list \<Rightarrow> 'e + PevcapHeaderJson"
  record_to_vec :: "'t PevcapRecordJson \<Rightarrow> 'e + u8 list"
  record_from_slice :: "u8 list \<Rightarrow> 'e + 't PevcapRecordJson"
  location_to_vec :: "PevcapLocationJson \<Rightarrow> 'e + u8 list"
  location_from_slice :: "u8 list \<Rightarrow> 'e + PevcapLocationJson"
  observation_to_vec :: "CaptureSettingsObservation \<Rightarrow> 'e + u8 list"
  observation_from_slice :: "u8 list \<Rightarrow> 'e + CaptureSettingsObservation"
  uuid_text :: "rust_str \<Rightarrow> rust_str option"

record PevcapFormatVersion =
  major :: u16
  minor :: u16

definition PEVCAP_MAGIC :: "u8 list" where
  "PEVCAP_MAGIC = [0x50, 0x45, 0x56, 0x43, 0x41, 0x50, 0, 0]"

definition PEVCAP_VERSION_MAJOR :: u16 where "PEVCAP_VERSION_MAJOR = 1"
definition PEVCAP_VERSION_MINOR :: u16 where "PEVCAP_VERSION_MINOR = 5"

definition version_current :: PevcapFormatVersion where
  "version_current = \<lparr>major = PEVCAP_VERSION_MAJOR, minor = PEVCAP_VERSION_MINOR\<rparr>"

definition version_is_supported :: "PevcapFormatVersion \<Rightarrow> bool" where
  "version_is_supported v \<longleftrightarrow> major v = PEVCAP_VERSION_MAJOR \<and> minor v = PEVCAP_VERSION_MINOR"

datatype PevcapBinarySection =
    SecSettingsObservationCount | SecSettingsObservation | SecMagic | SecVersion | SecHeader
  | SecRecordCount | SecLocationCount | SecRecord | SecLocation

datatype 'e PevcapBinaryError =
    BinSettingsObservation CaptureSettingsObservationError | BinSerialize 'e
  | BinDeserialize PevcapBinarySection 'e | InvalidMagic | UnsupportedVersion PevcapFormatVersion
  | Truncated PevcapBinarySection | TrailingBytes nat | LengthTooLarge PevcapBinarySection nat
  | PayloadTooLarge PevcapBinarySection nat nat | BinHeader PevcapHeaderError | BinRecord PevcapRecordError

record 't PevcapCapture =
  cap_version :: PevcapFormatVersion
  cap_header :: PevcapHeader
  cap_records :: "'t PevcapRecord list"
  cap_locations :: "PevcapLocationSample list"
  cap_settings_observations :: "CaptureSettingsObservation list"

definition capture_new :: "PevcapHeader \<Rightarrow> 't PevcapRecord list \<Rightarrow> PevcapLocationSample list
    \<Rightarrow> CaptureSettingsObservation list \<Rightarrow> 't PevcapCapture" where
  "capture_new h rs ls os = \<lparr>cap_version = version_current, cap_header = h, cap_records = rs, cap_locations = ls,
     cap_settings_observations = os\<rparr>"

text \<open>The question mark operator and \<open>map_err\<close>.\<close>

definition and_then :: "'e + 'a \<Rightarrow> ('a \<Rightarrow> 'e + 'b) \<Rightarrow> 'e + 'b" where
  "and_then r f = (case r of Inl e \<Rightarrow> Inl e | Inr x \<Rightarrow> f x)"

definition map_err :: "('e \<Rightarrow> 'f) \<Rightarrow> 'e + 'a \<Rightarrow> 'f + 'a" where
  "map_err f r = map_sum f (\<lambda>x. x) r"

definition check :: "'e option \<Rightarrow> 'e + unit" where
  "check e = (case e of None \<Rightarrow> Inr () | Some e' \<Rightarrow> Inl e')"

section \<open>Writing\<close>

definition u16_to_le_bytes :: "u16 \<Rightarrow> u8 list" where
  "u16_to_le_bytes v = rev (u16_to_be_bytes v)"

definition u32_to_le_bytes :: "u32 \<Rightarrow> u8 list" where
  "u32_to_le_bytes v = rev (u32_to_be_bytes v)"

definition u32_try_from :: "nat \<Rightarrow> PevcapBinarySection \<Rightarrow> 'e PevcapBinaryError + u32" where
  "u32_try_from n section = (if n < 2 ^ 32 then Inr (word_of_nat n) else Inl (LengthTooLarge section n))"

definition write_len_prefixed :: "PevcapBinarySection \<Rightarrow> u8 list \<Rightarrow> 'e PevcapBinaryError + u8 list" where
  "write_len_prefixed section payload =
     map_sum (\<lambda>e. e) (\<lambda>n. u32_to_le_bytes n @ payload) (u32_try_from (length payload) section)"

definition ensure_settings_observation_count :: "nat \<Rightarrow> CaptureSettingsObservationError option" where
  "ensure_settings_observation_count n =
     (if MAX_CAPTURE_SETTINGS_OBSERVATIONS < n then Some ObservationTooLarge else None)"

text \<open>A counted section: the number of items, then each item with its length.\<close>

primrec write_items :: "('a \<Rightarrow> 'e PevcapBinaryError + u8 list) \<Rightarrow> 'a list \<Rightarrow> 'e PevcapBinaryError + u8 list" where
  "write_items w [] = Inr []"
| "write_items w (x # xs) = and_then (w x) (\<lambda>b. map_sum (\<lambda>e. e) (\<lambda>bs. b @ bs) (write_items w xs))"

definition write_counted :: "PevcapBinarySection \<Rightarrow> ('a \<Rightarrow> 'e PevcapBinaryError + u8 list) \<Rightarrow> 'a list
    \<Rightarrow> 'e PevcapBinaryError + u8 list" where
  "write_counted section w xs =
     and_then (u32_try_from (length xs) section) (\<lambda>n. map_sum (\<lambda>e. e) (\<lambda>bs. u32_to_le_bytes n @ bs) (write_items w xs))"

definition write_record :: "('t, 'e) PevcapCodec \<Rightarrow> 't PevcapRecord \<Rightarrow> 'e PevcapBinaryError + u8 list" where
  "write_record codec r =
     and_then (map_err BinSerialize (record_to_vec codec (record_json r))) (write_len_prefixed SecRecord)"

definition write_location :: "('t, 'e) PevcapCodec \<Rightarrow> PevcapLocationSample \<Rightarrow> 'e PevcapBinaryError + u8 list" where
  "write_location codec l =
     and_then (map_err BinSerialize (location_to_vec codec (location_json l))) (write_len_prefixed SecLocation)"

definition write_observation :: "('t, 'e) PevcapCodec \<Rightarrow> CaptureSettingsObservation \<Rightarrow> 'e PevcapBinaryError + u8 list" where
  "write_observation codec obs =
     and_then (map_err BinSettingsObservation (check (observation_validate (uuid_text codec) obs))) (\<lambda>_.
     and_then (map_err BinSerialize (observation_to_vec codec obs)) (write_len_prefixed SecSettingsObservation))"

definition to_binary :: "('t, 'e) PevcapCodec \<Rightarrow> 't PevcapCapture \<Rightarrow> 'e PevcapBinaryError + u8 list" where
  "to_binary codec c =
     (if \<not> version_is_supported (cap_version c) then Inl (UnsupportedVersion (cap_version c))
      else
        and_then (map_err BinSettingsObservation
          (check (ensure_settings_observation_count (length (cap_settings_observations c))))) (\<lambda>_.
        and_then (map_err BinSerialize (header_to_vec codec (header_json (cap_header c)))) (\<lambda>header.
        and_then (write_len_prefixed SecHeader header) (\<lambda>hb.
        and_then (write_counted SecRecordCount (write_record codec) (cap_records c)) (\<lambda>rb.
        and_then (write_counted SecLocationCount (write_location codec) (cap_locations c)) (\<lambda>lb.
        and_then (write_counted SecSettingsObservationCount (write_observation codec) (cap_settings_observations c)) (\<lambda>ob.
          Inr (PEVCAP_MAGIC @ u16_to_le_bytes (major (cap_version c)) @ u16_to_le_bytes (minor (cap_version c))
            @ hb @ rb @ lb @ ob))))))))"

section \<open>Reading a whole container\<close>

type_synonym ('e, 'a) reader = "u8 list \<Rightarrow> 'e PevcapBinaryError + ('a \<times> u8 list)"

definition read_exact :: "nat \<Rightarrow> PevcapBinarySection \<Rightarrow> ('e, u8 list) reader" where
  "read_exact n section input =
     (if length input < n then Inl (Truncated section) else Inr (take n input, drop n input))"

definition u16_of_le :: "u8 list \<Rightarrow> u16" where
  "u16_of_le b = u16_from_be_bytes (b ! 1) (b ! 0)"

definition u32_of_le :: "u8 list \<Rightarrow> u32" where
  "u32_of_le b = u32_from_be_bytes (b ! 3) (b ! 2) (b ! 1) (b ! 0)"

definition read_u16_le :: "PevcapBinarySection \<Rightarrow> ('e, u16) reader" where
  "read_u16_le section input = map_sum (\<lambda>e. e) (map_prod u16_of_le (\<lambda>r. r)) (read_exact 2 section input)"

definition read_u32_le :: "PevcapBinarySection \<Rightarrow> ('e, u32) reader" where
  "read_u32_le section input = map_sum (\<lambda>e. e) (map_prod u32_of_le (\<lambda>r. r)) (read_exact 4 section input)"

definition read_len_prefixed :: "PevcapBinarySection \<Rightarrow> ('e, u8 list) reader" where
  "read_len_prefixed section input =
     and_then (read_u32_le section input) (\<lambda>(n, rest). read_exact (unat n) section rest)"

definition read_record :: "('t, 'e) PevcapCodec \<Rightarrow> ('e, 't PevcapRecord) reader" where
  "read_record codec input =
     and_then (read_len_prefixed SecRecord input) (\<lambda>(payload, rest).
     and_then (map_err (BinDeserialize SecRecord) (record_from_slice codec payload)) (\<lambda>j.
     and_then (map_err BinRecord (try_into_record j)) (\<lambda>r. Inr (r, rest))))"

definition read_location :: "('t, 'e) PevcapCodec \<Rightarrow> ('e, PevcapLocationSample) reader" where
  "read_location codec input =
     and_then (read_len_prefixed SecLocation input) (\<lambda>(payload, rest).
     and_then (map_err (BinDeserialize SecLocation) (location_from_slice codec payload)) (\<lambda>j.
     Inr (into_raw_observation j, rest)))"

definition read_observation :: "('t, 'e) PevcapCodec \<Rightarrow> ('e, CaptureSettingsObservation) reader" where
  "read_observation codec input =
     and_then (read_len_prefixed SecSettingsObservation input) (\<lambda>(payload, rest).
     and_then (map_err (BinDeserialize SecSettingsObservation) (observation_from_slice codec payload)) (\<lambda>obs.
     and_then (map_err BinSettingsObservation (check (observation_validate (uuid_text codec) obs))) (\<lambda>_.
     Inr (obs, rest))))"

primrec read_many :: "('e, 'a) reader \<Rightarrow> nat \<Rightarrow> ('e, 'a list) reader" where
  "read_many r 0 input = Inr ([], input)"
| "read_many r (Suc n) input =
     and_then (r input) (\<lambda>(x, rest). and_then (read_many r n rest) (\<lambda>(xs, rest'). Inr (x # xs, rest')))"

definition ensure_count_framing :: "nat \<Rightarrow> nat \<Rightarrow> PevcapBinarySection \<Rightarrow> 'e PevcapBinaryError + unit" where
  "ensure_count_framing n remaining section = (if remaining div 4 < n then Inl (Truncated section) else Inr ())"

definition read_framed :: "PevcapBinarySection \<Rightarrow> ('e, 'a) reader \<Rightarrow> nat \<Rightarrow> ('e, 'a list) reader" where
  "read_framed section r n input = and_then (ensure_count_framing n (length input) section) (\<lambda>_. read_many r n input)"

definition ensure_binary_settings_observation_count :: "u32 \<Rightarrow> 'e PevcapBinaryError + unit" where
  "ensure_binary_settings_observation_count n =
     map_err BinSettingsObservation (check (ensure_settings_observation_count (unat n)))"

definition read_binary_settings_observations :: "('t, 'e) PevcapCodec \<Rightarrow> ('e, CaptureSettingsObservation list) reader" where
  "read_binary_settings_observations codec input =
     and_then (read_u32_le SecSettingsObservationCount input) (\<lambda>(n, rest).
     and_then (ensure_binary_settings_observation_count n) (\<lambda>_.
     read_framed SecSettingsObservation (read_observation codec) (unat n) rest))"

definition read_magic :: "('e, unit) reader" where
  "read_magic input =
     and_then (read_exact (length PEVCAP_MAGIC) SecMagic input) (\<lambda>(magic, rest).
     if magic \<noteq> PEVCAP_MAGIC then Inl InvalidMagic else Inr ((), rest))"

definition read_version :: "('e, PevcapFormatVersion) reader" where
  "read_version input =
     and_then (read_u16_le SecVersion input) (\<lambda>(ma, rest).
     and_then (read_u16_le SecVersion rest) (\<lambda>(mi, rest').
     let v = \<lparr>major = ma, minor = mi\<rparr>
     in if \<not> version_is_supported v then Inl (UnsupportedVersion v) else Inr (v, rest')))"

definition read_header :: "('t, 'e) PevcapCodec \<Rightarrow> ('e, PevcapHeader) reader" where
  "read_header codec input =
     and_then (read_len_prefixed SecHeader input) (\<lambda>(payload, rest).
     and_then (map_err (BinDeserialize SecHeader) (header_from_slice codec payload)) (\<lambda>j.
     and_then (map_err BinHeader (try_into_header j)) (\<lambda>h. Inr (h, rest))))"

definition read_capture :: "('t, 'e) PevcapCodec \<Rightarrow> ('e, 't PevcapCapture) reader" where
  "read_capture codec input =
     and_then (read_magic input) (\<lambda>(_, i1).
     and_then (read_version i1) (\<lambda>(v, i2).
     and_then (read_header codec i2) (\<lambda>(h, i3).
     and_then (read_u32_le SecRecordCount i3) (\<lambda>(rn, i4).
     and_then (read_framed SecRecord (read_record codec) (unat rn) i4) (\<lambda>(rs, i5).
     and_then (read_u32_le SecLocationCount i5) (\<lambda>(ln, i6).
     and_then (read_framed SecLocation (read_location codec) (unat ln) i6) (\<lambda>(ls, i7).
     and_then (read_binary_settings_observations codec i7) (\<lambda>(os, i8).
     Inr (\<lparr>cap_version = v, cap_header = h, cap_records = rs, cap_locations = ls, cap_settings_observations = os\<rparr>, i8)))))))))"

definition from_binary :: "('t, 'e) PevcapCodec \<Rightarrow> u8 list \<Rightarrow> 'e PevcapBinaryError + 't PevcapCapture" where
  "from_binary codec input =
     and_then (read_capture codec input) (\<lambda>(c, remaining).
     if remaining \<noteq> [] then Inl (TrailingBytes (length remaining)) else Inr c)"

section \<open>Readers that take exactly their bytes\<close>

lemma and_then_simps [simp]: "and_then (Inl e) f = Inl e" "and_then (Inr x) f = f x"
  by (simp_all add: and_then_def)

lemma and_then_Inr_iff: "and_then r f = Inr y \<longleftrightarrow> (\<exists>x. r = Inr x \<and> f x = Inr y)"
  by (cases r) simp_all

lemma map_err_simps [simp]: "map_err f (Inl e) = Inl (f e)" "map_err f (Inr x) = Inr x"
  by (simp_all add: map_err_def)

lemma map_err_Inr_iff: "map_err f r = Inr x \<longleftrightarrow> r = Inr x"
  by (cases r) simp_all

lemma map_sum_Inr_iff: "map_sum (\<lambda>e. e) g r = Inr y \<longleftrightarrow> (\<exists>x. r = Inr x \<and> y = g x)"
  by (cases r) auto

lemma check_simps [simp]: "check None = Inr ()" "check (Some e) = Inl e"
  by (simp_all add: check_def)

lemma check_Inr_iff: "check e = Inr u \<longleftrightarrow> e = None"
  by (cases e) simp_all

text \<open>
  A reader is framed when what it reads depends only on the bytes it takes, and it finds the input
  truncated whenever some of those bytes are missing.
\<close>

definition framed :: "('e, 'a) reader \<Rightarrow> bool" where
  "framed r \<longleftrightarrow> (\<forall>input x rest. r input = Inr (x, rest) \<longrightarrow>
     (\<exists>taken. input = taken @ rest \<and> (\<forall>after. r (taken @ after) = Inr (x, after))
        \<and> (\<forall>cut. strict_prefix cut taken \<longrightarrow> (\<exists>section. r cut = Inl (Truncated section)))))"

lemma framedD:
  assumes "framed r" "r input = Inr (x, rest)"
  obtains taken where "input = taken @ rest" "\<And>after. r (taken @ after) = Inr (x, after)"
    "\<And>cut. strict_prefix cut taken \<Longrightarrow> \<exists>section. r cut = Inl (Truncated section)"
  using assms unfolding framed_def by blast

lemma framed_return: "framed (\<lambda>input. Inr (x, input))"
  unfolding framed_def by auto

lemma framed_fail: "framed (\<lambda>input. Inl e)"
  unfolding framed_def by simp

lemma framed_read_exact: "framed (read_exact n section)"
  unfolding framed_def
proof (intro allI impI)
  fix input x rest
  assume "(read_exact n section input :: 'e PevcapBinaryError + (u8 list \<times> u8 list)) = Inr (x, rest)"
  then have n: "n \<le> length input" "x = take n input" "rest = drop n input"
    by (auto simp: read_exact_def not_less split: if_splits)
  have "(read_exact n section (x @ after) :: 'e PevcapBinaryError + (u8 list \<times> u8 list)) = Inr (x, after)" for after
    using n by (simp add: read_exact_def)
  moreover have "(read_exact n section cut :: 'e PevcapBinaryError + (u8 list \<times> u8 list)) = Inl (Truncated section)"
    if "strict_prefix cut x" for cut
    using prefix_length_less [OF that] n by (simp add: read_exact_def)
  ultimately show "\<exists>taken. input = taken @ rest
      \<and> (\<forall>after. (read_exact n section (taken @ after) :: 'e PevcapBinaryError + (u8 list \<times> u8 list)) = Inr (x, after))
      \<and> (\<forall>cut. strict_prefix cut taken \<longrightarrow>
          (\<exists>section'. (read_exact n section cut :: 'e PevcapBinaryError + (u8 list \<times> u8 list)) = Inl (Truncated section')))"
    using n by (intro exI [of _ x]) auto
qed

text \<open>One reader after another.\<close>

lemma framed_and_then:
  assumes r: "framed r" and f: "\<And>x. framed (f x)"
  shows "framed (\<lambda>input. and_then (r input) (\<lambda>(x, rest). f x rest))"
  unfolding framed_def
proof (intro allI impI)
  fix input y rest'
  assume "and_then (r input) (\<lambda>(x, rest). f x rest) = Inr (y, rest')"
  then obtain x rest where x: "r input = Inr (x, rest)" and y: "f x rest = Inr (y, rest')"
    by (auto simp: and_then_Inr_iff)
  obtain t1 where t1: "input = t1 @ rest" "\<And>after. r (t1 @ after) = Inr (x, after)"
    "\<And>cut. strict_prefix cut t1 \<Longrightarrow> \<exists>section. r cut = Inl (Truncated section)"
    using framedD [OF r x] by blast
  obtain t2 where t2: "rest = t2 @ rest'" "\<And>after. f x (t2 @ after) = Inr (y, after)"
    "\<And>cut. strict_prefix cut t2 \<Longrightarrow> \<exists>section. f x cut = Inl (Truncated section)"
    using framedD [OF f y] by blast
  have "\<exists>section. and_then (r cut) (\<lambda>(x, rest). f x rest) = Inl (Truncated section)"
    if whole: "strict_prefix cut (t1 @ t2)" for cut
  proof (cases "strict_prefix cut t1")
    case True
    then show ?thesis
      using t1(3) by force
  next
    case False
    have "\<exists>c2. cut = t1 @ c2 \<and> prefix c2 t2"
      using whole False by (auto simp: strict_prefix_def prefix_append)
    then obtain c2 where "cut = t1 @ c2" "strict_prefix c2 t2"
      using whole by (auto simp: strict_prefix_def)
    then show ?thesis
      using t1(2) t2(3) by simp
  qed
  then show "\<exists>taken. input = taken @ rest' \<and> (\<forall>after. and_then (r (taken @ after)) (\<lambda>(x, rest). f x rest) = Inr (y, after))
      \<and> (\<forall>cut. strict_prefix cut taken \<longrightarrow> (\<exists>section. and_then (r cut) (\<lambda>(x, rest). f x rest) = Inl (Truncated section)))"
    using t1(1,2) t2(1,2) by (intro exI [of _ "t1 @ t2"]) auto
qed

lemma framed_lift: "(\<And>x. framed (k x)) \<Longrightarrow> framed (\<lambda>rest. and_then v (\<lambda>x. k x rest))"
  by (cases v) (simp_all add: framed_fail)

lemma framed_map:
  assumes "framed r"
  shows "framed (\<lambda>input. map_sum (\<lambda>e. e) (map_prod g (\<lambda>rest. rest)) (r input))"
proof -
  have "(\<lambda>input. map_sum (\<lambda>e. e) (map_prod g (\<lambda>rest. rest)) (r input)) =
      (\<lambda>input. and_then (r input) (\<lambda>(x, rest). Inr (g x, rest)))"
    by (rule ext) (auto simp: and_then_def split: sum.split)
  then show ?thesis
    using framed_and_then [OF assms framed_return] by simp
qed

lemma framed_if: "framed r \<Longrightarrow> framed r' \<Longrightarrow> framed (\<lambda>rest. if b then r rest else r' rest)"
  by (cases b) simp_all

lemmas framed_intros = framed_return framed_fail framed_read_exact framed_and_then framed_lift framed_map framed_if

lemma framed_numbers: "framed (read_u16_le section)" "framed (read_u32_le section)"
  unfolding read_u16_le_def read_u32_le_def by (intro framed_intros)+

lemma framed_len_prefixed: "framed (read_len_prefixed section)"
  unfolding read_len_prefixed_def by (intro framed_intros framed_numbers)

lemma framed_items: "framed (read_record codec)" "framed (read_location codec)" "framed (read_observation codec)"
  unfolding read_record_def read_location_def read_observation_def by (intro framed_intros framed_len_prefixed)+

lemma framed_preamble: "framed read_magic" "framed read_version" "framed (read_header codec)"
  unfolding read_magic_def read_version_def read_header_def Let_def
  by (intro framed_intros framed_len_prefixed framed_numbers)+

lemma framed_many: "framed r \<Longrightarrow> framed (read_many r n)"
proof (induction n)
  case 0
  have "read_many r 0 = (\<lambda>input. Inr ([], input))"
    by (rule ext) simp
  then show ?case
    by (simp add: framed_return)
next
  case (Suc n)
  have "read_many r (Suc n) =
      (\<lambda>input. and_then (r input) (\<lambda>(x, rest). and_then (read_many r n rest) (\<lambda>(xs, rest'). Inr (x # xs, rest'))))"
    by (rule ext) simp
  moreover have "framed \<dots>"
    using Suc by (intro framed_intros) auto
  ultimately show ?case
    by simp
qed

text \<open>Every item of a counted section begins with four bytes of length.\<close>

definition takes_four :: "('e, 'a) reader \<Rightarrow> bool" where
  "takes_four r \<longleftrightarrow> (\<forall>input x rest. r input = Inr (x, rest) \<longrightarrow> length rest + 4 \<le> length input)"

lemma len_prefixed_takes_four: "read_len_prefixed section input = Inr (p, rest) \<Longrightarrow> length rest + 4 \<le> length input"
  by (auto simp: read_len_prefixed_def read_u32_le_def read_exact_def and_then_Inr_iff map_sum_Inr_iff not_less
      split: if_splits)

lemma items_take_four: "takes_four (read_record codec)" "takes_four (read_location codec)" "takes_four (read_observation codec)"
  unfolding takes_four_def read_record_def read_location_def read_observation_def
  by (auto simp: and_then_Inr_iff dest: len_prefixed_takes_four)

lemma read_many_takes: "takes_four r \<Longrightarrow> read_many r n input = Inr (xs, rest) \<Longrightarrow> length rest + 4 * n \<le> length input"
proof (induction n arbitrary: input xs)
  case (Suc n)
  then obtain x mid ys where "r input = Inr (x, mid)" "read_many r n mid = Inr (ys, rest)"
    by (auto simp: and_then_Inr_iff)
  then show ?case
    using Suc.IH [OF Suc.prems(1)] Suc.prems(1) by (fastforce simp: takes_four_def)
qed simp

text \<open>The early check of a count only ever refuses what reading the items would refuse.\<close>

lemma read_framed_Inr_iff:
  "takes_four r \<Longrightarrow> read_framed section r n input = Inr y \<longleftrightarrow> read_many r n input = Inr y"
  using read_many_takes [of r n input]
  by (cases y) (force simp: read_framed_def ensure_count_framing_def and_then_Inr_iff)

lemma framed_framed:
  assumes "framed r" "takes_four r"
  shows "framed (read_framed section r n)"
  unfolding framed_def
proof (intro allI impI)
  fix input xs rest
  assume "read_framed section r n input = Inr (xs, rest)"
  then have "read_many r n input = Inr (xs, rest)"
    by (simp add: read_framed_Inr_iff [OF assms(2)])
  then obtain t where t: "input = t @ rest" "\<And>after. read_many r n (t @ after) = Inr (xs, after)"
    "\<And>cut. strict_prefix cut t \<Longrightarrow> \<exists>section. read_many r n cut = Inl (Truncated section)"
    using framedD [OF framed_many [OF assms(1)]] by blast
  have "\<exists>section'. read_framed section r n cut = Inl (Truncated section')" if "strict_prefix cut t" for cut
    using t(3) [OF that] by (auto simp: read_framed_def ensure_count_framing_def)
  then show "\<exists>taken. input = taken @ rest \<and> (\<forall>after. read_framed section r n (taken @ after) = Inr (xs, after))
      \<and> (\<forall>cut. strict_prefix cut taken \<longrightarrow> (\<exists>section'. read_framed section r n cut = Inl (Truncated section')))"
    using t(1,2) by (intro exI [of _ t]) (simp add: read_framed_Inr_iff [OF assms(2)])
qed

lemma framed_capture: "framed (read_capture codec)"
  unfolding read_capture_def read_binary_settings_observations_def
  by (intro framed_intros framed_preamble framed_numbers framed_framed framed_items items_take_four)

text \<open>
  C17.  Damage to the length of a container is noticed.  Whatever the JSON library does: of a
  container that is read, every strictly shorter beginning is refused as truncated, and every
  longer input that begins with it is refused with the exact number of trailing bytes.
\<close>

theorem pevcap_container_exact:
  assumes "from_binary codec bs = Inr c"
  shows "(\<forall>n < length bs. \<exists>section. from_binary codec (take n bs) = Inl (Truncated section))
    \<and> (\<forall>extra. extra \<noteq> [] \<longrightarrow> from_binary codec (bs @ extra) = Inl (TrailingBytes (length extra)))"
proof -
  have "read_capture codec bs = Inr (c, [])"
    using assms by (auto simp: from_binary_def and_then_Inr_iff split: if_splits)
  then obtain taken where "bs = taken @ []" and after: "\<And>after. read_capture codec (taken @ after) = Inr (c, after)"
    and cut: "\<And>cut. strict_prefix cut taken \<Longrightarrow> \<exists>section. read_capture codec cut = Inl (Truncated section)"
    using framedD [OF framed_capture] by blast
  then have bs: "taken = bs"
    by simp
  have "\<exists>section. from_binary codec (take n bs) = Inl (Truncated section)" if "n < length bs" for n
  proof -
    have "strict_prefix (take n bs) bs"
      using that by (auto simp: strict_prefix_def take_is_prefix dest: arg_cong [of _ _ length])
    then show ?thesis
      using cut bs by (force simp: from_binary_def)
  qed
  moreover have "from_binary codec (bs @ extra) = Inl (TrailingBytes (length extra))" if "extra \<noteq> []" for extra
    using after [of extra] bs that by (simp add: from_binary_def)
  ultimately show ?thesis
    by blast
qed

section \<open>Reading what was written\<close>

lemma read_u16_written [simp]: "read_u16_le section (u16_to_le_bytes n @ after) = Inr (n, after)"
  using u16_be_roundtrip [of n]
  by (simp add: read_u16_le_def read_exact_def u16_to_le_bytes_def u16_to_be_bytes_def u16_of_le_def)

lemma read_u32_written [simp]: "read_u32_le section (u32_to_le_bytes n @ after) = Inr (n, after)"
  using u32_be_roundtrip [of n]
  by (simp add: read_u32_le_def read_exact_def u32_to_le_bytes_def u32_to_be_bytes_def u32_of_le_def numeral_eq_Suc)

lemma u32_try_from_Inr: "u32_try_from n section = Inr w \<longleftrightarrow> n < 2 ^ 32 \<and> w = word_of_nat n"
  by (auto simp: u32_try_from_def)

lemma unat_u32_of_nat: "n < 2 ^ 32 \<Longrightarrow> unat (word_of_nat n :: u32) = n"
  by (simp add: unsigned_of_nat take_bit_nat_eq_self)

lemma read_len_written:
  "write_len_prefixed section p = Inr b \<Longrightarrow> read_len_prefixed section' (b @ after) = Inr (p, after)"
  by (auto simp: write_len_prefixed_def map_sum_Inr_iff u32_try_from_Inr read_len_prefixed_def unat_u32_of_nat read_exact_def)

text \<open>What the reader of an item must give back for the items of a list.\<close>

definition reads_written :: "('a \<Rightarrow> 'e PevcapBinaryError + u8 list) \<Rightarrow> ('e, 'a) reader \<Rightarrow> 'a list \<Rightarrow> bool" where
  "reads_written w r xs \<longleftrightarrow> (\<forall>x \<in> set xs. \<forall>b after. w x = Inr b \<longrightarrow> r (b @ after) = Inr (x, after))"

lemma read_items_written:
  "reads_written w r xs \<Longrightarrow> write_items w xs = Inr b \<Longrightarrow> read_many r (length xs) (b @ after) = Inr (xs, after)"
proof (induction xs arbitrary: b)
  case (Cons x xs)
  then obtain b1 b2 where b: "w x = Inr b1" "write_items w xs = Inr b2" "b = b1 @ b2"
    by (auto simp: and_then_Inr_iff map_sum_Inr_iff)
  then have "r (b1 @ b2 @ after) = Inr (x, b2 @ after)" "read_many r (length xs) (b2 @ after) = Inr (xs, after)"
    using Cons.prems(1) Cons.IH by (simp_all add: reads_written_def)
  then show ?case
    by (simp add: b)
qed simp

lemma write_countedE:
  assumes "write_counted section w xs = Inr b" "reads_written w r xs"
  obtains n body where "b = u32_to_le_bytes n @ body" "unat n = length xs"
    "\<And>after. read_many r (length xs) (body @ after) = Inr (xs, after)"
proof -
  obtain n body where "length xs < 2 ^ 32" "n = word_of_nat (length xs)" "write_items w xs = Inr body"
      "b = u32_to_le_bytes n @ body"
    using assms(1) by (auto simp: write_counted_def and_then_Inr_iff map_sum_Inr_iff u32_try_from_Inr)
  then show ?thesis
    using that read_items_written [OF assms(2)] by (simp add: unat_u32_of_nat)
qed

text \<open>The JSON library reads back what it wrote for the parts of one capture.\<close>

definition codec_restores :: "('t, 'e) PevcapCodec \<Rightarrow> 't PevcapCapture \<Rightarrow> bool" where
  "codec_restores codec c \<longleftrightarrow>
     (\<forall>b. header_to_vec codec (header_json (cap_header c)) = Inr b \<longrightarrow>
        header_from_slice codec b = Inr (header_json (cap_header c)))
   \<and> (\<forall>r \<in> set (cap_records c). \<forall>b. record_to_vec codec (record_json r) = Inr b \<longrightarrow>
        record_from_slice codec b = Inr (record_json r))
   \<and> (\<forall>l \<in> set (cap_locations c). \<forall>b. location_to_vec codec (location_json l) = Inr b \<longrightarrow>
        location_from_slice codec b = Inr (location_json l))
   \<and> (\<forall>obs \<in> set (cap_settings_observations c). \<forall>b. observation_to_vec codec obs = Inr b \<longrightarrow>
        observation_from_slice codec b = Inr obs)"

lemma records_written:
  "codec_restores codec c \<Longrightarrow> \<forall>r \<in> set (cap_records c). record_ok r
     \<Longrightarrow> reads_written (write_record codec) (read_record codec) (cap_records c)"
  by (auto simp: reads_written_def codec_restores_def write_record_def read_record_def and_then_Inr_iff map_err_Inr_iff
      read_len_written record_roundtrip)

lemma locations_written:
  "codec_restores codec c \<Longrightarrow> reads_written (write_location codec) (read_location codec) (cap_locations c)"
  by (auto simp: reads_written_def codec_restores_def write_location_def read_location_def and_then_Inr_iff map_err_Inr_iff
      read_len_written)

lemma observations_written:
  "codec_restores codec c
     \<Longrightarrow> reads_written (write_observation codec) (read_observation codec) (cap_settings_observations c)"
  by (auto simp: reads_written_def codec_restores_def write_observation_def read_observation_def and_then_Inr_iff
      map_err_Inr_iff check_Inr_iff read_len_written)

lemma read_magic_written [simp]: "read_magic (PEVCAP_MAGIC @ after) = Inr ((), after)"
  by (simp add: read_magic_def read_exact_def)

lemma read_version_written [simp]:
  "version_is_supported v \<Longrightarrow> read_version (u16_to_le_bytes (major v) @ u16_to_le_bytes (minor v) @ after) = Inr (v, after)"
  by (cases v) (simp add: read_version_def Let_def)


section \<open>Witnesses\<close>

definition sample_header :: PevcapHeader where
  "sample_header = \<lparr>hd_wall_clock_start_unix_ms = 3, hd_platform_id = [105], hd_write_limit = Some 20,
     hd_advertised_services = [], hd_gatt_fingerprints = [], hd_selected_session_key = None,
     hd_resolved_identity = None, hd_resolver_evidence = [], hd_resolver_warnings = [], hd_library_version = [49],
     hd_registry_hash = [], hd_annotations = []\<rparr>"

definition sample_capture :: "unit PevcapCapture" where
  "sample_capture = capture_new sample_header [record_link_down 7] [] []"

text \<open>A library that writes one byte for each of these two values and reads it back.\<close>

definition sample_codec :: "(unit, unit) PevcapCodec" where
  "sample_codec = \<lparr>header_to_vec = (\<lambda>_. Inr [104]), header_from_slice = (\<lambda>_. Inr (header_json sample_header)),
     record_to_vec = (\<lambda>_. Inr [114]), record_from_slice = (\<lambda>_. Inr (record_json (record_link_down 7))),
     location_to_vec = (\<lambda>_. Inl ()), location_from_slice = (\<lambda>_. Inl ()),
     observation_to_vec = (\<lambda>_. Inl ()), observation_from_slice = (\<lambda>_. Inl ()), uuid_text = (\<lambda>_. None)\<rparr>"

definition sample_bytes :: "u8 list" where
  "sample_bytes = [0x50, 0x45, 0x56, 0x43, 0x41, 0x50, 0, 0, 1, 0, 5, 0, 1, 0, 0, 0, 104, 1, 0, 0, 0, 1, 0, 0, 0, 114,
     0, 0, 0, 0, 0, 0, 0, 0]"

lemma sample_restores: "codec_restores sample_codec sample_capture"
  by (simp add: codec_restores_def sample_codec_def sample_capture_def capture_new_def)

lemma sample_ok: "header_ok (cap_header sample_capture) \<and> (\<forall>r \<in> set (cap_records sample_capture). record_ok r)"
  by (simp add: sample_capture_def capture_new_def header_ok_def sample_header_def constructed_records_ok)

lemma sample_written: "to_binary sample_codec sample_capture = Inr sample_bytes"
  by (simp add: to_binary_def sample_capture_def capture_new_def version_current_def version_is_supported_def sample_codec_def
      ensure_settings_observation_count_def write_len_prefixed_def u32_try_from_def write_counted_def write_record_def
      u32_to_le_bytes_def u32_to_be_bytes_def u16_to_le_bytes_def u16_to_be_bytes_def sample_bytes_def PEVCAP_MAGIC_def
      PEVCAP_VERSION_MAJOR_def PEVCAP_VERSION_MINOR_def)

lemma sample_read: "from_binary sample_codec sample_bytes = Inr sample_capture"
  by (simp add: from_binary_def read_capture_def read_magic_def read_version_def read_header_def read_len_prefixed_def
      read_u16_le_def read_u32_le_def read_exact_def u16_of_le_def u32_of_le_def u16_from_be_bytes_def u32_from_be_bytes_def
      read_framed_def ensure_count_framing_def read_record_def read_binary_settings_observations_def
      ensure_binary_settings_observation_count_def ensure_settings_observation_count_def version_is_supported_def
      PEVCAP_VERSION_MAJOR_def PEVCAP_VERSION_MINOR_def sample_bytes_def PEVCAP_MAGIC_def sample_codec_def Let_def
      header_roundtrip record_roundtrip constructed_records_ok sample_ok [unfolded sample_capture_def capture_new_def, simplified]
      sample_capture_def capture_new_def version_current_def)


theorem pevcap_container_exact_witness:
  "(\<exists>section. from_binary sample_codec (take 17 sample_bytes) = Inl (Truncated section))
   \<and> from_binary sample_codec (sample_bytes @ [1, 2]) = Inl (TrailingBytes 2)"
proof -
  have "17 < length sample_bytes"
    by (simp add: sample_bytes_def)
  then show ?thesis
    using pevcap_container_exact [OF sample_read] by (auto dest!: spec [of _ "[1, 2]"])
qed

end
