(* ===== verification/Pevcap_Stream.thy ===== *)
theory Pevcap_Stream
  imports Pevcap_Binary
begin

text \<open>
  The streaming reader of a binary capture (\<open>PevcapReader\<close> of \<open>cutout-core/src/pevcap.rs\<close>).  The
  reader keeps the unread bytes, the numbers of items still to come and which section counts it
  has read.  The source of the bytes is a list: a read that needs more bytes than are left takes
  them all and reports the truncation; other failures of the source are not part of the model.
\<close>

section \<open>Reading from the source\<close>

definition PEVCAP_MAX_STREAM_PAYLOAD_BYTES :: nat where
  "PEVCAP_MAX_STREAM_PAYLOAD_BYTES = 1024 * 1024"

type_synonym ('e, 'a) source_read = "u8 list \<Rightarrow> ('e PevcapBinaryError + 'a) \<times> u8 list"

definition read_stream_exact :: "nat \<Rightarrow> PevcapBinarySection \<Rightarrow> ('e, u8 list) source_read" where
  "read_stream_exact n section source =
     (if length source < n then (Inl (Truncated section), []) else (Inr (take n source), drop n source))"

definition read_stream_u16 :: "PevcapBinarySection \<Rightarrow> ('e, u16) source_read" where
  "read_stream_u16 section source =
     map_prod (map_sum (\<lambda>e. e) u16_of_le) (\<lambda>rest. rest) (read_stream_exact 2 section source)"

definition read_stream_u32 :: "PevcapBinarySection \<Rightarrow> ('e, u32) source_read" where
  "read_stream_u32 section source =
     map_prod (map_sum (\<lambda>e. e) u32_of_le) (\<lambda>rest. rest) (read_stream_exact 4 section source)"

definition read_stream_len_prefixed :: "PevcapBinarySection \<Rightarrow> ('e, u8 list) source_read" where
  "read_stream_len_prefixed section source =
     (case read_stream_u32 section source of
        (Inl e, rest) \<Rightarrow> (Inl e, rest)
      | (Inr n, rest) \<Rightarrow>
          if PEVCAP_MAX_STREAM_PAYLOAD_BYTES < unat n
          then (Inl (PayloadTooLarge section (unat n) PEVCAP_MAX_STREAM_PAYLOAD_BYTES), rest)
          else read_stream_exact (unat n) section rest)"

section \<open>The reader\<close>

datatype 't PevcapEvent =
    EventRecord "'t PevcapRecord" | EventSettingsObservation CaptureSettingsObservation
  | EventLocation PevcapLocationSample | EventLocationRejected PevcapLocationRejection

record BinaryReader =
  br_source :: "u8 list"
  remaining_records :: u32
  remaining_locations :: u32
  locations_count_read :: bool
  remaining_settings :: u32
  settings_count_read :: bool
  br_header :: PevcapHeader
  br_finished :: bool

definition new_binary :: "('t, 'e) PevcapCodec \<Rightarrow> u8 list \<Rightarrow> 'e PevcapBinaryError + BinaryReader" where
  "new_binary codec source =
     (case read_stream_exact (length PEVCAP_MAGIC) SecMagic source of
        (Inl e, _) \<Rightarrow> Inl e
      | (Inr magic, s1) \<Rightarrow>
     if magic \<noteq> PEVCAP_MAGIC then Inl InvalidMagic else
     (case read_stream_u16 SecVersion s1 of (Inl e, _) \<Rightarrow> Inl e
      | (Inr ma, s2) \<Rightarrow>
     (case read_stream_u16 SecVersion s2 of (Inl e, _) \<Rightarrow> Inl e
      | (Inr mi, s3) \<Rightarrow>
     let v = \<lparr>major = ma, minor = mi\<rparr> in
     if \<not> version_is_supported v then Inl (UnsupportedVersion v) else
     (case read_stream_len_prefixed SecHeader s3 of (Inl e, _) \<Rightarrow> Inl e
      | (Inr payload, s4) \<Rightarrow>
     and_then (map_err (BinDeserialize SecHeader) (header_from_slice codec payload)) (\<lambda>j.
     and_then (map_err BinHeader (try_into_header j)) (\<lambda>h.
     (case read_stream_u32 SecRecordCount s4 of (Inl e, _) \<Rightarrow> Inl e
      | (Inr n, s5) \<Rightarrow>
        Inr \<lparr>br_source = s5, remaining_records = n, remaining_locations = 0, locations_count_read = False,
          remaining_settings = 0, settings_count_read = False, br_header = h, br_finished = False\<rparr>)))))))"

definition location_event :: "PevcapLocationJson \<Rightarrow> 't PevcapEvent" where
  "location_event j =
     (let observation = into_raw_observation j
      in case location_canonical (sample_location observation) of
           Inr _ \<Rightarrow> EventLocation observation
         | Inl reason \<Rightarrow> EventLocationRejected \<lparr>rejected_observation = observation, rejected_reason = reason\<rparr>)"

type_synonym ('t, 'e) event_result = "('e PevcapBinaryError + 't PevcapEvent option) \<times> BinaryReader"

definition next_record_event :: "('t, 'e) PevcapCodec \<Rightarrow> BinaryReader \<Rightarrow> ('t, 'e) event_result" where
  "next_record_event codec s =
     (case read_stream_len_prefixed SecRecord (br_source s) of
        (Inl e, rest) \<Rightarrow> (Inl e, s\<lparr>br_source := rest\<rparr>)
      | (Inr payload, rest) \<Rightarrow>
          (and_then (map_err (BinDeserialize SecRecord) (record_from_slice codec payload)) (\<lambda>j.
           and_then (map_err BinRecord (try_into_record j)) (\<lambda>r. Inr (Some (EventRecord r)))),
           s\<lparr>br_source := rest, remaining_records := remaining_records s - 1\<rparr>))"

definition next_location_event :: "('t, 'e) PevcapCodec \<Rightarrow> BinaryReader \<Rightarrow> ('t, 'e) event_result" where
  "next_location_event codec s =
     (case read_stream_len_prefixed SecLocation (br_source s) of
        (Inl e, rest) \<Rightarrow> (Inl e, s\<lparr>br_source := rest\<rparr>)
      | (Inr payload, rest) \<Rightarrow>
          (and_then (map_err (BinDeserialize SecLocation) (location_from_slice codec payload)) (\<lambda>j.
           Inr (Some (location_event j))),
           s\<lparr>br_source := rest, remaining_locations := remaining_locations s - 1\<rparr>))"

definition next_settings_event :: "('t, 'e) PevcapCodec \<Rightarrow> BinaryReader \<Rightarrow> ('t, 'e) event_result" where
  "next_settings_event codec s =
     (case read_stream_len_prefixed SecSettingsObservation (br_source s) of
        (Inl e, rest) \<Rightarrow> (Inl e, s\<lparr>br_source := rest\<rparr>)
      | (Inr payload, rest) \<Rightarrow>
          (and_then (map_err (BinDeserialize SecSettingsObservation) (observation_from_slice codec payload)) (\<lambda>obs.
           and_then (map_err BinSettingsObservation (check (observation_validate (uuid_text codec) obs))) (\<lambda>_.
           Inr (Some (EventSettingsObservation obs)))),
           s\<lparr>br_source := rest, remaining_settings := remaining_settings s - 1\<rparr>))"

definition next_end :: "BinaryReader \<Rightarrow> ('t, 'e) event_result" where
  "next_end s =
     (if br_finished s then (Inr None, s)
      else (if br_source s = [] then Inr None else Inl (TrailingBytes (length (br_source s))),
            s\<lparr>br_finished := True, br_source := []\<rparr>))"

definition read_location_count :: "BinaryReader \<Rightarrow> ('e PevcapBinaryError + unit) \<times> BinaryReader" where
  "read_location_count s =
     (if locations_count_read s then (Inr (), s)
      else case read_stream_u32 SecLocationCount (br_source s) of
          (Inl e, rest) \<Rightarrow> (Inl e, s\<lparr>br_source := rest\<rparr>)
        | (Inr n, rest) \<Rightarrow> (Inr (), s\<lparr>br_source := rest, remaining_locations := n, locations_count_read := True\<rparr>))"

definition read_settings_count :: "BinaryReader \<Rightarrow> ('e PevcapBinaryError + unit) \<times> BinaryReader" where
  "read_settings_count s =
     (if settings_count_read s then (Inr (), s)
      else case read_stream_u32 SecSettingsObservationCount (br_source s) of
          (Inl e, rest) \<Rightarrow> (Inl e, s\<lparr>br_source := rest\<rparr>)
        | (Inr n, rest) \<Rightarrow>
            (case ensure_binary_settings_observation_count n of
               Inl e \<Rightarrow> (Inl e, s\<lparr>br_source := rest, remaining_settings := n\<rparr>)
             | Inr _ \<Rightarrow> (Inr (), s\<lparr>br_source := rest, remaining_settings := n, settings_count_read := True\<rparr>)))"

definition next_after_locations :: "('t, 'e) PevcapCodec \<Rightarrow> BinaryReader \<Rightarrow> ('t, 'e) event_result" where
  "next_after_locations codec s =
     (case read_settings_count s of
        (Inl e, s') \<Rightarrow> (Inl e, s')
      | (Inr _, s') \<Rightarrow> if 0 < remaining_settings s' then next_settings_event codec s' else next_end s')"

definition next_after_records :: "('t, 'e) PevcapCodec \<Rightarrow> BinaryReader \<Rightarrow> ('t, 'e) event_result" where
  "next_after_records codec s =
     (case read_location_count s of
        (Inl e, s') \<Rightarrow> (Inl e, s')
      | (Inr _, s') \<Rightarrow> if 0 < remaining_locations s' then next_location_event codec s' else next_after_locations codec s')"

definition next_binary_event :: "('t, 'e) PevcapCodec \<Rightarrow> BinaryReader \<Rightarrow> ('t, 'e) event_result" where
  "next_binary_event codec s =
     (if 0 < remaining_records s then next_record_event codec s else next_after_records codec s)"

section \<open>One step against the whole reading\<close>

text \<open>What is left of the container when the reader has reached a state, read whole.\<close>

definition rest_settings :: "('t, 'e) PevcapCodec \<Rightarrow> nat \<Rightarrow> u8 list \<Rightarrow> 'e PevcapBinaryError + 't PevcapEvent list" where
  "rest_settings codec n source =
     and_then (read_many (read_observation codec) n source) (\<lambda>(os, rest).
     if rest \<noteq> [] then Inl (TrailingBytes (length rest)) else Inr (map EventSettingsObservation os))"

definition rest_after_locations :: "('t, 'e) PevcapCodec \<Rightarrow> BinaryReader \<Rightarrow> u8 list
    \<Rightarrow> 'e PevcapBinaryError + 't PevcapEvent list" where
  "rest_after_locations codec s source =
     (if settings_count_read s then rest_settings codec (unat (remaining_settings s)) source
      else and_then (read_u32_le SecSettingsObservationCount source) (\<lambda>(n, rest).
        and_then (ensure_binary_settings_observation_count n) (\<lambda>_. rest_settings codec (unat n) rest)))"

text \<open>The event of a location depends only on the observation it carries.\<close>

definition sample_event :: "PevcapLocationSample \<Rightarrow> 't PevcapEvent" where
  "sample_event l =
     (case location_canonical (sample_location l) of
        Inr _ \<Rightarrow> EventLocation l
      | Inl reason \<Rightarrow> EventLocationRejected \<lparr>rejected_observation = l, rejected_reason = reason\<rparr>)"

lemma location_event_sample: "location_event j = sample_event (into_raw_observation j)"
  by (simp add: location_event_def sample_event_def Let_def)

definition rest_locations :: "('t, 'e) PevcapCodec \<Rightarrow> BinaryReader \<Rightarrow> nat \<Rightarrow> u8 list
    \<Rightarrow> 'e PevcapBinaryError + 't PevcapEvent list" where
  "rest_locations codec s n source =
     and_then (read_many (read_location codec) n source) (\<lambda>(ls, rest).
     map_sum (\<lambda>e. e) (\<lambda>evs. map sample_event ls @ evs) (rest_after_locations codec s rest))"

definition rest_after_records :: "('t, 'e) PevcapCodec \<Rightarrow> BinaryReader \<Rightarrow> u8 list
    \<Rightarrow> 'e PevcapBinaryError + 't PevcapEvent list" where
  "rest_after_records codec s source =
     (if locations_count_read s then rest_locations codec s (unat (remaining_locations s)) source
      else and_then (read_u32_le SecLocationCount source) (\<lambda>(n, rest). rest_locations codec s (unat n) rest))"

definition rest_events :: "('t, 'e) PevcapCodec \<Rightarrow> BinaryReader \<Rightarrow> 'e PevcapBinaryError + 't PevcapEvent list" where
  "rest_events codec s =
     (if br_finished s then Inr []
      else and_then (read_many (read_record codec) (unat (remaining_records s)) (br_source s)) (\<lambda>(rs, rest).
        map_sum (\<lambda>e. e) (\<lambda>evs. map EventRecord rs @ evs) (rest_after_records codec s rest)))"

definition too_large :: "'e PevcapBinaryError \<Rightarrow> bool" where
  "too_large e \<longleftrightarrow> (\<exists>section n. e = PayloadTooLarge section n PEVCAP_MAX_STREAM_PAYLOAD_BYTES)"

definition refused :: "'e PevcapBinaryError + 'a \<Rightarrow> bool" where
  "refused r \<longleftrightarrow> (\<exists>e. r = Inl e)"

lemma refused_simps [simp]: "refused (Inl e)" "\<not> refused (Inr x)" "refused (and_then (Inl e) f)"
  by (simp_all add: refused_def)

lemma refused_and_then: "refused r \<Longrightarrow> refused (and_then r f)"
  by (cases r) simp_all

lemma refused_map_sum [simp]: "refused (map_sum (\<lambda>e. e) f r) = refused r"
  by (cases r) simp_all

lemma refused_map_err [simp]: "refused (map_err f r) \<longleftrightarrow> (\<exists>e. r = Inl e)"
  by (cases r) simp_all

lemma read_stream_u32_eq:
  "read_stream_u32 section source =
     (case read_u32_le section source of Inl e \<Rightarrow> (Inl e, []) | Inr (n, rest) \<Rightarrow> (Inr n, rest))"
  by (simp add: read_stream_u32_def read_u32_le_def read_stream_exact_def read_exact_def)

lemma read_stream_u16_eq:
  "read_stream_u16 section source =
     (case read_u16_le section source of Inl e \<Rightarrow> (Inl e, []) | Inr (n, rest) \<Rightarrow> (Inr n, rest))"
  by (simp add: read_stream_u16_def read_u16_le_def read_stream_exact_def read_exact_def)

lemma stream_len_Inr:
  "read_stream_len_prefixed section source = (Inr p :: 'e PevcapBinaryError + u8 list, rest)
     \<Longrightarrow> read_len_prefixed section source = (Inr (p, rest) :: 'e PevcapBinaryError + (u8 list \<times> u8 list))"
  by (auto simp: read_stream_len_prefixed_def read_stream_u32_eq read_len_prefixed_def read_stream_exact_def read_exact_def
      split: sum.splits if_splits)

lemma stream_len_Inl:
  "read_stream_len_prefixed section source = (Inl e, rest)
     \<Longrightarrow> refused (read_len_prefixed section source :: 'e PevcapBinaryError + (u8 list \<times> u8 list)) \<or> too_large e"
  for e :: "'e PevcapBinaryError"
  by (auto simp: read_stream_len_prefixed_def read_stream_u32_eq read_len_prefixed_def read_stream_exact_def read_exact_def
      too_large_def split: sum.splits if_splits)

text \<open>An item of the stream is the item of the container, unless its payload is too large.\<close>

lemma next_record_event_cases:
  fixes codec :: "('t, 'e) PevcapCodec"
  assumes "next_record_event codec s = (res, s')"
  shows "(\<exists>r rest. read_record codec (br_source s) = Inr (r, rest) \<and> res = Inr (Some (EventRecord r))
      \<and> s' = s\<lparr>br_source := rest, remaining_records := remaining_records s - 1\<rparr>)
    \<or> (\<exists>e. res = Inl e \<and> (refused (read_record codec (br_source s)) \<or> too_large e))"
proof (cases "read_stream_len_prefixed SecRecord (br_source s) :: ('e PevcapBinaryError + u8 list) \<times> u8 list")
  case (Pair r rest)
  show ?thesis
  proof (cases r)
    case (Inl e)
    then show ?thesis
      using assms stream_len_Inl [OF Pair [unfolded Inl]]
      by (auto intro: refused_and_then simp: next_record_event_def Pair read_record_def)
  next
    case (Inr p)
    then show ?thesis
      using assms stream_len_Inr [OF Pair [unfolded Inr]]
      by (auto simp: next_record_event_def Pair read_record_def and_then_def refused_def split: sum.splits)
  qed
qed

lemma next_location_event_cases:
  fixes codec :: "('t, 'e) PevcapCodec"
  assumes "next_location_event codec s = (res, s')"
  shows "(\<exists>l rest. read_location codec (br_source s) = Inr (l, rest) \<and> res = Inr (Some (sample_event l))
      \<and> s' = s\<lparr>br_source := rest, remaining_locations := remaining_locations s - 1\<rparr>)
    \<or> (\<exists>e. res = Inl e \<and> (refused (read_location codec (br_source s)) \<or> too_large e))"
proof (cases "read_stream_len_prefixed SecLocation (br_source s) :: ('e PevcapBinaryError + u8 list) \<times> u8 list")
  case (Pair r rest)
  show ?thesis
  proof (cases r)
    case (Inl e)
    then show ?thesis
      using assms stream_len_Inl [OF Pair [unfolded Inl]]
      by (auto intro: refused_and_then simp: next_location_event_def Pair read_location_def)
  next
    case (Inr p)
    then show ?thesis
      using assms stream_len_Inr [OF Pair [unfolded Inr]]
      by (auto simp: next_location_event_def Pair read_location_def and_then_def refused_def location_event_sample
          split: sum.splits)
  qed
qed

lemma next_settings_event_cases:
  fixes codec :: "('t, 'e) PevcapCodec"
  assumes "next_settings_event codec s = (res, s')"
  shows "(\<exists>obs rest. read_observation codec (br_source s) = Inr (obs, rest) \<and> res = Inr (Some (EventSettingsObservation obs))
      \<and> s' = s\<lparr>br_source := rest, remaining_settings := remaining_settings s - 1\<rparr>)
    \<or> (\<exists>e. res = Inl e \<and> (refused (read_observation codec (br_source s)) \<or> too_large e))"
proof (cases "read_stream_len_prefixed SecSettingsObservation (br_source s) :: ('e PevcapBinaryError + u8 list) \<times> u8 list")
  case (Pair r rest)
  show ?thesis
  proof (cases r)
    case (Inl e)
    then show ?thesis
      using assms stream_len_Inl [OF Pair [unfolded Inl]]
      by (auto intro: refused_and_then simp: next_settings_event_def Pair read_observation_def)
  next
    case (Inr p)
    then show ?thesis
      using assms stream_len_Inr [OF Pair [unfolded Inr]]
      by (auto simp: next_settings_event_def Pair read_observation_def and_then_def refused_def split: sum.splits)
  qed
qed


definition reader_ok :: "BinaryReader \<Rightarrow> bool" where
  "reader_ok s \<longleftrightarrow> (br_finished s \<longrightarrow> remaining_records s = 0 \<and> locations_count_read s \<and> remaining_locations s = 0
     \<and> settings_count_read s \<and> remaining_settings s = 0)"

text \<open>What one call of the reader means for the rest of the container.\<close>

definition step_ok :: "('t, 'e) PevcapCodec \<Rightarrow> BinaryReader \<Rightarrow> ('t, 'e) event_result \<Rightarrow> bool" where
  "step_ok codec s r \<longleftrightarrow> (case r of
      (Inr (Some e), s') \<Rightarrow> reader_ok s' \<and> length (br_source s') < length (br_source s)
        \<and> rest_events codec s = map_sum (\<lambda>e. e) (\<lambda>evs. e # evs) (rest_events codec s')
    | (Inr None, s') \<Rightarrow> rest_events codec s = Inr []
    | (Inl e, s') \<Rightarrow> refused (rest_events codec s) \<or> too_large e)"

lemma u32_positive: "0 < n \<Longrightarrow> unat n = Suc (unat (n - 1))" for n :: u32
  by (metis gr0_conv_Suc unat_gt_0 unat_minus_one diff_Suc_1 word_not_simps(1))

lemma map_sum_and_then: "map_sum (\<lambda>e. e) g (and_then r f) = and_then r (\<lambda>x. map_sum (\<lambda>e. e) g (f x))"
  by (cases r) simp_all

lemma append_Cons_fun: "(@) (x # xs) = (\<lambda>ys. x # xs @ ys)"
  by (rule ext) simp

lemma and_then_assoc: "and_then (and_then r f) g = and_then r (\<lambda>x. and_then (f x) g)"
  by (cases r) simp_all

lemma map_sum_map_sum: "map_sum (\<lambda>e. e) g (map_sum (\<lambda>e. e) h r) = map_sum (\<lambda>e. e) (\<lambda>x. g (h x)) r"
  by (cases r) simp_all

lemma read_takes_four:
  "read_record codec input = Inr (x, rest) \<Longrightarrow> length rest < length input"
  "read_location codec input = Inr (y, rest) \<Longrightarrow> length rest < length input"
  "read_observation codec input = Inr (z, rest) \<Longrightarrow> length rest < length input"
  using items_take_four [of codec] by (fastforce simp: takes_four_def)+

text \<open>What is left after a section does not depend on how far that section was read.\<close>

lemma rest_after_locations_unread [simp]:
  "rest_after_locations codec (s\<lparr>br_source := src\<rparr>) = rest_after_locations codec s"
  "rest_after_locations codec (s\<lparr>remaining_records := n\<rparr>) = rest_after_locations codec s"
  "rest_after_locations codec (s\<lparr>remaining_locations := n\<rparr>) = rest_after_locations codec s"
  "rest_after_locations codec (s\<lparr>locations_count_read := b\<rparr>) = rest_after_locations codec s"
  by (simp_all add: fun_eq_iff rest_after_locations_def)

lemma rest_locations_unread [simp]:
  "rest_locations codec (s\<lparr>br_source := src\<rparr>) = rest_locations codec s"
  "rest_locations codec (s\<lparr>remaining_records := n\<rparr>) = rest_locations codec s"
  "rest_locations codec (s\<lparr>remaining_locations := n\<rparr>) = rest_locations codec s"
  "rest_locations codec (s\<lparr>locations_count_read := b\<rparr>) = rest_locations codec s"
  by (simp_all add: fun_eq_iff rest_locations_def)

lemma rest_after_records_unread [simp]:
  "rest_after_records codec (s\<lparr>br_source := src\<rparr>) = rest_after_records codec s"
  "rest_after_records codec (s\<lparr>remaining_records := n\<rparr>) = rest_after_records codec s"
  by (simp_all add: fun_eq_iff rest_after_records_def)

lemma record_step:
  assumes "reader_ok s" "0 < remaining_records s"
  shows "step_ok codec s (next_record_event codec s)"
proof -
  obtain res s' where r: "next_record_event codec s = (res, s')"
    by fastforce
  have going: "\<not> br_finished s"
    using assms by (auto simp: reader_ok_def)
  from next_record_event_cases [OF r] show ?thesis
  proof (elim disjE exE conjE)
    fix x rest
    assume read: "read_record codec (br_source s) = Inr (x, rest)" and res: "res = Inr (Some (EventRecord x))"
      and s': "s' = s\<lparr>br_source := rest, remaining_records := remaining_records s - 1\<rparr>"
    have "rest_events codec s = map_sum (\<lambda>e. e) (\<lambda>evs. EventRecord x # evs) (rest_events codec s')"
      using going read u32_positive [OF assms(2)]
      by (simp add: rest_events_def s' and_then_def case_prod_beta map_sum_map_sum append_Cons_fun split: sum.split)
    then show ?thesis
      using r res s' going read_takes_four(1) [OF read] by (simp add: step_ok_def reader_ok_def)
  next
    fix e
    assume "res = Inl e" "refused (read_record codec (br_source s))"
    then show ?thesis
      using r going u32_positive [OF assms(2)] by (auto simp: step_ok_def rest_events_def intro!: refused_and_then)
  next
    fix e
    assume "res = Inl e" "too_large e"
    then show ?thesis
      using r by (simp add: step_ok_def)
  qed
qed


text \<open>A reader past its records and locations.\<close>

lemma rest_events_settings:
  "\<not> br_finished s \<Longrightarrow> remaining_records s = 0 \<Longrightarrow> locations_count_read s \<Longrightarrow> remaining_locations s = 0
     \<Longrightarrow> rest_events codec s = rest_after_locations codec s (br_source s)"
  by (cases "rest_after_locations codec s (br_source s)")
    (simp_all add: rest_events_def rest_after_records_def rest_locations_def)

lemma rest_events_locations:
  "\<not> br_finished s \<Longrightarrow> remaining_records s = 0 \<Longrightarrow> rest_events codec s = rest_after_records codec s (br_source s)"
  by (cases "rest_after_records codec s (br_source s)") (simp_all add: rest_events_def)

lemma end_step:
  assumes "reader_ok s" "remaining_records s = 0" "locations_count_read s" "remaining_locations s = 0"
    "settings_count_read s" "remaining_settings s = 0"
  shows "step_ok codec s (next_end s)"
proof (cases "br_finished s")
  case False
  then show ?thesis
    using assms rest_events_settings [OF False assms(2-4), of codec]
    by (simp add: next_end_def step_ok_def rest_after_locations_def rest_settings_def)
qed (simp add: next_end_def step_ok_def rest_events_def)

lemma settings_step:
  assumes "\<not> br_finished s" "remaining_records s = 0" "locations_count_read s" "remaining_locations s = 0"
    "settings_count_read s" "0 < remaining_settings s"
  shows "step_ok codec s (next_settings_event codec s)"
proof -
  obtain res s' where r: "next_settings_event codec s = (res, s')"
    by fastforce
  have rest: "rest_events codec s = rest_settings codec (Suc (unat (remaining_settings s - 1))) (br_source s)"
    using rest_events_settings [OF assms(1-4), of codec] assms(5) u32_positive [OF assms(6)]
    by (simp add: rest_after_locations_def)
  from next_settings_event_cases [OF r] show ?thesis
  proof (elim disjE exE conjE)
    fix x tl'
    assume read: "read_observation codec (br_source s) = Inr (x, tl')" and res: "res = Inr (Some (EventSettingsObservation x))"
      and s': "s' = s\<lparr>br_source := tl', remaining_settings := remaining_settings s - 1\<rparr>"
    have "rest_events codec s' = rest_settings codec (unat (remaining_settings s - 1)) tl'"
      using rest_events_settings [of s' codec] assms s' by (simp add: rest_after_locations_def)
    then have "rest_events codec s = map_sum (\<lambda>e. e) (\<lambda>evs. EventSettingsObservation x # evs) (rest_events codec s')"
      unfolding rest by (simp add: rest_settings_def read and_then_def case_prod_beta split: sum.split)
    then show ?thesis
      using r res s' assms(1) read_takes_four(3) [OF read] by (simp add: step_ok_def reader_ok_def)
  next
    fix e
    assume "res = Inl e" "refused (read_observation codec (br_source s))"
    then show ?thesis
      using r rest by (auto simp: step_ok_def rest_settings_def intro!: refused_and_then)
  next
    fix e
    assume "res = Inl e" "too_large e"
    then show ?thesis
      using r by (simp add: step_ok_def)
  qed
qed


lemma location_step:
  assumes "\<not> br_finished s" "remaining_records s = 0" "locations_count_read s" "0 < remaining_locations s"
  shows "step_ok codec s (next_location_event codec s)"
proof -
  obtain res s' where r: "next_location_event codec s = (res, s')"
    by fastforce
  have rest: "rest_events codec s = rest_locations codec s (Suc (unat (remaining_locations s - 1))) (br_source s)"
    using rest_events_locations [OF assms(1,2), of codec] assms(3) u32_positive [OF assms(4)]
    by (simp add: rest_after_records_def)
  from next_location_event_cases [OF r] show ?thesis
  proof (elim disjE exE conjE)
    fix x tl'
    assume read: "read_location codec (br_source s) = Inr (x, tl')" and res: "res = Inr (Some (sample_event x))"
      and s': "s' = s\<lparr>br_source := tl', remaining_locations := remaining_locations s - 1\<rparr>"
    have "rest_events codec s' = rest_locations codec s (unat (remaining_locations s - 1)) tl'"
      using rest_events_locations [of s' codec] assms s' by (simp add: rest_after_records_def)
    then have "rest_events codec s = map_sum (\<lambda>e. e) (\<lambda>evs. sample_event x # evs) (rest_events codec s')"
      unfolding rest
      by (simp add: rest_locations_def read and_then_def case_prod_beta map_sum_map_sum append_Cons_fun split: sum.split)
    then show ?thesis
      using r res s' assms(1) read_takes_four(2) [OF read] by (simp add: step_ok_def reader_ok_def)
  next
    fix e
    assume "res = Inl e" "refused (read_location codec (br_source s))"
    then show ?thesis
      using r rest by (auto simp: step_ok_def rest_locations_def intro!: refused_and_then)
  next
    fix e
    assume "res = Inl e" "too_large e"
    then show ?thesis
      using r by (simp add: step_ok_def)
  qed
qed

text \<open>Reading a section count moves to a reader with the same rest.\<close>

lemma step_ok_same_rest:
  assumes "step_ok codec s' r" "rest_events codec s = rest_events codec s'" "length (br_source s') \<le> length (br_source s)"
  shows "step_ok codec s r"
  using assms by (auto simp: step_ok_def split: prod.splits sum.splits option.splits)

lemma read_u32_shorter: "read_u32_le section source = Inr (n, rest) \<Longrightarrow> length rest \<le> length source"
  by (auto simp: read_u32_le_def read_exact_def map_sum_Inr_iff split: if_splits)

lemma after_locations_step:
  assumes ok: "reader_ok s" and s: "remaining_records s = 0" "locations_count_read s" "remaining_locations s = 0"
  shows "step_ok codec s (next_after_locations codec s)"
proof (cases "settings_count_read s")
  case True
  then show ?thesis
    using end_step [OF ok s, of codec] settings_step [OF _ s, of codec] ok
    by (auto simp: next_after_locations_def read_settings_count_def reader_ok_def word_gt_0)
next
  case False
  then have going: "\<not> br_finished s"
    using ok by (auto simp: reader_ok_def)
  note rest = rest_events_settings [OF going s, of codec]
  show ?thesis
  proof (cases "read_u32_le SecSettingsObservationCount (br_source s) :: 'b PevcapBinaryError + (u32 \<times> u8 list)")
    case (Inl e)
    then show ?thesis
      using rest False
      by (simp add: next_after_locations_def read_settings_count_def read_stream_u32_eq step_ok_def rest_after_locations_def)
  next
    case (Inr p)
    obtain n tl' where p: "p = (n, tl')"
      by fastforce
    show ?thesis
    proof (cases "ensure_binary_settings_observation_count n :: 'b PevcapBinaryError + unit")
      case (Inl e)
      then show ?thesis
        using rest False Inr
        by (simp add: next_after_locations_def read_settings_count_def read_stream_u32_eq step_ok_def rest_after_locations_def p)
    next
      case count: (Inr u)
      let ?s = "s\<lparr>br_source := tl', remaining_settings := n, settings_count_read := True\<rparr>"
      have "rest_events codec s = rest_events codec ?s"
        using rest rest_events_settings [of ?s codec] going s False Inr count
        by (simp add: rest_after_locations_def p)
      moreover have "step_ok codec ?s (if 0 < n then next_settings_event codec ?s else next_end ?s)"
        using end_step [of ?s codec] settings_step [of ?s codec] going s by (simp add: reader_ok_def word_gt_0)
      ultimately show ?thesis
        using step_ok_same_rest [of codec ?s _ s] read_u32_shorter [OF Inr [unfolded p]] False Inr count
        by (simp add: next_after_locations_def read_settings_count_def read_stream_u32_eq p)
    qed
  qed
qed


lemma after_records_step:
  assumes ok: "reader_ok s" and s: "remaining_records s = 0"
  shows "step_ok codec s (next_after_records codec s)"
proof (cases "locations_count_read s")
  case True
  then show ?thesis
    using after_locations_step [OF ok s, of codec] location_step [OF _ s, of codec] ok
    by (auto simp: next_after_records_def read_location_count_def reader_ok_def word_gt_0)
next
  case False
  then have going: "\<not> br_finished s"
    using ok by (auto simp: reader_ok_def)
  note rest = rest_events_locations [OF going s, of codec]
  show ?thesis
  proof (cases "read_u32_le SecLocationCount (br_source s) :: 'b PevcapBinaryError + (u32 \<times> u8 list)")
    case (Inl e)
    then show ?thesis
      using rest False
      by (simp add: next_after_records_def read_location_count_def read_stream_u32_eq step_ok_def rest_after_records_def)
  next
    case (Inr p)
    obtain n tl' where p: "p = (n, tl')"
      by fastforce
    let ?s = "s\<lparr>br_source := tl', remaining_locations := n, locations_count_read := True\<rparr>"
    have "rest_events codec s = rest_events codec ?s"
      using rest rest_events_locations [of ?s codec] going s False Inr by (simp add: rest_after_records_def p)
    moreover have "step_ok codec ?s (if 0 < n then next_location_event codec ?s else next_after_locations codec ?s)"
      using after_locations_step [of ?s codec] location_step [of ?s codec] going s by (simp add: reader_ok_def word_gt_0)
    ultimately show ?thesis
      using step_ok_same_rest [of codec ?s _ s] read_u32_shorter [OF Inr [unfolded p]] False Inr
      by (simp add: next_after_records_def read_location_count_def read_stream_u32_eq p)
  qed
qed

lemma next_step: "reader_ok s \<Longrightarrow> step_ok codec s (next_binary_event codec s)"
  by (simp add: next_binary_event_def record_step after_records_step word_gt_0)

lemma event_shorter:
  "next_record_event codec s = (Inr (Some e), s') \<Longrightarrow> length (br_source s') < length (br_source s)"
  "next_location_event codec s = (Inr (Some e), s') \<Longrightarrow> length (br_source s') < length (br_source s)"
  "next_settings_event codec s = (Inr (Some e), s') \<Longrightarrow> length (br_source s') < length (br_source s)"
  using next_record_event_cases [of codec s] next_location_event_cases [of codec s] next_settings_event_cases [of codec s]
    read_takes_four [of codec "br_source s"]
  by fastforce+

lemma count_shorter:
  "read_location_count s = (Inr u, s') \<Longrightarrow> length (br_source s') \<le> length (br_source s)"
  "read_settings_count s = (Inr u, s') \<Longrightarrow> length (br_source s') \<le> length (br_source s)"
  using read_u32_shorter
  by (fastforce simp: read_location_count_def read_settings_count_def read_stream_u32_eq split: if_splits sum.splits)+

lemma next_end_not_Some: "next_end s \<noteq> (Inr (Some e), s')"
  by (simp add: next_end_def)

lemma next_shorter:
  assumes "next_binary_event codec s = (Inr (Some e), s')"
  shows "length (br_source s') < length (br_source s)"
proof -
  have settings: "length (br_source s2) < length (br_source s1)"
    if "next_after_locations codec s1 = (Inr (Some e), s2)" for s1 s2
    using that event_shorter(3) count_shorter(2) next_end_not_Some
    by (fastforce simp: next_after_locations_def split: prod.splits sum.splits if_splits)
  have "length (br_source s2) < length (br_source s1)" if "next_after_records codec s1 = (Inr (Some e), s2)" for s1 s2
    using that event_shorter(2) count_shorter(1) settings
    by (fastforce simp: next_after_records_def split: prod.splits sum.splits if_splits)
  then show ?thesis
    using assms event_shorter(1) by (fastforce simp: next_binary_event_def split: if_splits)
qed

section \<open>Streaming a whole capture\<close>

text \<open>Calling the reader until it reports the end or an error.\<close>

function stream_events :: "('t, 'e) PevcapCodec \<Rightarrow> BinaryReader \<Rightarrow> 'e PevcapBinaryError + 't PevcapEvent list" where
  "stream_events codec s =
     (case next_binary_event codec s of
        (Inl e, _) \<Rightarrow> Inl e
      | (Inr None, _) \<Rightarrow> Inr []
      | (Inr (Some e), s') \<Rightarrow> map_sum (\<lambda>e. e) (\<lambda>evs. e # evs) (stream_events codec s'))"
  by pat_completeness auto
termination
proof (relation "measure (\<lambda>(codec, s). length (br_source s))")
  fix codec :: "('t, 'e) PevcapCodec" and s x y b e
  assume "(x, y) = next_binary_event codec s" "x = Inr b" "b = Some e"
  then show "((codec, y), codec, s) \<in> measure (\<lambda>(codec, s). length (br_source s))"
    using next_shorter [of codec s e y] by simp
qed simp

declare stream_events.simps [simp del]

definition stream_capture :: "('t, 'e) PevcapCodec \<Rightarrow> u8 list \<Rightarrow> 'e PevcapBinaryError + (PevcapHeader \<times> 't PevcapEvent list)" where
  "stream_capture codec source =
     and_then (new_binary codec source) (\<lambda>s. map_sum (\<lambda>e. e) (\<lambda>evs. (br_header s, evs)) (stream_events codec s))"

text \<open>The events a capture stands for: its records, then its locations, then its settings entries.\<close>

definition capture_events :: "'t PevcapCapture \<Rightarrow> 't PevcapEvent list" where
  "capture_events c = map EventRecord (cap_records c) @ map sample_event (cap_locations c)
     @ map EventSettingsObservation (cap_settings_observations c)"

lemma stream_events_rest:
  "reader_ok s \<Longrightarrow> (case stream_events codec s of Inr evs \<Rightarrow> rest_events codec s = Inr evs
     | Inl e \<Rightarrow> refused (rest_events codec s) \<or> too_large e)"
proof (induction codec s rule: stream_events.induct)
  case (1 codec s)
  obtain res s' where n: "next_binary_event codec s = (res, s')"
    by fastforce
  note ok = next_step [OF 1(2), of codec, unfolded step_ok_def n]
  show ?case
  proof (cases res)
    case (Inl e)
    then show ?thesis
      using ok by (simp add: stream_events.simps [of codec s] n)
  next
    case (Inr ev)
    show ?thesis
    proof (cases ev)
      case None
      then show ?thesis
        using ok Inr by (simp add: stream_events.simps [of codec s] n)
    next
      case (Some e)
      then show ?thesis
        using ok Inr 1(1) [OF n [symmetric] Inr Some]
        by (cases "stream_events codec s'") (simp_all add: stream_events.simps [of codec s] n)
    qed
  qed
qed


text \<open>The part of a container the reader takes when it is opened.\<close>

definition read_preamble :: "('t, 'e) PevcapCodec \<Rightarrow> ('e, PevcapFormatVersion \<times> PevcapHeader \<times> u32) reader" where
  "read_preamble codec input =
     and_then (read_magic input) (\<lambda>(_, i1).
     and_then (read_version i1) (\<lambda>(v, i2).
     and_then (read_header codec i2) (\<lambda>(h, i3).
     and_then (read_u32_le SecRecordCount i3) (\<lambda>(n, i4). Inr ((v, h, n), i4)))))"

definition opened :: "PevcapHeader \<Rightarrow> u32 \<Rightarrow> u8 list \<Rightarrow> BinaryReader" where
  "opened h n source = \<lparr>br_source = source, remaining_records = n, remaining_locations = 0, locations_count_read = False,
     remaining_settings = 0, settings_count_read = False, br_header = h, br_finished = False\<rparr>"

lemma opened_ok [simp]: "reader_ok (opened h n source)" "br_header (opened h n source) = h"
  by (simp_all add: opened_def reader_ok_def)

lemma read_stream_exact_eq:
  "read_stream_exact n section source =
     (case read_exact n section source of Inl e \<Rightarrow> (Inl e, []) | Inr (b, rest) \<Rightarrow> (Inr b, rest))"
  by (simp add: read_stream_exact_def read_exact_def)

lemma header_stream:
  fixes codec :: "('t, 'e) PevcapCodec"
  assumes "read_stream_len_prefixed SecHeader s3 = (r :: 'e PevcapBinaryError + u8 list, s4)"
  shows "(case r of
      Inl e \<Rightarrow> refused (read_header codec s3) \<or> too_large e
    | Inr p \<Rightarrow> read_header codec s3 = and_then (map_err (BinDeserialize SecHeader) (header_from_slice codec p)) (\<lambda>j.
        and_then (map_err BinHeader (try_into_header j)) (\<lambda>h. Inr (h, s4))))"
proof (cases r)
  case (Inl e)
  then show ?thesis
    using stream_len_Inl [OF assms [unfolded Inl]] by (auto simp: read_header_def intro: refused_and_then)
next
  case (Inr p)
  then show ?thesis
    using stream_len_Inr [OF assms [unfolded Inr]] by (simp add: read_header_def)
qed

text \<open>Before the header the two ways of reading agree.\<close>

lemma new_binary_eq:
  "new_binary codec source =
     and_then (read_magic source) (\<lambda>(_, i1).
     and_then (read_version i1) (\<lambda>(v, i2).
     case read_stream_len_prefixed SecHeader i2 of (Inl e, _) \<Rightarrow> Inl e
      | (Inr payload, i3) \<Rightarrow>
     and_then (map_err (BinDeserialize SecHeader) (header_from_slice codec payload)) (\<lambda>j.
     and_then (map_err BinHeader (try_into_header j)) (\<lambda>h.
     and_then (read_u32_le SecRecordCount i3) (\<lambda>(n, i4). Inr (opened h n i4))))))"
  by (auto simp: new_binary_def read_magic_def read_version_def read_stream_exact_eq read_stream_u16_eq read_stream_u32_eq
      opened_def and_then_def Let_def split: sum.split prod.split if_split)

lemma new_binary_preamble:
  fixes codec :: "('t, 'e) PevcapCodec"
  shows "(case new_binary codec source of
      Inl e \<Rightarrow> refused (read_preamble codec source) \<or> too_large e
    | Inr s \<Rightarrow> \<exists>v h n rest. read_preamble codec source = Inr ((v, h, n), rest) \<and> s = opened h n rest)"
proof (cases "read_magic source :: 'e PevcapBinaryError + (unit \<times> u8 list)")
  case magic: (Inr m)
  show ?thesis
  proof (cases "read_version (snd m) :: 'e PevcapBinaryError + (PevcapFormatVersion \<times> u8 list)")
    case version: (Inr v)
    obtain r rest where hd: "read_stream_len_prefixed SecHeader (snd v) = (r :: 'e PevcapBinaryError + u8 list, rest)"
      by fastforce
    note h = header_stream [OF hd, of codec]
    show ?thesis
    proof (cases r)
      case (Inl e)
      then show ?thesis
        using h magic version hd refused_and_then
        by (auto simp: new_binary_eq read_preamble_def case_prod_beta)
    next
      case (Inr p)
      then show ?thesis
        using h magic version hd
        by (auto simp: new_binary_eq read_preamble_def case_prod_beta and_then_def split: sum.splits)
    qed
  qed (use magic in \<open>simp add: new_binary_eq read_preamble_def case_prod_beta\<close>)
qed (simp add: new_binary_eq read_preamble_def)

lemma from_binary_rest:
  assumes "from_binary codec bs = Inr c"
  shows "\<exists>v n rest. read_preamble codec bs = Inr ((v, cap_header c, n), rest)
    \<and> rest_events codec (opened (cap_header c) n rest) = Inr (capture_events c)"
  using assms
  by (auto simp: from_binary_def read_capture_def read_preamble_def and_then_Inr_iff read_binary_settings_observations_def
      read_framed_Inr_iff [OF items_take_four(1)] read_framed_Inr_iff [OF items_take_four(2)]
      read_framed_Inr_iff [OF items_take_four(3)] rest_events_def opened_def rest_after_records_def rest_locations_def
      rest_after_locations_def rest_settings_def capture_events_def split: if_splits)

lemma rest_from_binary:
  assumes "read_preamble codec bs = Inr ((v, h, n), rest)" "rest_events codec (opened h n rest) = Inr evs"
  shows "\<exists>c. from_binary codec bs = Inr c \<and> cap_header c = h \<and> capture_events c = evs"
  using assms
  by (auto simp: from_binary_def read_capture_def read_preamble_def and_then_Inr_iff read_binary_settings_observations_def
      read_framed_Inr_iff [OF items_take_four(1)] read_framed_Inr_iff [OF items_take_four(2)]
      read_framed_Inr_iff [OF items_take_four(3)] rest_events_def opened_def rest_after_records_def rest_locations_def
      rest_after_locations_def rest_settings_def capture_events_def map_sum_Inr_iff split: if_splits)


end
