(* ===== verification/Spec2Isabelle.thy ===== *)
theory Spec2Isabelle
  imports
    Prelude Interfaces Ordered_Map Core_Units Evidence Parser
    Begode_Frame Begode_Bms Begode_Charging Veteran_Frame Vesc_Frame
    Ride_Session Connection_Lifecycle Capture_Lifecycle Camera Session_Capture
    Phone_Drive Turn_Signals Device_Settings Device_Actions Phone_Alarm
    Melk_Lighting Melk_Session Melk_Actions
    Ride_Recording Elapsed_Time Moving_Time Recovery
    Callback_Epoch Player_Request Music_Model Music_History Music_Connection Music_Observation
    Music_Provider
    Quantities Telemetry Battery_Page Bms_History Session_Output Commands Host_Session
    Begode_Pack Begode_Telemetry Begode_Session Veteran_Bms Veteran_Telemetry Veteran_Session
    Float_Bits Pevcap_Labels Pevcap_Records Pevcap_Header Pevcap_Binary Pevcap_Stream
begin

text \<open>
  A verification library for the Rust workspace of \<^verbatim>\<open>libcutout\<close>, the shared core of a companion app
  for electric unicycles and boards.  All paths are below \<^verbatim>\<open>src/crates\<close>.

  \<^bold>\<open>The program.\<close>  Wheels send bytes over Bluetooth notifications.  \<^verbatim>\<open>cutout-protocols\<close> turns them into
  frames and frames into telemetry.  \<^verbatim>\<open>cutout-core\<close> keeps the state of a device session: the connection
  attempt, the capture that writes the raw stream to disk, the logical ride with its live activity,
  the camera, and the phone used as a throttle.  \<^verbatim>\<open>cutout-ride-maps\<close> keeps what a recorded ride needs to
  survive restarts: its lifecycle, its elapsed and moving time, and the evidence that decides whether
  an interrupted ride is resumed.  \<^verbatim>\<open>cutout-music\<close> owns the connection to a music provider, its commands
  and what is remembered of the music of a ride.  \<^verbatim>\<open>cutout-application\<close> drives a lighting accessory.  The native apps call these owners and carry out the effects they return, so the
  correctness of the program rests on small state machines that must hold for every order of calls,
  late callbacks and retries included.

  \<^bold>\<open>Shared theories.\<close>  \<open>Prelude\<close> has the machine integers (checked, saturating and wrapping arithmetic
  on words, big-endian bytes), slices and text, with the collection \<open>unat_rust\<close> that reads word
  operations as natural numbers.  \<open>Interfaces\<close> states the contracts as locales: \<open>reducer\<close> (an invariant
  kept by every step holds in every run), \<open>identity_source\<close> (identities are issued in increasing
  order, never twice), \<open>one_shot_source\<close> (each identity is accepted at most once), \<open>ledger\<close> (work that
  is opened is settled exactly once or still outstanding) and \<open>byte_reassembler\<close> (a byte machine does
  not depend on how its stream is split and reports disjoint pieces of it, in order).  More locales
  stand with the components that need them: \<open>evidence_merge\<close> in \<open>Begode_Pack\<close> (merging facts that must
  agree does not depend on their order) and \<open>read_only_model\<close> in \<open>Host_Session\<close> (what a decoder promises
  to the session shell), which \<open>paged_model\<close> extends by the battery pages it puts out.  \<open>Ordered_Map\<close> has
  the ordered maps of the standard library and the locale \<open>record_family\<close>: calls on a map of records act
  on one record each.  Each locale is interpreted on the components below.  \<open>Core_Units\<close>, \<open>Evidence\<close> and
  \<open>Parser\<close> model the units, the trust in decoded values and the byte cursor of
  \<^verbatim>\<open>cutout-core/src/lib.rs\<close> and \<^verbatim>\<open>cutout-protocols/src/parser.rs\<close>; \<open>Float_Bits\<close> the binary64 numbers of the
  language, as bit patterns, with their comparisons proved to be those of the real numbers.

  \<^bold>\<open>Wire protocols.\<close>
  \<^item> \<open>Begode_Frame\<close> (\<^verbatim>\<open>begode_frame.rs\<close>, the byte loop of \<^verbatim>\<open>session.rs\<close>): the 24-byte frame
    reassembler with its resynchronisation.  Reported frames are valid disjoint pieces of the stream,
    splitting a stream without malformed frames changes nothing (a malformed frame loses the rest of its
    notification), and valid frames are reported except for a payload that imitates a terminator glitch.
  \<^item> \<open>Begode_Bms\<close> (\<^verbatim>\<open>begode_bms.rs\<close>) and \<open>Begode_Charging\<close> (\<^verbatim>\<open>begode_charging.rs\<close>): BMS pages, and the
    charging estimate from the voltage of a parked wheel.  A report of charging implies a minute of
    standstill and a rise of 200 mV over two minutes, and lapses exactly at its published deadline.
  \<^item> \<open>Begode_Pack\<close> and \<open>Begode_Telemetry\<close> (\<^verbatim>\<open>begode_telemetry.rs\<close>): what annotations say of a battery
    pack, whatever their order, and the telemetry pages with their units and battery estimate.
  \<^item> \<open>Veteran_Frame\<close> (\<^verbatim>\<open>veteran_frame.rs\<close>, the loop of \<^verbatim>\<open>session.rs\<close>): frames of declared size
    with a checksum; the checksum function of the external package is the argument \<open>crc32\<close>.
  \<^item> \<open>Veteran_Bms\<close> (\<^verbatim>\<open>veteran_bms.rs\<close>) and \<open>Veteran_Telemetry\<close> (\<^verbatim>\<open>veteran_telemetry.rs\<close>,
    \<^verbatim>\<open>battery_profile.rs\<close>): BMS pages with numbered cells, model profiles, and the fixed header of a frame;
    the battery estimate of every model rises with the voltage between the ends of its pack.
  \<^item> \<open>Vesc_Frame\<close> (\<^verbatim>\<open>vesc_codec.rs\<close>): frame boundaries, encoders, and the bounded stream decoder.  The
    positional buffer refines a scanner over the pending bytes; encoded frames round trip and are
    decoded when their last fragment arrives; a full buffer blocks.  The checksum \<open>crc16\<close> and the reply
    decoder \<open>decode\<close> of external packages are arguments of the definitions.

  \<^bold>\<open>From frames to telemetry.\<close>
  \<^item> \<open>Quantities\<close> and \<open>Telemetry\<close> (\<^verbatim>\<open>cutout-core/src/lib.rs\<close>, \<^verbatim>\<open>battery_current.rs\<close>): the conversions of
    decoded values with their saturation, partial updates and the snapshot they build, and the ride state
    resolved from it.  The snapshot holds the latest value of every field; charging is shown exactly when
    there is evidence and no fresh motion against it.
  \<^item> \<open>Battery_Page\<close> (\<^verbatim>\<open>battery_page.rs\<close>) and \<open>Bms_History\<close> (\<^verbatim>\<open>session_state.rs\<close>): pages, summaries that
    single wrong samples do not move, and the bounded history of a session.
  \<^item> \<open>Session_Output\<close> (\<^verbatim>\<open>cutout-core/src/lib.rs\<close>, \<^verbatim>\<open>session_state.rs\<close>), \<open>Commands\<close> (\<^verbatim>\<open>probe.rs\<close>,
    \<^verbatim>\<open>request_encoder.rs\<close>) and \<open>Host_Session\<close> (\<^verbatim>\<open>session.rs\<close>, \<open>HostSession\<close> of \<^verbatim>\<open>cutout-core/src/lib.rs\<close>): the
    outputs of a session and their intake by the root, read requests, and the read-only session shell
    for any model of a wheel.
  \<^item> \<open>Begode_Session\<close> (\<^verbatim>\<open>session.rs\<close>): the decoder and the Falcon session.  The root always shows the charge
    mode of the charging estimate, and the session writes nothing but the read requests asked for.
  \<^item> \<open>Veteran_Session\<close> (\<^verbatim>\<open>session.rs\<close>, \<^verbatim>\<open>request_encoder.rs\<close>, \<^verbatim>\<open>raw_settings.rs\<close>): the decoder and the Aero
    session.  A valid frame reaches the root however it is cut into notifications; the session never
    writes and keeps its retained pages within their bounds.

  \<^bold>\<open>Device session.\<close>
  \<^item> \<open>Ride_Session\<close> (\<^verbatim>\<open>cutout-core/src/ride_lifecycle.rs\<close>): the reducer of a ride; invariant, soundness of
    every effect, one activity at a time, replacement of a ride, and the relaunch marker.  The JSON and
    UUID text codecs are arguments, with the hypothesis that decoding inverts encoding.
  \<^item> \<open>Connection_Lifecycle\<close> (\<^verbatim>\<open>connection_lifecycle.rs\<close>): attempts, retries with back-off and budget;
    retired attempts never come back.
  \<^item> \<open>Capture_Lifecycle\<close> (\<^verbatim>\<open>capture_lifecycle.rs\<close>), \<open>Camera\<close> (\<^verbatim>\<open>camera.rs\<close>) and \<open>Session_Capture\<close>
    (\<^verbatim>\<open>session_state.rs\<close>): captures complete at most once, a capture releases only the transport it owns
    while it is current, and the list of camera media is bounded.
  \<^item> \<open>Phone_Drive\<close> (\<^verbatim>\<open>phone_drive.rs\<close> and the current encoder of \<^verbatim>\<open>vesc_codec.rs\<close>): a press is a clean hold,
    cancelled input is dead, budgets round trip, and the current reaches the wire unchanged.
  \<^item> \<open>Turn_Signals\<close> (\<^verbatim>\<open>turn_signals.rs\<close>): a signal needs a sustained lean, and the gyroscope is started
    once per need.
  \<^item> \<open>Device_Settings\<close> (\<^verbatim>\<open>settings.rs\<close>, \<^verbatim>\<open>device_settings.rs\<close>): a written setting is confirmed only by a
    readback of the requested value, and every request has at most one receipt.
  \<^item> \<open>Device_Actions\<close> (\<^verbatim>\<open>device_actions.rs\<close>, \<^verbatim>\<open>cutout-protocols/src/device_connection/actions.rs\<close>): the
    progress of an action, and the dispatch that reports it.
  \<^item> \<open>Phone_Alarm\<close> (\<^verbatim>\<open>phone_alarm.rs\<close>): preferences, policies and the queue of deliveries; an alarm is
    scheduled exactly when it is due, and every delivery is settled once.

  \<^bold>\<open>Ride records.\<close>  \<open>Ride_Recording\<close> (\<^verbatim>\<open>cutout-ride-maps/src/lifecycle.rs\<close>), \<open>Elapsed_Time\<close>
  (\<^verbatim>\<open>elapsed_time.rs\<close>), \<open>Moving_Time\<close> (\<^verbatim>\<open>moving_time.rs\<close>) and \<open>Recovery\<close> (\<^verbatim>\<open>recovery.rs\<close>): the histories of a
  saved ride, elapsed time as the time between readings, moving time as a count of milliseconds at
  which the freshest trusted source reports motion, and evidence that is never taken back.

  \<^bold>\<open>Captures.\<close>  The capture format of \<^verbatim>\<open>cutout-core/src/pevcap.rs\<close> with \<^verbatim>\<open>capture_annotations.rs\<close> and
  \<^verbatim>\<open>capture_research.rs\<close>.
  \<^item> \<open>Pevcap_Labels\<close>: labels with reserved room to close them, so an open label can always be closed.
  \<^item> \<open>Pevcap_Records\<close>: the records, settings worksheets and locations of a capture, with their
    validation; a location read back is in the range of the earth.
  \<^item> \<open>Pevcap_Header\<close>: the header with its checks.
  \<^item> \<open>Pevcap_Binary\<close>: the binary container, written and read whole; what is written is read back, and
    nothing but one complete container is accepted.
  \<^item> \<open>Pevcap_Stream\<close>: the incremental reader, which delivers what the whole-file reader accepts and fails
    where it fails.  Its source is a list of bytes.
  The text codec of the header and the records (the external package \<^verbatim>\<open>serde_json\<close>, built without exact
  floating-point parsing) is the argument \<open>codec\<close>; the hypothesis is that it reads back what it wrote.

  \<^bold>\<open>Lighting accessory.\<close>  \<open>Melk_Lighting\<close> (\<^verbatim>\<open>cutout-core/src/melk_controls.rs\<close>,
  \<^verbatim>\<open>cutout-protocols/src/melk_lighting.rs\<close>) has the nine-byte frames and their round trip; \<open>Melk_Session\<close>
  (\<^verbatim>\<open>cutout-application/src/lighting/melk/session\<close>) the session reducer; \<open>Melk_Actions\<close> what it asks of the
  platform over whole runs: only the selected peripheral is addressed, the initialisation is written
  before anything else, and retries end.  The parser of peripheral identifiers is the argument \<open>parse\<close>.

  \<^bold>\<open>Music.\<close>  All of \<^verbatim>\<open>cutout-music/src\<close>.
  \<^item> \<open>Callback_Epoch\<close> (\<^verbatim>\<open>ids.rs\<close>, \<^verbatim>\<open>callback_epoch.rs\<close>) and \<open>Player_Request\<close> (\<^verbatim>\<open>player_request.rs\<close>): identities
    are issued once and accepted once, and superseded polls are stale.
  \<^item> \<open>Music_Model\<close> (\<^verbatim>\<open>model.rs\<close>) and \<open>Music_History\<close> (\<^verbatim>\<open>history.rs\<close>): bounded metadata, and the timeline of a
    ride, which survives saving and loading.
  \<^item> \<open>Music_Connection\<close> (\<^verbatim>\<open>monitor.rs\<close>, \<^verbatim>\<open>connection.rs\<close>) and \<open>Music_Observation\<close> (\<^verbatim>\<open>observation.rs\<close>): bounded
    attempts, and observations held while a skip command is outstanding.
  \<^item> \<open>Music_Provider\<close> (\<^verbatim>\<open>provider_lifecycle.rs\<close>): the owner that joins them; each command ends once and
    belongs to the current connection, and history is never stuck behind a command.

  \<^bold>\<open>Conventions.\<close>  A Rust struct is a record, an enum a datatype, a \<open>u8\<close> to \<open>u128\<close> a word of that
  width; signed quantities are integers with their saturation or range written out.  A method that
  mutates its receiver returns the new state, after its result when it has one; \<open>Result\<close> is a sum
  with the error on the left.  A run is a \<open>foldl\<close> of a step function over a list of calls, so a theorem
  about all runs is about every order of calls.  No definition uses fuel: the scan loop of the VESC
  decoder and the expiry loop of moving time are functions with a termination proof.

  \<^bold>\<open>Not modelled.\<close>  Transports, storage, servers, bindings and user interfaces are input and output; the
  tables of settings and the registry are data; the replies of the external VESC package and the
  readers of camera firmware rest on formats of other parties; energy estimates and map projections
  are floating-point formulas without a reference to prove them against.  Of the modelled parts, the
  line-oriented text form of captures, the text of music metadata, control sessions that write settings,
  the VESC session, and the identification of a device are left out.
\<close>

end
